(* ===== verification/Prelude.thy ===== *)
theory Prelude
  imports Main
begin

text \<open>
  Shared vocabulary of the development: the basic types, HTTP replies and effects, and the
  tables of the SQLite store as lists of rows in rowid order, with the statements the Go code
  issues against them (lookup by key, \<open>INSERT\<close>, \<open>INSERT OR IGNORE\<close>, upsert, \<open>UPDATE\<close>,
  \<open>DELETE\<close>) and the lemmas every component uses about them.
\<close>

subsection \<open>Basic types\<close>

text \<open>
  Go strings and byte slices are both sequences of bytes; \<open>char\<close> has exactly 256 values, so
  \<open>string\<close> models both and the conversions \<open>[]byte(s)\<close> are the identity. Times are Unix seconds,
  signed 64-bit sequence numbers and epochs are \<open>int\<close> (bounds are written out where the code
  checks them).
\<close>

type_synonym ident = string
type_synonym bytes = string
type_synonym time = int

text \<open>
  Every SQL statement of a handler may fail (a full disk, a cancelled context). A handler takes
  an oracle that says which of its statements fail, numbered in program order.
\<close>

type_synonym faults = "nat \<Rightarrow> bool"

definition no_faults :: faults where
  "no_faults = (\<lambda>_. False)"

lemma no_faults_apply [simp]: "no_faults n = False"
  by (simp add: no_faults_def)

definition shift_faults :: "nat \<Rightarrow> faults \<Rightarrow> faults" where
  "shift_faults k f = (\<lambda>n. f (n + k))"

lemma shift_no_faults [simp]: "shift_faults k no_faults = no_faults"
  by (simp add: shift_faults_def no_faults_def)

text \<open>What a handler writes to its response: a status with a body, or an error.\<close>

datatype 'b reply = Reply nat 'b | Err nat string

fun reply_status :: "'b reply \<Rightarrow> nat" where
  "reply_status (Reply s _) = s"
| "reply_status (Err s _) = s"

fun is_reply :: "'b reply \<Rightarrow> bool" where
  "is_reply (Reply _ _) = True"
| "is_reply (Err _ _) = False"

text \<open>The effects a handler has beside the database: waking subscribers and closing sockets.\<close>

datatype effect = Wake ident | DisconnectUser ident | DisconnectDevice ident

text \<open>Errors as values: the API errors of \<open>core.APIError\<close> and everything else.\<close>

datatype go_error = APIError nat string | OtherError string

subsection \<open>Collections of facts\<close>

named_theorems table_simps \<open>equations for the table operations\<close>
named_theorems table_intros \<open>key uniqueness is kept by the table operations\<close>

subsection \<open>Tables\<close>

text \<open>\<open>QueryRow(...).Scan\<close> reads the first row; no row is \<open>sql.ErrNoRows\<close>.\<close>

definition query_row :: "'a list \<Rightarrow> 'a option" where
  "query_row xs = (case xs of [] \<Rightarrow> None | x # _ \<Rightarrow> Some x)"

lemma query_row_simps [simp]:
  "query_row [] = None"
  "query_row (x # xs) = Some x"
  by (simp_all add: query_row_def)

lemma query_row_SomeD: "query_row xs = Some x \<Longrightarrow> x \<in> set xs"
  by (cases xs) auto

lemma query_row_None_iff [simp]: "query_row xs = None \<longleftrightarrow> xs = []"
  by (cases xs) auto

lemma query_row_eqI:
  assumes "x \<in> set xs" and "\<And>y. y \<in> set xs \<Longrightarrow> y = x"
  shows "query_row xs = Some x"
proof (cases xs)
  case Nil
  with assms(1) show ?thesis by simp
next
  case (Cons y ys)
  with assms(2) [of y] show ?thesis by simp
qed

text \<open>Lookup by a key.\<close>

definition get_row :: "('r \<Rightarrow> 'k) \<Rightarrow> 'k \<Rightarrow> 'r list \<Rightarrow> 'r option" where
  "get_row key k t = find (\<lambda>r. key r = k) t"

definition unique_on :: "('r \<Rightarrow> 'k) \<Rightarrow> 'r list \<Rightarrow> bool" where
  "unique_on key t \<longleftrightarrow> distinct (map key t)"

text \<open>\<open>INSERT\<close> into a table with a primary key: \<open>None\<close> is the constraint violation.\<close>

definition insert_row :: "('r \<Rightarrow> 'k) \<Rightarrow> 'r \<Rightarrow> 'r list \<Rightarrow> 'r list option" where
  "insert_row key r t = (if get_row key (key r) t = None then Some (t @ [r]) else None)"

text \<open>\<open>INSERT OR IGNORE\<close> (and \<open>ON CONFLICT DO NOTHING\<close>).\<close>

definition insert_ignore :: "('r \<Rightarrow> 'k) \<Rightarrow> 'r \<Rightarrow> 'r list \<Rightarrow> 'r list" where
  "insert_ignore key r t = (if get_row key (key r) t = None then t @ [r] else t)"

text \<open>\<open>UPDATE ... SET ... WHERE\<close> and \<open>DELETE ... WHERE\<close>.\<close>

definition update_rows :: "('r \<Rightarrow> bool) \<Rightarrow> ('r \<Rightarrow> 'r) \<Rightarrow> 'r list \<Rightarrow> 'r list" where
  "update_rows p f t = map (\<lambda>r. if p r then f r else r) t"

definition delete_rows :: "('r \<Rightarrow> bool) \<Rightarrow> 'r list \<Rightarrow> 'r list" where
  "delete_rows p t = filter (\<lambda>r. \<not> p r) t"

definition count_rows :: "('r \<Rightarrow> bool) \<Rightarrow> 'r list \<Rightarrow> nat" where
  "count_rows p t = length (filter p t)"

text \<open>\<open>INSERT ... ON CONFLICT(key) DO UPDATE SET ...\<close>: \<open>merge new old\<close> is the updated row.\<close>

definition upsert_row :: "('r \<Rightarrow> 'k) \<Rightarrow> ('r \<Rightarrow> 'r \<Rightarrow> 'r) \<Rightarrow> 'r \<Rightarrow> 'r list \<Rightarrow> 'r list" where
  "upsert_row key merge r t =
     (if get_row key (key r) t = None then t @ [r]
      else update_rows (\<lambda>x. key x = key r) (merge r) t)"

subsection \<open>Lookup\<close>

lemma get_row_simps [simp]:
  "get_row key k [] = None"
  "get_row key k (r # t) = (if key r = k then Some r else get_row key k t)"
  by (simp_all add: get_row_def)

lemma get_row_None_iff: "get_row key k t = None \<longleftrightarrow> k \<notin> key ` set t"
  by (induction t) auto

lemma get_row_SomeD: "get_row key k t = Some r \<Longrightarrow> r \<in> set t \<and> key r = k"
  by (induction t) (auto split: if_splits)

lemma get_row_eqI: "unique_on key t \<Longrightarrow> r \<in> set t \<Longrightarrow> key r = k \<Longrightarrow> get_row key k t = Some r"
  by (induction t) (auto simp: unique_on_def)

lemma get_row_iff:
  "unique_on key t \<Longrightarrow> get_row key k t = Some r \<longleftrightarrow> r \<in> set t \<and> key r = k"
  by (blast dest: get_row_SomeD intro: get_row_eqI)

lemma get_row_append [table_simps]:
  "get_row key k (t @ u) = (case get_row key k t of None \<Rightarrow> get_row key k u | Some r \<Rightarrow> Some r)"
  by (induction t) auto

lemma unique_on_eqD:
  "unique_on key t \<Longrightarrow> r \<in> set t \<Longrightarrow> s \<in> set t \<Longrightarrow> key r = key s \<Longrightarrow> r = s"
  unfolding unique_on_def by (metis distinct_map inj_onD)

lemma get_row_update_key [table_simps]:
  assumes "\<And>r. key (f r) = key r"
  shows "get_row key k (update_rows p f t) =
    map_option (\<lambda>r. if p r then f r else r) (get_row key k t)"
  by (induction t) (auto simp: update_rows_def assms)

lemma get_row_delete [table_simps]:
  "unique_on key t \<Longrightarrow> get_row key k (delete_rows p t) =
    (case get_row key k t of None \<Rightarrow> None | Some r \<Rightarrow> if p r then None else Some r)"
proof (induction t)
  case (Cons r t)
  then have "key r = k \<Longrightarrow> get_row key k t = None"
    by (auto simp: unique_on_def get_row_None_iff)
  with Cons show ?case by (auto simp: delete_rows_def unique_on_def)
qed (simp add: delete_rows_def)

subsection \<open>Key uniqueness\<close>

lemma unique_on_Nil [simp, table_intros]: "unique_on key []"
  by (simp add: unique_on_def)

lemma unique_on_append1:
  "unique_on key t \<Longrightarrow> key r \<notin> key ` set t \<Longrightarrow> unique_on key (t @ [r])"
  by (simp add: unique_on_def)

lemma insert_row_SomeD:
  "insert_row key r t = Some t' \<Longrightarrow> t' = t @ [r] \<and> key r \<notin> key ` set t"
  by (auto simp: insert_row_def get_row_None_iff split: if_splits)

lemma unique_on_insert [table_intros]:
  "insert_row key r t = Some t' \<Longrightarrow> unique_on key t \<Longrightarrow> unique_on key t'"
  by (auto dest!: insert_row_SomeD intro: unique_on_append1)

lemma unique_on_ignore [table_intros]: "unique_on key t \<Longrightarrow> unique_on key (insert_ignore key r t)"
  by (auto simp: insert_ignore_def get_row_None_iff intro: unique_on_append1)

lemma unique_on_update [table_intros]:
  assumes "\<And>r. key (f r) = key r" "unique_on key t"
  shows "unique_on key (update_rows p f t)"
proof -
  have "map key (update_rows p f t) = map key t"
    by (induction t) (auto simp: update_rows_def assms(1))
  with assms(2) show ?thesis by (simp add: unique_on_def)
qed

lemma unique_on_delete [table_intros]: "unique_on key t \<Longrightarrow> unique_on key (delete_rows p t)"
  by (simp add: unique_on_def delete_rows_def distinct_map_filter)

lemma unique_on_upsert [table_intros]:
  assumes "\<And>r s. key (merge r s) = key s" "unique_on key t"
  shows "unique_on key (upsert_row key merge r t)"
  using assms
  by (auto simp: upsert_row_def get_row_None_iff intro: unique_on_append1 unique_on_update)

subsection \<open>Members of the updated tables\<close>

lemma set_update_rows: "set (update_rows p f t) = (\<lambda>r. if p r then f r else r) ` set t"
  by (simp add: update_rows_def)

lemma set_delete_rows: "set (delete_rows p t) = {r \<in> set t. \<not> p r}"
  by (simp add: delete_rows_def)

lemma update_rows_Nil [simp]: "update_rows p f [] = []"
  by (simp add: update_rows_def)

lemma update_rows_id: "(\<And>r. r \<in> set t \<Longrightarrow> \<not> p r) \<Longrightarrow> update_rows p f t = t"
  by (induction t) (auto simp: update_rows_def)

lemma map_update_rows: "(\<And>r. g (f r) = g r) \<Longrightarrow> map g (update_rows p f t) = map g t"
  by (induction t) (auto simp: update_rows_def)

lemma set_upsert_row:
  "set (upsert_row key merge r t) =
    (if key r \<in> key ` set t
     then (\<lambda>x. if key x = key r then merge r x else x) ` set t else insert r (set t))"
  by (simp add: upsert_row_def get_row_None_iff set_update_rows)

lemma get_row_upsert_same:
  assumes "\<And>r s. key (merge r s) = key s"
  shows "get_row key (key r) (upsert_row key merge r t) =
    Some (case get_row key (key r) t of None \<Rightarrow> r | Some x \<Rightarrow> merge r x)"
proof (cases "get_row key (key r) t")
  case (Some x)
  then have "key x = key r" by (blast dest: get_row_SomeD)
  with Some show ?thesis
    by (simp add: upsert_row_def get_row_update_key assms)
qed (simp add: upsert_row_def get_row_append)

lemma get_row_upsert_other:
  assumes "\<And>r s. key (merge r s) = key s" "k \<noteq> key r"
  shows "get_row key k (upsert_row key merge r t) = get_row key k t"
proof (cases "get_row key (key r) t")
  case None
  with assms(2) show ?thesis
    by (simp add: upsert_row_def get_row_append split: option.split)
next
  case (Some x)
  have "get_row key k (update_rows (\<lambda>x. key x = key r) (merge r) t) = get_row key k t"
    using assms by (induction t) (auto simp: update_rows_def)
  with Some show ?thesis by (simp add: upsert_row_def)
qed

subsection \<open>The contract of a keyed table\<close>

text \<open>
  What the handlers rely on when they deduplicate by a primary key (operations, tickets,
  key packages): a successful insert is found again, leaves every other key alone, and a second
  insert of the key is refused until the row is deleted.
\<close>

locale keyed_table =
  fixes key :: "'r \<Rightarrow> 'k"
    and get :: "'k \<Rightarrow> 't \<Rightarrow> 'r option"
    and ins :: "'r \<Rightarrow> 't \<Rightarrow> 't option"
    and valid :: "'t \<Rightarrow> bool"
  assumes get_ins: "ins r t = Some t' \<Longrightarrow> get (key r) t' = Some r"
    and get_ins_other: "ins r t = Some t' \<Longrightarrow> k \<noteq> key r \<Longrightarrow> get k t' = get k t"
    and ins_None_iff: "ins r t = None \<longleftrightarrow> get (key r) t \<noteq> None"
    and valid_ins: "valid t \<Longrightarrow> ins r t = Some t' \<Longrightarrow> valid t'"
begin

lemma second_insert_refused:
  "ins r t = Some t' \<Longrightarrow> key s = key r \<Longrightarrow> ins s t' = None"
  using get_ins ins_None_iff by fastforce

lemma get_stable:
  assumes "ins r t = Some t'" "get k t = Some x"
  shows "get k t' = Some x"
proof (cases "k = key r")
  case True
  with assms(2) have "ins r t = None" by (simp add: ins_None_iff)
  with assms(1) show ?thesis by simp
next
  case False
  with assms show ?thesis using get_ins_other by simp
qed

lemma inserts_commute_lookup:
  "ins r t = Some t' \<Longrightarrow> ins s t' = Some t'' \<Longrightarrow> get (key r) t'' = Some r"
  using get_stable get_ins by blast

end

interpretation list_table: keyed_table key "get_row key" "insert_row key" "unique_on key" for key
proof
  fix r t t' assume "insert_row key r t = Some t'"
  then have t': "t' = t @ [r]" "key r \<notin> key ` set t" by (auto dest: insert_row_SomeD)
  then have "get_row key (key r) t = None" by (simp add: get_row_None_iff)
  with t' show "get_row key (key r) t' = Some r" by (simp add: get_row_append)
next
  fix r t t' k assume "insert_row key r t = Some t'" "k \<noteq> key r"
  then show "get_row key k t' = get_row key k t"
    by (auto dest!: insert_row_SomeD simp: get_row_append split: option.split)
qed (auto simp: insert_row_def get_row_None_iff intro: unique_on_append1 split: if_splits)

subsection \<open>Lists\<close>

lemma find_eq_query: "find p xs = query_row (filter p xs)"
  by (induction xs) auto

lemma find_SomeD: "find p xs = Some x \<Longrightarrow> x \<in> set xs \<and> p x"
  by (auto simp: find_eq_query dest: query_row_SomeD)

lemma sorted_wrt_filter_append1:
  "sorted_wrt R (xs @ [y]) \<longleftrightarrow> sorted_wrt R xs \<and> (\<forall>x \<in> set xs. R x y)"
  by (simp add: sorted_wrt_append)

end
