(* ===== verification/Codec.thy ===== *)
theory Codec
  imports Prelude
begin

text \<open>
  The Go standard library encodings the program composes its keys, digests and associated data
  from: lower-case hexadecimal (\<open>encoding/hex\<close>), padded base64 (\<open>encoding/base64\<close>), decimal
  integers (\<open>strconv\<close>) and the JSON string escaping of \<open>encoding/json\<close>; and \<open>validID\<close>, the
  syntax check of \<open>internal/core/management.go\<close> for identifiers.
\<close>

subsection \<open>Bytes\<close>

abbreviation byte :: "char \<Rightarrow> nat" where
  "byte c \<equiv> of_char c"

abbreviation chr :: "nat \<Rightarrow> char" where
  "chr n \<equiv> char_of n"

subsection \<open>Hexadecimal\<close>

definition hex_digit :: "nat \<Rightarrow> char" where
  "hex_digit n = (if n < 10 then chr (48 + n) else chr (87 + n))"

fun hex_encode :: "bytes \<Rightarrow> string" where
  "hex_encode [] = []"
| "hex_encode (c # cs) = hex_digit (byte c div 16) # hex_digit (byte c mod 16) # hex_encode cs"

text \<open>\<open>hex.DecodeString\<close> accepts both cases and needs an even number of digits.\<close>

definition hex_value :: "char \<Rightarrow> nat option" where
  "hex_value c =
     (let n = byte c in
      if 48 \<le> n \<and> n \<le> 57 then Some (n - 48)
      else if 97 \<le> n \<and> n \<le> 102 then Some (n - 87)
      else if 65 \<le> n \<and> n \<le> 70 then Some (n - 55)
      else None)"

fun hex_decode :: "string \<Rightarrow> bytes option" where
  "hex_decode [] = Some []"
| "hex_decode [_] = None"
| "hex_decode (a # b # cs) =
     (case (hex_value a, hex_value b, hex_decode cs) of
        (Some x, Some y, Some r) \<Rightarrow> Some (chr (16 * x + y) # r)
      | _ \<Rightarrow> None)"

lemma byte_hex_digit: "n < 16 \<Longrightarrow> byte (hex_digit n) = (if n < 10 then 48 + n else 87 + n)"
  by (simp add: hex_digit_def)

lemma hex_value_digit [simp]: "n < 16 \<Longrightarrow> hex_value (hex_digit n) = Some n"
  by (simp add: hex_value_def byte_hex_digit Let_def)

lemma byte_less_256 [simp]: "byte c < 256"
  using of_char_mod_256 [of c] by (metis mod_less_divisor zero_less_numeral)

lemma chr_byte_split [simp]: "chr (16 * (byte c div 16) + byte c mod 16) = c"
  by (simp add: mult.commute)

theorem hex_decode_encode [simp]: "hex_decode (hex_encode bs) = Some bs"
proof (induction bs)
  case (Cons c cs)
  have "byte c div 16 < 16" using byte_less_256 [of c] by linarith
  moreover have "byte c mod 16 < 16" by simp
  ultimately show ?case using Cons by (simp del: char_of_nat) 
qed simp

lemma length_hex_encode [simp]: "length (hex_encode bs) = 2 * length bs"
  by (induction bs) auto

lemma hex_encode_inject [simp]: "hex_encode xs = hex_encode ys \<longleftrightarrow> xs = ys"
  by (metis hex_decode_encode option.inject)

subsection \<open>Base64 (standard alphabet, padded)\<close>

definition b64_digit :: "nat \<Rightarrow> char" where
  "b64_digit n =
     (if n < 26 then chr (65 + n) else if n < 52 then chr (71 + n)
      else if n < 62 then chr (n - 4) else if n = 62 then CHR ''+'' else CHR ''/'')"

fun b64_encode :: "bytes \<Rightarrow> string" where
  "b64_encode [] = []"
| "b64_encode [a] =
     (let x = byte a in [b64_digit (x div 4), b64_digit ((x mod 4) * 16), CHR ''='', CHR ''=''])"
| "b64_encode [a, b] =
     (let x = byte a; y = byte b in
      [b64_digit (x div 4), b64_digit ((x mod 4) * 16 + y div 16), b64_digit ((y mod 16) * 4),
       CHR ''=''])"
| "b64_encode (a # b # c # cs) =
     (let x = byte a; y = byte b; z = byte c in
      b64_digit (x div 4) # b64_digit ((x mod 4) * 16 + y div 16)
        # b64_digit ((y mod 16) * 4 + z div 64) # b64_digit (z mod 64) # b64_encode cs)"

definition b64_value :: "char \<Rightarrow> nat option" where
  "b64_value c =
     (let n = byte c in
      if 65 \<le> n \<and> n \<le> 90 then Some (n - 65)
      else if 97 \<le> n \<and> n \<le> 122 then Some (n - 71)
      else if 48 \<le> n \<and> n \<le> 57 then Some (n + 4)
      else if n = 43 then Some 62 else if n = 47 then Some 63 else None)"

text \<open>
  Quadruples of the alphabet; the last one may be padded. The trailing bits of a padded
  quadruple are ignored unless the decoder is strict (\<open>base64.StdEncoding.Strict()\<close>).
\<close>

fun b64_quads :: "bool \<Rightarrow> string \<Rightarrow> bytes option" where
  "b64_quads strict [] = Some []"
| "b64_quads strict (a # b # c # d # cs) =
     (case (b64_value a, b64_value b) of
        (Some w, Some x) \<Rightarrow>
          (if c = CHR ''='' then
             (if d = CHR ''='' \<and> cs = [] \<and> (strict \<longrightarrow> x mod 16 = 0)
              then Some [chr (4 * w + x div 16)] else None)
           else (case b64_value c of
             None \<Rightarrow> None
           | Some y \<Rightarrow>
               (if d = CHR ''='' then
                  (if cs = [] \<and> (strict \<longrightarrow> y mod 4 = 0)
                   then Some [chr (4 * w + x div 16), chr ((x mod 16) * 16 + y div 4)] else None)
                else (case (b64_value d, b64_quads strict cs) of
                  (Some z, Some r) \<Rightarrow>
                    Some (chr (4 * w + x div 16) # chr ((x mod 16) * 16 + y div 4)
                            # chr ((y mod 4) * 64 + z) # r)
                | _ \<Rightarrow> None))))
      | _ \<Rightarrow> None)"
| "b64_quads strict _ = None"

text \<open>The decoder skips carriage returns and line feeds wherever they stand.\<close>

definition b64_decode_with :: "bool \<Rightarrow> string \<Rightarrow> bytes option" where
  "b64_decode_with strict s = b64_quads strict (filter (\<lambda>c. c \<noteq> chr 10 \<and> c \<noteq> chr 13) s)"

definition b64_decode :: "string \<Rightarrow> bytes option" where
  "b64_decode = b64_decode_with False"

definition b64_decode_strict :: "string \<Rightarrow> bytes option" where
  "b64_decode_strict = b64_decode_with True"

lemma byte_b64_digit:
  "n < 64 \<Longrightarrow> byte (b64_digit n) =
     (if n < 26 then 65 + n else if n < 52 then 71 + n else if n < 62 then n - 4
      else if n = 62 then 43 else 47)"
  by (simp add: b64_digit_def)

lemma b64_value_digit [simp]: "n < 64 \<Longrightarrow> b64_value (b64_digit n) = Some n"
  by (auto simp add: b64_value_def byte_b64_digit Let_def)

lemma b64_digit_plain:
  assumes "n < 64"
  shows "b64_digit n \<noteq> CHR ''=''" "b64_digit n \<noteq> chr 10" "b64_digit n \<noteq> chr 13"
proof -
  have "byte (b64_digit n) \<noteq> 61" "byte (b64_digit n) \<noteq> 10" "byte (b64_digit n) \<noteq> 13"
    using assms by (auto simp add: byte_b64_digit)
  then show "b64_digit n \<noteq> CHR ''=''" "b64_digit n \<noteq> chr 10" "b64_digit n \<noteq> chr 13"
    by auto
qed

lemma equals_plain: "CHR ''='' \<noteq> chr 10" "CHR ''='' \<noteq> chr 13"
  by (simp_all add: char_of_def)

lemma b64_parts:
  assumes "x < 256" "y < 256" "z < (256::nat)"
  shows "x div 4 < 64" "(x mod 4) * 16 < 64" "(x mod 4) * 16 + y div 16 < 64"
    "(y mod 16) * 4 < 64" "(y mod 16) * 4 + z div 64 < 64" "z mod 64 < 64"
  using assms by linarith+

lemma b64_joins:
  fixes y :: nat
  assumes "y < 256"
  shows "y div 16 mod 16 = y div 16" "y div 16 div 16 = 0" "y div 64 mod 4 = y div 64"
    "y div 64 div 4 = 0" "y div 16 * 16 + y mod 16 = y" "y div 64 * 64 + y mod 64 = y"
    "y div 4 * 4 + y mod 4 = y" "4 * (y div 4) + y mod 4 = y"
proof -
  have "y div 16 < 16" "y div 64 < 4" using assms by linarith+
  then show "y div 16 mod 16 = y div 16" "y div 16 div 16 = 0" "y div 64 mod 4 = y div 64"
    "y div 64 div 4 = 0"
    by simp_all
qed simp_all

lemma b64_quads_encode: "b64_quads strict (b64_encode bs) = Some bs"
proof (induction bs rule: b64_encode.induct)
  case (2 a)
  show ?case
    using b64_parts [of "byte a" 0 0] by (simp add: Let_def b64_joins)
next
  case (3 a b)
  show ?case
    using b64_parts [of "byte a" "byte b" 0] by (simp add: Let_def b64_digit_plain b64_joins)
next
  case (4 a b c cs)
  then show ?case
    using b64_parts [of "byte a" "byte b" "byte c"]
    by (simp add: Let_def b64_digit_plain b64_joins)
qed simp

lemma b64_encode_plain: "filter (\<lambda>c. c \<noteq> chr 10 \<and> c \<noteq> chr 13) (b64_encode bs) = b64_encode bs"
proof (induction bs rule: b64_encode.induct)
  case (2 a)
  show ?case
    using b64_parts [of "byte a" 0 0] by (simp add: Let_def b64_digit_plain equals_plain)
next
  case (3 a b)
  show ?case
    using b64_parts [of "byte a" "byte b" 0]
    by (simp add: Let_def b64_digit_plain equals_plain)
next
  case (4 a b c cs)
  then show ?case
    using b64_parts [of "byte a" "byte b" "byte c"] by (simp add: Let_def b64_digit_plain)
qed simp

lemma b64_decode_encode [simp]:
  "b64_decode_with strict (b64_encode bs) = Some bs"
  by (simp only: b64_decode_with_def b64_encode_plain b64_quads_encode)

subsection \<open>Decimal integers\<close>

fun dec_nat :: "nat \<Rightarrow> string" where
  "dec_nat n = (if n < 10 then [chr (48 + n)] else dec_nat (n div 10) @ [chr (48 + n mod 10)])"

declare dec_nat.simps [simp del]

definition dec_int :: "int \<Rightarrow> string" where
  "dec_int i = (if i < 0 then CHR ''-'' # dec_nat (nat (- i)) else dec_nat (nat i))"

subsection \<open>JSON strings\<close>

text \<open>
  \<open>encoding/json\<close> decodes UTF-8 while it escapes: \<open>utf8_size\<close> is the length of the valid sequence
  at the head of the input, 0 for an invalid byte (which is written as \<open>\ufffd\<close>).
\<close>

definition in_range :: "nat \<Rightarrow> nat \<Rightarrow> char \<Rightarrow> bool" where
  "in_range lo hi c \<longleftrightarrow> lo \<le> byte c \<and> byte c \<le> hi"

definition continuation :: "string \<Rightarrow> bool" where
  "continuation cs \<longleftrightarrow> (\<forall>c \<in> set cs. in_range 128 191 c)"

definition utf8_size :: "string \<Rightarrow> nat" where
  "utf8_size s =
     (case s of
        [] \<Rightarrow> 0
      | a # r \<Rightarrow>
          (let n = byte a;
               tail = (\<lambda>k lo hi. length (take k r) = k \<and> (\<forall>c \<in> set (take 1 r). in_range lo hi c)
                         \<and> continuation (drop 1 (take k r))) in
           if n < 128 then 1
           else if 194 \<le> n \<and> n \<le> 223 then (if tail 1 128 191 then 2 else 0)
           else if n = 224 then (if tail 2 160 191 then 3 else 0)
           else if n = 237 then (if tail 2 128 159 then 3 else 0)
           else if 225 \<le> n \<and> n \<le> 239 then (if tail 2 128 191 then 3 else 0)
           else if n = 240 then (if tail 3 144 191 then 4 else 0)
           else if 241 \<le> n \<and> n \<le> 243 then (if tail 3 128 191 then 4 else 0)
           else if n = 244 then (if tail 3 128 143 then 4 else 0)
           else 0))"

definition json_safe :: "char \<Rightarrow> bool" where
  "json_safe c \<longleftrightarrow> 32 \<le> byte c \<and> byte c < 128
     \<and> c \<noteq> CHR 0x22 \<and> c \<noteq> CHR 0x5C \<and> c \<noteq> CHR ''<'' \<and> c \<noteq> CHR ''>'' \<and> c \<noteq> CHR ''&''"

definition json_escape1 :: "char \<Rightarrow> string" where
  "json_escape1 c =
     (if json_safe c then [c]
      else if c = CHR 0x5C \<or> c = CHR 0x22 then [CHR 0x5C, c]
      else if byte c = 8 then [CHR 0x5C, CHR ''b'']
      else if byte c = 12 then [CHR 0x5C, CHR ''f'']
      else if byte c = 10 then [CHR 0x5C, CHR ''n'']
      else if byte c = 13 then [CHR 0x5C, CHR ''r'']
      else if byte c = 9 then [CHR 0x5C, CHR ''t'']
      else CHR 0x5C # ''u00'' @ [hex_digit (byte c div 16), hex_digit (byte c mod 16)])"

fun json_escape :: "string \<Rightarrow> string" where
  "json_escape [] = []"
| "json_escape (c # cs) =
     (if byte c < 128 then json_escape1 c @ json_escape cs
      else (let k = utf8_size (c # cs); s = take k (c # cs) in
        if k = 0 then (CHR 0x5C # ''ufffd'') @ json_escape cs
        else (if s = [chr 226, chr 128, chr 168] then CHR 0x5C # ''u2028''
              else if s = [chr 226, chr 128, chr 169] then CHR 0x5C # ''u2029'' else s)
             @ json_escape (drop (k - 1) cs)))"

definition json_string :: "string \<Rightarrow> string" where
  "json_string s = CHR 0x22 # json_escape s @ [CHR 0x22]"

definition json_member :: "string \<Rightarrow> string \<Rightarrow> string" where
  "json_member name val = json_string name @ [CHR '':''] @ val"

fun json_join :: "string list \<Rightarrow> string" where
  "json_join [] = []"
| "json_join [x] = x"
| "json_join (x # xs) = x @ [CHR '',''] @ json_join xs"

definition json_object :: "string list \<Rightarrow> string" where
  "json_object ms = CHR ''{'' # json_join ms @ [CHR ''}'']"

definition json_array :: "string list \<Rightarrow> string" where
  "json_array vs = CHR ''['' # json_join vs @ [CHR '']'']"

subsection \<open>Parsing integers\<close>

text \<open>
  \<open>strconv.ParseInt(s, 10, 64)\<close> (and \<open>strconv.Atoi\<close> on 64-bit platforms): the value and whether
  an error is returned; a syntax error gives 0, a range error the nearest bound.
\<close>

fun digits_value :: "nat \<Rightarrow> string \<Rightarrow> nat option" where
  "digits_value acc [] = Some acc"
| "digits_value acc (c # cs) =
     (if 48 \<le> byte c \<and> byte c \<le> 57 then digits_value (10 * acc + (byte c - 48)) cs else None)"

definition ParseInt :: "string \<Rightarrow> int \<times> bool" where
  "ParseInt s =
     (let neg = (s \<noteq> [] \<and> hd s = CHR ''-'');
          digits = (if s \<noteq> [] \<and> (hd s = CHR ''-'' \<or> hd s = CHR ''+'') then tl s else s) in
      if digits = [] then (0, True)
      else case digits_value 0 digits of
        None \<Rightarrow> (0, True)
      | Some n \<Rightarrow>
          (if \<not> neg \<and> n \<ge> 2 ^ 63 then (2 ^ 63 - 1, True)
           else if neg \<and> n > 2 ^ 63 then (- (2 ^ 63), True)
           else (if neg then - int n else int n, False)))"

subsection \<open>URL-safe base64\<close>

text \<open>\<open>base64.RawURLEncoding\<close>: no padding, \<open>-\<close> and \<open>_\<close> for \<open>+\<close> and \<open>/\<close>.\<close>

definition b64url_encode :: "bytes \<Rightarrow> string" where
  "b64url_encode bs =
     map (\<lambda>c. if c = CHR ''+'' then CHR ''-'' else if c = CHR ''/'' then CHR ''_'' else c)
       (filter (\<lambda>c. c \<noteq> CHR ''='') (b64_encode bs))"

subsection \<open>Identifiers\<close>

text \<open>
  \<open>validID\<close> ranges over runes; a byte of 128 or more starts a rune outside the accepted ASCII
  ranges (or the replacement rune), so checking bytes is the same.
\<close>

definition id_char :: "char \<Rightarrow> bool" where
  "id_char ch \<longleftrightarrow>
     (97 \<le> byte ch \<and> byte ch \<le> 122) \<or> (65 \<le> byte ch \<and> byte ch \<le> 90)
     \<or> (48 \<le> byte ch \<and> byte ch \<le> 57) \<or> ch = CHR ''-'' \<or> ch = CHR ''_'' \<or> ch = CHR ''.''"

definition validID :: "string \<Rightarrow> bool" where
  "validID v \<longleftrightarrow> \<not> (length v = 0 \<or> length v > 128) \<and> list_all id_char v"

end
