(* ===== verification/CryptoEnc.thy ===== *)
theory CryptoEnc
  imports Codec
begin

text \<open>
  \<open>internal/cryptoenc/engine.go\<close>: encryption at rest with one primary and up to four retired
  AES-256-GCM keys, HPKE envelopes, and the canonical JSON binding used as associated data.
  AES-GCM, SHA-256 and HPKE themselves are parameters (the record \<open>prims\<close>); what the code
  relies on of them is stated as hypotheses of the lemmas that need it.
\<close>

record prims =
  p_sha256 :: "bytes \<Rightarrow> bytes"
  p_gcm_seal :: "bytes \<Rightarrow> bytes \<Rightarrow> bytes \<Rightarrow> bytes \<Rightarrow> bytes"    \<comment> \<open>key, random nonce, plaintext, aad\<close>
  p_gcm_open :: "bytes \<Rightarrow> bytes \<Rightarrow> bytes \<Rightarrow> bytes option"      \<comment> \<open>key, sealed, aad\<close>
  p_hpke_public :: "bytes \<Rightarrow> bytes option"                    \<comment> \<open>private key; \<open>None\<close>: rejected\<close>
  p_hpke_accepts :: "bytes \<Rightarrow> bool"                           \<comment> \<open>public key parses\<close>
  p_hpke_seal :: "bytes \<Rightarrow> bytes \<Rightarrow> bytes \<Rightarrow> bytes \<Rightarrow> bytes \<Rightarrow> (bytes \<times> bytes) option"
    \<comment> \<open>public key, info, randomness, plaintext, aad; encapsulated key and ciphertext\<close>
  p_hpke_open :: "bytes \<Rightarrow> bytes \<Rightarrow> bytes \<Rightarrow> bytes \<Rightarrow> bytes \<Rightarrow> bytes option"
    \<comment> \<open>private key, info, encapsulated key, ciphertext, aad\<close>

record envelope =
  env_key_id :: string
  env_enc :: string
  env_ciphertext :: string

record engine =
  eng_aead :: bytes
  eng_private :: bytes
  eng_public :: bytes
  eng_id :: string
  eng_previousAEAD :: "bytes list"
  eng_previousHPKE :: "string \<rightharpoonup> bytes"

definition hpkeInfo :: bytes where
  "hpkeInfo = ''qgramm/basic/v1''"

definition keyID :: "prims \<Rightarrow> bytes \<Rightarrow> string" where
  "keyID P public = hex_encode (p_sha256 P public)"

subsection \<open>Construction\<close>

text \<open>The loop over the retired master keys: each must have 32 bytes.\<close>

fun add_masters :: "bytes list \<Rightarrow> engine \<Rightarrow> go_error + engine" where
  "add_masters [] e = Inr e"
| "add_masters (key # keys) e =
     (if length key \<noteq> 32
      then Inl (OtherError ''cryptoenc: retired master key must contain exactly 32 bytes'')
      else add_masters keys (e\<lparr>eng_previousAEAD := eng_previousAEAD e @ [key]\<rparr>))"

text \<open>The loop over the retired HPKE keys, indexed by the identifier of their public key.\<close>

fun add_hpke :: "prims \<Rightarrow> bytes list \<Rightarrow> engine \<Rightarrow> go_error + engine" where
  "add_hpke P [] e = Inr e"
| "add_hpke P (key # keys) e =
     (if length key \<noteq> 32
      then Inl (OtherError ''cryptoenc: retired HPKE key must contain exactly 32 bytes'')
      else case p_hpke_public P key of
        None \<Rightarrow> Inl (OtherError ''cryptoenc: invalid retired HPKE key'')
      | Some public \<Rightarrow>
          add_hpke P keys (e\<lparr>eng_previousHPKE := (eng_previousHPKE e)(keyID P public \<mapsto> key)\<rparr>))"

definition NewWithPrevious ::
  "prims \<Rightarrow> bytes \<Rightarrow> bytes \<Rightarrow> bytes list \<Rightarrow> bytes list \<Rightarrow> go_error + engine" where
  "NewWithPrevious P master hpkePrivate previousMasters previousHPKE =
     (if length previousMasters > 4 \<or> length previousHPKE > 4
      then Inl (OtherError ''cryptoenc: at most four retired keys of each kind allowed'')
      else if length master \<noteq> 32 \<or> length hpkePrivate \<noteq> 32
      then Inl (OtherError ''cryptoenc: keys must each contain exactly 32 bytes'')
      else case p_hpke_public P hpkePrivate of
        None \<Rightarrow> Inl (OtherError ''cryptoenc: invalid HPKE key'')
      | Some public \<Rightarrow>
          (case add_masters previousMasters
             \<lparr>eng_aead = master, eng_private = hpkePrivate, eng_public = public,
              eng_id = keyID P public, eng_previousAEAD = [], eng_previousHPKE = Map.empty\<rparr> of
             Inl err \<Rightarrow> Inl err
           | Inr e \<Rightarrow> add_hpke P previousHPKE e))"

subsection \<open>Storage encryption\<close>

definition storageAAD :: "bytes \<Rightarrow> bytes" where
  "storageAAD aad = chr 1 # aad"

text \<open>Frame: version byte, nonce, ciphertext, tag. \<open>nonce\<close> is the random nonce of the call.\<close>

definition Seal :: "prims \<Rightarrow> engine \<Rightarrow> bytes \<Rightarrow> bytes \<Rightarrow> bytes \<Rightarrow> bytes" where
  "Seal P e nonce plain aad = chr 1 # p_gcm_seal P (eng_aead e) nonce plain (storageAAD aad)"

text \<open>The random-nonce GCM adds a 12-byte nonce and a 16-byte tag.\<close>

definition gcm_overhead :: nat where
  "gcm_overhead = 28"

fun open_retired :: "prims \<Rightarrow> bytes list \<Rightarrow> bytes \<Rightarrow> bytes \<Rightarrow> bytes option" where
  "open_retired P [] sealed bound = None"
| "open_retired P (k # ks) sealed bound =
     (case p_gcm_open P k sealed bound of
        Some plain \<Rightarrow> Some plain
      | None \<Rightarrow> open_retired P ks sealed bound)"

definition Open :: "prims \<Rightarrow> engine \<Rightarrow> bytes \<Rightarrow> bytes \<Rightarrow> go_error + bytes" where
  "Open P e frame aad =
     (if length frame < 1 + gcm_overhead \<or> frame ! 0 \<noteq> chr 1
      then Inl (OtherError ''cryptoenc: invalid encrypted frame'')
      else (case p_gcm_open P (eng_aead e) (drop 1 frame) (storageAAD aad) of
              Some plain \<Rightarrow> Inr plain
            | None \<Rightarrow>
                (case open_retired P (eng_previousAEAD e) (drop 1 frame) (storageAAD aad) of
                   Some plain \<Rightarrow> Inr plain
                 | None \<Rightarrow> Inl (OtherError ''cipher: message authentication failed''))))"

subsection \<open>HPKE envelopes\<close>

definition SealEnvelope ::
  "prims \<Rightarrow> bytes \<Rightarrow> bytes \<Rightarrow> bytes \<Rightarrow> bytes \<Rightarrow> go_error + envelope" where
  "SealEnvelope P publicKey rand plaintext binding =
     (if \<not> p_hpke_accepts P publicKey then Inl (OtherError ''invalid public key'')
      else case p_hpke_seal P publicKey hpkeInfo rand plaintext binding of
        None \<Rightarrow> Inl (OtherError ''hpke'')
      | Some (enc, ct) \<Rightarrow>
          Inr \<lparr>env_key_id = keyID P publicKey, env_enc = b64_encode enc,
               env_ciphertext = b64_encode ct\<rparr>)"

definition OpenEnvelope :: "prims \<Rightarrow> engine \<Rightarrow> envelope \<Rightarrow> bytes \<Rightarrow> go_error + bytes" where
  "OpenEnvelope P e env binding =
     (case (if env_key_id env \<noteq> eng_id e then eng_previousHPKE e (env_key_id env)
            else Some (eng_private e)) of
        None \<Rightarrow> Inl (OtherError ''cryptoenc: unknown envelope key'')
      | Some private \<Rightarrow>
          (case b64_decode_strict (env_enc env) of
             None \<Rightarrow> Inl (OtherError ''cryptoenc: invalid encapsulated key encoding'')
           | Some enc \<Rightarrow>
               (case b64_decode_strict (env_ciphertext env) of
                  None \<Rightarrow> Inl (OtherError ''cryptoenc: invalid ciphertext encoding'')
                | Some ct \<Rightarrow>
                    (case p_hpke_open P private hpkeInfo enc ct binding of
                       None \<Rightarrow> Inl (OtherError ''hpke'')
                     | Some plain \<Rightarrow> Inr plain))))"

subsection \<open>Associated data\<close>

definition Binding :: "ident \<Rightarrow> ident \<Rightarrow> ident \<Rightarrow> ident \<Rightarrow> bytes" where
  "Binding chat user device operation =
     json_object
       [json_member ''version'' ''1'', json_member ''chat'' (json_string chat),
        json_member ''user'' (json_string user), json_member ''device'' (json_string device),
        json_member ''operation'' (json_string operation)]"

subsection \<open>Lemmas\<close>

lemma add_masters_Inr:
  "add_masters ks e = Inr e' \<Longrightarrow>
    e' = e\<lparr>eng_previousAEAD := eng_previousAEAD e @ ks\<rparr> \<and> list_all (\<lambda>k. length k = 32) ks"
proof (induction ks arbitrary: e)
  case (Cons a ks)
  then have "length a = 32" "add_masters ks (e\<lparr>eng_previousAEAD := eng_previousAEAD e @ [a]\<rparr>) = Inr e'"
    by (auto split: if_splits)
  with Cons.IH [OF this(2)] show ?case by simp
qed simp

lemma add_hpke_Inr:
  "add_hpke P ks e = Inr e' \<Longrightarrow>
    eng_aead e' = eng_aead e \<and> eng_private e' = eng_private e \<and> eng_public e' = eng_public e
    \<and> eng_id e' = eng_id e \<and> eng_previousAEAD e' = eng_previousAEAD e"
proof (induction ks arbitrary: e)
  case (Cons k ks)
  then show ?case by (fastforce split: if_splits option.splits)
qed simp

text \<open>What a constructed engine consists of: the primary keys and exactly the retired masters.\<close>

lemma NewWithPrevious_Inr:
  assumes "NewWithPrevious P master hpke masters hpkes = Inr e"
  shows "eng_aead e = master" "eng_previousAEAD e = masters" "eng_private e = hpke"
    "length masters \<le> 4" "length hpkes \<le> 4" "length master = 32"
proof -
  from assms obtain public e0 where
    *: "length masters \<le> 4" "length hpkes \<le> 4" "length master = 32"
    and m: "add_masters masters
             \<lparr>eng_aead = master, eng_private = hpke, eng_public = public,
              eng_id = keyID P public, eng_previousAEAD = [], eng_previousHPKE = Map.empty\<rparr> = Inr e0"
    and h: "add_hpke P hpkes e0 = Inr e"
    by (auto simp: NewWithPrevious_def split: if_splits option.splits sum.splits)
  note mm = add_masters_Inr [OF m, THEN conjunct1] and hh = add_hpke_Inr [OF h]
  show "eng_aead e = master" "eng_previousAEAD e = masters" "eng_private e = hpke"
    "length masters \<le> 4" "length hpkes \<le> 4" "length master = 32"
    using * mm hh by simp_all
qed

lemma open_retired_Some:
  assumes "k \<in> set ks" "p_gcm_open P k sealed bound = Some plain"
    and "\<And>k'. k' \<in> set ks \<Longrightarrow> p_gcm_open P k' sealed bound \<in> {None, Some plain}"
  shows "open_retired P ks sealed bound = Some plain"
  using assms
proof (induction ks)
  case (Cons a ks)
  show ?case
  proof (cases "p_gcm_open P a sealed bound")
    case None
    with Cons.prems have "k \<in> set ks" by auto
    with None Cons show ?thesis by simp
  next
    case (Some x)
    with Cons.prems(3) [of a] show ?thesis by simp
  qed
qed simp

lemma open_retired_None:
  "(\<And>k. k \<in> set ks \<Longrightarrow> p_gcm_open P k sealed bound = None) \<Longrightarrow> open_retired P ks sealed bound = None"
  by (induction ks) auto

text \<open>
  Correctness of the AEAD at one key: what it sealed, it opens, with the documented overhead;
  and another key does not authenticate the frame.
\<close>

definition gcm_opens :: "prims \<Rightarrow> bytes \<Rightarrow> bool" where
  "gcm_opens P k \<longleftrightarrow> (\<forall>n p a. p_gcm_open P k (p_gcm_seal P k n p a) a = Some p
     \<and> length (p_gcm_seal P k n p a) = gcm_overhead + length p)"

definition gcm_rejects :: "prims \<Rightarrow> bytes \<Rightarrow> bytes \<Rightarrow> bool" where
  "gcm_rejects P k' k \<longleftrightarrow> (\<forall>n p a. p_gcm_open P k' (p_gcm_seal P k n p a) a = None)"

lemma Seal_frame:
  "gcm_opens P (eng_aead e) \<Longrightarrow>
    length (Seal P e n p a) = 1 + gcm_overhead + length p \<and> Seal P e n p a ! 0 = chr 1
    \<and> drop 1 (Seal P e n p a) = p_gcm_seal P (eng_aead e) n p (storageAAD a)"
  by (simp add: Seal_def gcm_opens_def)

lemma Open_Seal: "gcm_opens P (eng_aead e) \<Longrightarrow> Open P e (Seal P e n p a) a = Inr p"
  using Seal_frame [of P e n p a] by (simp add: Open_def gcm_opens_def)

lemma Open_Seal_any:
  assumes opens: "gcm_opens P (eng_aead old)"
    and rejects: "\<And>k. k \<in> set (eng_aead e # eng_previousAEAD e) \<Longrightarrow> k \<noteq> eng_aead old \<Longrightarrow>
      gcm_rejects P k (eng_aead old)"
  shows "Open P e (Seal P old n p a) a =
    (if eng_aead old \<in> set (eng_aead e # eng_previousAEAD e) then Inr p
     else Inl (OtherError ''cipher: message authentication failed''))"
proof -
  let ?f = "Seal P old n p a" and ?b = "storageAAD a"
  note frame = Seal_frame [OF opens, of n p a]
  have own: "p_gcm_open P (eng_aead old) (drop 1 ?f) ?b = Some p"
    using frame opens by (simp add: gcm_opens_def)
  have other: "p_gcm_open P k (drop 1 ?f) ?b = None"
    if "k \<in> set (eng_aead e # eng_previousAEAD e)" "k \<noteq> eng_aead old" for k
    using rejects [OF that] frame by (simp add: gcm_rejects_def)
  have "\<not> (length ?f < 1 + gcm_overhead \<or> ?f ! 0 \<noteq> chr 1)" using frame by simp
  then have open_eq: "Open P e ?f a =
      (case p_gcm_open P (eng_aead e) (drop 1 ?f) ?b of
         Some plain \<Rightarrow> Inr plain
       | None \<Rightarrow> (case open_retired P (eng_previousAEAD e) (drop 1 ?f) ?b of
           Some plain \<Rightarrow> Inr plain
         | None \<Rightarrow> Inl (OtherError ''cipher: message authentication failed'')))"
    unfolding Open_def by (rule if_not_P)
  show ?thesis
  proof (cases "eng_aead e = eng_aead old")
    case True
    with own open_eq show ?thesis by simp
  next
    case False
    then have none: "p_gcm_open P (eng_aead e) (drop 1 ?f) ?b = None" using other by simp
    show ?thesis
    proof (cases "eng_aead old \<in> set (eng_previousAEAD e)")
      case True
      have "open_retired P (eng_previousAEAD e) (drop 1 ?f) ?b = Some p"
        by (rule open_retired_Some [OF True own]) (use own other in force)
      with none True open_eq show ?thesis by simp
    next
      case outside: False
      have "open_retired P (eng_previousAEAD e) (drop 1 ?f) ?b = None"
        by (rule open_retired_None) (use outside other in force)
      with none outside False open_eq show ?thesis by simp
    qed
  qed
qed

text \<open>The version byte is authenticated: a frame of another version is refused.\<close>

lemma Open_wrong_version: "frame \<noteq> [] \<Longrightarrow> hd frame \<noteq> chr 1 \<Longrightarrow> \<exists>m. Open P e frame a = Inl (OtherError m)"
  by (simp add: Open_def hd_conv_nth)

subsection \<open>The binding is unambiguous\<close>

definition json_plain :: "string \<Rightarrow> bool" where
  "json_plain s \<longleftrightarrow> list_all json_safe s"

lemma json_escape_plain: "json_plain s \<Longrightarrow> json_escape s = s"
  by (induction s) (auto simp: json_plain_def json_safe_def json_escape1_def)

lemma json_plain_no_quote: "json_plain s \<Longrightarrow> CHR 0x22 \<notin> set s"
  by (auto simp: json_plain_def json_safe_def list_all_iff)

lemma id_char_safe: "id_char c \<Longrightarrow> json_safe c"
proof -
  assume "id_char c"
  then have "byte c \<noteq> 0x22 \<and> byte c \<noteq> 0x5C \<and> byte c \<noteq> 60 \<and> byte c \<noteq> 62 \<and> byte c \<noteq> 38
    \<and> 32 \<le> byte c \<and> byte c < 128"
    by (auto simp: id_char_def)
  then show "json_safe c" by (auto simp: json_safe_def)
qed

lemma validID_plain: "validID s \<Longrightarrow> json_plain s"
  by (auto simp: validID_def json_plain_def list_all_iff intro: id_char_safe)

lemma split_at_quote:
  assumes "xs @ q # r = ys @ q # r'" "q \<notin> set xs" "q \<notin> set ys"
  shows "xs = ys \<and> r = r'"
  using assms
proof (induction xs arbitrary: ys)
  case Nil
  then show ?case by (cases ys) auto
next
  case (Cons x xs)
  then show ?case by (cases ys) auto
qed

lemma json_string_cancel:
  assumes "json_plain s" "json_plain t" "json_string s @ r = json_string t @ r'"
  shows "s = t \<and> r = r'"
proof -
  have "s @ CHR 0x22 # r = t @ CHR 0x22 # r'"
    using assms by (simp add: json_string_def json_escape_plain)
  from split_at_quote [OF this json_plain_no_quote [OF assms(1)] json_plain_no_quote [OF assms(2)]]
  show ?thesis .
qed

lemma Binding_append:
  "Binding c u d p = ''{'' @ json_member ''version'' ''1'' @ '','' @ json_string ''chat'' @ '':'' @
     json_string c @ '','' @ json_string ''user'' @ '':'' @ json_string u @ '','' @
     json_string ''device'' @ '':'' @ json_string d @ '','' @ json_string ''operation'' @ '':'' @
     json_string p @ ''}''"
  by (simp add: Binding_def json_object_def json_member_def)

lemma Binding_eq_iff:
  assumes "json_plain c" "json_plain u" "json_plain d" "json_plain p"
    "json_plain c'" "json_plain u'" "json_plain d'" "json_plain p'"
    "Binding c u d p = Binding c' u' d' p'"
  shows "c = c' \<and> u = u' \<and> d = d' \<and> p = p'"
proof -
  note cancel = json_string_cancel
  from assms(9) have 1: "json_string c @ '','' @ json_string ''user'' @ '':'' @ json_string u @ '','' @
     json_string ''device'' @ '':'' @ json_string d @ '','' @ json_string ''operation'' @ '':'' @
     json_string p @ ''}'' =
     json_string c' @ '','' @ json_string ''user'' @ '':'' @ json_string u' @ '','' @
     json_string ''device'' @ '':'' @ json_string d' @ '','' @ json_string ''operation'' @ '':'' @
     json_string p' @ ''}''"
    unfolding Binding_append same_append_eq .
  have c: "c = c'" by (rule cancel [OF assms(1,5) 1, THEN conjunct1])
  have 2: "json_string u @ '','' @ json_string ''device'' @ '':'' @ json_string d @ '','' @
      json_string ''operation'' @ '':'' @ json_string p @ ''}'' =
      json_string u' @ '','' @ json_string ''device'' @ '':'' @ json_string d' @ '','' @
      json_string ''operation'' @ '':'' @ json_string p' @ ''}''"
    by (rule cancel [OF assms(1,5) 1, THEN conjunct2, unfolded same_append_eq])
  have u: "u = u'" by (rule cancel [OF assms(2,6) 2, THEN conjunct1])
  have 3: "json_string d @ '','' @ json_string ''operation'' @ '':'' @ json_string p @ ''}'' =
      json_string d' @ '','' @ json_string ''operation'' @ '':'' @ json_string p' @ ''}''"
    by (rule cancel [OF assms(2,6) 2, THEN conjunct2, unfolded same_append_eq])
  have d: "d = d'" by (rule cancel [OF assms(3,7) 3, THEN conjunct1])
  have 4: "json_string p @ ''}'' = json_string p' @ ''}''"
    by (rule cancel [OF assms(3,7) 3, THEN conjunct2, unfolded same_append_eq])
  have "p = p'" by (rule cancel [OF assms(4,8) 4, THEN conjunct1])
  with c u d show ?thesis by simp
qed

end
