(* ===== verification/Types.thy ===== *)
theory Types
  imports CryptoEnc
begin

text \<open>
  The configuration (\<open>internal/config/config.go\<close>, the fields the modelled code reads), the core
  data types of \<open>internal/core/types.go\<close>, the rows of the SQL schema (\<open>internal/core/store.go\<close>)
  and the \<open>Core\<close> object with the hooks optional modules register.
\<close>

subsection \<open>Configuration\<close>

record server_cfg =
  srv_allow_insecure_loopback :: bool
  srv_trusted_proxy :: bool
  srv_origins :: "string list"

record security_cfg =
  sec_issuer :: string
  sec_audience :: string

record features_cfg =
  feat_groups :: bool
  feat_files :: bool
  feat_e2ee :: bool
  feat_calls :: bool
  feat_delete :: bool
  feat_edit :: bool
  feat_reply :: bool
  feat_forward :: bool
  feat_reactions :: bool
  feat_openai :: bool
  feat_anthropic :: bool
  feat_ai_streaming :: bool
  feat_mcp :: bool
  feat_http_tools :: bool
  feat_ai_policy :: bool
  feat_ai_storage :: bool
  feat_ai_endpoint :: bool

record capacity_cfg =
  cap_expected_users :: int
  cap_max_connections :: int
  cap_queue_depth :: int
  cap_workers :: int

record policy_cfg =
  pol_history :: string
  pol_delete_mode :: string
  pol_reaction_types :: "string list"
  pol_event_retention_hours :: int
  pol_dedup_retention_hours :: int
  pol_max_message_bytes :: int
  pol_max_batch :: int
  pol_max_file_bytes :: int
  pol_max_chunk_bytes :: int
  pol_max_storage_bytes :: int
  pol_upload_ttl_hours :: int

record calls_cfg =
  call_turn_urls :: "string list"
  call_credential_ttl_seconds :: int

record config =
  cfg_server :: server_cfg
  cfg_security :: security_cfg
  cfg_features :: features_cfg
  cfg_capacity :: capacity_cfg
  cfg_policy :: policy_cfg
  cfg_calls :: calls_cfg

subsection \<open>Messages and events\<close>

record identity =
  user_id :: ident
  device_id :: ident

text \<open>
  \<open>None\<close> is the nil slice of attachments of a request; both it and an empty list are left out of
  the request's JSON (\<open>omitempty\<close>), but the stored metadata tells them apart (\<open>null\<close>, \<open>[]\<close>).
\<close>

record message_input =
  in_operation :: string
  in_envelope :: "envelope option"
  in_mls :: string
  in_epoch :: int
  in_attachments :: "string list option"
  in_reply_to :: string
  in_forward_from :: string
  in_payload :: bytes

record reaction =
  rea_type :: int
  rea_user :: ident

record message =
  msg_reactions :: "reaction list"
  msg_id :: ident
  msg_chat :: ident
  msg_sender :: ident
  msg_device :: ident
  msg_operation :: string
  msg_seq :: int
  msg_revision :: int
  msg_deleted :: bool
  msg_mode :: string
  msg_epoch :: int
  msg_created :: time
  msg_envelope :: "envelope option"
  msg_mls :: string
  msg_attachments :: "string list"
  msg_reply_to :: string
  msg_forward_from :: string

definition empty_message :: message where
  "empty_message = \<lparr>msg_reactions = [], msg_id = [], msg_chat = [], msg_sender = [], msg_device = [],
     msg_operation = [], msg_seq = 0, msg_revision = 0, msg_deleted = False, msg_mode = [],
     msg_epoch = 0, msg_created = 0, msg_envelope = None, msg_mls = [], msg_attachments = [],
     msg_reply_to = [], msg_forward_from = []\<rparr>"

record message_metadata =
  meta_attachments :: "string list"
  meta_forward_from :: string
  meta_reply_to :: string

definition empty_metadata :: message_metadata where
  "empty_metadata = \<lparr>meta_attachments = [], meta_forward_from = [], meta_reply_to = []\<rparr>"

text \<open>The data of an event: absent, a projected message, or the JSON text of the stored value.\<close>

datatype event_data = NoData | MessageData message | JsonData string

record event =
  evt_seq :: int
  evt_chat :: ident
  evt_type :: string
  evt_message_id :: ident
  evt_data :: event_data

subsection \<open>Rows of the schema\<close>

record user_row =
  u_id :: ident
  u_disabled :: bool

record device_row =
  d_id :: ident
  d_user :: ident
  d_public_key :: string
  d_signing_key :: string
  d_revoked :: bool

record chat_row =
  c_id :: ident
  c_kind :: string
  c_mode :: string
  c_seq :: int
  c_epoch :: int
  c_pending :: bool
  c_created :: time

record member_row =
  m_chat :: ident
  m_user :: ident
  m_role :: string
  m_can_send :: bool
  m_joined :: int
  m_active :: bool

record message_row =
  g_id :: ident
  g_chat :: ident
  g_sender :: ident
  g_device :: ident
  g_operation :: string
  g_seq :: int
  g_revision :: int
  g_deleted :: bool
  g_payload :: bytes
  g_metadata :: message_metadata
  g_epoch :: int
  g_created :: time

record event_row =
  e_chat :: ident
  e_seq :: int
  e_kind :: string
  e_message :: ident
  e_data :: "bytes option"
  e_created :: time

text \<open>
  The JSON column \<open>operations.result\<close> holds the value it encodes: the accepted message of a send,
  or the \<open>{"id": ...}\<close> object a mutation records.
\<close>

datatype op_result = SavedMessage message | SavedId ident

record operation_row =
  o_device :: ident
  o_operation :: string
  o_hash :: string
  o_result :: op_result
  o_created :: time

record cursor_row =
  k_device :: ident
  k_chat :: ident
  k_delivered :: int
  k_read :: int

record ticket_row =
  t_hash :: string
  t_device :: ident
  t_user :: ident
  t_expires :: time

record db =
  versions :: "int list"
  indexes :: "string list"
  users :: "user_row list"
  devices :: "device_row list"
  chats :: "chat_row list"
  members :: "member_row list"
  messages :: "message_row list"
  events :: "event_row list"
  operations :: "operation_row list"
  cursors :: "cursor_row list"
  tickets :: "ticket_row list"

text \<open>Primary keys that span two columns.\<close>

definition m_key :: "'a member_row_scheme \<Rightarrow> ident \<times> ident" where
  "m_key m = (m_chat m, m_user m)"

definition e_key :: "'a event_row_scheme \<Rightarrow> ident \<times> int" where
  "e_key e = (e_chat e, e_seq e)"

definition o_key :: "'a operation_row_scheme \<Rightarrow> ident \<times> string" where
  "o_key r = (o_device r, o_operation r)"

definition k_key :: "'a cursor_row_scheme \<Rightarrow> ident \<times> ident" where
  "k_key k = (k_device k, k_chat k)"

subsection \<open>The core object\<close>

text \<open>
  What one call of a handler draws from outside: the clock (one reading per call), a fresh UUID,
  fresh randomness (\<open>draws\<close> where one call draws more than once), and the outcome of its statements.
\<close>

record env =
  now :: time
  uuid :: ident
  nonce :: bytes
  draws :: "nat \<Rightarrow> bytes"
  flt :: faults

definition shift_env :: "nat \<Rightarrow> env \<Rightarrow> env" where
  "shift_env k env = env\<lparr>flt := shift_faults k (flt env)\<rparr>"

lemma shift_env_simps [simp]:
  "now (shift_env k env) = now env"
  "uuid (shift_env k env) = uuid env"
  "nonce (shift_env k env) = nonce env"
  "draws (shift_env k env) = draws env"
  "flt (shift_env k env) = shift_faults k (flt env)"
  by (simp_all add: shift_env_def)

text \<open>
  The hooks of the modules: \<open>Prepare\<close> runs before a message is queued, \<open>InTransaction\<close> inside its
  transaction, \<open>Project\<close> on every read, \<open>OnDelete\<close> inside a deletion. Modules add tables, so the
  hooks work on an extension \<open>'z\<close> of the core tables.
\<close>

record 'z core =
  cfg :: config
  prim :: prims
  eng :: engine
  prepare_hooks :: "(env \<Rightarrow> 'z db_scheme \<Rightarrow> identity \<Rightarrow> ident \<Rightarrow> message_input \<Rightarrow> go_error + message_input) list"
  tx_hooks :: "(env \<Rightarrow> 'z db_scheme \<Rightarrow> identity \<Rightarrow> ident \<Rightarrow> message \<Rightarrow> go_error + 'z db_scheme) list"
  project_hooks :: "(env \<Rightarrow> 'z db_scheme \<Rightarrow> identity \<Rightarrow> message \<Rightarrow> go_error + message) list"
  delete_hooks :: "(env \<Rightarrow> 'z db_scheme \<Rightarrow> ident \<Rightarrow> go_error + 'z db_scheme) list"

abbreviation policy :: "'z core \<Rightarrow> policy_cfg" where
  "policy C \<equiv> cfg_policy (cfg C)"

abbreviation features :: "'z core \<Rightarrow> features_cfg" where
  "features C \<equiv> cfg_features (cfg C)"

end
