(* ===== verification/Store.thy ===== *)
theory Store
  imports Types
begin

text \<open>
  \<open>internal/core/store.go\<close>: the schema and its migrations, the compiled-feature check of \<open>Open\<close>,
  membership lookup, the per-chat event journal (\<open>Append\<close>, \<open>Publish\<close>) and the retention cleanup.
  The integrity of the store, \<open>db_ok\<close>, is what the schema's constraints and the code together
  maintain; \<open>journal_ok\<close> says that each chat's events are numbered without gaps up to the chat's
  head. Both are shown to be kept by the operations of this file here and by every handler in
  the later theories.
\<close>

subsection \<open>Schema and migrations\<close>

text \<open>
  Tables are created empty, and executing the schema again only adds version 1 when it is
  missing. A migration is a version and the indexes its statements create
  (\<open>CREATE INDEX IF NOT EXISTS\<close>).
\<close>

definition init_db :: db where
  "init_db = \<lparr>versions = [], indexes = [], users = [], devices = [], chats = [], members = [],
     messages = [], events = [], operations = [], cursors = [], tickets = []\<rparr>"

definition exec_schema :: "'z db_scheme \<Rightarrow> 'z db_scheme" where
  "exec_schema s = s\<lparr>versions := insert_ignore id 1 (versions s)\<rparr>"

definition schemaMigrations :: "(int \<times> string list) list" where
  "schemaMigrations =
     [(2, [''tickets_expires'', ''operations_created_at'', ''events_created_at''])]"

fun max_version :: "int list \<Rightarrow> int" where
  "max_version [] = 0"
| "max_version (v # vs) = fold max vs v"

text \<open>The statements of one migration, inside its transaction; statement \<open>i\<close> may fail.\<close>

fun exec_indexes :: "faults \<Rightarrow> nat \<Rightarrow> string list \<Rightarrow> 'z db_scheme \<Rightarrow> 'z db_scheme option" where
  "exec_indexes f i [] s = Some s"
| "exec_indexes f i (n # ns) s =
     (if f i then None
      else exec_indexes f (Suc i) ns (s\<lparr>indexes := insert_ignore id n (indexes s)\<rparr>))"

text \<open>
  One migration: begin, statements, version row, commit. \<open>None\<close> is an error, after a rollback.
\<close>

definition run_migration :: "faults \<Rightarrow> int \<Rightarrow> string list \<Rightarrow> 'z db_scheme \<Rightarrow> 'z db_scheme option" where
  "run_migration f v ns s =
     (if f 0 then None
      else case exec_indexes f 1 ns s of
        None \<Rightarrow> None
      | Some s' \<Rightarrow>
          (if f (1 + length ns) then None
           else case insert_row id v (versions s') of
             None \<Rightarrow> None
           | Some vs \<Rightarrow> (if f (2 + length ns) then None else Some (s'\<lparr>versions := vs\<rparr>))))"

text \<open>The loop of \<open>applyMigrations\<close>: the flag says whether it returned nil.\<close>

fun migrate_from :: "faults \<Rightarrow> int \<Rightarrow> (int \<times> string list) list \<Rightarrow> 'z db_scheme \<Rightarrow> bool \<times> 'z db_scheme" where
  "migrate_from f current [] s = (True, s)"
| "migrate_from f current ((v, ns) # ms) s =
     (if v \<le> current then migrate_from f current ms s
      else case run_migration f v ns s of
        None \<Rightarrow> (False, s)
      | Some s' \<Rightarrow> migrate_from (shift_faults (3 + length ns) f) v ms s')"

definition applyMigrations :: "faults \<Rightarrow> 'z db_scheme \<Rightarrow> bool \<times> 'z db_scheme" where
  "applyMigrations f s =
     (if f 0 then (False, s)
      else migrate_from (shift_faults 1 f) (max_version (versions s)) schemaMigrations s)"

text \<open>
  The version table never claims a migration whose indexes are missing.
\<close>

definition migrations_ok :: "'z db_scheme \<Rightarrow> bool" where
  "migrations_ok s \<longleftrightarrow>
     (\<forall>(v, ns) \<in> set schemaMigrations. v \<in> set (versions s) \<longrightarrow> set ns \<subseteq> set (indexes s))
     \<and> (\<forall>v \<in> set (versions s). v = 1 \<or> v \<in> fst ` set schemaMigrations)"

subsection \<open>The compiled manifest\<close>

definition Enabled :: "features_cfg \<Rightarrow> string list" where
  "Enabled f = map fst (filter snd
     [(''ai_endpoint'', feat_ai_endpoint f), (''ai_policy'', feat_ai_policy f),
      (''ai_storage'', feat_ai_storage f), (''ai_streaming'', feat_ai_streaming f),
      (''anthropic'', feat_anthropic f), (''calls'', feat_calls f), (''delete'', feat_delete f),
      (''e2ee'', feat_e2ee f), (''edit'', feat_edit f), (''files'', feat_files f),
      (''forward'', feat_forward f), (''groups'', feat_groups f), (''http_tools'', feat_http_tools f),
      (''mcp'', feat_mcp f), (''openai'', feat_openai f), (''reactions'', feat_reactions f),
      (''reply'', feat_reply f)])"

text \<open>
  \<open>Open\<close> compares the features the configuration enables with the registered modules and with
  the manifest the binary was built with (\<open>None\<close>: accepted).
\<close>

definition check_manifest :: "string list \<Rightarrow> string list \<Rightarrow> string list \<Rightarrow> string option" where
  "check_manifest enabled registered compiled =
     (let actual = remdups registered; expected = remdups (filter (\<lambda>n. n \<noteq> []) compiled) in
      case find (\<lambda>n. \<not> n \<in> set actual \<or> \<not> n \<in> set expected) enabled of
        Some n \<Rightarrow> Some (''module '' @ n @ '' absent from build'')
      | None \<Rightarrow>
          (if length enabled \<noteq> length expected \<or> length actual \<noteq> length expected
           then Some ''TOML features differ from compiled manifest'' else None))"

subsection \<open>Membership\<close>

definition Member :: "'z db_scheme \<Rightarrow> ident \<Rightarrow> ident \<Rightarrow> (string \<times> bool \<times> int) option" where
  "Member s user chat =
     query_row [(m_role m, m_can_send m, m_joined m). m \<leftarrow> members s,
       m_chat m = chat \<and> m_user m = user \<and> m_active m]"

subsection \<open>The event journal\<close>

definition event_aad :: "ident \<Rightarrow> int \<Rightarrow> bytes" where
  "event_aad chat seq = ''event/'' @ chat @ ''/'' @ dec_int seq"

definition bump_seq :: "ident \<Rightarrow> 'z db_scheme \<Rightarrow> 'z db_scheme" where
  "bump_seq chat s =
     s\<lparr>chats := update_rows (\<lambda>c. c_id c = chat) (\<lambda>c. c\<lparr>c_seq := c_seq c + 1\<rparr>) (chats s)\<rparr>"

text \<open>
  \<open>Append\<close> runs inside the caller's transaction, which the caller rolls back on an error. \<open>data\<close>
  is the JSON text of the event's value, if it has one.
\<close>

definition Append ::
  "'z core \<Rightarrow> env \<Rightarrow> 'z db_scheme \<Rightarrow> ident \<Rightarrow> string \<Rightarrow> ident \<Rightarrow> string option \<Rightarrow>
    go_error + int \<times> 'z db_scheme" where
  "Append C env s chat kind message data =
     (if flt env 0 then Inl (OtherError ''storage'')
      else case get_row c_id chat (chats s) of
        None \<Rightarrow> Inl (OtherError ''sql: no rows in result set'')
      | Some c \<Rightarrow>
          (let seq = c_seq c + 1;
               stored = map_option (\<lambda>raw. Seal (prim C) (eng C) (nonce env) raw (event_aad chat seq)) data
           in if flt env 1 then Inl (OtherError ''storage'')
              else case insert_row e_key
                     \<lparr>e_chat = chat, e_seq = seq, e_kind = kind, e_message = message,
                      e_data = stored, e_created = now env\<rparr> (events s) of
                None \<Rightarrow> Inl (OtherError ''constraint failed'')
              | Some es \<Rightarrow> Inr (seq, (bump_seq chat s)\<lparr>events := es\<rparr>)))"

definition Publish ::
  "'z core \<Rightarrow> env \<Rightarrow> 'z db_scheme \<Rightarrow> ident \<Rightarrow> string \<Rightarrow> ident \<Rightarrow> string option \<Rightarrow>
    (go_error + int) \<times> 'z db_scheme" where
  "Publish C env s chat kind message data =
     (if flt env 0 then (Inl (OtherError ''storage''), s)
      else case Append C (shift_env 1 env) s chat kind message data of
        Inl e \<Rightarrow> (Inl e, s)
      | Inr (seq, s') \<Rightarrow> (if flt env 3 then (Inl (OtherError ''storage''), s) else (Inr seq, s')))"

subsection \<open>Retention\<close>

datatype retention_table = RTickets | ROperations | REvents

definition retentionCleanupBatchSize :: nat where
  "retentionCleanupBatchSize = 256"

definition retention_index :: "retention_table \<Rightarrow> string" where
  "retention_index t = (case t of RTickets \<Rightarrow> ''tickets_expires''
     | ROperations \<Rightarrow> ''operations_created_at'' | REvents \<Rightarrow> ''events_created_at'')"

text \<open>
  The rows a batch deletes: the oldest \<open>limit\<close> rows older than the cutoff, in the order of the
  index on the time column (ties in rowid order, which a stable sort keeps).
\<close>

definition victims :: "('r \<Rightarrow> time) \<Rightarrow> time \<Rightarrow> nat \<Rightarrow> 'r list \<Rightarrow> 'r list" where
  "victims tm cutoff limit rows = take limit (sort_key tm (filter (\<lambda>r. tm r < cutoff) rows))"

definition drop_victims :: "('r \<Rightarrow> time) \<Rightarrow> time \<Rightarrow> nat \<Rightarrow> 'r list \<Rightarrow> 'r list" where
  "drop_victims tm cutoff limit rows =
     delete_rows (\<lambda>r. r \<in> set (victims tm cutoff limit rows)) rows"

text \<open>
  One \<open>DELETE\<close>: \<open>Inl\<close> when the context is done or the statement fails (a fault, or the index
  named by \<open>INDEXED BY\<close> does not exist), else the number of rows deleted.
\<close>

definition deleteRetentionBatch ::
  "bool \<Rightarrow> retention_table \<Rightarrow> time \<Rightarrow> nat \<Rightarrow> 'z db_scheme \<Rightarrow> go_error + nat \<times> 'z db_scheme" where
  "deleteRetentionBatch fail t cutoff limit s =
     (if fail then Inl (OtherError ''storage'')
      else if limit = 0 then Inr (0, s)
      else if retention_index t \<notin> set (indexes s) then Inl (OtherError ''no such index'')
      else case t of
        RTickets \<Rightarrow> Inr (length (tickets s) - length (drop_victims t_expires cutoff limit (tickets s)),
            s\<lparr>tickets := drop_victims t_expires cutoff limit (tickets s)\<rparr>)
      | ROperations \<Rightarrow> Inr (length (operations s) - length (drop_victims o_created cutoff limit (operations s)),
            s\<lparr>operations := drop_victims o_created cutoff limit (operations s)\<rparr>)
      | REvents \<Rightarrow> Inr (length (events s) - length (drop_victims e_created cutoff limit (events s)),
            s\<lparr>events := drop_victims e_created cutoff limit (events s)\<rparr>))"

text \<open>
  One pass over the entries: either an error (with what was deleted so far kept), or whether some
  batch was full. Statement and timer \<open>n\<close> of the run may fail or be cancelled (\<open>f n\<close>).
\<close>

fun cleanup_pass ::
  "faults \<Rightarrow> nat \<Rightarrow> (retention_table \<times> time) list \<Rightarrow> bool \<Rightarrow> 'z db_scheme \<Rightarrow> bool option \<times> 'z db_scheme" where
  "cleanup_pass f n [] full s = (Some full, s)"
| "cleanup_pass f n ((t, cutoff) # es) full s =
     (case deleteRetentionBatch (f n) t cutoff retentionCleanupBatchSize s of
        Inl _ \<Rightarrow> (None, s)
      | Inr (deleted, s') \<Rightarrow>
          (if deleted > 0 \<and> f (Suc n) then (None, s')
           else cleanup_pass f (n + 2) es (full \<or> deleted = retentionCleanupBatchSize) s'))"

definition retention_rows :: "'z db_scheme \<Rightarrow> nat" where
  "retention_rows s = length (tickets s) + length (operations s) + length (events s)"

lemma length_drop_victims: "length (drop_victims tm cutoff limit rows) \<le> length rows"
  by (simp add: drop_victims_def delete_rows_def)

lemma deleteRetentionBatch_rows:
  "deleteRetentionBatch fail t cutoff limit s = Inr (d, s') \<Longrightarrow> retention_rows s = retention_rows s' + d"
  using length_drop_victims [of t_expires cutoff limit "tickets s"]
    length_drop_victims [of o_created cutoff limit "operations s"]
    length_drop_victims [of e_created cutoff limit "events s"]
  by (auto simp: deleteRetentionBatch_def retention_rows_def
      split: if_splits retention_table.splits)

lemma cleanup_pass_rows:
  "cleanup_pass f n es full s = (r, s') \<Longrightarrow> retention_rows s' \<le> retention_rows s
    \<and> (r = Some True \<longrightarrow> full \<or> retention_rows s' < retention_rows s)"
proof (induction f n es full s rule: cleanup_pass.induct)
  case (2 f n t cutoff es full s)
  show ?case
  proof (cases "deleteRetentionBatch (f n) t cutoff retentionCleanupBatchSize s")
    case (Inl e)
    with "2.prems" show ?thesis by auto
  next
    case (Inr p)
    obtain d s1 where p: "p = (d, s1)" by (cases p)
    note rows = deleteRetentionBatch_rows [OF Inr [unfolded p]]
    show ?thesis
    proof (cases "d > 0 \<and> f (Suc n)")
      case True
      with Inr p rows "2.prems" show ?thesis by auto
    next
      case False
      with Inr p "2.prems" have
        "cleanup_pass f (n + 2) es (full \<or> d = retentionCleanupBatchSize) s1 = (r, s')"
        by auto
      from "2.IH" [OF Inr p [symmetric] False this] rows
      show ?thesis by (auto simp: retentionCleanupBatchSize_def)
    qed
  qed
qed auto

lemma cleanup_pass_decreases:
  "(Some True, s') = cleanup_pass f n es False s \<Longrightarrow> retention_rows s' < retention_rows s"
  using cleanup_pass_rows [of f n es False s "Some True" s'] by simp

text \<open>
  The outer loop repeats passes while a batch was full; it terminates because a full batch
  deletes rows. The flag says whether it returned nil.
\<close>

function cleanup_loop ::
  "faults \<Rightarrow> nat \<Rightarrow> (retention_table \<times> time) list \<Rightarrow> 'z db_scheme \<Rightarrow> bool \<times> 'z db_scheme" where
  "cleanup_loop f n es s =
     (case cleanup_pass f n es False s of
        (None, s') \<Rightarrow> (False, s')
      | (Some full, s') \<Rightarrow>
          (if full then cleanup_loop f (n + 2 * length es) es s' else (True, s')))"
  by pat_completeness auto
termination
  by (relation "measure (\<lambda>(f, n, es, s). retention_rows s)") (auto dest: cleanup_pass_decreases)

declare cleanup_loop.simps [simp del]

definition cleanupRetention ::
  "faults \<Rightarrow> (retention_table \<times> time) list \<Rightarrow> 'z db_scheme \<Rightarrow> bool \<times> 'z db_scheme" where
  "cleanupRetention f es s = cleanup_loop f 0 es s"

text \<open>One tick of \<open>cleanupLoop\<close>, before the modules' own cleanup functions.\<close>

definition cleanup_entries :: "config \<Rightarrow> time \<Rightarrow> (retention_table \<times> time) list" where
  "cleanup_entries cf t =
     [(RTickets, t),
      (ROperations, t - pol_dedup_retention_hours (cfg_policy cf) * 3600),
      (REvents, t - pol_event_retention_hours (cfg_policy cf) * 3600)]"

definition cleanup_tick :: "'z core \<Rightarrow> env \<Rightarrow> 'z db_scheme \<Rightarrow> 'z db_scheme" where
  "cleanup_tick C env s = snd (cleanupRetention (flt env) (cleanup_entries (cfg C) (now env)) s)"


subsection \<open>Integrity of the store\<close>

definition head :: "'z db_scheme \<Rightarrow> ident \<Rightarrow> int option" where
  "head s chat = map_option c_seq (get_row c_id chat (chats s))"

definition chat_log :: "'z db_scheme \<Rightarrow> ident \<Rightarrow> event_row list" where
  "chat_log s chat = filter (\<lambda>e. e_chat e = chat) (events s)"

definition log_seqs :: "'z db_scheme \<Rightarrow> ident \<Rightarrow> int list" where
  "log_seqs s chat = map e_seq (chat_log s chat)"

definition keys_ok :: "'z db_scheme \<Rightarrow> bool" where
  "keys_ok s \<longleftrightarrow> unique_on u_id (users s) \<and> unique_on d_id (devices s) \<and> unique_on c_id (chats s)
     \<and> unique_on m_key (members s) \<and> unique_on g_id (messages s) \<and> unique_on e_key (events s)
     \<and> unique_on o_key (operations s) \<and> unique_on k_key (cursors s) \<and> unique_on t_hash (tickets s)"

definition refs_ok :: "'z db_scheme \<Rightarrow> bool" where
  "refs_ok s \<longleftrightarrow> (\<forall>d \<in> set (devices s). d_user d \<in> u_id ` set (users s))
     \<and> (\<forall>m \<in> set (members s). m_chat m \<in> c_id ` set (chats s) \<and> m_user m \<in> u_id ` set (users s))
     \<and> (\<forall>g \<in> set (messages s). g_chat g \<in> c_id ` set (chats s))
     \<and> (\<forall>e \<in> set (events s). e_chat e \<in> c_id ` set (chats s))
     \<and> (\<forall>k \<in> set (cursors s). k_chat k \<in> c_id ` set (chats s))"

text \<open>Sequence numbers stay within the journal of their chat.\<close>

definition bounds_ok :: "'z db_scheme \<Rightarrow> bool" where
  "bounds_ok s \<longleftrightarrow> (\<forall>c \<in> set (chats s). 0 \<le> c_seq c
     \<and> (\<forall>g \<in> set (messages s). g_chat g = c_id c \<longrightarrow> 1 \<le> g_seq g \<and> g_seq g \<le> c_seq c)
     \<and> (\<forall>m \<in> set (members s). m_chat m = c_id c \<longrightarrow> 1 \<le> m_joined m \<and> m_joined m \<le> c_seq c + 1)
     \<and> (\<forall>k \<in> set (cursors s). k_chat k = c_id c \<longrightarrow>
           0 \<le> k_read k \<and> k_read k \<le> k_delivered k \<and> k_delivered k \<le> c_seq c))"

text \<open>The retained events of a chat are numbered consecutively up to the chat's head.\<close>

definition journal_ok :: "'z db_scheme \<Rightarrow> bool" where
  "journal_ok s \<longleftrightarrow> (\<forall>c \<in> set (chats s).
     \<exists>k. 0 \<le> k \<and> k \<le> c_seq c \<and> log_seqs s (c_id c) = [k + 1..c_seq c])"

definition db_ok :: "'z db_scheme \<Rightarrow> bool" where
  "db_ok s \<longleftrightarrow> keys_ok s \<and> refs_ok s \<and> bounds_ok s \<and> journal_ok s"

text \<open>Events are stored in the order of their timestamps, none later than \<open>T\<close>.\<close>

definition timed_ok :: "time \<Rightarrow> 'z db_scheme \<Rightarrow> bool" where
  "timed_ok T s \<longleftrightarrow> sorted (map e_created (events s)) \<and> (\<forall>e \<in> set (events s). e_created e \<le> T)"

lemma db_okD:
  assumes "db_ok s"
  shows "keys_ok s" "refs_ok s" "bounds_ok s" "journal_ok s"
  using assms by (simp_all add: db_ok_def)

lemma db_okI: "keys_ok s \<Longrightarrow> refs_ok s \<Longrightarrow> bounds_ok s \<Longrightarrow> journal_ok s \<Longrightarrow> db_ok s"
  by (simp add: db_ok_def)

lemma init_db_ok: "db_ok init_db"
  by (simp add: init_db_def db_ok_def keys_ok_def refs_ok_def bounds_ok_def journal_ok_def)

lemma keys_ok_chats [dest]: "db_ok s \<Longrightarrow> unique_on c_id (chats s)"
  by (simp add: db_ok_def keys_ok_def)

lemma get_chat_iff:
  "db_ok s \<Longrightarrow> get_row c_id chat (chats s) = Some c \<longleftrightarrow> c \<in> set (chats s) \<and> c_id c = chat"
  by (rule get_row_iff) auto

subsection \<open>The journal contract\<close>

text \<open>
  Every component that reports something to clients appends to the journal; what it relies on is
  this contract. A run of appends to any chats, in any interleaving, numbers each chat's events
  consecutively from its head.
\<close>

locale event_journal =
  fixes head_of :: "'s \<Rightarrow> 'c \<Rightarrow> int option"
    and seqs_of :: "'s \<Rightarrow> 'c \<Rightarrow> int list"
    and append :: "'a \<Rightarrow> 's \<Rightarrow> 'c \<Rightarrow> 'e + int \<times> 's"
    and inv :: "'s \<Rightarrow> bool"
  assumes append_head: "inv s \<Longrightarrow> append a s c = Inr (n, s') \<Longrightarrow>
      head_of s c = Some (n - 1) \<and> head_of s' c = Some n"
    and append_seqs: "inv s \<Longrightarrow> append a s c = Inr (n, s') \<Longrightarrow> seqs_of s' c = seqs_of s c @ [n]"
    and append_other: "inv s \<Longrightarrow> append a s c = Inr (n, s') \<Longrightarrow> d \<noteq> c \<Longrightarrow>
      head_of s' d = head_of s d \<and> seqs_of s' d = seqs_of s d"
    and append_inv: "inv s \<Longrightarrow> append a s c = Inr (n, s') \<Longrightarrow> inv s'"
begin

inductive appends :: "'s \<Rightarrow> ('c \<times> int) list \<Rightarrow> 's \<Rightarrow> bool" where
  appends_Nil: "appends s [] s"
| appends_Cons: "append a s c = Inr (n, s1) \<Longrightarrow> appends s1 ns s2 \<Longrightarrow> appends s ((c, n) # ns) s2"

lemma appends_numbering:
  assumes "appends s ns s'" "inv s" "head_of s c = Some h"
  shows "map snd (filter (\<lambda>p. fst p = c) ns) = [h + 1..h + int (length (filter (\<lambda>p. fst p = c) ns))]
    \<and> head_of s' c = Some (h + int (length (filter (\<lambda>p. fst p = c) ns)))
    \<and> seqs_of s' c = seqs_of s c @ map snd (filter (\<lambda>p. fst p = c) ns)"
  using assms
proof (induction arbitrary: h rule: appends.induct)
  case (appends_Nil s)
  then show ?case by simp
next
  case (appends_Cons a s d n s1 ns s2)
  note inv1 = append_inv [OF appends_Cons.prems(1) appends_Cons.hyps(1)]
  show ?case
  proof (cases "d = c")
    case True
    from append_head [OF appends_Cons.prems(1) appends_Cons.hyps(1)] True appends_Cons.prems(2)
    have n: "n = h + 1" and h1: "head_of s1 c = Some (h + 1)" by auto
    from append_seqs [OF appends_Cons.prems(1) appends_Cons.hyps(1)] True n
    have "seqs_of s1 c = seqs_of s c @ [h + 1]" by simp
    with appends_Cons.IH [OF inv1 h1] True n show ?thesis
      by (simp add: upto_rec1 algebra_simps)
  next
    case False
    from append_other [OF appends_Cons.prems(1) appends_Cons.hyps(1), of c] False
    have "head_of s1 c = head_of s c" "seqs_of s1 c = seqs_of s c" by auto
    with appends_Cons.IH [OF inv1, of h] appends_Cons.prems(2) False show ?thesis by simp
  qed
qed

end

subsection \<open>Append keeps the store's integrity\<close>

lemma Append_Inr:
  assumes "Append C env s chat kind message data = Inr (n, s')"
  obtains c st where "get_row c_id chat (chats s) = Some c" "n = c_seq c + 1"
    "s' = (bump_seq chat s)\<lparr>events := events s @
       [\<lparr>e_chat = chat, e_seq = n, e_kind = kind, e_message = message, e_data = st, e_created = now env\<rparr>]\<rparr>"
  using assms
  by (auto simp: Append_def Let_def insert_row_def split: if_splits option.splits)

text \<open>Every table but \<open>chats\<close> and \<open>events\<close> is untouched.\<close>

lemma Append_frame:
  assumes "Append C env s chat kind message data = Inr (n, s')"
  shows "users s' = users s" "devices s' = devices s" "members s' = members s"
    "messages s' = messages s" "operations s' = operations s" "cursors s' = cursors s"
    "tickets s' = tickets s" "versions s' = versions s" "indexes s' = indexes s"
    "db.more s' = db.more s"
  using assms by (auto elim!: Append_Inr simp: bump_seq_def)

lemma set_bump_seq:
  "set (chats (bump_seq chat s)) = (\<lambda>c. if c_id c = chat then c\<lparr>c_seq := c_seq c + 1\<rparr> else c) ` set (chats s)"
  by (simp add: bump_seq_def set_update_rows)

lemma bump_seq_ids: "map c_id (chats (bump_seq chat s)) = map c_id (chats s)"
  by (simp add: bump_seq_def map_update_rows)

lemma bump_seq_id_set: "c_id ` set (chats (bump_seq chat s)) = c_id ` set (chats s)"
  using arg_cong [OF bump_seq_ids, of set chat s] by simp

lemma unique_bump_seq [simp]:
  "unique_on c_id (chats (bump_seq chat s)) = unique_on c_id (chats s)"
  by (simp add: unique_on_def bump_seq_ids)

lemma bump_seq_frame [simp]:
  "users (bump_seq chat s) = users s" "devices (bump_seq chat s) = devices s"
  "members (bump_seq chat s) = members s" "messages (bump_seq chat s) = messages s"
  "operations (bump_seq chat s) = operations s" "cursors (bump_seq chat s) = cursors s"
  "tickets (bump_seq chat s) = tickets s" "events (bump_seq chat s) = events s"
  by (simp_all add: bump_seq_def)

lemma Append_chats:
  assumes "Append C env s chat kind message data = Inr (n, s')"
  shows "chats s' = chats (bump_seq chat s)"
  using assms by (auto elim!: Append_Inr)

lemma Append_event:
  assumes "Append C env s chat kind message data = Inr (n, s')"
  obtains e where "events s' = events s @ [e]" "e_chat e = chat" "e_seq e = n" "e_kind e = kind"
    "e_message e = message" "e_created e = now env"
  using assms by (elim Append_Inr) (simp add: that)

lemma head_bump_other: "d \<noteq> chat \<Longrightarrow> head (bump_seq chat s) d = head s d"
  by (cases "get_row c_id d (chats s)")
    (auto simp: head_def bump_seq_def get_row_update_key dest: get_row_SomeD)

lemma Append_head:
  assumes "db_ok s" "Append C env s chat kind message data = Inr (n, s')"
  shows "head s chat = Some (n - 1)" "head s' chat = Some n"
    "d \<noteq> chat \<Longrightarrow> head s' d = head s d"
proof -
  show "head s chat = Some (n - 1)" "head s' chat = Some n"
    using assms
    by (auto elim!: Append_Inr simp: head_def bump_seq_def get_row_update_key dest: get_row_SomeD)
  show "head s' d = head s d" if "d \<noteq> chat"
    using head_bump_other [OF that, of s] Append_chats [OF assms(2)] by (simp add: head_def)
qed

lemma Append_seqs:
  assumes "Append C env s chat kind message data = Inr (n, s')"
  shows "log_seqs s' d = log_seqs s d @ (if d = chat then [n] else [])"
  using assms by (auto elim!: Append_Inr simp: log_seqs_def chat_log_def)

lemma seq_in_log: "e \<in> set (events s) \<Longrightarrow> e_seq e \<in> set (log_seqs s (e_chat e))"
  by (auto simp: log_seqs_def chat_log_def)

lemma journal_event_bound:
  assumes "db_ok s" "e \<in> set (events s)" "c \<in> set (chats s)" "c_id c = e_chat e"
  shows "1 \<le> e_seq e \<and> e_seq e \<le> c_seq c"
proof -
  from assms obtain k where "0 \<le> k" "log_seqs s (c_id c) = [k + 1..c_seq c]"
    by (auto simp: db_ok_def journal_ok_def)
  with seq_in_log [OF assms(2)] assms(4) show ?thesis by auto
qed

lemma Append_db_ok:
  assumes ok: "db_ok s" and app: "Append C env s chat kind message data = Inr (n, s')"
  shows "db_ok s'"
proof -
  from app obtain c st where c: "get_row c_id chat (chats s) = Some c" and n: "n = c_seq c + 1"
    and s': "s' = (bump_seq chat s)\<lparr>events := events s @
       [\<lparr>e_chat = chat, e_seq = n, e_kind = kind, e_message = message, e_data = st, e_created = now env\<rparr>]\<rparr>"
    by (rule Append_Inr)
  from c have cin: "c \<in> set (chats s)" and cid: "c_id c = chat" by (auto dest: get_row_SomeD)
  have fresh: "(chat, n) \<notin> e_key ` set (events s)"
  proof
    assume "(chat, n) \<in> e_key ` set (events s)"
    then obtain e where "e \<in> set (events s)" "e_chat e = chat" "e_seq e = n"
      by (auto simp: e_key_def)
    with journal_event_bound [OF ok _ cin] cid n show False by fastforce
  qed
  have "keys_ok s'" using db_okD(1) [OF ok] fresh
    by (auto simp: keys_ok_def s' intro!: unique_on_append1 simp: e_key_def)
  moreover have "refs_ok s'" using db_okD(2) [OF ok] cin cid
    by (auto simp: refs_ok_def s' bump_seq_id_set)
  moreover have "bounds_ok s'" using db_okD(3) [OF ok]
    by (fastforce simp: bounds_ok_def s' set_bump_seq)
  moreover have "journal_ok s'" unfolding journal_ok_def
  proof
    fix c' assume "c' \<in> set (chats s')"
    then obtain c0 where c0: "c0 \<in> set (chats s)"
      and c': "c' = (if c_id c0 = chat then c0\<lparr>c_seq := c_seq c0 + 1\<rparr> else c0)"
      by (auto simp: s' set_bump_seq)
    from db_okD(4) [OF ok] c0 obtain k where k: "0 \<le> k" "k \<le> c_seq c0"
      "log_seqs s (c_id c0) = [k + 1..c_seq c0]" by (auto simp: journal_ok_def)
    have "log_seqs s' (c_id c') = [k + 1..c_seq c']"
    proof (cases "c_id c0 = chat")
      case True
      then have "c0 = c" using ok c0 cin cid by (auto dest: unique_on_eqD [OF keys_ok_chats])
      with True k n c' Append_seqs [OF app, of chat] show ?thesis
        by (simp add: upto_rec2 algebra_simps)
    next
      case False
      with k c' Append_seqs [OF app, of "c_id c0"] show ?thesis by simp
    qed
    with k c' show "\<exists>k. 0 \<le> k \<and> k \<le> c_seq c' \<and> log_seqs s' (c_id c') = [k + 1..c_seq c']"
      by (intro exI [of _ k]) auto
  qed
  ultimately show ?thesis by (rule db_okI)
qed

text \<open>In an intact store an append to an existing chat fails only when a statement does.\<close>

lemma Append_progress:
  assumes "db_ok s" "head s chat = Some h" "\<not> flt env 0" "\<not> flt env 1"
  obtains s' where "Append C env s chat kind message data = Inr (h + 1, s')"
proof -
  from assms(2) obtain c where c: "get_row c_id chat (chats s) = Some c" and h: "c_seq c = h"
    by (auto simp: head_def)
  then have "c \<in> set (chats s)" "c_id c = chat" by (auto dest: get_row_SomeD)
  then have "(chat, h + 1) \<notin> e_key ` set (events s)"
    using journal_event_bound [OF assms(1)] h by (fastforce simp: e_key_def)
  then have "get_row e_key (chat, h + 1) (events s) = None" by (simp add: get_row_None_iff)
  with c h assms(3,4) have "\<exists>s'. Append C env s chat kind message data = Inr (h + 1, s')"
    by (simp add: Append_def insert_row_def Let_def e_key_def)
  then show ?thesis using that by blast
qed

interpretation store_journal: event_journal head log_seqs
  "\<lambda>(C, env, kind, message, data) s chat. Append C env s chat kind message data" db_ok
proof
  fix a :: "'z core \<times> env \<times> string \<times> ident \<times> string option" and s s' :: "'z db_scheme" and c n
  assume ok: "db_ok s"
    and app: "(case a of (C, env, kind, message, data) \<Rightarrow> \<lambda>s chat. Append C env s chat kind message data) s c = Inr (n, s')"
  obtain C env kind message data where a: "a = (C, env, kind, message, data)" by (cases a)
  from app a have app': "Append C env s c kind message data = Inr (n, s')" by simp
  show "head s c = Some (n - 1) \<and> head s' c = Some n" using Append_head [OF ok app'] by simp
  show "log_seqs s' c = log_seqs s c @ [n]" using Append_seqs [OF app', of c] by simp
  show "db_ok s'" by (rule Append_db_ok [OF ok app'])
  fix d assume "d \<noteq> c"
  then show "head s' d = head s d \<and> log_seqs s' d = log_seqs s d"
    using Append_head [OF ok app'] Append_seqs [OF app', of d] by simp
qed

end
