(* ===== verification/Upkeep.thy ===== *)
theory Upkeep
  imports Store "HOL-Library.Multiset"
begin

text \<open>
  What the upkeep of the store guarantees: migrations are atomic and repeatable, the feature
  manifest is accepted exactly when the three lists agree, and the retention cleanup terminates,
  deletes exactly the expired rows and never tears a hole into a chat's journal.
\<close>

subsection \<open>Migrations\<close>

lemma exec_indexes_Some:
  "exec_indexes f i ns s = Some s' \<Longrightarrow>
    \<exists>ix. s' = s\<lparr>indexes := ix\<rparr> \<and> set ix = set (indexes s) \<union> set ns"
proof (induction f i ns s rule: exec_indexes.induct)
  case (1 f i s)
  then show ?case by (intro exI [of _ "indexes s"]) simp
next
  case (2 f i n ns s)
  then have nf: "\<not> f i"
    and e: "exec_indexes f (Suc i) ns (s\<lparr>indexes := insert_ignore id n (indexes s)\<rparr>) = Some s'"
    by (auto split: if_splits)
  from "2.IH" [OF nf e] obtain ix where "s' = s\<lparr>indexes := ix\<rparr>"
    "set ix = set (insert_ignore id n (indexes s)) \<union> set ns" by auto
  moreover have "set (insert_ignore id n (indexes s)) = insert n (set (indexes s))"
    by (auto simp: insert_ignore_def get_row_None_iff dest: get_row_SomeD)
  ultimately show ?case by (intro exI [of _ ix]) auto
qed

lemma run_migration_Some:
  assumes "run_migration f v ns s = Some s'"
  obtains ix where "s' = s\<lparr>indexes := ix, versions := versions s @ [v]\<rparr>"
    "set ix = set (indexes s) \<union> set ns"
proof -
  from assms obtain s1 vs where e: "exec_indexes f 1 ns s = Some s1"
    and i: "insert_row id v (versions s1) = Some vs" and s': "s' = s1\<lparr>versions := vs\<rparr>"
    by (auto simp: run_migration_def split: if_splits option.splits)
  from exec_indexes_Some [OF e] obtain ix where s1: "s1 = s\<lparr>indexes := ix\<rparr>"
    and ix: "set ix = set (indexes s) \<union> set ns" by auto
  from i s1 have "vs = versions s @ [v]" by (auto dest: insert_row_SomeD)
  with s' s1 have "s' = s\<lparr>indexes := ix, versions := versions s @ [v]\<rparr>" by simp
  then show ?thesis using ix by (rule that)
qed

lemma migrate_from_ok:
  assumes "migrations_ok s" "set ms \<subseteq> set schemaMigrations"
  shows "migrations_ok (snd (migrate_from f current ms s))"
  using assms
proof (induction f current ms s rule: migrate_from.induct)
  case (2 f current v ns ms s)
  show ?case
  proof (cases "v \<le> current")
    case True
    with 2 show ?thesis by simp
  next
    case False
    show ?thesis
    proof (cases "run_migration f v ns s")
      case None
      with False 2 show ?thesis by simp
    next
      case (Some s1)
      from Some obtain ix where s1: "s1 = s\<lparr>indexes := ix, versions := versions s @ [v]\<rparr>"
        and ix: "set ix = set (indexes s) \<union> set ns" by (rule run_migration_Some)
      have "(v, ns) \<in> set schemaMigrations" using "2.prems"(2) by simp
      then have "migrations_ok s1" using "2.prems"(1) ix
        by (auto simp: migrations_ok_def s1 schemaMigrations_def)
      with 2 False Some show ?thesis by simp
    qed
  qed
qed simp

lemma applyMigrations_ok: "migrations_ok s \<Longrightarrow> migrations_ok (snd (applyMigrations f s))"
  by (simp add: applyMigrations_def migrate_from_ok)

lemma max_version_Max: "vs \<noteq> [] \<Longrightarrow> max_version vs = Max (set vs)"
  by (cases vs) (simp_all only: max_version.simps Max.set_eq_fold not_Cons_self2 simp_thms)

lemma exec_indexes_no_faults: "\<exists>s'. exec_indexes no_faults i ns s = Some s'"
  by (induction ns arbitrary: i s) auto

text \<open>Without a fault every migration is applied, and a second run changes nothing.\<close>

lemma applyMigrations_complete:
  assumes ok: "migrations_ok s" and one: "1 \<in> set (versions s)"
  obtains s' where "applyMigrations no_faults s = (True, s')" "migrations_ok s'"
    "2 \<in> set (versions s')" "\<And>t. retention_index t \<in> set (indexes s')"
    "applyMigrations no_faults s' = (True, s')"
proof -
  from ok have vs: "set (versions s) \<subseteq> {1, 2}"
    by (auto simp: migrations_ok_def schemaMigrations_def)
  from one have ne: "versions s \<noteq> []" by auto
  have again: "applyMigrations no_faults s' = (True, s')"
    if "2 \<in> set (versions s')" "set (versions s') \<subseteq> {1, 2}" for s' :: "'a db_scheme"
  proof -
    from that have "Max (set (versions s')) = 2" by (intro Max_eqI) auto
    moreover have "versions s' \<noteq> []" using that(1) by auto
    ultimately show ?thesis
      by (simp add: applyMigrations_def schemaMigrations_def max_version_Max)
  qed
  have ix: "retention_index t \<in> set (indexes s')" if "migrations_ok s'" "2 \<in> set (versions s')"
    for t and s' :: "'a db_scheme"
    using that by (auto simp: migrations_ok_def schemaMigrations_def retention_index_def
        split: retention_table.split)
  show ?thesis
  proof (cases "2 \<in> set (versions s)")
    case True
    then show ?thesis using that again [OF True vs] ok ix by blast
  next
    case False
    with vs one have "set (versions s) = {1}" by auto
    then have max: "max_version (versions s) = 1" using ne by (simp add: max_version_Max)
    define ns where "ns = [''tickets_expires'', ''operations_created_at'', ''events_created_at'']"
    obtain s1 where e: "exec_indexes no_faults 1 ns s = Some s1"
      using exec_indexes_no_faults by blast
    from exec_indexes_Some [OF e] have "versions s1 = versions s" by auto
    with False have i: "insert_row id 2 (versions s1) = Some (versions s @ [2])"
      by (simp add: insert_row_def get_row_None_iff)
    then have r: "run_migration no_faults 2 ns s = Some (s1\<lparr>versions := versions s @ [2]\<rparr>)"
      using e by (simp add: run_migration_def)
    then have a: "applyMigrations no_faults s = (True, s1\<lparr>versions := versions s @ [2]\<rparr>)"
      by (simp add: applyMigrations_def max schemaMigrations_def ns_def)
    have ok': "migrations_ok (s1\<lparr>versions := versions s @ [2]\<rparr>)"
      using applyMigrations_ok [OF ok, of no_faults] a by simp
    show ?thesis
      by (rule that [OF a ok' _ _ again]) (use vs ix [OF ok'] in auto)
  qed
qed

subsection \<open>The feature manifest\<close>

lemma check_manifest_None_iff:
  assumes "distinct enabled"
  shows "check_manifest enabled registered compiled = None \<longleftrightarrow>
    set enabled = set registered \<and> set enabled = {n \<in> set compiled. n \<noteq> []}"
proof -
  let ?A = "set registered" and ?E = "{n \<in> set compiled. n \<noteq> []}"
  have len: "length enabled = card (set enabled)" "length (remdups registered) = card ?A"
    "length (remdups (filter (\<lambda>n. n \<noteq> []) compiled)) = card ?E"
    using assms by (simp_all add: distinct_card length_remdups_card_conv)
  have "check_manifest enabled registered compiled = None \<longleftrightarrow>
      set enabled \<subseteq> ?A \<inter> ?E \<and> card (set enabled) = card ?E \<and> card ?A = card ?E"
    by (auto simp: check_manifest_def Let_def len find_None_iff dest: find_SomeD split: option.splits)
  also have "\<dots> \<longleftrightarrow> set enabled = ?A \<and> set enabled = ?E"
  proof
    assume h: "set enabled \<subseteq> ?A \<inter> ?E \<and> card (set enabled) = card ?E \<and> card ?A = card ?E"
    then have "set enabled = ?E" by (intro card_subset_eq) auto
    moreover have "set enabled = ?A" using h by (intro card_subset_eq) auto
    ultimately show "set enabled = ?A \<and> set enabled = ?E" by simp
  qed auto
  finally show ?thesis .
qed

lemma distinct_Enabled: "distinct (Enabled f)"
proof -
  let ?names = "[''ai_endpoint'', ''ai_policy'', ''ai_storage'', ''ai_streaming'', ''anthropic'', ''calls'',
     ''delete'', ''e2ee'', ''edit'', ''files'', ''forward'', ''groups'', ''http_tools'', ''mcp'', ''openai'',
     ''reactions'', ''reply'']"
  have d: "distinct ?names" by simp
  show ?thesis unfolding Enabled_def by (rule distinct_map_filter) simp
qed

subsection \<open>Retention: one batch\<close>

lemma victims_subset: "set (victims tm cutoff limit rows) \<subseteq> {r \<in> set rows. tm r < cutoff}"
  unfolding victims_def by (auto dest: in_set_takeD)

lemma drop_victims_keeps:
  "r \<in> set rows \<Longrightarrow> \<not> tm r < cutoff \<Longrightarrow> r \<in> set (drop_victims tm cutoff limit rows)"
  using victims_subset [of tm cutoff limit rows] by (auto simp: drop_victims_def set_delete_rows)

lemma drop_victims_filter:
  "filter (\<lambda>r. \<not> tm r < cutoff) (drop_victims tm cutoff limit rows) =
    filter (\<lambda>r. \<not> tm r < cutoff) rows"
  using victims_subset [of tm cutoff limit rows]
  by (auto simp: drop_victims_def delete_rows_def intro!: filter_cong)

text \<open>A batch that is not full has deleted every expired row.\<close>

lemma drop_victims_partial:
  assumes "length rows - length (drop_victims tm cutoff limit rows) < limit"
  shows "drop_victims tm cutoff limit rows = filter (\<lambda>r. \<not> tm r < cutoff) rows"
proof -
  let ?old = "filter (\<lambda>r. tm r < cutoff) rows" and ?v = "victims tm cutoff limit rows"
  have "length ?old < limit"
  proof (rule ccontr)
    assume "\<not> length ?old < limit"
    then have lv: "length ?v = limit" by (simp add: victims_def)
    have "mset ?v \<subseteq># mset ?old"
    proof -
      have "mset ?old = mset (take limit (sort_key tm ?old) @ drop limit (sort_key tm ?old))"
        by (simp only: append_take_drop_id mset_sort)
      then show ?thesis by (simp only: victims_def mset_append mset_subset_eq_add_left)
    qed
    also have "\<dots> \<subseteq># mset rows" by (simp add: multiset_filter_subset)
    finally have "filter_mset (\<lambda>r. r \<in> set ?v) (mset ?v) \<subseteq># filter_mset (\<lambda>r. r \<in> set ?v) (mset rows)"
      by (rule multiset_filter_mono)
    moreover have "filter_mset (\<lambda>r. r \<in> set ?v) (mset ?v) = mset ?v"
      by (simp add: filter_mset_eq_conv)
    ultimately have "mset ?v \<subseteq># mset (filter (\<lambda>r. r \<in> set ?v) rows)" by simp
    then have "length ?v \<le> length (filter (\<lambda>r. r \<in> set ?v) rows)"
      by (metis size_mset size_mset_mono)
    moreover have "length (filter (\<lambda>r. r \<in> set ?v) rows) + length (drop_victims tm cutoff limit rows) = length rows"
      by (simp add: drop_victims_def delete_rows_def sum_length_filter_compl)
    ultimately show False using assms lv by linarith
  qed
  then have "set ?v = set ?old" by (simp add: victims_def)
  then show ?thesis
    by (auto simp: drop_victims_def delete_rows_def intro!: filter_cong)
qed

text \<open>
  When the rows stand in the order of their times, a batch deletes a prefix of the table.
\<close>

lemma sorted_filter_less:
  "sorted (map tm rows) \<Longrightarrow> filter (\<lambda>r. tm r < cutoff) rows = takeWhile (\<lambda>r. tm r < cutoff) rows"
proof (induction rows)
  case (Cons r rows)
  show ?case
  proof (cases "tm r < cutoff")
    case False
    with Cons.prems have "filter (\<lambda>r. tm r < cutoff) rows = []"
      by (auto simp: filter_empty_conv)
    with False show ?thesis by simp
  qed (use Cons in simp)
qed simp

lemma drop_victims_prefix:
  assumes "sorted (map tm rows)" "distinct rows"
  obtains k where "drop_victims tm cutoff limit rows = drop k rows"
proof -
  have "sorted (map tm (filter (\<lambda>r. tm r < cutoff) rows))"
    using assms(1) by (rule sorted_filter)
  then have "victims tm cutoff limit rows = take limit (takeWhile (\<lambda>r. tm r < cutoff) rows)"
    by (simp add: victims_def sort_key_id_if_sorted sorted_filter_less [OF assms(1)] flip: sorted_filter_less [OF assms(1)])
  also obtain j where "takeWhile (\<lambda>r. tm r < cutoff) rows = take j rows"
    using takeWhile_eq_take by blast
  finally obtain k where v: "victims tm cutoff limit rows = take k rows" by (simp add: that)
  let ?keep = "\<lambda>r. r \<notin> set (take k rows)"
  have "filter ?keep rows = filter ?keep (take k rows) @ filter ?keep (drop k rows)"
    by (metis append_take_drop_id filter_append)
  also have "filter ?keep (take k rows) = []" by (simp add: filter_empty_conv)
  also have "filter ?keep (drop k rows) = drop k rows"
    using set_take_disj_set_drop_if_distinct [OF assms(2), of k k] by (auto simp: filter_id_conv)
  finally have "drop_victims tm cutoff limit rows = drop k rows"
    by (simp add: drop_victims_def delete_rows_def v)
  then show ?thesis by (rule that)
qed

subsection \<open>Retention never tears the journal\<close>

lemma drop_upto: "drop n [i..j] = [i + int n..j]"
proof (induction n arbitrary: i)
  case (Suc n)
  show ?case
  proof (cases "i \<le> j")
    case True
    then have "[i..j] = i # [i + 1..j]" by (rule upto_rec1)
    with Suc [of "i + 1"] show ?thesis by (simp add: algebra_simps)
  qed simp
qed simp

lemma filter_drop: "\<exists>j. filter p (drop k xs) = drop j (filter p xs)"
proof (intro exI)
  have "filter p xs = filter p (take k xs) @ filter p (drop k xs)"
    by (metis append_take_drop_id filter_append)
  then show "filter p (drop k xs) = drop (length (filter p (take k xs))) (filter p xs)" by simp
qed

lemma events_prefix_db_ok:
  assumes ok: "db_ok s"
  shows "db_ok (s\<lparr>events := drop k (events s)\<rparr>)"
proof -
  let ?s = "s\<lparr>events := drop k (events s)\<rparr>"
  have "keys_ok ?s" using db_okD(1) [OF ok]
    by (simp add: keys_ok_def unique_on_def drop_map [symmetric])
  moreover have "refs_ok ?s" using db_okD(2) [OF ok]
    by (auto simp: refs_ok_def dest: in_set_dropD)
  moreover have "bounds_ok ?s" using db_okD(3) [OF ok] by (simp add: bounds_ok_def)
  moreover have "journal_ok ?s" unfolding journal_ok_def
  proof
    fix c assume "c \<in> set (chats ?s)"
    with db_okD(4) [OF ok] obtain n where n: "0 \<le> n" "n \<le> c_seq c"
      "log_seqs s (c_id c) = [n + 1..c_seq c]" by (auto simp: journal_ok_def)
    obtain j where "chat_log ?s (c_id c) = drop j (chat_log s (c_id c))"
      using filter_drop [of "\<lambda>e. e_chat e = c_id c" k "events s"] by (auto simp: chat_log_def)
    then have "log_seqs ?s (c_id c) = drop j (log_seqs s (c_id c))"
      by (simp add: log_seqs_def drop_map)
    also have "\<dots> = [n + 1 + int j..c_seq c]" by (simp add: n drop_upto)
    finally have *: "log_seqs ?s (c_id c) = [n + 1 + int j..c_seq c]" .
    show "\<exists>n. 0 \<le> n \<and> n \<le> c_seq c \<and> log_seqs ?s (c_id c) = [n + 1..c_seq c]"
    proof (cases "n + int j \<le> c_seq c")
      case True
      with * n show ?thesis by (intro exI [of _ "n + int j"]) (simp add: algebra_simps)
    next
      case False
      with * n show ?thesis by (intro exI [of _ "c_seq c"]) simp
    qed
  qed
  ultimately show ?thesis by (rule db_okI)
qed

lemma deleteRetentionBatch_ok:
  assumes ok: "db_ok s" "timed_ok T s"
    and del: "deleteRetentionBatch fail t cutoff limit s = Inr (d, s')"
  shows "db_ok s' \<and> timed_ok T s'"
proof (cases "limit = 0")
  case True
  with del ok show ?thesis by (auto simp: deleteRetentionBatch_def split: if_splits)
next
  case False
  show ?thesis
  proof (cases t)
    case RTickets
    with False del have "s' = s\<lparr>tickets := drop_victims t_expires cutoff limit (tickets s)\<rparr>"
      by (auto simp: deleteRetentionBatch_def split: if_splits)
    with ok show ?thesis
      by (simp add: db_ok_def keys_ok_def refs_ok_def bounds_ok_def journal_ok_def timed_ok_def
          log_seqs_def chat_log_def drop_victims_def unique_on_delete)
  next
    case ROperations
    with False del have "s' = s\<lparr>operations := drop_victims o_created cutoff limit (operations s)\<rparr>"
      by (auto simp: deleteRetentionBatch_def split: if_splits)
    with ok show ?thesis
      by (simp add: db_ok_def keys_ok_def refs_ok_def bounds_ok_def journal_ok_def timed_ok_def
          log_seqs_def chat_log_def drop_victims_def unique_on_delete)
  next
    case REvents
    from ok have "sorted (map e_created (events s))" "distinct (events s)"
      by (auto simp: timed_ok_def db_ok_def keys_ok_def unique_on_def distinct_map)
    then obtain k where "drop_victims e_created cutoff limit (events s) = drop k (events s)"
      by (rule drop_victims_prefix)
    with False REvents del have "s' = s\<lparr>events := drop k (events s)\<rparr>"
      by (auto simp: deleteRetentionBatch_def split: if_splits)
    with events_prefix_db_ok [OF ok(1)] ok(2) show ?thesis
      by (auto simp: timed_ok_def drop_map [symmetric] intro: sorted_wrt_drop dest: in_set_dropD)
  qed
qed

lemma cleanup_pass_ok:
  "db_ok s \<Longrightarrow> timed_ok T s \<Longrightarrow> cleanup_pass f n es full s = (r, s') \<Longrightarrow> db_ok s' \<and> timed_ok T s'"
proof (induction f n es full s rule: cleanup_pass.induct)
  case (2 f n t cutoff es full s)
  show ?case
  proof (cases "deleteRetentionBatch (f n) t cutoff retentionCleanupBatchSize s")
    case (Inr p)
    obtain d s1 where p: "p = (d, s1)" by (cases p)
    have ok1: "db_ok s1" "timed_ok T s1"
      using deleteRetentionBatch_ok [OF "2.prems"(1,2) Inr [unfolded p]] by auto
    show ?thesis
    proof (cases "d > 0 \<and> f (Suc n)")
      case False
      with Inr p "2.prems"(3) have
        "cleanup_pass f (n + 2) es (full \<or> d = retentionCleanupBatchSize) s1 = (r, s')" by auto
      then show ?thesis by (rule "2.IH" [OF Inr p [symmetric] False ok1])
    qed (use Inr p "2.prems" ok1 in auto)
  qed (use "2.prems" in auto)
qed auto

lemma cleanup_loop_ok:
  "db_ok s \<Longrightarrow> timed_ok T s \<Longrightarrow> db_ok (snd (cleanup_loop f n es s)) \<and> timed_ok T (snd (cleanup_loop f n es s))"
proof (induction f n es s rule: cleanup_loop.induct)
  case (1 f n es s)
  obtain r s1 where p: "cleanup_pass f n es False s = (r, s1)" by (cases "cleanup_pass f n es False s")
  from cleanup_pass_ok [OF "1.prems" p] have ok1: "db_ok s1" "timed_ok T s1" by auto
  show ?case
  proof (cases "r = Some True")
    case True
    with "1.IH" [OF p [symmetric], of True] ok1 show ?thesis
      by (subst (1 2) cleanup_loop.simps) (simp add: p)
  next
    case False
    with ok1 show ?thesis
      by (subst (1 2) cleanup_loop.simps) (auto simp: p split: option.splits)
  qed
qed

lemma cleanup_tick_ok:
  "db_ok s \<Longrightarrow> timed_ok T s \<Longrightarrow> db_ok (cleanup_tick C env s) \<and> timed_ok T (cleanup_tick C env s)"
  by (simp add: cleanup_tick_def cleanupRetention_def cleanup_loop_ok)

subsection \<open>Retention deletes exactly what has expired\<close>

definition expire1 :: "retention_table \<Rightarrow> time \<Rightarrow> 'z db_scheme \<Rightarrow> 'z db_scheme" where
  "expire1 t c s = (case t of
       RTickets \<Rightarrow> s\<lparr>tickets := filter (\<lambda>r. \<not> t_expires r < c) (tickets s)\<rparr>
     | ROperations \<Rightarrow> s\<lparr>operations := filter (\<lambda>r. \<not> o_created r < c) (operations s)\<rparr>
     | REvents \<Rightarrow> s\<lparr>events := filter (\<lambda>r. \<not> e_created r < c) (events s)\<rparr>)"

fun expire :: "(retention_table \<times> time) list \<Rightarrow> 'z db_scheme \<Rightarrow> 'z db_scheme" where
  "expire [] s = s"
| "expire ((t, c) # es) s = expire es (expire1 t c s)"

lemma expire1_commute: "expire1 t c (expire1 u d s) = expire1 u d (expire1 t c s)"
  by (cases t; cases u) (simp_all add: expire1_def conj_commute)

lemma expire1_expire: "expire1 t c (expire es s) = expire es (expire1 t c s)"
  by (induction es arbitrary: s) (auto simp: expire1_commute)

definition rows_distinct :: "'z db_scheme \<Rightarrow> bool" where
  "rows_distinct s \<longleftrightarrow> distinct (tickets s) \<and> distinct (operations s) \<and> distinct (events s)"

lemma db_ok_rows_distinct: "db_ok s \<Longrightarrow> rows_distinct s"
  by (auto simp: rows_distinct_def db_ok_def keys_ok_def unique_on_def distinct_map)

lemma drop_victims_count:
  assumes "distinct rows"
  shows "length rows - length (drop_victims tm cutoff limit rows) \<le> limit"
proof -
  let ?v = "victims tm cutoff limit rows"
  have "length (filter (\<lambda>r. r \<in> set ?v) rows) + length (drop_victims tm cutoff limit rows) = length rows"
    by (simp add: drop_victims_def delete_rows_def sum_length_filter_compl)
  moreover have "length (filter (\<lambda>r. r \<in> set ?v) rows) = card (set (filter (\<lambda>r. r \<in> set ?v) rows))"
    using assms by (simp only: distinct_card distinct_filter)
  moreover have "card (set (filter (\<lambda>r. r \<in> set ?v) rows)) \<le> card (set ?v)"
    by (intro card_mono) auto
  moreover have "card (set ?v) \<le> length ?v" by (rule card_length)
  moreover have "length ?v \<le> limit" by (simp add: victims_def)
  ultimately show ?thesis by linarith
qed

lemma drop_victims_short:
  "distinct rows \<Longrightarrow> length rows - length (drop_victims tm cutoff limit rows) \<noteq> limit \<Longrightarrow>
    drop_victims tm cutoff limit rows = filter (\<lambda>r. \<not> tm r < cutoff) rows"
  using drop_victims_count [of rows tm cutoff limit] by (intro drop_victims_partial) linarith

lemma batch_expire:
  assumes "deleteRetentionBatch fail t cutoff (Suc l) s = Inr (d, s')" "rows_distinct s"
  shows "expire1 t cutoff s' = expire1 t cutoff s \<and> indexes s' = indexes s \<and> rows_distinct s'
    \<and> (d \<noteq> Suc l \<longrightarrow> s' = expire1 t cutoff s)"
proof (cases t)
  case RTickets
  with assms have s': "s' = s\<lparr>tickets := drop_victims t_expires cutoff (Suc l) (tickets s)\<rparr>"
    "d = length (tickets s) - length (drop_victims t_expires cutoff (Suc l) (tickets s))"
    by (simp_all add: deleteRetentionBatch_def split: if_splits)
  with RTickets assms(2) drop_victims_short [of "tickets s" t_expires cutoff "Suc l"] show ?thesis
    by (simp add: expire1_def drop_victims_filter rows_distinct_def) (simp add: drop_victims_def delete_rows_def)
next
  case ROperations
  with assms have s': "s' = s\<lparr>operations := drop_victims o_created cutoff (Suc l) (operations s)\<rparr>"
    "d = length (operations s) - length (drop_victims o_created cutoff (Suc l) (operations s))"
    by (simp_all add: deleteRetentionBatch_def split: if_splits)
  with ROperations assms(2) drop_victims_short [of "operations s" o_created cutoff "Suc l"] show ?thesis
    by (simp add: expire1_def drop_victims_filter rows_distinct_def) (simp add: drop_victims_def delete_rows_def)
next
  case REvents
  with assms have s': "s' = s\<lparr>events := drop_victims e_created cutoff (Suc l) (events s)\<rparr>"
    "d = length (events s) - length (drop_victims e_created cutoff (Suc l) (events s))"
    by (simp_all add: deleteRetentionBatch_def split: if_splits)
  with REvents assms(2) drop_victims_short [of "events s" e_created cutoff "Suc l"] show ?thesis
    by (simp add: expire1_def drop_victims_filter rows_distinct_def) (simp add: drop_victims_def delete_rows_def)
qed

lemma pass_expire:
  "cleanup_pass f n es full s = (Some r, s') \<Longrightarrow> rows_distinct s \<Longrightarrow>
    expire es s' = expire es s \<and> indexes s' = indexes s \<and> rows_distinct s'
    \<and> (\<not> r \<longrightarrow> \<not> full \<and> s' = expire es s)"
proof (induction f n es full s rule: cleanup_pass.induct)
  case (2 f n t cutoff es full s)
  from "2.prems"(1) obtain d s1
    where b: "deleteRetentionBatch (f n) t cutoff retentionCleanupBatchSize s = Inr (d, s1)"
      and c: "\<not> (d > 0 \<and> f (Suc n))"
      and r: "cleanup_pass f (n + 2) es (full \<or> d = retentionCleanupBatchSize) s1 = (Some r, s')"
    by (auto split: sum.splits if_splits)
  have b': "deleteRetentionBatch (f n) t cutoff (Suc 255) s = Inr (d, s1)"
    using b by (simp add: retentionCleanupBatchSize_def)
  note B = batch_expire [OF b' "2.prems"(2)]
  then have "rows_distinct s1" by simp
  note I = "2.IH" [OF b refl c r this]
  have "expire1 t cutoff (expire es s') = expire1 t cutoff (expire es s1)" using I by simp
  with B have "expire ((t, cutoff) # es) s' = expire ((t, cutoff) # es) s"
    by (simp add: expire1_expire)
  with B I show ?case by (simp add: retentionCleanupBatchSize_def)
qed auto

text \<open>A run without faults ends and leaves exactly the rows that have not expired.\<close>

lemma deleteRetentionBatch_Inr:
  "retention_index t \<in> set (indexes s) \<Longrightarrow> \<exists>d s'. deleteRetentionBatch False t cutoff limit s = Inr (d, s')"
  by (cases t) (simp_all add: deleteRetentionBatch_def)

lemma cleanup_pass_Some:
  "(\<And>t. retention_index t \<in> set (indexes s)) \<Longrightarrow> \<exists>r s'. cleanup_pass no_faults n es full s = (Some r, s')"
proof (induction es arbitrary: n full s)
  case (Cons e es)
  obtain t cutoff where e: "e = (t, cutoff)" by (cases e)
  obtain d s1 where b: "deleteRetentionBatch False t cutoff retentionCleanupBatchSize s = Inr (d, s1)"
    using deleteRetentionBatch_Inr Cons.prems by blast
  then have "indexes s1 = indexes s"
    by (auto simp: deleteRetentionBatch_def split: if_splits retention_table.splits)
  with Cons.prems have "\<And>t. retention_index t \<in> set (indexes s1)" by simp
  from Cons.IH [OF this] b e show ?case by simp
qed simp

lemma cleanup_loop_expires:
  "rows_distinct s \<Longrightarrow> (\<And>t. retention_index t \<in> set (indexes s)) \<Longrightarrow>
    cleanup_loop no_faults n es s = (True, expire es s)"
proof (induction "retention_rows s" arbitrary: n s rule: less_induct)
  case less
  obtain r s1 where p: "cleanup_pass no_faults n es False s = (Some r, s1)"
    using cleanup_pass_Some less.prems(2) by blast
  note E = pass_expire [OF p less.prems(1)]
  show ?case
  proof (cases r)
    case True
    with p have "retention_rows s1 < retention_rows s" using cleanup_pass_decreases by metis
    with less.hyps [OF this, of "n + 2 * length es"] E less.prems(2)
    have "cleanup_loop no_faults (n + 2 * length es) es s1 = (True, expire es s1)" by simp
    with p True E show ?thesis by (subst cleanup_loop.simps) simp
  next
    case False
    with p E show ?thesis by (subst cleanup_loop.simps) simp
  qed
qed

end
