(* ===== verification/Integrity.thy ===== *)
theory Integrity
  imports Upkeep
begin

text \<open>
  What a change of one table has to respect so that the store stays intact (\<open>db_ok\<close>): one lemma
  per table, collected in \<open>db_intros\<close>, which the handlers' invariant proofs apply.
\<close>

named_theorems db_intros \<open>changes of one table that keep the store intact\<close>

lemmas db_ok_unfold = db_ok_def keys_ok_def refs_ok_def bounds_ok_def journal_ok_def log_seqs_def chat_log_def

lemma db_ok_uniques:
  assumes "db_ok s"
  shows "unique_on u_id (users s)" "unique_on d_id (devices s)" "unique_on c_id (chats s)"
    "unique_on m_key (members s)" "unique_on g_id (messages s)" "unique_on e_key (events s)"
    "unique_on o_key (operations s)" "unique_on k_key (cursors s)" "unique_on t_hash (tickets s)"
  using assms by (simp_all add: db_ok_def keys_ok_def)

lemma db_ok_refs:
  assumes "db_ok s"
  shows "d \<in> set (devices s) \<Longrightarrow> d_user d \<in> u_id ` set (users s)"
    "m \<in> set (members s) \<Longrightarrow> m_chat m \<in> c_id ` set (chats s)"
    "m \<in> set (members s) \<Longrightarrow> m_user m \<in> u_id ` set (users s)"
    "g \<in> set (messages s) \<Longrightarrow> g_chat g \<in> c_id ` set (chats s)"
    "e \<in> set (events s) \<Longrightarrow> e_chat e \<in> c_id ` set (chats s)"
    "k \<in> set (cursors s) \<Longrightarrow> k_chat k \<in> c_id ` set (chats s)"
  using assms by (auto simp: db_ok_def refs_ok_def)

lemma db_ok_bounds:
  assumes "db_ok s" "c \<in> set (chats s)"
  shows "0 \<le> c_seq c"
    "g \<in> set (messages s) \<Longrightarrow> g_chat g = c_id c \<Longrightarrow> 1 \<le> g_seq g \<and> g_seq g \<le> c_seq c"
    "m \<in> set (members s) \<Longrightarrow> m_chat m = c_id c \<Longrightarrow> 1 \<le> m_joined m \<and> m_joined m \<le> c_seq c + 1"
    "k \<in> set (cursors s) \<Longrightarrow> k_chat k = c_id c \<Longrightarrow>
       0 \<le> k_read k \<and> k_read k \<le> k_delivered k \<and> k_delivered k \<le> c_seq c"
  using assms by (auto simp: db_ok_def bounds_ok_def)

lemma db_ok_chat_of:
  assumes "db_ok s"
  shows "m \<in> set (members s) \<Longrightarrow>
      \<exists>c \<in> set (chats s). c_id c = m_chat m \<and> 1 \<le> m_joined m \<and> m_joined m \<le> c_seq c + 1"
    "g \<in> set (messages s) \<Longrightarrow> \<exists>c \<in> set (chats s). c_id c = g_chat g \<and> 1 \<le> g_seq g \<and> g_seq g \<le> c_seq c"
    "k \<in> set (cursors s) \<Longrightarrow> \<exists>c \<in> set (chats s). c_id c = k_chat k
       \<and> 0 \<le> k_read k \<and> k_read k \<le> k_delivered k \<and> k_delivered k \<le> c_seq c"
proof -
  show "\<exists>c \<in> set (chats s). c_id c = m_chat m \<and> 1 \<le> m_joined m \<and> m_joined m \<le> c_seq c + 1"
    if "m \<in> set (members s)"
    using db_ok_refs(2) [OF assms that] db_ok_bounds(3) [OF assms _ that] by fastforce
  show "\<exists>c \<in> set (chats s). c_id c = g_chat g \<and> 1 \<le> g_seq g \<and> g_seq g \<le> c_seq c"
    if "g \<in> set (messages s)"
    using db_ok_refs(4) [OF assms that] db_ok_bounds(2) [OF assms _ that] by fastforce
  show "\<exists>c \<in> set (chats s). c_id c = k_chat k
       \<and> 0 \<le> k_read k \<and> k_read k \<le> k_delivered k \<and> k_delivered k \<le> c_seq c"
    if "k \<in> set (cursors s)"
    using db_ok_refs(6) [OF assms that] db_ok_bounds(4) [OF assms _ that] by fastforce
qed

lemma key_set_upsert:
  assumes "\<And>r s. key (merge r s) = key s"
  shows "key ` set (upsert_row key merge r t) = insert (key r) (key ` set t)"
proof -
  have "key ` set (update_rows p (merge r) t) = key ` set t" for p
    using map_update_rows [of key "merge r"] assms by (metis set_map)
  then show ?thesis by (auto simp: upsert_row_def get_row_None_iff)
qed

lemma tickets_db_ok [db_intros]:
  "db_ok s \<Longrightarrow> unique_on t_hash ts \<Longrightarrow> db_ok (s\<lparr>tickets := ts\<rparr>)"
  by (simp add: db_ok_unfold)

lemma operations_db_ok [db_intros]:
  "db_ok s \<Longrightarrow> unique_on o_key os \<Longrightarrow> db_ok (s\<lparr>operations := os\<rparr>)"
  by (simp add: db_ok_unfold)

lemma users_db_ok [db_intros]:
  "db_ok s \<Longrightarrow> unique_on u_id us \<Longrightarrow> u_id ` set (users s) \<subseteq> u_id ` set us \<Longrightarrow> db_ok (s\<lparr>users := us\<rparr>)"
  by (simp add: db_ok_unfold) blast

lemma devices_db_ok [db_intros]:
  "db_ok s \<Longrightarrow> unique_on d_id ds \<Longrightarrow> d_user ` set ds \<subseteq> u_id ` set (users s) \<Longrightarrow> db_ok (s\<lparr>devices := ds\<rparr>)"
  by (simp add: db_ok_unfold) blast

lemma members_db_ok [db_intros]:
  assumes "db_ok s" "unique_on m_key ms"
    and "\<And>m. m \<in> set ms \<Longrightarrow> m_user m \<in> u_id ` set (users s)
      \<and> (\<exists>c \<in> set (chats s). c_id c = m_chat m \<and> 1 \<le> m_joined m \<and> m_joined m \<le> c_seq c + 1)"
  shows "db_ok (s\<lparr>members := ms\<rparr>)"
proof -
  have "1 \<le> m_joined m \<and> m_joined m \<le> c_seq c + 1"
    if "m \<in> set ms" "c \<in> set (chats s)" "m_chat m = c_id c" for m c
  proof -
    from assms(3) [OF that(1)] obtain c' where "c' \<in> set (chats s)" "c_id c' = m_chat m"
      "1 \<le> m_joined m" "m_joined m \<le> c_seq c' + 1" by blast
    moreover have "c' = c" using unique_on_eqD [OF db_ok_uniques(3) [OF assms(1)]] calculation that by simp
    ultimately show ?thesis by simp
  qed
  moreover have "\<forall>m \<in> set ms. m_chat m \<in> c_id ` set (chats s) \<and> m_user m \<in> u_id ` set (users s)"
    using assms(3) by force
  ultimately show ?thesis using assms(1,2) by (simp add: db_ok_unfold)
qed

lemma messages_db_ok [db_intros]:
  assumes "db_ok s" "unique_on g_id gs"
    and "\<And>g. g \<in> set gs \<Longrightarrow> \<exists>c \<in> set (chats s). c_id c = g_chat g \<and> 1 \<le> g_seq g \<and> g_seq g \<le> c_seq c"
  shows "db_ok (s\<lparr>messages := gs\<rparr>)"
proof -
  have "1 \<le> g_seq g \<and> g_seq g \<le> c_seq c"
    if "g \<in> set gs" "c \<in> set (chats s)" "g_chat g = c_id c" for g c
  proof -
    from assms(3) [OF that(1)] obtain c' where "c' \<in> set (chats s)" "c_id c' = g_chat g"
      "1 \<le> g_seq g" "g_seq g \<le> c_seq c'" by blast
    moreover have "c' = c" using unique_on_eqD [OF db_ok_uniques(3) [OF assms(1)]] calculation that by simp
    ultimately show ?thesis by simp
  qed
  moreover have "\<forall>g \<in> set gs. g_chat g \<in> c_id ` set (chats s)"
    using assms(3) by force
  ultimately show ?thesis using assms(1,2) by (simp add: db_ok_unfold)
qed

lemma cursors_db_ok [db_intros]:
  assumes "db_ok s" "unique_on k_key ks"
    and "\<And>k. k \<in> set ks \<Longrightarrow> \<exists>c \<in> set (chats s). c_id c = k_chat k
      \<and> 0 \<le> k_read k \<and> k_read k \<le> k_delivered k \<and> k_delivered k \<le> c_seq c"
  shows "db_ok (s\<lparr>cursors := ks\<rparr>)"
proof -
  have "0 \<le> k_read k \<and> k_read k \<le> k_delivered k \<and> k_delivered k \<le> c_seq c"
    if "k \<in> set ks" "c \<in> set (chats s)" "k_chat k = c_id c" for k c
  proof -
    from assms(3) [OF that(1)] obtain c' where "c' \<in> set (chats s)" "c_id c' = k_chat k"
      "0 \<le> k_read k" "k_read k \<le> k_delivered k" "k_delivered k \<le> c_seq c'" by blast
    moreover have "c' = c" using unique_on_eqD [OF db_ok_uniques(3) [OF assms(1)]] calculation that by simp
    ultimately show ?thesis by simp
  qed
  moreover have "\<forall>k \<in> set ks. k_chat k \<in> c_id ` set (chats s)"
    using assms(3) by force
  ultimately show ?thesis using assms(1,2) by (simp add: db_ok_unfold)
qed

text \<open>Changing other fields of a chat than its id and head.\<close>

definition chat_key :: "'a chat_row_scheme \<Rightarrow> ident \<times> int" where
  "chat_key c = (c_id c, c_seq c)"

lemma chats_db_ok [db_intros]:
  assumes ok: "db_ok s" and key: "map chat_key cs = map chat_key (chats s)"
  shows "db_ok (s\<lparr>chats := cs\<rparr>)"
proof -
  have ids: "map c_id cs = map c_id (chats s)"
  proof -
    have "map c_id cs = map fst (map chat_key cs)" by (simp add: chat_key_def o_def)
    then show ?thesis by (simp add: key) (simp add: chat_key_def)
  qed
  then have idset: "c_id ` set cs = c_id ` set (chats s)" by (metis set_map)
  have "\<exists>c \<in> set (chats s). c_id c = c_id c' \<and> c_seq c = c_seq c'" if "c' \<in> set cs" for c'
  proof -
    from that have "chat_key c' \<in> chat_key ` set (chats s)" by (metis key set_map image_eqI)
    then show ?thesis by (auto simp: chat_key_def)
  qed
  note same = this
  let ?s = "s\<lparr>chats := cs\<rparr>"
  have "keys_ok ?s" using db_okD(1) [OF ok] by (simp add: keys_ok_def unique_on_def ids)
  moreover have "refs_ok ?s" using db_okD(2) [OF ok] by (simp add: refs_ok_def idset)
  moreover have "bounds_ok ?s" using db_okD(3) [OF ok] unfolding bounds_ok_def
    by (auto dest!: same)
  moreover have "journal_ok ?s" using db_okD(4) [OF ok] unfolding journal_ok_def
    by (auto simp: log_seqs_def chat_log_def dest!: same) (metis same)
  ultimately show ?thesis by (rule db_okI)
qed

lemma map_chat_key_update [simp]:
  "(\<And>c. chat_key (f c) = chat_key c) \<Longrightarrow> map chat_key (update_rows p f cs) = map chat_key cs"
  by (rule map_update_rows)

text \<open>A new chat without events.\<close>

lemma new_chat_db_ok [db_intros]:
  assumes ok: "db_ok s" and fresh: "c_id c \<notin> c_id ` set (chats s)" and "c_seq c = 0"
  shows "db_ok (s\<lparr>chats := chats s @ [c]\<rparr>)"
proof -
  have none: "\<forall>e \<in> set (events s). e_chat e \<noteq> c_id c" "\<forall>g \<in> set (messages s). g_chat g \<noteq> c_id c"
    "\<forall>m \<in> set (members s). m_chat m \<noteq> c_id c" "\<forall>k \<in> set (cursors s). k_chat k \<noteq> c_id c"
    using db_ok_refs [OF ok] fresh by metis+
  have log: "filter (\<lambda>e. e_chat e = c_id c) (events s) = []"
    using none(1) by (simp add: filter_empty_conv)
  let ?s = "s\<lparr>chats := chats s @ [c]\<rparr>"
  have "keys_ok ?s" using db_okD(1) [OF ok] fresh by (simp add: keys_ok_def unique_on_append1)
  moreover have "refs_ok ?s" using db_okD(2) [OF ok] by (auto simp: refs_ok_def)
  moreover have "bounds_ok ?s" using db_okD(3) [OF ok] none assms(3) by (auto simp: bounds_ok_def)
  moreover have "journal_ok ?s" using db_okD(4) [OF ok] log assms(3)
    by (auto simp: journal_ok_def log_seqs_def chat_log_def intro!: exI [of _ 0])
  ultimately show ?thesis by (rule db_okI)
qed

end
