(* ===== verification/Auth.thy ===== *)
theory Auth
  imports Integrity
begin

text \<open>
  \<open>internal/core/auth.go\<close> and the ticket redemption of \<open>realtime.go\<close>: request decoding, the device
  check, bearer tokens, the management secret, one-time WebSocket tickets and the gate in front
  of the router. JWT parsing and signature checks are a library: \<open>jwt\<close> maps the clock and a token
  to its claims when the library accepts it under the options \<open>authenticate\<close> passes.
\<close>

subsection \<open>Request bodies\<close>

text \<open>
  What \<open>encoding/json\<close> makes of a size-limited body: an error (malformed, oversized, unknown
  fields), a value followed by something else than the end, or a value.
\<close>

datatype 'b body = BadJSON | TrailingJSON 'b | Body 'b

fun Decode :: "'b body \<Rightarrow> string + 'b" where
  "Decode BadJSON = Inl ''invalid or oversized JSON''"
| "Decode (TrailingJSON v) = Inl ''trailing JSON''"
| "Decode (Body v) = Inr v"

text \<open>The outcome of a handler: its response, its effects in order, the committed store.\<close>

type_synonym ('b, 's) outcome = "'b reply \<times> effect list \<times> 's"

definition Error :: "nat \<Rightarrow> string \<Rightarrow> 's \<Rightarrow> ('b, 's) outcome" where
  "Error code m s = (Err code m, [], s)"

lemma Error_simps [simp]:
  "fst (Error code m s) = Err code m" "fst (snd (Error code m s)) = []"
  "snd (snd (Error code m s)) = s" "Error code m s = (r, es, s') \<longleftrightarrow> r = Err code m \<and> es = [] \<and> s' = s"
  by (auto simp: Error_def)

subsection \<open>Identities\<close>

definition deviceActive :: "bool \<Rightarrow> 'z db_scheme \<Rightarrow> identity \<Rightarrow> bool" where
  "deviceActive fail s i = (\<not> fail \<and> query_row [\<not> d_revoked d \<and> \<not> u_disabled u. d \<leftarrow> devices s, u \<leftarrow> users s,
     u_id u = d_user d \<and> d_id d = device_id i \<and> d_user d = user_id i] = Some True)"

record claims =
  cl_sub :: string
  cl_device :: string
  cl_exp :: "time option"
  cl_iat :: "time option"

type_synonym jwt = "time \<Rightarrow> string \<Rightarrow> claims option"

text \<open>
  What the library guarantees for an accepted token under \<open>WithExpirationRequired\<close> and
  \<open>WithIssuedAt\<close>: it has not expired and was not issued in the future.
\<close>

definition jwt_documented :: "jwt \<Rightarrow> bool" where
  "jwt_documented jwt \<longleftrightarrow> (\<forall>t tok cl. jwt t tok = Some cl \<longrightarrow>
     (\<exists>e. cl_exp cl = Some e \<and> t < e) \<and> (\<forall>i. cl_iat cl = Some i \<longrightarrow> i \<le> t))"

text \<open>\<open>strings.TrimPrefix\<close>: unchanged when the prefix is absent.\<close>

definition trim_prefix :: "string \<Rightarrow> string \<Rightarrow> string" where
  "trim_prefix v p = (if take (length p) v = p then drop (length p) v else v)"

definition authenticate :: "jwt \<Rightarrow> env \<Rightarrow> 'z db_scheme \<Rightarrow> string \<Rightarrow> string + identity" where
  "authenticate jwt env s authorization =
     (case jwt (now env) (trim_prefix authorization ''Bearer '') of
        None \<Rightarrow> Inl ''invalid token''
      | Some cl \<Rightarrow>
          (case (cl_iat cl, cl_exp cl) of
             (Some iat, Some exp) \<Rightarrow>
               (if cl_sub cl = [] \<or> cl_device cl = [] \<or> exp - iat > 15 * 60
                then Inl ''short-lived device token required''
                else let i = \<lparr>user_id = cl_sub cl, device_id = cl_device cl\<rparr> in
                  if \<not> deviceActive (flt env 0) s i then Inl ''revoked identity'' else Inr i)
           | _ \<Rightarrow> Inl ''short-lived device token required''))"

definition authorize ::
  "jwt \<Rightarrow> env \<Rightarrow> 'z db_scheme \<Rightarrow> string \<Rightarrow> (identity \<Rightarrow> ('b, 'z db_scheme) outcome) \<Rightarrow> ('b, 'z db_scheme) outcome" where
  "authorize jwt env s authorization h =
     (case authenticate jwt env s authorization of
        Inl _ \<Rightarrow> Error 401 ''authentication required'' s
      | Inr i \<Rightarrow> h i)"

definition management ::
  "string \<Rightarrow> 'z db_scheme \<Rightarrow> string \<Rightarrow> ('b, 'z db_scheme) outcome \<Rightarrow> ('b, 'z db_scheme) outcome" where
  "management secret s authorization h =
     (if trim_prefix authorization ''Bearer '' \<noteq> secret
      then Error 401 ''management authentication required'' s else h)"

subsection \<open>Tickets\<close>

definition hashTicket :: "prims \<Rightarrow> string \<Rightarrow> string" where
  "hashTicket P v = hex_encode (p_sha256 P v)"

text \<open>
  Issuing: 32 random bytes (the nonce of this call, statement 0), then the row. The body is the
  ticket and its lifetime.
\<close>

definition ticket ::
  "'z core \<Rightarrow> env \<Rightarrow> 'z db_scheme \<Rightarrow> identity \<Rightarrow> (string \<times> int, 'z db_scheme) outcome" where
  "ticket C env s i =
     (if flt env 0 then Error 500 ''entropy unavailable'' s
      else let tk = b64url_encode (nonce env) in
        if flt env 1 then Error 503 ''storage unavailable'' s
        else case insert_row t_hash
               \<lparr>t_hash = hashTicket (prim C) tk, t_device = device_id i, t_user = user_id i,
                t_expires = now env + 30\<rparr> (tickets s) of
          None \<Rightarrow> Error 503 ''storage unavailable'' s
        | Some ts \<Rightarrow> (Reply 201 (tk, 30), [], s\<lparr>tickets := ts\<rparr>))"

text \<open>
  Redeeming in \<open>websocket\<close>: the row is deleted whatever the device check says afterwards.
\<close>

definition redeemTicket ::
  "'z core \<Rightarrow> env \<Rightarrow> 'z db_scheme \<Rightarrow> string \<Rightarrow> identity option \<times> 'z db_scheme" where
  "redeemTicket C env s tk =
     (if flt env 0 then (None, s)
      else let h = hashTicket (prim C) tk; live = (\<lambda>t. t_hash t = h \<and> now env \<le> t_expires t) in
        case query_row (filter live (tickets s)) of
          None \<Rightarrow> (None, s)
        | Some t \<Rightarrow>
            (let i = \<lparr>user_id = t_user t, device_id = t_device t\<rparr>;
                 s' = s\<lparr>tickets := delete_rows live (tickets s)\<rparr>
             in (if deviceActive (flt env 1) s' i then Some i else None, s')))"


subsection \<open>Who is active\<close>

lemma deviceActive_iff:
  assumes "db_ok s"
  shows "deviceActive False s i \<longleftrightarrow> (\<exists>d u. d \<in> set (devices s) \<and> d_id d = device_id i \<and> d_user d = user_id i
    \<and> \<not> d_revoked d \<and> u \<in> set (users s) \<and> u_id u = user_id i \<and> \<not> u_disabled u)"
proof -
  let ?rows = "[\<not> d_revoked d \<and> \<not> u_disabled u. d \<leftarrow> devices s, u \<leftarrow> users s,
     u_id u = d_user d \<and> d_id d = device_id i \<and> d_user d = user_id i]"
  from assms have U: "unique_on u_id (users s)" "unique_on d_id (devices s)"
    by (simp_all add: db_ok_def keys_ok_def)
  have all: "\<forall>x \<in> set ?rows. \<forall>y \<in> set ?rows. x = y"
    using unique_on_eqD [OF U(1)] unique_on_eqD [OF U(2)] by (auto; metis)
  show ?thesis (is "_ \<longleftrightarrow> ?R")
  proof
    assume "deviceActive False s i"
    then have "True \<in> set ?rows" unfolding deviceActive_def by (elim conjE query_row_SomeD)
    then obtain d u where "d \<in> set (devices s)" "u \<in> set (users s)" "u_id u = d_user d"
      "d_id d = device_id i" "d_user d = user_id i" "\<not> d_revoked d" "\<not> u_disabled u"
      by (auto split: if_splits)
    then show ?R by (intro exI [of _ d] exI [of _ u] conjI) simp_all
  next
    assume ?R
    then have "True \<in> set ?rows" by force
    then have "query_row ?rows = Some True" using all by (intro query_row_eqI) blast+
    then show "deviceActive False s i" by (simp add: deviceActive_def)
  qed
qed

lemma deviceActive_fail [simp]: "deviceActive True s i = False"
  by (simp add: deviceActive_def)

lemma deviceActive_noFault: "deviceActive f s i \<Longrightarrow> deviceActive False s i"
  by (cases f) auto

lemma deviceActive_cong:
  "users s' = users s \<Longrightarrow> devices s' = devices s \<Longrightarrow> deviceActive f s' i = deviceActive f s i"
  by (simp add: deviceActive_def)

lemma authenticate_Inr:
  assumes "authenticate jwt env s a = Inr i"
  obtains cl iat ex where "jwt (now env) (trim_prefix a ''Bearer '') = Some cl" "cl_iat cl = Some iat"
    "cl_exp cl = Some ex" "cl_sub cl = user_id i" "cl_device cl = device_id i" "ex - iat \<le> 900"
    "deviceActive False s i"
  using assms
  by (auto simp: authenticate_def Let_def dest: deviceActive_noFault split: option.splits if_splits)

subsection \<open>Tickets are single-use\<close>

lemma ticket_db_ok: "db_ok s \<Longrightarrow> ticket C env s i = (r, es, s') \<Longrightarrow> db_ok s'"
  by (auto simp: ticket_def Let_def
      intro!: tickets_db_ok dest: unique_on_insert db_ok_uniques(9) split: if_splits option.splits)

lemma redeemTicket_db_ok: "db_ok s \<Longrightarrow> redeemTicket C env s tk = (r, s') \<Longrightarrow> db_ok s'"
  by (auto simp: redeemTicket_def Let_def
      intro!: tickets_db_ok unique_on_delete dest: db_ok_uniques(9) split: if_splits option.splits)

definition ticket_rows :: "'z core \<Rightarrow> 'z db_scheme \<Rightarrow> string \<Rightarrow> ticket_row list" where
  "ticket_rows C s tk = filter (\<lambda>t. t_hash t = hashTicket (prim C) tk) (tickets s)"

lemma redeemTicket_Some:
  assumes "redeemTicket C env s tk = (Some i, s')" "db_ok s"
  shows "ticket_rows C s' tk = [] \<and> (\<exists>t \<in> set (tickets s). t_hash t = hashTicket (prim C) tk
    \<and> now env \<le> t_expires t \<and> t_user t = user_id i \<and> t_device t = device_id i)
    \<and> deviceActive False s i"
proof -
  let ?live = "\<lambda>t. t_hash t = hashTicket (prim C) tk \<and> now env \<le> t_expires t"
  from assms(1) obtain t where q: "query_row (filter ?live (tickets s)) = Some t"
    and i: "i = \<lparr>user_id = t_user t, device_id = t_device t\<rparr>"
    and s': "s' = s\<lparr>tickets := delete_rows ?live (tickets s)\<rparr>" and act: "deviceActive False s i"
    by (auto simp: redeemTicket_def Let_def deviceActive_cong [of "s\<lparr>tickets := _\<rparr>" s]
        dest: deviceActive_noFault split: if_splits option.splits)
  from q have t: "t \<in> set (tickets s)" "?live t" by (auto dest: query_row_SomeD)
  from assms(2) have u: "unique_on t_hash (tickets s)" by (simp add: db_ok_def keys_ok_def)
  have "ticket_rows C s' tk = []"
    using unique_on_eqD [OF u t(1)] t(2)
    by (auto simp: ticket_rows_def s' filter_empty_conv set_delete_rows)
  with t i act show ?thesis by auto
qed

lemma redeemTicket_gone: "ticket_rows C s tk = [] \<Longrightarrow> redeemTicket C env s tk = (None, s)"
proof -
  assume "ticket_rows C s tk = []"
  then have "filter (\<lambda>t. t_hash t = hashTicket (prim C) tk \<and> now env \<le> t_expires t) (tickets s) = []"
    by (auto simp: ticket_rows_def filter_empty_conv)
  then show ?thesis by (simp add: redeemTicket_def Let_def)
qed

lemma redeemTicket_issued:
  assumes "ticket C env s i = (Reply 201 (tk, ttl), es, s')" "db_ok s" "now env2 \<le> now env + 30"
    "flt env2 = no_faults" "deviceActive False s i"
  shows "fst (redeemTicket C env2 s' tk) = Some i"
proof -
  let ?t = "\<lparr>t_hash = hashTicket (prim C) tk, t_device = device_id i, t_user = user_id i,
     t_expires = now env + 30\<rparr>"
  from assms(1) have s': "s' = s\<lparr>tickets := tickets s @ [?t]\<rparr>"
    and fresh: "hashTicket (prim C) tk \<notin> t_hash ` set (tickets s)"
    by (auto simp: ticket_def Let_def split: if_splits option.splits dest!: insert_row_SomeD)
  have "filter (\<lambda>t. t_hash t = hashTicket (prim C) tk \<and> now env2 \<le> t_expires t) (tickets s') = [?t]"
    using fresh assms(3) by (auto simp: s' filter_empty_conv image_iff)
  then have "fst (redeemTicket C env2 s' tk) =
      (if deviceActive False (s'\<lparr>tickets := delete_rows (\<lambda>t. t_hash t = hashTicket (prim C) tk \<and> now env2 \<le> t_expires t) (tickets s')\<rparr>) i
       then Some i else None)"
    by (cases i) (simp add: redeemTicket_def Let_def assms(4))
  with assms(5) show ?thesis by (simp add: s' deviceActive_def)
qed

text \<open>
  A run of tickets being issued, redeemed and swept, with the successful redemptions of each
  ticket; \<open>other\<close> steps change other tables, or delete ticket rows.
\<close>

datatype ticket_act = Issued string | Redeemed string | NotRedeemed string | Swept

inductive ticket_run :: "'z core \<Rightarrow> 'z db_scheme \<Rightarrow> ticket_act list \<Rightarrow> 'z db_scheme \<Rightarrow> bool" for C where
  run_Nil: "ticket_run C s [] s"
| run_Issue: "ticket_run C s acts s1 \<Longrightarrow> ticket C env s1 i = (Reply 201 (tk, ttl), es, s2) \<Longrightarrow>
    ticket_run C s (acts @ [Issued tk]) s2"
| run_Redeem: "ticket_run C s acts s1 \<Longrightarrow> redeemTicket C env s1 tk = (Some i, s2) \<Longrightarrow>
    ticket_run C s (acts @ [Redeemed tk]) s2"
| run_Refuse: "ticket_run C s acts s1 \<Longrightarrow> redeemTicket C env s1 tk = (None, s2) \<Longrightarrow>
    ticket_run C s (acts @ [NotRedeemed tk]) s2"
| run_Sweep: "ticket_run C s acts s1 \<Longrightarrow> db_ok s2 \<Longrightarrow> set (tickets s2) \<subseteq> set (tickets s1) \<Longrightarrow>
    ticket_run C s (acts @ [Swept]) s2"

text \<open>
  Redemptions never outnumber issues, ticket by ticket (tickets are named by their hashes, which
  is what the table stores).
\<close>

definition issues :: "'z core \<Rightarrow> string \<Rightarrow> ticket_act list \<Rightarrow> nat" where
  "issues C h acts = length (filter (\<lambda>a. case a of Issued tk \<Rightarrow> hashTicket (prim C) tk = h | _ \<Rightarrow> False) acts)"

definition redemptions :: "'z core \<Rightarrow> string \<Rightarrow> ticket_act list \<Rightarrow> nat" where
  "redemptions C h acts = length (filter (\<lambda>a. case a of Redeemed tk \<Rightarrow> hashTicket (prim C) tk = h | _ \<Rightarrow> False) acts)"

lemma count_acts [simp]:
  "issues C h [] = 0" "redemptions C h [] = 0"
  "issues C h (acts @ [Issued tk]) = issues C h acts + (if hashTicket (prim C) tk = h then 1 else 0)"
  "issues C h (acts @ [Redeemed tk]) = issues C h acts"
  "issues C h (acts @ [NotRedeemed tk]) = issues C h acts"
  "issues C h (acts @ [Swept]) = issues C h acts"
  "redemptions C h (acts @ [Redeemed tk]) = redemptions C h acts + (if hashTicket (prim C) tk = h then 1 else 0)"
  "redemptions C h (acts @ [Issued tk]) = redemptions C h acts"
  "redemptions C h (acts @ [NotRedeemed tk]) = redemptions C h acts"
  "redemptions C h (acts @ [Swept]) = redemptions C h acts"
  by (simp_all add: issues_def redemptions_def)

lemma ticket_tickets:
  "ticket C env s i = (Reply 201 (tk, ttl), es, s') \<Longrightarrow>
    t_hash ` set (tickets s') = insert (hashTicket (prim C) tk) (t_hash ` set (tickets s))
    \<and> hashTicket (prim C) tk \<notin> t_hash ` set (tickets s)"
  by (auto simp: ticket_def Let_def split: if_splits option.splits dest!: insert_row_SomeD)

lemma redeemTicket_tickets:
  "redeemTicket C env s tk = (r, s') \<Longrightarrow> set (tickets s') \<subseteq> set (tickets s)"
  by (auto simp: redeemTicket_def Let_def set_delete_rows split: if_splits option.splits)

lemma ticket_run_balance:
  assumes "ticket_run C s acts s'" "db_ok s" "tickets s = []"
  shows "db_ok s' \<and> redemptions C h acts + (if h \<in> t_hash ` set (tickets s') then 1 else 0) \<le> issues C h acts"
  using assms
proof (induction rule: ticket_run.induct)
  case (run_Nil s)
  then show ?case by simp
next
  case (run_Issue s acts s1 env i tk ttl es s2)
  then show ?case using ticket_tickets [OF run_Issue.hyps(2)] by (auto intro: ticket_db_ok)
next
  case (run_Redeem s acts s1 env tk i s2)
  then have ok: "db_ok s1" by simp
  from redeemTicket_Some [OF run_Redeem.hyps(2) ok]
  have gone: "hashTicket (prim C) tk \<notin> t_hash ` set (tickets s2)"
    and here: "hashTicket (prim C) tk \<in> t_hash ` set (tickets s1)"
    by (force simp: ticket_rows_def filter_empty_conv)+
  have "t_hash ` set (tickets s2) \<subseteq> t_hash ` set (tickets s1)"
    using redeemTicket_tickets [OF run_Redeem.hyps(2)] by blast
  with run_Redeem gone here show ?case by (auto intro: redeemTicket_db_ok)
next
  case (run_Refuse s acts s1 env tk s2)
  have "t_hash ` set (tickets s2) \<subseteq> t_hash ` set (tickets s1)"
    using redeemTicket_tickets [OF run_Refuse.hyps(2)] by blast
  with run_Refuse show ?case by (auto intro: redeemTicket_db_ok)
next
  case (run_Sweep s acts s1 s2)
  then have "t_hash ` set (tickets s2) \<subseteq> t_hash ` set (tickets s1)" by blast
  with run_Sweep show ?case by auto
qed

end
