(* ===== verification/Management.thy ===== *)
theory Management
  imports Auth "HOL-Library.Char_ord" "HOL-Library.List_Lexorder" "HOL-Library.Product_Lexorder"
begin

text \<open>
  \<open>internal/core/management.go\<close>: users, devices, chats and members. A handler gets its decoded
  body and the path values; statement \<open>n\<close> of its transaction fails when \<open>flt env n\<close>. An unknown
  user or chat is a foreign-key violation of the statement that names it.
\<close>

subsection \<open>Users and devices\<close>

definition putUser ::
  "env \<Rightarrow> 'z db_scheme \<Rightarrow> bool body \<Rightarrow> ident \<Rightarrow> (ident \<times> bool, 'z db_scheme) outcome" where
  "putUser env s b user =
     (case Decode b of
        Inl m \<Rightarrow> Error 400 m s
      | Inr disabled \<Rightarrow>
          (if \<not> validID user then Error 400 ''invalid user id'' s
           else if flt env 0 then Error 503 ''storage unavailable'' s
           else (Reply 200 (user, disabled), if disabled then [DisconnectUser user] else [],
             s\<lparr>users := upsert_row u_id (\<lambda>new old. old\<lparr>u_disabled := u_disabled new\<rparr>)
                 \<lparr>u_id = user, u_disabled = disabled\<rparr> (users s)\<rparr>)))"

record device_input =
  in_public_key :: string
  in_signing_key :: string

definition putDevice ::
  "env \<Rightarrow> 'z db_scheme \<Rightarrow> device_input body \<Rightarrow> ident \<Rightarrow> ident \<Rightarrow> (ident \<times> ident, 'z db_scheme) outcome" where
  "putDevice env s b user device =
     (case Decode b of
        Inl m \<Rightarrow> Error 400 m s
      | Inr inp \<Rightarrow>
          (case b64_decode (in_public_key inp) of
             None \<Rightarrow> Error 400 ''invalid X25519 public key'' s
           | Some key \<Rightarrow>
               (if length key \<noteq> 32 then Error 400 ''invalid X25519 public key'' s
                else if in_signing_key inp \<noteq> []
                  \<and> (case b64_decode (in_signing_key inp) of None \<Rightarrow> True | Some sign \<Rightarrow> length sign \<noteq> 32)
                then Error 400 ''invalid signing key'' s
                else if \<not> validID user \<or> \<not> validID device then Error 400 ''invalid identity'' s
                else if flt env 0 then Error 409 ''unknown user or invalid device'' s
                else case get_row d_id device (devices s) of
                  None \<Rightarrow>
                    (if get_row u_id user (users s) = None
                     then Error 409 ''unknown user or invalid device'' s
                     else (Reply 200 (device, user), [],
                       s\<lparr>devices := devices s @ [\<lparr>d_id = device, d_user = user,
                           d_public_key = in_public_key inp, d_signing_key = in_signing_key inp,
                           d_revoked = False\<rparr>]\<rparr>))
                | Some d \<Rightarrow>
                    (let (existing, owner, sign) =
                       if flt env 1 then ([], [], []) else (d_public_key d, d_user d, d_signing_key d)
                     in if existing \<noteq> in_public_key inp \<or> owner \<noteq> user \<or> sign \<noteq> in_signing_key inp
                        then Error 409 ''device keys immutable; register new device'' s
                        else (Reply 200 (device, user), [], s)))))"

text \<open>
  Revoking a device also demands a rekey of every E2EE chat its user is an active member of.
\<close>

definition revokeDevice ::
  "env \<Rightarrow> 'z db_scheme \<Rightarrow> ident \<Rightarrow> ident \<Rightarrow> (bool, 'z db_scheme) outcome" where
  "revokeDevice env s user device =
     (if flt env 0 then Error 503 ''storage unavailable'' s
      else if flt env 1 then Error 503 ''storage unavailable'' s
      else let hit = (\<lambda>d. d_id d = device \<and> d_user d = user) in
        if count_rows hit (devices s) = 0 then Error 404 ''device not found'' s
        else let s1 = s\<lparr>devices := update_rows hit (\<lambda>d. d\<lparr>d_revoked := True\<rparr>) (devices s)\<rparr>;
                 chatIds = [m_chat m. m \<leftarrow> members s1, m_user m = user \<and> m_active m];
                 s2 = s1\<lparr>chats := update_rows (\<lambda>c. c_mode c = ''e2ee'' \<and> c_id c \<in> set chatIds)
                          (\<lambda>c. c\<lparr>c_pending := True\<rparr>) (chats s1)\<rparr>
             in if flt env 2 \<or> flt env 3 then Error 503 ''storage unavailable'' s
                else (Reply 200 True, [DisconnectDevice device], s2))"

subsection \<open>Chats\<close>

record chat_input =
  in_id :: string
  in_mode :: string
  in_members :: "string list"

text \<open>The loop over the members: \<open>n\<close> is the statement number, \<open>i\<close> the index.\<close>

fun insert_members ::
  "faults \<Rightarrow> nat \<Rightarrow> ident \<Rightarrow> nat \<Rightarrow> ident list \<Rightarrow> 'z db_scheme \<Rightarrow> 'z db_scheme option" where
  "insert_members f n chat i [] s = Some s"
| "insert_members f n chat i (user # us) s =
     (let role = (if i = 0 then ''owner'' else ''member'') in
      if f n \<or> get_row u_id user (users s) = None then None
      else case insert_row m_key \<lparr>m_chat = chat, m_user = user, m_role = role, m_can_send = True,
              m_joined = 1, m_active = True\<rparr> (members s) of
        None \<Rightarrow> None
      | Some ms \<Rightarrow> insert_members f (Suc n) chat (Suc i) us (s\<lparr>members := ms\<rparr>))"

definition CreateChat ::
  "'z core \<Rightarrow> env \<Rightarrow> 'z db_scheme \<Rightarrow> chat_input body \<Rightarrow> string \<Rightarrow>
    (ident \<times> string \<times> string \<times> bool, 'z db_scheme) outcome" where
  "CreateChat C env s b kind =
     (case Decode b of
        Inl m \<Rightarrow> Error 400 m s
      | Inr inp \<Rightarrow>
          (let cid = (if in_id inp = [] then uuid env else in_id inp);
               us = in_members inp;
               mode = (if in_mode inp = [] then ''basic'' else in_mode inp) in
           if \<not> validID cid \<or> length us < 2 \<or> (kind = ''direct'' \<and> length us \<noteq> 2)
           then Error 400 ''invalid chat or member count'' s
           else if mode \<noteq> ''basic'' \<and> \<not> (mode = ''e2ee'' \<and> feat_e2ee (features C))
           then Error 400 ''unsupported encryption mode'' s
           else if \<not> distinct us \<or> \<not> list_all validID us
           then Error 400 ''duplicate or invalid member'' s
           else if flt env 0 then Error 503 ''storage unavailable'' s
           else let pending = (mode = ''e2ee'') in
             if flt env 1 then Error 409 ''chat already exists'' s
             else case insert_row c_id \<lparr>c_id = cid, c_kind = kind, c_mode = mode, c_seq = 0, c_epoch = 0,
                    c_pending = pending, c_created = now env\<rparr> (chats s) of
               None \<Rightarrow> Error 409 ''chat already exists'' s
             | Some cs \<Rightarrow>
                 (case insert_members (flt env) 2 cid 0 us (s\<lparr>chats := cs\<rparr>) of
                    None \<Rightarrow> Error 400 ''unknown member'' s
                  | Some s' \<Rightarrow>
                      (if flt env (2 + length us) then Error 503 ''storage unavailable'' s
                       else (Reply 201 (cid, kind, mode, pending), [], s')))))"

subsection \<open>Members\<close>

record member_input =
  in_role :: string
  in_can_send :: bool
  in_active :: bool
  in_allow_history :: bool

definition json_bool :: "bool \<Rightarrow> string" where
  "json_bool b = (if b then ''true'' else ''false'')"

definition membership_data :: "bool \<Rightarrow> bool \<Rightarrow> ident \<Rightarrow> string" where
  "membership_data active can_send user =
     json_object [json_member ''active'' (json_bool active), json_member ''can_send'' (json_bool can_send),
       json_member ''user_id'' (json_string user)]"

text \<open>
  Statements: begin, the chat, the previous membership, the upsert, the rekey flag (numbered
  always), the two of \<open>Append\<close>, commit. \<open>previous\<close> is \<open>None\<close> both when there is no row and when
  the query failed: the code looks only at \<open>previousErr\<close>.
\<close>

definition putMember ::
  "'z core \<Rightarrow> env \<Rightarrow> 'z db_scheme \<Rightarrow> member_input body \<Rightarrow> ident \<Rightarrow> ident \<Rightarrow> (bool, 'z db_scheme) outcome" where
  "putMember C env s b chat user =
     (case Decode b of
        Inl m \<Rightarrow> Error 400 m s
      | Inr inp \<Rightarrow>
          (if in_role inp \<noteq> ''owner'' \<and> in_role inp \<noteq> ''admin'' \<and> in_role inp \<noteq> ''member''
           then Error 400 ''invalid role'' s
           else if in_allow_history inp \<and> pol_history (policy C) \<noteq> ''all''
           then Error 400 ''past history disabled'' s
           else if flt env 0 then Error 503 ''storage unavailable'' s
           else if flt env 1 then Error 404 ''chat not found'' s
           else case get_row c_id chat (chats s) of
             None \<Rightarrow> Error 404 ''chat not found'' s
           | Some c \<Rightarrow>
               (let previous = (if flt env 2 then None else get_row m_key (chat, user) (members s)) in
                if c_kind c = ''direct'' \<and> previous = None then Error 400 ''direct membership fixed'' s
                else let joined =
                    (if in_allow_history inp then 1
                     else case previous of
                       Some p \<Rightarrow> if m_active p \<and> in_active inp then m_joined p else c_seq c + 1
                     | None \<Rightarrow> c_seq c + 1) in
                  if flt env 3 \<or> get_row u_id user (users s) = None then Error 400 ''unknown user'' s
                  else let s1 = s\<lparr>members := upsert_row m_key
                         (\<lambda>new old. old\<lparr>m_role := m_role new, m_can_send := m_can_send new,
                            m_joined := m_joined new, m_active := m_active new\<rparr>)
                         \<lparr>m_chat = chat, m_user = user, m_role = in_role inp, m_can_send = in_can_send inp,
                          m_joined = joined, m_active = in_active inp\<rparr> (members s)\<rparr>;
                         rekey = (c_mode c = ''e2ee''
                           \<and> (case previous of None \<Rightarrow> True | Some p \<Rightarrow> m_active p \<noteq> in_active inp)) in
                    if rekey \<and> flt env 4 then Error 503 ''storage unavailable'' s
                    else let s2 = (if rekey then s1\<lparr>chats := update_rows (\<lambda>c. c_id c = chat)
                                      (\<lambda>c. c\<lparr>c_pending := True\<rparr>) (chats s1)\<rparr> else s1) in
                      case Append C (shift_env 5 env) s2 chat ''membership.changed'' []
                             (Some (membership_data (in_active inp) (in_can_send inp) user)) of
                        Inl _ \<Rightarrow> Error 503 ''storage unavailable'' s
                      | Inr (n, s3) \<Rightarrow>
                          (if flt env 7 then Error 503 ''storage unavailable'' s
                           else (Reply 200 True,
                             Wake chat # (if in_active inp then [] else [DisconnectUser user]), s3)))))"

record chat_view =
  v_id :: ident
  v_kind :: string
  v_mode :: string
  v_seq :: int
  v_epoch :: int
  v_pending :: bool
  v_role :: string
  v_can_send :: bool

definition listChats ::
  "env \<Rightarrow> 'z db_scheme \<Rightarrow> identity \<Rightarrow> (chat_view list, 'z db_scheme) outcome" where
  "listChats env s i =
     (if flt env 0 then Error 503 ''storage unavailable'' s
      else let rows = sort_key (\<lambda>(c, m). (c_created c, c_id c))
                 [(c, m). c \<leftarrow> chats s, m \<leftarrow> members s,
                    m_chat m = c_id c \<and> m_user m = user_id i \<and> m_active m] in
        if \<exists>n \<le> length rows. flt env (1 + n) then Error 503 ''storage unavailable'' s
        else (Reply 200 (map (\<lambda>(c, m). \<lparr>v_id = c_id c, v_kind = c_kind c, v_mode = c_mode c,
                v_seq = c_seq c, v_epoch = c_epoch c, v_pending = c_pending c, v_role = m_role m,
                v_can_send = m_can_send m\<rparr>) rows), [], s))"


subsection \<open>Every handler keeps the store intact\<close>

lemma putUser_db_ok:
  assumes "db_ok s" "putUser env s b user = (r, es, s')"
  shows "db_ok s'"
  using assms
  by (auto simp: putUser_def key_set_upsert split: sum.splits if_splits
      intro!: users_db_ok unique_on_upsert dest: db_ok_uniques(1))

lemma putDevice_cases:
  assumes "putDevice env s b user device = (r, es, s')"
  shows "s' = s \<or> (\<exists>inp. b = Body inp \<and> device \<notin> d_id ` set (devices s) \<and> user \<in> u_id ` set (users s)
    \<and> s' = s\<lparr>devices := devices s @ [\<lparr>d_id = device, d_user = user, d_public_key = in_public_key inp,
        d_signing_key = in_signing_key inp, d_revoked = False\<rparr>]\<rparr>)"
  using assms
  by (cases b) (auto simp: putDevice_def get_row_None_iff Let_def split: option.splits if_splits)

lemma putDevice_db_ok:
  assumes "db_ok s" "putDevice env s b user device = (r, es, s')"
  shows "db_ok s'"
  using putDevice_cases [OF assms(2)] assms(1) db_ok_uniques(2) [OF assms(1)] db_ok_refs(1) [OF assms(1)]
  by (auto intro!: devices_db_ok unique_on_append1)

lemma revokeDevice_Inr:
  assumes "revokeDevice env s user device = (Reply c v, es, s')"
  obtains d cs where "d \<in> set (devices s)" "d_id d = device" "d_user d = user"
    "s' = s\<lparr>devices := update_rows (\<lambda>d. d_id d = device \<and> d_user d = user) (\<lambda>d. d\<lparr>d_revoked := True\<rparr>) (devices s),
            chats := update_rows (\<lambda>c. c_mode c = ''e2ee'' \<and> c_id c \<in> {m_chat m | m. m \<in> set (members s) \<and> m_user m = user \<and> m_active m})
              (\<lambda>c. c\<lparr>c_pending := True\<rparr>) (chats s)\<rparr>"
    "es = [DisconnectDevice device]"
proof -
  let ?I = "[m_chat m. m \<leftarrow> members s, m_user m = user \<and> m_active m]"
  have I: "set ?I = {m_chat m | m. m \<in> set (members s) \<and> m_user m = user \<and> m_active m}" by auto
  from assms obtain d where "d \<in> set (devices s)" "d_id d = device" "d_user d = user"
    by (auto simp: revokeDevice_def Let_def count_rows_def filter_empty_conv split: if_splits)
  moreover from assms have "s' = s\<lparr>devices := update_rows (\<lambda>d. d_id d = device \<and> d_user d = user) (\<lambda>d. d\<lparr>d_revoked := True\<rparr>) (devices s),
      chats := update_rows (\<lambda>c. c_mode c = ''e2ee'' \<and> c_id c \<in> set ?I) (\<lambda>c. c\<lparr>c_pending := True\<rparr>) (chats s)\<rparr>"
    "es = [DisconnectDevice device]"
    by (auto simp: revokeDevice_def Let_def split: if_splits)
  ultimately show ?thesis using that unfolding I by blast
qed

lemma revokeDevice_Err: "revokeDevice env s user device = (Err c m, es, s') \<Longrightarrow> s' = s \<and> es = []"
  by (auto simp: revokeDevice_def Let_def split: if_splits)

lemma revokeDevice_db_ok:
  assumes "db_ok s" "revokeDevice env s user device = (r, es, s')"
  shows "db_ok s'"
proof (cases r)
  case (Err c m)
  with assms revokeDevice_Err show ?thesis by blast
next
  case (Reply c v)
  let ?p = "\<lambda>d. d_id d = device \<and> d_user d = user" and ?f = "\<lambda>d. d\<lparr>d_revoked := True\<rparr>"
  have "db_ok (s\<lparr>devices := update_rows ?p ?f (devices s)\<rparr>)" (is "db_ok ?s1")
    using db_ok_refs(1) [OF assms(1)] db_ok_uniques(2) [OF assms(1)] assms(1)
    by (intro devices_db_ok unique_on_update) (auto simp: set_update_rows)
  then have "db_ok (?s1\<lparr>chats := update_rows q (\<lambda>c. c\<lparr>c_pending := True\<rparr>) (chats s)\<rparr>)" for q
    by (rule chats_db_ok) (simp add: chat_key_def map_update_rows)
  with assms(2) Reply show ?thesis by (auto elim!: revokeDevice_Inr)
qed

lemma insert_members_Some:
  assumes "insert_members f n chat i us s = Some s'"
  shows "\<exists>rows. s' = s\<lparr>members := members s @ rows\<rparr> \<and> map m_user rows = us
    \<and> (\<forall>r \<in> set rows. m_chat r = chat \<and> m_joined r = 1 \<and> m_active r \<and> m_can_send r)
    \<and> (\<forall>j < length rows. m_role (rows ! j) = (if i + j = 0 then ''owner'' else ''member''))
    \<and> set us \<subseteq> u_id ` set (users s) \<and> (unique_on m_key (members s) \<longrightarrow> unique_on m_key (members s'))"
  using assms
proof (induction f n chat i us s rule: insert_members.induct)
  case (2 f n chat i user us s)
  let ?row = "\<lparr>m_chat = chat, m_user = user, m_role = if i = 0 then ''owner'' else ''member'', m_can_send = True,
     m_joined = 1, m_active = True\<rparr>"
  from "2.prems" obtain ms where f: "\<not> (f n \<or> get_row u_id user (users s) = None)"
    and ms: "insert_row m_key ?row (members s) = Some ms"
    and rest: "insert_members f (Suc n) chat (Suc i) us (s\<lparr>members := ms\<rparr>) = Some s'"
    by (auto simp: Let_def split: if_splits option.splits)
  from insert_row_SomeD [OF ms] have msq: "ms = members s @ [?row]" by simp
  from "2.IH" [OF refl f ms rest] obtain rows where r:
    "s' = s\<lparr>members := ms @ rows\<rparr>" "map m_user rows = us"
    "\<forall>r \<in> set rows. m_chat r = chat \<and> m_joined r = 1 \<and> m_active r \<and> m_can_send r"
    "\<forall>j < length rows. m_role (rows ! j) = (if Suc i + j = 0 then ''owner'' else ''member'')"
    "set us \<subseteq> u_id ` set (users s)" "unique_on m_key ms \<longrightarrow> unique_on m_key (members s')" by auto
  show ?case
  proof (intro exI [of _ "?row # rows"] conjI impI allI)
    fix j assume "j < length (?row # rows)"
    then show "m_role ((?row # rows) ! j) = (if i + j = 0 then ''owner'' else ''member'')"
      using r(4) by (cases j) auto
  next
    assume "unique_on m_key (members s)"
    with unique_on_insert [OF ms] r(6) show "unique_on m_key (members s')" by blast
  qed (use r msq f in \<open>auto simp: get_row_None_iff\<close>)
qed simp

lemma CreateChat_Reply:
  assumes "CreateChat C env s b kind = (Reply code v, es, s')"
  obtains inp cid mode rows where "b = Body inp" "cid = (if in_id inp = [] then uuid env else in_id inp)"
    "mode = (if in_mode inp = [] then ''basic'' else in_mode inp)" "mode = ''e2ee'' \<longrightarrow> feat_e2ee (features C)"
    "mode \<in> {''basic'', ''e2ee''}" "validID cid" "2 \<le> length (in_members inp)"
    "kind = ''direct'' \<Longrightarrow> length (in_members inp) = 2" "distinct (in_members inp)"
    "cid \<notin> c_id ` set (chats s)" "map m_user rows = in_members inp"
    "\<forall>r \<in> set rows. m_chat r = cid \<and> m_joined r = 1 \<and> m_active r \<and> m_can_send r"
    "\<forall>j < length rows. m_role (rows ! j) = (if j = 0 then ''owner'' else ''member'')"
    "set (in_members inp) \<subseteq> u_id ` set (users s)"
    "unique_on m_key (members s) \<longrightarrow> unique_on m_key (members s @ rows)"
    "s' = s\<lparr>chats := chats s @ [\<lparr>c_id = cid, c_kind = kind, c_mode = mode, c_seq = 0, c_epoch = 0,
        c_pending = (mode = ''e2ee''), c_created = now env\<rparr>], members := members s @ rows\<rparr>"
    "v = (cid, kind, mode, mode = ''e2ee'')" "es = []" "code = 201"
proof (cases b)
  case (Body inp)
  define cid where "cid = (if in_id inp = [] then uuid env else in_id inp)"
  define mode where "mode = (if in_mode inp = [] then ''basic'' else in_mode inp)"
  let ?c = "\<lparr>c_id = cid, c_kind = kind, c_mode = mode, c_seq = 0, c_epoch = 0,
        c_pending = (mode = ''e2ee''), c_created = now env\<rparr>"
  from assms obtain cs where cond: "validID cid" "\<not> length (in_members inp) < 2"
      "\<not> (kind = ''direct'' \<and> length (in_members inp) \<noteq> 2)"
      "\<not> (mode \<noteq> ''basic'' \<and> \<not> (mode = ''e2ee'' \<and> feat_e2ee (features C)))" "distinct (in_members inp)"
    and cs: "insert_row c_id ?c (chats s) = Some cs"
    and ins: "insert_members (flt env) 2 cid 0 (in_members inp) (s\<lparr>chats := cs\<rparr>) = Some s'"
    and v: "v = (cid, kind, mode, mode = ''e2ee'')" "es = []" "code = 201"
    by (auto simp: CreateChat_def Body Let_def cid_def [symmetric] mode_def [symmetric]
        simp del: insert_members.simps split: if_splits option.splits)
  from insert_row_SomeD [OF cs] have csq: "cs = chats s @ [?c]" "cid \<notin> c_id ` set (chats s)" by auto
  from insert_members_Some [OF ins] obtain rows where rows: "s' = s\<lparr>chats := cs, members := members s @ rows\<rparr>"
    "map m_user rows = in_members inp"
    "\<forall>r \<in> set rows. m_chat r = cid \<and> m_joined r = 1 \<and> m_active r \<and> m_can_send r"
    "\<forall>j < length rows. m_role (rows ! j) = (if j = 0 then ''owner'' else ''member'')"
    "set (in_members inp) \<subseteq> u_id ` set (users s)"
    "unique_on m_key (members s) \<longrightarrow> unique_on m_key (members s @ rows)"
    by auto
  show ?thesis
    by (rule that [OF Body cid_def mode_def _ _ _ _ _ _ _ rows(2,3,4,5,6)])
      (use cond csq rows(1) v in auto)
qed (use assms in \<open>auto simp: CreateChat_def\<close>)

lemma CreateChat_Err: "CreateChat C env s b kind = (Err c m, es, s') \<Longrightarrow> s' = s \<and> es = []"
  by (cases b) (auto simp: CreateChat_def Let_def split: if_splits option.splits)

lemma CreateChat_db_ok:
  assumes "db_ok s" "CreateChat C env s b kind = (r, es, s')"
  shows "db_ok s'"
proof (cases r)
  case (Err c m)
  with assms CreateChat_Err show ?thesis by blast
next
  case (Reply code v)
  from assms(2) [unfolded Reply] show ?thesis
  proof (rule CreateChat_Reply)
    fix inp cid mode rows
    let ?c = "\<lparr>c_id = cid, c_kind = kind, c_mode = mode, c_seq = 0, c_epoch = 0,
        c_pending = (mode = ''e2ee''), c_created = now env\<rparr>"
    assume a: "cid \<notin> c_id ` set (chats s)" "map m_user rows = in_members inp"
      "\<forall>r \<in> set rows. m_chat r = cid \<and> m_joined r = 1 \<and> m_active r \<and> m_can_send r"
      "set (in_members inp) \<subseteq> u_id ` set (users s)"
      "unique_on m_key (members s) \<longrightarrow> unique_on m_key (members s @ rows)"
      "s' = s\<lparr>chats := chats s @ [?c], members := members s @ rows\<rparr>"
    have ok1: "db_ok (s\<lparr>chats := chats s @ [?c]\<rparr>)" (is "db_ok ?s1")
      using assms(1) a(1) by (intro new_chat_db_ok) auto
    have "m_user ` set rows \<subseteq> u_id ` set (users s)" using a(2,4) by (metis set_map)
    moreover have "\<exists>c \<in> set (chats ?s1). c_id c = m_chat m \<and> 1 \<le> m_joined m \<and> m_joined m \<le> c_seq c + 1"
      if "m \<in> set (members s)" for m
      using db_ok_chat_of(1) [OF assms(1) that] by auto
    ultimately have "db_ok (?s1\<lparr>members := members s @ rows\<rparr>)"
      using a(3,5) db_ok_refs(3) [OF assms(1)] db_ok_uniques(4) [OF assms(1)]
      by (intro members_db_ok [OF ok1]) auto
    with a(6) show ?thesis by simp
  qed
qed


lemma putMember_Err: "putMember C env s b chat user = (Err c m, es, s') \<Longrightarrow> s' = s \<and> es = []"
  by (cases b) (auto simp: putMember_def Let_def split: if_splits option.splits sum.splits)

text \<open>The upsert of \<open>putMember\<close>, and the chat row before the event is appended.\<close>

definition set_member :: "member_row \<Rightarrow> 'z db_scheme \<Rightarrow> 'z db_scheme" where
  "set_member m s = s\<lparr>members := upsert_row m_key
     (\<lambda>new old. old\<lparr>m_role := m_role new, m_can_send := m_can_send new,
        m_joined := m_joined new, m_active := m_active new\<rparr>) m (members s)\<rparr>"

definition set_pending :: "ident \<Rightarrow> 'z db_scheme \<Rightarrow> 'z db_scheme" where
  "set_pending chat s = s\<lparr>chats := update_rows (\<lambda>c. c_id c = chat) (\<lambda>c. c\<lparr>c_pending := True\<rparr>) (chats s)\<rparr>"

lemma putMember_Reply:
  assumes "putMember C env s b chat user = (Reply code v, es, s')"
  obtains inp c previous joined s2 n where "b = Body inp" "get_row c_id chat (chats s) = Some c"
    "in_allow_history inp \<longrightarrow> pol_history (policy C) = ''all''" "user \<in> u_id ` set (users s)"
    "in_role inp \<in> {''owner'', ''admin'', ''member''}"
    "previous = None \<or> previous = get_row m_key (chat, user) (members s)"
    "\<not> flt env 2 \<Longrightarrow> previous = get_row m_key (chat, user) (members s)"
    "c_kind c = ''direct'' \<Longrightarrow> previous \<noteq> None"
    "joined = (if in_allow_history inp then 1 else case previous of
        Some p \<Rightarrow> if m_active p \<and> in_active inp then m_joined p else c_seq c + 1 | None \<Rightarrow> c_seq c + 1)"
    "s2 = (if c_mode c = ''e2ee'' \<and> (case previous of None \<Rightarrow> True | Some p \<Rightarrow> m_active p \<noteq> in_active inp)
       then set_pending chat else id) (set_member \<lparr>m_chat = chat, m_user = user, m_role = in_role inp,
          m_can_send = in_can_send inp, m_joined = joined, m_active = in_active inp\<rparr> s)"
    "Append C (shift_env 5 env) s2 chat ''membership.changed'' []
       (Some (membership_data (in_active inp) (in_can_send inp) user)) = Inr (n, s')"
    "es = Wake chat # (if in_active inp then [] else [DisconnectUser user])" "code = 200"
proof (cases b)
  case (Body inp)
  define previous where "previous = (if flt env 2 then None else get_row m_key (chat, user) (members s))"
  from assms obtain c where c: "get_row c_id chat (chats s) = Some c"
    by (auto simp: putMember_def Body split: if_splits option.splits)
  define joined where "joined = (if in_allow_history inp then 1 else case previous of
        Some p \<Rightarrow> if m_active p \<and> in_active inp then m_joined p else c_seq c + 1 | None \<Rightarrow> c_seq c + 1)"
  define s1 where "s1 = set_member \<lparr>m_chat = chat, m_user = user, m_role = in_role inp,
          m_can_send = in_can_send inp, m_joined = joined, m_active = in_active inp\<rparr> s"
  define rekey where "rekey = (c_mode c = ''e2ee'' \<and> (case previous of None \<Rightarrow> True | Some p \<Rightarrow> m_active p \<noteq> in_active inp))"
  define s2 where "s2 = (if rekey then set_pending chat else id) s1"
  have unfolded: "putMember C env s b chat user =
    (if in_role inp \<noteq> ''owner'' \<and> in_role inp \<noteq> ''admin'' \<and> in_role inp \<noteq> ''member''
     then Error 400 ''invalid role'' s
     else if in_allow_history inp \<and> pol_history (policy C) \<noteq> ''all'' then Error 400 ''past history disabled'' s
     else if flt env 0 then Error 503 ''storage unavailable'' s
     else if flt env 1 then Error 404 ''chat not found'' s
     else if c_kind c = ''direct'' \<and> previous = None then Error 400 ''direct membership fixed'' s
     else if flt env 3 \<or> get_row u_id user (users s) = None then Error 400 ''unknown user'' s
     else if rekey \<and> flt env 4 then Error 503 ''storage unavailable'' s
     else case Append C (shift_env 5 env) s2 chat ''membership.changed'' []
            (Some (membership_data (in_active inp) (in_can_send inp) user)) of
       Inl _ \<Rightarrow> Error 503 ''storage unavailable'' s
     | Inr (n, s3) \<Rightarrow> (if flt env 7 then Error 503 ''storage unavailable'' s
         else (Reply 200 True, Wake chat # (if in_active inp then [] else [DisconnectUser user]), s3)))"
    unfolding putMember_def Body Decode.simps sum.case c option.case previous_def [symmetric] Let_def
      joined_def [symmetric] rekey_def [symmetric] s2_def s1_def set_member_def set_pending_def id_def
    by (simp add: if_distrib [of "\<lambda>f. f _"])
  from assms [unfolded unfolded] obtain n where
    g: "in_role inp \<in> {''owner'', ''admin'', ''member''}" "in_allow_history inp \<longrightarrow> pol_history (policy C) = ''all''"
      "c_kind c = ''direct'' \<Longrightarrow> previous \<noteq> None" "get_row u_id user (users s) \<noteq> None"
    and app: "Append C (shift_env 5 env) s2 chat ''membership.changed'' []
       (Some (membership_data (in_active inp) (in_can_send inp) user)) = Inr (n, s')"
    and e: "es = Wake chat # (if in_active inp then [] else [DisconnectUser user])" "code = 200"
    by (auto split: if_splits sum.splits)
  show ?thesis
    by (rule that [OF Body c g(2) _ g(1) _ _ g(3) joined_def s2_def [unfolded rekey_def s1_def] app e])
      (use g(4) in \<open>auto simp: get_row_None_iff previous_def\<close>)
qed (use assms in \<open>auto simp: putMember_def\<close>)

lemma head_set_pending: "head (set_pending chat t) d = head t d"
  by (cases "get_row c_id d (chats t)") (auto simp: head_def set_pending_def get_row_update_key)

lemma set_pending_db_ok: "db_ok s \<Longrightarrow> db_ok (set_pending chat s)"
  unfolding set_pending_def by (intro chats_db_ok) (auto simp: chat_key_def)

lemma set_member_db_ok:
  assumes ok: "db_ok s" and "m_user m \<in> u_id ` set (users s)"
    and "c \<in> set (chats s)" "c_id c = m_chat m" "1 \<le> m_joined m" "m_joined m \<le> c_seq c + 1"
  shows "db_ok (set_member m s)"
  unfolding set_member_def
proof (rule members_db_ok [OF ok])
  let ?merge = "\<lambda>new old. old\<lparr>m_role := m_role new, m_can_send := m_can_send new,
        m_joined := m_joined new, m_active := m_active new\<rparr>"
  show "unique_on m_key (upsert_row m_key ?merge m (members s))"
    using db_ok_uniques(4) [OF ok] by (intro unique_on_upsert) (auto simp: m_key_def)
  fix x assume x: "x \<in> set (upsert_row m_key ?merge m (members s))"
  show "m_user x \<in> u_id ` set (users s) \<and>
      (\<exists>c \<in> set (chats s). c_id c = m_chat x \<and> 1 \<le> m_joined x \<and> m_joined x \<le> c_seq c + 1)"
  proof (cases "x \<in> set (members s)")
    case True
    with db_ok_refs(3) [OF ok] db_ok_chat_of(1) [OF ok] show ?thesis by blast
  next
    case False
    with x have "m_key x = m_key m" "m_joined x = m_joined m"
      by (auto simp: set_upsert_row m_key_def split: if_splits)
    with assms show ?thesis by (auto simp: m_key_def)
  qed
qed

lemma set_member_frame [simp]:
  "users (set_member m s) = users s" "chats (set_member m s) = chats s" "devices (set_member m s) = devices s"
  by (simp_all add: set_member_def)

lemma putMember_db_ok:
  assumes "db_ok s" "putMember C env s b chat user = (r, es, s')"
  shows "db_ok s'"
proof (cases r)
  case (Err c m)
  with assms putMember_Err show ?thesis by blast
next
  case (Reply code v)
  from assms(2) [unfolded Reply] show ?thesis
  proof (rule putMember_Reply)
    fix inp c previous joined s2 n
    let ?m = "\<lparr>m_chat = chat, m_user = user, m_role = in_role inp,
          m_can_send = in_can_send inp, m_joined = joined, m_active = in_active inp\<rparr>"
    assume c: "get_row c_id chat (chats s) = Some c" and user: "user \<in> u_id ` set (users s)"
      and prev: "previous = None \<or> previous = get_row m_key (chat, user) (members s)"
      and joined: "joined = (if in_allow_history inp then 1 else case previous of
        Some p \<Rightarrow> if m_active p \<and> in_active inp then m_joined p else c_seq c + 1 | None \<Rightarrow> c_seq c + 1)"
      and s2: "s2 = (if c_mode c = ''e2ee'' \<and> (case previous of None \<Rightarrow> True | Some p \<Rightarrow> m_active p \<noteq> in_active inp)
       then set_pending chat else id) (set_member ?m s)"
      and app: "Append C (shift_env 5 env) s2 chat ''membership.changed'' []
       (Some (membership_data (in_active inp) (in_can_send inp) user)) = Inr (n, s')"
    from c have cin: "c \<in> set (chats s)" "c_id c = chat" by (auto dest: get_row_SomeD)
    have "1 \<le> joined \<and> joined \<le> c_seq c + 1"
    proof (cases "\<exists>p. previous = Some p \<and> m_active p \<and> in_active inp \<and> \<not> in_allow_history inp")
      case True
      then obtain p where p: "previous = Some p" "m_active p" "in_active inp" "\<not> in_allow_history inp" by blast
      with prev have "get_row m_key (chat, user) (members s) = Some p" by auto
      with cin have "p \<in> set (members s)" "m_chat p = c_id c"
        by (auto dest: get_row_SomeD simp: m_key_def)
      then have "1 \<le> m_joined p \<and> m_joined p \<le> c_seq c + 1" by (rule db_ok_bounds(3) [OF assms(1) cin(1)])
      with joined p show ?thesis by simp
    next
      case False
      with joined db_ok_bounds(1) [OF assms(1) cin(1)] show ?thesis by (auto split: option.splits)
    qed
    then have "db_ok (set_member ?m s)"
      using assms(1) user cin by (intro set_member_db_ok) auto
    then have "db_ok s2" by (simp add: s2 set_pending_db_ok)
    then show ?thesis using app by (rule Append_db_ok)
  qed
qed


subsection \<open>Direct chats keep their two members\<close>

definition members_of :: "'z db_scheme \<Rightarrow> ident \<Rightarrow> ident list" where
  "members_of s chat = map m_user (filter (\<lambda>m. m_chat m = chat) (members s))"

definition direct_ok :: "'z db_scheme \<Rightarrow> bool" where
  "direct_ok s \<longleftrightarrow> (\<forall>c \<in> set (chats s). c_kind c = ''direct'' \<longrightarrow> length (members_of s (c_id c)) = 2)"

lemma direct_ok_kinds:
  "direct_ok s \<longleftrightarrow> (\<forall>p \<in> (\<lambda>c. (c_id c, c_kind c)) ` set (chats s).
     snd p = ''direct'' \<longrightarrow> length (members_of s (fst p)) = 2)"
  unfolding direct_ok_def by auto

lemma direct_ok_frame:
  assumes "members s' = members s"
    and "map (\<lambda>c. (c_id c, c_kind c)) (chats s') = map (\<lambda>c. (c_id c, c_kind c)) (chats s)"
  shows "direct_ok s' = direct_ok s"
proof -
  have "(\<lambda>c. (c_id c, c_kind c)) ` set (chats s') = (\<lambda>c. (c_id c, c_kind c)) ` set (chats s)"
    using arg_cong [OF assms(2), of set] by simp
  with assms(1) show ?thesis unfolding direct_ok_kinds members_of_def by simp
qed

lemma Append_direct_ok:
  "Append C env s chat kind message data = Inr (n, s') \<Longrightarrow> direct_ok s' = direct_ok s"
  using Append_frame(3) [of C env s chat kind message data n s'] Append_chats [of C env s chat kind message data n s']
  by (intro direct_ok_frame) (auto simp: bump_seq_def map_update_rows)

lemma set_pending_direct_ok [simp]: "direct_ok (set_pending chat s) = direct_ok s"
  by (rule direct_ok_frame) (simp_all add: set_pending_def map_update_rows)

lemma set_member_existing:
  assumes "get_row m_key (m_key m) (members s) \<noteq> None"
  shows "map (\<lambda>m. (m_chat m, m_user m)) (members (set_member m s)) = map (\<lambda>m. (m_chat m, m_user m)) (members s)"
  using assms by (simp add: set_member_def upsert_row_def map_update_rows)

lemma members_of_keys:
  "members_of s chat = map snd (filter (\<lambda>k. fst k = chat) (map (\<lambda>m. (m_chat m, m_user m)) (members s)))"
  by (simp add: members_of_def filter_map o_def)

lemma set_member_other: "chat \<noteq> m_chat m \<Longrightarrow> members_of (set_member m s) chat = members_of s chat"
proof (cases "get_row m_key (m_key m) (members s)")
  case None
  then show "chat \<noteq> m_chat m \<Longrightarrow> ?thesis" by (simp add: set_member_def upsert_row_def members_of_def)
next
  case Some
  then show ?thesis using set_member_existing [of m s] by (simp add: members_of_keys)
qed

lemma set_member_direct_ok:
  assumes "direct_ok s" "get_row c_id (m_chat m) (chats s) = Some c" "db_ok s"
    "c_kind c = ''direct'' \<Longrightarrow> get_row m_key (m_key m) (members s) \<noteq> None"
  shows "direct_ok (set_member m s)"
  unfolding direct_ok_def
proof (intro ballI impI)
  fix d assume d: "d \<in> set (chats (set_member m s))" "c_kind d = ''direct''"
  then have ds: "length (members_of s (c_id d)) = 2" using assms(1) by (simp add: direct_ok_def)
  show "length (members_of (set_member m s) (c_id d)) = 2"
  proof (cases "c_id d = m_chat m")
    case True
    with d get_row_SomeD [OF assms(2)] have "d = c"
      by (intro unique_on_eqD [OF db_ok_uniques(3) [OF assms(3)]]) auto
    with d assms(4) have "get_row m_key (m_key m) (members s) \<noteq> None" by simp
    from set_member_existing [OF this] have "members_of (set_member m s) (c_id d) = members_of s (c_id d)"
      by (simp only: members_of_keys)
    with ds show ?thesis by simp
  qed (use ds in \<open>simp add: set_member_other\<close>)
qed

lemma CreateChat_direct_ok:
  assumes "db_ok s" "direct_ok s" "CreateChat C env s b kind = (Reply code v, es, s')"
  shows "direct_ok s'"
  using assms(3)
proof (rule CreateChat_Reply)
  fix inp cid mode rows
  assume a: "kind = ''direct'' \<Longrightarrow> length (in_members inp) = 2" "cid \<notin> c_id ` set (chats s)"
    "map m_user rows = in_members inp"
    "\<forall>r \<in> set rows. m_chat r = cid \<and> m_joined r = 1 \<and> m_active r \<and> m_can_send r"
    "s' = s\<lparr>chats := chats s @ [\<lparr>c_id = cid, c_kind = kind, c_mode = mode, c_seq = 0, c_epoch = 0,
        c_pending = (mode = ''e2ee''), c_created = now env\<rparr>], members := members s @ rows\<rparr>"
  have new: "members_of s' cid = in_members inp"
  proof -
    have "filter (\<lambda>m. m_chat m = cid) (members s) = []"
      using db_ok_refs(2) [OF assms(1)] a(2) by (fastforce simp: filter_empty_conv)
    moreover have "filter (\<lambda>m. m_chat m = cid) rows = rows" using a(4) by (simp add: filter_id_conv)
    ultimately show ?thesis using a(3) by (simp add: members_of_def a(5))
  qed
  have old: "members_of s' d = members_of s d" if "d \<noteq> cid" for d
  proof -
    have "filter (\<lambda>m. m_chat m = d) rows = []" using a(4) that by (auto simp: filter_empty_conv)
    then show ?thesis by (simp add: members_of_def a(5))
  qed
  show ?thesis unfolding direct_ok_def
  proof (intro ballI impI)
    fix c assume c: "c \<in> set (chats s')" "c_kind c = ''direct''"
    show "length (members_of s' (c_id c)) = 2"
    proof (cases "c \<in> set (chats s)")
      case True
      then have "c_id c \<noteq> cid" using a(2) by blast
      with True c assms(2) old show ?thesis by (simp add: direct_ok_def)
    next
      case False
      with c a(5) have "c_id c = cid" "kind = ''direct''" by auto
      with a(1) new show ?thesis by simp
    qed
  qed
qed

lemma putMember_direct_ok:
  assumes "db_ok s" "direct_ok s" "putMember C env s b chat user = (Reply code v, es, s')"
  shows "direct_ok s'"
  using assms(3)
proof (rule putMember_Reply)
  fix inp c previous joined s2 n
  assume c: "get_row c_id chat (chats s) = Some c"
    and prev: "previous = None \<or> previous = get_row m_key (chat, user) (members s)"
    and dir: "c_kind c = ''direct'' \<Longrightarrow> previous \<noteq> None"
    and s2: "s2 = (if c_mode c = ''e2ee'' \<and> (case previous of None \<Rightarrow> True | Some p \<Rightarrow> m_active p \<noteq> in_active inp)
       then set_pending chat else id) (set_member \<lparr>m_chat = chat, m_user = user, m_role = in_role inp,
          m_can_send = in_can_send inp, m_joined = joined, m_active = in_active inp\<rparr> s)"
    and app: "Append C (shift_env 5 env) s2 chat ''membership.changed'' []
       (Some (membership_data (in_active inp) (in_can_send inp) user)) = Inr (n, s')"
  have "direct_ok (set_member \<lparr>m_chat = chat, m_user = user, m_role = in_role inp,
          m_can_send = in_can_send inp, m_joined = joined, m_active = in_active inp\<rparr> s)"
    using assms(1,2) c prev dir by (intro set_member_direct_ok) (auto simp: m_key_def)
  then have "direct_ok s2" by (simp add: s2)
  with Append_direct_ok [OF app] show ?thesis by simp
qed

subsection \<open>A new member starts at the current head\<close>

lemma putMember_joins:
  assumes ok: "db_ok s" and put: "putMember C env s (Body inp) chat user = (Reply code v, es, s')"
    and new: "\<not> in_allow_history inp" "get_row m_key (chat, user) (members s) = None"
    and h: "head s chat = Some h"
  shows "\<exists>m. get_row m_key (chat, user) (members s') = Some m \<and> m_joined m = h + 1
    \<and> m_active m = in_active inp \<and> m_can_send m = in_can_send inp \<and> m_role m = in_role inp
    \<and> head s' chat = Some (h + 1)"
  using put
proof (rule putMember_Reply)
  fix i :: member_input and c previous joined s2 n
  let ?m = "\<lparr>m_chat = chat, m_user = user, m_role = in_role i,
          m_can_send = in_can_send i, m_joined = joined, m_active = in_active i\<rparr>"
  let ?merge = "\<lambda>new old. old\<lparr>m_role := m_role new, m_can_send := m_can_send new,
        m_joined := m_joined new, m_active := m_active new\<rparr>"
  assume b: "Body inp = Body i" and c: "get_row c_id chat (chats s) = Some c"
    and prev: "previous = None \<or> previous = get_row m_key (chat, user) (members s)"
    and joined: "joined = (if in_allow_history i then 1 else case previous of
        Some p \<Rightarrow> if m_active p \<and> in_active i then m_joined p else c_seq c + 1 | None \<Rightarrow> c_seq c + 1)"
    and s2: "s2 = (if c_mode c = ''e2ee'' \<and> (case previous of None \<Rightarrow> True | Some p \<Rightarrow> m_active p \<noteq> in_active i)
       then set_pending chat else id) (set_member ?m s)"
    and app: "Append C (shift_env 5 env) s2 chat ''membership.changed'' []
       (Some (membership_data (in_active i) (in_can_send i) user)) = Inr (n, s')"
    and user: "user \<in> u_id ` set (users s)"
  have j: "joined = h + 1" using joined prev new b h c by (auto simp: head_def)
  from c have cin: "c \<in> set (chats s)" "c_id c = chat" by (auto dest: get_row_SomeD)
  have "db_ok (set_member ?m s)"
    using user cin j h c db_ok_bounds(1) [OF ok cin(1)] by (intro set_member_db_ok [OF ok]) (auto simp: head_def)
  then have ok2: "db_ok s2" by (simp add: s2 set_pending_db_ok)
  have "head s2 chat = head (set_member ?m s) chat" by (simp add: s2 head_set_pending)
  also have "\<dots> = Some h" using h by (simp add: head_def)
  finally have head2: "head s2 chat = Some h" .
  have mem: "members s' = members (set_member ?m s)"
    using Append_frame(3) [OF app] by (simp add: s2 set_pending_def)
  have "get_row m_key (m_key ?m) (members (set_member ?m s)) = Some ?m"
    using new(2) get_row_upsert_same [of m_key ?merge ?m "members s"]
    by (simp add: set_member_def m_key_def)
  with mem Append_head [OF ok2 app] head2 b j show ?thesis by (simp add: m_key_def)
qed

subsection \<open>Revocation\<close>

definition revoked_in :: "'z db_scheme \<Rightarrow> ident \<Rightarrow> bool" where
  "revoked_in s device \<longleftrightarrow> (\<exists>d \<in> set (devices s). d_id d = device \<and> d_revoked d)"

lemma revoked_not_active:
  assumes "db_ok s" "revoked_in s (device_id i)"
  shows "\<not> deviceActive f s i"
proof
  assume "deviceActive f s i"
  then obtain d where d: "d \<in> set (devices s)" "d_id d = device_id i" "\<not> d_revoked d"
    using deviceActive_noFault deviceActive_iff [OF assms(1)] by blast
  from assms(2) obtain e where e: "e \<in> set (devices s)" "d_id e = device_id i" "d_revoked e"
    by (auto simp: revoked_in_def)
  from unique_on_eqD [OF db_ok_uniques(2) [OF assms(1)] d(1) e(1)] d e show False by simp
qed

lemma revoke_rows:
  "revoked_in (s\<lparr>devices := update_rows p (\<lambda>d. d\<lparr>d_revoked := True\<rparr>) (devices s), chats := cs\<rparr>) device
    \<longleftrightarrow> revoked_in s device \<or> (\<exists>d \<in> set (devices s). d_id d = device \<and> p d)"
  (is "?L \<longleftrightarrow> ?R")
proof
  assume ?R
  then obtain d where d: "d \<in> set (devices s)" "d_id d = device" "d_revoked d \<or> p d"
    by (auto simp: revoked_in_def)
  let ?d = "if p d then d\<lparr>d_revoked := True\<rparr> else d"
  from d(1) have "?d \<in> set (update_rows p (\<lambda>d. d\<lparr>d_revoked := True\<rparr>) (devices s))"
    unfolding set_update_rows by (rule imageI)
  moreover have "d_id ?d = device" "d_revoked ?d" using d by auto
  ultimately show ?L unfolding revoked_in_def by auto
qed (auto simp: revoked_in_def set_update_rows split: if_splits)

lemma revokeDevice_revokes:
  "revokeDevice env s user device = (Reply c v, es, s') \<Longrightarrow> revoked_in s' device"
  by (erule revokeDevice_Inr) (auto simp: revoke_rows)

lemma revokeDevice_pending:
  assumes "revokeDevice env s user device = (Reply c v, es, s')"
    "ch \<in> set (chats s')" "c_mode ch = ''e2ee''" "m \<in> set (members s)" "m_chat m = c_id ch"
    "m_user m = user" "m_active m"
  shows "c_pending ch"
  using assms(1)
proof (rule revokeDevice_Inr)
  assume "s' = s\<lparr>devices := update_rows (\<lambda>d. d_id d = device \<and> d_user d = user) (\<lambda>d. d\<lparr>d_revoked := True\<rparr>) (devices s),
    chats := update_rows (\<lambda>c. c_mode c = ''e2ee'' \<and> c_id c \<in> {m_chat m | m. m \<in> set (members s) \<and> m_user m = user \<and> m_active m})
      (\<lambda>c. c\<lparr>c_pending := True\<rparr>) (chats s)\<rparr>"
  with assms(2-) show ?thesis by (auto simp: set_update_rows split: if_splits)
qed

text \<open>No management operation takes a revocation back.\<close>

lemma revoked_stays:
  assumes "revoked_in s device"
  shows "putUser env s b user = (r, es, s') \<Longrightarrow> revoked_in s' device"
    "putDevice env s b' user dev = (r', es, s') \<Longrightarrow> revoked_in s' device"
    "revokeDevice env s user dev = (r'', es, s') \<Longrightarrow> revoked_in s' device"
    "CreateChat C env s b2 kind = (r2, es, s') \<Longrightarrow> revoked_in s' device"
    "putMember C env s b3 chat user = (r3, es, s') \<Longrightarrow> revoked_in s' device"
proof -
  show "putUser env s b user = (r, es, s') \<Longrightarrow> revoked_in s' device"
    using assms by (auto simp: putUser_def revoked_in_def split: sum.splits if_splits)
  show "putDevice env s b' user dev = (r', es, s') \<Longrightarrow> revoked_in s' device"
    using assms by (auto dest!: putDevice_cases simp: revoked_in_def)
  show "revoked_in s' device" if a: "revokeDevice env s user dev = (r'', es, s')"
  proof (cases r'')
    case (Reply c v)
    with a assms show ?thesis by (auto elim!: revokeDevice_Inr simp: revoke_rows)
  qed (use a assms revokeDevice_Err in blast)
  show "revoked_in s' device" if a: "CreateChat C env s b2 kind = (r2, es, s')"
  proof (cases r2)
    case (Reply c v)
    with a assms show ?thesis by (auto elim!: CreateChat_Reply simp: revoked_in_def)
  qed (use a assms CreateChat_Err in blast)
  show "revoked_in s' device" if a: "putMember C env s b3 chat user = (r3, es, s')"
  proof (cases r3)
    case (Reply c v)
    from a [unfolded Reply] have "devices s' = devices s"
      by (rule putMember_Reply) (auto dest!: Append_frame(2) simp: set_pending_def)
    with assms show ?thesis by (simp add: revoked_in_def)
  qed (use a assms putMember_Err in blast)
qed

end
