(* ===== verification/Messages.thy ===== *)
theory Messages
  imports Management
begin

text \<open>
  \<open>internal/core/messages.go\<close>: sending (preparation before the queue, the transaction body,
  the result), projection to a recipient, history, the event replay, receipts and batch requests.
  The queue in front of the transaction body is in theory \<open>Writer\<close>.
\<close>

subsection \<open>Request digests\<close>

definition attachments_of :: "string list option \<Rightarrow> string list" where
  "attachments_of a = (case a of None \<Rightarrow> [] | Some xs \<Rightarrow> xs)"

definition omit_empty :: "string \<Rightarrow> string \<Rightarrow> string list" where
  "omit_empty name v = (if v = [] then [] else [json_member name (json_string v)])"

definition marshal_envelope :: "envelope \<Rightarrow> string" where
  "marshal_envelope e = json_object [json_member ''key_id'' (json_string (env_key_id e)),
     json_member ''enc'' (json_string (env_enc e)),
     json_member ''ciphertext'' (json_string (env_ciphertext e))]"

definition marshal_strings :: "string list \<Rightarrow> string" where
  "marshal_strings xs = json_array (map json_string xs)"

text \<open>\<open>json.Marshal\<close> of a \<open>MessageInput\<close>: the field order of the struct, zero values omitted.\<close>

definition marshal_input :: "message_input \<Rightarrow> string" where
  "marshal_input inp = json_object
     ([json_member ''operation_id'' (json_string (in_operation inp))]
      @ (case in_envelope inp of None \<Rightarrow> [] | Some e \<Rightarrow> [json_member ''envelope'' (marshal_envelope e)])
      @ omit_empty ''mls'' (in_mls inp)
      @ (if in_epoch inp = 0 then [] else [json_member ''epoch'' (dec_int (in_epoch inp))])
      @ (let xs = attachments_of (in_attachments inp) in
         if xs = [] then [] else [json_member ''attachments'' (marshal_strings xs)])
      @ omit_empty ''reply_to'' (in_reply_to inp) @ omit_empty ''forward_from'' (in_forward_from inp))"

definition marshal_metadata :: "message_input \<Rightarrow> string" where
  "marshal_metadata inp = json_object
     [json_member ''attachments'' (case in_attachments inp of None \<Rightarrow> ''null'' | Some xs \<Rightarrow> marshal_strings xs),
      json_member ''forward_from'' (json_string (in_forward_from inp)),
      json_member ''reply_to'' (json_string (in_reply_to inp))]"

definition operation_hash :: "prims \<Rightarrow> ident \<Rightarrow> message_input \<Rightarrow> string" where
  "operation_hash P chat inp = hex_encode (p_sha256 P (chat @ [chr 0] @ marshal_input inp))"

text \<open>\<open>json.Unmarshal\<close> of an operation's result into a \<open>Message\<close>.\<close>

fun saved_message :: "op_result \<Rightarrow> message" where
  "saved_message (SavedMessage m) = m"
| "saved_message (SavedId i) = empty_message\<lparr>msg_id := i\<rparr>"

subsection \<open>Hooks\<close>

text \<open>
  A handler that runs \<open>k\<close> hooks after its own first \<open>base\<close> statements gives hook \<open>i\<close> the
  statements \<open>base + i\<close>, \<open>base + k + i\<close>, and so on, so that no two hooks share one.
\<close>

definition hook_env :: "nat \<Rightarrow> nat \<Rightarrow> nat \<Rightarrow> env \<Rightarrow> env" where
  "hook_env base k i env = env\<lparr>flt := (\<lambda>n. flt env (base + n * k + i))\<rparr>"

fun run_prepare ::
  "(env \<Rightarrow> 'z db_scheme \<Rightarrow> identity \<Rightarrow> ident \<Rightarrow> message_input \<Rightarrow> go_error + message_input) list \<Rightarrow>
    nat \<Rightarrow> nat \<Rightarrow> nat \<Rightarrow> env \<Rightarrow> 'z db_scheme \<Rightarrow> identity \<Rightarrow> ident \<Rightarrow> message_input \<Rightarrow> go_error + message_input" where
  "run_prepare [] base k i env s who chat inp = Inr inp"
| "run_prepare (h # hs) base k i env s who chat inp =
     (case h (hook_env base k i env) s who chat inp of
        Inl e \<Rightarrow> Inl e
      | Inr inp' \<Rightarrow> run_prepare hs base k (Suc i) env s who chat inp')"

fun run_tx ::
  "(env \<Rightarrow> 'z db_scheme \<Rightarrow> identity \<Rightarrow> ident \<Rightarrow> message \<Rightarrow> go_error + 'z db_scheme) list \<Rightarrow>
    nat \<Rightarrow> nat \<Rightarrow> nat \<Rightarrow> env \<Rightarrow> 'z db_scheme \<Rightarrow> identity \<Rightarrow> ident \<Rightarrow> message \<Rightarrow> go_error + 'z db_scheme" where
  "run_tx [] base k i env s who chat m = Inr s"
| "run_tx (h # hs) base k i env s who chat m =
     (case h (hook_env base k i env) s who chat m of
        Inl e \<Rightarrow> Inl e
      | Inr s' \<Rightarrow> run_tx hs base k (Suc i) env s' who chat m)"

fun run_project ::
  "(env \<Rightarrow> 'z db_scheme \<Rightarrow> identity \<Rightarrow> message \<Rightarrow> go_error + message) list \<Rightarrow>
    nat \<Rightarrow> nat \<Rightarrow> nat \<Rightarrow> env \<Rightarrow> 'z db_scheme \<Rightarrow> identity \<Rightarrow> message \<Rightarrow> go_error + message" where
  "run_project [] base k i env s who m = Inr m"
| "run_project (h # hs) base k i env s who m =
     (case h (hook_env base k i env) s who m of
        Inl e \<Rightarrow> Inl e
      | Inr m' \<Rightarrow> run_project hs base k (Suc i) env s who m')"

subsection \<open>Preparing a message\<close>

text \<open>What the queued closure captures; \<open>j_input\<close> no longer holds plaintext or ciphertext.\<close>

record write_job =
  j_who :: identity
  j_chat :: ident
  j_input :: message_input
  j_mode :: string
  j_epoch :: int
  j_hash :: string
  j_message :: ident
  j_stored :: bytes
  j_metadata :: message_metadata
  j_bytes :: nat

datatype prepared = Job write_job | Saved message

text \<open>
  The reads outside the transaction: \<open>s\<close> is what the read pool shows. Statement 0 is the
  deduplication lookup, 1 the permission lookup.
\<close>

definition send_permission :: "'z db_scheme \<Rightarrow> identity \<Rightarrow> ident \<Rightarrow> (string \<times> int \<times> bool \<times> bool) option" where
  "send_permission s who chat =
     query_row [(c_mode c, c_epoch c, c_pending c, m_can_send m).
       c \<leftarrow> chats s, m \<leftarrow> members s, m_chat m = c_id c, d \<leftarrow> devices s, d_user d = m_user m,
       u \<leftarrow> users s, u_id u = m_user m \<and> c_id c = chat \<and> m_user m = user_id who \<and> d_id d = device_id who
         \<and> m_active m \<and> \<not> d_revoked d \<and> \<not> u_disabled u]"

text \<open>The transport of the payload: an HPKE envelope in a basic chat, MLS otherwise.\<close>

definition open_payload ::
  "'z core \<Rightarrow> identity \<Rightarrow> ident \<Rightarrow> message_input \<Rightarrow> string \<Rightarrow> int \<Rightarrow> go_error + message_input" where
  "open_payload C who chat inp mode epoch =
     (if mode = ''basic''
      then (case in_envelope inp of
          None \<Rightarrow> Inl (APIError 400 ''basic HPKE envelope required'')
        | Some e \<Rightarrow>
            (if in_mls inp \<noteq> [] then Inl (APIError 400 ''basic HPKE envelope required'')
             else case OpenEnvelope (prim C) (eng C) e
                    (Binding chat (user_id who) (device_id who) (in_operation inp)) of
               Inl _ \<Rightarrow> Inl (APIError 400 ''invalid encrypted envelope'')
             | Inr p \<Rightarrow> Inr (inp\<lparr>in_payload := p\<rparr>)))
      else if in_envelope inp \<noteq> None \<or> in_mls inp = [] \<or> in_epoch inp \<noteq> epoch
      then Inl (APIError 409 ''invalid MLS message or epoch'')
      else Inr inp)"

text \<open>The job: the payload sealed for storage under the new message's identifier.\<close>

definition build_job ::
  "'z core \<Rightarrow> env \<Rightarrow> identity \<Rightarrow> ident \<Rightarrow> message_input \<Rightarrow> string \<Rightarrow> int \<Rightarrow> string \<Rightarrow> write_job" where
  "build_job C env who chat inp mode epoch hash =
     (let mid = uuid env;
          stored = Seal (prim C) (eng C) (nonce env) (in_payload inp) (''message/'' @ mid)
      in \<lparr>j_who = who, j_chat = chat,
           j_input = inp\<lparr>in_payload := [], in_envelope := None, in_mls := []\<rparr>,
           j_mode = mode, j_epoch = epoch, j_hash = hash, j_message = mid, j_stored = stored,
           j_metadata = \<lparr>meta_attachments = attachments_of (in_attachments inp),
             meta_forward_from = in_forward_from inp, meta_reply_to = in_reply_to inp\<rparr>,
           j_bytes = length stored + length (marshal_metadata inp)\<rparr>)"

definition prepareMessage ::
  "'z core \<Rightarrow> env \<Rightarrow> 'z db_scheme \<Rightarrow> identity \<Rightarrow> ident \<Rightarrow> message_input \<Rightarrow> go_error + prepared" where
  "prepareMessage C env s who chat inp =
     (if \<not> validID (in_operation inp)
      then Inl (APIError 400 ''operation_id required (1..128 safe characters)'')
      else let hash = operation_hash (prim C) chat inp in
        if flt env 0 then Inl (OtherError ''storage'')
        else case get_row o_key (device_id who, in_operation inp) (operations s) of
          Some r \<Rightarrow>
            (if o_hash r \<noteq> hash then Inl (APIError 409 ''operation_id reused with different content'')
             else Inr (Saved (saved_message (o_result r))))
        | None \<Rightarrow>
            (case (if flt env 1 then None else send_permission s who chat) of
               None \<Rightarrow> Inl (APIError 403 ''send permission denied'')
             | Some (mode, epoch, pending, canSend) \<Rightarrow>
                 (if \<not> canSend then Inl (APIError 403 ''send permission denied'')
                  else if pending then Inl (APIError 409 ''MLS epoch transition pending'')
                  else if in_reply_to inp \<noteq> [] \<and> \<not> feat_reply (features C)
                    \<or> in_forward_from inp \<noteq> [] \<and> \<not> feat_forward (features C)
                    \<or> length (attachments_of (in_attachments inp)) > 0 \<and> \<not> feat_files (features C)
                  then Inl (APIError 400 ''feature absent from build'')
                  else case open_payload C who chat inp mode epoch of
                    Inl e \<Rightarrow> Inl e
                  | Inr inp1 \<Rightarrow>
                      (case run_prepare (prepare_hooks C) 2 (length (prepare_hooks C)) 0 env s who chat inp1 of
                         Inl e \<Rightarrow> Inl e
                       | Inr inp2 \<Rightarrow>
                           (if length (in_payload inp2) = 0
                              \<or> int (length (in_payload inp2)) > pol_max_message_bytes (policy C)
                            then Inl (APIError 400 ''invalid message payload size'')
                            else Inr (Job (build_job C env who chat inp2 mode epoch hash)))))))"

text \<open>A prepare hook concerns itself with the messages of encrypted chats only, apart from refusing some.\<close>

locale prepare_hook =
  fixes hook :: "env \<Rightarrow> 'z db_scheme \<Rightarrow> identity \<Rightarrow> ident \<Rightarrow> message_input \<Rightarrow> go_error + message_input"
  assumes keeps_basic: "hook env s who chat inp = Inr inp' \<Longrightarrow> inp' = inp \<or> (\<exists>c \<in> set (chats s). c_id c = chat \<and> c_mode c = ''e2ee'')"

definition prepare_hooks_ok :: "'z core \<Rightarrow> bool" where
  "prepare_hooks_ok C \<longleftrightarrow> (\<forall>h \<in> set (prepare_hooks C). prepare_hook h)"

lemma run_prepare_basic:
  "\<forall>h \<in> set hs. prepare_hook h \<Longrightarrow> \<not> (\<exists>c \<in> set (chats s). c_id c = chat \<and> c_mode c = ''e2ee'') \<Longrightarrow>
    run_prepare hs base k i env s who chat inp = Inr inp' \<Longrightarrow> inp' = inp"
proof (induction hs arbitrary: i inp)
  case (Cons h hs)
  from Cons.prems(3) obtain inp1 where h: "h (hook_env base k i env) s who chat inp = Inr inp1"
    and hs: "run_prepare hs base k (Suc i) env s who chat inp1 = Inr inp'"
    by (auto split: sum.splits)
  have "prepare_hook h" using Cons.prems(1) by simp
  from prepare_hook.keeps_basic [OF this h] Cons.prems(2) have "inp1 = inp" by blast
  with Cons.IH [OF _ Cons.prems(2) hs] Cons.prems(1) show ?case by simp
qed simp

lemma concat_map_mem: "y \<in> set (concat (map f xs)) \<Longrightarrow> \<exists>x. x \<in> set xs \<and> y \<in> set (f x)"
  by auto

lemma send_permission_mode:
  assumes "send_permission s who chat = Some (mode, epoch, False, True)" "unique_on c_id (chats s)" "c \<in> set (chats s)" "c_id c = chat"
  shows "c_mode c = mode"
proof -
  let ?of = "\<lambda>c. [(c_mode c, c_epoch c, c_pending c, m_can_send m). m \<leftarrow> members s, m_chat m = c_id c, d \<leftarrow> devices s, d_user d = m_user m,
     u \<leftarrow> users s, u_id u = m_user m \<and> c_id c = chat \<and> m_user m = user_id who \<and> d_id d = device_id who
       \<and> m_active m \<and> \<not> d_revoked d \<and> \<not> u_disabled u]"
  have "(mode, epoch, False, True) \<in> set (concat (map ?of (chats s)))" using assms(1) unfolding send_permission_def by (rule query_row_SomeD)
  from concat_map_mem [OF this] obtain x where x: "x \<in> set (chats s)" "(mode, epoch, False, True) \<in> set (?of x)"
    by (elim exE conjE) (rule that)
  from x(2) have "c_id x = chat" by (cases "c_id x = chat") simp_all
  moreover from x(2) have "c_mode x = mode" by (cases "c_mode x = mode") auto
  ultimately show ?thesis using unique_on_eqD [OF assms(2,3) x(1)] assms(4) by simp
qed

subsection \<open>The transaction body\<close>

definition tx_permission :: "'z db_scheme \<Rightarrow> identity \<Rightarrow> ident \<Rightarrow> (bool \<times> bool \<times> int \<times> bool) option" where
  "tx_permission s who chat =
     query_row [(m_active m \<and> \<not> d_revoked d \<and> \<not> u_disabled u, m_can_send m, c_epoch c, c_pending c).
       m \<leftarrow> members s, c \<leftarrow> chats s, c_id c = m_chat m, d \<leftarrow> devices s, d_user d = m_user m,
       u \<leftarrow> users s, u_id u = m_user m \<and> m_chat m = chat \<and> m_user m = user_id who \<and> d_id d = device_id who]"

definition job_message :: "write_job \<Rightarrow> time \<Rightarrow> int \<Rightarrow> message" where
  "job_message j t seq =
     \<lparr>msg_reactions = [], msg_id = j_message j, msg_chat = j_chat j, msg_sender = user_id (j_who j),
      msg_device = device_id (j_who j), msg_operation = in_operation (j_input j), msg_seq = seq,
      msg_revision = 1, msg_deleted = False, msg_mode = j_mode j, msg_epoch = j_epoch j, msg_created = t,
      msg_envelope = None, msg_mls = [], msg_attachments = attachments_of (in_attachments (j_input j)),
      msg_reply_to = in_reply_to (j_input j), msg_forward_from = in_forward_from (j_input j)\<rparr>"

definition job_row :: "write_job \<Rightarrow> time \<Rightarrow> int \<Rightarrow> message_row" where
  "job_row j t seq =
     \<lparr>g_id = j_message j, g_chat = j_chat j, g_sender = user_id (j_who j), g_device = device_id (j_who j),
      g_operation = in_operation (j_input j), g_seq = seq, g_revision = 1, g_deleted = False,
      g_payload = j_stored j, g_metadata = j_metadata j, g_epoch = j_epoch j, g_created = t\<rparr>"

definition job_operation :: "write_job \<Rightarrow> time \<Rightarrow> message \<Rightarrow> operation_row" where
  "job_operation j t m =
     \<lparr>o_device = device_id (j_who j), o_operation = in_operation (j_input j), o_hash = j_hash j,
      o_result = SavedMessage m, o_created = t\<rparr>"

text \<open>
  \<open>persistMessageInTx\<close>: the message, whether it repeats an operation, and the new state; the
  writer rolls back to its savepoint on an error.
\<close>

definition persistMessageInTx ::
  "'z core \<Rightarrow> env \<Rightarrow> 'z db_scheme \<Rightarrow> write_job \<Rightarrow> go_error + message \<times> bool \<times> 'z db_scheme" where
  "persistMessageInTx C env s j =
     (let who = j_who j; chat = j_chat j; inp = j_input j in
      case (if flt env 0 then None else tx_permission s who chat) of
        None \<Rightarrow> Inl (APIError 403 ''send permission revoked'')
      | Some (active, allowed, currentEpoch, currentPending) \<Rightarrow>
          (if \<not> active \<or> \<not> allowed then Inl (APIError 403 ''send permission revoked'')
           else if currentPending \<or> j_epoch j \<noteq> currentEpoch then Inl (APIError 409 ''epoch changed'')
           else if flt env 1 then Inl (OtherError ''storage'')
           else case get_row o_key (device_id who, in_operation inp) (operations s) of
             Some r \<Rightarrow>
               (if o_hash r \<noteq> j_hash j then Inl (APIError 409 ''operation conflict'')
                else Inr (saved_message (o_result r), True, s))
           | None \<Rightarrow>
               (case Append C (shift_env 2 env) s chat ''message.created'' (j_message j) None of
                  Inl e \<Rightarrow> Inl e
                | Inr (seq, s1) \<Rightarrow>
                    (let message = job_message j (now env) seq in
                     if flt env 4 then Inl (OtherError ''storage'')
                     else case insert_row g_id (job_row j (now env) seq) (messages s1) of
                       None \<Rightarrow> Inl (OtherError ''constraint failed'')
                     | Some gs \<Rightarrow>
                         (let s2 = s1\<lparr>messages := gs\<rparr> in
                          if flt env 5 then Inl (OtherError ''storage'')
                          else case insert_row o_key (job_operation j (now env) message) (operations s2) of
                            None \<Rightarrow> Inl (OtherError ''constraint failed'')
                          | Some os \<Rightarrow>
                              (case run_tx (tx_hooks C) 6 (length (tx_hooks C)) 0 env (s2\<lparr>operations := os\<rparr>)
                                     who chat message of
                                 Inl e \<Rightarrow> Inl e
                               | Inr s3 \<Rightarrow> Inr (message, False, s3)))))))"


subsection \<open>Projection to a recipient\<close>

record stored_message =
  st_message :: message
  st_payload :: bytes
  st_metadata :: message_metadata

definition stored_of :: "message_row \<Rightarrow> chat_row \<Rightarrow> stored_message" where
  "stored_of g c =
     \<lparr>st_message = empty_message\<lparr>msg_id := g_id g, msg_chat := g_chat g, msg_sender := g_sender g,
        msg_device := g_device g, msg_operation := g_operation g, msg_seq := g_seq g,
        msg_revision := g_revision g, msg_deleted := g_deleted g, msg_epoch := g_epoch g,
        msg_created := g_created g, msg_mode := c_mode c\<rparr>,
      st_payload = g_payload g, st_metadata = g_metadata g\<rparr>"

text \<open>One item of the loop of \<open>projectStoredMessages\<close>; item \<open>n\<close> of \<open>len\<close> runs its own hooks.\<close>

definition project_item ::
  "'z core \<Rightarrow> env \<Rightarrow> nat \<Rightarrow> nat \<Rightarrow> nat \<Rightarrow> 'z db_scheme \<Rightarrow> identity \<Rightarrow> string \<Rightarrow> stored_message \<Rightarrow> go_error + message" where
  "project_item C env base len n s who key item =
     (let meta = st_metadata item; k = length (project_hooks C);
          m0 = (st_message item)\<lparr>msg_attachments := meta_attachments meta,
                 msg_reply_to := meta_reply_to meta, msg_forward_from := meta_forward_from meta\<rparr> in
      case run_project (project_hooks C) base (len * k) (n * k) env s who m0 of
        Inl e \<Rightarrow> Inl e
      | Inr m \<Rightarrow>
          (if msg_deleted m
           then Inr (m\<lparr>msg_attachments := [], msg_reply_to := [], msg_forward_from := []\<rparr>)
           else case Open (prim C) (eng C) (st_payload item) (''message/'' @ msg_id m) of
             Inl e \<Rightarrow> Inl e
           | Inr plain \<Rightarrow>
               (if msg_mode m = ''basic''
                then (case b64_decode key of
                    None \<Rightarrow> Inl (OtherError ''illegal base64 data'')
                  | Some publicKey \<Rightarrow>
                      (case SealEnvelope (prim C) publicKey (draws env n) plain
                              (Binding (msg_chat m) (user_id who) (device_id who) (msg_id m)) of
                         Inl e \<Rightarrow> Inl e
                       | Inr envelope \<Rightarrow> Inr (m\<lparr>msg_envelope := Some envelope\<rparr>)))
                else Inr (m\<lparr>msg_mls := b64_encode plain\<rparr>))))"

fun project_items ::
  "'z core \<Rightarrow> env \<Rightarrow> nat \<Rightarrow> nat \<Rightarrow> nat \<Rightarrow> 'z db_scheme \<Rightarrow> identity \<Rightarrow> string \<Rightarrow> stored_message list \<Rightarrow>
    go_error + message list" where
  "project_items C env base len n s who key [] = Inr []"
| "project_items C env base len n s who key (item # items) =
     (case project_item C env base len n s who key item of
        Inl e \<Rightarrow> Inl e
      | Inr m \<Rightarrow>
          (case project_items C env base len (Suc n) s who key items of
             Inl e \<Rightarrow> Inl e
           | Inr ms \<Rightarrow> Inr (m # ms)))"

definition projectStoredMessages ::
  "'z core \<Rightarrow> env \<Rightarrow> nat \<Rightarrow> 'z db_scheme \<Rightarrow> identity \<Rightarrow> stored_message list \<Rightarrow> string \<Rightarrow> go_error + message list" where
  "projectStoredMessages C env base s who stored key =
     project_items C env base (length stored) 0 s who key stored"

text \<open>The value left in the \<open>encodedKey\<close> variable by a loop of scans.\<close>

definition scanned_key :: "string list \<Rightarrow> string" where
  "scanned_key keys = (if keys = [] then [] else last keys)"

definition message_rows ::
  "'z db_scheme \<Rightarrow> identity \<Rightarrow> ident list \<Rightarrow> (stored_message \<times> string) list" where
  "message_rows s who ids =
     [(stored_of g c, d_public_key d).
       g \<leftarrow> messages s, g_id g \<in> set ids, c \<leftarrow> chats s, c_id c = g_chat g,
       m \<leftarrow> members s, m_chat m = g_chat g \<and> m_user m = user_id who \<and> m_active m \<and> m_joined m \<le> g_seq g,
       d \<leftarrow> devices s, d_user d = m_user m \<and> d_id d = device_id who \<and> \<not> d_revoked d,
       u \<leftarrow> users s, u_id u = m_user m \<and> \<not> u_disabled u]"

definition projectMessages ::
  "'z core \<Rightarrow> env \<Rightarrow> 'z db_scheme \<Rightarrow> identity \<Rightarrow> ident list \<Rightarrow> go_error + message list" where
  "projectMessages C env s who ids =
     (if ids = [] then Inr []
      else if flt env 0 then Inl (OtherError ''storage'')
      else let rows = message_rows s who ids in
        if length rows \<noteq> length (remdups ids) then Inl (APIError 404 ''message not accessible'')
        else projectStoredMessages C env 1 s who (map fst rows) (scanned_key (map snd rows)))"

definition ViewMessage ::
  "'z core \<Rightarrow> env \<Rightarrow> 'z db_scheme \<Rightarrow> identity \<Rightarrow> ident \<Rightarrow> go_error + message" where
  "ViewMessage C env s who mid =
     (case projectMessages C env s who [mid] of
        Inl e \<Rightarrow> Inl e
      | Inr ms \<Rightarrow> Inr (ms ! 0))"

definition message_accessible :: "'z db_scheme \<Rightarrow> identity \<Rightarrow> ident \<Rightarrow> bool" where
  "message_accessible s who mid \<longleftrightarrow> (\<exists>g \<in> set (messages s). \<exists>m \<in> set (members s). \<exists>d \<in> set (devices s).
     \<exists>u \<in> set (users s). m_chat m = g_chat g \<and> d_user d = m_user m \<and> u_id u = m_user m
       \<and> g_id g = mid \<and> m_user m = user_id who \<and> m_active m \<and> m_joined m \<le> g_seq g
       \<and> d_id d = device_id who \<and> \<not> d_revoked d \<and> \<not> u_disabled u)"

definition sendResult ::
  "'z core \<Rightarrow> env \<Rightarrow> 'z db_scheme \<Rightarrow> identity \<Rightarrow> message \<Rightarrow> bool \<Rightarrow> bool \<Rightarrow> go_error + message" where
  "sendResult C env s who saved minimal repeated =
     (if \<not> minimal then ViewMessage C env s who (msg_id saved)
      else if repeated then
        (if flt env 0 then Inl (OtherError ''storage'')
         else if \<not> message_accessible s who (msg_id saved)
         then Inl (APIError 404 ''message not accessible'') else Inr saved)
      else Inr saved)"

definition acceptanceReceipt :: "message \<Rightarrow> ident \<times> ident \<times> string \<times> int" where
  "acceptanceReceipt m = (msg_id m, msg_chat m, msg_operation m, msg_seq m)"

definition statusError :: "go_error \<Rightarrow> 's \<Rightarrow> ('b, 's) outcome" where
  "statusError e s = (case e of APIError code m \<Rightarrow> Error code m s
     | OtherError _ \<Rightarrow> Error 503 ''storage unavailable'' s)"

subsection \<open>History\<close>

text \<open>
  The joined rows: \<open>None\<close> stands for the all-null message of the left join. Sequence numbers are
  positive, so null sorts first.
\<close>

definition history_rows ::
  "'z db_scheme \<Rightarrow> identity \<Rightarrow> ident \<Rightarrow> int \<Rightarrow> nat \<Rightarrow> (message_row option \<times> chat_row \<times> string) list" where
  "history_rows s who chat after limit =
     take limit (sort_key (\<lambda>(g, _). case g of None \<Rightarrow> 0 | Some g \<Rightarrow> g_seq g)
       [(g, c, d_public_key d).
         m \<leftarrow> members s, m_chat m = chat \<and> m_user m = user_id who \<and> m_active m,
         c \<leftarrow> chats s, c_id c = m_chat m,
         d \<leftarrow> devices s, d_user d = m_user m \<and> d_id d = device_id who \<and> \<not> d_revoked d,
         u \<leftarrow> users s, u_id u = m_user m \<and> \<not> u_disabled u,
         g \<leftarrow> (let gs = filter (\<lambda>g. g_chat g = c_id c \<and> after < g_seq g \<and> m_joined m \<le> g_seq g) (messages s)
              in if gs = [] then [None] else map Some gs)])"

definition history ::
  "'z core \<Rightarrow> env \<Rightarrow> 'z db_scheme \<Rightarrow> identity \<Rightarrow> ident \<Rightarrow> string \<Rightarrow> string \<Rightarrow> (message list, 'z db_scheme) outcome" where
  "history C env s who chat after_query limit_query =
     (let after = fst (ParseInt after_query);
          limit = (case ParseInt limit_query of (v, e) \<Rightarrow>
                     if \<not> e \<and> v > 0 \<and> v \<le> 200 then nat v else 100) in
      if flt env 0 \<or> flt env 1 then statusError (OtherError ''storage'') s
      else let rows = history_rows s who chat after limit;
               stored = [stored_of g c. (Some g, c, key) \<leftarrow> rows, g_id g \<noteq> []] in
        if rows = [] then Error 403 ''membership required'' s
        else case projectStoredMessages C env 2 s who stored (scanned_key (map (snd \<circ> snd) rows)) of
          Inl e \<Rightarrow> statusError e s
        | Inr out \<Rightarrow> (Reply 200 out, [], s))"

subsection \<open>Event replay\<close>

text \<open>
  \<open>Events\<close> issues two queries: the first reads the head, the join point and the oldest retained
  event (\<open>s1\<close>), the second the page and the current messages (\<open>s2\<close>). Other transactions may commit
  in between, so the two states are separate arguments.
\<close>

definition replay_bounds ::
  "'z db_scheme \<Rightarrow> identity \<Rightarrow> ident \<Rightarrow> int \<Rightarrow> (int \<times> int \<times> int option) option" where
  "replay_bounds s who chat after =
     query_row [(c_seq c, m_joined m,
         if c_seq c > after then (case log_seqs s (c_id c) of [] \<Rightarrow> None | x # xs \<Rightarrow> Some (fold min xs x))
         else None).
       c \<leftarrow> chats s, c_id c = chat,
       m \<leftarrow> members s, m_chat m = c_id c \<and> m_user m = user_id who \<and> m_active m,
       d \<leftarrow> devices s, d_user d = m_user m \<and> d_id d = device_id who \<and> \<not> d_revoked d,
       u \<leftarrow> users s, u_id u = m_user m \<and> \<not> u_disabled u]"

definition replay_access :: "'z db_scheme \<Rightarrow> identity \<Rightarrow> ident \<Rightarrow> (int \<times> string) option" where
  "replay_access s who chat =
     query_row [(m_joined m, d_public_key d).
       m \<leftarrow> members s, m_chat m = chat \<and> m_user m = user_id who \<and> m_active m,
       d \<leftarrow> devices s, d_user d = m_user m \<and> d_id d = device_id who \<and> \<not> d_revoked d,
       u \<leftarrow> users s, u_id u = m_user m \<and> \<not> u_disabled u]"

definition replay_page ::
  "'z db_scheme \<Rightarrow> ident \<Rightarrow> int \<Rightarrow> int \<Rightarrow> nat \<Rightarrow> event_row list" where
  "replay_page s chat after current limit =
     (if current - after = 1 \<or> limit = 1
      then take 1 (sort_key e_seq (filter (\<lambda>e. after < e_seq e \<and> e_seq e \<le> current) (chat_log s chat)))
      else take limit (sort_key e_seq (filter (\<lambda>e. after < e_seq e) (chat_log s chat))))"

definition replay_message :: "'z db_scheme \<Rightarrow> ident \<Rightarrow> int \<Rightarrow> ident \<Rightarrow> stored_message option" where
  "replay_message s chat joined mid =
     query_row [stored_of g c. c \<leftarrow> chats s, c_id c = chat,
       g \<leftarrow> messages s, g_id g = mid \<and> g_chat g = c_id c \<and> joined \<le> g_seq g]"

text \<open>
  The scan loop: the distinct messages of the page in order of first use, with the identifiers
  that index them. An event whose message the join did not find aborts the page.
\<close>

fun scan_page ::
  "'z db_scheme \<Rightarrow> ident \<Rightarrow> int \<Rightarrow> event_row list \<Rightarrow> (ident \<times> stored_message) list \<Rightarrow>
    go_error + (ident \<times> stored_message) list" where
  "scan_page s chat joined [] stored = Inr stored"
| "scan_page s chat joined (e # es) stored =
     (if e_message e = [] \<or> e_message e \<in> set (map fst stored) then scan_page s chat joined es stored
      else case replay_message s chat joined (e_message e) of
        None \<Rightarrow> Inl (APIError 404 ''message not accessible'')
      | Some st \<Rightarrow> scan_page s chat joined es (stored @ [(e_message e, st)]))"

definition event_of ::
  "'z core \<Rightarrow> ident \<Rightarrow> (ident \<rightharpoonup> message) \<Rightarrow> event_row \<Rightarrow> go_error + event" where
  "event_of C chat msgs e =
     (let ev = \<lparr>evt_seq = e_seq e, evt_chat = chat, evt_type = e_kind e, evt_message_id = e_message e,
                evt_data = NoData\<rparr> in
      if e_message e \<noteq> [] then
        (case msgs (e_message e) of
           None \<Rightarrow> Inl (OtherError ''index out of range'')
         | Some m \<Rightarrow> Inr (ev\<lparr>evt_data := MessageData m\<rparr>))
      else case e_data e of
        None \<Rightarrow> Inr ev
      | Some d \<Rightarrow>
          (if d = [] then Inr ev
           else case Open (prim C) (eng C) d (event_aad chat (e_seq e)) of
             Inl err \<Rightarrow> Inl err
           | Inr data \<Rightarrow> Inr (ev\<lparr>evt_data := JsonData data\<rparr>)))"

fun events_of ::
  "'z core \<Rightarrow> ident \<Rightarrow> (ident \<rightharpoonup> message) \<Rightarrow> event_row list \<Rightarrow> go_error + event list" where
  "events_of C chat msgs [] = Inr []"
| "events_of C chat msgs (e # es) =
     (case event_of C chat msgs e of
        Inl err \<Rightarrow> Inl err
      | Inr ev \<Rightarrow> (case events_of C chat msgs es of Inl err \<Rightarrow> Inl err | Inr evs \<Rightarrow> Inr (ev # evs)))"

definition Events_between ::
  "'z core \<Rightarrow> env \<Rightarrow> 'z db_scheme \<Rightarrow> 'z db_scheme \<Rightarrow> identity \<Rightarrow> ident \<Rightarrow> int \<Rightarrow> int \<Rightarrow> go_error + event list" where
  "Events_between C env s1 s2 who chat after0 limit =
     (if limit < 1 \<or> limit > 200 then Inl (APIError 400 ''event limit must be 1..200'')
      else if flt env 0 then Inl (OtherError ''storage'')
      else case replay_bounds s1 who chat after0 of
        None \<Rightarrow> Inl (APIError 403 ''membership required'')
      | Some (current, joined, minimum) \<Rightarrow>
          (let after = (if after0 < joined - 1 then joined - 1 else after0) in
           if after < current \<and> (case minimum of None \<Rightarrow> True | Some n \<Rightarrow> after + 1 < n)
           then Inl (APIError 410 ''cursor expired; sync history and current state'')
           else if after > current then Inl (APIError 400 ''cursor ahead of chat'')
           else if after = current then Inr []
           else if flt env 1 then Inl (OtherError ''storage'')
           else let page = replay_page s2 chat after current (nat limit) in
             (case (if page = [] then Some (0, []) else replay_access s2 who chat) of
                None \<Rightarrow> Inl (APIError 403 ''membership required'')
              | Some (joined2, key) \<Rightarrow>
                  (case scan_page s2 chat joined2 page [] of
                     Inl e \<Rightarrow> Inl e
                   | Inr stored \<Rightarrow>
                       (case projectStoredMessages C env 2 s2 who (map snd stored) key of
                          Inl e \<Rightarrow> Inl e
                        | Inr ms \<Rightarrow> events_of C chat (map_of (zip (map fst stored) ms)) page)))))"

definition Events ::
  "'z core \<Rightarrow> env \<Rightarrow> 'z db_scheme \<Rightarrow> identity \<Rightarrow> ident \<Rightarrow> int \<Rightarrow> int \<Rightarrow> go_error + event list" where
  "Events C env s = Events_between C env s s"

definition eventsHTTP ::
  "'z core \<Rightarrow> env \<Rightarrow> 'z db_scheme \<Rightarrow> identity \<Rightarrow> ident \<Rightarrow> string \<Rightarrow> (event list, 'z db_scheme) outcome" where
  "eventsHTTP C env s who chat after_query =
     (case ParseInt after_query of
        (after, bad) \<Rightarrow>
          (if bad \<or> after < 0 then Error 400 ''after cursor required'' s
           else case Events C env s who chat after 200 of
             Inl e \<Rightarrow> statusError e s
           | Inr evs \<Rightarrow> (Reply 200 evs, [], s)))"

subsection \<open>Receipts\<close>

record receipt_input =
  in_delivered :: int
  in_read :: int

definition receipt_data :: "int \<Rightarrow> ident \<Rightarrow> int \<Rightarrow> ident \<Rightarrow> string" where
  "receipt_data delivered device read user =
     json_object [json_member ''delivered'' (dec_int delivered), json_member ''device_id'' (json_string device),
       json_member ''read'' (dec_int read), json_member ''user_id'' (json_string user)]"

definition receipt ::
  "'z core \<Rightarrow> env \<Rightarrow> 'z db_scheme \<Rightarrow> receipt_input body \<Rightarrow> identity \<Rightarrow> ident \<Rightarrow> (bool, 'z db_scheme) outcome" where
  "receipt C env s b who chat =
     (case Decode b of
        Inl m \<Rightarrow> Error 400 m s
      | Inr inp \<Rightarrow>
          (if flt env 0 \<or> Member s (user_id who) chat = None then Error 403 ''membership required'' s
           else let current = (if flt env 1 then 0 else case head s chat of None \<Rightarrow> 0 | Some n \<Rightarrow> n) in
             if in_read inp < 0 \<or> in_delivered inp < in_read inp \<or> in_delivered inp > current
             then Error 400 ''invalid receipt range'' s
             else if flt env 2 then Error 503 ''storage unavailable'' s
             else let (oldD, oldR) = (if flt env 3 then (0, 0)
                        else case get_row k_key (device_id who, chat) (cursors s) of
                          None \<Rightarrow> (0, 0) | Some k \<Rightarrow> (k_delivered k, k_read k)) in
               if in_delivered inp \<le> oldD \<and> in_read inp \<le> oldR then (Reply 200 True, [], s)
               else if flt env 4 then Error 503 ''storage unavailable'' s
               else let s1 = s\<lparr>cursors := upsert_row k_key
                        (\<lambda>new old. old\<lparr>k_delivered := max (k_delivered old) (k_delivered new),
                           k_read := max (k_read old) (k_read new)\<rparr>)
                        \<lparr>k_device = device_id who, k_chat = chat, k_delivered = in_delivered inp,
                         k_read = in_read inp\<rparr> (cursors s)\<rparr> in
                 case Append C (shift_env 5 env) s1 chat ''receipt.updated'' []
                        (Some (receipt_data (max oldD (in_delivered inp)) (device_id who)
                           (max oldR (in_read inp)) (user_id who))) of
                   Inl _ \<Rightarrow> Error 503 ''storage unavailable'' s
                 | Inr (n, s2) \<Rightarrow>
                     (if flt env 7 then Error 503 ''storage unavailable'' s
                      else (Reply 200 True, [Wake chat], s2))))"

subsection \<open>Transaction hooks leave the core tables alone\<close>

text \<open>
  Hooks of other modules may write their own tables only; this is what the transaction body
  relies on.
\<close>

definition same_core :: "'z db_scheme \<Rightarrow> 'z db_scheme \<Rightarrow> bool" where
  "same_core s s' \<longleftrightarrow> versions s' = versions s \<and> indexes s' = indexes s \<and> users s' = users s
     \<and> devices s' = devices s \<and> chats s' = chats s \<and> members s' = members s \<and> messages s' = messages s
     \<and> events s' = events s \<and> operations s' = operations s \<and> cursors s' = cursors s \<and> tickets s' = tickets s"

lemma same_core_refl [simp, intro]: "same_core s s"
  by (simp add: same_core_def)

lemma same_core_trans: "same_core s s' \<Longrightarrow> same_core s' s'' \<Longrightarrow> same_core s s''"
  by (simp add: same_core_def)

lemma same_core_db_ok: "same_core s s' \<Longrightarrow> db_ok s' = db_ok s"
  by (simp add: same_core_def db_ok_unfold)

lemma same_core_head: "same_core s s' \<Longrightarrow> head s' = head s"
  by (simp add: same_core_def head_def fun_eq_iff)

locale tx_hook =
  fixes hook :: "env \<Rightarrow> 'z db_scheme \<Rightarrow> identity \<Rightarrow> ident \<Rightarrow> message \<Rightarrow> go_error + 'z db_scheme"
  assumes frame: "hook env s who chat m = Inr s' \<Longrightarrow> same_core s s'"

definition hooks_frame :: "'z core \<Rightarrow> bool" where
  "hooks_frame C \<longleftrightarrow> (\<forall>h \<in> set (tx_hooks C). tx_hook h)"

lemma run_tx_frame:
  "\<forall>h \<in> set hs. tx_hook h \<Longrightarrow> run_tx hs base k i env s who chat m = Inr s' \<Longrightarrow> same_core s s'"
proof (induction hs arbitrary: i s)
  case (Cons h hs)
  from Cons.prems(2) obtain s1 where h: "h (hook_env base k i env) s who chat m = Inr s1"
    and hs: "run_tx hs base k (Suc i) env s1 who chat m = Inr s'"
    by (auto split: sum.splits)
  have "tx_hook h" using Cons.prems(1) by simp
  then have "same_core s s1" using h by (rule tx_hook.frame)
  moreover have "same_core s1 s'" using Cons.prems(1) by (intro Cons.IH [OF _ hs]) simp
  ultimately show ?case by (rule same_core_trans)
qed auto

subsection \<open>The transaction body\<close>

definition may_send :: "'z db_scheme \<Rightarrow> identity \<Rightarrow> ident \<Rightarrow> int \<Rightarrow> bool" where
  "may_send s who chat epoch \<longleftrightarrow> (\<exists>c m d u. c \<in> set (chats s) \<and> m \<in> set (members s) \<and> d \<in> set (devices s)
     \<and> u \<in> set (users s) \<and> c_id c = chat \<and> m_chat m = chat \<and> m_user m = user_id who \<and> d_id d = device_id who
     \<and> d_user d = user_id who \<and> u_id u = user_id who \<and> m_active m \<and> m_can_send m \<and> \<not> d_revoked d
     \<and> \<not> u_disabled u \<and> \<not> c_pending c \<and> c_epoch c = epoch)"

lemma tx_permission_may_send:
  assumes "tx_permission s who chat = Some (True, True, epoch, False)"
  shows "may_send s who chat epoch"
proof -
  from query_row_SomeD [OF assms [unfolded tx_permission_def]]
  obtain m c d u where "m \<in> set (members s)" "c \<in> set (chats s)" "c_id c = m_chat m" "d \<in> set (devices s)"
    "d_user d = m_user m" "u \<in> set (users s)" "u_id u = m_user m" "m_chat m = chat" "m_user m = user_id who"
    "d_id d = device_id who" "m_active m" "\<not> d_revoked d" "\<not> u_disabled u" "m_can_send m" "c_epoch c = epoch"
    "\<not> c_pending c"
    by (auto split: if_splits)
  then show ?thesis unfolding may_send_def
    by (intro exI [of _ c] exI [of _ m] exI [of _ d] exI [of _ u] conjI) simp_all
qed

text \<open>The state a fresh send hands to the hooks.\<close>

definition sent_state :: "write_job \<Rightarrow> time \<Rightarrow> int \<Rightarrow> 'z db_scheme \<Rightarrow> 'z db_scheme" where
  "sent_state j t n s = s\<lparr>messages := messages s @ [job_row j t n],
     operations := operations s @ [job_operation j t (job_message j t n)]\<rparr>"

lemma persist_cases:
  assumes "persistMessageInTx C env s j = Inr (m, rep, s')"
  obtains (Repeat) r where "may_send s (j_who j) (j_chat j) (j_epoch j)" "rep" "s' = s"
      "get_row o_key (device_id (j_who j), in_operation (j_input j)) (operations s) = Some r"
      "o_hash r = j_hash j" "m = saved_message (o_result r)"
  | (Fresh) n s1 where "may_send s (j_who j) (j_chat j) (j_epoch j)" "\<not> rep"
      "get_row o_key (device_id (j_who j), in_operation (j_input j)) (operations s) = None"
      "Append C (shift_env 2 env) s (j_chat j) ''message.created'' (j_message j) None = Inr (n, s1)"
      "j_message j \<notin> g_id ` set (messages s)" "m = job_message j (now env) n"
      "run_tx (tx_hooks C) 6 (length (tx_hooks C)) 0 env (sent_state j (now env) n s1) (j_who j) (j_chat j) m = Inr s'"
proof -
  let ?key = "(device_id (j_who j), in_operation (j_input j))"
  from assms obtain active allowed ce cp where perm: "tx_permission s (j_who j) (j_chat j) = Some (active, allowed, ce, cp)"
    by (auto simp: persistMessageInTx_def Let_def split: option.splits if_splits)
  from assms perm have ok: "active" "allowed" "\<not> cp" "j_epoch j = ce" and "\<not> flt env 1"
    by (auto simp: persistMessageInTx_def Let_def split: if_splits)
  with perm have may: "may_send s (j_who j) (j_chat j) (j_epoch j)" by (intro tx_permission_may_send) simp
  show ?thesis
  proof (cases "get_row o_key ?key (operations s)")
    case (Some r)
    with assms perm ok \<open>\<not> flt env 1\<close> have "rep" "s' = s" "o_hash r = j_hash j" "m = saved_message (o_result r)"
      by (auto simp: persistMessageInTx_def Let_def split: if_splits)
    with may Some show ?thesis by (intro Repeat) auto
  next
    case None
    from assms perm ok None \<open>\<not> flt env 1\<close> obtain n s1 gs os where
      app: "Append C (shift_env 2 env) s (j_chat j) ''message.created'' (j_message j) None = Inr (n, s1)"
      and gs: "insert_row g_id (job_row j (now env) n) (messages s1) = Some gs"
      and os: "insert_row o_key (job_operation j (now env) (job_message j (now env) n)) (operations s1) = Some os"
      and hooks: "run_tx (tx_hooks C) 6 (length (tx_hooks C)) 0 env (s1\<lparr>messages := gs, operations := os\<rparr>)
         (j_who j) (j_chat j) (job_message j (now env) n) = Inr s'"
      and r: "\<not> rep" "m = job_message j (now env) n"
      by (auto simp: persistMessageInTx_def Let_def split: if_splits option.splits sum.splits)
    from insert_row_SomeD [OF gs] insert_row_SomeD [OF os]
    have "s1\<lparr>messages := gs, operations := os\<rparr> = sent_state j (now env) n s1"
      and "j_message j \<notin> g_id ` set (messages s1)"
      by (auto simp: sent_state_def job_row_def)
    with may None app hooks r Append_frame(4) [OF app] show ?thesis by (intro Fresh) auto
  qed
qed

lemma sent_state_db_ok:
  assumes ok: "db_ok s" and op: "get_row o_key (device_id (j_who j), in_operation (j_input j)) (operations s) = None"
    and app: "Append C env s (j_chat j) kind (j_message j) None = Inr (n, s1)"
    and fresh: "j_message j \<notin> g_id ` set (messages s)"
  shows "db_ok (sent_state j t n s1)"
proof -
  have ok1: "db_ok s1" by (rule Append_db_ok [OF ok app])
  note fr = Append_frame [OF app]
  from Append_head(2) [OF ok app] obtain c where c: "c \<in> set (chats s1)" "c_id c = j_chat j" "c_seq c = n"
    by (auto simp: head_def dest: get_row_SomeD)
  from Append_head(1) [OF ok app] have "0 \<le> n - 1"
    using db_ok_bounds(1) [OF ok] by (fastforce simp: head_def dest: get_row_SomeD)
  then have ok2: "db_ok (s1\<lparr>messages := messages s1 @ [job_row j t n]\<rparr>)" (is "db_ok ?s2")
    using c fresh db_ok_uniques(5) [OF ok1] db_ok_chat_of(2) [OF ok1] fr(4)
    by (intro messages_db_ok [OF ok1] unique_on_append1) (auto simp: job_row_def)
  have "db_ok (?s2\<lparr>operations := operations s1 @ [job_operation j t (job_message j t n)]\<rparr>)"
    using op db_ok_uniques(7) [OF ok1] fr(5)
    by (intro operations_db_ok [OF ok2] unique_on_append1)
      (auto simp: job_operation_def o_key_def get_row_None_iff)
  then show ?thesis by (simp add: sent_state_def)
qed

lemma persist_db_ok:
  assumes ok: "db_ok s" and hooks: "hooks_frame C" and p: "persistMessageInTx C env s j = Inr (m, rep, s')"
  shows "db_ok s'"
  using p
proof (cases rule: persist_cases)
  case (Fresh n s1)
  have "db_ok (sent_state j (now env) n s1)" by (rule sent_state_db_ok [OF ok Fresh(3,4,5)])
  moreover have "same_core (sent_state j (now env) n s1) s'"
    using hooks by (simp add: run_tx_frame [OF _ Fresh(7)] hooks_frame_def)
  ultimately show ?thesis by (simp add: same_core_db_ok)
qed (use ok in simp)

text \<open>What a fresh send leaves behind.\<close>

lemma persist_fresh:
  assumes ok: "db_ok s" and hooks: "hooks_frame C" and p: "persistMessageInTx C env s j = Inr (m, False, s')"
  shows "head s (j_chat j) = Some (msg_seq m - 1)" "head s' (j_chat j) = Some (msg_seq m)"
    "messages s' = messages s @ [job_row j (now env) (msg_seq m)]"
    "operations s' = operations s @ [job_operation j (now env) m]"
    "m = job_message j (now env) (msg_seq m)"
    "log_seqs s' d = log_seqs s d @ (if d = j_chat j then [msg_seq m] else [])"
    "users s' = users s" "devices s' = devices s" "members s' = members s" "cursors s' = cursors s"
    "tickets s' = tickets s" "chats s' = chats (bump_seq (j_chat j) s)"
proof -
  from p obtain n s1 where app: "Append C (shift_env 2 env) s (j_chat j) ''message.created'' (j_message j) None = Inr (n, s1)"
    and m: "m = job_message j (now env) n"
    and run: "run_tx (tx_hooks C) 6 (length (tx_hooks C)) 0 env (sent_state j (now env) n s1) (j_who j) (j_chat j) m = Inr s'"
    by (cases rule: persist_cases) auto
  have n: "msg_seq m = n" by (simp add: m job_message_def)
  have same: "same_core (sent_state j (now env) n s1) s'"
    using hooks by (simp add: run_tx_frame [OF _ run] hooks_frame_def)
  have h: "head s' = head s1" using same_core_head [OF same] by (simp add: sent_state_def head_def fun_eq_iff)
  note ah = Append_head [OF ok app]
  note fr = Append_frame [OF app]
  show "head s (j_chat j) = Some (msg_seq m - 1)" "head s' (j_chat j) = Some (msg_seq m)"
    using ah by (simp_all add: n h)
  show "messages s' = messages s @ [job_row j (now env) (msg_seq m)]"
    "operations s' = operations s @ [job_operation j (now env) m]"
    "users s' = users s" "devices s' = devices s" "members s' = members s" "cursors s' = cursors s"
    "tickets s' = tickets s" "chats s' = chats (bump_seq (j_chat j) s)"
    using same fr Append_chats [OF app] unfolding n by (simp_all add: same_core_def sent_state_def m)
  show "m = job_message j (now env) (msg_seq m)" using m n by simp
  have "events s' = events s1" using same by (simp add: same_core_def sent_state_def)
  then show "log_seqs s' d = log_seqs s d @ (if d = j_chat j then [msg_seq m] else [])"
    using Append_seqs [OF app, of d] unfolding n by (simp add: log_seqs_def chat_log_def)
qed

subsection \<open>Operations are idempotent\<close>

lemma persist_repeat:
  assumes "get_row o_key (device_id (j_who j), in_operation (j_input j)) (operations s) = Some r"
  shows "persistMessageInTx C env s j = Inr (m, rep, s') \<Longrightarrow>
      rep \<and> s' = s \<and> m = saved_message (o_result r) \<and> o_hash r = j_hash j"
  by (erule persist_cases) (use assms in auto)

lemma prepare_repeat:
  assumes "get_row o_key (device_id who, in_operation inp) (operations s) = Some r" "validID (in_operation inp)"
    "\<not> flt env 0"
  shows "prepareMessage C env s who chat inp =
    (if o_hash r = operation_hash (prim C) chat inp then Inr (Saved (saved_message (o_result r)))
     else Inl (APIError 409 ''operation_id reused with different content''))"
  using assms by (simp add: prepareMessage_def Let_def)

lemma prepare_Job:
  assumes "prepareMessage C env s who chat inp = Inr (Job j)"
  obtains inp1 inp2 where "validID (in_operation inp)"
    "get_row o_key (device_id who, in_operation inp) (operations s) = None"
    "send_permission s who chat = Some (j_mode j, j_epoch j, False, True)"
    "open_payload C who chat inp (j_mode j) (j_epoch j) = Inr inp1"
    "run_prepare (prepare_hooks C) 2 (length (prepare_hooks C)) 0 env s who chat inp1 = Inr inp2"
    "in_payload inp2 \<noteq> []" "int (length (in_payload inp2)) \<le> pol_max_message_bytes (policy C)"
    "j = build_job C env who chat inp2 (j_mode j) (j_epoch j) (operation_hash (prim C) chat inp)"
proof -
  have v: "validID (in_operation inp)" and f: "\<not> flt env 0"
    and o: "get_row o_key (device_id who, in_operation inp) (operations s) = None"
    using assms by (simp_all add: prepareMessage_def Let_def split: if_splits option.splits)
  with assms obtain mode epoch pending canSend
    where p: "send_permission s who chat = Some (mode, epoch, pending, canSend)" and f1: "\<not> flt env 1"
    by (auto simp: prepareMessage_def Let_def split: if_splits option.splits)
  from assms v f o p f1 have g: "canSend" "\<not> pending"
    by (auto simp: prepareMessage_def Let_def split: if_splits)
  from assms v f o p f1 g obtain inp1 where op: "open_payload C who chat inp mode epoch = Inr inp1"
    by (auto simp: prepareMessage_def Let_def split: if_splits sum.splits)
  from assms v f o p f1 g op obtain inp2
    where run: "run_prepare (prepare_hooks C) 2 (length (prepare_hooks C)) 0 env s who chat inp1 = Inr inp2"
    by (auto simp: prepareMessage_def Let_def split: if_splits sum.splits)
  from assms v f o p f1 g op run have sz: "in_payload inp2 \<noteq> []"
    "int (length (in_payload inp2)) \<le> pol_max_message_bytes (policy C)"
    and j: "j = build_job C env who chat inp2 mode epoch (operation_hash (prim C) chat inp)"
    by (simp_all add: prepareMessage_def Let_def split: if_splits)
  from j have "j_mode j = mode" "j_epoch j = epoch" by (simp_all add: build_job_def Let_def)
  with v o p g op run sz j show ?thesis by (intro that [of inp1 inp2]) simp_all
qed

end
