(* ===== verification/Replay.thy ===== *)
theory Replay
  imports Messages
begin

text \<open>
  Correctness of the reading side of \<open>messages.go\<close>: a replay page is the gapless continuation of
  the client's cursor, history pages hold exactly what the reader may see, projection hands each
  message to its recipient under the recipient's key, receipts only move forward.
\<close>

subsection \<open>Intervals\<close>

lemma filter_greater_upto: "filter (\<lambda>x. a < x) [i..j] = [max (a + 1) i..j]"
proof (induction i j rule: upto.induct)
  case (1 i j)
  show ?case
  proof (cases "i \<le> j")
    case True
    with 1 have "filter (\<lambda>x. a < x) [i + 1..j] = [max (a + 1) (i + 1)..j]" by simp
    with True show ?thesis
      by (cases "a < i") (simp_all add: upto_rec1 [of i j] max_def)
  qed simp
qed

lemma filter_range_upto: "filter (\<lambda>x. a < x \<and> x \<le> b) [i..j] = [max (a + 1) i..min b j]"
proof (induction i j rule: upto.induct)
  case (1 i j)
  show ?case
  proof (cases "i \<le> j")
    case True
    with 1 have IH: "filter (\<lambda>x. a < x \<and> x \<le> b) [i + 1..j] = [max (a + 1) (i + 1)..min b j]" by simp
    show ?thesis
    proof (cases "a < i \<and> i \<le> b")
      case True
      with \<open>i \<le> j\<close> IH show ?thesis by (simp add: upto_rec1 [of i j] upto_rec1 [of i "min b j"] max_def)
    next
      case False
      with \<open>i \<le> j\<close> IH show ?thesis by (auto simp: upto_rec1 [of i j] max_def)
    qed
  qed simp
qed

lemma take_upto: "take n [i..j] = [i..min j (i + int n - 1)]"
proof (induction n arbitrary: i)
  case (Suc n)
  show ?case
  proof (cases "i \<le> j")
    case True
    then have "take (Suc n) [i..j] = i # take n [i + 1..j]" by (simp add: upto_rec1)
    with Suc [of "i + 1"] True show ?thesis
      by (simp add: upto_rec1 [of i "min j (i + int n)"] algebra_simps)
  qed simp
qed simp

lemma fold_min_sorted: "sorted (x # xs) \<Longrightarrow> fold min xs x = (x :: int)"
  by (induction xs) (auto simp: min_def)

lemma minimum_upto:
  assumes "k < (n :: int)"
  shows "(case [k + 1..n] of [] \<Rightarrow> None | x # xs \<Rightarrow> Some (fold min xs x)) = Some (k + 1)"
proof -
  have *: "[k + 1..n] = (k + 1) # [k + 1 + 1..n]" using assms by (simp add: upto_rec1)
  have "fold min [k + 1 + 1..n] (k + 1) = k + 1" by (rule fold_min_sorted) simp
  then show ?thesis unfolding * by simp
qed

lemma insort_key_map: "insort_key f (g x) (map g xs) = map g (insort_key (\<lambda>a. f (g a)) x xs)"
  by (induction xs) auto

lemma sort_key_map: "sort_key f (map g xs) = map g (sort_key (\<lambda>a. f (g a)) xs)"
  by (induction xs) (simp_all add: insort_key_map)

subsection \<open>Rows of a join\<close>

lemma join_unique:
  assumes "distinct xs" "x \<in> set xs" "\<And>y. y \<in> set xs \<Longrightarrow> y \<noteq> x \<Longrightarrow> f y = []"
  shows "concat (map f xs) = f x"
  using assms
proof (induction xs)
  case (Cons a xs)
  show ?case
  proof (cases "a = x")
    case True
    with Cons.prems have "\<forall>y \<in> set xs. f y = []" by auto
    then have "concat (map f xs) = []" by (simp add: concat_eq_Nil_conv)
    with True show ?thesis by simp
  next
    case False
    with Cons show ?thesis by auto
  qed
qed simp

lemma join_key:
  assumes "unique_on key xs" "x \<in> set xs" "\<And>y. key y \<noteq> key x \<Longrightarrow> f y = []"
  shows "concat (map f xs) = f x"
proof (rule join_unique)
  show "distinct xs" using assms(1) by (simp add: unique_on_def distinct_map)
  show "f y = []" if "y \<in> set xs" "y \<noteq> x" for y
    using assms(3) unique_on_eqD [OF assms(1) that(1) assms(2)] that(2) by blast
qed (rule assms(2))

lemma join_I: "x \<in> set xs \<Longrightarrow> y \<in> set (f x) \<Longrightarrow> y \<in> set (concat (map f xs))"
  by auto

lemma join_if: "P \<Longrightarrow> y \<in> set zs \<Longrightarrow> y \<in> set (if P then zs else [])"
  by simp

lemma join_E: "y \<in> set (concat (map f xs)) \<Longrightarrow> (\<And>x. x \<in> set xs \<Longrightarrow> y \<in> set (f x) \<Longrightarrow> R) \<Longrightarrow> R"
  by auto

lemma join_ifE: "y \<in> set (if P then zs else []) \<Longrightarrow> (P \<Longrightarrow> y \<in> set zs \<Longrightarrow> R) \<Longrightarrow> R"
  by (simp split: if_splits)

subsection \<open>Who may read\<close>

definition reader_of :: "'z db_scheme \<Rightarrow> identity \<Rightarrow> ident \<Rightarrow> member_row \<Rightarrow> device_row \<Rightarrow> bool" where
  "reader_of s who chat m d \<longleftrightarrow> m \<in> set (members s) \<and> m_chat m = chat \<and> m_user m = user_id who \<and> m_active m
     \<and> d \<in> set (devices s) \<and> d_id d = device_id who \<and> d_user d = user_id who \<and> \<not> d_revoked d
     \<and> (\<exists>u \<in> set (users s). u_id u = user_id who \<and> \<not> u_disabled u)"

lemma reader_unique:
  assumes "db_ok s" "reader_of s who chat m d" "reader_of s who chat m' d'"
  shows "m' = m \<and> d' = d"
  using assms unique_on_eqD [OF db_ok_uniques(4) [OF assms(1)], of m' m]
    unique_on_eqD [OF db_ok_uniques(2) [OF assms(1)], of d' d]
  by (simp add: reader_of_def m_key_def)

lemma replay_bounds_Some:
  assumes "replay_bounds s who chat after = Some (current, joined, minimum)"
  obtains c m d where "reader_of s who chat m d" "c \<in> set (chats s)" "c_id c = chat" "current = c_seq c"
    "joined = m_joined m" "minimum = (if c_seq c > after
       then (case log_seqs s chat of [] \<Rightarrow> None | x # xs \<Rightarrow> Some (fold min xs x)) else None)"
proof -
  from query_row_SomeD [OF assms [unfolded replay_bounds_def]]
  obtain c m d u where "c \<in> set (chats s)" "c_id c = chat" "m \<in> set (members s)" "m_chat m = c_id c"
    "m_user m = user_id who" "m_active m" "d \<in> set (devices s)" "d_user d = m_user m" "d_id d = device_id who"
    "\<not> d_revoked d" "u \<in> set (users s)" "u_id u = m_user m" "\<not> u_disabled u"
    "current = c_seq c" "joined = m_joined m" "minimum = (if c_seq c > after
       then (case log_seqs s (c_id c) of [] \<Rightarrow> None | x # xs \<Rightarrow> Some (fold min xs x)) else None)"
    by (elim join_E join_ifE conjE) (rule that, simp_all)
  then show ?thesis by (intro that [of m d c]) (auto simp: reader_of_def)
qed

lemma replay_bounds_reader:
  assumes ok: "db_ok s" and r: "reader_of s who chat m d" and c: "c \<in> set (chats s)" "c_id c = chat"
  shows "replay_bounds s who chat after = Some (c_seq c, m_joined m, if c_seq c > after
       then (case log_seqs s chat of [] \<Rightarrow> None | x # xs \<Rightarrow> Some (fold min xs x)) else None)"
proof -
  from r obtain u where u: "u \<in> set (users s)" "u_id u = user_id who" "\<not> u_disabled u"
    by (auto simp: reader_of_def)
  have "replay_bounds s who chat after \<noteq> None"
    unfolding replay_bounds_def query_row_None_iff
    using r c u by (intro length_greater_0_conv [THEN iffD1, OF length_pos_if_in_set]
      join_I [OF c(1)] join_I [of m] join_I [of d] join_I [OF u(1)] join_if)
      (auto simp: reader_of_def)
  then obtain cu jo mi where *: "replay_bounds s who chat after = Some (cu, jo, mi)" by auto
  from this obtain c' m' d' where "reader_of s who chat m' d'" "c' \<in> set (chats s)" "c_id c' = chat"
    "cu = c_seq c'" "jo = m_joined m'" "mi = (if c_seq c' > after
       then (case log_seqs s chat of [] \<Rightarrow> None | x # xs \<Rightarrow> Some (fold min xs x)) else None)"
    by (rule replay_bounds_Some)
  moreover have "m' = m" using reader_unique [OF ok r] calculation by blast
  moreover have "c' = c" using unique_on_eqD [OF db_ok_uniques(3) [OF ok]] calculation c by simp
  ultimately show ?thesis using * by simp
qed

lemma replay_access_Some:
  assumes "replay_access s who chat = Some (joined, key)"
  obtains m d where "reader_of s who chat m d" "joined = m_joined m" "key = d_public_key d"
proof -
  from query_row_SomeD [OF assms [unfolded replay_access_def]]
  obtain m d u where "m \<in> set (members s)" "m_chat m = chat"
    "m_user m = user_id who" "m_active m" "d \<in> set (devices s)" "d_user d = m_user m" "d_id d = device_id who"
    "\<not> d_revoked d" "u \<in> set (users s)" "u_id u = m_user m" "\<not> u_disabled u"
    "joined = m_joined m" "key = d_public_key d"
    by (elim join_E join_ifE conjE) (rule that, simp_all)
  then show ?thesis by (intro that [of m d]) (auto simp: reader_of_def)
qed

lemma replay_access_reader:
  assumes ok: "db_ok s" and r: "reader_of s who chat m d"
  shows "replay_access s who chat = Some (m_joined m, d_public_key d)"
proof -
  from r obtain u where u: "u \<in> set (users s)" "u_id u = user_id who" "\<not> u_disabled u"
    by (auto simp: reader_of_def)
  have "replay_access s who chat \<noteq> None"
    unfolding replay_access_def query_row_None_iff
    using r u by (intro length_greater_0_conv [THEN iffD1, OF length_pos_if_in_set]
      join_I [of m] join_I [of d] join_I [OF u(1)] join_if)
      (auto simp: reader_of_def)
  then obtain jo key where *: "replay_access s who chat = Some (jo, key)" by auto
  from this obtain m' d' where "reader_of s who chat m' d'" "jo = m_joined m'" "key = d_public_key d'"
    by (rule replay_access_Some)
  with reader_unique [OF ok r] * show ?thesis by blast
qed

subsection \<open>A page continues the cursor without a gap\<close>

lemma chat_journal:
  assumes "db_ok s" "c \<in> set (chats s)"
  obtains k where "0 \<le> k" "k \<le> c_seq c" "log_seqs s (c_id c) = [k + 1..c_seq c]"
  using assms by (auto simp: db_ok_def journal_ok_def)

lemma page_seqs:
  assumes log: "log_seqs s chat = [k + 1..current]" and "k \<le> after" "after < current" "1 \<le> limit"
  shows "map e_seq (replay_page s chat after current limit) = [after + 1..min current (after + int limit)]"
proof -
  have log': "map e_seq (chat_log s chat) = [k + 1..current]" using log by (simp add: log_seqs_def)
  have srt: "sort_key e_seq (filter p (chat_log s chat)) = filter p (chat_log s chat)" for p
    using log' by (intro sort_key_id_if_sorted sorted_filter) simp
  have m: "map e_seq (filter (\<lambda>e. q (e_seq e)) (chat_log s chat)) = filter q [k + 1..current]" for q
    unfolding log' [symmetric] by (simp add: filter_map o_def)
  show ?thesis
  proof (cases "current - after = 1 \<or> limit = 1")
    case True
    have "map e_seq (replay_page s chat after current limit) = take 1 (filter (\<lambda>x. after < x \<and> x \<le> current) [k + 1..current])"
      using True by (simp only: replay_page_def if_True srt take_map [symmetric] m [of "\<lambda>x. after < x \<and> x \<le> current"])
    also have "\<dots> = [after + 1..min current (after + int limit)]"
      using True assms(2-4) by (auto simp: filter_range_upto take_upto max_def min_def)
    finally show ?thesis .
  next
    case False
    have "map e_seq (replay_page s chat after current limit) = take limit (filter (\<lambda>x. after < x) [k + 1..current])"
      using False by (simp only: replay_page_def if_False srt take_map [symmetric] m [of "\<lambda>x. after < x"])
    also have "\<dots> = [after + 1..min current (after + int limit)]"
      using assms(2-4) by (simp add: filter_greater_upto take_upto max_def algebra_simps)
    finally show ?thesis .
  qed
qed

lemma events_of_Inr:
  "events_of C chat msgs es = Inr evs \<Longrightarrow> map evt_seq evs = map e_seq es \<and> map evt_type evs = map e_kind es
    \<and> map evt_message_id evs = map e_message es \<and> (\<forall>ev \<in> set evs. evt_chat ev = chat)"
proof (induction es arbitrary: evs)
  case (Cons e es)
  from Cons.prems obtain ev evs' where ev: "event_of C chat msgs e = Inr ev"
    and evs: "events_of C chat msgs es = Inr evs'" "evs = ev # evs'"
    by (auto split: sum.splits)
  from ev have "evt_seq ev = e_seq e" "evt_type ev = e_kind e" "evt_message_id ev = e_message e" "evt_chat ev = chat"
    by (auto simp: event_of_def Let_def split: if_splits option.splits sum.splits)
  with Cons.IH [OF evs(1)] evs(2) show ?case by simp
qed simp

text \<open>The page of a cursor the first query accepted.\<close>

definition page_result ::
  "'z core \<Rightarrow> env \<Rightarrow> 'z db_scheme \<Rightarrow> identity \<Rightarrow> ident \<Rightarrow> event_row list \<Rightarrow> go_error + event list" where
  "page_result C env s who chat page =
     (case (if page = [] then Some (0, []) else replay_access s who chat) of
        None \<Rightarrow> Inl (APIError 403 ''membership required'')
      | Some (joined2, key) \<Rightarrow>
          (case scan_page s chat joined2 page [] of
             Inl e \<Rightarrow> Inl e
           | Inr stored \<Rightarrow>
               (case projectStoredMessages C env 2 s who (map snd stored) key of
                  Inl e \<Rightarrow> Inl e
                | Inr ms \<Rightarrow> events_of C chat (map_of (zip (map fst stored) ms)) page)))"

lemma Events_between_step:
  assumes "1 \<le> limit" "limit \<le> 200" "\<not> flt env 0" "replay_bounds s1 who chat after = Some (current, joined, minimum)"
    and start: "start = max after (joined - 1)"
  shows "Events_between C env s1 s2 who chat after limit =
    (if start < current \<and> (case minimum of None \<Rightarrow> True | Some n \<Rightarrow> start + 1 < n)
     then Inl (APIError 410 ''cursor expired; sync history and current state'')
     else if start > current then Inl (APIError 400 ''cursor ahead of chat'')
     else if start = current then Inr []
     else if flt env 1 then Inl (OtherError ''storage'')
     else page_result C env s2 who chat (replay_page s2 chat start current (nat limit)))"
proof -
  have "(if after < joined - 1 then joined - 1 else after) = start" by (simp add: start max_def)
  moreover have "(limit < 1 \<or> limit > 200) = False" "flt env 0 = False" using assms(1-3) by auto
  ultimately show ?thesis
    by (simp only: Events_between_def if_False assms(4) option.case prod.case Let_def page_result_def)
qed

lemma page_result_Inr: "page_result C env s who chat page = Inr evs \<Longrightarrow> \<exists>msgs. events_of C chat msgs page = Inr evs"
  by (auto simp: page_result_def split: option.splits sum.splits if_splits)

lemma Events_contiguous:
  assumes ok: "db_ok s" and ev: "Events C env s who chat after limit = Inr evs"
  shows "\<exists>c m d. reader_of s who chat m d \<and> c \<in> set (chats s) \<and> c_id c = chat
    \<and> (let start = max after (m_joined m - 1) in start \<le> c_seq c
       \<and> map evt_seq evs = [start + 1..min (c_seq c) (start + limit)])"
proof -
  from ev obtain current joined minimum where lim: "1 \<le> limit" "limit \<le> 200" "\<not> flt env 0"
    and b: "replay_bounds s who chat after = Some (current, joined, minimum)"
    by (auto simp: Events_def Events_between_def split: if_splits option.splits)
  define start where "start = max after (joined - 1)"
  from b obtain c m d where r: "reader_of s who chat m d" and c: "c \<in> set (chats s)" "c_id c = chat"
    and cur: "current = c_seq c" and joined: "joined = m_joined m" and min: "minimum = (if c_seq c > after
       then (case log_seqs s chat of [] \<Rightarrow> None | x # xs \<Rightarrow> Some (fold min xs x)) else None)"
    by (rule replay_bounds_Some)
  have start: "start = max after (m_joined m - 1)" by (simp add: start_def joined)
  from chat_journal [OF ok c(1)] obtain k where k: "0 \<le> k" "k \<le> c_seq c" "log_seqs s chat = [k + 1..c_seq c]"
    unfolding c(2) .
  note step = ev [unfolded Events_def Events_between_step [OF lim b start_def]]
  have g: "\<not> (start < current \<and> (case minimum of None \<Rightarrow> True | Some n \<Rightarrow> start + 1 < n))" "\<not> start > current"
    using step by (meson Inl_Inr_False)+
  show ?thesis
  proof (cases "start = current")
    case True
    with step g have "evs = []" by simp
    with True r c cur start lim show ?thesis by (intro exI conjI) (auto simp: Let_def)
  next
    case False
    with g have less: "start < current" by simp
    define page where "page = replay_page s chat start current (nat limit)"
    from step g False have "page_result C env s who chat page = Inr evs"
      by (simp only: page_def if_False split: if_splits) simp
    then obtain msgs where "events_of C chat msgs page = Inr evs" by (blast dest: page_result_Inr)
    from events_of_Inr [OF this] have seqs: "map evt_seq evs = map e_seq page" by simp
    have "after < c_seq c" using less cur start by simp
    moreover have "k \<le> start"
    proof (cases "k < c_seq c")
      case True
      have "minimum = Some (k + 1)" using min \<open>after < c_seq c\<close> k(3) minimum_upto [OF True] by simp
      with g less show ?thesis by simp
    next
      case False
      with k(2) have "log_seqs s chat = []" using k(3) by simp
      with min g less show ?thesis by (simp split: if_splits)
    qed
    ultimately have "map e_seq page = [start + 1..min current (start + int (nat limit))]"
      unfolding page_def using k(3) cur less lim by (intro page_seqs) auto
    with seqs lim less r c cur start show ?thesis by (intro exI conjI) (auto simp: Let_def)
  qed
qed


subsection \<open>Events that refer to messages before the join point\<close>

text \<open>
  When the next event of a reader's cursor refers to a message older than the reader's join
  point, every replay request fails; the cursor cannot move past the event.
\<close>

lemma replay_message_old:
  assumes "db_ok s" "g \<in> set (messages s)" "g_seq g < joined"
  shows "replay_message s chat joined (g_id g) = None"
proof -
  have "\<not> (g' \<in> set (messages s) \<and> g_id g' = g_id g \<and> joined \<le> g_seq g')" for g'
    using unique_on_eqD [OF db_ok_uniques(5) [OF assms(1)], of g' g] assms(2,3) by auto
  then show ?thesis
    by (auto simp: replay_message_def concat_eq_Nil_conv)
qed

lemma Events_blocked:
  assumes ok: "db_ok s" and r: "reader_of s who chat m d" and lim: "1 \<le> limit" "limit \<le> 200"
    and e: "e \<in> set (events s)" "e_chat e = chat" "e_seq e = after + 1" "m_joined m \<le> e_seq e"
    and g: "g \<in> set (messages s)" "e_message e = g_id g" "g_id g \<noteq> []" "g_seq g < m_joined m"
    and f: "\<not> flt env 0" "\<not> flt env 1"
  shows "Events C env s who chat after limit = Inl (APIError 404 ''message not accessible'')"
proof -
  from db_ok_refs(5) [OF ok e(1)] e(2) obtain c where c: "c \<in> set (chats s)" "c_id c = chat" by auto
  have ec: "e_seq e \<le> c_seq c" "1 \<le> e_seq e" using journal_event_bound [OF ok e(1) c(1)] c(2) e(2) by auto
  from chat_journal [OF ok c(1)] obtain k where k: "0 \<le> k" "k \<le> c_seq c" "log_seqs s chat = [k + 1..c_seq c]"
    unfolding c(2) .
  have "e_seq e \<in> set [k + 1..c_seq c]" using seq_in_log [OF e(1)] e(2) k(3) by simp
  then have ka: "k \<le> after" "k < c_seq c" using e(3) by auto
  have less: "after < c_seq c" using e(3) ec by simp
  have b: "replay_bounds s who chat after = Some (c_seq c, m_joined m, Some (k + 1))"
    using replay_bounds_reader [OF ok r c] less k(3) minimum_upto [OF ka(2)] by simp
  have start: "after = max after (m_joined m - 1)" using e(3,4) by simp
  define page where "page = replay_page s chat after (c_seq c) (nat limit)"
  have "map e_seq page = [after + 1..min (c_seq c) (after + int (nat limit))]"
    unfolding page_def using k(3) ka less lim by (intro page_seqs) auto
  also have "\<dots> = (after + 1) # [after + 1 + 1..min (c_seq c) (after + limit)]"
    using less lim by (simp add: upto_rec1)
  finally obtain e' rest where page: "page = e' # rest" and e': "e_seq e' = after + 1"
    by (cases page) auto
  have "e' \<in> set (chat_log s chat)"
  proof -
    have "e' \<in> set page" by (simp add: page)
    then show ?thesis unfolding page_def replay_page_def
      by (auto split: if_splits dest!: in_set_takeD)
  qed
  then have "e' = e" using unique_on_eqD [OF db_ok_uniques(6) [OF ok], of e' e] e e'
    by (simp add: chat_log_def e_key_def)
  then have "page_result C env s who chat page = Inl (APIError 404 ''message not accessible'')"
    using g replay_message_old [OF ok g(1,4)]
    by (simp add: page_result_def page replay_access_reader [OF ok r])
  then show ?thesis
    unfolding Events_def Events_between_step [OF lim f(1) b start] using less ka f by (simp add: page_def)
qed

subsection \<open>Projection\<close>

text \<open>
  What the projection hooks of the modules keep: the identity of the message and, once deleted,
  its deletion.
\<close>

locale project_hook =
  fixes hook :: "env \<Rightarrow> 'z db_scheme \<Rightarrow> identity \<Rightarrow> message \<Rightarrow> go_error + message"
  assumes keeps: "hook env s who m = Inr m' \<Longrightarrow>
    (\<exists>rs del. m' = m\<lparr>msg_reactions := rs, msg_deleted := del\<rparr> \<and> (msg_deleted m \<longrightarrow> del))"

definition project_frame :: "'z core \<Rightarrow> bool" where
  "project_frame C \<longleftrightarrow> (\<forall>h \<in> set (project_hooks C). project_hook h)"

lemma run_project_keeps:
  "\<forall>h \<in> set hs. project_hook h \<Longrightarrow> run_project hs base k i env s who m = Inr m' \<Longrightarrow>
    \<exists>rs del. m' = m\<lparr>msg_reactions := rs, msg_deleted := del\<rparr> \<and> (msg_deleted m \<longrightarrow> del)"
proof (induction hs arbitrary: i m)
  case Nil
  then show ?case by (intro exI [of _ "msg_reactions m"] exI [of _ "msg_deleted m"]) simp
next
  case (Cons h hs)
  from Cons.prems(2) obtain m1 where h: "h (hook_env base k i env) s who m = Inr m1"
    and hs: "run_project hs base k (Suc i) env s who m1 = Inr m'"
    by (auto split: sum.splits)
  have "project_hook h" using Cons.prems(1) by simp
  from project_hook.keeps [OF this h] obtain rs del where m1: "m1 = m\<lparr>msg_reactions := rs, msg_deleted := del\<rparr>"
    "msg_deleted m \<longrightarrow> del" by blast
  from Cons.IH [OF _ hs] Cons.prems(1) obtain rs2 del2
    where "m' = m1\<lparr>msg_reactions := rs2, msg_deleted := del2\<rparr>" "msg_deleted m1 \<longrightarrow> del2" by auto
  with m1 show ?case by (intro exI [of _ rs2] exI [of _ del2]) simp
qed

text \<open>
  A projected item keeps the stored message's identity; it is either blank (deleted) or carries
  the opened payload, sealed to the reader's key in a basic chat and verbatim in an E2EE chat.
\<close>

lemma project_item_Inr:
  assumes "project_frame C" "project_item C env base len n s who key item = Inr m"
  shows "msg_id m = msg_id (st_message item) \<and> msg_seq m = msg_seq (st_message item)
    \<and> msg_chat m = msg_chat (st_message item) \<and> msg_sender m = msg_sender (st_message item)
    \<and> msg_operation m = msg_operation (st_message item) \<and> msg_mode m = msg_mode (st_message item)
    \<and> (msg_deleted (st_message item) \<longrightarrow> msg_deleted m)"
    and "msg_deleted m \<Longrightarrow> msg_attachments m = [] \<and> msg_envelope m = msg_envelope (st_message item)
      \<and> msg_mls m = msg_mls (st_message item)"
    and "\<not> msg_deleted m \<Longrightarrow> \<exists>plain. Open (prim C) (eng C) (st_payload item) (''message/'' @ msg_id m) = Inr plain
      \<and> (if msg_mode m = ''basic''
         then \<exists>pk envl. b64_decode key = Some pk \<and> msg_envelope m = Some envl
           \<and> SealEnvelope (prim C) pk (draws env n) plain
               (Binding (msg_chat m) (user_id who) (device_id who) (msg_id m)) = Inr envl
         else msg_mls m = b64_encode plain)"
proof -
  let ?meta = "st_metadata item" and ?k = "length (project_hooks C)"
  let ?m0 = "(st_message item)\<lparr>msg_attachments := meta_attachments ?meta,
                 msg_reply_to := meta_reply_to ?meta, msg_forward_from := meta_forward_from ?meta\<rparr>"
  from assms(2) obtain m1 where run: "run_project (project_hooks C) base (len * ?k) (n * ?k) env s who ?m0 = Inr m1"
    and m: "(if msg_deleted m1
           then Inr (m1\<lparr>msg_attachments := [], msg_reply_to := [], msg_forward_from := []\<rparr>)
           else case Open (prim C) (eng C) (st_payload item) (''message/'' @ msg_id m1) of
             Inl e \<Rightarrow> Inl e
           | Inr plain \<Rightarrow>
               (if msg_mode m1 = ''basic''
                then (case b64_decode key of
                    None \<Rightarrow> Inl (OtherError ''illegal base64 data'')
                  | Some publicKey \<Rightarrow>
                      (case SealEnvelope (prim C) publicKey (draws env n) plain
                              (Binding (msg_chat m1) (user_id who) (device_id who) (msg_id m1)) of
                         Inl e \<Rightarrow> Inl e
                       | Inr envelope \<Rightarrow> Inr (m1\<lparr>msg_envelope := Some envelope\<rparr>)))
                else Inr (m1\<lparr>msg_mls := b64_encode plain\<rparr>))) = Inr m"
    by (simp add: project_item_def Let_def split: sum.splits)
  from run_project_keeps [OF _ run] assms(1) obtain rs del
    where m1: "m1 = ?m0\<lparr>msg_reactions := rs, msg_deleted := del\<rparr>" "msg_deleted ?m0 \<longrightarrow> del"
    by (auto simp: project_frame_def)
  show "msg_id m = msg_id (st_message item) \<and> msg_seq m = msg_seq (st_message item)
    \<and> msg_chat m = msg_chat (st_message item) \<and> msg_sender m = msg_sender (st_message item)
    \<and> msg_operation m = msg_operation (st_message item) \<and> msg_mode m = msg_mode (st_message item)
    \<and> (msg_deleted (st_message item) \<longrightarrow> msg_deleted m)"
    using m m1 by (auto split: if_splits sum.splits option.splits)
  show "msg_deleted m \<Longrightarrow> msg_attachments m = [] \<and> msg_envelope m = msg_envelope (st_message item)
      \<and> msg_mls m = msg_mls (st_message item)"
    using m m1 by (auto split: if_splits sum.splits option.splits)
  show "\<not> msg_deleted m \<Longrightarrow> \<exists>plain. Open (prim C) (eng C) (st_payload item) (''message/'' @ msg_id m) = Inr plain
      \<and> (if msg_mode m = ''basic''
         then \<exists>pk envl. b64_decode key = Some pk \<and> msg_envelope m = Some envl
           \<and> SealEnvelope (prim C) pk (draws env n) plain
               (Binding (msg_chat m) (user_id who) (device_id who) (msg_id m)) = Inr envl
         else msg_mls m = b64_encode plain)"
    using m m1 by (auto split: if_splits sum.splits option.splits)
qed

lemma project_items_Inr:
  "project_items C env base len n s who key items = Inr ms \<Longrightarrow>
    length ms = length items \<and> (\<forall>j < length items.
      project_item C env base len (n + j) s who key (items ! j) = Inr (ms ! j))"
proof (induction items arbitrary: n ms)
  case (Cons item items)
  from Cons.prems obtain m ms' where m: "project_item C env base len n s who key item = Inr m"
    and ms: "project_items C env base len (Suc n) s who key items = Inr ms'" "ms = m # ms'"
    by (auto split: sum.splits)
  from Cons.IH [OF ms(1)] m ms(2) show ?case by (auto simp: nth_Cons split: nat.splits)
qed simp

lemma projectStored_ids:
  assumes "project_frame C" "projectStoredMessages C env base s who stored key = Inr ms"
  shows "map msg_id ms = map (msg_id \<circ> st_message) stored" "map msg_seq ms = map (msg_seq \<circ> st_message) stored"
proof -
  from assms(2) have *: "length ms = length stored" "\<forall>j < length stored.
      project_item C env base (length stored) (0 + j) s who key (stored ! j) = Inr (ms ! j)"
    unfolding projectStoredMessages_def by (auto dest: project_items_Inr)
  have "msg_id (ms ! j) = msg_id (st_message (stored ! j)) \<and> msg_seq (ms ! j) = msg_seq (st_message (stored ! j))"
    if "j < length stored" for j
    using *(2) that project_item_Inr(1) [OF assms(1)] by blast
  with *(1) show "map msg_id ms = map (msg_id \<circ> st_message) stored" "map msg_seq ms = map (msg_seq \<circ> st_message) stored"
    by (auto intro!: nth_equalityI)
qed


subsection \<open>History\<close>

definition visible :: "'z db_scheme \<Rightarrow> ident \<Rightarrow> int \<Rightarrow> int \<Rightarrow> message_row list" where
  "visible s chat after joined =
     filter (\<lambda>g. g_chat g = chat \<and> after < g_seq g \<and> joined \<le> g_seq g) (messages s)"

lemma history_rows_reader:
  assumes ok: "db_ok s" and r: "reader_of s who chat m d"
  obtains c where "c \<in> set (chats s)" "c_id c = chat"
    "history_rows s who chat after limit =
      (if visible s chat after (m_joined m) = [] then take limit [(None, c, d_public_key d)]
       else map (\<lambda>g. (Some g, c, d_public_key d)) (take limit (sort_key g_seq (visible s chat after (m_joined m)))))"
proof -
  note mm = r [unfolded reader_of_def]
  from db_ok_refs(2) [OF ok] mm obtain c where c: "c \<in> set (chats s)" "c_id c = chat" by fastforce
  from mm obtain u where u: "u \<in> set (users s)" "u_id u = user_id who" "\<not> u_disabled u" by blast
  let ?V = "visible s chat after (m_joined m)"
  let ?G = "if ?V = [] then [None] else map Some ?V"
  let ?F4 = "\<lambda>m c d u. if u_id u = m_user m \<and> \<not> u_disabled u then map (\<lambda>g. (g, c, d_public_key d))
     (let gs = filter (\<lambda>g. g_chat g = c_id c \<and> after < g_seq g \<and> m_joined m \<le> g_seq g) (messages s)
      in if gs = [] then [None] else map Some gs) else []"
  let ?F3 = "\<lambda>m c d. if d_user d = m_user m \<and> d_id d = device_id who \<and> \<not> d_revoked d
     then concat (map (?F4 m c d) (users s)) else []"
  let ?F2 = "\<lambda>m c. if c_id c = m_chat m then concat (map (?F3 m c) (devices s)) else []"
  let ?F1 = "\<lambda>m. if m_chat m = chat \<and> m_user m = user_id who \<and> m_active m
     then concat (map (?F2 m) (chats s)) else []"
  note U = db_ok_uniques [OF ok]
  have "concat (map (?F4 m c d) (users s)) = ?F4 m c d u"
    using mm u(2) by (intro join_key [OF U(1) u(1)]) simp
  also have "\<dots> = map (\<lambda>g. (g, c, d_public_key d)) ?G"
    using mm u c(2) by (simp add: visible_def Let_def)
  finally have 4: "concat (map (?F4 m c d) (users s)) = map (\<lambda>g. (g, c, d_public_key d)) ?G" .
  have "concat (map (?F3 m c) (devices s)) = ?F3 m c d"
    using mm by (intro join_key [OF U(2)]) simp_all
  also have "\<dots> = concat (map (?F4 m c d) (users s))" using mm by (intro if_P) simp
  also note 4
  finally have 3: "concat (map (?F3 m c) (devices s)) = map (\<lambda>g. (g, c, d_public_key d)) ?G" .
  have "concat (map (?F2 m) (chats s)) = ?F2 m c"
    using mm c(2) by (intro join_key [OF U(3) c(1)]) simp
  also have "\<dots> = concat (map (?F3 m c) (devices s))" using mm c(2) by (intro if_P) simp
  also note 3
  finally have 2: "concat (map (?F2 m) (chats s)) = map (\<lambda>g. (g, c, d_public_key d)) ?G" .
  have "concat (map ?F1 (members s)) = ?F1 m"
    using mm by (intro join_key [OF U(4)] if_not_P) (auto simp: m_key_def)
  also have "\<dots> = concat (map (?F2 m) (chats s))" using mm by (intro if_P) simp
  also note 2
  finally have 1: "concat (map ?F1 (members s)) = map (\<lambda>g. (g, c, d_public_key d)) ?G" .
  have "history_rows s who chat after limit = take limit (sort_key (\<lambda>(g, _). case g of None \<Rightarrow> 0 | Some g \<Rightarrow> g_seq g)
      (map (\<lambda>g. (g, c, d_public_key d)) ?G))"
    unfolding history_rows_def 1 [symmetric] by (simp add: map_concat [symmetric] concat_map_singleton)
  also have "\<dots> = (if ?V = [] then take limit [(None, c, d_public_key d)]
       else map (\<lambda>g. (Some g, c, d_public_key d)) (take limit (sort_key g_seq ?V)))"
    by (auto simp: sort_key_map o_def take_map take_Cons')
  finally show ?thesis using c that by blast
qed


lemma no_reader_history_rows:
  assumes "\<nexists>m d. reader_of s who chat m d"
  shows "history_rows s who chat after limit = []"
proof (rule ccontr)
  assume "history_rows s who chat after limit \<noteq> []"
  then have "hd (history_rows s who chat after limit) \<in> set (history_rows s who chat after limit)"
    by (rule hd_in_set)
  then have "hd (history_rows s who chat after limit) \<in> set [(g, c, d_public_key d).
         m \<leftarrow> members s, m_chat m = chat \<and> m_user m = user_id who \<and> m_active m,
         c \<leftarrow> chats s, c_id c = m_chat m,
         d \<leftarrow> devices s, d_user d = m_user m \<and> d_id d = device_id who \<and> \<not> d_revoked d,
         u \<leftarrow> users s, u_id u = m_user m \<and> \<not> u_disabled u,
         g \<leftarrow> (let gs = filter (\<lambda>g. g_chat g = c_id c \<and> after < g_seq g \<and> m_joined m \<le> g_seq g) (messages s)
              in if gs = [] then [None] else map Some gs)]"
    unfolding history_rows_def by (auto dest: in_set_takeD simp only: set_sort)
  then obtain m d u where "m \<in> set (members s)" "m_chat m = chat" "m_user m = user_id who" "m_active m"
    "d \<in> set (devices s)" "d_user d = m_user m" "d_id d = device_id who" "\<not> d_revoked d"
    "u \<in> set (users s)" "u_id u = m_user m" "\<not> u_disabled u"
    by (elim join_E join_ifE conjE) (rule that)
  then have "reader_of s who chat m d" by (auto simp: reader_of_def)
  with assms show False by blast
qed

text \<open>A history page: exactly the messages the reader may see after the cursor, oldest first.\<close>

lemma history_page:
  assumes ok: "db_ok s" and pf: "project_frame C" and ids: "\<forall>g \<in> set (messages s). g_id g \<noteq> []"
    and h: "history C env s who chat aq lq = (Reply 200 out, es, s')"
  defines "after \<equiv> fst (ParseInt aq)"
    and "limit \<equiv> (case ParseInt lq of (v, e) \<Rightarrow> if \<not> e \<and> v > 0 \<and> v \<le> 200 then nat v else 100)"
  shows "s' = s \<and> es = [] \<and> (\<exists>m d. reader_of s who chat m d
    \<and> map msg_id out = map g_id (take limit (sort_key g_seq (visible s chat after (m_joined m))))
    \<and> map msg_seq out = map g_seq (take limit (sort_key g_seq (visible s chat after (m_joined m)))))"
proof -
  define rows where "rows = history_rows s who chat after limit"
  define stored where "stored = [stored_of g c. (Some g, c, key) \<leftarrow> rows, g_id g \<noteq> []]"
  from h have ne: "rows \<noteq> []"
    and p: "projectStoredMessages C env 2 s who stored (scanned_key (map (snd \<circ> snd) rows)) = Inr out"
    and s': "s' = s" "es = []"
    unfolding history_def Let_def after_def [symmetric] limit_def [symmetric] rows_def [symmetric]
      stored_def [symmetric]
    by (auto simp: statusError_def split: if_splits sum.splits go_error.splits)
  from ne no_reader_history_rows obtain m d where r: "reader_of s who chat m d" unfolding rows_def by blast
  let ?V = "visible s chat after (m_joined m)"
  have l: "0 < limit" by (auto simp: limit_def split: prod.splits if_splits)
  obtain c where rows: "rows = (if ?V = [] then take limit [(None, c, d_public_key d)]
       else map (\<lambda>g. (Some g, c, d_public_key d)) (take limit (sort_key g_seq ?V)))"
    using history_rows_reader [OF ok r, of after limit] unfolding rows_def by blast
  have in_V: "g_id g \<noteq> []" if "g \<in> set (take limit (sort_key g_seq ?V))" for g
    using that ids in_set_takeD by (fastforce simp: visible_def)
  have gen: "[stored_of g c. (Some g, c, key) \<leftarrow> map (\<lambda>g. (Some g, c, d_public_key d)) gs, g_id g \<noteq> []]
      = map (\<lambda>g. stored_of g c) gs" if "\<forall>g \<in> set gs. g_id g \<noteq> []" for gs
    using that by (induction gs) auto
  have "stored = map (\<lambda>g. stored_of g c) (take limit (sort_key g_seq ?V))"
  proof (cases "?V = []")
    case True
    then have "rows = [(None, c, d_public_key d)]" using rows l by (cases limit) auto
    with True show ?thesis by (simp add: stored_def)
  next
    case False
    with rows gen in_V show ?thesis by (simp add: stored_def)
  qed
  with projectStored_ids [OF pf p] r s' show ?thesis
    by (intro conjI exI [of _ m] exI [of _ d]) (simp_all add: stored_of_def o_def)
qed

lemma history_denied:
  assumes "\<nexists>m d. reader_of s who chat m d" "\<not> flt env 0" "\<not> flt env 1"
  shows "history C env s who chat aq lq = (Err 403 ''membership required'', [], s)"
  using assms no_reader_history_rows [OF assms(1)] by (simp add: history_def Let_def Error_def)

subsection \<open>Receipts only move forward\<close>

definition cursor_of :: "'z db_scheme \<Rightarrow> ident \<Rightarrow> ident \<Rightarrow> int \<times> int" where
  "cursor_of s device chat = (case get_row k_key (device, chat) (cursors s) of
     None \<Rightarrow> (0, 0) | Some k \<Rightarrow> (k_delivered k, k_read k))"

definition merge_cursor :: "cursor_row \<Rightarrow> cursor_row \<Rightarrow> cursor_row" where
  "merge_cursor new old = old\<lparr>k_delivered := max (k_delivered old) (k_delivered new),
     k_read := max (k_read old) (k_read new)\<rparr>"

lemma merge_cursor_key [simp]: "k_key (merge_cursor new old) = k_key old"
  by (simp add: merge_cursor_def k_key_def)

lemma receipt_cases:
  assumes ok: "db_ok s" and rc: "receipt C env s b who chat = (Reply code v, es, s')"
  obtains (Old) "s' = s" "es = []"
  | (New) inp n h s1 where "b = Body inp" "head s chat = Some h" "0 \<le> in_read inp" "in_read inp \<le> in_delivered inp"
      "in_delivered inp \<le> h" "Member s (user_id who) chat \<noteq> None"
      "s1 = s\<lparr>cursors := upsert_row k_key merge_cursor \<lparr>k_device = device_id who, k_chat = chat,
         k_delivered = in_delivered inp, k_read = in_read inp\<rparr> (cursors s)\<rparr>"
      "\<exists>data. Append C (shift_env 5 env) s1 chat ''receipt.updated'' [] (Some data) = Inr (n, s')" "es = [Wake chat]"
proof (cases b)
  case (Body inp)
  define k where "k = (if flt env 3 then (0, 0) else case get_row k_key (device_id who, chat) (cursors s) of
                          None \<Rightarrow> (0, 0) | Some k \<Rightarrow> (k_delivered k, k_read k))"
  obtain oldD oldR where k2: "k = (oldD, oldR)" by (cases k)
  define s1 where "s1 = s\<lparr>cursors := upsert_row k_key merge_cursor \<lparr>k_device = device_id who, k_chat = chat,
         k_delivered = in_delivered inp, k_read = in_read inp\<rparr> (cursors s)\<rparr>"
  define cur where "cur = (if flt env 1 then 0 else case head s chat of None \<Rightarrow> 0 | Some n \<Rightarrow> n)"
  define app where "app = Append C (shift_env 5 env) s1 chat ''receipt.updated'' []
            (Some (receipt_data (max oldD (in_delivered inp)) (device_id who)
               (max oldR (in_read inp)) (user_id who)))"
  have "receipt C env s b who chat =
    (if flt env 0 \<or> Member s (user_id who) chat = None then Error 403 ''membership required'' s
     else if in_read inp < 0 \<or> in_delivered inp < in_read inp \<or> in_delivered inp > cur
     then Error 400 ''invalid receipt range'' s
     else if flt env 2 then Error 503 ''storage unavailable'' s
     else if in_delivered inp \<le> oldD \<and> in_read inp \<le> oldR then (Reply 200 True, [], s)
     else if flt env 4 then Error 503 ''storage unavailable'' s
     else case app of
       Inl _ \<Rightarrow> Error 503 ''storage unavailable'' s
     | Inr (n, s2) \<Rightarrow> (if flt env 7 then Error 503 ''storage unavailable'' s else (Reply 200 True, [Wake chat], s2)))"
    unfolding receipt_def Body Decode.simps sum.case Let_def k_def [symmetric] k2 prod.case cur_def [symmetric]
      s1_def merge_cursor_def app_def by (rule refl)
  note eq = rc [unfolded this]
  from eq have g: "Member s (user_id who) chat \<noteq> None" "0 \<le> in_read inp" "in_read inp \<le> in_delivered inp"
      "in_delivered inp \<le> cur" by (simp_all split: if_splits)
  show ?thesis
  proof (cases "s' = s \<and> es = []")
    case False
    with eq obtain n where a: "app = Inr (n, s')" and e: "es = [Wake chat]"
      by (simp split: if_splits sum.splits prod.splits)
    from a obtain c where "get_row c_id chat (chats s1) = Some c" by (auto simp: app_def elim: Append_Inr)
    then have c: "get_row c_id chat (chats s) = Some c" by (simp add: s1_def)
    then have h: "head s chat = Some (c_seq c)" by (simp add: head_def)
    have "0 \<le> c_seq c" using c db_ok_bounds(1) [OF ok] by (blast dest: get_row_SomeD)
    then have "in_delivered inp \<le> c_seq c" using g(4) h by (simp add: cur_def split: if_splits)
    with Body h g a e show ?thesis
      by (intro New [OF Body h g(2,3) _ g(1) s1_def _ e]) (auto simp: app_def)
  qed (use Old in blast)
qed (use rc in \<open>auto simp: receipt_def\<close>)

lemma merged_cursors_ok:
  assumes ok: "db_ok s" and h: "head s chat = Some h"
    and r: "0 \<le> r" "r \<le> d" "d \<le> h"
  shows "db_ok (s\<lparr>cursors := upsert_row k_key merge_cursor \<lparr>k_device = dev, k_chat = chat,
    k_delivered = d, k_read = r\<rparr> (cursors s)\<rparr>)"
proof (rule cursors_db_ok [OF ok])
  let ?k = "\<lparr>k_device = dev, k_chat = chat, k_delivered = d, k_read = r\<rparr>"
  show "unique_on k_key (upsert_row k_key merge_cursor ?k (cursors s))"
    using db_ok_uniques(8) [OF ok] by (intro unique_on_upsert) simp_all
  fix x assume x: "x \<in> set (upsert_row k_key merge_cursor ?k (cursors s))"
  from h obtain c where c: "c \<in> set (chats s)" "c_id c = chat" "c_seq c = h"
    by (auto simp: head_def dest: get_row_SomeD)
  show "\<exists>c \<in> set (chats s). c_id c = k_chat x \<and> 0 \<le> k_read x \<and> k_read x \<le> k_delivered x \<and> k_delivered x \<le> c_seq c"
  proof (cases "x \<in> set (cursors s) \<or> x = ?k")
    case True
    then show ?thesis
    proof
      assume "x = ?k"
      with c r show ?thesis by (intro bexI [of _ c]) auto
    qed (rule db_ok_chat_of(3) [OF ok])
  next
    case False
    with x obtain y where y: "y \<in> set (cursors s)" "k_key y = k_key ?k" "x = merge_cursor ?k y"
      by (auto simp: set_upsert_row split: if_splits)
    have "0 \<le> k_read y \<and> k_read y \<le> k_delivered y \<and> k_delivered y \<le> c_seq c"
      using y(1,2) c by (intro db_ok_bounds(4) [OF ok c(1)]) (auto simp: k_key_def)
    with y c r show ?thesis by (intro bexI [of _ c]) (auto simp: merge_cursor_def k_key_def)
  qed
qed

lemma receipt_db_ok:
  assumes ok: "db_ok s" and rc: "receipt C env s b who chat = (r, es, s')"
  shows "db_ok s'"
proof (cases r)
  case (Reply code v)
  from ok rc [unfolded Reply] show ?thesis
  proof (cases rule: receipt_cases)
    case (New inp n h s1)
    have "db_ok s1" unfolding New(7) by (rule merged_cursors_ok [OF ok New(2-5)])
    with New(8) show ?thesis by (blast intro: Append_db_ok)
  qed (use ok in simp)
next
  case (Err code m)
  have "s' = s" using rc [unfolded Err]
    by (cases b) (auto simp: receipt_def Let_def split: if_splits prod.splits sum.splits)
  with ok show ?thesis by simp
qed

lemma receipt_monotone:
  assumes ok: "db_ok s" and rc: "receipt C env s b who chat = (Reply code v, es, s')"
  shows "fst (cursor_of s dev ch) \<le> fst (cursor_of s' dev ch) \<and> snd (cursor_of s dev ch) \<le> snd (cursor_of s' dev ch)
    \<and> ((dev, ch) \<noteq> (device_id who, chat) \<longrightarrow> cursor_of s' dev ch = cursor_of s dev ch)"
  using ok rc
proof (cases rule: receipt_cases)
  case (New inp n h s1)
  let ?k = "\<lparr>k_device = device_id who, k_chat = chat, k_delivered = in_delivered inp, k_read = in_read inp\<rparr>"
  have cur: "cursors s' = upsert_row k_key merge_cursor ?k (cursors s)"
    using New(7,8) by (auto dest: Append_frame(6))
  show ?thesis
  proof (cases "(dev, ch) = k_key ?k")
    case True
    then have "get_row k_key (dev, ch) (cursors s') =
        Some (case get_row k_key (dev, ch) (cursors s) of None \<Rightarrow> ?k | Some x \<Rightarrow> merge_cursor ?k x)"
      unfolding cur by (simp add: get_row_upsert_same)
    with New(3,4) True show ?thesis
      by (simp add: cursor_of_def merge_cursor_def k_key_def split: option.splits)
  next
    case False
    then have "get_row k_key (dev, ch) (cursors s') = get_row k_key (dev, ch) (cursors s)"
      unfolding cur by (simp add: get_row_upsert_other)
    then show ?thesis by (simp add: cursor_of_def)
  qed
qed simp

end
