(* ===== verification/Writer.thy ===== *)
theory Writer
  imports Replay
begin

text \<open>
  \<open>internal/core/writer_queue.go\<close>: the bounded queue in front of the single SQLite writer and the
  shared transaction of a batch, in which every job is isolated by a savepoint. The batch is
  stated for any job body (the field \<open>runTx\<close>), then used at \<open>persistMessageInTx\<close>.
\<close>

subsection \<open>One batch in one transaction\<close>

text \<open>
  What one job of a batch meets: its own draws and faults, whether its request was cancelled
  before it ran or while it ran, and the outcome of its savepoint statements.
\<close>

record job_env =
  je_env :: env
  je_cancelled_before :: bool
  je_cancelled_after :: bool
  je_savepoint_fails :: bool
  je_rollback_fails :: bool
  je_release_fails :: bool

record batch_env =
  be_begin_fails :: bool
  be_commit_fails :: bool
  be_rollback_fails :: bool

definition context_canceled :: go_error where
  "context_canceled = OtherError ''context canceled''"

definition storage_error :: go_error where
  "storage_error = OtherError ''storage''"

type_synonym ('j, 'm, 's) runner = "'j \<Rightarrow> env \<Rightarrow> 's \<Rightarrow> go_error + 'm \<times> bool \<times> 's"

text \<open>
  The loop over the jobs: the results, the error of the batch, the number of changes, the state
  inside the transaction. \<open>multi\<close>: the batch has several jobs, so savepoints are used.
\<close>

definition job_step ::
  "('j, 'm, 's) runner \<Rightarrow> bool \<Rightarrow> 'j \<Rightarrow> job_env \<Rightarrow> go_error option \<Rightarrow> nat \<Rightarrow> 's \<Rightarrow>
    (go_error + 'm \<times> bool) \<times> go_error option \<times> nat \<times> 's" where
  "job_step run multi j je err changed s =
     (if je_cancelled_before je then (Inl context_canceled, err, changed, s)
      else case err of
        Some e \<Rightarrow> (Inl e, err, changed, s)
      | None \<Rightarrow>
          (if multi \<and> je_savepoint_fails je then (Inl storage_error, Some storage_error, changed, s)
           else let tx = run j (je_env je) s;
                    result = (case tx of Inl e \<Rightarrow> Inl e | Inr (m, repeated, s1) \<Rightarrow>
                       if je_cancelled_after je then Inl context_canceled else Inr (m, repeated));
                    inside = (case tx of Inl e \<Rightarrow> s | Inr (m, repeated, s1) \<Rightarrow> s1)
                in case result of
                  Inl e \<Rightarrow>
                    (if \<not> multi then (result, Some e, changed, inside)
                     else if je_rollback_fails je then (result, Some storage_error, changed, inside)
                     else (result, if je_release_fails je then Some storage_error else None, changed, s))
                | Inr (m, repeated) \<Rightarrow>
                    (if multi \<and> je_release_fails je then (result, Some storage_error, changed, inside)
                     else (result, None, if repeated then changed else changed + 1, inside))))"

fun batch_body ::
  "('j, 'm, 's) runner \<Rightarrow> bool \<Rightarrow> ('j \<times> job_env) list \<Rightarrow> go_error option \<Rightarrow> nat \<Rightarrow> 's \<Rightarrow>
    (go_error + 'm \<times> bool) list \<times> go_error option \<times> nat \<times> 's" where
  "batch_body run multi [] err changed s = ([], err, changed, s)"
| "batch_body run multi ((j, je) # js) err changed s =
     (case job_step run multi j je err changed s of
        (result, err1, changed1, s1) \<Rightarrow>
          (case batch_body run multi js err1 changed1 s1 of
             (results, err2, changed2, s2) \<Rightarrow> (result # results, err2, changed2, s2)))"

definition executeBatch ::
  "('j, 'm, 's) runner \<Rightarrow> batch_env \<Rightarrow> ('j \<times> job_env) list \<Rightarrow> 's \<Rightarrow> (go_error + 'm \<times> bool) list \<times> 's" where
  "executeBatch run be jobs s =
     (let beginErr = (if be_begin_fails be then Some storage_error else None);
          (results, err, changed, s') = batch_body run (length jobs > 1) jobs beginErr 0 s;
          (err', s'') =
            (if err = None \<and> changed > 0
             then (if be_commit_fails be then (Some storage_error, s) else (None, s'))
             else (if err = None \<and> be_rollback_fails be then (Some storage_error, s) else (err, s)))
      in (case err' of
            None \<Rightarrow> results
          | Some e \<Rightarrow> map (\<lambda>r. case r of Inl x \<Rightarrow> Inl x | Inr _ \<Rightarrow> Inl e) results, s''))"

subsection \<open>The job contract\<close>

text \<open>
  Any job body that keeps an invariant of the store and that reports a repetition only when it
  changed nothing can be batched. Inside this contract a batch is a serial execution of exactly
  the jobs that are reported to have succeeded.
\<close>

locale batched_job =
  fixes run :: "'j \<Rightarrow> env \<Rightarrow> 's \<Rightarrow> go_error + 'm \<times> bool \<times> 's"
    and inv :: "'s \<Rightarrow> bool"
  assumes run_inv: "inv s \<Longrightarrow> run j e s = Inr (m, rep, s') \<Longrightarrow> inv s'"
    and run_repeat: "run j e s = Inr (m, True, s') \<Longrightarrow> s' = s"
begin

inductive serial :: "'s \<Rightarrow> (('j \<times> job_env) \<times> (go_error + 'm \<times> bool)) list \<Rightarrow> 's \<Rightarrow> bool" where
  serial_Nil: "serial s [] s"
| serial_Ok: "run j (je_env je) s = Inr (m, rep, s1) \<Longrightarrow> \<not> je_cancelled_before je \<Longrightarrow>
    serial s1 rest s2 \<Longrightarrow> serial s (((j, je), Inr (m, rep)) # rest) s2"
| serial_Err: "serial s rest s2 \<Longrightarrow> serial s ((job, Inl e) # rest) s2"

inductive_cases serial_NilE: "serial s [] s'"
inductive_cases serial_ConsE: "serial s (x # rest) s'"

lemma serial_inv: "serial s rs s' \<Longrightarrow> inv s \<Longrightarrow> inv s'"
  by (induction rule: serial.induct) (auto intro: run_inv)

lemma serial_all_failed: "\<forall>r \<in> set rs. \<exists>e. snd r = Inl e \<Longrightarrow> serial s rs s"
proof (induction rs)
  case (Cons r rs)
  then obtain e where "r = (fst r, Inl e)" by (metis list.set_intros(1) prod.collapse)
  moreover have "serial s rs s" using Cons by simp
  ultimately show ?case using serial_Err by metis
qed (rule serial_Nil)

lemma body_Cons:
  assumes "batch_body run multi ((j, je) # jobs) err ch s = (rs, err', ch', s')"
  obtains r e1 c1 s1 rs1 where "job_step run multi j je err ch s = (r, e1, c1, s1)"
    "batch_body run multi jobs e1 c1 s1 = (rs1, err', ch', s')" "rs = r # rs1"
  using assms by (auto split: prod.splits)

lemma body_length: "batch_body run multi jobs err ch s = (rs, err', ch', s') \<Longrightarrow> length rs = length jobs"
proof (induction jobs arbitrary: err ch s rs)
  case (Cons job jobs)
  obtain j je where job: "job = (j, je)" by (cases job)
  from Cons.prems [unfolded job] show ?case by (rule body_Cons) (simp add: Cons.IH)
qed simp

lemma body_error_stays:
  "batch_body run multi jobs (Some e) ch s = (rs, err', ch', s') \<Longrightarrow> err' = Some e"
proof (induction jobs arbitrary: ch s rs)
  case (Cons job jobs)
  obtain j je where job: "job = (j, je)" by (cases job)
  from Cons.prems [unfolded job] show ?case
  proof (rule body_Cons)
    fix r e1 c1 s1 rs1
    assume step: "job_step run multi j je (Some e) ch s = (r, e1, c1, s1)"
      and rest: "batch_body run multi jobs e1 c1 s1 = (rs1, err', ch', s')"
    from step have "e1 = Some e" by (simp add: job_step_def split: if_splits)
    with rest show ?thesis using Cons.IH by simp
  qed
qed simp

text \<open>A step that leaves no batch error: the job failed without a trace, or it ran.\<close>

lemma job_step_None:
  assumes "job_step run multi j je err ch s = (r, None, c1, s1)"
  obtains (Failed) e where "r = Inl e" "c1 = ch" "s1 = s" "err = None"
  | (Ran) m rep where "r = Inr (m, rep)" "run j (je_env je) s = Inr (m, rep, s1)"
      "c1 = (if rep then ch else ch + 1)" "\<not> je_cancelled_before je" "err = None"
proof (cases "je_cancelled_before je \<or> err \<noteq> None \<or> multi \<and> je_savepoint_fails je")
  case True
  with assms have "\<exists>e. r = Inl e" "c1 = ch" "s1 = s" "err = None"
    by (auto simp: job_step_def split: if_splits option.splits)
  then show ?thesis using Failed by blast
next
  case False
  then have g: "\<not> je_cancelled_before je" "err = None" "\<not> (multi \<and> je_savepoint_fails je)" by auto
  show ?thesis
  proof (cases "run j (je_env je) s")
    case (Inl e)
    with assms g have "r = Inl e" "c1 = ch" "s1 = s"
      by (auto simp: job_step_def Let_def split: if_splits)
    then show ?thesis using Failed g(2) by blast
  next
    case (Inr p)
    obtain m rep t where p: "p = (m, rep, t)" by (cases p)
    show ?thesis
    proof (cases "je_cancelled_after je")
      case True
      with assms g Inr p have "r = Inl context_canceled" "c1 = ch" "s1 = s"
        by (auto simp: job_step_def Let_def split: if_splits)
      then show ?thesis using Failed g(2) by blast
    next
      case False
      with assms g Inr p have "r = Inr (m, rep)" "c1 = (if rep then ch else ch + 1)" "s1 = t"
        by (auto simp: job_step_def Let_def split: if_splits)
      with Inr p g show ?thesis by (intro Ran) auto
    qed
  qed
qed

text \<open>A body without a batch error is a serial execution that counts its changes.\<close>

lemma body_serial:
  "batch_body run multi jobs err ch s = (rs, None, ch', s') \<Longrightarrow>
    err = None \<and> serial s (zip jobs rs) s' \<and> ch \<le> ch' \<and> (ch' = ch \<longrightarrow> s' = s)"
proof (induction jobs arbitrary: rs err ch s)
  case Nil
  then show ?case by (auto intro: serial_Nil)
next
  case (Cons job jobs)
  obtain j je where job: "job = (j, je)" by (cases job)
  from Cons.prems [unfolded job] show ?case
  proof (rule body_Cons)
    fix r e1 c1 s1 rs1
    assume step: "job_step run multi j je err ch s = (r, e1, c1, s1)"
      and rest: "batch_body run multi jobs e1 c1 s1 = (rs1, None, ch', s')" and rs: "rs = r # rs1"
    note IH = Cons.IH [OF rest]
    from step IH have "job_step run multi j je err ch s = (r, None, c1, s1)" by simp
    then show ?thesis
    proof (cases rule: job_step_None)
      case (Failed e)
      with IH rs job show ?thesis by (auto intro: serial_Err)
    next
      case (Ran m rep)
      have "s1 = s" if rep using Ran(2) that run_repeat by auto
      with Ran IH rs job show ?thesis by (auto intro: serial_Ok split: if_splits)
    qed
  qed
qed

definition failed_by :: "go_error \<Rightarrow> (go_error + 'm \<times> bool) list \<Rightarrow> (go_error + 'm \<times> bool) list" where
  "failed_by e = map (\<lambda>r. case r of Inl x \<Rightarrow> Inl x | Inr _ \<Rightarrow> Inl e)"

lemma serial_failed_by: "serial s (zip jobs (failed_by e rs)) s"
  by (rule serial_all_failed) (auto simp: failed_by_def dest!: set_zip_rightD split: sum.splits)

lemma batch_serial:
  assumes "executeBatch run be jobs s = (rs, s')"
  shows "length rs = length jobs \<and> serial s (zip jobs rs) s'"
proof -
  obtain rs0 err ch s1 where b: "batch_body run (length jobs > 1) jobs
      (if be_begin_fails be then Some storage_error else None) 0 s = (rs0, err, ch, s1)"
    by (metis prod_cases4)
  have len: "length rs0 = length jobs" by (rule body_length [OF b])
  have "(\<exists>e. rs = failed_by e rs0 \<and> s' = s) \<or> rs = rs0 \<and> err = None \<and> s' = (if ch > 0 then s1 else s)"
    using assms b unfolding failed_by_def
    by (cases err) (auto simp: executeBatch_def Let_def split: if_splits)
  then show ?thesis
  proof
    assume "\<exists>e. rs = failed_by e rs0 \<and> s' = s"
    then show ?thesis using serial_failed_by len by (auto simp: failed_by_def)
  next
    assume *: "rs = rs0 \<and> err = None \<and> s' = (if ch > 0 then s1 else s)"
    with body_serial [of "length jobs > 1" jobs _ 0 s rs0 ch s1] b len show ?thesis
      by (auto split: if_splits)
  qed
qed

lemma batch_inv: "inv s \<Longrightarrow> executeBatch run be jobs s = (rs, s') \<Longrightarrow> inv s'"
  using batch_serial serial_inv by blast

text \<open>When every job is reported to have failed, nothing was committed.\<close>

lemma serial_no_success: "serial s rs s' \<Longrightarrow> \<forall>r \<in> set rs. \<exists>e. snd r = Inl e \<Longrightarrow> s' = s"
  by (induction rule: serial.induct) auto

end

interpretation message_batch: batched_job "\<lambda>j e s. persistMessageInTx C e s j" "\<lambda>s. hooks_frame C \<longrightarrow> db_ok s" for C
proof
  fix s j e m rep s'
  assume "hooks_frame C \<longrightarrow> db_ok s" "persistMessageInTx C e s j = Inr (m, rep, s')"
  then show "hooks_frame C \<longrightarrow> db_ok s'" by (blast intro: persist_db_ok)
next
  fix j e s s' m
  assume "persistMessageInTx C e s j = Inr (m, True, s')"
  then show "s' = s" by (cases rule: persist_cases) auto
qed

subsection \<open>The queue\<close>

text \<open>
  A queued element is a single message job, a group that \<open>submitGroup\<close> admitted as a whole, or a
  job with its own transaction (\<open>run\<close> instead of \<open>runTx\<close>). The counters are the atomics of the
  struct, without their wrap-around at 64 bits.
\<close>

datatype 'j entry = One 'j | Grp "'j list" | Alone 'j

record 'j writer =
  wr_cap :: nat
  wr_queue :: "'j entry list"
  wr_pending :: "'j entry option"
  wr_groupExtra :: int
  wr_closed :: bool
  wr_admitted :: nat
  wr_rejected :: nat
  wr_completed :: nat
  wr_batchCount :: nat
  wr_batchJobs :: nat
  wr_maxBatch :: nat

definition maxWriteBatch :: nat where
  "maxWriteBatch = 16"

definition maxWriteBatchBytes :: nat where
  "maxWriteBatchBytes = 8388608"

definition newMessageWriter :: "config \<Rightarrow> 'j writer" where
  "newMessageWriter cf =
     \<lparr>wr_cap = nat (min 256 (max 8 (cap_workers (cfg_capacity cf) * 4))), wr_queue = [], wr_pending = None,
      wr_groupExtra = 0, wr_closed = False, wr_admitted = 0, wr_rejected = 0, wr_completed = 0,
      wr_batchCount = 0, wr_batchJobs = 0, wr_maxBatch = 0\<rparr>"

text \<open>
  Admission, up to the wait for the result. The first argument says whether the request is
  already cancelled; \<open>tx\<close> whether the job has a transaction body.
\<close>

definition enqueue :: "bool \<Rightarrow> bool \<Rightarrow> 'j \<Rightarrow> 'j writer \<Rightarrow> go_error option \<times> 'j writer" where
  "enqueue cancelled tx j w =
     (if cancelled then (Some context_canceled, w)
      else if wr_closed w then (Some (APIError 503 ''writer stopping''), w)
      else if int (length (wr_queue w)) + wr_groupExtra w \<ge> int (wr_cap w)
      then (Some (APIError 503 ''writer queue full''), w\<lparr>wr_rejected := wr_rejected w + 1\<rparr>)
      else if length (wr_queue w) < wr_cap w
      then (None, w\<lparr>wr_queue := wr_queue w @ [if tx then One j else Alone j], wr_admitted := wr_admitted w + 1\<rparr>)
      else (Some (APIError 503 ''writer queue full''), w\<lparr>wr_rejected := wr_rejected w + 1\<rparr>))"

definition submitGroup ::
  "('j \<Rightarrow> nat) \<Rightarrow> bool \<Rightarrow> 'j list \<Rightarrow> 'j writer \<Rightarrow> go_error option \<times> 'j writer" where
  "submitGroup bytes cancelled js w =
     (if length js = 1 then enqueue cancelled True (hd js) w
      else if js = [] then (None, w)
      else if length js > maxWriteBatch then (Some (APIError 503 ''writer group too large''), w)
      else if length js > 1 \<and> sum_list (map bytes js) > maxWriteBatchBytes
      then (Some (APIError 503 ''writer group too large''), w)
      else if cancelled then (Some context_canceled, w)
      else if wr_closed w then (Some (APIError 503 ''writer stopping''), w)
      else if int (length (wr_queue w)) + wr_groupExtra w + int (length js) > int (wr_cap w)
      then (Some (APIError 503 ''writer queue full''), w\<lparr>wr_rejected := wr_rejected w + length js\<rparr>)
      else if length (wr_queue w) < wr_cap w
      then (None, w\<lparr>wr_queue := wr_queue w @ [Grp js], wr_groupExtra := wr_groupExtra w + int (length js) - 1,
                   wr_admitted := wr_admitted w + length js\<rparr>)
      else (Some (APIError 503 ''writer queue full''), w\<lparr>wr_rejected := wr_rejected w + length js\<rparr>))"

text \<open>The drain loop: what joins the batch, what is carried over, what stays queued.\<close>

fun drain ::
  "('j \<Rightarrow> nat) \<Rightarrow> nat \<Rightarrow> nat \<Rightarrow> 'j entry list \<Rightarrow> 'j list \<times> 'j entry option \<times> 'j entry list" where
  "drain bytes n used [] = ([], None, [])"
| "drain bytes n used (e # es) =
     (if n < maxWriteBatch \<and> used < maxWriteBatchBytes
      then (case e of
          One j \<Rightarrow>
            (if bytes j > maxWriteBatchBytes - used then ([], Some e, es)
             else case drain bytes (n + 1) (used + bytes j) es of
               (js, pending, rest) \<Rightarrow> (j # js, pending, rest))
        | _ \<Rightarrow> ([], Some e, es))
      else ([], None, e # es))"

text \<open>
  \<open>process\<close> picks the jobs of the next batch; the caller runs it. The result is the batch and
  the writer with its counters advanced.
\<close>

definition finished :: "bool \<Rightarrow> 'j list \<Rightarrow> 'j writer \<Rightarrow> 'j writer" where
  "finished batch js w =
     (if batch then w\<lparr>wr_batchCount := wr_batchCount w + 1, wr_batchJobs := wr_batchJobs w + length js,
        wr_maxBatch := max (wr_maxBatch w) (length js), wr_completed := wr_completed w + length js\<rparr>
      else w\<lparr>wr_completed := wr_completed w + length js\<rparr>)"

fun process :: "('j \<Rightarrow> nat) \<Rightarrow> 'j entry \<Rightarrow> 'j writer \<Rightarrow> 'j list \<times> 'j writer" where
  "process bytes (Grp js) w =
     (js, finished True js (w\<lparr>wr_groupExtra := wr_groupExtra w - (int (length js) - 1), wr_pending := None\<rparr>))"
| "process bytes (Alone j) w = ([j], finished False [j] (w\<lparr>wr_pending := None\<rparr>))"
| "process bytes (One j) w =
     (case drain bytes 1 (bytes j) (wr_queue w) of
        (js, pending, rest) \<Rightarrow>
          (j # js, finished True (j # js) (w\<lparr>wr_queue := rest, wr_pending := pending\<rparr>)))"

text \<open>One round of \<open>loop\<close>: the carried-over element first, then the queue; \<open>None\<close>: idle.\<close>

definition loop_round :: "('j \<Rightarrow> nat) \<Rightarrow> 'j writer \<Rightarrow> ('j list \<times> 'j writer) option" where
  "loop_round bytes w =
     (case wr_pending w of
        Some e \<Rightarrow> Some (process bytes e w)
      | None \<Rightarrow>
          (case wr_queue w of
             [] \<Rightarrow> None
           | e # es \<Rightarrow> Some (process bytes e (w\<lparr>wr_queue := es\<rparr>))))"

definition close_writer :: "'j writer \<Rightarrow> 'j writer" where
  "close_writer w = w\<lparr>wr_closed := True\<rparr>"

text \<open>The steps of the writer with its clients, and what they do: admit jobs, run a batch.\<close>

datatype 'j write_act = Admitted "'j list" | Refused go_error | Ran "'j list" | Closed

inductive writer_step :: "('j \<Rightarrow> nat) \<Rightarrow> 'j writer \<Rightarrow> 'j write_act \<Rightarrow> 'j writer \<Rightarrow> bool" for bytes where
  step_enqueue: "enqueue cancelled tx j w = (None, w') \<Longrightarrow> writer_step bytes w (Admitted [j]) w'"
| step_refuse: "enqueue cancelled tx j w = (Some e, w') \<Longrightarrow> writer_step bytes w (Refused e) w'"
| step_group: "submitGroup bytes cancelled js w = (None, w') \<Longrightarrow> writer_step bytes w (Admitted js) w'"
| step_group_refuse: "submitGroup bytes cancelled js w = (Some e, w') \<Longrightarrow> writer_step bytes w (Refused e) w'"
| step_run: "loop_round bytes w = Some (js, w') \<Longrightarrow> writer_step bytes w (Ran js) w'"
| step_close: "writer_step bytes w Closed (close_writer w)"

inductive writer_run :: "('j \<Rightarrow> nat) \<Rightarrow> 'j writer \<Rightarrow> 'j write_act list \<Rightarrow> 'j writer \<Rightarrow> bool" for bytes where
  run_done: "writer_run bytes w [] w"
| run_step: "writer_run bytes w acts w1 \<Longrightarrow> writer_step bytes w1 a w2 \<Longrightarrow> writer_run bytes w (acts @ [a]) w2"

subsection \<open>Invariants of the queue\<close>

fun entry_jobs :: "'j entry \<Rightarrow> 'j list" where
  "entry_jobs (One j) = [j]"
| "entry_jobs (Alone j) = [j]"
| "entry_jobs (Grp js) = js"

fun entry_extra :: "'j entry \<Rightarrow> int" where
  "entry_extra (Grp js) = int (length js) - 1"
| "entry_extra _ = 0"

definition pending_list :: "'j writer \<Rightarrow> 'j entry list" where
  "pending_list w = (case wr_pending w of None \<Rightarrow> [] | Some e \<Rightarrow> [e])"

definition waiting :: "'j writer \<Rightarrow> 'j list" where
  "waiting w = concat (map entry_jobs (pending_list w @ wr_queue w))"

fun entry_ok :: "('j \<Rightarrow> nat) \<Rightarrow> 'j entry \<Rightarrow> bool" where
  "entry_ok bytes (Grp js) \<longleftrightarrow> 2 \<le> length js \<and> length js \<le> maxWriteBatch \<and> sum_list (map bytes js) \<le> maxWriteBatchBytes"
| "entry_ok bytes _ \<longleftrightarrow> True"

definition writer_ok :: "('j \<Rightarrow> nat) \<Rightarrow> 'j writer \<Rightarrow> bool" where
  "writer_ok bytes w \<longleftrightarrow>
     wr_groupExtra w = sum_list (map entry_extra (pending_list w @ wr_queue w))
     \<and> int (length (wr_queue w)) + wr_groupExtra w \<le> int (wr_cap w)
     \<and> wr_admitted w = wr_completed w + length (waiting w)
     \<and> list_all (entry_ok bytes) (pending_list w @ wr_queue w)"

definition batch_ok :: "('j \<Rightarrow> nat) \<Rightarrow> 'j list \<Rightarrow> bool" where
  "batch_ok bytes js \<longleftrightarrow> 1 \<le> length js \<and> length js \<le> maxWriteBatch
     \<and> (length js > 1 \<longrightarrow> sum_list (map bytes js) \<le> maxWriteBatchBytes)"

lemma entry_extra_nonneg: "entry_ok bytes e \<Longrightarrow> 0 \<le> entry_extra e"
  by (cases e) auto

lemma extra_sum_nonneg: "list_all (entry_ok bytes) es \<Longrightarrow> 0 \<le> sum_list (map entry_extra es)"
  by (induction es) (auto dest: entry_extra_nonneg)

lemma new_writer_ok: "writer_ok bytes (newMessageWriter cf)"
  by (simp add: writer_ok_def newMessageWriter_def pending_list_def waiting_def)

lemma drain_split:
  "drain bytes n used es = (js, pending, rest) \<Longrightarrow>
    es = map One js @ (case pending of None \<Rightarrow> [] | Some e \<Rightarrow> [e]) @ rest
    \<and> (n \<le> maxWriteBatch \<longrightarrow> n + length js \<le> maxWriteBatch)
    \<and> (js \<noteq> [] \<longrightarrow> used + sum_list (map bytes js) \<le> maxWriteBatchBytes)"
proof (induction bytes n used es arbitrary: js rule: drain.induct)
  case (2 bytes n used e es)
  show ?case
  proof (cases "\<exists>j. e = One j \<and> n < maxWriteBatch \<and> used < maxWriteBatchBytes \<and> \<not> bytes j > maxWriteBatchBytes - used")
    case True
    then obtain j where j: "e = One j" "n < maxWriteBatch \<and> used < maxWriteBatchBytes" "\<not> bytes j > maxWriteBatchBytes - used"
      by blast
    obtain js' where d: "drain bytes (n + 1) (used + bytes j) es = (js', pending, rest)" and js: "js = j # js'"
      using "2.prems" j by (auto split: prod.splits)
    from "2.IH" [OF j(2) j(1) j(3) d] j js show ?thesis by (cases js') auto
  next
    case False
    with "2.prems" show ?thesis by (cases e) (auto split: if_splits)
  qed
qed auto

lemma process_spec:
  assumes "process bytes e w = (js, w')" "entry_ok bytes e"
  shows "batch_ok bytes js"
    and "wr_cap w' = wr_cap w" "wr_closed w' = wr_closed w" "wr_admitted w' = wr_admitted w"
    and "wr_completed w' = wr_completed w + length js"
    and "entry_jobs e @ concat (map entry_jobs (wr_queue w)) = js @ waiting w'"
    and "length (wr_queue w') \<le> length (wr_queue w)"
    and "wr_groupExtra w' = wr_groupExtra w - entry_extra e"
    and "list_all (entry_ok bytes) (wr_queue w) \<Longrightarrow> list_all (entry_ok bytes) (pending_list w' @ wr_queue w')"
    and "sum_list (map entry_extra (pending_list w' @ wr_queue w')) = sum_list (map entry_extra (wr_queue w))"
proof -
  have *: "batch_ok bytes js \<and> wr_cap w' = wr_cap w \<and> wr_closed w' = wr_closed w \<and> wr_admitted w' = wr_admitted w
    \<and> wr_completed w' = wr_completed w + length js
    \<and> entry_jobs e @ concat (map entry_jobs (wr_queue w)) = js @ waiting w'
    \<and> length (wr_queue w') \<le> length (wr_queue w) \<and> wr_groupExtra w' = wr_groupExtra w - entry_extra e
    \<and> (list_all (entry_ok bytes) (wr_queue w) \<longrightarrow> list_all (entry_ok bytes) (pending_list w' @ wr_queue w'))
    \<and> sum_list (map entry_extra (pending_list w' @ wr_queue w')) = sum_list (map entry_extra (wr_queue w))"
  proof (cases e)
    case (One j)
    obtain ks pending rest where d: "drain bytes 1 (bytes j) (wr_queue w) = (ks, pending, rest)"
      by (metis prod_cases3)
    have one: "concat (map (entry_jobs \<circ> One) ks) = ks" "sum_list (map (entry_extra \<circ> One) ks) = 0"
      by (induction ks) auto
    have "1 \<le> maxWriteBatch" by (simp add: maxWriteBatch_def)
    with drain_split [OF d] assms One d one show ?thesis
      by (cases pending) (auto simp: finished_def waiting_def pending_list_def batch_ok_def list_all_iff)
  qed (use assms in \<open>auto simp: finished_def waiting_def pending_list_def batch_ok_def maxWriteBatch_def\<close>)
  show "batch_ok bytes js"
    and "wr_cap w' = wr_cap w" "wr_closed w' = wr_closed w" "wr_admitted w' = wr_admitted w"
    and "wr_completed w' = wr_completed w + length js"
    and "entry_jobs e @ concat (map entry_jobs (wr_queue w)) = js @ waiting w'"
    and "length (wr_queue w') \<le> length (wr_queue w)"
    and "wr_groupExtra w' = wr_groupExtra w - entry_extra e"
    and "list_all (entry_ok bytes) (wr_queue w) \<Longrightarrow> list_all (entry_ok bytes) (pending_list w' @ wr_queue w')"
    and "sum_list (map entry_extra (pending_list w' @ wr_queue w')) = sum_list (map entry_extra (wr_queue w))"
    using * by blast+
qed

lemma enqueue_admitted:
  "enqueue c tx j w = (None, w') \<Longrightarrow> \<not> wr_closed w \<and> w' = w\<lparr>wr_queue := wr_queue w @ [if tx then One j else Alone j],
     wr_admitted := wr_admitted w + 1\<rparr> \<and> int (length (wr_queue w)) + wr_groupExtra w < int (wr_cap w)"
  by (auto simp: enqueue_def split: if_splits)

lemma submitGroup_admitted:
  "submitGroup bytes c js w = (None, w') \<Longrightarrow> length js \<noteq> 1 \<Longrightarrow> js \<noteq> [] \<Longrightarrow>
    \<not> wr_closed w \<and> length js \<le> maxWriteBatch \<and> sum_list (map bytes js) \<le> maxWriteBatchBytes
    \<and> int (length (wr_queue w)) + wr_groupExtra w + int (length js) \<le> int (wr_cap w)
    \<and> w' = w\<lparr>wr_queue := wr_queue w @ [Grp js], wr_groupExtra := wr_groupExtra w + int (length js) - 1,
         wr_admitted := wr_admitted w + length js\<rparr>"
  by (cases js) (auto simp: submitGroup_def split: if_splits)

lemma entry_jobs_length: "entry_ok bytes e \<Longrightarrow> int (length (entry_jobs e)) = 1 + entry_extra e \<and> entry_jobs e \<noteq> []"
  by (cases e) auto

lemma queue_jobs_length:
  "list_all (entry_ok bytes) es \<Longrightarrow>
    int (length (concat (map entry_jobs es))) = int (length es) + sum_list (map entry_extra es)"
  by (induction es) (auto dest: entry_jobs_length)

lemma enqueue_ok: "writer_ok bytes w \<Longrightarrow> enqueue c tx j w = (r, w') \<Longrightarrow> writer_ok bytes w'"
  by (auto simp: enqueue_def writer_ok_def pending_list_def waiting_def split: if_splits)

lemma submitGroup_ok: "writer_ok bytes w \<Longrightarrow> submitGroup bytes c js w = (r, w') \<Longrightarrow> writer_ok bytes w'"
proof (cases "length js = 1")
  case True
  then show "writer_ok bytes w \<Longrightarrow> submitGroup bytes c js w = (r, w') \<Longrightarrow> ?thesis"
    by (auto simp: submitGroup_def intro: enqueue_ok)
next
  case False
  assume ok: "writer_ok bytes w" and sg: "submitGroup bytes c js w = (r, w')"
  show ?thesis
  proof (cases "r = None \<and> js \<noteq> []")
    case True
    with sg have "submitGroup bytes c js w = (None, w')" by simp
    from submitGroup_admitted [OF this False] True have
      "\<not> wr_closed w \<and> length js \<le> maxWriteBatch \<and> sum_list (map bytes js) \<le> maxWriteBatchBytes
       \<and> int (length (wr_queue w)) + wr_groupExtra w + int (length js) \<le> int (wr_cap w)
       \<and> w' = w\<lparr>wr_queue := wr_queue w @ [Grp js], wr_groupExtra := wr_groupExtra w + int (length js) - 1,
         wr_admitted := wr_admitted w + length js\<rparr>" by simp
    moreover have "2 \<le> length js" using False True by (cases js; cases "tl js") auto
    ultimately show ?thesis using ok
      by (auto simp: writer_ok_def pending_list_def waiting_def)
  next
    case no: False
    with ok sg False show ?thesis
      by (auto simp: submitGroup_def writer_ok_def pending_list_def waiting_def split: if_splits)
  qed
qed

lemma loop_round_Some:
  assumes "writer_ok bytes w" "loop_round bytes w = Some (js, w')"
  obtains e w0 where "process bytes e w0 = (js, w')" "entry_ok bytes e" "waiting w = entry_jobs e @ concat (map entry_jobs (wr_queue w0))"
    "wr_cap w0 = wr_cap w" "wr_closed w0 = wr_closed w" "wr_admitted w0 = wr_admitted w" "wr_completed w0 = wr_completed w"
    "wr_groupExtra w0 = wr_groupExtra w" "list_all (entry_ok bytes) (wr_queue w0)"
    "sum_list (map entry_extra (pending_list w @ wr_queue w)) = entry_extra e + sum_list (map entry_extra (wr_queue w0))"
    "length (wr_queue w0) \<le> length (wr_queue w)"
proof (cases "wr_pending w")
  case (Some e)
  with assms show ?thesis
    by (intro that [of e w]) (auto simp: loop_round_def waiting_def pending_list_def writer_ok_def)
next
  case None
  with assms(2) obtain e es where q: "wr_queue w = e # es" and p: "process bytes e (w\<lparr>wr_queue := es\<rparr>) = (js, w')"
    by (auto simp: loop_round_def split: list.splits)
  with None assms(1) show ?thesis
    by (intro that [of e "w\<lparr>wr_queue := es\<rparr>"]) (auto simp: waiting_def pending_list_def writer_ok_def)
qed

lemma loop_round_ok:
  assumes ok: "writer_ok bytes w" and r: "loop_round bytes w = Some (js, w')"
  shows "writer_ok bytes w' \<and> batch_ok bytes js \<and> waiting w = js @ waiting w'
    \<and> wr_completed w' = wr_completed w + length js \<and> wr_admitted w' = wr_admitted w \<and> wr_closed w' = wr_closed w
    \<and> wr_cap w' = wr_cap w"
  using ok r
proof (rule loop_round_Some)
  fix e w0
  assume p: "process bytes e w0 = (js, w')" and e: "entry_ok bytes e"
    and w0: "waiting w = entry_jobs e @ concat (map entry_jobs (wr_queue w0))"
    "wr_cap w0 = wr_cap w" "wr_closed w0 = wr_closed w" "wr_admitted w0 = wr_admitted w" "wr_completed w0 = wr_completed w"
    "wr_groupExtra w0 = wr_groupExtra w" "list_all (entry_ok bytes) (wr_queue w0)"
    "sum_list (map entry_extra (pending_list w @ wr_queue w)) = entry_extra e + sum_list (map entry_extra (wr_queue w0))"
    "length (wr_queue w0) \<le> length (wr_queue w)"
  note P = process_spec [OF p e]
  have split: "waiting w = js @ waiting w'" using P(6) w0(1) by simp
  have "writer_ok bytes w'" unfolding writer_ok_def
  proof (intro conjI)
    show "wr_groupExtra w' = sum_list (map entry_extra (pending_list w' @ wr_queue w'))"
      using P(8,10) w0(6,8) ok by (simp add: writer_ok_def)
    have "0 \<le> entry_extra e" by (rule entry_extra_nonneg [OF e])
    then show "int (length (wr_queue w')) + wr_groupExtra w' \<le> int (wr_cap w')"
      using P(2,7,8) w0(2,6,9) ok by (simp add: writer_ok_def)
    show "wr_admitted w' = wr_completed w' + length (waiting w')"
      using P(4,5) w0(4,5) ok split by (simp add: writer_ok_def)
    show "list_all (entry_ok bytes) (pending_list w' @ wr_queue w')" using P(9) w0(7) by blast
  qed
  with P(1-5) split w0 show ?thesis by simp
qed

lemma waiting_bound: "writer_ok bytes w \<Longrightarrow> length (waiting w) \<le> wr_cap w + 1"
proof -
  assume ok: "writer_ok bytes w"
  then have "int (length (waiting w)) = int (length (pending_list w @ wr_queue w)) + wr_groupExtra w"
    unfolding waiting_def writer_ok_def by (subst queue_jobs_length [of bytes]) auto
  moreover have "length (pending_list w) \<le> 1" by (simp add: pending_list_def split: option.split)
  ultimately show ?thesis using ok by (auto simp: writer_ok_def)
qed

lemma idle_iff: "writer_ok bytes w \<Longrightarrow> loop_round bytes w = None \<longleftrightarrow> waiting w = []"
  by (auto simp: writer_ok_def loop_round_def waiting_def pending_list_def
      dest: entry_jobs_length split: option.splits list.splits)

definition admitted_jobs :: "'j write_act list \<Rightarrow> 'j list" where
  "admitted_jobs acts = concat (map (\<lambda>a. case a of Admitted js \<Rightarrow> js | _ \<Rightarrow> []) acts)"

definition ran_jobs :: "'j write_act list \<Rightarrow> 'j list" where
  "ran_jobs acts = concat (map (\<lambda>a. case a of Ran js \<Rightarrow> js | _ \<Rightarrow> []) acts)"

lemma writer_step_ok:
  assumes "writer_step bytes w a w'" "writer_ok bytes w"
  shows "writer_ok bytes w' \<and> (case a of Ran js \<Rightarrow> batch_ok bytes js | _ \<Rightarrow> True)
    \<and> waiting w @ admitted_jobs [a] = ran_jobs [a] @ waiting w' \<and> wr_cap w' = wr_cap w
    \<and> (wr_closed w \<longrightarrow> admitted_jobs [a] = [] \<and> wr_closed w')"
  using assms
proof cases
  case (step_enqueue cancelled tx j)
  with assms(2) enqueue_ok enqueue_admitted [OF step_enqueue(2)] show ?thesis
    by (auto simp: admitted_jobs_def ran_jobs_def waiting_def pending_list_def)
next
  case (step_refuse cancelled tx j e)
  then have "waiting w' = waiting w \<and> wr_cap w' = wr_cap w \<and> wr_closed w' = wr_closed w"
    by (auto simp: enqueue_def waiting_def pending_list_def split: if_splits)
  with step_refuse assms(2) enqueue_ok show ?thesis by (auto simp: admitted_jobs_def ran_jobs_def)
next
  case (step_group cancelled js)
  have ok: "writer_ok bytes w'" by (rule submitGroup_ok [OF assms(2) step_group(2)])
  show ?thesis
  proof (cases "length js \<ge> 2")
    case True
    then have "length js \<noteq> 1" "js \<noteq> []" by auto
    from submitGroup_admitted [OF step_group(2) this] ok step_group(1) show ?thesis
      by (auto simp: admitted_jobs_def ran_jobs_def waiting_def pending_list_def)
  next
    case False
    then consider "js = []" | j where "js = [j]" by (cases js; cases "tl js") auto
    then show ?thesis
    proof cases
      case 1
      with step_group ok show ?thesis
        by (auto simp: submitGroup_def admitted_jobs_def ran_jobs_def)
    next
      case (2 j)
      with step_group have "enqueue cancelled True j w = (None, w')" by (simp add: submitGroup_def)
      with enqueue_admitted [OF this] ok 2 step_group(1) show ?thesis
        by (auto simp: admitted_jobs_def ran_jobs_def waiting_def pending_list_def)
    qed
  qed
next
  case (step_group_refuse cancelled js e)
  have "waiting w' = waiting w \<and> wr_cap w' = wr_cap w \<and> wr_closed w' = wr_closed w"
    using step_group_refuse(2)
    by (auto simp: submitGroup_def enqueue_def waiting_def pending_list_def split: if_splits)
  with step_group_refuse submitGroup_ok [OF assms(2)] show ?thesis by (auto simp: admitted_jobs_def ran_jobs_def)
next
  case (step_run js)
  with loop_round_ok [OF assms(2) step_run(2)] show ?thesis by (simp add: admitted_jobs_def ran_jobs_def)
next
  case step_close
  with assms(2) show ?thesis
    by (auto simp: close_writer_def writer_ok_def admitted_jobs_def ran_jobs_def waiting_def pending_list_def)
qed

lemma jobs_append [simp]:
  "admitted_jobs (as @ bs) = admitted_jobs as @ admitted_jobs bs"
  "ran_jobs (as @ bs) = ran_jobs as @ ran_jobs bs"
  "admitted_jobs [] = []" "ran_jobs [] = []"
  by (simp_all add: admitted_jobs_def ran_jobs_def)

text \<open>Jobs run in the order of their admission, in well-sized batches, and none is lost.\<close>

lemma writer_run_fifo:
  assumes "writer_run bytes w acts w'" "writer_ok bytes w"
  shows "writer_ok bytes w' \<and> waiting w @ admitted_jobs acts = ran_jobs acts @ waiting w'
    \<and> (\<forall>js. Ran js \<in> set acts \<longrightarrow> batch_ok bytes js) \<and> wr_cap w' = wr_cap w"
  using assms
proof (induction rule: writer_run.induct)
  case (run_step w acts w1 a w2)
  then have IH: "writer_ok bytes w1" "waiting w @ admitted_jobs acts = ran_jobs acts @ waiting w1"
    "\<forall>js. Ran js \<in> set acts \<longrightarrow> batch_ok bytes js" "wr_cap w1 = wr_cap w" by auto
  from writer_step_ok [OF run_step.hyps(2) IH(1)] IH show ?case by (auto simp flip: append_assoc) (simp add: append_assoc)
qed simp

text \<open>After \<open>close\<close> the loop drains the queue: nothing is admitted and every job is completed.\<close>

fun drain_rounds :: "('j \<Rightarrow> nat) \<Rightarrow> nat \<Rightarrow> 'j writer \<Rightarrow> 'j writer" where
  "drain_rounds bytes 0 w = w"
| "drain_rounds bytes (Suc n) w =
     (case loop_round bytes w of None \<Rightarrow> w | Some (js, w') \<Rightarrow> drain_rounds bytes n w')"

lemma drain_rounds_idle:
  "writer_ok bytes w \<Longrightarrow> length (waiting w) \<le> n \<Longrightarrow>
    loop_round bytes (drain_rounds bytes n w) = None
    \<and> wr_completed (drain_rounds bytes n w) = wr_admitted w \<and> wr_admitted (drain_rounds bytes n w) = wr_admitted w"
proof (induction n arbitrary: w)
  case 0
  with idle_iff [OF 0(1)] show ?case by (auto simp: writer_ok_def)
next
  case (Suc n)
  show ?case
  proof (cases "loop_round bytes w")
    case None
    with idle_iff [OF Suc.prems(1)] Suc.prems(1) show ?thesis by (auto simp: writer_ok_def)
  next
    case (Some p)
    obtain js w1 where p: "p = (js, w1)" by (cases p)
    from loop_round_ok [OF Suc.prems(1) Some [unfolded p]]
    have w1: "writer_ok bytes w1" "waiting w = js @ waiting w1" "batch_ok bytes js" "wr_admitted w1 = wr_admitted w" by auto
    then have "length (waiting w1) \<le> n" using Suc.prems(2) by (simp add: batch_ok_def)
    with Suc.IH [OF w1(1)] Some p w1 show ?thesis by simp
  qed
qed

end
