(* ===== verification/Sending.thy ===== *)
theory Sending
  imports Writer
begin

text \<open>
  The request handlers of \<open>messages.go\<close> that send: \<open>sendMessage\<close> with \<open>submitPrepared\<close>, the \<open>send\<close>
  route and the \<open>batch\<close> route, which groups new jobs and flushes a group before it would hold an
  operation twice. Then: what one device sends, another reads.
\<close>

subsection \<open>Submitting prepared jobs\<close>

text \<open>What a submission meets: a refusal by the queue, or the environment of its batch.\<close>

record submit_env =
  se_refused :: "go_error option"
  se_batch :: batch_env
  se_jobs :: "nat \<Rightarrow> job_env"

definition submitPrepared ::
  "'z core \<Rightarrow> submit_env \<Rightarrow> write_job list \<Rightarrow> 'z db_scheme \<Rightarrow> (go_error + message \<times> bool) list \<times> 'z db_scheme" where
  "submitPrepared C se jobs s =
     (case se_refused se of
        Some e \<Rightarrow> (map (\<lambda>_. Inl e) jobs, s)
      | None \<Rightarrow> executeBatch (\<lambda>j e s. persistMessageInTx C e s j) (se_batch se)
                  (zip jobs (map (se_jobs se) [0..<length jobs])) s)"

definition sendMessage ::
  "'z core \<Rightarrow> env \<Rightarrow> submit_env \<Rightarrow> env \<Rightarrow> 'z db_scheme \<Rightarrow> identity \<Rightarrow> ident \<Rightarrow> message_input \<Rightarrow> bool \<Rightarrow>
    (go_error + message) \<times> effect list \<times> 'z db_scheme" where
  "sendMessage C env se env2 s who chat inp minimal =
     (case prepareMessage C env s who chat inp of
        Inl e \<Rightarrow> (Inl e, [], s)
      | Inr (Saved saved) \<Rightarrow> (sendResult C env2 s who saved minimal True, [], s)
      | Inr (Job j) \<Rightarrow>
          (case submitPrepared C se [j] s of
             (results, s') \<Rightarrow>
               (case results ! 0 of
                  Inl e \<Rightarrow> (Inl e, [], s')
                | Inr (m, repeated) \<Rightarrow>
                    (sendResult C env2 s' who m minimal repeated,
                     if repeated then [] else [Wake chat], s'))))"

datatype send_body = MessageBody message | ReceiptBody "ident \<times> ident \<times> string \<times> int"

definition send ::
  "'z core \<Rightarrow> env \<Rightarrow> submit_env \<Rightarrow> env \<Rightarrow> 'z db_scheme \<Rightarrow> message_input body \<Rightarrow> bool \<Rightarrow> identity \<Rightarrow> ident \<Rightarrow>
    (send_body, 'z db_scheme) outcome" where
  "send C env se env2 s b minimal who chat =
     (case Decode b of
        Inl m \<Rightarrow> Error 400 m s
      | Inr inp \<Rightarrow>
          (case sendMessage C env se env2 s who chat inp minimal of
             (Inl e, es, s') \<Rightarrow> (case statusError e s' of (r, _, _) \<Rightarrow> (r, es, s'))
           | (Inr m, es, s') \<Rightarrow>
               (Reply 201 (if minimal then ReceiptBody (acceptanceReceipt m) else MessageBody m), es, s')))"

subsection \<open>Batch requests\<close>

text \<open>The local variables of \<open>batch\<close>; \<open>bs_flushes\<close> counts the submissions made.\<close>

record 'z batch_state =
  bs_results :: "(go_error + message \<times> bool) list"
  bs_jobs :: "(write_job \<times> nat) list"
  bs_bytes :: nat
  bs_pending :: "string list"
  bs_flushes :: nat
  bs_effects :: "effect list"
  bs_db :: "'z db_scheme"

fun store_results ::
  "(go_error + message \<times> bool) list \<Rightarrow> nat list \<Rightarrow> (go_error + message \<times> bool) list \<Rightarrow> (go_error + message \<times> bool) list" where
  "store_results (r # rs) (i # ix) out = store_results rs ix (out[i := r])"
| "store_results _ _ out = out"

definition flush_batch :: "'z core \<Rightarrow> (nat \<Rightarrow> submit_env) \<Rightarrow> ident \<Rightarrow> 'z batch_state \<Rightarrow> 'z batch_state" where
  "flush_batch C se chat st =
     (if bs_jobs st = [] then st
      else case submitPrepared C (se (bs_flushes st)) (map fst (bs_jobs st)) (bs_db st) of
        (committed, s') \<Rightarrow>
          st\<lparr>bs_results := store_results committed (map snd (bs_jobs st)) (bs_results st),
             bs_effects := bs_effects st @ concat (map (\<lambda>r. case r of Inr (m, False) \<Rightarrow> [Wake chat] | _ \<Rightarrow> []) committed),
             bs_jobs := [], bs_bytes := 0, bs_pending := [], bs_flushes := bs_flushes st + 1, bs_db := s'\<rparr>)"

definition batch_item ::
  "'z core \<Rightarrow> (nat \<Rightarrow> env) \<Rightarrow> (nat \<Rightarrow> submit_env) \<Rightarrow> nat \<Rightarrow> identity \<Rightarrow> ident \<Rightarrow> nat \<Rightarrow> message_input \<Rightarrow>
    'z batch_state \<Rightarrow> 'z batch_state" where
  "batch_item C envs se groupLimit who chat i item st0 =
     (let st = (if in_operation item \<in> set (bs_pending st0) then flush_batch C se chat st0 else st0) in
      case prepareMessage C (envs i) (bs_db st) who chat item of
        Inl e \<Rightarrow> st\<lparr>bs_results := (bs_results st)[i := Inl e]\<rparr>
      | Inr (Saved m) \<Rightarrow> st\<lparr>bs_results := (bs_results st)[i := Inr (m, True)]\<rparr>
      | Inr (Job j) \<Rightarrow>
          (let st2 = (if length (bs_jobs st) = groupLimit
                        \<or> (bs_jobs st \<noteq> [] \<and> bs_bytes st + j_bytes j > maxWriteBatchBytes)
                      then flush_batch C se chat st else st) in
           st2\<lparr>bs_jobs := bs_jobs st2 @ [(j, i)], bs_bytes := bs_bytes st2 + j_bytes j,
               bs_pending := in_operation item # bs_pending st2\<rparr>))"

fun batch_items ::
  "'z core \<Rightarrow> (nat \<Rightarrow> env) \<Rightarrow> (nat \<Rightarrow> submit_env) \<Rightarrow> nat \<Rightarrow> identity \<Rightarrow> ident \<Rightarrow> nat \<Rightarrow> message_input list \<Rightarrow>
    'z batch_state \<Rightarrow> 'z batch_state" where
  "batch_items C envs se gl who chat i [] st = st"
| "batch_items C envs se gl who chat i (item # items) st =
     batch_items C envs se gl who chat (Suc i) items (batch_item C envs se gl who chat i item st)"

text \<open>The response entry of one item: its operation, its status and the body or error text.\<close>

definition error_text :: "go_error \<Rightarrow> string" where
  "error_text e = (case e of APIError _ m \<Rightarrow> m | OtherError m \<Rightarrow> m)"

definition batch_entry ::
  "'z core \<Rightarrow> env \<Rightarrow> 'z db_scheme \<Rightarrow> identity \<Rightarrow> bool \<Rightarrow> message_input \<Rightarrow> go_error + message \<times> bool \<Rightarrow>
    string \<times> nat \<times> (string + send_body)" where
  "batch_entry C env s who minimal item r =
     (case (case r of Inl e \<Rightarrow> Inl e | Inr (m, repeated) \<Rightarrow> sendResult C env s who m minimal repeated) of
        Inl e \<Rightarrow> (in_operation item, case e of APIError code _ \<Rightarrow> code | OtherError _ \<Rightarrow> 503, Inl (error_text e))
      | Inr m \<Rightarrow> (in_operation item, 201,
          Inr (if minimal then ReceiptBody (acceptanceReceipt m) else MessageBody m)))"

definition batch ::
  "'z core \<Rightarrow> nat \<Rightarrow> (nat \<Rightarrow> env) \<Rightarrow> (nat \<Rightarrow> submit_env) \<Rightarrow> (nat \<Rightarrow> env) \<Rightarrow> 'z db_scheme \<Rightarrow> message_input list body \<Rightarrow>
    bool \<Rightarrow> identity \<Rightarrow> ident \<Rightarrow> ((string \<times> nat \<times> (string + send_body)) list, 'z db_scheme) outcome" where
  "batch C cap envs se renvs s b minimal who chat =
     (case Decode b of
        Inl m \<Rightarrow> Error 400 m s
      | Inr items \<Rightarrow>
          (if items = [] \<or> int (length items) > pol_max_batch (policy C) then Error 400 ''invalid batch size'' s
           else let st0 = \<lparr>bs_results = replicate (length items) (Inr (empty_message, False)), bs_jobs = [],
                          bs_bytes = 0, bs_pending = [], bs_flushes = 0, bs_effects = [], bs_db = s\<rparr>;
                    st = flush_batch C se chat
                           (batch_items C envs se (min maxWriteBatch cap) who chat 0 items st0)
                in (Reply 207 (map (\<lambda>(i, item, r). batch_entry C (renvs i) (bs_db st) who minimal item r)
                      (zip [0..<length items] (zip items (bs_results st)))),
                    bs_effects st, bs_db st)))"

subsection \<open>The store stays intact\<close>

lemma submitPrepared_serial:
  assumes "submitPrepared C se jobs s = (rs, s')"
  shows "length rs = length jobs"
    and "message_batch.serial C s (zip (zip jobs (map (se_jobs se) [0..<length jobs])) rs) s'"
proof -
  have "length rs = length jobs
      \<and> message_batch.serial C s (zip (zip jobs (map (se_jobs se) [0..<length jobs])) rs) s'"
  proof (cases "se_refused se")
    case None
    with assms message_batch.batch_serial [of C "se_batch se" "zip jobs (map (se_jobs se) [0..<length jobs])" s rs s']
    show ?thesis by (simp add: submitPrepared_def)
  next
    case (Some e)
    with assms have "rs = map (\<lambda>_. Inl e) jobs" "s' = s" by (auto simp: submitPrepared_def)
    then show ?thesis
      by (auto intro!: message_batch.serial_all_failed dest!: set_zip_rightD)
  qed
  then show "length rs = length jobs"
    "message_batch.serial C s (zip (zip jobs (map (se_jobs se) [0..<length jobs])) rs) s'" by auto
qed

lemma submitPrepared_db_ok:
  "db_ok s \<Longrightarrow> hooks_frame C \<Longrightarrow> submitPrepared C se jobs s = (rs, s') \<Longrightarrow> db_ok s'"
  using submitPrepared_serial(2) message_batch.serial_inv by blast

lemma sendMessage_db_ok:
  "db_ok s \<Longrightarrow> hooks_frame C \<Longrightarrow> sendMessage C env se env2 s who chat inp minimal = (r, es, s') \<Longrightarrow> db_ok s'"
  by (auto simp: sendMessage_def intro: submitPrepared_db_ok split: sum.splits prepared.splits prod.splits)

lemma send_db_ok:
  assumes "db_ok s" "hooks_frame C" "send C env se env2 s b minimal who chat = (r, es, s')"
  shows "db_ok s'"
  using assms
  by (auto simp: send_def split: sum.splits prod.splits intro: sendMessage_db_ok)

text \<open>
  The groups of a batch request: at most the limit of jobs, no operation twice, and as many
  pending marks as jobs.
\<close>

definition group_ok :: "nat \<Rightarrow> 'z batch_state \<Rightarrow> bool" where
  "group_ok gl st \<longleftrightarrow> length (bs_jobs st) \<le> gl
     \<and> rev (bs_pending st) = map (in_operation \<circ> j_input \<circ> fst) (bs_jobs st) \<and> distinct (bs_pending st)
     \<and> bs_bytes st = sum_list (map (j_bytes \<circ> fst) (bs_jobs st))
     \<and> (length (bs_jobs st) > 1 \<longrightarrow> bs_bytes st \<le> maxWriteBatchBytes)"

definition prepare_frame :: "'z core \<Rightarrow> bool" where
  "prepare_frame C \<longleftrightarrow> (\<forall>h \<in> set (prepare_hooks C). \<forall>env s who chat inp inp'. h env s who chat inp = Inr inp' \<longrightarrow>
     in_operation inp' = in_operation inp)"

lemma run_prepare_frame:
  "\<forall>h \<in> set hs. \<forall>env s who chat inp inp'. h env s who chat inp = Inr inp' \<longrightarrow> in_operation inp' = in_operation inp \<Longrightarrow>
    run_prepare hs base k i env s who chat inp = Inr inp' \<Longrightarrow> in_operation inp' = in_operation inp"
proof (induction hs arbitrary: i inp)
  case (Cons h hs)
  from Cons.prems(2) obtain inp1 where "h (hook_env base k i env) s who chat inp = Inr inp1"
    "run_prepare hs base k (Suc i) env s who chat inp1 = Inr inp'"
    by (auto split: sum.splits)
  with Cons show ?case by (metis list.set_intros)
qed auto

lemma flush_batch_fields:
  "bs_jobs st \<noteq> [] \<Longrightarrow> bs_jobs (flush_batch C se chat st) = [] \<and> bs_pending (flush_batch C se chat st) = []
    \<and> bs_bytes (flush_batch C se chat st) = 0"
  by (auto simp: flush_batch_def split: prod.splits)

lemma flush_group_ok: "group_ok gl st \<Longrightarrow> group_ok gl (flush_batch C se chat st) \<and> bs_jobs (flush_batch C se chat st) = []
    \<and> bs_pending (flush_batch C se chat st) = [] \<and> bs_bytes (flush_batch C se chat st) = 0"
  using flush_batch_fields [of st C se chat]
  by (cases "bs_jobs st = []") (auto simp: group_ok_def flush_batch_def)

lemma flush_db_ok:
  assumes "hooks_frame C" "db_ok (bs_db st)"
  shows "db_ok (bs_db (flush_batch C se chat st))"
  using assms by (auto simp: flush_batch_def split: prod.splits intro: submitPrepared_db_ok)

lemma prepare_Job_operation:
  assumes "prepare_frame C" "prepareMessage C env s who chat inp = Inr (Job j)"
  shows "in_operation (j_input j) = in_operation inp"
  using assms(2)
proof (rule prepare_Job)
  fix inp1 inp2
  assume a: "open_payload C who chat inp (j_mode j) (j_epoch j) = Inr inp1"
    "run_prepare (prepare_hooks C) 2 (length (prepare_hooks C)) 0 env s who chat inp1 = Inr inp2"
    "j = build_job C env who chat inp2 (j_mode j) (j_epoch j) (operation_hash (prim C) chat inp)"
  have "in_operation inp1 = in_operation inp"
    using a(1) by (auto simp: open_payload_def split: if_splits option.splits sum.splits)
  moreover have "in_operation inp2 = in_operation inp1"
    using run_prepare_frame [OF _ a(2)] assms(1) by (auto simp: prepare_frame_def)
  moreover have "in_operation (j_input j) = in_operation inp2"
    by (subst a(3)) (simp add: build_job_def Let_def)
  ultimately show ?thesis by simp
qed

lemma batch_item_ok:
  assumes "prepare_frame C" "hooks_frame C" "0 < gl" "group_ok gl st" "db_ok (bs_db st)"
  shows "group_ok gl (batch_item C envs se gl who chat i item st) \<and> db_ok (bs_db (batch_item C envs se gl who chat i item st))
    \<and> length (bs_results (batch_item C envs se gl who chat i item st)) = length (bs_results st)"
proof -
  have store_len: "length (store_results rs ix out) = length out" for rs ix out
    by (induction rs ix out rule: store_results.induct) auto
  then have flush_len: "length (bs_results (flush_batch C se chat t)) = length (bs_results t)" for t
    by (simp add: flush_batch_def split: prod.splits)
  define st1 where "st1 = (if in_operation item \<in> set (bs_pending st) then flush_batch C se chat st else st)"
  have 1: "group_ok gl st1" "db_ok (bs_db st1)" "length (bs_results st1) = length (bs_results st)"
    "in_operation item \<notin> set (bs_pending st1)"
    using assms flush_group_ok [OF assms(4), of C se chat] flush_db_ok [OF assms(2,5)] flush_len
    by (auto simp: st1_def)
  show ?thesis
  proof (cases "\<exists>j. prepareMessage C (envs i) (bs_db st1) who chat item = Inr (Job j)")
    case False
    with 1 show ?thesis
      by (auto simp: batch_item_def st1_def [symmetric] Let_def group_ok_def split: sum.splits prepared.splits)
  next
    case True
    then obtain j where j: "prepareMessage C (envs i) (bs_db st1) who chat item = Inr (Job j)" ..
    have opj: "in_operation (j_input j) = in_operation item"
      by (rule prepare_Job_operation [OF assms(1) j])
    define full where "full \<longleftrightarrow> length (bs_jobs st1) = gl \<or> (bs_jobs st1 \<noteq> [] \<and> bs_bytes st1 + j_bytes j > maxWriteBatchBytes)"
    define st2 where "st2 = (if full then flush_batch C se chat st1 else st1)"
    have 2: "group_ok gl st2" "db_ok (bs_db st2)" "length (bs_results st2) = length (bs_results st)"
      "in_operation item \<notin> set (bs_pending st2)" "length (bs_jobs st2) < gl"
      "bs_jobs st2 \<noteq> [] \<Longrightarrow> bs_bytes st2 + j_bytes j \<le> maxWriteBatchBytes"
      using 1 assms(3) flush_group_ok [OF 1(1), of C se chat] flush_db_ok [OF assms(2) 1(2)] flush_len
      by (auto simp: st2_def full_def group_ok_def)
    have "batch_item C envs se gl who chat i item st = st2\<lparr>bs_jobs := bs_jobs st2 @ [(j, i)],
        bs_bytes := bs_bytes st2 + j_bytes j, bs_pending := in_operation item # bs_pending st2\<rparr>"
      by (simp add: batch_item_def st1_def [symmetric] j Let_def st2_def full_def)
    with 2 opj show ?thesis by (auto simp: group_ok_def)
  qed
qed

lemma batch_items_ok:
  assumes "prepare_frame C" "hooks_frame C" "0 < gl" "group_ok gl st" "db_ok (bs_db st)"
  shows "group_ok gl (batch_items C envs se gl who chat i items st) \<and> db_ok (bs_db (batch_items C envs se gl who chat i items st))
    \<and> length (bs_results (batch_items C envs se gl who chat i items st)) = length (bs_results st)"
  using assms(4,5)
proof (induction items arbitrary: i st)
  case (Cons item items)
  from batch_item_ok [OF assms(1-3) Cons.prems, of envs se who chat i item]
    Cons.IH [of "batch_item C envs se gl who chat i item st" "Suc i"] show ?case by simp
qed simp

lemma batch_db_ok:
  assumes "prepare_frame C" "hooks_frame C" "0 < cap" "db_ok s"
    "batch C cap envs se renvs s b minimal who chat = (r, es, s')"
  shows "db_ok s' \<and> (\<forall>code entries. r = Reply code entries \<longrightarrow> (\<exists>items. b = Body items
    \<and> map fst entries = map in_operation items))"
proof (cases b)
  case (Body items)
  define st0 where "st0 = \<lparr>bs_results = replicate (length items) (Inr (empty_message, False)), bs_jobs = [],
     bs_bytes = 0, bs_pending = [], bs_flushes = 0, bs_effects = [], bs_db = s\<rparr>"
  define st where "st = flush_batch C se chat (batch_items C envs se (min maxWriteBatch cap) who chat 0 items st0)"
  have "group_ok (min maxWriteBatch cap) st0" "db_ok (bs_db st0)" "0 < min maxWriteBatch cap"
    using assms(3,4) by (auto simp: st0_def group_ok_def maxWriteBatch_def)
  from batch_items_ok [OF assms(1,2) this(3,1,2), of envs se who chat 0 items] flush_db_ok [OF assms(2)]
  have ok: "db_ok (bs_db st)" by (simp add: st_def)
  have "batch C cap envs se renvs s b minimal who chat =
    (if items = [] \<or> int (length items) > pol_max_batch (policy C) then Error 400 ''invalid batch size'' s
     else (Reply 207 (map (\<lambda>(i, item, r). batch_entry C (renvs i) (bs_db st) who minimal item r)
       (zip [0..<length items] (zip items (bs_results st)))), bs_effects st, bs_db st))"
    by (simp add: batch_def Body Let_def st_def st0_def)
  note eq = assms(5) [unfolded this]
  have fst_entry: "fst (batch_entry C e s2 who minimal item r) = in_operation item" for e s2 item r
    by (auto simp: batch_entry_def split: sum.splits)
  have len: "length (bs_results st) = length items"
  proof -
    have store_len: "length (store_results rs ix out) = length out" for rs ix out
      by (induction rs ix out rule: store_results.induct) auto
    then have flush_len: "length (bs_results (flush_batch C se chat t)) = length (bs_results t)" for t
      by (simp add: flush_batch_def split: prod.splits)
    from batch_items_ok [OF assms(1,2) \<open>0 < min maxWriteBatch cap\<close> \<open>group_ok _ st0\<close> \<open>db_ok (bs_db st0)\<close>,
        of envs se who chat 0 items] show ?thesis
      by (simp add: st_def flush_len) (simp add: st0_def)
  qed
  have "map (\<lambda>x. fst (case x of (i, item, r) \<Rightarrow> batch_entry C (renvs i) (bs_db st) who minimal item r))
      (zip [0..<length items] (zip items (bs_results st))) = map in_operation items"
    using len by (intro nth_equalityI) (auto simp: fst_entry)
  with eq ok assms(4) Body show ?thesis by (auto simp: o_def split: if_splits)
qed (use assms in \<open>auto simp: batch_def\<close>)

subsection \<open>What is sent is what is read\<close>

text \<open>
  HPKE correctness at one key pair: the private key opens what was sealed to its public key, for
  the same associated data.
\<close>

definition hpke_opens :: "prims \<Rightarrow> bytes \<Rightarrow> bytes \<Rightarrow> bool" where
  "hpke_opens P sk pk \<longleftrightarrow> (\<forall>info r p a enc ct. p_hpke_seal P pk info r p a = Some (enc, ct) \<longrightarrow>
     p_hpke_open P sk info enc ct a = Some p)"

lemma SealEnvelope_Inr:
  assumes "SealEnvelope P pk r plain a = Inr envl" "hpke_opens P sk pk"
  shows "\<exists>enc ct. b64_decode (env_enc envl) = Some enc \<and> b64_decode (env_ciphertext envl) = Some ct
    \<and> p_hpke_open P sk hpkeInfo enc ct a = Some plain"
  using assms by (auto simp: SealEnvelope_def hpke_opens_def b64_decode_def split: if_splits option.splits)

lemma message_rows_single:
  assumes "(st, key) \<in> set (message_rows s who [mid])"
  obtains g c m d where "g \<in> set (messages s)" "g_id g = mid" "c \<in> set (chats s)" "c_id c = g_chat g"
    "st = stored_of g c" "key = d_public_key d" "reader_of s who (g_chat g) m d" "m_joined m \<le> g_seq g"
proof -
  from assms [unfolded message_rows_def] obtain g c m d u where *: "g \<in> set (messages s)" "g_id g \<in> set [mid]"
    "c \<in> set (chats s)" "c_id c = g_chat g" "m \<in> set (members s)" "m_chat m = g_chat g" "m_user m = user_id who"
    "m_active m" "m_joined m \<le> g_seq g" "d \<in> set (devices s)" "d_user d = m_user m" "d_id d = device_id who"
    "\<not> d_revoked d" "u \<in> set (users s)" "u_id u = m_user m" "\<not> u_disabled u" "st = stored_of g c" "key = d_public_key d"
    by (elim join_E join_ifE conjE)
      (rule that, (assumption | simp only: list.set insert_iff empty_iff prod.inject simp_thms)+)
  then have "reader_of s who (g_chat g) m d" by (auto simp: reader_of_def)
  with * that show ?thesis by simp
qed

text \<open>What a successful view consists of.\<close>

lemma ViewMessage_Inr:
  assumes pf: "project_frame C" and v: "ViewMessage C env s who mid = Inr v"
  obtains g c m d where "g \<in> set (messages s)" "g_id g = mid" "c \<in> set (chats s)" "c_id c = g_chat g"
    "reader_of s who (g_chat g) m d" "m_joined m \<le> g_seq g" "msg_id v = mid" "msg_chat v = g_chat g"
    "msg_seq v = g_seq g" "msg_sender v = g_sender g" "msg_mode v = c_mode c" "g_deleted g \<longrightarrow> msg_deleted v"
    "\<not> msg_deleted v \<Longrightarrow> \<exists>plain. Open (prim C) (eng C) (g_payload g) (''message/'' @ mid) = Inr plain
      \<and> (if c_mode c = ''basic''
         then \<exists>pk envl. b64_decode (d_public_key d) = Some pk \<and> msg_envelope v = Some envl
           \<and> SealEnvelope (prim C) pk (draws env 0) plain
               (Binding (g_chat g) (user_id who) (device_id who) mid) = Inr envl
         else msg_mls v = b64_encode plain)"
proof -
  let ?rows = "message_rows s who [mid]"
  from v obtain ms where ms: "projectMessages C env s who [mid] = Inr ms" "v = ms ! 0"
    by (auto simp: ViewMessage_def split: sum.splits)
  then have "length ?rows = 1"
    and p: "projectStoredMessages C env 1 s who (map fst ?rows) (scanned_key (map snd ?rows)) = Inr ms"
    by (auto simp: projectMessages_def Let_def split: if_splits)
  then obtain st key where rows: "?rows = [(st, key)]" by (cases ?rows) auto
  from p rows have "project_items C env 1 1 0 s who key [st] = Inr ms"
    by (simp add: projectStoredMessages_def scanned_key_def)
  then have it: "project_item C env 1 1 0 s who key st = Inr v"
    using project_items_Inr [of C env 1 1 0 s who key "[st]" ms] ms(2) by simp
  have "(st, key) \<in> set ?rows" by (simp add: rows)
  then show ?thesis
  proof (rule message_rows_single)
    fix g c m d
    assume *: "g \<in> set (messages s)" "g_id g = mid" "c \<in> set (chats s)" "c_id c = g_chat g"
      "st = stored_of g c" "key = d_public_key d" "reader_of s who (g_chat g) m d" "m_joined m \<le> g_seq g"
    note P = project_item_Inr [OF pf it]
    show ?thesis
      by (rule that [OF *(1-4,7,8)]) (use P *(2,5,6) in \<open>auto simp: stored_of_def\<close>)
  qed
qed

lemma build_job_fields [simp]:
  "j_who (build_job C env who chat inp mode epoch hash) = who"
  "j_chat (build_job C env who chat inp mode epoch hash) = chat"
  "j_hash (build_job C env who chat inp mode epoch hash) = hash"
  "j_message (build_job C env who chat inp mode epoch hash) = uuid env"
  by (simp_all add: build_job_def Let_def)

lemma prepare_Job_fields:
  "prepareMessage C env s who chat inp = Inr (Job j) \<Longrightarrow>
    j_who j = who \<and> j_chat j = chat \<and> j_hash j = operation_hash (prim C) chat inp \<and> j_message j = uuid env"
  by (erule prepare_Job) (metis build_job_fields)

lemma prepared_payload:
  assumes "prepareMessage C env s who chat inp = Inr (Job j)" "j_mode j = ''basic''" "prepare_hooks_ok C" "db_ok s"
  obtains e plain where "in_envelope inp = Some e"
    "OpenEnvelope (prim C) (eng C) e (Binding chat (user_id who) (device_id who) (in_operation inp)) = Inr plain"
    "j_stored j = Seal (prim C) (eng C) (nonce env) plain (''message/'' @ j_message j)" "plain \<noteq> []"
  using assms(1)
proof (rule prepare_Job)
  fix inp1 inp2
  assume a: "open_payload C who chat inp (j_mode j) (j_epoch j) = Inr inp1"
    "run_prepare (prepare_hooks C) 2 (length (prepare_hooks C)) 0 env s who chat inp1 = Inr inp2"
    "in_payload inp2 \<noteq> []"
    "j = build_job C env who chat inp2 (j_mode j) (j_epoch j) (operation_hash (prim C) chat inp)"
    and mode: "send_permission s who chat = Some (j_mode j, j_epoch j, False, True)"
  have "c_mode c = ''basic''" if "c \<in> set (chats s)" "c_id c = chat" for c
    using send_permission_mode [OF mode keys_ok_chats [OF assms(4)] that] assms(2) by simp
  then have "inp2 = inp1"
    using assms(3) by (intro run_prepare_basic [OF _ _ a(2)]) (auto simp: prepare_hooks_ok_def)
  have "j_stored j = Seal (prim C) (eng C) (nonce env) (in_payload inp2) (''message/'' @ j_message j)"
    by (subst (1 2) a(4)) (simp add: build_job_def Let_def)
  with a(1,3) \<open>inp2 = inp1\<close> assms(2) show ?thesis
    by (auto simp: open_payload_def intro: that split: option.splits if_splits sum.splits)
qed

lemma sent_is_read:
  assumes ok: "db_ok s" and fr: "hooks_frame C" "project_frame C" "prepare_hooks_ok C" and ok0: "db_ok s0"
    and prep: "prepareMessage C env s0 who chat inp = Inr (Job j)" "j_mode j = ''basic''"
    and pers: "persistMessageInTx C env1 s j = Inr (m, False, s')"
    and view: "ViewMessage C env2 s' reader (msg_id m) = Inr v" "\<not> msg_deleted v" "msg_mode v = ''basic''"
    and gcm: "gcm_opens (prim C) (eng_aead (eng C))"
    and hpke: "\<And>d pk. d \<in> set (devices s') \<Longrightarrow> d_id d = device_id reader \<Longrightarrow> b64_decode (d_public_key d) = Some pk \<Longrightarrow>
      hpke_opens (prim C) sk pk"
  shows "\<exists>e plain envl enc ct. in_envelope inp = Some e
    \<and> OpenEnvelope (prim C) (eng C) e (Binding chat (user_id who) (device_id who) (in_operation inp)) = Inr plain
    \<and> msg_envelope v = Some envl \<and> b64_decode (env_enc envl) = Some enc \<and> b64_decode (env_ciphertext envl) = Some ct
    \<and> p_hpke_open (prim C) sk hpkeInfo enc ct
        (Binding chat (user_id reader) (device_id reader) (msg_id m)) = Some plain"
proof -
  from prep fr(3) ok0 obtain e plain where e: "in_envelope inp = Some e"
    "OpenEnvelope (prim C) (eng C) e (Binding chat (user_id who) (device_id who) (in_operation inp)) = Inr plain"
    and st: "j_stored j = Seal (prim C) (eng C) (nonce env) plain (''message/'' @ j_message j)"
    by (rule prepared_payload)
  note F = persist_fresh [OF ok fr(1) pers]
  have jc: "j_chat j = chat" using prepare_Job_fields [OF prep(1)] by simp
  have mid: "msg_id m = j_message j" by (subst F(5)) (simp add: job_message_def)
  have ok': "db_ok s'" by (rule persist_db_ok [OF ok fr(1) pers])
  from fr(2) view(1) show ?thesis
  proof (rule ViewMessage_Inr)
    fix g c mm d
    assume g: "g \<in> set (messages s')" "g_id g = msg_id m" and r: "reader_of s' reader (g_chat g) mm d"
      and mode: "msg_mode v = c_mode c"
      and content: "\<not> msg_deleted v \<Longrightarrow> \<exists>plain. Open (prim C) (eng C) (g_payload g) (''message/'' @ msg_id m) = Inr plain
      \<and> (if c_mode c = ''basic''
         then \<exists>pk envl. b64_decode (d_public_key d) = Some pk \<and> msg_envelope v = Some envl
           \<and> SealEnvelope (prim C) pk (draws env2 0) plain
               (Binding (g_chat g) (user_id reader) (device_id reader) (msg_id m)) = Inr envl
         else msg_mls v = b64_encode plain)"
    have "job_row j (now env1) (msg_seq m) \<in> set (messages s')" by (simp add: F(3))
    with g mid have gj: "g = job_row j (now env1) (msg_seq m)"
      by (intro unique_on_eqD [OF db_ok_uniques(5) [OF ok']]) (auto simp: job_row_def)
    have "Open (prim C) (eng C) (g_payload g) (''message/'' @ msg_id m) = Inr plain"
      using Open_Seal [OF gcm] by (simp add: gj job_row_def st mid)
    with content view(2,3) mode obtain pk envl where pk: "b64_decode (d_public_key d) = Some pk"
      "msg_envelope v = Some envl" "SealEnvelope (prim C) pk (draws env2 0) plain
               (Binding (g_chat g) (user_id reader) (device_id reader) (msg_id m)) = Inr envl" by auto
    have "g_chat g = chat" by (simp add: gj job_row_def jc)
    with SealEnvelope_Inr [OF pk(3) hpke [OF _ _ pk(1)]] r pk e show ?thesis
      by (auto simp: reader_of_def)
  qed
qed

end
