(* ===== verification/Mutations.thy ===== *)
theory Mutations
  imports Sending
begin

text \<open>
  The message mutations of \<open>internal/modules\<close>: the shared transaction \<open>mutate\<close> (\<open>mutations.go\<close>),
  edits, deletions and reactions with their hooks, the reply and forward checks inside a send's
  transaction, and the groups route. Their tables extend the core tables.
\<close>

record reaction_row =
  r_message :: ident
  r_user :: ident
  r_type :: int

record mod_db = db +
  hidden_messages :: "(ident \<times> ident) list"
  reactions :: "reaction_row list"

definition r_key :: "'a reaction_row_scheme \<Rightarrow> ident \<times> ident \<times> int" where
  "r_key r = (r_message r, r_user r, r_type r)"

record mutation_input =
  mi_operation :: string
  mi_expected :: int
  mi_message :: message_input
  mi_type :: int
  mi_remove :: bool

definition marshal_mutation :: "mutation_input \<Rightarrow> string" where
  "marshal_mutation inp = json_object
     [json_member ''operation_id'' (json_string (mi_operation inp)),
      json_member ''expected_revision'' (dec_int (mi_expected inp)),
      json_member ''message'' (marshal_input (mi_message inp)),
      json_member ''type'' (dec_int (mi_type inp)), json_member ''remove'' (json_bool (mi_remove inp))]"

definition mutation_hash :: "prims \<Rightarrow> string \<Rightarrow> ident \<Rightarrow> ident \<Rightarrow> mutation_input \<Rightarrow> string" where
  "mutation_hash P action chat message inp =
     hex_encode (p_sha256 P (action @ ''/'' @ chat @ ''/'' @ message @ [chr 0] @ marshal_mutation inp))"

subsection \<open>The shared transaction\<close>

definition mutation_target ::
  "'z db_scheme \<Rightarrow> identity \<Rightarrow> ident \<Rightarrow> ident \<Rightarrow> (ident \<times> int \<times> bool \<times> string) option" where
  "mutation_target s who chat mid =
     query_row [(g_sender g, g_revision g, g_deleted g, m_role m).
       g \<leftarrow> messages s, g_id g = mid \<and> g_chat g = chat,
       m \<leftarrow> members s, m_chat m = g_chat g \<and> m_user m = user_id who \<and> m_active m \<and> m_joined m \<le> g_seq g,
       d \<leftarrow> devices s, d_user d = m_user m \<and> d_id d = device_id who \<and> \<not> d_revoked d,
       u \<leftarrow> users s, u_id u = m_user m \<and> \<not> u_disabled u]"

text \<open>
  Statements: begin, deduplication, target, the insert of the operation, commit, then those of
  the body \<open>fn\<close>.
\<close>

definition mutate ::
  "'z core \<Rightarrow> env \<Rightarrow> 'z db_scheme \<Rightarrow> identity \<Rightarrow> string \<Rightarrow> ident \<Rightarrow> ident \<Rightarrow> mutation_input \<Rightarrow>
    (env \<Rightarrow> 'z db_scheme \<Rightarrow> ident \<Rightarrow> int \<Rightarrow> bool \<Rightarrow> go_error + 'z db_scheme) \<Rightarrow> (bool, 'z db_scheme) outcome" where
  "mutate C env s who action chat mid inp fn =
     (if mi_operation inp = [] \<or> length (mi_operation inp) > 128 then Error 400 ''operation_id required'' s
      else let hash = mutation_hash (prim C) action chat mid inp in
        if flt env 0 then Error 503 ''storage unavailable'' s
        else if flt env 1 then Error 503 ''storage unavailable'' s
        else case get_row o_key (device_id who, mi_operation inp) (operations s) of
          Some r \<Rightarrow> (if o_hash r \<noteq> hash then Error 409 ''operation conflict'' s else (Reply 200 True, [], s))
        | None \<Rightarrow>
            (case (if flt env 2 then None else mutation_target s who chat mid) of
               None \<Rightarrow> Error 404 ''message inaccessible'' s
             | Some (sender, revision, deleted, role) \<Rightarrow>
                 (if action \<noteq> ''reaction'' \<and> sender \<noteq> user_id who
                     \<and> \<not> (action = ''delete'' \<and> (role = ''owner'' \<or> role = ''admin'')
                          \<and> pol_delete_mode (policy C) = ''global'')
                  then Error 403 ''operation denied'' s
                  else if action = ''edit'' \<and> (deleted \<or> revision \<noteq> mi_expected inp)
                  then Error 409 ''message deleted or revision conflict'' s
                  else case fn (hook_env 5 1 0 env) s sender revision deleted of
                    Inl _ \<Rightarrow> Error 409 ''mutation rejected'' s
                  | Inr s1 \<Rightarrow>
                      (if flt env 3 then Error 503 ''storage unavailable'' s
                       else case insert_row o_key \<lparr>o_device = device_id who, o_operation = mi_operation inp,
                              o_hash = hash, o_result = SavedId mid, o_created = now env\<rparr> (operations s1) of
                         None \<Rightarrow> Error 503 ''storage unavailable'' s
                       | Some os \<Rightarrow>
                           (if flt env 4 then Error 503 ''storage unavailable'' s
                            else (Reply 200 True, [Wake chat], s1\<lparr>operations := os\<rparr>))))))"

subsection \<open>Edit\<close>

definition edit_body ::
  "'z core \<Rightarrow> identity \<Rightarrow> ident \<Rightarrow> ident \<Rightarrow> mutation_input \<Rightarrow> int \<Rightarrow>
    env \<Rightarrow> 'z db_scheme \<Rightarrow> ident \<Rightarrow> int \<Rightarrow> bool \<Rightarrow> go_error + 'z db_scheme" where
  "edit_body C who chat mid inp epoch env s sender revision deleted =
     (if flt env 0 then Inl (OtherError ''storage'')
      else case query_row [(c_epoch c, c_pending c, m_can_send m). c \<leftarrow> chats s, c_id c = chat,
               m \<leftarrow> members s, m_chat m = c_id c \<and> m_user m = user_id who \<and> m_active m] of
        None \<Rightarrow> Inl (OtherError ''sql: no rows in result set'')
      | Some (currentEpoch, currentPending, canSend) \<Rightarrow>
          (if \<not> canSend \<or> currentPending \<or> epoch \<noteq> currentEpoch
           then Inl (APIError 409 ''permission or epoch changed'')
           else let payload = Seal (prim C) (eng C) (nonce env) (in_payload (mi_message inp)) (''message/'' @ mid) in
             if flt env 1 then Inl (OtherError ''storage'')
             else let s1 = s\<lparr>messages := update_rows (\<lambda>g. g_id g = mid)
                        (\<lambda>g. g\<lparr>g_payload := payload, g_revision := g_revision g + 1, g_epoch := currentEpoch,
                           g_device := device_id who, g_operation := mi_operation inp\<rparr>) (messages s)\<rparr> in
               map_sum id snd (Append C (shift_env 2 env) s1 chat ''message.edited'' mid None)))"

text \<open>The checks of the route outside the transaction: the changed input and the epoch seen.\<close>

definition edit_payload ::
  "'z core \<Rightarrow> identity \<Rightarrow> ident \<Rightarrow> string \<Rightarrow> string \<Rightarrow> message_input \<Rightarrow> (nat \<times> string) + message_input" where
  "edit_payload C who chat mode operation inp =
     (if mode = ''basic''
      then (case in_envelope inp of
          None \<Rightarrow> Inl (400, ''encrypted envelope required'')
        | Some e \<Rightarrow>
            (case OpenEnvelope (prim C) (eng C) e (Binding chat (user_id who) (device_id who) operation) of
               Inl _ \<Rightarrow> Inl (400, ''invalid envelope'')
             | Inr p \<Rightarrow> Inr (inp\<lparr>in_payload := p\<rparr>)))
      else Inr inp)"

definition edit_input ::
  "'z core \<Rightarrow> env \<Rightarrow> 'z db_scheme \<Rightarrow> mutation_input \<Rightarrow> identity \<Rightarrow> ident \<Rightarrow> (nat \<times> string) + message_input \<times> int" where
  "edit_input C env s inp0 who chat =
     (if flt env 0 then Inl (404, ''chat not found'')
      else case get_row c_id chat (chats s) of
        None \<Rightarrow> Inl (404, ''chat not found'')
      | Some c \<Rightarrow>
          (if c_pending c then Inl (409, ''epoch transition pending'')
           else case edit_payload C who chat (c_mode c) (mi_operation inp0)
                       ((mi_message inp0)\<lparr>in_operation := mi_operation inp0\<rparr>) of
             Inl e \<Rightarrow> Inl e
           | Inr inp2 \<Rightarrow>
               (case run_prepare (prepare_hooks C) 1 (length (prepare_hooks C)) 0 env s who chat inp2 of
                  Inl _ \<Rightarrow> Inl (400, ''invalid replacement'')
                | Inr inp3 \<Rightarrow>
                    (if length (in_payload inp3) = 0
                       \<or> int (length (in_payload inp3)) > pol_max_message_bytes (policy C)
                     then Inl (400, ''invalid payload size'')
                     else if in_reply_to inp3 \<noteq> [] \<or> in_forward_from inp3 \<noteq> []
                       \<or> length (attachments_of (in_attachments inp3)) > 0
                     then Inl (400, ''edit changes text payload only'')
                     else Inr (inp3, c_epoch c)))))"

text \<open>The route: the checks draw from \<open>env\<close>, the mutation from \<open>env2\<close>.\<close>

definition edit ::
  "'z core \<Rightarrow> env \<Rightarrow> env \<Rightarrow> 'z db_scheme \<Rightarrow> mutation_input body \<Rightarrow> identity \<Rightarrow> ident \<Rightarrow> ident \<Rightarrow> (bool, 'z db_scheme) outcome" where
  "edit C env env2 s b who chat mid =
     (case Decode b of
        Inl m \<Rightarrow> Error 400 m s
      | Inr inp0 \<Rightarrow>
          (case edit_input C env s inp0 who chat of
             Inl (code, m) \<Rightarrow> Error code m s
           | Inr (inp3, epoch) \<Rightarrow>
               (let inp = inp0\<lparr>mi_message := inp3\<rparr> in
                mutate C env2 s who ''edit'' chat mid inp (edit_body C who chat mid inp epoch))))"

subsection \<open>Delete\<close>

fun run_delete ::
  "(env \<Rightarrow> 'z db_scheme \<Rightarrow> ident \<Rightarrow> go_error + 'z db_scheme) list \<Rightarrow> nat \<Rightarrow> nat \<Rightarrow> nat \<Rightarrow>
    env \<Rightarrow> 'z db_scheme \<Rightarrow> ident \<Rightarrow> go_error + 'z db_scheme" where
  "run_delete [] base k i env s mid = Inr s"
| "run_delete (h # hs) base k i env s mid =
     (case h (hook_env base k i env) s mid of
        Inl e \<Rightarrow> Inl e
      | Inr s' \<Rightarrow> run_delete hs base k (Suc i) env s' mid)"

definition delete_body ::
  "'w mod_db_ext core \<Rightarrow> identity \<Rightarrow> ident \<Rightarrow> ident \<Rightarrow>
    env \<Rightarrow> 'w mod_db_scheme \<Rightarrow> ident \<Rightarrow> int \<Rightarrow> bool \<Rightarrow> go_error + 'w mod_db_scheme" where
  "delete_body C who chat mid env s sender revision deleted =
     (if pol_delete_mode (policy C) = ''author_only''
      then (if flt env 0 then Inl (OtherError ''storage'')
            else map_sum id snd (Append C (shift_env 1 env)
                   (s\<lparr>hidden_messages := insert_ignore id (mid, user_id who) (hidden_messages s)\<rparr>)
                   chat ''message.hidden'' mid None))
      else if deleted then Inr s
      else if flt env 0 then Inl (OtherError ''storage'')
      else let s1 = s\<lparr>messages := update_rows (\<lambda>g. g_id g = mid)
                (\<lambda>g. g\<lparr>g_deleted := True, g_payload := [], g_metadata := empty_metadata,
                   g_revision := g_revision g + 1\<rparr>) (messages s)\<rparr> in
        case run_delete (delete_hooks C) 3 (length (delete_hooks C)) 0 env s1 mid of
          Inl e \<Rightarrow> Inl e
        | Inr s2 \<Rightarrow> map_sum id snd (Append C (shift_env 1 env) s2 chat ''message.deleted'' mid None))"

definition delete ::
  "'w mod_db_ext core \<Rightarrow> env \<Rightarrow> 'w mod_db_scheme \<Rightarrow> mutation_input body \<Rightarrow> identity \<Rightarrow> ident \<Rightarrow> ident \<Rightarrow>
    (bool, 'w mod_db_scheme) outcome" where
  "delete C env s b who chat mid =
     (case Decode b of
        Inl m \<Rightarrow> Error 400 m s
      | Inr inp \<Rightarrow> mutate C env s who ''delete'' chat mid inp (delete_body C who chat mid))"

definition delete_project_hook :: "env \<Rightarrow> 'w mod_db_scheme \<Rightarrow> identity \<Rightarrow> message \<Rightarrow> go_error + message" where
  "delete_project_hook env s who m =
     (if flt env 0 then Inl (OtherError ''storage'')
      else Inr (if (msg_id m, user_id who) \<in> set (hidden_messages s) then m\<lparr>msg_deleted := True\<rparr> else m))"

subsection \<open>Reactions\<close>

definition reactions_delete_hook :: "env \<Rightarrow> 'w mod_db_scheme \<Rightarrow> ident \<Rightarrow> go_error + 'w mod_db_scheme" where
  "reactions_delete_hook env s mid =
     (if flt env 0 then Inl (OtherError ''storage'')
      else Inr (s\<lparr>reactions := delete_rows (\<lambda>r. r_message r = mid) (reactions s)\<rparr>))"

text \<open>\<open>SELECT ... ORDER BY type,user_id\<close>.\<close>

definition reactions_of :: "'w mod_db_scheme \<Rightarrow> ident \<Rightarrow> reaction list" where
  "reactions_of s mid = map (\<lambda>r. \<lparr>rea_type = r_type r, rea_user = r_user r\<rparr>)
     (sort_key (\<lambda>r. (r_type r, r_user r)) (filter (\<lambda>r. r_message r = mid) (reactions s)))"

definition reactions_project_hook :: "env \<Rightarrow> 'w mod_db_scheme \<Rightarrow> identity \<Rightarrow> message \<Rightarrow> go_error + message" where
  "reactions_project_hook env s who m =
     (if msg_deleted m then Inr m
      else if flt env 0 \<or> flt env 1 then Inl (OtherError ''storage'')
      else Inr (m\<lparr>msg_reactions := msg_reactions m @ reactions_of s (msg_id m)\<rparr>))"

definition listReactions ::
  "'w mod_db_ext core \<Rightarrow> env \<Rightarrow> env \<Rightarrow> 'w mod_db_scheme \<Rightarrow> identity \<Rightarrow> ident \<Rightarrow> ident \<Rightarrow>
    (reaction list, 'w mod_db_scheme) outcome" where
  "listReactions C env env2 s who chat mid =
     (case ViewMessage C env s who mid of
        Inl _ \<Rightarrow> Error 404 ''message inaccessible'' s
      | Inr m \<Rightarrow>
          (if msg_chat m \<noteq> chat \<or> msg_deleted m then Error 404 ''message inaccessible'' s
           else if flt env2 0 \<or> flt env2 1 then Error 503 ''storage unavailable'' s
           else (Reply 200 (reactions_of s mid), [], s)))"

definition reaction_body ::
  "'w mod_db_ext core \<Rightarrow> identity \<Rightarrow> ident \<Rightarrow> ident \<Rightarrow> mutation_input \<Rightarrow>
    env \<Rightarrow> 'w mod_db_scheme \<Rightarrow> ident \<Rightarrow> int \<Rightarrow> bool \<Rightarrow> go_error + 'w mod_db_scheme" where
  "reaction_body C who chat mid inp env s sender revision deleted =
     (if deleted then Inl (APIError 409 ''message deleted'')
      else if flt env 0 then Inl (OtherError ''storage'')
      else let row = \<lparr>r_message = mid, r_user = user_id who, r_type = mi_type inp\<rparr>;
               s1 = (if mi_remove inp
                     then s\<lparr>reactions := delete_rows (\<lambda>r. r_key r = r_key row) (reactions s)\<rparr>
                     else s\<lparr>reactions := insert_ignore r_key row (reactions s)\<rparr>)
           in map_sum id snd (Append C (shift_env 1 env) s1 chat ''reaction.updated'' mid None))"

definition react ::
  "'w mod_db_ext core \<Rightarrow> env \<Rightarrow> 'w mod_db_scheme \<Rightarrow> mutation_input body \<Rightarrow> identity \<Rightarrow> ident \<Rightarrow> ident \<Rightarrow>
    (bool, 'w mod_db_scheme) outcome" where
  "react C env s b who chat mid =
     (case Decode b of
        Inl m \<Rightarrow> Error 400 m s
      | Inr inp \<Rightarrow>
          (if mi_type inp < 0 \<or> mi_type inp \<ge> int (length (pol_reaction_types (policy C)))
           then Error 400 ''unknown reaction type'' s
           else mutate C env s who ''reaction'' chat mid inp (reaction_body C who chat mid inp)))"

subsection \<open>Reply and forward\<close>

definition reply_hook :: "env \<Rightarrow> 'z db_scheme \<Rightarrow> identity \<Rightarrow> ident \<Rightarrow> message \<Rightarrow> go_error + 'z db_scheme" where
  "reply_hook env s who chat m =
     (if msg_reply_to m = [] then Inr s
      else if flt env 0 then Inl (OtherError ''storage'')
      else if \<not> (\<exists>g \<in> set (messages s). \<exists>mm \<in> set (members s). m_chat mm = g_chat g \<and> g_id g = msg_reply_to m
               \<and> g_chat g = chat \<and> \<not> g_deleted g \<and> m_user mm = user_id who \<and> m_active mm \<and> m_joined mm \<le> g_seq g)
      then Inl (APIError 400 ''reply target inaccessible'')
      else Inr s)"

definition forward_hook :: "env \<Rightarrow> 'z db_scheme \<Rightarrow> identity \<Rightarrow> ident \<Rightarrow> message \<Rightarrow> go_error + 'z db_scheme" where
  "forward_hook env s who chat m =
     (if msg_forward_from m = [] then Inr s
      else if flt env 0 then Inl (OtherError ''storage'')
      else if \<not> (\<exists>g \<in> set (messages s). \<exists>mm \<in> set (members s). m_chat mm = g_chat g \<and> g_id g = msg_forward_from m
               \<and> \<not> g_deleted g \<and> m_user mm = user_id who \<and> m_active mm \<and> m_joined mm \<le> g_seq g)
      then Inl (APIError 403 ''forward source inaccessible'')
      else Inr s)"

interpretation reply_tx: tx_hook reply_hook
  by unfold_locales (auto simp: reply_hook_def split: if_splits)

interpretation forward_tx: tx_hook forward_hook
  by unfold_locales (auto simp: forward_hook_def split: if_splits)

interpretation delete_projection: project_hook delete_project_hook
proof
  fix env and s :: "'w mod_db_scheme" and who m m'
  assume "delete_project_hook env s who m = Inr m'"
  then show "\<exists>rs del. m' = m\<lparr>msg_reactions := rs, msg_deleted := del\<rparr> \<and> (msg_deleted m \<longrightarrow> del)"
    by (intro exI [of _ "msg_reactions m"] exI [of _ "msg_deleted m'"])
      (auto simp: delete_project_hook_def split: if_splits)
qed

interpretation reactions_projection: project_hook reactions_project_hook
proof
  fix env and s :: "'w mod_db_scheme" and who m m'
  assume "reactions_project_hook env s who m = Inr m'"
  then show "\<exists>rs del. m' = m\<lparr>msg_reactions := rs, msg_deleted := del\<rparr> \<and> (msg_deleted m \<longrightarrow> del)"
    by (intro exI [of _ "msg_reactions m'"] exI [of _ "msg_deleted m"])
      (auto simp: reactions_project_hook_def split: if_splits)
qed

definition createGroup ::
  "'z core \<Rightarrow> env \<Rightarrow> 'z db_scheme \<Rightarrow> chat_input body \<Rightarrow> (ident \<times> string \<times> string \<times> bool, 'z db_scheme) outcome" where
  "createGroup C env s b = CreateChat C env s b ''group''"

subsection \<open>The shared transaction, case by case\<close>

lemma mutation_target_Some:
  assumes "mutation_target s who chat mid = Some (sender, revision, deleted, role)"
  obtains g m d where "g \<in> set (messages s)" "g_id g = mid" "g_chat g = chat" "g_sender g = sender"
    "g_revision g = revision" "g_deleted g = deleted" "reader_of s who chat m d" "m_joined m \<le> g_seq g" "m_role m = role"
proof -
  from query_row_SomeD [OF assms [unfolded mutation_target_def]]
  obtain g m d u where "g \<in> set (messages s)" "g_id g = mid" "g_chat g = chat" "m \<in> set (members s)"
    "m_chat m = g_chat g" "m_user m = user_id who" "m_active m" "m_joined m \<le> g_seq g" "d \<in> set (devices s)"
    "d_user d = m_user m" "d_id d = device_id who" "\<not> d_revoked d" "u \<in> set (users s)" "u_id u = m_user m"
    "\<not> u_disabled u" "sender = g_sender g" "revision = g_revision g" "deleted = g_deleted g" "role = m_role m"
    by (elim join_E join_ifE conjE)
      (rule that, (assumption | simp only: list.set insert_iff empty_iff prod.inject simp_thms)+)
  then show ?thesis by (intro that [of g m d]) (auto simp: reader_of_def)
qed

definition mutation_allowed :: "policy_cfg \<Rightarrow> string \<Rightarrow> identity \<Rightarrow> ident \<Rightarrow> string \<Rightarrow> bool" where
  "mutation_allowed p action who sender role \<longleftrightarrow> action = ''reaction'' \<or> sender = user_id who
     \<or> action = ''delete'' \<and> (role = ''owner'' \<or> role = ''admin'') \<and> pol_delete_mode p = ''global''"

lemma mutate_Err: "mutate C env s who action chat mid inp fn = (Err c m, es, s') \<Longrightarrow> s' = s \<and> es = []"
  by (auto simp: mutate_def Let_def split: if_splits option.splits sum.splits)

lemma mutate_Reply:
  assumes "mutate C env s who action chat mid inp fn = (Reply code v, es, s')"
  obtains (Again) r where "get_row o_key (device_id who, mi_operation inp) (operations s) = Some r"
      "o_hash r = mutation_hash (prim C) action chat mid inp" "s' = s" "es = []"
  | (Done) sender revision deleted role s1 os
    where "get_row o_key (device_id who, mi_operation inp) (operations s) = None"
      "mutation_target s who chat mid = Some (sender, revision, deleted, role)"
      "mutation_allowed (policy C) action who sender role"
      "action = ''edit'' \<Longrightarrow> \<not> deleted \<and> revision = mi_expected inp"
      "fn (hook_env 5 1 0 env) s sender revision deleted = Inr s1"
      "insert_row o_key \<lparr>o_device = device_id who, o_operation = mi_operation inp,
          o_hash = mutation_hash (prim C) action chat mid inp, o_result = SavedId mid, o_created = now env\<rparr>
         (operations s1) = Some os"
      "s' = s1\<lparr>operations := os\<rparr>" "es = [Wake chat]"
proof (cases "get_row o_key (device_id who, mi_operation inp) (operations s)")
  case (Some r)
  with assms show ?thesis by (intro Again) (auto simp: mutate_def Let_def split: if_splits)
next
  case None
  with assms obtain sender revision deleted role
    where t: "mutation_target s who chat mid = Some (sender, revision, deleted, role)"
    by (auto simp: mutate_def Let_def split: if_splits option.splits)
  from assms None t have al: "mutation_allowed (policy C) action who sender role"
    "action = ''edit'' \<Longrightarrow> \<not> deleted \<and> revision = mi_expected inp"
    by (auto simp: mutate_def Let_def mutation_allowed_def split: if_splits)
  from assms None t obtain s1 where s1: "fn (hook_env 5 1 0 env) s sender revision deleted = Inr s1"
    by (auto simp: mutate_def Let_def split: if_splits sum.splits)
  let ?row = "\<lparr>o_device = device_id who, o_operation = mi_operation inp,
     o_hash = mutation_hash (prim C) action chat mid inp, o_result = SavedId mid, o_created = now env\<rparr>"
  from assms None t s1 obtain os where "insert_row o_key ?row (operations s1) = Some os"
    "s' = s1\<lparr>operations := os\<rparr>" "es = [Wake chat]"
    by (simp add: mutate_def Let_def split: if_splits option.splits)
  then show ?thesis using al(2) by (intro Done [OF None t al(1) _ s1]) auto
qed

text \<open>
  What \<open>mutate\<close> asks of a body: it keeps an invariant of the store that also survives the insert
  of an operation.
\<close>

locale mutation_body =
  fixes fn :: "env \<Rightarrow> 'z db_scheme \<Rightarrow> ident \<Rightarrow> int \<Rightarrow> bool \<Rightarrow> go_error + 'z db_scheme"
    and inv :: "'z db_scheme \<Rightarrow> bool"
  assumes fn_inv: "inv s \<Longrightarrow> fn env s sender revision deleted = Inr s' \<Longrightarrow> inv s'"
    and insert_inv: "inv s \<Longrightarrow> insert_row o_key r (operations s) = Some os \<Longrightarrow> inv (s\<lparr>operations := os\<rparr>)"
begin

lemma mutate_inv:
  assumes "inv s" "mutate C env s who action chat mid inp fn = (r, es, s')"
  shows "inv s'"
proof (cases r)
  case (Err c m)
  with assms mutate_Err show ?thesis by blast
next
  case (Reply code v)
  from assms(2) [unfolded Reply] show ?thesis
  proof (cases rule: mutate_Reply)
    case (Done sender revision deleted role s1 os)
    with fn_inv [OF assms(1)] insert_inv show ?thesis by blast
  qed (use assms(1) in simp)
qed

end

lemma insert_operation_ok:
  "db_ok s \<Longrightarrow> insert_row o_key r (operations s) = Some os \<Longrightarrow> db_ok (s\<lparr>operations := os\<rparr>)"
  by (intro operations_db_ok) (auto intro: unique_on_insert dest: db_ok_uniques(7))

lemma messages_update_ok:
  assumes ok: "db_ok s" and f: "\<And>g. g_id (f g) = g_id g \<and> g_chat (f g) = g_chat g \<and> g_seq (f g) = g_seq g"
  shows "db_ok (s\<lparr>messages := update_rows p f (messages s)\<rparr>)"
proof (rule messages_db_ok [OF ok])
  show "unique_on g_id (update_rows p f (messages s))"
    using f db_ok_uniques(5) [OF ok] by (intro unique_on_update) simp_all
  fix g assume "g \<in> set (update_rows p f (messages s))"
  then obtain g0 where "g0 \<in> set (messages s)" "g_id g = g_id g0" "g_chat g = g_chat g0" "g_seq g = g_seq g0"
    using f by (auto simp: set_update_rows)
  with db_ok_chat_of(2) [OF ok] show "\<exists>c \<in> set (chats s). c_id c = g_chat g \<and> 1 \<le> g_seq g \<and> g_seq g \<le> c_seq c"
    by force
qed

subsection \<open>Edits\<close>

definition edited_row :: "message_row \<Rightarrow> bytes \<Rightarrow> int \<Rightarrow> ident \<Rightarrow> string \<Rightarrow> message_row" where
  "edited_row g payload epoch device operation = g\<lparr>g_payload := payload, g_revision := g_revision g + 1,
     g_epoch := epoch, g_device := device, g_operation := operation\<rparr>"

lemma edit_body_Inr:
  assumes "edit_body C who chat mid inp epoch env s sender revision deleted = Inr s'"
  obtains payload n c m where "payload = Seal (prim C) (eng C) (nonce env) (in_payload (mi_message inp)) (''message/'' @ mid)"
    "Append C (shift_env 2 env) (s\<lparr>messages := update_rows (\<lambda>g. g_id g = mid)
       (\<lambda>g. edited_row g payload epoch (device_id who) (mi_operation inp)) (messages s)\<rparr>) chat ''message.edited'' mid None
     = Inr (n, s')" "c \<in> set (chats s)" "c_id c = chat" "c_epoch c = epoch" "\<not> c_pending c"
    "m \<in> set (members s)" "m_chat m = chat" "m_user m = user_id who" "m_active m" "m_can_send m"
proof -
  from assms obtain ce cp cs where q: "query_row [(c_epoch c, c_pending c, m_can_send m). c \<leftarrow> chats s, c_id c = chat,
      m \<leftarrow> members s, m_chat m = c_id c \<and> m_user m = user_id who \<and> m_active m] = Some (ce, cp, cs)"
    by (auto simp: edit_body_def split: if_splits option.splits)
  from query_row_SomeD [OF q] obtain c m where cm: "c \<in> set (chats s)" "c_id c = chat" "m \<in> set (members s)"
    "m_chat m = c_id c" "m_user m = user_id who" "m_active m" "c_epoch c = ce" "c_pending c = cp" "m_can_send m = cs"
    by (elim join_E join_ifE conjE)
      (rule that, (assumption | simp only: list.set insert_iff empty_iff prod.inject simp_thms)+)
  from assms q have g: "cs" "\<not> cp" "epoch = ce" and a: "map_sum id snd (Append C (shift_env 2 env)
      (s\<lparr>messages := update_rows (\<lambda>g. g_id g = mid) (\<lambda>g. edited_row g (Seal (prim C) (eng C) (nonce env)
         (in_payload (mi_message inp)) (''message/'' @ mid)) ce (device_id who) (mi_operation inp)) (messages s)\<rparr>)
      chat ''message.edited'' mid None) = Inr s'"
    by (auto simp: edit_body_def Let_def edited_row_def split: if_splits)
  from a obtain n where "Append C (shift_env 2 env)
      (s\<lparr>messages := update_rows (\<lambda>g. g_id g = mid) (\<lambda>g. edited_row g (Seal (prim C) (eng C) (nonce env)
         (in_payload (mi_message inp)) (''message/'' @ mid)) ce (device_id who) (mi_operation inp)) (messages s)\<rparr>)
      chat ''message.edited'' mid None = Inr (n, s')"
    by (auto simp: map_sum_def split: sum.splits)
  with cm g that [OF refl] show ?thesis by auto
qed

interpretation edit_mutation: mutation_body "edit_body C who chat mid inp epoch" db_ok
  for C who chat mid inp epoch
proof
  fix s env sender revision deleted s'
  assume ok: "db_ok s" and e: "edit_body C who chat mid inp epoch env s sender revision deleted = Inr s'"
  from e show "db_ok s'"
  proof (rule edit_body_Inr)
    fix payload n c m
    assume "Append C (shift_env 2 env) (s\<lparr>messages := update_rows (\<lambda>g. g_id g = mid)
       (\<lambda>g. edited_row g payload epoch (device_id who) (mi_operation inp)) (messages s)\<rparr>) chat ''message.edited'' mid None
     = Inr (n, s')"
    then show ?thesis by (rule Append_db_ok [rotated]) (intro messages_update_ok [OF ok], simp add: edited_row_def)
  qed
qed (rule insert_operation_ok)

lemma edit_outcome:
  assumes "edit C env env2 s b who chat mid = (r, es, s')"
  obtains (Rejected) code m where "r = Err code m" "s' = s" "es = []"
  | (Tried) inp0 inp3 epoch where "b = Body inp0" "edit_input C env s inp0 who chat = Inr (inp3, epoch)"
      "mutate C env2 s who ''edit'' chat mid (inp0\<lparr>mi_message := inp3\<rparr>)
         (edit_body C who chat mid (inp0\<lparr>mi_message := inp3\<rparr>) epoch) = (r, es, s')"
proof (cases b)
  case (Body inp0)
  show ?thesis
  proof (cases "edit_input C env s inp0 who chat")
    case (Inl e)
    with Body assms show ?thesis by (cases e) (auto simp: edit_def intro: Rejected)
  next
    case (Inr p)
    with Body assms show ?thesis by (cases p) (auto simp: edit_def Let_def intro: Tried)
  qed
qed (use assms Rejected in \<open>auto simp: edit_def\<close>)

lemma edit_db_ok: "db_ok s \<Longrightarrow> edit C env env2 s b who chat mid = (r, es, s') \<Longrightarrow> db_ok s'"
  by (erule edit_outcome) (auto dest: edit_mutation.mutate_inv)

text \<open>
  A fresh successful edit: made by the author, at the current revision, of a message that is not
  deleted, with the revision advanced by one.
\<close>

lemma edit_effect:
  assumes ok: "db_ok s" and e: "edit C env env2 s b who chat mid = (Reply code v, es, s')" and ne: "es \<noteq> []"
  obtains g inp0 payload epoch where "b = Body inp0" "g \<in> set (messages s)" "g_id g = mid" "g_chat g = chat"
    "g_sender g = user_id who" "\<not> g_deleted g" "g_revision g = mi_expected inp0"
    "messages s' = update_rows (\<lambda>g. g_id g = mid)
       (\<lambda>g. edited_row g payload epoch (device_id who) (mi_operation inp0)) (messages s)"
    "es = [Wake chat]"
  using e
proof (cases rule: edit_outcome)
  case (Tried inp0 inp3 epoch)
  define inp where "inp = inp0\<lparr>mi_message := inp3\<rparr>"
  have b: "b = Body inp0" "mi_operation inp = mi_operation inp0" "mi_expected inp = mi_expected inp0"
    using Tried(1) by (simp_all add: inp_def)
  note mu = Tried(3) [folded inp_def]
  from mu show ?thesis
  proof (cases rule: mutate_Reply)
    case (Again r)
    with ne show ?thesis by simp
  next
    case (Done sender revision deleted role s1 os)
    from Done(2) obtain g m d where g: "g \<in> set (messages s)" "g_id g = mid" "g_chat g = chat" "g_sender g = sender"
      "g_revision g = revision" "g_deleted g = deleted" by (rule mutation_target_Some)
    have sd: "sender = user_id who" using Done(3) by (auto simp: mutation_allowed_def)
    from Done(5) show ?thesis
    proof (rule edit_body_Inr)
      fix payload n c m
      assume "Append C (shift_env 2 (hook_env 5 1 0 env2)) (s\<lparr>messages := update_rows (\<lambda>g. g_id g = mid)
       (\<lambda>g. edited_row g payload epoch (device_id who) (mi_operation inp)) (messages s)\<rparr>) chat ''message.edited'' mid None
     = Inr (n, s1)"
      from Append_frame(4) [OF this] have "messages s' = update_rows (\<lambda>g. g_id g = mid)
       (\<lambda>g. edited_row g payload epoch (device_id who) (mi_operation inp)) (messages s)"
        by (simp add: Done(7))
      with g sd Done(4,8) b show ?thesis by (intro that [OF b(1) g(1,2,3)]) auto
    qed
  qed
qed simp

text \<open>Of two edits that expect the same revision, the second is refused.\<close>

lemma edit_stale:
  assumes ok: "db_ok s" and g: "g \<in> set (messages s)" "g_id g = mid" "g_revision g \<noteq> mi_expected inp0"
    and op: "get_row o_key (device_id who, mi_operation inp0) (operations s) = None"
  shows "\<exists>code m. edit C env env2 s (Body inp0) who chat mid = (Err code m, [], s)"
proof -
  obtain r es s' where e: "edit C env env2 s (Body inp0) who chat mid = (r, es, s')" by (metis prod_cases3)
  then show ?thesis
  proof (cases rule: edit_outcome)
    case (Tried inp0' inp3 epoch)
    show ?thesis
    proof (cases r)
      case (Err c m)
      with Tried(3) mutate_Err e show ?thesis by blast
    next
      case (Reply code v)
      from Tried(3) [unfolded Reply] show ?thesis
      proof (cases rule: mutate_Reply)
        case (Again r)
        with op Tried(1) show ?thesis by simp
      next
        case (Done sender revision deleted role s1 os)
        from Done(2) obtain g' m d where "g' \<in> set (messages s)" "g_id g' = mid" "g_revision g' = revision"
          by (rule mutation_target_Some)
        moreover have "g' = g" using unique_on_eqD [OF db_ok_uniques(5) [OF ok]] calculation g by simp
        ultimately show ?thesis using Done(4) g(3) Tried(1) by simp
      qed
    qed
  qed (use e in auto)
qed

subsection \<open>Deletions\<close>

locale delete_hook =
  fixes hook :: "env \<Rightarrow> 'z db_scheme \<Rightarrow> ident \<Rightarrow> go_error + 'z db_scheme"
  assumes frame: "hook env s mid = Inr s' \<Longrightarrow> same_core s s'"

definition delete_frame :: "'z core \<Rightarrow> bool" where
  "delete_frame C \<longleftrightarrow> (\<forall>h \<in> set (delete_hooks C). delete_hook h)"

interpretation reactions_delete: delete_hook reactions_delete_hook
  by unfold_locales (auto simp: reactions_delete_hook_def same_core_def split: if_splits)

lemma run_delete_frame:
  "\<forall>h \<in> set hs. delete_hook h \<Longrightarrow> run_delete hs base k i env s mid = Inr s' \<Longrightarrow> same_core s s'"
proof (induction hs arbitrary: i s)
  case (Cons h hs)
  from Cons.prems(2) obtain s1 where h: "h (hook_env base k i env) s mid = Inr s1"
    and hs: "run_delete hs base k (Suc i) env s1 mid = Inr s'"
    by (auto split: sum.splits)
  have "delete_hook h" using Cons.prems(1) by simp
  then have "same_core s s1" using h by (rule delete_hook.frame)
  moreover have "same_core s1 s'" using Cons.prems(1) by (intro Cons.IH [OF _ hs]) simp
  ultimately show ?case by (rule same_core_trans)
qed auto

definition deleted_row :: "message_row \<Rightarrow> message_row" where
  "deleted_row g = g\<lparr>g_deleted := True, g_payload := [], g_metadata := empty_metadata, g_revision := g_revision g + 1\<rparr>"

lemma map_sum_Inr: "map_sum id snd x = Inr s' \<Longrightarrow> \<exists>n. x = Inr (n, s')"
  by (cases x) auto

lemma delete_body_Inr:
  assumes "delete_body C who chat mid env s sender revision deleted = Inr s'"
  obtains (Hidden) n where "pol_delete_mode (policy C) = ''author_only''"
      "Append C (shift_env 1 env) (s\<lparr>hidden_messages := insert_ignore id (mid, user_id who) (hidden_messages s)\<rparr>)
         chat ''message.hidden'' mid None = Inr (n, s')"
  | (Already) "pol_delete_mode (policy C) \<noteq> ''author_only''" "deleted" "s' = s"
  | (Deleted) s2 n where "pol_delete_mode (policy C) \<noteq> ''author_only''" "\<not> deleted"
      "run_delete (delete_hooks C) 3 (length (delete_hooks C)) 0 env
         (s\<lparr>messages := update_rows (\<lambda>g. g_id g = mid) deleted_row (messages s)\<rparr>) mid = Inr s2"
      "Append C (shift_env 1 env) s2 chat ''message.deleted'' mid None = Inr (n, s')"
proof (cases "pol_delete_mode (policy C) = ''author_only''")
  case True
  with assms show ?thesis by (auto simp: delete_body_def dest!: map_sum_Inr split: if_splits intro: Hidden)
next
  case False
  show ?thesis
  proof (cases deleted)
    case True
    with False assms show ?thesis by (auto simp: delete_body_def intro: Already)
  next
    case nd: False
    have eta: "(\<lambda>g. g\<lparr>g_deleted := True, g_payload := [], g_metadata := empty_metadata,
                   g_revision := g_revision g + 1\<rparr>) = deleted_row"
      by (simp add: deleted_row_def fun_eq_iff)
    from assms False nd show ?thesis
      by (auto simp: delete_body_def eta Let_def dest!: map_sum_Inr split: if_splits sum.splits intro: Deleted)
  qed
qed

interpretation delete_mutation: mutation_body "delete_body C who chat mid" "\<lambda>s. delete_frame C \<longrightarrow> db_ok s"
  for C who chat mid
proof
  fix s env sender revision deleted s'
  assume inv: "delete_frame C \<longrightarrow> db_ok s" and d: "delete_body C who chat mid env s sender revision deleted = Inr s'"
  show "delete_frame C \<longrightarrow> db_ok s'"
  proof
    assume fr: "delete_frame C"
    with inv have ok: "db_ok s" by simp
    from d show "db_ok s'"
    proof (cases rule: delete_body_Inr)
      case (Hidden n)
      have "same_core s (s\<lparr>hidden_messages := x\<rparr>)" for x by (simp add: same_core_def)
      with ok same_core_db_ok have "db_ok (s\<lparr>hidden_messages := x\<rparr>)" for x by blast
      then show ?thesis using Hidden(2) by (rule Append_db_ok)
    next
      case (Deleted s2 n)
      have "db_ok (s\<lparr>messages := update_rows (\<lambda>g. g_id g = mid) deleted_row (messages s)\<rparr>)"
        by (rule messages_update_ok [OF ok]) (simp add: deleted_row_def)
      with run_delete_frame [OF _ Deleted(3)] fr have "db_ok s2"
        by (simp add: delete_frame_def same_core_db_ok)
      then show ?thesis using Deleted(4) by (rule Append_db_ok)
    qed (use ok in simp)
  qed
qed (use insert_operation_ok in blast)

lemma delete_db_ok:
  "db_ok s \<Longrightarrow> delete_frame C \<Longrightarrow> delete C env s b who chat mid = (r, es, s') \<Longrightarrow> db_ok s'"
  using delete_mutation.mutate_inv [of C s] by (cases b) (auto simp: delete_def)

text \<open>
  A fresh deletion in global mode is made by the author or a moderator, and leaves neither the
  payload nor the metadata of the message.
\<close>

lemma delete_effect:
  assumes ok: "db_ok s" and fr: "delete_frame C" and d: "delete C env s b who chat mid = (Reply code v, es, s')"
    and new: "es \<noteq> []" and mode: "pol_delete_mode (policy C) = ''global''"
  shows "(\<exists>g m d. g \<in> set (messages s) \<and> g_id g = mid \<and> g_chat g = chat \<and> reader_of s who chat m d
      \<and> (g_sender g = user_id who \<or> m_role m = ''owner'' \<or> m_role m = ''admin''))
    \<and> (\<forall>g \<in> set (messages s'). g_id g = mid \<longrightarrow> g_deleted g \<and> ((\<forall>g0 \<in> set (messages s). g_id g0 = mid \<longrightarrow> \<not> g_deleted g0)
          \<longrightarrow> g_payload g = [] \<and> g_metadata g = empty_metadata))
    \<and> (\<forall>g. g_id g \<noteq> mid \<longrightarrow> (g \<in> set (messages s') \<longleftrightarrow> g \<in> set (messages s)))"
proof -
  from d obtain inp where "mutate C env s who ''delete'' chat mid inp (delete_body C who chat mid) = (Reply code v, es, s')"
    by (cases b) (auto simp: delete_def)
  then show ?thesis
  proof (cases rule: mutate_Reply)
    case (Again r)
    with new show ?thesis by simp
  next
    case (Done sender revision deleted role s1 os)
    from Done(2) obtain g m dd where g: "g \<in> set (messages s)" "g_id g = mid" "g_chat g = chat" "g_sender g = sender"
      "g_deleted g = deleted" "reader_of s who chat m dd" "m_role m = role"
      by (rule mutation_target_Some)
    have who: "g_sender g = user_id who \<or> m_role m = ''owner'' \<or> m_role m = ''admin''"
      using Done(3) g by (auto simp: mutation_allowed_def)
    have uniq: "g' = g" if "g' \<in> set (messages s)" "g_id g' = mid" for g'
      using unique_on_eqD [OF db_ok_uniques(5) [OF ok]] that g by simp
    from Done(5) have "messages s1 = (if deleted then messages s
        else update_rows (\<lambda>g. g_id g = mid) deleted_row (messages s))"
    proof (cases rule: delete_body_Inr)
      case (Hidden n)
      with mode show ?thesis by simp
    next
      case (Deleted s2 n)
      have "\<forall>h \<in> set (delete_hooks C). delete_hook h" using fr by (simp add: delete_frame_def)
      from run_delete_frame [OF this Deleted(3)] Append_frame(4) [OF Deleted(4)] Deleted(2) show ?thesis
        by (simp add: same_core_def)
    qed simp
    then have ms: "messages s' = (if deleted then messages s
        else update_rows (\<lambda>g. g_id g = mid) deleted_row (messages s))"
      by (simp add: Done(7))
    have 2: "\<forall>g \<in> set (messages s'). g_id g = mid \<longrightarrow> g_deleted g \<and> ((\<forall>g0 \<in> set (messages s). g_id g0 = mid \<longrightarrow> \<not> g_deleted g0)
          \<longrightarrow> g_payload g = [] \<and> g_metadata g = empty_metadata)"
    proof (intro ballI impI)
      fix g' assume g': "g' \<in> set (messages s')" "g_id g' = mid"
      show "g_deleted g' \<and> ((\<forall>g0 \<in> set (messages s). g_id g0 = mid \<longrightarrow> \<not> g_deleted g0)
          \<longrightarrow> g_payload g' = [] \<and> g_metadata g' = empty_metadata)"
      proof (cases deleted)
        case True
        with g' ms uniq g(5) g(1,2) show ?thesis by auto
      next
        case False
        with g'(1) have "g' \<in> (\<lambda>g. if g_id g = mid then deleted_row g else g) ` set (messages s)"
          by (simp add: ms set_update_rows)
        then obtain g0 where "g' = (if g_id g0 = mid then deleted_row g0 else g0)" by blast
        with g'(2) show ?thesis by (simp add: deleted_row_def split: if_splits)
      qed
    qed
    have 3: "\<forall>g. g_id g \<noteq> mid \<longrightarrow> (g \<in> set (messages s') \<longleftrightarrow> g \<in> set (messages s))"
      unfolding ms by (auto simp: set_update_rows deleted_row_def)
    show ?thesis
      by (intro conjI 2 3 exI [of _ g] exI [of _ m] exI [of _ dd]) (use g who in simp_all)
  qed
qed

subsection \<open>Reactions\<close>

definition reactions_ok :: "'w mod_db_scheme \<Rightarrow> bool" where
  "reactions_ok s \<longleftrightarrow> db_ok s \<and> unique_on r_key (reactions s)"

lemma reactions_set_ok: "db_ok s \<Longrightarrow> db_ok (s\<lparr>reactions := x\<rparr>)"
  using same_core_db_ok [of s "s\<lparr>reactions := x\<rparr>"] by (simp add: same_core_def)

lemma keys_delete_row: "key ` set (delete_rows (\<lambda>r. key r = k) t) = key ` set t - {k}"
  by (auto simp: set_delete_rows)

lemma keys_insert_ignore: "key ` set (insert_ignore key r t) = insert (key r) (key ` set t)"
  by (auto simp: insert_ignore_def get_row_None_iff)

lemma Append_reactions: "Append C env s chat kind m d = Inr (n, s') \<Longrightarrow> reactions s' = reactions s"
  by (auto elim!: Append_Inr simp: bump_seq_def)

lemma reaction_body_Inr:
  assumes "reaction_body C who chat mid inp env s sender revision deleted = Inr s'"
  obtains n where "\<not> deleted" "Append C (shift_env 1 env)
      (s\<lparr>reactions := (if mi_remove inp
          then delete_rows (\<lambda>r. r_key r = (mid, user_id who, mi_type inp)) (reactions s)
          else insert_ignore r_key \<lparr>r_message = mid, r_user = user_id who, r_type = mi_type inp\<rparr> (reactions s))\<rparr>)
      chat ''reaction.updated'' mid None = Inr (n, s')"
  using assms
  by (auto simp: reaction_body_def Let_def r_key_def dest!: map_sum_Inr split: if_splits)

interpretation reaction_mutation: mutation_body "reaction_body C who chat mid inp" reactions_ok for C who chat mid inp
proof
  fix s env sender revision deleted s'
  assume ok: "reactions_ok s" and r: "reaction_body C who chat mid inp env s sender revision deleted = Inr s'"
  from r show "reactions_ok s'"
  proof (rule reaction_body_Inr)
    fix n
    let ?rs = "if mi_remove inp
          then delete_rows (\<lambda>r. r_key r = (mid, user_id who, mi_type inp)) (reactions s)
          else insert_ignore r_key \<lparr>r_message = mid, r_user = user_id who, r_type = mi_type inp\<rparr> (reactions s)"
    assume app: "Append C (shift_env 1 env) (s\<lparr>reactions := ?rs\<rparr>) chat ''reaction.updated'' mid None = Inr (n, s')"
    have "unique_on r_key ?rs"
      using ok by (auto simp: reactions_ok_def intro: unique_on_delete unique_on_ignore)
    moreover have "db_ok s'" using Append_db_ok [OF reactions_set_ok app] ok by (simp add: reactions_ok_def)
    ultimately show ?thesis using Append_reactions [OF app] by (simp add: reactions_ok_def)
  qed
qed (auto simp: reactions_ok_def intro: insert_operation_ok)

lemma react_ok: "reactions_ok s \<Longrightarrow> react C env s b who chat mid = (r, es, s') \<Longrightarrow> reactions_ok s'"
  using reaction_mutation.mutate_inv by (cases b) (auto simp: react_def split: if_splits)

text \<open>
  A fresh reaction changes exactly one (message, user, type) triple: it is present after an add
  and absent after a removal, whatever was there before.
\<close>

lemma react_effect:
  assumes r: "react C env s (Body inp) who chat mid = (Reply code v, es, s')" and new: "es \<noteq> []"
  shows "0 \<le> mi_type inp \<and> mi_type inp < int (length (pol_reaction_types (policy C)))
    \<and> r_key ` set (reactions s') =
        (if mi_remove inp then r_key ` set (reactions s) - {(mid, user_id who, mi_type inp)}
         else insert (mid, user_id who, mi_type inp) (r_key ` set (reactions s)))"
proof -
  from r have ty: "0 \<le> mi_type inp" "mi_type inp < int (length (pol_reaction_types (policy C)))"
    and "mutate C env s who ''reaction'' chat mid inp (reaction_body C who chat mid inp) = (Reply code v, es, s')"
    by (auto simp: react_def split: if_splits)
  from this(3) show ?thesis
  proof (cases rule: mutate_Reply)
    case (Again r)
    with new show ?thesis by simp
  next
    case (Done sender revision deleted role s1 os)
    from Done(5) show ?thesis
    proof (rule reaction_body_Inr)
      fix n
      let ?rs = "if mi_remove inp
          then delete_rows (\<lambda>r. r_key r = (mid, user_id who, mi_type inp)) (reactions s)
          else insert_ignore r_key \<lparr>r_message = mid, r_user = user_id who, r_type = mi_type inp\<rparr> (reactions s)"
      assume "Append C (shift_env 1 (hook_env 5 1 0 env)) (s\<lparr>reactions := ?rs\<rparr>) chat ''reaction.updated'' mid None = Inr (n, s1)"
      from Append_reactions [OF this] have "reactions s' = ?rs" by (simp add: Done(7))
      then show ?thesis using ty keys_delete_row [of r_key]
          keys_insert_ignore [of r_key "\<lparr>r_message = mid, r_user = user_id who, r_type = mi_type inp\<rparr>" "reactions s"]
        by (cases "mi_remove inp") (simp_all add: r_key_def [of "\<lparr>r_message = _, r_user = _, r_type = _\<rparr>"])
    qed
  qed
qed

end
