(* ===== verification/Calls.thy ===== *)
theory Calls
  imports Mutations
begin

text \<open>
  \<open>internal/modules/calls.go\<close>: signalling of one-to-one calls. A call is ringing, active or ended;
  its signals are journal events of the chat. All handlers and the cleanup run under one mutex,
  so each is one step on the store. HMAC-SHA1 and the decoding of a signal's JSON payload are
  parameters (\<open>hmac\<close>, \<open>decode\<close>).
\<close>

record call_row =
  l_id :: ident
  l_chat :: ident
  l_caller :: ident
  l_callee :: ident
  l_state :: string
  l_mode :: string
  l_created :: time
  l_updated :: time

record call_operation_row =
  p_device :: ident
  p_operation :: string
  p_call :: ident
  p_hash :: string
  p_seq :: int
  p_state :: string
  p_created :: time

record call_db = mod_db +
  calls :: "call_row list"
  call_operations :: "call_operation_row list"

definition p_key :: "'a call_operation_row_scheme \<Rightarrow> ident \<times> string" where
  "p_key r = (p_device r, p_operation r)"

subsection \<open>TURN credentials\<close>

definition turnCredential :: "(bytes \<Rightarrow> bytes \<Rightarrow> bytes) \<Rightarrow> string \<Rightarrow> string \<Rightarrow> string" where
  "turnCredential hmac secret username = b64_encode (hmac secret username)"

definition turn ::
  "'z core \<Rightarrow> (bytes \<Rightarrow> bytes \<Rightarrow> bytes) \<Rightarrow> string \<Rightarrow> env \<Rightarrow> 'z db_scheme \<Rightarrow> identity \<Rightarrow>
    (string list \<times> string \<times> string \<times> int, 'z db_scheme) outcome" where
  "turn C hmac secret env s who =
     (if secret = [] then Error 503 ''TURN unavailable'' s
      else let expires = now env + call_credential_ttl_seconds (cfg_calls (cfg C));
               username = dec_int expires @ '':'' @ user_id who
           in (Reply 200 (call_turn_urls (cfg_calls (cfg C)), username, turnCredential hmac secret username, expires), [], s))"

subsection \<open>Creating a call\<close>

definition callPermission :: "bool \<Rightarrow> 'z db_scheme \<Rightarrow> identity \<Rightarrow> ident \<Rightarrow> bool" where
  "callPermission fail s who chat = (\<not> fail \<and>
     length [(). m \<leftarrow> members s, m_chat m = chat \<and> m_user m = user_id who \<and> m_active m \<and> m_can_send m,
       d \<leftarrow> devices s, d_user d = m_user m \<and> d_id d = device_id who \<and> \<not> d_revoked d,
       u \<leftarrow> users s, u_id u = m_user m \<and> \<not> u_disabled u] = 1)"

definition active_members :: "'z db_scheme \<Rightarrow> ident \<Rightarrow> member_row list" where
  "active_members s chat = filter (\<lambda>m. m_chat m = chat \<and> m_active m) (members s)"

definition live_calls :: "'w call_db_scheme \<Rightarrow> ident \<Rightarrow> call_row list" where
  "live_calls s chat = filter (\<lambda>l. l_chat l = chat \<and> (l_state l = ''ringing'' \<or> l_state l = ''active'')) (calls s)"

definition ringing_data :: "ident \<Rightarrow> ident \<Rightarrow> string \<Rightarrow> string" where
  "ringing_data caller call mode = json_object [json_member ''caller'' (json_string caller),
     json_member ''id'' (json_string call), json_member ''mode'' (json_string mode)]"

definition createCall ::
  "'w call_db_ext mod_db_ext core \<Rightarrow> env \<Rightarrow> 'w call_db_scheme \<Rightarrow> string body \<Rightarrow> identity \<Rightarrow> ident \<Rightarrow>
    (ident \<times> string \<times> int, 'w call_db_scheme) outcome" where
  "createCall C env s b who chat =
     (case Decode b of
        Inl m \<Rightarrow> Error 400 m s
      | Inr mode \<Rightarrow>
          (if mode \<noteq> ''audio'' \<and> mode \<noteq> ''video'' then Error 400 ''invalid call mode'' s
           else if flt env 0 \<or> (case Member s (user_id who) chat of None \<Rightarrow> True | Some (_, can, _) \<Rightarrow> \<not> can)
           then Error 403 ''chat access denied'' s
           else if flt env 1 \<or> (case get_row c_id chat (chats s) of None \<Rightarrow> True | Some c \<Rightarrow> c_kind c \<noteq> ''direct'')
           then Error 400 ''calls require a direct chat'' s
           else if flt env 2 \<or> length (active_members s chat) \<noteq> 2
           then Error 409 ''calls require two active participants'' s
           else case (if flt env 3 then None
                      else query_row (map m_user (filter (\<lambda>m. m_user m \<noteq> user_id who) (active_members s chat)))) of
             None \<Rightarrow> Error 409 ''peer unavailable'' s
           | Some callee \<Rightarrow>
               (if flt env 4 \<or> length (live_calls s chat) \<noteq> 0 then Error 409 ''call already in progress'' s
                else if flt env 5 then Error 500 ''create call failed'' s
                else if \<not> callPermission (flt env 6) s who chat then Error 403 ''call access changed'' s
                else if flt env 7 \<or> length (active_members s chat) \<noteq> 2
                then Error 409 ''call participants changed'' s
                else if flt env 8 then Error 500 ''create call failed'' s
                else case insert_row l_id \<lparr>l_id = uuid env, l_chat = chat, l_caller = user_id who, l_callee = callee,
                       l_state = ''ringing'', l_mode = mode, l_created = now env, l_updated = now env\<rparr> (calls s) of
                  None \<Rightarrow> Error 500 ''create call failed'' s
                | Some ls \<Rightarrow>
                    (case Append C (shift_env 9 env) (s\<lparr>calls := ls\<rparr>) chat ''call.ringing'' []
                            (Some (ringing_data (user_id who) (uuid env) mode)) of
                       Inl _ \<Rightarrow> Error 500 ''signal persistence failed'' s
                     | Inr (seq, s1) \<Rightarrow>
                         (if flt env 11 then Error 500 ''create call failed'' s
                          else (Reply 201 (uuid env, ''ringing'', seq), [Wake chat], s1))))))"

subsection \<open>Signals\<close>

record signal_input =
  si_type :: string
  si_operation :: string
  si_to_device :: string
  si_envelope :: "envelope option"
  si_mls :: string
  si_epoch :: int

definition marshal_signal :: "signal_input \<Rightarrow> string" where
  "marshal_signal inp = json_object
     ([json_member ''type'' (json_string (si_type inp)), json_member ''operation_id'' (json_string (si_operation inp))]
      @ omit_empty ''to_device'' (si_to_device inp)
      @ (case si_envelope inp of None \<Rightarrow> [] | Some e \<Rightarrow> [json_member ''envelope'' (marshal_envelope e)])
      @ omit_empty ''mls'' (si_mls inp)
      @ (if si_epoch inp = 0 then [] else [json_member ''epoch'' (dec_int (si_epoch inp))]))"

definition signal_hash :: "prims \<Rightarrow> signal_input \<Rightarrow> string" where
  "signal_hash P inp = hex_encode (p_sha256 P (marshal_signal inp))"

record signal_payload =
  pl_sdp :: string
  pl_candidate :: string
  pl_sdp_mid :: string
  pl_sdp_line :: "int option"

definition marshal_payload :: "signal_payload \<Rightarrow> string" where
  "marshal_payload p = json_object (omit_empty ''sdp'' (pl_sdp p) @ omit_empty ''candidate'' (pl_candidate p)
     @ omit_empty ''sdp_mid'' (pl_sdp_mid p)
     @ (case pl_sdp_line p of None \<Rightarrow> [] | Some n \<Rightarrow> [json_member ''sdp_mline_index'' (dec_int n)]))"

text \<open>The \<open>switch\<close> on the signal type: the next state, or the response of a refusal.\<close>

definition signal_next :: "string \<Rightarrow> call_row \<Rightarrow> ident \<Rightarrow> (nat \<times> string) + string" where
  "signal_next ty l user =
     (let st = l_state l in
      if ty = ''accept'' then
        (if st \<noteq> ''ringing'' \<or> user \<noteq> l_callee l then Inl (409, ''invalid call transition'') else Inr ''active'')
      else if ty = ''reject'' then
        (if st \<noteq> ''ringing'' \<or> user \<noteq> l_callee l then Inl (409, ''invalid call transition'') else Inr ''ended'')
      else if ty = ''end'' then
        (if st \<noteq> ''ringing'' \<and> st \<noteq> ''active'' then Inl (409, ''call already ended'') else Inr ''ended'')
      else if ty = ''offer'' then
        (if user \<noteq> l_caller l \<or> (st \<noteq> ''ringing'' \<and> st \<noteq> ''active'') then Inl (409, ''invalid offer'') else Inr st)
      else if ty = ''answer'' then
        (if user \<noteq> l_callee l \<or> st \<noteq> ''active'' then Inl (409, ''invalid answer'') else Inr st)
      else if ty = ''ice'' then
        (if st \<noteq> ''ringing'' \<and> st \<noteq> ''active'' then Inl (409, ''call ended'') else Inr st)
      else Inl (400, ''invalid signal type''))"

definition is_media :: "string \<Rightarrow> bool" where
  "is_media ty \<longleftrightarrow> ty = ''offer'' \<or> ty = ''answer'' \<or> ty = ''ice''"

definition empty_payload :: signal_payload where
  "empty_payload = \<lparr>pl_sdp = [], pl_candidate = [], pl_sdp_mid = [], pl_sdp_line = None\<rparr>"

text \<open>The checks on the payload, and the payload decoded from a basic chat's envelope.\<close>

definition open_signal ::
  "'z core \<Rightarrow> (bytes \<Rightarrow> signal_payload body) \<Rightarrow> identity \<Rightarrow> ident \<Rightarrow> string \<Rightarrow> signal_input \<Rightarrow>
    (nat \<times> string) + signal_payload" where
  "open_signal C decode who chat mode inp =
     (if is_media (si_type inp) \<and> mode = ''e2ee'' then
        (case b64_decode (si_mls inp) of
           None \<Rightarrow> Inl (400, ''opaque MLS signaling required'')
         | Some raw \<Rightarrow>
             (if length raw = 0 \<or> length raw > 45000 \<or> si_envelope inp \<noteq> None \<or> si_to_device inp \<noteq> []
              then Inl (400, ''opaque MLS signaling required'') else Inr empty_payload))
      else if is_media (si_type inp) then
        (case si_envelope inp of
           None \<Rightarrow> Inl (400, ''encrypted signaling and recipient device required'')
         | Some e \<Rightarrow>
             (if si_mls inp \<noteq> [] \<or> length (si_to_device inp) < 1 \<or> length (si_to_device inp) > 128
              then Inl (400, ''encrypted signaling and recipient device required'')
              else case OpenEnvelope (prim C) (eng C) e
                     (Binding chat (user_id who) (device_id who) (si_operation inp)) of
                Inl _ \<Rightarrow> Inl (400, ''invalid signal envelope'')
              | Inr raw \<Rightarrow>
                  (if length raw > 60000 then Inl (400, ''invalid signal envelope'')
                   else case decode raw of
                     BadJSON \<Rightarrow> Inl (400, ''invalid signal payload'')
                   | TrailingJSON _ \<Rightarrow> Inl (400, ''invalid signal payload'')
                   | Body p \<Rightarrow>
                       (if length (pl_sdp_mid p) > 128
                          \<or> (case pl_sdp_line p of None \<Rightarrow> False | Some n \<Rightarrow> n < 0 \<or> n > 128)
                        then Inl (400, ''invalid signal'')
                        else if si_type inp = ''ice'' then
                          (if pl_candidate p = [] \<or> length (pl_candidate p) > 4096 \<or> pl_sdp p \<noteq> []
                           then Inl (400, ''invalid ICE candidate'') else Inr p)
                        else if pl_sdp p = [] \<or> length (pl_sdp p) > 58000 \<or> pl_candidate p \<noteq> []
                        then Inl (400, ''invalid session description'')
                        else Inr p))))
      else if si_envelope inp \<noteq> None \<or> si_mls inp \<noteq> [] \<or> si_to_device inp \<noteq> []
      then Inl (400, ''unexpected signal payload'')
      else Inr empty_payload)"

definition recipient_key :: "'z db_scheme \<Rightarrow> ident \<Rightarrow> ident \<Rightarrow> ident \<Rightarrow> string option" where
  "recipient_key s device peer chat =
     query_row [d_public_key d. d \<leftarrow> devices s, d_id d = device \<and> d_user d = peer \<and> \<not> d_revoked d,
       u \<leftarrow> users s, u_id u = d_user d \<and> \<not> u_disabled u,
       m \<leftarrow> members s, m_user m = d_user d \<and> m_chat m = chat \<and> m_active m]"

text \<open>The data of the journal event: the recipient's envelope in a basic chat, MLS otherwise.\<close>

definition signal_data ::
  "'z core \<Rightarrow> env \<Rightarrow> 'z db_scheme \<Rightarrow> identity \<Rightarrow> call_row \<Rightarrow> string \<Rightarrow> signal_input \<Rightarrow> signal_payload \<Rightarrow>
    (nat \<times> string) + string" where
  "signal_data C env s who l mode inp p =
     (let chat = l_chat l; call = l_id l;
          tail = [json_member ''operation_id'' (json_string (si_operation inp)),
                  json_member ''sender'' (json_string (user_id who))];
          ty = json_member ''type'' (json_string (si_type inp));
          dev = json_member ''device_id'' (json_string (device_id who));
          ident = json_member ''id'' (json_string call) in
      if is_media (si_type inp) \<and> mode = ''basic'' then
        (let peer = (if user_id who = l_callee l then l_caller l else l_callee l) in
         case (if flt env 7 then None else recipient_key s (si_to_device inp) peer chat) of
           None \<Rightarrow> Inl (403, ''recipient device unavailable'')
         | Some public \<Rightarrow>
             (case b64_decode public of
                None \<Rightarrow> Inl (500, ''recipient key invalid'')
              | Some pk \<Rightarrow>
                  (case SealEnvelope (prim C) pk (draws env 0) (marshal_payload p)
                          (Binding chat peer (si_to_device inp) (si_operation inp)) of
                     Inl _ \<Rightarrow> Inl (500, ''signal encryption failed'')
                   | Inr e \<Rightarrow> Inr (json_object ([dev, json_member ''envelope'' (marshal_envelope e), ident] @ tail
                       @ [json_member ''to_device'' (json_string (si_to_device inp)),
                          json_member ''to_user'' (json_string peer), ty])))))
      else if is_media (si_type inp)
      then Inr (json_object ([dev, json_member ''epoch'' (dec_int (si_epoch inp)), ident,
             json_member ''mls'' (json_string (si_mls inp))] @ tail @ [ty]))
      else Inr (json_object ([dev, ident] @ tail @ [ty])))"

text \<open>The transaction of an accepted signal.\<close>

definition signal_tx ::
  "'w call_db_ext mod_db_ext core \<Rightarrow> env \<Rightarrow> 'w call_db_scheme \<Rightarrow> identity \<Rightarrow> call_row \<Rightarrow> string \<Rightarrow> signal_input \<Rightarrow>
    signal_payload \<Rightarrow> string \<Rightarrow> (int \<times> string, 'w call_db_scheme) outcome" where
  "signal_tx C env s who l mode inp p next =
     (let chat = l_chat l in
      if flt env 4 then Error 500 ''signal persistence failed'' s
      else if \<not> callPermission (flt env 5) s who chat then Error 403 ''call access changed'' s
      else if is_media (si_type inp) \<and> mode = ''e2ee''
        \<and> (flt env 6 \<or> (case get_row c_id chat (chats s) of None \<Rightarrow> True
                 | Some c \<Rightarrow> c_pending c \<or> c_epoch c \<noteq> si_epoch inp))
      then Error 409 ''MLS epoch changed or rekey pending'' s
      else case signal_data C env s who l mode inp p of
        Inl (code, m) \<Rightarrow> Error code m s
      | Inr data \<Rightarrow>
          (case Append C (shift_env 8 env) s chat (''call.'' @ si_type inp) [] (Some data) of
             Inl _ \<Rightarrow> Error 500 ''signal persistence failed'' s
           | Inr (seq, s1) \<Rightarrow>
               (if next \<noteq> l_state l \<and> flt env 10 then Error 500 ''call transition failed'' s
                else let s2 = (if next \<noteq> l_state l
                       then s1\<lparr>calls := update_rows (\<lambda>x. l_id x = l_id l)
                              (\<lambda>x. x\<lparr>l_state := next, l_updated := now env\<rparr>) (calls s1)\<rparr> else s1) in
                  if flt env 11 then Error 500 ''operation persistence failed'' s
                  else case insert_row p_key \<lparr>p_device = device_id who, p_operation = si_operation inp,
                         p_call = l_id l, p_hash = signal_hash (prim C) inp, p_seq = seq, p_state = next,
                         p_created = now env\<rparr> (call_operations s2) of
                    None \<Rightarrow> Error 500 ''operation persistence failed'' s
                  | Some ps \<Rightarrow>
                      (if flt env 12 then Error 500 ''signal persistence failed'' s
                       else (Reply 200 (seq, next), [Wake chat], s2\<lparr>call_operations := ps\<rparr>)))))"

definition signal ::
  "'w call_db_ext mod_db_ext core \<Rightarrow> (bytes \<Rightarrow> signal_payload body) \<Rightarrow> env \<Rightarrow> 'w call_db_scheme \<Rightarrow>
    signal_input body \<Rightarrow> identity \<Rightarrow> ident \<Rightarrow> (int \<times> string, 'w call_db_scheme) outcome" where
  "signal C decode env s b who call =
     (case Decode b of
        Inl m \<Rightarrow> Error 400 m s
      | Inr inp \<Rightarrow>
          (case (if flt env 0 then None else get_row l_id call (calls s)) of
             None \<Rightarrow> Error 404 ''call unavailable'' s
           | Some l \<Rightarrow>
               (if user_id who \<noteq> l_caller l \<and> user_id who \<noteq> l_callee l then Error 403 ''call access denied'' s
                else if flt env 1 \<or> (case Member s (user_id who) (l_chat l) of None \<Rightarrow> True | Some (_, can, _) \<Rightarrow> \<not> can)
                then Error 403 ''chat access denied'' s
                else case (if flt env 2 then None else map_option c_mode (get_row c_id (l_chat l) (chats s))) of
                  None \<Rightarrow> Error 404 ''chat unavailable'' s
                | Some mode \<Rightarrow>
                    (if length (si_operation inp) < 1 \<or> length (si_operation inp) > 128
                     then Error 400 ''operation_id required'' s
                     else if flt env 3 then Error 500 ''operation lookup failed'' s
                     else case get_row p_key (device_id who, si_operation inp) (call_operations s) of
                       Some r \<Rightarrow>
                         (if p_hash r \<noteq> signal_hash (prim C) inp \<or> p_call r \<noteq> call
                          then Error 409 ''operation differs'' s
                          else (Reply 200 (p_seq r, p_state r), [], s))
                     | None \<Rightarrow>
                         (case signal_next (si_type inp) l (user_id who) of
                            Inl (code, m) \<Rightarrow> Error code m s
                          | Inr next \<Rightarrow>
                              (case open_signal C decode who (l_chat l) mode inp of
                                 Inl (code, m) \<Rightarrow> Error code m s
                               | Inr p \<Rightarrow> signal_tx C env s who l mode inp p next))))))"

subsection \<open>Cleanup\<close>

definition overdue :: "time \<Rightarrow> call_row \<Rightarrow> bool" where
  "overdue t l \<longleftrightarrow> l_state l = ''ringing'' \<and> l_created l < t - 120
     \<or> l_state l = ''active'' \<and> l_created l < t - 43200"

definition timeout_data :: "ident \<Rightarrow> string" where
  "timeout_data call = json_object [json_member ''id'' (json_string call), json_member ''reason'' (json_string ''timeout'')]"

text \<open>The loop over the overdue calls, one transaction each: begin, update, \<open>Append\<close>, commit.\<close>

fun end_overdue ::
  "'w call_db_ext mod_db_ext core \<Rightarrow> env \<Rightarrow> nat \<Rightarrow> (ident \<times> ident) list \<Rightarrow> 'w call_db_scheme \<Rightarrow>
    bool \<times> effect list \<times> 'w call_db_scheme" where
  "end_overdue C env n [] s = (True, [], s)"
| "end_overdue C env n ((call, chat) # rest) s =
     (if flt env n \<or> flt env (n + 1) then (False, [], s)
      else let s1 = s\<lparr>calls := update_rows (\<lambda>l. l_id l = call)
                (\<lambda>l. l\<lparr>l_state := ''ended'', l_updated := now env\<rparr>) (calls s)\<rparr> in
        case Append C (shift_env (n + 2) env) s1 chat ''call.end'' [] (Some (timeout_data call)) of
          Inl _ \<Rightarrow> (False, [], s)
        | Inr (seq, s2) \<Rightarrow>
            (if flt env (n + 4) then (False, [], s)
             else case end_overdue C env (n + 5) rest s2 of
               (ok, es, s3) \<Rightarrow> (ok, Wake chat # es, s3)))"

definition calls_cleanup ::
  "'w call_db_ext mod_db_ext core \<Rightarrow> env \<Rightarrow> 'w call_db_scheme \<Rightarrow> bool \<times> effect list \<times> 'w call_db_scheme" where
  "calls_cleanup C env s =
     (if flt env 0 then (False, [], s)
      else case end_overdue C env 3 (map (\<lambda>l. (l_id l, l_chat l)) (filter (overdue (now env)) (calls s))) s of
        (ok, es, s1) \<Rightarrow>
          (if \<not> ok \<or> flt env 1 then (False, es, s1)
           else let s2 = s1\<lparr>call_operations := delete_rows
                    (\<lambda>r. p_created r < now env - pol_dedup_retention_hours (policy C) * 3600) (call_operations s1)\<rparr> in
             if flt env 2 then (False, es, s2)
             else (True, es, s2\<lparr>calls := delete_rows
                    (\<lambda>l. l_state l = ''ended'' \<and> l_updated l < now env - 86400) (calls s2)\<rparr>)))"

subsection \<open>What the handlers keep\<close>

definition call_states :: "string set" where
  "call_states = {''ringing'', ''active'', ''ended''}"

definition live :: "call_row \<Rightarrow> bool" where
  "live l \<longleftrightarrow> l_state l = ''ringing'' \<or> l_state l = ''active''"

text \<open>At most one live call per chat, between two different users.\<close>

definition calls_ok :: "'w call_db_scheme \<Rightarrow> bool" where
  "calls_ok s \<longleftrightarrow> db_ok s \<and> unique_on l_id (calls s) \<and> unique_on p_key (call_operations s)
     \<and> (\<forall>chat. length (live_calls s chat) \<le> 1)
     \<and> (\<forall>l \<in> set (calls s). l_caller l \<noteq> l_callee l \<and> l_state l \<in> call_states \<and> l_chat l \<in> c_id ` set (chats s))"

definition later_state :: "string \<Rightarrow> string \<Rightarrow> bool" where
  "later_state a b \<longleftrightarrow> a = b \<or> a = ''ringing'' \<and> b = ''active'' \<or> a \<noteq> ''ended'' \<and> b = ''ended''"

definition parties :: "call_row \<Rightarrow> ident \<times> ident \<times> ident \<times> ident \<times> string" where
  "parties l = (l_id l, l_chat l, l_caller l, l_callee l, l_mode l)"

text \<open>How the calls of a store may change: states only move forward, only ended calls disappear.\<close>

definition calls_advance :: "'w call_db_scheme \<Rightarrow> 'w call_db_scheme \<Rightarrow> bool" where
  "calls_advance s s' \<longleftrightarrow> (\<forall>l \<in> set (calls s).
     (\<exists>l' \<in> set (calls s'). parties l' = parties l \<and> later_state (l_state l) (l_state l'))
     \<or> l_state l = ''ended'' \<and> l_id l \<notin> l_id ` set (calls s'))"

lemma calls_advance_refl [simp, intro]: "calls s' = calls s \<Longrightarrow> calls_advance s s'"
  by (auto simp: calls_advance_def later_state_def)

lemma Append_call_tables:
  "Append C env (s :: 'w call_db_scheme) chat kind m d = Inr (n, s') \<Longrightarrow>
    calls s' = calls s \<and> call_operations s' = call_operations s"
  by (auto elim!: Append_Inr simp: bump_seq_def)

lemma Append_chat_ids: "Append C env s chat kind m d = Inr (n, s') \<Longrightarrow> c_id ` set (chats s') = c_id ` set (chats s)"
  by (simp add: Append_chats bump_seq_id_set)

lemma calls_set_db_ok: "db_ok s \<Longrightarrow> db_ok (s\<lparr>calls := x\<rparr>)" "db_ok s \<Longrightarrow> db_ok (s\<lparr>call_operations := y\<rparr>)"
  using same_core_db_ok [of s "s\<lparr>calls := x\<rparr>"] same_core_db_ok [of s "s\<lparr>call_operations := y\<rparr>"]
  by (simp_all add: same_core_def)

lemma length_filter_update_le:
  "(\<And>r. r \<in> set t \<Longrightarrow> p r \<Longrightarrow> P (f r) \<Longrightarrow> P r) \<Longrightarrow>
    length (filter P (update_rows p f t)) \<le> length (filter P t)"
proof (induction t)
  case (Cons r t)
  then have "length (filter P (update_rows p f t)) \<le> length (filter P t)" by simp
  with Cons.prems [of r] show ?case by (auto simp: update_rows_def)
qed simp

lemma live_calls_eq: "live_calls s chat = filter (\<lambda>l. l_chat l = chat \<and> live l) (calls s)"
  by (simp add: live_calls_def live_def)

text \<open>The state changes of \<open>signal\<close> and of the cleanup: set the state of one call.\<close>

definition set_state :: "ident \<Rightarrow> string \<Rightarrow> time \<Rightarrow> call_row list \<Rightarrow> call_row list" where
  "set_state call next t = update_rows (\<lambda>l. l_id l = call) (\<lambda>l. l\<lparr>l_state := next, l_updated := t\<rparr>)"

lemma set_set_state:
  "set (set_state call next t ls) =
    (\<lambda>l. if l_id l = call then l\<lparr>l_state := next, l_updated := t\<rparr> else l) ` set ls"
  by (simp add: set_state_def set_update_rows)

lemma set_state_ok:
  assumes ok: "calls_ok s" and core: "db_ok s'" and cs: "calls s' = set_state call next t (calls s)"
    and ops: "unique_on p_key (call_operations s')"
    and step: "\<And>l. l \<in> set (calls s) \<Longrightarrow> l_id l = call \<Longrightarrow> later_state (l_state l) next"
    and st: "next \<in> call_states" and refs: "c_id ` set (chats s') = c_id ` set (chats s)"
  shows "calls_ok s' \<and> calls_advance s s'"
proof
  have live: "live (l\<lparr>l_state := next, l_updated := t\<rparr>) \<Longrightarrow> live l" if "l \<in> set (calls s)" "l_id l = call" for l
    using step [OF that] st ok that by (auto simp: live_def later_state_def call_states_def calls_ok_def)
  have "length (live_calls s' chat) \<le> length (live_calls s chat)" for chat
    unfolding live_calls_eq cs set_state_def using live by (intro length_filter_update_le) auto
  moreover have "unique_on l_id (calls s')"
    using ok unfolding cs set_state_def by (intro unique_on_update) (simp_all add: calls_ok_def)
  ultimately show "calls_ok s'"
    using ok core ops st unfolding calls_ok_def cs set_set_state refs by (auto intro: order_trans)
  show "calls_advance s s'"
    unfolding calls_advance_def cs set_set_state
  proof (intro ballI disjI1)
    fix l assume l: "l \<in> set (calls s)"
    show "\<exists>l'\<in>(\<lambda>l. if l_id l = call then l\<lparr>l_state := next, l_updated := t\<rparr> else l) ` set (calls s).
        parties l' = parties l \<and> later_state (l_state l) (l_state l')"
      using l step [OF l] by (intro bexI [of _ "if l_id l = call then l\<lparr>l_state := next, l_updated := t\<rparr> else l"])
        (auto simp: parties_def later_state_def)
  qed
qed

lemma createCall_cases:
  assumes "createCall C env s b who chat = (r, es, s')"
  obtains (Refused) "s' = s" "es = []" "\<And>code v. r \<noteq> Reply code v"
  | (Ringing) mode callee ls seq where "b = Body mode" "mode = ''audio'' \<or> mode = ''video''"
      "r = Reply 201 (uuid env, ''ringing'', seq)" "es = [Wake chat]"
      "callPermission False s who chat"
      "callee \<in> m_user ` set (active_members s chat)" "callee \<noteq> user_id who" "live_calls s chat = []"
      "insert_row l_id \<lparr>l_id = uuid env, l_chat = chat, l_caller = user_id who, l_callee = callee,
         l_state = ''ringing'', l_mode = mode, l_created = now env, l_updated = now env\<rparr> (calls s) = Some ls"
      "Append C (shift_env 9 env) (s\<lparr>calls := ls\<rparr>) chat ''call.ringing'' []
         (Some (ringing_data (user_id who) (uuid env) mode)) = Inr (seq, s')"
proof (cases "\<exists>code v. r = Reply code v")
  case False
  with assms have "s' = s \<and> es = []"
    by (auto simp: createCall_def Error_def Let_def split: sum.splits if_splits option.splits)
  with False Refused show ?thesis by blast
next
  case True
  then show ?thesis
  proof (elim exE)
    fix code v assume rr: "r = Reply code v"
    with assms obtain mode where b: "Decode b = Inr mode" and m: "\<not> (mode \<noteq> ''audio'' \<and> mode \<noteq> ''video'')"
      by (auto simp: createCall_def Error_def split: sum.splits if_splits)
    from rr assms b m obtain callee where p: "callPermission (flt env 6) s who chat"
      and callee: "query_row (map m_user (filter (\<lambda>m. m_user m \<noteq> user_id who) (active_members s chat))) = Some callee"
      and none: "length (live_calls s chat) = 0"
      by (simp add: createCall_def Error_def split: if_splits option.splits)
    let ?l = "\<lparr>l_id = uuid env, l_chat = chat, l_caller = user_id who, l_callee = callee,
         l_state = ''ringing'', l_mode = mode, l_created = now env, l_updated = now env\<rparr>"
    from rr assms b m callee obtain ls where ins: "insert_row l_id ?l (calls s) = Some ls"
      by (cases "insert_row l_id ?l (calls s)") (auto simp: createCall_def Error_def split: if_splits option.splits)
    from rr assms b m callee ins obtain seq where
      app: "Append C (shift_env 9 env) (s\<lparr>calls := ls\<rparr>) chat ''call.ringing'' []
         (Some (ringing_data (user_id who) (uuid env) mode)) = Inr (seq, s')"
      and r: "r = Reply 201 (uuid env, ''ringing'', seq)" "es = [Wake chat]"
      by (simp add: createCall_def Error_def split: if_splits option.splits sum.splits prod.splits)
    from b have "b = Body mode" by (cases b) auto
    moreover from p have "callPermission False s who chat" by (auto simp: callPermission_def)
    moreover from query_row_SomeD [OF callee] have "callee \<in> m_user ` set (active_members s chat)" "callee \<noteq> user_id who"
      by auto
    ultimately show ?thesis using m none ins app r by (intro Ringing) auto
  qed
qed

lemma createCall_ok:
  assumes ok: "calls_ok s" and c: "createCall C env s b who chat = (r, es, s')"
  shows "calls_ok s' \<and> calls_advance s s'"
  using c
proof (cases rule: createCall_cases)
  case (Ringing mode callee ls seq)
  note ls = insert_row_SomeD [OF Ringing(9)]
  have cs: "calls s' = ls" "call_operations s' = call_operations s"
    using Append_call_tables [OF Ringing(10)] by simp_all
  have core: "db_ok s'" using Append_db_ok [OF calls_set_db_ok(1) Ringing(10)] ok by (simp add: calls_ok_def)
  have "db_ok s" using ok by (simp add: calls_ok_def)
  then have chat: "chat \<in> c_id ` set (chats s)"
    using Ringing(6) db_ok_refs(2) by (auto simp: active_members_def)
  have "length (live_calls s' d) \<le> 1" for d
    using ok Ringing(8) by (cases "d = chat") (auto simp: live_calls_eq cs ls calls_ok_def)
  moreover have "unique_on l_id (calls s')"
    using ok unique_on_insert [OF Ringing(9)] by (simp add: cs calls_ok_def)
  ultimately have "calls_ok s'"
    using ok core Ringing(7) Append_chat_ids [OF Ringing(10)] chat by (auto simp: calls_ok_def cs ls call_states_def)
  moreover have "calls_advance s s'" by (auto simp: calls_advance_def cs ls later_state_def)
  ultimately show ?thesis ..
qed (use ok in auto)

subsection \<open>Signals, case by case\<close>

lemma signal_next_Inr:
  assumes "signal_next ty l user = Inr next"
  shows "later_state (l_state l) next" "live l"
    "ty = ''accept'' \<Longrightarrow> user = l_callee l \<and> l_state l = ''ringing'' \<and> next = ''active''"
    "ty = ''reject'' \<Longrightarrow> user = l_callee l \<and> l_state l = ''ringing'' \<and> next = ''ended''"
    "ty = ''offer'' \<Longrightarrow> user = l_caller l \<and> next = l_state l"
    "ty = ''answer'' \<Longrightarrow> user = l_callee l \<and> l_state l = ''active'' \<and> next = l_state l"
    "ty \<in> {''accept'', ''reject'', ''end'', ''offer'', ''answer'', ''ice''}"
    "next \<in> call_states"
  using assms
  by (auto simp: signal_next_def later_state_def live_def call_states_def Let_def split: if_splits)

lemma signal_tx_cases:
  assumes "signal_tx C env s who l mode inp p next = (r, es, s')"
  obtains (Refused) "s' = s" "es = []" "\<And>code v. r \<noteq> Reply code v"
  | (Sent) data seq s1 s2 ps where "r = Reply 200 (seq, next)" "es = [Wake (l_chat l)]"
      "callPermission False s who (l_chat l)"
      "signal_data C env s who l mode inp p = Inr data"
      "Append C (shift_env 8 env) s (l_chat l) (''call.'' @ si_type inp) [] (Some data) = Inr (seq, s1)"
      "s2 = (if next \<noteq> l_state l then s1\<lparr>calls := set_state (l_id l) next (now env) (calls s1)\<rparr> else s1)"
      "insert_row p_key \<lparr>p_device = device_id who, p_operation = si_operation inp,
         p_call = l_id l, p_hash = signal_hash (prim C) inp, p_seq = seq, p_state = next,
         p_created = now env\<rparr> (call_operations s) = Some ps"
      "s' = s2\<lparr>call_operations := ps\<rparr>"
proof (cases "\<exists>code v. r = Reply code v")
  case False
  with assms have "s' = s \<and> es = []"
    by (auto simp: signal_tx_def Error_def Let_def split: sum.splits if_splits option.splits)
  with False Refused show ?thesis by blast
next
  case True
  with assms obtain data seq s1 where p: "callPermission (flt env 5) s who (l_chat l)"
    and d: "signal_data C env s who l mode inp p = Inr data"
    and a: "Append C (shift_env 8 env) s (l_chat l) (''call.'' @ si_type inp) [] (Some data) = Inr (seq, s1)"
    by (auto simp: signal_tx_def Error_def Let_def split: sum.splits if_splits option.splits)
  note ops = conjunct2 [OF Append_call_tables [OF a]]
  define s2 where "s2 = (if next \<noteq> l_state l then s1\<lparr>calls := set_state (l_id l) next (now env) (calls s1)\<rparr> else s1)"
  have ops2: "call_operations s2 = call_operations s" by (simp add: s2_def ops)
  from True assms d a obtain ps where
    "insert_row p_key \<lparr>p_device = device_id who, p_operation = si_operation inp,
         p_call = l_id l, p_hash = signal_hash (prim C) inp, p_seq = seq, p_state = next,
         p_created = now env\<rparr> (call_operations s2) = Some ps"
    "r = Reply 200 (seq, next)" "es = [Wake (l_chat l)]" "s' = s2\<lparr>call_operations := ps\<rparr>"
    by (auto simp: signal_tx_def Error_def Let_def s2_def set_state_def split: if_splits option.splits)
  moreover from p have "callPermission False s who (l_chat l)" by (auto simp: callPermission_def)
  ultimately show ?thesis using d a s2_def ops2 by (intro Sent [of seq data s1 s2 ps]) simp_all
qed

lemma signal_cases:
  assumes "signal C decode env s b who call = (r, es, s')"
  obtains (Refused) "s' = s" "es = []" "\<And>code v. r \<noteq> Reply code v"
  | (Again) inp x where "b = Body inp" "s' = s" "es = []" "r = Reply 200 (p_seq x, p_state x)"
      "get_row p_key (device_id who, si_operation inp) (call_operations s) = Some x"
      "p_hash x = signal_hash (prim C) inp" "p_call x = call"
  | (New) inp l mode nxt p where "b = Body inp" "get_row l_id call (calls s) = Some l"
      "user_id who = l_caller l \<or> user_id who = l_callee l"
      "get_row p_key (device_id who, si_operation inp) (call_operations s) = None"
      "signal_next (si_type inp) l (user_id who) = Inr nxt"
      "open_signal C decode who (l_chat l) mode inp = Inr p"
      "signal_tx C env s who l mode inp p nxt = (r, es, s')"
proof (cases "Decode b")
  case (Inl m)
  with assms show ?thesis by (intro Refused) (auto simp: signal_def Error_def)
next
  case (Inr inp)
  then have b: "b = Body inp" by (cases b) auto
  show ?thesis
  proof (cases "if flt env 0 then None else get_row l_id call (calls s)")
    case None
    with assms Inr show ?thesis by (intro Refused) (auto simp: signal_def Error_def)
  next
    case l: (Some l)
    then have gl: "get_row l_id call (calls s) = Some l" by (auto split: if_splits)
    show ?thesis
    proof (cases "if flt env 2 then None else map_option c_mode (get_row c_id (l_chat l) (chats s))")
      case None
      with assms Inr l show ?thesis by (intro Refused) (auto simp: signal_def Error_def split: if_splits)
    next
      case m: (Some mode)
      show ?thesis
      proof (cases "get_row p_key (device_id who, si_operation inp) (call_operations s)")
        case (Some x)
        show ?thesis
        proof (cases "\<exists>code v. r = Reply code v")
          case True
          with assms Inr l m Some have "p_hash x = signal_hash (prim C) inp \<and> p_call x = call
            \<and> r = Reply 200 (p_seq x, p_state x) \<and> es = [] \<and> s' = s"
            by (auto simp: signal_def Error_def split: if_splits)
          then show ?thesis using Again b Some by blast
        next
          case False
          with assms Inr l m Some have "es = [] \<and> s' = s"
            by (auto simp: signal_def Error_def split: if_splits)
          with False Refused show ?thesis by blast
        qed
      next
        case None
        show ?thesis
        proof (cases "\<exists>next p. signal_next (si_type inp) l (user_id who) = Inr next
            \<and> open_signal C decode who (l_chat l) mode inp = Inr p
            \<and> (user_id who = l_caller l \<or> user_id who = l_callee l)
            \<and> signal_tx C env s who l mode inp p next = (r, es, s')")
          case True
          then show ?thesis using New b gl None by blast
        next
          case False
          with assms Inr l m None have "(r, es, s') = Error (case r of Err c _ \<Rightarrow> c | _ \<Rightarrow> 0) (case r of Err _ m \<Rightarrow> m | _ \<Rightarrow> []) s"
            by (auto simp: signal_def Error_def split: if_splits sum.splits prod.splits)
          then show ?thesis by (intro Refused) (auto simp: Error_def)
        qed
      qed
    qed
  qed
qed

lemma signal_ok:
  assumes ok: "calls_ok s" and c: "signal C decode env s b who call = (r, es, s')"
  shows "calls_ok s' \<and> calls_advance s s'"
  using c
proof (cases rule: signal_cases)
  case (New inp l mode nxt p)
  have l: "l \<in> set (calls s)" "l_id l = call" using get_row_SomeD [OF New(2)] by simp_all
  have uniq: "l' = l" if "l' \<in> set (calls s)" "l_id l' = call" for l'
    using ok that l by (auto simp: calls_ok_def intro: unique_on_eqD)
  from New(7) show ?thesis
  proof (cases rule: signal_tx_cases)
    case (Sent data seq s1 s2 ps)
    have s1: "db_ok s1" using Append_db_ok [OF _ Sent(5)] ok by (simp add: calls_ok_def)
    note cs1 = Append_call_tables [OF Sent(5)]
    have ps: "unique_on p_key ps"
      using unique_on_insert [OF Sent(7)] ok by (simp add: calls_ok_def)
    show ?thesis
    proof (cases "nxt = l_state l")
      case True
      then have "s' = s1\<lparr>call_operations := ps\<rparr>" by (simp add: Sent(6,8))
      with ok s1 ps cs1 Append_chat_ids [OF Sent(5)] show ?thesis
        by (auto simp: calls_ok_def live_calls_def intro: calls_set_db_ok)
    next
      case False
      then have s': "s' = s1\<lparr>calls := set_state call nxt (now env) (calls s1), call_operations := ps\<rparr>"
        by (simp add: Sent(6,8) l)
      show ?thesis
      proof (rule set_state_ok [OF ok])
        show "db_ok s'" unfolding s' by (intro calls_set_db_ok s1)
        show "calls s' = set_state call nxt (now env) (calls s)" by (simp add: s' cs1)
        show "unique_on p_key (call_operations s')" by (simp add: s' ps)
        show "later_state (l_state l') nxt" if "l' \<in> set (calls s)" "l_id l' = call" for l'
          using uniq [OF that] signal_next_Inr(1) [OF New(5)] by simp
        show "c_id ` set (chats s') = c_id ` set (chats s)" using Append_chat_ids [OF Sent(5)] by (simp add: s')
        show "nxt \<in> call_states" by (rule signal_next_Inr(8) [OF New(5)])
      qed
    qed
  qed (use ok in auto)
qed (use ok in auto)

text \<open>
  A signal that took effect: it came from a party with an active, sending membership and a live
  device; it moved the call as \<open>signal_next\<close> says, and repeating it answers with the same
  sequence number and changes nothing.
\<close>

lemma signal_effect:
  assumes ok: "calls_ok s" and c: "signal C decode env s (Body inp) who call = (Reply code v, es, s')" and new: "es \<noteq> []"
  shows "\<exists>l l' seq d. l \<in> set (calls s) \<and> l' \<in> set (calls s') \<and> parties l' = parties l \<and> l_id l = call
      \<and> (user_id who = l_caller l \<or> user_id who = l_callee l) \<and> callPermission False s who (l_chat l)
      \<and> signal_next (si_type inp) l (user_id who) = Inr (l_state l')
      \<and> v = (seq, l_state l') \<and> head s (l_chat l) = Some (seq - 1) \<and> head s' (l_chat l) = Some seq \<and> es = [Wake (l_chat l)]
      \<and> events s' = events s @ [\<lparr>e_chat = l_chat l, e_seq = seq, e_kind = ''call.'' @ si_type inp, e_message = [], e_data = d, e_created = now env\<rparr>]
      \<and> get_row p_key (device_id who, si_operation inp) (call_operations s) = None
      \<and> get_row p_key (device_id who, si_operation inp) (call_operations s')
        = Some \<lparr>p_device = device_id who, p_operation = si_operation inp, p_call = call,
            p_hash = signal_hash (prim C) inp, p_seq = seq, p_state = l_state l', p_created = now env\<rparr>"
  using c
proof (cases rule: signal_cases)
  case (New inp' l mode nxt p)
  have inp: "inp' = inp" using New(1) by simp
  have l: "l \<in> set (calls s)" "l_id l = call" using get_row_SomeD [OF New(2)] by simp_all
  from New(7) show ?thesis
  proof (cases rule: signal_tx_cases)
    case (Sent data seq s1 s2 ps)
    note cs1 = Append_call_tables [OF Sent(5)]
    have "db_ok s" using ok by (simp add: calls_ok_def)
    from Append_head [OF this Sent(5)] have hd: "head s (l_chat l) = Some (seq - 1)" "head s1 (l_chat l) = Some seq" by auto
    from Sent(5) obtain d where ev: "events s1 = events s @ [\<lparr>e_chat = l_chat l, e_seq = seq, e_kind = ''call.'' @ si_type inp, e_message = [],
        e_data = d, e_created = now env\<rparr>]" by (rule Append_Inr) (simp add: inp)
    let ?l' = "if nxt = l_state l then l else l\<lparr>l_state := nxt, l_updated := now env\<rparr>"
    have "calls s' = (if nxt = l_state l then calls s else set_state call nxt (now env) (calls s))"
      by (simp add: Sent(6,8) cs1 l)
    then have l': "?l' \<in> set (calls s')" using l by (auto simp: set_set_state)
    have "chats s' = chats s1" "events s' = events s1" by (simp_all add: Sent(6,8))
    with hd ev have hd': "head s' (l_chat l) = Some seq" "events s' = events s @ [\<lparr>e_chat = l_chat l, e_seq = seq, e_kind = ''call.'' @ si_type inp,
        e_message = [], e_data = d, e_created = now env\<rparr>]" by (simp_all add: head_def)
    have ops: "call_operations s' = ps" by (simp add: Sent(8))
    from list_table.get_ins [OF Sent(7)] have
      row: "get_row p_key (device_id who, si_operation inp) (call_operations s')
        = Some \<lparr>p_device = device_id who, p_operation = si_operation inp, p_call = call,
            p_hash = signal_hash (prim C) inp, p_seq = seq, p_state = nxt, p_created = now env\<rparr>"
      by (simp add: ops p_key_def l inp)
    have "get_row p_key (device_id who, si_operation inp) (call_operations s) = None"
      using Sent(7) by (simp add: insert_row_def p_key_def inp split: if_splits)
    with row l l' hd(1) hd' Sent(1-3) New(3,5) show ?thesis
      by (intro exI [of _ l] exI [of _ ?l'] exI [of _ seq] exI [of _ d]) (simp add: parties_def inp)
  qed (use new in auto)
qed (use new in auto)

lemma signal_repeat:
  assumes "get_row p_key (device_id who, si_operation inp) (call_operations s) = Some x"
    "p_hash x = signal_hash (prim C) inp"
    "signal C decode env s (Body inp) who (p_call x) = (r, es, s')"
  shows "es = [] \<and> s' = s \<and> (\<forall>code v. r = Reply code v \<longrightarrow> v = (p_seq x, p_state x))"
  using assms(3)
proof (cases rule: signal_cases)
  case (New inp' l mode nxt p)
  with assms show ?thesis by simp
qed (use assms in auto)

subsection \<open>The cleanup\<close>

text \<open>A cleanup pass over calls: states move forward, and a changed row carries the time of the pass.\<close>

definition swept :: "time \<Rightarrow> 'w call_db_scheme \<Rightarrow> 'w call_db_scheme \<Rightarrow> bool" where
  "swept t s s' \<longleftrightarrow> map l_id (calls s') = map l_id (calls s) \<and> (\<forall>l \<in> set (calls s). \<exists>l' \<in> set (calls s').
     parties l' = parties l \<and> later_state (l_state l) (l_state l') \<and> (l' = l \<or> l_updated l' = t))"

lemma swept_refl: "calls s' = calls s \<Longrightarrow> swept t s s'"
  by (auto simp: swept_def later_state_def)

lemma swept_trans: "swept t s1 s2 \<Longrightarrow> swept t s2 s3 \<Longrightarrow> swept t s1 s3"
  unfolding swept_def
proof (intro conjI ballI)
  fix l assume a: "map l_id (calls s2) = map l_id (calls s1) \<and> (\<forall>l \<in> set (calls s1). \<exists>l' \<in> set (calls s2).
       parties l' = parties l \<and> later_state (l_state l) (l_state l') \<and> (l' = l \<or> l_updated l' = t))"
    "map l_id (calls s3) = map l_id (calls s2) \<and> (\<forall>l \<in> set (calls s2). \<exists>l' \<in> set (calls s3).
       parties l' = parties l \<and> later_state (l_state l) (l_state l') \<and> (l' = l \<or> l_updated l' = t))"
    and "l \<in> set (calls s1)"
  then obtain l2 l3 where l2: "parties l2 = parties l" "later_state (l_state l) (l_state l2)" "l2 = l \<or> l_updated l2 = t"
    and l3: "l3 \<in> set (calls s3)" "parties l3 = parties l2" "later_state (l_state l2) (l_state l3)" "l3 = l2 \<or> l_updated l3 = t"
    by meson
  from l2(2) l3(3) have "later_state (l_state l) (l_state l3)" by (auto simp: later_state_def)
  with l2 l3 show "\<exists>l' \<in> set (calls s3). parties l' = parties l \<and> later_state (l_state l) (l_state l') \<and> (l' = l \<or> l_updated l' = t)"
    by (intro bexI [of _ l3]) auto
qed simp

lemma swept_set_state:
  assumes "calls s' = set_state call ''ended'' t (calls s)"
  shows "swept t s s'"
proof -
  have "\<exists>l' \<in> set (calls s'). parties l' = parties l \<and> later_state (l_state l) (l_state l') \<and> (l' = l \<or> l_updated l' = t)"
    if "l \<in> set (calls s)" for l
    using that by (intro bexI [of _ "if l_id l = call then l\<lparr>l_state := ''ended'', l_updated := t\<rparr> else l"])
      (auto simp: parties_def later_state_def assms set_set_state)
  moreover have "map l_id (calls s') = map l_id (calls s)"
    unfolding assms set_state_def by (rule map_update_rows) simp
  ultimately show ?thesis by (simp add: swept_def)
qed

lemma end_overdue_ok:
  "calls_ok s \<Longrightarrow> end_overdue C env n todo s = (ok, es, s') \<Longrightarrow> calls_ok s' \<and> swept (now env) s s'
    \<and> call_operations s' = call_operations s"
proof (induction C env n todo s arbitrary: ok es s' rule: end_overdue.induct)
  case (1 C env n s)
  then show ?case by (simp add: swept_refl)
next
  case (2 C env n call chat rest s)
  define s1 where "s1 = s\<lparr>calls := set_state call ''ended'' (now env) (calls s)\<rparr>"
  have eta: "s\<lparr>calls := update_rows (\<lambda>l. l_id l = call) (\<lambda>l. l\<lparr>l_state := ''ended'', l_updated := now env\<rparr>) (calls s)\<rparr> = s1"
    by (simp add: s1_def set_state_def)
  note prem = "2.prems"(2) [unfolded end_overdue.simps Let_def eta]
  show ?case
  proof (cases "flt env n \<or> flt env (n + 1) \<or> (\<exists>e. Append C (shift_env (n + 2) env) s1 chat ''call.end'' [] (Some (timeout_data call)) = Inl e)
      \<or> flt env (n + 4)")
    case True
    have "s' = s"
    proof (cases "Append C (shift_env (n + 2) env) s1 chat ''call.end'' [] (Some (timeout_data call))")
      case (Inl e)
      show ?thesis using prem unfolding Inl by (simp split: if_splits)
    next
      case (Inr p)
      with True have "flt env n \<or> flt env (n + 1) \<or> flt env (n + 4)" by simp
      then show ?thesis using prem unfolding Inr by (auto split: if_splits prod.splits)
    qed
    with "2.prems" show ?thesis by (simp add: swept_refl)
  next
    case False
    then obtain seq s2 where app: "Append C (shift_env (n + 2) env) s1 chat ''call.end'' [] (Some (timeout_data call)) = Inr (seq, s2)"
      by (cases "Append C (shift_env (n + 2) env) s1 chat ''call.end'' [] (Some (timeout_data call))") auto
    obtain ok3 es3 s3 where r: "end_overdue C env (n + 5) rest s2 = (ok3, es3, s3)" by (cases "end_overdue C env (n + 5) rest s2")
    from prem False have s': "s' = s3" unfolding app by (simp add: r)
    have core: "db_ok s2" using Append_db_ok [OF calls_set_db_ok(1) app [unfolded s1_def]] "2.prems"(1)
      by (simp add: calls_ok_def)
    note tabs = Append_call_tables [OF app]
    have cs: "calls s2 = set_state call ''ended'' (now env) (calls s)" using tabs by (simp add: s1_def)
    have ops: "call_operations s2 = call_operations s" using tabs by (simp add: s1_def)
    have "calls_ok s2"
    proof -
      have "later_state (l_state l) ''ended''" if "l \<in> set (calls s)" for l
        using that "2.prems"(1) by (auto simp: calls_ok_def call_states_def later_state_def)
      then have "calls_ok s2 \<and> calls_advance s s2"
        using Append_chat_ids [OF app] "2.prems"(1) ops
        by (intro set_state_ok [OF "2.prems"(1) core cs]) (simp_all add: call_states_def calls_ok_def s1_def)
      then show ?thesis ..
    qed
    from False have nf: "\<not> (flt env n \<or> flt env (n + 1))" "\<not> flt env (n + 4)" by auto
    from "2.IH" [OF nf(1) refl, unfolded eta, OF app refl nf(2) \<open>calls_ok s2\<close> r] swept_set_state [OF cs] ops
    show ?thesis unfolding s' by (auto intro: swept_trans)
  qed
qed

lemma calls_cleanup_ok:
  assumes ok: "calls_ok s" and c: "calls_cleanup C env s = (r, es, s')"
  shows "calls_ok s' \<and> calls_advance s s'"
proof (cases "flt env 0")
  case True
  with c ok show ?thesis by (auto simp: calls_cleanup_def)
next
  case False
  let ?todo = "map (\<lambda>l. (l_id l, l_chat l)) (filter (overdue (now env)) (calls s))"
  obtain o1 es1 s1 where e: "end_overdue C env 3 ?todo s = (o1, es1, s1)" by (cases "end_overdue C env 3 ?todo s")
  from end_overdue_ok [OF ok e] have ok1: "calls_ok s1" and sw: "swept (now env) s s1" by simp_all
  define old where "old l \<longleftrightarrow> l_state l = ''ended'' \<and> l_updated l < now env - 86400" for l :: call_row
  define ps where "ps = delete_rows (\<lambda>r. p_created r < now env - pol_dedup_retention_hours (policy C) * 3600) (call_operations s1)"
  have eq: "(\<lambda>l. l_state l = ''ended'' \<and> l_updated l < now env - 86400) = old" by (simp add: old_def fun_eq_iff)
  have ups: "unique_on p_key ps" "unique_on p_key (call_operations s1)"
    unfolding ps_def using ok1 by (simp_all add: calls_ok_def unique_on_delete)
  from c have "(if \<not> o1 \<or> flt env 1 then (False, es1, s1)
      else if flt env 2 then (False, es1, s1\<lparr>call_operations := ps\<rparr>)
      else (True, es1, s1\<lparr>call_operations := ps, calls := delete_rows old (calls s1)\<rparr>)) = (r, es, s')"
    using False by (cases o1; cases "flt env 1"; cases "flt env 2") (simp_all add: calls_cleanup_def e ps_def eq Let_def)
  then have "s' = s1\<lparr>call_operations := call_operations s1\<rparr> \<or> s' = s1\<lparr>call_operations := ps\<rparr>
      \<or> s' = s1\<lparr>call_operations := ps, calls := delete_rows old (calls s1)\<rparr>"
    by (simp split: if_splits)
  then consider (A) ps where "unique_on p_key ps" "s' = s1\<lparr>call_operations := ps\<rparr>"
    | (B) "s' = s1\<lparr>call_operations := ps, calls := delete_rows old (calls s1)\<rparr>"
    using ups by metis
  then show ?thesis
  proof cases
    case A
    then have "calls_ok s'" using ok1 by (auto simp: calls_ok_def live_calls_def intro: calls_set_db_ok)
    moreover have "calls_advance s s'" unfolding calls_advance_def
    proof
      fix l assume "l \<in> set (calls s)"
      with sw have "\<exists>l' \<in> set (calls s1). parties l' = parties l \<and> later_state (l_state l) (l_state l')"
        unfolding swept_def by meson
      then show "(\<exists>l' \<in> set (calls s'). parties l' = parties l \<and> later_state (l_state l) (l_state l'))
          \<or> l_state l = ''ended'' \<and> l_id l \<notin> l_id ` set (calls s')"
        using A by simp
    qed
    ultimately show ?thesis ..
  next
    case B
    note s' = B and ps = ups(1)
    have "length (filter P (delete_rows old t)) \<le> length (filter P t)" for P t
      by (induction t) (auto simp: delete_rows_def)
    then have "length (live_calls s' d) \<le> 1" for d
      using ok1 by (auto simp: live_calls_eq s' calls_ok_def intro: order_trans)
    then have "calls_ok s'" using ok1 ps unfolding s' calls_ok_def
      by (auto simp: set_delete_rows intro: calls_set_db_ok unique_on_delete)
    moreover have "calls_advance s s'" unfolding calls_advance_def
    proof
      fix l assume l: "l \<in> set (calls s)"
      with sw obtain l1 where l1: "l1 \<in> set (calls s1)" "parties l1 = parties l"
        "later_state (l_state l) (l_state l1)" "l1 = l \<or> l_updated l1 = now env"
        unfolding swept_def by meson
      show "(\<exists>l' \<in> set (calls s'). parties l' = parties l \<and> later_state (l_state l) (l_state l'))
          \<or> l_state l = ''ended'' \<and> l_id l \<notin> l_id ` set (calls s')"
      proof (cases "old l1")
        case True
        then have "l1 = l" "l_state l = ''ended''" using l1(4) by (auto simp: old_def)
        moreover have "l_id l \<notin> l_id ` set (calls s')"
        proof
          assume "l_id l \<in> l_id ` set (calls s')"
          then obtain l2 where "l2 \<in> set (calls s1)" "\<not> old l2" "l_id l2 = l_id l1"
            by (auto simp: s' set_delete_rows \<open>l1 = l\<close>)
          moreover have "unique_on l_id (calls s1)" using ok1 by (simp add: calls_ok_def)
          ultimately have "l2 = l1" using l1(1) by (auto intro: unique_on_eqD)
          with True \<open>\<not> old l2\<close> show False by simp
        qed
        ultimately show ?thesis by blast
      next
        case False
        with l1 show ?thesis by (auto simp: s' set_delete_rows)
      qed
    qed
    ultimately show ?thesis ..
  qed
qed

text \<open>Without storage faults a pass ends every overdue call.\<close>

lemma end_overdue_complete:
  assumes "db_ok s" "flt env = no_faults" "\<forall>p \<in> set todo. snd p \<in> c_id ` set (chats s)"
    "end_overdue C env n todo s = (ok, es, s')"
  shows "ok \<and> set (calls s') =
    (\<lambda>l. if l_id l \<in> fst ` set todo then l\<lparr>l_state := ''ended'', l_updated := now env\<rparr> else l) ` set (calls s)"
  using assms
proof (induction C env n todo s arbitrary: ok es s' rule: end_overdue.induct)
  case (2 C env n call chat rest s)
  define s1 where "s1 = s\<lparr>calls := set_state call ''ended'' (now env) (calls s)\<rparr>"
  have eta: "s\<lparr>calls := update_rows (\<lambda>l. l_id l = call) (\<lambda>l. l\<lparr>l_state := ''ended'', l_updated := now env\<rparr>) (calls s)\<rparr> = s1"
    by (simp add: s1_def set_state_def)
  note prem = "2.prems"(4) [unfolded end_overdue.simps Let_def eta]
  have ok1: "db_ok s1" unfolding s1_def using "2.prems"(1) by (rule calls_set_db_ok)
  have nf: "\<not> flt (shift_env (n + 2) env) 0" "\<not> flt (shift_env (n + 2) env) 1"
    using "2.prems"(2) by (simp_all add: shift_env_def shift_faults_def)
  from "2.prems"(3) have "get_row c_id chat (chats s) \<noteq> None" by (simp add: get_row_None_iff)
  then obtain h where "head s1 chat = Some h" by (auto simp: head_def s1_def)
  from Append_progress [OF ok1 this nf] obtain s2 where
    app: "Append C (shift_env (n + 2) env) s1 chat ''call.end'' [] (Some (timeout_data call)) = Inr (h + 1, s2)" .
  obtain ok3 es3 s3 where r: "end_overdue C env (n + 5) rest s2 = (ok3, es3, s3)" by (cases "end_overdue C env (n + 5) rest s2")
  have nf1: "\<not> (flt env n \<or> flt env (n + 1))" "\<not> flt env (n + 4)" using "2.prems"(2) by simp_all
  from prem nf1 have s': "s' = s3" "ok = ok3" unfolding app by (simp_all add: r)
  have "\<forall>p \<in> set rest. snd p \<in> c_id ` set (chats s2)"
    using "2.prems"(3) Append_chat_ids [OF app] by (simp add: s1_def)
  from "2.IH" [OF nf1(1) refl, unfolded eta, OF app refl nf1(2) Append_db_ok [OF ok1 app] "2.prems"(2) this r]
  have ok3 and cs: "set (calls s3) = (\<lambda>l. if l_id l \<in> fst ` set rest
        then l\<lparr>l_state := ''ended'', l_updated := now env\<rparr> else l) ` set (calls s2)" by simp_all
  have cs2: "set (calls s2) = (\<lambda>l. if l_id l = call then l\<lparr>l_state := ''ended'', l_updated := now env\<rparr> else l) ` set (calls s)"
    using Append_call_tables [OF app] by (simp add: s1_def set_set_state)
  have "set (calls s') = (\<lambda>l. if l_id l \<in> fst ` set ((call, chat) # rest)
        then l\<lparr>l_state := ''ended'', l_updated := now env\<rparr> else l) ` set (calls s)"
    unfolding s' cs cs2 image_image by (rule image_cong) simp_all
  with \<open>ok3\<close> show ?case by (simp add: s')
qed simp

lemma calls_cleanup_complete:
  assumes "calls_ok s" "flt env = no_faults" "calls_cleanup C env s = (ok, es, s')"
  shows "ok \<and> (\<forall>l \<in> set (calls s'). \<not> overdue (now env) l)"
proof -
  let ?todo = "map (\<lambda>l. (l_id l, l_chat l)) (filter (overdue (now env)) (calls s))"
  obtain o1 es1 s1 where e: "end_overdue C env 3 ?todo s = (o1, es1, s1)" by (cases "end_overdue C env 3 ?todo s")
  have "\<forall>p \<in> set ?todo. snd p \<in> c_id ` set (chats s)" using assms(1) by (auto simp: calls_ok_def)
  with end_overdue_complete [OF _ assms(2) _ e] assms(1) have o1: o1 and
    cs: "set (calls s1) = (\<lambda>l. if l_id l \<in> fst ` set ?todo then l\<lparr>l_state := ''ended'', l_updated := now env\<rparr> else l) ` set (calls s)"
    by (simp_all add: calls_ok_def)
  have "\<not> overdue (now env) l" if "l \<in> set (calls s1)" for l
  proof -
    from that [unfolded cs] obtain l0 where l0: "l0 \<in> set (calls s)"
      "l = (if l_id l0 \<in> fst ` set ?todo then l0\<lparr>l_state := ''ended'', l_updated := now env\<rparr> else l0)" by blast
    show ?thesis
    proof (cases "overdue (now env) l0")
      case True
      with l0(1) have "l_id l0 \<in> fst ` set ?todo" by force
      with l0(2) show ?thesis by (simp add: overdue_def)
    next
      case False
      with l0(2) show ?thesis by (auto simp: overdue_def split: if_splits)
    qed
  qed
  with assms(2,3) e o1 show ?thesis
    by (auto simp: calls_cleanup_def Let_def set_delete_rows)
qed

end
