(* ===== verification/Admission.thy ===== *)
theory Admission
  imports Auth "HOL-Library.Word"
begin

text \<open>
  \<open>core/admission.go\<close> and the outer handler of \<open>core/auth.go\<close>: which requests are served at
  all, and the bounds on requests in service and requests waiting. The two buffered channels
  (\<open>httpSlots\<close>, \<open>httpPending\<close>) are the numbers of tokens they hold; the counters are 64-bit atomics.
\<close>

subsection \<open>The outer handler\<close>

record request =
  rq_path :: string
  rq_method :: string
  rq_origin :: string
  rq_tls :: bool
  rq_forwarded_proto :: string

text \<open>What \<open>Handler\<close> does before admission: refuse, answer the preflight, serve directly, or admit.\<close>

datatype verdict = Refuse nat string | Preflight | Exempt | Guarded

definition origin_allowed :: "server_cfg \<Rightarrow> string \<Rightarrow> bool" where
  "origin_allowed srv origin \<longleftrightarrow> (\<exists>v \<in> set (srv_origins srv). v = origin)"

definition handler_gate :: "server_cfg \<Rightarrow> bool \<Rightarrow> request \<Rightarrow> verdict" where
  "handler_gate srv slots_present r =
     (if rq_origin r \<noteq> [] \<and> \<not> origin_allowed srv (rq_origin r) then Refuse 403 ''origin denied''
      else if rq_origin r \<noteq> [] \<and> rq_method r = ''OPTIONS'' then Preflight
      else if rq_path r \<noteq> ''/healthz'' \<and> rq_path r \<noteq> ''/readyz'' \<and> \<not> rq_tls r \<and> \<not> srv_allow_insecure_loopback srv
        \<and> \<not> (srv_trusted_proxy srv \<and> rq_forwarded_proto r = ''https'')
      then Refuse 400 ''HTTPS required''
      else if rq_path r \<noteq> ''/v1/ws'' \<and> rq_path r \<noteq> ''/healthz'' \<and> rq_path r \<noteq> ''/readyz'' \<and> slots_present
      then Guarded else Exempt)"

lemma handler_gate_secure:
  assumes "handler_gate srv sl r = Exempt \<or> handler_gate srv sl r = Guarded"
    "rq_path r \<noteq> ''/healthz''" "rq_path r \<noteq> ''/readyz''" "\<not> srv_allow_insecure_loopback srv"
  shows "rq_tls r \<or> srv_trusted_proxy srv \<and> rq_forwarded_proto r = ''https''"
  using assms by (auto simp: handler_gate_def split: if_splits)

lemma handler_gate_origin:
  assumes "handler_gate srv sl r = Exempt \<or> handler_gate srv sl r = Guarded" "rq_origin r \<noteq> []"
  shows "rq_origin r \<in> set (srv_origins srv)"
  using assms by (auto simp: handler_gate_def origin_allowed_def split: if_splits)

subsection \<open>Admission\<close>

record gate =
  slot_cap :: nat
  pending_cap :: nat
  slots :: nat
  pending :: nat
  admitted :: "64 word"
  rejected :: "64 word"
  wait_ns :: "64 word"

definition new_gate :: "capacity_cfg \<Rightarrow> gate" where
  "new_gate c = \<lparr>slot_cap = nat (cap_workers c * 4), pending_cap = nat (cap_workers c * 8), slots = 0, pending = 0,
     admitted = 0, rejected = 0, wait_ns = 0\<rparr>"

text \<open>A send on a buffered channel succeeds at once iff there is room.\<close>

definition take_slot :: "gate \<Rightarrow> gate option" where
  "take_slot g = (if slots g < slot_cap g then Some (g\<lparr>slots := slots g + 1, admitted := admitted g + 1\<rparr>) else None)"

datatype admission = Admitted | Waiting | Rejected

text \<open>The two non-blocking attempts of \<open>admitHTTP\<close>.\<close>

definition admit_first :: "gate \<Rightarrow> admission \<times> gate" where
  "admit_first g =
     (case take_slot g of
        Some g' \<Rightarrow> (Admitted, g')
      | None \<Rightarrow>
          (if pending g < pending_cap g then (Waiting, g\<lparr>pending := pending g + 1\<rparr>)
           else (Rejected, g\<lparr>rejected := rejected g + 1\<rparr>)))"

text \<open>
  The blocking \<open>select\<close> of a waiter: it gets a slot, or it gives up (timer or a cancelled
  context); the deferred calls add the time waited and leave the queue of waiters.
\<close>

definition leave_queue :: "64 word \<Rightarrow> gate \<Rightarrow> gate" where
  "leave_queue ns g = g\<lparr>wait_ns := wait_ns g + ns, pending := pending g - 1\<rparr>"

definition admit_wait :: "bool \<Rightarrow> 64 word \<Rightarrow> gate \<Rightarrow> (admission \<times> gate) option" where
  "admit_wait gives_up ns g =
     (if gives_up then Some (Rejected, leave_queue ns (g\<lparr>rejected := rejected g + 1\<rparr>))
      else map_option (\<lambda>g'. (Admitted, leave_queue ns g')) (take_slot g))"

definition release_slot :: "gate \<Rightarrow> gate" where
  "release_slot g = g\<lparr>slots := slots g - 1\<rparr>"

record admission_metrics =
  am_active :: nat
  am_pending :: nat
  am_admitted :: "64 word"
  am_rejected :: "64 word"
  am_wait_ns :: "64 word"

definition AdmissionStats :: "gate \<Rightarrow> admission_metrics" where
  "AdmissionStats g = \<lparr>am_active = slots g, am_pending = pending g, am_admitted = admitted g,
     am_rejected = rejected g, am_wait_ns = wait_ns g\<rparr>"

subsection \<open>Runs\<close>

text \<open>
  Requests in the order of their arrival, each in its phase; a step is one channel operation of
  one request.
\<close>

datatype phase = Serving | Queued | Turned_away | Served

inductive gate_step :: "gate \<times> phase list \<Rightarrow> gate \<times> phase list \<Rightarrow> bool" where
  arrive: "admit_first g = (a, g') \<Longrightarrow>
    gate_step (g, ps) (g', ps @ [case a of Admitted \<Rightarrow> Serving | Waiting \<Rightarrow> Queued | Rejected \<Rightarrow> Turned_away])"
| settle: "i < length ps \<Longrightarrow> ps ! i = Queued \<Longrightarrow> admit_wait gives_up ns g = Some (a, g') \<Longrightarrow>
    gate_step (g, ps) (g', ps[i := if a = Admitted then Serving else Turned_away])"
| finish: "i < length ps \<Longrightarrow> ps ! i = Serving \<Longrightarrow> gate_step (g, ps) (release_slot g, ps[i := Served])"

inductive_cases gate_stepE: "gate_step (g, ps) st"

definition phase_count :: "phase \<Rightarrow> phase list \<Rightarrow> nat" where
  "phase_count p ps = count_list ps p"

definition gate_ok :: "gate \<times> phase list \<Rightarrow> bool" where
  "gate_ok st = (case st of (g, ps) \<Rightarrow>
     slots g = phase_count Serving ps \<and> slots g \<le> slot_cap g
     \<and> pending g = phase_count Queued ps \<and> pending g \<le> pending_cap g
     \<and> admitted g = of_nat (phase_count Serving ps + phase_count Served ps)
     \<and> rejected g = of_nat (phase_count Turned_away ps))"

lemma phase_count_append [simp]: "phase_count p (ps @ [q]) = phase_count p ps + (if q = p then 1 else 0)"
  by (simp add: phase_count_def)

lemma count_list_update: "i < length xs \<Longrightarrow>
    count_list (xs[i := y]) x + (if xs ! i = x then 1 else 0) = count_list xs x + (if y = x then 1 else 0)"
proof (induction xs arbitrary: i)
  case (Cons a xs)
  show ?case
  proof (cases i)
    case 0
    then show ?thesis by simp
  next
    case (Suc j)
    with Cons have "count_list (xs[j := y]) x + (if xs ! j = x then 1 else 0) = count_list xs x + (if y = x then 1 else 0)"
      by simp
    with Suc show ?thesis by (cases "y = x"; cases "xs ! j = x"; cases "a = x") simp_all
  qed
qed simp

lemma phase_count_update:
  "i < length ps \<Longrightarrow> ps ! i = p \<Longrightarrow> p \<noteq> q \<Longrightarrow>
    phase_count r (ps[i := q]) = (if r = q then phase_count r ps + 1 else if r = p then phase_count r ps - 1 else phase_count r ps)
    \<and> phase_count p ps > 0"
  using count_list_update [of i ps q r] count_list_update [of i ps q p] by (auto simp: phase_count_def split: if_splits)

lemma gate_step_ok: "gate_step st st' \<Longrightarrow> gate_ok st \<Longrightarrow> gate_ok st'"
proof (induction rule: gate_step.induct)
  case (arrive g a g' ps)
  then show ?case
    by (auto simp: admit_first_def take_slot_def gate_ok_def split: if_splits)
next
  case (settle i ps gives_up ns g a g')
  note cnt = phase_count_update [OF settle.hyps(1,2)]
  have "pending g > 0" using settle.prems cnt [of Serving Serving] by (simp add: gate_ok_def)
  with settle.hyps(3) settle.prems show ?case
    by (auto simp: admit_wait_def take_slot_def leave_queue_def gate_ok_def cnt split: if_splits)
next
  case (finish i ps g)
  note cnt = phase_count_update [OF finish.hyps]
  have "slots g > 0" using finish.prems cnt [of Queued Queued] by (simp add: gate_ok_def)
  with finish.prems show ?case
    by (auto simp: release_slot_def gate_ok_def cnt)
qed

lemma new_gate_ok: "gate_ok (new_gate c, [])"
  by (simp add: gate_ok_def new_gate_def phase_count_def)

lemma gate_step_caps: "gate_step (g, ps) (g', ps') \<Longrightarrow> slot_cap g' = slot_cap g \<and> pending_cap g' = pending_cap g"
  by (erule gate_stepE)
    (auto simp: admit_first_def take_slot_def admit_wait_def leave_queue_def release_slot_def split: if_splits option.splits)

lemma gate_reachable:
  assumes "gate_step\<^sup>*\<^sup>* (new_gate c, []) (g, ps)"
  shows "gate_ok (g, ps) \<and> slot_cap g = nat (cap_workers c * 4) \<and> pending_cap g = nat (cap_workers c * 8)"
proof -
  have "gate_ok st \<and> slot_cap (fst st) = nat (cap_workers c * 4) \<and> pending_cap (fst st) = nat (cap_workers c * 8)"
    if "gate_step\<^sup>*\<^sup>* (new_gate c, []) st" for st
    using that
  proof (induction rule: rtranclp_induct)
    case base
    show ?case using new_gate_ok by (simp add: new_gate_def)
  next
    case (step y z)
    then show ?case using gate_step_ok gate_step_caps by (cases y; cases z) auto
  qed
  from this [OF assms] show ?thesis by simp
qed

end
