(* ===== verification/Realtime.thy ===== *)
theory Realtime
  imports Sending Admission "HOL-Library.AList"
begin

text \<open>
  \<open>core/realtime.go\<close>, \<open>core/sharedreplay.go\<close> and \<open>core/connection_auth.go\<close>: websocket connections,
  their subscriptions, the notifications between the journal and the sockets, and the two
  background sweeps. Connections are named by numbers (the Go pointers). The maps of sets
  \<open>Core.connections\<close> and \<open>Core.subscribers\<close> are lists of (key, connection) pairs: a key without
  pairs is a deleted entry. A step below is one critical section of \<open>Core.mu\<close>, or one event that
  the goroutine of a connection handles.
\<close>

subsection \<open>A connection\<close>

datatype frame = FEvent event | FSyncError ident string | FError string

record ws_command =
  cmd_type :: string
  cmd_chat :: ident
  cmd_after :: int

text \<open>
  \<open>cn_wake\<close>: the token in the wake channel of capacity one; \<open>cn_done\<close>: the done channel is closed;
  \<open>cn_cursors\<close>: the subscriptions of \<open>runWebsocket\<close>; \<open>cn_sent\<close>: what was written to the socket.
\<close>

record conn =
  cn_id :: identity
  cn_wake :: bool
  cn_pending :: "ident list"
  cn_done :: bool
  cn_commands :: "ws_command list"
  cn_cursors :: "(ident \<times> int) list"
  cn_sent :: "frame list"

definition new_conn :: "identity \<Rightarrow> conn" where
  "new_conn i = \<lparr>cn_id = i, cn_wake = False, cn_pending = [], cn_done = False, cn_commands = [],
     cn_cursors = [], cn_sent = []\<rparr>"

definition notify :: "ident \<Rightarrow> conn \<Rightarrow> conn" where
  "notify chat c = c\<lparr>cn_pending := List.insert chat (cn_pending c), cn_wake := True\<rparr>"

definition takePending :: "conn \<Rightarrow> ident list \<times> conn" where
  "takePending c = (cn_pending c, c\<lparr>cn_pending := []\<rparr>)"

definition close_conn :: "conn \<Rightarrow> conn" where
  "close_conn c = c\<lparr>cn_done := True\<rparr>"

text \<open>A write to the socket; the oracle says which of the connection's writes fail.\<close>

definition write_frame :: "(nat \<Rightarrow> bool) \<Rightarrow> frame \<Rightarrow> conn \<Rightarrow> conn option" where
  "write_frame bad fr c = (if bad (length (cn_sent c)) then None else Some (c\<lparr>cn_sent := cn_sent c @ [fr]\<rparr>))"

text \<open>The reader goroutine: a command that does not fit into the buffer closes the connection.\<close>

definition receive_command :: "ws_command option \<Rightarrow> conn \<Rightarrow> conn" where
  "receive_command cmd c =
     (case cmd of
        None \<Rightarrow> close_conn c
      | Some x \<Rightarrow> (if length (cn_commands c) < 8 then c\<lparr>cn_commands := cn_commands c @ [x]\<rparr> else close_conn c))"

subsection \<open>The hub\<close>

record hub =
  conn_of :: "nat \<Rightarrow> conn option"
  registered :: "(ident \<times> nat) list"
  subscribers :: "(ident \<times> nat) list"
  active_conns :: int
  replay_heads :: "ident \<Rightarrow> int option"

definition new_hub :: hub where
  "new_hub = \<lparr>conn_of = (\<lambda>_. None), registered = [], subscribers = [], active_conns = 0, replay_heads = (\<lambda>_. None)\<rparr>"

text \<open>The loops over sets of connections touch each connection once, so their order is immaterial.\<close>

definition on_conns :: "(nat \<Rightarrow> conn \<Rightarrow> bool) \<Rightarrow> (conn \<Rightarrow> conn) \<Rightarrow> hub \<Rightarrow> hub" where
  "on_conns P f h = h\<lparr>conn_of := (\<lambda>k. case conn_of h k of None \<Rightarrow> None
     | Some c \<Rightarrow> Some (if P k c then f c else c))\<rparr>"

definition set_conn :: "nat \<Rightarrow> conn \<Rightarrow> hub \<Rightarrow> hub" where
  "set_conn k c h = h\<lparr>conn_of := (conn_of h)(k := Some c)\<rparr>"

definition disconnect_user :: "ident \<Rightarrow> hub \<Rightarrow> hub" where
  "disconnect_user user h = on_conns (\<lambda>k c. k \<in> snd ` set (registered h) \<and> user_id (cn_id c) = user) close_conn h"

definition disconnect_device :: "ident \<Rightarrow> hub \<Rightarrow> hub" where
  "disconnect_device device h = on_conns (\<lambda>k c. (device, k) \<in> set (registered h)) close_conn h"

definition Wake_subs :: "ident \<Rightarrow> hub \<Rightarrow> hub" where
  "Wake_subs chat h = on_conns (\<lambda>k c. (chat, k) \<in> set (subscribers h)) (notify chat) h"

definition subscribe :: "nat \<Rightarrow> ident \<Rightarrow> bool \<Rightarrow> hub \<Rightarrow> hub" where
  "subscribe k chat enabled h =
     (if enabled then h\<lparr>subscribers := List.insert (chat, k) (subscribers h)\<rparr>
      else on_conns (\<lambda>j c. j = k) (\<lambda>c. c\<lparr>cn_pending := removeAll chat (cn_pending c)\<rparr>)
             (h\<lparr>subscribers := removeAll (chat, k) (subscribers h)\<rparr>))"

text \<open>What a handler's effects do to the connections.\<close>

fun apply_effect :: "effect \<Rightarrow> hub \<Rightarrow> hub" where
  "apply_effect (Wake chat) h = Wake_subs chat h"
| "apply_effect (DisconnectUser u) h = disconnect_user u h"
| "apply_effect (DisconnectDevice d) h = disconnect_device d h"

definition apply_effects :: "effect list \<Rightarrow> hub \<Rightarrow> hub" where
  "apply_effects es h = fold apply_effect es h"

subsection \<open>Opening a websocket\<close>

text \<open>The checks before the capacity test: the origin and the one-time ticket.\<close>

definition websocket_auth ::
  "'z core \<Rightarrow> env \<Rightarrow> 'z db_scheme \<Rightarrow> string \<Rightarrow> string \<Rightarrow> ((nat \<times> string) + identity) \<times> 'z db_scheme" where
  "websocket_auth C env s origin tk =
     (if origin \<noteq> [] \<and> \<not> origin_allowed (cfg_server (cfg C)) origin then (Inl (403, ''origin denied''), s)
      else if tk = [] then (Inl (401, ''one-time ticket required''), s)
      else case redeemTicket C env s tk of
        (None, s') \<Rightarrow> (Inl (401, ''invalid or expired ticket''), s')
      | (Some i, s') \<Rightarrow> (Inr i, s'))"

definition reserve_conn :: "capacity_cfg \<Rightarrow> hub \<Rightarrow> ((nat \<times> string) + unit) \<times> hub" where
  "reserve_conn cap h =
     (if active_conns h \<ge> cap_max_connections cap then (Inl (503, ''connection capacity reached''), h)
      else (Inr (), h\<lparr>active_conns := active_conns h + 1\<rparr>))"

definition upgrade_failed :: "hub \<Rightarrow> hub" where
  "upgrade_failed h = h\<lparr>active_conns := active_conns h - 1\<rparr>"

definition register_conn :: "nat \<Rightarrow> identity \<Rightarrow> hub \<Rightarrow> hub" where
  "register_conn k i h = (set_conn k (new_conn i) h)\<lparr>registered := (device_id i, k) # registered h\<rparr>"

subsection \<open>Catching up\<close>

text \<open>
  \<open>flush\<close>: up to ten pages of a hundred events. Page \<open>p\<close> reads the store as \<open>rd p\<close> says: its
  environment and the snapshots of its two queries.
\<close>

datatype flush_end = Caught_up | Behind | Refused go_error | Broken

fun write_events :: "(nat \<Rightarrow> bool) \<Rightarrow> ident \<Rightarrow> event list \<Rightarrow> conn \<Rightarrow> bool \<times> conn" where
  "write_events bad chat [] c = (True, c)"
| "write_events bad chat (e # es) c =
     (case write_frame bad (FEvent e) c of
        None \<Rightarrow> (False, c)
      | Some c1 \<Rightarrow> write_events bad chat es (c1\<lparr>cn_cursors := AList.update chat (evt_seq e) (cn_cursors c1)\<rparr>))"

fun flush_pages ::
  "'z core \<Rightarrow> (nat \<Rightarrow> env \<times> 'z db_scheme \<times> 'z db_scheme) \<Rightarrow> (nat \<Rightarrow> bool) \<Rightarrow> ident \<Rightarrow>
    nat list \<Rightarrow> int \<Rightarrow> conn \<Rightarrow> flush_end \<times> conn" where
  "flush_pages C rd bad chat [] cursor c = (Behind, c)"
| "flush_pages C rd bad chat (p # ps) cursor c =
     (case rd p of (env, s1, s2) \<Rightarrow>
       case Events_between C env s1 s2 (cn_id c) chat cursor 100 of
         Inl e \<Rightarrow> (Refused e, c)
       | Inr evs \<Rightarrow>
           (case write_events bad chat evs c of
              (False, c1) \<Rightarrow> (Broken, c1)
            | (True, c1) \<Rightarrow>
                (if length evs < 100 then (Caught_up, c1)
                 else flush_pages C rd bad chat ps (case evs of [] \<Rightarrow> cursor | _ \<Rightarrow> evt_seq (last evs)) c1)))"

definition flush ::
  "'z core \<Rightarrow> (nat \<Rightarrow> env \<times> 'z db_scheme \<times> 'z db_scheme) \<Rightarrow> (nat \<Rightarrow> bool) \<Rightarrow> nat \<Rightarrow> ident \<Rightarrow> hub \<Rightarrow> bool \<times> hub" where
  "flush C rd bad k chat h =
     (case conn_of h k of
        None \<Rightarrow> (True, h)
      | Some c \<Rightarrow>
          (case map_of (cn_cursors c) chat of
             None \<Rightarrow> (True, h)
           | Some cursor \<Rightarrow>
               (case flush_pages C rd bad chat [0..<10] cursor c of
                  (Caught_up, c1) \<Rightarrow> (True, set_conn k c1 h)
                | (Behind, c1) \<Rightarrow> (True, set_conn k (notify chat c1) h)
                | (Broken, c1) \<Rightarrow> (False, set_conn k c1 h)
                | (Refused e, c1) \<Rightarrow>
                    (let h1 = subscribe k chat False (set_conn k c1 h) in
                     case conn_of h1 k of
                       None \<Rightarrow> (False, h1)
                     | Some c2 \<Rightarrow>
                         (let c3 = c2\<lparr>cn_cursors := AList.delete chat (cn_cursors c2)\<rparr> in
                          case write_frame bad (FSyncError chat (error_text e)) c3 of
                            None \<Rightarrow> (False, set_conn k c3 h1)
                          | Some c4 \<Rightarrow> (True, set_conn k c4 h1))))))"

subsection \<open>The loop of a connection\<close>

text \<open>A command; \<open>False\<close> ends the loop. \<open>s\<close> is the store the membership check reads.\<close>

definition handle_command ::
  "'z core \<Rightarrow> (nat \<Rightarrow> env \<times> 'z db_scheme \<times> 'z db_scheme) \<Rightarrow> (nat \<Rightarrow> bool) \<Rightarrow> bool \<Rightarrow> 'z db_scheme \<Rightarrow>
    nat \<Rightarrow> ws_command \<Rightarrow> hub \<Rightarrow> bool \<times> hub" where
  "handle_command C rd bad fail s k cmd h =
     (let refuse = (\<lambda>m c. case write_frame bad (FError m) c of None \<Rightarrow> (False, h) | Some c1 \<Rightarrow> (True, set_conn k c1 h)) in
      case conn_of h k of
        None \<Rightarrow> (False, h)
      | Some c \<Rightarrow>
          (if cmd_type cmd = ''unsubscribe'' then
             (let h1 = subscribe k (cmd_chat cmd) False h in
              case conn_of h1 k of
                None \<Rightarrow> (False, h1)
              | Some c1 \<Rightarrow> (True, set_conn k (c1\<lparr>cn_cursors := AList.delete (cmd_chat cmd) (cn_cursors c1)\<rparr>) h1))
           else if cmd_type cmd \<noteq> ''subscribe'' \<or> cmd_after cmd < 0 \<or> length (cn_cursors c) \<ge> 128
           then refuse ''invalid subscription'' c
           else if fail \<or> Member s (user_id (cn_id c)) (cmd_chat cmd) = None
           then refuse ''membership required'' c
           else flush C rd bad k (cmd_chat cmd)
                  (subscribe k (cmd_chat cmd) True
                    (set_conn k (c\<lparr>cn_cursors := AList.update (cmd_chat cmd) (cmd_after cmd) (cn_cursors c)\<rparr>) h))))"

text \<open>The pending chats are flushed one by one, in any order (a Go map).\<close>

fun flush_all ::
  "'z core \<Rightarrow> (ident \<Rightarrow> nat \<Rightarrow> env \<times> 'z db_scheme \<times> 'z db_scheme) \<Rightarrow> (nat \<Rightarrow> bool) \<Rightarrow> nat \<Rightarrow> ident list \<Rightarrow> hub \<Rightarrow> bool \<times> hub" where
  "flush_all C rd bad k [] h = (True, h)"
| "flush_all C rd bad k (chat # rest) h =
     (case flush C (rd chat) bad k chat h of
        (False, h1) \<Rightarrow> (False, h1)
      | (True, h1) \<Rightarrow> flush_all C rd bad k rest h1)"

text \<open>Leaving the loop: the deferred calls.\<close>

definition leave_loop :: "nat \<Rightarrow> hub \<Rightarrow> hub" where
  "leave_loop k h =
     (case conn_of h k of
        None \<Rightarrow> h
      | Some c \<Rightarrow>
          (let h1 = fold (\<lambda>chat. subscribe k chat False) (map fst (cn_cursors c)) h in
           on_conns (\<lambda>j c. j = k) close_conn
             (h1\<lparr>registered := removeAll (device_id (cn_id c), k) (registered h1), active_conns := active_conns h1 - 1\<rparr>)))"

subsection \<open>The shared replay poll\<close>

definition poll_chats :: "hub \<Rightarrow> ident list" where
  "poll_chats h = remdups (map fst (subscribers h))"

definition poll_prune :: "hub \<Rightarrow> hub" where
  "poll_prune h = h\<lparr>replay_heads := (\<lambda>chat. if chat \<in> fst ` set (subscribers h) then replay_heads h chat else None)\<rparr>"

definition poll_chat :: "'z db_scheme \<Rightarrow> ident \<Rightarrow> hub \<Rightarrow> hub" where
  "poll_chat s chat h =
     (if chat \<notin> fst ` set (subscribers h) then h\<lparr>replay_heads := (replay_heads h)(chat := None)\<rparr>
      else let found = head s chat; known = replay_heads h chat;
               h1 = (if found = None \<or> known = None \<or> found \<noteq> known then Wake_subs chat h else h) in
           if found \<noteq> None then h1\<lparr>replay_heads := (replay_heads h1)(chat := found)\<rparr> else h1)"

text \<open>One batch of at most 500 chats: its query may fail.\<close>

definition poll_batch :: "bool \<Rightarrow> 'z db_scheme \<Rightarrow> ident list \<Rightarrow> hub \<Rightarrow> hub" where
  "poll_batch fail s todo h = (if fail then h else fold (poll_chat s) todo h)"

fun chunks :: "nat \<Rightarrow> 'a list \<Rightarrow> 'a list list" where
  "chunks n xs = (if xs = [] \<or> n = 0 then [] else take n xs # chunks n (drop n xs))"

declare chunks.simps [simp del]

definition pollReplayHeads :: "(nat \<Rightarrow> bool) \<Rightarrow> (nat \<Rightarrow> 'z db_scheme) \<Rightarrow> hub \<Rightarrow> hub" where
  "pollReplayHeads fail rd h =
     fold (\<lambda>(i, todo). poll_batch (fail i) (rd i) todo) (enumerate 0 (chunks 500 (poll_chats h))) (poll_prune h)"

subsection \<open>The shared authorization sweep\<close>

definition active_users :: "'z db_scheme \<Rightarrow> ident \<Rightarrow> ident option" where
  "active_users s device =
     query_row [d_user d. d \<leftarrow> devices s, u \<leftarrow> users s,
       u_id u = d_user d \<and> \<not> d_revoked d \<and> \<not> u_disabled u \<and> d_id d = device]"

text \<open>
  A batch of connections snapshotted under the lock; a failed query closes them all. A device
  without an active row reads as the empty user name in Go's map.
\<close>

definition validate_batch :: "bool \<Rightarrow> 'z db_scheme \<Rightarrow> (ident \<times> nat) list \<Rightarrow> hub \<Rightarrow> hub" where
  "validate_batch fail s todo h =
     on_conns (\<lambda>k c. \<exists>(device, j) \<in> set todo. j = k \<and>
         (fail \<or> (case active_users s device of None \<Rightarrow> [] | Some u \<Rightarrow> u) \<noteq> user_id (cn_id c)))
       close_conn h"

definition conn_devices :: "hub \<Rightarrow> ident list" where
  "conn_devices h = remdups (map fst (registered h))"

definition validateConnections :: "(nat \<Rightarrow> bool) \<Rightarrow> (nat \<Rightarrow> 'z db_scheme) \<Rightarrow> hub \<Rightarrow> hub" where
  "validateConnections fail rd h =
     fold (\<lambda>(i, todo). validate_batch (fail i) (rd i) (filter (\<lambda>(device, k). device \<in> set todo) (registered h)))
       (enumerate 0 (chunks 500 (conn_devices h))) h"

subsection \<open>Runs of the hub\<close>

definition ending :: "nat \<Rightarrow> bool \<times> hub \<Rightarrow> hub" where
  "ending k r = (case r of (True, h) \<Rightarrow> h | (False, h) \<Rightarrow> leave_loop k h)"

text \<open>The state of a run: the hub and the number of upgrades between reservation and registration.\<close>

inductive hub_step :: "'z core \<Rightarrow> hub \<times> nat \<Rightarrow> hub \<times> nat \<Rightarrow> bool" for C where
  reserve: "reserve_conn (cfg_capacity (cfg C)) h = (Inr (), h') \<Longrightarrow> hub_step C (h, up) (h', Suc up)"
| upgrade_fails: "hub_step C (h, Suc up) (upgrade_failed h, up)"
| upgraded: "conn_of h k = None \<Longrightarrow> hub_step C (h, Suc up) (register_conn k i h, up)"
| receive: "conn_of h k = Some c \<Longrightarrow> hub_step C (h, up) (set_conn k (receive_command cmd c) h, up)"
| command: "k \<in> snd ` set (registered h) \<Longrightarrow> conn_of h k = Some c \<Longrightarrow> cn_commands c = cmd # rest \<Longrightarrow>
    hub_step C (h, up) (ending k (handle_command C rd bad fail s k cmd (set_conn k (c\<lparr>cn_commands := rest\<rparr>) h)), up)"
| woken: "k \<in> snd ` set (registered h) \<Longrightarrow> conn_of h k = Some c \<Longrightarrow> cn_wake c \<Longrightarrow>
    takePending (c\<lparr>cn_wake := False\<rparr>) = (taken, c') \<Longrightarrow> set order = set taken \<Longrightarrow>
    hub_step C (h, up) (ending k (flush_all C rds bad k order (set_conn k c' h)), up)"
| leave: "k \<in> snd ` set (registered h) \<Longrightarrow> hub_step C (h, up) (leave_loop k h, up)"
| effect: "hub_step C (h, up) (apply_effect e h, up)"
| prune: "hub_step C (h, up) (poll_prune h, up)"
| poll: "hub_step C (h, up) (poll_batch fail (s :: 'z db_scheme) todo h, up)"
| validate: "hub_step C (h, up) (validate_batch fail (s :: 'z db_scheme) todo h, up)"

subsection \<open>The invariant of the hub\<close>

text \<open>
  Of a connection: pending notifications have a token in the wake channel, the command buffer and
  the number of subscriptions are bounded. Of the hub: the counter is the number of registered
  connections and upgrades, within the configured capacity, and the subscribers of a chat are the
  registered connections that hold a cursor for it.
\<close>

definition conn_good :: "conn \<Rightarrow> bool" where
  "conn_good c \<longleftrightarrow> (cn_pending c \<noteq> [] \<longrightarrow> cn_wake c) \<and> length (cn_commands c) \<le> 8
     \<and> distinct (map fst (cn_cursors c)) \<and> length (cn_cursors c) \<le> 128"

definition hub_ok :: "int \<Rightarrow> hub \<times> nat \<Rightarrow> bool" where
  "hub_ok M st = (case st of (h, up) \<Rightarrow>
     (\<forall>k c. conn_of h k = Some c \<longrightarrow> conn_good c)
     \<and> distinct (map snd (registered h))
     \<and> (\<forall>(d, k) \<in> set (registered h). \<exists>c. conn_of h k = Some c \<and> device_id (cn_id c) = d)
     \<and> active_conns h = int up + int (length (registered h)) \<and> active_conns h \<le> M
     \<and> (\<forall>chat k. (chat, k) \<in> set (subscribers h) \<longleftrightarrow> k \<in> snd ` set (registered h)
          \<and> (\<exists>c. conn_of h k = Some c \<and> chat \<in> fst ` set (cn_cursors c))))"

lemma hub_okD:
  assumes "hub_ok M (h, up)"
  shows "conn_of h k = Some c \<Longrightarrow> conn_good c" "distinct (map snd (registered h))"
    "(d, k) \<in> set (registered h) \<Longrightarrow> \<exists>c. conn_of h k = Some c \<and> device_id (cn_id c) = d"
    "active_conns h = int up + int (length (registered h))" "active_conns h \<le> M"
    "(chat, k) \<in> set (subscribers h) \<longleftrightarrow> k \<in> snd ` set (registered h)
          \<and> (\<exists>c. conn_of h k = Some c \<and> chat \<in> fst ` set (cn_cursors c))"
  using assms unfolding hub_ok_def by auto

lemma hub_okI:
  assumes "\<And>k c. conn_of h k = Some c \<Longrightarrow> conn_good c" "distinct (map snd (registered h))"
    "\<And>d k. (d, k) \<in> set (registered h) \<Longrightarrow> \<exists>c. conn_of h k = Some c \<and> device_id (cn_id c) = d"
    "active_conns h = int up + int (length (registered h))" "active_conns h \<le> M"
    "\<And>chat k. (chat, k) \<in> set (subscribers h) \<longleftrightarrow> k \<in> snd ` set (registered h)
          \<and> (\<exists>c. conn_of h k = Some c \<and> chat \<in> fst ` set (cn_cursors c))"
  shows "hub_ok M (h, up)"
  unfolding hub_ok_def prod.case using assms by blast

text \<open>Changes of a connection that keep its owner and the chats of its subscriptions.\<close>

definition same_subs :: "conn \<Rightarrow> conn \<Rightarrow> bool" where
  "same_subs c c' \<longleftrightarrow> cn_id c' = cn_id c \<and> map fst (cn_cursors c') = map fst (cn_cursors c)"

lemma same_subs_refl [simp]: "same_subs c c"
  by (simp add: same_subs_def)

lemma same_subs_trans: "same_subs a b \<Longrightarrow> same_subs b c \<Longrightarrow> same_subs a c"
  by (simp add: same_subs_def)

lemma same_subs_keys: "same_subs c c' \<Longrightarrow> fst ` set (cn_cursors c') = fst ` set (cn_cursors c)"
  unfolding same_subs_def by (metis set_map)

lemma conns_changed_ok:
  assumes ok: "hub_ok M (h, up)" and same: "registered h' = registered h" "subscribers h' = subscribers h"
      "active_conns h' = active_conns h"
    and conns: "\<And>k. conn_of h' k = None \<longleftrightarrow> conn_of h k = None"
    and subs: "\<And>k c c'. conn_of h k = Some c \<Longrightarrow> conn_of h' k = Some c' \<Longrightarrow> conn_good c \<Longrightarrow> same_subs c c' \<and> conn_good c'"
  shows "hub_ok M (h', up)"
proof -
  have good: "conn_good c'" if "conn_of h' k = Some c'" for k c'
  proof -
    from that conns [of k] obtain c where "conn_of h k = Some c" by (cases "conn_of h k") auto
    with hub_okD(1) [OF ok] subs that show ?thesis by blast
  qed
  have step: "\<exists>c'. conn_of h' k = Some c' \<and> same_subs c c'" if "conn_of h k = Some c" for k c
  proof -
    from that conns [of k] obtain c' where "conn_of h' k = Some c'" by (cases "conn_of h' k") auto
    with hub_okD(1) [OF ok] subs that show ?thesis by blast
  qed
  have keys: "(\<exists>c. conn_of h' k = Some c \<and> chat \<in> fst ` set (cn_cursors c))
      \<longleftrightarrow> (\<exists>c. conn_of h k = Some c \<and> chat \<in> fst ` set (cn_cursors c))" for k chat
  proof (cases "conn_of h k")
    case None
    moreover from None have "conn_of h' k = None" using conns [of k] by simp
    ultimately show ?thesis by simp
  next
    case (Some c)
    from step [OF Some] obtain c' where "conn_of h' k = Some c'" "same_subs c c'" by blast
    with Some show ?thesis using same_subs_keys by simp
  qed
  have dev: "\<exists>c. conn_of h' k = Some c \<and> device_id (cn_id c) = d" if "(d, k) \<in> set (registered h)" for d k
  proof -
    from hub_okD(3) [OF ok that] obtain c where "conn_of h k = Some c" "device_id (cn_id c) = d" by blast
    with step show ?thesis by (force simp: same_subs_def)
  qed
  show ?thesis
    by (rule hub_okI) (use hub_okD [OF ok] good dev in \<open>simp_all only: same keys\<close>)
qed

lemma set_conn_ok:
  assumes "hub_ok M (h, up)" "conn_of h k = Some c" "same_subs c c'" "conn_good c'"
  shows "hub_ok M (set_conn k c' h, up)"
  by (rule conns_changed_ok [OF assms(1)]) (use assms in \<open>auto simp: set_conn_def split: if_splits\<close>)

lemma on_conns_ok:
  assumes "hub_ok M (h, up)" "\<And>c. same_subs c (f c)" "\<And>c. conn_good c \<Longrightarrow> conn_good (f c)"
  shows "hub_ok M (on_conns P f h, up)"
  by (rule conns_changed_ok [OF assms(1)]) (use assms(2,3) in \<open>auto simp: on_conns_def split: option.splits if_splits\<close>)

lemma conn_soft [simp]:
  "same_subs c (close_conn c)" "conn_good (close_conn c) = conn_good c"
  "same_subs c (notify chat c)" "conn_good c \<Longrightarrow> conn_good (notify chat c)"
  by (simp_all add: same_subs_def conn_good_def close_conn_def notify_def)

lemma apply_effect_ok: "hub_ok M (h, up) \<Longrightarrow> hub_ok M (apply_effect e h, up)"
  by (cases e) (auto simp: disconnect_user_def disconnect_device_def Wake_subs_def intro!: on_conns_ok)

lemma Wake_subs_ok: "hub_ok M (h, up) \<Longrightarrow> hub_ok M (Wake_subs chat h, up)"
  using apply_effect_ok [of M h up "Wake chat"] by simp

lemma replay_heads_ok: "hub_ok M (h\<lparr>replay_heads := x\<rparr>, up) = hub_ok M (h, up)"
  by (simp add: hub_ok_def)

lemma poll_chat_ok: "hub_ok M (h, up) \<Longrightarrow> hub_ok M (poll_chat s chat h, up)"
  by (auto simp: poll_chat_def Let_def replay_heads_ok intro: Wake_subs_ok)

lemma poll_batch_ok: "hub_ok M (h, up) \<Longrightarrow> hub_ok M (poll_batch fail s todo h, up)"
  unfolding poll_batch_def by (induction todo arbitrary: h) (auto simp: poll_chat_ok split: if_splits)

lemma validate_batch_ok: "hub_ok M (h, up) \<Longrightarrow> hub_ok M (validate_batch fail s todo h, up)"
  unfolding validate_batch_def by (rule on_conns_ok) simp_all

text \<open>Subscribing and unsubscribing together with the cursor.\<close>

definition drop_cursor :: "nat \<Rightarrow> ident \<Rightarrow> hub \<Rightarrow> hub" where
  "drop_cursor k chat h = on_conns (\<lambda>j c. j = k) (\<lambda>c. c\<lparr>cn_cursors := AList.delete chat (cn_cursors c)\<rparr>) (subscribe k chat False h)"

lemma keys_delete: "fst ` set (AList.delete k al) = fst ` set al - {k}"
proof -
  have "set (map fst (AList.delete k al)) = set (map fst al) - {k}" by (simp add: delete_keys)
  then show ?thesis by (simp del: delete_conv)
qed

lemma conn_of_unsubscribe:
  "conn_of (subscribe k chat False h) j = (case conn_of h j of None \<Rightarrow> None
     | Some c \<Rightarrow> Some (if j = k then c\<lparr>cn_pending := removeAll chat (cn_pending c)\<rparr> else c))"
  by (simp add: subscribe_def on_conns_def)

lemma subscribe_frame [simp]:
  "registered (subscribe k chat b h) = registered h" "active_conns (subscribe k chat b h) = active_conns h"
  "set (subscribers (subscribe k chat b h)) =
     (if b then insert (chat, k) (set (subscribers h)) else set (subscribers h) - {(chat, k)})"
  by (auto simp: subscribe_def on_conns_def)

lemma drop_cursor_ok:
  assumes ok: "hub_ok M (h, up)"
  shows "hub_ok M (drop_cursor k chat h, up)"
proof -
  let ?h = "drop_cursor k chat h"
  have conn: "conn_of ?h j = (case conn_of h j of None \<Rightarrow> None | Some c \<Rightarrow> Some (if j = k
      then c\<lparr>cn_pending := removeAll chat (cn_pending c), cn_cursors := AList.delete chat (cn_cursors c)\<rparr> else c))" for j
    by (simp add: drop_cursor_def on_conns_def conn_of_unsubscribe split: option.splits)
  have same: "registered ?h = registered h" "active_conns ?h = active_conns h"
      "set (subscribers ?h) = set (subscribers h) - {(chat, k)}"
    by (simp_all add: drop_cursor_def on_conns_def)
  have good: "conn_good c'" if "conn_of ?h j = Some c'" for j c'
  proof -
    from that obtain c where c: "conn_of h j = Some c" and c': "c' = (if j = k
      then c\<lparr>cn_pending := removeAll chat (cn_pending c), cn_cursors := AList.delete chat (cn_cursors c)\<rparr> else c)"
      by (auto simp: conn split: option.splits)
    have "conn_good c" using hub_okD(1) [OF ok c] .
    then show ?thesis
      using length_delete_le [of chat "cn_cursors c"] distinct_delete [of "cn_cursors c" chat]
      by (auto simp: c' conn_good_def)
  qed
  have keys: "(\<exists>c. conn_of ?h j = Some c \<and> d \<in> fst ` set (cn_cursors c))
      \<longleftrightarrow> (\<exists>c. conn_of h j = Some c \<and> d \<in> fst ` set (cn_cursors c)) \<and> (d, j) \<noteq> (chat, k)" for j d
    by (auto simp: conn keys_delete split: option.splits)
  have dev: "\<exists>c. conn_of ?h j = Some c \<and> device_id (cn_id c) = d" if "(d, j) \<in> set (registered h)" for d j
    using hub_okD(3) [OF ok that] by (auto simp: conn)
  have subs: "(d, j) \<in> set (subscribers h) - {(chat, k)} \<longleftrightarrow> j \<in> snd ` set (registered h)
      \<and> (\<exists>c. conn_of h j = Some c \<and> d \<in> fst ` set (cn_cursors c)) \<and> (d, j) \<noteq> (chat, k)" for d j
    using hub_okD(6) [OF ok, of d j] by blast
  show ?thesis
    by (rule hub_okI) (use hub_okD(2,4,5) [OF ok] good dev subs in \<open>simp_all only: same keys\<close>)
qed

lemma drop_cursor_eq:
  "conn_of (subscribe k chat False h) k = Some c \<Longrightarrow>
    set_conn k (c\<lparr>cn_cursors := AList.delete chat (cn_cursors c)\<rparr>) (subscribe k chat False h) = drop_cursor k chat h"
  by (intro hub.equality ext) (auto simp: set_conn_def drop_cursor_def on_conns_def split: option.splits)

lemma set_conn_twice [simp]: "set_conn k c' (set_conn k c h) = set_conn k c' h"
  by (simp add: set_conn_def)

lemma conn_of_set_conn [simp]: "conn_of (set_conn k c h) j = (if j = k then Some c else conn_of h j)"
  by (simp add: set_conn_def)

lemma set_conn_frame [simp]:
  "registered (set_conn k c h) = registered h" "subscribers (set_conn k c h) = subscribers h"
  "active_conns (set_conn k c h) = active_conns h"
  by (simp_all add: set_conn_def)

lemma keys_update: "fst ` set (AList.update k v al) = insert k (fst ` set al)"
  using update_keys [of k v al] by (metis set_map list.set_map set_append insert_absorb list.simps(15) Un_insert_right sup_bot_right empty_set)

lemma add_cursor_ok:
  assumes ok: "hub_ok M (h, up)" and reg: "k \<in> snd ` set (registered h)" and c: "conn_of h k = Some c"
    and room: "length (cn_cursors c) < 128"
  shows "hub_ok M (subscribe k chat True (set_conn k (c\<lparr>cn_cursors := AList.update chat n (cn_cursors c)\<rparr>) h), up)"
    (is "hub_ok M (?h, up)")
proof -
  let ?c = "c\<lparr>cn_cursors := AList.update chat n (cn_cursors c)\<rparr>"
  have conn: "conn_of ?h j = (if j = k then Some ?c else conn_of h j)" for j
    by (simp add: subscribe_def)
  have "length (map fst (AList.update chat n (cn_cursors c))) \<le> Suc (length (map fst (cn_cursors c)))"
    unfolding update_keys by simp
  then have len: "length (cn_cursors ?c) \<le> 128" using room by simp
  have gc: "conn_good ?c"
    using hub_okD(1) [OF ok c] len distinct_update [of "cn_cursors c" chat n] by (simp add: conn_good_def)
  have subs: "(d, j) \<in> set (subscribers ?h) \<longleftrightarrow> j \<in> snd ` set (registered h)
      \<and> (\<exists>c. conn_of ?h j = Some c \<and> d \<in> fst ` set (cn_cursors c))" for d j
    using hub_okD(6) [OF ok, of d j] reg c by (auto simp: conn keys_update)
  have good: "conn_good c'" if "conn_of ?h j = Some c'" for j c'
    using that gc hub_okD(1) [OF ok] by (auto simp: conn split: if_splits)
  have dev: "\<exists>c. conn_of ?h j = Some c \<and> device_id (cn_id c) = d" if "(d, j) \<in> set (registered h)" for d j
    using hub_okD(3) [OF ok that] c by (auto simp: conn)
  show ?thesis
    by (rule hub_okI) (use hub_okD(2,4,5) [OF ok] good dev subs in simp_all)
qed

subsection \<open>Flushing keeps the invariant\<close>

lemma write_frame_Some:
  "write_frame bad fr c = Some c1 \<Longrightarrow> c1 = c\<lparr>cn_sent := cn_sent c @ [fr]\<rparr>"
  by (simp add: write_frame_def split: if_splits)

lemma update_same_keys: "k \<in> fst ` set al \<Longrightarrow> map fst (AList.update k v al) = map fst al"
  by (simp add: update_keys)

lemma good_same:
  "conn_good c \<Longrightarrow> cn_pending c' = cn_pending c \<Longrightarrow> cn_wake c' = cn_wake c \<Longrightarrow> cn_commands c' = cn_commands c \<Longrightarrow>
    map fst (cn_cursors c') = map fst (cn_cursors c) \<Longrightarrow> conn_good c'"
  unfolding conn_good_def using map_eq_imp_length_eq by metis

text \<open>What writing events changes of a connection: the frames and the cursor of the chat.\<close>

definition only_sent :: "conn \<Rightarrow> conn \<Rightarrow> bool" where
  "only_sent c c' \<longleftrightarrow> cn_id c' = cn_id c \<and> cn_pending c' = cn_pending c \<and> cn_wake c' = cn_wake c
     \<and> cn_commands c' = cn_commands c \<and> map fst (cn_cursors c') = map fst (cn_cursors c) \<and> cn_done c' = cn_done c"

lemma only_sent_same: "only_sent c c' \<Longrightarrow> same_subs c c'" "only_sent c c' \<Longrightarrow> conn_good c \<Longrightarrow> conn_good c'"
  by (simp_all add: only_sent_def same_subs_def good_same)

lemma only_sent_trans: "only_sent a b \<Longrightarrow> only_sent b c \<Longrightarrow> only_sent a c"
  by (simp add: only_sent_def)

lemma write_events_only:
  "write_events bad chat es c = (b, c') \<Longrightarrow> chat \<in> fst ` set (cn_cursors c) \<Longrightarrow> only_sent c c'"
proof (induction es arbitrary: c)
  case (Cons e es)
  show ?case
  proof (cases "write_frame bad (FEvent e) c")
    case None
    with Cons.prems show ?thesis by (simp add: only_sent_def)
  next
    case (Some c1)
    let ?c = "c1\<lparr>cn_cursors := AList.update chat (evt_seq e) (cn_cursors c1)\<rparr>"
    have c1: "c1 = c\<lparr>cn_sent := cn_sent c @ [FEvent e]\<rparr>" by (rule write_frame_Some [OF Some])
    have "only_sent c ?c" using Cons.prems(2) by (simp add: only_sent_def c1 update_same_keys)
    moreover have "only_sent ?c c'"
      by (rule Cons.IH) (use Cons.prems Some in \<open>auto simp: c1 keys_update\<close>)
    ultimately show ?thesis by (rule only_sent_trans)
  qed
qed (simp add: only_sent_def)

lemma flush_pages_only:
  "flush_pages C rd bad chat ps cursor c = (r, c') \<Longrightarrow> chat \<in> fst ` set (cn_cursors c) \<Longrightarrow> only_sent c c'"
proof (induction ps arbitrary: cursor c)
  case Nil
  then show ?case by (simp add: only_sent_def)
next
  case (Cons p ps)
  obtain env s1 s2 where rd: "rd p = (env, s1, s2)" by (cases "rd p")
  show ?case
  proof (cases "Events_between C env s1 s2 (cn_id c) chat cursor 100")
    case (Inl e)
    with Cons.prems rd show ?thesis by (simp add: only_sent_def)
  next
    case (Inr evs)
    obtain b c1 where w: "write_events bad chat evs c = (b, c1)" by (cases "write_events bad chat evs c")
    have o1: "only_sent c c1" by (rule write_events_only [OF w Cons.prems(2)])
    have k1: "chat \<in> fst ` set (cn_cursors c1)"
      using o1 Cons.prems(2) same_subs_keys [OF only_sent_same(1)] by simp
    show ?thesis
    proof (cases "b \<and> \<not> length evs < 100")
      case False
      with Cons.prems(1) rd Inr w o1 show ?thesis by (cases b) (auto split: if_splits)
    next
      case True
      with Cons.prems(1) rd Inr w have "flush_pages C rd bad chat ps (case evs of [] \<Rightarrow> cursor | _ \<Rightarrow> evt_seq (last evs)) c1 = (r, c')"
        by simp
      from Cons.IH [OF this k1] o1 show ?thesis using only_sent_trans by blast
    qed
  qed
qed

lemma flush_ok:
  assumes ok: "hub_ok M (h, up)"
  shows "hub_ok M (snd (flush C rd bad k chat h), up)"
proof (cases "conn_of h k")
  case None
  with ok show ?thesis by (simp add: flush_def)
next
  case (Some c)
  show ?thesis
  proof (cases "map_of (cn_cursors c) chat")
    case None
    with ok Some show ?thesis by (simp add: flush_def)
  next
    case cur: (Some cursor)
    obtain r c1 where f: "flush_pages C rd bad chat [0..<10] cursor c = (r, c1)"
      by (cases "flush_pages C rd bad chat [0..<10] cursor c")
    have "chat \<in> fst ` set (cn_cursors c)" using cur by (force dest: map_of_SomeD)
    from flush_pages_only [OF f this] have o: "only_sent c c1" .
    have ok1: "hub_ok M (set_conn k c1 h, up)"
      using set_conn_ok [OF ok Some] only_sent_same [OF o] hub_okD(1) [OF ok Some] by simp
    show ?thesis
    proof (cases r)
      case Behind
      have "same_subs c (notify chat c1)" using only_sent_same(1) [OF o] by (rule same_subs_trans) simp
      then have "hub_ok M (set_conn k (notify chat c1) h, up)"
        using set_conn_ok [OF ok Some] only_sent_same(2) [OF o] hub_okD(1) [OF ok Some] by simp
      with Behind Some cur f show ?thesis by (simp add: flush_def)
    next
      case (Refused e)
      let ?h1 = "subscribe k chat False (set_conn k c1 h)"
      obtain c2 where c2: "conn_of ?h1 k = Some c2" by (simp add: conn_of_unsubscribe)
      let ?c3 = "c2\<lparr>cn_cursors := AList.delete chat (cn_cursors c2)\<rparr>"
      have ok3: "hub_ok M (set_conn k ?c3 ?h1, up)"
        using drop_cursor_ok [OF ok1] drop_cursor_eq [OF c2] by simp
      show ?thesis
      proof (cases "write_frame bad (FSyncError chat (error_text e)) ?c3")
        case None
        with Refused Some cur f c2 ok3 show ?thesis by (simp add: flush_def Let_def)
      next
        case w: (Some c4)
        have c4: "c4 = ?c3\<lparr>cn_sent := cn_sent ?c3 @ [FSyncError chat (error_text e)]\<rparr>" by (rule write_frame_Some [OF w])
        have "conn_good ?c3" using hub_okD(1) [OF ok3, of k ?c3] by simp
        then have "hub_ok M (set_conn k c4 (set_conn k ?c3 ?h1), up)"
          by (intro set_conn_ok [OF ok3, of k ?c3]) (auto simp: c4 same_subs_def conn_good_def)
        with Refused Some cur f c2 w show ?thesis by (simp add: flush_def Let_def)
      qed
    qed (use ok1 Some cur f in \<open>simp_all add: flush_def\<close>)
  qed
qed

lemma flush_frame:
  "registered (snd (flush C rd bad k chat h)) = registered h"
  by (auto simp: flush_def Let_def split: option.splits prod.splits flush_end.splits)

lemma flush_all_ok:
  "hub_ok M (h, up) \<Longrightarrow> hub_ok M (snd (flush_all C rds bad k order h), up)
    \<and> registered (snd (flush_all C rds bad k order h)) = registered h"
proof (induction order arbitrary: h)
  case (Cons chat order)
  obtain b h1 where f: "flush C (rds chat) bad k chat h = (b, h1)" by (cases "flush C (rds chat) bad k chat h")
  have "hub_ok M (h1, up)" "registered h1 = registered h"
    using flush_ok [OF Cons.prems, of C "rds chat" bad k chat] flush_frame [of C "rds chat" bad k chat h] f by simp_all
  with Cons.IH [of h1] f show ?case by (cases b) simp_all
qed simp

lemma handle_command_ok:
  assumes ok: "hub_ok M (h, up)" and reg: "k \<in> snd ` set (registered h)"
  shows "hub_ok M (snd (handle_command C rd bad fail s k cmd h), up)
    \<and> registered (snd (handle_command C rd bad fail s k cmd h)) = registered h"
proof (cases "conn_of h k")
  case None
  with ok show ?thesis by (simp add: handle_command_def Let_def)
next
  case (Some c)
  have good: "conn_good c" by (rule hub_okD(1) [OF ok Some])
  have refuse: "hub_ok M (snd (case write_frame bad (FError m) c of None \<Rightarrow> (False, h) | Some c1 \<Rightarrow> (True, set_conn k c1 h)), up)
      \<and> registered (snd (case write_frame bad (FError m) c of None \<Rightarrow> (False, h) | Some c1 \<Rightarrow> (True, set_conn k c1 h))) = registered h" for m
  proof (cases "write_frame bad (FError m) c")
    case None
    with ok show ?thesis by simp
  next
    case w: (Some c1)
    have c1: "c1 = c\<lparr>cn_sent := cn_sent c @ [FError m]\<rparr>" by (rule write_frame_Some [OF w])
    have "hub_ok M (set_conn k c1 h, up)"
      by (rule set_conn_ok [OF ok Some]) (use good in \<open>auto simp: c1 same_subs_def conn_good_def\<close>)
    with w show ?thesis by simp
  qed
  consider (unsub) "cmd_type cmd = ''unsubscribe''"
    | (bad1) "cmd_type cmd \<noteq> ''unsubscribe''" "cmd_type cmd \<noteq> ''subscribe'' \<or> cmd_after cmd < 0 \<or> length (cn_cursors c) \<ge> 128"
    | (bad2) "cmd_type cmd \<noteq> ''unsubscribe''" "\<not> (cmd_type cmd \<noteq> ''subscribe'' \<or> cmd_after cmd < 0 \<or> length (cn_cursors c) \<ge> 128)"
        "fail \<or> Member s (user_id (cn_id c)) (cmd_chat cmd) = None"
    | (sub) "cmd_type cmd \<noteq> ''unsubscribe''" "\<not> (cmd_type cmd \<noteq> ''subscribe'' \<or> cmd_after cmd < 0 \<or> length (cn_cursors c) \<ge> 128)"
        "\<not> (fail \<or> Member s (user_id (cn_id c)) (cmd_chat cmd) = None)"
    by argo
  then show ?thesis
  proof cases
    case unsub
    obtain c1 where c1: "conn_of (subscribe k (cmd_chat cmd) False h) k = Some c1"
      using Some by (simp add: conn_of_unsubscribe)
    with unsub Some have "handle_command C rd bad fail s k cmd h = (True, drop_cursor k (cmd_chat cmd) h)"
      by (simp add: handle_command_def drop_cursor_eq)
    with drop_cursor_ok [OF ok] show ?thesis by (simp add: drop_cursor_def on_conns_def)
  next
    case bad1
    have "handle_command C rd bad fail s k cmd h = (case write_frame bad (FError ''invalid subscription'') c of
        None \<Rightarrow> (False, h) | Some c1 \<Rightarrow> (True, set_conn k c1 h))"
      using Some bad1 by (simp only: handle_command_def Let_def option.case if_False if_True simp_thms)
    then show ?thesis using refuse by simp
  next
    case bad2
    have "handle_command C rd bad fail s k cmd h = (case write_frame bad (FError ''membership required'') c of
        None \<Rightarrow> (False, h) | Some c1 \<Rightarrow> (True, set_conn k c1 h))"
      using Some bad2 by (simp only: handle_command_def Let_def option.case if_False if_True simp_thms)
    then show ?thesis using refuse by simp
  next
    case sub
    let ?h = "subscribe k (cmd_chat cmd) True
                    (set_conn k (c\<lparr>cn_cursors := AList.update (cmd_chat cmd) (cmd_after cmd) (cn_cursors c)\<rparr>) h)"
    have "handle_command C rd bad fail s k cmd h = flush C rd bad k (cmd_chat cmd) ?h"
      using Some sub by (simp only: handle_command_def Let_def option.case if_False if_True simp_thms)
    moreover have "hub_ok M (?h, up)" using add_cursor_ok [OF ok reg Some] sub by simp
    ultimately show ?thesis using flush_ok flush_frame [of C rd bad k "cmd_chat cmd" ?h] by simp
  qed
qed

subsection \<open>Leaving the loop\<close>

lemma unsubscribe_all:
  "conn_of (fold (\<lambda>chat. subscribe k chat False) cs h) j = (case conn_of h j of None \<Rightarrow> None
     | Some c \<Rightarrow> Some (if j = k then c\<lparr>cn_pending := filter (\<lambda>x. x \<notin> set cs) (cn_pending c)\<rparr> else c))
   \<and> registered (fold (\<lambda>chat. subscribe k chat False) cs h) = registered h
   \<and> active_conns (fold (\<lambda>chat. subscribe k chat False) cs h) = active_conns h
   \<and> set (subscribers (fold (\<lambda>chat. subscribe k chat False) cs h)) = set (subscribers h) - set cs \<times> {k}"
proof (induction cs arbitrary: h)
  case (Cons chat cs)
  have "filter (\<lambda>x. x \<notin> set cs) (removeAll chat p) = filter (\<lambda>x. x \<notin> set (chat # cs)) p" for p
    by (induction p) auto
  with Cons [of "subscribe k chat False h"] show ?case
    by (auto simp: conn_of_unsubscribe split: option.splits)
qed (auto split: option.splits)

lemma distinct_snd_remove:
  "distinct (map snd xs) \<Longrightarrow> distinct (map snd (removeAll x xs))"
  by (induction xs) auto

lemma leave_loop_ok:
  assumes ok: "hub_ok M (h, up)" and reg: "k \<in> snd ` set (registered h)"
  shows "hub_ok M (leave_loop k h, up) \<and> k \<notin> snd ` set (registered (leave_loop k h))"
proof -
  from reg obtain d where d: "(d, k) \<in> set (registered h)" by force
  from hub_okD(3) [OF ok d] obtain c where c: "conn_of h k = Some c" "device_id (cn_id c) = d" by blast
  let ?h1 = "fold (\<lambda>chat. subscribe k chat False) (map fst (cn_cursors c)) h"
  note u = unsubscribe_all [of k "map fst (cn_cursors c)" h]
  let ?r = "removeAll (d, k) (registered h)"
  let ?h2 = "?h1\<lparr>registered := ?r, active_conns := active_conns h - 1\<rparr>"
  have eq: "leave_loop k h = on_conns (\<lambda>j c. j = k) close_conn ?h2"
    using u c by (simp add: leave_loop_def)
  have dist: "distinct (map snd (registered h))" by (rule hub_okD(2) [OF ok])
  have only: "(d', k) \<in> set (registered h) \<Longrightarrow> d' = d" for d'
    using dist d by (metis (no_types, lifting) distinct_map inj_onD prod.inject snd_conv)
  have regs: "snd ` set ?r = snd ` set (registered h) - {k}"
    using only by force
  have count: "length (registered h) = Suc (length ?r)"
  proof -
    have "distinct (registered h)" using dist by (simp add: distinct_map)
    then have "?r = remove1 (d, k) (registered h)" by (simp add: distinct_remove1_removeAll)
    moreover have "0 < length (registered h)" using d by (cases "registered h") auto
    ultimately show ?thesis using d by (simp add: length_remove1)
  qed
  have conn2: "conn_of ?h2 j = (case conn_of h j of None \<Rightarrow> None
      | Some b \<Rightarrow> Some (if j = k then b\<lparr>cn_pending := filter (\<lambda>x. x \<notin> set (map fst (cn_cursors c))) (cn_pending b)\<rparr> else b))" for j
    using u by simp
  have subs2: "set (subscribers ?h2) = set (subscribers h) - set (map fst (cn_cursors c)) \<times> {k}" using u by simp
  have keys2: "(\<exists>b. conn_of ?h2 j = Some b \<and> chat \<in> fst ` set (cn_cursors b))
      \<longleftrightarrow> (\<exists>b. conn_of h j = Some b \<and> chat \<in> fst ` set (cn_cursors b))" for j chat
    unfolding conn2 by (cases "conn_of h j") simp_all
  have "hub_ok M (?h2, up)"
  proof (rule hub_okI)
    show "conn_good c'" if "conn_of ?h2 j = Some c'" for j c'
      using that hub_okD(1) [OF ok, of j] unfolding conn2 by (cases "conn_of h j") (auto simp: conn_good_def split: if_splits)
    show "distinct (map snd (registered ?h2))" using distinct_snd_remove [OF dist] by simp
    show "\<exists>c. conn_of ?h2 j = Some c \<and> device_id (cn_id c) = e" if "(e, j) \<in> set (registered ?h2)" for e j
      using that hub_okD(3) [OF ok, of e j] unfolding conn2 by auto
    show "active_conns ?h2 = int up + int (length (registered ?h2))"
      using hub_okD(4) [OF ok] count by simp
    show "active_conns ?h2 \<le> M" using hub_okD(5) [OF ok] by simp
    fix chat j
    have "(chat, j) \<in> set (subscribers ?h2) \<longleftrightarrow> (chat, j) \<in> set (subscribers h) \<and> \<not> (j = k \<and> chat \<in> fst ` set (cn_cursors c))"
      unfolding subs2 by auto
    also have "\<dots> \<longleftrightarrow> j \<in> snd ` set ?r \<and> (\<exists>c. conn_of h j = Some c \<and> chat \<in> fst ` set (cn_cursors c))"
      unfolding regs hub_okD(6) [OF ok] using c(1) by (cases "j = k") simp_all
    also have "\<dots> \<longleftrightarrow> j \<in> snd ` set (registered ?h2) \<and> (\<exists>c. conn_of ?h2 j = Some c \<and> chat \<in> fst ` set (cn_cursors c))"
      unfolding keys2 by simp
    finally show "(chat, j) \<in> set (subscribers ?h2) \<longleftrightarrow> j \<in> snd ` set (registered ?h2)
        \<and> (\<exists>c. conn_of ?h2 j = Some c \<and> chat \<in> fst ` set (cn_cursors c))" .
  qed
  then have "hub_ok M (leave_loop k h, up)" unfolding eq by (rule on_conns_ok) simp_all
  moreover have "k \<notin> snd ` set (registered (leave_loop k h))" using regs by (simp add: eq on_conns_def)
  ultimately show ?thesis by simp
qed

lemma ending_ok:
  "hub_ok M (snd r, up) \<Longrightarrow> k \<in> snd ` set (registered (snd r)) \<Longrightarrow> hub_ok M (ending k r, up)"
  by (cases r) (auto simp: ending_def leave_loop_ok split: bool.splits)

lemma hub_step_ok:
  assumes "hub_step C st st'" "hub_ok (cap_max_connections (cfg_capacity (cfg C))) st"
  shows "hub_ok (cap_max_connections (cfg_capacity (cfg C))) st'"
  using assms
proof (induction rule: hub_step.induct)
  case (reserve h h' up)
  then have h': "h' = h\<lparr>active_conns := active_conns h + 1\<rparr>" "active_conns h < cap_max_connections (cfg_capacity (cfg C))"
    by (auto simp: reserve_conn_def split: if_splits)
  show ?case by (rule hub_okI) (use hub_okD [OF reserve.prems] h' in simp_all)
next
  case (upgrade_fails h up)
  show ?case unfolding upgrade_failed_def
    by (rule hub_okI) (use hub_okD [OF upgrade_fails.prems] in simp_all)
next
  case (upgraded h k up i)
  have "k \<notin> snd ` set (registered h)" using hub_okD(3) [OF upgraded.prems] upgraded.hyps by fastforce
  show ?case
  proof (rule hub_okI)
    show "conn_good c" if "conn_of (register_conn k i h) j = Some c" for j c
      using that hub_okD(1) [OF upgraded.prems] by (auto simp: register_conn_def new_conn_def conn_good_def split: if_splits)
    show "distinct (map snd (registered (register_conn k i h)))"
      using hub_okD(2) [OF upgraded.prems] \<open>k \<notin> _\<close> by (simp add: register_conn_def)
    show "\<exists>c. conn_of (register_conn k i h) j = Some c \<and> device_id (cn_id c) = d"
      if "(d, j) \<in> set (registered (register_conn k i h))" for d j
      using that hub_okD(3) [OF upgraded.prems, of d j] \<open>k \<notin> _\<close> by (force simp: register_conn_def new_conn_def)
    show "active_conns (register_conn k i h) = int up + int (length (registered (register_conn k i h)))"
      using hub_okD(4) [OF upgraded.prems] by (simp add: register_conn_def)
    show "active_conns (register_conn k i h) \<le> cap_max_connections (cfg_capacity (cfg C))"
      using hub_okD(5) [OF upgraded.prems] by (simp add: register_conn_def)
    show "(chat, j) \<in> set (subscribers (register_conn k i h)) \<longleftrightarrow> j \<in> snd ` set (registered (register_conn k i h))
        \<and> (\<exists>c. conn_of (register_conn k i h) j = Some c \<and> chat \<in> fst ` set (cn_cursors c))" for chat j
      using hub_okD(6) [OF upgraded.prems, of chat j] upgraded.hyps by (auto simp: register_conn_def new_conn_def)
  qed
next
  case (receive h k c up cmd)
  have "conn_good c" by (rule hub_okD(1) [OF receive.prems receive.hyps])
  then show ?case
    by (intro set_conn_ok [OF receive.prems receive.hyps])
      (auto simp: receive_command_def close_conn_def same_subs_def conn_good_def split: option.splits)
next
  case (command k h c cmd rest up rd bad fail s)
  have "conn_good c" by (rule hub_okD(1) [OF command.prems command.hyps(2)])
  then have "hub_ok (cap_max_connections (cfg_capacity (cfg C))) (set_conn k (c\<lparr>cn_commands := rest\<rparr>) h, up)"
    using command.hyps by (intro set_conn_ok [OF command.prems command.hyps(2)]) (auto simp: same_subs_def conn_good_def)
  note h1 = this
  have r1: "k \<in> snd ` set (registered (set_conn k (c\<lparr>cn_commands := rest\<rparr>) h))" using command.hyps(1) by simp
  from handle_command_ok [OF h1 r1, of C rd bad fail s cmd] r1 show ?case by (intro ending_ok) simp_all
next
  case (woken k h c taken c' order up rds bad)
  have "conn_good c" by (rule hub_okD(1) [OF woken.prems woken.hyps(2)])
  then have "hub_ok (cap_max_connections (cfg_capacity (cfg C))) (set_conn k c' h, up)"
    using woken.hyps(4) by (intro set_conn_ok [OF woken.prems woken.hyps(2)]) (auto simp: takePending_def same_subs_def conn_good_def)
  note h1 = this
  from flush_all_ok [OF h1, of C rds bad k order] woken.hyps(1) show ?case by (intro ending_ok) simp_all
next
  case (leave k h up)
  then show ?case using leave_loop_ok by blast
next
  case (prune h up)
  then show ?case by (simp add: poll_prune_def replay_heads_ok)
qed (simp_all add: apply_effect_ok poll_batch_ok validate_batch_ok)

lemma new_hub_ok: "0 \<le> M \<Longrightarrow> hub_ok M (new_hub, 0)"
  by (simp add: new_hub_def hub_ok_def)

lemma hub_reachable:
  assumes "(hub_step C)\<^sup>*\<^sup>* (new_hub, 0) st" "0 \<le> cap_max_connections (cfg_capacity (cfg C))"
  shows "hub_ok (cap_max_connections (cfg_capacity (cfg C))) st"
  using assms by (induction rule: rtranclp_induct) (auto intro: hub_step_ok new_hub_ok)

subsection \<open>Delivery\<close>

text \<open>What is written is a prefix of the events, and the cursor is that of the last one written.\<close>

lemma write_events_prefix:
  assumes "write_events bad chat es c = (b, c')"
  shows "\<exists>n \<le> length es. (b \<longrightarrow> n = length es) \<and> cn_sent c' = cn_sent c @ map FEvent (take n es)
    \<and> map_of (cn_cursors c') chat = (if n = 0 then map_of (cn_cursors c) chat else Some (evt_seq (es ! (n - 1))))
    \<and> cn_id c' = cn_id c"
  using assms
proof (induction es arbitrary: c)
  case (Cons e es)
  show ?case
  proof (cases "write_frame bad (FEvent e) c")
    case None
    with Cons.prems show ?thesis by (intro exI [of _ 0]) simp
  next
    case (Some c1)
    have c1: "c1 = c\<lparr>cn_sent := cn_sent c @ [FEvent e]\<rparr>" by (rule write_frame_Some [OF Some])
    from Cons.prems Some have "write_events bad chat es (c1\<lparr>cn_cursors := AList.update chat (evt_seq e) (cn_cursors c1)\<rparr>) = (b, c')"
      by simp
    from Cons.IH [OF this] obtain n where n: "n \<le> length es" "b \<longrightarrow> n = length es"
      "cn_sent c' = cn_sent (c1\<lparr>cn_cursors := AList.update chat (evt_seq e) (cn_cursors c1)\<rparr>) @ map FEvent (take n es)"
      "map_of (cn_cursors c') chat = (if n = 0 then map_of (cn_cursors (c1\<lparr>cn_cursors := AList.update chat (evt_seq e) (cn_cursors c1)\<rparr>)) chat
        else Some (evt_seq (es ! (n - 1))))"
      "cn_id c' = cn_id (c1\<lparr>cn_cursors := AList.update chat (evt_seq e) (cn_cursors c1)\<rparr>)" by blast
    have "map_of (cn_cursors c') chat = Some (evt_seq ((e # es) ! n))"
      using n(4) by (cases n) (simp_all add: update_conv')
    with n(1,2,3,5) show ?thesis by (intro exI [of _ "Suc n"]) (simp add: c1)
  qed
qed simp

lemma seqs_take:
  assumes "map evt_seq es = [a + 1..b]" "n \<le> length es" "a \<le> b"
  shows "map evt_seq (take n es) = [a + 1..a + int n]" "n \<noteq> 0 \<Longrightarrow> evt_seq (es ! (n - 1)) = a + int n"
    "length es = nat (b - a)"
proof -
  have len: "length es = nat (b - a)" using arg_cong [OF assms(1), of length] by simp
  then show "length es = nat (b - a)" .
  have nb: "int n \<le> b - a" using assms(2,3) len by simp
  have "take n [a + 1..b] = [a + 1..a + int n]"
    using nb upto_split2 [of "a + 1" "a + int n" b] by (cases "n = 0") simp_all
  then show "map evt_seq (take n es) = [a + 1..a + int n]" by (simp add: take_map [symmetric] assms(1))
  show "evt_seq (es ! (n - 1)) = a + int n" if "n \<noteq> 0"
  proof -
    have "evt_seq (es ! (n - 1)) = map evt_seq es ! (n - 1)" using that assms(2) by simp
    also have "\<dots> = a + int n" unfolding assms(1) using that nb by (simp add: nth_upto of_nat_diff)
    finally show ?thesis .
  qed
qed

text \<open>
  The frames a flush writes continue the cursor without a gap, a repetition or a reordering, and
  the subscription's cursor follows them; when the flush reports to have caught up, the last
  frame is the head of the chat in the snapshot of its last page. Each page reads one intact
  snapshot in which the reader joined no later than the cursor.
\<close>

lemma flush_pages_delivers:
  assumes "flush_pages C rd bad chat ps cursor c = (r, c')" "map_of (cn_cursors c) chat = Some cursor"
    and snap: "\<And>p. p \<in> set ps \<Longrightarrow> \<exists>env s. rd p = (env, s, s) \<and> db_ok s
      \<and> (\<forall>m d. reader_of s (cn_id c) chat m d \<longrightarrow> m_joined m \<le> cursor + 1)"
  shows "\<exists>evs. cn_sent c' = cn_sent c @ map FEvent evs \<and> map evt_seq evs = [cursor + 1..cursor + int (length evs)]
    \<and> map_of (cn_cursors c') chat = Some (cursor + int (length evs))
    \<and> (r = Caught_up \<longrightarrow> (\<exists>p \<in> set ps. head (snd (snd (rd p))) chat = Some (cursor + int (length evs))))
    \<and> (r = Behind \<longrightarrow> length evs = 100 * length ps)"
  using assms
proof (induction ps arbitrary: cursor c)
  case Nil
  then show ?case by (intro exI [of _ "[]"]) simp
next
  case (Cons p ps)
  from Cons.prems(3) [of p] obtain env s where rd: "rd p = (env, s, s)" and ok: "db_ok s"
    and joined: "\<And>m d. reader_of s (cn_id c) chat m d \<Longrightarrow> m_joined m \<le> cursor + 1" by auto
  show ?case
  proof (cases "Events C env s (cn_id c) chat cursor 100")
    case (Inl e)
    with Cons.prems(1) rd have "r = Refused e" "c' = c" by (simp_all add: Events_def)
    with Cons.prems(2) show ?thesis by (intro exI [of _ "[]"]) simp
  next
    case (Inr es)
    from Events_contiguous [OF ok Inr] obtain ch m d where rdr: "reader_of s (cn_id c) chat m d"
      and ch: "ch \<in> set (chats s)" "c_id ch = chat"
      and seqs: "max cursor (m_joined m - 1) \<le> c_seq ch"
        "map evt_seq es = [max cursor (m_joined m - 1) + 1..min (c_seq ch) (max cursor (m_joined m - 1) + 100)]"
      by (auto simp: Let_def)
    have start: "max cursor (m_joined m - 1) = cursor" using joined [OF rdr] by simp
    define top where "top = min (c_seq ch) (cursor + 100)"
    have top: "cursor \<le> top" "map evt_seq es = [cursor + 1..top]" using seqs by (simp_all add: start top_def)
    obtain b c1 where w: "write_events bad chat es c = (b, c1)" by (cases "write_events bad chat es c")
    from write_events_prefix [OF w] obtain n where n: "n \<le> length es" "b \<longrightarrow> n = length es"
      "cn_sent c1 = cn_sent c @ map FEvent (take n es)" "cn_id c1 = cn_id c"
      "map_of (cn_cursors c1) chat = (if n = 0 then map_of (cn_cursors c) chat else Some (evt_seq (es ! (n - 1))))"
      by blast
    note st = seqs_take [OF top(2) n(1) top(1)]
    have cur1: "map_of (cn_cursors c1) chat = Some (cursor + int n)" using n(5) st(2) Cons.prems(2) by (cases "n = 0") simp_all
    have len: "length (take n es) = n" using n(1) by simp
    show ?thesis
    proof (cases "b \<and> \<not> length es < 100")
      case False
      from Cons.prems(1) rd Inr w False have r: "c' = c1" "r = (if b then Caught_up else Broken)"
        by (auto simp: Events_def split: bool.splits)
      have "head s chat = Some (cursor + int n)" if b
      proof -
        have "n = length es" "length es < 100" using that False n(2) by auto
        then have "top = c_seq ch" "int n = top - cursor" using st(3) top(1) by (auto simp: top_def min_def split: if_splits)
        moreover have "get_row c_id chat (chats s) = Some ch" using get_chat_iff [OF ok] ch by blast
        ultimately show ?thesis by (simp add: head_def)
      qed
      then show ?thesis using r n(3) cur1 st(1) len rd
        by (intro exI [of _ "take n es"]) auto
    next
      case True
      then have ne: "n = length es" "100 \<le> length es" using n(2) by auto
      have lastc: "(case es of [] \<Rightarrow> cursor | _ \<Rightarrow> evt_seq (last es)) = cursor + int n"
        using st(2) ne by (cases es) (auto simp: last_conv_nth)
      have hundred: "n = 100" using st(3) ne top(1) by (simp add: top_def)
      from Cons.prems(1) rd Inr w True lastc have f: "flush_pages C rd bad chat ps (cursor + int n) c1 = (r, c')"
        by (simp add: Events_def)
      have "\<exists>env s. rd q = (env, s, s) \<and> db_ok s
          \<and> (\<forall>m d. reader_of s (cn_id c1) chat m d \<longrightarrow> m_joined m \<le> cursor + int n + 1)" if "q \<in> set ps" for q
        using Cons.prems(3) [of q] that n(4) by fastforce
      from Cons.IH [OF f cur1 this] obtain evs where e: "cn_sent c' = cn_sent c1 @ map FEvent evs"
        "map evt_seq evs = [cursor + int n + 1..cursor + int n + int (length evs)]"
        "map_of (cn_cursors c') chat = Some (cursor + int n + int (length evs))"
        "r = Caught_up \<longrightarrow> (\<exists>p \<in> set ps. head (snd (snd (rd p))) chat = Some (cursor + int n + int (length evs)))"
        "r = Behind \<longrightarrow> length evs = 100 * length ps" by blast
      have "[cursor + 1..cursor + int n] @ [cursor + int n + 1..cursor + int n + int (length evs)]
          = [cursor + 1..cursor + (int n + int (length evs))]"
        using upto_split1 [of "cursor + 1" "cursor + int n + 1" "cursor + int n + int (length evs)"]
          upto_split2 [of "cursor + 1" "cursor + int n" "cursor + int n + int (length evs)"] by (cases "n = 0") (simp_all add: add.assoc)
      then have "map evt_seq (es @ evs) = [cursor + 1..cursor + int (length (es @ evs))]"
        using e(2) st(1) ne(1) by (simp add: algebra_simps)
      then show ?thesis using e n(3) ne(1) hundred
        by (intro exI [of _ "es @ evs"]) (auto simp: algebra_simps)
    qed
  qed
qed

subsection \<open>Wake-ups and sweeps\<close>

lemma Wake_subs_notifies:
  "(chat, k) \<in> set (subscribers h) \<Longrightarrow> conn_of h k = Some c \<Longrightarrow>
    \<exists>c'. conn_of (Wake_subs chat h) k = Some c' \<and> chat \<in> set (cn_pending c') \<and> cn_wake c'"
  by (simp add: Wake_subs_def on_conns_def notify_def)

lemma poll_chat_notifies:
  assumes "(chat, k) \<in> set (subscribers h)" "conn_of h k = Some c" "replay_heads h chat \<noteq> head s chat \<or> head s chat = None"
  shows "\<exists>c'. conn_of (poll_chat s chat h) k = Some c' \<and> chat \<in> set (cn_pending c') \<and> cn_wake c'"
proof -
  have sub: "chat \<in> fst ` set (subscribers h)" using assms(1) by force
  have "conn_of (poll_chat s chat h) k = conn_of (Wake_subs chat h) k"
    using assms(3) sub by (auto simp: poll_chat_def Let_def)
  with Wake_subs_notifies [OF assms(1,2)] show ?thesis by simp
qed

lemma disconnect_user_closes:
  "hub_ok M (h, up) \<Longrightarrow> (d, k) \<in> set (registered h) \<Longrightarrow> conn_of h k = Some c \<Longrightarrow> user_id (cn_id c) = u \<Longrightarrow>
    \<exists>c'. conn_of (disconnect_user u h) k = Some c' \<and> cn_done c'"
  by (force simp: disconnect_user_def on_conns_def close_conn_def)

lemma disconnect_device_closes:
  "(d, k) \<in> set (registered h) \<Longrightarrow> conn_of h k = Some c \<Longrightarrow>
    \<exists>c'. conn_of (disconnect_device d h) k = Some c' \<and> cn_done c'"
  by (simp add: disconnect_device_def on_conns_def close_conn_def)

lemma active_users_Some:
  assumes "active_users s device = Some u" "db_ok s"
  shows "\<exists>d w. d \<in> set (devices s) \<and> d_id d = device \<and> d_user d = u \<and> \<not> d_revoked d
    \<and> w \<in> set (users s) \<and> u_id w = u \<and> \<not> u_disabled w"
  using query_row_SomeD [OF assms(1) [unfolded active_users_def]] by (auto split: if_splits)

text \<open>After a sweep an open connection of the batch belongs to an active device of its user.\<close>

lemma validate_batch_sound:
  assumes "db_ok s" "(device, k) \<in> set todo" "conn_of (validate_batch fail s todo h) k = Some c" "\<not> cn_done c"
    "user_id (cn_id c) \<noteq> []" "device_id (cn_id c) = device"
  shows "\<not> fail \<and> deviceActive False s (cn_id c)"
proof -
  from assms(3) obtain c0 where c0: "conn_of h k = Some c0"
    and c: "c = (if \<exists>(device, j) \<in> set todo. j = k \<and>
         (fail \<or> (case active_users s device of None \<Rightarrow> [] | Some u \<Rightarrow> u) \<noteq> user_id (cn_id c0)) then close_conn c0 else c0)"
    by (auto simp: validate_batch_def on_conns_def split: option.splits)
  have open0: "\<not> (\<exists>(device, j) \<in> set todo. j = k \<and>
         (fail \<or> (case active_users s device of None \<Rightarrow> [] | Some u \<Rightarrow> u) \<noteq> user_id (cn_id c0)))"
    using assms(4) c by (auto simp: close_conn_def split: if_splits)
  then have cc: "c = c0" using c by simp
  from open0 assms(2) have "\<not> fail" "(case active_users s device of None \<Rightarrow> [] | Some u \<Rightarrow> u) = user_id (cn_id c)"
    by (auto simp: cc)
  moreover from this assms(5) have "active_users s device = Some (user_id (cn_id c))"
    by (cases "active_users s device") auto
  from active_users_Some [OF this assms(1)] assms(6) have "deviceActive False s (cn_id c)"
    unfolding deviceActive_iff [OF assms(1)] by auto
  ultimately show ?thesis by simp
qed

end
