(* ===== verification/Capacity.thy ===== *)
theory Capacity
  imports Types "HOL-Library.Signed_Division"
begin

text \<open>
  \<open>config/capacity.go\<close> and the capacity and policy checks of \<open>Config.Validate\<close>. Go's \<open>int\<close> is 64 bits
  wide here; its division truncates (\<open>sdiv\<close>) and panics on zero, which is \<open>None\<close>.
\<close>

subsection \<open>Validation\<close>

definition validate_capacity :: "capacity_cfg \<Rightarrow> string option" where
  "validate_capacity c =
     (if cap_expected_users c \<le> 0 \<or> cap_expected_users c > 1000000 \<or> cap_max_connections c < 0
        \<or> cap_queue_depth c < 0 \<or> cap_workers c < 0
      then Some ''capacity values invalid: expected users must be 1..1000000, explicit limits nonnegative''
      else if cap_max_connections c > 0 \<and> cap_max_connections c < cap_expected_users c
      then Some ''capacity.max_connections is below expected_concurrent_users''
      else if cap_max_connections c > 1000000 \<or> cap_queue_depth c > 4096 \<or> cap_workers c > 4096
      then Some ''explicit capacity exceeds safety ceilings''
      else None)"

fun unseen_nonempty :: "string list \<Rightarrow> string list \<Rightarrow> bool" where
  "unseen_nonempty seen [] = True"
| "unseen_nonempty seen (r # rs) = (r \<noteq> [] \<and> r \<notin> set seen \<and> unseen_nonempty (r # seen) rs)"

definition validate_policy :: "features_cfg \<Rightarrow> policy_cfg \<Rightarrow> string option" where
  "validate_policy f p =
     (if pol_history p \<noteq> ''since_join'' \<and> pol_history p \<noteq> ''all''
      then Some ''policy.history must be since_join or all''
      else if pol_delete_mode p \<noteq> ''global'' \<and> pol_delete_mode p \<noteq> ''author_only''
      then Some ''policy.delete_mode must be global or author_only''
      else if pol_event_retention_hours p \<le> 0 \<or> pol_dedup_retention_hours p \<le> 0 \<or> pol_max_message_bytes p \<le> 0
        \<or> pol_max_batch p \<le> 0 \<or> pol_max_file_bytes p \<le> 0 \<or> pol_max_chunk_bytes p \<le> 0
        \<or> pol_max_chunk_bytes p > pol_max_file_bytes p \<or> pol_max_storage_bytes p < pol_max_file_bytes p
        \<or> pol_upload_ttl_hours p \<le> 0
      then Some ''policy retention and size limits must be positive and consistent''
      else if pol_max_message_bytes p > 16 * 1024 * 1024 \<or> pol_max_batch p > 1000
        \<or> pol_max_chunk_bytes p > 16 * 1024 * 1024 \<or> pol_max_file_bytes p > 2 ^ 40
        \<or> pol_max_storage_bytes p > 2 ^ 49 \<or> pol_event_retention_hours p > 87600
        \<or> pol_dedup_retention_hours p > 87600 \<or> pol_upload_ttl_hours p > 87600
      then Some ''policy exceeds safety ceilings''
      else if feat_reactions f \<and> length (pol_reaction_types p) = 0
      then Some ''reactions require policy.reaction_types''
      else if \<not> unseen_nonempty [] (pol_reaction_types p)
      then Some ''reaction_types must be unique and nonempty''
      else None)"

subsection \<open>Derived limits\<close>

record resources =
  res_cpus :: int
  res_memory :: int

definition go_div :: "int \<Rightarrow> int \<Rightarrow> int option" where
  "go_div a b = (if b = 0 then None else Some (a sdiv b))"

definition derive_workers :: "resources \<Rightarrow> int" where
  "derive_workers r = (let w = res_cpus r * 2 in if w > 64 then 64 else w)"

definition derive_connections :: "int \<Rightarrow> int" where
  "derive_connections expected = (let n = expected + expected sdiv 5 in if n < expected + 1 then expected + 1 else n)"

definition derive_queue :: "resources \<Rightarrow> int \<Rightarrow> int option" where
  "derive_queue r conns =
     (case go_div (res_memory r sdiv 4) conns of
        None \<Rightarrow> None
      | Some share \<Rightarrow> (let q = share sdiv 65536 in Some (if q < 1 then 1 else if q > 64 then 64 else q)))"

definition DeriveCapacity :: "capacity_cfg \<Rightarrow> resources \<Rightarrow> capacity_cfg option" where
  "DeriveCapacity c r0 =
     (let r1 = (if res_cpus r0 < 1 then r0\<lparr>res_cpus := 1\<rparr> else r0);
          r = (if res_memory r1 < 1 then r1\<lparr>res_memory := 512 * 2 ^ 20\<rparr> else r1);
          c1 = (if cap_workers c = 0 then c\<lparr>cap_workers := derive_workers r\<rparr> else c);
          c2 = (if cap_max_connections c1 = 0
                then c1\<lparr>cap_max_connections := derive_connections (cap_expected_users c1)\<rparr> else c1) in
      if cap_queue_depth c2 = 0
      then map_option (\<lambda>q. c2\<lparr>cap_queue_depth := q\<rparr>) (derive_queue r (cap_max_connections c2))
      else Some c2)"

record estimate =
  est_cpus :: int
  est_memory :: int

text \<open>The numbers are computed in \<open>int64\<close>; \<open>EstimateResources\<close> gives the exact values (see the bound below).\<close>

definition EstimateResources :: "capacity_cfg \<Rightarrow> policy_cfg \<Rightarrow> estimate" where
  "EstimateResources c p =
     (let cpus = (cap_expected_users c + 1999) sdiv 2000 in
      \<lparr>est_cpus = (if cpus < 1 then 1 else cpus),
       est_memory = 128 * 2 ^ 20
         + cap_max_connections c * (128 * 2 ^ 10 + cap_queue_depth c * pol_max_message_bytes p)
         + cap_workers c * pol_max_message_bytes p * pol_max_batch p\<rparr>)"

subsection \<open>What an accepted configuration derives\<close>

lemma sdiv_nonneg: "0 \<le> a \<Longrightarrow> 0 < b \<Longrightarrow> a sdiv b = a div (b :: int)"
  by (cases "a = 0") (simp_all add: signed_divide_int_def sgn_if)

lemma validate_capacity_None:
  "validate_capacity c = None \<longleftrightarrow> 1 \<le> cap_expected_users c \<and> cap_expected_users c \<le> 1000000
     \<and> (cap_max_connections c = 0 \<or> cap_expected_users c \<le> cap_max_connections c \<and> cap_max_connections c \<le> 1000000)
     \<and> 0 \<le> cap_queue_depth c \<and> cap_queue_depth c \<le> 4096 \<and> 0 \<le> cap_workers c \<and> cap_workers c \<le> 4096"
  by (auto simp: validate_capacity_def)

lemma derive_connections_bounds:
  "1 \<le> n \<Longrightarrow> derive_connections n = max (n + 1) (n + n div 5) \<and> n < derive_connections n \<and> 5 * derive_connections n \<le> 6 * n + 5"
  by (auto simp: derive_connections_def sdiv_nonneg Let_def)

lemma derive_queue_bounds:
  assumes "1 \<le> res_memory r" "1 \<le> conns"
  obtains q where "derive_queue r conns = Some q" "1 \<le> q" "q \<le> 64"
    "q = 1 \<or> q * conns * 65536 \<le> res_memory r div 4"
proof -
  define share where "share = res_memory r div 4 div conns"
  have s: "0 \<le> share" "0 \<le> res_memory r div 4"
    using assms by (simp_all add: share_def pos_imp_zdiv_nonneg_iff)
  have "share * conns + res_memory r div 4 mod conns = res_memory r div 4" by (simp add: share_def)
  moreover have "0 \<le> res_memory r div 4 mod conns" using assms(2) by simp
  ultimately have le: "share * conns \<le> res_memory r div 4" by linarith
  define q where "q = (if share div 65536 < 1 then 1 else if share div 65536 > 64 then 64 else share div 65536)"
  have dq: "derive_queue r conns = Some q"
    using assms s by (simp add: derive_queue_def go_div_def sdiv_nonneg share_def [symmetric] q_def Let_def)
  have "q * conns * 65536 \<le> res_memory r div 4" if "q \<noteq> 1"
  proof -
    have "q \<le> share div 65536" using that by (auto simp: q_def split: if_splits)
    then have "q * 65536 \<le> share" by linarith
    then have "q * 65536 * conns \<le> share * conns" using assms(2) by (intro mult_right_mono) simp_all
    with le show ?thesis by (simp add: algebra_simps)
  qed
  moreover have "1 \<le> q" "q \<le> 64" by (auto simp: q_def)
  ultimately show ?thesis using that [OF dq] by blast
qed

definition capacity_set :: "capacity_cfg \<Rightarrow> bool" where
  "capacity_set c \<longleftrightarrow> 1 \<le> cap_workers c \<and> cap_expected_users c \<le> cap_max_connections c \<and> 1 \<le> cap_queue_depth c"

text \<open>
  The derivation never panics on an accepted configuration, keeps explicit limits, sets the
  others, and reserves at most a quarter of the memory for derived queues of more than one entry.
\<close>

lemma DeriveCapacity_ok:
  assumes "validate_capacity c = None"
  obtains c' where "DeriveCapacity c r = Some c'" "capacity_set c'" "cap_expected_users c' = cap_expected_users c"
    "cap_workers c \<noteq> 0 \<Longrightarrow> cap_workers c' = cap_workers c"
    "cap_max_connections c \<noteq> 0 \<Longrightarrow> cap_max_connections c' = cap_max_connections c"
    "cap_max_connections c = 0 \<Longrightarrow> cap_max_connections c' = derive_connections (cap_expected_users c)"
    "cap_queue_depth c \<noteq> 0 \<Longrightarrow> cap_queue_depth c' = cap_queue_depth c"
    "cap_queue_depth c = 0 \<Longrightarrow> cap_queue_depth c' \<le> 64 \<and> (cap_queue_depth c' = 1
       \<or> cap_queue_depth c' * cap_max_connections c' * 65536 \<le> (if res_memory r < 1 then 512 * 2 ^ 20 else res_memory r) div 4)"
    "cap_workers c' \<le> max 64 (cap_workers c)"
proof -
  note v = assms [unfolded validate_capacity_None]
  define r' where "r' = \<lparr>res_cpus = max 1 (res_cpus r), res_memory = (if res_memory r < 1 then 512 * 2 ^ 20 else res_memory r)\<rparr>"
  have r': "(if res_memory (if res_cpus r < 1 then r\<lparr>res_cpus := 1\<rparr> else r) < 1
        then (if res_cpus r < 1 then r\<lparr>res_cpus := 1\<rparr> else r)\<lparr>res_memory := 512 * 2 ^ 20\<rparr>
        else (if res_cpus r < 1 then r\<lparr>res_cpus := 1\<rparr> else r)) = r'"
    by (auto simp: r'_def)
  define w where "w = (if cap_workers c = 0 then derive_workers r' else cap_workers c)"
  define n where "n = (if cap_max_connections c = 0 then derive_connections (cap_expected_users c) else cap_max_connections c)"
  have w: "1 \<le> w" "w \<le> max 64 (cap_workers c)" using v by (auto simp: w_def derive_workers_def r'_def Let_def)
  have n: "cap_expected_users c \<le> n" using v derive_connections_bounds [of "cap_expected_users c"] by (auto simp: n_def)
  have "1 \<le> res_memory r'" "1 \<le> n" using n v by (auto simp: r'_def)
  then obtain q where q: "derive_queue r' n = Some q" "1 \<le> q" "q \<le> 64" "q = 1 \<or> q * n * 65536 \<le> res_memory r' div 4"
    by (rule derive_queue_bounds)
  let ?c = "\<lparr>cap_expected_users = cap_expected_users c, cap_max_connections = n,
      cap_queue_depth = (if cap_queue_depth c = 0 then q else cap_queue_depth c), cap_workers = w\<rparr>"
  have "DeriveCapacity c r = Some ?c"
    using q(1) unfolding DeriveCapacity_def Let_def r'
    by (cases "cap_workers c = 0"; cases "cap_max_connections c = 0"; cases "cap_queue_depth c = 0")
      (auto simp: w_def n_def intro!: capacity_cfg.equality)
  moreover have "res_memory r' = (if res_memory r < 1 then 512 * 2 ^ 20 else res_memory r)" by (simp add: r'_def)
  ultimately show ?thesis using w n q(2-4) v
    by (intro that [of ?c]) (auto simp: capacity_set_def w_def n_def)
qed

text \<open>The daemon validates the derived configuration again: that passes exactly below 833334 users.\<close>

lemma revalidate_iff:
  assumes v: "validate_capacity c = None" and d: "DeriveCapacity c r = Some c'"
  shows "validate_capacity c' = None \<longleftrightarrow> cap_max_connections c \<noteq> 0 \<or> cap_expected_users c \<le> 833334"
proof -
  obtain c'' where c'': "DeriveCapacity c r = Some c''" "capacity_set c''" "cap_expected_users c'' = cap_expected_users c"
    "cap_max_connections c \<noteq> 0 \<Longrightarrow> cap_max_connections c'' = cap_max_connections c"
    "cap_max_connections c = 0 \<Longrightarrow> cap_max_connections c'' = derive_connections (cap_expected_users c)"
    "cap_queue_depth c \<noteq> 0 \<Longrightarrow> cap_queue_depth c'' = cap_queue_depth c"
    "cap_queue_depth c = 0 \<Longrightarrow> cap_queue_depth c'' \<le> 64" "cap_workers c'' \<le> max 64 (cap_workers c)"
    using DeriveCapacity_ok [OF v, of r] by metis
  have [simp]: "c'' = c'" using c''(1) d by simp
  note v = v [unfolded validate_capacity_None]
  have "derive_connections (cap_expected_users c) \<le> 1000000 \<longleftrightarrow> cap_expected_users c \<le> 833334"
    using derive_connections_bounds [of "cap_expected_users c"] v by auto
  moreover have "cap_queue_depth c' \<le> 4096" using c''(6,7) v by (cases "cap_queue_depth c = 0") auto
  ultimately show ?thesis using c''(2-5,8) v unfolding validate_capacity_None capacity_set_def
    by (cases "cap_max_connections c = 0") auto
qed

text \<open>The estimate of an accepted configuration fits in 63 bits, before and after the derivation.\<close>

lemma EstimateResources_bounds:
  assumes "0 \<le> cap_max_connections c" "cap_max_connections c \<le> 1200000" "0 \<le> cap_queue_depth c" "cap_queue_depth c \<le> 4096"
    "0 \<le> cap_workers c" "cap_workers c \<le> 4096" "validate_policy f p = None" "1 \<le> cap_expected_users c"
    "cap_expected_users c \<le> 1000000"
  shows "128 * 2 ^ 20 \<le> est_memory (EstimateResources c p) \<and> est_memory (EstimateResources c p) < 2 ^ 63
    \<and> 1 \<le> est_cpus (EstimateResources c p) \<and> est_cpus (EstimateResources c p) \<le> 500
    \<and> cap_expected_users c \<le> 2000 * est_cpus (EstimateResources c p)"
proof -
  from assms(7) have p: "0 < pol_max_message_bytes p" "pol_max_message_bytes p \<le> 16777216"
    "0 < pol_max_batch p" "pol_max_batch p \<le> 1000"
    by (auto simp: validate_policy_def split: if_splits)
  define a where "a = cap_queue_depth c * pol_max_message_bytes p"
  have a: "0 \<le> a" "a \<le> 4096 * 16777216" unfolding a_def
    using assms p mult_mono [of "cap_queue_depth c" 4096 "pol_max_message_bytes p" 16777216] by simp_all
  define b where "b = cap_max_connections c * (131072 + a)"
  have b: "0 \<le> b" "b \<le> 1200000 * (131072 + 4096 * 16777216)" unfolding b_def
    using assms a mult_mono [of "cap_max_connections c" 1200000 "131072 + a" "131072 + 4096 * 16777216"] by simp_all
  define d where "d = cap_workers c * pol_max_message_bytes p * pol_max_batch p"
  have d: "0 \<le> d" "d \<le> 4096 * 16777216 * 1000" unfolding d_def
    using assms p mult_mono [of "cap_workers c" 4096 "pol_max_message_bytes p" 16777216]
      mult_mono [of "cap_workers c * pol_max_message_bytes p" "4096 * 16777216" "pol_max_batch p" 1000] by simp_all
  have "est_memory (EstimateResources c p) = 134217728 + b + d"
    by (simp add: EstimateResources_def a_def b_def d_def Let_def)
  moreover have "est_cpus (EstimateResources c p) = (cap_expected_users c + 1999) div 2000"
    using assms(8) by (simp add: EstimateResources_def sdiv_nonneg Let_def)
  ultimately show ?thesis using b d assms(8,9) by auto
qed

lemma unseen_nonempty_iff: "unseen_nonempty seen rs \<longleftrightarrow> distinct rs \<and> [] \<notin> set rs \<and> set rs \<inter> set seen = {}"
  by (induction rs arbitrary: seen) auto

end
