(* ===== verification/Fixture.thy ===== *)
theory Fixture
  imports Calls Realtime Capacity
begin

text \<open>
  A small concrete installation on which the properties are instantiated: two users with one
  device each and a direct basic chat between them, an environment without storage faults, and
  stand-ins for the cryptographic primitives that satisfy the laws the properties assume.
\<close>

definition pad :: "nat \<Rightarrow> bytes \<Rightarrow> bytes" where
  "pad n xs = take n (xs @ replicate n (CHR ''0''))"

definition toy_prims :: prims where
  "toy_prims = \<lparr>p_sha256 = pad 4,
     p_gcm_seal = (\<lambda>k n p a. pad 14 k @ pad 14 (rev a) @ p),
     p_gcm_open = (\<lambda>k x a. if take 28 x = pad 14 k @ pad 14 (rev a) then Some (drop 28 x) else None),
     p_hpke_public = (\<lambda>sk. Some sk),
     p_hpke_accepts = (\<lambda>pk. pk \<noteq> []),
     p_hpke_seal = (\<lambda>pk info r p a. Some (pk, p)),
     p_hpke_open = (\<lambda>sk info enc ct a. if enc = sk then Some ct else None)\<rparr>"

lemma length_pad [simp]: "length (pad n xs) = n"
  by (simp add: pad_def)

lemma toy_gcm_opens: "gcm_opens toy_prims k"
  by (simp add: gcm_opens_def toy_prims_def gcm_overhead_def)

lemma toy_gcm_rejects: "pad 14 k' \<noteq> pad 14 k \<Longrightarrow> gcm_rejects toy_prims k' k"
  by (simp add: gcm_rejects_def toy_prims_def)

lemma toy_hpke_opens: "hpke_opens toy_prims k k"
  by (simp add: hpke_opens_def toy_prims_def)

text \<open>Keys of three bytes, and their base64 texts.\<close>

definition toy_engine :: engine where
  "toy_engine = \<lparr>eng_aead = ''KEY'', eng_private = ''SRV'', eng_public = ''SRV'',
     eng_id = keyID toy_prims ''SRV'', eng_previousAEAD = [], eng_previousHPKE = Map.empty\<rparr>"

lemma toy_base64: "b64_decode ''U1JW'' = Some ''SRV''" "b64_decode ''QTAx'' = Some ''A01''" "b64_decode ''QjAx'' = Some ''B01''"
  by code_simp+

definition toy_features :: features_cfg where
  "toy_features = \<lparr>feat_groups = True, feat_files = False, feat_e2ee = False, feat_calls = True, feat_delete = True,
     feat_edit = True, feat_reply = True, feat_forward = True, feat_reactions = True, feat_openai = False,
     feat_anthropic = False, feat_ai_streaming = False, feat_mcp = False, feat_http_tools = False,
     feat_ai_policy = False, feat_ai_storage = False, feat_ai_endpoint = False\<rparr>"

definition toy_policy :: policy_cfg where
  "toy_policy = \<lparr>pol_history = ''since_join'', pol_delete_mode = ''global'', pol_reaction_types = [''+'', ''-''],
     pol_event_retention_hours = 720, pol_dedup_retention_hours = 24, pol_max_message_bytes = 65536,
     pol_max_batch = 100, pol_max_file_bytes = 67108864, pol_max_chunk_bytes = 1048576,
     pol_max_storage_bytes = 10737418240, pol_upload_ttl_hours = 24\<rparr>"

definition toy_capacity :: capacity_cfg where
  "toy_capacity = \<lparr>cap_expected_users = 100, cap_max_connections = 120, cap_queue_depth = 8, cap_workers = 2\<rparr>"

definition toy_config :: config where
  "toy_config = \<lparr>cfg_server = \<lparr>srv_allow_insecure_loopback = False, srv_trusted_proxy = False, srv_origins = []\<rparr>,
     cfg_security = \<lparr>sec_issuer = ''qgramm'', sec_audience = ''qgramm''\<rparr>, cfg_features = toy_features,
     cfg_capacity = toy_capacity, cfg_policy = toy_policy,
     cfg_calls = \<lparr>call_turn_urls = [''turn:t''], call_credential_ttl_seconds = 600\<rparr>\<rparr>"

type_synonym toy_ext = "unit call_db_ext mod_db_ext"

text \<open>The hooks in the order in which \<open>Open\<close> installs the modules: by name.\<close>

definition toy_core :: "toy_ext core" where
  "toy_core = \<lparr>cfg = toy_config, prim = toy_prims, eng = toy_engine, prepare_hooks = [],
     tx_hooks = [forward_hook, reply_hook], project_hooks = [delete_project_hook, reactions_project_hook],
     delete_hooks = [reactions_delete_hook]\<rparr>"

definition toy_env :: "time \<Rightarrow> ident \<Rightarrow> env" where
  "toy_env t u = \<lparr>now = t, uuid = u, nonce = ''nonce'', draws = (\<lambda>_. []), flt = no_faults\<rparr>"

definition alice :: identity where "alice = \<lparr>user_id = ''alice'', device_id = ''a1''\<rparr>"
definition bob :: identity where "bob = \<lparr>user_id = ''bob'', device_id = ''b1''\<rparr>"

definition toy_db :: "unit call_db_scheme" where
  "toy_db = \<lparr>versions = [1], indexes = [],
     users = [\<lparr>u_id = ''alice'', u_disabled = False\<rparr>, \<lparr>u_id = ''bob'', u_disabled = False\<rparr>],
     devices = [\<lparr>d_id = ''a1'', d_user = ''alice'', d_public_key = ''QTAx'', d_signing_key = [], d_revoked = False\<rparr>,
       \<lparr>d_id = ''b1'', d_user = ''bob'', d_public_key = ''QjAx'', d_signing_key = [], d_revoked = False\<rparr>],
     chats = [\<lparr>c_id = ''c'', c_kind = ''direct'', c_mode = ''basic'', c_seq = 0, c_epoch = 0, c_pending = False, c_created = 0\<rparr>],
     members = [\<lparr>m_chat = ''c'', m_user = ''alice'', m_role = ''owner'', m_can_send = True, m_joined = 1, m_active = True\<rparr>,
       \<lparr>m_chat = ''c'', m_user = ''bob'', m_role = ''member'', m_can_send = True, m_joined = 1, m_active = True\<rparr>],
     messages = [], events = [], operations = [], cursors = [], tickets = [],
     hidden_messages = [], reactions = [], calls = [], call_operations = []\<rparr>"

lemma toy_db_ok: "db_ok toy_db"
  by (auto simp: toy_db_def db_ok_unfold unique_on_def m_key_def intro: exI [of _ 0])

lemma toy_direct_ok: "direct_ok toy_db"
  by (simp add: toy_db_def direct_ok_def members_of_def)

lemma toy_calls_ok: "calls_ok toy_db"
  unfolding calls_ok_def using toy_db_ok by (simp add: toy_db_def live_calls_def)

lemma toy_reactions_ok: "reactions_ok toy_db"
  unfolding reactions_ok_def using toy_db_ok by (simp add: toy_db_def)

lemma toy_hooks: "hooks_frame toy_core"
  using reply_tx.tx_hook_axioms forward_tx.tx_hook_axioms by (simp add: hooks_frame_def toy_core_def)

lemma toy_project: "project_frame toy_core"
  using delete_projection.project_hook_axioms reactions_projection.project_hook_axioms
  by (simp add: project_frame_def toy_core_def)

lemma toy_delete: "delete_frame toy_core"
  using reactions_delete.delete_hook_axioms by (simp add: delete_frame_def toy_core_def)

text \<open>Alice sends a message to the chat; the envelope is what her client sealed for the server.\<close>

definition hello :: message_input where
  "hello = \<lparr>in_operation = ''op-1'', in_envelope = Some \<lparr>env_key_id = eng_id toy_engine,
       env_enc = ''U1JW'', env_ciphertext = ''aGk=''\<rparr>, in_mls = [], in_epoch = 0,
     in_attachments = None, in_reply_to = [], in_forward_from = [], in_payload = []\<rparr>"

definition hello_job :: write_job where
  "hello_job = \<lparr>j_who = alice, j_chat = ''c'', j_input = hello\<lparr>in_envelope := None\<rparr>, j_mode = ''basic'', j_epoch = 0,
     j_hash = operation_hash toy_prims ''c'' hello, j_message = ''m-1'',
     j_stored = Seal toy_prims toy_engine ''nonce'' ''hi'' ''message/m-1'',
     j_metadata = \<lparr>meta_attachments = [], meta_forward_from = [], meta_reply_to = []\<rparr>,
     j_bytes = 31 + length (marshal_metadata (hello\<lparr>in_payload := ''hi''\<rparr>))\<rparr>"

definition hello_message :: message where
  "hello_message = job_message hello_job 1000 1"

definition hello_db :: "unit call_db_scheme" where
  "hello_db = toy_db\<lparr>chats := [\<lparr>c_id = ''c'', c_kind = ''direct'', c_mode = ''basic'', c_seq = 1, c_epoch = 0, c_pending = False, c_created = 0\<rparr>],
     events := [\<lparr>e_chat = ''c'', e_seq = 1, e_kind = ''message.created'', e_message = ''m-1'', e_data = None, e_created = 1000\<rparr>],
     messages := [job_row hello_job 1000 1], operations := [job_operation hello_job 1000 hello_message]\<rparr>"

lemmas toy_eval = toy_core_def toy_config_def toy_features_def toy_policy_def toy_capacity_def toy_env_def toy_db_def
  alice_def bob_def shift_env_def shift_faults_def no_faults_def

lemma toy_base64_strict: "b64_decode_strict ''U1JW'' = Some ''SRV''" "b64_decode_strict ''aGk='' = Some ''hi''"
  by code_simp+

lemma hello_opens: "OpenEnvelope toy_prims toy_engine \<lparr>env_key_id = eng_id toy_engine,
    env_enc = ''U1JW'', env_ciphertext = ''aGk=''\<rparr> b = Inr ''hi''"
  using toy_base64_strict by (simp add: OpenEnvelope_def toy_prims_def toy_engine_def)

lemma toy_Seal_length [simp]: "length (Seal toy_prims e n p a) = 29 + length p"
  by (simp add: Seal_def toy_prims_def)

lemma hello_prepared: "prepareMessage toy_core (toy_env 1000 ''m-1'') toy_db alice ''c'' hello = Inr (Job hello_job)"
  by (simp add: prepareMessage_def validID_def id_char_def send_permission_def toy_eval hello_def hello_job_def
      open_payload_def build_job_def Let_def attachments_of_def hello_opens)

lemma hello_persisted: "persistMessageInTx toy_core (toy_env 1000 ''x'') toy_db hello_job = Inr (hello_message, False, hello_db)"
  by (simp add: persistMessageInTx_def tx_permission_def toy_eval hello_job_def hello_message_def hello_db_def hello_def
     Append_def bump_seq_def update_rows_def insert_row_def job_message_def job_row_def job_operation_def
     o_key_def e_key_def forward_hook_def reply_hook_def Let_def attachments_of_def hook_env_def)

lemma hello_db_ok: "db_ok hello_db"
  by (rule persist_db_ok [OF toy_db_ok toy_hooks hello_persisted])

text \<open>What the store holds then, and what Bob is shown.\<close>

definition hello_row :: message_row where "hello_row = job_row hello_job 1000 1"
definition hello_chat :: chat_row where
  "hello_chat = \<lparr>c_id = ''c'', c_kind = ''direct'', c_mode = ''basic'', c_seq = 1, c_epoch = 0, c_pending = False, c_created = 0\<rparr>"

lemma hello_row_simps: "g_id hello_row = ''m-1''" "g_chat hello_row = ''c''" "g_seq hello_row = 1" "g_deleted hello_row = False"
  "g_payload hello_row = Seal toy_prims toy_engine ''nonce'' ''hi'' ''message/m-1''"
  by (simp_all add: hello_row_def job_row_def hello_job_def alice_def)
lemma hello_tables: "messages hello_db = [hello_row]" "chats hello_db = [hello_chat]" "members hello_db = members toy_db"
  "devices hello_db = devices toy_db" "users hello_db = users toy_db"
  by (simp_all add: hello_db_def hello_row_def hello_chat_def)

lemma hello_history_rows: "history_rows hello_db bob ''c'' 0 n = take n [(Some hello_row, hello_chat, ''QjAx'')]"
  by (simp add: history_rows_def hello_tables hello_row_simps toy_db_def bob_def hello_chat_def)

lemma hello_projected: "\<exists>m. projectStoredMessages toy_core (toy_env 1001 []) k hello_db bob [stored_of hello_row hello_chat] ''QjAx'' = Inr [m] \<and> msg_id m = ''m-1'' \<and> msg_seq m = 1"
  by (simp add: projectStoredMessages_def project_item_def stored_of_def hello_row_def hello_job_def job_row_def hello_chat_def toy_eval hello_db_def
       Open_def Seal_def toy_prims_def toy_engine_def storageAAD_def pad_def SealEnvelope_def toy_base64
       delete_project_hook_def reactions_project_hook_def gcm_overhead_def hook_env_def Let_def)
end
