(* ===== verification/System.thy ===== *)
theory System
  imports Calls Upkeep
begin

text \<open>
  The composition: all operations of the core and of the modelled modules on one store, as the
  steps of a transition system with a clock that does not run backwards. A message is one step:
  a batch of the writer is a serial run of its successful jobs (\<open>message_batch.batch_serial\<close>).
\<close>

subsection \<open>Frames\<close>

text \<open>
  What an operation at time \<open>t\<close> does to the core tables that other operations rely on: events are
  only appended, stamped with \<open>t\<close>, and no revocation is taken back.
\<close>

definition logged :: "time \<Rightarrow> 'z db_scheme \<Rightarrow> 'z db_scheme \<Rightarrow> bool" where
  "logged t s s' \<longleftrightarrow> (\<exists>es. events s' = events s @ es \<and> (\<forall>e \<in> set es. e_created e = t))
     \<and> (\<forall>d. revoked_in s d \<longrightarrow> revoked_in s' d)"

definition same_chats :: "'z db_scheme \<Rightarrow> 'z db_scheme \<Rightarrow> bool" where
  "same_chats s s' \<longleftrightarrow> members s' = members s
     \<and> map (\<lambda>c. (c_id c, c_kind c)) (chats s') = map (\<lambda>c. (c_id c, c_kind c)) (chats s)"

definition same_calls :: "'w call_db_scheme \<Rightarrow> 'w call_db_scheme \<Rightarrow> bool" where
  "same_calls s s' \<longleftrightarrow> calls s' = calls s \<and> call_operations s' = call_operations s"

definition reactions_kept :: "'w mod_db_scheme \<Rightarrow> 'w mod_db_scheme \<Rightarrow> bool" where
  "reactions_kept s s' \<longleftrightarrow> (unique_on r_key (reactions s) \<longrightarrow> unique_on r_key (reactions s'))"

definition quiet :: "time \<Rightarrow> 'w call_db_scheme \<Rightarrow> 'w call_db_scheme \<Rightarrow> bool" where
  "quiet t s s' \<longleftrightarrow> logged t s s' \<and> same_chats s s' \<and> same_calls s s' \<and> reactions_kept s s'"

lemma logged_trans: "logged t s1 s2 \<Longrightarrow> logged t s2 s3 \<Longrightarrow> logged t s1 s3"
  unfolding logged_def by (metis append_assoc in_set_conv_decomp Un_iff set_append)

lemma logged_same [intro]: "events s' = events s \<Longrightarrow> devices s' = devices s \<Longrightarrow> logged t s s'"
  by (simp add: logged_def revoked_in_def)

lemma quiet_trans: "quiet t s1 s2 \<Longrightarrow> quiet t s2 s3 \<Longrightarrow> quiet t s1 s3"
  by (auto simp: quiet_def same_chats_def same_calls_def reactions_kept_def intro: logged_trans)

lemma quiet_same:
  assumes "events s' = events s" "devices s' = devices s" "members s' = members s" "chats s' = chats s"
    "calls s' = calls s" "call_operations s' = call_operations s" "reactions s' = reactions s"
  shows "quiet t s s'"
  using assms by (auto simp: quiet_def same_chats_def same_calls_def reactions_kept_def)

lemma quiet_refl [simp, intro]: "quiet t s s"
  by (rule quiet_same) simp_all

lemma Append_logged: "Append C env s chat kind m d = Inr (n, s') \<Longrightarrow> logged (now env) s s'"
  by (erule Append_Inr) (auto simp: logged_def revoked_in_def)

lemma Append_same_chats: "Append C env s chat kind m d = Inr (n, s') \<Longrightarrow> same_chats s s'"
  by (simp add: same_chats_def Append_frame(3) Append_chats bump_seq_def map_update_rows)

lemma Append_quiet: "Append C env s chat kind m d = Inr (n, s') \<Longrightarrow> quiet (now env) s s'"
  by (simp add: quiet_def Append_logged Append_same_chats same_calls_def Append_call_tables reactions_kept_def Append_reactions)

text \<open>
  The modules that may be installed: the hooks they put into the transactions of the core write no table of the core, of calls and of
  reactions (deleting the reactions of a deleted message apart). The hooks of forward, reply and reactions are such, those of files and
  of the MLS relay too (\<open>Platform\<close>).
\<close>

definition own_tables :: "'w call_db_scheme \<Rightarrow> 'w call_db_scheme \<Rightarrow> bool" where
  "own_tables s s' \<longleftrightarrow> same_core s s' \<and> same_calls s s' \<and> reactions s' = reactions s"

locale module_tx_hook =
  fixes hook :: "env \<Rightarrow> 'w call_db_scheme \<Rightarrow> identity \<Rightarrow> ident \<Rightarrow> message \<Rightarrow> go_error + 'w call_db_scheme"
  assumes own: "hook env s who chat m = Inr s' \<Longrightarrow> own_tables s s'"

locale module_delete_hook =
  fixes hook :: "env \<Rightarrow> 'w call_db_scheme \<Rightarrow> ident \<Rightarrow> go_error + 'w call_db_scheme"
  assumes own: "hook env s mid = Inr s' \<Longrightarrow> same_core s s' \<and> same_calls s s' \<and> reactions_kept s s'"

sublocale module_tx_hook \<subseteq> tx_hook hook
  using own by unfold_locales (auto simp: own_tables_def)

sublocale module_delete_hook \<subseteq> delete_hook hook
  using own by unfold_locales auto

definition standard_modules :: "'w call_db_ext mod_db_ext core \<Rightarrow> bool" where
  "standard_modules C \<longleftrightarrow> (\<forall>h \<in> set (tx_hooks C). module_tx_hook h) \<and> (\<forall>h \<in> set (delete_hooks C). module_delete_hook h)"

lemma own_tables_refl [simp, intro]: "own_tables s s"
  by (simp add: own_tables_def same_calls_def)

lemma own_tables_trans: "own_tables s1 s2 \<Longrightarrow> own_tables s2 s3 \<Longrightarrow> own_tables s1 s3"
  by (auto simp: own_tables_def same_calls_def intro: same_core_trans)

lemma own_tables_quiet: "own_tables s s' \<Longrightarrow> quiet t s s'"
  by (rule quiet_same) (simp_all add: own_tables_def same_core_def same_calls_def)

interpretation forward_module: module_tx_hook forward_hook
  by unfold_locales (auto simp: forward_hook_def split: if_splits)

interpretation reply_module: module_tx_hook reply_hook
  by unfold_locales (auto simp: reply_hook_def split: if_splits)

interpretation reactions_module: module_delete_hook reactions_delete_hook
  by unfold_locales (auto simp: reactions_delete_hook_def same_core_def same_calls_def reactions_kept_def split: if_splits intro: unique_on_delete)

lemma standard_hooks:
  "standard_modules C \<Longrightarrow> hooks_frame C" "standard_modules C \<Longrightarrow> delete_frame C"
  by (auto simp: standard_modules_def hooks_frame_def delete_frame_def tx_hook_def delete_hook_def module_tx_hook_def own_tables_def
      module_delete_hook_def)

lemma run_tx_own:
  "\<forall>h \<in> set hs. module_tx_hook h \<Longrightarrow> run_tx hs base k i env s who chat m = Inr s' \<Longrightarrow> own_tables s s'"
proof (induction hs arbitrary: i s)
  case (Cons h hs)
  from Cons.prems(2) obtain s1 where h: "h (hook_env base k i env) s who chat m = Inr s1"
    and hs: "run_tx hs base k (Suc i) env s1 who chat m = Inr s'"
    by (auto split: sum.splits)
  have "module_tx_hook h" using Cons.prems(1) by simp
  from module_tx_hook.own [OF this h] Cons.IH [OF _ hs] Cons.prems(1) show ?case by (auto intro: own_tables_trans)
qed simp

lemma run_delete_quiet:
  "\<forall>h \<in> set hs. module_delete_hook h \<Longrightarrow> run_delete hs base k i env s mid = Inr s' \<Longrightarrow> quiet t s (s' :: 'w call_db_scheme)"
proof (induction hs arbitrary: i s)
  case (Cons h hs)
  from Cons.prems obtain s1 where h: "h (hook_env base k i env) s mid = Inr s1"
    and hs: "run_delete hs base k (Suc i) env s1 mid = Inr s'"
    by (auto split: sum.splits)
  have "module_delete_hook h" using Cons.prems(1) by simp
  from module_delete_hook.own [OF this h] have "quiet t s s1"
    by (auto simp: quiet_def same_chats_def same_core_def)
  with Cons.IH [OF _ hs] Cons.prems(1) show ?case by (auto intro: quiet_trans)
qed simp

subsection \<open>Every operation in its frame\<close>

lemma persist_quiet:
  assumes "standard_modules C" "persistMessageInTx C env s j = Inr (m, rep, s')"
  shows "quiet (now env) s s'"
  using assms(2)
proof (cases rule: persist_cases)
  case (Fresh n s1)
  have "own_tables (sent_state j (now env) n s1) s'"
    using assms(1) by (intro run_tx_own [OF _ Fresh(7)]) (simp add: standard_modules_def)
  then have "quiet (now env) (sent_state j (now env) n s1) s'" by (rule own_tables_quiet)
  moreover have "quiet (now env) s1 (sent_state j (now env) n s1)" by (intro quiet_same) (simp_all add: sent_state_def)
  ultimately have "quiet (now env) s1 s'" by (blast intro: quiet_trans)
  with Append_quiet [OF Fresh(4)] show ?thesis by (auto intro: quiet_trans)
qed simp

lemma mutate_quiet:
  assumes body: "\<And>env sender revision deleted s1. fn env s sender revision deleted = Inr s1 \<Longrightarrow> quiet (now env) s s1"
    and m: "mutate C env s who action chat mid inp fn = (r, es, s')"
  shows "quiet (now env) s s'"
proof (cases r)
  case (Err c x)
  with m mutate_Err show ?thesis by blast
next
  case (Reply code v)
  from m [unfolded Reply] show ?thesis
  proof (cases rule: mutate_Reply)
    case (Done sender revision deleted role s1 os)
    have "quiet (now env) s s1" using body [OF Done(5)] by (simp add: hook_env_def)
    moreover have "quiet (now env) s1 s'" by (rule quiet_same) (simp_all add: Done(7))
    ultimately show ?thesis by (rule quiet_trans)
  qed simp
qed

lemma edit_quiet:
  assumes "edit C env env2 s b who chat mid = (r, es, s')"
  shows "quiet (now env2) s s'"
  using assms
proof (cases rule: edit_outcome)
  case (Tried inp0 inp3 epoch)
  show ?thesis
  proof (rule mutate_quiet [OF _ Tried(3)])
    fix env sender revision deleted s1
    assume "edit_body C who chat mid (inp0\<lparr>mi_message := inp3\<rparr>) epoch env s sender revision deleted = Inr s1"
    then show "quiet (now env) s s1"
      by (rule edit_body_Inr) (drule Append_quiet, simp, erule quiet_trans [rotated], rule quiet_same; simp)
  qed
qed simp

lemma delete_quiet:
  assumes "standard_modules C" "delete C env s b who chat mid = (r, es, s')"
  shows "quiet (now env) s s'"
proof (cases b)
  case (Body inp)
  with assms(2) have m: "mutate C env s who ''delete'' chat mid inp (delete_body C who chat mid) = (r, es, s')"
    by (simp add: delete_def)
  show ?thesis
  proof (rule mutate_quiet [OF _ m])
    fix env sender revision deleted s1
    assume "delete_body C who chat mid env s sender revision deleted = Inr s1"
    then show "quiet (now env) s s1"
    proof (cases rule: delete_body_Inr)
      case (Hidden n)
      from Append_quiet [OF Hidden(2)] show ?thesis by simp (erule quiet_trans [rotated], rule quiet_same; simp)
    next
      case (Deleted s2 n)
      have "quiet (now env) (s\<lparr>messages := update_rows (\<lambda>g. g_id g = mid) deleted_row (messages s)\<rparr>) s2"
        using assms(1) by (intro run_delete_quiet [OF _ Deleted(3)]) (simp add: standard_modules_def)
      then have "quiet (now env) s s2" by (rule quiet_trans [rotated]) (rule quiet_same; simp)
      with Append_quiet [OF Deleted(4)] show ?thesis by (auto intro: quiet_trans)
    qed simp
  qed
qed (use assms in \<open>auto simp: delete_def\<close>)

lemma react_quiet:
  assumes "react C env s b who chat mid = (r, es, s')"
  shows "quiet (now env) s s'"
proof (cases "\<exists>inp. mutate C env s who ''reaction'' chat mid inp (reaction_body C who chat mid inp) = (r, es, s')")
  case True
  then obtain inp where m: "mutate C env s who ''reaction'' chat mid inp (reaction_body C who chat mid inp) = (r, es, s')" by blast
  show ?thesis
  proof (rule mutate_quiet [OF _ m])
    fix env sender revision deleted s1
    assume "reaction_body C who chat mid inp env s sender revision deleted = Inr s1"
    then obtain rs n where rs: "unique_on r_key (reactions s) \<longrightarrow> unique_on r_key rs"
      and a: "Append C (shift_env 1 env) (s\<lparr>reactions := rs\<rparr>) chat ''reaction.updated'' mid None = Inr (n, s1)"
      by (elim reaction_body_Inr) (rule that, auto intro: unique_on_delete unique_on_ignore split: if_splits)
    have "quiet (now env) s (s\<lparr>reactions := rs\<rparr>)"
      using rs by (auto simp: quiet_def same_chats_def same_calls_def reactions_kept_def)
    with Append_quiet [OF a] show "quiet (now env) s s1" by (auto intro: quiet_trans)
  qed
qed (use assms in \<open>cases b; auto simp: react_def split: if_splits\<close>)

lemma receipt_quiet:
  assumes "db_ok s" "receipt C env s b who chat = (r, es, s')"
  shows "quiet (now env) s s'"
proof (cases r)
  case (Err c m)
  with assms have "s' = s"
    by (cases b) (auto simp: receipt_def Let_def split: if_splits option.splits sum.splits prod.splits)
  then show ?thesis by simp
next
  case (Reply code v)
  from assms(1) assms(2) [unfolded Reply] show ?thesis
  proof (cases rule: receipt_cases)
    case (New inp n h s1)
    then obtain data where "Append C (shift_env 5 env) s1 chat ''receipt.updated'' [] (Some data) = Inr (n, s')" by blast
    from Append_quiet [OF this] have "quiet (now env) s1 s'" by simp
    then show ?thesis by (rule quiet_trans [rotated]) (rule quiet_same; simp add: New(7))
  qed simp
qed

lemma ticket_quiet: "ticket C env s i = (r, es, s') \<Longrightarrow> quiet t s s'"
  by (auto simp: ticket_def Let_def split: if_splits option.splits intro!: quiet_same)

lemma redeem_quiet: "redeemTicket C env s tk = (r, s') \<Longrightarrow> quiet t s s'"
  by (auto simp: redeemTicket_def Let_def split: if_splits option.splits prod.splits list.splits intro!: quiet_same)

lemma quiet_devices:
  assumes "\<And>d. revoked_in s d \<Longrightarrow> revoked_in s' d" "events s' = events s" "members s' = members s"
    "map (\<lambda>c. (c_id c, c_kind c)) (chats s') = map (\<lambda>c. (c_id c, c_kind c)) (chats s)"
    "db.more s' = db.more s"
  shows "quiet t s s'"
proof -
  from assms(5) have "calls s' = calls s" "call_operations s' = call_operations s" "reactions s' = reactions s"
    by (cases s; cases s'; simp)+
  with assms(1-4) show ?thesis by (auto simp: quiet_def logged_def same_chats_def same_calls_def reactions_kept_def)
qed

lemma putUser_quiet: "putUser env s b user = (r, es, s') \<Longrightarrow> quiet t s s'"
  by (rule quiet_devices, erule (1) revoked_stays(1)) (auto simp: putUser_def split: sum.splits if_splits)

lemma putDevice_quiet: "putDevice env s b user device = (r, es, s') \<Longrightarrow> quiet t s s'"
  by (rule quiet_devices, erule (1) revoked_stays(2)) (auto dest!: putDevice_cases)

lemma revokeDevice_quiet: "revokeDevice env s user device = (r, es, s') \<Longrightarrow> quiet t s s'"
  by (rule quiet_devices, erule (1) revoked_stays(3))
    (cases r; auto dest!: revokeDevice_Err elim!: revokeDevice_Inr simp: map_update_rows)+


subsection \<open>Operations with a frame of their own\<close>

text \<open>Calls change the call tables, memberships the member table; the rest is quiet.\<close>

definition call_quiet :: "time \<Rightarrow> 'w call_db_scheme \<Rightarrow> 'w call_db_scheme \<Rightarrow> bool" where
  "call_quiet t s s' \<longleftrightarrow> logged t s s' \<and> same_chats s s' \<and> reactions s' = reactions s"

lemma call_quiet_trans: "call_quiet t s1 s2 \<Longrightarrow> call_quiet t s2 s3 \<Longrightarrow> call_quiet t s1 s3"
  by (auto simp: call_quiet_def same_chats_def intro: logged_trans)

lemma Append_call_quiet: "Append C env s chat kind m d = Inr (n, s') \<Longrightarrow> call_quiet (now env) s s'"
  by (simp add: call_quiet_def Append_logged Append_same_chats Append_reactions)

lemma call_quiet_tables [simp, intro]:
  "call_quiet t s (s\<lparr>calls := x\<rparr>)" "call_quiet t s (s\<lparr>call_operations := y\<rparr>)" "call_quiet t s s"
  by (auto simp: call_quiet_def same_chats_def)

lemma createCall_quiet: "createCall C env s b who chat = (r, es, s') \<Longrightarrow> call_quiet (now env) s s'"
  by (erule createCall_cases)
    (simp, drule Append_call_quiet, simp, rule call_quiet_trans [OF call_quiet_tables(1)])

lemma signal_quiet:
  assumes "signal C decode env s b who call = (r, es, s')"
  shows "call_quiet (now env) s s'"
  using assms
proof (cases rule: signal_cases)
  case (New inp l mode nxt p)
  from New(7) show ?thesis
  proof (cases rule: signal_tx_cases)
    case (Sent data seq s1 s2 ps)
    from Append_call_quiet [OF Sent(5)] have "call_quiet (now env) s s1" by simp
    moreover have "call_quiet (now env) s1 s2" by (simp add: Sent(6))
    moreover have "call_quiet (now env) s2 s'" by (simp add: Sent(8))
    ultimately show ?thesis by (blast intro: call_quiet_trans)
  qed simp
qed simp_all

lemma end_overdue_quiet: "end_overdue C env n todo s = (ok, es, s') \<Longrightarrow> call_quiet (now env) s s'"
proof (induction C env n todo s arbitrary: ok es s' rule: end_overdue.induct)
  case (2 C env n call chat rest s)
  define s1 where "s1 = s\<lparr>calls := update_rows (\<lambda>l. l_id l = call) (\<lambda>l. l\<lparr>l_state := ''ended'', l_updated := now env\<rparr>) (calls s)\<rparr>"
  note prem = "2.prems" [unfolded end_overdue.simps Let_def s1_def [symmetric]]
  show ?case
  proof (cases "s' = s")
    case False
    with prem obtain seq s2 ok3 es3 where nf: "\<not> (flt env n \<or> flt env (n + 1))" "\<not> flt env (n + 4)"
      and app: "Append C (shift_env (n + 2) env) s1 chat ''call.end'' [] (Some (timeout_data call)) = Inr (seq, s2)"
      and rest: "end_overdue C env (n + 5) rest s2 = (ok3, es3, s')"
      by (simp split: if_splits sum.splits prod.splits)
    have "call_quiet (now env) s s1" by (simp add: s1_def)
    moreover have "call_quiet (now env) s1 s2" using Append_call_quiet [OF app] by simp
    moreover have "call_quiet (now env) s2 s'"
      by (rule "2.IH" [OF nf(1) refl, folded s1_def, OF app refl nf(2) rest])
    ultimately show ?thesis by (blast intro: call_quiet_trans)
  qed simp
qed simp

lemma calls_cleanup_quiet:
  assumes "calls_cleanup C env s = (ok, es, s')"
  shows "call_quiet (now env) s s'"
proof (cases "flt env 0")
  case False
  let ?todo = "map (\<lambda>l. (l_id l, l_chat l)) (filter (overdue (now env)) (calls s))"
  obtain ok1 es1 s1 where e: "end_overdue C env 3 ?todo s = (ok1, es1, s1)" by (cases "end_overdue C env 3 ?todo s")
  from assms False e obtain ps cs where "s' = s1\<lparr>call_operations := ps\<rparr> \<or> s' = s1\<lparr>call_operations := ps, calls := cs\<rparr> \<or> s' = s1"
    by (fastforce simp: calls_cleanup_def Let_def split: if_splits)
  then have "call_quiet (now env) s1 s'" by (auto intro: call_quiet_trans)
  with end_overdue_quiet [OF e] show ?thesis by (rule call_quiet_trans)
qed (use assms in \<open>auto simp: calls_cleanup_def\<close>)

lemma more_tables: "db.more s' = db.more s \<Longrightarrow> same_calls s s' \<and> reactions s' = reactions (s :: 'w call_db_scheme)"
  by (cases s; cases s'; simp add: same_calls_def)

lemma CreateChat_frame:
  assumes "CreateChat C env s b kind = (r, es, s')"
  shows "logged t s s' \<and> same_calls s s' \<and> reactions s' = reactions s \<and> c_id ` set (chats s) \<subseteq> c_id ` set (chats s')"
proof (cases r)
  case (Reply c v)
  from assms [unfolded Reply] show ?thesis by (rule CreateChat_Reply) (auto simp: same_calls_def)
qed (use assms in \<open>auto dest!: CreateChat_Err simp: same_calls_def\<close>)

lemma putMember_frame:
  assumes "putMember C env s b chat user = (r, es, s')"
  shows "logged (now env) s s' \<and> same_calls s s' \<and> reactions s' = reactions s \<and> c_id ` set (chats s) \<subseteq> c_id ` set (chats s')"
proof (cases r)
  case (Reply c v)
  have frame: "events s2 = events s" "devices s2 = devices s" "same_calls s s2" "reactions s2 = reactions s"
    "map c_id (chats s2) = map c_id (chats s)"
    if "s2 = (if q then set_pending chat else id) (set_member m s)" for s2 q m
    by (auto simp: that set_pending_def set_member_def same_calls_def map_update_rows)
  from assms [unfolded Reply] show ?thesis
  proof (rule putMember_Reply)
    fix s2 n and data :: string and q m
    fix inp c previous joined
    assume s2: "s2 = (if c_mode c = ''e2ee'' \<and> (case previous of None \<Rightarrow> True | Some p \<Rightarrow> m_active p \<noteq> in_active inp)
       then set_pending chat else id) (set_member \<lparr>m_chat = chat, m_user = user, m_role = in_role inp,
          m_can_send = in_can_send inp, m_joined = joined, m_active = in_active inp\<rparr> s)"
      and app: "Append C (shift_env 5 env) s2 chat ''membership.changed'' []
       (Some (membership_data (in_active inp) (in_can_send inp) user)) = Inr (n, s')"
    note f = frame [OF s2]
    have ids: "c_id ` set (chats s2) = c_id ` set (chats s)" using arg_cong [OF f(5), of set] by simp
    have "logged (now env) s s2" using f(1,2) by (rule logged_same)
    moreover have "logged (now env) s2 s'" using Append_logged [OF app] by simp
    ultimately show ?thesis
      using f(3,4) ids Append_call_tables [OF app] Append_reactions [OF app] Append_chat_ids [OF app]
      by (auto simp: same_calls_def intro: logged_trans)
  qed
qed (use assms in \<open>auto dest!: putMember_Err simp: same_calls_def\<close>)

lemma cleanup_frame:
  "same_chats s (cleanup_tick C env s) \<and> same_calls s (cleanup_tick C env s) \<and> chats (cleanup_tick C env s) = chats s
    \<and> reactions (cleanup_tick C env s) = reactions s \<and> devices (cleanup_tick C env s) = devices s"
proof -
  let ?F = "\<lambda>s s' :: 'w call_db_scheme. members s' = members s \<and> chats s' = chats s \<and> devices s' = devices s
    \<and> calls s' = calls s \<and> call_operations s' = call_operations s \<and> reactions s' = reactions s"
  have batch: "deleteRetentionBatch f t c n s = Inr (d, s') \<Longrightarrow> ?F s s'" for f t c n d and s s' :: "'w call_db_scheme"
    by (auto simp: deleteRetentionBatch_def split: if_splits retention_table.splits)
  have pass: "cleanup_pass f n es full s = (r, s') \<Longrightarrow> ?F s s'" for f n es full r and s s' :: "'w call_db_scheme"
    by (induction f n es full s rule: cleanup_pass.induct)
      (fastforce split: sum.splits prod.splits if_splits dest: batch)+
  have loop: "?F s (snd (cleanup_loop f n es s))" for f n es and s :: "'w call_db_scheme"
  proof (induction f n es s rule: cleanup_loop.induct)
    case (1 f n es s)
    obtain r s1 where p: "cleanup_pass f n es False s = (r, s1)" by (cases "cleanup_pass f n es False s")
    note F = pass [OF p]
    show ?case
    proof (cases "r = Some True")
      case True
      have "snd (cleanup_loop f n es s) = snd (cleanup_loop f (n + 2 * length es) es s1)"
        by (subst cleanup_loop.simps) (simp add: p True)
      with "1.IH" [OF p [symmetric] True] F show ?thesis by simp
    next
      case False
      then have "snd (cleanup_loop f n es s) = s1"
        by (subst cleanup_loop.simps) (auto simp: p split: option.splits)
      with F show ?thesis by simp
    qed
  qed
  show ?thesis by (simp add: loop cleanup_tick_def cleanupRetention_def same_chats_def same_calls_def)
qed


subsection \<open>The transition system\<close>

text \<open>
  A state is the clock and the store; a step is one call at a time not before the clock. The last rule is any operation of a module
  that writes its own tables only.
\<close>

inductive sys_step :: "'w call_db_ext mod_db_ext core \<Rightarrow> time \<times> 'w call_db_scheme \<Rightarrow> time \<times> 'w call_db_scheme \<Rightarrow> bool" for C where
  put_user: "T \<le> now env \<Longrightarrow> putUser env s ub user = (ru, es, s') \<Longrightarrow> sys_step C (T, s) (now env, s')"
| put_device: "T \<le> now env \<Longrightarrow> putDevice env s db user dev = (rd, es, s') \<Longrightarrow> sys_step C (T, s) (now env, s')"
| revoke: "T \<le> now env \<Longrightarrow> revokeDevice env s user dev = (rr, es, s') \<Longrightarrow> sys_step C (T, s) (now env, s')"
| create_chat: "T \<le> now env \<Longrightarrow> CreateChat C env s cb kind = (rc, es, s') \<Longrightarrow> sys_step C (T, s) (now env, s')"
| put_member: "T \<le> now env \<Longrightarrow> putMember C env s mb chat user = (rm, es, s') \<Longrightarrow> sys_step C (T, s) (now env, s')"
| issue_ticket: "T \<le> now env \<Longrightarrow> ticket C env s who = (rt, es, s') \<Longrightarrow> sys_step C (T, s) (now env, s')"
| redeem: "T \<le> now env \<Longrightarrow> redeemTicket C env s tk = (ri, s') \<Longrightarrow> sys_step C (T, s) (now env, s')"
| message: "T \<le> now env \<Longrightarrow> persistMessageInTx C env s j = Inr (m, rep, s') \<Longrightarrow> sys_step C (T, s) (now env, s')"
| acknowledge: "T \<le> now env \<Longrightarrow> receipt C env s kb who chat = (rk, es, s') \<Longrightarrow> sys_step C (T, s) (now env, s')"
| edit_message: "T \<le> now env2 \<Longrightarrow> edit C env env2 s ib who chat mid = (re, es, s') \<Longrightarrow> sys_step C (T, s) (now env2, s')"
| delete_message: "T \<le> now env \<Longrightarrow> delete C env s ib who chat mid = (re, es, s') \<Longrightarrow> sys_step C (T, s) (now env, s')"
| react_message: "T \<le> now env \<Longrightarrow> react C env s ib who chat mid = (re, es, s') \<Longrightarrow> sys_step C (T, s) (now env, s')"
| start_call: "T \<le> now env \<Longrightarrow> createCall C env s ab who chat = (ra, es, s') \<Longrightarrow> sys_step C (T, s) (now env, s')"
| signal_call: "T \<le> now env \<Longrightarrow> signal C decode env s sb who call = (rs, es, s') \<Longrightarrow> sys_step C (T, s) (now env, s')"
| sweep_calls: "T \<le> now env \<Longrightarrow> calls_cleanup C env s = (ok, es, s') \<Longrightarrow> sys_step C (T, s) (now env, s')"
| sweep: "T \<le> now env \<Longrightarrow> sys_step C (T, s) (now env, cleanup_tick C env s)"
| own_work: "T \<le> t \<Longrightarrow> own_tables s s' \<Longrightarrow> sys_step C (T, s) (t, s')"

definition sys_ok :: "time \<Rightarrow> 'w call_db_scheme \<Rightarrow> bool" where
  "sys_ok T s \<longleftrightarrow> db_ok s \<and> timed_ok T s \<and> direct_ok s \<and> calls_ok s \<and> unique_on r_key (reactions s)"

lemma logged_timed: "timed_ok T s \<Longrightarrow> T \<le> t \<Longrightarrow> logged t s s' \<Longrightarrow> timed_ok t s'"
proof -
  assume ok: "timed_ok T s" and T: "T \<le> t" and "logged t s s'"
  then obtain es where es: "events s' = events s @ es" "\<forall>e \<in> set es. e_created e = t" by (auto simp: logged_def)
  have "map e_created es = replicate (length es) t" using es(2) by (induction es) auto
  then have "sorted (map e_created es)" by simp
  with ok T es show "timed_ok t s'" by (fastforce simp: timed_ok_def sorted_append)
qed

lemma calls_ok_frame:
  "calls_ok s \<Longrightarrow> db_ok s' \<Longrightarrow> same_calls s s' \<Longrightarrow> c_id ` set (chats s) \<subseteq> c_id ` set (chats s') \<Longrightarrow> calls_ok s'"
  by (auto simp: calls_ok_def same_calls_def live_calls_def)

lemma same_chats_ids: "same_chats s s' \<Longrightarrow> c_id ` set (chats s') = c_id ` set (chats s)"
proof -
  assume "same_chats s s'"
  then have "map fst (map (\<lambda>c. (c_id c, c_kind c)) (chats s')) = map fst (map (\<lambda>c. (c_id c, c_kind c)) (chats s))"
    by (simp add: same_chats_def)
  then have "map c_id (chats s') = map c_id (chats s)" by (simp add: comp_def)
  from arg_cong [OF this, of set] show ?thesis by simp
qed

lemma same_chats_direct: "same_chats s s' \<Longrightarrow> direct_ok s' = direct_ok s"
  by (rule direct_ok_frame) (simp_all add: same_chats_def)

lemma quiet_sys_ok: "sys_ok T s \<Longrightarrow> T \<le> t \<Longrightarrow> quiet t s s' \<Longrightarrow> db_ok s' \<Longrightarrow> sys_ok t s'"
  unfolding sys_ok_def quiet_def
  using logged_timed [of T s t s'] calls_ok_frame [of s s'] same_chats_ids [of s s'] same_chats_direct [of s s']
  by (auto simp: reactions_kept_def)

lemma call_quiet_sys_ok: "sys_ok T s \<Longrightarrow> T \<le> t \<Longrightarrow> call_quiet t s s' \<Longrightarrow> calls_ok s' \<Longrightarrow> sys_ok t s'"
  unfolding sys_ok_def call_quiet_def
  using logged_timed [of T s t s'] same_chats_direct [of s s'] by (auto simp: calls_ok_def)

lemma member_sys_ok:
  "sys_ok T s \<Longrightarrow> T \<le> t \<Longrightarrow> db_ok s' \<Longrightarrow> direct_ok s' \<Longrightarrow>
    logged t s s' \<and> same_calls s s' \<and> reactions s' = reactions s \<and> c_id ` set (chats s) \<subseteq> c_id ` set (chats s') \<Longrightarrow> sys_ok t s'"
  unfolding sys_ok_def using logged_timed [of T s t s'] calls_ok_frame [of s s'] by auto

lemma CreateChat_direct:
  "db_ok s \<Longrightarrow> direct_ok s \<Longrightarrow> CreateChat C env s b kind = (r, es, s') \<Longrightarrow> direct_ok s'"
  using CreateChat_direct_ok CreateChat_Err by (cases r) blast+

lemma putMember_direct:
  "db_ok s \<Longrightarrow> direct_ok s \<Longrightarrow> putMember C env s b chat user = (r, es, s') \<Longrightarrow> direct_ok s'"
  using putMember_direct_ok putMember_Err by (cases r) blast+

lemma react_db_ok:
  "db_ok s \<Longrightarrow> unique_on r_key (reactions s) \<Longrightarrow> react C env s b who chat mid = (r, es, s') \<Longrightarrow> db_ok s'"
  using react_ok [of s C env b who chat mid r es s'] by (simp add: reactions_ok_def)

text \<open>One fact per operation; the last assumption of each says at what time it runs.\<close>

lemma quiet_step:
  assumes "sys_ok T s" "T \<le> t" "db_ok s \<Longrightarrow> quiet t s s' \<and> db_ok s'"
  shows "sys_ok t s'"
  using assms quiet_sys_ok [OF assms(1,2)] by (simp add: sys_ok_def)

lemma management_sys_ok:
  assumes "sys_ok T s" "T \<le> now env"
  shows "putUser env s ub user = (ru, es, s') \<Longrightarrow> sys_ok (now env) s'"
    "putDevice env s db user dev = (rd, es, s') \<Longrightarrow> sys_ok (now env) s'"
    "revokeDevice env s user dev = (rr, es, s') \<Longrightarrow> sys_ok (now env) s'"
    "ticket C env s who = (rt, es, s') \<Longrightarrow> sys_ok (now env) s'"
    "redeemTicket C env s tk = (ri, s') \<Longrightarrow> sys_ok (now env) s'"
  by (rule quiet_step [OF assms]; blast intro: putUser_quiet putUser_db_ok putDevice_quiet putDevice_db_ok
      revokeDevice_quiet revokeDevice_db_ok ticket_quiet ticket_db_ok redeem_quiet redeemTicket_db_ok)+

lemma message_sys_ok:
  assumes "sys_ok T s" "T \<le> now env" "standard_modules C"
  shows "persistMessageInTx C env s j = Inr (m, rep, s') \<Longrightarrow> sys_ok (now env) s'"
    "receipt C env s kb who chat = (rk, es, s') \<Longrightarrow> sys_ok (now env) s'"
    "edit C env0 env s ib who chat mid = (re, es, s') \<Longrightarrow> sys_ok (now env) s'"
    "delete C env s ib who chat mid = (rx, es, s') \<Longrightarrow> sys_ok (now env) s'"
  by (rule quiet_step [OF assms(1,2)]; blast intro: persist_quiet assms(3) persist_db_ok standard_hooks receipt_quiet receipt_db_ok
      edit_quiet edit_db_ok delete_quiet delete_db_ok)+

lemma react_sys_ok:
  assumes "sys_ok T s" "T \<le> now env" "react C env s ib who chat mid = (re, es, s')"
  shows "sys_ok (now env) s'"
  using quiet_sys_ok [OF assms(1,2) react_quiet [OF assms(3)]] react_db_ok [OF _ _ assms(3)] assms(1)
  by (simp add: sys_ok_def)

lemma chat_sys_ok:
  assumes "sys_ok T s" "T \<le> now env"
  shows "CreateChat C env s cb kind = (rc, es, s') \<Longrightarrow> sys_ok (now env) s'"
    "putMember C env s mb chat user = (rm, es, s') \<Longrightarrow> sys_ok (now env) s'"
proof -
  from assms(1) have ok: "db_ok s" "direct_ok s" by (simp_all add: sys_ok_def)
  show "CreateChat C env s cb kind = (rc, es, s') \<Longrightarrow> sys_ok (now env) s'"
    by (rule member_sys_ok [OF assms CreateChat_db_ok [OF ok(1)] CreateChat_direct [OF ok] CreateChat_frame])
  show "putMember C env s mb chat user = (rm, es, s') \<Longrightarrow> sys_ok (now env) s'"
    by (rule member_sys_ok [OF assms putMember_db_ok [OF ok(1)] putMember_direct [OF ok] putMember_frame])
qed

lemma call_sys_ok:
  assumes "sys_ok T s" "T \<le> now env"
  shows "createCall C env s ab who chat = (ra, es, s') \<Longrightarrow> sys_ok (now env) s'"
    "signal C decode env s sb who call = (rs, es, s') \<Longrightarrow> sys_ok (now env) s'"
    "calls_cleanup C env s = (ok, es, s') \<Longrightarrow> sys_ok (now env) s'"
proof -
  from assms(1) have ok: "calls_ok s" by (simp add: sys_ok_def)
  show "createCall C env s ab who chat = (ra, es, s') \<Longrightarrow> sys_ok (now env) s'"
    using call_quiet_sys_ok [OF assms createCall_quiet] createCall_ok [OF ok] by blast
  show "signal C decode env s sb who call = (rs, es, s') \<Longrightarrow> sys_ok (now env) s'"
    using call_quiet_sys_ok [OF assms signal_quiet] signal_ok [OF ok] by blast
  show "calls_cleanup C env s = (ok, es, s') \<Longrightarrow> sys_ok (now env) s'"
    using call_quiet_sys_ok [OF assms calls_cleanup_quiet] calls_cleanup_ok [OF ok] by blast
qed

lemma sweep_sys_ok:
  assumes "sys_ok T s" "T \<le> now env"
  shows "sys_ok (now env) (cleanup_tick C env s)"
proof -
  have "timed_ok (now env) s" using assms by (force simp: sys_ok_def timed_ok_def)
  with cleanup_tick_ok [of s "now env" C env] assms(1)
  have "db_ok (cleanup_tick C env s)" "timed_ok (now env) (cleanup_tick C env s)" by (simp_all add: sys_ok_def)
  with assms(1) cleanup_frame [of s C env] calls_ok_frame [of s "cleanup_tick C env s"] same_chats_direct [of s "cleanup_tick C env s"]
  show ?thesis by (simp add: sys_ok_def)
qed

lemma sys_step_ok:
  assumes "sys_step C (T, s) (T', s')" "standard_modules C" "sys_ok T s"
  shows "sys_ok T' s'"
  using assms(1)
proof (cases rule: sys_step.cases)
  case put_user
  then show ?thesis by (metis management_sys_ok(1) [OF assms(3)])
next
  case put_device
  then show ?thesis by (metis management_sys_ok(2) [OF assms(3)])
next
  case revoke
  then show ?thesis by (metis management_sys_ok(3) [OF assms(3)])
next
  case create_chat
  then show ?thesis by (metis chat_sys_ok(1) [OF assms(3)])
next
  case put_member
  then show ?thesis by (metis chat_sys_ok(2) [OF assms(3)])
next
  case issue_ticket
  then show ?thesis by (metis management_sys_ok(4) [OF assms(3)])
next
  case redeem
  then show ?thesis by (metis management_sys_ok(5) [OF assms(3)])
next
  case message
  then show ?thesis by (metis message_sys_ok(1) [OF assms(3) _ assms(2)])
next
  case acknowledge
  then show ?thesis by (metis message_sys_ok(2) [OF assms(3) _ assms(2)])
next
  case edit_message
  then show ?thesis by (metis message_sys_ok(3) [OF assms(3) _ assms(2)])
next
  case delete_message
  then show ?thesis by (metis message_sys_ok(4) [OF assms(3) _ assms(2)])
next
  case react_message
  then show ?thesis by (metis react_sys_ok [OF assms(3)])
next
  case start_call
  then show ?thesis by (metis call_sys_ok(1) [OF assms(3)])
next
  case signal_call
  then show ?thesis by (metis call_sys_ok(2) [OF assms(3)])
next
  case sweep_calls
  then show ?thesis by (metis call_sys_ok(3) [OF assms(3)])
next
  case sweep
  then show ?thesis by (metis sweep_sys_ok [OF assms(3)])
next
  case own_work
  with assms(3) same_core_db_ok [of s s'] show ?thesis by (metis own_tables_def own_tables_quiet quiet_step)
qed

text \<open>Revocations survive every step.\<close>

lemma quiet_revoked: "quiet t s s' \<Longrightarrow> revoked_in s d \<Longrightarrow> revoked_in s' d"
  by (simp add: quiet_def logged_def)

lemma call_quiet_revoked: "call_quiet t s s' \<Longrightarrow> revoked_in s d \<Longrightarrow> revoked_in s' d"
  by (simp add: call_quiet_def logged_def)

lemma sys_step_revoked:
  assumes "sys_step C (T, s) (T', s')" "standard_modules C" "sys_ok T s" "revoked_in s d"
  shows "revoked_in s' d"
proof -
  have ok: "db_ok s" using assms(3) by (simp add: sys_ok_def)
  show ?thesis
    using assms(1)
  proof (cases rule: sys_step.cases)
    case put_user
    then show ?thesis by (metis revoked_stays(1) [OF assms(4)])
  next
    case put_device
    then show ?thesis by (metis revoked_stays(2) [OF assms(4)])
  next
    case revoke
    then show ?thesis by (metis revoked_stays(3) [OF assms(4)])
  next
    case create_chat
    then show ?thesis by (metis revoked_stays(4) [OF assms(4)])
  next
    case put_member
    then show ?thesis by (metis revoked_stays(5) [OF assms(4)])
  next
    case issue_ticket
    then show ?thesis by (metis quiet_revoked [OF ticket_quiet assms(4)])
  next
    case redeem
    then show ?thesis by (metis quiet_revoked [OF redeem_quiet assms(4)])
  next
    case message
    then show ?thesis by (metis quiet_revoked [OF persist_quiet [OF assms(2)] assms(4)])
  next
    case acknowledge
    then show ?thesis by (metis quiet_revoked [OF receipt_quiet [OF ok] assms(4)])
  next
    case edit_message
    then show ?thesis by (metis quiet_revoked [OF edit_quiet assms(4)])
  next
    case delete_message
    then show ?thesis by (metis quiet_revoked [OF delete_quiet [OF assms(2)] assms(4)])
  next
    case react_message
    then show ?thesis by (metis quiet_revoked [OF react_quiet assms(4)])
  next
    case start_call
    then show ?thesis by (metis call_quiet_revoked [OF createCall_quiet assms(4)])
  next
    case signal_call
    then show ?thesis by (metis call_quiet_revoked [OF signal_quiet assms(4)])
  next
    case sweep_calls
    then show ?thesis by (metis call_quiet_revoked [OF calls_cleanup_quiet assms(4)])
  next
    case (sweep env)
    with assms(4) cleanup_frame [of s C env] show ?thesis by (simp add: revoked_in_def)
  next
    case own_work
    then show ?thesis by (metis quiet_revoked [OF own_tables_quiet assms(4)])
  qed
qed

lemma sys_reachable:
  assumes "(sys_step C)\<^sup>*\<^sup>* (T0, s0) (T, s)" "standard_modules C" "sys_ok T0 s0"
  shows "sys_ok T s \<and> (\<forall>d. revoked_in s0 d \<longrightarrow> revoked_in s d)"
  using assms(1)
proof (induction "(T, s)" arbitrary: T s rule: rtranclp_induct)
  case base
  then show ?case using assms(3) by simp
next
  case (step st)
  then obtain T1 s1 where st: "st = (T1, s1)" by (cases st)
  with step(3) have "sys_ok T1 s1" "\<forall>d. revoked_in s0 d \<longrightarrow> revoked_in s1 d" by auto
  with sys_step_ok [OF step(2) [unfolded st] assms(2)] sys_step_revoked [OF step(2) [unfolded st] assms(2)]
  show ?case by blast
qed

end
