(* ===== verification/AccessProperties.thy ===== *)
theory AccessProperties
  imports Fixture System
begin

text \<open>
  The properties of access: tickets,
  tokens, membership, keys, retention and capacity, each with its witness on \<open>Fixture\<close>.
\<close>

subsection \<open>Tickets and tokens\<close>

text \<open>C31: A websocket ticket is good for one connection: over any run that issues, redeems, refuses and
  sweeps tickets, no ticket is redeemed more often than it was issued.\<close>

theorem ticket_single_use:
  assumes "ticket_run C s acts s'" "db_ok s" "tickets s = []"
  shows "redemptions C h acts + (if h \<in> t_hash ` set (tickets s') then 1 else 0) \<le> issues C h acts"
  using ticket_run_balance [OF assms] by simp

text \<open>An issued ticket identifies its holder: redeemed within its thirty seconds without storage
  faults it yields the identity it was issued to, as long as that device is active.\<close>

lemma ticket_identifies_holder:
  assumes "ticket C env s i = (Reply 201 (tk, ttl), es, s')" "db_ok s" "now env2 \<le> now env + 30"
    "flt env2 = no_faults" "deviceActive False s i"
  shows "ttl = 30 \<and> fst (redeemTicket C env2 s' tk) = Some i
    \<and> fst (redeemTicket C env3 (snd (redeemTicket C env2 s' tk)) tk) = None"
proof -
  from redeemTicket_issued [OF assms] have r: "fst (redeemTicket C env2 s' tk) = Some i" .
  have ok: "db_ok s'" by (rule ticket_db_ok [OF assms(2,1)])
  obtain s2 where "redeemTicket C env2 s' tk = (Some i, s2)" using r by (cases "redeemTicket C env2 s' tk") auto
  with redeemTicket_Some [OF this ok] redeemTicket_gone [of C s2 tk env3] assms(1) r show ?thesis
    by (auto simp: ticket_def Let_def split: if_splits option.splits)
qed

lemma toy_ticket: "\<exists>tk s'. ticket toy_core (toy_env 5 []) toy_db bob = (Reply 201 (tk, 30), [], s')"
  by (simp add: ticket_def toy_env_def toy_db_def no_faults_def insert_row_def Let_def)

lemma bob_active: "deviceActive False toy_db bob"
  by (simp add: deviceActive_def toy_db_def bob_def)

theorem ticket_single_use_witness:
  "\<exists>tk s'. ticket_run toy_core toy_db [Issued tk] s' \<and> redemptions toy_core (hashTicket toy_prims tk) [Issued tk] = 0"
proof -
  obtain tk s' where t: "ticket toy_core (toy_env 5 []) toy_db bob = (Reply 201 (tk, 30), [], s')" using toy_ticket by blast
  have run: "ticket_run toy_core toy_db [Issued tk] s'" using run_Issue [OF run_Nil t] by simp
  have "tickets toy_db = []" by (simp add: toy_db_def)
  from ticket_single_use [OF run toy_db_ok this, of "hashTicket toy_prims tk"] insert_row_SomeD
  have "redemptions toy_core (hashTicket toy_prims tk) [Issued tk] = 0" by (simp add: redemptions_def)
  with run show ?thesis by blast
qed

text \<open>C33: Authentication is sound: an accepted request carries a verified, unexpired token of at most
  fifteen minutes, issued to exactly this user and device, and the device is active.\<close>

theorem authentication_sound:
  assumes "authenticate jwt env s a = Inr i" "jwt_documented jwt"
  shows "\<exists>cl iat ex. jwt (now env) (trim_prefix a ''Bearer '') = Some cl \<and> cl_iat cl = Some iat \<and> cl_exp cl = Some ex
    \<and> cl_sub cl = user_id i \<and> cl_device cl = device_id i \<and> iat \<le> now env \<and> now env < ex \<and> ex \<le> iat + 900
    \<and> deviceActive False s i"
proof -
  obtain cl iat ex where c: "jwt (now env) (trim_prefix a ''Bearer '') = Some cl" "cl_iat cl = Some iat"
    "cl_exp cl = Some ex" "cl_sub cl = user_id i" "cl_device cl = device_id i" "ex - iat \<le> 900"
    "deviceActive False s i" by (rule authenticate_Inr [OF assms(1)])
  with assms(2) show ?thesis unfolding jwt_documented_def by fastforce
qed

definition toy_jwt :: jwt where
  "toy_jwt t tok = (if tok = ''TOK'' \<and> 0 \<le> t \<and> t < 600
     then Some \<lparr>cl_sub = ''bob'', cl_device = ''b1'', cl_exp = Some 600, cl_iat = Some 0\<rparr> else None)"

theorem authentication_sound_witness:
  "authenticate toy_jwt (toy_env 10 []) toy_db ''Bearer TOK'' = Inr bob
    \<and> (\<exists>cl ex. toy_jwt 10 ''TOK'' = Some cl \<and> cl_exp cl = Some ex \<and> 10 < ex)"
proof -
  have d: "jwt_documented toy_jwt" by (auto simp: jwt_documented_def toy_jwt_def split: if_splits)
  have a: "authenticate toy_jwt (toy_env 10 []) toy_db ''Bearer TOK'' = Inr bob"
    using bob_active by (simp add: authenticate_def trim_prefix_def toy_jwt_def toy_env_def no_faults_def bob_def)
  from authentication_sound [OF a d] a show ?thesis
    by (fastforce simp: toy_env_def trim_prefix_def)
qed

subsection \<open>Membership\<close>

text \<open>A member added without history joins at the head: the join point is the number of the
  membership event itself, so nothing sent before is visible to the new member.\<close>

lemma new_member_joins_at_head:
  assumes "db_ok s" "putMember C env s (Body inp) chat user = (Reply code v, es, s')"
    "\<not> in_allow_history inp" "get_row m_key (chat, user) (members s) = None" "head s chat = Some h"
  shows "\<exists>m. get_row m_key (chat, user) (members s') = Some m \<and> m_joined m = h + 1
    \<and> m_active m = in_active inp \<and> m_can_send m = in_can_send inp \<and> m_role m = in_role inp
    \<and> head s' chat = Some (h + 1) \<and> visible s' chat 0 (m_joined m) = []"
proof -
  obtain m where m: "get_row m_key (chat, user) (members s') = Some m" "m_joined m = h + 1"
    "m_active m = in_active inp" "m_can_send m = in_can_send inp" "m_role m = in_role inp" "head s' chat = Some (h + 1)"
    using putMember_joins [OF assms] by blast
  have msgs: "messages s' = messages s"
    using assms(2) by (rule putMember_Reply) (drule Append_frame(4), simp add: set_member_def set_pending_def)
  have "g_seq g \<le> h" if "g \<in> set (messages s)" "g_chat g = chat" for g
  proof -
    from db_ok_chat_of(2) [OF assms(1) that(1)] obtain c where "c \<in> set (chats s)" "c_id c = g_chat g" "g_seq g \<le> c_seq c" by blast
    moreover from this that have "get_row c_id chat (chats s) = Some c" using get_chat_iff [OF assms(1)] by simp
    ultimately show ?thesis using assms(5) by (simp add: head_def)
  qed
  then have "visible s' chat 0 (m_joined m) = []" by (fastforce simp: visible_def msgs m filter_empty_conv)
  with m show ?thesis by blast
qed

definition group_db :: "unit call_db_scheme" where
  "group_db = toy_db\<lparr>users := users toy_db @ [\<lparr>u_id = ''carol'', u_disabled = False\<rparr>],
     chats := [hello_chat\<lparr>c_kind := ''group'', c_seq := 0\<rparr>]\<rparr>"

lemma group_db_ok: "db_ok group_db"
  by (auto simp: group_db_def toy_db_def hello_chat_def db_ok_unfold unique_on_def m_key_def intro: exI [of _ 0])

subsection \<open>Keys\<close>

text \<open>C36: Key rotation: what was sealed under any engine opens after rotation exactly when its key is the
  primary or one of the retired keys, and what the new engine seals it opens itself.\<close>

theorem rotation_keeps_data:
  assumes "gcm_opens P (eng_aead old)" "gcm_opens P (eng_aead e)"
    and "\<And>k. k \<in> set (eng_aead e # eng_previousAEAD e) \<Longrightarrow> k \<noteq> eng_aead old \<Longrightarrow> gcm_rejects P k (eng_aead old)"
  shows "Open P e (Seal P old n p a) a =
      (if eng_aead old \<in> set (eng_aead e # eng_previousAEAD e) then Inr p
       else Inl (OtherError ''cipher: message authentication failed''))
    \<and> Open P e (Seal P e n p a) a = Inr p"
  using Open_Seal_any [OF assms(1,3)] Open_Seal [OF assms(2)] by blast

definition rotated_engine :: engine where
  "rotated_engine = toy_engine\<lparr>eng_aead := ''NEW'', eng_previousAEAD := [''KEY'']\<rparr>"

theorem rotation_keeps_data_witness:
  "Open toy_prims rotated_engine (Seal toy_prims toy_engine ''n'' ''hi'' ''a'') ''a'' = Inr ''hi''
    \<and> Open toy_prims toy_engine (Seal toy_prims rotated_engine ''n'' ''hi'' ''a'') ''a''
      = Inl (OtherError ''cipher: message authentication failed'')"
proof -
  have r: "gcm_rejects toy_prims ''NEW'' ''KEY''" "gcm_rejects toy_prims ''KEY'' ''NEW''"
    by (rule toy_gcm_rejects; simp add: pad_def)+
  have "Open toy_prims rotated_engine (Seal toy_prims toy_engine ''n'' ''hi'' ''a'') ''a'' = Inr ''hi''"
    using rotation_keeps_data [of toy_prims toy_engine rotated_engine "''n''" "''hi''" "''a''"] toy_gcm_opens r
    by (auto simp: rotated_engine_def toy_engine_def)
  moreover have "Open toy_prims toy_engine (Seal toy_prims rotated_engine ''n'' ''hi'' ''a'') ''a''
      = Inl (OtherError ''cipher: message authentication failed'')"
    using rotation_keeps_data [of toy_prims rotated_engine toy_engine "''n''" "''hi''" "''a''"] toy_gcm_opens r
    by (auto simp: rotated_engine_def toy_engine_def)
  ultimately show ?thesis ..
qed

text \<open>The authenticated binding of an envelope is unambiguous: for identifiers that JSON does not
  escape (which \<open>validID\<close> implies) equal bindings have equal chat, user, device and operation.\<close>

lemma binding_injective:
  assumes "validID c" "validID u" "validID d" "validID p" "validID c'" "validID u'" "validID d'" "validID p'"
    and "Binding c u d p = Binding c' u' d' p'"
  shows "c = c' \<and> u = u' \<and> d = d' \<and> p = p'"
  using assms by (intro Binding_eq_iff) (auto simp: json_plain_def list_all_iff validID_def intro: id_char_safe)

subsection \<open>Upkeep\<close>

text \<open>C34: Retention is exact: once the migrations have run, a tick of the cleanup without storage faults
  removes precisely the rows older than their cutoffs, in however many bounded batches it takes.\<close>

theorem retention_exact:
  assumes "db_ok s" "migrations_ok s" "2 \<in> set (versions s)" "flt env = no_faults"
  shows "cleanup_tick C env s = s
     \<lparr>tickets := filter (\<lambda>t. now env \<le> t_expires t) (tickets s),
      operations := filter (\<lambda>r. now env - pol_dedup_retention_hours (policy C) * 3600 \<le> o_created r) (operations s),
      events := filter (\<lambda>e. now env - pol_event_retention_hours (policy C) * 3600 \<le> e_created e) (events s)\<rparr>"
proof -
  have ix: "retention_index t \<in> set (indexes s)" for t
    using assms(2,3) by (cases t) (auto simp: migrations_ok_def schemaMigrations_def retention_index_def)
  have "cleanup_tick C env s = expire (cleanup_entries (cfg C) (now env)) s"
    using cleanup_loop_expires [OF db_ok_rows_distinct [OF assms(1)] ix] assms(4)
    by (simp add: cleanup_tick_def cleanupRetention_def)
  then show ?thesis by (simp add: cleanup_entries_def expire1_def not_less)
qed

theorem retention_exact_witness:
  "\<exists>s. tickets s \<noteq> [] \<and> db_ok s \<and> tickets (cleanup_tick toy_core (toy_env 100 []) s) = []"
proof -
  let ?s = "toy_db\<lparr>versions := [1, 2], indexes := [''tickets_expires'', ''operations_created_at'', ''events_created_at''],
     tickets := [\<lparr>t_hash = ''h'', t_device = ''b1'', t_user = ''bob'', t_expires = 30\<rparr>]\<rparr>"
  have ok: "db_ok ?s" by (auto simp: toy_db_def db_ok_unfold unique_on_def m_key_def intro: exI [of _ 0])
  have "migrations_ok ?s" "2 \<in> set (versions ?s)" "flt (toy_env 100 []) = no_faults"
    by (simp_all add: migrations_ok_def schemaMigrations_def toy_env_def)
  from retention_exact [OF ok this, of toy_core] ok show ?thesis
    by (intro exI [of _ ?s]) (simp add: toy_env_def)
qed

text \<open>C39: Migrations converge: from any store whose version table is truthful they complete, record the
  version, create every index the cleanup names, and a second run is a no-op.\<close>

theorem migrations_converge:
  assumes "migrations_ok s" "1 \<in> set (versions s)"
  shows "\<exists>s'. applyMigrations no_faults s = (True, s') \<and> migrations_ok s' \<and> 2 \<in> set (versions s')
    \<and> (\<forall>t. retention_index t \<in> set (indexes s')) \<and> applyMigrations no_faults s' = (True, s')
    \<and> (\<forall>f. migrations_ok (snd (applyMigrations f s)))"
  using applyMigrations_complete [OF assms] applyMigrations_ok [OF assms(1)] by metis

theorem migrations_converge_witness:
  "\<exists>s'. applyMigrations no_faults (exec_schema init_db) = (True, s') \<and> 2 \<in> set (versions s')"
proof -
  have "migrations_ok (exec_schema init_db)" "1 \<in> set (versions (exec_schema init_db))"
    by (simp_all add: migrations_ok_def schemaMigrations_def exec_schema_def init_db_def insert_ignore_def)
  from migrations_converge [OF this] show ?thesis by blast
qed

subsection \<open>Capacity\<close>

text \<open>Derived limits: an accepted configuration always yields limits without a division by zero; what
  the operator set is kept, connections cover the expected users, queues are 1..64 and reserve at
  most a quarter of the memory when longer than one entry.\<close>

lemma capacity_derived:
  assumes "validate_capacity c = None"
  shows "\<exists>c'. DeriveCapacity c r = Some c' \<and> capacity_set c' \<and> cap_expected_users c' = cap_expected_users c
    \<and> (cap_workers c \<noteq> 0 \<longrightarrow> cap_workers c' = cap_workers c)
    \<and> (cap_max_connections c \<noteq> 0 \<longrightarrow> cap_max_connections c' = cap_max_connections c)
    \<and> (cap_queue_depth c = 0 \<longrightarrow> cap_queue_depth c' \<le> 64 \<and> (cap_queue_depth c' = 1
       \<or> cap_queue_depth c' * cap_max_connections c' * 65536 \<le> (if res_memory r < 1 then 512 * 2 ^ 20 else res_memory r) div 4))"
  using DeriveCapacity_ok [OF assms, of r] by metis

text \<open>A code defect, stated as the code behaves: the daemon validates the derived limits a second
  time, and that fails exactly for accepted configurations without explicit connection limit and
  more than 833334 expected users.\<close>

lemma derived_capacity_revalidates:
  assumes "validate_capacity c = None" "DeriveCapacity c r = Some c'"
  shows "validate_capacity c' = None \<longleftrightarrow> cap_max_connections c \<noteq> 0 \<or> cap_expected_users c \<le> 833334"
  using assms by (rule revalidate_iff)

end
