(* ===== verification/MessagingProperties.thy ===== *)
theory MessagingProperties
  imports Fixture
begin

text \<open>
  The properties of the messaging path: sending, the write queue, the journal, history, receipts
  and mutations. Each is followed by a witness on the installation of \<open>Fixture\<close> where it has
  hypotheses.
\<close>

subsection \<open>Sending\<close>

lemma hello_keys:
  "d \<in> set (devices hello_db) \<Longrightarrow> d_id d = device_id bob \<Longrightarrow> b64_decode (d_public_key d) = Some pk \<Longrightarrow>
    hpke_opens (prim toy_core) ''B01'' pk"
  using toy_hpke_opens toy_base64 by (auto simp: hello_db_def toy_db_def bob_def toy_core_def)

text \<open>C1: End to end: what a device sealed for the server in a basic chat is exactly what every
  member's device decrypts from the message it is shown, under the binding of that reader. It holds
  with any modules installed whose prepare hooks leave the messages of basic chats alone or refuse
  them (\<open>prepare_hook\<close>), as the two hooks of the repository do: \<open>files_prepare\<close> and \<open>mls_prepare\<close>.\<close>

theorem message_end_to_end:
  assumes "db_ok s" "hooks_frame C" "project_frame C" "prepare_hooks_ok C" "db_ok s0"
    and "prepareMessage C env s0 who chat inp = Inr (Job j)" "j_mode j = ''basic''"
    and "persistMessageInTx C env1 s j = Inr (m, False, s')"
    and "ViewMessage C env2 s' reader (msg_id m) = Inr v" "\<not> msg_deleted v" "msg_mode v = ''basic''"
    and "gcm_opens (prim C) (eng_aead (eng C))"
    and "\<And>d pk. d \<in> set (devices s') \<Longrightarrow> d_id d = device_id reader \<Longrightarrow> b64_decode (d_public_key d) = Some pk \<Longrightarrow>
      hpke_opens (prim C) sk pk"
  shows "\<exists>e plain envl enc ct. in_envelope inp = Some e
    \<and> OpenEnvelope (prim C) (eng C) e (Binding chat (user_id who) (device_id who) (in_operation inp)) = Inr plain
    \<and> msg_envelope v = Some envl \<and> b64_decode (env_enc envl) = Some enc \<and> b64_decode (env_ciphertext envl) = Some ct
    \<and> p_hpke_open (prim C) sk hpkeInfo enc ct
        (Binding chat (user_id reader) (device_id reader) (msg_id m)) = Some plain"
  using assms by (rule sent_is_read)

theorem message_end_to_end_witness:
  "\<exists>v e plain envl enc ct. ViewMessage toy_core (toy_env 1001 []) hello_db bob ''m-1'' = Inr v
    \<and> in_envelope hello = Some e
    \<and> OpenEnvelope (prim toy_core) (eng toy_core) e (Binding ''c'' (user_id alice) (device_id alice) (in_operation hello)) = Inr plain
    \<and> msg_envelope v = Some envl \<and> b64_decode (env_enc envl) = Some enc \<and> b64_decode (env_ciphertext envl) = Some ct
    \<and> p_hpke_open (prim toy_core) ''B01'' hpkeInfo enc ct (Binding ''c'' (user_id bob) (device_id bob) (msg_id hello_message)) = Some plain"
proof -
  have "case ViewMessage toy_core (toy_env 1001 []) hello_db bob (msg_id hello_message) of
      Inr v \<Rightarrow> \<not> msg_deleted v \<and> msg_mode v = ''basic'' | _ \<Rightarrow> False"
    by (simp add: ViewMessage_def projectMessages_def message_rows_def projectStoredMessages_def project_item_def
       hello_db_def hello_message_def hello_job_def job_row_def job_message_def toy_eval stored_of_def scanned_key_def
       Open_def Seal_def toy_prims_def toy_engine_def storageAAD_def pad_def SealEnvelope_def toy_base64
       delete_project_hook_def reactions_project_hook_def gcm_overhead_def hook_env_def Let_def)
  then obtain v where v: "ViewMessage toy_core (toy_env 1001 []) hello_db bob (msg_id hello_message) = Inr v"
    "\<not> msg_deleted v" "msg_mode v = ''basic''" by (auto split: sum.splits)
  have "j_mode hello_job = ''basic''" "prepare_hooks_ok toy_core" "gcm_opens (prim toy_core) (eng_aead (eng toy_core))"
    using toy_gcm_opens by (simp_all add: hello_job_def toy_core_def prepare_hooks_ok_def)
  from message_end_to_end [OF toy_db_ok toy_hooks toy_project this(2) toy_db_ok hello_prepared this(1) hello_persisted v this(3) hello_keys] v(1)
  show ?thesis by (simp add: hello_message_def job_message_def hello_job_def)
qed

text \<open>C2: Exactly once: a fresh send takes the next number of its chat and appends one message and
  one event; the same request prepared again is answered with the saved message, and the same
  job run again changes nothing.\<close>

theorem send_exactly_once:
  assumes "db_ok s" "hooks_frame C" "prepare_frame C" "prepareMessage C env s0 who chat inp = Inr (Job j)"
    and "persistMessageInTx C env1 s j = Inr (m, False, s')" "\<not> flt env2 0"
  shows "\<exists>n. head s chat = Some (n - 1) \<and> head s' chat = Some n \<and> log_seqs s' chat = log_seqs s chat @ [n]
    \<and> messages s' = messages s @ [job_row j (now env1) n] \<and> m = job_message j (now env1) n
    \<and> prepareMessage C env2 s' who chat inp = Inr (Saved m)
    \<and> (\<forall>env3 m3 rep s3. persistMessageInTx C env3 s' j = Inr (m3, rep, s3) \<longrightarrow> rep \<and> s3 = s' \<and> m3 = m)"
proof -
  note F = persist_fresh [OF assms(1,2,5)] and P = prepare_Job_fields [OF assms(4)]
  have op: "in_operation (j_input j) = in_operation inp" by (rule prepare_Job_operation [OF assms(3,4)])
  have valid: "validID (in_operation inp)" using assms(4) by (rule prepare_Job)
  have "get_row o_key (device_id who, in_operation inp) (operations s) = None"
    using assms(5) op P by (cases rule: persist_cases) auto
  then have row: "get_row o_key (device_id who, in_operation inp) (operations s') = Some (job_operation j (now env1) m)"
    using P op by (simp add: F(4) get_row_append job_operation_def o_key_def)
  have "prepareMessage C env2 s' who chat inp = Inr (Saved m)"
    using prepare_repeat [OF row valid assms(6)] P by (simp add: job_operation_def)
  moreover have "\<forall>env3 m3 rep s3. persistMessageInTx C env3 s' j = Inr (m3, rep, s3) \<longrightarrow> rep \<and> s3 = s' \<and> m3 = m"
    using persist_repeat [of j s' "job_operation j (now env1) m"] row P op by (fastforce simp: job_operation_def)
  ultimately show ?thesis using F(1-6) P by (intro exI [of _ "msg_seq m"]) auto
qed

theorem send_exactly_once_witness:
  "\<exists>n. head toy_db ''c'' = Some (n - 1) \<and> messages hello_db = messages toy_db @ [job_row hello_job 1000 n]
    \<and> prepareMessage toy_core (toy_env 2000 ''other'') hello_db alice ''c'' hello = Inr (Saved hello_message)"
proof -
  have "\<not> flt (toy_env 2000 ''other'') 0" "prepare_frame toy_core" by (simp_all add: toy_env_def prepare_frame_def toy_core_def)
  from send_exactly_once [OF toy_db_ok toy_hooks this(2) hello_prepared hello_persisted this(1)]
  show ?thesis by (auto simp: toy_env_def)
qed

text \<open>C3: The batched writer is equivalent to running the successful jobs one after another: a batch
  of jobs in one transaction, with savepoints and any faults, leaves the state of the serial run
  of the jobs it reports as done, and keeps the store intact.\<close>

theorem batch_equals_serial_run:
  assumes "executeBatch (\<lambda>j e s. persistMessageInTx C e s j) be jobs s = (rs, s')"
  shows "length rs = length jobs
    \<and> batched_job.serial (\<lambda>j e s. persistMessageInTx C e s j) s (zip jobs rs) s'
    \<and> ((\<forall>r \<in> set rs. \<exists>e. r = Inl e) \<longrightarrow> s' = s)
    \<and> (hooks_frame C \<longrightarrow> db_ok s \<longrightarrow> db_ok s')"
proof -
  note B = message_batch.batch_serial [OF assms]
  have "s' = s" if all: "\<forall>r \<in> set rs. \<exists>e. r = Inl e"
  proof (rule message_batch.serial_no_success [OF conjunct2 [OF B]])
    show "\<forall>r \<in> set (zip jobs rs). \<exists>e. snd r = Inl e" using all by (auto dest: set_zip_rightD)
  qed
  moreover have "hooks_frame C \<Longrightarrow> db_ok s \<Longrightarrow> db_ok s'" using message_batch.batch_inv [of C, OF _ assms] by blast
  ultimately show ?thesis using B by blast
qed

definition toy_job_env :: job_env where
  "toy_job_env = \<lparr>je_env = toy_env 1000 ''x'', je_cancelled_before = False, je_cancelled_after = False,
     je_savepoint_fails = False, je_rollback_fails = False, je_release_fails = False\<rparr>"

definition toy_batch_env :: batch_env where
  "toy_batch_env = \<lparr>be_begin_fails = False, be_commit_fails = False, be_rollback_fails = False\<rparr>"

theorem batch_equals_serial_run_witness:
  "\<exists>rs s'. executeBatch (\<lambda>j e s. persistMessageInTx toy_core e s j) toy_batch_env [(hello_job, toy_job_env)] toy_db = (rs, s')
    \<and> s' = hello_db \<and> db_ok s'"
proof -
  have "executeBatch (\<lambda>j e s. persistMessageInTx toy_core e s j) toy_batch_env [(hello_job, toy_job_env)] toy_db
      = ([Inr (hello_message, False)], hello_db)"
    by (simp add: executeBatch_def job_step_def toy_batch_env_def toy_job_env_def hello_persisted Let_def)
  from batch_equals_serial_run [OF this] this toy_hooks toy_db_ok show ?thesis by blast
qed


text \<open>C24: The write queue is first in, first out and bounded: whatever clients submit, the batches run are
  exactly the admitted jobs in order, no batch has more than sixteen jobs, a batch of two or more jobs has at most
  8 MiB (a larger job runs alone), at most 256 jobs and one held back wait, and the drain after closing completes every admitted job.\<close>

theorem write_queue_fifo:
  fixes w :: "'j writer"
  assumes run: "writer_run bytes (newMessageWriter cf) acts w"
  shows "admitted_jobs acts = ran_jobs acts @ waiting w
    \<and> (\<forall>js. Ran js \<in> set acts \<longrightarrow> batch_ok bytes js)
    \<and> length (waiting w) \<le> wr_cap w + 1 \<and> 8 \<le> wr_cap w \<and> wr_cap w \<le> 256
    \<and> loop_round bytes (drain_rounds bytes (length (waiting w)) w) = None
    \<and> wr_completed (drain_rounds bytes (length (waiting w)) w) = wr_admitted w"
proof -
  note R = writer_run_fifo [OF run new_writer_ok]
  have "waiting (newMessageWriter cf :: 'j writer) = []" "8 \<le> wr_cap (newMessageWriter cf :: 'j writer)"
    "wr_cap (newMessageWriter cf :: 'j writer) \<le> 256"
    by (simp_all add: newMessageWriter_def waiting_def pending_list_def)
  with R waiting_bound [of bytes w] drain_rounds_idle [of bytes w "length (waiting w)"] show ?thesis by simp
qed

theorem write_queue_fifo_witness:
  "\<exists>w. writer_run length (newMessageWriter toy_config) [write_act.Admitted [''a''], write_act.Admitted [''b''], Ran [''a'', ''b'']] w
    \<and> waiting w = []"
proof -
  let ?w0 = "newMessageWriter toy_config :: string writer"
  let ?w1 = "?w0\<lparr>wr_queue := [One ''a''], wr_admitted := 1\<rparr>"
  let ?w2 = "?w1\<lparr>wr_queue := [One ''a'', One ''b''], wr_admitted := 2\<rparr>"
  let ?w3 = "finished True [''a'', ''b''] (?w2\<lparr>wr_queue := []\<rparr>)"
  have "writer_step length ?w0 (write_act.Admitted [''a'']) ?w1"
    by (rule step_enqueue [of False True]) (simp add: enqueue_def newMessageWriter_def toy_config_def toy_capacity_def)
  moreover have "writer_step length ?w1 (write_act.Admitted [''b'']) ?w2"
    by (rule step_enqueue [of False True]) (simp add: enqueue_def newMessageWriter_def toy_config_def toy_capacity_def)
  moreover have "writer_step length ?w2 (Ran [''a'', ''b'']) ?w3"
    by (rule step_run) (simp add: loop_round_def newMessageWriter_def maxWriteBatch_def maxWriteBatchBytes_def)
  ultimately have "writer_run length ?w0 ((([] @ [write_act.Admitted [''a'']]) @ [write_act.Admitted [''b'']]) @ [Ran [''a'', ''b'']]) ?w3"
    by (blast intro: writer_run.intros)
  then have run: "writer_run length ?w0 [write_act.Admitted [''a''], write_act.Admitted [''b''], Ran [''a'', ''b'']] ?w3" by simp
  from write_queue_fifo [OF this] have "waiting ?w3 = []" by (simp add: admitted_jobs_def ran_jobs_def)
  with run show ?thesis by blast
qed

subsection \<open>Reading\<close>

text \<open>History is exact: a reply holds the accessible messages of the chat after the cursor and from the
  member's join point on, in sequence order, cut at the limit, and reading changes nothing.\<close>

lemma history_exact:
  assumes "db_ok s" "project_frame C" "\<forall>g \<in> set (messages s). g_id g \<noteq> []"
    and "history C env s who chat aq lq = (Reply 200 out, es, s')"
  shows "s' = s \<and> es = [] \<and> (\<exists>m d limit. reader_of s who chat m d \<and> 1 \<le> limit \<and> limit \<le> 200
    \<and> map msg_id out = map g_id (take limit (sort_key g_seq (visible s chat (fst (ParseInt aq)) (m_joined m))))
    \<and> map msg_seq out = map g_seq (take limit (sort_key g_seq (visible s chat (fst (ParseInt aq)) (m_joined m)))))"
proof -
  let ?limit = "case ParseInt lq of (v, e) \<Rightarrow> if \<not> e \<and> v > 0 \<and> v \<le> 200 then nat v else 100"
  have "1 \<le> ?limit \<and> ?limit \<le> 200" by (auto split: prod.split)
  with history_page [OF assms] show ?thesis by blast
qed

text \<open>C20: A replay page read in one snapshot has no gaps: it holds exactly the consecutive events that
  follow the later of the cursor and the member's join point, up to the limit or the chat's head.\<close>

theorem replay_page_contiguous:
  assumes "db_ok s" "Events C env s who chat after limit = Inr evs"
  shows "\<exists>c m d. reader_of s who chat m d \<and> c \<in> set (chats s) \<and> c_id c = chat
    \<and> (let start = max after (m_joined m - 1) in start \<le> c_seq c
       \<and> map evt_seq evs = [start + 1..min (c_seq c) (start + limit)])"
  using assms by (rule Events_contiguous)

lemma hello_replay: "replay_bounds hello_db bob ''c'' 0 = Some (1, 1, Some 1)"
  "replay_page hello_db ''c'' 0 1 100 = events hello_db" "replay_access hello_db bob ''c'' = Some (1, ''QjAx'')"
  "scan_page hello_db ''c'' 1 (events hello_db) [] = Inr [(''m-1'', stored_of hello_row hello_chat)]"
  by (simp_all add: replay_bounds_def replay_page_def replay_access_def replay_message_def hello_tables hello_row_simps
      toy_db_def bob_def hello_chat_def log_seqs_def chat_log_def hello_db_def
      hello_row_simps [unfolded hello_row_def] hello_row_def)

lemma hello_events: "\<exists>evs. Events toy_core (toy_env 1001 []) hello_db bob ''c'' 0 100 = Inr evs"
proof -
  obtain m where "projectStoredMessages toy_core (toy_env 1001 []) 2 hello_db bob [stored_of hello_row hello_chat] ''QjAx'' = Inr [m]"
    using hello_projected [of 2] by blast
  moreover have "flt (toy_env 1001 []) 0 = False" "flt (toy_env 1001 []) 1 = False" by (simp_all add: toy_env_def no_faults_def)
  ultimately show ?thesis
    by (simp add: Events_def Events_between_def hello_replay Let_def) (simp add: hello_db_def event_of_def Let_def)
qed

theorem replay_page_contiguous_witness:
  "\<exists>evs. Events toy_core (toy_env 1001 []) hello_db bob ''c'' 0 100 = Inr evs \<and> map evt_seq evs = [1]"
proof -
  obtain evs where e: "Events toy_core (toy_env 1001 []) hello_db bob ''c'' 0 100 = Inr evs" using hello_events by blast
  from replay_page_contiguous [OF hello_db_ok this] e show ?thesis
    by (auto simp: reader_of_def hello_tables hello_chat_def toy_db_def bob_def Let_def)
qed

text \<open>A code defect, stated as the code behaves: once the next event of a member's replay refers to a
  message older than the member's join point (an edit, a reaction or a deletion of it), every
  replay from that cursor is answered with 404, so the member can never pass that event.\<close>

lemma replay_blocked:
  assumes "db_ok s" "reader_of s who chat m d" "1 \<le> limit" "limit \<le> 200"
    and "e \<in> set (events s)" "e_chat e = chat" "e_seq e = after + 1" "m_joined m \<le> e_seq e"
    and "g \<in> set (messages s)" "e_message e = g_id g" "g_id g \<noteq> []" "g_seq g < m_joined m"
    and "\<not> flt env 0" "\<not> flt env 1"
  shows "Events C env s who chat after limit = Inl (APIError 404 ''message not accessible'')"
  using assms by (rule Events_blocked)

definition late_db :: "unit call_db_scheme" where
  "late_db = hello_db\<lparr>chats := [hello_chat\<lparr>c_seq := 2\<rparr>],
     members := [\<lparr>m_chat = ''c'', m_user = ''bob'', m_role = ''member'', m_can_send = True, m_joined = 2, m_active = True\<rparr>],
     events := events hello_db @ [\<lparr>e_chat = ''c'', e_seq = 2, e_kind = ''message.edited'', e_message = ''m-1'',
       e_data = None, e_created = 1000\<rparr>]\<rparr>"

lemma late_db_ok: "db_ok late_db"
proof -
  have "[1, 2] = [0 + 1..2::int]" by code_simp
  then show ?thesis
    by (simp add: late_db_def hello_db_def toy_db_def db_ok_unfold unique_on_def hello_chat_def job_row_def hello_job_def
        job_operation_def e_key_def) (rule exI [of _ 0], simp)
qed

text \<open>A journal of receipts whose first event has expired.\<close>

definition gap_event :: "int \<Rightarrow> time \<Rightarrow> event_row" where
  "gap_event i t = \<lparr>e_chat = ''c'', e_seq = i, e_kind = ''receipt.updated'', e_message = [], e_data = None, e_created = t\<rparr>"

definition gap_db :: "unit call_db_scheme" where
  "gap_db = toy_db\<lparr>indexes := [''tickets_expires'', ''operations_created_at'', ''events_created_at''],
     chats := [hello_chat\<lparr>c_seq := 3\<rparr>], events := [gap_event 1 0, gap_event 2 3000000, gap_event 3 3000000]\<rparr>"

lemma gap_cleanup: "cleanup_tick toy_core (toy_env 3000000 []) gap_db = gap_db\<lparr>events := [gap_event 2 3000000, gap_event 3 3000000]\<rparr>"
proof -
  have ok: "rows_distinct gap_db" by (simp add: rows_distinct_def gap_db_def gap_event_def toy_db_def)
  have ix: "\<And>t. retention_index t \<in> set (indexes gap_db)"
    by (simp add: gap_db_def retention_index_def split: retention_table.split)
  have "cleanup_tick toy_core (toy_env 3000000 []) gap_db = expire (cleanup_entries (cfg toy_core) 3000000) gap_db"
    using cleanup_loop_expires [OF ok ix] by (simp add: cleanup_tick_def cleanupRetention_def toy_env_def)
  then show ?thesis
    by (simp add: cleanup_entries_def expire1_def gap_db_def gap_event_def toy_core_def toy_config_def toy_policy_def toy_db_def)
qed

lemma gap_bounds: "replay_bounds gap_db bob ''c'' 0 = Some (3, 1, Some 1)"
  "replay_bounds (gap_db\<lparr>events := [gap_event 2 3000000, gap_event 3 3000000]\<rparr>) bob ''c'' 0 = Some (3, 1, Some 2)"
  by (simp_all add: replay_bounds_def log_seqs_def chat_log_def gap_db_def gap_event_def hello_chat_def toy_db_def bob_def)

lemma gap_page: "replay_page (gap_db\<lparr>events := es\<rparr>) ''c'' 0 3 100 = take 100 (sort_key e_seq (filter (\<lambda>e. 0 < e_seq e \<and> e_chat e = ''c'') es))"
  "replay_access (gap_db\<lparr>events := es\<rparr>) bob ''c'' = Some (1, ''QjAx'')"
  by (simp_all add: replay_page_def replay_access_def chat_log_def gap_db_def toy_db_def bob_def conj_commute)

lemma gap_delivers:
  "Events_between toy_core (toy_env 3000000 []) gap_db (gap_db\<lparr>events := es\<rparr>) bob ''c'' 0 100 =
    (case scan_page (gap_db\<lparr>events := es\<rparr>) ''c'' 1 (replay_page (gap_db\<lparr>events := es\<rparr>) ''c'' 0 3 100) [] of
       Inl e \<Rightarrow> Inl e
     | Inr stored \<Rightarrow> (case projectStoredMessages toy_core (toy_env 3000000 []) 2 (gap_db\<lparr>events := es\<rparr>) bob (map snd stored) ''QjAx'' of
           Inl e \<Rightarrow> Inl e
         | Inr ms \<Rightarrow> events_of toy_core ''c'' (map_of (zip (map fst stored) ms)) (replay_page (gap_db\<lparr>events := es\<rparr>) ''c'' 0 3 100)))"
  if "filter (\<lambda>e. 0 < e_seq e \<and> e_chat e = ''c'') es \<noteq> []"
proof -
  have "length (replay_page (gap_db\<lparr>events := es\<rparr>) ''c'' 0 3 100) \<noteq> 0" using that by (simp add: gap_page)
  then have "replay_page (gap_db\<lparr>events := es\<rparr>) ''c'' 0 3 100 \<noteq> []" by auto
  moreover have "flt (toy_env 3000000 []) 0 = False" "flt (toy_env 3000000 []) 1 = False" by (simp_all add: toy_env_def no_faults_def)
  ultimately show ?thesis by (simp add: Events_between_def gap_bounds gap_page(2) Let_def)
qed

text \<open>A code defect, stated as the code behaves: the retention check and the page of a replay are two
  reads. When the cleanup runs between them, the reply silently starts after events the member
  never saw, where the same replay before it is complete and the one after it is refused with 410.\<close>

lemma replay_gap:
  "let s = gap_db; s' = cleanup_tick toy_core (toy_env 3000000 []) s; env = toy_env 3000000 [];
       seqs = map_sum id (map evt_seq) in
     seqs (Events toy_core env s bob ''c'' 0 100) = Inr [1, 2, 3]
     \<and> seqs (Events_between toy_core env s s' bob ''c'' 0 100) = Inr [2, 3]
     \<and> seqs (Events toy_core env s' bob ''c'' 0 100) = Inl (APIError 410 ''cursor expired; sync history and current state'')"
proof -
  have g: "gap_db = gap_db\<lparr>events := [gap_event 1 0, gap_event 2 3000000, gap_event 3 3000000]\<rparr>" by (simp add: gap_db_def)
  have "Events toy_core (toy_env 3000000 []) gap_db bob ''c'' 0 100
      = Events_between toy_core (toy_env 3000000 []) gap_db
          (gap_db\<lparr>events := [gap_event 1 0, gap_event 2 3000000, gap_event 3 3000000]\<rparr>) bob ''c'' 0 100"
    using g by (simp add: Events_def)
  then show ?thesis
    by (simp add: gap_cleanup gap_delivers gap_page gap_event_def projectStoredMessages_def event_of_def Let_def)
      (simp add: Events_def Events_between_def gap_bounds [unfolded gap_event_def] toy_env_def no_faults_def)
qed

subsection \<open>Receipts and mutations\<close>

text \<open>Receipts only move forward: no acknowledgement lowers any delivered or read cursor, and it
  touches only the cursor of its own device and chat.\<close>

lemma receipts_monotone:
  assumes "db_ok s" "receipt C env s b who chat = (Reply code v, es, s')"
  shows "fst (cursor_of s dev ch) \<le> fst (cursor_of s' dev ch) \<and> snd (cursor_of s dev ch) \<le> snd (cursor_of s' dev ch)
    \<and> ((dev, ch) \<noteq> (device_id who, chat) \<longrightarrow> cursor_of s' dev ch = cursor_of s dev ch) \<and> db_ok s'"
  using receipt_monotone [OF assms, of dev ch] receipt_db_ok [OF assms] by blast

end
