(* ===== verification/ModuleProperties.thy ===== *)
theory ModuleProperties
  imports Fixture
begin

text \<open>
  The properties of the modules: edits, deletions, reactions and calls, with witnesses on the
  installation of \<open>Fixture\<close> after its first message.
\<close>

subsection \<open>Mutations of messages\<close>

text \<open>Edits are optimistic and belong to the author: an edit that takes effect was made by the sender
  at the current revision of a message that is not deleted, replaces its payload and moves its
  revision by one, and touches no other message; an edit without effect changes nothing at all.\<close>

lemma edit_is_optimistic:
  assumes "db_ok s" "edit C env env2 s b who chat mid = (Reply code v, es, s')"
  shows "(es = [] \<longrightarrow> s' = s) \<and> (es \<noteq> [] \<longrightarrow> es = [Wake chat] \<and> (\<exists>inp0 g payload epoch. b = Body inp0
      \<and> g \<in> set (messages s) \<and> g_id g = mid \<and> g_chat g = chat \<and> g_sender g = user_id who \<and> \<not> g_deleted g
      \<and> g_revision g = mi_expected inp0
      \<and> messages s' = update_rows (\<lambda>g. g_id g = mid)
          (\<lambda>g. edited_row g payload epoch (device_id who) (mi_operation inp0)) (messages s)))"
proof -
  have again: "es = [] \<longrightarrow> s' = s"
    using assms(2)
  proof (cases rule: edit_outcome)
    case (Tried inp0 inp3 epoch)
    from Tried(3) show ?thesis by (cases rule: mutate_Reply) simp_all
  qed simp
  show ?thesis
  proof (intro conjI again impI)
    assume ne: "es \<noteq> []"
    from assms ne show "es = [Wake chat]" by (rule edit_effect)
    from assms ne show "\<exists>inp0 g payload epoch. b = Body inp0
      \<and> g \<in> set (messages s) \<and> g_id g = mid \<and> g_chat g = chat \<and> g_sender g = user_id who \<and> \<not> g_deleted g
      \<and> g_revision g = mi_expected inp0
      \<and> messages s' = update_rows (\<lambda>g. g_id g = mid)
          (\<lambda>g. edited_row g payload epoch (device_id who) (mi_operation inp0)) (messages s)"
      by (rule edit_effect) blast
  qed
qed

text \<open>A stale edit is refused: an edit that expects another revision than the current one is answered
  with an error and leaves the store alone, unless it repeats an operation already done.\<close>

lemma stale_edit_refused:
  assumes "db_ok s" "g \<in> set (messages s)" "g_id g = mid" "g_revision g \<noteq> mi_expected inp0"
    "get_row o_key (device_id who, mi_operation inp0) (operations s) = None"
  shows "\<exists>code m. edit C env env2 s (Body inp0) who chat mid = (Err code m, [], s)"
  using assms by (rule edit_stale)

lemmas mutate_eval = mutate_def mutation_target_def hello_tables hello_row_def job_row_def hello_job_def hello_chat_def
  toy_core_def toy_config_def toy_policy_def toy_env_def no_faults_def shift_env_def shift_faults_def hook_env_def
  alice_def bob_def toy_db_def Append_def bump_seq_def update_rows_def insert_row_def e_key_def Let_def

text \<open>Operations of Alice on her message.\<close>

definition toy_edit :: "int \<Rightarrow> mutation_input" where
  "toy_edit n = \<lparr>mi_operation = ''op-2'', mi_expected = n, mi_message = hello, mi_type = 0, mi_remove = False\<rparr>"

lemma toy_edit_new: "get_row o_key (device_id alice, mi_operation (toy_edit n)) (operations hello_db) = None"
  by (simp add: toy_edit_def hello_db_def job_operation_def hello_job_def hello_def o_key_def alice_def)

text \<open>C35: Deletion erases: a deletion that takes effect in global mode was made by the author or by an owner
  or administrator of the chat, leaves no payload and no metadata of the message, and keeps every
  other message as it was.\<close>

theorem deletion_erases:
  assumes "db_ok s" "delete_frame C" "delete C env s b who chat mid = (Reply code v, es, s')"
    and "es \<noteq> []" "pol_delete_mode (policy C) = ''global''"
  shows "(\<exists>g m d. g \<in> set (messages s) \<and> g_id g = mid \<and> g_chat g = chat \<and> reader_of s who chat m d
      \<and> (g_sender g = user_id who \<or> m_role m = ''owner'' \<or> m_role m = ''admin''))
    \<and> (\<forall>g \<in> set (messages s'). g_id g = mid \<longrightarrow> g_deleted g \<and> ((\<forall>g0 \<in> set (messages s). g_id g0 = mid \<longrightarrow> \<not> g_deleted g0)
          \<longrightarrow> g_payload g = [] \<and> g_metadata g = empty_metadata))
    \<and> (\<forall>g. g_id g \<noteq> mid \<longrightarrow> (g \<in> set (messages s') \<longleftrightarrow> g \<in> set (messages s)))"
  using assms by (rule delete_effect)

theorem deletion_erases_witness:
  "\<exists>s'. delete toy_core (toy_env 2000 []) hello_db (Body (toy_edit 0)) alice ''c'' ''m-1'' = (Reply 200 True, [Wake ''c''], s')
    \<and> (\<forall>g \<in> set (messages s'). g_payload g = [])"
proof -
  have "\<exists>s'. delete toy_core (toy_env 2000 []) hello_db (Body (toy_edit 0)) alice ''c'' ''m-1'' = (Reply 200 True, [Wake ''c''], s')
      \<and> map g_id (messages s') = [''m-1'']"
    by (simp add: delete_def delete_body_def reactions_delete_hook_def toy_edit_def mutate_eval
        hello_db_def job_operation_def hello_def o_key_def)
  then obtain s' where d: "delete toy_core (toy_env 2000 []) hello_db (Body (toy_edit 0)) alice ''c'' ''m-1'' = (Reply 200 True, [Wake ''c''], s')"
    and ids: "map g_id (messages s') = [''m-1'']" by (elim exE conjE)
  have p: "pol_delete_mode (policy toy_core) = ''global''" by (simp add: toy_core_def toy_config_def toy_policy_def)
  have ne: "[Wake ''c''] \<noteq> []" by simp
  have nd: "\<forall>g0 \<in> set (messages hello_db). g_id g0 = ''m-1'' \<longrightarrow> \<not> g_deleted g0" by (simp add: hello_tables hello_row_simps)
  have "g_payload g = []" if "g \<in> set (messages s')" for g
  proof -
    have "g_id g = ''m-1''" using ids that by (cases "messages s'") auto
    with bspec [OF conjunct1 [OF conjunct2 [OF deletion_erases [OF hello_db_ok toy_delete d ne p]]] that] nd show ?thesis by blast
  qed
  with d show ?thesis by blast
qed

text \<open>Reactions are a set: a reaction that takes effect names a configured type and adds or removes
  exactly the one (message, user, type) triple, however often it is repeated.\<close>

lemma reactions_are_a_set:
  assumes "reactions_ok s" "react C env s (Body inp) who chat mid = (Reply code v, es, s')" "es \<noteq> []"
  shows "reactions_ok s' \<and> 0 \<le> mi_type inp \<and> mi_type inp < int (length (pol_reaction_types (policy C)))
    \<and> r_key ` set (reactions s') =
        (if mi_remove inp then r_key ` set (reactions s) - {(mid, user_id who, mi_type inp)}
         else insert (mid, user_id who, mi_type inp) (r_key ` set (reactions s)))"
  using react_effect [OF assms(2,3)] react_ok [OF assms(1,2)] by blast

subsection \<open>Calls\<close>

text \<open>C30: A call moves only along its state machine: a signal that takes effect comes from a party of the
  call with an active device and membership, and is allowed by the transition table in the state the
  call is in. It appends one event to the journal, of its type and at the next number of the chat, and
  stores the operation of the device with the hash and the reply, by which a retry is recognised.\<close>

theorem signal_follows_state_machine:
  assumes "calls_ok s" "signal C decode env s (Body inp) who call = (Reply code v, es, s')" "es \<noteq> []"
  shows "calls_ok s' \<and> calls_advance s s' \<and> (\<exists>l l' seq d. l \<in> set (calls s) \<and> l' \<in> set (calls s') \<and> parties l' = parties l \<and> l_id l = call
      \<and> (user_id who = l_caller l \<or> user_id who = l_callee l) \<and> callPermission False s who (l_chat l)
      \<and> signal_next (si_type inp) l (user_id who) = Inr (l_state l')
      \<and> v = (seq, l_state l') \<and> head s (l_chat l) = Some (seq - 1) \<and> head s' (l_chat l) = Some seq \<and> es = [Wake (l_chat l)]
      \<and> events s' = events s @ [\<lparr>e_chat = l_chat l, e_seq = seq, e_kind = ''call.'' @ si_type inp, e_message = [], e_data = d, e_created = now env\<rparr>]
      \<and> get_row p_key (device_id who, si_operation inp) (call_operations s) = None
      \<and> get_row p_key (device_id who, si_operation inp) (call_operations s')
        = Some \<lparr>p_device = device_id who, p_operation = si_operation inp, p_call = call, p_hash = signal_hash (prim C) inp, p_seq = seq,
            p_state = l_state l', p_created = now env\<rparr>)"
  using signal_effect [OF assms] signal_ok [OF assms(1,2)] by simp

text \<open>Signals are idempotent: a signal whose operation is already recorded with the same content is
  answered with the recorded sequence number and state, and changes nothing.\<close>

lemma signal_is_idempotent:
  assumes "get_row p_key (device_id who, si_operation inp) (call_operations s) = Some x"
    "p_hash x = signal_hash (prim C) inp" "signal C decode env s (Body inp) who (p_call x) = (r, es, s')"
  shows "es = [] \<and> s' = s \<and> (\<forall>code v. r = Reply code v \<longrightarrow> v = (p_seq x, p_state x))"
  using assms by (rule signal_repeat)

definition call_row1 :: call_row where
  "call_row1 = \<lparr>l_id = ''k'', l_chat = ''c'', l_caller = ''alice'', l_callee = ''bob'', l_state = ''ringing'',
     l_mode = ''audio'', l_created = 1000, l_updated = 1000\<rparr>"

definition call_db1 :: "unit call_db_scheme" where
  "call_db1 = toy_db\<lparr>calls := [call_row1]\<rparr>"

definition toy_accept :: signal_input where
  "toy_accept = \<lparr>si_type = ''accept'', si_operation = ''s-1'', si_to_device = [], si_envelope = None, si_mls = [], si_epoch = 0\<rparr>"

lemma call_db1_ok: "calls_ok call_db1"
  using toy_calls_ok by (simp add: calls_ok_def call_db1_def live_calls_def call_row1_def call_states_def calls_set_db_ok)
    (simp add: toy_db_def unique_on_def)

theorem signal_follows_state_machine_witness:
  "\<exists>v s'. signal toy_core (\<lambda>_. BadJSON) (toy_env 1010 []) call_db1 (Body toy_accept) bob ''k'' = (Reply 200 v, [Wake ''c''], s')
    \<and> calls_ok s' \<and> snd v = ''active''"
proof -
  have "\<exists>v s'. signal toy_core (\<lambda>_. BadJSON) (toy_env 1010 []) call_db1 (Body toy_accept) bob ''k'' = (Reply 200 v, [Wake ''c''], s')"
    by (simp add: signal_def signal_next_def open_signal_def signal_tx_def signal_data_def is_media_def call_db1_def call_row1_def
        toy_accept_def callPermission_def Member_def p_key_def mutate_eval)
  then obtain v s' where g: "signal toy_core (\<lambda>_. BadJSON) (toy_env 1010 []) call_db1 (Body toy_accept) bob ''k'' = (Reply 200 v, [Wake ''c''], s')"
    by blast
  from signal_follows_state_machine [OF call_db1_ok g] g show ?thesis
    by (auto simp: call_db1_def call_row1_def toy_accept_def signal_next_def toy_db_def bob_def)
qed

text \<open>The sweep of the calls is complete: without storage faults no call that rang for more than two
  minutes or lasted more than twelve hours is left, and every other call is where it was or ended.\<close>

lemma overdue_calls_end:
  assumes "calls_ok s" "flt env = no_faults" "calls_cleanup C env s = (ok, es, s')"
  shows "ok \<and> calls_ok s' \<and> calls_advance s s' \<and> (\<forall>l \<in> set (calls s'). \<not> overdue (now env) l)"
  using calls_cleanup_complete [OF assms] calls_cleanup_ok [OF assms(1,3)] by blast

end
