(* ===== verification/Sweeps.thy ===== *)
theory Sweeps
  imports Realtime
begin

text \<open>
  What a whole pass of the two background loops of the hub achieves, batch by batch:
  \<open>validateConnections\<close> (\<open>core/connection_auth.go\<close>) and \<open>pollReplayHeads\<close> (\<open>core/sharedreplay.go\<close>).
\<close>

subsection \<open>Folds that reach a goal\<close>

lemma fold_stable: "(\<And>y h. P h \<Longrightarrow> P (f y h)) \<Longrightarrow> P h \<Longrightarrow> P (fold f xs h)"
  by (induction xs arbitrary: h) auto

lemma fold_reach:
  assumes "x \<in> set xs" "\<And>y h. I h \<Longrightarrow> I (f y h)" "\<And>h. I h \<Longrightarrow> P (f x h)" "\<And>y h. P h \<Longrightarrow> P (f y h)" "I h"
  shows "P (fold f xs h)"
  using assms(1,5)
proof (induction xs arbitrary: h)
  case (Cons y ys)
  show ?case
  proof (cases "x = y")
    case True
    have "P (f x h)" using Cons.prems(2) by (rule assms(3))
    then have "P (fold f ys (f x h))" by (rule fold_stable [of P, rotated]) (rule assms(4))
    with True show ?thesis by simp
  next
    case False
    with Cons.prems assms(2) show ?thesis by (auto intro: Cons.IH)
  qed
qed simp

lemma concat_chunks: "0 < n \<Longrightarrow> concat (chunks n xs) = xs"
proof (induction n xs rule: chunks.induct)
  case (1 n xs)
  show ?case
  proof (cases "xs = []")
    case False
    with 1 have "concat (chunks n (drop n xs)) = drop n xs" by simp
    with False "1.prems" show ?thesis by (subst chunks.simps) simp
  qed (simp add: chunks.simps)
qed

lemma in_chunk: "x \<in> set xs \<Longrightarrow> 0 < n \<Longrightarrow> \<exists>i todo. (i, todo) \<in> set (enumerate k (chunks n xs)) \<and> x \<in> set todo"
proof -
  assume "x \<in> set xs" "0 < n"
  then have "x \<in> set (concat (chunks n xs))" by (simp add: concat_chunks)
  then obtain todo where "todo \<in> set (chunks n xs)" "x \<in> set todo" by auto
  moreover from this(1) have "todo \<in> snd ` set (enumerate k (chunks n xs))" by (metis map_snd_enumerate set_map)
  ultimately show ?thesis by force
qed

subsection \<open>The authorization sweep\<close>

text \<open>Connection \<open>k\<close> of identity \<open>i\<close> is open only if batch \<open>j\<close> found its device active.\<close>

definition held_open :: "nat \<Rightarrow> identity \<Rightarrow> bool \<Rightarrow> hub \<Rightarrow> bool" where
  "held_open k i ok h \<longleftrightarrow> (\<exists>c. conn_of h k = Some c \<and> cn_id c = i \<and> (cn_done c \<or> ok))"

lemma validate_batch_conn:
  assumes "conn_of h k = Some c"
  shows "\<exists>c'. conn_of (validate_batch fail s todo h) k = Some c' \<and> cn_id c' = cn_id c \<and> (cn_done c \<longrightarrow> cn_done c')"
  using assms by (auto simp: validate_batch_def on_conns_def close_conn_def)

lemma validate_batch_held: "held_open k i ok h \<Longrightarrow> held_open k i ok (validate_batch fail s todo h)"
proof -
  assume "held_open k i ok h"
  then obtain c where c: "conn_of h k = Some c" "cn_id c = i" "cn_done c \<or> ok" by (auto simp: held_open_def)
  from validate_batch_conn [OF c(1), of fail s todo] c(2,3) show ?thesis unfolding held_open_def by metis
qed

lemma validateConnections_sound:
  assumes "\<And>j. db_ok (rd j)" "(device_id (cn_id c), k) \<in> set (registered h)" "conn_of h k = Some c" "user_id (cn_id c) \<noteq> []"
  shows "\<exists>c'. conn_of (validateConnections fail rd h) k = Some c' \<and> cn_id c' = cn_id c
    \<and> (cn_done c' \<or> (\<exists>j. \<not> fail j \<and> deviceActive False (rd j) (cn_id c)))"
proof -
  let ?ok = "\<exists>j. \<not> fail j \<and> deviceActive False (rd j) (cn_id c)"
  let ?f = "\<lambda>(i, todo). validate_batch (fail i) (rd i) (filter (\<lambda>(device, k). device \<in> set todo) (registered h))"
  have "device_id (cn_id c) \<in> set (conn_devices h)" using assms(2) by (force simp: conn_devices_def)
  then obtain j todo where x: "(j, todo) \<in> set (enumerate 0 (chunks 500 (conn_devices h)))" "device_id (cn_id c) \<in> set todo"
    using in_chunk [of "device_id (cn_id c)" "conn_devices h" 500 0] by auto
  have "held_open k (cn_id c) ?ok (fold ?f (enumerate 0 (chunks 500 (conn_devices h))) h)"
  proof (rule fold_reach [where I = "held_open k (cn_id c) True" and P = "held_open k (cn_id c) ?ok", OF x(1)])
    show "held_open k (cn_id c) True h" using assms(3) by (simp add: held_open_def)
    show "held_open k (cn_id c) True (?f y h')" if "held_open k (cn_id c) True h'" for y h'
      using validate_batch_held [OF that] by (cases y) simp
    show "held_open k (cn_id c) ?ok (?f y h')" if "held_open k (cn_id c) ?ok h'" for y h'
      using validate_batch_held [OF that] by (cases y) simp
  next
    fix h' assume "held_open k (cn_id c) True h'"
    then obtain c0 where c0: "conn_of h' k = Some c0" "cn_id c0 = cn_id c" by (auto simp: held_open_def)
    let ?todo = "filter (\<lambda>(device, k). device \<in> set todo) (registered h)"
    obtain c1 where c1: "conn_of (validate_batch (fail j) (rd j) ?todo h') k = Some c1" "cn_id c1 = cn_id c"
      using validate_batch_conn [OF c0(1), of "fail j" "rd j" ?todo] c0(2) by auto
    have mem: "(device_id (cn_id c), k) \<in> set ?todo" using assms(2) x(2) by simp
    have "cn_done c1 \<or> \<not> fail j \<and> deviceActive False (rd j) (cn_id c)"
      using validate_batch_sound [OF assms(1) mem c1(1)] c1(2) assms(4) by auto
    then show "held_open k (cn_id c) ?ok (?f (j, todo) h')" using c1 by (auto simp: held_open_def)
  qed
  then show ?thesis by (auto simp: held_open_def validateConnections_def)
qed

subsection \<open>The replay poll\<close>

definition told :: "ident \<Rightarrow> nat \<Rightarrow> hub \<Rightarrow> bool" where
  "told chat k h \<longleftrightarrow> (\<exists>c. conn_of h k = Some c \<and> chat \<in> set (cn_pending c) \<and> cn_wake c)"

lemma poll_chat_conn:
  "conn_of (poll_chat s d h) k = conn_of h k \<or> conn_of (poll_chat s d h) k = conn_of (Wake_subs d h) k"
  by (simp add: poll_chat_def Let_def)

lemma poll_chat_told: "told chat k h \<Longrightarrow> told chat k (poll_chat s d h)"
proof -
  assume "told chat k h"
  then have "told chat k (Wake_subs d h)"
    by (auto simp: told_def Wake_subs_def on_conns_def notify_def)
  with \<open>told chat k h\<close> poll_chat_conn [of s d h k] show ?thesis by (auto simp: told_def)
qed

lemma poll_batch_told: "told chat k h \<Longrightarrow> told chat k (poll_batch fail s todo h)"
  unfolding poll_batch_def by (auto intro: fold_stable poll_chat_told)

text \<open>Before its turn a subscription is unchanged and its recorded head is the old one.\<close>

definition unread :: "ident \<Rightarrow> nat \<Rightarrow> int option \<Rightarrow> hub \<Rightarrow> bool" where
  "unread chat k old h \<longleftrightarrow> (chat, k) \<in> set (subscribers h) \<and> (\<exists>c. conn_of h k = Some c) \<and> replay_heads h chat = old"

lemma poll_chat_unread:
  "unread chat k old h \<Longrightarrow> d \<noteq> chat \<Longrightarrow> unread chat k old (poll_chat s d h)"
  by (auto simp: unread_def poll_chat_def Wake_subs_def on_conns_def Let_def)

lemma poll_chat_hits:
  "unread chat k old h \<Longrightarrow> old \<noteq> head s chat \<or> head s chat = None \<Longrightarrow> told chat k (poll_chat s chat h)"
  using poll_chat_notifies [of chat k h] by (auto simp: unread_def told_def)

lemma poll_batch_step:
  assumes "unread chat k old h \<or> told chat k h" "old \<noteq> head s chat \<or> head s chat = None"
  shows "unread chat k old (poll_batch fail s todo h) \<or> told chat k (poll_batch fail s todo h)"
proof (cases fail)
  case False
  have "unread chat k old (poll_chat s d h') \<or> told chat k (poll_chat s d h')" if "unread chat k old h' \<or> told chat k h'" for d h'
    using that poll_chat_unread poll_chat_hits [OF _ assms(2)] poll_chat_told by (cases "d = chat") blast+
  from fold_stable [of "\<lambda>h. unread chat k old h \<or> told chat k h", OF this assms(1)] False show ?thesis
    by (simp add: poll_batch_def)
qed (use assms in \<open>simp add: poll_batch_def\<close>)

lemma poll_batch_hits:
  assumes "unread chat k old h \<or> told chat k h" "old \<noteq> head s chat \<or> head s chat = None" "chat \<in> set todo"
  shows "told chat k (poll_batch False s todo h)"
  unfolding poll_batch_def if_False
proof (rule fold_reach [where I = "\<lambda>h. unread chat k old h \<or> told chat k h", OF assms(3) _ _ _ assms(1)])
  show "unread chat k old (poll_chat s d h') \<or> told chat k (poll_chat s d h')" if "unread chat k old h' \<or> told chat k h'" for d h'
    using that poll_chat_unread poll_chat_hits [OF _ assms(2)] poll_chat_told by (cases "d = chat") blast+
qed (use poll_chat_hits [OF _ assms(2)] poll_chat_told in blast)+

lemma pollReplayHeads_recovers:
  assumes "(chat, k) \<in> set (subscribers h)" "conn_of h k = Some c"
    and "\<And>j. replay_heads h chat \<noteq> head (rd j) chat \<or> head (rd j) chat = None"
  shows "told chat k (pollReplayHeads (\<lambda>_. False) rd h)"
proof -
  let ?old = "replay_heads h chat"
  have "unread chat k ?old (poll_prune h)" using assms(1,2) by (force simp: unread_def poll_prune_def)
  then have start: "unread chat k ?old (poll_prune h) \<or> told chat k (poll_prune h)" ..
  have "chat \<in> set (poll_chats h)" using assms(1) by (force simp: poll_chats_def)
  then obtain j todo where x: "(j, todo) \<in> set (enumerate 0 (chunks 500 (poll_chats h)))" "chat \<in> set todo"
    using in_chunk [of chat "poll_chats h" 500 0] by auto
  show ?thesis unfolding pollReplayHeads_def
  proof (rule fold_reach [where I = "\<lambda>h. unread chat k ?old h \<or> told chat k h", OF x(1) _ _ _ start])
    show "unread chat k ?old ((\<lambda>(i, todo). poll_batch False (rd i) todo) y h') \<or> told chat k ((\<lambda>(i, todo). poll_batch False (rd i) todo) y h')"
      if "unread chat k ?old h' \<or> told chat k h'" for y h'
      using poll_batch_step [OF that assms(3)] by (cases y) simp
    show "told chat k ((\<lambda>(i, todo). poll_batch False (rd i) todo) (j, todo) h')" if "unread chat k ?old h' \<or> told chat k h'" for h'
      using poll_batch_hits [OF that assms(3) x(2)] by simp
    show "told chat k ((\<lambda>(i, todo). poll_batch False (rd i) todo) y h')" if "told chat k h'" for y h'
      using poll_batch_told [OF that] by (cases y) simp
  qed
qed

end
