(* ===== verification/RealtimeProperties.thy ===== *)
theory RealtimeProperties
  imports MessagingProperties Sweeps
begin

text \<open>
  The properties of websocket delivery, of the two sweeps of the hub and of HTTP admission, with
  their witnesses.
\<close>

subsection \<open>Delivery\<close>

text \<open>C21: Sockets see the journal in order. Suppose that each page of a flush is read in one snapshot of a store that meets the
  invariant (the code's queries of a page are separate, and without this a page may have a gap: \<open>replay_gap\<close>), in which the reader
  joined no later than the next event. Then whatever mixture of pages and write failures the flush meets, the frames it writes
  continue the subscription's cursor without gap, repetition or reordering, the cursor follows the last frame, and a flush that
  reports to have caught up reached the head.\<close>

theorem socket_sees_journal:
  assumes "flush_pages C rd bad chat ps cursor c = (r, c')" "map_of (cn_cursors c) chat = Some cursor"
    and "\<And>p. p \<in> set ps \<Longrightarrow> \<exists>env s. rd p = (env, s, s) \<and> db_ok s
      \<and> (\<forall>m d. reader_of s (cn_id c) chat m d \<longrightarrow> m_joined m \<le> cursor + 1)"
  shows "\<exists>evs. cn_sent c' = cn_sent c @ map FEvent evs \<and> map evt_seq evs = [cursor + 1..cursor + int (length evs)]
    \<and> map_of (cn_cursors c') chat = Some (cursor + int (length evs))
    \<and> (r = Caught_up \<longrightarrow> (\<exists>p \<in> set ps. head (snd (snd (rd p))) chat = Some (cursor + int (length evs))))
    \<and> (r = Behind \<longrightarrow> length evs = 100 * length ps)"
  using assms by (rule flush_pages_delivers)

definition bob_conn :: conn where
  "bob_conn = (new_conn bob)\<lparr>cn_cursors := [(''c'', 0)]\<rparr>"

lemma bob_reader: "reader_of hello_db bob ''c'' m d \<Longrightarrow> m_joined m = 1"
  by (auto simp: reader_of_def hello_tables toy_db_def bob_def)

theorem socket_sees_journal_witness:
  "\<exists>c' evs. flush_pages toy_core (\<lambda>_. (toy_env 1001 [], hello_db, hello_db)) (\<lambda>_. False) ''c'' [0..<10] 0 bob_conn = (Caught_up, c')
    \<and> cn_sent c' = map FEvent evs \<and> map evt_seq evs = [1]"
proof -
  let ?rd = "\<lambda>_ :: nat. (toy_env 1001 [], hello_db, hello_db)"
  obtain evs where e: "Events toy_core (toy_env 1001 []) hello_db bob ''c'' 0 100 = Inr evs" using hello_events by blast
  from Events_contiguous [OF hello_db_ok e] have "map evt_seq evs = [1]"
    by (auto simp: reader_of_def hello_tables hello_chat_def toy_db_def bob_def Let_def)
  then obtain ev where "evs = [ev]" by (auto simp: map_eq_Cons_conv)
  with e have "\<exists>c'. flush_pages toy_core ?rd (\<lambda>_. False) ''c'' [0..<10] 0 bob_conn = (Caught_up, c')"
    by (simp add: upt_rec Events_def bob_conn_def new_conn_def write_frame_def)
  then obtain c' where f: "flush_pages toy_core ?rd (\<lambda>_. False) ''c'' [0..<10] 0 bob_conn = (Caught_up, c')" by blast
  have m: "map_of (cn_cursors bob_conn) ''c'' = Some 0" by (simp add: bob_conn_def)
  have snap: "\<exists>env s. ?rd p = (env, s, s) \<and> db_ok s \<and> (\<forall>m d. reader_of s (cn_id bob_conn) ''c'' m d \<longrightarrow> m_joined m \<le> 0 + 1)" for p
    using hello_db_ok bob_reader by (auto simp: bob_conn_def new_conn_def)
  have "head hello_db ''c'' = Some 1" by (simp add: head_def hello_tables hello_chat_def)
  with socket_sees_journal [OF f m snap] f show ?thesis by (fastforce simp: bob_conn_def new_conn_def)
qed

text \<open>C29: The hub stays consistent: over any interleaving of upgrades, commands, flushes, wake-ups, sweeps
  and disconnects the number of connections respects the configured limit, the subscribers of a chat
  are exactly the live connections holding a cursor for it, and a pending notification is never
  without its wake-up token.\<close>

theorem hub_stays_consistent:
  assumes "(hub_step C)\<^sup>*\<^sup>* (new_hub, 0) (h, up)" "0 \<le> cap_max_connections (cfg_capacity (cfg C))"
  shows "int up + int (length (registered h)) \<le> cap_max_connections (cfg_capacity (cfg C))
    \<and> active_conns h = int up + int (length (registered h))
    \<and> (\<forall>chat k. (chat, k) \<in> set (subscribers h) \<longleftrightarrow> k \<in> snd ` set (registered h)
        \<and> (\<exists>c. conn_of h k = Some c \<and> chat \<in> fst ` set (cn_cursors c)))
    \<and> (\<forall>k c. conn_of h k = Some c \<longrightarrow> (cn_pending c \<noteq> [] \<longrightarrow> cn_wake c) \<and> length (cn_commands c) \<le> 8
        \<and> length (cn_cursors c) \<le> 128)"
proof -
  note ok = hub_reachable [OF assms]
  show ?thesis using hub_okD(4-6) [OF ok] hub_okD(1) [OF ok] by (auto simp: conn_good_def)
qed

theorem hub_stays_consistent_witness:
  "\<exists>h. (hub_step toy_core)\<^sup>*\<^sup>* (new_hub, 0) (h, 0) \<and> registered h = [(''b1'', 7)] \<and> active_conns h = 1"
proof -
  let ?h1 = "new_hub\<lparr>active_conns := 1\<rparr>"
  have "hub_step toy_core (new_hub, 0) (?h1, Suc 0)"
    by (rule hub_step.reserve) (simp add: reserve_conn_def new_hub_def toy_core_def toy_config_def toy_capacity_def)
  moreover have "hub_step toy_core (?h1, Suc 0) (register_conn 7 bob ?h1, 0)"
    by (rule hub_step.upgraded) (simp add: new_hub_def)
  ultimately have run: "(hub_step toy_core)\<^sup>*\<^sup>* (new_hub, 0) (register_conn 7 bob ?h1, 0)" by (blast intro: converse_rtranclp_into_rtranclp)
  have "0 \<le> cap_max_connections (cfg_capacity (cfg toy_core))" by (simp add: toy_core_def toy_config_def toy_capacity_def)
  from hub_stays_consistent [OF run this] run show ?thesis
    by (intro exI [of _ "register_conn 7 bob ?h1"]) (simp add: register_conn_def new_hub_def set_conn_def bob_def)
qed

subsection \<open>Sweeps\<close>

text \<open>The authorization sweep misses nobody: after a pass over all registered connections, in batches
  whose queries may fail, every connection still open belongs to a device that a query of the pass
  found active for its user.\<close>

lemma sweep_closes_inactive:
  assumes "\<And>j. db_ok (rd j)" "(device_id (cn_id c), k) \<in> set (registered h)" "conn_of h k = Some c" "user_id (cn_id c) \<noteq> []"
  shows "\<exists>c'. conn_of (validateConnections fail rd h) k = Some c' \<and> cn_id c' = cn_id c
    \<and> (cn_done c' \<or> (\<exists>j. \<not> fail j \<and> deviceActive False (rd j) (cn_id c)))"
  using assms by (rule validateConnections_sound)

definition bob_hub :: hub where
  "bob_hub = new_hub\<lparr>conn_of := [7 \<mapsto> bob_conn], registered := [(''b1'', 7)], subscribers := [(''c'', 7)], active_conns := 1\<rparr>"

text \<open>C37: Lost wake-ups are recovered: when the recorded head of a subscribed chat differs from the durable
  one, or the chat is gone, a poll without read failures leaves every subscriber of the chat with a
  pending notification and its wake-up token.\<close>

theorem poll_recovers_wakeups:
  assumes "(chat, k) \<in> set (subscribers h)" "conn_of h k = Some c"
    and "\<And>j. replay_heads h chat \<noteq> head (rd j) chat \<or> head (rd j) chat = None"
  shows "\<exists>c'. conn_of (pollReplayHeads (\<lambda>_. False) rd h) k = Some c' \<and> chat \<in> set (cn_pending c') \<and> cn_wake c'"
  using pollReplayHeads_recovers [OF assms] by (simp add: told_def)

theorem poll_recovers_wakeups_witness:
  "\<exists>c'. conn_of (pollReplayHeads (\<lambda>_. False) (\<lambda>_. hello_db) bob_hub) 7 = Some c' \<and> ''c'' \<in> set (cn_pending c') \<and> cn_wake c'"
  by (rule poll_recovers_wakeups [of _ _ _ bob_conn])
    (simp_all add: bob_hub_def new_hub_def head_def hello_tables hello_chat_def)

subsection \<open>Admission\<close>

text \<open>C38: Admission is bounded and accounts for every request: over any interleaving of arrivals, waits and
  completions at most four requests per worker are served and eight wait, and the counters modulo
  \<open>2^64\<close> are exactly the requests served and turned away.\<close>

theorem admission_is_bounded:
  assumes "gate_step\<^sup>*\<^sup>* (new_gate c, []) (g, ps)"
  shows "slots g = phase_count Serving ps \<and> slots g \<le> nat (cap_workers c * 4)
    \<and> pending g = phase_count Queued ps \<and> pending g \<le> nat (cap_workers c * 8)
    \<and> am_admitted (AdmissionStats g) = of_nat (phase_count Serving ps + phase_count Served ps)
    \<and> am_rejected (AdmissionStats g) = of_nat (phase_count Turned_away ps)"
  using gate_reachable [OF assms] by (simp add: gate_ok_def AdmissionStats_def)

theorem admission_is_bounded_witness:
  "\<exists>g. gate_step\<^sup>*\<^sup>* (new_gate toy_capacity, []) (g, [Serving]) \<and> slots g = 1"
proof -
  have "gate_step (new_gate toy_capacity, []) (snd (admit_first (new_gate toy_capacity)), [] @ [Serving])"
    using gate_step.arrive [of "new_gate toy_capacity" admission.Admitted "snd (admit_first (new_gate toy_capacity))" "[]"]
    by (simp add: admit_first_def take_slot_def new_gate_def toy_capacity_def)
  then have run: "gate_step\<^sup>*\<^sup>* (new_gate toy_capacity, []) (snd (admit_first (new_gate toy_capacity)), [Serving])" by auto
  from admission_is_bounded [OF this] run show ?thesis by (auto simp: phase_count_def)
qed

end
