(* ===== verification/Files.thy ===== *)
theory Files
  imports Calls "HOL-Library.AList"
begin

text \<open>
  \<open>internal/modules/files.go\<close>: uploads in chunks, each sealed on disk, their quota, their publication
  with a message and their cleanup. Rows live in three tables; the directory of the installation
  (\<open>Storage.Files\<close>) is \<open>file_dirs\<close>, one directory per upload in the order \<open>os.ReadDir\<close> lists them.
  The handlers and the cleanup hold one mutex and are one step each. The store's
  own steps fail by the numbered faults; so do the file system's. The AEAD that opens a client's chunk
  (\<open>aead\<close>: key, nonce, ciphertext, associated data) and \<open>uuid.Parse\<close> are parameters.
\<close>

record upload_row =
  f_id :: ident
  f_chat :: ident
  f_owner :: ident
  f_device :: ident
  f_operation :: string
  f_mode :: string
  f_checksum :: string
  f_state :: string
  f_size :: int
  f_reserved :: int
  f_expires :: time
  f_seq :: int
  f_chunks :: int
  f_key :: bytes

record chunk_row =
  h_upload :: ident
  h_idx :: int
  h_size :: int
  h_checksum :: string

type_synonym dirs = "(ident \<times> (string \<times> bytes) list) list"

record file_db = call_db +
  uploads :: "upload_row list"
  upload_chunks :: "chunk_row list"
  upload_messages :: "(ident \<times> ident) list"
  file_dirs :: dirs

definition f_key2 :: "'a upload_row_scheme \<Rightarrow> ident \<times> string" where
  "f_key2 u = (f_device u, f_operation u)"

definition h_key :: "'a chunk_row_scheme \<Rightarrow> ident \<times> int" where
  "h_key h = (h_upload h, h_idx h)"

subsection \<open>The directory\<close>

definition files_of :: "dirs \<Rightarrow> ident \<Rightarrow> (string \<times> bytes) list" where
  "files_of ds d = (case map_of ds d of None \<Rightarrow> [] | Some fs \<Rightarrow> fs)"

definition read_file :: "dirs \<Rightarrow> ident \<Rightarrow> string \<Rightarrow> bytes option" where
  "read_file ds d name = map_of (files_of ds d) name"

definition make_dir :: "ident \<Rightarrow> dirs \<Rightarrow> dirs" where
  "make_dir d ds = (if map_of ds d = None then ds @ [(d, [])] else ds)"

definition write_file :: "ident \<Rightarrow> string \<Rightarrow> bytes \<Rightarrow> dirs \<Rightarrow> dirs" where
  "write_file d name c ds = AList.update d (AList.update name c (files_of ds d)) ds"

definition remove_file :: "ident \<Rightarrow> string \<Rightarrow> dirs \<Rightarrow> dirs" where
  "remove_file d name ds =
     (if map_of ds d = None then ds else AList.update d (AList.delete name (files_of ds d)) ds)"

definition remove_all :: "ident \<Rightarrow> dirs \<Rightarrow> dirs" where
  "remove_all d ds = AList.delete d ds"

text \<open>The name of a chunk's file below its upload's directory.\<close>

definition chunk_name :: "int \<Rightarrow> string" where
  "chunk_name i = dec_int i @ ''.chunk''"

definition fileAAD :: "ident \<Rightarrow> int \<Rightarrow> bytes" where
  "fileAAD d i = ''file/'' @ d @ ''/'' @ dec_int i"

definition key_aad :: "ident \<Rightarrow> bytes" where
  "key_aad d = ''file-key/'' @ d"

definition fileDigest :: "string \<Rightarrow> bool" where
  "fileDigest v = (case hex_decode v of None \<Rightarrow> False | Some b \<Rightarrow> length b = 32 \<and> v = hex_encode b)"

definition get_upload :: "bool \<Rightarrow> 'w file_db_scheme \<Rightarrow> ident \<Rightarrow> upload_row option" where
  "get_upload fail s d = (if fail then None else get_row f_id d (uploads s))"

text \<open>\<open>ON DELETE CASCADE\<close>: the chunks and the links of an upload go with its row.\<close>

definition delete_upload :: "ident \<Rightarrow> 'w file_db_scheme \<Rightarrow> 'w file_db_scheme" where
  "delete_upload d s = s\<lparr>uploads := delete_rows (\<lambda>u. f_id u = d) (uploads s),
     upload_chunks := delete_rows (\<lambda>h. h_upload h = d) (upload_chunks s),
     upload_messages := delete_rows (\<lambda>l. fst l = d) (upload_messages s)\<rparr>"

subsection \<open>Creating an upload\<close>

record upload_input =
  ui_operation :: string
  ui_size :: int
  ui_chunks :: int
  ui_checksum :: string
  ui_envelope :: "envelope option"

text \<open>A signed 64-bit sum wraps.\<close>

definition wrap64 :: "int \<Rightarrow> int" where
  "wrap64 x = (x + 2 ^ 63) mod 2 ^ 64 - 2 ^ 63"

definition reservation :: "int \<Rightarrow> int \<Rightarrow> int" where
  "reservation n chunks = wrap64 (n + wrap64 (chunks * 64))"

definition upload_metadata_ok :: "policy_cfg \<Rightarrow> upload_input \<Rightarrow> bool" where
  "upload_metadata_ok p inp \<longleftrightarrow>
     \<not> (length (ui_operation inp) < 1 \<or> length (ui_operation inp) > 128 \<or> ui_size inp \<le> 0
        \<or> ui_size inp > pol_max_file_bytes p \<or> ui_chunks inp \<le> 0 \<or> ui_chunks inp > 65536
        \<or> ui_chunks inp > ui_size inp
        \<or> ui_chunks inp > ((ui_size inp - 1) div pol_max_chunk_bytes p + 1) + 1024
        \<or> \<not> fileDigest (ui_checksum inp))"

text \<open>The key of the file: in a basic chat it comes in an envelope, in an MLS chat not at all.\<close>

definition upload_session ::
  "'z core \<Rightarrow> identity \<Rightarrow> ident \<Rightarrow> string \<Rightarrow> upload_input \<Rightarrow> string + bytes" where
  "upload_session C who chat mode inp =
     (if mode = ''basic'' then
        (case ui_envelope inp of
           None \<Rightarrow> Inl ''encrypted file key required''
         | Some e \<Rightarrow>
             (case OpenEnvelope (prim C) (eng C) e (Binding chat (user_id who) (device_id who) (ui_operation inp)) of
                Inl _ \<Rightarrow> Inl ''invalid encrypted file key''
              | Inr session \<Rightarrow> (if length session \<noteq> 32 then Inl ''invalid encrypted file key'' else Inr session)))
      else if ui_envelope inp \<noteq> None then Inl ''E2EE file keys belong in MLS messages''
      else Inr [])"

definition reserved_total :: "'w file_db_scheme \<Rightarrow> int" where
  "reserved_total s = sum_list (map f_reserved (uploads s))"

definition new_upload ::
  "'z core \<Rightarrow> env \<Rightarrow> identity \<Rightarrow> ident \<Rightarrow> string \<Rightarrow> upload_input \<Rightarrow> bytes \<Rightarrow> int \<Rightarrow> upload_row" where
  "new_upload C env who chat mode inp session reserved =
     \<lparr>f_id = uuid env, f_chat = chat, f_owner = user_id who, f_device = device_id who,
      f_operation = ui_operation inp, f_mode = mode, f_checksum = ui_checksum inp, f_state = ''uploading'',
      f_size = ui_size inp, f_reserved = reserved,
      f_expires = now env + pol_upload_ttl_hours (policy C) * 3600, f_seq = 0, f_chunks = ui_chunks inp,
      f_key = (if mode = ''basic'' then Seal (prim C) (eng C) (nonce env) session (key_aad (uuid env)) else [])\<rparr>"

definition equalBytes :: "bytes \<Rightarrow> bytes \<Rightarrow> bool" where
  "equalBytes a b = (length a = length b \<and> list_all (\<lambda>(x, y). x = y) (zip a b))"

text \<open>A repeated operation: it must name the same file, and in a basic chat the same key.\<close>

definition create_again ::
  "'z core \<Rightarrow> env \<Rightarrow> 'w file_db_scheme \<Rightarrow> ident \<Rightarrow> string \<Rightarrow> upload_input \<Rightarrow> bytes \<Rightarrow> ident \<Rightarrow>
    (ident \<times> string \<times> time, 'w file_db_scheme) outcome" where
  "create_again C env s chat mode inp session d =
     (case get_upload (flt env 3) s d of
        None \<Rightarrow> Error 409 ''operation metadata differs'' s
      | Some u \<Rightarrow>
          (if f_chat u \<noteq> chat \<or> f_size u \<noteq> ui_size inp \<or> f_chunks u \<noteq> ui_chunks inp
              \<or> f_checksum u \<noteq> ui_checksum inp \<or> f_mode u \<noteq> mode
           then Error 409 ''operation metadata differs'' s
           else if mode = ''basic'' \<and> (case Open (prim C) (eng C) (f_key u) (key_aad (f_id u)) of
               Inl _ \<Rightarrow> True | Inr old \<Rightarrow> \<not> equalBytes old session)
           then Error 409 ''operation file key differs'' s
           else (Reply 200 (f_id u, f_state u, f_expires u), [], s)))"

text \<open>
  The reservation is one statement: the row is inserted when the reserved bytes of all uploads stay
  within the quota. SQLite's \<open>SUM\<close> fails when it leaves the 64-bit range.
\<close>

definition reserve_upload :: "int \<Rightarrow> upload_row \<Rightarrow> 'w file_db_scheme \<Rightarrow> (nat \<times> string) + 'w file_db_scheme" where
  "reserve_upload quota u s =
     (if reserved_total s \<ge> 2 ^ 63 then Inl (500, ''upload reservation failed'')
      else if \<not> reserved_total s + f_reserved u \<le> quota then Inl (507, ''storage quota exceeded'')
      else case (insert_row f_id u (uploads s), insert_row f_key2 u (uploads s)) of
        (Some us, Some _) \<Rightarrow> Inr (s\<lparr>uploads := us\<rparr>)
      | _ \<Rightarrow> Inl (500, ''upload reservation failed''))"

definition create_new ::
  "'z core \<Rightarrow> env \<Rightarrow> 'w file_db_scheme \<Rightarrow> identity \<Rightarrow> ident \<Rightarrow> string \<Rightarrow> upload_input \<Rightarrow> bytes \<Rightarrow>
    (ident \<times> string \<times> time, 'w file_db_scheme) outcome" where
  "create_new C env s who chat mode inp session =
     (let reserved = reservation (ui_size inp) (ui_chunks inp) in
      if reserved < ui_size inp then Error 400 ''upload reservation overflow'' s
      else let u = new_upload C env who chat mode inp session reserved in
        if flt env 4 then Error 500 ''upload reservation failed'' s
        else case reserve_upload (pol_max_storage_bytes (policy C)) u s of
          Inl (code, m) \<Rightarrow> Error code m s
        | Inr s1 \<Rightarrow>
            (if flt env 5 \<or> map_of (file_dirs s1) (f_id u) \<noteq> None
             then Error 500 ''file storage unavailable'' (if flt env 6 then s1 else delete_upload (f_id u) s1)
             else (Reply 201 (f_id u, f_state u, f_expires u), [],
                   s1\<lparr>file_dirs := make_dir (f_id u) (file_dirs s1)\<rparr>)))"

definition create ::
  "'z core \<Rightarrow> env \<Rightarrow> 'w file_db_scheme \<Rightarrow> upload_input body \<Rightarrow> identity \<Rightarrow> ident \<Rightarrow>
    (ident \<times> string \<times> time, 'w file_db_scheme) outcome" where
  "create C env s b who chat =
     (case Decode b of
        Inl m \<Rightarrow> Error 400 m s
      | Inr inp \<Rightarrow>
          (if \<not> upload_metadata_ok (policy C) inp then Error 400 ''invalid upload metadata'' s
           else if flt env 0 \<or> (case Member s (user_id who) chat of None \<Rightarrow> True | Some (_, can, _) \<Rightarrow> \<not> can)
           then Error 403 ''chat access denied'' s
           else case (if flt env 1 then None else map_option c_mode (get_row c_id chat (chats s))) of
             None \<Rightarrow> Error 404 ''chat unavailable'' s
           | Some mode \<Rightarrow>
               (case upload_session C who chat mode inp of
                  Inl m \<Rightarrow> Error 400 m s
                | Inr session \<Rightarrow>
                    (if flt env 2 then Error 500 ''upload lookup failed'' s
                     else case get_row f_key2 (device_id who, ui_operation inp) (uploads s) of
                       Some u \<Rightarrow> create_again C env s chat mode inp session (f_id u)
                     | None \<Rightarrow> create_new C env s who chat mode inp session))))"

subsection \<open>Access\<close>

definition owner ::
  "bool \<Rightarrow> bool \<Rightarrow> 'w file_db_scheme \<Rightarrow> identity \<Rightarrow> ident \<Rightarrow> go_error + upload_row" where
  "owner fail1 fail2 s who d =
     (case get_upload fail1 s d of
        None \<Rightarrow> Inl (OtherError ''upload unavailable'')
      | Some u \<Rightarrow>
          (if f_owner u \<noteq> user_id who \<or> f_device u \<noteq> device_id who then Inl (OtherError ''upload unavailable'')
           else if fail2 \<or> (case Member s (user_id who) (f_chat u) of None \<Rightarrow> True | Some (_, can, _) \<Rightarrow> \<not> can)
           then Inl (OtherError ''chat access denied'')
           else Inr u))"

text \<open>The messages that carry a published upload and that the reader may see.\<close>

definition linked_messages :: "'w file_db_scheme \<Rightarrow> ident \<Rightarrow> int \<Rightarrow> message list" where
  "linked_messages s d joined = [empty_message\<lparr>msg_id := g_id g, msg_chat := g_chat g\<rparr>.
     l \<leftarrow> upload_messages s, fst l = d, g \<leftarrow> messages s, g_id g = snd l \<and> \<not> g_deleted g \<and> joined \<le> g_seq g]"

text \<open>The loop over them: every projection hook runs on each message; \<open>n\<close> numbers their statements.\<close>

fun any_visible ::
  "'w file_db_ext call_db_ext mod_db_ext core \<Rightarrow> env \<Rightarrow> nat \<Rightarrow> 'w file_db_scheme \<Rightarrow> identity \<Rightarrow> message list \<Rightarrow>
    go_error + bool" where
  "any_visible C env n s who [] = Inr False"
| "any_visible C env n s who (m # ms) =
     (case run_project (project_hooks C) n (length (project_hooks C)) 0 env s who m of
        Inl e \<Rightarrow> Inl e
      | Inr m' \<Rightarrow>
          (case any_visible C env (n + 8 * length (project_hooks C)) s who ms of
             Inl e \<Rightarrow> Inl e
           | Inr v \<Rightarrow> Inr (\<not> msg_deleted m' \<or> v)))"

definition access ::
  "'w file_db_ext call_db_ext mod_db_ext core \<Rightarrow> env \<Rightarrow> 'w file_db_scheme \<Rightarrow> identity \<Rightarrow> ident \<Rightarrow>
    go_error + upload_row" where
  "access C env s who d =
     (case get_upload (flt env 0) s d of
        None \<Rightarrow> Inl (OtherError ''file unavailable'')
      | Some u \<Rightarrow>
          (if f_state u \<noteq> ''ready'' then Inl (OtherError ''file unavailable'')
           else case (if flt env 1 then None else Member s (user_id who) (f_chat u)) of
             None \<Rightarrow> Inl (OtherError ''sql: no rows in result set'')
           | Some (_, _, joined) \<Rightarrow>
               (if f_seq u = 0 then
                  (if f_owner u \<noteq> user_id who \<or> f_expires u < now env
                   then Inl (OtherError ''file unpublished'') else Inr u)
                else if flt env 2 then Inl (OtherError ''storage'')
                else case any_visible C env 3 s who (linked_messages s (f_id u) joined) of
                  Inl e \<Rightarrow> Inl e
                | Inr seen \<Rightarrow>
                    (if seen then Inr u else Inl (OtherError ''file reference inaccessible'')))))"

definition chunks_of :: "'w file_db_scheme \<Rightarrow> ident \<Rightarrow> chunk_row list" where
  "chunks_of s d = filter (\<lambda>h. h_upload h = d) (upload_chunks s)"

definition chunk_total :: "'w file_db_scheme \<Rightarrow> ident \<Rightarrow> int" where
  "chunk_total s d = sum_list (map h_size (chunks_of s d))"

text \<open>The owner sees an unpublished upload in any state; everybody else what \<open>access\<close> allows.\<close>

definition status ::
  "'w file_db_ext call_db_ext mod_db_ext core \<Rightarrow> env \<Rightarrow> 'w file_db_scheme \<Rightarrow> identity \<Rightarrow> ident \<Rightarrow>
    (upload_row \<times> (int \<times> int \<times> string) list, 'w file_db_scheme) outcome" where
  "status C env s who d =
     (let found = (case owner (flt env 0) (flt env 1) s who d of
          Inr u \<Rightarrow> (if f_seq u > 0 then access C (shift_env 4 env) s who d else Inr u)
        | Inl _ \<Rightarrow> access C (shift_env 4 env) s who d) in
      case found of
        Inl _ \<Rightarrow> Error 404 ''upload unavailable'' s
      | Inr u \<Rightarrow>
          (if flt env 2 \<or> flt env 3 then Error 500 ''upload status failed'' s
           else (Reply 200 (u, map (\<lambda>h. (h_idx h, h_size h, h_checksum h)) (sort_key h_idx (chunks_of s (f_id u)))), [], s)))"

subsection \<open>Storing a chunk\<close>

text \<open>
  The checks on a client-encrypted chunk of a basic chat: a 12-byte nonce and a 16-byte tag, opened
  under the file's key. \<open>aes.NewCipher\<close> accepts keys of 16, 24 and 32 bytes.
\<close>

definition open_chunk ::
  "'z core \<Rightarrow> (bytes \<Rightarrow> bytes \<Rightarrow> bytes \<Rightarrow> bytes \<Rightarrow> bytes option) \<Rightarrow> upload_row \<Rightarrow> int \<Rightarrow> bytes \<Rightarrow> (nat \<times> string) option" where
  "open_chunk C aead u i data =
     (if f_mode u \<noteq> ''basic'' then None
      else case Open (prim C) (eng C) (f_key u) (key_aad (f_id u)) of
        Inl _ \<Rightarrow> Some (500, ''file key unavailable'')
      | Inr key \<Rightarrow>
          (if length key \<noteq> 16 \<and> length key \<noteq> 24 \<and> length key \<noteq> 32 then Some (500, ''file key invalid'')
           else if length data < 12 + 16 then Some (400, ''invalid encrypted chunk'')
           else if aead key (take 12 data) (drop 12 data)
                     (Binding (f_chat u) (f_owner u) (f_device u) (f_operation u @ ''/'' @ dec_int i)) = None
           then Some (400, ''chunk authentication failed'') else None))"

text \<open>
  Writing the chunk: a temporary file, renamed to its place, and the sync of the directory. The
  flag says whether all of it succeeded; what is left on disk is what the failed step left. The
  contents of a temporary file are never read, so a partly written one is modelled as empty.
  Statements: \<open>MkdirAll\<close>, \<open>CreateTemp\<close>, write, sync, close, rename, opening, syncing and closing the
  directory, and the deferred \<open>os.Remove\<close> of the temporary file.
\<close>

definition temp_name :: "env \<Rightarrow> string" where
  "temp_name env = ''.chunk-'' @ draws env 2"

definition store_chunk :: "env \<Rightarrow> ident \<Rightarrow> int \<Rightarrow> bytes \<Rightarrow> dirs \<Rightarrow> bool \<times> dirs" where
  "store_chunk env d i encrypted ds =
     (if flt env 0 then (False, ds)
      else let ds1 = make_dir d ds in
        if flt env 1 then (False, ds1)
        else if flt env 2 \<or> flt env 3 \<or> flt env 4 \<or> flt env 5
        then (False, if flt env 9 then write_file d (temp_name env) [] ds1 else ds1)
        else let ds2 = write_file d (chunk_name i) encrypted ds1 in
          (\<not> (flt env 6 \<or> flt env 7 \<or> flt env 8), ds2))"

text \<open>The request: its header, and the bytes of its body.\<close>

record chunk_input =
  ci_index :: string
  ci_checksum :: string
  ci_data :: bytes

definition insert_chunk ::
  "'z core \<Rightarrow> env \<Rightarrow> 'w file_db_scheme \<Rightarrow> upload_row \<Rightarrow> int \<Rightarrow> chunk_input \<Rightarrow> (int, 'w file_db_scheme) outcome" where
  "insert_chunk C env s u i inp =
     (case store_chunk (shift_env 7 env) (f_id u) i
             (Seal (prim C) (eng C) (nonce env) (ci_data inp) (fileAAD (f_id u) i)) (file_dirs s) of
        (ok, ds) \<Rightarrow>
          (let s1 = s\<lparr>file_dirs := ds\<rparr> in
           if \<not> ok then Error 500 ''chunk storage failed'' s1
           else case (if flt env 17 then None else insert_row h_key
               \<lparr>h_upload = f_id u, h_idx = i, h_size = int (length (ci_data inp)), h_checksum = ci_checksum inp\<rparr>
               (upload_chunks s1)) of
             None \<Rightarrow> Error 500 ''chunk persistence failed''
               (if flt env 18 then s1 else s1\<lparr>file_dirs := remove_file (f_id u) (chunk_name i) ds\<rparr>)
           | Some hs \<Rightarrow> (Reply 201 i, [], s1\<lparr>upload_chunks := hs\<rparr>)))"

text \<open>The checks that follow when the chunk has no row (any more).\<close>

definition add_chunk ::
  "'z core \<Rightarrow> (bytes \<Rightarrow> bytes \<Rightarrow> bytes \<Rightarrow> bytes \<Rightarrow> bytes option) \<Rightarrow> env \<Rightarrow> 'w file_db_scheme \<Rightarrow> upload_row \<Rightarrow> int \<Rightarrow>
    chunk_input \<Rightarrow> (int, 'w file_db_scheme) outcome" where
  "add_chunk C aead env s u i inp =
     (if flt env 6 \<or> chunk_total s (f_id u) + int (length (ci_data inp)) > f_size u
      then Error 400 ''upload size exceeded'' s
      else case open_chunk C aead u i (ci_data inp) of
        Some (code, m) \<Rightarrow> Error code m s
      | None \<Rightarrow> insert_chunk C env s u i inp)"

definition chunk ::
  "'z core \<Rightarrow> (bytes \<Rightarrow> bytes \<Rightarrow> bytes \<Rightarrow> bytes \<Rightarrow> bytes option) \<Rightarrow> env \<Rightarrow> 'w file_db_scheme \<Rightarrow> chunk_input \<Rightarrow>
    identity \<Rightarrow> ident \<Rightarrow> (int, 'w file_db_scheme) outcome" where
  "chunk C aead env s inp who d =
     (case owner (flt env 0) (flt env 1) s who d of
        Inl _ \<Rightarrow> Error 404 ''upload unavailable'' s
      | Inr u \<Rightarrow>
          (let i = fst (ParseInt (ci_index inp)) in
           if snd (ParseInt (ci_index inp)) \<or> i < 0 \<or> i \<ge> f_chunks u \<or> \<not> fileDigest (ci_checksum inp)
           then Error 400 ''invalid chunk metadata'' s
           else if f_state u \<noteq> ''uploading'' \<or> f_expires u < now env then Error 409 ''upload is closed'' s
           else if flt env 2 \<or> int (length (ci_data inp)) > pol_max_chunk_bytes (policy C) \<or> length (ci_data inp) = 0
           then Error 413 ''invalid chunk size'' s
           else if hex_encode (p_sha256 (prim C) (ci_data inp)) \<noteq> ci_checksum inp
           then Error 400 ''chunk checksum mismatch'' s
           else if flt env 3 then Error 500 ''chunk lookup failed'' s
           else case get_row h_key (f_id u, i) (upload_chunks s) of
             None \<Rightarrow> add_chunk C aead env s u i inp
           | Some h \<Rightarrow>
               (if h_checksum h \<noteq> ci_checksum inp then Error 409 ''chunk already differs'' s
                else if flt env 4 then Error 500 ''chunk storage unavailable'' s
                else if read_file (file_dirs s) (f_id u) (chunk_name i) \<noteq> None then (Reply 200 i, [], s)
                else if flt env 5 then Error 500 ''chunk recovery failed'' s
                else add_chunk C aead env
                  (s\<lparr>upload_chunks := delete_rows (\<lambda>h. h_key h = (f_id u, i)) (upload_chunks s)\<rparr>) u i inp)))"

subsection \<open>Completing an upload\<close>

text \<open>The loop that reads, opens and hashes the chunks: the bytes hashed, or the error response.\<close>

fun read_chunks ::
  "'z core \<Rightarrow> faults \<Rightarrow> dirs \<Rightarrow> ident \<Rightarrow> nat \<Rightarrow> nat \<Rightarrow> (nat \<times> string) + bytes" where
  "read_chunks C f ds d i 0 = Inr []"
| "read_chunks C f ds d i (Suc n) =
     (case (if f i then None else read_file ds d (chunk_name (int i))) of
        None \<Rightarrow> Inl (409, ''chunk unavailable'')
      | Some raw \<Rightarrow>
          (case Open (prim C) (eng C) raw (fileAAD d (int i)) of
             Inl _ \<Rightarrow> Inl (500, ''chunk authentication failed'')
           | Inr b \<Rightarrow> (case read_chunks C f ds d (Suc i) n of Inl e \<Rightarrow> Inl e | Inr bs \<Rightarrow> Inr (b @ bs))))"

definition set_ready :: "ident \<Rightarrow> upload_row list \<Rightarrow> upload_row list" where
  "set_ready d = update_rows (\<lambda>u. f_id u = d) (\<lambda>u. u\<lparr>f_state := ''ready''\<rparr>)"

definition complete ::
  "'z core \<Rightarrow> env \<Rightarrow> 'w file_db_scheme \<Rightarrow> identity \<Rightarrow> ident \<Rightarrow> (ident \<times> string, 'w file_db_scheme) outcome" where
  "complete C env s who d =
     (case owner (flt env 0) (flt env 1) s who d of
        Inl _ \<Rightarrow> Error 404 ''upload unavailable'' s
      | Inr u \<Rightarrow>
          (if f_state u = ''ready'' then (Reply 200 (f_id u, f_state u), [], s)
           else if f_expires u < now env then Error 409 ''upload expired'' s
           else if flt env 2 \<or> int (length (chunks_of s (f_id u))) \<noteq> f_chunks u \<or> chunk_total s (f_id u) \<noteq> f_size u
           then Error 409 ''upload incomplete'' s
           else case read_chunks C (shift_faults 4 (flt env)) (file_dirs s) (f_id u) 0 (nat (f_chunks u)) of
             Inl (code, m) \<Rightarrow> Error code m s
           | Inr b \<Rightarrow>
               (if hex_encode (p_sha256 (prim C) b) \<noteq> f_checksum u then Error 400 ''file checksum mismatch'' s
                else if flt env 3 then Error 500 ''completion failed'' s
                else (Reply 200 (f_id u, ''ready''), [], s\<lparr>uploads := set_ready (f_id u) (uploads s)\<rparr>))))"

subsection \<open>Downloading\<close>

definition download ::
  "'w file_db_ext call_db_ext mod_db_ext core \<Rightarrow> env \<Rightarrow> 'w file_db_scheme \<Rightarrow> identity \<Rightarrow> ident \<Rightarrow> string \<Rightarrow>
    (bytes, 'w file_db_scheme) outcome" where
  "download C env s who d index =
     (case access C (shift_env 1 env) s who d of
        Inl _ \<Rightarrow> Error 404 ''file unavailable'' s
      | Inr u \<Rightarrow>
          (let i = fst (ParseInt index) in
           if snd (ParseInt index) \<or> i < 0 \<or> i \<ge> f_chunks u then Error 404 ''chunk unavailable'' s
           else case (if flt env 0 then None else read_file (file_dirs s) (f_id u) (chunk_name i)) of
             None \<Rightarrow> Error 404 ''chunk unavailable'' s
           | Some raw \<Rightarrow>
               (case Open (prim C) (eng C) raw (fileAAD (f_id u) i) of
                  Inl _ \<Rightarrow> Error 500 ''chunk authentication failed'' s
                | Inr data \<Rightarrow> (Reply 200 data, [], s))))"

text \<open>The key of a basic chat's file, sealed for the device that asks.\<close>

definition file_key ::
  "'w file_db_ext call_db_ext mod_db_ext core \<Rightarrow> env \<Rightarrow> 'w file_db_scheme \<Rightarrow> identity \<Rightarrow> ident \<Rightarrow>
    (envelope \<times> ident \<times> ident \<times> ident \<times> ident \<times> string, 'w file_db_scheme) outcome" where
  "file_key C env s who d =
     (case access C (shift_env 1 env) s who d of
        Inl _ \<Rightarrow> Error 404 ''file unavailable'' s
      | Inr u \<Rightarrow>
          (if f_mode u \<noteq> ''basic'' then Error 409 ''file key is in MLS message'' s
           else case (if flt env 0 then None else query_row (map d_public_key
               (filter (\<lambda>x. d_id x = device_id who \<and> d_user x = user_id who \<and> \<not> d_revoked x) (devices s)))) of
             None \<Rightarrow> Error 403 ''device unavailable'' s
           | Some public \<Rightarrow>
               (case b64_decode public of
                  None \<Rightarrow> Error 500 ''device key invalid'' s
                | Some pk \<Rightarrow>
                    (case Open (prim C) (eng C) (f_key u) (key_aad (f_id u)) of
                       Inl _ \<Rightarrow> Error 500 ''file key unavailable'' s
                     | Inr key \<Rightarrow>
                         (case SealEnvelope (prim C) pk (draws env 0) key
                                 (Binding (f_chat u) (user_id who) (device_id who) (f_id u)) of
                            Inl _ \<Rightarrow> Error 500 ''file key encryption failed'' s
                          | Inr e \<Rightarrow> (Reply 200 (e, f_id u, f_chat u, f_owner u, f_device u, f_operation u), [], s))))))"

subsection \<open>Cleanup\<close>

definition expendable :: "time \<Rightarrow> upload_row \<Rightarrow> bool" where
  "expendable t u \<longleftrightarrow> f_seq u = 0 \<and> f_expires u < t \<or> f_state u = ''deleted''"

text \<open>
  Dropping the selected uploads: the \<open>DELETE\<close> (which repeats part of the condition), then the
  directory. Two statements per upload; an error ends the cleanup.
\<close>

fun drop_uploads :: "faults \<Rightarrow> nat \<Rightarrow> ident list \<Rightarrow> 'w file_db_scheme \<Rightarrow> bool \<times> 'w file_db_scheme" where
  "drop_uploads f n [] s = (True, s)"
| "drop_uploads f n (d # ds) s =
     (if f n then (False, s)
      else case get_row f_id d (uploads s) of
        None \<Rightarrow> drop_uploads f (n + 2) ds s
      | Some u \<Rightarrow>
          (if \<not> (f_seq u = 0 \<or> f_state u = ''deleted'') then drop_uploads f (n + 2) ds s
           else let s1 = delete_upload d s in
             if f (n + 1) then (False, s1)
             else drop_uploads f (n + 2) ds (s1\<lparr>file_dirs := remove_all d (file_dirs s1)\<rparr>)))"

definition is_temp :: "string \<Rightarrow> bool" where
  "is_temp name \<longleftrightarrow> length name > 7 \<and> take 7 name = ''.chunk-''"

text \<open>\<open>filepath.Ext\<close> of a name is \<open>.chunk\<close> exactly when the name ends with it.\<close>

definition chunk_stem :: "string \<Rightarrow> string option" where
  "chunk_stem name =
     (if length name \<ge> 6 \<and> drop (length name - 6) name = ''.chunk'' then Some (take (length name - 6) name) else None)"

text \<open>The files of one upload's directory: temporary files, and chunk files without a row, go.\<close>

fun sweep_files ::
  "faults \<Rightarrow> nat \<Rightarrow> chunk_row list \<Rightarrow> ident \<Rightarrow> string list \<Rightarrow> dirs \<Rightarrow> bool \<times> dirs" where
  "sweep_files f n hs d [] ds = (True, ds)"
| "sweep_files f n hs d (name # names) ds =
     (if is_temp name then
        (if f n then (False, ds) else sweep_files f (n + 2) hs d names (remove_file d name ds))
      else case chunk_stem name of
        None \<Rightarrow> sweep_files f (n + 2) hs d names ds
      | Some stem \<Rightarrow>
          (if snd (ParseInt stem) then sweep_files f (n + 2) hs d names ds
           else if f n then (False, ds)
           else if get_row h_key (d, fst (ParseInt stem)) hs \<noteq> None then sweep_files f (n + 2) hs d names ds
           else if f (n + 1) then (False, ds)
           else sweep_files f (n + 2) hs d names (remove_file d name ds)))"

text \<open>The directories: those that name no upload are orphans. \<open>is_uuid\<close> is \<open>uuid.Parse\<close> succeeding.\<close>

fun sweep_dirs ::
  "(string \<Rightarrow> bool) \<Rightarrow> faults \<Rightarrow> nat \<Rightarrow> 'w file_db_scheme \<Rightarrow> (ident \<times> string list) list \<Rightarrow> dirs \<Rightarrow> bool \<times> dirs" where
  "sweep_dirs is_uuid f n s [] ds = (True, ds)"
| "sweep_dirs is_uuid f n s ((d, names) # entries) ds =
     (let m = n + 3 + 2 * length names in
      if \<not> is_uuid d then sweep_dirs is_uuid f m s entries ds
      else if f n then (False, ds)
      else if get_row f_id d (uploads s) = None then
        (if f (n + 1) then (False, ds) else sweep_dirs is_uuid f m s entries (remove_all d ds))
      else if f (n + 2) then (False, ds)
      else case sweep_files f (n + 3) (upload_chunks s) d names ds of
        (ok, ds1) \<Rightarrow> (if ok then sweep_dirs is_uuid f m s entries ds1 else (False, ds1)))"

definition dir_entries :: "dirs \<Rightarrow> (ident \<times> string list) list" where
  "dir_entries ds = map (\<lambda>(d, fs). (d, map fst fs)) ds"

definition files_cleanup ::
  "(string \<Rightarrow> bool) \<Rightarrow> env \<Rightarrow> 'w file_db_scheme \<Rightarrow> bool \<times> 'w file_db_scheme" where
  "files_cleanup is_uuid env s =
     (if flt env 0 \<or> flt env 1 then (False, s)
      else let ids = map f_id (filter (expendable (now env)) (uploads s)) in
        case drop_uploads (flt env) 3 ids s of
          (ok, s1) \<Rightarrow>
            (if \<not> ok \<or> flt env 2 then (False, s1)
             else case sweep_dirs is_uuid (flt env) (3 + 2 * length ids) s1 (dir_entries (file_dirs s1)) (file_dirs s1) of
               (done, ds) \<Rightarrow> (done, s1\<lparr>file_dirs := ds\<rparr>)))"

subsection \<open>The hooks\<close>

text \<open>Before a message is queued: its attachments exist, are the sender's, of this chat, and ready.\<close>

fun attachments_available ::
  "faults \<Rightarrow> time \<Rightarrow> 'w file_db_scheme \<Rightarrow> identity \<Rightarrow> ident \<Rightarrow> nat \<Rightarrow> string list \<Rightarrow> string list \<Rightarrow> go_error option" where
  "attachments_available f t s who chat n seen [] = None"
| "attachments_available f t s who chat n seen (a # as) =
     (if a \<in> set seen then Some (OtherError ''duplicate attachment'')
      else case get_upload (f n) s a of
        None \<Rightarrow> Some (OtherError ''attachment unavailable'')
      | Some u \<Rightarrow>
          (if f_owner u \<noteq> user_id who \<or> f_chat u \<noteq> chat \<or> f_state u \<noteq> ''ready'' \<or> (f_seq u = 0 \<and> f_expires u < t)
           then Some (OtherError ''attachment unavailable'')
           else attachments_available f t s who chat (Suc n) (a # seen) as))"

definition files_prepare_hook ::
  "env \<Rightarrow> 'w file_db_scheme \<Rightarrow> identity \<Rightarrow> ident \<Rightarrow> message_input \<Rightarrow> go_error + message_input" where
  "files_prepare_hook env s who chat inp =
     (case attachments_available (flt env) (now env) s who chat 0 [] (attachments_of (in_attachments inp)) of
        Some e \<Rightarrow> Inl e
      | None \<Rightarrow> Inr inp)"

text \<open>In the message's transaction: the attachments are published at the message's number and linked.\<close>

definition publishable :: "identity \<Rightarrow> ident \<Rightarrow> time \<Rightarrow> ident \<Rightarrow> upload_row \<Rightarrow> bool" where
  "publishable who chat t a u \<longleftrightarrow> f_id u = a \<and> f_chat u = chat \<and> f_owner u = user_id who
     \<and> f_state u = ''ready'' \<and> (f_seq u > 0 \<or> f_expires u \<ge> t)"

fun publish_all ::
  "faults \<Rightarrow> nat \<Rightarrow> time \<Rightarrow> identity \<Rightarrow> ident \<Rightarrow> int \<Rightarrow> ident \<Rightarrow> ident list \<Rightarrow> 'w file_db_scheme \<Rightarrow> go_error + 'w file_db_scheme" where
  "publish_all f n t who chat seq mid [] s = Inr s"
| "publish_all f n t who chat seq mid (a # as) s =
     (if f n then Inl (OtherError ''storage'')
      else if f (n + 1) \<or> count_rows (publishable who chat t a) (uploads s) \<noteq> 1
      then Inl (OtherError ''attachment changed before publication'')
      else if f (n + 2) then Inl (OtherError ''storage'')
      else publish_all f (n + 3) t who chat seq mid as
        (s\<lparr>uploads := update_rows (publishable who chat t a)
              (\<lambda>u. u\<lparr>f_seq := if f_seq u = 0 then seq else f_seq u\<rparr>) (uploads s),
           upload_messages := insert_ignore id (a, mid) (upload_messages s)\<rparr>))"

definition files_tx_hook ::
  "env \<Rightarrow> 'w file_db_scheme \<Rightarrow> identity \<Rightarrow> ident \<Rightarrow> message \<Rightarrow> go_error + 'w file_db_scheme" where
  "files_tx_hook env s who chat m =
     publish_all (flt env) 0 (now env) who chat (msg_seq m) (msg_id m) (msg_attachments m) s"

text \<open>In a deletion: an upload whose last undeleted message this was loses its key and its reservation.\<close>

definition still_linked :: "'w file_db_scheme \<Rightarrow> ident \<Rightarrow> bool" where
  "still_linked s d \<longleftrightarrow>
     list_ex (\<lambda>l. fst l = d \<and> list_ex (\<lambda>g. g_id g = snd l \<and> \<not> g_deleted g) (messages s)) (upload_messages s)"

definition released :: "'w file_db_scheme \<Rightarrow> ident \<Rightarrow> upload_row \<Rightarrow> bool" where
  "released s mid u \<longleftrightarrow> (f_id u, mid) \<in> set (upload_messages s) \<and> \<not> still_linked s (f_id u)"

definition files_delete_hook :: "env \<Rightarrow> 'w file_db_scheme \<Rightarrow> ident \<Rightarrow> go_error + 'w file_db_scheme" where
  "files_delete_hook env s mid =
     (if flt env 0 then Inl (OtherError ''storage'')
      else Inr (s\<lparr>uploads := update_rows (released s mid)
             (\<lambda>u. u\<lparr>f_state := ''deleted'', f_reserved := 0, f_key := []\<rparr>) (uploads s)\<rparr>))"

text \<open>Installing the module: the directory, the tables (created empty), and a first cleanup.\<close>

definition installFiles :: "(string \<Rightarrow> bool) \<Rightarrow> env \<Rightarrow> 'w file_db_scheme \<Rightarrow> bool \<times> 'w file_db_scheme" where
  "installFiles is_uuid env s =
     (if flt env 0 \<or> flt env 1 then (False, s) else files_cleanup is_uuid (shift_env 2 env) s)"

subsection \<open>The hooks satisfy the core's contracts\<close>

lemma publish_all_frame: "publish_all f n t who chat seq mid as s = Inr s' \<Longrightarrow> same_core s s'"
proof (induction as arbitrary: n s)
  case (Cons a as)
  from Cons.prems have rest: "publish_all f (n + 3) t who chat seq mid as
      (s\<lparr>uploads := update_rows (publishable who chat t a)
              (\<lambda>u. u\<lparr>f_seq := if f_seq u = 0 then seq else f_seq u\<rparr>) (uploads s),
           upload_messages := insert_ignore id (a, mid) (upload_messages s)\<rparr>) = Inr s'"
    by (auto split: if_splits)
  show ?case by (rule same_core_trans [OF _ Cons.IH [OF rest]]) (simp add: same_core_def)
qed simp

interpretation files_tx: tx_hook files_tx_hook
  by unfold_locales (auto simp: files_tx_hook_def dest: publish_all_frame)

interpretation files_delete: delete_hook files_delete_hook
  by unfold_locales (auto simp: files_delete_hook_def same_core_def split: if_splits)

lemma files_prepare_keeps: "files_prepare_hook env s who chat inp = Inr inp' \<Longrightarrow> inp' = inp"
  by (auto simp: files_prepare_hook_def split: option.splits)

interpretation files_prepare: prepare_hook files_prepare_hook
  by unfold_locales (auto simp: files_prepare_keeps)

end
