(* ===== verification/Uploads.thy ===== *)
theory Uploads
  imports Files
begin

text \<open>
  What the files module keeps: the rows are keyed, chunks belong to their uploads and fit into them,
  the reservations stay within the quota, a stored chunk is what its row says, and a finished upload
  is on disk in full and has the digest that was declared. Shown for every handler, the cleanup and the
  hooks, and so for every run (\<open>files_reachable\<close>).
\<close>

subsection \<open>Names and numbers\<close>

lemma byte_digit: "k < 10 \<Longrightarrow> byte (chr (48 + k)) = 48 + k"
  by simp

lemma digits_value_append: "digits_value acc (xs @ ys) = (case digits_value acc xs of None \<Rightarrow> None | Some a \<Rightarrow> digits_value a ys)"
  by (induction acc xs rule: digits_value.induct) auto

lemma digits_value_dec: "digits_value 0 (dec_nat n) = Some n"
proof (induction n rule: dec_nat.induct)
  case (1 n)
  show ?case
  proof (cases "n < 10")
    case True
    then show ?thesis by (simp add: dec_nat.simps [of n])
  next
    case False
    with 1 have "digits_value 0 (dec_nat (n div 10)) = Some (n div 10)" by simp
    with False show ?thesis by (simp add: dec_nat.simps [of n] digits_value_append)
  qed
qed

lemma dec_nat_hd: "dec_nat n \<noteq> [] \<and> 48 \<le> byte (hd (dec_nat n)) \<and> byte (hd (dec_nat n)) \<le> 57"
proof (induction n rule: dec_nat.induct)
  case (1 n)
  then show ?case by (cases "n < 10") (simp_all add: dec_nat.simps [of n])
qed

lemma dec_nat_inject [simp]: "dec_nat m = dec_nat n \<longleftrightarrow> m = n"
  by (metis digits_value_dec option.inject)

lemma ParseInt_dec:
  assumes "0 \<le> i" "i < 2 ^ 63"
  shows "ParseInt (dec_int i) = (i, False)"
proof -
  have "nat i < 2 ^ 63" using assms by (simp add: nat_less_iff)
  moreover have "hd (dec_nat (nat i)) \<noteq> CHR ''-''" "hd (dec_nat (nat i)) \<noteq> CHR ''+''"
    using dec_nat_hd [of "nat i"] by auto
  ultimately show ?thesis
    using assms dec_nat_hd [of "nat i"] by (simp add: ParseInt_def dec_int_def digits_value_dec Let_def)
qed

lemma chunk_name_inject: "0 \<le> i \<Longrightarrow> 0 \<le> j \<Longrightarrow> chunk_name i = chunk_name j \<longleftrightarrow> i = j"
  by (auto simp: chunk_name_def dec_int_def)

lemma chunk_name_hd: "0 \<le> i \<Longrightarrow> hd (chunk_name i) \<noteq> CHR ''.''"
  using dec_nat_hd [of "nat i"] by (auto simp: chunk_name_def dec_int_def hd_append)

lemma chunk_name_not_temp: "0 \<le> i \<Longrightarrow> \<not> is_temp (chunk_name i)"
  using chunk_name_hd [of i] by (cases "chunk_name i") (auto simp: is_temp_def)

lemma temp_name_not_chunk: "0 \<le> i \<Longrightarrow> temp_name env \<noteq> chunk_name i"
  using chunk_name_hd [of i] by (cases "chunk_name i") (auto simp: temp_name_def)

lemma chunk_stem_name: "chunk_stem (chunk_name i) = Some (dec_int i)"
  by (simp add: chunk_stem_def chunk_name_def)

lemma chunk_stem_Some: "chunk_stem name = Some stem \<Longrightarrow> name = stem @ ''.chunk''"
  by (auto simp: chunk_stem_def split: if_splits) (metis append_take_drop_id)

subsection \<open>What is on disk\<close>

lemma files_of_update: "files_of (AList.update d fs ds) e = (if e = d then fs else files_of ds e)"
  by (simp add: files_of_def update_conv')

lemma read_make_dir [simp]: "read_file (make_dir d ds) e n = read_file ds e n"
  by (auto simp: read_file_def files_of_def make_dir_def map_add_def split: option.splits)

lemma read_write_file: "read_file (write_file d name c ds) e n = (if e = d \<and> n = name then Some c else read_file ds e n)"
  by (auto simp: read_file_def write_file_def files_of_update update_conv')

lemma read_remove_file: "read_file (remove_file d name ds) e n = (if e = d \<and> n = name then None else read_file ds e n)"
proof (cases "map_of ds d")
  case None
  then show ?thesis by (simp add: read_file_def remove_file_def files_of_def)
next
  case (Some fs)
  then show ?thesis by (simp add: read_file_def remove_file_def files_of_update delete_conv')
qed

lemma read_remove_all: "read_file (remove_all d ds) e n = (if e = d then None else read_file ds e n)"
  by (auto simp: read_file_def remove_all_def files_of_def delete_conv')

lemmas disk_simps = read_make_dir read_write_file read_remove_file read_remove_all

subsection \<open>The invariant\<close>

text \<open>Chunk \<open>i\<close> of an upload is on disk and opens to \<open>b\<close>.\<close>

definition piece :: "'z core \<Rightarrow> dirs \<Rightarrow> ident \<Rightarrow> int \<Rightarrow> bytes \<Rightarrow> bool" where
  "piece C ds d i b \<longleftrightarrow>
     (\<exists>raw. read_file ds d (chunk_name i) = Some raw \<and> Open (prim C) (eng C) raw (fileAAD d i) = Inr b)"

definition digest :: "'z core \<Rightarrow> bytes \<Rightarrow> string" where
  "digest C b = hex_encode (p_sha256 (prim C) b)"

definition chunk_ok :: "'z core \<Rightarrow> dirs \<Rightarrow> chunk_row \<Rightarrow> bool" where
  "chunk_ok C ds h \<longleftrightarrow> 0 < h_size h \<and> 0 \<le> h_idx h
     \<and> (read_file ds (h_upload h) (chunk_name (h_idx h)) \<noteq> None \<longrightarrow>
          (\<exists>b. piece C ds (h_upload h) (h_idx h) b \<and> int (length b) = h_size h \<and> digest C b = h_checksum h))"

definition complete_on_disk :: "'z core \<Rightarrow> dirs \<Rightarrow> chunk_row list \<Rightarrow> upload_row \<Rightarrow> bytes list \<Rightarrow> bool" where
  "complete_on_disk C ds hs u bs \<longleftrightarrow> int (length bs) = f_chunks u
     \<and> (\<forall>k < length bs. piece C ds (f_id u) (int k) (bs ! k) \<and> (f_id u, int k) \<in> h_key ` set hs)
     \<and> digest C (concat bs) = f_checksum u \<and> int (length (concat bs)) = f_size u"

definition full_reserve :: "upload_row \<Rightarrow> int" where
  "full_reserve u = f_size u + f_chunks u * 64"

definition upload_ok :: "'z core \<Rightarrow> 'w file_db_scheme \<Rightarrow> upload_row \<Rightarrow> bool" where
  "upload_ok C s u \<longleftrightarrow> 0 < f_size u \<and> 0 < f_chunks u \<and> f_chunks u \<le> 65536 \<and> 0 \<le> f_seq u
     \<and> (f_reserved u = full_reserve u \<or> f_reserved u = 0 \<and> f_state u \<noteq> ''uploading'')
     \<and> chunk_total s (f_id u) \<le> f_size u
     \<and> (\<forall>h \<in> set (upload_chunks s). h_upload h = f_id u \<longrightarrow> h_idx h < f_chunks u)
     \<and> (f_state u = ''ready'' \<longrightarrow> (\<exists>bs. complete_on_disk C (file_dirs s) (upload_chunks s) u bs))"

definition files_ok :: "'z core \<Rightarrow> 'w file_db_scheme \<Rightarrow> bool" where
  "files_ok C s \<longleftrightarrow> unique_on f_id (uploads s) \<and> unique_on f_key2 (uploads s) \<and> unique_on h_key (upload_chunks s)
     \<and> h_upload ` set (upload_chunks s) \<subseteq> f_id ` set (uploads s)
     \<and> (\<forall>h \<in> set (upload_chunks s). chunk_ok C (file_dirs s) h)
     \<and> (\<forall>u \<in> set (uploads s). upload_ok C s u)
     \<and> reserved_total s \<le> pol_max_storage_bytes (policy C)"

lemma files_okD:
  assumes "files_ok C s"
  shows "unique_on f_id (uploads s)" "unique_on f_key2 (uploads s)" "unique_on h_key (upload_chunks s)"
    "h_upload ` set (upload_chunks s) \<subseteq> f_id ` set (uploads s)"
    "\<And>h. h \<in> set (upload_chunks s) \<Longrightarrow> chunk_ok C (file_dirs s) h"
    "\<And>u. u \<in> set (uploads s) \<Longrightarrow> upload_ok C s u"
    "reserved_total s \<le> pol_max_storage_bytes (policy C)"
  using assms by (simp_all add: files_ok_def)

lemma files_okI:
  assumes "unique_on f_id (uploads s)" "unique_on f_key2 (uploads s)" "unique_on h_key (upload_chunks s)"
    "h_upload ` set (upload_chunks s) \<subseteq> f_id ` set (uploads s)"
    "\<And>h. h \<in> set (upload_chunks s) \<Longrightarrow> chunk_ok C (file_dirs s) h"
    "\<And>u. u \<in> set (uploads s) \<Longrightarrow> upload_ok C s u"
    "reserved_total s \<le> pol_max_storage_bytes (policy C)"
  shows "files_ok C s"
  using assms by (simp add: files_ok_def)

text \<open>The invariant reads four fields only.\<close>

definition same_files :: "'w file_db_scheme \<Rightarrow> 'w file_db_scheme \<Rightarrow> bool" where
  "same_files s s' \<longleftrightarrow> uploads s' = uploads s \<and> upload_chunks s' = upload_chunks s
     \<and> upload_messages s' = upload_messages s \<and> file_dirs s' = file_dirs s"

lemma files_ok_cong:
  assumes "uploads s' = uploads s" "upload_chunks s' = upload_chunks s" "file_dirs s' = file_dirs s"
  shows "files_ok C s' = files_ok C s"
  using assms by (simp add: files_ok_def upload_ok_def chunk_total_def chunks_of_def reserved_total_def)

lemma same_files_ok: "same_files s s' \<Longrightarrow> files_ok C s' = files_ok C s"
  by (rule files_ok_cong) (simp_all add: same_files_def)

lemma chunk_total_Nil: "chunks_of s d = [] \<Longrightarrow> chunk_total s d = 0"
  by (simp add: chunk_total_def)

lemma row_upload:
  assumes "files_ok C s" "u \<in> set (uploads s)" "h \<in> set (upload_chunks s)" "h_upload h = f_id u"
  shows "0 \<le> h_idx h" "h_idx h < f_chunks u" "0 < h_size h"
  using files_okD(5) [OF assms(1,3)] files_okD(6) [OF assms(1,2)] assms(3,4)
  by (auto simp: chunk_ok_def upload_ok_def)

subsection \<open>Changes of the disk\<close>

text \<open>The files that rows name are what matters: a finished upload has a row for every chunk.\<close>

lemma files_ok_disk:
  assumes ok: "files_ok C s"
    and eq: "\<And>h. h \<in> set (upload_chunks s) \<Longrightarrow>
      read_file ds (h_upload h) (chunk_name (h_idx h)) = read_file (file_dirs s) (h_upload h) (chunk_name (h_idx h))"
  shows "files_ok C (s\<lparr>file_dirs := ds\<rparr>)"
proof (rule files_okI)
  show "chunk_ok C (file_dirs (s\<lparr>file_dirs := ds\<rparr>)) h" if "h \<in> set (upload_chunks (s\<lparr>file_dirs := ds\<rparr>))" for h
    using files_okD(5) [OF ok, of h] eq [of h] that by (simp add: chunk_ok_def piece_def)
  show "upload_ok C (s\<lparr>file_dirs := ds\<rparr>) u" if "u \<in> set (uploads (s\<lparr>file_dirs := ds\<rparr>))" for u
  proof -
    have "complete_on_disk C ds (upload_chunks s) u bs" if "complete_on_disk C (file_dirs s) (upload_chunks s) u bs" for bs
    proof -
      have "piece C ds (f_id u) (int k) (bs ! k)" if "k < length bs" for k
      proof -
        from \<open>complete_on_disk C (file_dirs s) (upload_chunks s) u bs\<close> that obtain h where
          p: "piece C (file_dirs s) (f_id u) (int k) (bs ! k)" and h: "h \<in> set (upload_chunks s)" "h_key h = (f_id u, int k)"
          by (force simp: complete_on_disk_def)
        from eq [OF h(1)] h(2) p show ?thesis by (simp add: piece_def h_key_def)
      qed
      with that show ?thesis by (simp add: complete_on_disk_def)
    qed
    with files_okD(6) [OF ok, of u] that show ?thesis
      by (auto simp: upload_ok_def chunk_total_def chunks_of_def)
  qed
qed (use files_okD [OF ok] in \<open>simp_all add: reserved_total_def\<close>)

text \<open>Storing a chunk that has no row yet touches no file that a row names.\<close>

lemma store_chunk_read:
  assumes "store_chunk env d i enc ds = (ok, ds')" "0 \<le> j" "(e, j) \<noteq> (d, i)" "0 \<le> i"
  shows "read_file ds' e (chunk_name j) = read_file ds e (chunk_name j)"
  using assms by (auto simp: store_chunk_def Let_def disk_simps chunk_name_inject
      dest: temp_name_not_chunk [of _ env] split: if_splits)

lemma store_chunk_done:
  "store_chunk env d i enc ds = (True, ds') \<Longrightarrow> read_file ds' d (chunk_name i) = Some enc"
  by (auto simp: store_chunk_def Let_def disk_simps split: if_splits)

lemma no_row: "get_row h_key (d, i) hs = None \<Longrightarrow> h \<in> set hs \<Longrightarrow> (h_upload h, h_idx h) \<noteq> (d, i)"
  by (auto simp: get_row_None_iff h_key_def image_iff)

lemma store_chunk_ok:
  assumes "files_ok C s" "get_row h_key (d, i) (upload_chunks s) = None" "0 \<le> i"
    "store_chunk env d i enc (file_dirs s) = (done, ds)"
  shows "files_ok C (s\<lparr>file_dirs := ds\<rparr>)"
proof (rule files_ok_disk [OF assms(1)])
  fix h assume h: "h \<in> set (upload_chunks s)"
  then have "0 \<le> h_idx h" using files_okD(5) [OF assms(1)] by (auto simp: chunk_ok_def)
  then show "read_file ds (h_upload h) (chunk_name (h_idx h)) = read_file (file_dirs s) (h_upload h) (chunk_name (h_idx h))"
    by (rule store_chunk_read [OF assms(4) _ no_row [OF assms(2) h] assms(3)])
qed

subsection \<open>Changes of the rows\<close>

lemma chunk_total_append:
  "upload_chunks s' = upload_chunks s @ [h] \<Longrightarrow>
    chunk_total s' d = chunk_total s d + (if h_upload h = d then h_size h else 0)"
  by (simp add: chunk_total_def chunks_of_def)

lemma chunk_total_delete:
  assumes "\<forall>h \<in> set hs. 0 \<le> h_size h"
  shows "sum_list (map h_size (filter p (delete_rows q hs))) \<le> sum_list (map h_size (filter p hs))"
  using assms by (induction hs) (auto simp: delete_rows_def)

lemma chunk_total_restrict:
  "(\<And>h. h \<in> set (upload_chunks s) \<Longrightarrow> q h \<Longrightarrow> h_upload h \<noteq> d) \<Longrightarrow> upload_chunks s' = delete_rows q (upload_chunks s) \<Longrightarrow>
    chunk_total s' d = chunk_total s d"
proof -
  assume a: "\<And>h. h \<in> set (upload_chunks s) \<Longrightarrow> q h \<Longrightarrow> h_upload h \<noteq> d"
    and s': "upload_chunks s' = delete_rows q (upload_chunks s)"
  have "filter (\<lambda>h. h_upload h = d) (delete_rows q hs) = filter (\<lambda>h. h_upload h = d) hs"
    if "\<And>h. h \<in> set hs \<Longrightarrow> q h \<Longrightarrow> h_upload h \<noteq> d" for hs
    using that by (induction hs) (auto simp: delete_rows_def)
  from this [OF a] s' show ?thesis by (simp add: chunk_total_def chunks_of_def)
qed

lemma complete_mono:
  "complete_on_disk C ds hs u bs \<Longrightarrow> (\<And>k. (f_id u, k) \<in> h_key ` set hs \<Longrightarrow> (f_id u, k) \<in> h_key ` set hs') \<Longrightarrow>
    complete_on_disk C ds hs' u bs"
  by (auto simp: complete_on_disk_def)

lemma insert_row_files_ok:
  assumes ok: "files_ok C s" and u: "u \<in> set (uploads s)" "f_id u = h_upload h" and i: "h_idx h < f_chunks u"
    and row: "chunk_ok C (file_dirs s) h" and fits: "chunk_total s (f_id u) + h_size h \<le> f_size u"
    and ins: "insert_row h_key h (upload_chunks s) = Some hs"
  shows "files_ok C (s\<lparr>upload_chunks := hs\<rparr>)"
proof (rule files_okI)
  note hs = insert_row_SomeD [OF ins]
  show "unique_on h_key (upload_chunks (s\<lparr>upload_chunks := hs\<rparr>))"
    using unique_on_insert [OF ins files_okD(3) [OF ok]] by simp
  show "upload_ok C (s\<lparr>upload_chunks := hs\<rparr>) v" if "v \<in> set (uploads (s\<lparr>upload_chunks := hs\<rparr>))" for v
  proof -
    from that have v: "v \<in> set (uploads s)" by simp
    note vok = files_okD(6) [OF ok v]
    have same: "f_id v = f_id u \<Longrightarrow> v = u" by (rule unique_on_eqD [OF files_okD(1) [OF ok] v u(1)])
    have "chunk_total (s\<lparr>upload_chunks := hs\<rparr>) (f_id v) = chunk_total s (f_id v) + (if h_upload h = f_id v then h_size h else 0)"
      by (rule chunk_total_append) (simp add: hs)
    then have "chunk_total (s\<lparr>upload_chunks := hs\<rparr>) (f_id v) \<le> f_size v"
      using vok fits same u(2) by (auto simp: upload_ok_def)
    moreover have "\<forall>x \<in> set hs. h_upload x = f_id v \<longrightarrow> h_idx x < f_chunks v"
      using vok hs i u(2) same by (auto simp: upload_ok_def)
    moreover have "complete_on_disk C (file_dirs s) hs v bs" if "complete_on_disk C (file_dirs s) (upload_chunks s) v bs" for bs
      using that by (rule complete_mono) (use hs in auto)
    ultimately show ?thesis using vok by (auto simp: upload_ok_def)
  qed
  have "h_upload h \<in> f_id ` set (uploads s)" using u(1) unfolding u(2) [symmetric] by (rule imageI)
  with hs files_okD(4) [OF ok]
  show "h_upload ` set (upload_chunks (s\<lparr>upload_chunks := hs\<rparr>)) \<subseteq> f_id ` set (uploads (s\<lparr>upload_chunks := hs\<rparr>))"
    by simp
qed (use files_okD [OF ok] row insert_row_SomeD [OF ins] in \<open>auto simp: reserved_total_def\<close>)

lemma delete_row_files_ok:
  assumes ok: "files_ok C s" and u: "u \<in> set (uploads s)" "f_state u = ''uploading''"
  shows "files_ok C (s\<lparr>upload_chunks := delete_rows (\<lambda>h. h_key h = (f_id u, i)) (upload_chunks s)\<rparr>)"
    (is "files_ok C (s\<lparr>upload_chunks := ?hs\<rparr>)")
proof (rule files_okI)
  have sub: "set ?hs \<subseteq> set (upload_chunks s)" by (auto simp: set_delete_rows)
  show "unique_on h_key (upload_chunks (s\<lparr>upload_chunks := ?hs\<rparr>))"
    using files_okD(3) [OF ok] by (simp add: unique_on_delete)
  show "upload_ok C (s\<lparr>upload_chunks := ?hs\<rparr>) v" if "v \<in> set (uploads (s\<lparr>upload_chunks := ?hs\<rparr>))" for v
  proof -
    from that have v: "v \<in> set (uploads s)" by simp
    note vok = files_okD(6) [OF ok v]
    have "chunk_total (s\<lparr>upload_chunks := ?hs\<rparr>) (f_id v) \<le> chunk_total s (f_id v)"
      using files_okD(5) [OF ok] by (auto simp: chunk_total_def chunks_of_def chunk_ok_def intro!: chunk_total_delete)
        (metis less_imp_le)
    moreover have "complete_on_disk C (file_dirs s) ?hs v bs"
      if r: "f_state v = ''ready''" and c: "complete_on_disk C (file_dirs s) (upload_chunks s) v bs" for bs
    proof (rule complete_mono [OF c])
      have "f_id v \<noteq> f_id u" using unique_on_eqD [OF files_okD(1) [OF ok] v u(1)] r u(2) by auto
      then show "(f_id v, k) \<in> h_key ` set (upload_chunks s) \<Longrightarrow> (f_id v, k) \<in> h_key ` set ?hs" for k
        by (auto simp: set_delete_rows)
    qed
    ultimately show ?thesis using vok sub unfolding upload_ok_def by (simp only: db.simps mod_db.simps call_db.simps file_db.simps) fastforce
  qed
qed (use files_okD [OF ok] in \<open>auto simp: reserved_total_def set_delete_rows\<close>)

text \<open>Changing uploads one by one, keeping what identifies and measures them.\<close>

lemma update_uploads_ok:
  assumes ok: "files_ok C s"
    and f: "\<And>u. f_id (f u) = f_id u \<and> f_device (f u) = f_device u \<and> f_operation (f u) = f_operation u"
    and up: "\<And>u. u \<in> set (uploads s) \<Longrightarrow> p u \<Longrightarrow> upload_ok C s (f u) \<and> f_reserved (f u) \<le> f_reserved u"
  shows "files_ok C (s\<lparr>uploads := update_rows p f (uploads s)\<rparr>)"
proof (rule files_okI)
  let ?s = "s\<lparr>uploads := update_rows p f (uploads s)\<rparr>"
  have same: "upload_ok C ?s u = upload_ok C s u" for u
    by (simp add: upload_ok_def chunk_total_def chunks_of_def)
  show "upload_ok C ?s u" if "u \<in> set (uploads ?s)" for u
    using that files_okD(6) [OF ok] up unfolding same by (auto simp: set_update_rows)
  have "sum_list (map f_reserved (update_rows p f us)) \<le> sum_list (map f_reserved us)"
    if "\<And>u. u \<in> set us \<Longrightarrow> p u \<Longrightarrow> f_reserved (f u) \<le> f_reserved u" for us
    using that by (induction us) (auto simp: update_rows_def add_mono)
  then have total: "sum_list (map f_reserved (update_rows p f (uploads s))) \<le> sum_list (map f_reserved (uploads s))"
    using up by blast
  have "map f_id (update_rows p f (uploads s)) = map f_id (uploads s)" using f by (intro map_update_rows) simp
  from arg_cong [OF this, of set] have ids: "f_id ` set (update_rows p f (uploads s)) = f_id ` set (uploads s)" by simp
  from total files_okD(7) [OF ok] show "reserved_total ?s \<le> pol_max_storage_bytes (policy C)"
    by (simp add: reserved_total_def)
  show "unique_on f_key2 (uploads ?s)" using files_okD(2) [OF ok] f by (simp add: unique_on_update f_key2_def)
  show "unique_on f_id (uploads ?s)" using files_okD(1) [OF ok] f by (simp add: unique_on_update)
  show "h_upload ` set (upload_chunks ?s) \<subseteq> f_id ` set (uploads ?s)"
    using files_okD(4) [OF ok] by (simp add: ids)
qed (use files_okD [OF ok] in simp_all)

lemma reserved_nonneg: "files_ok C s \<Longrightarrow> u \<in> set (uploads s) \<Longrightarrow> 0 \<le> f_reserved u"
  using files_okD(6) [of C s u] by (auto simp: upload_ok_def full_reserve_def)

lemma sum_delete_le:
  "(\<And>u. u \<in> set us \<Longrightarrow> (0::int) \<le> f u) \<Longrightarrow> sum_list (map f (delete_rows p us)) \<le> sum_list (map f us)"
  by (induction us) (auto simp: delete_rows_def add_increasing)

lemma delete_upload_ok:
  assumes ok: "files_ok C s"
  shows "files_ok C (delete_upload d s)"
proof (rule files_okI)
  let ?s = "delete_upload d s"
  show "unique_on f_id (uploads ?s)" "unique_on f_key2 (uploads ?s)" "unique_on h_key (upload_chunks ?s)"
    using files_okD(1-3) [OF ok] by (simp_all add: delete_upload_def unique_on_delete)
  show "h_upload ` set (upload_chunks ?s) \<subseteq> f_id ` set (uploads ?s)"
    using files_okD(4) [OF ok] by (auto simp: delete_upload_def set_delete_rows)
  show "chunk_ok C (file_dirs ?s) h" if "h \<in> set (upload_chunks ?s)" for h
    using that files_okD(5) [OF ok] by (simp add: delete_upload_def set_delete_rows)
  show "upload_ok C ?s u" if "u \<in> set (uploads ?s)" for u
  proof -
    from that have u: "u \<in> set (uploads s)" "f_id u \<noteq> d" by (auto simp: delete_upload_def set_delete_rows)
    have "chunk_total ?s (f_id u) = chunk_total s (f_id u)"
      by (rule chunk_total_restrict [of s "\<lambda>h. h_upload h = d"]) (use u in \<open>auto simp: delete_upload_def\<close>)
    moreover have "complete_on_disk C (file_dirs s) (upload_chunks ?s) u bs"
      if "complete_on_disk C (file_dirs s) (upload_chunks s) u bs" for bs
      using that by (rule complete_mono) (use u in \<open>auto simp: delete_upload_def set_delete_rows h_key_def\<close>)
    ultimately show ?thesis using files_okD(6) [OF ok u(1)]
      by (auto simp: upload_ok_def delete_upload_def set_delete_rows)
  qed
  have "sum_list (map f_reserved (uploads ?s)) \<le> sum_list (map f_reserved (uploads s))"
    unfolding delete_upload_def by (simp add: sum_delete_le reserved_nonneg [OF ok])
  with files_okD(7) [OF ok] show "reserved_total ?s \<le> pol_max_storage_bytes (policy C)"
    by (simp add: reserved_total_def)
qed

lemma delete_upload_gone: "h \<in> set (upload_chunks (delete_upload d s)) \<Longrightarrow> h_upload h \<noteq> d"
  by (simp add: delete_upload_def set_delete_rows)

lemma insert_upload_ok:
  assumes ok: "files_ok C s" and new: "f_state u = ''uploading''" "f_reserved u = full_reserve u"
      "0 < f_size u" "0 < f_chunks u" "f_chunks u \<le> 65536" "f_seq u = 0"
    and res: "reserve_upload (pol_max_storage_bytes (policy C)) u s = Inr s'"
  shows "files_ok C s'" "uploads s' = uploads s @ [u]" "s' = s\<lparr>uploads := uploads s @ [u]\<rparr>"
    "f_id u \<notin> f_id ` set (uploads s)"
proof -
  from res obtain us us2 where us: "insert_row f_id u (uploads s) = Some us" "insert_row f_key2 u (uploads s) = Some us2"
    and s': "s' = s\<lparr>uploads := us\<rparr>" and fits: "reserved_total s + f_reserved u \<le> pol_max_storage_bytes (policy C)"
    by (auto simp: reserve_upload_def split: if_splits option.splits)
  note i = insert_row_SomeD [OF us(1)] insert_row_SomeD [OF us(2)]
  show s'2: "s' = s\<lparr>uploads := uploads s @ [u]\<rparr>" "uploads s' = uploads s @ [u]" using s' i by simp_all
  show fresh: "f_id u \<notin> f_id ` set (uploads s)" using i by simp
  show "files_ok C s'"
  proof (rule files_okI)
    show "upload_ok C s' v" if "v \<in> set (uploads s')" for v
    proof (cases "v = u")
      case True
      have "h_upload h \<noteq> f_id u" if "h \<in> set (upload_chunks s)" for h
        using files_okD(4) [OF ok] fresh imageI [OF that, of h_upload] by (metis subsetD)
      then have "chunks_of s' (f_id u) = []" "\<forall>h \<in> set (upload_chunks s'). h_upload h = f_id u \<longrightarrow> h_idx h < f_chunks u"
        by (auto simp: chunks_of_def s'2(1) filter_empty_conv)
      with new True show ?thesis by (simp add: upload_ok_def chunk_total_Nil)
    next
      case False
      with that s'2 files_okD(6) [OF ok, of v] show ?thesis
        by (auto simp: upload_ok_def chunk_total_def chunks_of_def)
    qed
    show "unique_on f_key2 (uploads s')" using files_okD(2) [OF ok] i by (simp add: s'2 unique_on_append1)
    show "unique_on f_id (uploads s')" using files_okD(1) [OF ok] i by (simp add: s'2 unique_on_append1)
  qed (use files_okD [OF ok] fits in \<open>auto simp: s'2(1) reserved_total_def\<close>)
qed

subsection \<open>Creating\<close>

text \<open>The configured limits are 64-bit integers.\<close>

definition file_limits :: "policy_cfg \<Rightarrow> bool" where
  "file_limits p \<longleftrightarrow> pol_max_file_bytes p < 2 ^ 63 \<and> pol_max_storage_bytes p < 2 ^ 63"

text \<open>The overflow check is exact: the wrapped sum is smaller than the size just when the sum overflows.\<close>

lemma reservation_exact:
  assumes "0 < n" "n < 2 ^ 63" "0 < k" "k \<le> 65536"
  shows "reservation n k < n \<longleftrightarrow> \<not> n + k * 64 < 2 ^ 63"
    "n + k * 64 < 2 ^ 63 \<Longrightarrow> reservation n k = n + k * 64"
proof -
  have "k * 64 < 2 ^ 63" using assms by simp
  then have inner: "wrap64 (k * 64) = k * 64" using assms by (simp add: wrap64_def)
  show in_range: "n + k * 64 < 2 ^ 63 \<Longrightarrow> reservation n k = n + k * 64"
    using assms by (simp add: reservation_def inner) (simp add: wrap64_def)
  have "reservation n k < n" if "\<not> n + k * 64 < 2 ^ 63"
  proof -
    let ?m = "n + k * 64 + 2 ^ 63 - 2 ^ 64"
    have "?m mod 2 ^ 64 = ?m" by (rule mod_pos_pos_trivial) (use assms that in simp_all)
    then have "(n + k * 64 + 2 ^ 63) mod 2 ^ 64 = ?m" by (simp only: minus_mod_self2)
    then have "reservation n k = ?m - 2 ^ 63" unfolding reservation_def inner unfolding wrap64_def by (rule arg_cong)
    with assms show ?thesis by simp
  qed
  moreover have "\<not> reservation n k < n" if "n + k * 64 < 2 ^ 63" using in_range [OF that] assms by simp
  ultimately show "reservation n k < n \<longleftrightarrow> \<not> n + k * 64 < 2 ^ 63" by blast
qed

lemma metadata_bounds:
  assumes "upload_metadata_ok p inp" "file_limits p"
  shows "0 < ui_size inp" "ui_size inp < 2 ^ 63" "0 < ui_chunks inp" "ui_chunks inp \<le> 65536"
  using assms by (auto simp: upload_metadata_ok_def file_limits_def)

lemma create_new_ok:
  assumes ok: "files_ok C s" and md: "upload_metadata_ok (policy C) inp" "file_limits (policy C)"
    and run: "create_new C env s who chat mode inp session = (r, es, s')"
  shows "files_ok C s'"
proof (cases "reservation (ui_size inp) (ui_chunks inp) < ui_size inp")
  case True
  with run ok show ?thesis by (simp add: create_new_def)
next
  case False
  note b = metadata_bounds [OF md]
  have res: "reservation (ui_size inp) (ui_chunks inp) = ui_size inp + ui_chunks inp * 64"
    using reservation_exact [OF b] False by blast
  define u where "u = new_upload C env who chat mode inp session (reservation (ui_size inp) (ui_chunks inp))"
  have new: "f_state u = ''uploading''" "f_reserved u = full_reserve u" "0 < f_size u" "0 < f_chunks u" "f_chunks u \<le> 65536" "f_seq u = 0"
    using b res by (simp_all add: u_def new_upload_def full_reserve_def)
  show ?thesis
  proof (cases "reserve_upload (pol_max_storage_bytes (policy C)) u s")
    case (Inl e)
    with run False ok show ?thesis by (cases e) (simp add: create_new_def Let_def u_def split: if_splits)
  next
    case (Inr s1)
    note ok1 = insert_upload_ok(1) [OF ok new Inr]
    have "files_ok C (s1\<lparr>file_dirs := make_dir (f_id u) (file_dirs s1)\<rparr>)"
      by (rule files_ok_disk [OF ok1]) simp
    with run False Inr ok ok1 delete_upload_ok [OF ok1] show ?thesis
      by (simp add: create_new_def Let_def u_def split: if_splits)
  qed
qed

lemma create_again_same: "create_again C env s chat mode inp session d = (r, es, s') \<Longrightarrow> s' = s \<and> es = []"
  by (auto simp: create_again_def split: option.splits if_splits sum.splits)

lemma create_cases:
  assumes "create C env s b who chat = (r, es, s')"
  obtains (Same) "s' = s" "es = []"
  | (New) inp mode session where "b = Body inp" "upload_metadata_ok (policy C) inp"
      "upload_session C who chat mode inp = Inr session"
      "create_new C env s who chat mode inp session = (r, es, s')"
      "get_row f_key2 (device_id who, ui_operation inp) (uploads s) = None"
proof (cases "Decode b")
  case (Inl m)
  with assms show ?thesis by (intro Same) (auto simp: create_def)
next
  case (Inr inp)
  then have b: "b = Body inp" by (cases b) simp_all
  show ?thesis
  proof (cases "(\<exists>mode session. upload_session C who chat mode inp = Inr session
      \<and> upload_metadata_ok (policy C) inp
      \<and> create_new C env s who chat mode inp session = (r, es, s'))
      \<and> get_row f_key2 (device_id who, ui_operation inp) (uploads s) = None")
    case True
    with assms b New show ?thesis by auto
  next
    case False
    then have "s' = s \<and> es = []"
      using assms b by (auto simp: create_def dest: create_again_same split: if_splits option.splits sum.splits)
    then show ?thesis using Same by blast
  qed
qed

lemma create_ok:
  assumes "files_ok C s" "file_limits (policy C)" "create C env s b who chat = (r, es, s')"
  shows "files_ok C s'"
  using assms(3)
proof (cases rule: create_cases)
  case (New inp mode session)
  from create_new_ok [OF assms(1) New(2) assms(2) New(4)] show ?thesis .
qed (use assms(1) in simp)

subsection \<open>Chunks\<close>

lemma owner_Inr: "owner f1 f2 s who d = Inr u \<Longrightarrow> u \<in> set (uploads s) \<and> f_id u = d \<and> f_owner u = user_id who \<and> f_device u = device_id who"
  by (auto simp: owner_def get_upload_def split: option.splits if_splits dest: get_row_SomeD)

lemma insert_chunk_ok:
  assumes ok: "files_ok C s" and opens: "gcm_opens (prim C) (eng_aead (eng C))"
    and u: "u \<in> set (uploads s)" and i: "0 \<le> i" "i < f_chunks u"
    and data: "ci_data inp \<noteq> []" "digest C (ci_data inp) = ci_checksum inp"
      "chunk_total s (f_id u) + int (length (ci_data inp)) \<le> f_size u"
    and none: "get_row h_key (f_id u, i) (upload_chunks s) = None"
    and run: "insert_chunk C env s u i inp = (r, es, s')"
  shows "files_ok C s'"
proof -
  define enc where "enc = Seal (prim C) (eng C) (nonce env) (ci_data inp) (fileAAD (f_id u) i)"
  obtain stored ds where st: "store_chunk (shift_env 7 env) (f_id u) i enc (file_dirs s) = (stored, ds)"
    by (cases "store_chunk (shift_env 7 env) (f_id u) i enc (file_dirs s)")
  let ?s1 = "s\<lparr>file_dirs := ds\<rparr>"
  have ok1: "files_ok C ?s1" by (rule store_chunk_ok [OF ok none i(1) st])
  have rm: "files_ok C (?s1\<lparr>file_dirs := remove_file (f_id u) (chunk_name i) ds\<rparr>)"
  proof (rule files_ok_disk [OF ok1])
    fix h assume "h \<in> set (upload_chunks ?s1)"
    then have h: "h \<in> set (upload_chunks s)" by simp
    then have "0 \<le> h_idx h" using files_okD(5) [OF ok] by (auto simp: chunk_ok_def)
    with no_row [OF none h] i(1) show "read_file (remove_file (f_id u) (chunk_name i) ds) (h_upload h) (chunk_name (h_idx h))
        = read_file (file_dirs ?s1) (h_upload h) (chunk_name (h_idx h))"
      by (auto simp: read_remove_file chunk_name_inject)
  qed
  define h where "h = \<lparr>h_upload = f_id u, h_idx = i, h_size = int (length (ci_data inp)), h_checksum = ci_checksum inp\<rparr>"
  have row: "files_ok C (?s1\<lparr>upload_chunks := hs\<rparr>)" if "stored" "insert_row h_key h (upload_chunks ?s1) = Some hs" for hs
  proof (rule insert_row_files_ok [OF ok1 _ _ _ _ _ that(2)])
    have "piece C ds (f_id u) i (ci_data inp)"
      using store_chunk_done [of "shift_env 7 env" "f_id u" i enc "file_dirs s" ds] st that(1) Open_Seal [OF opens]
      by (simp add: piece_def enc_def)
    then show "chunk_ok C (file_dirs ?s1) h" using i(1) data by (auto simp: chunk_ok_def h_def)
  qed (use u i data in \<open>auto simp: h_def chunk_total_def chunks_of_def\<close>)
  from run ok1 rm row show ?thesis
    by (auto simp: insert_chunk_def Let_def st [unfolded enc_def] h_def split: if_splits option.splits)
qed

lemma add_chunk_ok:
  assumes "files_ok C s" "gcm_opens (prim C) (eng_aead (eng C))" "u \<in> set (uploads s)" "0 \<le> i" "i < f_chunks u"
    "ci_data inp \<noteq> []" "digest C (ci_data inp) = ci_checksum inp"
    "get_row h_key (f_id u, i) (upload_chunks s) = None"
    "add_chunk C aead env s u i inp = (r, es, s')"
  shows "files_ok C s'"
  using assms insert_chunk_ok [OF assms(1-7) _ assms(8)]
  by (auto simp: add_chunk_def split: if_splits option.splits prod.splits)

lemma delete_row_none: "get_row h_key k (delete_rows (\<lambda>h. h_key h = k) hs) = None"
  by (auto simp: get_row_None_iff set_delete_rows)

lemma chunk_ok_step:
  assumes ok: "files_ok C s" and opens: "gcm_opens (prim C) (eng_aead (eng C))"
    and run: "chunk C aead env s inp who d = (r, es, s')"
  shows "files_ok C s'"
proof (cases "owner (flt env 0) (flt env 1) s who d")
  case (Inl e)
  with run ok show ?thesis by (simp add: chunk_def)
next
  case (Inr u)
  note u = owner_Inr [OF Inr, THEN conjunct1]
  define i where "i = fst (ParseInt (ci_index inp))"
  let ?s1 = "s\<lparr>upload_chunks := delete_rows (\<lambda>h. h_key h = (f_id u, i)) (upload_chunks s)\<rparr>"
  show ?thesis
  proof (cases "s' = s")
    case False
    with run Inr have g: "0 \<le> i" "i < f_chunks u" "ci_data inp \<noteq> []" "digest C (ci_data inp) = ci_checksum inp"
        "f_state u = ''uploading''"
      and st: "get_row h_key (f_id u, i) (upload_chunks s) = None \<and> add_chunk C aead env s u i inp = (r, es, s')
        \<or> add_chunk C aead env ?s1 u i inp = (r, es, s')"
      by (auto simp: chunk_def Let_def i_def digest_def split: if_splits option.splits)
    note ok1 = delete_row_files_ok [OF ok u g(5), of i]
    from st show ?thesis
    proof
      assume "get_row h_key (f_id u, i) (upload_chunks s) = None \<and> add_chunk C aead env s u i inp = (r, es, s')"
      then show ?thesis using add_chunk_ok [OF ok opens u g(1-4)] by blast
    next
      assume a: "add_chunk C aead env ?s1 u i inp = (r, es, s')"
      show ?thesis by (rule add_chunk_ok [OF ok1 opens _ g(1-4) _ a]) (use u delete_row_none in simp_all)
    qed
  qed (use ok in simp)
qed

subsection \<open>Completing\<close>

lemma read_chunks_Inr:
  "read_chunks C f ds d i n = Inr b \<Longrightarrow>
    \<exists>bs. length bs = n \<and> b = concat bs \<and> (\<forall>k < n. piece C ds d (int (i + k)) (bs ! k))"
proof (induction n arbitrary: i b)
  case (Suc n)
  from Suc.prems obtain x y where x: "piece C ds d (int i) x" and y: "read_chunks C f ds d (Suc i) n = Inr y"
    and b: "b = x @ y"
    by (auto simp: piece_def split: if_splits option.splits sum.splits)
  from Suc.IH [OF y] obtain bs where bs: "length bs = n" "y = concat bs"
    "\<forall>k < n. piece C ds d (int (Suc i + k)) (bs ! k)" by blast
  have "piece C ds d (int (i + k)) ((x # bs) ! k)" if "k < Suc n" for k
    using that x bs(3) by (cases k) auto
  with bs b show ?case by (intro exI [of _ "x # bs"]) simp
qed simp

lemma piece_unique: "piece C ds d i b \<Longrightarrow> piece C ds d i b' \<Longrightarrow> b = b'"
  by (auto simp: piece_def)

text \<open>As many chunks as declared, with different indices in range: every index has its row.\<close>

lemma rows_cover:
  assumes ok: "files_ok C s" and u: "u \<in> set (uploads s)"
    and n: "int (length (chunks_of s (f_id u))) = f_chunks u" and i: "0 \<le> i" "i < f_chunks u"
  shows "\<exists>h \<in> set (chunks_of s (f_id u)). h_idx h = i"
proof -
  let ?cs = "chunks_of s (f_id u)"
  have cs: "h \<in> set (upload_chunks s) \<and> h_upload h = f_id u" if "h \<in> set ?cs" for h
    using that by (auto simp: chunks_of_def)
  have "distinct ?cs" using files_okD(3) [OF ok] by (simp add: chunks_of_def unique_on_def distinct_map)
  moreover have inj: "inj_on h_idx (set ?cs)"
    using cs unique_on_eqD [OF files_okD(3) [OF ok]] by (auto simp: inj_on_def h_key_def)
  ultimately have "card (h_idx ` set ?cs) = length ?cs" by (simp add: card_image distinct_card)
  moreover have "h_idx ` set ?cs \<subseteq> {0..<f_chunks u}"
    using cs row_upload [OF ok u] by fastforce
  moreover have "card {0..<f_chunks u} = length ?cs" using n by simp
  ultimately have "h_idx ` set ?cs = {0..<f_chunks u}" by (intro card_subset_eq) auto
  with i have "i \<in> h_idx ` set ?cs" by simp
  then show ?thesis by auto
qed

text \<open>Summing the rows in any order.\<close>

lemma sum_rows:
  assumes ok: "files_ok C s" and u: "u \<in> set (uploads s)"
    and n: "int (length (chunks_of s (f_id u))) = f_chunks u"
    and bs: "int (length bs) = f_chunks u"
    and len: "\<And>h. h \<in> set (chunks_of s (f_id u)) \<Longrightarrow> int (length (bs ! nat (h_idx h))) = h_size h"
  shows "chunk_total s (f_id u) = int (length (concat bs))"
proof -
  let ?cs = "chunks_of s (f_id u)"
  have cs: "h \<in> set (upload_chunks s) \<and> h_upload h = f_id u" if "h \<in> set ?cs" for h
    using that by (auto simp: chunks_of_def)
  have dist: "distinct ?cs" using files_okD(3) [OF ok] by (simp add: chunks_of_def unique_on_def distinct_map)
  have idx: "0 \<le> h_idx h \<and> h_idx h < f_chunks u" if "h \<in> set ?cs" for h
    using row_upload [OF ok u] cs [OF that] by blast
  have inj: "inj_on (nat \<circ> h_idx) (set ?cs)"
  proof (rule inj_onI)
    fix g h assume gh: "g \<in> set ?cs" "h \<in> set ?cs" "(nat \<circ> h_idx) g = (nat \<circ> h_idx) h"
    then have "h_idx g = h_idx h" using idx [of g] idx [of h] by (simp add: eq_nat_nat_iff)
    then show "g = h" using cs [OF gh(1)] cs [OF gh(2)] unique_on_eqD [OF files_okD(3) [OF ok]] by (simp add: h_key_def)
  qed
  have img: "(nat \<circ> h_idx) ` set ?cs = {0..<length bs}"
  proof (intro equalityI subsetI)
    fix k assume "k \<in> (nat \<circ> h_idx) ` set ?cs"
    then obtain h where "h \<in> set ?cs" "k = nat (h_idx h)" by auto
    with idx [of h] bs show "k \<in> {0..<length bs}" by (simp add: nat_less_iff)
  next
    fix k assume "k \<in> {0..<length bs}"
    with bs have "0 \<le> int k" "int k < f_chunks u" by auto
    from rows_cover [OF ok u n this] obtain h where "h \<in> set ?cs" "h_idx h = int k" by blast
    then show "k \<in> (nat \<circ> h_idx) ` set ?cs" by (intro image_eqI [of _ _ h]) simp_all
  qed
  have "chunk_total s (f_id u) = (\<Sum>h \<in> set ?cs. h_size h)"
    using dist by (simp add: chunk_total_def sum_list_distinct_conv_sum_set)
  also have "\<dots> = (\<Sum>h \<in> set ?cs. int (length (bs ! (nat \<circ> h_idx) h)))" by (rule sum.cong) (simp_all add: len)
  also have "\<dots> = (\<Sum>k \<in> (nat \<circ> h_idx) ` set ?cs. int (length (bs ! k)))" by (simp add: sum.reindex [OF inj, unfolded o_def] o_def)
  also have "\<dots> = (\<Sum>k = 0..<length bs. int (length (bs ! k)))" by (simp only: img)
  also have "\<dots> = sum_list (map (\<lambda>b. int (length b)) bs)" by (simp add: sum_list_sum_nth)
  also have "\<dots> = int (length (concat bs))" by (induction bs) simp_all
  finally show ?thesis .
qed

lemma complete_cases:
  assumes "complete C env s who d = (r, es, s')"
  obtains (Same) "s' = s" "es = []" "is_reply r \<longrightarrow> (\<exists>u \<in> set (uploads s). f_id u = d \<and> f_state u = ''ready'')"
  | (Done) u b where "u \<in> set (uploads s)" "f_id u = d" "f_expires u \<ge> now env" "f_state u \<noteq> ''ready''"
      "int (length (chunks_of s d)) = f_chunks u"
      "chunk_total s d = f_size u" "read_chunks C (shift_faults 4 (flt env)) (file_dirs s) d 0 (nat (f_chunks u)) = Inr b"
      "digest C b = f_checksum u" "s' = s\<lparr>uploads := set_ready d (uploads s)\<rparr>" "r = Reply 200 (d, ''ready'')"
proof (cases "owner (flt env 0) (flt env 1) s who d")
  case (Inl e)
  with assms show ?thesis by (intro Same) (auto simp: complete_def)
next
  case (Inr u)
  note u = owner_Inr [OF Inr]
  show ?thesis
  proof (cases "f_state u = ''ready''")
    case True
    with assms Inr u show ?thesis by (intro Same) (auto simp: complete_def)
  next
    case False
    with assms Inr u have "(s' = s \<and> es = [] \<and> \<not> is_reply r) \<or> (\<exists>b. f_expires u \<ge> now env
      \<and> int (length (chunks_of s d)) = f_chunks u
      \<and> chunk_total s d = f_size u \<and> read_chunks C (shift_faults 4 (flt env)) (file_dirs s) d 0 (nat (f_chunks u)) = Inr b
      \<and> digest C b = f_checksum u \<and> s' = s\<lparr>uploads := set_ready d (uploads s)\<rparr> \<and> r = Reply 200 (d, ''ready''))"
      by (auto simp: complete_def digest_def split: if_splits sum.splits)
    with u False Same Done show ?thesis by blast
  qed
qed

lemma complete_ok:
  assumes ok: "files_ok C s" and run: "complete C env s who d = (r, es, s')"
  shows "files_ok C s'"
  using run
proof (cases rule: complete_cases)
  case (Done u b)
  note u = Done(1) and d = Done(2)
  from read_chunks_Inr [OF Done(7)] obtain bs where
    len: "length bs = nat (f_chunks u)" and b: "b = concat bs"
    and p: "\<forall>k < nat (f_chunks u). piece C (file_dirs s) d (int k) (bs ! k)" by auto
  have pos: "0 < f_chunks u" using files_okD(6) [OF ok u] by (simp add: upload_ok_def)
  then have ilen: "int (length bs) = f_chunks u" using len by simp
  have n: "int (length (chunks_of s (f_id u))) = f_chunks u" using Done(5) d by simp
  have size: "int (length (bs ! nat (h_idx h))) = h_size h" if "h \<in> set (chunks_of s (f_id u))" for h
  proof -
    from that d have h: "h \<in> set (upload_chunks s)" "h_upload h = d" by (auto simp: chunks_of_def)
    with row_upload [OF ok u] d have i: "0 \<le> h_idx h" "h_idx h < f_chunks u" by simp_all
    then have "piece C (file_dirs s) d (h_idx h) (bs ! nat (h_idx h))" using p by (auto simp: nat_less_iff dest!: spec [of _ "nat (h_idx h)"])
    moreover from this files_okD(5) [OF ok h(1)] h(2) obtain b' where
      "piece C (file_dirs s) d (h_idx h) b'" "int (length b') = h_size h" by (auto simp: chunk_ok_def piece_def)
    ultimately show ?thesis using piece_unique by blast
  qed
  have total: "int (length (concat bs)) = f_size u"
    using sum_rows [OF ok u n ilen size] Done(6) d by simp
  have whole: "complete_on_disk C (file_dirs s) (upload_chunks s) u bs"
  proof -
    have "(f_id u, int k) \<in> h_key ` set (upload_chunks s)" if "k < length bs" for k
      using rows_cover [OF ok u n, of "int k"] that ilen by (force simp: chunks_of_def h_key_def)
    with p len ilen d total Done(8) b show ?thesis by (simp add: complete_on_disk_def)
  qed
  show ?thesis unfolding Done(9) set_ready_def
  proof (rule update_uploads_ok [OF ok])
    fix v assume v: "v \<in> set (uploads s)" "f_id v = d"
    then have "v = u" using unique_on_eqD [OF files_okD(1) [OF ok] _ u] d by simp
    with files_okD(6) [OF ok u] whole show "upload_ok C s (v\<lparr>f_state := ''ready''\<rparr>)
        \<and> f_reserved (v\<lparr>f_state := ''ready''\<rparr>) \<le> f_reserved v"
      by (auto simp: upload_ok_def full_reserve_def complete_on_disk_def)
  qed simp
qed (use ok in simp)

subsection \<open>The hooks\<close>

lemma publish_all_ok:
  assumes "files_ok C s" "0 \<le> seq" "publish_all f n t who chat seq mid as s = Inr s'"
  shows "files_ok C s'"
  using assms(1,3)
proof (induction as arbitrary: n s)
  case (Cons a as)
  let ?f = "\<lambda>u. u\<lparr>f_seq := if f_seq u = 0 then seq else f_seq u\<rparr>"
  let ?s = "s\<lparr>uploads := update_rows (publishable who chat t a) ?f (uploads s)\<rparr>"
  have "files_ok C ?s"
    by (rule update_uploads_ok [OF Cons.prems(1)])
      (use files_okD(6) [OF Cons.prems(1)] assms(2) in \<open>auto simp: upload_ok_def full_reserve_def complete_on_disk_def\<close>)
  then have ok: "files_ok C (?s\<lparr>upload_messages := insert_ignore id (a, mid) (upload_messages s)\<rparr>)"
    using files_ok_cong [of "?s\<lparr>upload_messages := insert_ignore id (a, mid) (upload_messages s)\<rparr>" ?s C] by simp
  from Cons.prems(2) have "publish_all f (n + 3) t who chat seq mid as
      (?s\<lparr>upload_messages := insert_ignore id (a, mid) (upload_messages s)\<rparr>) = Inr s'"
    by (auto split: if_splits)
  from Cons.IH [OF ok this] show ?case .
qed simp

lemma files_tx_ok: "files_ok C s \<Longrightarrow> 0 \<le> msg_seq m \<Longrightarrow> files_tx_hook env s who chat m = Inr s' \<Longrightarrow> files_ok C s'"
  unfolding files_tx_hook_def by (rule publish_all_ok)

lemma files_delete_ok:
  assumes ok: "files_ok C s" and run: "files_delete_hook env s mid = Inr s'"
  shows "files_ok C s'"
proof -
  from run have s': "s' = s\<lparr>uploads := update_rows (released s mid)
             (\<lambda>u. u\<lparr>f_state := ''deleted'', f_reserved := 0, f_key := []\<rparr>) (uploads s)\<rparr>"
    by (auto simp: files_delete_hook_def split: if_splits)
  show ?thesis unfolding s'
    by (rule update_uploads_ok [OF ok])
      (use files_okD(6) [OF ok] reserved_nonneg [OF ok] in \<open>auto simp: upload_ok_def\<close>)
qed

subsection \<open>The cleanup\<close>

lemma remove_all_ok:
  assumes "files_ok C s" "\<And>h. h \<in> set (upload_chunks s) \<Longrightarrow> h_upload h \<noteq> d"
  shows "files_ok C (s\<lparr>file_dirs := remove_all d (file_dirs s)\<rparr>)"
  by (rule files_ok_disk [OF assms(1)]) (use assms(2) in \<open>auto simp: read_remove_all\<close>)

lemma drop_uploads_ok: "files_ok C s \<Longrightarrow> drop_uploads f n ds s = (ok, s') \<Longrightarrow> files_ok C s'"
proof (induction f n ds s rule: drop_uploads.induct)
  case (2 f n d ds s)
  note del = delete_upload_ok [OF "2.prems"(1), of d]
  have rm: "files_ok C ((delete_upload d s)\<lparr>file_dirs := remove_all d (file_dirs (delete_upload d s))\<rparr>)"
    by (rule remove_all_ok [OF del delete_upload_gone])
  from "2.prems" show ?case
    by (cases "get_row f_id d (uploads s)") (auto simp: Let_def intro: "2.IH" rm del split: if_splits)
qed simp

text \<open>What the sweeps may remove: files that no row names.\<close>

definition unnamed :: "chunk_row list \<Rightarrow> ident \<Rightarrow> string \<Rightarrow> bool" where
  "unnamed hs d name \<longleftrightarrow> (\<forall>h \<in> set hs. h_upload h = d \<longrightarrow> chunk_name (h_idx h) \<noteq> name)"

definition rows_in_range :: "chunk_row list \<Rightarrow> bool" where
  "rows_in_range hs \<longleftrightarrow> (\<forall>h \<in> set hs. 0 \<le> h_idx h \<and> h_idx h < 2 ^ 63)"

lemma temp_unnamed: "rows_in_range hs \<Longrightarrow> is_temp name \<Longrightarrow> unnamed hs d name"
  by (auto simp: rows_in_range_def unnamed_def chunk_name_not_temp)

lemma orphan_unnamed:
  assumes "rows_in_range hs" "chunk_stem name = Some stem" "get_row h_key (d, fst (ParseInt stem)) hs = None"
  shows "unnamed hs d name"
  unfolding unnamed_def
proof (intro ballI impI notI)
  fix h assume h: "h \<in> set hs" "h_upload h = d" "chunk_name (h_idx h) = name"
  then have "stem = dec_int (h_idx h)" using assms(2) chunk_stem_name [of "h_idx h"] by simp
  with h assms(1) have "fst (ParseInt stem) = h_idx h" by (auto simp: rows_in_range_def ParseInt_dec)
  with no_row [OF assms(3) h(1)] h(2) show False by simp
qed

definition keeps_named :: "chunk_row list \<Rightarrow> dirs \<Rightarrow> dirs \<Rightarrow> bool" where
  "keeps_named hs ds ds' \<longleftrightarrow> (\<forall>h \<in> set hs. read_file ds' (h_upload h) (chunk_name (h_idx h)) = read_file ds (h_upload h) (chunk_name (h_idx h)))"

lemma keeps_named_refl: "keeps_named hs ds ds"
  by (simp add: keeps_named_def)

lemma keeps_named_trans: "keeps_named hs ds ds' \<Longrightarrow> keeps_named hs ds' ds'' \<Longrightarrow> keeps_named hs ds ds''"
  by (simp add: keeps_named_def)

lemma keeps_named_remove: "unnamed hs d name \<Longrightarrow> keeps_named hs ds (remove_file d name ds)"
  by (auto simp: keeps_named_def unnamed_def read_remove_file)

lemma sweep_files_keeps:
  "rows_in_range hs \<Longrightarrow> sweep_files f n hs d names ds = (ok, ds') \<Longrightarrow> keeps_named hs ds ds'"
proof (induction f n hs d names ds rule: sweep_files.induct)
  case (2 f n hs d name names ds)
  show ?case
  proof (cases "is_temp name")
    case True
    note k = keeps_named_remove [OF temp_unnamed [OF "2.prems"(1) True], where ds = ds]
    show ?thesis
    proof (cases "f n")
      case False
      with True "2.prems" have "sweep_files f (n + 2) hs d names (remove_file d name ds) = (ok, ds')" by simp
      from keeps_named_trans [OF k "2.IH"(1) [OF True False "2.prems"(1) this]] show ?thesis .
    qed (use True "2.prems" keeps_named_refl in simp)
  next
    case temp: False
    show ?thesis
    proof (cases "chunk_stem name")
      case None
      with temp "2.prems" "2.IH"(2) [OF temp None] show ?thesis by simp
    next
      case (Some stem)
      have k: "keeps_named hs ds (remove_file d name ds)" if "get_row h_key (d, fst (ParseInt stem)) hs = None"
        by (rule keeps_named_remove [OF orphan_unnamed [OF "2.prems"(1) Some that]])
      from temp Some "2.prems" "2.IH"(3-) [OF temp Some] show ?thesis
        by (auto intro: keeps_named_refl keeps_named_trans [OF k] split: if_splits)
    qed
  qed
qed (simp add: keeps_named_refl)

lemma sweep_dirs_keeps:
  assumes "rows_in_range (upload_chunks s)" "h_upload ` set (upload_chunks s) \<subseteq> f_id ` set (uploads s)"
    "sweep_dirs is_uuid f n s entries ds = (ok, ds')"
  shows "keeps_named (upload_chunks s) ds ds'"
  using assms(3)
proof (induction entries arbitrary: n ds)
  case (Cons e entries)
  obtain d names where e: "e = (d, names)" by (cases e)
  have all: "keeps_named (upload_chunks s) ds (remove_all d ds)" if "get_row f_id d (uploads s) = None"
    using that assms(2) by (auto simp: keeps_named_def read_remove_all get_row_None_iff)
  have fs: "keeps_named (upload_chunks s) ds x" if "sweep_files f (n + 3) (upload_chunks s) d names ds = (ok', x)" for ok' x
    by (rule sweep_files_keeps [OF assms(1) that])
  show ?case using Cons.prems unfolding e
    by (auto simp: Let_def intro: keeps_named_refl Cons.IH keeps_named_trans [OF all Cons.IH] keeps_named_trans [OF fs Cons.IH] fs
        split: if_splits prod.splits)
qed (simp add: keeps_named_refl)

lemma rows_in_range: "files_ok C s \<Longrightarrow> rows_in_range (upload_chunks s)"
  unfolding rows_in_range_def
proof
  fix h assume ok: "files_ok C s" and h: "h \<in> set (upload_chunks s)"
  from files_okD(4) [OF ok] imageI [OF h, of h_upload] obtain u where u: "u \<in> set (uploads s)" "h_upload h = f_id u" by auto
  from row_upload [OF ok u(1) h u(2)] files_okD(6) [OF ok u(1)] show "0 \<le> h_idx h \<and> h_idx h < 2 ^ 63"
    by (simp add: upload_ok_def)
qed

lemma files_cleanup_ok:
  assumes ok: "files_ok C s" and run: "files_cleanup is_uuid env s = (done, s')"
  shows "files_ok C s'"
proof -
  let ?ids = "map f_id (filter (expendable (now env)) (uploads s))"
  obtain b s1 where d: "drop_uploads (flt env) 3 ?ids s = (b, s1)" by (cases "drop_uploads (flt env) 3 ?ids s")
  note ok1 = drop_uploads_ok [OF ok d]
  obtain c ds where sw: "sweep_dirs is_uuid (flt env) (3 + 2 * length ?ids) s1 (dir_entries (file_dirs s1)) (file_dirs s1) = (c, ds)"
    by (cases "sweep_dirs is_uuid (flt env) (3 + 2 * length ?ids) s1 (dir_entries (file_dirs s1)) (file_dirs s1)")
  have "keeps_named (upload_chunks s1) (file_dirs s1) ds"
    by (rule sweep_dirs_keeps [OF rows_in_range [OF ok1] files_okD(4) [OF ok1] sw])
  then have "files_ok C (s1\<lparr>file_dirs := ds\<rparr>)" by (intro files_ok_disk [OF ok1]) (simp add: keeps_named_def)
  with run d sw ok ok1 show ?thesis by (simp add: files_cleanup_def Let_def split: if_splits)
qed

subsection \<open>Runs\<close>

text \<open>
  The steps of an installation as its files see them: the module's handlers and cleanup, the hooks
  inside the transactions of a send and a deletion, and everything else, which leaves the file tables
  and the directory alone but may change all others.
\<close>

inductive file_step :: "'w file_db_ext call_db_ext mod_db_ext core \<Rightarrow> 'w file_db_scheme \<Rightarrow> 'w file_db_scheme \<Rightarrow> bool"
  for C where
  fs_create: "create C env s b who chat = (r, es, s') \<Longrightarrow> file_step C s s'"
| fs_chunk: "chunk C aead env s inp who d = (r, es, s') \<Longrightarrow> file_step C s s'"
| fs_complete: "complete C env s who d = (r, es, s') \<Longrightarrow> file_step C s s'"
| fs_cleanup: "files_cleanup is_uuid env s = (done, s') \<Longrightarrow> file_step C s s'"
| fs_publish: "0 < msg_seq m \<Longrightarrow> files_tx_hook env s who chat m = Inr s' \<Longrightarrow> file_step C s s'"
| fs_delete: "files_delete_hook env s mid = Inr s' \<Longrightarrow> file_step C s s'"
| fs_other: "same_files s s' \<Longrightarrow> file_step C s s'"

inductive files_reachable :: "'w file_db_ext call_db_ext mod_db_ext core \<Rightarrow> 'w file_db_scheme \<Rightarrow> bool"
  for C where
  fr_init: "uploads s = [] \<Longrightarrow> upload_chunks s = [] \<Longrightarrow> files_reachable C s"
| fr_step: "files_reachable C s \<Longrightarrow> file_step C s s' \<Longrightarrow> files_reachable C s'"

definition files_setup :: "'z core \<Rightarrow> bool" where
  "files_setup C \<longleftrightarrow> file_limits (policy C) \<and> 0 \<le> pol_max_storage_bytes (policy C)
     \<and> gcm_opens (prim C) (eng_aead (eng C))"

lemma file_step_ok: "file_step C s s' \<Longrightarrow> files_setup C \<Longrightarrow> files_ok C s \<Longrightarrow> files_ok C s'"
proof (induction rule: file_step.induct)
  case (fs_create env s b who chat r es s')
  then show ?case using create_ok by (auto simp: files_setup_def)
next
  case (fs_chunk aead env s inp who d r es s')
  then show ?case using chunk_ok_step by (auto simp: files_setup_def)
next
  case (fs_publish m env s who chat s')
  from files_tx_ok [OF fs_publish(4) _ fs_publish(2)] fs_publish(1) show ?case by simp
qed (auto intro: complete_ok files_cleanup_ok files_delete_ok simp: same_files_ok)

lemma files_reachable_ok: "files_reachable C s \<Longrightarrow> files_setup C \<Longrightarrow> files_ok C s"
proof (induction rule: files_reachable.induct)
  case (fr_init s)
  then show ?case by (simp add: files_ok_def reserved_total_def files_setup_def)
qed (blast intro: file_step_ok)

subsection \<open>What follows\<close>

lemma access_Inr: "access C env s who d = Inr u \<Longrightarrow> u \<in> set (uploads s) \<and> f_id u = d \<and> f_state u = ''ready''"
  by (auto simp: access_def get_upload_def split: option.splits if_splits sum.splits dest: get_row_SomeD)

text \<open>A finished upload is read back chunk by chunk.\<close>

lemma download_pieces:
  assumes ok: "files_ok C s" and acc: "access C (shift_env 1 env) s who d = Inr u" and f: "\<not> flt env 0"
  obtains bs where "int (length bs) = f_chunks u" "digest C (concat bs) = f_checksum u" "int (length (concat bs)) = f_size u"
    "\<And>k. k < length bs \<Longrightarrow> download C env s who d (dec_int (int k)) = (Reply 200 (bs ! k), [], s)"
proof -
  note u = access_Inr [OF acc]
  with files_okD(6) [OF ok, of u] obtain bs where bs: "complete_on_disk C (file_dirs s) (upload_chunks s) u bs"
    and small: "f_chunks u \<le> 65536"
    by (auto simp: upload_ok_def)
  have "download C env s who d (dec_int (int k)) = (Reply 200 (bs ! k), [], s)" if k: "k < length bs" for k
  proof -
    from bs k small have "int k < 2 ^ 63" "int k < f_chunks u" by (auto simp: complete_on_disk_def)
    moreover from bs k obtain raw where "read_file (file_dirs s) (f_id u) (chunk_name (int k)) = Some raw"
      "Open (prim C) (eng C) raw (fileAAD (f_id u) (int k)) = Inr (bs ! k)"
      by (auto simp: complete_on_disk_def piece_def)
    ultimately show ?thesis using acc f by (simp add: download_def ParseInt_dec)
  qed
  with bs show ?thesis by (intro that [of bs]) (simp_all add: complete_on_disk_def)
qed

text \<open>A chunk that is stored is answered without another write, and different content is refused.\<close>

lemma chunk_repeated:
  assumes own: "owner (flt env 0) (flt env 1) s who d = Inr u" and row: "get_row h_key (d, i) (upload_chunks s) = Some h"
    and idx: "ParseInt (ci_index inp) = (i, False)"
    and present: "read_file (file_dirs s) d (chunk_name i) \<noteq> None" and run: "chunk C aead env s inp who d = (r, es, s')"
  shows "s' = s \<and> es = [] \<and> (is_reply r \<longrightarrow> ci_checksum inp = h_checksum h)"
  using run own row present owner_Inr [OF own] by (auto simp: chunk_def Let_def idx split: if_splits)

text \<open>What a request that created an upload passed, and what it left.\<close>

lemma equalBytes_refl: "equalBytes b b"
  by (auto simp: equalBytes_def list_all_iff in_set_zip)

lemma create_again_not_201: "create_again C env s chat mode inp session d \<noteq> (Reply 201 v, es, s')"
  by (auto simp: create_again_def split: option.splits if_splits sum.splits)

lemma create_201:
  assumes "create C env s b who chat = (Reply 201 v, es, s')"
  obtains inp mode session where "b = Body inp" "upload_metadata_ok (policy C) inp"
    "upload_session C who chat mode inp = Inr session"
    "create_new C env s who chat mode inp session = (Reply 201 v, es, s')"
    "get_row f_key2 (device_id who, ui_operation inp) (uploads s) = None"
    "case Member s (user_id who) chat of None \<Rightarrow> False | Some (_, can, _) \<Rightarrow> can"
    "map_option c_mode (get_row c_id chat (chats s)) = Some mode"
proof (cases "Decode b")
  case (Inl m)
  with assms show ?thesis by (simp add: create_def)
next
  case (Inr inp)
  then have b: "b = Body inp" by (cases b) simp_all
  have "upload_metadata_ok (policy C) inp \<and> (\<exists>mode session. create_new C env s who chat mode inp session = (Reply 201 v, es, s')
      \<and> upload_session C who chat mode inp = Inr session \<and> map_option c_mode (get_row c_id chat (chats s)) = Some mode)
    \<and> get_row f_key2 (device_id who, ui_operation inp) (uploads s) = None
    \<and> (case Member s (user_id who) chat of None \<Rightarrow> False | Some (_, can, _) \<Rightarrow> can)"
    using assms b by (auto simp: create_def create_again_not_201 split: if_splits option.splits sum.splits)
  with b that show ?thesis by blast
qed

lemma create_new_201:
  assumes ok: "files_ok C s" and md: "upload_metadata_ok (policy C) inp" "file_limits (policy C)"
    and run: "create_new C env s who chat mode inp session = (Reply 201 v, es, s')"
  obtains u where "uploads s' = uploads s @ [u]" "members s' = members s" "chats s' = chats s"
    "u = new_upload C env who chat mode inp session (full_reserve u)"
    "v = (f_id u, f_state u, f_expires u)" "f_id u \<notin> f_id ` set (uploads s)"
proof -
  note b = metadata_bounds [OF md]
  have nov: "\<not> reservation (ui_size inp) (ui_chunks inp) < ui_size inp" using run by (auto simp: create_new_def)
  then have res: "reservation (ui_size inp) (ui_chunks inp) = ui_size inp + ui_chunks inp * 64"
    using reservation_exact [OF b] by blast
  define u where "u = new_upload C env who chat mode inp session (reservation (ui_size inp) (ui_chunks inp))"
  have u: "u = new_upload C env who chat mode inp session (full_reserve u)"
    by (simp add: u_def res full_reserve_def new_upload_def)
  have new: "f_state u = ''uploading''" "f_reserved u = full_reserve u" "0 < f_size u" "0 < f_chunks u" "f_chunks u \<le> 65536" "f_seq u = 0"
    using b res by (simp_all add: u_def new_upload_def full_reserve_def)
  from run nov obtain s1 where s1: "reserve_upload (pol_max_storage_bytes (policy C)) u s = Inr s1"
    and s': "s' = s1\<lparr>file_dirs := make_dir (f_id u) (file_dirs s1)\<rparr>" "v = (f_id u, f_state u, f_expires u)"
    by (auto simp: create_new_def Let_def u_def split: if_splits sum.splits prod.splits)
  from insert_upload_ok [OF ok new s1] s' u show ?thesis by (intro that [of u]) simp_all
qed

text \<open>What the hook of a send leaves of every attachment.\<close>

definition published :: "identity \<Rightarrow> ident \<Rightarrow> ident \<Rightarrow> ident \<Rightarrow> 'w file_db_scheme \<Rightarrow> bool" where
  "published who chat mid a s \<longleftrightarrow> (a, mid) \<in> set (upload_messages s)
     \<and> (\<exists>u \<in> set (uploads s). f_id u = a \<and> f_chat u = chat \<and> f_owner u = user_id who \<and> f_state u = ''ready'' \<and> 0 < f_seq u)"

definition publish_row :: "(upload_row \<Rightarrow> bool) \<Rightarrow> int \<Rightarrow> ident \<times> ident \<Rightarrow> 'w file_db_scheme \<Rightarrow> 'w file_db_scheme" where
  "publish_row p seq x s = s\<lparr>uploads := update_rows p (\<lambda>u. u\<lparr>f_seq := if f_seq u = 0 then seq else f_seq u\<rparr>) (uploads s),
     upload_messages := insert_ignore id x (upload_messages s)\<rparr>"

lemma insert_ignore_mem: "x \<in> set (insert_ignore id x xs)" "y \<in> set xs \<Longrightarrow> y \<in> set (insert_ignore id x xs)"
  by (auto simp: insert_ignore_def get_row_None_iff)

lemma publish_row_member:
  "u \<in> set (uploads s) \<Longrightarrow>
    (if p u then u\<lparr>f_seq := if f_seq u = 0 then seq else f_seq u\<rparr> else u) \<in> set (uploads (publish_row p seq x s))"
  by (auto simp: publish_row_def set_update_rows)

lemma published_step: "published who chat mid a s \<Longrightarrow> 0 < seq \<Longrightarrow> published who chat mid a (publish_row p seq x s)"
  unfolding published_def
  by (auto simp: publish_row_def insert_ignore_mem dest!: publish_row_member [of _ s p seq x, unfolded publish_row_def] split: if_splits)

lemma publish_all_Cons:
  assumes "publish_all f n t who chat seq mid (b # as) s = Inr s'"
  shows "publish_all f (n + 3) t who chat seq mid as (publish_row (publishable who chat t b) seq (b, mid) s) = Inr s'"
    "count_rows (publishable who chat t b) (uploads s) = 1"
  using assms by (auto simp: publish_row_def split: if_splits)

lemma publish_all_keeps:
  "0 < seq \<Longrightarrow> publish_all f n t who chat seq mid as s = Inr s' \<Longrightarrow> published who chat mid a s \<Longrightarrow> published who chat mid a s'"
proof (induction as arbitrary: n s)
  case (Cons b as)
  from Cons.IH [OF Cons.prems(1) publish_all_Cons(1) [OF Cons.prems(2)] published_step [OF Cons.prems(3,1)]] show ?case .
qed simp

lemma publish_all_done:
  assumes "\<forall>u \<in> set (uploads s). 0 \<le> f_seq u" "0 < seq" "publish_all f n t who chat seq mid as s = Inr s'" "a \<in> set as"
  shows "published who chat mid a s'"
  using assms(1,3,4)
proof (induction as arbitrary: n s)
  case (Cons b as)
  let ?s = "publish_row (publishable who chat t b) seq (b, mid) s"
  note run = publish_all_Cons [OF Cons.prems(2)]
  have nonneg: "\<forall>u \<in> set (uploads ?s). 0 \<le> f_seq u"
    using Cons.prems(1) assms(2) by (auto simp: publish_row_def set_update_rows)
  show ?case
  proof (cases "a = b")
    case True
    from run(2) have "filter (publishable who chat t b) (uploads s) \<noteq> []" by (auto simp: count_rows_def)
    then obtain u where u: "u \<in> set (uploads s)" "publishable who chat t b u"
      by (auto simp: filter_empty_conv)
    let ?u = "u\<lparr>f_seq := if f_seq u = 0 then seq else f_seq u\<rparr>"
    have mem: "?u \<in> set (uploads ?s)"
      using publish_row_member [OF u(1), of "publishable who chat t b" seq "(b, mid)"] u(2) by simp
    have row: "f_id ?u = a \<and> f_chat ?u = chat \<and> f_owner ?u = user_id who \<and> f_state ?u = ''ready'' \<and> 0 < f_seq ?u"
      using u Cons.prems(1) assms(2) True by (fastforce simp: publishable_def)
    have "(a, mid) \<in> set (upload_messages ?s)" by (simp add: publish_row_def insert_ignore_mem True)
    with mem row have "published who chat mid a ?s" unfolding published_def by blast
    from publish_all_keeps [OF assms(2) run(1) this] show ?thesis .
  next
    case False
    with Cons.prems(3) have "a \<in> set as" by simp
    from Cons.IH [OF nonneg run(1) this] show ?thesis .
  qed
qed simp

end
