(* ===== verification/FileSweep.thy ===== *)
theory FileSweep
  imports Uploads
begin

text \<open>
  The cleanup of the files module without storage faults is exact: it removes the uploads that expired
  unpublished or lost their last message, the directories of no upload, temporary files and chunk files
  of no row, and leaves every recorded chunk of every other upload where it is.
\<close>

definition shrinks :: "dirs \<Rightarrow> dirs \<Rightarrow> bool" where
  "shrinks ds ds' \<longleftrightarrow> (\<forall>d n. read_file ds' d n \<noteq> None \<longrightarrow> read_file ds' d n = read_file ds d n)"

lemma shrinks_None: "shrinks ds ds' \<Longrightarrow> read_file ds d n = None \<Longrightarrow> read_file ds' d n = None"
  by (metis shrinks_def)

lemma shrinks_refl: "shrinks ds ds"
  by (simp add: shrinks_def)

lemma shrinks_trans: "shrinks ds ds' \<Longrightarrow> shrinks ds' ds'' \<Longrightarrow> shrinks ds ds''"
  by (metis shrinks_def)

lemma shrinks_remove: "shrinks ds (remove_file d n ds)" "shrinks ds (remove_all d ds)"
  by (auto simp: shrinks_def disk_simps)

text \<open>A file that may stay: of an upload, not temporary, and with a row if it is a chunk.\<close>

definition kept_name :: "chunk_row list \<Rightarrow> ident \<Rightarrow> string \<Rightarrow> bool" where
  "kept_name hs d name \<longleftrightarrow> \<not> is_temp name
     \<and> (case chunk_stem name of None \<Rightarrow> True
        | Some stem \<Rightarrow> snd (ParseInt stem) \<or> get_row h_key (d, fst (ParseInt stem)) hs \<noteq> None)"

lemma sweep_files_exact:
  assumes "sweep_files no_faults n hs d names ds = (ok, ds')"
  shows "ok \<and> shrinks ds ds' \<and> (\<forall>name \<in> set names. read_file ds' d name \<noteq> None \<longrightarrow> kept_name hs d name)"
  using assms
proof (induction names arbitrary: n ds)
  case Nil
  then show ?case by (simp add: shrinks_refl)
next
  case (Cons name names)
  show ?case
  proof (cases "kept_name hs d name")
    case True
    then have "sweep_files no_faults (n + 2) hs d names ds = (ok, ds')"
      using Cons.prems by (auto simp: no_faults_def kept_name_def split: option.splits if_splits)
    from Cons.IH [OF this] True show ?thesis by simp
  next
    case False
    then have sw: "sweep_files no_faults (n + 2) hs d names (remove_file d name ds) = (ok, ds')"
      using Cons.prems by (auto simp: no_faults_def kept_name_def split: option.splits if_splits)
    note ih = Cons.IH [OF this]
    then have "read_file ds' d name = None" by (auto intro: shrinks_None simp: read_remove_file)
    with ih shrinks_trans [OF shrinks_remove(1) ih [THEN conjunct2, THEN conjunct1]] show ?thesis by simp
  qed
qed

definition kept_file :: "'w file_db_scheme \<Rightarrow> ident \<Rightarrow> string \<Rightarrow> bool" where
  "kept_file s d name \<longleftrightarrow> d \<in> f_id ` set (uploads s) \<and> kept_name (upload_chunks s) d name"

lemma sweep_dirs_exact:
  assumes "sweep_dirs is_uuid no_faults n s entries ds = (ok, ds')"
  shows "ok \<and> shrinks ds ds' \<and> (\<forall>(d, names) \<in> set entries. is_uuid d \<longrightarrow>
    (\<forall>name \<in> set names. read_file ds' d name \<noteq> None \<longrightarrow> kept_file s d name))"
  using assms
proof (induction entries arbitrary: n ds)
  case Nil
  then show ?case by (simp add: shrinks_refl)
next
  case (Cons e entries)
  obtain d names where e: "e = (d, names)" by (cases e)
  let ?m = "n + 3 + 2 * length names"
  obtain ok1 ds1 where sf: "sweep_files no_faults (n + 3) (upload_chunks s) d names ds = (ok1, ds1)"
    by (cases "sweep_files no_faults (n + 3) (upload_chunks s) d names ds")
  note f = sweep_files_exact [OF sf]
  define x where "x = (if \<not> is_uuid d then ds else if get_row f_id d (uploads s) = None then remove_all d ds else ds1)"
  have "sweep_dirs is_uuid no_faults ?m s entries x = (ok, ds')"
    using Cons.prems f by (auto simp: no_faults_def e Let_def sf x_def simp: sf [unfolded no_faults_def] split: if_splits)
  note ih = Cons.IH [OF this]
  have sh: "shrinks ds x" using f shrinks_remove shrinks_refl by (auto simp: x_def)
  have "kept_file s d name" if "is_uuid d" "name \<in> set names" "read_file ds' d name \<noteq> None" for name
  proof -
    from ih that(3) have "read_file x d name \<noteq> None" by (auto simp: shrinks_def)
    with that f show ?thesis
      by (cases "get_row f_id d (uploads s)") (auto simp: x_def read_remove_all kept_file_def dest: get_row_SomeD)
  qed
  with ih shrinks_trans [OF sh] show ?case by (auto simp: e)
qed

lemma dir_entries_cover: "read_file ds d name \<noteq> None \<Longrightarrow> \<exists>names. (d, names) \<in> set (dir_entries ds) \<and> name \<in> set names"
  by (force simp: read_file_def files_of_def dir_entries_def split: option.splits dest: map_of_SomeD)

subsection \<open>The rows\<close>

definition drop_row :: "ident list \<Rightarrow> upload_row \<Rightarrow> bool" where
  "drop_row ds u \<longleftrightarrow> f_id u \<in> set ds \<and> (f_seq u = 0 \<or> f_state u = ''deleted'')"

lemma delete_rows_twice: "delete_rows p (delete_rows q t) = delete_rows (\<lambda>x. p x \<or> q x) t"
  by (auto simp: delete_rows_def intro: filter_cong)

lemma drop_uploads_exact:
  assumes "unique_on f_id (uploads s)" "\<forall>u \<in> set (uploads s). f_id u \<in> set ds \<longrightarrow> f_seq u = 0 \<or> f_state u = ''deleted''"
    "set ds \<subseteq> f_id ` set (uploads s)" "distinct ds" "drop_uploads no_faults n ds s = (ok, s')"
  shows "ok \<and> uploads s' = delete_rows (\<lambda>u. f_id u \<in> set ds) (uploads s)
    \<and> upload_chunks s' = delete_rows (\<lambda>h. h_upload h \<in> set ds) (upload_chunks s)
    \<and> upload_messages s' = delete_rows (\<lambda>l. fst l \<in> set ds) (upload_messages s)
    \<and> (\<forall>d name. read_file (file_dirs s') d name = (if d \<in> set ds then None else read_file (file_dirs s) d name))"
  using assms
proof (induction ds arbitrary: n s)
  case Nil
  then show ?case by (simp add: delete_rows_def)
next
  case (Cons d ds)
  let ?s = "(delete_upload d s)\<lparr>file_dirs := remove_all d (file_dirs (delete_upload d s))\<rparr>"
  have up: "uploads ?s = delete_rows (\<lambda>u. f_id u = d) (uploads s)" by (simp add: delete_upload_def)
  from Cons.prems(3) obtain u where u: "u \<in> set (uploads s)" "f_id u = d" by auto
  have row: "get_row f_id d (uploads s) = Some u" by (rule get_row_eqI [OF Cons.prems(1) u])
  have "f_seq u = 0 \<or> f_state u = ''deleted''" using Cons.prems(2) u by auto
  with row Cons.prems(5) have run: "drop_uploads no_faults (n + 2) ds ?s = (ok, s')" by (auto simp: no_faults_def Let_def)
  have ih: "ok \<and> uploads s' = delete_rows (\<lambda>u. f_id u \<in> set ds) (uploads ?s)
    \<and> upload_chunks s' = delete_rows (\<lambda>h. h_upload h \<in> set ds) (upload_chunks ?s)
    \<and> upload_messages s' = delete_rows (\<lambda>l. fst l \<in> set ds) (upload_messages ?s)
    \<and> (\<forall>d name. read_file (file_dirs s') d name = (if d \<in> set ds then None else read_file (file_dirs ?s) d name))"
  proof (rule Cons.IH [OF _ _ _ _ run])
    show "unique_on f_id (uploads ?s)" unfolding up by (rule unique_on_delete [OF Cons.prems(1)])
    show "set ds \<subseteq> f_id ` set (uploads ?s)"
      using Cons.prems(3,4) unfolding up by (auto simp: set_delete_rows image_iff) (metis image_iff subsetD)
  qed (use Cons.prems(2,4) in \<open>auto simp: up set_delete_rows\<close>)
  then show ?case
    by (auto simp: delete_upload_def delete_rows_twice read_remove_all intro!: arg_cong [of _ _ "\<lambda>p. delete_rows p _"])
qed

subsection \<open>The whole cleanup\<close>

lemma files_cleanup_exact:
  assumes ok: "files_ok C s" and env: "flt env = no_faults" and run: "files_cleanup is_uuid env s = (done, s')"
  shows "done" "uploads s' = delete_rows (expendable (now env)) (uploads s)"
    "upload_chunks s' = delete_rows (\<lambda>h. \<exists>u \<in> set (uploads s). f_id u = h_upload h \<and> expendable (now env) u) (upload_chunks s)"
    "is_uuid d \<Longrightarrow> read_file (file_dirs s') d name \<noteq> None \<Longrightarrow> kept_file s' d name"
    "h \<in> set (upload_chunks s') \<Longrightarrow>
      read_file (file_dirs s') (h_upload h) (chunk_name (h_idx h)) = read_file (file_dirs s) (h_upload h) (chunk_name (h_idx h))"
proof -
  let ?ids = "map f_id (filter (expendable (now env)) (uploads s))"
  note uniq = files_okD(1) [OF ok]
  have ids: "f_id u \<in> set ?ids \<longleftrightarrow> expendable (now env) u" if "u \<in> set (uploads s)" for u
    using that unique_on_eqD [OF uniq that] by auto
  obtain b s1 where d: "drop_uploads no_faults 3 ?ids s = (b, s1)" by (cases "drop_uploads no_faults 3 ?ids s")
  have dr: "b \<and> uploads s1 = delete_rows (\<lambda>u. f_id u \<in> set ?ids) (uploads s)
    \<and> upload_chunks s1 = delete_rows (\<lambda>h. h_upload h \<in> set ?ids) (upload_chunks s)
    \<and> upload_messages s1 = delete_rows (\<lambda>l. fst l \<in> set ?ids) (upload_messages s)
    \<and> (\<forall>d name. read_file (file_dirs s1) d name = (if d \<in> set ?ids then None else read_file (file_dirs s) d name))"
  proof (rule drop_uploads_exact [OF uniq _ _ _ d])
    show "\<forall>u \<in> set (uploads s). f_id u \<in> set ?ids \<longrightarrow> f_seq u = 0 \<or> f_state u = ''deleted''"
      using ids by (auto simp: expendable_def)
    show "distinct ?ids" using uniq by (simp add: unique_on_def distinct_map_filter)
  qed auto
  obtain c ds where sw: "sweep_dirs is_uuid no_faults (3 + 2 * length ?ids) s1 (dir_entries (file_dirs s1)) (file_dirs s1) = (c, ds)"
    by (cases "sweep_dirs is_uuid no_faults (3 + 2 * length ?ids) s1 (dir_entries (file_dirs s1)) (file_dirs s1)")
  note sd = sweep_dirs_exact [OF sw]
  have s': "s' = s1\<lparr>file_dirs := ds\<rparr>" "done"
    using run env d dr sw sd by (simp_all add: files_cleanup_def Let_def)
  then show "done" by simp
  show "uploads s' = delete_rows (expendable (now env)) (uploads s)"
    using ids dr by (auto simp: s' delete_rows_def intro!: filter_cong)
  show "upload_chunks s' = delete_rows (\<lambda>h. \<exists>u \<in> set (uploads s). f_id u = h_upload h \<and> expendable (now env) u) (upload_chunks s)"
    using dr by (auto simp: s' delete_rows_def image_iff intro!: filter_cong)
  show "kept_file s' d name" if "is_uuid d" "read_file (file_dirs s') d name \<noteq> None"
  proof -
    from that(2) sd have "read_file (file_dirs s1) d name \<noteq> None" by (auto simp: s' shrinks_def)
    with dir_entries_cover obtain names where "(d, names) \<in> set (dir_entries (file_dirs s1))" "name \<in> set names" by blast
    with sd that show ?thesis by (auto simp: s' kept_file_def)
  qed
  show "read_file (file_dirs s') (h_upload h) (chunk_name (h_idx h)) = read_file (file_dirs s) (h_upload h) (chunk_name (h_idx h))"
    if h: "h \<in> set (upload_chunks s')"
  proof -
    note ok1 = drop_uploads_ok [OF ok d]
    have "keeps_named (upload_chunks s1) (file_dirs s1) ds"
      by (rule sweep_dirs_keeps [OF rows_in_range [OF ok1] files_okD(4) [OF ok1] sw])
    with h have "read_file ds (h_upload h) (chunk_name (h_idx h)) = read_file (file_dirs s1) (h_upload h) (chunk_name (h_idx h))"
      by (simp add: keeps_named_def s')
    moreover have "h_upload h \<notin> set ?ids" using h dr by (simp add: s' set_delete_rows)
    ultimately show ?thesis using dr by (simp add: s')
  qed
qed

end
