(* ===== verification/FileProperties.thy ===== *)
theory FileProperties
  imports Fixture FileSweep
begin

text \<open>
  The properties of the files module, on an installation with an MLS chat between the two users of
  \<open>Fixture\<close> (so the server holds no file key) and one upload of two bytes in one chunk.
\<close>

subsection \<open>The installation\<close>

definition file_prims :: prims where
  "file_prims = toy_prims\<lparr>p_sha256 := pad 32\<rparr>"

definition file_core :: "unit file_db_ext call_db_ext mod_db_ext core" where
  "file_core = \<lparr>cfg = toy_config, prim = file_prims, eng = toy_engine, prepare_hooks = [files_prepare_hook],
     tx_hooks = [files_tx_hook], project_hooks = [], delete_hooks = [files_delete_hook]\<rparr>"

definition file_db0 :: "unit file_db_scheme" where
  "file_db0 = \<lparr>versions = [1], indexes = [], users = users toy_db, devices = devices toy_db,
     chats = [\<lparr>c_id = ''c'', c_kind = ''direct'', c_mode = ''e2ee'', c_seq = 0, c_epoch = 0, c_pending = False, c_created = 0\<rparr>],
     members = members toy_db, messages = [], events = [], operations = [], cursors = [], tickets = [],
     hidden_messages = [], reactions = [], calls = [], call_operations = [],
     uploads = [], upload_chunks = [], upload_messages = [], file_dirs = []\<rparr>"

definition file_request :: upload_input where
  "file_request = \<lparr>ui_operation = ''op-f'', ui_size = 2, ui_chunks = 1,
     ui_checksum = hex_encode (pad 32 ''ab''), ui_envelope = None\<rparr>"

definition file_row :: upload_row where
  "file_row = \<lparr>f_id = ''u1'', f_chat = ''c'', f_owner = ''alice'', f_device = ''a1'', f_operation = ''op-f'',
     f_mode = ''e2ee'', f_checksum = hex_encode (pad 32 ''ab''), f_state = ''uploading'', f_size = 2, f_reserved = 66,
     f_expires = 87400, f_seq = 0, f_chunks = 1, f_key = []\<rparr>"

definition file_db1 :: "unit file_db_scheme" where
  "file_db1 = file_db0\<lparr>uploads := [file_row], file_dirs := [(''u1'', [])]\<rparr>"

definition file_chunk :: chunk_input where
  "file_chunk = \<lparr>ci_index = ''0'', ci_checksum = hex_encode (pad 32 ''ab''), ci_data = ''ab''\<rparr>"

definition file_bytes :: bytes where
  "file_bytes = Seal file_prims toy_engine ''nonce'' ''ab'' (fileAAD ''u1'' 0)"

definition file_db2 :: "unit file_db_scheme" where
  "file_db2 = file_db1\<lparr>upload_chunks := [\<lparr>h_upload = ''u1'', h_idx = 0, h_size = 2, h_checksum = hex_encode (pad 32 ''ab'')\<rparr>],
     file_dirs := [(''u1'', [(''0.chunk'', file_bytes)])]\<rparr>"

definition file_db3 :: "unit file_db_scheme" where
  "file_db3 = file_db2\<lparr>uploads := [file_row\<lparr>f_state := ''ready''\<rparr>]\<rparr>"

lemma file_opens: "gcm_opens (prim file_core) k"
  using toy_gcm_opens [of k] by (simp add: gcm_opens_def file_core_def file_prims_def)

lemma file_setup: "files_setup file_core"
  using file_opens by (simp add: files_setup_def file_limits_def file_core_def toy_config_def toy_policy_def)

lemma fileDigest_hex: "length b = 32 \<Longrightarrow> fileDigest (hex_encode b)"
  by (simp add: fileDigest_def)

lemma zero_name: "chunk_name 0 = ''0.chunk''" "ParseInt ''0'' = (0, False)"
  by code_simp (simp add: ParseInt_def)

lemma alice_is: "user_id alice = ''alice''" "device_id alice = ''a1''"
  by (simp_all add: alice_def)

lemmas file_eval = file_db0_def file_core_def file_request_def toy_config_def toy_policy_def toy_env_def no_faults_def
  alice_is toy_db_def shift_env_def shift_faults_def

lemma file_created: "create file_core (toy_env 1000 ''u1'') file_db0 (Body file_request) alice ''c''
    = (Reply 201 (''u1'', ''uploading'', 87400), [], file_db1)"
  by (simp add: create_def upload_metadata_ok_def fileDigest_hex Member_def upload_session_def create_new_def
      new_upload_def reservation_def wrap64_def reserve_upload_def reserved_total_def insert_row_def make_dir_def
      f_key2_def file_row_def file_db1_def Let_def file_eval)

lemma file_owner: "owner False False s alice ''u1'' = Inr u"
  if "uploads s = [u]" "f_id u = ''u1''" "f_owner u = ''alice''" "f_device u = ''a1''" "f_chat u = ''c''" "members s = members toy_db"
  using that by (simp add: owner_def get_upload_def Member_def alice_def toy_db_def)

text \<open>The tables of the installation before and after each step.\<close>

lemma file_db1_simps: "uploads file_db1 = [file_row]" "upload_chunks file_db1 = []" "file_dirs file_db1 = [(''u1'', [])]"
  "members file_db1 = members toy_db"
  by (simp_all add: file_db1_def file_db0_def)

lemma file_db2_simps: "uploads file_db2 = [file_row]" "members file_db2 = members toy_db"
  "upload_chunks file_db2 = [\<lparr>h_upload = ''u1'', h_idx = 0, h_size = 2, h_checksum = hex_encode (pad 32 ''ab'')\<rparr>]"
  "file_dirs file_db2 = [(''u1'', [(''0.chunk'', file_bytes)])]"
  by (simp_all add: file_db2_def file_db1_simps)

lemma file_row_simps: "f_id file_row = ''u1''" "f_chat file_row = ''c''" "f_owner file_row = ''alice''"
  "f_device file_row = ''a1''" "f_mode file_row = ''e2ee''" "f_checksum file_row = hex_encode (pad 32 ''ab'')"
  "f_state file_row = ''uploading''" "f_size file_row = 2" "f_expires file_row = 87400" "f_seq file_row = 0"
  "f_chunks file_row = 1"
  by (simp_all add: file_row_def)

lemma toy_env_simps: "now (toy_env t u) = t" "uuid (toy_env t u) = u" "nonce (toy_env t u) = ''nonce''" "flt (toy_env t u) n = False"
  "flt (toy_env t u) = no_faults"
  by (simp_all add: toy_env_def)

lemma file_core_simps: "prim file_core = file_prims" "eng file_core = toy_engine" "cfg file_core = toy_config"
  "project_hooks file_core = []" "p_sha256 file_prims = pad 32"
  by (simp_all add: file_core_def file_prims_def)

lemma toy_limits: "pol_max_chunk_bytes (cfg_policy toy_config) = 1048576"
  by (simp add: toy_config_def toy_policy_def)

lemma file_stored: "chunk file_core (\<lambda>_ _ _ _. None) (toy_env 1001 []) file_db1 file_chunk alice ''u1'' = (Reply 201 0, [], file_db2)"
proof -
  have o: "owner False False file_db1 alice ''u1'' = Inr file_row"
    by (rule file_owner) (simp_all add: file_db1_simps file_row_simps)
  show ?thesis
    by (simp add: chunk_def o file_chunk_def zero_name fileDigest_hex add_chunk_def open_chunk_def toy_limits
        insert_chunk_def store_chunk_def chunk_total_def chunks_of_def make_dir_def write_file_def files_of_def
        insert_row_def h_key_def Let_def file_db1_simps file_row_simps toy_env_simps shift_faults_def file_core_simps
        file_db2_def file_bytes_def shift_env_def)
qed

lemma file_opened: "Open file_prims toy_engine file_bytes (fileAAD ''u1'' 0) = Inr ''ab''"
  unfolding file_bytes_def by (rule Open_Seal) (use file_opens in \<open>simp add: file_core_def\<close>)

lemma file_completed: "complete file_core (toy_env 1002 []) file_db2 alice ''u1'' = (Reply 200 (''u1'', ''ready''), [], file_db3)"
proof -
  have o: "owner False False file_db2 alice ''u1'' = Inr file_row"
    by (rule file_owner) (simp_all add: file_db2_simps file_row_simps)
  show ?thesis
    by (simp add: complete_def o file_row_simps chunk_total_def chunks_of_def file_db2_simps
        read_file_def files_of_def zero_name file_opened set_ready_def update_rows_def toy_env_simps file_core_simps
        file_db3_def shift_faults_def)
qed

lemma file_reached: "files_reachable file_core file_db3"
proof -
  have "files_reachable file_core file_db0" by (rule fr_init) (simp_all add: file_db0_def)
  then have "files_reachable file_core file_db1" by (rule fr_step) (rule fs_create [OF file_created])
  then have "files_reachable file_core file_db2" by (rule fr_step) (rule fs_chunk [OF file_stored])
  then show ?thesis by (rule fr_step) (rule fs_complete [OF file_completed])
qed

subsection \<open>Properties\<close>

text \<open>C22: A finished upload comes back whole: in every run, whoever is granted access to an upload reads, chunk
  by chunk, data whose concatenation has the declared size and the declared SHA-256 digest.\<close>

theorem download_returns_file:
  assumes "files_reachable C s" "files_setup C" "access C (shift_env 1 env) s who d = Inr u" "\<not> flt env 0"
  shows "\<exists>bs. int (length bs) = f_chunks u \<and> hex_encode (p_sha256 (prim C) (concat bs)) = f_checksum u
    \<and> int (length (concat bs)) = f_size u
    \<and> (\<forall>k < length bs. download C env s who d (dec_int (int k)) = (Reply 200 (bs ! k), [], s))"
  by (rule download_pieces [OF files_reachable_ok [OF assms(1,2)] assms(3,4)]) (auto simp: digest_def)

lemma file_access: "access file_core (shift_env 1 (toy_env 1003 [])) file_db3 alice ''u1'' = Inr (file_row\<lparr>f_state := ''ready''\<rparr>)"
proof -
  have "Member (file_db2\<lparr>uploads := x\<rparr>) ''alice'' ''c'' = Some (''owner'', True, 1)" for x
    by (simp add: Member_def file_db2_simps) (simp add: toy_db_def)
  then show ?thesis
    by (simp add: access_def get_upload_def file_db3_def file_row_simps toy_env_simps shift_faults_def alice_is)
qed

theorem download_returns_file_witness:
  "\<exists>bs. length bs = 1 \<and> hex_encode (pad 32 (concat bs)) = hex_encode (pad 32 ''ab'')
    \<and> download file_core (toy_env 1003 []) file_db3 alice ''u1'' (dec_int 0) = (Reply 200 (bs ! 0), [], file_db3)"
proof -
  have "\<not> flt (toy_env 1003 []) 0" by (simp add: toy_env_simps)
  from download_returns_file [OF file_reached file_setup file_access this] show ?thesis
    by (auto simp: file_row_simps file_core_simps)
qed

text \<open>C23: The quota holds: in every run the reserved bytes of all uploads stay within the configured storage,
  every open upload has reserved its size and the overhead of its chunks, and no upload ever stores more than its size.\<close>

theorem quota_holds:
  assumes "files_reachable C s" "files_setup C"
  shows "reserved_total s \<le> pol_max_storage_bytes (policy C) \<and> (\<forall>u \<in> set (uploads s).
      chunk_total s (f_id u) \<le> f_size u \<and> (f_state u = ''uploading'' \<longrightarrow> f_reserved u = f_size u + f_chunks u * 64))"
  using files_reachable_ok [OF assms] by (auto simp: files_ok_def upload_ok_def full_reserve_def)

theorem quota_holds_witness: "reserved_total file_db3 \<le> 10737418240 \<and> chunk_total file_db3 ''u1'' \<le> 2"
  using quota_holds [OF file_reached file_setup]
  by (simp add: file_core_simps toy_config_def toy_policy_def file_db3_def file_row_simps)

text \<open>C32: The cleanup is exact: without storage faults it removes the uploads that expired unpublished or were
  deleted, with their chunk rows, leaves no file in an upload's directory that is temporary, of no upload, or a chunk of no
  row, and leaves every other recorded chunk as it was.\<close>

theorem cleanup_is_exact:
  assumes "files_ok C s" "flt env = no_faults" "files_cleanup is_uuid env s = (done, s')"
  shows "done \<and> uploads s' = filter (\<lambda>u. \<not> expendable (now env) u) (uploads s)
    \<and> upload_chunks s' = filter (\<lambda>h. \<not> (\<exists>u \<in> set (uploads s). f_id u = h_upload h \<and> expendable (now env) u)) (upload_chunks s)
    \<and> (\<forall>d name. is_uuid d \<longrightarrow> read_file (file_dirs s') d name \<noteq> None \<longrightarrow> kept_file s' d name)
    \<and> (\<forall>h \<in> set (upload_chunks s'). read_file (file_dirs s') (h_upload h) (chunk_name (h_idx h))
          = read_file (file_dirs s) (h_upload h) (chunk_name (h_idx h)))"
  using files_cleanup_exact [OF assms] by (simp add: delete_rows_def)

text \<open>Long after the upload expired.\<close>

theorem cleanup_is_exact_witness:
  "\<exists>done s'. files_cleanup (\<lambda>d. length d = 2) (toy_env 90000 []) file_db3 = (done, s') \<and> done \<and> uploads s' = []
    \<and> read_file (file_dirs s') ''u1'' ''0.chunk'' = None"
proof -
  obtain ok s' where c: "files_cleanup (\<lambda>d. length d = 2) (toy_env 90000 []) file_db3 = (ok, s')"
    by (cases "files_cleanup (\<lambda>d. length d = 2) (toy_env 90000 []) file_db3")
  note r = cleanup_is_exact [OF files_reachable_ok [OF file_reached file_setup] toy_env_simps(5) c]
  then have u: "uploads s' = []" by (simp add: file_db3_def file_row_simps toy_env_simps expendable_def)
  have "\<not> kept_file s' ''u1'' ''0.chunk''" by (simp add: kept_file_def u)
  moreover have "length ''u1'' = 2" by simp
  ultimately have "read_file (file_dirs s') ''u1'' ''0.chunk'' = None" using r by blast
  with r u c show ?thesis by blast
qed

text \<open>Creating an upload is idempotent: repeating the request answers the same upload and changes nothing.\<close>

lemma create_retry:
  assumes "files_ok C s" "file_limits (policy C)" "gcm_opens (prim C) (eng_aead (eng C))"
    "create C env s b who chat = (Reply 201 v, es, s')" "flt env2 = no_faults"
  shows "create C env2 s' b who chat = (Reply 200 v, [], s')"
proof -
  from assms(4) obtain inp mode session where b: "b = Body inp" and md: "upload_metadata_ok (policy C) inp"
    and ses: "upload_session C who chat mode inp = Inr session"
    and new: "create_new C env s who chat mode inp session = (Reply 201 v, es, s')"
    and fresh: "get_row f_key2 (device_id who, ui_operation inp) (uploads s) = None"
    and mem: "case Member s (user_id who) chat of None \<Rightarrow> False | Some (_, can, _) \<Rightarrow> can"
    and mode: "map_option c_mode (get_row c_id chat (chats s)) = Some mode"
    by (rule create_201)
  from create_new_201 [OF assms(1) md assms(2) new] obtain u where
    s': "uploads s' = uploads s @ [u]" "members s' = members s" "chats s' = chats s"
    and u: "u = new_upload C env who chat mode inp session (full_reserve u)"
    and v: "v = (f_id u, f_state u, f_expires u)" and fid: "f_id u \<notin> f_id ` set (uploads s)"
    by blast
  have us: "f_device u = device_id who" "f_operation u = ui_operation inp" "f_chat u = chat" "f_mode u = mode"
    "f_size u = ui_size inp" "f_chunks u = ui_chunks inp" "f_checksum u = ui_checksum inp"
    "f_key u = (if mode = ''basic'' then Seal (prim C) (eng C) (nonce env) session (key_aad (f_id u)) else [])"
    by (subst u, simp add: new_upload_def)+
  have found: "get_row f_key2 (device_id who, ui_operation inp) (uploads s') = Some u"
    using fresh us(1,2) by (simp add: s' get_row_append f_key2_def)
  have same: "get_row f_id (f_id u) (uploads s') = Some u"
    using fid by (simp add: s' get_row_append get_row_None_iff [THEN iffD2])
  have key: "mode = ''basic'' \<Longrightarrow> Open (prim C) (eng C) (f_key u) (key_aad (f_id u)) = Inr session"
    using us(8) Open_Seal [OF assms(3)] by simp
  have "create_again C env2 s' chat mode inp session (f_id u) = (Reply 200 v, [], s')"
    using same us(3-7) key by (simp add: create_again_def get_upload_def assms(5) v equalBytes_refl)
  moreover have "Member s' = Member s" by (simp add: Member_def s' fun_eq_iff)
  ultimately show ?thesis using md ses mem mode found
    by (auto simp: b create_def assms(5) s'(3) split: option.splits prod.splits)
qed

text \<open>Publication is part of the send: when the hook succeeds in a message's transaction, every attachment is a
  finished upload of the sender in this chat, is published at a positive number and linked to the message, and no cleanup
  takes it any more.\<close>

lemma attachments_published:
  assumes "files_ok C s" "0 < msg_seq m" "files_tx_hook env s who chat m = Inr s'" "a \<in> set (msg_attachments m)"
  shows "\<exists>u \<in> set (uploads s'). f_id u = a \<and> f_owner u = user_id who \<and> f_chat u = chat \<and> f_state u = ''ready''
    \<and> 0 < f_seq u \<and> (a, msg_id m) \<in> set (upload_messages s') \<and> (\<forall>t. \<not> expendable t u)"
proof -
  have "\<forall>u \<in> set (uploads s). 0 \<le> f_seq u" using files_okD(6) [OF assms(1)] by (simp add: upload_ok_def)
  from publish_all_done [OF this assms(2) assms(3) [unfolded files_tx_hook_def] assms(4)] show ?thesis
    by (auto simp: published_def expendable_def)
qed

definition file_message :: message where
  "file_message = empty_message\<lparr>msg_id := ''m1'', msg_chat := ''c'', msg_seq := 1, msg_attachments := [''u1'']\<rparr>"

definition file_db4 :: "unit file_db_scheme" where
  "file_db4 = file_db3\<lparr>uploads := [file_row\<lparr>f_state := ''ready'', f_seq := 1\<rparr>], upload_messages := [(''u1'', ''m1'')]\<rparr>"

lemma file_published: "files_tx_hook (toy_env 1004 []) file_db3 alice ''c'' file_message = Inr file_db4"
  by (simp add: files_tx_hook_def file_message_def empty_message_def publishable_def count_rows_def update_rows_def insert_ignore_def
      file_db4_def file_db3_def file_row_simps toy_env_simps alice_is) (simp add: file_db2_def file_db1_def file_db0_def)

text \<open>A deleted upload can come back: \<open>complete\<close> does not ask whether the upload is open, so its owner can mark
  an upload that lost its last message as ready again before the cleanup runs; the cleanup then never takes it, it can be
  attached again, and its bytes no longer count against the quota.\<close>

lemma deleted_upload_returns:
  "\<exists>s1 s2 s3 u. files_delete_hook (toy_env 1010 []) file_db4 ''m1'' = Inr s1
    \<and> map f_state (uploads s1) = [''deleted'']
    \<and> complete file_core (toy_env 1011 []) s1 alice ''u1'' = (Reply 200 (''u1'', ''ready''), [], s2)
    \<and> files_cleanup (\<lambda>d. length d = 2) (toy_env 900000 []) s2 = (True, s3)
    \<and> uploads s3 = [u] \<and> f_state u = ''ready'' \<and> f_reserved u = 0 \<and> reserved_total s3 = 0
    \<and> read_file (file_dirs s3) ''u1'' ''0.chunk'' = Some file_bytes"
proof -
  define x where "x = file_row\<lparr>f_state := ''deleted'', f_seq := 1, f_reserved := 0, f_key := []\<rparr>"
  define y where "y = file_row\<lparr>f_state := ''ready'', f_seq := 1, f_reserved := 0, f_key := []\<rparr>"
  let ?s1 = "file_db4\<lparr>uploads := [x]\<rparr>" and ?s2 = "file_db4\<lparr>uploads := [y]\<rparr>"
  have m: "messages file_db4 = []" by (simp add: file_db4_def file_db3_def file_db2_def file_db1_def file_db0_def)
  have t: "upload_messages file_db4 = [(''u1'', ''m1'')]" "uploads file_db4 = [file_row\<lparr>f_state := ''ready'', f_seq := 1\<rparr>]"
    "members file_db4 = members toy_db" "upload_chunks file_db4 = upload_chunks file_db2" "file_dirs file_db4 = file_dirs file_db2"
    by (simp_all add: file_db4_def file_db3_def file_db2_simps)
  have 1: "files_delete_hook (toy_env 1010 []) file_db4 ''m1'' = Inr ?s1"
    by (simp add: files_delete_hook_def toy_env_simps update_rows_def released_def still_linked_def t m file_row_simps x_def)
  have o: "owner False False ?s1 alice ''u1'' = Inr x"
    by (rule file_owner) (simp_all add: t x_def file_row_simps)
  have xs: "f_id x = ''u1''" "f_state x = ''deleted''" "f_expires x = 87400" "f_chunks x = 1" "f_size x = 2"
    "f_checksum x = hex_encode (pad 32 ''ab'')" "x\<lparr>f_state := ''ready''\<rparr> = y"
    by (simp_all add: x_def y_def file_row_simps)
  have 2: "complete file_core (toy_env 1011 []) ?s1 alice ''u1'' = (Reply 200 (''u1'', ''ready''), [], ?s2)"
    by (simp add: complete_def o xs chunk_total_def chunks_of_def t file_db2_simps
        read_file_def files_of_def zero_name file_opened set_ready_def update_rows_def toy_env_simps file_core_simps
        shift_faults_def)
  have 3: "files_cleanup (\<lambda>d. length d = 2) (toy_env 900000 []) ?s2 = (True, ?s2)"
    by (simp add: files_cleanup_def toy_env_simps expendable_def y_def dir_entries_def t file_db2_simps file_row_simps
        is_temp_def chunk_stem_def zero_name h_key_def Let_def)
  show ?thesis
    by (rule exI [of _ ?s1], rule exI [of _ ?s2], rule exI [of _ ?s2], rule exI [of _ y])
      (use 1 2 3 in \<open>simp add: x_def y_def reserved_total_def t file_db2_simps read_file_def files_of_def\<close>)
qed

end
