(* ===== verification/E2EE.thy ===== *)
theory E2EE
  imports Uploads
begin

text \<open>
  \<open>internal/modules/e2ee.go\<close>, the relay of end-to-end encrypted chats: the group metadata and roster of
  a chat, one-time key packages, the commits that change the group, their confirmation by an authority, and
  the checks on messages; and \<open>KeyPackageIdentity\<close> of \<open>internal/cryptoenc/mls.go\<close>. The MLS library
  (\<open>mls-go\<close>: its wire formats, signatures and key package references) is the record \<open>mls_lib\<close>.
\<close>

subsection \<open>What the library parses\<close>

record group_context =
  gc_version :: nat
  gc_suite :: nat
  gc_group :: bytes
  gc_epoch :: int
  gc_tree_hash :: bytes
  gc_transcript :: bytes

record private_message =
  pm_type :: nat
  pm_group :: bytes
  pm_epoch :: int
  pm_auth_data :: bytes
  pm_sender_data :: bytes
  pm_ciphertext :: bytes

record public_message =
  pu_type :: nat
  pu_sender_type :: nat
  pu_leaf :: int
  pu_group :: bytes
  pu_epoch :: int
  pu_content :: bytes
  pu_signature :: bytes

datatype mls_message = PrivateMessage private_message | PublicMessage public_message | WelcomeMessage bytes | OtherMessage bytes

record key_package =
  kp_suite :: nat
  kp_credential :: nat
  kp_identity :: bytes
  kp_signature_key :: bytes
  kp_init_key :: bytes
  kp_encryption_key :: bytes

record mls_lib =
  ml_message :: "bytes \<Rightarrow> mls_message option"
  ml_marshal :: "mls_message \<Rightarrow> bytes"
  ml_context :: "bytes \<Rightarrow> group_context option"
  ml_marshal_context :: "group_context \<Rightarrow> bytes"
  ml_welcome :: "bytes \<Rightarrow> (nat \<times> bytes list) option"   \<comment> \<open>suite, the references of the new members\<close>
  ml_reference :: "bytes \<Rightarrow> bytes"
  ml_tbs :: "public_message \<Rightarrow> bytes \<Rightarrow> bytes"            \<comment> \<open>what a member signs, with the group context\<close>
  ml_verify_label :: "bytes \<Rightarrow> string \<Rightarrow> bytes \<Rightarrow> bytes \<Rightarrow> bool"
  ml_ed25519 :: "bytes \<Rightarrow> bytes \<Rightarrow> bytes \<Rightarrow> bool"           \<comment> \<open>public key, message, signature\<close>
  ml_key_package :: "bytes \<Rightarrow> key_package option"
  ml_marshal_key_package :: "key_package \<Rightarrow> bytes"
  ml_key_package_valid :: "time \<Rightarrow> key_package \<Rightarrow> bool"    \<comment> \<open>structure, lifetime, signature, leaf node\<close>

text \<open>The numbers of RFC 9420: protocol version, cipher suite 1, content and sender types, basic credentials.\<close>

definition mls10 :: nat where "mls10 = 1"
definition suite1 :: nat where "suite1 = 1"
definition content_application :: nat where "content_application = 1"
definition content_commit :: nat where "content_commit = 3"
definition sender_member :: nat where "sender_member = 1"
definition basic_credential :: nat where "basic_credential = 1"

definition KeyPackageIdentity :: "mls_lib \<Rightarrow> time \<Rightarrow> bytes \<Rightarrow> (bytes \<times> bytes) option" where
  "KeyPackageIdentity L t wire =
     (case ml_key_package L wire of
        None \<Rightarrow> None
      | Some kp \<Rightarrow>
          (if kp_suite kp \<noteq> suite1 \<or> ml_marshal_key_package L kp \<noteq> wire \<or> \<not> ml_key_package_valid L t kp
              \<or> kp_credential kp \<noteq> basic_credential \<or> length (kp_signature_key kp) \<noteq> 32
              \<or> length (kp_init_key kp) \<noteq> 32 \<or> length (kp_encryption_key kp) \<noteq> 32
           then None else Some (kp_identity kp, kp_signature_key kp)))"

subsection \<open>Tables\<close>

record relay_member =
  rm_device :: ident
  rm_leaf :: int

record mls_group_row =
  mg_chat :: ident
  mg_group :: bytes
  mg_context :: bytes

record roster_row =
  mr_chat :: ident
  mr_device :: ident
  mr_leaf :: int

record key_package_row =
  mk_id :: string
  mk_device :: ident
  mk_payload :: bytes
  mk_claimed :: "ident option"
  mk_used :: bool
  mk_created :: time

record control_row =
  mc_id :: string
  mc_chat :: ident
  mc_target :: ident
  mc_epoch :: int
  mc_kind :: string
  mc_payload :: bytes
  mc_created :: time

record transition_row =
  mt_id :: string
  mt_chat :: ident
  mt_sender :: ident
  mt_epoch :: int
  mt_hash :: string
  mt_payload :: bytes
  mt_confirmed :: bool
  mt_created :: time

record mls_db = file_db +
  mls_groups :: "mls_group_row list"
  mls_roster :: "roster_row list"
  mls_keypackages :: "key_package_row list"
  mls_controls :: "control_row list"
  mls_transitions :: "transition_row list"

type_synonym 'w mls_core = "'w mls_db_ext file_db_ext call_db_ext mod_db_ext core"

definition mr_key :: "roster_row \<Rightarrow> ident \<times> ident" where
  "mr_key r = (mr_chat r, mr_device r)"

definition mr_leaf_key :: "roster_row \<Rightarrow> ident \<times> int" where
  "mr_leaf_key r = (mr_chat r, mr_leaf r)"

definition control_aad :: "string \<Rightarrow> ident \<Rightarrow> bytes" where
  "control_aad d target = ''mls/control/'' @ d @ ''/'' @ target"

definition transition_aad :: "string \<Rightarrow> bytes" where
  "transition_aad d = ''mls/transition/'' @ d"

definition keypackage_aad :: "string \<Rightarrow> ident \<Rightarrow> bytes" where
  "keypackage_aad ref device = ''mls/keypackage/'' @ ref @ ''/'' @ device"

subsection \<open>Group contexts, rosters and their proof\<close>

definition MLSRosterProof ::
  "'z core \<Rightarrow> ident \<Rightarrow> bytes \<Rightarrow> int \<Rightarrow> int \<Rightarrow> string \<Rightarrow> bytes \<Rightarrow> relay_member list \<Rightarrow> bytes" where
  "MLSRosterProof C chat gid previous epoch commitHash context roster = json_object
     [json_member ''version'' ''1'', json_member ''chat_id'' (json_string chat),
      json_member ''group_id'' (json_string (b64_encode gid)), json_member ''previous_epoch'' (dec_int previous),
      json_member ''epoch'' (dec_int epoch), json_member ''commit_hash'' (json_string commitHash),
      json_member ''context_hash'' (json_string (digest C context)),
      json_member ''roster'' (json_array (map (\<lambda>m. json_object
        [json_member ''device_id'' (json_string (rm_device m)), json_member ''leaf_index'' (dec_int (rm_leaf m))])
        (sort_key rm_device roster)))]"

definition parseMLSContext :: "mls_lib \<Rightarrow> bytes \<Rightarrow> bytes \<Rightarrow> int \<Rightarrow> bool" where
  "parseMLSContext L data gid epoch =
     (case ml_context L data of
        None \<Rightarrow> False
      | Some gc \<Rightarrow> gc_version gc = mls10 \<and> gc_suite gc = suite1 \<and> gc_group gc = gid \<and> gc_epoch gc = epoch
          \<and> length (gc_tree_hash gc) = 32
          \<and> (length (gc_transcript gc) = 32 \<or> epoch = 0 \<and> length (gc_transcript gc) = 0)
          \<and> ml_marshal_context L gc = data)"

text \<open>An authorized device of a chat: not revoked, of an enabled account that is an active member.\<close>

definition roster_device :: "'z db_scheme \<Rightarrow> ident \<Rightarrow> ident \<Rightarrow> (ident \<times> string) option" where
  "roster_device s chat device = query_row [(d_user d, d_signing_key d). d \<leftarrow> devices s, d_id d = device \<and> \<not> d_revoked d,
     u \<leftarrow> users s, u_id u = d_user d \<and> \<not> u_disabled u,
     m \<leftarrow> members s, m_user m = d_user d \<and> m_chat m = chat \<and> m_active m]"

text \<open>The loop over the roster: \<open>None\<close> is an error, else the users the devices belong to.\<close>

fun roster_users ::
  "faults \<Rightarrow> nat \<Rightarrow> 'z db_scheme \<Rightarrow> ident \<Rightarrow> ident list \<Rightarrow> int list \<Rightarrow> relay_member list \<Rightarrow> ident list option" where
  "roster_users f n s chat ds ls [] = Some []"
| "roster_users f n s chat ds ls (m # ms) =
     (if rm_device m \<in> set ds \<or> rm_leaf m \<in> set ls \<or> rm_leaf m > 65535 then None
      else case (if f n then None else roster_device s chat (rm_device m)) of
        None \<Rightarrow> None
      | Some (user, sign) \<Rightarrow>
          (case b64_decode_strict sign of
             None \<Rightarrow> None
           | Some key \<Rightarrow>
               (if length key \<noteq> 32 then None
                else map_option ((#) user) (roster_users f (Suc n) s chat (rm_device m # ds) (rm_leaf m # ls) ms))))"

definition active_accounts :: "'z db_scheme \<Rightarrow> ident \<Rightarrow> ident list" where
  "active_accounts s chat = [m_user m. m \<leftarrow> members s, m_chat m = chat \<and> m_active m,
     u \<leftarrow> users s, u_id u = m_user m \<and> \<not> u_disabled u]"

definition validateMLSRoster :: "faults \<Rightarrow> 'z db_scheme \<Rightarrow> ident \<Rightarrow> relay_member list \<Rightarrow> bool" where
  "validateMLSRoster f s chat roster =
     (if length roster = 0 \<or> length roster > 1024 then False
      else case roster_users f 1 s chat [] [] roster of
        None \<Rightarrow> False
      | Some us \<Rightarrow> \<not> f 0 \<and> list_all (\<lambda>u. u \<in> set us) (active_accounts s chat))"

definition roster_row_of :: "ident \<Rightarrow> relay_member \<Rightarrow> roster_row" where
  "roster_row_of chat m = \<lparr>mr_chat = chat, mr_device = rm_device m, mr_leaf = rm_leaf m\<rparr>"

text \<open>Both keys of the roster table are checked by every insert; \<open>None\<close> is an error.\<close>

fun insert_roster :: "faults \<Rightarrow> nat \<Rightarrow> ident \<Rightarrow> relay_member list \<Rightarrow> roster_row list \<Rightarrow> roster_row list option" where
  "insert_roster f n chat [] rs = Some rs"
| "insert_roster f n chat (m # ms) rs =
     (if f n \<or> insert_row mr_leaf_key (roster_row_of chat m) rs = None then None
      else case insert_row mr_key (roster_row_of chat m) rs of
        None \<Rightarrow> None
      | Some rs' \<Rightarrow> insert_roster f (Suc n) chat ms rs')"

definition saveMLSRoster ::
  "faults \<Rightarrow> ident \<Rightarrow> relay_member list \<Rightarrow> 'w mls_db_scheme \<Rightarrow> 'w mls_db_scheme option" where
  "saveMLSRoster f chat roster s =
     (if f 0 then None
      else map_option (\<lambda>rs. s\<lparr>mls_roster := rs\<rparr>)
        (insert_roster f 1 chat roster (delete_rows (\<lambda>r. mr_chat r = chat) (mls_roster s))))"

definition set_epoch :: "ident \<Rightarrow> int \<Rightarrow> 'z db_scheme \<Rightarrow> 'z db_scheme" where
  "set_epoch chat epoch s =
     s\<lparr>chats := update_rows (\<lambda>c. c_id c = chat) (\<lambda>c. c\<lparr>c_epoch := epoch, c_pending := False\<rparr>) (chats s)\<rparr>"

text \<open>A new relay. The third key of \<open>mls_groups\<close> is the group's identifier.\<close>

definition InitMLSRelayTx ::
  "mls_lib \<Rightarrow> faults \<Rightarrow> 'w mls_db_scheme \<Rightarrow> ident \<Rightarrow> bytes \<Rightarrow> bytes \<Rightarrow> int \<Rightarrow> relay_member list \<Rightarrow> 'w mls_db_scheme option" where
  "InitMLSRelayTx L f s chat gid context epoch roster =
     (if epoch \<ge> 2 ^ 63 \<or> length gid = 0 \<or> length gid > 256 \<or> \<not> parseMLSContext L context gid epoch
         \<or> \<not> validateMLSRoster (shift_faults 3 f) s chat roster then None
      else if f 0 \<or> map_option c_mode (get_row c_id chat (chats s)) \<noteq> Some ''e2ee'' then None
      else let g = \<lparr>mg_chat = chat, mg_group = gid, mg_context = context\<rparr> in
        if f 1 \<or> insert_row mg_group g (mls_groups s) = None then None
        else case insert_row mg_chat g (mls_groups s) of
          None \<Rightarrow> None
        | Some gs \<Rightarrow>
            (case saveMLSRoster (shift_faults (5 + length roster) f) chat roster (s\<lparr>mls_groups := gs\<rparr>) of
               None \<Rightarrow> None
             | Some s1 \<Rightarrow> (if f 2 then None else Some (set_epoch chat epoch s1))))"

subsection \<open>The checks on messages\<close>

definition message_group :: "'w mls_db_scheme \<Rightarrow> ident \<Rightarrow> ident \<Rightarrow> (bytes \<times> int \<times> bool) option" where
  "message_group s chat device = query_row [(mg_group g, c_epoch c, c_pending c). g \<leftarrow> mls_groups s, mg_chat g = chat,
     c \<leftarrow> chats s, c_id c = mg_chat g, r \<leftarrow> mls_roster s, mr_chat r = mg_chat g \<and> mr_device r = device]"

definition application_message :: "mls_lib \<Rightarrow> bytes \<Rightarrow> private_message option" where
  "application_message L wire =
     (case ml_message L wire of
        Some (PrivateMessage pm) \<Rightarrow>
          (if pm_type pm \<noteq> content_application \<or> length (pm_sender_data pm) < 16 \<or> length (pm_ciphertext pm) < 16
              \<or> ml_marshal L (PrivateMessage pm) \<noteq> wire then None else Some pm)
      | _ \<Rightarrow> None)"

definition mls_prepare_hook ::
  "mls_lib \<Rightarrow> env \<Rightarrow> 'w mls_db_scheme \<Rightarrow> identity \<Rightarrow> ident \<Rightarrow> message_input \<Rightarrow> go_error + message_input" where
  "mls_prepare_hook L env s who chat inp =
     (case (if flt env 0 then None else map_option c_mode (get_row c_id chat (chats s))) of
        None \<Rightarrow> Inl (OtherError ''sql: no rows in result set'')
      | Some mode \<Rightarrow>
          (if mode \<noteq> ''e2ee'' then Inr inp
           else case b64_decode_strict (in_mls inp) of
             None \<Rightarrow> Inl (APIError 400 ''invalid MLS encoding'')
           | Some wire \<Rightarrow>
               (if ml_message L wire = None then Inl (APIError 400 ''invalid MLS wire'')
                else case application_message L wire of
                  None \<Rightarrow> Inl (APIError 400 ''MLS encrypted application message required'')
                | Some pm \<Rightarrow>
                    (case (if flt env 1 then None else message_group s chat (device_id who)) of
                       None \<Rightarrow> Inl (APIError 409 ''MLS group, device, epoch or transition mismatch'')
                     | Some (gid, epoch, pending) \<Rightarrow>
                         (if pending \<or> pm_epoch pm \<noteq> epoch \<or> in_epoch inp \<noteq> epoch \<or> pm_group pm \<noteq> gid
                          then Inl (APIError 409 ''MLS group, device, epoch or transition mismatch'')
                          else if pm_auth_data pm \<noteq> Binding chat (user_id who) (device_id who) (in_operation inp)
                          then Inl (APIError 400 ''MLS authenticated binding mismatch'')
                          else Inr (inp\<lparr>in_payload := wire\<rparr>))))))"

definition mls_tx_hook :: "env \<Rightarrow> 'w mls_db_scheme \<Rightarrow> identity \<Rightarrow> ident \<Rightarrow> message \<Rightarrow> go_error + 'w mls_db_scheme" where
  "mls_tx_hook env s who chat m =
     (if msg_mode m \<noteq> ''e2ee'' then Inr s
      else if flt env 0 then Inl (OtherError ''storage'')
      else if count_rows (\<lambda>r. mr_chat r = chat \<and> mr_device r = device_id who) (mls_roster s) \<noteq> 1
      then Inl (APIError 409 ''device not in current MLS roster'')
      else Inr s)"

subsection \<open>Key packages\<close>

definition unclaimed :: "ident \<Rightarrow> key_package_row \<Rightarrow> bool" where
  "unclaimed device k \<longleftrightarrow> mk_device k = device \<and> mk_claimed k = None"

definition uploadMLSKeyPackage ::
  "'w mls_core \<Rightarrow> mls_lib \<Rightarrow> env \<Rightarrow> 'w mls_db_scheme \<Rightarrow> string body \<Rightarrow> identity \<Rightarrow> (string, 'w mls_db_scheme) outcome" where
  "uploadMLSKeyPackage C L env s b who =
     (case Decode b of
        Inl m \<Rightarrow> Error 400 m s
      | Inr text \<Rightarrow>
          (case b64_decode_strict text of
             None \<Rightarrow> Error 400 ''invalid KeyPackage encoding'' s
           | Some wire \<Rightarrow>
               (case KeyPackageIdentity L (now env) wire of
                  None \<Rightarrow> Error 400 ''invalid device KeyPackage'' s
                | Some (identity, pub) \<Rightarrow>
                    (if identity \<noteq> device_id who then Error 400 ''invalid device KeyPackage'' s
                     else case (if flt env 0 then None else query_row (map d_signing_key
                         (filter (\<lambda>d. d_id d = device_id who \<and> d_user d = user_id who \<and> \<not> d_revoked d) (devices s)))) of
                       None \<Rightarrow> Error 400 ''invalid device KeyPackage'' s
                     | Some registered \<Rightarrow>
                         (if b64_decode_strict registered \<noteq> Some pub
                          then Error 403 ''KeyPackage signing key differs from registered device'' s
                          else let ref = digest C wire;
                              k = \<lparr>mk_id = ref, mk_device = device_id who,
                                mk_payload = Seal (prim C) (eng C) (nonce env) wire (keypackage_aad ref (device_id who)),
                                mk_claimed = None, mk_used = False, mk_created = now env\<rparr> in
                            if flt env 1 then Error 500 ''KeyPackage persistence failed'' s
                            else if count_rows (unclaimed (device_id who)) (mls_keypackages s) < 100
                              \<and> get_row mk_id ref (mls_keypackages s) = None
                            then (Reply 201 ref, [], s\<lparr>mls_keypackages := mls_keypackages s @ [k]\<rparr>)
                            else Error 409 ''duplicate KeyPackage or device quota reached'' s)))))"

definition claim_target_ok :: "'z db_scheme \<Rightarrow> ident \<Rightarrow> ident \<Rightarrow> bool" where
  "claim_target_ok s chat target \<longleftrightarrow> length [(). d \<leftarrow> devices s, d_id d = target \<and> \<not> d_revoked d,
     u \<leftarrow> users s, u_id u = d_user d \<and> \<not> u_disabled u,
     m \<leftarrow> members s, m_user m = d_user d \<and> m_chat m = chat \<and> m_active m,
     c \<leftarrow> chats s, c_id c = m_chat m \<and> c_mode c = ''e2ee''] = 1"

definition oldest_unclaimed :: "'w mls_db_scheme \<Rightarrow> ident \<Rightarrow> key_package_row option" where
  "oldest_unclaimed s device =
     query_row (sort_key (\<lambda>k. (mk_created k, mk_id k)) (filter (unclaimed device) (mls_keypackages s)))"

definition claim_row :: "string \<Rightarrow> ident \<Rightarrow> key_package_row list \<Rightarrow> key_package_row list" where
  "claim_row ref chat = update_rows (\<lambda>k. mk_id k = ref \<and> mk_claimed k = None) (\<lambda>k. k\<lparr>mk_claimed := Some chat\<rparr>)"

text \<open>A package that does not verify any more is retired: the claim is committed, the answer is a refusal.\<close>

definition claimMLSKeyPackage ::
  "'w mls_core \<Rightarrow> mls_lib \<Rightarrow> env \<Rightarrow> 'w mls_db_scheme \<Rightarrow> identity \<Rightarrow> ident \<Rightarrow> ident \<Rightarrow>
    (string \<times> ident \<times> string, 'w mls_db_scheme) outcome" where
  "claimMLSKeyPackage C L env s who chat target =
     (if flt env 0 \<or> (case Member s (user_id who) chat of None \<Rightarrow> True | Some (_, can, _) \<Rightarrow> \<not> can)
      then Error 403 ''chat access denied'' s
      else if flt env 1 then Error 500 ''transaction unavailable'' s
      else if flt env 2 \<or> \<not> claim_target_ok s chat target
      then Error 403 ''target device not authorized for E2EE chat'' s
      else case (if flt env 3 then None else oldest_unclaimed s target) of
        None \<Rightarrow> Error 409 ''no unclaimed KeyPackage'' s
      | Some k \<Rightarrow>
          (let s1 = s\<lparr>mls_keypackages := claim_row (mk_id k) chat (mls_keypackages s)\<rparr> in
           case Open (prim C) (eng C) (mk_payload k) (keypackage_aad (mk_id k) target) of
             Inl _ \<Rightarrow> Error 500 ''stored KeyPackage invalid'' s
           | Inr wire \<Rightarrow>
               (if KeyPackageIdentity L (now env) wire = None then
                  (if flt env 4 then Error 409 ''concurrent KeyPackage retirement'' s
                   else Error 409 ''KeyPackage expired or invalid'' s1)
                else if flt env 4 then Error 409 ''concurrent claim'' s
                else (Reply 200 (mk_id k, target, b64_encode wire), [], s1))))"

subsection \<open>Commits\<close>

record welcome_item =
  wi_device :: ident
  wi_package :: string
  wi_welcome :: string

record commit_input =
  cm_commit :: string
  cm_welcomes :: "welcome_item list"

record 's mls_hooks =
  begin_hooks :: "(env \<Rightarrow> 's \<Rightarrow> ident \<Rightarrow> go_error + 's) list"
  commit_hooks :: "(env \<Rightarrow> 's \<Rightarrow> ident \<Rightarrow> bytes \<Rightarrow> go_error + 's) list"

fun run_begin :: "(env \<Rightarrow> 's \<Rightarrow> ident \<Rightarrow> go_error + 's) list \<Rightarrow> env \<Rightarrow> 's \<Rightarrow> ident \<Rightarrow> go_error + 's" where
  "run_begin [] env s chat = Inr s"
| "run_begin (h # hs) env s chat = (case h env s chat of Inl e \<Rightarrow> Inl e | Inr s' \<Rightarrow> run_begin hs env s' chat)"

definition run_commit :: "(env \<Rightarrow> 's \<Rightarrow> ident \<Rightarrow> bytes \<Rightarrow> go_error + 's) list \<Rightarrow> env \<Rightarrow> 's \<Rightarrow> ident \<Rightarrow> bytes \<Rightarrow> go_error + 's" where
  "run_commit hs env s chat wire = run_begin (map (\<lambda>h env s chat. h env s chat wire) hs) env s chat"

text \<open>Who may commit: a device of the roster, not revoked, of an enabled active member who may send.\<close>

definition commit_sender ::
  "'w mls_db_scheme \<Rightarrow> identity \<Rightarrow> ident \<Rightarrow> (bytes \<times> bytes \<times> int \<times> int \<times> string) option" where
  "commit_sender s who chat = query_row [(mg_group g, mg_context g, c_epoch c, mr_leaf r, d_signing_key d).
     g \<leftarrow> mls_groups s, mg_chat g = chat, c \<leftarrow> chats s, c_id c = mg_chat g,
     r \<leftarrow> mls_roster s, mr_chat r = mg_chat g \<and> mr_device r = device_id who,
     d \<leftarrow> devices s, d_id d = mr_device r \<and> d_user d = user_id who \<and> \<not> d_revoked d,
     m \<leftarrow> members s, m_chat m = mg_chat g \<and> m_user m = d_user d \<and> m_active m \<and> m_can_send m,
     u \<leftarrow> users s, u_id u = d_user d \<and> \<not> u_disabled u]"

definition StoreMLSWelcomeTx ::
  "'z core \<Rightarrow> mls_lib \<Rightarrow> bool \<Rightarrow> time \<Rightarrow> string \<Rightarrow> bytes \<Rightarrow> 'w mls_db_scheme \<Rightarrow> ident \<Rightarrow> ident \<Rightarrow> int \<Rightarrow> bytes \<Rightarrow>
    'w mls_db_scheme option" where
  "StoreMLSWelcomeTx C L fail t d seed s chat target epoch wire =
     (case ml_message L wire of
        Some (WelcomeMessage w) \<Rightarrow>
          (if w = [] then None
           else case ml_welcome L w of
             None \<Rightarrow> None
           | Some (suite, refs) \<Rightarrow>
               (if suite \<noteq> suite1 \<or> fail then None
                else map_option (\<lambda>cs. s\<lparr>mls_controls := cs\<rparr>)
                  (insert_row mc_id \<lparr>mc_id = d, mc_chat = chat, mc_target = target, mc_epoch = epoch, mc_kind = ''welcome'',
                     mc_payload = Seal (prim C) (eng C) seed wire (control_aad d target), mc_created = t\<rparr> (mls_controls s))))
      | _ \<Rightarrow> None)"

definition recipient_ok :: "'z db_scheme \<Rightarrow> ident \<Rightarrow> ident \<Rightarrow> bool" where
  "recipient_ok s chat device \<longleftrightarrow> length [(). d \<leftarrow> devices s, d_id d = device \<and> \<not> d_revoked d,
     m \<leftarrow> members s, m_user m = d_user d \<and> m_chat m = chat \<and> m_active m,
     u \<leftarrow> users s, u_id u = d_user d \<and> \<not> u_disabled u] = 1"

text \<open>That a Welcome is for the claimed package: it parses and names the package's reference.\<close>

definition welcome_matches ::
  "'z core \<Rightarrow> mls_lib \<Rightarrow> key_package_row \<Rightarrow> bytes \<Rightarrow> (nat \<times> string) option" where
  "welcome_matches C L k welcome =
     (case Open (prim C) (eng C) (mk_payload k) (keypackage_aad (mk_id k) (mk_device k)) of
        Inl _ \<Rightarrow> Some (500, ''stored KeyPackage authentication failed'')
      | Inr package \<Rightarrow>
          (case ml_message L welcome of
             Some (WelcomeMessage w) \<Rightarrow>
               (if w = [] then Some (400, ''invalid Welcome wire'')
                else case ml_welcome L w of
                  None \<Rightarrow> Some (400, ''invalid Welcome structure'')
                | Some (suite, refs) \<Rightarrow>
                    (if ml_reference L package \<in> set refs then None
                     else Some (400, ''Welcome does not target claimed KeyPackage reference'')))
           | _ \<Rightarrow> Some (400, ''invalid Welcome wire'')))"

definition use_package :: "string \<Rightarrow> key_package_row list \<Rightarrow> key_package_row list" where
  "use_package ref = update_rows (\<lambda>k. mk_id k = ref \<and> \<not> mk_used k) (\<lambda>k. k\<lparr>mk_used := True\<rparr>)"

text \<open>The loop over the Welcomes; item \<open>k\<close> has the statements \<open>n\<close> to \<open>n + 2\<close> and two draws.\<close>

fun take_welcomes ::
  "'w mls_core \<Rightarrow> mls_lib \<Rightarrow> env \<Rightarrow> nat \<Rightarrow> nat \<Rightarrow> ident \<Rightarrow> int \<Rightarrow> ident list \<Rightarrow> welcome_item list \<Rightarrow> 'w mls_db_scheme \<Rightarrow>
    (nat \<times> string) + 'w mls_db_scheme" where
  "take_welcomes C L env k n chat epoch targets [] s = Inr s"
| "take_welcomes C L env k n chat epoch targets (w # ws) s =
     (if wi_device w \<in> set targets then Inl (400, ''duplicate Welcome recipient'')
      else case (if flt env n then None else query_row (filter (\<lambda>r. mk_id r = wi_package w \<and> \<not> mk_used r) (mls_keypackages s))) of
        None \<Rightarrow> Inl (403, ''Welcome needs a consumed device KeyPackage for this chat'')
      | Some r \<Rightarrow>
          (let s1 = s\<lparr>mls_keypackages := use_package (wi_package w) (mls_keypackages s)\<rparr> in
           if mk_claimed r \<noteq> Some chat \<or> mk_device r \<noteq> wi_device w
           then Inl (403, ''Welcome needs a consumed device KeyPackage for this chat'')
           else if flt env (n + 1) \<or> \<not> recipient_ok s1 chat (mk_device r)
           then Inl (403, ''Welcome recipient unauthorized'')
           else case b64_decode_strict (wi_welcome w) of
             None \<Rightarrow> Inl (400, ''invalid Welcome'')
           | Some welcome \<Rightarrow>
               (case welcome_matches C L r welcome of
                  Some e \<Rightarrow> Inl e
                | None \<Rightarrow>
                    (case StoreMLSWelcomeTx C L (flt env (n + 2)) (now env) (draws env (2 * k)) (draws env (2 * k + 1))
                            s1 chat (mk_device r) (epoch + 1) welcome of
                       None \<Rightarrow> Inl (400, ''invalid Welcome'')
                     | Some s2 \<Rightarrow> take_welcomes C L env (Suc k) (n + 3) chat epoch (wi_device w # targets) ws s2))))"

text \<open>The unique partial index: at most one unconfirmed transition per chat.\<close>

definition insert_transition :: "transition_row \<Rightarrow> transition_row list \<Rightarrow> transition_row list option" where
  "insert_transition t ts =
     (if list_ex (\<lambda>x. mt_chat x = mt_chat t \<and> \<not> mt_confirmed x) ts then None else insert_row mt_id t ts)"

definition set_chat_pending :: "ident \<Rightarrow> 'z db_scheme \<Rightarrow> 'z db_scheme" where
  "set_chat_pending chat s =
     s\<lparr>chats := update_rows (\<lambda>c. c_id c = chat) (\<lambda>c. c\<lparr>c_pending := True\<rparr>) (chats s)\<rparr>"

definition pending_data :: "string \<Rightarrow> int \<Rightarrow> string \<Rightarrow> string" where
  "pending_data hash epoch transition = json_object [json_member ''commit_hash'' (json_string hash),
     json_member ''epoch'' (dec_int epoch), json_member ''transition_id'' (json_string transition)]"

text \<open>The public commit of a member that a request carries.\<close>

definition public_commit :: "mls_lib \<Rightarrow> bytes \<Rightarrow> (nat \<times> string) + public_message" where
  "public_commit L wire =
     (case ml_message L wire of
        None \<Rightarrow> Inl (400, ''invalid MLS commit'')
      | Some (PublicMessage pm) \<Rightarrow>
          (if pu_type pm \<noteq> content_commit \<or> pu_sender_type pm \<noteq> sender_member
           then Inl (400, ''public member commit required'') else Inr pm)
      | Some _ \<Rightarrow> Inl (400, ''public member commit required''))"

definition new_transition ::
  "'w mls_core \<Rightarrow> env \<Rightarrow> identity \<Rightarrow> ident \<Rightarrow> int \<Rightarrow> bytes \<Rightarrow> transition_row" where
  "new_transition C env who chat epoch wire =
     \<lparr>mt_id = uuid env, mt_chat = chat, mt_sender = device_id who, mt_epoch = epoch, mt_hash = digest C wire,
      mt_payload = Seal (prim C) (eng C) (nonce env) wire (transition_aad (uuid env)), mt_confirmed = False,
      mt_created = now env\<rparr>"

text \<open>The statements of the transaction after the signature is verified.\<close>

definition commit_tx ::
  "'w mls_core \<Rightarrow> mls_lib \<Rightarrow> 'w mls_db_scheme mls_hooks \<Rightarrow> env \<Rightarrow> 'w mls_db_scheme \<Rightarrow> welcome_item list \<Rightarrow> identity \<Rightarrow>
    ident \<Rightarrow> int \<Rightarrow> bytes \<Rightarrow> (string \<times> string, 'w mls_db_scheme) outcome" where
  "commit_tx C L H env s ws who chat epoch wire =
     (case run_begin (begin_hooks H) env s chat of
        Inl _ \<Rightarrow> Error 409 ''MLS transition conflicts with admitted AI work'' s
      | Inr s0 \<Rightarrow>
          (case (if flt env 3 then None else insert_transition (new_transition C env who chat epoch wire) (mls_transitions s0)) of
             None \<Rightarrow> Error 409 ''epoch transition already pending'' s
           | Some ts \<Rightarrow>
               (if length ws > 1024 then Error 400 ''too many Welcome recipients'' s
                else case take_welcomes C L env 1 8 chat epoch [] ws (s0\<lparr>mls_transitions := ts\<rparr>) of
                  Inl (code, m) \<Rightarrow> Error code m s
                | Inr s1 \<Rightarrow>
                    (if flt env 4 then Error 500 ''barrier persistence failed'' s
                     else case Append C (shift_env 5 env) (set_chat_pending chat s1) chat ''mls.commit.pending'' []
                             (Some (pending_data (digest C wire) epoch (uuid env))) of
                       Inl _ \<Rightarrow> Error 500 ''event persistence failed'' s
                     | Inr (seq, s2) \<Rightarrow>
                         (if flt env 7 then Error 409 ''concurrent MLS transition'' s
                          else (Reply 202 (uuid env, digest C wire), [], s2))))))"

definition submitMLSCommit ::
  "'w mls_core \<Rightarrow> mls_lib \<Rightarrow> 'w mls_db_scheme mls_hooks \<Rightarrow> env \<Rightarrow> 'w mls_db_scheme \<Rightarrow> commit_input body \<Rightarrow> identity \<Rightarrow>
    ident \<Rightarrow> (string \<times> string, 'w mls_db_scheme) outcome" where
  "submitMLSCommit C L H env s b who chat =
     (case Decode b of
        Inl m \<Rightarrow> Error 400 m s
      | Inr inp \<Rightarrow>
          (if flt env 0 \<or> (case Member s (user_id who) chat of None \<Rightarrow> True | Some (_, can, _) \<Rightarrow> \<not> can)
           then Error 403 ''chat access denied'' s
           else case b64_decode_strict (cm_commit inp) of
             None \<Rightarrow> Error 400 ''invalid commit encoding'' s
           | Some wire \<Rightarrow>
               (case public_commit L wire of
                  Inl (code, m) \<Rightarrow> Error code m s
                | Inr pm \<Rightarrow>
                    (if flt env 1 then Error 500 ''transaction unavailable'' s
                     else case (if flt env 2 then None else commit_sender s who chat) of
                       None \<Rightarrow> Error 409 ''commit group, sender or epoch mismatch'' s
                     | Some (gid, gc, epoch, leaf, sign) \<Rightarrow>
                         (if pu_epoch pm \<noteq> epoch \<or> pu_group pm \<noteq> gid \<or> pu_leaf pm \<noteq> leaf
                          then Error 409 ''commit group, sender or epoch mismatch'' s
                          else case b64_decode_strict sign of
                            None \<Rightarrow> Error 403 ''registered signing key required'' s
                          | Some key \<Rightarrow>
                              (if length key \<noteq> 32 then Error 403 ''registered signing key required'' s
                               else if \<not> ml_verify_label L key ''FramedContentTBS'' (ml_tbs L pm gc) (pu_signature pm)
                               then Error 403 ''invalid MLS commit signature'' s
                               else commit_tx C L H env s (cm_welcomes inp) who chat epoch wire))))))"

subsection \<open>Reading the state and the inbox\<close>

definition getMLSState ::
  "env \<Rightarrow> 'w mls_db_scheme \<Rightarrow> identity \<Rightarrow> ident \<Rightarrow>
    (string \<times> string \<times> int \<times> bool \<times> relay_member list, 'w mls_db_scheme) outcome" where
  "getMLSState env s who chat =
     (if flt env 0 \<or> Member s (user_id who) chat = None then Error 403 ''chat access denied'' s
      else case (if flt env 1 then None else query_row [(g, c). g \<leftarrow> mls_groups s, mg_chat g = chat,
          c \<leftarrow> chats s, c_id c = mg_chat g]) of
        None \<Rightarrow> Error 409 ''MLS group not initialized'' s
      | Some (g, c) \<Rightarrow>
          (if flt env 2 then Error 500 ''roster unavailable'' s
           else if flt env 3 then Error 500 ''invalid roster'' s
           else (Reply 200 (b64_encode (mg_group g), b64_encode (mg_context g), c_epoch c, c_pending c,
               map (\<lambda>r. \<lparr>rm_device = mr_device r, rm_leaf = mr_leaf r\<rparr>)
                 (sort_key mr_device (filter (\<lambda>r. mr_chat r = chat) (mls_roster s)))), [], s)))"

text \<open>
  Rows are read in the order of their row numbers, which is the order of the list; a cursor is the
  identifier of the last row seen.
\<close>

fun after_row :: "('r \<Rightarrow> bool) \<Rightarrow> 'r list \<Rightarrow> 'r list" where
  "after_row p [] = []"
| "after_row p (r # rs) = (if p r then rs else after_row p rs)"

definition cursor_rows :: "('r \<Rightarrow> string) \<Rightarrow> ('r \<Rightarrow> bool) \<Rightarrow> string \<Rightarrow> 'r list \<Rightarrow> 'r list option" where
  "cursor_rows key p cursor rs =
     (if cursor = [] then Some rs
      else if list_ex (\<lambda>r. key r = cursor \<and> p r) rs then Some (after_row (\<lambda>r. key r = cursor) rs) else None)"

fun open_rows :: "'z core \<Rightarrow> ('r \<Rightarrow> bytes) \<Rightarrow> ('r \<Rightarrow> bytes) \<Rightarrow> 'r list \<Rightarrow> ('r \<times> string) list option" where
  "open_rows C payload aad [] = Some []"
| "open_rows C payload aad (r # rs) =
     (case Open (prim C) (eng C) (payload r) (aad r) of
        Inl _ \<Rightarrow> None
      | Inr wire \<Rightarrow> map_option ((#) (r, b64_encode wire)) (open_rows C payload aad rs))"

definition last_key :: "('r \<Rightarrow> string) \<Rightarrow> string \<Rightarrow> 'r list \<Rightarrow> string" where
  "last_key key cursor rs = (if rs = [] then cursor else key (last rs))"

definition inbox_controls :: "'w mls_db_scheme \<Rightarrow> ident \<Rightarrow> ident \<Rightarrow> control_row list \<Rightarrow> control_row list" where
  "inbox_controls s chat device rs = take 100 (filter (\<lambda>r. mc_chat r = chat \<and> mc_target r = device) rs)"

definition inbox_transitions :: "'w mls_db_scheme \<Rightarrow> ident \<Rightarrow> ident \<Rightarrow> transition_row list \<Rightarrow> transition_row list" where
  "inbox_transitions s chat device rs = take 100 [t. t \<leftarrow> rs, mt_chat t = chat,
     r \<leftarrow> mls_roster s, mr_chat r = mt_chat t \<and> mr_device r = device]"

definition getMLSInbox ::
  "'w mls_core \<Rightarrow> env \<Rightarrow> 'w mls_db_scheme \<Rightarrow> string \<Rightarrow> string \<Rightarrow> identity \<Rightarrow> ident \<Rightarrow>
    ((control_row \<times> string) list \<times> (transition_row \<times> string) list \<times> string \<times> string, 'w mls_db_scheme) outcome" where
  "getMLSInbox C env s afterWelcome afterCommit who chat =
     (if flt env 0 \<or> Member s (user_id who) chat = None then Error 403 ''chat access denied'' s
      else case (if afterWelcome \<noteq> [] \<and> flt env 1 then None else cursor_rows mc_id
          (\<lambda>r. mc_chat r = chat \<and> mc_target r = device_id who) afterWelcome (mls_controls s)) of
        None \<Rightarrow> Error 400 ''invalid Welcome cursor'' s
      | Some cs \<Rightarrow>
          (case (if afterCommit \<noteq> [] \<and> flt env 2 then None else cursor_rows mt_id (\<lambda>r. mt_chat r = chat) afterCommit (mls_transitions s)) of
             None \<Rightarrow> Error 400 ''invalid commit cursor'' s
           | Some ts \<Rightarrow>
               (if flt env 3 then Error 500 ''MLS inbox unavailable'' s
                else case open_rows C mc_payload (\<lambda>r. control_aad (mc_id r) (device_id who)) (inbox_controls s chat (device_id who) cs) of
                  None \<Rightarrow> Error 500 ''MLS inbox authentication failed'' s
                | Some controls \<Rightarrow>
                    (if flt env 4 then Error 500 ''MLS transitions unavailable'' s
                     else case open_rows C mt_payload (\<lambda>r. transition_aad (mt_id r)) (inbox_transitions s chat (device_id who) ts) of
                       None \<Rightarrow> Error 500 ''MLS commit authentication failed'' s
                     | Some commits \<Rightarrow>
                         (Reply 200 (controls, commits, last_key (\<lambda>r. mc_id (fst r)) afterWelcome controls,
                            last_key (\<lambda>r. mt_id (fst r)) afterCommit commits), [], s)))))"

subsection \<open>Confirmation\<close>

record confirm_input =
  cf_transition :: string
  cf_group :: string
  cf_context :: string
  cf_previous :: int
  cf_epoch :: int
  cf_signer :: ident
  cf_signature :: string
  cf_roster :: "relay_member list"

text \<open>The transition that a confirmation of an existing group names: its hash and its commit.\<close>

definition pending_transition ::
  "'w mls_core \<Rightarrow> env \<Rightarrow> 'w mls_db_scheme \<Rightarrow> ident \<Rightarrow> confirm_input \<Rightarrow> bytes \<Rightarrow> (nat \<times> string) + string \<times> bytes" where
  "pending_transition C env s chat inp gid =
     (if cf_previous inp < 0 \<or> cf_previous inp = 2 ^ 63 - 1 \<or> cf_epoch inp \<noteq> cf_previous inp + 1
      then Inl (409, ''epoch must advance by one'')
      else case (if flt env 2 then None else query_row [(mg_group g, c_epoch c, c_pending c).
          g \<leftarrow> mls_groups s, mg_chat g = chat, c \<leftarrow> chats s, c_id c = mg_chat g]) of
        None \<Rightarrow> Inl (409, ''stale MLS confirmation'')
      | Some (oldGID, oldEpoch, pending) \<Rightarrow>
          (if \<not> pending \<or> oldEpoch \<noteq> cf_previous inp \<or> oldGID \<noteq> gid then Inl (409, ''stale MLS confirmation'')
           else if flt env 3 \<or> count_rows (\<lambda>r. mr_chat r = chat \<and> mr_device r = cf_signer inp) (mls_roster s) \<noteq> 1
           then Inl (403, ''existing MLS participant signer required'')
           else case (if flt env 4 then None else query_row (filter (\<lambda>t. mt_id t = cf_transition inp \<and> mt_chat t = chat
               \<and> mt_epoch t = cf_previous inp \<and> mt_sender t = cf_signer inp \<and> \<not> mt_confirmed t) (mls_transitions s))) of
             None \<Rightarrow> Inl (409, ''pending signed transition required'')
           | Some t \<Rightarrow>
               (case Open (prim C) (eng C) (mt_payload t) (transition_aad (cf_transition inp)) of
                  Inl _ \<Rightarrow> Inl (500, ''commit authentication failed'')
                | Inr wire \<Rightarrow> Inr (mt_hash t, wire))))"

definition confirm_row :: "string \<Rightarrow> transition_row list \<Rightarrow> transition_row list" where
  "confirm_row d = update_rows (\<lambda>t. mt_id t = d \<and> \<not> mt_confirmed t) (\<lambda>t. t\<lparr>mt_confirmed := True\<rparr>)"

text \<open>What the confirmation writes: for a new group, or for the next epoch of an existing one.\<close>

definition confirm_writes ::
  "mls_lib \<Rightarrow> 'w mls_db_scheme mls_hooks \<Rightarrow> env \<Rightarrow> 'w mls_db_scheme \<Rightarrow> ident \<Rightarrow> confirm_input \<Rightarrow> bytes \<Rightarrow> bytes \<Rightarrow> bytes \<Rightarrow>
    (nat \<times> string) + 'w mls_db_scheme" where
  "confirm_writes L H env s chat inp gid gc wire =
     (if cf_previous inp = -1 then
        (case InitMLSRelayTx L (shift_faults 2000 (flt env)) s chat gid gc (cf_epoch inp) (cf_roster inp) of
           None \<Rightarrow> Inl (409, ''MLS initialization or confirmation conflict'')
         | Some s1 \<Rightarrow> Inr s1)
      else case run_commit (commit_hooks H) env s chat wire of
        Inl _ \<Rightarrow> Inl (409, ''admitted AI participant cannot apply commit'')
      | Inr s0 \<Rightarrow>
          (case saveMLSRoster (shift_faults 2000 (flt env)) chat (cf_roster inp) s0 of
             None \<Rightarrow> Inl (409, ''MLS initialization or confirmation conflict'')
           | Some s1 \<Rightarrow>
               (if flt env 5 \<or> flt env 6 \<or> flt env 7 then Inl (409, ''MLS initialization or confirmation conflict'')
                else Inr (s1\<lparr>mls_groups := update_rows (\<lambda>g. mg_chat g = chat) (\<lambda>g. g\<lparr>mg_context := gc\<rparr>) (mls_groups s1),
                       mls_transitions := confirm_row (cf_transition inp) (mls_transitions s1),
                       chats := update_rows (\<lambda>c. c_id c = chat \<and> c_epoch c = cf_previous inp \<and> c_pending c)
                         (\<lambda>c. c\<lparr>c_epoch := cf_epoch inp, c_pending := False\<rparr>) (chats s1)\<rparr>))))"

definition confirmed_data :: "confirm_input \<Rightarrow> string" where
  "confirmed_data inp = json_object [json_member ''epoch'' (dec_int (cf_epoch inp)),
     json_member ''roster'' (json_array (map (\<lambda>m. json_object
        [json_member ''device_id'' (json_string (rm_device m)), json_member ''leaf_index'' (dec_int (rm_leaf m))]) (cf_roster inp))),
     json_member ''transition_id'' (json_string (cf_transition inp))]"

text \<open>The signer: a registered device that stays in the roster; its signing key.\<close>

definition confirm_signer :: "bool \<Rightarrow> 'z db_scheme \<Rightarrow> confirm_input \<Rightarrow> (nat \<times> string) + bytes" where
  "confirm_signer fail s inp =
     (case (if fail then None else query_row (map d_signing_key (filter (\<lambda>d. d_id d = cf_signer inp \<and> \<not> d_revoked d) (devices s)))) of
        None \<Rightarrow> Inl (403, ''registered authority signer required'')
      | Some sign \<Rightarrow>
          (case b64_decode_strict sign of
             None \<Rightarrow> Inl (403, ''authority signing key unavailable'')
           | Some pub \<Rightarrow>
               (if length pub \<noteq> 32 then Inl (403, ''authority signing key unavailable'')
                else if \<not> list_ex (\<lambda>m. rm_device m = cf_signer inp) (cf_roster inp)
                then Inl (403, ''signer must remain in approved roster'')
                else Inr pub)))"

definition confirm_commit ::
  "'w mls_core \<Rightarrow> env \<Rightarrow> 'w mls_db_scheme \<Rightarrow> ident \<Rightarrow> confirm_input \<Rightarrow> bytes \<Rightarrow> (nat \<times> string) + string \<times> bytes" where
  "confirm_commit C env s chat inp gid =
     (if cf_previous inp = -1 then
        (if cf_transition inp \<noteq> [] then Inl (400, ''initialization cannot reference transition'') else Inr ([], []))
      else pending_transition C env s chat inp gid)"

definition confirm_tx ::
  "'w mls_core \<Rightarrow> mls_lib \<Rightarrow> 'w mls_db_scheme mls_hooks \<Rightarrow> env \<Rightarrow> 'w mls_db_scheme \<Rightarrow> ident \<Rightarrow> confirm_input \<Rightarrow>
    bytes \<Rightarrow> bytes \<Rightarrow> bytes \<Rightarrow> (int, 'w mls_db_scheme) outcome" where
  "confirm_tx C L H env s chat inp gid gc signature =
     (if flt env 0 then Error 500 ''transaction unavailable'' s
      else if \<not> validateMLSRoster (shift_faults 20 (flt env)) s chat (cf_roster inp)
      then Error 409 ''new roster differs from active account/device ACL'' s
      else case confirm_signer (flt env 1) s inp of
        Inl (code, m) \<Rightarrow> Error code m s
      | Inr pub \<Rightarrow>
          (case confirm_commit C env s chat inp gid of
             Inl (code, m) \<Rightarrow> Error code m s
           | Inr (commitHash, wire) \<Rightarrow>
               (if \<not> ml_ed25519 L pub (MLSRosterProof C chat gid (cf_previous inp) (cf_epoch inp) commitHash gc (cf_roster inp)) signature
                then Error 403 ''invalid roster authority proof'' s
                else case confirm_writes L H env s chat inp gid gc wire of
                  Inl (code, m) \<Rightarrow> Error code m s
                | Inr s1 \<Rightarrow>
                    (case Append C (shift_env 8 env) s1 chat ''mls.epoch.confirmed'' [] (Some (confirmed_data inp)) of
                       Inl _ \<Rightarrow> Error 500 ''MLS event persistence failed'' s
                     | Inr (seq, s2) \<Rightarrow>
                         (if flt env 10 then Error 409 ''concurrent MLS confirmation'' s
                          else (Reply 200 (cf_epoch inp), [], s2))))))"

definition confirmMLSEpoch ::
  "'w mls_core \<Rightarrow> mls_lib \<Rightarrow> 'w mls_db_scheme mls_hooks \<Rightarrow> env \<Rightarrow> 'w mls_db_scheme \<Rightarrow> confirm_input body \<Rightarrow> ident \<Rightarrow>
    (int, 'w mls_db_scheme) outcome" where
  "confirmMLSEpoch C L H env s b chat =
     (case Decode b of
        Inl m \<Rightarrow> Error 400 m s
      | Inr inp \<Rightarrow>
          (case b64_decode_strict (cf_group inp) of
             None \<Rightarrow> Error 400 ''invalid group encoding'' s
           | Some gid \<Rightarrow>
               (case b64_decode_strict (cf_context inp) of
                  None \<Rightarrow> Error 400 ''invalid suite1 context'' s
                | Some gc \<Rightarrow>
                    (if \<not> parseMLSContext L gc gid (cf_epoch inp) \<or> cf_epoch inp \<ge> 2 ^ 63
                     then Error 400 ''invalid suite1 context'' s
                     else case b64_decode_strict (cf_signature inp) of
                       None \<Rightarrow> Error 400 ''invalid authority signature encoding'' s
                     | Some signature \<Rightarrow>
                         (if length signature \<noteq> 64 then Error 400 ''invalid authority signature encoding'' s
                          else confirm_tx C L H env s chat inp gid gc signature)))))"

interpretation mls_prepare: prepare_hook "mls_prepare_hook L" for L
proof
  fix env who chat inp inp' and s :: "'w mls_db_scheme"
  assume h: "mls_prepare_hook L env s who chat inp = Inr inp'"
  then obtain c where "get_row c_id chat (chats s) = Some c" "inp' = inp \<or> c_mode c = ''e2ee''"
    by (auto simp: mls_prepare_hook_def split: if_splits option.splits)
  then show "inp' = inp \<or> (\<exists>c \<in> set (chats s). c_id c = chat \<and> c_mode c = ''e2ee'')" by (auto dest: get_row_SomeD)
qed

interpretation mls_tx: tx_hook mls_tx_hook
  by unfold_locales (auto simp: mls_tx_hook_def split: if_splits)

end
