(* ===== verification/GroupRelay.thy ===== *)
theory GroupRelay
  imports E2EE
begin

text \<open>
  What the MLS relay keeps. The commits of a chat form one chain: their epochs are consecutive, all
  but the last are confirmed, and an open one is of the chat's current epoch and holds the chat's
  barrier (\<open>pending\<close>). Key packages are given out once. All of it is shown for every run
  (\<open>mls_reachable\<close>) of the relay's handlers with any other step that leaves its tables alone.
\<close>

subsection \<open>The chain of commits\<close>

definition gate :: "chat_row \<Rightarrow> ident \<times> int \<times> bool" where
  "gate c = (c_id c, c_epoch c, c_pending c)"

definition gates :: "'z db_scheme \<Rightarrow> (ident \<times> int \<times> bool) list" where
  "gates s = map gate (chats s)"

definition chat_transitions :: "transition_row list \<Rightarrow> ident \<Rightarrow> transition_row list" where
  "chat_transitions ts chat = filter (\<lambda>t. mt_chat t = chat) ts"

definition mark :: "transition_row \<Rightarrow> int \<times> bool" where
  "mark t = (mt_epoch t, mt_confirmed t)"

text \<open>The closed epochs from \<open>k\<close> up to \<open>epoch\<close>, and possibly an open one.\<close>

definition closed_chain :: "int \<Rightarrow> int \<Rightarrow> (int \<times> bool) list" where
  "closed_chain k epoch = map (\<lambda>e. (e, True)) [k..epoch - 1]"

definition chain :: "transition_row list \<Rightarrow> int \<Rightarrow> bool \<Rightarrow> bool" where
  "chain ts epoch pending \<longleftrightarrow> (\<exists>k \<le> epoch. map mark ts = closed_chain k epoch
     \<or> map mark ts = closed_chain k epoch @ [(epoch, False)] \<and> pending)"

definition mls_ok :: "'w mls_db_scheme \<Rightarrow> bool" where
  "mls_ok s \<longleftrightarrow> distinct (map fst (gates s)) \<and> unique_on mt_id (mls_transitions s) \<and> unique_on mg_chat (mls_groups s)
     \<and> mt_chat ` set (mls_transitions s) \<subseteq> mg_chat ` set (mls_groups s)
     \<and> mg_chat ` set (mls_groups s) \<subseteq> fst ` set (gates s)
     \<and> (\<forall>(chat, epoch, pending) \<in> set (gates s). chain (chat_transitions (mls_transitions s) chat) epoch pending)"

lemma mls_okD:
  assumes "mls_ok s"
  shows "distinct (map fst (gates s))" "unique_on mt_id (mls_transitions s)" "unique_on mg_chat (mls_groups s)"
    "mt_chat ` set (mls_transitions s) \<subseteq> mg_chat ` set (mls_groups s)"
    "mg_chat ` set (mls_groups s) \<subseteq> fst ` set (gates s)"
    "(chat, epoch, pending) \<in> set (gates s) \<Longrightarrow> chain (chat_transitions (mls_transitions s) chat) epoch pending"
  using assms by (auto simp: mls_ok_def)

lemma chain_Nil: "chain [] epoch pending"
  unfolding chain_def by (rule exI [of _ epoch]) (simp add: closed_chain_def)

lemma closed_all: "x \<in> set (closed_chain k e) \<Longrightarrow> snd x"
  by (auto simp: closed_chain_def)

text \<open>Without an open transition the chain is closed; with one it ends in it.\<close>

lemma chain_closed:
  assumes "chain ts epoch pending" "\<And>t. t \<in> set ts \<Longrightarrow> mt_confirmed t"
  obtains k where "k \<le> epoch" "map mark ts = closed_chain k epoch"
proof -
  have "(epoch, False) \<notin> set (map mark ts)" using assms(2) by (auto simp: mark_def)
  then have "map mark ts \<noteq> xs @ [(epoch, False)]" for xs by (metis in_set_conv_decomp)
  with assms(1) that show ?thesis unfolding chain_def by blast
qed

lemma chain_open:
  assumes "chain ts epoch pending" "t \<in> set ts" "\<not> mt_confirmed t"
  obtains k us where "k \<le> epoch" "ts = us @ [t]" "map mark us = closed_chain k epoch" "mt_epoch t = epoch" "pending"
    "\<And>u. u \<in> set us \<Longrightarrow> mt_confirmed u"
proof -
  have "(mt_epoch t, False) \<in> set (map mark ts)" using assms(2,3) by (auto simp: mark_def image_iff)
  then have "map mark ts \<noteq> closed_chain k epoch" for k using closed_all by fastforce
  with assms(1) obtain k where k: "k \<le> epoch" "map mark ts = closed_chain k epoch @ [(epoch, False)]" "pending"
    unfolding chain_def by blast
  then obtain us x where ts: "ts = us @ [x]" and us: "map mark us = closed_chain k epoch" and x: "mark x = (epoch, False)"
    by (auto simp: map_eq_append_conv)
  have conf: "mt_confirmed u" if "u \<in> set us" for u
    using closed_all [of "mark u" k epoch] us that by (metis image_eqI list.set_map mark_def snd_conv)
  have "t = x" using assms(2,3) ts conf by auto
  with k ts us x conf that show ?thesis by (auto simp: mark_def)
qed

lemma chain_append:
  assumes "chain ts epoch pending" "\<And>t. t \<in> set ts \<Longrightarrow> mt_confirmed t" "mt_epoch t = epoch" "\<not> mt_confirmed t"
  shows "chain (ts @ [t]) epoch True"
  using assms(1,2) by (rule chain_closed) (use assms(3,4) in \<open>auto simp: chain_def mark_def\<close>)

lemma chain_confirm:
  assumes "chain ts epoch pending" "t \<in> set ts" "\<not> mt_confirmed t"
  shows "chain (update_rows (\<lambda>x. x = t) (\<lambda>x. x\<lparr>mt_confirmed := True\<rparr>) ts) (epoch + 1) p"
  using assms
proof (rule chain_open)
  fix k us assume k: "k \<le> epoch" "ts = us @ [t]" "map mark us = closed_chain k epoch" "mt_epoch t = epoch"
    and conf: "\<And>u. u \<in> set us \<Longrightarrow> mt_confirmed u"
  have "t \<notin> set us" using conf assms(3) by auto
  then have "update_rows (\<lambda>x. x = t) (\<lambda>x. x\<lparr>mt_confirmed := True\<rparr>) ts = us @ [t\<lparr>mt_confirmed := True\<rparr>]"
    using k(2) update_rows_id [of us "\<lambda>x. x = t"] by (auto simp: update_rows_def)
  then have "map mark (update_rows (\<lambda>x. x = t) (\<lambda>x. x\<lparr>mt_confirmed := True\<rparr>) ts) = closed_chain k (epoch + 1)"
    using k by (simp add: closed_chain_def mark_def upto_rec2)
  with k(1) show ?thesis unfolding chain_def by (intro exI [of _ k]) simp
qed

lemma chain_pending: "chain ts epoch p \<Longrightarrow> (p \<longrightarrow> p') \<Longrightarrow> chain ts epoch p'"
  by (auto simp: chain_def)

subsection \<open>Frames\<close>

text \<open>Steps that leave the relay's tables, and of every chat its epoch and its barrier, alone.\<close>

definition same_mls :: "'w mls_db_scheme \<Rightarrow> 'w mls_db_scheme \<Rightarrow> bool" where
  "same_mls s s' \<longleftrightarrow> mls_groups s' = mls_groups s \<and> mls_roster s' = mls_roster s \<and> mls_keypackages s' = mls_keypackages s
     \<and> mls_controls s' = mls_controls s \<and> mls_transitions s' = mls_transitions s"

lemma same_mls_refl [simp]: "same_mls s s"
  by (simp add: same_mls_def)

lemma same_mls_trans: "same_mls s s' \<Longrightarrow> same_mls s' s'' \<Longrightarrow> same_mls s s''"
  by (simp add: same_mls_def)

lemma gates_bump [simp]: "gates (bump_seq chat s) = gates s"
proof -
  have "map gate (update_rows p (\<lambda>c. c\<lparr>c_seq := c_seq c + 1\<rparr>) cs) = map gate cs" for p cs
    by (rule map_update_rows) (simp add: gate_def)
  then show ?thesis by (simp add: gates_def bump_seq_def)
qed

lemma gates_cong: "chats s' = chats s \<Longrightarrow> gates s' = gates s"
  by (simp add: gates_def)

lemma Append_gates: "Append C env s chat kind m d = Inr (n, s') \<Longrightarrow> gates s' = gates s"
  using Append_chats [of C env s chat kind m d n s'] gates_cong [of s' "bump_seq chat s"] by simp

lemma Append_mls: "Append C env (s :: 'w mls_db_scheme) chat kind m d = Inr (n, s') \<Longrightarrow> same_mls s s'"
  by (auto elim!: Append_Inr simp: bump_seq_def same_mls_def)

text \<open>Other modules may hook into a commit; they leave the relay, the chats and the devices alone.\<close>

definition quiet_hook :: "(env \<Rightarrow> 'w mls_db_scheme \<Rightarrow> ident \<Rightarrow> go_error + 'w mls_db_scheme) \<Rightarrow> bool" where
  "quiet_hook h \<longleftrightarrow> (\<forall>env s chat s'. h env s chat = Inr s' \<longrightarrow> same_mls s s' \<and> chats s' = chats s \<and> devices s' = devices s)"

definition quiet_hooks :: "'w mls_db_scheme mls_hooks \<Rightarrow> bool" where
  "quiet_hooks H \<longleftrightarrow> (\<forall>h \<in> set (begin_hooks H). quiet_hook h)
     \<and> (\<forall>h \<in> set (commit_hooks H). \<forall>wire. quiet_hook (\<lambda>env s chat. h env s chat wire))"

lemma run_begin_quiet:
  "\<forall>h \<in> set hs. quiet_hook h \<Longrightarrow> run_begin hs env s chat = Inr s' \<Longrightarrow>
    same_mls s s' \<and> chats s' = chats s \<and> devices s' = devices s"
proof (induction hs arbitrary: s)
  case (Cons h hs)
  from Cons.prems(2) obtain s1 where h: "h env s chat = Inr s1" and r: "run_begin hs env s1 chat = Inr s'"
    by (auto split: sum.splits)
  have "same_mls s s1 \<and> chats s1 = chats s \<and> devices s1 = devices s"
    using Cons.prems(1) h by (auto simp: quiet_hook_def)
  with Cons.IH [OF _ r] Cons.prems(1) show ?case by (auto intro: same_mls_trans)
qed simp

lemma run_commit_quiet:
  "quiet_hooks H \<Longrightarrow> run_commit (commit_hooks H) env s chat wire = Inr s' \<Longrightarrow>
    same_mls s s' \<and> chats s' = chats s \<and> devices s' = devices s"
  unfolding run_commit_def by (rule run_begin_quiet) (auto simp: quiet_hooks_def)

subsection \<open>A commit\<close>

lemma gates_pending: "gates (set_chat_pending chat s) = map (\<lambda>(i, e, p). (i, e, p \<or> i = chat)) (gates s)"
  by (auto simp: gates_def set_chat_pending_def update_rows_def gate_def)

text \<open>The Welcomes of a commit change key packages and controls only.\<close>

definition same_relay :: "'w mls_db_scheme \<Rightarrow> 'w mls_db_scheme \<Rightarrow> bool" where
  "same_relay s s' \<longleftrightarrow> mls_groups s' = mls_groups s \<and> mls_roster s' = mls_roster s \<and> mls_transitions s' = mls_transitions s
     \<and> chats s' = chats s \<and> devices s' = devices s \<and> members s' = members s \<and> users s' = users s"

lemma StoreMLSWelcomeTx_Some:
  assumes "StoreMLSWelcomeTx C L fail t d seed s chat target epoch wire = Some s'"
  shows "same_relay s s'" "mls_keypackages s' = mls_keypackages s"
  using assms by (auto simp: StoreMLSWelcomeTx_def same_relay_def split: option.splits mls_message.splits if_splits)

lemma take_welcomes_Cons:
  assumes "take_welcomes C L env k n chat epoch targets (w # ws) s = Inr s'"
  obtains r wel s2 where "r \<in> set (mls_keypackages s)" "mk_id r = wi_package w" "\<not> mk_used r" "mk_claimed r = Some chat"
    "mk_device r = wi_device w"
    "StoreMLSWelcomeTx C L (flt env (n + 2)) (now env) (draws env (2 * k)) (draws env (2 * k + 1))
      (s\<lparr>mls_keypackages := use_package (wi_package w) (mls_keypackages s)\<rparr>) chat (wi_device w) (epoch + 1) wel = Some s2"
    "take_welcomes C L env (Suc k) (n + 3) chat epoch (wi_device w # targets) ws s2 = Inr s'"
proof -
  from assms obtain r where r: "query_row (filter (\<lambda>r. mk_id r = wi_package w \<and> \<not> mk_used r) (mls_keypackages s)) = Some r"
    by (auto split: if_splits option.splits)
  from query_row_SomeD [OF r] that [of r] assms r show ?thesis
    by (auto simp: Let_def split: if_splits option.splits)
qed

lemma take_welcomes_same: "take_welcomes C L env k n chat epoch targets ws s = Inr s' \<Longrightarrow> same_relay s s'"
proof (induction ws arbitrary: k n targets s)
  case (Cons w ws)
  from Cons.prems show ?case
  proof (rule take_welcomes_Cons)
    fix r wel s2
    assume st: "StoreMLSWelcomeTx C L (flt env (n + 2)) (now env) (draws env (2 * k)) (draws env (2 * k + 1))
      (s\<lparr>mls_keypackages := use_package (wi_package w) (mls_keypackages s)\<rparr>) chat (wi_device w) (epoch + 1) wel = Some s2"
      and rest: "take_welcomes C L env (Suc k) (n + 3) chat epoch (wi_device w # targets) ws s2 = Inr s'"
    have "same_relay s s2" using StoreMLSWelcomeTx_Some(1) [OF st] by (simp add: same_relay_def)
    with Cons.IH [OF rest] show ?case by (simp add: same_relay_def)
  qed
qed (simp add: same_relay_def)

lemma commit_sender_Some:
  assumes "commit_sender s who chat = Some (gid, gc, epoch, leaf, sign)"
  shows "\<exists>g c r d. g \<in> set (mls_groups s) \<and> mg_chat g = chat \<and> mg_group g = gid \<and> mg_context g = gc
    \<and> c \<in> set (chats s) \<and> c_id c = chat \<and> c_epoch c = epoch \<and> r \<in> set (mls_roster s) \<and> mr_chat r = chat
    \<and> mr_device r = device_id who \<and> mr_leaf r = leaf \<and> d \<in> set (devices s) \<and> d_id d = device_id who \<and> \<not> d_revoked d
    \<and> d_signing_key d = sign"
  using query_row_SomeD [OF assms [unfolded commit_sender_def]] by auto

lemma submit_cases:
  assumes "submitMLSCommit C L H env s b who chat = (r, es, s')" "quiet_hooks H"
  obtains (Same) "s' = s" "\<not> is_reply r"
  | (Done) wire pm gid gc epoch leaf sign where "commit_sender s who chat = Some (gid, gc, epoch, leaf, sign)"
      "public_commit L wire = Inr pm" "pu_epoch pm = epoch" "pu_group pm = gid"
      "insert_transition (new_transition C env who chat epoch wire) (mls_transitions s)
         = Some (mls_transitions s @ [new_transition C env who chat epoch wire])"
      "mls_transitions s' = mls_transitions s @ [new_transition C env who chat epoch wire]"
      "mls_groups s' = mls_groups s" "gates s' = map (\<lambda>(i, e, p). (i, e, p \<or> i = chat)) (gates s)"
      "devices s' = devices s" "r = Reply 202 (uuid env, digest C wire)"
proof (cases "is_reply r")
  case True
  from assms(1) True obtain wire pm gid gc epoch leaf sign ws where
    snd: "commit_sender s who chat = Some (gid, gc, epoch, leaf, sign)" and pm: "public_commit L wire = Inr pm"
    "pu_epoch pm = epoch" "pu_group pm = gid" and tx: "commit_tx C L H env s ws who chat epoch wire = (r, es, s')"
    by (auto simp: submitMLSCommit_def split: if_splits option.splits sum.splits prod.splits)
  define t where "t = new_transition C env who chat epoch wire"
  from tx True obtain s0 ts s1 seq where b: "run_begin (begin_hooks H) env s chat = Inr s0"
    and ts: "insert_transition t (mls_transitions s0) = Some ts"
    and tw: "take_welcomes C L env 1 8 chat epoch [] ws (s0\<lparr>mls_transitions := ts\<rparr>) = Inr s1"
    and app: "Append C (shift_env 5 env) (set_chat_pending chat s1) chat ''mls.commit.pending'' []
        (Some (pending_data (digest C wire) epoch (uuid env))) = Inr (seq, s')" and r: "r = Reply 202 (uuid env, digest C wire)"
    by (auto simp: commit_tx_def t_def split: if_splits option.splits sum.splits prod.splits)
  have q: "same_mls s s0 \<and> chats s0 = chats s \<and> devices s0 = devices s"
    by (rule run_begin_quiet [OF _ b]) (use assms(2) in \<open>auto simp: quiet_hooks_def\<close>)
  have ts': "ts = mls_transitions s @ [t]"
    using ts q by (auto simp: insert_transition_def same_mls_def insert_row_def split: if_splits)
  have sr: "same_relay (s0\<lparr>mls_transitions := ts\<rparr>) s1" by (rule take_welcomes_same [OF tw])
  have m: "same_mls (set_chat_pending chat s1) s'" by (rule Append_mls [OF app])
  show ?thesis
  proof (rule Done [OF snd pm])
    show "insert_transition (new_transition C env who chat epoch wire) (mls_transitions s)
         = Some (mls_transitions s @ [new_transition C env who chat epoch wire])"
      using ts ts' q by (simp add: t_def same_mls_def)
    show "mls_transitions s' = mls_transitions s @ [new_transition C env who chat epoch wire]" "mls_groups s' = mls_groups s"
      using m sr q ts' by (simp_all add: same_mls_def same_relay_def set_chat_pending_def t_def)
    have "gates s1 = gates s" using sr q by (intro gates_cong) (simp add: same_relay_def)
    then show "gates s' = map (\<lambda>(i, e, p). (i, e, p \<or> i = chat)) (gates s)"
      by (simp add: Append_gates [OF app] gates_pending)
    show "devices s' = devices s"
      using Append_frame(2) [OF app] sr q by (simp add: same_relay_def set_chat_pending_def)
    show "r = Reply 202 (uuid env, digest C wire)" by (rule r)
  qed
next
  case False
  have "s' = s"
    using assms(1) False
    by (auto simp: submitMLSCommit_def commit_tx_def split: if_splits option.splits sum.splits prod.splits)
  with False Same show ?thesis by blast
qed

lemma mls_okI:
  assumes "distinct (map fst (gates s))" "unique_on mt_id (mls_transitions s)" "unique_on mg_chat (mls_groups s)"
    "mt_chat ` set (mls_transitions s) \<subseteq> mg_chat ` set (mls_groups s)"
    "mg_chat ` set (mls_groups s) \<subseteq> fst ` set (gates s)"
    "\<And>chat epoch pending. (chat, epoch, pending) \<in> set (gates s) \<Longrightarrow> chain (chat_transitions (mls_transitions s) chat) epoch pending"
  shows "mls_ok s"
  using assms by (auto simp: mls_ok_def)

lemma map_gates_fst: "fst ` (\<lambda>(i, e, p). (i, f i e p)) ` A = fst ` (A :: (ident \<times> int \<times> bool) set)"
  by force

lemma submit_ok:
  assumes ok: "mls_ok s" and H: "quiet_hooks H" and run: "submitMLSCommit C L H env s b who chat = (r, es, s')"
  shows "mls_ok s'"
  using run H
proof (cases rule: submit_cases)
  case (Done wire pm gid gc epoch leaf sign)
  let ?t = "new_transition C env who chat epoch wire"
  have t: "mt_chat ?t = chat" "mt_epoch ?t = epoch" "\<not> mt_confirmed ?t" by (simp_all add: new_transition_def)
  from commit_sender_Some [OF Done(1)] have g: "chat \<in> mg_chat ` set (mls_groups s)" and c: "\<exists>p. (chat, epoch, p) \<in> set (gates s)"
    by (force, force simp: gates_def gate_def)
  from Done(5) have noopen: "x \<in> set (mls_transitions s) \<Longrightarrow> mt_chat x = chat \<Longrightarrow> mt_confirmed x" for x
    by (auto simp: insert_transition_def list_ex_iff t split: if_splits)
  from Done(5) have ins: "insert_row mt_id ?t (mls_transitions s) = Some (mls_transitions s @ [?t])"
    by (auto simp: insert_transition_def split: if_splits)
  show ?thesis
  proof (rule mls_okI)
    have "map fst (gates s') = map fst (gates s)" by (simp add: Done(8) case_prod_beta)
    then show "distinct (map fst (gates s'))" using mls_okD(1) [OF ok] by simp
    show "unique_on mt_id (mls_transitions s')" using unique_on_insert [OF ins mls_okD(2) [OF ok]] Done(6) by simp
    show "unique_on mg_chat (mls_groups s')" using mls_okD(3) [OF ok] Done(7) by simp
    show "mt_chat ` set (mls_transitions s') \<subseteq> mg_chat ` set (mls_groups s')"
      using mls_okD(4) [OF ok] g by (simp add: Done(6,7) t)
    show "mg_chat ` set (mls_groups s') \<subseteq> fst ` set (gates s')"
      using mls_okD(5) [OF ok] by (simp add: Done(7,8) map_gates_fst [where f = "\<lambda>i e p. (e, p \<or> i = chat)"])
    show "chain (chat_transitions (mls_transitions s') i) e p" if "(i, e, p) \<in> set (gates s')" for i e p
    proof -
      from that obtain q where q: "(i, e, q) \<in> set (gates s)" "p = (q \<or> i = chat)" by (auto simp: Done(8))
      note ch = mls_okD(6) [OF ok q(1)]
      show ?thesis
      proof (cases "i = chat")
        case True
        from c obtain p' where "(chat, epoch, p') \<in> set (gates s)" by blast
        with q True mls_okD(1) [OF ok] have "e = epoch" by (auto dest: eq_key_imp_eq_value)
        with True q ch have "chain (chat_transitions (mls_transitions s) chat @ [?t]) e True"
          by (intro chain_append) (auto simp: chat_transitions_def t intro: noopen)
        with True q show ?thesis by (simp add: Done(6) chat_transitions_def t)
      next
        case False
        with ch q show ?thesis by (simp add: Done(6) chat_transitions_def t)
      qed
    qed
  qed
qed (use ok in simp)

subsection \<open>A confirmation\<close>

lemma saveMLSRoster_Some:
  "saveMLSRoster f chat roster s = Some s' \<Longrightarrow> \<exists>rs. s' = s\<lparr>mls_roster := rs\<rparr>"
  by (auto simp: saveMLSRoster_def split: if_splits)

lemma gates_set_epoch: "gates (set_epoch chat epoch s) = map (\<lambda>(i, e, p). if i = chat then (i, epoch, False) else (i, e, p)) (gates s)"
  by (auto simp: gates_def set_epoch_def update_rows_def gate_def)

lemma gates_advance: "map gate (update_rows (\<lambda>c. c_id c = chat \<and> c_epoch c = prev \<and> c_pending c)
    (\<lambda>c. c\<lparr>c_epoch := epoch, c_pending := False\<rparr>) cs)
  = map (\<lambda>(i, e, p). if i = chat \<and> e = prev \<and> p then (i, epoch, False) else (i, e, p)) (map gate cs)"
  by (auto simp: update_rows_def gate_def)

lemma Init_Some:
  assumes "InitMLSRelayTx L f s chat gid context epoch roster = Some s'"
  shows "\<exists>g. mg_chat g = chat \<and> insert_row mg_chat g (mls_groups s) = Some (mls_groups s') \<and> mls_transitions s' = mls_transitions s
    \<and> gates s' = map (\<lambda>(i, e, p). if i = chat then (i, epoch, False) else (i, e, p)) (gates s) \<and> chat \<in> fst ` set (gates s)
    \<and> devices s' = devices s"
proof -
  let ?g = "\<lparr>mg_chat = chat, mg_group = gid, mg_context = context\<rparr>"
  from assms obtain gs s1 c where c: "get_row c_id chat (chats s) = Some c" and gs: "insert_row mg_chat ?g (mls_groups s) = Some gs"
    and s1: "saveMLSRoster (shift_faults (5 + length roster) f) chat roster (s\<lparr>mls_groups := gs\<rparr>) = Some s1"
    and s': "s' = set_epoch chat epoch s1"
    by (auto simp: InitMLSRelayTx_def Let_def split: if_splits option.splits)
  from saveMLSRoster_Some [OF s1] obtain rs where rs: "s1 = s\<lparr>mls_groups := gs, mls_roster := rs\<rparr>" by auto
  have "c \<in> set (chats s)" "c_id c = chat" using get_row_SomeD [OF c] by simp_all
  then have "chat \<in> fst ` set (gates s)" by (force simp: gates_def gate_def)
  moreover have "gates s1 = gates s" by (rule gates_cong) (simp add: rs)
  ultimately show ?thesis using gs
    by (intro exI [of _ ?g]) (simp add: s' gates_set_epoch, simp add: rs set_epoch_def)
qed

lemma pending_transition_Inr:
  assumes "pending_transition C env s chat inp gid = Inr (hash, wire)"
  shows "\<exists>t \<in> set (mls_transitions s). mt_id t = cf_transition inp \<and> mt_chat t = chat \<and> mt_epoch t = cf_previous inp
      \<and> mt_sender t = cf_signer inp \<and> \<not> mt_confirmed t \<and> mt_hash t = hash"
    "(chat, cf_previous inp, True) \<in> set (gates s)" "cf_epoch inp = cf_previous inp + 1" "0 \<le> cf_previous inp"
    "\<exists>r \<in> set (mls_roster s). mr_chat r = chat \<and> mr_device r = cf_signer inp"
proof -
  from assms obtain q t where t: "query_row (filter (\<lambda>t. mt_id t = cf_transition inp \<and> mt_chat t = chat
               \<and> mt_epoch t = cf_previous inp \<and> mt_sender t = cf_signer inp \<and> \<not> mt_confirmed t) (mls_transitions s)) = Some t"
    and q: "query_row [(mg_group g, c_epoch c, c_pending c).
          g \<leftarrow> mls_groups s, mg_chat g = chat, c \<leftarrow> chats s, c_id c = mg_chat g] = Some q" "fst (snd q) = cf_previous inp" "snd (snd q)"
    and r: "count_rows (\<lambda>r. mr_chat r = chat \<and> mr_device r = cf_signer inp) (mls_roster s) = 1"
    and h: "mt_hash t = hash" and e: "cf_epoch inp = cf_previous inp + 1" "0 \<le> cf_previous inp"
    by (auto simp: pending_transition_def split: if_splits option.splits sum.splits prod.splits)
  show "\<exists>t \<in> set (mls_transitions s). mt_id t = cf_transition inp \<and> mt_chat t = chat \<and> mt_epoch t = cf_previous inp
      \<and> mt_sender t = cf_signer inp \<and> \<not> mt_confirmed t \<and> mt_hash t = hash"
    using query_row_SomeD [OF t] h by auto
  show "(chat, cf_previous inp, True) \<in> set (gates s)"
    using query_row_SomeD [OF q(1)] q(2,3) by (force simp: gates_def gate_def)
  show "cf_epoch inp = cf_previous inp + 1" "0 \<le> cf_previous inp" by (rule e)+
  have "filter (\<lambda>r. mr_chat r = chat \<and> mr_device r = cf_signer inp) (mls_roster s) \<noteq> []"
    using r by (auto simp: count_rows_def)
  then show "\<exists>r \<in> set (mls_roster s). mr_chat r = chat \<and> mr_device r = cf_signer inp" by (auto simp: filter_empty_conv)
qed

lemma confirm_cases:
  assumes "confirmMLSEpoch C L H env s b chat = (r, es, s')" "quiet_hooks H"
  obtains (Same) "s' = s" "\<not> is_reply r"
  | (Init) inp pub g where "b = Body inp" "confirm_signer False s inp = Inr pub" "mg_chat g = chat"
      "insert_row mg_chat g (mls_groups s) = Some (mls_groups s')" "mls_transitions s' = mls_transitions s"
      "gates s' = map (\<lambda>(i, e, p). if i = chat then (i, cf_epoch inp, False) else (i, e, p)) (gates s)"
      "chat \<in> fst ` set (gates s)" "devices s' = devices s"
  | (Advance) inp pub gid hash wire where "b = Body inp" "confirm_signer False s inp = Inr pub"
      "pending_transition C env s chat inp gid = Inr (hash, wire)"
      "map mg_chat (mls_groups s') = map mg_chat (mls_groups s)"
      "mls_transitions s' = confirm_row (cf_transition inp) (mls_transitions s)"
      "gates s' = map (\<lambda>(i, e, p). if i = chat \<and> e = cf_previous inp \<and> p then (i, cf_epoch inp, False) else (i, e, p)) (gates s)"
      "devices s' = devices s"
proof (cases "is_reply r")
  case True
  with assms(1) obtain inp gid gc signature where b: "b = Body inp"
    and tx: "confirm_tx C L H env s chat inp gid gc signature = (r, es, s')"
    by (cases b) (auto simp: confirmMLSEpoch_def split: if_splits option.splits)
  from tx True obtain pub hash wire s1 seq where signer: "confirm_signer (flt env 1) s inp = Inr pub"
    and com: "confirm_commit C env s chat inp gid = Inr (hash, wire)"
    and wr: "confirm_writes L H env s chat inp gid gc wire = Inr s1"
    and app: "Append C (shift_env 8 env) s1 chat ''mls.epoch.confirmed'' [] (Some (confirmed_data inp)) = Inr (seq, s')"
    by (auto simp: confirm_tx_def split: if_splits sum.splits prod.splits)
  have signer': "confirm_signer False s inp = Inr pub" using signer by (cases "flt env 1") (simp_all add: confirm_signer_def)
  note m = Append_mls [OF app] and ga = Append_gates [OF app] and dv = Append_frame(2) [OF app]
  show ?thesis
  proof (cases "cf_previous inp = -1")
    case True
    with wr have "InitMLSRelayTx L (shift_faults 2000 (flt env)) s chat gid gc (cf_epoch inp) (cf_roster inp) = Some s1"
      by (auto simp: confirm_writes_def split: option.splits)
    from Init_Some [OF this] m ga dv show ?thesis
      by (auto simp: same_mls_def intro!: Init [OF b signer'])
  next
    case False
    with com have pt: "pending_transition C env s chat inp gid = Inr (hash, wire)" by (simp add: confirm_commit_def)
    from False wr obtain s0 s2 where rc: "run_commit (commit_hooks H) env s chat wire = Inr s0"
      and sv: "saveMLSRoster (shift_faults 2000 (flt env)) chat (cf_roster inp) s0 = Some s2"
      and s1: "s1 = s2\<lparr>mls_groups := update_rows (\<lambda>g. mg_chat g = chat) (\<lambda>g. g\<lparr>mg_context := gc\<rparr>) (mls_groups s2),
                       mls_transitions := confirm_row (cf_transition inp) (mls_transitions s2),
                       chats := update_rows (\<lambda>c. c_id c = chat \<and> c_epoch c = cf_previous inp \<and> c_pending c)
                         (\<lambda>c. c\<lparr>c_epoch := cf_epoch inp, c_pending := False\<rparr>) (chats s2)\<rparr>"
      by (auto simp: confirm_writes_def split: if_splits option.splits sum.splits)
    note q = run_commit_quiet [OF assms(2) rc]
    from saveMLSRoster_Some [OF sv] obtain rs where s2: "s2 = s0\<lparr>mls_roster := rs\<rparr>" by blast
    show ?thesis
    proof (rule Advance [OF b signer' pt])
      show "map mg_chat (mls_groups s') = map mg_chat (mls_groups s)"
        using m q by (simp add: same_mls_def s1 s2 map_update_rows)
      show "mls_transitions s' = confirm_row (cf_transition inp) (mls_transitions s)"
        using m q by (simp add: same_mls_def s1 s2)
      show "devices s' = devices s" using dv q by (simp add: s1 s2)
      have "gates s1 = map (\<lambda>(i, e, p). if i = chat \<and> e = cf_previous inp \<and> p then (i, cf_epoch inp, False) else (i, e, p)) (gates s)"
        using q by (simp add: s1 s2 gates_def gates_advance [unfolded map_map])
      then show "gates s' = map (\<lambda>(i, e, p). if i = chat \<and> e = cf_previous inp \<and> p then (i, cf_epoch inp, False) else (i, e, p)) (gates s)"
        by (simp add: ga)
    qed
  qed
next
  case False
  have "s' = s"
    using assms(1) False by (auto simp: confirmMLSEpoch_def confirm_tx_def split: if_splits option.splits sum.splits prod.splits)
  with False Same show ?thesis by blast
qed

lemma fst_case_if: "fst ((\<lambda>(i, e, p). if P i e p then (i, f i e p) else (i, e, p)) x) = fst x"
  by (cases x) simp

lemma map_fst_case_if: "map fst (map (\<lambda>(i, e, p). if P i e p then (i, f i e p) else (i, e, p)) gs) = map fst gs"
  by (simp add: fst_case_if)

lemma set_fst_case_if: "fst ` set (map (\<lambda>(i, e, p). if P i e p then (i, f i e p) else (i, e, p)) gs) = fst ` set gs"
  by (simp only: set_map [symmetric] map_fst_case_if)

lemma confirm_row_eq:
  assumes "unique_on mt_id ts" "t \<in> set ts" "mt_id t = d" "\<not> mt_confirmed t"
  shows "confirm_row d ts = update_rows (\<lambda>x. x = t) (\<lambda>x. x\<lparr>mt_confirmed := True\<rparr>) ts"
  unfolding confirm_row_def update_rows_def
  by (rule map_cong [OF refl]) (use assms unique_on_eqD [OF assms(1)] in auto)

lemma chat_transitions_update:
  "chat_transitions (update_rows (\<lambda>x. x = t) (\<lambda>x. x\<lparr>mt_confirmed := True\<rparr>) ts) chat
    = (if mt_chat t = chat then update_rows (\<lambda>x. x = t) (\<lambda>x. x\<lparr>mt_confirmed := True\<rparr>) (chat_transitions ts chat)
       else chat_transitions ts chat)"
  by (induction ts) (auto simp: chat_transitions_def update_rows_def)

lemma init_ok:
  assumes ok: "mls_ok s" and g: "mg_chat g = chat" "insert_row mg_chat g (mls_groups s) = Some (mls_groups s')"
    and ts: "mls_transitions s' = mls_transitions s" and chat: "chat \<in> fst ` set (gates s)"
    and ga: "gates s' = map (\<lambda>(i, e, p). if i = chat then (i, epoch, False) else (i, e, p)) (gates s)"
  shows "mls_ok s'"
proof -
  note i = insert_row_SomeD [OF g(2)]
  have none: "chat_transitions (mls_transitions s) chat = []"
  proof -
    have "chat \<notin> mt_chat ` set (mls_transitions s)" using i g(1) mls_okD(4) [OF ok] by blast
    then show ?thesis by (auto simp: chat_transitions_def filter_empty_conv)
  qed
  show ?thesis
  proof (rule mls_okI)
    show "distinct (map fst (gates s'))" using mls_okD(1) [OF ok] unfolding ga map_fst_case_if .
    show "unique_on mg_chat (mls_groups s')" by (rule unique_on_insert [OF g(2) mls_okD(3) [OF ok]])
    show "unique_on mt_id (mls_transitions s')" using mls_okD(2) [OF ok] by (simp add: ts)
    show "mt_chat ` set (mls_transitions s') \<subseteq> mg_chat ` set (mls_groups s')"
      using mls_okD(4) [OF ok] i by (auto simp: ts)
    have "fst ` set (gates s') = fst ` set (gates s)"
      unfolding ga by (rule set_fst_case_if)
    then show "mg_chat ` set (mls_groups s') \<subseteq> fst ` set (gates s')"
      using mls_okD(5) [OF ok] i g(1) chat by simp
    show "chain (chat_transitions (mls_transitions s') c) e p" if "(c, e, p) \<in> set (gates s')" for c e p
    proof (cases "c = chat")
      case True
      with none show ?thesis by (simp add: ts chain_Nil)
    next
      case False
      with that have "(c, e, p) \<in> set (gates s)" by (auto simp: ga split: if_splits)
      from mls_okD(6) [OF ok this] show ?thesis by (simp add: ts)
    qed
  qed
qed

lemma confirm_ok:
  assumes ok: "mls_ok s" and H: "quiet_hooks H" and run: "confirmMLSEpoch C L H env s b chat = (r, es, s')"
  shows "mls_ok s'"
  using run H
proof (cases rule: confirm_cases)
  case (Init inp pub g)
  show ?thesis by (rule init_ok [OF ok Init(3,4,5,7,6)])
next
  case (Advance inp pub gid hash wire)
  from pending_transition_Inr [OF Advance(3)] obtain t where
    t: "t \<in> set (mls_transitions s)" "mt_id t = cf_transition inp" "mt_chat t = chat" "\<not> mt_confirmed t"
    and ga: "(chat, cf_previous inp, True) \<in> set (gates s)" and ep: "cf_epoch inp = cf_previous inp + 1" by blast
  have ts: "mls_transitions s' = update_rows (\<lambda>x. x = t) (\<lambda>x. x\<lparr>mt_confirmed := True\<rparr>) (mls_transitions s)"
    using confirm_row_eq [OF mls_okD(2) [OF ok] t(1,2,4)] Advance(5) by simp
  show ?thesis
  proof (rule mls_okI)
    show "distinct (map fst (gates s'))" using mls_okD(1) [OF ok] unfolding Advance(6) map_fst_case_if .
    show "unique_on mg_chat (mls_groups s')" using mls_okD(3) [OF ok] by (simp add: unique_on_def Advance(4))
    show "unique_on mt_id (mls_transitions s')" unfolding ts using mls_okD(2) [OF ok] by (intro unique_on_update) simp_all
    have gi: "mg_chat ` set (mls_groups s') = mg_chat ` set (mls_groups s)"
      using arg_cong [OF Advance(4), of set] by simp
    show "mt_chat ` set (mls_transitions s') \<subseteq> mg_chat ` set (mls_groups s')"
      using mls_okD(4) [OF ok] unfolding gi ts by (auto simp: set_update_rows)
    have "fst ` set (gates s') = fst ` set (gates s)"
      unfolding Advance(6) by (rule set_fst_case_if)
    then show "mg_chat ` set (mls_groups s') \<subseteq> fst ` set (gates s')" using mls_okD(5) [OF ok] gi by simp
    show "chain (chat_transitions (mls_transitions s') c) e p" if g: "(c, e, p) \<in> set (gates s')" for c e p
    proof (cases "c = chat")
      case True
      from g obtain e0 p0 where old: "(c, e0, p0) \<in> set (gates s)"
        and new: "(e, p) = (if c = chat \<and> e0 = cf_previous inp \<and> p0 then (cf_epoch inp, False) else (e0, p0))"
        by (auto simp: Advance(6) split: if_splits)
      from old True have "(chat, e0, p0) \<in> set (gates s)" by simp
      from eq_key_imp_eq_value [OF mls_okD(1) [OF ok] this ga] have "e0 = cf_previous inp" "p0" by simp_all
      with new True ep have ep': "e = cf_previous inp + 1" by simp
      have "t \<in> set (chat_transitions (mls_transitions s) chat)" using t by (simp add: chat_transitions_def)
      from chain_confirm [OF mls_okD(6) [OF ok ga] this t(4)] show ?thesis
        by (simp add: ts chat_transitions_update t(3) True ep')
    next
      case False
      with g have "(c, e, p) \<in> set (gates s)" by (auto simp: Advance(6) split: if_splits)
      from mls_okD(6) [OF ok this] False show ?thesis by (simp add: ts chat_transitions_update t(3))
    qed
  qed
qed (use ok in simp)

subsection \<open>Key packages\<close>

text \<open>Rows stay, and what was claimed stays claimed.\<close>

definition packages_kept :: "key_package_row list \<Rightarrow> key_package_row list \<Rightarrow> bool" where
  "packages_kept ks ks' \<longleftrightarrow> (\<forall>k \<in> set ks. mk_claimed k \<noteq> None \<longrightarrow>
     (\<exists>k' \<in> set ks'. mk_id k' = mk_id k \<and> mk_claimed k' = mk_claimed k))"

definition packages_ok :: "'w mls_db_scheme \<Rightarrow> bool" where
  "packages_ok s \<longleftrightarrow> unique_on mk_id (mls_keypackages s)
     \<and> (\<forall>device. count_rows (unclaimed device) (mls_keypackages s) \<le> 100)
     \<and> (\<forall>k \<in> set (mls_keypackages s). mk_used k \<longrightarrow> mk_claimed k \<noteq> None)"

lemma packages_kept_refl [simp]: "packages_kept ks ks"
  by (auto simp: packages_kept_def)

lemma packages_kept_trans: "packages_kept ks ks' \<Longrightarrow> packages_kept ks' ks'' \<Longrightarrow> packages_kept ks ks''"
  unfolding packages_kept_def by metis

lemma count_rows_update_le:
  "(\<And>r. r \<in> set t \<Longrightarrow> p r \<Longrightarrow> P (f r) \<Longrightarrow> P r) \<Longrightarrow> count_rows P (update_rows p f t) \<le> count_rows P t"
  unfolding count_rows_def by (rule length_filter_update_le)

lemma upload_packages:
  assumes "uploadMLSKeyPackage C L env s b who = (r, es, s')"
  obtains "s' = s" | k where "s' = s\<lparr>mls_keypackages := mls_keypackages s @ [k]\<rparr>" "mk_id k \<notin> mk_id ` set (mls_keypackages s)"
    "mk_claimed k = None" "\<not> mk_used k" "mk_device k = device_id who"
    "count_rows (unclaimed (device_id who)) (mls_keypackages s) < 100"
proof (cases "s' = s")
  case False
  with assms that(2) show ?thesis
    by (auto simp: uploadMLSKeyPackage_def Let_def get_row_None_iff split: if_splits option.splits sum.splits)
qed (rule that(1))

lemma oldest_unclaimed_Some:
  "oldest_unclaimed s device = Some k \<Longrightarrow> k \<in> set (mls_keypackages s) \<and> mk_device k = device \<and> mk_claimed k = None"
  by (auto simp: oldest_unclaimed_def unclaimed_def dest: query_row_SomeD)

lemma claim_packages:
  assumes "claimMLSKeyPackage C L env s who chat target = (r, es, s')"
  obtains "s' = s" "\<not> is_reply r" | k where "k \<in> set (mls_keypackages s)" "mk_device k = target" "mk_claimed k = None"
    "s' = s\<lparr>mls_keypackages := claim_row (mk_id k) chat (mls_keypackages s)\<rparr>"
    "\<And>d v. r = Reply d v \<Longrightarrow> fst v = mk_id k"
proof (cases "(if flt env 3 then None else oldest_unclaimed s target)")
  case None
  with assms that(1) show ?thesis by (auto simp: claimMLSKeyPackage_def split: if_splits)
next
  case (Some k)
  then have k: "k \<in> set (mls_keypackages s)" "mk_device k = target" "mk_claimed k = None"
    using oldest_unclaimed_Some [of s target k] by (simp_all split: if_splits)
  from assms Some have "s' = s \<and> \<not> is_reply r
      \<or> s' = s\<lparr>mls_keypackages := claim_row (mk_id k) chat (mls_keypackages s)\<rparr> \<and> (\<forall>d v. r = Reply d v \<longrightarrow> fst v = mk_id k)"
    by (auto simp: claimMLSKeyPackage_def Let_def split: if_splits option.splits sum.splits)
  with k that show ?thesis by blast
qed

lemma upload_packages_ok:
  assumes "packages_ok s" "uploadMLSKeyPackage C L env s b who = (r, es, s')"
  shows "packages_ok s' \<and> packages_kept (mls_keypackages s) (mls_keypackages s')"
  using assms(2)
proof (rule upload_packages)
  fix k assume k: "s' = s\<lparr>mls_keypackages := mls_keypackages s @ [k]\<rparr>" "mk_id k \<notin> mk_id ` set (mls_keypackages s)"
    "mk_claimed k = None" "\<not> mk_used k" "mk_device k = device_id who"
    "count_rows (unclaimed (device_id who)) (mls_keypackages s) < 100"
  have "count_rows (unclaimed d) (mls_keypackages s @ [k]) \<le> 100" for d
    using assms(1) k(5,6) by (cases "d = device_id who") (auto simp: packages_ok_def count_rows_def unclaimed_def)
  with assms(1) k show ?thesis by (auto simp: packages_ok_def packages_kept_def unique_on_append1)
qed (use assms(1) in simp)

lemma claim_row_kept: "packages_kept ks (claim_row ref chat ks)"
  unfolding packages_kept_def claim_row_def
  by (auto simp: set_update_rows intro!: image_eqI bexI)

lemma claim_packages_ok:
  assumes "packages_ok s" "claimMLSKeyPackage C L env s who chat target = (r, es, s')"
  shows "packages_ok s' \<and> packages_kept (mls_keypackages s) (mls_keypackages s')"
  using assms(2)
proof (rule claim_packages)
  fix k assume k: "k \<in> set (mls_keypackages s)" "s' = s\<lparr>mls_keypackages := claim_row (mk_id k) chat (mls_keypackages s)\<rparr>"
  have "unique_on mk_id (claim_row (mk_id k) chat (mls_keypackages s))"
    using assms(1) unfolding claim_row_def packages_ok_def by (intro unique_on_update) simp_all
  moreover have "count_rows (unclaimed d) (claim_row (mk_id k) chat (mls_keypackages s)) \<le> 100" for d
    using assms(1) count_rows_update_le [of "mls_keypackages s" "\<lambda>x. mk_id x = mk_id k \<and> mk_claimed x = None" "unclaimed d"
        "\<lambda>x. x\<lparr>mk_claimed := Some chat\<rparr>"]
    by (auto simp: packages_ok_def claim_row_def unclaimed_def intro: order_trans)
  ultimately show ?thesis using assms(1) claim_row_kept [of "mls_keypackages s" "mk_id k" chat] k(2)
    by (auto simp: packages_ok_def claim_row_def set_update_rows)
qed (use assms(1) in simp)

lemma use_package_ok:
  assumes "packages_ok s" "r \<in> set (mls_keypackages s)" "mk_id r = ref" "mk_claimed r \<noteq> None"
  shows "packages_ok (s\<lparr>mls_keypackages := use_package ref (mls_keypackages s)\<rparr>)
    \<and> packages_kept (mls_keypackages s) (use_package ref (mls_keypackages s))"
proof -
  have "unique_on mk_id (use_package ref (mls_keypackages s))"
    using assms(1) unfolding use_package_def packages_ok_def by (intro unique_on_update) simp_all
  moreover have "count_rows (unclaimed d) (use_package ref (mls_keypackages s)) \<le> 100" for d
    using assms(1) count_rows_update_le [of "mls_keypackages s" "\<lambda>x. mk_id x = ref \<and> \<not> mk_used x" "unclaimed d"
        "\<lambda>x. x\<lparr>mk_used := True\<rparr>"]
    by (auto simp: packages_ok_def use_package_def unclaimed_def intro: order_trans)
  moreover have "mk_claimed k \<noteq> None" if "k \<in> set (mls_keypackages s)" "mk_id k = ref" for k
    using unique_on_eqD [of mk_id "mls_keypackages s" k r] that assms by (auto simp: packages_ok_def)
  moreover have "packages_kept (mls_keypackages s) (use_package ref (mls_keypackages s))"
    unfolding packages_kept_def
  proof (intro ballI impI)
    fix k assume "k \<in> set (mls_keypackages s)" "mk_claimed k \<noteq> None"
    then show "\<exists>k' \<in> set (use_package ref (mls_keypackages s)). mk_id k' = mk_id k \<and> mk_claimed k' = mk_claimed k"
      by (intro bexI [of _ "if mk_id k = ref \<and> \<not> mk_used k then k\<lparr>mk_used := True\<rparr> else k"])
        (auto simp: use_package_def set_update_rows)
  qed
  ultimately show ?thesis using assms(1)
    by (auto simp: packages_ok_def use_package_def set_update_rows split: if_splits)
qed

lemma take_welcomes_packages:
  "take_welcomes C L env k n chat epoch targets ws s = Inr s' \<Longrightarrow> packages_ok s \<Longrightarrow>
    packages_ok s' \<and> packages_kept (mls_keypackages s) (mls_keypackages s')"
proof (induction ws arbitrary: k n targets s)
  case (Cons w ws)
  from Cons.prems(1) show ?case
  proof (rule take_welcomes_Cons)
    fix r wel s2
    assume r: "r \<in> set (mls_keypackages s)" "mk_id r = wi_package w" "mk_claimed r = Some chat"
      and st: "StoreMLSWelcomeTx C L (flt env (n + 2)) (now env) (draws env (2 * k)) (draws env (2 * k + 1))
      (s\<lparr>mls_keypackages := use_package (wi_package w) (mls_keypackages s)\<rparr>) chat (wi_device w) (epoch + 1) wel = Some s2"
      and rest: "take_welcomes C L env (Suc k) (n + 3) chat epoch (wi_device w # targets) ws s2 = Inr s'"
    from r(3) have "mk_claimed r \<noteq> None" by simp
    note u = use_package_ok [OF Cons.prems(2) r(1,2) this]
    have eq: "mls_keypackages s2 = use_package (wi_package w) (mls_keypackages s)"
      using StoreMLSWelcomeTx_Some(2) [OF st] by simp
    with u have "packages_ok s2" by (simp add: packages_ok_def)
    from Cons.IH [OF rest this] u eq show ?case by (auto intro: packages_kept_trans)
  qed
qed simp

lemma submit_packages_ok:
  assumes "packages_ok s" "quiet_hooks H" "submitMLSCommit C L H env s b who chat = (r, es, s')"
  shows "packages_ok s' \<and> packages_kept (mls_keypackages s) (mls_keypackages s')"
proof (cases "s' = s")
  case False
  with assms(3) obtain wire gid gc epoch leaf sign ws where tx: "commit_tx C L H env s ws who chat epoch wire = (r, es, s')"
    by (auto simp: submitMLSCommit_def split: if_splits option.splits sum.splits prod.splits)
  from tx False obtain s0 ts s1 seq where b: "run_begin (begin_hooks H) env s chat = Inr s0"
    and tw: "take_welcomes C L env 1 8 chat epoch [] ws (s0\<lparr>mls_transitions := ts\<rparr>) = Inr s1"
    and app: "Append C (shift_env 5 env) (set_chat_pending chat s1) chat ''mls.commit.pending'' []
        (Some (pending_data (digest C wire) epoch (uuid env))) = Inr (seq, s')"
    by (auto simp: commit_tx_def split: if_splits option.splits sum.splits prod.splits)
  have "same_mls s s0" using run_begin_quiet [OF _ b] assms(2) by (auto simp: quiet_hooks_def)
  then have k0: "mls_keypackages s0 = mls_keypackages s" by (simp add: same_mls_def)
  with assms(1) have "packages_ok (s0\<lparr>mls_transitions := ts\<rparr>)" by (simp add: packages_ok_def)
  from take_welcomes_packages [OF tw this] have "packages_ok s1 \<and> packages_kept (mls_keypackages s) (mls_keypackages s1)"
    using k0 by simp
  moreover have "mls_keypackages s' = mls_keypackages s1"
    using Append_mls [OF app] by (simp add: same_mls_def set_chat_pending_def)
  ultimately show ?thesis by (simp add: packages_ok_def)
qed (use assms(1) in simp)

lemma confirm_keypackages:
  assumes "quiet_hooks H" "confirmMLSEpoch C L H env s b chat = (r, es, s')"
  shows "mls_keypackages s' = mls_keypackages s"
proof (cases "s' = s")
  case False
  with assms(2) obtain inp gid gc wire s1 seq where
    wr: "confirm_writes L H env s chat inp gid gc wire = Inr s1"
    and app: "Append C (shift_env 8 env) s1 chat ''mls.epoch.confirmed'' [] (Some (confirmed_data inp)) = Inr (seq, s')"
    by (auto simp: confirmMLSEpoch_def confirm_tx_def split: if_splits option.splits sum.splits prod.splits)
  have "mls_keypackages s1 = mls_keypackages s"
    using wr run_commit_quiet [OF assms(1)]
    by (auto simp: confirm_writes_def InitMLSRelayTx_def Let_def same_mls_def set_epoch_def dest!: saveMLSRoster_Some
        split: if_splits option.splits sum.splits)
  with Append_mls [OF app] show ?thesis by (simp add: same_mls_def)
qed simp

subsection \<open>Runs\<close>

text \<open>
  The chat of an AI participant gets its group and the human's Welcome with \<open>InitMLSRelayTx\<close> and
  \<open>StoreMLSWelcomeTx\<close> in one transaction (\<open>ms_init\<close>). Any other step: it leaves the relay's tables alone, keeps every chat's epoch, does not lift a barrier,
  adds chats under new identifiers, and does not bring a revoked device back.
\<close>

definition gates_forward :: "'z db_scheme \<Rightarrow> 'z db_scheme \<Rightarrow> bool" where
  "gates_forward s s' \<longleftrightarrow> distinct (map fst (gates s')) \<and> fst ` set (gates s) \<subseteq> fst ` set (gates s')
     \<and> (\<forall>(i, e, p) \<in> set (gates s'). i \<in> fst ` set (gates s) \<longrightarrow> (\<exists>q. (i, e, q) \<in> set (gates s) \<and> (q \<longrightarrow> p)))"

definition device_gone :: "'z db_scheme \<Rightarrow> ident \<Rightarrow> bool" where
  "device_gone s d \<longleftrightarrow> (\<forall>x \<in> set (devices s). d_id x = d \<longrightarrow> d_revoked x)"

definition other_step :: "'w mls_db_scheme \<Rightarrow> 'w mls_db_scheme \<Rightarrow> bool" where
  "other_step s s' \<longleftrightarrow> same_mls s s' \<and> gates_forward s s'
     \<and> (\<forall>d. d \<in> d_id ` set (devices s) \<longrightarrow> device_gone s d \<longrightarrow> d \<in> d_id ` set (devices s') \<and> device_gone s' d)"

inductive mls_step :: "'w mls_core \<Rightarrow> mls_lib \<Rightarrow> 'w mls_db_scheme mls_hooks \<Rightarrow> 'w mls_db_scheme \<Rightarrow> 'w mls_db_scheme \<Rightarrow> bool"
  for C L H where
  ms_upload: "uploadMLSKeyPackage C L env s b who = (r, es, s') \<Longrightarrow> mls_step C L H s s'"
| ms_claim: "claimMLSKeyPackage C L env s who chat target = (r, es, s') \<Longrightarrow> mls_step C L H s s'"
| ms_commit: "submitMLSCommit C L H env s b who chat = (r, es, s') \<Longrightarrow> mls_step C L H s s'"
| ms_confirm: "confirmMLSEpoch C L H env s c chat = (r', es, s') \<Longrightarrow> mls_step C L H s s'"
| ms_init: "InitMLSRelayTx L f s chat gid context epoch roster = Some s1 \<Longrightarrow>
    StoreMLSWelcomeTx C L fail t d seed s1 chat target epoch wire = Some s' \<Longrightarrow> mls_step C L H s s'"
| ms_other: "other_step s s' \<Longrightarrow> mls_step C L H s s'"

inductive mls_run :: "'w mls_core \<Rightarrow> mls_lib \<Rightarrow> 'w mls_db_scheme mls_hooks \<Rightarrow> 'w mls_db_scheme \<Rightarrow> 'w mls_db_scheme \<Rightarrow> bool"
  for C L H where
  mr_refl: "mls_run C L H s s"
| mr_step: "mls_run C L H s s1 \<Longrightarrow> mls_step C L H s1 s2 \<Longrightarrow> mls_run C L H s s2"

definition mls_fresh :: "'w mls_db_scheme \<Rightarrow> bool" where
  "mls_fresh s \<longleftrightarrow> distinct (map fst (gates s)) \<and> mls_groups s = [] \<and> mls_transitions s = [] \<and> mls_keypackages s = []"

lemma mls_ok_gates:
  assumes "mls_transitions s' = mls_transitions s" "mls_groups s' = mls_groups s" "gates s' = gates s"
  shows "mls_ok s' = mls_ok s"
  using assms by (simp add: mls_ok_def)

lemma other_step_ok:
  assumes ok: "mls_ok s" and st: "other_step s s'"
  shows "mls_ok s'"
proof (rule mls_okI)
  from st have m: "mls_groups s' = mls_groups s" "mls_transitions s' = mls_transitions s" and f: "gates_forward s s'"
    by (simp_all add: other_step_def same_mls_def)
  show "distinct (map fst (gates s'))" using f by (simp add: gates_forward_def)
  show "unique_on mt_id (mls_transitions s')" "unique_on mg_chat (mls_groups s')"
    "mt_chat ` set (mls_transitions s') \<subseteq> mg_chat ` set (mls_groups s')"
    using mls_okD(2-4) [OF ok] m by simp_all
  show "mg_chat ` set (mls_groups s') \<subseteq> fst ` set (gates s')"
    using mls_okD(5) [OF ok] f m by (auto simp: gates_forward_def)
  show "chain (chat_transitions (mls_transitions s') i) e p" if g: "(i, e, p) \<in> set (gates s')" for i e p
  proof (cases "i \<in> fst ` set (gates s)")
    case True
    from f have "\<forall>(i, e, p) \<in> set (gates s'). i \<in> fst ` set (gates s) \<longrightarrow> (\<exists>q. (i, e, q) \<in> set (gates s) \<and> (q \<longrightarrow> p))"
      by (simp add: gates_forward_def)
    from bspec [OF this g] True obtain q where "(i, e, q) \<in> set (gates s)" "q \<longrightarrow> p" by auto
    from chain_pending [OF mls_okD(6) [OF ok this(1)] this(2)] show ?thesis by (simp add: m)
  next
    case False
    then have "i \<notin> mt_chat ` set (mls_transitions s)" using mls_okD(4,5) [OF ok] by blast
    then have "chat_transitions (mls_transitions s) i = []" by (auto simp: chat_transitions_def filter_empty_conv)
    then show ?thesis by (simp add: m chain_Nil)
  qed
qed

lemma packages_frame:
  "uploadMLSKeyPackage C L env s b who = (r, es, s') \<Longrightarrow>
    mls_transitions s' = mls_transitions s \<and> mls_groups s' = mls_groups s \<and> gates s' = gates s \<and> devices s' = devices s"
  "claimMLSKeyPackage C L env s who chat target = (r', es, s') \<Longrightarrow>
    mls_transitions s' = mls_transitions s \<and> mls_groups s' = mls_groups s \<and> gates s' = gates s \<and> devices s' = devices s"
  by (erule upload_packages; simp add: gates_def) (erule claim_packages; simp add: gates_def)

lemma relay_init:
  assumes "InitMLSRelayTx L f s chat gid context epoch roster = Some s1"
    "StoreMLSWelcomeTx C L fail t d seed s1 chat target epoch wire = Some s'"
  shows "\<exists>g. mg_chat g = chat \<and> insert_row mg_chat g (mls_groups s) = Some (mls_groups s') \<and> mls_transitions s' = mls_transitions s
    \<and> gates s' = map (\<lambda>(i, e, p). if i = chat then (i, epoch, False) else (i, e, p)) (gates s) \<and> chat \<in> fst ` set (gates s)
    \<and> devices s' = devices s \<and> mls_keypackages s' = mls_keypackages s"
proof -
  note st = StoreMLSWelcomeTx_Some [OF assms(2)]
  have "mls_keypackages s1 = mls_keypackages s"
    using assms(1) by (auto simp: InitMLSRelayTx_def Let_def set_epoch_def dest!: saveMLSRoster_Some split: if_splits option.splits)
  with Init_Some [OF assms(1)] st show ?thesis
    using gates_cong [of s' s1] by (simp add: same_relay_def)
qed

lemma mls_step_ok: "mls_step C L H s s' \<Longrightarrow> quiet_hooks H \<Longrightarrow> mls_ok s \<Longrightarrow> mls_ok s'"
proof (induction rule: mls_step.induct)
  case (ms_upload env s b who r es s')
  then show ?case using packages_frame(1) [OF ms_upload(1)] mls_ok_gates [of s' s] by blast
next
  case (ms_claim env s who chat target r es s')
  then show ?case using packages_frame(2) [OF ms_claim(1)] mls_ok_gates [of s' s] by blast
next
  case (ms_init f s chat gid gc epoch roster s1 fail t d seed target wire s')
  from relay_init [OF ms_init(1,2)] obtain g where "mg_chat g = chat" "insert_row mg_chat g (mls_groups s) = Some (mls_groups s')"
    "mls_transitions s' = mls_transitions s" "chat \<in> fst ` set (gates s)"
    "gates s' = map (\<lambda>(i, e, p). if i = chat then (i, epoch, False) else (i, e, p)) (gates s)" by blast
  then show ?case by (rule init_ok [OF ms_init(4)])
qed (blast intro: submit_ok confirm_ok other_step_ok)+

lemma mls_step_packages:
  "mls_step C L H s s' \<Longrightarrow> quiet_hooks H \<Longrightarrow> packages_ok s \<Longrightarrow>
    packages_ok s' \<and> packages_kept (mls_keypackages s) (mls_keypackages s')"
proof (induction rule: mls_step.induct)
  case (ms_confirm env s c chat r' es s')
  from confirm_keypackages [OF ms_confirm(2,1)] ms_confirm(3) show ?case by (simp add: packages_ok_def)
next
  case (ms_other s s')
  then show ?case by (simp add: other_step_def same_mls_def packages_ok_def)
next
  case (ms_upload env s b who r es s')
  show ?case by (rule upload_packages_ok [OF ms_upload(3,1)])
next
  case (ms_claim env s who chat target r es s')
  show ?case by (rule claim_packages_ok [OF ms_claim(3,1)])
next
  case (ms_commit env s b who chat r es s')
  show ?case by (rule submit_packages_ok [OF ms_commit(3,2,1)])
next
  case (ms_init f s chat gid gc epoch roster s1 fail t d seed target wire s')
  with relay_init [OF ms_init(1,2)] show ?case by (auto simp: packages_ok_def)
qed

lemma mls_run_ok: "mls_run C L H s s' \<Longrightarrow> quiet_hooks H \<Longrightarrow> mls_ok s \<Longrightarrow> mls_ok s'"
  by (induction rule: mls_run.induct) (auto dest: mls_step_ok)

lemma mls_run_packages:
  "mls_run C L H s s' \<Longrightarrow> quiet_hooks H \<Longrightarrow> packages_ok s \<Longrightarrow>
    packages_ok s' \<and> packages_kept (mls_keypackages s) (mls_keypackages s')"
proof (induction rule: mls_run.induct)
  case (mr_step s s1 s2)
  then show ?case using mls_step_packages [OF mr_step(2)] packages_kept_trans by blast
qed simp

lemma mls_fresh_ok: "mls_fresh s \<Longrightarrow> mls_ok s \<and> packages_ok s"
  by (simp add: mls_fresh_def mls_ok_def packages_ok_def chat_transitions_def chain_Nil count_rows_def split: prod.split)

subsection \<open>An open commit whose sender is revoked\<close>

definition stuck :: "'w mls_db_scheme \<Rightarrow> transition_row \<Rightarrow> bool" where
  "stuck s t \<longleftrightarrow> t \<in> set (mls_transitions s) \<and> \<not> mt_confirmed t \<and> mt_sender t \<in> d_id ` set (devices s)
     \<and> device_gone s (mt_sender t)"

text \<open>A revocation, an event and a new device are such other steps.\<close>

lemma other_stepI:
  assumes "same_mls s s'" "gates s' = gates s" "distinct (map fst (gates s))"
    "\<And>d. d \<in> d_id ` set (devices s) \<Longrightarrow> device_gone s d \<Longrightarrow> d \<in> d_id ` set (devices s') \<and> device_gone s' d"
  shows "other_step s s'"
  using assms by (auto simp: other_step_def gates_forward_def)

lemma append_other: "mls_ok s \<Longrightarrow> Append C env s chat kind m d = Inr (n, s') \<Longrightarrow> other_step s s'"
  by (rule other_stepI)
    (simp_all add: Append_mls Append_gates Append_frame(2) mls_okD(1) device_gone_def)

lemma revoke_gates:
  "gates (s\<lparr>devices := ds, chats := update_rows p (\<lambda>c. c\<lparr>c_pending := True\<rparr>) (chats s)\<rparr>)
    = map (\<lambda>c. (c_id c, c_epoch c, c_pending c \<or> p c)) (chats s)"
  by (auto simp: gates_def update_rows_def gate_def)

lemma revoke_other:
  assumes "mls_ok s" "revokeDevice env s user device = (Reply code v, es, s')"
  shows "other_step s s'"
  using assms(2)
proof (rule revokeDevice_Inr)
  let ?p = "\<lambda>c. c_mode c = ''e2ee'' \<and> c_id c \<in> {m_chat m | m. m \<in> set (members s) \<and> m_user m = user \<and> m_active m}"
  assume s': "s' = s\<lparr>devices := update_rows (\<lambda>d. d_id d = device \<and> d_user d = user) (\<lambda>d. d\<lparr>d_revoked := True\<rparr>) (devices s),
    chats := update_rows ?p (\<lambda>c. c\<lparr>c_pending := True\<rparr>) (chats s)\<rparr>"
  have g: "gates s' = map (\<lambda>c. (c_id c, c_epoch c, c_pending c \<or> ?p c)) (chats s)"
    unfolding s' by (rule revoke_gates)
  have f: "map fst (gates s') = map fst (gates s)" by (simp only: g) (simp add: gates_def gate_def)
  have "set (gates s') = (\<lambda>c. (c_id c, c_epoch c, c_pending c \<or> ?p c)) ` set (chats s)" by (simp only: g set_map)
  then have k: "\<exists>q. (i, e, q) \<in> set (gates s) \<and> (q \<longrightarrow> p)" if "(i, e, p) \<in> set (gates s')" for i e p
  proof -
    from that \<open>set (gates s') = _\<close> obtain c where c: "c \<in> set (chats s)" "i = c_id c" "e = c_epoch c" "p = (c_pending c \<or> ?p c)"
      by blast
    from c(1) have "gate c \<in> set (gates s)" by (simp add: gates_def)
    with c(2-4) show ?thesis by (auto simp: gate_def)
  qed
  have "gates_forward s s'"
    unfolding gates_forward_def
  proof (intro conjI)
    show "distinct (map fst (gates s'))" using mls_okD(1) [OF assms(1)] f by simp
    show "fst ` set (gates s) \<subseteq> fst ` set (gates s')" using arg_cong [OF f, of set] by simp
  qed (use k in blast)
  moreover have "same_mls s s'" by (simp add: s' same_mls_def)
  moreover have "d_id ` set (devices s') = d_id ` set (devices s)"
    by (simp only: set_map [symmetric]) (simp add: s' map_update_rows)
  moreover have "device_gone s x \<Longrightarrow> device_gone s' x" for x
    by (auto simp: device_gone_def s' set_update_rows split: if_splits)
  ultimately show ?thesis by (simp add: other_step_def)
qed

lemma revoke_stuck:
  assumes "unique_on d_id (devices s)" "t \<in> set (mls_transitions s)" "\<not> mt_confirmed t"
    "revokeDevice env s user (mt_sender t) = (Reply code v, es, s')"
  shows "stuck s' t"
  using assms(4)
proof (rule revokeDevice_Inr)
  fix d
  let ?p = "\<lambda>d. d_id d = mt_sender t \<and> d_user d = user"
  assume d: "d \<in> set (devices s)" "d_id d = mt_sender t" "d_user d = user"
    and s': "s' = s\<lparr>devices := update_rows ?p (\<lambda>d. d\<lparr>d_revoked := True\<rparr>) (devices s),
    chats := update_rows (\<lambda>c. c_mode c = ''e2ee'' \<and> c_id c \<in> {m_chat m | m. m \<in> set (members s) \<and> m_user m = user \<and> m_active m})
       (\<lambda>c. c\<lparr>c_pending := True\<rparr>) (chats s)\<rparr>"
  have one: "x = d" if "x \<in> set (devices s)" "d_id x = mt_sender t" for x
    using unique_on_eqD [OF assms(1) that(1) d(1)] that(2) d(2) by simp
  have ds: "set (devices s') = (\<lambda>d. if ?p d then d\<lparr>d_revoked := True\<rparr> else d) ` set (devices s)"
    by (simp add: s' set_update_rows)
  have "device_gone s' (mt_sender t)"
    unfolding device_gone_def ds
  proof (intro ballI impI)
    fix y assume "y \<in> (\<lambda>d. if ?p d then d\<lparr>d_revoked := True\<rparr> else d) ` set (devices s)" "d_id y = mt_sender t"
    then obtain x where x: "x \<in> set (devices s)" "y = (if ?p x then x\<lparr>d_revoked := True\<rparr> else x)" "d_id x = mt_sender t"
      by (auto split: if_splits)
    from one [OF x(1,3)] x(2) d(2,3) show "d_revoked y" by simp
  qed
  moreover have "mt_sender t \<in> d_id ` set (devices s')"
    unfolding ds image_image by (rule image_eqI [OF _ d(1)]) (simp add: d(2))
  ultimately show ?thesis using assms(2,3) by (simp add: stuck_def s')
qed

lemma confirm_signer_active:
  "confirm_signer False s inp = Inr pub \<Longrightarrow> \<exists>d \<in> set (devices s). d_id d = cf_signer inp \<and> \<not> d_revoked d
    \<and> b64_decode_strict (d_signing_key d) = Some pub"
  by (auto simp: confirm_signer_def dest!: query_row_SomeD split: if_splits option.splits)

lemma signer_not_gone: "confirm_signer False s inp = Inr pub \<Longrightarrow> \<not> device_gone s (cf_signer inp)"
  using confirm_signer_active by (fastforce simp: device_gone_def)

text \<open>A chat has one open commit.\<close>

lemma one_open:
  assumes "mls_ok s" "t \<in> set (mls_transitions s)" "\<not> mt_confirmed t" "x \<in> set (mls_transitions s)" "\<not> mt_confirmed x"
    "mt_chat x = mt_chat t"
  shows "x = t"
proof -
  from mls_okD(4,5) [OF assms(1)] assms(2) have "mt_chat t \<in> fst ` set (gates s)" by blast
  then obtain e p where g: "(mt_chat t, e, p) \<in> set (gates s)" by force
  have mem: "t \<in> set (chat_transitions (mls_transitions s) (mt_chat t))" "x \<in> set (chat_transitions (mls_transitions s) (mt_chat t))"
    using assms by (simp_all add: chat_transitions_def)
  from mls_okD(6) [OF assms(1) g] mem(1) assms(3) show ?thesis
    by (rule chain_open) (use mem(2) assms(5) in auto)
qed

lemma stuck_step:
  assumes "mls_step C L H s s'" "quiet_hooks H" "mls_ok s" "stuck s t"
  shows "stuck s' t"
  using assms
proof (induction rule: mls_step.induct)
  case (ms_upload env s b who r es s')
  then show ?case using packages_frame(1) [OF ms_upload(1)] by (simp add: stuck_def device_gone_def)
next
  case (ms_claim env s who chat target r es s')
  then show ?case using packages_frame(2) [OF ms_claim(1)] by (simp add: stuck_def device_gone_def)
next
  case (ms_commit env s b who chat r es s')
  from ms_commit(1,2) show ?case
    by (cases rule: submit_cases) (use ms_commit(4) in \<open>auto simp: stuck_def device_gone_def\<close>)
next
  case (ms_confirm env s c chat r' es s')
  from ms_confirm(1,2) show ?case
  proof (cases rule: confirm_cases)
    case (Advance inp pub gid hash wire)
    from pending_transition_Inr(1) [OF Advance(3)] obtain x where x: "x \<in> set (mls_transitions s)" "mt_id x = cf_transition inp"
      "mt_sender x = cf_signer inp" by blast
    have "mt_id t \<noteq> cf_transition inp"
    proof
      assume "mt_id t = cf_transition inp"
      then have "x = t" using unique_on_eqD [OF mls_okD(2) [OF ms_confirm(3)] x(1)] x(2) ms_confirm(4) by (simp add: stuck_def)
      with x(3) signer_not_gone [OF Advance(2)] ms_confirm(4) show False by (simp add: stuck_def)
    qed
    with ms_confirm(4) Advance(5,7) show ?thesis
      by (auto simp: stuck_def device_gone_def confirm_row_def set_update_rows)
  qed (use ms_confirm(4) in \<open>simp_all add: stuck_def device_gone_def\<close>)
next
  case (ms_init f s chat gid gc epoch roster s1 fail u d seed target wire s')
  with relay_init [OF ms_init(1,2)] show ?case by (auto simp: stuck_def device_gone_def)
next
  case (ms_other s s')
  then show ?case by (simp add: stuck_def other_step_def same_mls_def)
qed

lemma stuck_run: "mls_run C L H s s' \<Longrightarrow> quiet_hooks H \<Longrightarrow> mls_ok s \<Longrightarrow> stuck s t \<Longrightarrow> mls_ok s' \<and> stuck s' t"
proof (induction rule: mls_run.induct)
  case (mr_step s s1 s2)
  then show ?case using stuck_step [OF mr_step(2)] mls_step_ok [OF mr_step(2)] by blast
qed simp

lemma stuck_pending:
  assumes "mls_ok s" "stuck s t" "(mt_chat t, e, p) \<in> set (gates s)"
  shows p
proof -
  have "t \<in> set (chat_transitions (mls_transitions s) (mt_chat t))" "\<not> mt_confirmed t"
    using assms(2) by (simp_all add: chat_transitions_def stuck_def)
  from mls_okD(6) [OF assms(1,3)] this show ?thesis by (rule chain_open)
qed

lemma stuck_no_commit:
  assumes "stuck s t" "quiet_hooks H" "submitMLSCommit C L H env s b who (mt_chat t) = (r, es, s')"
  shows "\<not> is_reply r"
  using assms(3,2)
proof (cases rule: submit_cases)
  case (Done wire pm gid gc epoch leaf sign)
  from Done(5) have "\<not> list_ex (\<lambda>x. mt_chat x = mt_chat t \<and> \<not> mt_confirmed x) (mls_transitions s)"
    by (auto simp: insert_transition_def new_transition_def split: if_splits)
  with assms(1) show ?thesis by (auto simp: list_ex_iff stuck_def)
qed

lemma stuck_no_confirm:
  assumes ok: "mls_ok s" and st: "stuck s t" and "quiet_hooks H" "confirmMLSEpoch C L H env s b (mt_chat t) = (r, es, s')"
  shows "\<not> is_reply r"
  using assms(4,3)
proof (cases rule: confirm_cases)
  case (Init inp pub g)
  have "mt_chat t \<in> mg_chat ` set (mls_groups s)" using mls_okD(4) [OF ok] st by (auto simp: stuck_def)
  with insert_row_SomeD [OF Init(4)] Init(3) show ?thesis by auto
next
  case (Advance inp pub gid hash wire)
  from pending_transition_Inr(1) [OF Advance(3)] obtain x where x: "x \<in> set (mls_transitions s)" "mt_chat x = mt_chat t"
    "mt_sender x = cf_signer inp" "\<not> mt_confirmed x" by blast
  have "x = t" by (rule one_open [OF ok]) (use st x in \<open>simp_all add: stuck_def\<close>)
  with x(3) signer_not_gone [OF Advance(2)] st show ?thesis by (simp add: stuck_def)
qed simp

subsection \<open>Messages and confirmations that are accepted\<close>

lemma message_group_Some:
  "message_group s chat device = Some (gid, epoch, pending) \<Longrightarrow>
    (\<exists>g \<in> set (mls_groups s). mg_chat g = chat \<and> mg_group g = gid)
    \<and> (\<exists>c \<in> set (chats s). c_id c = chat \<and> c_epoch c = epoch \<and> c_pending c = pending)
    \<and> (\<exists>r \<in> set (mls_roster s). mr_chat r = chat \<and> mr_device r = device)"
proof -
  assume "message_group s chat device = Some (gid, epoch, pending)"
  from query_row_SomeD [OF this [unfolded message_group_def]] obtain g c r where
    "g \<in> set (mls_groups s)" "mg_chat g = chat" "mg_group g = gid" "c \<in> set (chats s)" "c_id c = mg_chat g"
    "c_epoch c = epoch" "c_pending c = pending" "r \<in> set (mls_roster s)" "mr_chat r = mg_chat g" "mr_device r = device"
    unfolding set_concat set_map by (clarsimp split: if_splits) blast
  then show ?thesis by blast
qed

lemma prepared_message:
  assumes "mls_prepare_hook L env s who chat inp = Inr inp'" "get_row c_id chat (chats s) = Some c" "c_mode c = ''e2ee''"
  shows "\<exists>pm gid. application_message L (in_payload inp') = Some pm \<and> message_group s chat (device_id who) = Some (gid, in_epoch inp, False)
    \<and> pm_epoch pm = in_epoch inp \<and> pm_group pm = gid
    \<and> pm_auth_data pm = Binding chat (user_id who) (device_id who) (in_operation inp)"
  using assms by (auto simp: mls_prepare_hook_def split: if_splits option.splits)

lemma stuck_no_message:
  assumes "mls_ok s" "stuck s t" "get_row c_id (mt_chat t) (chats s) = Some c" "c_mode c = ''e2ee''"
  shows "mls_prepare_hook L env s who (mt_chat t) inp \<noteq> Inr inp'"
proof
  assume "mls_prepare_hook L env s who (mt_chat t) inp = Inr inp'"
  from prepared_message [OF this assms(3,4)] obtain gid where
    "message_group s (mt_chat t) (device_id who) = Some (gid, in_epoch inp, False)" by blast
  from message_group_Some [OF this] have "(mt_chat t, in_epoch inp, False) \<in> set (gates s)"
    by (force simp: gates_def gate_def)
  from stuck_pending [OF assms(1,2) this] show False .
qed

lemma roster_users_Some:
  "roster_users f n s chat ds ls ms = Some us \<Longrightarrow>
    distinct (map rm_device ms) \<and> distinct (map rm_leaf ms) \<and> set ds \<inter> rm_device ` set ms = {} \<and> set ls \<inter> rm_leaf ` set ms = {}
    \<and> (\<forall>m \<in> set ms. \<exists>u sign. roster_device s chat (rm_device m) = Some (u, sign) \<and> u \<in> set us)
    \<and> (\<forall>u \<in> set us. \<exists>m \<in> set ms. \<exists>sign. roster_device s chat (rm_device m) = Some (u, sign))"
proof (induction ms arbitrary: n ds ls us)
  case (Cons m ms)
  from Cons.prems obtain u sign us' where m: "rm_device m \<notin> set ds" "rm_leaf m \<notin> set ls"
    "roster_device s chat (rm_device m) = Some (u, sign)" "us = u # us'"
    and rest: "roster_users f (Suc n) s chat (rm_device m # ds) (rm_leaf m # ls) ms = Some us'"
    by (auto split: if_splits option.splits)
  from Cons.IH [OF rest] m show ?case by auto
qed simp

lemma validateMLSRoster_facts:
  assumes "validateMLSRoster f s chat roster"
  shows "distinct (map rm_device roster)" "distinct (map rm_leaf roster)"
    "\<And>m. m \<in> set roster \<Longrightarrow> roster_device s chat (rm_device m) \<noteq> None"
    "\<And>u. u \<in> set (active_accounts s chat) \<Longrightarrow> \<exists>m \<in> set roster. \<exists>sign. roster_device s chat (rm_device m) = Some (u, sign)"
proof -
  from assms obtain us where us: "roster_users f 1 s chat [] [] roster = Some us"
    and all: "list_all (\<lambda>u. u \<in> set us) (active_accounts s chat)"
    by (auto simp: validateMLSRoster_def split: if_splits option.splits)
  from roster_users_Some [OF us] have d: "distinct (map rm_device roster)" "distinct (map rm_leaf roster)"
    and m: "\<forall>m \<in> set roster. \<exists>u sign. roster_device s chat (rm_device m) = Some (u, sign) \<and> u \<in> set us"
    and u: "\<forall>u \<in> set us. \<exists>m \<in> set roster. \<exists>sign. roster_device s chat (rm_device m) = Some (u, sign)"
    by blast+
  show "distinct (map rm_device roster)" "distinct (map rm_leaf roster)" by (rule d)+
  show "roster_device s chat (rm_device x) \<noteq> None" if "x \<in> set roster" for x
    using bspec [OF m that] by (elim exE conjE) simp
  show "\<exists>m \<in> set roster. \<exists>sign. roster_device s chat (rm_device m) = Some (v, sign)" if "v \<in> set (active_accounts s chat)" for v
    using all that by (intro bspec [OF u]) (simp add: list_all_iff)
qed

lemma confirm_tx_reply:
  assumes "confirm_tx C L H env s chat inp gid gc signature = (r, es, s')" "is_reply r"
  shows "validateMLSRoster (shift_faults 20 (flt env)) s chat (cf_roster inp) \<and> r = Reply 200 (cf_epoch inp)
    \<and> (\<exists>pub hash wire. confirm_signer (flt env 1) s inp = Inr pub \<and> confirm_commit C env s chat inp gid = Inr (hash, wire)
        \<and> ml_ed25519 L pub (MLSRosterProof C chat gid (cf_previous inp) (cf_epoch inp) hash gc (cf_roster inp)) signature)"
proof -
  from assms have v: "validateMLSRoster (shift_faults 20 (flt env)) s chat (cf_roster inp)"
    by (cases "validateMLSRoster (shift_faults 20 (flt env)) s chat (cf_roster inp)") (auto simp: confirm_tx_def split: if_splits)
  from assms v obtain pub where pub: "confirm_signer (flt env 1) s inp = Inr pub"
    by (cases "confirm_signer (flt env 1) s inp") (auto simp: confirm_tx_def split: if_splits)
  from assms v pub obtain hash wire where com: "confirm_commit C env s chat inp gid = Inr (hash, wire)"
    by (cases "confirm_commit C env s chat inp gid") (auto simp: confirm_tx_def split: if_splits)
  from assms v pub com
  have sig: "ml_ed25519 L pub (MLSRosterProof C chat gid (cf_previous inp) (cf_epoch inp) hash gc (cf_roster inp)) signature"
    by (cases "ml_ed25519 L pub (MLSRosterProof C chat gid (cf_previous inp) (cf_epoch inp) hash gc (cf_roster inp)) signature")
      (simp_all add: confirm_tx_def split: if_splits)
  have "r = Reply 200 (cf_epoch inp)"
    using assms v pub com sig by (auto simp: confirm_tx_def split: if_splits sum.splits)
  with v pub com sig show ?thesis by blast
qed

lemma confirm_Reply:
  assumes "confirmMLSEpoch C L H env s b chat = (Reply code v, es, s')"
  obtains inp gid gc signature pub hash wire where "b = Body inp" "validateMLSRoster (shift_faults 20 (flt env)) s chat (cf_roster inp)"
    "confirm_signer False s inp = Inr pub" "confirm_commit C env s chat inp gid = Inr (hash, wire)"
    "ml_ed25519 L pub (MLSRosterProof C chat gid (cf_previous inp) (cf_epoch inp) hash gc (cf_roster inp)) signature"
    "v = cf_epoch inp" "b64_decode_strict (cf_group inp) = Some gid" "b64_decode_strict (cf_context inp) = Some gc"
    "parseMLSContext L gc gid (cf_epoch inp)" "b64_decode_strict (cf_signature inp) = Some signature"
proof -
  from assms obtain inp gid gc signature where b: "b = Body inp" and gid: "b64_decode_strict (cf_group inp) = Some gid"
    and gc: "b64_decode_strict (cf_context inp) = Some gc" "parseMLSContext L gc gid (cf_epoch inp)"
    and sg: "b64_decode_strict (cf_signature inp) = Some signature"
    and tx: "confirm_tx C L H env s chat inp gid gc signature = (Reply code v, es, s')"
    by (cases b) (auto simp: confirmMLSEpoch_def split: if_splits option.splits)
  from confirm_tx_reply [OF tx] obtain pub hash wire where signer: "confirm_signer (flt env 1) s inp = Inr pub"
    and rest: "confirm_commit C env s chat inp gid = Inr (hash, wire)"
    "validateMLSRoster (shift_faults 20 (flt env)) s chat (cf_roster inp)"
    "ml_ed25519 L pub (MLSRosterProof C chat gid (cf_previous inp) (cf_epoch inp) hash gc (cf_roster inp)) signature"
    "v = cf_epoch inp" by auto
  have "confirm_signer False s inp = Inr pub" using signer by (cases "flt env 1") (simp_all add: confirm_signer_def)
  with b gid gc sg rest that show ?thesis by blast
qed

end
