(* ===== verification/GroupProperties.thy ===== *)
theory GroupProperties
  imports Fixture GroupRelay
begin

text \<open>
  The properties of the MLS relay, on an installation with an MLS chat between the two users of
  \<open>Fixture\<close>: Alice initializes the group, commits a change and confirms it.
\<close>

subsection \<open>The installation\<close>

definition group_prims :: prims where
  "group_prims = toy_prims\<lparr>p_sha256 := pad 32\<rparr>"

definition group_core :: "unit mls_core" where
  "group_core = \<lparr>cfg = toy_config, prim = group_prims, eng = toy_engine, prepare_hooks = [], tx_hooks = [mls_tx_hook],
     project_hooks = [], delete_hooks = []\<rparr>"

definition group_key :: "string \<Rightarrow> string" where
  "group_key k = b64_encode (pad 32 k)"

definition group_context_of :: "int \<Rightarrow> group_context" where
  "group_context_of e = \<lparr>gc_version = 1, gc_suite = 1, gc_group = ''g'', gc_epoch = e, gc_tree_hash = pad 32 [],
     gc_transcript = pad 32 []\<rparr>"

definition group_commit :: public_message where
  "group_commit = \<lparr>pu_type = 3, pu_sender_type = 1, pu_leaf = 0, pu_group = ''g'', pu_epoch = 0, pu_content = [],
     pu_signature = pad 32 ''A''\<rparr>"

definition group_app :: private_message where
  "group_app = \<lparr>pm_type = 1, pm_group = ''g'', pm_epoch = 0, pm_auth_data = Binding ''c'' ''alice'' ''a1'' ''op-1'',
     pm_sender_data = pad 16 [], pm_ciphertext = pad 16 []\<rparr>"

definition group_package :: "bytes \<Rightarrow> key_package" where
  "group_package w = \<lparr>kp_suite = 1, kp_credential = 1, kp_identity = ''b1'', kp_signature_key = pad 32 ''B'',
     kp_init_key = pad 32 w, kp_encryption_key = pad 32 []\<rparr>"

text \<open>A library whose signatures are the padded public key.\<close>

definition group_lib :: mls_lib where
  "group_lib = \<lparr>ml_message = (\<lambda>w. if w = ''commit'' then Some (PublicMessage group_commit)
       else if w = ''app'' then Some (PrivateMessage group_app) else None),
     ml_marshal = (\<lambda>m. case m of PrivateMessage _ \<Rightarrow> ''app'' | _ \<Rightarrow> ''commit''),
     ml_context = (\<lambda>w. if w = ''ctx0'' then Some (group_context_of 0) else if w = ''ctx1'' then Some (group_context_of 1) else None),
     ml_marshal_context = (\<lambda>g. if gc_epoch g = 0 then ''ctx0'' else ''ctx1''),
     ml_welcome = (\<lambda>_. None), ml_reference = (\<lambda>w. w), ml_tbs = (\<lambda>p g. g),
     ml_verify_label = (\<lambda>k l m sg. sg = k), ml_ed25519 = (\<lambda>k m sg. sg = pad 64 k),
     ml_key_package = (\<lambda>w. if w = ''kp1'' \<or> w = ''kp2'' then Some (group_package w) else None),
     ml_marshal_key_package = (\<lambda>k. take 3 (kp_init_key k)), ml_key_package_valid = (\<lambda>t k. t < 5000)\<rparr>"

definition group_hooks :: "'s mls_hooks" where
  "group_hooks = \<lparr>begin_hooks = [], commit_hooks = []\<rparr>"

definition group_chat :: "int \<Rightarrow> int \<Rightarrow> bool \<Rightarrow> chat_row" where
  "group_chat n e p = \<lparr>c_id = ''c'', c_kind = ''direct'', c_mode = ''e2ee'', c_seq = n, c_epoch = e, c_pending = p, c_created = 0\<rparr>"

definition group_db0 :: "unit mls_db_scheme" where
  "group_db0 = \<lparr>versions = [1], indexes = [], users = users toy_db,
     devices = [\<lparr>d_id = ''a1'', d_user = ''alice'', d_public_key = ''QTAx'', d_signing_key = group_key ''A'', d_revoked = False\<rparr>,
       \<lparr>d_id = ''b1'', d_user = ''bob'', d_public_key = ''QjAx'', d_signing_key = group_key ''B'', d_revoked = False\<rparr>],
     chats = [group_chat 0 0 False], members = members toy_db, messages = [], events = [], operations = [], cursors = [],
     tickets = [], hidden_messages = [], reactions = [], calls = [], call_operations = [], uploads = [],
     upload_chunks = [], upload_messages = [], file_dirs = [], mls_groups = [], mls_roster = [], mls_keypackages = [],
     mls_controls = [], mls_transitions = []\<rparr>"

definition group_roster :: "relay_member list" where
  "group_roster = [\<lparr>rm_device = ''a1'', rm_leaf = 0\<rparr>, \<lparr>rm_device = ''b1'', rm_leaf = 1\<rparr>]"

definition group_init :: confirm_input where
  "group_init = \<lparr>cf_transition = [], cf_group = b64_encode ''g'', cf_context = b64_encode ''ctx0'', cf_previous = -1, cf_epoch = 0,
     cf_signer = ''a1'', cf_signature = b64_encode (pad 64 (pad 32 ''A'')), cf_roster = group_roster\<rparr>"

definition group_event :: "int \<Rightarrow> string \<Rightarrow> string \<Rightarrow> event_row" where
  "group_event n kind data = \<lparr>e_chat = ''c'', e_seq = n, e_kind = kind, e_message = [],
     e_data = Some (Seal group_prims toy_engine ''nonce'' data (event_aad ''c'' n)), e_created = 1000\<rparr>"

definition group_db1 :: "unit mls_db_scheme" where
  "group_db1 = group_db0\<lparr>chats := [group_chat 1 0 False], events := [group_event 1 ''mls.epoch.confirmed'' (confirmed_data group_init)],
     mls_groups := [\<lparr>mg_chat = ''c'', mg_group = ''g'', mg_context = ''ctx0''\<rparr>],
     mls_roster := [\<lparr>mr_chat = ''c'', mr_device = ''a1'', mr_leaf = 0\<rparr>, \<lparr>mr_chat = ''c'', mr_device = ''b1'', mr_leaf = 1\<rparr>]\<rparr>"

definition group_change :: commit_input where
  "group_change = \<lparr>cm_commit = b64_encode ''commit'', cm_welcomes = []\<rparr>"

definition group_open :: transition_row where
  "group_open = new_transition group_core (toy_env 1000 ''t1'') alice ''c'' 0 ''commit''"

definition group_db2 :: "unit mls_db_scheme" where
  "group_db2 = group_db1\<lparr>chats := [group_chat 2 0 True],
     events := events group_db1 @ [group_event 2 ''mls.commit.pending'' (pending_data (digest group_core ''commit'') 0 ''t1'')],
     mls_transitions := [group_open]\<rparr>"

lemma group_b64 [simp]: "b64_decode_strict (b64_encode bs) = Some bs"
  by (simp add: b64_decode_strict_def)

declare b64_encode.simps [simp del]

lemma group_env_simps: "now (toy_env t u) = t" "uuid (toy_env t u) = u" "nonce (toy_env t u) = ''nonce''" "flt (toy_env t u) n = False"
  "flt (toy_env t u) = no_faults" "flt (shift_env k (toy_env t u)) = no_faults" "nonce (shift_env k (toy_env t u)) = ''nonce''"
  "now (shift_env k (toy_env t u)) = t" "shift_faults k no_faults = no_faults" "no_faults n = False"
  by (simp_all add: toy_env_def shift_env_def shift_faults_def no_faults_def)

lemma group_core_simps: "prim group_core = group_prims" "eng group_core = toy_engine"
  by (simp_all add: group_core_def)

lemma group_init_simps: "cf_transition group_init = []" "cf_previous group_init = -1" "cf_epoch group_init = 0"
  "cf_signer group_init = ''a1''" "cf_roster group_init = group_roster" "cf_group group_init = b64_encode ''g''"
  "cf_context group_init = b64_encode ''ctx0''" "cf_signature group_init = b64_encode (pad 64 (pad 32 ''A''))"
  by (simp_all add: group_init_def)

lemma group_lib_context: "parseMLSContext group_lib ''ctx0'' ''g'' 0" "parseMLSContext group_lib ''ctx1'' ''g'' 1"
  "ml_ed25519 group_lib k m sg \<longleftrightarrow> sg = pad 64 k"
  by (simp_all add: parseMLSContext_def group_lib_def group_context_of_def mls10_def suite1_def)

lemma group_hooks_simps: "begin_hooks group_hooks = []" "commit_hooks group_hooks = []"
  by (simp_all add: group_hooks_def)

lemma group_quiet: "quiet_hooks group_hooks"
  by (simp add: quiet_hooks_def group_hooks_simps)

lemmas group_tables = group_db0_def group_db1_def group_db2_def group_chat_def toy_db_def

lemma group_roster_ok: "validateMLSRoster no_faults s ''c'' group_roster"
  if "devices s = devices group_db0" "users s = users toy_db" "members s = members toy_db"
  using that by (simp add: validateMLSRoster_def group_roster_def roster_device_def active_accounts_def group_db0_def
      toy_db_def group_key_def no_faults_def)

lemma group_signer: "confirm_signer False s inp = Inr (pad 32 ''A'')"
  if "devices s = devices group_db0" "cf_signer inp = ''a1''" "cf_roster inp = group_roster"
  using that by (simp add: confirm_signer_def group_db0_def group_key_def group_roster_def)

lemma group_append: "Append group_core (shift_env k (toy_env 1000 u)) s ''c'' kind [] (Some data)
    = Inr (n + 1, s\<lparr>chats := [group_chat (n + 1) e p], events := events s @ [group_event (n + 1) kind data]\<rparr>)"
  if "chats s = [group_chat n e p]" "\<And>x. x \<in> set (events s) \<Longrightarrow> e_seq x \<le> n"
proof -
  have "e_key x \<noteq> (''c'', n + 1)" if "x \<in> set (events s)" for x using \<open>\<And>x. x \<in> set (events s) \<Longrightarrow> e_seq x \<le> n\<close> [OF that] by (auto simp: e_key_def)
  then have "insert_row e_key (group_event (n + 1) kind data) (events s) = Some (events s @ [group_event (n + 1) kind data])"
    by (simp add: insert_row_def get_row_None_iff group_event_def image_iff) (metis e_key_def event_row.select_convs(1,2))
  then show ?thesis using that(1)
    by (simp add: Append_def group_env_simps group_core_simps group_chat_def bump_seq_def update_rows_def group_event_def Let_def)
qed

lemma group_saved: "InitMLSRelayTx group_lib no_faults group_db0 ''c'' ''g'' ''ctx0'' 0 group_roster
      = Some (group_db1\<lparr>chats := [group_chat 0 0 False], events := []\<rparr>)"
  using group_roster_ok [of group_db0]
  by (simp add: InitMLSRelayTx_def group_lib_context group_env_simps group_tables insert_row_def Let_def saveMLSRoster_def
      set_epoch_def update_rows_def delete_rows_def group_roster_def roster_row_of_def mr_key_def mr_leaf_key_def)

lemma group_initialized: "confirmMLSEpoch group_core group_lib group_hooks (toy_env 1000 []) group_db0 (Body group_init) ''c''
    = (Reply 200 0, [], group_db1)"
proof -
  have "Append group_core (shift_env 8 (toy_env 1000 [])) (group_db1\<lparr>chats := [group_chat 0 0 False], events := []\<rparr>) ''c''
      ''mls.epoch.confirmed'' [] (Some (confirmed_data group_init)) = Inr (1, group_db1)"
    by (subst group_append [of _ 0 0 False]) (simp_all add: group_db1_def)
  moreover have "users group_db0 = users toy_db" "members group_db0 = members toy_db" by (simp_all add: group_db0_def)
  ultimately show ?thesis
    using group_roster_ok [of group_db0] group_signer [of group_db0 group_init] group_saved
    by (simp add: confirmMLSEpoch_def confirm_tx_def confirm_commit_def confirm_writes_def group_init_simps group_env_simps
        group_lib_context)
qed

lemma group_committed: "submitMLSCommit group_core group_lib group_hooks (toy_env 1000 ''t1'') group_db1 (Body group_change) alice ''c''
    = (Reply 202 (''t1'', digest group_core ''commit''), [], group_db2)"
proof -
  have m: "Member group_db1 (user_id alice) ''c'' = Some (''owner'', True, 1)"
    by (simp add: Member_def group_tables alice_def)
  have p: "public_commit group_lib ''commit'' = Inr group_commit"
    by (simp add: public_commit_def group_lib_def group_commit_def content_commit_def sender_member_def)
  have c: "commit_sender group_db1 alice ''c'' = Some (''g'', ''ctx0'', 0, 0, group_key ''A'')"
    by (simp add: commit_sender_def group_tables alice_def)
  have t: "commit_tx group_core group_lib group_hooks (toy_env 1000 ''t1'') group_db1 [] alice ''c'' 0 ''commit''
      = (Reply 202 (''t1'', digest group_core ''commit''), [], group_db2)"
  proof -
    have "Append group_core (shift_env 5 (toy_env 1000 ''t1'')) (set_chat_pending ''c'' (group_db1\<lparr>mls_transitions := [group_open]\<rparr>))
        ''c'' ''mls.commit.pending'' [] (Some (pending_data (digest group_core ''commit'') 0 ''t1'')) = Inr (2, group_db2)"
      by (subst group_append [of _ 1 0 True])
        (simp_all add: group_db1_def group_db2_def set_chat_pending_def update_rows_def group_chat_def group_event_def)
    then show ?thesis
      by (simp add: commit_tx_def group_hooks_simps group_env_simps insert_transition_def insert_row_def group_db1_def group_db0_def
          group_open_def [symmetric])
  qed
  show ?thesis
    by (simp add: submitMLSCommit_def group_change_def m p c t group_env_simps group_commit_def group_key_def
        group_lib_def [THEN arg_cong, of ml_verify_label])
qed

subsection \<open>Properties\<close>

text \<open>C6: The commits of a chat form one chain. In every run of the relay's handlers, with any other step
  between them that leaves its tables alone, the commits of a chat have consecutive epochs up to the
  chat's current one, in order, all confirmed, but possibly a last one, of the current epoch, that is open and
  holds the chat's barrier.\<close>

theorem commits_form_chain:
  assumes "mls_fresh s0" "quiet_hooks H" "mls_run C L H s0 s" "c \<in> set (chats s)"
  shows "\<exists>k \<le> c_epoch c. \<exists>open. map (\<lambda>t. (mt_epoch t, mt_confirmed t)) (filter (\<lambda>t. mt_chat t = c_id c) (mls_transitions s))
      = map (\<lambda>e. (e, True)) [k..c_epoch c - 1] @ open \<and> (open = [] \<or> open = [(c_epoch c, False)] \<and> c_pending c)"
proof -
  have "mls_ok s" using mls_run_ok [OF assms(3,2)] mls_fresh_ok [OF assms(1)] by blast
  moreover have "(c_id c, c_epoch c, c_pending c) \<in> set (gates s)" using assms(4) by (force simp: gates_def gate_def)
  ultimately have "chain (chat_transitions (mls_transitions s) (c_id c)) (c_epoch c) (c_pending c)" by (rule mls_okD(6))
  then show ?thesis unfolding chain_def closed_chain_def chat_transitions_def mark_def [abs_def] by auto
qed

lemma group_fresh: "mls_fresh group_db0"
  by (simp add: mls_fresh_def group_db0_def gates_def)

lemma group_run1: "mls_run group_core group_lib group_hooks group_db0 group_db1"
  by (rule mr_step [OF mr_refl ms_confirm [OF group_initialized]])

lemma group_run2: "mls_run group_core group_lib group_hooks group_db0 group_db2"
  by (rule mr_step [OF group_run1 ms_commit [OF group_committed]])

theorem commits_form_chain_witness:
  "\<exists>k \<le> c_epoch (group_chat 2 0 True). \<exists>open. map (\<lambda>t. (mt_epoch t, mt_confirmed t)) (filter (\<lambda>t. mt_chat t = c_id (group_chat 2 0 True)) (mls_transitions group_db2))
      = map (\<lambda>e. (e, True)) [k..c_epoch (group_chat 2 0 True) - 1] @ open
      \<and> (open = [] \<or> open = [(c_epoch (group_chat 2 0 True), False)] \<and> c_pending (group_chat 2 0 True))"
  by (rule commits_form_chain [OF group_fresh group_quiet group_run2]) (simp add: group_db2_def)

text \<open>C7: A revoked committer blocks its chat for good. When the device that sent the open commit of a chat is
  revoked, then in every later state of every run no commit and no confirmation of that chat is accepted, and
  no message to it passes the relay's check: the open commit can only be confirmed by its sender, and a
  second one is not inserted while it is open.\<close>

theorem revoked_committer_blocks_chat:
  assumes "mls_fresh s0" "quiet_hooks H" "mls_run C L H s0 s" "unique_on d_id (devices s)"
    and t: "t \<in> set (mls_transitions s)" "\<not> mt_confirmed t"
    and "revokeDevice env s user (mt_sender t) = (Reply code v, es, s1)" "mls_run C L H s1 s2"
  shows "\<not> is_reply (fst (submitMLSCommit C L H env2 s2 b who (mt_chat t)))
    \<and> \<not> is_reply (fst (confirmMLSEpoch C L H env2 s2 b2 (mt_chat t)))
    \<and> (map_option c_mode (get_row c_id (mt_chat t) (chats s2)) = Some ''e2ee'' \<longrightarrow>
        mls_prepare_hook L env2 s2 who (mt_chat t) inp \<noteq> Inr inp')"
proof -
  have ok: "mls_ok s" using mls_run_ok [OF assms(3,2)] mls_fresh_ok [OF assms(1)] by blast
  then have "mls_ok s1" using other_step_ok revoke_other [OF ok assms(7)] by blast
  from stuck_run [OF assms(8,2) this revoke_stuck [OF assms(4) t assms(7)]]
  have ok2: "mls_ok s2" and st: "stuck s2 t" by simp_all
  have "\<not> is_reply (fst (submitMLSCommit C L H env2 s2 b who (mt_chat t)))"
    by (cases "submitMLSCommit C L H env2 s2 b who (mt_chat t)") (use stuck_no_commit [OF st assms(2)] in simp)
  moreover have "\<not> is_reply (fst (confirmMLSEpoch C L H env2 s2 b2 (mt_chat t)))"
    by (cases "confirmMLSEpoch C L H env2 s2 b2 (mt_chat t)") (use stuck_no_confirm [OF ok2 st assms(2)] in simp)
  ultimately show ?thesis using stuck_no_message [OF ok2 st] by auto
qed

lemma group_revoked: "\<exists>es s1. revokeDevice (toy_env 5 []) group_db2 ''alice'' (mt_sender group_open) = (Reply 200 True, es, s1)"
  by (simp add: revokeDevice_def group_env_simps group_tables group_open_def new_transition_def alice_def count_rows_def Let_def)

theorem revoked_committer_blocks_chat_witness:
  "\<exists>es s1. revokeDevice (toy_env 5 []) group_db2 ''alice'' ''a1'' = (Reply 200 True, es, s1)
    \<and> \<not> is_reply (fst (submitMLSCommit group_core group_lib group_hooks (toy_env 6 ''t2'') s1 (Body group_change) bob ''c''))"
proof -
  have a: "mt_sender group_open = ''a1''" "mt_chat group_open = ''c''" "\<not> mt_confirmed group_open"
    by (simp_all add: group_open_def new_transition_def alice_def)
  from group_revoked obtain es s1 where
    r: "revokeDevice (toy_env 5 []) group_db2 ''alice'' (mt_sender group_open) = (Reply 200 True, es, s1)" by blast
  have "unique_on d_id (devices group_db2)" "group_open \<in> set (mls_transitions group_db2)"
    by (simp_all add: group_tables unique_on_def)
  from revoked_committer_blocks_chat [OF group_fresh group_quiet group_run2 this a(3) r mr_refl] r a(1,2) show ?thesis by auto
qed

text \<open>C8: A new roster needs its authority. The signature of an accepted confirmation is one over the roster and the commit's
  hash (none for the first roster) by the registered key of a device that is not revoked; for an existing group that device is of the
  old roster and sent the open commit of the old epoch. All devices of the new roster are authorized
  members' devices, and every active account has one in it.\<close>

theorem confirmation_needs_authority:
  assumes "confirmMLSEpoch C L H env s (Body inp) chat = (Reply code v, es, s')"
  shows "(\<exists>d \<in> set (devices s). \<exists>pub gid gc hash sg. d_id d = cf_signer inp \<and> \<not> d_revoked d \<and> b64_decode_strict (d_signing_key d) = Some pub
      \<and> b64_decode_strict (cf_group inp) = Some gid \<and> b64_decode_strict (cf_context inp) = Some gc \<and> b64_decode_strict (cf_signature inp) = Some sg
      \<and> ml_ed25519 L pub (MLSRosterProof C chat gid (cf_previous inp) (cf_epoch inp) hash gc (cf_roster inp)) sg
      \<and> (cf_previous inp = -1 \<longrightarrow> hash = [] \<and> cf_transition inp = [])
      \<and> (cf_previous inp \<noteq> -1 \<longrightarrow> cf_epoch inp = cf_previous inp + 1
          \<and> (\<exists>r \<in> set (mls_roster s). mr_chat r = chat \<and> mr_device r = cf_signer inp)
          \<and> (\<exists>t \<in> set (mls_transitions s). mt_id t = cf_transition inp \<and> mt_chat t = chat \<and> mt_epoch t = cf_previous inp
              \<and> mt_sender t = cf_signer inp \<and> \<not> mt_confirmed t \<and> mt_hash t = hash)))
    \<and> distinct (map rm_device (cf_roster inp)) \<and> (\<forall>m \<in> set (cf_roster inp). roster_device s chat (rm_device m) \<noteq> None)
    \<and> (\<forall>u \<in> set (active_accounts s chat). \<exists>m \<in> set (cf_roster inp). \<exists>sign. roster_device s chat (rm_device m) = Some (u, sign))"
proof -
  from confirm_Reply [OF assms] obtain gid gc sg pub hash wire where
    v: "validateMLSRoster (shift_faults 20 (flt env)) s chat (cf_roster inp)" and si: "confirm_signer False s inp = Inr pub"
    and co: "confirm_commit C env s chat inp gid = Inr (hash, wire)" and b: "b64_decode_strict (cf_group inp) = Some gid"
      "b64_decode_strict (cf_context inp) = Some gc" "b64_decode_strict (cf_signature inp) = Some sg"
    and sg: "ml_ed25519 L pub (MLSRosterProof C chat gid (cf_previous inp) (cf_epoch inp) hash gc (cf_roster inp)) sg"
    by (metis body.inject(2))
  from confirm_signer_active [OF si] obtain d where d: "d \<in> set (devices s)" "d_id d = cf_signer inp" "\<not> d_revoked d"
    "b64_decode_strict (d_signing_key d) = Some pub" by blast
  have "pending_transition C env s chat inp gid = Inr (hash, wire)" if "cf_previous inp \<noteq> -1"
    using co that by (simp add: confirm_commit_def)
  note pending = pending_transition_Inr(1,3,5) [OF this]
  have "cf_previous inp = -1 \<longrightarrow> hash = [] \<and> cf_transition inp = []" using co by (auto simp: confirm_commit_def split: if_splits)
  with pending d b sg validateMLSRoster_facts [OF v] show ?thesis
    by (intro conjI bexI [of _ d] exI [of _ pub] exI [of _ gid] exI [of _ gc] exI [of _ hash] exI [of _ sg]) blast+
qed

definition group_confirm :: confirm_input where
  "group_confirm = \<lparr>cf_transition = ''t1'', cf_group = b64_encode ''g'', cf_context = b64_encode ''ctx1'', cf_previous = 0, cf_epoch = 1,
     cf_signer = ''a1'', cf_signature = b64_encode (pad 64 (pad 32 ''A'')), cf_roster = group_roster\<rparr>"

lemma group_confirm_simps: "cf_transition group_confirm = ''t1''" "cf_previous group_confirm = 0" "cf_epoch group_confirm = 1"
  "cf_signer group_confirm = ''a1''" "cf_roster group_confirm = group_roster" "cf_group group_confirm = b64_encode ''g''"
  "cf_context group_confirm = b64_encode ''ctx1''" "cf_signature group_confirm = b64_encode (pad 64 (pad 32 ''A''))"
  by (simp_all add: group_confirm_def)

lemma group_pending: "pending_transition group_core (toy_env 1000 []) group_db2 ''c'' group_confirm ''g''
    = Inr (digest group_core ''commit'', ''commit'')"
proof -
  have "Open group_prims toy_engine (mt_payload group_open) (transition_aad ''t1'') = Inr ''commit''"
    unfolding group_open_def new_transition_def
    by (simp add: group_core_simps group_env_simps Open_Seal gcm_opens_def group_prims_def toy_gcm_opens [unfolded gcm_opens_def])
  moreover have "mt_id group_open = ''t1''" "mt_chat group_open = ''c''" "mt_epoch group_open = 0" "mt_sender group_open = ''a1''"
    "\<not> mt_confirmed group_open" "mt_hash group_open = digest group_core ''commit''"
    by (simp_all add: group_open_def new_transition_def alice_def group_env_simps)
  ultimately show ?thesis
    by (simp add: pending_transition_def group_confirm_simps group_env_simps group_tables count_rows_def group_core_simps)
qed

lemma group_confirmed: "\<exists>s'. confirmMLSEpoch group_core group_lib group_hooks (toy_env 1000 []) group_db2 (Body group_confirm) ''c''
    = (Reply 200 1, [], s')"
proof -
  have t: "users group_db2 = users toy_db" "members group_db2 = members toy_db" "devices group_db2 = devices group_db0"
    by (simp_all add: group_db0_def group_db1_def group_db2_def)
  have "\<exists>s1. confirm_writes group_lib group_hooks (toy_env 1000 []) group_db2 ''c'' group_confirm ''g'' ''ctx1'' ''commit'' = Inr s1
      \<and> chats s1 = [group_chat 2 1 False] \<and> events s1 = events group_db2"
    by (simp add: confirm_writes_def group_confirm_simps run_commit_def group_hooks_simps group_env_simps saveMLSRoster_def
        group_db2_def group_db1_def delete_rows_def group_roster_def insert_row_def mr_key_def mr_leaf_key_def roster_row_of_def
        update_rows_def group_chat_def)
  then obtain s1 where s1: "confirm_writes group_lib group_hooks (toy_env 1000 []) group_db2 ''c'' group_confirm ''g'' ''ctx1'' ''commit'' = Inr s1"
    "chats s1 = [group_chat 2 1 False]" "events s1 = events group_db2" by blast
  have "\<exists>s2. Append group_core (shift_env 8 (toy_env 1000 [])) s1 ''c'' ''mls.epoch.confirmed'' [] (Some (confirmed_data group_confirm)) = Inr (3, s2)"
    by (subst group_append [of _ 2 1 False]) (auto simp: s1 group_db2_def group_db1_def group_event_def)
  then show ?thesis
    using group_roster_ok [of group_db2] group_signer [of group_db2 group_confirm] group_pending t s1(1)
    by (auto simp: confirmMLSEpoch_def confirm_tx_def confirm_commit_def group_confirm_simps group_env_simps group_lib_context)
qed

theorem confirmation_needs_authority_witness:
  "\<exists>d \<in> set (devices group_db2). d_id d = ''a1'' \<and> \<not> d_revoked d
     \<and> (\<exists>t \<in> set (mls_transitions group_db2). mt_id t = ''t1'' \<and> mt_sender t = ''a1'' \<and> \<not> mt_confirmed t)"
proof -
  from group_confirmed obtain s' where
    c: "confirmMLSEpoch group_core group_lib group_hooks (toy_env 1000 []) group_db2 (Body group_confirm) ''c'' = (Reply 200 1, [], s')" by blast
  from confirmation_needs_authority [OF c] show ?thesis by (simp add: group_confirm_simps) blast
qed

text \<open>C14: A key package is given out once: what a claim answered, no later claim of the run answers again,
  whoever asks and for whatever chat.\<close>

theorem key_package_once:
  assumes "mls_fresh s0" "quiet_hooks H" "mls_run C L H s0 s"
    and "claimMLSKeyPackage C L env s who chat target = (Reply code (ref, dev, wire), es, s1)" "mls_run C L H s1 s2"
    and "claimMLSKeyPackage C L env2 s2 who2 chat2 target2 = (Reply code2 (ref2, dev2, wire2), es2, s3)"
  shows "ref2 \<noteq> ref"
proof -
  have ok: "packages_ok s" using mls_run_packages [OF assms(3,2)] mls_fresh_ok [OF assms(1)] by blast
  from assms(4) obtain k where k: "k \<in> set (mls_keypackages s)" "mk_claimed k = None"
    "s1 = s\<lparr>mls_keypackages := claim_row (mk_id k) chat (mls_keypackages s)\<rparr>" "mk_id k = ref"
    by (rule claim_packages) auto
  then have "k\<lparr>mk_claimed := Some chat\<rparr> \<in> set (mls_keypackages s1)"
    by (auto simp: claim_row_def set_update_rows image_iff intro!: bexI [of _ k])
  moreover have ok1: "packages_ok s1" using claim_packages_ok [OF ok assms(4)] by blast
  note kept = mls_run_packages [OF assms(5,2) ok1]
  ultimately obtain k' where k': "k' \<in> set (mls_keypackages s2)" "mk_id k' = ref" "mk_claimed k' = Some chat"
    using kept k(4) unfolding packages_kept_def by fastforce
  from assms(6) obtain j where j: "j \<in> set (mls_keypackages s2)" "mk_claimed j = None" "mk_id j = ref2"
    by (rule claim_packages) auto
  show ?thesis
  proof
    assume "ref2 = ref"
    with j k' kept have "j = k'" by (auto simp: packages_ok_def dest: unique_on_eqD)
    with j(2) k'(3) show False by simp
  qed
qed

definition group_kp :: "time \<Rightarrow> bytes \<Rightarrow> key_package_row" where
  "group_kp t w = \<lparr>mk_id = digest group_core w, mk_device = ''b1'',
     mk_payload = Seal group_prims toy_engine ''nonce'' w (keypackage_aad (digest group_core w) ''b1''), mk_claimed = None,
     mk_used = False, mk_created = t\<rparr>"

lemma group_identity: "w = ''kp1'' \<or> w = ''kp2'' \<Longrightarrow> t < 5000 \<Longrightarrow> KeyPackageIdentity group_lib t w = Some (''b1'', pad 32 ''B'')"
  by (auto simp: KeyPackageIdentity_def group_lib_def group_package_def suite1_def basic_credential_def pad_def)

lemma group_digests: "digest group_core ''kp1'' \<noteq> digest group_core ''kp2''"
  by (simp add: digest_def group_core_simps group_prims_def pad_def del: hex_encode.simps)

lemma group_kp_simps: "mk_id (group_kp t w) = digest group_core w" "mk_device (group_kp t w) = ''b1''"
  "mk_claimed (group_kp t w) = None" "mk_used (group_kp t w) = False" "mk_created (group_kp t w) = t"
  "mk_payload (group_kp t w) = Seal group_prims toy_engine ''nonce'' w (keypackage_aad (digest group_core w) ''b1'')"
  by (simp_all add: group_kp_def)

lemma bob_is: "device_id bob = ''b1''" "user_id bob = ''bob''"
  by (simp_all add: bob_def)

lemma group_uploaded: "uploadMLSKeyPackage group_core group_lib (toy_env t []) s (Body (b64_encode w)) bob
    = (Reply 201 (digest group_core w), [], s\<lparr>mls_keypackages := mls_keypackages s @ [group_kp t w]\<rparr>)"
  if "w = ''kp1'' \<or> w = ''kp2''" "t < 5000" "devices s = devices group_db0" "length (mls_keypackages s) < 100"
    "digest group_core w \<notin> mk_id ` set (mls_keypackages s)"
proof -
  have "count_rows (unclaimed ''b1'') (mls_keypackages s) < 100"
    unfolding count_rows_def using length_filter_le that(4) by (rule le_less_trans)
  moreover have "get_row mk_id (digest group_core w) (mls_keypackages s) = None" using that(5) by (simp add: get_row_None_iff)
  moreover have "query_row (map d_signing_key (filter (\<lambda>d. d_id d = ''b1'' \<and> d_user d = ''bob'' \<and> \<not> d_revoked d) (devices s)))
      = Some (group_key ''B'')" using that(3) by (simp add: group_db0_def)
  ultimately show ?thesis
    using that(1,2) by (simp add: uploadMLSKeyPackage_def group_identity group_env_simps bob_is group_core_simps Let_def group_kp_def group_key_def)
qed

lemma group_claimed: "claimMLSKeyPackage group_core group_lib (toy_env t []) s alice ''c'' ''b1''
    = (Reply 200 (digest group_core w, ''b1'', b64_encode w), [], s\<lparr>mls_keypackages := claim_row (digest group_core w) ''c'' (mls_keypackages s)\<rparr>)"
  if "oldest_unclaimed s ''b1'' = Some (group_kp t0 w)" "w = ''kp1'' \<or> w = ''kp2''" "t < 5000" "devices s = devices group_db0"
    "users s = users toy_db" "members s = members toy_db" "chats s = [group_chat n e p]"
proof -
  have "Member s (user_id alice) ''c'' = Some (''owner'', True, 1)" "claim_target_ok s ''c'' ''b1''"
    using that(4-7) by (simp_all add: Member_def alice_def claim_target_ok_def group_db0_def toy_db_def group_chat_def)
  moreover have "Open group_prims toy_engine (mk_payload (group_kp t0 w)) (keypackage_aad (digest group_core w) ''b1'') = Inr w"
    unfolding group_kp_simps by (rule Open_Seal) (simp add: gcm_opens_def group_prims_def toy_gcm_opens [unfolded gcm_opens_def])
  ultimately show ?thesis
    using that(1-3) by (simp add: claimMLSKeyPackage_def group_identity group_env_simps group_core_simps Let_def group_kp_simps)
qed

theorem key_package_once_witness:
  "digest group_core ''kp2'' \<noteq> digest group_core ''kp1''"
proof -
  let ?s1 = "group_db0\<lparr>mls_keypackages := [group_kp 1000 ''kp1'']\<rparr>"
  let ?s2 = "group_db0\<lparr>mls_keypackages := [group_kp 1000 ''kp1'', group_kp 1001 ''kp2'']\<rparr>"
  let ?s3 = "group_db0\<lparr>mls_keypackages := [(group_kp 1000 ''kp1'')\<lparr>mk_claimed := Some ''c''\<rparr>, group_kp 1001 ''kp2'']\<rparr>"
  have u1: "uploadMLSKeyPackage group_core group_lib (toy_env 1000 []) group_db0 (Body (b64_encode ''kp1'')) bob
      = (Reply 201 (digest group_core ''kp1''), [], ?s1)"
    by (subst group_uploaded) (simp_all add: group_db0_def)
  have u2: "uploadMLSKeyPackage group_core group_lib (toy_env 1001 []) ?s1 (Body (b64_encode ''kp2'')) bob
      = (Reply 201 (digest group_core ''kp2''), [], ?s2)"
    using group_digests by (subst group_uploaded) (auto simp: group_kp_simps)
  have o1: "oldest_unclaimed ?s2 ''b1'' = Some (group_kp 1000 ''kp1'')"
    by (simp add: oldest_unclaimed_def unclaimed_def group_kp_simps)
  have o2: "oldest_unclaimed ?s3 ''b1'' = Some (group_kp 1001 ''kp2'')"
    by (simp add: oldest_unclaimed_def unclaimed_def group_kp_simps)
  have c1: "claimMLSKeyPackage group_core group_lib (toy_env 1002 []) ?s2 alice ''c'' ''b1''
      = (Reply 200 (digest group_core ''kp1'', ''b1'', b64_encode ''kp1''), [], ?s3)"
  proof -
    have "claim_row (digest group_core ''kp1'') ''c'' (mls_keypackages ?s2) = mls_keypackages ?s3"
      using group_digests [symmetric] by (simp add: claim_row_def update_rows_def group_kp_simps)
    then have e: "?s2\<lparr>mls_keypackages := claim_row (digest group_core ''kp1'') ''c'' (mls_keypackages ?s2)\<rparr> = ?s3" by simp
    show ?thesis by (rule group_claimed [OF o1, unfolded e]) (simp_all add: group_db0_def)
  qed
  have c2: "claimMLSKeyPackage group_core group_lib (toy_env 1003 []) ?s3 alice ''c'' ''b1''
      = (Reply 200 (digest group_core ''kp2'', ''b1'', b64_encode ''kp2''), [],
         ?s3\<lparr>mls_keypackages := claim_row (digest group_core ''kp2'') ''c'' (mls_keypackages ?s3)\<rparr>)"
    by (rule group_claimed [OF o2]) (simp_all add: group_db0_def)
  have r: "mls_run group_core group_lib group_hooks group_db0 ?s2"
    by (rule mr_step [OF mr_step [OF mr_refl ms_upload [OF u1]] ms_upload [OF u2]])
  show ?thesis by (rule key_package_once [OF group_fresh group_quiet r c1 mr_refl c2])
qed

end
