(* ===== verification/Platform.thy ===== *)
theory Platform
  imports System GroupRelay FileSweep
begin

text \<open>
  The core with all modules of the message store at once: the steps of \<open>System\<close>, the operations of the file module and those of the MLS
  relay, on one store. The hooks of these modules satisfy the contract of \<open>System\<close>; their operations write their own tables, and the relay
  also the epoch and the barrier of a chat and its journal.
\<close>

subsection \<open>The hooks of files and of the relay\<close>

lemma publish_all_own: "publish_all f n t who chat seq mid as s = Inr s' \<Longrightarrow> own_tables s s'"
proof (induction as arbitrary: n s)
  case (Cons a as)
  from Cons.prems have rest: "publish_all f (n + 3) t who chat seq mid as
      (s\<lparr>uploads := update_rows (publishable who chat t a)
              (\<lambda>u. u\<lparr>f_seq := if f_seq u = 0 then seq else f_seq u\<rparr>) (uploads s),
           upload_messages := insert_ignore id (a, mid) (upload_messages s)\<rparr>) = Inr s'"
    by (auto split: if_splits)
  show ?case by (rule own_tables_trans [OF _ Cons.IH [OF rest]]) (simp add: own_tables_def same_core_def same_calls_def)
qed simp

interpretation files_module: module_tx_hook files_tx_hook
  by unfold_locales (auto simp: files_tx_hook_def dest: publish_all_own)

interpretation relay_module: module_tx_hook mls_tx_hook
  by unfold_locales (auto simp: mls_tx_hook_def split: if_splits)

interpretation files_delete_module: module_delete_hook files_delete_hook
  by unfold_locales (auto simp: files_delete_hook_def same_core_def same_calls_def reactions_kept_def split: if_splits)

subsection \<open>Files and key packages\<close>

lemmas own_defs = own_tables_def same_core_def same_calls_def

lemma create_own:
  assumes "create C env s b who chat = (r, es, s')"
  shows "own_tables s s'"
  using assms
proof (cases rule: create_cases)
  case (New inp mode session)
  from New(4) show ?thesis
    by (auto simp: create_new_def Let_def reserve_upload_def delete_upload_def own_defs split: if_splits sum.splits option.splits)
qed simp

lemma insert_chunk_own: "insert_chunk C env s u i inp = (r, es, s') \<Longrightarrow> own_tables s s'"
  by (auto simp: insert_chunk_def Let_def own_defs split: if_splits option.splits prod.splits)

lemma add_chunk_own: "add_chunk C aead env s u i inp = (r, es, s') \<Longrightarrow> own_tables s s'"
  by (auto simp: add_chunk_def Let_def intro: insert_chunk_own split: if_splits option.splits prod.splits)

lemma chunk_own: "chunk C aead env s inp who d = (r, es, s') \<Longrightarrow> own_tables s s'"
  by (auto simp: chunk_def Let_def own_defs split: if_splits sum.splits option.splits dest!: add_chunk_own)

lemma complete_own:
  assumes "complete C env s who d = (r, es, s')"
  shows "own_tables s s'"
  using assms by (cases rule: complete_cases) (simp_all add: own_defs)

lemma drop_uploads_own: "drop_uploads f n ds s = (ok, s') \<Longrightarrow> own_tables s s'"
proof (induction f n ds s rule: drop_uploads.induct)
  case (2 f n d ds s)
  have del: "own_tables s (delete_upload d s)" "own_tables s ((delete_upload d s)\<lparr>file_dirs := x\<rparr>)" for x
    by (simp_all add: delete_upload_def own_defs)
  from 2 show ?case by (auto simp: Let_def split: option.splits if_splits intro: del own_tables_trans [OF del(2)])
qed simp

lemma cleanup_own: "files_cleanup is_uuid env s = (done', s') \<Longrightarrow> own_tables s s'"
proof -
  assume c: "files_cleanup is_uuid env s = (done', s')"
  have dirs: "own_tables s1 (s1\<lparr>file_dirs := x\<rparr>)" for s1 :: "'w file_db_scheme" and x by (simp add: own_defs)
  from c show "own_tables s s'"
    unfolding files_cleanup_def Let_def
    by (auto split: if_splits prod.splits dest!: drop_uploads_own intro: own_tables_trans [OF _ dirs])
qed

lemma packages_own:
  "uploadMLSKeyPackage C L env s b who = (r, es, s') \<Longrightarrow> own_tables s s'"
  "claimMLSKeyPackage C L env s who chat target = (r', es, s') \<Longrightarrow> own_tables s s'"
  by (auto simp: uploadMLSKeyPackage_def claimMLSKeyPackage_def Let_def own_defs split: if_splits option.splits sum.splits prod.splits)

subsection \<open>The relay: epochs and barriers\<close>

text \<open>The tables of a module, and the epochs and barriers of chats.\<close>

definition chat_place :: "chat_row \<Rightarrow> ident \<times> int \<times> string" where
  "chat_place c = (c_id c, c_seq c, c_kind c)"

definition gate_work :: "'w call_db_scheme \<Rightarrow> 'w call_db_scheme \<Rightarrow> bool" where
  "gate_work s s' \<longleftrightarrow> map chat_place (chats s') = map chat_place (chats s) \<and> own_tables (s\<lparr>chats := chats s'\<rparr>) s'"

lemma gate_work_own [intro]: "own_tables s s' \<Longrightarrow> gate_work s s'"
  by (simp add: gate_work_def own_defs)

lemma gate_work_trans: "gate_work s1 s2 \<Longrightarrow> gate_work s2 s3 \<Longrightarrow> gate_work s1 s3"
  by (simp add: gate_work_def own_defs)

lemma gate_work_chats: "map chat_place cs = map chat_place (chats s) \<Longrightarrow> gate_work s (s\<lparr>chats := cs\<rparr>)"
  by (simp add: gate_work_def)

lemma gate_work_ok:
  assumes "gate_work s s'"
  shows "quiet t s s'" "db_ok s \<Longrightarrow> db_ok s'"
proof -
  from assms have own: "own_tables (s\<lparr>chats := chats s'\<rparr>) s'" and places: "map chat_place (chats s') = map chat_place (chats s)"
    by (simp_all add: gate_work_def)
  have kinds: "map (\<lambda>c. (c_id c, c_kind c)) cs = map (\<lambda>(i, n, k). (i, k)) (map chat_place cs)"
    "map chat_key cs = map (\<lambda>(i, n, k). (i, n)) (map chat_place cs)" for cs
    by (simp_all add: chat_place_def chat_key_def)
  have q: "quiet t s (s\<lparr>chats := chats s'\<rparr>)"
    by (auto simp: quiet_def same_chats_def same_calls_def reactions_kept_def kinds(1) places)
  from quiet_trans [OF q own_tables_quiet [OF own]] show "quiet t s s'" .
  have "same_core (s\<lparr>chats := chats s'\<rparr>) s'" using own by (simp add: own_tables_def)
  from same_core_db_ok [OF this] show "db_ok s'" if "db_ok s"
    using chats_db_ok [OF that, of "chats s'"] by (simp add: kinds(2) places)
qed

text \<open>Other modules may hook into a commit; they too write their own tables.\<close>

definition module_relay_hooks :: "'w mls_db_scheme mls_hooks \<Rightarrow> bool" where
  "module_relay_hooks H \<longleftrightarrow> (\<forall>h \<in> set (begin_hooks H). \<forall>env s chat s'. h env s chat = Inr s' \<longrightarrow> own_tables s s')
     \<and> (\<forall>h \<in> set (commit_hooks H). \<forall>env s chat wire s'. h env s chat wire = Inr s' \<longrightarrow> own_tables s s')"

lemma run_begin_own:
  "\<forall>h \<in> set hs. \<forall>env s chat s'. h env s chat = Inr s' \<longrightarrow> own_tables s s' \<Longrightarrow> run_begin hs env s chat = Inr s' \<Longrightarrow> own_tables s s'"
proof (induction hs arbitrary: s)
  case (Cons h hs)
  from Cons.prems(2) obtain s1 where h: "h env s chat = Inr s1" and r: "run_begin hs env s1 chat = Inr s'"
    by (auto split: sum.splits)
  have "own_tables s s1" using Cons.prems(1) h by auto
  with Cons.IH [OF _ r] Cons.prems(1) show ?case by (auto intro: own_tables_trans)
qed simp

lemma run_commit_own: "module_relay_hooks H \<Longrightarrow> run_commit (commit_hooks H) env s chat wire = Inr s' \<Longrightarrow> own_tables s s'"
  unfolding run_commit_def by (rule run_begin_own) (auto simp: module_relay_hooks_def)

lemma Welcome_own: "StoreMLSWelcomeTx C L fail t d seed s chat target epoch wire = Some s' \<Longrightarrow> own_tables s s'"
  by (auto simp: StoreMLSWelcomeTx_def own_defs split: option.splits mls_message.splits if_splits)

lemma take_welcomes_own: "take_welcomes C L env k n chat epoch targets ws s = Inr s' \<Longrightarrow> own_tables s s'"
proof (induction ws arbitrary: k n targets s)
  case (Cons w ws)
  from Cons.prems show ?case
  proof (rule take_welcomes_Cons)
    fix r wel s2
    assume st: "StoreMLSWelcomeTx C L (flt env (n + 2)) (now env) (draws env (2 * k)) (draws env (2 * k + 1))
      (s\<lparr>mls_keypackages := use_package (wi_package w) (mls_keypackages s)\<rparr>) chat (wi_device w) (epoch + 1) wel = Some s2"
      and rest: "take_welcomes C L env (Suc k) (n + 3) chat epoch (wi_device w # targets) ws s2 = Inr s'"
    have "own_tables s (s\<lparr>mls_keypackages := use_package (wi_package w) (mls_keypackages s)\<rparr>)" by (simp add: own_defs)
    with Welcome_own [OF st] Cons.IH [OF rest] show ?case by (blast intro: own_tables_trans)
  qed
qed simp

lemma gates_work:
  "gate_work s (set_chat_pending chat s)" "gate_work s (set_epoch chat epoch s)"
  "gate_work s (s\<lparr>mls_groups := gs, mls_transitions := ts,
     chats := update_rows p (\<lambda>c. c\<lparr>c_epoch := epoch, c_pending := False\<rparr>) (chats s)\<rparr>)"
  by (auto simp: gate_work_def set_chat_pending_def set_epoch_def own_defs chat_place_def intro!: map_update_rows)

lemma init_work:
  assumes "InitMLSRelayTx L f s chat gid context epoch roster = Some s'"
  shows "gate_work s s'"
proof -
  from assms obtain gs s1 where "saveMLSRoster (shift_faults (5 + length roster) f) chat roster (s\<lparr>mls_groups := gs\<rparr>) = Some s1"
    and s': "s' = set_epoch chat epoch s1"
    by (auto simp: InitMLSRelayTx_def Let_def split: if_splits option.splits)
  from saveMLSRoster_Some [OF this(1)] have "own_tables s s1" by (auto simp: own_defs)
  with gates_work(2) [of s1] show ?thesis unfolding s' by (blast intro: gate_work_trans)
qed

lemma confirm_writes_work:
  assumes "confirm_writes L H env s chat inp gid gc wire = Inr s'" "module_relay_hooks H"
  shows "gate_work s s'"
proof (cases "cf_previous inp = -1")
  case True
  with assms(1) show ?thesis by (auto simp: confirm_writes_def intro: init_work split: option.splits)
next
  case False
  with assms(1) obtain s0 s1 where c: "run_commit (commit_hooks H) env s chat wire = Inr s0"
    and r: "saveMLSRoster (shift_faults 2000 (flt env)) chat (cf_roster inp) s0 = Some s1"
    and s': "s' = s1\<lparr>mls_groups := update_rows (\<lambda>g. mg_chat g = chat) (\<lambda>g. g\<lparr>mg_context := gc\<rparr>) (mls_groups s1),
                       mls_transitions := confirm_row (cf_transition inp) (mls_transitions s1),
                       chats := update_rows (\<lambda>c. c_id c = chat \<and> c_epoch c = cf_previous inp \<and> c_pending c)
                         (\<lambda>c. c\<lparr>c_epoch := cf_epoch inp, c_pending := False\<rparr>) (chats s1)\<rparr>"
    by (auto simp: confirm_writes_def split: if_splits sum.splits option.splits)
  from saveMLSRoster_Some [OF r] have "own_tables s0 s1" by (auto simp: own_defs)
  with run_commit_own [OF assms(2) c] have "own_tables s s1" by (rule own_tables_trans)
  then show ?thesis unfolding s' by (intro gate_work_trans [OF _ gates_work(3)]) blast
qed

definition relay_ok :: "time \<Rightarrow> 'w call_db_scheme \<Rightarrow> 'w call_db_scheme \<Rightarrow> bool" where
  "relay_ok t s s' \<longleftrightarrow> quiet t s s' \<and> (db_ok s \<longrightarrow> db_ok s')"

lemma relay_journal:
  assumes "gate_work s s1" "Append C env s1 chat kind m d = Inr (n, s')"
  shows "relay_ok (now env) s s'"
  using gate_work_ok [OF assms(1)] Append_quiet [OF assms(2)] Append_db_ok [OF _ assms(2)]
  by (auto simp: relay_ok_def intro: quiet_trans)

lemma submit_relay_ok:
  assumes "submitMLSCommit C L H env s b who chat = (r, es, s')" "module_relay_hooks H"
  shows "relay_ok (now env) s s'"
proof (cases "s' = s")
  case True
  then show ?thesis by (simp add: relay_ok_def)
next
  case False
  with assms(1) obtain wire ws epoch where tx: "commit_tx C L H env s ws who chat epoch wire = (r, es, s')"
    by (auto simp: submitMLSCommit_def split: if_splits option.splits sum.splits prod.splits)
  with False obtain s0 ts s1 seq where b: "run_begin (begin_hooks H) env s chat = Inr s0"
    and tw: "take_welcomes C L env 1 8 chat epoch [] ws (s0\<lparr>mls_transitions := ts\<rparr>) = Inr s1"
    and app: "Append C (shift_env 5 env) (set_chat_pending chat s1) chat ''mls.commit.pending'' []
        (Some (pending_data (digest C wire) epoch (uuid env))) = Inr (seq, s')"
    by (auto simp: commit_tx_def split: if_splits option.splits sum.splits prod.splits)
  have "own_tables s s0" by (rule run_begin_own [OF _ b]) (use assms(2) in \<open>auto simp: module_relay_hooks_def\<close>)
  moreover have "own_tables s0 (s0\<lparr>mls_transitions := ts\<rparr>)" by (simp add: own_defs)
  ultimately have "own_tables s s1" using take_welcomes_own [OF tw] by (blast intro: own_tables_trans)
  then have "gate_work s (set_chat_pending chat s1)" by (intro gate_work_trans [OF _ gates_work(1)]) blast
  from relay_journal [OF this app] show ?thesis by simp
qed

lemma confirm_relay_ok:
  assumes "confirmMLSEpoch C L H env s b chat = (r, es, s')" "module_relay_hooks H"
  shows "relay_ok (now env) s s'"
proof (cases "s' = s")
  case True
  then show ?thesis by (simp add: relay_ok_def)
next
  case False
  with assms(1) obtain inp gid gc signature where "confirm_tx C L H env s chat inp gid gc signature = (r, es, s')"
    by (cases b) (auto simp: confirmMLSEpoch_def split: if_splits option.splits)
  with False obtain wire s1 seq where wr: "confirm_writes L H env s chat inp gid gc wire = Inr s1"
    and app: "Append C (shift_env 8 env) s1 chat ''mls.epoch.confirmed'' [] (Some (confirmed_data inp)) = Inr (seq, s')"
    by (auto simp: confirm_tx_def split: if_splits sum.splits prod.splits)
  from relay_journal [OF confirm_writes_work [OF wr assms(2)] app] show ?thesis by simp
qed

subsection \<open>The whole store\<close>

inductive platform_step ::
  "'w mls_core \<Rightarrow> mls_lib \<Rightarrow> 'w mls_db_scheme mls_hooks \<Rightarrow> time \<times> 'w mls_db_scheme \<Rightarrow> time \<times> 'w mls_db_scheme \<Rightarrow> bool" for C L H where
  core_step: "sys_step C x y \<Longrightarrow> platform_step C L H x y"
| file_create: "T \<le> now env \<Longrightarrow> create C env s b who chat = (r, es, s') \<Longrightarrow> platform_step C L H (T, s) (now env, s')"
| file_chunk: "T \<le> now env \<Longrightarrow> chunk C aead env s ci who d = (rc, es, s') \<Longrightarrow> platform_step C L H (T, s) (now env, s')"
| file_complete: "T \<le> now env \<Longrightarrow> complete C env s who d = (rd, es, s') \<Longrightarrow> platform_step C L H (T, s) (now env, s')"
| file_cleanup: "T \<le> now env \<Longrightarrow> files_cleanup is_uuid env s = (fine, s') \<Longrightarrow> platform_step C L H (T, s) (now env, s')"
| package_upload: "T \<le> now env \<Longrightarrow> uploadMLSKeyPackage C L env s kb who = (rk, es, s') \<Longrightarrow> platform_step C L H (T, s) (now env, s')"
| package_claim: "T \<le> now env \<Longrightarrow> claimMLSKeyPackage C L env s who chat target = (rl, es, s') \<Longrightarrow> platform_step C L H (T, s) (now env, s')"
| commit: "T \<le> now env \<Longrightarrow> submitMLSCommit C L H env s cb who chat = (rm, es, s') \<Longrightarrow> platform_step C L H (T, s) (now env, s')"
| confirm: "T \<le> now env \<Longrightarrow> confirmMLSEpoch C L H env s fb chat = (rf, es, s') \<Longrightarrow> platform_step C L H (T, s) (now env, s')"

lemma relay_ok_own: "own_tables s s' \<Longrightarrow> relay_ok t s s'"
  using same_core_db_ok [of s s'] by (simp add: relay_ok_def own_tables_quiet own_tables_def)

lemma relay_ok_step: "relay_ok t s s' \<Longrightarrow> T \<le> t \<Longrightarrow> sys_ok T s \<Longrightarrow> sys_ok t s' \<and> (\<forall>d. revoked_in s d \<longrightarrow> revoked_in s' d)"
  using quiet_step [of T s t s'] quiet_revoked [of t s s'] by (simp add: relay_ok_def)

lemma platform_step_ok:
  assumes "platform_step C L H (T, s) (T', s')" "standard_modules C" "module_relay_hooks H" "sys_ok T s"
  shows "sys_ok T' s' \<and> (\<forall>d. revoked_in s d \<longrightarrow> revoked_in s' d)"
  using assms(1)
proof (cases rule: platform_step.cases)
  case core_step
  with sys_step_ok [OF _ assms(2,4)] sys_step_revoked [OF _ assms(2,4)] show ?thesis by blast
next
  case file_create
  then show ?thesis by (metis create_own relay_ok_own relay_ok_step assms(4))
next
  case file_chunk
  then show ?thesis by (metis chunk_own relay_ok_own relay_ok_step assms(4))
next
  case file_complete
  then show ?thesis by (metis complete_own relay_ok_own relay_ok_step assms(4))
next
  case file_cleanup
  then show ?thesis by (metis cleanup_own relay_ok_own relay_ok_step assms(4))
next
  case package_upload
  then show ?thesis by (metis packages_own(1) relay_ok_own relay_ok_step assms(4))
next
  case package_claim
  then show ?thesis by (metis packages_own(2) relay_ok_own relay_ok_step assms(4))
next
  case commit
  then show ?thesis by (metis submit_relay_ok [OF _ assms(3)] relay_ok_step assms(4))
next
  case confirm
  then show ?thesis by (metis confirm_relay_ok [OF _ assms(3)] relay_ok_step assms(4))
qed

lemma platform_reachable:
  assumes "(platform_step C L H)\<^sup>*\<^sup>* (T0, s0) (T, s)" "standard_modules C" "module_relay_hooks H" "sys_ok T0 s0"
  shows "sys_ok T s \<and> (\<forall>d. revoked_in s0 d \<longrightarrow> revoked_in s d)"
  using assms(1)
proof (induction "(T, s)" arbitrary: T s rule: rtranclp_induct)
  case base
  then show ?case using assms(4) by simp
next
  case (step st)
  then obtain T1 s1 where st: "st = (T1, s1)" by (cases st)
  with step(3) have "sys_ok T1 s1" "\<forall>d. revoked_in s0 d \<longrightarrow> revoked_in s1 d" by auto
  with platform_step_ok [OF step(2) [unfolded st] assms(2,3)] show ?case by blast
qed

end
