(* ===== verification/PlatformProperties.thy ===== *)
theory PlatformProperties
  imports GroupProperties Platform
begin

text \<open>
  The properties of the core together with all modules of the message store (\<open>Platform\<close>), instantiated on the installation of
  \<open>GroupProperties\<close>.
\<close>

lemma group_modules: "standard_modules group_core" "module_relay_hooks group_hooks"
  using relay_module.module_tx_hook_axioms by (simp_all add: standard_modules_def group_core_def module_relay_hooks_def group_hooks_def)

lemma group_sys_ok: "sys_ok 0 group_db0"
proof -
  have ok: "db_ok group_db0" by (auto simp: group_tables db_ok_unfold unique_on_def m_key_def intro: exI [of _ 0])
  moreover have "direct_ok group_db0" by (simp add: group_tables direct_ok_def members_of_def)
  moreover have "calls_ok group_db0" unfolding calls_ok_def using ok by (simp add: group_tables live_calls_def)
  ultimately show ?thesis by (simp add: sys_ok_def timed_ok_def) (simp add: group_db0_def)
qed

lemma group_platform: "(platform_step group_core group_lib group_hooks)\<^sup>*\<^sup>* (0, group_db0) (1000, group_db2)"
proof -
  have env: "now (toy_env 1000 u) = 1000" for u by (rule group_env_simps)
  have "platform_step group_core group_lib group_hooks (0, group_db0) (1000, group_db1)"
    using platform_step.confirm [OF _ group_initialized, of 0] by (simp add: env)
  moreover have "platform_step group_core group_lib group_hooks (1000, group_db1) (1000, group_db2)"
    using platform_step.commit [OF _ group_committed, of 1000] by (simp add: env)
  ultimately show ?thesis by (meson rtranclp.rtrancl_into_rtrancl r_into_rtranclp)
qed

text \<open>C4: Global invariant of the message store. Keys stay unique, references resolve, every chat's retained journal stays a gapless
  suffix up to its head, events are ordered in time, direct chats keep their two members and a chat has at most one live call,
  whatever sequence runs of: users, devices and revocations, chats and members, tickets, messages, receipts, edits, deletions,
  reactions, calls and their sweep, retention, uploads, chunks, completions and the cleanup of files, key packages, commits and
  confirmations of MLS chats, and operations that write only tables of their own. Installed hooks keep to tables of their own
  (\<open>standard_modules\<close>, as those of forward, reply, reactions, files and the relay do). The assistants' operations, which
  create users and chats, are not among the steps.\<close>

theorem system_invariant:
  assumes "(platform_step C L H)\<^sup>*\<^sup>* (T0, s0) (T, s)" "standard_modules C" "module_relay_hooks H" "sys_ok T0 s0"
  shows "db_ok s \<and> timed_ok T s \<and> direct_ok s \<and> calls_ok s \<and> reactions_ok s"
  using platform_reachable [OF assms] by (simp add: sys_ok_def reactions_ok_def)

theorem system_invariant_witness:
  "(platform_step group_core group_lib group_hooks)\<^sup>*\<^sup>* (0, group_db0) (1000, group_db2)
    \<and> db_ok group_db2 \<and> timed_ok 1000 group_db2 \<and> calls_ok group_db2"
  using system_invariant [OF group_platform group_modules group_sys_ok] group_platform by blast

lemma revoked_may_not_send:
  "db_ok s \<Longrightarrow> revoked_in s (device_id i) \<Longrightarrow> \<not> may_send s i chat epoch"
  by (auto simp: may_send_def revoked_in_def dest: unique_on_eqD [OF db_ok_uniques(2)])

text \<open>C5: Revocation is final: once a device is revoked its sockets are told to close, and after any further steps it cannot
  authenticate with any token, redeem any ticket or get a message into the store. The steps are those of C4: all operations of the
  core, of the modules for messages and calls, of files and of the MLS relay, under the same condition on hooks, without the
  assistants' own.\<close>

theorem revocation_is_final:
  assumes "sys_ok T0 s0" "standard_modules C" "module_relay_hooks H" "T0 \<le> now env"
    and "revokeDevice env s0 user device = (Reply code v, es, s1)"
    and "(platform_step C L H)\<^sup>*\<^sup>* (now env, s1) (T, s)" "device_id i = device"
  shows "es = [DisconnectDevice device] \<and> authenticate jwt env2 s a \<noteq> Inr i
    \<and> fst (redeemTicket C env2 s tk) \<noteq> Some i
    \<and> (\<forall>j m rep s'. j_who j = i \<longrightarrow> persistMessageInTx C env2 s j \<noteq> Inr (m, rep, s'))"
proof -
  have step: "sys_step C (T0, s0) (now env, s1)" by (rule sys_step.revoke [OF assms(4,5)])
  have r1: "revoked_in s1 device" by (rule revokeDevice_revokes [OF assms(5)])
  have "sys_ok T s" "revoked_in s device"
    using platform_reachable [OF assms(6,2,3) sys_step_ok [OF step assms(2,1)]] r1 by auto
  then have ok: "db_ok s" and rev: "revoked_in s (device_id i)" using assms(7) by (simp_all add: sys_ok_def)
  have inactive: "\<not> deviceActive f s i" for f by (rule revoked_not_active [OF ok rev])
  have "authenticate jwt env2 s a \<noteq> Inr i" using inactive by (auto elim: authenticate_Inr)
  moreover have "fst (redeemTicket C env2 s tk) \<noteq> Some i"
  proof
    assume "fst (redeemTicket C env2 s tk) = Some i"
    then obtain s' where "redeemTicket C env2 s tk = (Some i, s')" by (cases "redeemTicket C env2 s tk") auto
    from redeemTicket_Some [OF this ok] inactive show False by blast
  qed
  moreover have "persistMessageInTx C env2 s j \<noteq> Inr (m, rep, s')" if "j_who j = i" for j m rep s'
    using revoked_may_not_send [OF ok rev] that by (auto elim: persist_cases)
  moreover have "es = [DisconnectDevice device]" using assms(5) by (auto elim: revokeDevice_Inr)
  ultimately show ?thesis by blast
qed

theorem revocation_is_final_witness:
  "\<exists>s1. revokeDevice (toy_env 5 []) group_db0 ''bob'' ''b1'' = (Reply 200 True, [DisconnectDevice ''b1''], s1)
    \<and> (platform_step group_core group_lib group_hooks)\<^sup>*\<^sup>* (5, s1) (7, cleanup_tick group_core (toy_env 7 []) s1)
    \<and> fst (redeemTicket group_core (toy_env 8 []) (cleanup_tick group_core (toy_env 7 []) s1) ''t'') \<noteq> Some bob"
proof -
  obtain s1 where r: "revokeDevice (toy_env 5 []) group_db0 ''bob'' ''b1'' = (Reply 200 True, [DisconnectDevice ''b1''], s1)"
    by (simp add: revokeDevice_def group_env_simps group_tables count_rows_def Let_def)
  have t: "now (toy_env 5 []) = 5" "now (toy_env 7 []) = 7" by (rule group_env_simps)+
  have "sys_step group_core (5, s1) (7, cleanup_tick group_core (toy_env 7 []) s1)"
    using sys_step.sweep [of 5 "toy_env 7 []" group_core s1] by (simp add: t)
  then have run: "(platform_step group_core group_lib group_hooks)\<^sup>*\<^sup>* (5, s1) (7, cleanup_tick group_core (toy_env 7 []) s1)"
    by (intro r_into_rtranclp core_step)
  from revocation_is_final [OF group_sys_ok group_modules _ r, of group_lib, unfolded t, OF _ run, of bob undefined "toy_env 8 []" "[]" "''t''"] run r
  show ?thesis by (auto simp: bob_def)
qed

end
