(* ===== verification/Vault.thy ===== *)
theory Vault
  imports Types "HOL-Library.List_Lexorder" "HOL-Library.Char_ord"
begin

text \<open>
  \<open>internal/aivault/storage.go\<close>, the encrypted resources of AI retrieval: resources, documents and
  edges with their quotas, search and the traversal of the graph. What the file uses of
  floating-point arithmetic, of Unicode text and of the JSON decoder is the record \<open>vault_lib\<close>.
\<close>

subsection \<open>Limits\<close>

record vault_limits =
  l_resources :: int
  l_documents :: int
  l_edges :: int
  l_item_bytes :: int
  l_text_bytes :: int
  l_metadata_bytes :: int
  l_filename_bytes :: int
  l_dimensions :: int
  l_results :: int
  l_depth :: int

definition defaulted :: "int \<Rightarrow> int \<Rightarrow> int" where
  "defaulted n d = (if n \<le> 0 then d else n)"

definition withDefaults :: "vault_limits \<Rightarrow> vault_limits" where
  "withDefaults l = \<lparr>l_resources = defaulted (l_resources l) 1024, l_documents = defaulted (l_documents l) 10000,
     l_edges = defaulted (l_edges l) 20000, l_item_bytes = defaulted (l_item_bytes l) (8 * 2 ^ 20),
     l_text_bytes = defaulted (l_text_bytes l) (2 ^ 20), l_metadata_bytes = defaulted (l_metadata_bytes l) (256 * 2 ^ 10),
     l_filename_bytes = defaulted (l_filename_bytes l) 4096, l_dimensions = defaulted (l_dimensions l) 4096,
     l_results = defaulted (l_results l) 100, l_depth = defaulted (l_depth l) 16\<rparr>"

definition limit_table :: "vault_limits \<Rightarrow> (string \<times> int \<times> int) list" where
  "limit_table l = [(''max_resources'', l_resources l, 100000), (''max_documents'', l_documents l, 1000000),
     (''max_edges'', l_edges l, 2000000), (''max_item_bytes'', l_item_bytes l, 64 * 2 ^ 20),
     (''max_text_bytes'', l_text_bytes l, 8 * 2 ^ 20), (''max_metadata_bytes'', l_metadata_bytes l, 4 * 2 ^ 20),
     (''max_filename_bytes'', l_filename_bytes l, 64 * 2 ^ 10), (''max_vector_dimensions'', l_dimensions l, 65536),
     (''max_search_results'', l_results l, 10000), (''max_bfs_depth'', l_depth l, 64)]"

text \<open>The first limit that is out of its range.\<close>

definition validateLimits :: "vault_limits \<Rightarrow> string option" where
  "validateLimits l =
     map_option (\<lambda>(name, v, ceiling). if v < 0 then ''aivault: '' @ name @ '' must not be negative''
         else ''aivault: '' @ name @ '' exceeds package ceiling'')
       (find (\<lambda>(name, v, ceiling). v < 0 \<or> v > ceiling) (limit_table l))"

subsection \<open>Payloads and tables\<close>

text \<open>JSON values that are absent and empty byte slices are both the empty list.\<close>

record 'f document =
  dc_text :: string
  dc_vector :: "'f list"
  dc_filename :: string
  dc_file :: bytes
  dc_metadata :: bytes

record 'f edge =
  ed_from :: string
  ed_to :: string
  ed_label :: string
  ed_vector :: "'f list"

record 'f vault_lib =
  vl_zero :: 'f
  vl_one :: 'f
  vl_tenth :: 'f
  vl_two :: 'f
  vl_plus :: "'f \<Rightarrow> 'f \<Rightarrow> 'f"
  vl_times :: "'f \<Rightarrow> 'f \<Rightarrow> 'f"
  vl_divide :: "'f \<Rightarrow> 'f \<Rightarrow> 'f"
  vl_sqrt :: "'f \<Rightarrow> 'f"
  vl_greater :: "'f \<Rightarrow> 'f \<Rightarrow> bool"
  vl_same :: "'f \<Rightarrow> 'f \<Rightarrow> bool"
  vl_finite :: "'f \<Rightarrow> bool"
  vl_number :: "'f \<Rightarrow> string"                       \<comment> \<open>how JSON writes a number\<close>
  vl_lower :: "string \<Rightarrow> string"
  vl_trim :: "string \<Rightarrow> string"
  vl_fields :: "string \<Rightarrow> string list"
  vl_normal :: "bytes \<Rightarrow> bytes option"               \<comment> \<open>decode any JSON value and write it again\<close>
  vl_metadata :: "bytes \<Rightarrow> bytes option"             \<comment> \<open>decode the payload of a resource\<close>
  vl_document :: "bytes \<Rightarrow> 'f document option"
  vl_search :: "bytes \<Rightarrow> 'f document option"         \<comment> \<open>the same without the file\<close>
  vl_edge :: "bytes \<Rightarrow> 'f edge option"

record resource_row =
  vr_id :: ident
  vr_scope :: string
  vr_owner :: string
  vr_visible :: int
  vr_payload :: bytes
  vr_created :: time

record document_row =
  vd_id :: ident
  vd_resource :: ident
  vd_payload :: bytes
  vd_created :: time

record edge_row =
  ve_id :: ident
  ve_resource :: ident
  ve_payload :: bytes
  ve_created :: time

record vault_db = db +
  vault_versions :: "int list"
  resources :: "resource_row list"
  documents :: "document_row list"
  vault_edges :: "edge_row list"

datatype vault_error = NotFound | Quota | Corrupt | VaultError string

record vault =
  v_prim :: prims
  v_eng :: engine
  v_limits :: vault_limits

definition storage_error :: vault_error where
  "storage_error = VaultError ''sql: storage''"

text \<open>The schema is created once; a newer one is refused. The tables themselves always exist in the model.\<close>

definition vault_migrate :: "faults \<Rightarrow> 'v vault_db_scheme \<Rightarrow> 'v vault_db_scheme option" where
  "vault_migrate f s =
     (if f 0 \<or> list_ex f [1..<7] \<or> f 7 then None
      else let version = fold max (vault_versions s) 0 in
        if version > 1 then None
        else if version < 1 then (if f 8 \<or> f 9 then None else Some (s\<lparr>vault_versions := vault_versions s @ [1]\<rparr>))
        else if f 9 then None else Some s)"

definition newVault :: "prims \<Rightarrow> engine \<Rightarrow> vault_limits \<Rightarrow> faults \<Rightarrow> 'v vault_db_scheme \<Rightarrow> (vault \<times> 'v vault_db_scheme) option" where
  "newVault P e l f s =
     (if validateLimits l \<noteq> None then None
      else map_option (\<lambda>s'. (\<lparr>v_prim = P, v_eng = e, v_limits = withDefaults l\<rparr>, s')) (vault_migrate f s))"

subsection \<open>Identifiers, bounds and bindings\<close>

definition vault_id :: "string \<Rightarrow> bool" where
  "vault_id v \<longleftrightarrow> v \<noteq> [] \<and> length v \<le> 256 \<and> CHR 0x00 \<notin> set v"

text \<open>\<open>newID\<close> is a fresh identifier of the environment.\<close>

definition given_id :: "env \<Rightarrow> ident \<Rightarrow> ident" where
  "given_id env d = (if d = [] then uuid env else d)"

definition boundedJSON :: "'f vault_lib \<Rightarrow> bytes \<Rightarrow> int \<Rightarrow> vault_error + bytes" where
  "boundedJSON L raw m =
     (if raw = [] then Inr []
      else if int (length raw) > m then Inl Quota
      else case vl_normal L raw of
        None \<Rightarrow> Inl (VaultError ''aivault: metadata must be JSON'')
      | Some out \<Rightarrow> (if int (length out) > m then Inl Quota else Inr out))"

definition validateVector :: "'f vault_lib \<Rightarrow> 'f list \<Rightarrow> int \<Rightarrow> vault_error option" where
  "validateVector L v m =
     (if int (length v) > m then Some Quota
      else if list_ex (\<lambda>x. \<not> vl_finite L x) v then Some (VaultError ''aivault: vector contains non-finite value'')
      else None)"

definition aadResource :: "ident \<Rightarrow> string \<Rightarrow> string \<Rightarrow> bool \<Rightarrow> bytes" where
  "aadResource d scope owner visible = json_array [json_string ''aivault/v1/resource'', json_string d, json_string scope,
     json_string owner, (if visible then ''true'' else ''false'')]"

definition aadDocument :: "ident \<Rightarrow> ident \<Rightarrow> bytes" where
  "aadDocument r d = json_array [json_string ''aivault/v1/document'', json_string r, json_string d]"

definition aadEdge :: "ident \<Rightarrow> ident \<Rightarrow> bytes" where
  "aadEdge r d = json_array [json_string ''aivault/v1/edge'', json_string r, json_string d]"

text \<open>Fields with \<open>omitempty\<close> are written when they are not empty.\<close>

definition omitempty :: "string \<Rightarrow> 'a list \<Rightarrow> string \<Rightarrow> string list" where
  "omitempty name v text = (if v = [] then [] else [json_member name text])"

definition resource_json :: "bytes \<Rightarrow> bytes" where
  "resource_json meta = json_object (omitempty ''metadata'' meta meta)"

definition document_json :: "'f vault_lib \<Rightarrow> 'f document \<Rightarrow> bytes" where
  "document_json L p = json_object
     (omitempty ''text'' (dc_text p) (json_string (dc_text p))
      @ omitempty ''vector'' (dc_vector p) (json_array (map (vl_number L) (dc_vector p)))
      @ omitempty ''filename'' (dc_filename p) (json_string (dc_filename p))
      @ omitempty ''file'' (dc_file p) (json_string (b64_encode (dc_file p)))
      @ omitempty ''metadata'' (dc_metadata p) (dc_metadata p))"

definition edge_json :: "'f vault_lib \<Rightarrow> 'f edge \<Rightarrow> bytes" where
  "edge_json L p = json_object
     ([json_member ''from'' (json_string (ed_from p)), json_member ''to'' (json_string (ed_to p))]
      @ omitempty ''label'' (ed_label p) (json_string (ed_label p))
      @ omitempty ''vector'' (ed_vector p) (json_array (map (vl_number L) (ed_vector p))))"

subsection \<open>Resources\<close>

record resource =
  re_id :: ident
  re_scope :: string
  re_owner :: string
  re_visible :: bool
  re_metadata :: bytes
  re_created :: time

record resource_spec =
  sp_id :: ident
  sp_scope :: string
  sp_owner :: string
  sp_visible :: bool
  sp_metadata :: bytes

definition scopes :: "string list" where
  "scopes = [''shared'', ''bot'', ''user'']"

definition CreateResource ::
  "vault \<Rightarrow> 'f vault_lib \<Rightarrow> env \<Rightarrow> 'v vault_db_scheme \<Rightarrow> resource_spec \<Rightarrow> (vault_error + resource) \<times> 'v vault_db_scheme" where
  "CreateResource V L env s spec =
     (let d = given_id env (sp_id spec) in
      if \<not> vault_id d then (Inl (VaultError ''aivault: invalid id''), s)
      else if sp_scope spec \<notin> set scopes then (Inl (VaultError ''aivault: invalid resource scope''), s)
      else if sp_owner spec = [] \<or> length (sp_owner spec) > 256 then (Inl (VaultError ''aivault: invalid resource owner''), s)
      else case boundedJSON L (sp_metadata spec) (l_metadata_bytes (v_limits V)) of
        Inl e \<Rightarrow> (Inl e, s)
      | Inr meta \<Rightarrow>
          (let r = \<lparr>vr_id = d, vr_scope = sp_scope spec, vr_owner = sp_owner spec,
                 vr_visible = (if sp_visible spec then 1 else 0),
                 vr_payload = Seal (v_prim V) (v_eng V) (nonce env) (resource_json meta)
                   (aadResource d (sp_scope spec) (sp_owner spec) (sp_visible spec)),
                 vr_created = now env\<rparr> in
           if flt env 0 \<or> flt env 1 then (Inl storage_error, s)
           else if int (length (resources s)) \<ge> l_resources (v_limits V) then (Inl Quota, s)
           else case (if flt env 2 then None else insert_row vr_id r (resources s)) of
             None \<Rightarrow> (Inl storage_error, s)
           | Some rs \<Rightarrow>
               (if flt env 3 then (Inl storage_error, s)
                else (Inr \<lparr>re_id = d, re_scope = sp_scope spec, re_owner = sp_owner spec, re_visible = sp_visible spec,
                        re_metadata = meta, re_created = now env\<rparr>, s\<lparr>resources := rs\<rparr>))))"

definition ResourceByID :: "vault \<Rightarrow> bool \<Rightarrow> 'v vault_db_scheme \<Rightarrow> ident \<Rightarrow> vault_error + resource" where
  "ResourceByID V fail s d =
     (if fail then Inl storage_error
      else case get_row vr_id d (resources s) of
        None \<Rightarrow> Inl NotFound
      | Some r \<Rightarrow>
          (if vr_visible r \<noteq> 0 \<and> vr_visible r \<noteq> 1 then Inl Corrupt
           else case Open (v_prim V) (v_eng V) (vr_payload r) (aadResource d (vr_scope r) (vr_owner r) (vr_visible r \<noteq> 0)) of
             Inl _ \<Rightarrow> Inl Corrupt
           | Inr _ \<Rightarrow> Inr \<lparr>re_id = d, re_scope = vr_scope r, re_owner = vr_owner r, re_visible = (vr_visible r \<noteq> 0),
               re_metadata = [], re_created = vr_created r\<rparr>))"

text \<open>The second query of \<open>GetResource\<close> reads the row again; the model has no step between the two.\<close>

definition GetResource :: "vault \<Rightarrow> 'f vault_lib \<Rightarrow> faults \<Rightarrow> 'v vault_db_scheme \<Rightarrow> ident \<Rightarrow> vault_error + resource" where
  "GetResource V L f s d =
     (case ResourceByID V (f 0) s d of
        Inl e \<Rightarrow> Inl e
      | Inr h \<Rightarrow>
          (case (if f 1 then None else get_row vr_id d (resources s)) of
             None \<Rightarrow> Inl storage_error
           | Some r \<Rightarrow>
               (case Open (v_prim V) (v_eng V) (vr_payload r) (aadResource d (re_scope h) (re_owner h) (re_visible h)) of
                  Inl _ \<Rightarrow> Inl Corrupt
                | Inr plain \<Rightarrow>
                    (case vl_metadata L plain of
                       None \<Rightarrow> Inl Corrupt
                     | Some meta \<Rightarrow> Inr (h\<lparr>re_metadata := meta\<rparr>)))))"

definition DeleteResource :: "faults \<Rightarrow> 'v vault_db_scheme \<Rightarrow> ident \<Rightarrow> vault_error option \<times> 'v vault_db_scheme" where
  "DeleteResource f s d =
     (if list_ex f [0..<5] then (Some storage_error, s)
      else if count_rows (\<lambda>r. vr_id r = d) (resources s) = 0 then (Some NotFound, s)
      else if f 5 then (Some storage_error, s)
      else (None, s\<lparr>documents := delete_rows (\<lambda>r. vd_resource r = d) (documents s),
              vault_edges := delete_rows (\<lambda>r. ve_resource r = d) (vault_edges s),
              resources := delete_rows (\<lambda>r. vr_id r = d) (resources s)\<rparr>))"

definition resourceExists :: "bool \<Rightarrow> 'v vault_db_scheme \<Rightarrow> ident \<Rightarrow> bool" where
  "resourceExists fail s d \<longleftrightarrow> \<not> fail \<and> get_row vr_id d (resources s) \<noteq> None"

subsection \<open>Documents\<close>

definition PutDocument ::
  "vault \<Rightarrow> 'f vault_lib \<Rightarrow> env \<Rightarrow> 'v vault_db_scheme \<Rightarrow> ident \<Rightarrow> ident \<Rightarrow> 'f document \<Rightarrow>
    (vault_error + ident \<times> 'f document) \<times> 'v vault_db_scheme" where
  "PutDocument V L env s rid did inp =
     (let lim = v_limits V; d = given_id env did in
      if \<not> vault_id rid \<or> \<not> vault_id d then (Inl (VaultError ''aivault: invalid id''), s)
      else if int (length (dc_text inp)) > l_text_bytes lim \<or> int (length (dc_filename inp)) > l_filename_bytes lim
      then (Inl Quota, s)
      else case validateVector L (dc_vector inp) (l_dimensions lim) of
        Some e \<Rightarrow> (Inl e, s)
      | None \<Rightarrow>
          (case boundedJSON L (dc_metadata inp) (l_metadata_bytes lim) of
             Inl e \<Rightarrow> (Inl e, s)
           | Inr meta \<Rightarrow>
               (let p = inp\<lparr>dc_metadata := meta\<rparr>; plain = document_json L p in
                if int (length plain) > l_item_bytes lim then (Inl Quota, s)
                else if flt env 0 then (Inl storage_error, s)
                else if \<not> resourceExists (flt env 1) s rid then (Inl NotFound, s)
                else if flt env 2 then (Inl storage_error, s)
                else if int (count_rows (\<lambda>r. vd_resource r = rid) (documents s)) \<ge> l_documents lim then (Inl Quota, s)
                else case (if flt env 3 then None else insert_row vd_id
                    \<lparr>vd_id = d, vd_resource = rid, vd_payload = Seal (v_prim V) (v_eng V) (nonce env) plain (aadDocument rid d),
                     vd_created = now env\<rparr> (documents s)) of
                  None \<Rightarrow> (Inl storage_error, s)
                | Some ds \<Rightarrow> (if flt env 4 then (Inl storage_error, s) else (Inr (d, p), s\<lparr>documents := ds\<rparr>)))))"

definition validateDocumentPayload :: "vault \<Rightarrow> 'f vault_lib \<Rightarrow> 'f document \<Rightarrow> bool" where
  "validateDocumentPayload V L p \<longleftrightarrow> int (length (dc_text p)) \<le> l_text_bytes (v_limits V)
     \<and> int (length (dc_filename p)) \<le> l_filename_bytes (v_limits V)
     \<and> int (length (dc_metadata p)) \<le> l_metadata_bytes (v_limits V)
     \<and> validateVector L (dc_vector p) (l_dimensions (v_limits V)) = None
     \<and> int (length (document_json L p)) \<le> l_item_bytes (v_limits V)"

definition GetDocument ::
  "vault \<Rightarrow> 'f vault_lib \<Rightarrow> faults \<Rightarrow> 'v vault_db_scheme \<Rightarrow> ident \<Rightarrow> ident \<Rightarrow> vault_error + 'f document \<times> resource" where
  "GetDocument V L f s rid did =
     (case ResourceByID V (f 0) s rid of
        Inl e \<Rightarrow> Inl e
      | Inr res \<Rightarrow>
          (if f 1 then Inl storage_error
           else case query_row (filter (\<lambda>r. vd_id r = did \<and> vd_resource r = rid) (documents s)) of
             None \<Rightarrow> Inl NotFound
           | Some r \<Rightarrow>
               (case Open (v_prim V) (v_eng V) (vd_payload r) (aadDocument rid did) of
                  Inl _ \<Rightarrow> Inl Corrupt
                | Inr plain \<Rightarrow>
                    (case vl_document L plain of
                       None \<Rightarrow> Inl Corrupt
                     | Some p \<Rightarrow> (if validateDocumentPayload V L p then Inr (p, res) else Inl Corrupt)))))"

definition DeleteDocument :: "bool \<Rightarrow> 'v vault_db_scheme \<Rightarrow> ident \<Rightarrow> ident \<Rightarrow> vault_error option \<times> 'v vault_db_scheme" where
  "DeleteDocument fail s rid did =
     (if fail then (Some storage_error, s)
      else if count_rows (\<lambda>r. vd_id r = did \<and> vd_resource r = rid) (documents s) = 0 then (Some NotFound, s)
      else (None, s\<lparr>documents := delete_rows (\<lambda>r. vd_id r = did \<and> vd_resource r = rid) (documents s)\<rparr>))"

end
