(* ===== verification/Retrieval.thy ===== *)
theory Retrieval
  imports Vault "HOL-Library.Multiset"
begin

text \<open>
  The second half of \<open>internal/aivault/storage.go\<close>: search over the documents of a resource, its
  edges, and the bounded traversal of its graph; what the two of them return.
\<close>

subsection \<open>Scores\<close>

text \<open>\<open>strings.Contains\<close>.\<close>

definition contains :: "string \<Rightarrow> string \<Rightarrow> bool" where
  "contains s needle \<longleftrightarrow> list_ex (\<lambda>k. take (length needle) (drop k s) = needle) [0..<Suc (length s)]"

record 'f query =
  q_text :: string
  q_vector :: "'f list"
  q_limit :: int

definition text_score :: "'f vault_lib \<Rightarrow> string \<Rightarrow> string \<Rightarrow> 'f \<Rightarrow> 'f" where
  "text_score L text q score =
     (if q = [] then score
      else let needle = vl_lower L (vl_trim L q);
          start = (if contains (vl_lower L text) needle then vl_plus L score (vl_one L) else score) in
        foldl (\<lambda>x t. if contains (vl_lower L text) t then vl_plus L x (vl_tenth L) else x) start (vl_fields L needle))"

definition dot_product :: "'f vault_lib \<Rightarrow> 'f list \<Rightarrow> 'f list \<Rightarrow> 'f" where
  "dot_product L a b = foldl (\<lambda>x (p, q). vl_plus L x (vl_times L p q)) (vl_zero L) (zip a b)"

definition scoreDocument :: "'f vault_lib \<Rightarrow> string \<Rightarrow> 'f list \<Rightarrow> 'f query \<Rightarrow> 'f" where
  "scoreDocument L text vector q =
     (let score = text_score L text (q_text q) (vl_zero L) in
      if q_vector q \<noteq> [] \<and> length vector = length (q_vector q) then
        (let dot = dot_product L (q_vector q) vector; an = dot_product L (q_vector q) (q_vector q);
             bn = dot_product L vector vector in
         if vl_greater L an (vl_zero L) \<and> vl_greater L bn (vl_zero L)
         then vl_plus L score (vl_divide L (vl_plus L (vl_divide L dot (vl_times L (vl_sqrt L an) (vl_sqrt L bn))) (vl_one L)) (vl_two L))
         else score)
      else score)"

subsection \<open>Search\<close>

record 'f hit =
  h_id :: ident
  h_document :: "'f document"
  h_score :: 'f

definition better :: "'f vault_lib \<Rightarrow> 'f hit \<Rightarrow> 'f hit \<Rightarrow> bool" where
  "better L a b =
     (if \<not> vl_same L (h_score a) (h_score b) then vl_greater L (h_score a) (h_score b) else h_id a < h_id b)"

text \<open>The index of the worst result kept so far.\<close>

fun worst_from :: "'f vault_lib \<Rightarrow> 'f hit list \<Rightarrow> nat \<Rightarrow> nat \<Rightarrow> 'f hit list \<Rightarrow> nat" where
  "worst_from L out w i [] = w"
| "worst_from L out w i (x # xs) = worst_from L out (if better L (out ! w) x then i else w) (Suc i) xs"

definition keep_hit :: "'f vault_lib \<Rightarrow> nat \<Rightarrow> 'f hit list \<Rightarrow> 'f hit \<Rightarrow> 'f hit list" where
  "keep_hit L limit out c =
     (if length out < limit then out @ [c]
      else let w = worst_from L out 0 1 (tl out) in if better L c (out ! w) then out[w := c] else out)"

text \<open>Insertion from the back of the sorted prefix, which is kept reversed.\<close>

fun sink :: "'f vault_lib \<Rightarrow> 'f hit \<Rightarrow> 'f hit list \<Rightarrow> 'f hit list" where
  "sink L x [] = [x]"
| "sink L x (y # ys) = (if vl_greater L (h_score x) (h_score y) then y # sink L x ys else x # y # ys)"

definition sortResults :: "'f vault_lib \<Rightarrow> 'f hit list \<Rightarrow> 'f hit list" where
  "sortResults L items = rev (foldl (\<lambda>acc x. sink L x acc) [] items)"

definition validateSearchPayload :: "vault \<Rightarrow> 'f vault_lib \<Rightarrow> 'f document \<Rightarrow> bool" where
  "validateSearchPayload V L p \<longleftrightarrow> int (length (dc_text p)) \<le> l_text_bytes (v_limits V)
     \<and> int (length (dc_filename p)) \<le> l_filename_bytes (v_limits V)
     \<and> int (length (dc_metadata p)) \<le> l_metadata_bytes (v_limits V)
     \<and> validateVector L (dc_vector p) (l_dimensions (v_limits V)) = None"

text \<open>What one row of the documents yields: an error, nothing, or a candidate.\<close>

definition row_hit :: "vault \<Rightarrow> 'f vault_lib \<Rightarrow> ident \<Rightarrow> 'f query \<Rightarrow> document_row \<Rightarrow> vault_error + 'f hit option" where
  "row_hit V L rid q r =
     (case Open (v_prim V) (v_eng V) (vd_payload r) (aadDocument rid (vd_id r)) of
        Inl _ \<Rightarrow> Inl Corrupt
      | Inr plain \<Rightarrow>
          (case vl_search L plain of
             None \<Rightarrow> Inl Corrupt
           | Some p \<Rightarrow>
               (if \<not> validateSearchPayload V L p then Inl Corrupt
                else let score = scoreDocument L (dc_text p) (dc_vector p) q in
                  if q_text q \<noteq> [] \<and> vl_same L score (vl_zero L) then Inr None
                  else Inr (Some \<lparr>h_id = vd_id r, h_document = p\<lparr>dc_vector := [], dc_file := []\<rparr>, h_score = score\<rparr>))))"

fun search_rows ::
  "vault \<Rightarrow> 'f vault_lib \<Rightarrow> ident \<Rightarrow> 'f query \<Rightarrow> nat \<Rightarrow> 'f hit list \<Rightarrow> document_row list \<Rightarrow> vault_error + 'f hit list" where
  "search_rows V L rid q limit out [] = Inr out"
| "search_rows V L rid q limit out (r # rs) =
     (case row_hit V L rid q r of
        Inl e \<Rightarrow> Inl e
      | Inr None \<Rightarrow> search_rows V L rid q limit out rs
      | Inr (Some c) \<Rightarrow> search_rows V L rid q limit (keep_hit L limit out c) rs)"

definition clamp_limit :: "vault \<Rightarrow> int \<Rightarrow> int" where
  "clamp_limit V limit = (if limit \<le> 0 \<or> limit > l_results (v_limits V) then l_results (v_limits V) else limit)"

definition Search :: "vault \<Rightarrow> 'f vault_lib \<Rightarrow> faults \<Rightarrow> 'v vault_db_scheme \<Rightarrow> ident \<Rightarrow> 'f query \<Rightarrow> vault_error + 'f hit list \<times> resource" where
  "Search V L f s rid q =
     (if \<not> vault_id rid then Inl (VaultError ''aivault: invalid id'')
      else if int (length (q_text q)) > l_text_bytes (v_limits V) then Inl Quota
      else case ResourceByID V (f 0) s rid of
        Inl e \<Rightarrow> Inl e
      | Inr res \<Rightarrow>
          (case validateVector L (q_vector q) (l_dimensions (v_limits V)) of
             Some e \<Rightarrow> Inl e
           | None \<Rightarrow>
               (if f 1 then Inl storage_error
                else case search_rows V L rid q (nat (clamp_limit V (q_limit q))) []
                    (sort_key vd_id (filter (\<lambda>r. vd_resource r = rid) (documents s))) of
                  Inl e \<Rightarrow> Inl e
                | Inr out \<Rightarrow>
                    (if f 2 then Inl storage_error
                     else Inr (take (nat (clamp_limit V (q_limit q))) (sortResults L out), res)))))"

subsection \<open>Edges\<close>

definition PutEdge ::
  "vault \<Rightarrow> 'f vault_lib \<Rightarrow> env \<Rightarrow> 'v vault_db_scheme \<Rightarrow> ident \<Rightarrow> ident \<Rightarrow> 'f edge \<Rightarrow>
    (vault_error + ident \<times> 'f edge) \<times> 'v vault_db_scheme" where
  "PutEdge V L env s rid eid inp =
     (let lim = v_limits V; d = given_id env eid in
      if \<not> vault_id rid \<or> \<not> vault_id d then (Inl (VaultError ''aivault: invalid id''), s)
      else if ed_from inp = [] \<or> ed_to inp = [] \<or> length (ed_from inp) > 256 \<or> length (ed_to inp) > 256
      then (Inl (VaultError ''aivault: invalid edge endpoints''), s)
      else case validateVector L (ed_vector inp) (l_dimensions lim) of
        Some e \<Rightarrow> (Inl e, s)
      | None \<Rightarrow>
          (let plain = edge_json L inp in
           if int (length plain) > l_item_bytes lim then (Inl Quota, s)
           else if flt env 0 then (Inl storage_error, s)
           else if \<not> resourceExists (flt env 1) s rid then (Inl NotFound, s)
           else if flt env 2 then (Inl storage_error, s)
           else if int (count_rows (\<lambda>r. ve_resource r = rid) (vault_edges s)) \<ge> l_edges lim then (Inl Quota, s)
           else case (if flt env 3 then None else insert_row ve_id
               \<lparr>ve_id = d, ve_resource = rid, ve_payload = Seal (v_prim V) (v_eng V) (nonce env) plain (aadEdge rid d),
                ve_created = now env\<rparr> (vault_edges s)) of
             None \<Rightarrow> (Inl storage_error, s)
           | Some es \<Rightarrow> (if flt env 4 then (Inl storage_error, s) else (Inr (d, inp), s\<lparr>vault_edges := es\<rparr>))))"

definition DeleteEdge :: "bool \<Rightarrow> 'v vault_db_scheme \<Rightarrow> ident \<Rightarrow> ident \<Rightarrow> vault_error option \<times> 'v vault_db_scheme" where
  "DeleteEdge fail s rid eid =
     (if fail then (Some storage_error, s)
      else if count_rows (\<lambda>r. ve_id r = eid \<and> ve_resource r = rid) (vault_edges s) = 0 then (Some NotFound, s)
      else (None, s\<lparr>vault_edges := delete_rows (\<lambda>r. ve_id r = eid \<and> ve_resource r = rid) (vault_edges s)\<rparr>))"

subsection \<open>The traversal of the graph\<close>

text \<open>An edge of the answer: its identifier and its ends with the label.\<close>

type_synonym link = "ident \<times> string \<times> string \<times> string"

definition row_edge :: "vault \<Rightarrow> 'f vault_lib \<Rightarrow> ident \<Rightarrow> edge_row \<Rightarrow> link option" where
  "row_edge V L rid r =
     (case Open (v_prim V) (v_eng V) (ve_payload r) (aadEdge rid (ve_id r)) of
        Inl _ \<Rightarrow> None
      | Inr plain \<Rightarrow> map_option (\<lambda>e. (ve_id r, ed_from e, ed_to e, ed_label e)) (vl_edge L plain))"

text \<open>
  One level: the rows that are read, what is seen, the next frontier and the edges found so far.
  \<open>None\<close> is a row that cannot be read; the scan ends when the limit is reached.
\<close>

fun bfs_scan ::
  "nat \<Rightarrow> string list \<Rightarrow> string list \<Rightarrow> string list \<Rightarrow> link list \<Rightarrow> link option list \<Rightarrow> (string list \<times> string list \<times> link list) option" where
  "bfs_scan limit frontier seen nxt out [] = Some (seen, nxt, out)"
| "bfs_scan limit frontier seen nxt out (None # rs) = None"
| "bfs_scan limit frontier seen nxt out (Some (d, a, b, l) # rs) =
     (if a \<notin> set frontier \<or> b \<in> set seen then bfs_scan limit frontier seen nxt out rs
      else if length out + 1 \<ge> limit then Some (b # seen, nxt @ [b], out @ [(d, a, b, l)])
      else bfs_scan limit frontier (b # seen) (nxt @ [b]) (out @ [(d, a, b, l)]) rs)"

fun bfs_levels ::
  "faults \<Rightarrow> nat \<Rightarrow> nat \<Rightarrow> nat \<Rightarrow> string list \<Rightarrow> string list \<Rightarrow> link list \<Rightarrow> link option list \<Rightarrow> vault_error + string list \<times> link list" where
  "bfs_levels f n limit 0 frontier seen out rs = Inr (seen, out)"
| "bfs_levels f n limit (Suc d) frontier seen out rs =
     (if frontier = [] then Inr (seen, out)
      else if f n then Inl storage_error
      else case bfs_scan limit frontier seen [] out rs of
        None \<Rightarrow> Inl Corrupt
      | Some (seen', nxt, out') \<Rightarrow>
          (if f (Suc n) then Inl storage_error
           else if length out' \<ge> limit then Inr (seen', out')
           else bfs_levels f (n + 2) limit d nxt seen' out' rs))"

record graph_query =
  gq_start :: string
  gq_depth :: int
  gq_limit :: int

definition GraphBFS ::
  "vault \<Rightarrow> 'f vault_lib \<Rightarrow> faults \<Rightarrow> 'v vault_db_scheme \<Rightarrow> ident \<Rightarrow> graph_query \<Rightarrow>
    vault_error + resource \<times> string list \<times> link list" where
  "GraphBFS V L f s rid q =
     (if \<not> vault_id rid then Inl (VaultError ''aivault: invalid id'')
      else case ResourceByID V (f 0) s rid of
        Inl e \<Rightarrow> Inl e
      | Inr res \<Rightarrow>
          (if gq_depth q < 0 \<or> gq_depth q > l_depth (v_limits V) then Inl Quota
           else if \<not> vault_id (gq_start q) then Inl (VaultError ''aivault: graph start is required'')
           else case bfs_levels f 1 (nat (clamp_limit V (gq_limit q))) (nat (gq_depth q)) [gq_start q] [gq_start q] []
               (map (row_edge V L rid) (sort_key ve_id (filter (\<lambda>r. ve_resource r = rid) (vault_edges s)))) of
             Inl e \<Rightarrow> Inl e
           | Inr (seen, out) \<Rightarrow> Inr (res, sort seen, out)))"

subsection \<open>What a search returns\<close>

text \<open>
  The comparisons of \<open>float64\<close>, by IEEE 754: a value that does not equal itself is no number and compares false with everything, and the
  numbers are in a total order, up to the equality that also identifies the two zeros.
\<close>

definition float_order :: "'f vault_lib \<Rightarrow> bool" where
  "float_order L \<longleftrightarrow>
     (\<forall>a b. vl_greater L a b \<longrightarrow> vl_same L a a \<and> vl_same L b b \<and> \<not> vl_same L a b)
     \<and> (\<forall>a b. vl_same L a b \<longrightarrow> vl_same L b a) \<and> (\<forall>a b c. vl_same L a b \<longrightarrow> vl_same L b c \<longrightarrow> vl_same L a c)
     \<and> (\<forall>a b c. vl_greater L a b \<longrightarrow> vl_greater L b c \<longrightarrow> vl_greater L a c)
     \<and> (\<forall>a b c. vl_same L a b \<longrightarrow> vl_greater L b c \<longrightarrow> vl_greater L a c) \<and> (\<forall>a b c. vl_greater L a b \<longrightarrow> vl_same L b c \<longrightarrow> vl_greater L a c)
     \<and> (\<forall>a b. vl_same L a a \<longrightarrow> vl_same L b b \<longrightarrow> vl_same L a b \<or> vl_greater L a b \<or> vl_greater L b a)"

definition scored :: "'f vault_lib \<Rightarrow> 'f hit \<Rightarrow> bool" where
  "scored L h \<longleftrightarrow> vl_same L (h_score h) (h_score h)"

lemma float_orderD:
  assumes "float_order L"
  shows "vl_greater L a b \<Longrightarrow> vl_same L a a" "vl_greater L a b \<Longrightarrow> vl_same L b b" "vl_greater L a b \<Longrightarrow> \<not> vl_same L a b"
    "vl_same L a b \<Longrightarrow> vl_same L b a" "vl_same L a b \<Longrightarrow> vl_same L b c \<Longrightarrow> vl_same L a c"
    "vl_greater L a b \<Longrightarrow> vl_greater L b c \<Longrightarrow> vl_greater L a c"
    "vl_same L a b \<Longrightarrow> vl_greater L b c \<Longrightarrow> vl_greater L a c" "vl_greater L a b \<Longrightarrow> vl_same L b c \<Longrightarrow> vl_greater L a c"
    "vl_same L a a \<Longrightarrow> vl_same L b b \<Longrightarrow> vl_same L a b \<or> vl_greater L a b \<or> vl_greater L b a"
    "vl_greater L a b \<Longrightarrow> \<not> vl_greater L b a"
proof -
  note num = conjunct1 [OF assms [unfolded float_order_def]] and D = conjunct2 [OF assms [unfolded float_order_def]]
  note sym = conjunct1 [OF D] and D = conjunct2 [OF D]
  note eqt = conjunct1 [OF D] and D = conjunct2 [OF D]
  note tr = conjunct1 [OF D] and D = conjunct2 [OF D]
  note l = conjunct1 [OF D] and D = conjunct2 [OF D]
  note r = conjunct1 [OF D] and tot = conjunct2 [OF D]
  show "vl_greater L a b \<Longrightarrow> vl_same L a a" "vl_greater L a b \<Longrightarrow> vl_same L b b" "vl_greater L a b \<Longrightarrow> \<not> vl_same L a b"
    using num by blast+
  show "vl_same L a b \<Longrightarrow> vl_same L b a" using sym by blast
  show "vl_same L a b \<Longrightarrow> vl_same L b c \<Longrightarrow> vl_same L a c" using eqt by blast
  show trans: "vl_greater L a b \<Longrightarrow> vl_greater L b c \<Longrightarrow> vl_greater L a c" for a b c using tr by blast
  show "vl_same L a b \<Longrightarrow> vl_greater L b c \<Longrightarrow> vl_greater L a c" using l by blast
  show "vl_greater L a b \<Longrightarrow> vl_same L b c \<Longrightarrow> vl_greater L a c" using r by blast
  show "vl_same L a a \<Longrightarrow> vl_same L b b \<Longrightarrow> vl_same L a b \<or> vl_greater L a b \<or> vl_greater L b a" using tot by blast
  show "\<not> vl_greater L b a" if "vl_greater L a b"
  proof
    assume "vl_greater L b a"
    from trans [OF that this] num show False by blast
  qed
qed

text \<open>What is no number is better than nothing and nothing is better than it, so only totality needs numbers.\<close>

lemma better_order:
  assumes "float_order L"
  shows "\<not> better L a a" "better L a b \<Longrightarrow> better L b c \<Longrightarrow> better L a c"
    "h_id a \<noteq> h_id b \<Longrightarrow> scored L a \<Longrightarrow> scored L b \<Longrightarrow> better L a b \<or> better L b a" "better L a b \<Longrightarrow> \<not> better L b a"
proof -
  note F = float_orderD [OF assms]
  show 1: "\<not> better L a a" for a using F(1,3) [of "h_score a" "h_score a"] by (auto simp: better_def)
  show 2: "better L a c" if "better L a b" "better L b c" for a b c
  proof (cases "vl_same L (h_score a) (h_score b)")
    case ab: True
    with that(1) have id: "h_id a < h_id b" by (simp add: better_def)
    show ?thesis
    proof (cases "vl_same L (h_score b) (h_score c)")
      case True
      with that(2) id F(5) [OF ab True] show ?thesis by (simp add: better_def)
    next
      case False
      with that(2) have "vl_greater L (h_score b) (h_score c)" by (simp add: better_def)
      from F(7) [OF ab this] F(3) [OF F(7) [OF ab this]] show ?thesis by (simp add: better_def)
    qed
  next
    case False
    with that(1) have ab: "vl_greater L (h_score a) (h_score b)" by (simp add: better_def)
    have "vl_greater L (h_score a) (h_score c)"
      using that(2) F(6) [OF ab] F(8) [OF ab] by (auto simp: better_def split: if_splits)
    from this F(3) [OF this] show ?thesis by (simp add: better_def)
  qed
  show "better L a b \<or> better L b a" if "h_id a \<noteq> h_id b" "scored L a" "scored L b"
    using F(9) [of "h_score a" "h_score b"] that F(4) F(3) by (auto simp: better_def scored_def)
  show "better L a b \<Longrightarrow> \<not> better L b a" using 1 2 by blast
qed

definition best :: "'f vault_lib \<Rightarrow> nat \<Rightarrow> 'f hit list \<Rightarrow> 'f hit list \<Rightarrow> bool" where
  "best L limit cs out \<longleftrightarrow> distinct out \<and> set out \<subseteq> set cs \<and> length out = min limit (length cs)
     \<and> (\<forall>x \<in> set out. \<forall>y \<in> set cs - set out. better L x y)"

lemma worst_from_index:
  assumes r: "float_order L" and ids: "distinct (map h_id out)" and sc: "\<forall>x \<in> set out. scored L x"
  shows "xs = drop i out \<Longrightarrow> w < i \<Longrightarrow> i \<le> length out \<Longrightarrow> (\<And>j. j < i \<Longrightarrow> j \<noteq> w \<Longrightarrow> better L (out ! j) (out ! w)) \<Longrightarrow>
    worst_from L out w i xs < length out
    \<and> (\<forall>j < length out. j \<noteq> worst_from L out w i xs \<longrightarrow> better L (out ! j) (out ! worst_from L out w i xs))"
proof (induction xs arbitrary: w i)
  case (Cons x xs)
  have i: "i < length out" using Cons.prems(1) by (metis drop_eq_Nil2 list.discI not_le_imp_less)
  have "x # xs = out ! i # drop (Suc i) out" using Cons.prems(1) Cons_nth_drop_Suc [OF i] by simp
  then have x: "x = out ! i" and xs: "xs = drop (Suc i) out" by simp_all
  let ?w = "if better L (out ! w) x then i else w"
  have "h_id (out ! w) \<noteq> h_id (out ! i)"
    using nth_eq_iff_index_eq [OF ids, of w i] Cons.prems(2) i by simp
  from better_order(3) [OF r this] sc Cons.prems(2) i have "\<not> better L (out ! w) x \<Longrightarrow> better L (out ! i) (out ! w)" using x by simp
  moreover have "better L (out ! j) (out ! i)" if "better L (out ! w) x" "j < i" for j
    using that Cons.prems(4) [of j] better_order(2) [OF r] x by (cases "j = w") auto
  ultimately have "better L (out ! j) (out ! ?w)" if "j < Suc i" "j \<noteq> ?w" for j
    using that Cons.prems(4) [of j] by (auto simp: less_Suc_eq split: if_splits)
  from Cons.IH [OF xs, of ?w] this i Cons.prems(2) show ?case by simp
qed auto

lemma worst_index:
  assumes "float_order L" "distinct (map h_id out)" "\<forall>x \<in> set out. scored L x" "out \<noteq> []"
  shows "worst_from L out 0 1 (tl out) < length out"
    "j < length out \<Longrightarrow> j \<noteq> worst_from L out 0 1 (tl out) \<Longrightarrow> better L (out ! j) (out ! worst_from L out 0 1 (tl out))"
proof -
  have "worst_from L out 0 1 (tl out) < length out
    \<and> (\<forall>j < length out. j \<noteq> worst_from L out 0 1 (tl out) \<longrightarrow> better L (out ! j) (out ! worst_from L out 0 1 (tl out)))"
  proof (rule worst_from_index [OF assms(1-3)])
    show "tl out = drop 1 out" by (simp add: drop_Suc)
    show "1 \<le> length out" using assms(4) by (cases out) simp_all
  qed simp_all
  then show "worst_from L out 0 1 (tl out) < length out"
    "j < length out \<Longrightarrow> j \<noteq> worst_from L out 0 1 (tl out) \<Longrightarrow> better L (out ! j) (out ! worst_from L out 0 1 (tl out))"
    by blast+
qed

lemma keep_hit_best:
  assumes r: "float_order L" and ids: "distinct (map h_id (cs @ [c]))" and sc: "\<forall>x \<in> set (cs @ [c]). scored L x" and b: "best L limit cs out" and l: "0 < limit"
  shows "best L limit (cs @ [c]) (keep_hit L limit out c)"
proof (cases "length out < limit")
  case True
  with b have "length out = length cs" "set out \<subseteq> set cs" "distinct out" by (auto simp: best_def)
  moreover have "distinct cs" using ids by (simp add: distinct_map)
  ultimately have "set out = set cs" by (metis card_subset_eq distinct_card finite_set)
  moreover have "c \<notin> set cs" using ids by auto
  ultimately have "set (out @ [c]) = set (cs @ [c])" "distinct (out @ [c])" "length (out @ [c]) = min limit (length (cs @ [c]))"
    using True \<open>length out = length cs\<close> \<open>distinct out\<close> by simp_all
  then show ?thesis using True by (simp add: best_def keep_hit_def)
next
  case False
  have cs: "distinct out" "set out \<subseteq> set cs" "length out = limit" and bb: "\<And>x y. x \<in> set out \<Longrightarrow> y \<in> set cs - set out \<Longrightarrow> better L x y"
    using b False by (auto simp: best_def)
  have c: "h_id c \<notin> h_id ` set cs" and inj: "inj_on h_id (set cs)" using ids by (auto simp: distinct_map)
  have io: "distinct (map h_id out)" using cs(1,2) inj by (auto simp: distinct_map intro: inj_on_subset)
  let ?w = "worst_from L out 0 1 (tl out)"
  from cs(3) l have "out \<noteq> []" by auto
  moreover have so: "\<forall>x \<in> set out. scored L x" using sc cs(2) by auto
  ultimately have w: "?w < length out" "\<And>j. j < length out \<Longrightarrow> j \<noteq> ?w \<Longrightarrow> better L (out ! j) (out ! ?w)"
    using worst_index [OF r io so] by blast+
  have wb: "better L x (out ! ?w)" if "x \<in> set out" "x \<noteq> out ! ?w" for x
    using that w(2) by (metis in_set_conv_nth)
  have k: "keep_hit L limit out c = (if better L c (out ! ?w) then out[?w := c] else out)"
    using False by (simp add: keep_hit_def Let_def)
  have cn: "c \<notin> set out" using c cs(2) by auto
  show ?thesis
  proof (cases "better L c (out ! ?w)")
    case True
    have s: "set (out[?w := c]) = insert c (set out - {out ! ?w})"
      using set_update_distinct [OF cs(1) w(1)] .
    have "better L x y" if "x \<in> set (out[?w := c])" "y \<in> set (cs @ [c]) - set (out[?w := c])" for x y
    proof -
      from that(2) s have y: "y = out ! ?w \<or> y \<in> set cs - set out" by auto
      have xw: "better L x (out ! ?w)" using that(1) s True wb by auto
      show ?thesis
      proof (cases "y = out ! ?w")
        case False
        with y have "better L (out ! ?w) y" using bb w(1) by auto
        with xw show ?thesis using better_order(2) [OF r] by blast
      qed (use xw in simp)
    qed
    moreover have "distinct (out[?w := c])" using cs(1) cn by (simp add: distinct_list_update)
    moreover have "set (out[?w := c]) \<subseteq> set (cs @ [c])" using s cs(2) by auto
    ultimately show ?thesis using cs(3) b True k by (auto simp: best_def)
  next
    case no: False
    have "h_id c \<noteq> h_id (out ! ?w)" using c cs(2) w(1) by (metis image_eqI nth_mem subsetD)
    moreover have "scored L c" "scored L (out ! ?w)" using sc so w(1) by simp_all
    ultimately have wc: "better L (out ! ?w) c" using no better_order(3) [OF r, of c "out ! ?w"] by simp
    have "better L x c" if "x \<in> set out" for x
      using wb [OF that] wc better_order(2) [OF r] by (cases "x = out ! ?w") blast+
    with b cs no k show ?thesis by (auto simp: best_def)
  qed
qed

fun candidates :: "vault \<Rightarrow> 'f vault_lib \<Rightarrow> ident \<Rightarrow> 'f query \<Rightarrow> document_row list \<Rightarrow> 'f hit list" where
  "candidates V L rid q [] = []"
| "candidates V L rid q (r # rs) =
     (case row_hit V L rid q r of Inr (Some c) \<Rightarrow> c # candidates V L rid q rs | _ \<Rightarrow> candidates V L rid q rs)"

definition stored_candidates :: "vault \<Rightarrow> 'f vault_lib \<Rightarrow> 'x vault_db_scheme \<Rightarrow> ident \<Rightarrow> 'f query \<Rightarrow> 'f hit list" where
  "stored_candidates V L s rid q = candidates V L rid q (sort_key vd_id (filter (\<lambda>r. vd_resource r = rid) (documents s)))"

lemma row_hit_id: "row_hit V L rid q r = Inr (Some c) \<Longrightarrow> h_id c = vd_id r"
  by (auto simp: row_hit_def Let_def split: sum.splits option.splits if_splits)

lemma candidates_ids: "c \<in> set (candidates V L rid q rs) \<Longrightarrow> h_id c \<in> vd_id ` set rs"
  by (induction rs) (auto split: sum.splits option.splits dest: row_hit_id)

lemma candidates_distinct: "distinct (map vd_id rs) \<Longrightarrow> distinct (map h_id (candidates V L rid q rs))"
proof (induction rs)
  case (Cons r rs)
  then have d: "distinct (map h_id (candidates V L rid q rs))" and n: "vd_id r \<notin> vd_id ` set rs" by simp_all
  have "h_id c \<notin> h_id ` set (candidates V L rid q rs)" if "row_hit V L rid q r = Inr (Some c)" for c
    using n row_hit_id [OF that] candidates_ids [of _ V L rid q rs] by (metis imageE)
  with d show ?case by (simp split: sum.split option.split)
qed simp

lemma search_rows_best:
  "search_rows V L rid q limit out rs = Inr out' \<Longrightarrow> float_order L \<Longrightarrow> 0 < limit \<Longrightarrow> best L limit cs out \<Longrightarrow>
    distinct (map h_id (cs @ candidates V L rid q rs)) \<Longrightarrow> \<forall>x \<in> set (cs @ candidates V L rid q rs). scored L x \<Longrightarrow> best L limit (cs @ candidates V L rid q rs) out'
    \<and> (\<forall>r \<in> set rs. \<not> isl (row_hit V L rid q r))"
proof (induction rs arbitrary: cs out)
  case (Cons r rs)
  from Cons.prems(1) obtain x where x: "row_hit V L rid q r = Inr x" by (auto split: sum.splits)
  show ?case
  proof (cases x)
    case None
    with Cons x show ?thesis by simp
  next
    case (Some c)
    with Cons.prems x have b: "best L limit (cs @ [c]) (keep_hit L limit out c)" by (intro keep_hit_best) simp_all
    from Cons.IH [OF _ Cons.prems(2,3) b] Cons.prems(1,5,6) x Some show ?thesis by simp
  qed
qed simp

text \<open>The final sort keeps the results and orders them.\<close>

lemma mset_sink: "mset (sink L x ys) = add_mset x (mset ys)"
  by (induction ys) auto

lemma mset_sortResults: "mset (sortResults L items) = mset items"
proof -
  have "mset (foldl (\<lambda>acc x. sink L x acc) acc items) = mset acc + mset items" for acc
    by (induction items arbitrary: acc) (simp_all add: mset_sink)
  then show ?thesis by (simp add: sortResults_def)
qed

definition not_above :: "'f vault_lib \<Rightarrow> 'f hit \<Rightarrow> 'f hit \<Rightarrow> bool" where
  "not_above L a b \<longleftrightarrow> \<not> vl_greater L (h_score a) (h_score b)"

lemma set_sink: "set (sink L x ys) = insert x (set ys)"
  by (induction ys) auto

lemma sorted_sink:
  assumes "float_order L"
  shows "sorted_wrt (not_above L) ys \<Longrightarrow> \<forall>y \<in> set (x # ys). scored L y \<Longrightarrow> sorted_wrt (not_above L) (sink L x ys)"
proof (induction ys)
  case (Cons y ys)
  note F = float_orderD [OF assms]
  have tr: "not_above L a c" if "not_above L a b" "not_above L b c" "scored L a" "scored L b" for a b c
    using that F(6,7,9) [of "h_score b" "h_score a"] F(7) [of "h_score b" "h_score a" "h_score c"] F(6) [of "h_score b" "h_score a" "h_score c"]
    unfolding not_above_def scored_def by blast
  show ?case
  proof (cases "vl_greater L (h_score x) (h_score y)")
    case True
    then have "not_above L y x" using F(10) by (simp add: not_above_def)
    with Cons True show ?thesis by (auto simp: set_sink)
  next
    case False
    then have "not_above L x y" by (simp add: not_above_def)
    with Cons.prems False tr show ?thesis by auto
  qed
qed simp

lemma sorted_sortResults:
  assumes "float_order L" "\<forall>x \<in> set items. scored L x"
  shows "sorted_wrt (\<lambda>a b. not_above L b a) (sortResults L items)"
proof -
  have "sorted_wrt (not_above L) (foldl (\<lambda>acc x. sink L x acc) acc items)"
    if "sorted_wrt (not_above L) acc" "\<forall>x \<in> set acc. scored L x" for acc
    using that assms(2) by (induction items arbitrary: acc) (simp_all add: sorted_sink [OF assms(1)] set_sink)
  then show ?thesis by (simp add: sortResults_def sorted_wrt_rev)
qed

lemma Search_best:
  assumes "Search V L f s rid q = Inr (out, res)" "float_order L" "unique_on vd_id (documents s)" "0 < l_results (v_limits V)"
  defines "limit \<equiv> nat (clamp_limit V (q_limit q))"
  defines "rows \<equiv> sort_key vd_id (filter (\<lambda>r. vd_resource r = rid) (documents s))"
  assumes sc: "\<forall>x \<in> set (candidates V L rid q rows). scored L x"
  shows "best L limit (candidates V L rid q rows) out" "sorted_wrt (\<lambda>a b. not_above L b a) out"
    "\<forall>r \<in> set rows. \<not> isl (row_hit V L rid q r)"
proof -
  from assms(1) obtain found where f: "search_rows V L rid q limit [] rows = Inr found"
    and out: "out = take limit (sortResults L found)"
    by (auto simp: Search_def limit_def rows_def split: if_splits sum.splits option.splits)
  have l: "0 < limit" using assms(4) by (simp add: limit_def clamp_limit_def)
  have "distinct (map vd_id (filter (\<lambda>r. vd_resource r = rid) (documents s)))"
    using assms(3) by (simp add: unique_on_def distinct_map_filter)
  then have d: "distinct (map vd_id rows)" unfolding rows_def by (simp add: distinct_map)
  have "best L limit [] []" by (simp add: best_def)
  from search_rows_best [OF f assms(2) l this] candidates_distinct [OF d, of V L rid q] sc
  have b: "best L limit (candidates V L rid q rows) found" and ok: "\<forall>r \<in> set rows. \<not> isl (row_hit V L rid q r)" by simp_all
  have "length (sortResults L found) \<le> limit"
    using b mset_eq_length [OF mset_sortResults [of L found]] by (simp add: best_def)
  with out have out': "out = sortResults L found" by simp
  from b show "best L limit (candidates V L rid q rows) out"
    using mset_eq_setD [OF mset_sortResults [of L found]] mset_eq_length [OF mset_sortResults [of L found]]
      mset_eq_imp_distinct_iff [OF mset_sortResults [of L found]]
    by (simp add: best_def out')
  show "sorted_wrt (\<lambda>a b. not_above L b a) out" unfolding out' by (rule sorted_sortResults [OF assms(2)])
    (use b sc in \<open>auto simp: best_def\<close>)
  show "\<forall>r \<in> set rows. \<not> isl (row_hit V L rid q r)" by (rule ok)
qed

subsection \<open>What a traversal returns\<close>

definition links_of :: "link option list \<Rightarrow> link set" where
  "links_of rs = {e. Some e \<in> set rs}"

definition arrows :: "link option list \<Rightarrow> (string \<times> string) set" where
  "arrows rs = {(a, b). \<exists>d l. (d, a, b, l) \<in> links_of rs}"

lemma links_of_simps [simp]: "links_of [] = {}" "links_of (None # rs) = links_of rs" "links_of (Some e # rs) = insert e (links_of rs)"
  by (auto simp: links_of_def)

lemma arrows_simps [simp]: "arrows [] = {}" "arrows (None # rs) = arrows rs"
  "arrows (Some (d, a, b, l) # rs) = insert (a, b) (arrows rs)"
  by (auto simp: arrows_def)

definition targets :: "link list \<Rightarrow> string list" where
  "targets ls = map (\<lambda>(d, a, b, l). b) ls"

lemma targets_simps [simp]: "targets [] = []" "targets ((d, a, b, l) # ls) = b # targets ls" "targets (xs @ ys) = targets xs @ targets ys"
  by (simp_all add: targets_def)

lemma length_targets [simp]: "length (targets ls) = length ls"
  by (simp add: targets_def)

definition sources :: "link list \<Rightarrow> string list" where
  "sources ls = map (\<lambda>(d, a, b, l). a) ls"

lemma sources_simps [simp]: "sources [] = []" "sources ((d, a, b, l) # ls) = a # sources ls" "sources (xs @ ys) = sources xs @ sources ys"
  by (simp_all add: sources_def)

lemma bfs_scan_result:
  "bfs_scan limit fr seen nxt out rs = Some (seen', nxt', out') \<Longrightarrow>
    \<exists>ls. out' = out @ ls \<and> nxt' = nxt @ targets ls \<and> seen' = rev (targets ls) @ seen \<and> set ls \<subseteq> links_of rs
      \<and> distinct (targets ls) \<and> set (targets ls) \<inter> set seen = {} \<and> set (sources ls) \<subseteq> set fr
      \<and> (length out' < limit \<longrightarrow> arrows rs `` set fr \<subseteq> set seen') \<and> (length out < limit \<longrightarrow> length out' \<le> limit)"
proof (induction limit fr seen nxt out rs arbitrary: seen' nxt' out' rule: bfs_scan.induct)
  case (3 limit fr seen nxt out d a b l rs)
  consider (skip) "a \<notin> set fr \<or> b \<in> set seen" | (stop) "a \<in> set fr" "b \<notin> set seen" "length out + 1 \<ge> limit"
    | (go) "a \<in> set fr" "b \<notin> set seen" "length out + 1 < limit" by linarith
  then show ?case
  proof cases
    case skip
    with 3(3) have "bfs_scan limit fr seen nxt out rs = Some (seen', nxt', out')" by simp
    from 3(1) [OF skip this] obtain ls where ls: "out' = out @ ls \<and> nxt' = nxt @ targets ls \<and> seen' = rev (targets ls) @ seen \<and> set ls \<subseteq> links_of rs
      \<and> distinct (targets ls) \<and> set (targets ls) \<inter> set seen = {} \<and> set (sources ls) \<subseteq> set fr
      \<and> (length out' < limit \<longrightarrow> arrows rs `` set fr \<subseteq> set seen') \<and> (length out < limit \<longrightarrow> length out' \<le> limit)" by blast
    have "insert (a, b) (arrows rs) `` set fr \<subseteq> arrows rs `` set fr \<union> set seen" using skip by auto
    with ls skip show ?thesis by (intro exI [of _ ls]) auto
  next
    case stop
    with 3(3) show ?thesis by (intro exI [of _ "[(d, a, b, l)]"]) auto
  next
    case go
    with 3(3) have "bfs_scan limit fr (b # seen) (nxt @ [b]) (out @ [(d, a, b, l)]) rs = Some (seen', nxt', out')" by simp
    from 3(2) [OF _ _ this] go obtain ls where ls: "out' = (out @ [(d, a, b, l)]) @ ls" "nxt' = (nxt @ [b]) @ targets ls"
      "seen' = rev (targets ls) @ b # seen" "set ls \<subseteq> links_of rs" "distinct (targets ls)" "set (targets ls) \<inter> set (b # seen) = {}"
      "set (sources ls) \<subseteq> set fr" "length out' < limit \<longrightarrow> arrows rs `` set fr \<subseteq> set seen'" "length out' \<le> limit"
      by auto
    then show ?thesis using go by (intro exI [of _ "(d, a, b, l) # ls"]) auto
  qed
qed auto

text \<open>The nodes at most \<open>d\<close> arrows away.\<close>

definition ball :: "(string \<times> string) set \<Rightarrow> string \<Rightarrow> nat \<Rightarrow> string set" where
  "ball E x d = {y. \<exists>k \<le> d. (x, y) \<in> E ^^ k}"

lemma ball_0 [simp]: "ball E x 0 = {x}"
  by (auto simp: ball_def)

lemma ball_Suc: "ball E x (Suc d) = ball E x d \<union> E `` ball E x d"
proof -
  have "(x, y) \<in> E ^^ k \<Longrightarrow> k \<le> Suc d \<Longrightarrow> y \<in> ball E x d \<union> E `` ball E x d" for y k
    by (cases k) (auto simp: ball_def)
  moreover have "y \<in> ball E x d \<Longrightarrow> y \<in> ball E x (Suc d)" for y
    unfolding ball_def using le_SucI by blast
  moreover have "y \<in> ball E x d \<Longrightarrow> (y, z) \<in> E \<Longrightarrow> z \<in> ball E x (Suc d)" for y z
  proof -
    assume "y \<in> ball E x d" "(y, z) \<in> E"
    then obtain k where "k \<le> d" "(x, y) \<in> E ^^ k" unfolding ball_def by blast
    with relpow_Suc_I [OF this(2) \<open>(y, z) \<in> E\<close>] show ?thesis unfolding ball_def by (intro CollectI exI [of _ "Suc k"]) simp
  qed
  ultimately show ?thesis by (auto simp: ball_def [of E x "Suc d"])
qed

lemma ball_mono: "d \<le> e \<Longrightarrow> ball E x d \<subseteq> ball E x e"
  unfolding ball_def using le_trans by blast

lemma ball_start: "x \<in> ball E x d"
  by (auto simp: ball_def intro: exI [of _ 0])

text \<open>Once a level adds nothing, no further one does.\<close>

lemma ball_closed:
  assumes "E `` S \<subseteq> S" "x \<in> S"
  shows "ball E x d \<subseteq> S"
  using assms by (induction d) (auto simp: ball_Suc)

text \<open>
  The levels: what is seen is the ball of radius \<open>j\<close>, all arrows from outside the frontier lead to seen nodes.
\<close>

lemma bfs_levels_result:
  assumes "bfs_levels f n limit d frontier seen out rs = Inr (seen', out')" "set frontier \<subseteq> set seen"
    "set seen = ball (arrows rs) x j" "arrows rs `` (set seen - set frontier) \<subseteq> set seen" "length out < limit"
    "distinct seen" "seen = rev (targets out) @ [x]" "set out \<subseteq> links_of rs" "set (sources out) \<subseteq> set seen"
  shows "seen' = rev (targets out') @ [x] \<and> distinct seen' \<and> set out' \<subseteq> links_of rs \<and> length out' \<le> limit
    \<and> set (sources out') \<subseteq> set seen' \<and> set seen' \<subseteq> ball (arrows rs) x (j + d)
    \<and> (length out' < limit \<longrightarrow> set seen' = ball (arrows rs) x (j + d))"
  using assms
proof (induction d arbitrary: n frontier seen out j)
  case (Suc d)
  show ?case
  proof (cases "frontier = []")
    case True
    with Suc.prems(4) have cl: "arrows rs `` set seen \<subseteq> set seen" by simp
    have "x \<in> set seen" using Suc.prems(7) by simp
    from ball_closed [OF cl this] have "ball (arrows rs) x (j + Suc d) \<subseteq> set seen" .
    moreover have "set seen \<subseteq> ball (arrows rs) x (j + Suc d)" using Suc.prems(3) ball_mono [of j "j + Suc d"] by simp
    ultimately show ?thesis using Suc.prems True by auto
  next
    case False
    with Suc.prems(1) obtain seen1 nxt out1 where sc: "bfs_scan limit frontier seen [] out rs = Some (seen1, nxt, out1)"
      by (auto split: if_splits option.splits)
    from bfs_scan_result [OF sc] obtain ls where out1: "out1 = out @ ls" "nxt = targets ls" "seen1 = rev (targets ls) @ seen"
      and ls: "set ls \<subseteq> links_of rs" "distinct (targets ls)" "set (targets ls) \<inter> set seen = {}" "set (sources ls) \<subseteq> set frontier"
      and full: "length out1 < limit \<longrightarrow> arrows rs `` set frontier \<subseteq> set seen1" and lim: "length out1 \<le> limit"
      using Suc.prems(5) by auto
    have from_ls: "(a, b) \<in> arrows rs \<and> a \<in> set seen" if "(d, a, b, l) \<in> set ls" for d a b l
      using ls(1,4) Suc.prems(2) that by (force simp: arrows_def sources_def)
    have new: "set (targets ls) \<subseteq> arrows rs `` set seen"
      using from_ls by (force simp: targets_def)
    then have sub: "set seen1 \<subseteq> ball (arrows rs) x (Suc j)" using Suc.prems(3) by (auto simp: out1(3) ball_Suc)
    have s1: "distinct seen1" "seen1 = rev (targets out1) @ [x]" "set out1 \<subseteq> links_of rs"
      using Suc.prems(6-8) ls by (auto simp: out1)
    have a1: "set (sources out1) \<subseteq> set seen1" using Suc.prems(2,9) ls(4) by (auto simp: out1)
    show ?thesis
    proof (cases "length out1 < limit")
      case True
      have e1: "set seen1 = ball (arrows rs) x (Suc j)"
      proof
        have "arrows rs `` set seen \<subseteq> set seen1"
          using Suc.prems(4) full True by (auto simp: out1(3))
        then show "ball (arrows rs) x (Suc j) \<subseteq> set seen1" using Suc.prems(3) by (auto simp: ball_Suc out1(3))
      qed (rule sub)
      have "set seen1 - set nxt \<subseteq> set seen" by (auto simp: out1)
      then have cl: "arrows rs `` (set seen1 - set nxt) \<subseteq> set seen1"
        using e1 Suc.prems(3) by (auto simp: ball_Suc)
      have "bfs_levels f (n + 2) limit d nxt seen1 out1 rs = Inr (seen', out')"
        using Suc.prems(1) False sc True by (auto split: if_splits)
      moreover have "set nxt \<subseteq> set seen1" by (simp add: out1)
      ultimately have "seen' = rev (targets out') @ [x] \<and> distinct seen' \<and> set out' \<subseteq> links_of rs \<and> length out' \<le> limit
        \<and> set (sources out') \<subseteq> set seen' \<and> set seen' \<subseteq> ball (arrows rs) x (Suc j + d)
        \<and> (length out' < limit \<longrightarrow> set seen' = ball (arrows rs) x (Suc j + d))"
        by (rule Suc.IH [OF _ _ e1 cl True s1 a1])
      then show ?thesis unfolding add_Suc add_Suc_right .
    next
      case stop: False
      then have "seen' = seen1" "out' = out1" using Suc.prems(1) False sc by (auto split: if_splits)
      moreover have "set seen1 \<subseteq> ball (arrows rs) x (j + Suc d)" using sub ball_mono [of "Suc j" "j + Suc d"] by auto
      ultimately show ?thesis using s1 a1 stop lim by simp
    qed
  qed
qed auto

end
