(* ===== verification/VaultStore.thy ===== *)
theory VaultStore
  imports Retrieval
begin

text \<open>
  What the vault keeps over every run of its operations: the quotas, the references between its
  tables, and that every row opens under its own binding to a payload within the limits.
\<close>

subsection \<open>The invariant\<close>

text \<open>
  That the JSON decoder reads back what the encoder wrote (for text in valid UTF-8 and finite
  numbers); \<open>vl_search\<close> leaves the file out.
\<close>

definition reads_back :: "'f vault_lib \<Rightarrow> 'f document \<Rightarrow> bool" where
  "reads_back L p \<longleftrightarrow> vl_document L (document_json L p) = Some p \<and> vl_search L (document_json L p) = Some (p\<lparr>dc_file := []\<rparr>)"

definition reads_edge :: "'f vault_lib \<Rightarrow> 'f edge \<Rightarrow> bool" where
  "reads_edge L p \<longleftrightarrow> vl_edge L (edge_json L p) = Some p"

definition resource_sealed :: "vault \<Rightarrow> resource_row \<Rightarrow> bool" where
  "resource_sealed V r \<longleftrightarrow> vr_scope r \<in> set scopes \<and> (vr_visible r = 0 \<or> vr_visible r = 1)
     \<and> (\<exists>meta n. vr_payload r = Seal (v_prim V) (v_eng V) n (resource_json meta)
          (aadResource (vr_id r) (vr_scope r) (vr_owner r) (vr_visible r \<noteq> 0)))"

definition document_sealed :: "vault \<Rightarrow> 'f vault_lib \<Rightarrow> document_row \<Rightarrow> bool" where
  "document_sealed V L r \<longleftrightarrow> (\<exists>p n. reads_back L p \<and> validateDocumentPayload V L p
     \<and> vd_payload r = Seal (v_prim V) (v_eng V) n (document_json L p) (aadDocument (vd_resource r) (vd_id r)))"

definition edge_sealed :: "vault \<Rightarrow> 'f vault_lib \<Rightarrow> edge_row \<Rightarrow> bool" where
  "edge_sealed V L r \<longleftrightarrow> (\<exists>p n. reads_edge L p \<and> ed_from p \<noteq> [] \<and> ed_to p \<noteq> []
     \<and> ve_payload r = Seal (v_prim V) (v_eng V) n (edge_json L p) (aadEdge (ve_resource r) (ve_id r)))"

definition vault_keys :: "'v vault_db_scheme \<Rightarrow> bool" where
  "vault_keys s \<longleftrightarrow> unique_on vr_id (resources s) \<and> unique_on vd_id (documents s) \<and> unique_on ve_id (vault_edges s)
     \<and> vd_resource ` set (documents s) \<subseteq> vr_id ` set (resources s) \<and> ve_resource ` set (vault_edges s) \<subseteq> vr_id ` set (resources s)"

definition vault_quotas :: "vault \<Rightarrow> 'v vault_db_scheme \<Rightarrow> bool" where
  "vault_quotas V s \<longleftrightarrow> int (length (resources s)) \<le> l_resources (v_limits V)
     \<and> (\<forall>d. int (count_rows (\<lambda>r. vd_resource r = d) (documents s)) \<le> l_documents (v_limits V))
     \<and> (\<forall>d. int (count_rows (\<lambda>r. ve_resource r = d) (vault_edges s)) \<le> l_edges (v_limits V))"

definition vault_ok :: "vault \<Rightarrow> 'f vault_lib \<Rightarrow> 'v vault_db_scheme \<Rightarrow> bool" where
  "vault_ok V L s \<longleftrightarrow> vault_keys s \<and> vault_quotas V s \<and> (\<forall>r \<in> set (resources s). resource_sealed V r)
     \<and> (\<forall>r \<in> set (documents s). document_sealed V L r) \<and> (\<forall>r \<in> set (vault_edges s). edge_sealed V L r)"

lemma count_delete_le: "count_rows p (delete_rows q t) \<le> count_rows p t"
proof -
  have "filter p (delete_rows q t) = filter (\<lambda>x. \<not> q x) (filter p t)" by (simp add: delete_rows_def conj_commute)
  then show ?thesis unfolding count_rows_def by (simp only: length_filter_le)
qed

lemma vault_delete_ok:
  assumes "vault_ok V L s" "\<And>d e. vd_resource d = vr_id e \<Longrightarrow> R e \<Longrightarrow> D d" "\<And>d e. ve_resource d = vr_id e \<Longrightarrow> R e \<Longrightarrow> E d"
  shows "vault_ok V L (s\<lparr>documents := delete_rows D (documents s), vault_edges := delete_rows E (vault_edges s),
    resources := delete_rows R (resources s)\<rparr>)"
proof -
  have "vault_keys (s\<lparr>documents := delete_rows D (documents s), vault_edges := delete_rows E (vault_edges s),
    resources := delete_rows R (resources s)\<rparr>)"
  proof -
    have k: "vault_keys s" using assms(1) by (simp add: vault_ok_def)
    have "vd_resource d \<in> vr_id ` set (delete_rows R (resources s))" if d: "d \<in> set (delete_rows D (documents s))" for d
    proof -
      from d k obtain e where "e \<in> set (resources s)" "vd_resource d = vr_id e" by (auto simp: vault_keys_def set_delete_rows)
      with d assms(2) show ?thesis by (auto simp: set_delete_rows)
    qed
    moreover have "ve_resource d \<in> vr_id ` set (delete_rows R (resources s))" if d: "d \<in> set (delete_rows E (vault_edges s))" for d
    proof -
      from d k obtain e where "e \<in> set (resources s)" "ve_resource d = vr_id e" by (auto simp: vault_keys_def set_delete_rows)
      with d assms(3) show ?thesis by (auto simp: set_delete_rows)
    qed
    ultimately show ?thesis using k by (simp add: vault_keys_def unique_on_delete image_subset_iff)
  qed
  moreover have "vault_quotas V (s\<lparr>documents := delete_rows D (documents s), vault_edges := delete_rows E (vault_edges s),
    resources := delete_rows R (resources s)\<rparr>)"
  proof -
    have q: "vault_quotas V s" using assms(1) by (simp add: vault_ok_def)
    have "length (delete_rows R (resources s)) \<le> length (resources s)" by (simp add: delete_rows_def)
    moreover have "int (count_rows p (delete_rows c t)) \<le> m" if "int (count_rows p t) \<le> m" for p :: "document_row \<Rightarrow> bool" and c t m
      using that count_delete_le [of p c t] by linarith
    moreover have "int (count_rows p (delete_rows c t)) \<le> m" if "int (count_rows p t) \<le> m" for p :: "edge_row \<Rightarrow> bool" and c t m
      using that count_delete_le [of p c t] by linarith
    ultimately show ?thesis using q unfolding vault_quotas_def by simp
  qed
  ultimately show ?thesis using assms(1) by (simp add: vault_ok_def set_delete_rows)
qed

lemma delete_none [simp]: "delete_rows (\<lambda>_. False) t = t"
  by (simp add: delete_rows_def)

lemma DeleteResource_ok: "vault_ok V L s \<Longrightarrow> DeleteResource f s d = (r, s') \<Longrightarrow> vault_ok V L s'"
  using vault_delete_ok [of V L s "\<lambda>r. vr_id r = d" "\<lambda>r. vd_resource r = d" "\<lambda>r. ve_resource r = d"]
  by (auto simp: DeleteResource_def split: if_splits)

lemma DeleteDocument_ok: "vault_ok V L s \<Longrightarrow> DeleteDocument f s rid d = (r, s') \<Longrightarrow> vault_ok V L s'"
  using vault_delete_ok [of V L s "\<lambda>_. False" "\<lambda>r. vd_id r = d \<and> vd_resource r = rid" "\<lambda>_. False"]
  by (auto simp: DeleteDocument_def split: if_splits)

lemma DeleteEdge_ok: "vault_ok V L s \<Longrightarrow> DeleteEdge f s rid d = (r, s') \<Longrightarrow> vault_ok V L s'"
  using vault_delete_ok [of V L s "\<lambda>_. False" "\<lambda>_. False" "\<lambda>r. ve_id r = d \<and> ve_resource r = rid"]
  by (auto simp: DeleteEdge_def split: if_splits)

lemma count_append: "count_rows p (t @ [r]) = count_rows p t + (if p r then 1 else 0)"
  by (simp add: count_rows_def)

lemma add_resource:
  assumes ok: "vault_ok V L s" and "vr_id r \<notin> vr_id ` set (resources s)" "int (length (resources s)) < l_resources (v_limits V)"
    "resource_sealed V r"
  shows "vault_ok V L (s\<lparr>resources := resources s @ [r]\<rparr>)"
proof -
  from ok have k: "vault_keys s" and q: "vault_quotas V s" by (simp_all add: vault_ok_def)
  have "vault_keys (s\<lparr>resources := resources s @ [r]\<rparr>)" using k assms(2) by (auto simp: vault_keys_def unique_on_append1)
  moreover have "vault_quotas V (s\<lparr>resources := resources s @ [r]\<rparr>)" using q assms(3) by (simp add: vault_quotas_def)
  ultimately show ?thesis using ok assms(4) by (simp add: vault_ok_def)
qed

lemma add_document:
  assumes ok: "vault_ok V L s" and "vd_id r \<notin> vd_id ` set (documents s)" "vd_resource r \<in> vr_id ` set (resources s)"
    "int (count_rows (\<lambda>x. vd_resource x = vd_resource r) (documents s)) < l_documents (v_limits V)" "document_sealed V L r"
  shows "vault_ok V L (s\<lparr>documents := documents s @ [r]\<rparr>)"
proof -
  from ok have k: "vault_keys s" and q: "vault_quotas V s" by (simp_all add: vault_ok_def)
  have "vault_keys (s\<lparr>documents := documents s @ [r]\<rparr>)" using k assms(2,3) by (simp add: vault_keys_def unique_on_append1)
  moreover have "vault_quotas V (s\<lparr>documents := documents s @ [r]\<rparr>)" using q assms(4) by (auto simp: vault_quotas_def count_append)
  ultimately show ?thesis using ok assms(5) by (simp add: vault_ok_def)
qed

lemma add_edge:
  assumes ok: "vault_ok V L s" and "ve_id r \<notin> ve_id ` set (vault_edges s)" "ve_resource r \<in> vr_id ` set (resources s)"
    "int (count_rows (\<lambda>x. ve_resource x = ve_resource r) (vault_edges s)) < l_edges (v_limits V)" "edge_sealed V L r"
  shows "vault_ok V L (s\<lparr>vault_edges := vault_edges s @ [r]\<rparr>)"
proof -
  from ok have k: "vault_keys s" and q: "vault_quotas V s" by (simp_all add: vault_ok_def)
  have "vault_keys (s\<lparr>vault_edges := vault_edges s @ [r]\<rparr>)" using k assms(2,3) by (simp add: vault_keys_def unique_on_append1)
  moreover have "vault_quotas V (s\<lparr>vault_edges := vault_edges s @ [r]\<rparr>)" using q assms(4) by (auto simp: vault_quotas_def count_append)
  ultimately show ?thesis using ok assms(5) by (simp add: vault_ok_def)
qed

lemma CreateResource_Inr:
  assumes "CreateResource V L env s spec = (x, s')"
  obtains "s' = s" "isl x" | r meta where "vr_id r \<notin> vr_id ` set (resources s)" "s' = s\<lparr>resources := resources s @ [r]\<rparr>"
    "vr_id r = given_id env (sp_id spec)" "vr_scope r = sp_scope spec" "vr_owner r = sp_owner spec" "sp_scope spec \<in> set scopes"
    "vr_visible r = (if sp_visible spec then 1 else 0)" "int (length (resources s)) < l_resources (v_limits V)"
    "vr_payload r = Seal (v_prim V) (v_eng V) (nonce env) (resource_json meta)
       (aadResource (vr_id r) (sp_scope spec) (sp_owner spec) (sp_visible spec))"
    "boundedJSON L (sp_metadata spec) (l_metadata_bytes (v_limits V)) = Inr meta" "vault_id (vr_id r)"
    "x = Inr \<lparr>re_id = vr_id r, re_scope = sp_scope spec, re_owner = sp_owner spec, re_visible = sp_visible spec,
       re_metadata = meta, re_created = now env\<rparr>"
proof (cases x)
  case Inl
  with assms have "s' = s" by (auto simp: CreateResource_def Let_def split: if_splits sum.splits option.splits)
  with Inl that(1) show ?thesis by simp
next
  case (Inr y)
  then obtain meta where m: "boundedJSON L (sp_metadata spec) (l_metadata_bytes (v_limits V)) = Inr meta"
    using assms by (auto simp: CreateResource_def Let_def split: if_splits sum.splits)
  let ?d = "given_id env (sp_id spec)"
  let ?r = "\<lparr>vr_id = ?d, vr_scope = sp_scope spec, vr_owner = sp_owner spec, vr_visible = (if sp_visible spec then 1 else 0),
    vr_payload = Seal (v_prim V) (v_eng V) (nonce env) (resource_json meta) (aadResource ?d (sp_scope spec) (sp_owner spec) (sp_visible spec)),
    vr_created = now env\<rparr>"
  have "vault_id ?d \<and> sp_scope spec \<in> set scopes \<and> int (length (resources s)) < l_resources (v_limits V)
    \<and> insert_row vr_id ?r (resources s) = Some (resources s @ [?r]) \<and> s' = s\<lparr>resources := resources s @ [?r]\<rparr>
    \<and> x = Inr \<lparr>re_id = ?d, re_scope = sp_scope spec, re_owner = sp_owner spec, re_visible = sp_visible spec,
       re_metadata = meta, re_created = now env\<rparr>"
    using assms Inr m by (auto simp: CreateResource_def Let_def insert_row_def split: if_splits)
  then show ?thesis using m by (intro that(2) [of ?r meta]) (simp_all add: insert_row_def get_row_None_iff split: if_splits)
qed

lemma CreateResource_ok:
  assumes "vault_ok V L s" "CreateResource V L env s spec = (x, s')"
  shows "vault_ok V L s'"
  using assms(2)
proof (cases rule: CreateResource_Inr)
  case (2 r meta)
  have "resource_sealed V r" using 2(4-7,9) by (auto simp: resource_sealed_def)
  from add_resource [OF assms(1) 2(1,8) this] show ?thesis by (simp add: 2(2))
qed (use assms(1) in simp)

lemma PutDocument_Inr:
  assumes "PutDocument V L env s rid did inp = (x, s')"
  obtains "s' = s" "isl x" | r meta where "vd_id r \<notin> vd_id ` set (documents s)" "s' = s\<lparr>documents := documents s @ [r]\<rparr>"
    "vd_id r = given_id env did" "vd_resource r = rid" "rid \<in> vr_id ` set (resources s)"
    "int (count_rows (\<lambda>r. vd_resource r = rid) (documents s)) < l_documents (v_limits V)"
    "vd_payload r = Seal (v_prim V) (v_eng V) (nonce env) (document_json L (inp\<lparr>dc_metadata := meta\<rparr>)) (aadDocument rid (vd_id r))"
    "boundedJSON L (dc_metadata inp) (l_metadata_bytes (v_limits V)) = Inr meta"
    "validateVector L (dc_vector inp) (l_dimensions (v_limits V)) = None"
    "int (length (dc_text inp)) \<le> l_text_bytes (v_limits V)" "int (length (dc_filename inp)) \<le> l_filename_bytes (v_limits V)"
    "int (length (document_json L (inp\<lparr>dc_metadata := meta\<rparr>))) \<le> l_item_bytes (v_limits V)"
    "x = Inr (vd_id r, inp\<lparr>dc_metadata := meta\<rparr>)"
proof (cases x)
  case Inl
  with assms have "s' = s" by (auto simp: PutDocument_def Let_def split: if_splits sum.splits option.splits)
  with Inl that(1) show ?thesis by simp
next
  case (Inr y)
  then obtain meta where m: "boundedJSON L (dc_metadata inp) (l_metadata_bytes (v_limits V)) = Inr meta"
    using assms by (auto simp: PutDocument_def Let_def split: if_splits sum.splits option.splits)
  let ?d = "given_id env did" and ?p = "inp\<lparr>dc_metadata := meta\<rparr>"
  let ?r = "\<lparr>vd_id = ?d, vd_resource = rid, vd_payload = Seal (v_prim V) (v_eng V) (nonce env) (document_json L ?p) (aadDocument rid ?d),
    vd_created = now env\<rparr>"
  have v: "validateVector L (dc_vector inp) (l_dimensions (v_limits V)) = None"
    using assms Inr by (auto simp: PutDocument_def Let_def split: if_splits option.splits)
  have "int (length (dc_text inp)) \<le> l_text_bytes (v_limits V) \<and> int (length (dc_filename inp)) \<le> l_filename_bytes (v_limits V)
    \<and> int (length (document_json L ?p)) \<le> l_item_bytes (v_limits V) \<and> get_row vr_id rid (resources s) \<noteq> None
    \<and> int (count_rows (\<lambda>r. vd_resource r = rid) (documents s)) < l_documents (v_limits V)
    \<and> insert_row vd_id ?r (documents s) = Some (documents s @ [?r]) \<and> s' = s\<lparr>documents := documents s @ [?r]\<rparr> \<and> x = Inr (?d, ?p)"
    using assms Inr m v by (auto simp: PutDocument_def Let_def insert_row_def resourceExists_def split: if_splits)
  then show ?thesis using m v by (intro that(2) [of ?r meta]) (simp_all add: insert_row_def get_row_None_iff split: if_splits)
qed

text \<open>The metadata that is stored is a fixed point of the encoder, within its bound.\<close>

lemma boundedJSON_Inr: "boundedJSON L raw m = Inr out \<Longrightarrow> 0 \<le> m \<Longrightarrow> int (length out) \<le> m"
  by (auto simp: boundedJSON_def split: if_splits option.splits)

definition limits_ok :: "vault \<Rightarrow> bool" where
  "limits_ok V \<longleftrightarrow> l_metadata_bytes (v_limits V) \<ge> 0 \<and> l_resources (v_limits V) \<ge> 0 \<and> l_documents (v_limits V) \<ge> 0
     \<and> l_edges (v_limits V) \<ge> 0 \<and> l_results (v_limits V) > 0"

lemma newVault_limits: "newVault P e l f s = Some (V, s') \<Longrightarrow> limits_ok V \<and> v_prim V = P \<and> v_eng V = e"
proof -
  have d: "0 < defaulted n d" if "0 < d" for n d using that by (simp add: defaulted_def)
  assume "newVault P e l f s = Some (V, s')"
  then have "V = \<lparr>v_prim = P, v_eng = e, v_limits = withDefaults l\<rparr>" by (auto simp: newVault_def split: if_splits)
  then show ?thesis by (simp add: limits_ok_def withDefaults_def d less_imp_le)
qed

lemma PutDocument_ok:
  assumes "vault_ok V L s" "PutDocument V L env s rid did inp = (x, s')" "limits_ok V"
    "\<And>meta. boundedJSON L (dc_metadata inp) (l_metadata_bytes (v_limits V)) = Inr meta \<Longrightarrow> reads_back L (inp\<lparr>dc_metadata := meta\<rparr>)"
  shows "vault_ok V L s'"
  using assms(2)
proof (cases rule: PutDocument_Inr)
  case (2 r meta)
  have "validateDocumentPayload V L (inp\<lparr>dc_metadata := meta\<rparr>)"
    using 2(9-12) boundedJSON_Inr [OF 2(8)] assms(3) by (simp add: validateDocumentPayload_def limits_ok_def)
  then have "document_sealed V L r" using assms(4) [OF 2(8)] 2(4,7) unfolding document_sealed_def by blast
  from add_document [OF assms(1) 2(1) _ _ this] 2(4-6) show ?thesis by (simp add: 2(2))
qed (use assms(1) in simp)

lemma PutEdge_Inr:
  assumes "PutEdge V L env s rid eid inp = (x, s')"
  obtains "s' = s" "isl x" | r where "ve_id r \<notin> ve_id ` set (vault_edges s)" "s' = s\<lparr>vault_edges := vault_edges s @ [r]\<rparr>"
    "ve_id r = given_id env eid" "ve_resource r = rid" "rid \<in> vr_id ` set (resources s)"
    "int (count_rows (\<lambda>r. ve_resource r = rid) (vault_edges s)) < l_edges (v_limits V)"
    "ve_payload r = Seal (v_prim V) (v_eng V) (nonce env) (edge_json L inp) (aadEdge rid (ve_id r))"
    "ed_from inp \<noteq> []" "ed_to inp \<noteq> []" "x = Inr (ve_id r, inp)"
proof (cases x)
  case Inl
  with assms have "s' = s" by (auto simp: PutEdge_def Let_def split: if_splits option.splits)
  with Inl that(1) show ?thesis by simp
next
  case (Inr y)
  let ?d = "given_id env eid"
  let ?r = "\<lparr>ve_id = ?d, ve_resource = rid, ve_payload = Seal (v_prim V) (v_eng V) (nonce env) (edge_json L inp) (aadEdge rid ?d),
    ve_created = now env\<rparr>"
  have v: "validateVector L (ed_vector inp) (l_dimensions (v_limits V)) = None"
    using assms Inr by (auto simp: PutEdge_def Let_def split: if_splits option.splits)
  have "ed_from inp \<noteq> [] \<and> ed_to inp \<noteq> [] \<and> get_row vr_id rid (resources s) \<noteq> None
    \<and> int (count_rows (\<lambda>r. ve_resource r = rid) (vault_edges s)) < l_edges (v_limits V)
    \<and> insert_row ve_id ?r (vault_edges s) = Some (vault_edges s @ [?r]) \<and> s' = s\<lparr>vault_edges := vault_edges s @ [?r]\<rparr> \<and> x = Inr (?d, inp)"
    using assms Inr v by (auto simp: PutEdge_def Let_def insert_row_def resourceExists_def split: if_splits)
  then show ?thesis by (intro that(2) [of ?r]) (simp_all add: insert_row_def get_row_None_iff split: if_splits)
qed

lemma PutEdge_ok:
  assumes "vault_ok V L s" "PutEdge V L env s rid eid inp = (x, s')" "reads_edge L inp"
  shows "vault_ok V L s'"
  using assms(2)
proof (cases rule: PutEdge_Inr)
  case (2 r)
  have "edge_sealed V L r" using assms(3) 2(4,7-9) unfolding edge_sealed_def by blast
  from add_edge [OF assms(1) 2(1) _ _ this] 2(4-6) show ?thesis by (simp add: 2(2))
qed (use assms(1) in simp)

subsection \<open>Runs\<close>

inductive vault_step :: "vault \<Rightarrow> 'f vault_lib \<Rightarrow> 'v vault_db_scheme \<Rightarrow> 'v vault_db_scheme \<Rightarrow> bool" for V L where
  vs_create: "CreateResource V L env s spec = (x, s') \<Longrightarrow> vault_step V L s s'"
| vs_drop: "DeleteResource f s d = (y, s') \<Longrightarrow> vault_step V L s s'"
| vs_put: "PutDocument V L env s rid did inp = (z, s') \<Longrightarrow>
    (\<And>meta. boundedJSON L (dc_metadata inp) (l_metadata_bytes (v_limits V)) = Inr meta \<Longrightarrow> reads_back L (inp\<lparr>dc_metadata := meta\<rparr>)) \<Longrightarrow>
    vault_step V L s s'"
| vs_delete: "DeleteDocument b s rid did = (y, s') \<Longrightarrow> vault_step V L s s'"
| vs_link: "PutEdge V L env s rid did e = (w, s') \<Longrightarrow> reads_edge L e \<Longrightarrow> vault_step V L s s'"
| vs_unlink: "DeleteEdge b s rid did = (y, s') \<Longrightarrow> vault_step V L s s'"

lemma vault_step_ok: "vault_step V L s s' \<Longrightarrow> limits_ok V \<Longrightarrow> vault_ok V L s \<Longrightarrow> vault_ok V L s'"
  by (induction rule: vault_step.induct)
    (blast intro: CreateResource_ok DeleteResource_ok PutDocument_ok DeleteDocument_ok PutEdge_ok DeleteEdge_ok)+

definition vault_empty :: "'v vault_db_scheme \<Rightarrow> bool" where
  "vault_empty s \<longleftrightarrow> resources s = [] \<and> documents s = [] \<and> vault_edges s = []"

lemma vault_run_ok:
  "(vault_step V L)\<^sup>*\<^sup>* s0 s \<Longrightarrow> vault_empty s0 \<Longrightarrow> limits_ok V \<Longrightarrow> vault_ok V L s"
proof (induction rule: rtranclp_induct)
  case base
  then show ?case by (simp add: vault_ok_def vault_empty_def vault_keys_def vault_quotas_def limits_ok_def count_rows_def)
next
  case (step s1 s2)
  then show ?case using vault_step_ok by blast
qed

subsection \<open>Rows stay readable\<close>

lemma vault_okD:
  assumes "vault_ok V L s"
  shows "unique_on vr_id (resources s)" "unique_on vd_id (documents s)"
    "d \<in> set (documents s) \<Longrightarrow> vd_resource d \<in> vr_id ` set (resources s)"
    "r \<in> set (resources s) \<Longrightarrow> resource_sealed V r" "d \<in> set (documents s) \<Longrightarrow> document_sealed V L d"
    "e \<in> set (vault_edges s) \<Longrightarrow> edge_sealed V L e"
  using assms by (auto simp: vault_ok_def vault_keys_def)

lemma resource_opens:
  assumes "vault_ok V L s" "gcm_opens (v_prim V) (eng_aead (v_eng V))" "get_row vr_id d (resources s) = Some r"
  shows "\<exists>x. Open (v_prim V) (v_eng V) (vr_payload r) (aadResource d (vr_scope r) (vr_owner r) (vr_visible r \<noteq> 0)) = Inr x"
    "vr_visible r = 0 \<or> vr_visible r = 1"
proof -
  from get_row_SomeD [OF assms(3)] have "r \<in> set (resources s)" "vr_id r = d" by simp_all
  with vault_okD(4) [OF assms(1) this(1)] have "resource_sealed V r" by simp
  with Open_Seal [OF assms(2)] \<open>vr_id r = d\<close>
  show "\<exists>x. Open (v_prim V) (v_eng V) (vr_payload r) (aadResource d (vr_scope r) (vr_owner r) (vr_visible r \<noteq> 0)) = Inr x"
    "vr_visible r = 0 \<or> vr_visible r = 1" by (auto simp: resource_sealed_def)
qed

lemma ResourceByID_ok:
  assumes "vault_ok V L s" "gcm_opens (v_prim V) (eng_aead (v_eng V))"
  shows "ResourceByID V fail s d \<noteq> Inl Corrupt"
proof (cases "get_row vr_id d (resources s)")
  case (Some r)
  from resource_opens [OF assms Some] Some show ?thesis by (auto simp: ResourceByID_def storage_error_def)
qed (simp add: ResourceByID_def storage_error_def)

lemma ResourceByID_found:
  assumes "vault_ok V L s" "gcm_opens (v_prim V) (eng_aead (v_eng V))" "d \<in> vr_id ` set (resources s)"
  shows "\<exists>res. ResourceByID V False s d = Inr res \<and> re_id res = d"
proof (cases "get_row vr_id d (resources s)")
  case None
  with assms(3) show ?thesis by (simp add: get_row_None_iff)
next
  case (Some r)
  from resource_opens [OF assms(1,2) Some] Some show ?thesis by (auto simp: ResourceByID_def)
qed

lemma document_opens:
  assumes "vault_ok V L s" "gcm_opens (v_prim V) (eng_aead (v_eng V))" "r \<in> set (documents s)"
  obtains p where "Open (v_prim V) (v_eng V) (vd_payload r) (aadDocument (vd_resource r) (vd_id r)) = Inr (document_json L p)"
    "reads_back L p" "validateDocumentPayload V L p"
  using vault_okD(5) [OF assms(1,3)] Open_Seal [OF assms(2)] by (auto simp: document_sealed_def)

lemma GetDocument_ok:
  assumes "vault_ok V L s" "gcm_opens (v_prim V) (eng_aead (v_eng V))"
  shows "GetDocument V L f s rid did \<noteq> Inl Corrupt"
proof (cases "ResourceByID V (f 0) s rid")
  case (Inl e)
  with ResourceByID_ok [OF assms, of "f 0" rid] show ?thesis by (simp add: GetDocument_def)
next
  case (Inr res)
  show ?thesis
  proof (cases "query_row (filter (\<lambda>r. vd_id r = did \<and> vd_resource r = rid) (documents s))")
    case None
    with Inr show ?thesis by (simp add: GetDocument_def storage_error_def)
  next
    case (Some r)
    from query_row_SomeD [OF Some] have "r \<in> set (documents s)" "vd_id r = did" "vd_resource r = rid" by simp_all
    with document_opens [OF assms this(1)] obtain p where
      "Open (v_prim V) (v_eng V) (vd_payload r) (aadDocument rid did) = Inr (document_json L p)" "reads_back L p" "validateDocumentPayload V L p"
      by metis
    with Inr Some show ?thesis by (simp add: GetDocument_def storage_error_def reads_back_def)
  qed
qed

lemma validateSearch_of: "validateDocumentPayload V L p \<Longrightarrow> validateSearchPayload V L (p\<lparr>dc_file := []\<rparr>)"
  by (simp add: validateDocumentPayload_def validateSearchPayload_def)

lemma row_hit_ok:
  assumes "vault_ok V L s" "gcm_opens (v_prim V) (eng_aead (v_eng V))" "r \<in> set (documents s)" "vd_resource r = rid"
  shows "\<exists>x. row_hit V L rid q r = Inr x"
proof -
  from document_opens [OF assms(1-3)] assms(4) obtain p where
    "Open (v_prim V) (v_eng V) (vd_payload r) (aadDocument rid (vd_id r)) = Inr (document_json L p)" "reads_back L p" "validateDocumentPayload V L p"
    by metis
  then show ?thesis by (simp add: row_hit_def reads_back_def validateSearch_of Let_def)
qed

lemma search_rows_ok:
  "(\<And>r. r \<in> set rs \<Longrightarrow> \<exists>x. row_hit V L rid q r = Inr x) \<Longrightarrow> \<exists>out'. search_rows V L rid q limit out rs = Inr out'"
proof (induction rs arbitrary: out)
  case (Cons r rs)
  from Cons.prems [of r] obtain x where "row_hit V L rid q r = Inr x" by auto
  with Cons show ?case by (cases x) simp_all
qed simp

lemma Search_ok:
  assumes "vault_ok V L s" "gcm_opens (v_prim V) (eng_aead (v_eng V))"
  shows "Search V L f s rid q \<noteq> Inl Corrupt"
proof (cases "ResourceByID V (f 0) s rid")
  case (Inl e)
  with ResourceByID_ok [OF assms, of "f 0" rid] show ?thesis by (simp add: Search_def)
next
  case (Inr res)
  have "\<exists>out. search_rows V L rid q (nat (clamp_limit V (q_limit q))) [] (sort_key vd_id (filter (\<lambda>r. vd_resource r = rid) (documents s))) = Inr out"
    by (rule search_rows_ok) (use row_hit_ok [OF assms] in auto)
  with Inr show ?thesis
    by (auto simp: Search_def storage_error_def validateVector_def split: if_splits)
qed

lemma row_edge_ok:
  assumes "vault_ok V L s" "gcm_opens (v_prim V) (eng_aead (v_eng V))" "r \<in> set (vault_edges s)" "ve_resource r = rid"
  shows "row_edge V L rid r \<noteq> None"
  using vault_okD(6) [OF assms(1,3)] assms(4) Open_Seal [OF assms(2)] by (auto simp: edge_sealed_def row_edge_def reads_edge_def)

lemma bfs_scan_ok: "None \<notin> set rs \<Longrightarrow> bfs_scan limit fr seen nxt out rs \<noteq> None"
  by (induction limit fr seen nxt out rs rule: bfs_scan.induct) auto

lemma bfs_levels_ok: "None \<notin> set rs \<Longrightarrow> bfs_levels f n limit d fr seen out rs \<noteq> Inl Corrupt"
proof (induction d arbitrary: n fr seen out)
  case (Suc d)
  from bfs_scan_ok [OF Suc.prems, of limit fr seen "[]" out] obtain x where "bfs_scan limit fr seen [] out rs = Some x" by auto
  with Suc show ?case by (cases x) (simp add: storage_error_def)
qed simp

lemma GraphBFS_ok:
  assumes "vault_ok V L s" "gcm_opens (v_prim V) (eng_aead (v_eng V))"
  shows "GraphBFS V L f s rid q \<noteq> Inl Corrupt"
proof (cases "ResourceByID V (f 0) s rid")
  case (Inl e)
  with ResourceByID_ok [OF assms, of "f 0" rid] show ?thesis by (simp add: GraphBFS_def)
next
  case (Inr res)
  let ?rs = "map (row_edge V L rid) (sort_key ve_id (filter (\<lambda>r. ve_resource r = rid) (vault_edges s)))"
  have "None \<notin> set ?rs"
  proof
    assume "None \<in> set ?rs"
    then obtain r where "r \<in> set (vault_edges s)" "ve_resource r = rid" "row_edge V L rid r = None" by auto
    with row_edge_ok [OF assms this(1,2)] show False by simp
  qed
  from bfs_levels_ok [OF this] Inr show ?thesis
    by (auto simp: GraphBFS_def split: sum.split)
qed

text \<open>A document that was stored is read back as it was given, with its metadata normalised.\<close>

lemma put_then_get:
  assumes "vault_ok V L s" "gcm_opens (v_prim V) (eng_aead (v_eng V))" "limits_ok V"
    "PutDocument V L env s rid did inp = (Inr (d, p), s')" "reads_back L p"
  shows "\<exists>res. GetDocument V L no_faults s' rid d = Inr (p, res) \<and> re_id res = rid"
  using assms(4)
proof (cases rule: PutDocument_Inr)
  case (2 r meta)
  then have p: "p = inp\<lparr>dc_metadata := meta\<rparr>" and d: "d = vd_id r" by simp_all
  have "document_sealed V L r"
  proof -
    have "validateDocumentPayload V L p"
      using 2(9-12) boundedJSON_Inr [OF 2(8)] assms(3) by (simp add: validateDocumentPayload_def limits_ok_def p)
    then show ?thesis using assms(5) 2(4,7) unfolding document_sealed_def p by blast
  qed
  then have ok: "vault_ok V L s'" using add_document [OF assms(1) 2(1)] 2(2,4-6) by simp
  have u: "unique_on vd_id (documents s')" by (rule vault_okD(2) [OF ok])
  have mem: "r \<in> set (documents s')" using 2(2) by simp
  have "query_row (filter (\<lambda>x. vd_id x = d \<and> vd_resource x = rid) (documents s')) = Some r"
    by (rule query_row_eqI) (use mem 2(4) d unique_on_eqD [OF u] in auto)
  moreover have "Open (v_prim V) (v_eng V) (vd_payload r) (aadDocument rid d) = Inr (document_json L p)"
    using Open_Seal [OF assms(2)] 2(7) by (simp add: p d)
  moreover have "validateDocumentPayload V L p"
    using 2(9-12) boundedJSON_Inr [OF 2(8)] assms(3) by (simp add: validateDocumentPayload_def limits_ok_def p)
  moreover have "rid \<in> vr_id ` set (resources s')" using 2(2,5) by simp
  from ResourceByID_found [OF ok assms(2) this] obtain res where "ResourceByID V False s' rid = Inr res" "re_id res = rid" by blast
  ultimately show ?thesis using assms(5) by (simp add: GetDocument_def reads_back_def)
qed simp

end
