(* ===== verification/Grants.thy ===== *)
theory Grants
  imports Files
begin

text \<open>
  \<open>internal/aivault/grant.go\<close>: signed grants for one retrieval, their signer and their verifier. Ed25519
  and the JSON reader are the record \<open>grant_lib\<close>: \<open>gl_members\<close> are the members of a JSON object, as text, in
  the order of the token stream, \<open>gl_claims\<close> decodes the claims.
\<close>

subsection \<open>Unpadded URL-safe base64\<close>

definition b64url_char :: "char \<Rightarrow> char option" where
  "b64url_char c = (if c = CHR ''-'' then Some (CHR ''+'') else if c = CHR ''_'' then Some (CHR ''/'')
     else if c = CHR ''+'' \<or> c = CHR ''/'' \<or> c = CHR ''='' then None else Some c)"

definition b64url_decode :: "string \<Rightarrow> bytes option" where
  "b64url_decode s =
     (let t = filter (\<lambda>c. c \<noteq> chr 10 \<and> c \<noteq> chr 13) s; m = length t mod 4 in
      if list_ex (\<lambda>c. b64url_char c = None) t \<or> m = 1 then None
      else b64_decode (map (\<lambda>c. the (b64url_char c)) t @ replicate ((4 - m) mod 4) (CHR ''='')))"

text \<open>\<open>strings.Split\<close> at a character.\<close>

fun split_at :: "char \<Rightarrow> string \<Rightarrow> string list" where
  "split_at c [] = [[]]"
| "split_at c (x # xs) =
     (if x = c then [] # split_at c xs
      else case split_at c xs of [] \<Rightarrow> [[x]] | y # ys \<Rightarrow> (x # y) # ys)"

subsection \<open>Claims\<close>

record claims =
  cl_nonce :: string
  cl_request :: string
  cl_hash :: string
  cl_chat :: string
  cl_source :: string
  cl_ai :: string
  cl_resource :: string
  cl_action :: string
  cl_destination :: string
  cl_issuer :: string
  cl_audience :: string
  cl_issued :: int
  cl_expires :: int

record grant_lib =
  gl_verify :: "bytes \<Rightarrow> bytes \<Rightarrow> bytes \<Rightarrow> bool"       \<comment> \<open>public key, message, signature\<close>
  gl_sign :: "bytes \<Rightarrow> bytes \<Rightarrow> bytes"
  gl_members :: "bytes \<Rightarrow> (string \<times> bytes) list option"
  gl_claims :: "bytes \<Rightarrow> claims option"

definition grantField :: "string \<Rightarrow> bool" where
  "grantField v \<longleftrightarrow> v \<noteq> [] \<and> length v \<le> 1024 \<and> chr 0 \<notin> set v \<and> chr 13 \<notin> set v \<and> chr 10 \<notin> set v"

definition claim_fields :: "claims \<Rightarrow> string list" where
  "claim_fields c = [cl_nonce c, cl_request c, cl_hash c, cl_chat c, cl_source c, cl_ai c, cl_resource c, cl_destination c,
     cl_issuer c, cl_audience c]"

definition grant_actions :: "string list" where
  "grant_actions = [''read'', ''search'', ''graph'']"

definition claim_names :: "string list" where
  "claim_names = [''nonce'', ''request_id'', ''request_hash'', ''chat_id'', ''source_user'', ''ai_user'', ''resource'', ''action'',
     ''destination'', ''iss'', ''aud'', ''iat'', ''exp'']"

definition claims_json :: "claims \<Rightarrow> bytes" where
  "claims_json c = json_object
     [json_member ''nonce'' (json_string (cl_nonce c)), json_member ''request_id'' (json_string (cl_request c)),
      json_member ''request_hash'' (json_string (cl_hash c)), json_member ''chat_id'' (json_string (cl_chat c)),
      json_member ''source_user'' (json_string (cl_source c)), json_member ''ai_user'' (json_string (cl_ai c)),
      json_member ''resource'' (json_string (cl_resource c)), json_member ''action'' (json_string (cl_action c)),
      json_member ''destination'' (json_string (cl_destination c)), json_member ''iss'' (json_string (cl_issuer c)),
      json_member ''aud'' (json_string (cl_audience c)), json_member ''iat'' (dec_int (cl_issued c)),
      json_member ''exp'' (dec_int (cl_expires c))]"

text \<open>Durations are 64-bit nanoseconds.\<close>

definition second :: int where "second = 10 ^ 9"

definition validateClaimsForSigning :: "claims \<Rightarrow> int \<Rightarrow> string option" where
  "validateClaimsForSigning c ttl =
     (if list_ex (\<lambda>v. \<not> grantField v) (claim_fields c) then Some ''aivault: invalid grant claims''
      else if cl_action c \<notin> set grant_actions then Some ''aivault: invalid grant action''
      else let delta = wrap64 (cl_expires c - cl_issued c) in
        if cl_issued c \<le> 0 \<or> cl_expires c \<le> cl_issued c \<or> delta \<le> 0 \<or> wrap64 (delta * second) > ttl
        then Some ''aivault: invalid grant lifetime''
        else None)"

record grant_signer =
  gs_private :: bytes
  gs_issuer :: string
  gs_audience :: string
  gs_ttl :: int

definition NewGrantSigner :: "bytes \<Rightarrow> string \<Rightarrow> string \<Rightarrow> int \<Rightarrow> grant_signer option" where
  "NewGrantSigner priv issuer audience ttl =
     (if length priv \<noteq> 64 \<or> issuer = [] \<or> audience = [] \<or> ttl \<le> 0 then None
      else Some \<lparr>gs_private = priv, gs_issuer = issuer, gs_audience = audience, gs_ttl = ttl\<rparr>)"

definition grant_header :: bytes where
  "grant_header = json_object [json_member ''alg'' (json_string ''EdDSA''), json_member ''typ'' (json_string ''JWT'')]"

definition grant_input :: "claims \<Rightarrow> bytes" where
  "grant_input c = b64url_encode grant_header @ ''.'' @ b64url_encode (claims_json c)"

definition grant_token :: "grant_lib \<Rightarrow> bytes \<Rightarrow> claims \<Rightarrow> string" where
  "grant_token G priv c = grant_input c @ ''.'' @ b64url_encode (gl_sign G priv (grant_input c))"

text \<open>The claims a signer completes.\<close>

definition completed :: "grant_signer \<Rightarrow> time \<Rightarrow> claims \<Rightarrow> claims" where
  "completed S t c =
     (let iat = (if cl_issued c = 0 then t else cl_issued c) in
      c\<lparr>cl_issuer := gs_issuer S, cl_audience := gs_audience S, cl_issued := iat,
        cl_expires := (if cl_expires c = 0 then wrap64 (iat + gs_ttl S div second) else cl_expires c)\<rparr>)"

definition Sign :: "grant_lib \<Rightarrow> grant_signer \<Rightarrow> time \<Rightarrow> claims \<Rightarrow> string + string" where
  "Sign G S t c =
     (if length (gs_private S) \<noteq> 64 then Inl ''aivault: invalid grant signer''
      else case validateClaimsForSigning (completed S t c) (gs_ttl S) of
        Some e \<Rightarrow> Inl e
      | None \<Rightarrow> Inr (grant_token G (gs_private S) (completed S t c)))"

subsection \<open>Verification\<close>

definition rejectDuplicateKeys :: "(string \<times> bytes) list \<Rightarrow> bool" where
  "rejectDuplicateKeys ms \<longleftrightarrow> distinct (map fst ms)"

definition decodeObject :: "grant_lib \<Rightarrow> string \<Rightarrow> (string \<times> bytes) list option" where
  "decodeObject G segment =
     (case b64url_decode segment of
        None \<Rightarrow> None
      | Some b \<Rightarrow>
          (case gl_members G b of
             None \<Rightarrow> None
           | Some ms \<Rightarrow> (if rejectDuplicateKeys ms then Some ms else None)))"

definition decodeStrict :: "grant_lib \<Rightarrow> string \<Rightarrow> claims option" where
  "decodeStrict G segment = (case b64url_decode segment of None \<Rightarrow> None | Some b \<Rightarrow> gl_claims G b)"

definition header_ok :: "(string \<times> bytes) list \<Rightarrow> bool" where
  "header_ok h \<longleftrightarrow> length h = 2 \<and> map_of h ''alg'' = Some (json_string ''EdDSA'') \<and> map_of h ''typ'' = Some (json_string ''JWT'')"

definition claims_current :: "string \<Rightarrow> string \<Rightarrow> int \<Rightarrow> time \<Rightarrow> claims \<Rightarrow> bool" where
  "claims_current issuer audience ttl t c \<longleftrightarrow>
     (let delta = wrap64 (cl_expires c - cl_issued c); maxSeconds = ttl div second in
      maxSeconds > 0 \<and> cl_issuer c = issuer \<and> cl_audience c = audience \<and> cl_issued c > 0 \<and> delta > 0
      \<and> cl_issued c \<le> t \<and> cl_expires c > t \<and> delta \<le> maxSeconds)"

definition Verify :: "grant_lib \<Rightarrow> bytes \<Rightarrow> string \<Rightarrow> string \<Rightarrow> int \<Rightarrow> time \<Rightarrow> string \<Rightarrow> string + claims" where
  "Verify G pub issuer audience ttl t token =
     (if length pub \<noteq> 32 \<or> ttl \<le> 0 then Inl ''aivault: invalid grant verifier''
      else case split_at (CHR ''.'') token of
        [p0, p1, p2] \<Rightarrow>
          (if p0 = [] \<or> p1 = [] \<or> p2 = [] then Inl ''aivault: invalid grant''
           else case decodeObject G p0 of
             None \<Rightarrow> Inl ''aivault: invalid grant encoding''
           | Some h \<Rightarrow>
               (if \<not> header_ok h then Inl ''aivault: invalid grant header''
                else case decodeObject G p1 of
                  None \<Rightarrow> Inl ''aivault: invalid grant encoding''
                | Some raw \<Rightarrow>
                    (if list_ex (\<lambda>(name, v). name \<notin> set claim_names) raw then Inl ''aivault: unknown grant claim''
                     else case decodeStrict G p1 of
                       None \<Rightarrow> Inl ''aivault: invalid grant JSON''
                     | Some c \<Rightarrow>
                         (case b64url_decode p2 of
                            None \<Rightarrow> Inl ''aivault: invalid grant signature''
                          | Some sig \<Rightarrow>
                              (if length sig \<noteq> 64 \<or> \<not> gl_verify G pub (p0 @ ''.'' @ p1) sig
                               then Inl ''aivault: invalid grant signature''
                               else if \<not> claims_current issuer audience ttl t c then Inl ''aivault: invalid grant claims''
                               else if list_ex (\<lambda>v. \<not> grantField v) (claim_fields c) then Inl ''aivault: invalid grant claims''
                               else if cl_action c \<notin> set grant_actions then Inl ''aivault: invalid grant action''
                               else Inr c)))))
      | _ \<Rightarrow> Inl ''aivault: invalid grant'')"

definition Authorize :: "claims \<Rightarrow> string \<Rightarrow> string \<Rightarrow> string \<Rightarrow> bool" where
  "Authorize c action resource destination \<longleftrightarrow>
     cl_action c = action \<and> cl_resource c = resource \<and> cl_destination c = destination"

subsection \<open>Encoding\<close>

lemma split_at_Cons: "split_at c s \<noteq> []"
  by (induction s) (auto split: list.split)

lemma split_at_plain: "c \<notin> set s \<Longrightarrow> split_at c s = [s]"
  by (induction s) auto

lemma split_at_append: "c \<notin> set s \<Longrightarrow> split_at c (s @ c # r) = s # split_at c r"
  by (induction s) auto

lemma split_at_join:
  "split_at c s = p # ps \<Longrightarrow> c \<notin> set p \<and> (if ps = [] then s = p else \<exists>r. s = p @ c # r \<and> split_at c r = ps)"
proof (induction s arbitrary: p ps)
  case (Cons x s)
  show ?case
  proof (cases "x = c")
    case True
    with Cons.prems split_at_Cons [of c s] show ?thesis by auto
  next
    case False
    obtain q qs where q: "split_at c s = q # qs" using split_at_Cons [of c s] by (cases "split_at c s") auto
    with Cons.prems False have "p = x # q" "ps = qs" by auto
    with Cons.IH [OF q] False show ?thesis by (auto split: if_splits)
  qed
qed auto

lemma split_at_three:
  "split_at c s = [p, q, r] \<Longrightarrow> s = p @ c # q @ c # r \<and> c \<notin> set p \<and> c \<notin> set q \<and> c \<notin> set r"
  by (drule split_at_join, clarsimp, drule split_at_join, clarsimp, drule split_at_join, simp)

definition b64url_map :: "char \<Rightarrow> char" where
  "b64url_map c = (if c = CHR ''+'' then CHR ''-'' else if c = CHR ''/'' then CHR ''_'' else c)"

lemma b64_digit_byte: "n < 64 \<Longrightarrow> byte (b64_digit n) \<notin> {10, 13, 45, 46, 61, 95}"
  by (auto simp: byte_b64_digit)

lemma b64_digit_neq:
  assumes "n < 64"
  shows "b64_digit n \<noteq> CHR ''-''" "b64_digit n \<noteq> CHR ''_''" "b64_digit n \<noteq> CHR ''.''" "b64_digit n \<noteq> CHR ''=''"
    "b64_digit n \<noteq> chr 10" "b64_digit n \<noteq> chr 13"
  using b64_digit_byte [OF assms] by auto

lemma b64url_digit:
  assumes "n < 64"
  shows "b64url_char (b64url_map (b64_digit n)) = Some (b64_digit n)" "b64url_map (b64_digit n) \<noteq> CHR ''.''"
    "b64url_map (b64_digit n) \<noteq> chr 10" "b64url_map (b64_digit n) \<noteq> chr 13"
proof -
  have c: "CHR ''-'' \<noteq> chr 10" "CHR ''-'' \<noteq> chr 13" "CHR ''_'' \<noteq> chr 10" "CHR ''_'' \<noteq> chr 13" by (simp_all add: char_of_def)
  show "b64url_char (b64url_map (b64_digit n)) = Some (b64_digit n)" "b64url_map (b64_digit n) \<noteq> CHR ''.''"
    using b64_digit_neq [OF assms] by (simp_all add: b64url_map_def b64url_char_def)
  show "b64url_map (b64_digit n) \<noteq> chr 10" "b64url_map (b64_digit n) \<noteq> chr 13"
    using b64_digit_neq [OF assms] c by (simp_all add: b64url_map_def)
qed

lemma b64_unpadded:
  fixes bs
  defines "f \<equiv> filter (\<lambda>c. c \<noteq> CHR ''='') (b64_encode bs)"
  shows "f @ replicate ((4 - length f mod 4) mod 4) (CHR ''='') = b64_encode bs \<and> length f mod 4 \<noteq> 1
    \<and> set f \<subseteq> b64_digit ` {..<64}"
  unfolding f_def
proof (induction bs rule: b64_encode.induct)
  case (2 a)
  show ?case using b64_parts [of "byte a" 0 0] by (simp add: Let_def b64_digit_plain numeral_2_eq_2)
next
  case (3 a b)
  show ?case using b64_parts [of "byte a" "byte b" 0] by (simp add: Let_def b64_digit_plain)
next
  case (4 a b c cs)
  then show ?case using b64_parts [of "byte a" "byte b" "byte c"] by (simp add: Let_def b64_digit_plain)
qed simp

lemma b64url_encode_parts:
  obtains f where "b64url_encode bs = map b64url_map f" "f @ replicate ((4 - length f mod 4) mod 4) (CHR ''='') = b64_encode bs"
    "length f mod 4 \<noteq> 1" "set f \<subseteq> b64_digit ` {..<64}"
  using b64_unpadded [of bs] by (simp add: b64url_encode_def b64url_map_def [abs_def])

lemma b64url_decode_encode [simp]: "b64url_decode (b64url_encode bs) = Some bs"
proof (rule b64url_encode_parts [of bs])
  fix f assume e: "b64url_encode bs = map b64url_map f" and p: "f @ replicate ((4 - length f mod 4) mod 4) (CHR ''='') = b64_encode bs"
    and m: "length f mod 4 \<noteq> 1" and d: "set f \<subseteq> b64_digit ` {..<64}"
  have c: "b64url_map c \<noteq> chr 10 \<and> b64url_map c \<noteq> chr 13 \<and> b64url_char (b64url_map c) = Some c" if "c \<in> set f" for c
    using d that b64url_digit by blast
  have 1: "filter (\<lambda>c. c \<noteq> chr 10 \<and> c \<noteq> chr 13) (map b64url_map f) = map b64url_map f"
    by (rule filter_True) (use c in simp)
  have 2: "map (\<lambda>c. the (b64url_char c)) (map b64url_map f) = f"
    unfolding map_map by (rule map_idI) (use c in simp)
  have 3: "\<not> list_ex (\<lambda>c. b64url_char c = None) (map b64url_map f)" using c by (auto simp: list_ex_iff)
  show ?thesis unfolding b64url_decode_def e Let_def 1 2 using 3 m p by (simp add: b64_decode_def)
qed

lemma b64url_encode_dot: "CHR ''.'' \<notin> set (b64url_encode bs)"
proof (rule b64url_encode_parts [of bs])
  fix f assume e: "b64url_encode bs = map b64url_map f" and d: "set f \<subseteq> b64_digit ` {..<64}"
  have "b64url_map c \<noteq> CHR ''.''" if "c \<in> set f" for c using d that b64url_digit(2) by blast
  then show ?thesis unfolding e by (metis imageE list.set_map)
qed

lemma b64url_encode_Nil: "b64url_encode bs = [] \<longleftrightarrow> bs = []"
proof
  assume "b64url_encode bs = []"
  then have "b64url_decode [] = Some bs" using b64url_decode_encode [of bs] by simp
  then show "bs = []" by (simp add: b64url_decode_def b64_decode_def b64_decode_with_def)
qed (simp add: b64url_encode_def)

text \<open>A token splits into its three parts.\<close>

lemma split_token: "split_at (CHR ''.'') (grant_token G priv c)
    = [b64url_encode grant_header, b64url_encode (claims_json c), b64url_encode (gl_sign G priv (grant_input c))]"
  by (simp add: grant_token_def grant_input_def split_at_append split_at_plain b64url_encode_dot)

subsection \<open>Signing and verifying\<close>

text \<open>
  What the JSON reader gives for the header and for the encoder's claims, and what Ed25519 gives for
  its own signatures.
\<close>

definition reads_claims :: "grant_lib \<Rightarrow> claims \<Rightarrow> bool" where
  "reads_claims G c \<longleftrightarrow> gl_claims G (claims_json c) = Some c
     \<and> (\<exists>ms. gl_members G (claims_json c) = Some ms \<and> map fst ms = claim_names)"

definition reads_header :: "grant_lib \<Rightarrow> bool" where
  "reads_header G \<longleftrightarrow> gl_members G grant_header = Some [(''alg'', json_string ''EdDSA''), (''typ'', json_string ''JWT'')]"

definition signs :: "grant_lib \<Rightarrow> bytes \<Rightarrow> bytes \<Rightarrow> bytes \<Rightarrow> bool" where
  "signs G priv pub m \<longleftrightarrow> gl_verify G pub m (gl_sign G priv m) \<and> length (gl_sign G priv m) = 64"

lemma claim_names_distinct: "distinct claim_names"
  by (simp add: claim_names_def)

lemma Verify_token:
  assumes "reads_header G" "reads_claims G c" "signs G priv pub (grant_input c)" "length pub = 32" "0 < ttl"
    "list_all grantField (claim_fields c)" "cl_action c \<in> set grant_actions"
  shows "Verify G pub issuer audience ttl t (grant_token G priv c)
    = (if claims_current issuer audience ttl t c then Inr c else Inl ''aivault: invalid grant claims'')"
proof -
  from assms(2) obtain ms where ms: "gl_members G (claims_json c) = Some ms" "map fst ms = claim_names" "gl_claims G (claims_json c) = Some c"
    by (auto simp: reads_claims_def)
  have "\<not> list_ex (\<lambda>(name, v). name \<notin> set claim_names) ms" using arg_cong [OF ms(2), of set] by (force simp: list_ex_iff)
  moreover have "decodeObject G (b64url_encode (claims_json c)) = Some ms"
    using ms claim_names_distinct by (simp add: decodeObject_def rejectDuplicateKeys_def)
  moreover have "decodeObject G (b64url_encode grant_header) = Some [(''alg'', json_string ''EdDSA''), (''typ'', json_string ''JWT'')]"
    using assms(1) by (simp add: decodeObject_def rejectDuplicateKeys_def reads_header_def)
  moreover have "header_ok [(''alg'', json_string ''EdDSA''), (''typ'', json_string ''JWT'')]" by (simp add: header_ok_def)
  moreover have "claims_json c \<noteq> []" "grant_header \<noteq> []" by (simp_all add: claims_json_def grant_header_def json_object_def)
  moreover have "gl_verify G pub (b64url_encode grant_header @ ''.'' @ b64url_encode (claims_json c)) (gl_sign G priv (grant_input c))"
    "length (gl_sign G priv (grant_input c)) = 64" "gl_sign G priv (grant_input c) \<noteq> []"
    using assms(3) by (auto simp: signs_def grant_input_def simp flip: length_greater_0_conv)
  moreover have "\<not> list_ex (\<lambda>v. \<not> grantField v) (claim_fields c)" using assms(6) by (simp add: list_ex_iff list_all_iff)
  ultimately show ?thesis
    using assms(4,5,7) ms(3) by (simp add: Verify_def split_token b64url_encode_Nil decodeStrict_def del: json_string_def)
qed

text \<open>A token that verifies is of the shape the signer writes, when the key only verifies what was signed.\<close>

lemma Verify_Inr:
  assumes "Verify G pub issuer audience ttl t token = Inr c"
  obtains p0 p1 p2 sig where "split_at (CHR ''.'') token = [p0, p1, p2]" "decodeStrict G p1 = Some c" "b64url_decode p2 = Some sig"
    "gl_verify G pub (p0 @ ''.'' @ p1) sig" "claims_current issuer audience ttl t c" "list_all grantField (claim_fields c)"
    "cl_action c \<in> set grant_actions" "length pub = 32" "0 < ttl"
  using assms by (auto simp: Verify_def list_ex_iff list_all_iff split: if_splits list.splits option.splits)

lemma signed_input_parts:
  assumes "p0 @ ''.'' @ p1 = grant_input c" "CHR ''.'' \<notin> set p0" "CHR ''.'' \<notin> set p1"
  shows "p1 = b64url_encode (claims_json c)"
proof -
  have "p0 @ CHR ''.'' # p1 = b64url_encode grant_header @ CHR ''.'' # b64url_encode (claims_json c)"
    using assms(1) by (simp add: grant_input_def)
  from split_at_quote [OF this assms(2) b64url_encode_dot] show ?thesis by simp
qed

text \<open>When the lifetime check of the signer does not wrap around, it is that of the verifier.\<close>

lemma Sign_Inr:
  assumes "Sign G S t c = Inr token"
  shows "token = grant_token G (gs_private S) (completed S t c) \<and> list_all grantField (claim_fields (completed S t c))
    \<and> cl_action (completed S t c) \<in> set grant_actions \<and> cl_issued (completed S t c) > 0
    \<and> cl_expires (completed S t c) > cl_issued (completed S t c)
    \<and> wrap64 (wrap64 (cl_expires (completed S t c) - cl_issued (completed S t c)) * second) \<le> gs_ttl S"
  using assms
  by (auto simp: Sign_def validateClaimsForSigning_def Let_def list_ex_iff list_all_iff split: if_splits option.splits)

lemma wrap64_small: "- (2 ^ 63) \<le> x \<Longrightarrow> x < 2 ^ 63 \<Longrightarrow> wrap64 x = x"
  by (simp add: wrap64_def)

lemma claims_current_iff:
  assumes "0 < cl_issued c" "cl_issued c < cl_expires c" "cl_expires c < 2 ^ 63"
  shows "claims_current issuer audience ttl t c \<longleftrightarrow> cl_issuer c = issuer \<and> cl_audience c = audience
    \<and> cl_issued c \<le> t \<and> t < cl_expires c \<and> cl_expires c - cl_issued c \<le> ttl div second"
  using assms wrap64_small [of "cl_expires c - cl_issued c"] by (auto simp: claims_current_def Let_def)

end
