(* ===== verification/VaultProperties.thy ===== *)
theory VaultProperties
  imports Fixture VaultStore Grants
begin

text \<open>
  The properties of the AI vault and of its grants, on a vault with one resource, two documents and two
  edges; scores are whole numbers there, and a negative integer stands for no number (NaN).
\<close>

subsection \<open>A vault\<close>

definition toy_document :: "string \<Rightarrow> int document" where
  "toy_document t = \<lparr>dc_text = t, dc_vector = [], dc_filename = [], dc_file = [], dc_metadata = []\<rparr>"

definition toy_edge :: "string \<Rightarrow> string \<Rightarrow> int edge" where
  "toy_edge a b = \<lparr>ed_from = a, ed_to = b, ed_label = [], ed_vector = []\<rparr>"

definition text_json :: "string \<Rightarrow> bytes" where
  "text_json t = json_object [json_member ''text'' (json_string t)]"

definition ends_json :: "string \<Rightarrow> string \<Rightarrow> bytes" where
  "ends_json a b = json_object [json_member ''from'' (json_string a), json_member ''to'' (json_string b)]"

definition toy_vault_lib :: "int vault_lib" where
  "toy_vault_lib = \<lparr>vl_zero = 0, vl_one = 10, vl_tenth = 1, vl_two = 2, vl_plus = (+), vl_times = (*), vl_divide = (\<lambda>a b. if b = 0 then -1 else a div b),
     vl_sqrt = (\<lambda>x. x), vl_greater = (\<lambda>a b. a > b \<and> 0 \<le> b), vl_same = (\<lambda>a b. a = b \<and> 0 \<le> a), vl_finite = (\<lambda>x. 0 \<le> x), vl_number = dec_int,
     vl_lower = (\<lambda>s. s), vl_trim = (\<lambda>s. s), vl_fields = (\<lambda>s. [s]), vl_normal = Some,
     vl_metadata = (\<lambda>_. Some []),
     vl_document = (\<lambda>b. if b = text_json ''ab'' then Some (toy_document ''ab'') else if b = text_json ''b'' then Some (toy_document ''b'') else None),
     vl_search = (\<lambda>b. if b = text_json ''ab'' then Some (toy_document ''ab'') else if b = text_json ''b'' then Some (toy_document ''b'') else None),
     vl_edge = (\<lambda>b. if b = ends_json ''x'' ''y'' then Some (toy_edge ''x'' ''y'') else if b = ends_json ''y'' ''z'' then Some (toy_edge ''y'' ''z'') else None)\<rparr>"

definition toy_vault :: vault where
  "toy_vault = \<lparr>v_prim = toy_prims, v_eng = toy_engine, v_limits = withDefaults \<lparr>l_resources = 0, l_documents = 0, l_edges = 0,
     l_item_bytes = 0, l_text_bytes = 0, l_metadata_bytes = 0, l_filename_bytes = 0, l_dimensions = 0, l_results = 0, l_depth = 0\<rparr>\<rparr>"

definition toy_resource :: resource_row where
  "toy_resource = \<lparr>vr_id = ''r'', vr_scope = ''shared'', vr_owner = ''bob'', vr_visible = 0,
     vr_payload = Seal toy_prims toy_engine ''nonce'' (resource_json []) (aadResource ''r'' ''shared'' ''bob'' False), vr_created = 1000\<rparr>"

definition toy_row :: "ident \<Rightarrow> string \<Rightarrow> document_row" where
  "toy_row d t = \<lparr>vd_id = d, vd_resource = ''r'', vd_payload = Seal toy_prims toy_engine ''nonce'' (text_json t) (aadDocument ''r'' d),
     vd_created = 1000\<rparr>"

definition toy_arrow :: "ident \<Rightarrow> string \<Rightarrow> string \<Rightarrow> edge_row" where
  "toy_arrow d a b = \<lparr>ve_id = d, ve_resource = ''r'', ve_payload = Seal toy_prims toy_engine ''nonce'' (ends_json a b) (aadEdge ''r'' d),
     ve_created = 1000\<rparr>"

definition vault_db0 :: "unit vault_db_scheme" where
  "vault_db0 = \<lparr>versions = [1], indexes = [], users = users toy_db, devices = devices toy_db, chats = chats toy_db,
     members = members toy_db, messages = [], events = [], operations = [], cursors = [], tickets = [],
     vault_versions = [1], resources = [], documents = [], vault_edges = []\<rparr>"

definition vault_db1 :: "unit vault_db_scheme" where
  "vault_db1 = vault_db0\<lparr>resources := [toy_resource], documents := [toy_row ''d1'' ''ab'', toy_row ''d2'' ''b''],
     vault_edges := [toy_arrow ''e1'' ''x'' ''y'', toy_arrow ''e2'' ''y'' ''z'']\<rparr>"

lemma toy_vault_simps: "v_prim toy_vault = toy_prims" "v_eng toy_vault = toy_engine" "l_resources (v_limits toy_vault) = 1024"
  "l_documents (v_limits toy_vault) = 10000" "l_edges (v_limits toy_vault) = 20000" "l_item_bytes (v_limits toy_vault) = 8 * 2 ^ 20"
  "l_text_bytes (v_limits toy_vault) = 2 ^ 20" "l_metadata_bytes (v_limits toy_vault) = 256 * 2 ^ 10"
  "l_filename_bytes (v_limits toy_vault) = 4096" "l_dimensions (v_limits toy_vault) = 4096" "l_results (v_limits toy_vault) = 100"
  "l_depth (v_limits toy_vault) = 16"
  by (simp_all add: toy_vault_def withDefaults_def defaulted_def)

lemma toy_vault_opens: "Open toy_prims toy_engine (Seal toy_prims toy_engine n p a) a = Inr p"
  by (rule Open_Seal [OF toy_gcm_opens])

lemma toy_vault_limits: "limits_ok toy_vault"
  by (simp add: limits_ok_def toy_vault_simps)

lemma toy_document_simps: "dc_text (toy_document t) = t" "dc_vector (toy_document t) = []" "dc_filename (toy_document t) = []"
  "dc_file (toy_document t) = []" "dc_metadata (toy_document t) = []" "(toy_document t)\<lparr>dc_metadata := []\<rparr> = toy_document t"
  "(toy_document t)\<lparr>dc_file := []\<rparr> = toy_document t" "(toy_document t)\<lparr>dc_vector := [], dc_file := []\<rparr> = toy_document t"
  by (simp_all add: toy_document_def)

lemma toy_edge_simps: "ed_from (toy_edge a b) = a" "ed_to (toy_edge a b) = b" "ed_label (toy_edge a b) = []" "ed_vector (toy_edge a b) = []"
  by (simp_all add: toy_edge_def)

lemma toy_json: "document_json L (toy_document t) = (if t = [] then json_object [] else text_json t)"
  "edge_json L (toy_edge a b) = ends_json a b"
  by (simp_all add: document_json_def edge_json_def omitempty_def toy_document_simps toy_edge_simps text_json_def ends_json_def)

lemma toy_texts: "text_json ''ab'' \<noteq> text_json ''b''" "ends_json ''x'' ''y'' \<noteq> ends_json ''y'' ''z''"
  "length (text_json ''ab'') = 13" "length (text_json ''b'') = 12" "length (ends_json ''x'' ''y'') = 21" "length (ends_json ''y'' ''z'') = 21"
  by code_simp+

lemma toy_lib_simps: "vl_search toy_vault_lib (text_json ''ab'') = Some (toy_document ''ab'')"
  "vl_search toy_vault_lib (text_json ''b'') = Some (toy_document ''b'')"
  "vl_document toy_vault_lib (text_json ''ab'') = Some (toy_document ''ab'')"
  "vl_document toy_vault_lib (text_json ''b'') = Some (toy_document ''b'')"
  "vl_edge toy_vault_lib (ends_json ''x'' ''y'') = Some (toy_edge ''x'' ''y'')"
  "vl_edge toy_vault_lib (ends_json ''y'' ''z'') = Some (toy_edge ''y'' ''z'')"
  "vl_same toy_vault_lib a b = (a = b \<and> 0 \<le> a)" "vl_greater toy_vault_lib a b = (a > b \<and> 0 \<le> b)" "vl_zero toy_vault_lib = 0"
  "vl_finite toy_vault_lib a = (0 \<le> a)"
  using toy_texts by (simp_all add: toy_vault_lib_def)

lemma toy_order: "float_order toy_vault_lib"
  by (auto simp: float_order_def toy_lib_simps)

lemma vault_db1_simps: "resources vault_db1 = [toy_resource]" "documents vault_db1 = [toy_row ''d1'' ''ab'', toy_row ''d2'' ''b'']"
  "vault_edges vault_db1 = [toy_arrow ''e1'' ''x'' ''y'', toy_arrow ''e2'' ''y'' ''z'']"
  by (simp_all add: vault_db1_def)

lemma toy_header: "ResourceByID toy_vault False vault_db1 ''r'' = Inr \<lparr>re_id = ''r'', re_scope = ''shared'', re_owner = ''bob'',
    re_visible = False, re_metadata = [], re_created = 1000\<rparr>"
  by (simp add: ResourceByID_def vault_db1_simps toy_resource_def toy_vault_simps toy_vault_opens)

subsection \<open>Properties\<close>

text \<open>C15: A search returns the best hits. Its answer has no duplicates, is in descending order of scores, has as many
  hits as the limit allows, and every hit in it is better (by score, then by identifier) than every candidate that
  it leaves out. This is so when no candidate's score is NaN, which the code does not exclude: the norms of finite vectors may
  overflow, and then the comparisons are no order. The comparisons are those of IEEE 754 (\<open>float_order\<close>).\<close>

theorem search_returns_best:
  assumes "Search V L f s rid q = Inr (out, res)" "float_order L" "unique_on vd_id (documents s)" "0 < l_results (v_limits V)"
    and "\<forall>c \<in> set (stored_candidates V L s rid q). scored L c"
  shows "distinct out \<and> set out \<subseteq> set (stored_candidates V L s rid q)
    \<and> length out = min (nat (clamp_limit V (q_limit q))) (length (stored_candidates V L s rid q))
    \<and> (\<forall>x \<in> set out. \<forall>y \<in> set (stored_candidates V L s rid q) - set out. better L x y)
    \<and> sorted_wrt (\<lambda>a b. \<not> vl_greater L (h_score b) (h_score a)) out"
  using Search_best [OF assms(1-4)] assms(5) by (simp add: best_def not_above_def stored_candidates_def)

definition toy_query :: "int query" where
  "toy_query = \<lparr>q_text = ''ab'', q_vector = [], q_limit = 1\<rparr>"

lemma toy_scores: "scoreDocument toy_vault_lib ''ab'' [] toy_query = 11" "scoreDocument toy_vault_lib ''b'' [] toy_query = 0"
  by (simp_all add: scoreDocument_def text_score_def toy_query_def toy_vault_lib_def contains_def Let_def)

lemma toy_hit: "row_hit toy_vault toy_vault_lib ''r'' toy_query (toy_row ''d1'' ''ab'')
    = Inr (Some \<lparr>h_id = ''d1'', h_document = toy_document ''ab'', h_score = 11\<rparr>)"
  "row_hit toy_vault toy_vault_lib ''r'' toy_query (toy_row ''d2'' ''b'') = Inr None"
  by (simp_all add: row_hit_def toy_row_def toy_vault_simps toy_vault_opens toy_lib_simps validateSearchPayload_def validateVector_def
      toy_document_simps toy_scores Let_def) (simp add: toy_query_def)

lemma toy_rows: "sort_key vd_id (filter (\<lambda>r. vd_resource r = ''r'') (documents vault_db1)) = [toy_row ''d1'' ''ab'', toy_row ''d2'' ''b'']"
  by (simp add: vault_db1_simps toy_row_def)

lemma toy_found: "Search toy_vault toy_vault_lib no_faults vault_db1 ''r'' toy_query
    = Inr ([\<lparr>h_id = ''d1'', h_document = toy_document ''ab'', h_score = 11\<rparr>], \<lparr>re_id = ''r'', re_scope = ''shared'', re_owner = ''bob'',
    re_visible = False, re_metadata = [], re_created = 1000\<rparr>)"
proof -
  have q: "q_text toy_query = ''ab''" "q_vector toy_query = []" "q_limit toy_query = 1" by (simp_all add: toy_query_def)
  show ?thesis
    by (simp add: Search_def vault_id_def q toy_vault_simps toy_header toy_rows toy_hit validateVector_def clamp_limit_def
        keep_hit_def sortResults_def)
qed

theorem search_returns_best_witness:
  "\<exists>out res. Search toy_vault toy_vault_lib no_faults vault_db1 ''r'' toy_query = Inr (out, res) \<and> map h_id out = [''d1'']
     \<and> set out \<subseteq> set (stored_candidates toy_vault toy_vault_lib vault_db1 ''r'' toy_query)
     \<and> length out = min 1 (length (stored_candidates toy_vault toy_vault_lib vault_db1 ''r'' toy_query))"
proof -
  have u: "unique_on vd_id (documents vault_db1)" by (simp add: unique_on_def vault_db1_simps toy_row_def)
  have c: "\<forall>c \<in> set (stored_candidates toy_vault toy_vault_lib vault_db1 ''r'' toy_query). scored toy_vault_lib c"
    by (simp add: stored_candidates_def toy_rows toy_hit scored_def toy_lib_simps)
  have l: "0 < l_results (v_limits toy_vault)" "nat (clamp_limit toy_vault (q_limit toy_query)) = 1"
    by (simp_all add: toy_vault_simps clamp_limit_def toy_query_def)
  from search_returns_best [OF toy_found toy_order u l(1) c] toy_found l(2) show ?thesis by simp
qed

text \<open>C16: A graph query returns a ball. Its nodes are the start and the ends of the edges it returns, without duplicates,
  every edge is a stored one between returned nodes, no node is further than the depth, and unless the limit on
  edges cut it off it has all nodes within the depth.\<close>

theorem graph_returns_ball:
  assumes "GraphBFS V L f s rid q = Inr (res, nodes, links)" "0 < l_results (v_limits V)"
  shows "let rs = map (row_edge V L rid) (sort_key ve_id (filter (\<lambda>r. ve_resource r = rid) (vault_edges s)));
      limit = nat (clamp_limit V (gq_limit q)); B = ball (arrows rs) (gq_start q) (nat (gq_depth q)) in
    sorted nodes \<and> distinct nodes \<and> set nodes = insert (gq_start q) (set (targets links)) \<and> length nodes = length links + 1
    \<and> set links \<subseteq> links_of rs \<and> set (sources links) \<subseteq> set nodes \<and> length links \<le> limit \<and> set nodes \<subseteq> B
    \<and> (length links < limit \<longrightarrow> set nodes = B)"
proof -
  let ?rs = "map (row_edge V L rid) (sort_key ve_id (filter (\<lambda>r. ve_resource r = rid) (vault_edges s)))"
  let ?limit = "nat (clamp_limit V (gq_limit q))"
  from assms(1) obtain seen where b: "bfs_levels f 1 ?limit (nat (gq_depth q)) [gq_start q] [gq_start q] [] ?rs = Inr (seen, links)"
    and nodes: "nodes = sort seen"
    by (auto simp: GraphBFS_def split: if_splits sum.splits)
  have "0 < ?limit" using assms(2) by (simp add: clamp_limit_def)
  then have "seen = rev (targets links) @ [gq_start q] \<and> distinct seen \<and> set links \<subseteq> links_of ?rs \<and> length links \<le> ?limit
    \<and> set (sources links) \<subseteq> set seen \<and> set seen \<subseteq> ball (arrows ?rs) (gq_start q) (0 + nat (gq_depth q))
    \<and> (length links < ?limit \<longrightarrow> set seen = ball (arrows ?rs) (gq_start q) (0 + nat (gq_depth q)))"
    by (intro bfs_levels_result [OF b]) simp_all
  then have f: "seen = rev (targets links) @ [gq_start q]" "distinct seen" "set links \<subseteq> links_of ?rs" "length links \<le> ?limit"
      "set (sources links) \<subseteq> set seen" "set seen \<subseteq> ball (arrows ?rs) (gq_start q) (nat (gq_depth q))"
      "length links < ?limit \<longrightarrow> set seen = ball (arrows ?rs) (gq_start q) (nat (gq_depth q))"
    unfolding add_0 by blast+
  have n: "sorted nodes" "distinct nodes" "set nodes = set seen" "length nodes = length seen" using f(2) by (simp_all add: nodes)
  have "set seen = insert (gq_start q) (set (targets links))" "length seen = length links + 1" by (simp_all add: f(1))
  with f n show ?thesis unfolding Let_def by metis
qed

definition toy_walk :: graph_query where
  "toy_walk = \<lparr>gq_start = ''x'', gq_depth = 1, gq_limit = 5\<rparr>"

lemma toy_edges: "map (row_edge toy_vault toy_vault_lib ''r'') (sort_key ve_id (filter (\<lambda>r. ve_resource r = ''r'') (vault_edges vault_db1)))
    = [Some (''e1'', ''x'', ''y'', []), Some (''e2'', ''y'', ''z'', [])]"
  by (simp add: vault_db1_simps toy_arrow_def row_edge_def toy_vault_simps toy_vault_opens toy_lib_simps toy_edge_simps)

lemma toy_walked: "GraphBFS toy_vault toy_vault_lib no_faults vault_db1 ''r'' toy_walk
    = Inr (\<lparr>re_id = ''r'', re_scope = ''shared'', re_owner = ''bob'', re_visible = False, re_metadata = [], re_created = 1000\<rparr>,
        [''x'', ''y''], [(''e1'', ''x'', ''y'', [])])"
proof -
  have q: "gq_start toy_walk = ''x''" "gq_depth toy_walk = 1" "gq_limit toy_walk = 5" by (simp_all add: toy_walk_def)
  show ?thesis by (simp add: GraphBFS_def vault_id_def q toy_vault_simps toy_header toy_edges clamp_limit_def numeral_nat)
qed

theorem graph_returns_ball_witness:
  "ball (arrows [Some (''e1'', ''x'', ''y'', []), Some (''e2'', ''y'', ''z'', [])]) ''x'' 1 = {''x'', ''y''}"
  using graph_returns_ball [OF toy_walked] unfolding toy_edges by (simp add: toy_vault_simps toy_walk_def clamp_limit_def Let_def)

text \<open>C17: Stored data stays well-formed. In every run from an empty vault every stored row opens under its own binding
  to a payload within the limits: no read, search or graph query ever finds a corrupt row. The quotas hold,
  and documents and edges belong to stored resources.\<close>

theorem vault_stays_well_formed:
  assumes "(vault_step V L)\<^sup>*\<^sup>* s0 s" "vault_empty s0" "limits_ok V" "gcm_opens (v_prim V) (eng_aead (v_eng V))"
  shows "GetDocument V L f s rid d \<noteq> Inl Corrupt \<and> Search V L f s rid q \<noteq> Inl Corrupt \<and> GraphBFS V L f s rid g \<noteq> Inl Corrupt
    \<and> int (length (resources s)) \<le> l_resources (v_limits V)
    \<and> int (count_rows (\<lambda>r. vd_resource r = rid) (documents s)) \<le> l_documents (v_limits V)
    \<and> int (count_rows (\<lambda>r. ve_resource r = rid) (vault_edges s)) \<le> l_edges (v_limits V)
    \<and> vd_resource ` set (documents s) \<subseteq> vr_id ` set (resources s) \<and> ve_resource ` set (vault_edges s) \<subseteq> vr_id ` set (resources s)"
proof -
  have ok: "vault_ok V L s" by (rule vault_run_ok [OF assms(1-3)])
  then have "vault_keys s" "vault_quotas V s" by (simp_all add: vault_ok_def)
  with GetDocument_ok [OF ok assms(4)] Search_ok [OF ok assms(4)] GraphBFS_ok [OF ok assms(4)] show ?thesis
    by (simp add: vault_keys_def vault_quotas_def)
qed

lemma toy_created: "CreateResource toy_vault toy_vault_lib (toy_env 1000 []) vault_db0
    \<lparr>sp_id = ''r'', sp_scope = ''shared'', sp_owner = ''bob'', sp_visible = False, sp_metadata = []\<rparr>
    = (Inr \<lparr>re_id = ''r'', re_scope = ''shared'', re_owner = ''bob'', re_visible = False, re_metadata = [], re_created = 1000\<rparr>,
       vault_db0\<lparr>resources := [toy_resource]\<rparr>)"
  by (simp add: CreateResource_def given_id_def vault_id_def scopes_def boundedJSON_def toy_vault_simps toy_env_def no_faults_def Let_def
      insert_row_def vault_db0_def toy_resource_def)

lemma toy_put: "PutDocument toy_vault toy_vault_lib (toy_env 1000 []) (vault_db0\<lparr>resources := [toy_resource]\<rparr>) ''r'' ''d1'' (toy_document ''ab'')
    = (Inr (''d1'', toy_document ''ab''), vault_db0\<lparr>resources := [toy_resource], documents := [toy_row ''d1'' ''ab'']\<rparr>)"
  by (simp add: PutDocument_def given_id_def vault_id_def boundedJSON_def toy_vault_simps toy_document_simps validateVector_def
      toy_env_def no_faults_def Let_def insert_row_def vault_db0_def toy_resource_def toy_row_def resourceExists_def toy_json
      toy_texts count_rows_def)

lemma toy_reads: "reads_back toy_vault_lib (toy_document ''ab'')"
  by (simp add: reads_back_def toy_json toy_lib_simps toy_document_simps)

lemma toy_vault_run: "(vault_step toy_vault toy_vault_lib)\<^sup>*\<^sup>* vault_db0 (vault_db0\<lparr>resources := [toy_resource], documents := [toy_row ''d1'' ''ab'']\<rparr>)"
proof (rule rtranclp.rtrancl_into_rtrancl)
  show "(vault_step toy_vault toy_vault_lib)\<^sup>*\<^sup>* vault_db0 (vault_db0\<lparr>resources := [toy_resource]\<rparr>)"
    by (rule r_into_rtranclp) (rule vs_create [OF toy_created])
  show "vault_step toy_vault toy_vault_lib (vault_db0\<lparr>resources := [toy_resource]\<rparr>)
      (vault_db0\<lparr>resources := [toy_resource], documents := [toy_row ''d1'' ''ab'']\<rparr>)"
    by (rule vs_put [OF toy_put]) (simp add: boundedJSON_def toy_document_simps toy_reads)
qed

theorem vault_stays_well_formed_witness:
  "GetDocument toy_vault toy_vault_lib no_faults (vault_db0\<lparr>resources := [toy_resource], documents := [toy_row ''d1'' ''ab'']\<rparr>) ''r'' ''d1''
    \<noteq> Inl Corrupt"
proof -
  have "vault_empty vault_db0" by (simp add: vault_empty_def vault_db0_def)
  from vault_stays_well_formed [OF toy_vault_run this toy_vault_limits] show ?thesis
    by (simp add: toy_vault_simps toy_gcm_opens)
qed

text \<open>C18: A stored document is returned as it was given. What \<open>PutDocument\<close> accepted is what \<open>GetDocument\<close> then returns
  for its resource and identifier, with the metadata normalised.\<close>

theorem stored_document_returns:
  assumes "(vault_step V L)\<^sup>*\<^sup>* s0 s" "vault_empty s0" "limits_ok V" "gcm_opens (v_prim V) (eng_aead (v_eng V))"
    and "PutDocument V L env s rid did inp = (Inr (d, p), s')" "reads_back L p"
  shows "\<exists>res meta. GetDocument V L no_faults s' rid d = Inr (p, res) \<and> re_id res = rid \<and> p = inp\<lparr>dc_metadata := meta\<rparr>
    \<and> boundedJSON L (dc_metadata inp) (l_metadata_bytes (v_limits V)) = Inr meta"
proof -
  have ok: "vault_ok V L s" by (rule vault_run_ok [OF assms(1-3)])
  from assms(5) have "\<exists>meta. p = inp\<lparr>dc_metadata := meta\<rparr> \<and> boundedJSON L (dc_metadata inp) (l_metadata_bytes (v_limits V)) = Inr meta"
    by (cases rule: PutDocument_Inr) simp_all
  with put_then_get [OF ok assms(4,3,5,6)] show ?thesis by blast
qed

theorem stored_document_returns_witness:
  "\<exists>res. GetDocument toy_vault toy_vault_lib no_faults (vault_db0\<lparr>resources := [toy_resource], documents := [toy_row ''d1'' ''ab'']\<rparr>) ''r'' ''d1''
    = Inr (toy_document ''ab'', res)"
proof -
  have e: "vault_empty vault_db0" by (simp add: vault_empty_def vault_db0_def)
  have g: "gcm_opens (v_prim toy_vault) (eng_aead (v_eng toy_vault))" by (simp add: toy_vault_simps toy_gcm_opens)
  have r: "(vault_step toy_vault toy_vault_lib)\<^sup>*\<^sup>* vault_db0 (vault_db0\<lparr>resources := [toy_resource]\<rparr>)"
    by (rule r_into_rtranclp) (rule vs_create [OF toy_created])
  from stored_document_returns [OF r e toy_vault_limits g toy_put toy_reads] show ?thesis by blast
qed

text \<open>A signed grant verifies exactly for its lifetime. A token that the signer gave out is accepted by a verifier with the
  same issuer, audience and maximal lifetime exactly from its issue to its expiry, provided the lifetime in
  seconds is within the maximum. The signer checks that in 64-bit nanoseconds, which wrap around: it also
  gives out tokens (of 18446744074 seconds, for instance) that no verifier ever accepts.\<close>

lemma signed_grant_verifies:
  assumes "Sign G S t0 c = Inr token" "signs G (gs_private S) pub (grant_input (completed S t0 c))" "length pub = 32" "0 < gs_ttl S" "reads_header G"
    and "reads_claims G (completed S t0 c)" "cl_expires (completed S t0 c) < 2 ^ 63"
  shows "Verify G pub (gs_issuer S) (gs_audience S) (gs_ttl S) t token
    = (if cl_issued (completed S t0 c) \<le> t \<and> t < cl_expires (completed S t0 c)
          \<and> cl_expires (completed S t0 c) - cl_issued (completed S t0 c) \<le> gs_ttl S div second
       then Inr (completed S t0 c) else Inl ''aivault: invalid grant claims'')"
proof -
  note si = Sign_Inr [OF assms(1)]
  have "cl_issuer (completed S t0 c) = gs_issuer S" "cl_audience (completed S t0 c) = gs_audience S"
    by (simp_all add: completed_def Let_def)
  with si claims_current_iff [of "completed S t0 c" "gs_issuer S" "gs_audience S" "gs_ttl S" t] assms(7)
  show ?thesis using Verify_token [OF assms(5,6,2-4), of "gs_issuer S" "gs_audience S" t] by simp
qed

definition toy_claims :: claims where
  "toy_claims = \<lparr>cl_nonce = ''n'', cl_request = ''q'', cl_hash = ''h'', cl_chat = ''c'', cl_source = ''alice'', cl_ai = ''bot'',
     cl_resource = ''r'', cl_action = ''read'', cl_destination = ''d'', cl_issuer = [], cl_audience = [], cl_issued = 1000,
     cl_expires = 18446745074\<rparr>"

definition toy_signer :: grant_signer where
  "toy_signer = \<lparr>gs_private = pad 64 [], gs_issuer = ''i'', gs_audience = ''a'', gs_ttl = 60 * second\<rparr>"

definition toy_grant_lib :: grant_lib where
  "toy_grant_lib = \<lparr>gl_verify = (\<lambda>k m s. s = pad 64 m), gl_sign = (\<lambda>k m. pad 64 m),
     gl_members = (\<lambda>b. if b = grant_header then Some [(''alg'', json_string ''EdDSA''), (''typ'', json_string ''JWT'')]
       else Some (map (\<lambda>n. (n, [])) claim_names)),
     gl_claims = (\<lambda>b. Some (completed toy_signer 1000 toy_claims))\<rparr>"

lemma toy_completed: "completed toy_signer 1000 toy_claims = toy_claims\<lparr>cl_issuer := ''i'', cl_audience := ''a''\<rparr>"
  by (simp add: completed_def toy_claims_def toy_signer_def Let_def)

lemma toy_completed_simps: "cl_issued (completed toy_signer 1000 toy_claims) = 1000" "cl_expires (completed toy_signer 1000 toy_claims) = 18446745074"
  unfolding toy_completed by (simp_all add: toy_claims_def)

lemma toy_signed: "Sign toy_grant_lib toy_signer 1000 toy_claims
    = Inr (grant_token toy_grant_lib (pad 64 []) (completed toy_signer 1000 toy_claims))"
proof -
  have "\<not> list_ex (\<lambda>v. \<not> grantField v) (claim_fields (completed toy_signer 1000 toy_claims))"
    unfolding toy_completed by (simp add: claim_fields_def toy_claims_def grantField_def char_of_def)
  moreover have "cl_action (completed toy_signer 1000 toy_claims) \<in> set grant_actions" unfolding toy_completed by (simp add: toy_claims_def grant_actions_def)
  moreover have "gs_ttl toy_signer = 60 * second" "gs_private toy_signer = pad 64 []" by (simp_all add: toy_signer_def)
  ultimately show ?thesis
    by (simp add: Sign_def validateClaimsForSigning_def toy_completed_simps Let_def wrap64_def second_def)
qed

lemma claims_json_header: "claims_json c \<noteq> grant_header"
proof
  assume "claims_json c = grant_header"
  moreover have "hd (drop 2 (claims_json c)) = CHR ''n''" "hd (drop 2 grant_header) = CHR ''a''"
    by (simp_all add: claims_json_def grant_header_def json_object_def json_member_def json_string_def json_escape1_def json_safe_def)
  ultimately have "CHR ''n'' = CHR ''a''" by (simp only:)
  then show False by simp
qed

lemma toy_grant_reads: "reads_header toy_grant_lib" "reads_claims toy_grant_lib (completed toy_signer 1000 toy_claims)"
  "signs toy_grant_lib k pub m"
  using claims_json_header
  by (simp_all add: reads_header_def reads_claims_def signs_def toy_grant_lib_def o_def)

text \<open>C19: Only issued grants verify. When the key verifies no other message than the ones signed for the claims in \<open>issued\<close>,
  the claims a verifier returns are issued ones, current, for its issuer and audience, and well-formed.\<close>

theorem verified_grant_was_issued:
  assumes "Verify G pub issuer audience ttl t token = Inr c"
    and "\<And>m sg. gl_verify G pub m sg \<Longrightarrow> \<exists>c' \<in> issued. m = grant_input c'" "\<And>c'. c' \<in> issued \<Longrightarrow> reads_claims G c'"
  shows "c \<in> issued \<and> cl_issuer c = issuer \<and> cl_audience c = audience \<and> cl_issued c \<le> t \<and> t < cl_expires c
    \<and> cl_action c \<in> {''read'', ''search'', ''graph''} \<and> cl_nonce c \<noteq> []"
  using assms(1)
proof (rule Verify_Inr)
  fix p0 p1 p2 sg
  assume sp: "split_at (CHR ''.'') token = [p0, p1, p2]" and de: "decodeStrict G p1 = Some c"
    and v: "gl_verify G pub (p0 @ ''.'' @ p1) sg" and cur: "claims_current issuer audience ttl t c"
    and fl: "list_all grantField (claim_fields c)" and ac: "cl_action c \<in> set grant_actions"
  from assms(2) [OF v] obtain c' where c': "c' \<in> issued" "p0 @ ''.'' @ p1 = grant_input c'" by blast
  from split_at_three [OF sp] have "CHR ''.'' \<notin> set p0" "CHR ''.'' \<notin> set p1" by simp_all
  from signed_input_parts [OF c'(2) this] de assms(3) [OF c'(1)] have "c = c'"
    by (simp add: decodeStrict_def reads_claims_def)
  then show ?thesis using c'(1) cur fl ac
    by (simp add: claims_current_def Let_def claim_fields_def grantField_def grant_actions_def)
qed

definition short_claims :: claims where
  "short_claims = toy_claims\<lparr>cl_issuer := ''i'', cl_audience := ''a'', cl_expires := 1030\<rparr>"

definition short_grant_lib :: grant_lib where
  "short_grant_lib = toy_grant_lib\<lparr>gl_claims := (\<lambda>_. Some short_claims), gl_verify := (\<lambda>k m s. m = grant_input short_claims)\<rparr>"

theorem verified_grant_was_issued_witness:
  "Verify short_grant_lib (pad 32 []) ''i'' ''a'' (60 * second) 1001 (grant_token short_grant_lib [] short_claims) = Inr short_claims
    \<and> short_claims \<in> {short_claims}"
proof -
  have r: "reads_claims short_grant_lib short_claims" "reads_header short_grant_lib" "signs short_grant_lib [] (pad 32 []) (grant_input short_claims)"
    using claims_json_header by (simp_all add: reads_claims_def reads_header_def signs_def short_grant_lib_def toy_grant_lib_def o_def)
  have "list_all grantField (claim_fields short_claims)" "cl_action short_claims \<in> set grant_actions"
    by (simp_all add: claim_fields_def short_claims_def toy_claims_def grantField_def grant_actions_def char_of_def)
  moreover have "(0::int) < 60 * second" by (simp add: second_def)
  moreover have "claims_current ''i'' ''a'' (60 * second) 1001 short_claims"
    by (simp add: claims_current_def short_claims_def toy_claims_def wrap64_def second_def Let_def)
  ultimately have v: "Verify short_grant_lib (pad 32 []) ''i'' ''a'' (60 * second) 1001 (grant_token short_grant_lib [] short_claims) = Inr short_claims"
    using Verify_token [OF r(2,1,3) length_pad, of "60 * second" "''i''" "''a''" 1001] by simp
  have "\<exists>c' \<in> {short_claims}. m = grant_input c'" if "gl_verify short_grant_lib (pad 32 []) m sg" for m sg
    using that by (simp add: short_grant_lib_def)
  from verified_grant_was_issued [OF v this] r v show ?thesis by blast
qed

end
