(* ===== verification/Settings.thy ===== *)
theory Settings
  imports Capacity
begin

text \<open>
  \<open>internal/config/config.go\<close> and \<open>ai_storage.go\<close>: the sections of the configuration that \<open>Types\<close> leaves
  out, the presets, the resolution of AI bots, the whole of \<open>Config.Validate\<close> and the path from a TOML
  document to the effective configuration. A map of the configuration is the list of its entries in the
  order the loops over it visit them. The URL and address parsers of Go's library and the
  TOML decoder are parameters. An error is its format with its arguments.
\<close>

subsection \<open>The sections\<close>

text \<open>
  A value of a JSON schema or of JSON text. A number is the text that the JSON encoder writes for it.
\<close>

datatype json_value = VNull | VBool bool | VNumber string | VText string
  | VArray "json_value list" | VObject "(string \<times> json_value) list"

record tool =
  tl_name :: string
  tl_kind :: string
  tl_url :: string
  tl_secret :: string
  tl_methods :: "string list"
  tl_private :: bool
  tl_approval :: bool
  tl_cost :: int
  tl_resource :: string
  tl_action :: string
  tl_schema :: "(string \<times> json_value) list option"
  tl_timeout :: int
  tl_response :: int

text \<open>The limits that an endpoint and a bot may override.\<close>

record overrides =
  ov_private :: "bool option"
  ov_streaming :: "bool option"
  ov_steps :: "int option"
  ov_turns :: "int option"
  ov_context :: "int option"
  ov_timeout :: "int option"
  ov_output :: "int option"
  ov_response :: "int option"

record endpoint = overrides +
  ep_provider :: string
  ep_url :: string
  ep_model :: string
  ep_key :: string
  ep_auth :: string
  ep_capabilities :: "string list option"
  ep_input_price :: "int option"
  ep_output_price :: "int option"

record bot = overrides +
  bo_endpoint :: string
  bo_prompt :: string
  bo_tools :: "string list option"

record ai_section =
  ai_openai_url :: string
  ai_anthropic_url :: string
  ai_openai_key :: string
  ai_anthropic_key :: string
  ai_model :: string
  ai_steps :: int
  ai_turns :: int
  ai_context :: int
  ai_timeout :: int
  ai_response :: int
  ai_output :: int
  ai_input_price :: int
  ai_output_price :: int
  ai_private :: bool
  ai_streams :: bool
  ai_auth :: string
  ai_prompt :: string
  ai_capabilities :: "string list"
  ai_tool_list :: "tool list"
  ai_endpoints :: "(string \<times> endpoint) list"
  ai_bots :: "(string \<times> bot) list"
  ai_default_bot :: string

record policy_section =
  po_key_env :: string
  po_issuer :: string
  po_audience :: string
  po_ttl :: int
  po_provider_approval :: bool
  po_reserve :: int
  po_global :: int
  po_per_bot :: int
  po_per_user :: int
  po_currency :: string

record storage_section =
  st_key_env :: string
  st_issuer :: string
  st_audience :: string
  st_ttl :: int
  st_resources :: int
  st_documents :: int
  st_item :: int
  st_dimensions :: int
  st_results :: int
  st_depth :: int

record settings = config +
  set_listen :: string
  set_tls_cert :: string
  set_tls_key :: string
  set_path :: string
  set_files :: string
  set_checkpoint_ms :: int
  set_wal_bytes :: int
  set_token_env :: string
  set_management_env :: string
  set_master_env :: string
  set_hpke_env :: string
  set_previous_master :: "string list"
  set_previous_hpke :: "string list"
  set_turn_env :: string
  set_ai :: ai_section
  set_ai_policy :: policy_section
  set_ai_storage :: storage_section

subsection \<open>Defaults and presets\<close>

definition no_features :: features_cfg where
  "no_features = \<lparr>feat_groups = False, feat_files = False, feat_e2ee = False, feat_calls = False, feat_delete = False,
     feat_edit = False, feat_reply = False, feat_forward = False, feat_reactions = False, feat_openai = False,
     feat_anthropic = False, feat_ai_streaming = False, feat_mcp = False, feat_http_tools = False,
     feat_ai_policy = False, feat_ai_storage = False, feat_ai_endpoint = False\<rparr>"

definition default_policy_section :: policy_section where
  "default_policy_section = \<lparr>po_key_env = ''QGRAMM_AI_GRANT_PUBLIC_KEY'', po_issuer = ''qgramm-backend'',
     po_audience = ''qgramm-ai-control'', po_ttl = 300, po_provider_approval = False, po_reserve = 1000000, po_global = 0,
     po_per_bot = 0, po_per_user = 0, po_currency = ''USD''\<rparr>"

definition default_storage_section :: storage_section where
  "default_storage_section = \<lparr>st_key_env = ''QGRAMM_AI_STORAGE_GRANT_PUBLIC_KEY'', st_issuer = ''qgramm-backend'',
     st_audience = ''qgramm-ai-storage'', st_ttl = 300, st_resources = 64, st_documents = 4096, st_item = 1048576,
     st_dimensions = 1536, st_results = 32, st_depth = 4\<rparr>"

definition default_ai_section :: ai_section where
  "default_ai_section = \<lparr>ai_openai_url = ''https://api.openai.com/v1'', ai_anthropic_url = ''https://api.anthropic.com/v1'',
     ai_openai_key = [], ai_anthropic_key = [], ai_model = [], ai_steps = 8, ai_turns = 20, ai_context = 262144,
     ai_timeout = 45, ai_response = 1048576, ai_output = 2048, ai_input_price = 0, ai_output_price = 0,
     ai_private = False, ai_streams = False, ai_auth = ''bearer'', ai_prompt = [], ai_capabilities = [], ai_tool_list = [],
     ai_endpoints = [], ai_bots = [], ai_default_bot = []\<rparr>"

text \<open>The three default reactions are the UTF-8 text of emoji.\<close>

definition default_policy :: policy_cfg where
  "default_policy = \<lparr>pol_history = ''since_join'', pol_delete_mode = ''global'',
     pol_reaction_types = [map char_of [0xF0, 0x9F, 0x91, 0x8D :: nat], map char_of [0xE2, 0x9D, 0xA4, 0xEF, 0xB8, 0x8F :: nat],
       map char_of [0xF0, 0x9F, 0x91, 0x8E :: nat]],
     pol_event_retention_hours = 720, pol_dedup_retention_hours = 24, pol_max_message_bytes = 65536, pol_max_batch = 100,
     pol_max_file_bytes = 67108864, pol_max_chunk_bytes = 1048576, pol_max_storage_bytes = 10737418240, pol_upload_ttl_hours = 24\<rparr>"

definition Defaults :: settings where
  "Defaults = \<lparr>cfg_server = \<lparr>srv_allow_insecure_loopback = False, srv_trusted_proxy = False, srv_origins = []\<rparr>,
     cfg_security = \<lparr>sec_issuer = ''qgramm'', sec_audience = ''qgramm''\<rparr>, cfg_features = no_features,
     cfg_capacity = \<lparr>cap_expected_users = 100, cap_max_connections = 0, cap_queue_depth = 0, cap_workers = 0\<rparr>,
     cfg_policy = default_policy, cfg_calls = \<lparr>call_turn_urls = [], call_credential_ttl_seconds = 600\<rparr>,
     set_listen = ''127.0.0.1:8080'', set_tls_cert = [], set_tls_key = [], set_path = ''data/qgramm.db'', set_files = ''data/files'',
     set_checkpoint_ms = 0, set_wal_bytes = 0, set_token_env = ''QGRAMM_TOKEN_PUBLIC_KEY'',
     set_management_env = ''QGRAMM_MANAGEMENT_SECRET'', set_master_env = ''QGRAMM_MASTER_KEY'', set_hpke_env = ''QGRAMM_HPKE_KEY'',
     set_previous_master = [], set_previous_hpke = [], set_turn_env = [], set_ai = default_ai_section,
     set_ai_policy = default_policy_section, set_ai_storage = default_storage_section\<rparr>"

type_synonym cfg_error = "string \<times> string list"

definition preset_support :: "settings \<Rightarrow> settings" where
  "preset_support c = c\<lparr>cfg_features := (cfg_features c)\<lparr>feat_groups := True, feat_files := True, feat_delete := True,
     feat_edit := True, feat_reply := True, feat_reactions := True\<rparr>\<rparr>"

definition presetNames :: "string list" where
  "presetNames = [''ai-anthropic'', ''ai-openai'', ''community'', ''minimal'', ''support'']"

definition presetValues :: "string \<Rightarrow> settings \<Rightarrow> cfg_error + settings" where
  "presetValues name c =
     (if name = [] \<or> name = ''minimal'' then Inr c
      else if name = ''support'' then Inr (preset_support c)
      else if name = ''community'' then
        (let d = preset_support c in Inr (d\<lparr>cfg_features := (cfg_features d)\<lparr>feat_forward := True\<rparr>\<rparr>))
      else if name = ''ai-openai'' then
        Inr (c\<lparr>cfg_features := (cfg_features c)\<lparr>feat_openai := True\<rparr>, set_ai := (set_ai c)\<lparr>ai_openai_key := ''QGRAMM_OPENAI_KEY''\<rparr>\<rparr>)
      else if name = ''ai-anthropic'' then
        Inr (c\<lparr>cfg_features := (cfg_features c)\<lparr>feat_anthropic := True\<rparr>,
          set_ai := (set_ai c)\<lparr>ai_anthropic_key := ''QGRAMM_ANTHROPIC_KEY''\<rparr>\<rparr>)
      else Inl (''unknown preset; choose one of %s'', presetNames))"

definition presetPaths :: "string \<Rightarrow> string list" where
  "presetPaths name =
     (if name = ''support'' then [''features.delete'', ''features.edit'', ''features.files'', ''features.groups'', ''features.reactions'',
        ''features.reply'']
      else if name = ''community'' then [''features.delete'', ''features.edit'', ''features.files'', ''features.forward'',
        ''features.groups'', ''features.reactions'', ''features.reply'']
      else if name = ''ai-openai'' then [''ai.openai_key_env'', ''features.openai'']
      else if name = ''ai-anthropic'' then [''ai.anthropic_key_env'', ''features.anthropic'']
      else [])"

subsection \<open>Resolving a bot\<close>

definition override :: "'a option \<Rightarrow> 'a \<Rightarrow> 'a" where
  "override ov d = (case ov of None \<Rightarrow> d | Some v \<Rightarrow> v)"

definition apply_overrides :: "'a overrides_scheme \<Rightarrow> ai_section \<Rightarrow> ai_section" where
  "apply_overrides v a = a\<lparr>ai_private := override (ov_private v) (ai_private a),
     ai_streams := override (ov_streaming v) (ai_streams a), ai_steps := override (ov_steps v) (ai_steps a),
     ai_turns := override (ov_turns v) (ai_turns a), ai_context := override (ov_context v) (ai_context a),
     ai_timeout := override (ov_timeout v) (ai_timeout a), ai_output := override (ov_output v) (ai_output a),
     ai_response := override (ov_response v) (ai_response a)\<rparr>"

definition apply_endpoint :: "endpoint \<Rightarrow> ai_section \<Rightarrow> ai_section" where
  "apply_endpoint ep a =
     (let b = (if ep_provider ep = ''openai'' then a\<lparr>ai_openai_url := ep_url ep, ai_openai_key := ep_key ep\<rparr>
          else if ep_provider ep = ''anthropic'' then a\<lparr>ai_anthropic_url := ep_url ep, ai_anthropic_key := ep_key ep\<rparr>
          else a);
          c = b\<lparr>ai_model := ep_model ep, ai_auth := (if ep_auth ep = [] then ''bearer'' else ep_auth ep),
            ai_capabilities := (case ep_capabilities ep of None \<Rightarrow> [] | Some cs \<Rightarrow> cs),
            ai_tool_list := (case ep_capabilities ep of None \<Rightarrow> ai_tool_list b
              | Some cs \<Rightarrow> if ''tool'' \<in> set cs then ai_tool_list b else [])\<rparr> in
      (apply_overrides ep c)\<lparr>ai_input_price := override (ep_input_price ep) (ai_input_price c),
        ai_output_price := override (ep_output_price ep) (ai_output_price c)\<rparr>)"

text \<open>The tools of a bot are picked from the global ones, also when the endpoint has no tool capability.\<close>

definition apply_bot :: "tool list \<Rightarrow> bot \<Rightarrow> ai_section \<Rightarrow> ai_section" where
  "apply_bot tools bo a =
     (let b = apply_overrides bo (if bo_prompt bo = [] then a else a\<lparr>ai_prompt := bo_prompt bo\<rparr>) in
      case bo_tools bo of
        None \<Rightarrow> b
      | Some names \<Rightarrow> b\<lparr>ai_tool_list := filter (\<lambda>t. tl_name t \<in> set names) tools\<rparr>)"

definition resolve_named :: "ai_section \<Rightarrow> string \<Rightarrow> cfg_error + ai_section \<times> string" where
  "resolve_named a name =
     (case map_of (ai_bots a) name of
        None \<Rightarrow> Inl (''AI bot %q is not configured'', [name])
      | Some bo \<Rightarrow>
          (case map_of (ai_endpoints a) (bo_endpoint bo) of
             None \<Rightarrow> Inl (''AI bot %q references unknown endpoint %q'', [name, bo_endpoint bo])
           | Some ep \<Rightarrow> Inr (apply_bot (ai_tool_list a) bo (apply_endpoint ep a), ep_provider ep)))"

text \<open>\<open>blank\<close> is the test whether trimming leaves nothing.\<close>

definition resolveBot :: "(string \<Rightarrow> bool) \<Rightarrow> ai_section \<Rightarrow> string \<Rightarrow> cfg_error + ai_section \<times> string" where
  "resolveBot blank a name =
     (if name \<noteq> [] then resolve_named a name
      else if ai_default_bot a \<noteq> [] then resolve_named a (ai_default_bot a)
      else if blank (ai_model a) \<and> ai_endpoints a \<noteq> []
      then Inl (''AI default_bot is required when named endpoints are configured without a global model'', [])
      else Inr (a, []))"

definition ResolveBot :: "(string \<Rightarrow> bool) \<Rightarrow> settings \<Rightarrow> string \<Rightarrow> cfg_error + ai_section \<times> string" where
  "ResolveBot blank c name =
     (case resolveBot blank (set_ai c) name of
        Inl e \<Rightarrow> Inl e
      | Inr (a, provider) \<Rightarrow>
          (if provider = ''openai'' \<and> \<not> feat_openai (cfg_features c) then Inl (''AI bot provider openai is not enabled'', [])
           else if provider = ''anthropic'' \<and> \<not> feat_anthropic (cfg_features c)
           then Inl (''AI bot provider anthropic is not enabled'', [])
           else if ai_streams a \<and> \<not> feat_ai_streaming (cfg_features c)
           then Inl (''AI bot streaming requires ai_streaming feature'', [])
           else Inr (a, provider)))"

end
