(* ===== verification/Validation.thy ===== *)
theory Validation
  imports Settings
begin

text \<open>
  The rest of \<open>internal/config/config.go\<close>: \<open>Config.Validate\<close> with its parts, in the order of the code, and
  \<open>parseDetailed\<close>. A check gives its error or \<open>None\<close>; a sequence of checks gives the first error.
\<close>

record url =
  ur_scheme :: string
  ur_host :: string
  ur_hostname :: string
  ur_user :: bool
  ur_path :: string
  ur_query :: string
  ur_fragment :: string
  ur_opaque :: string

record net_lib =
  nl_url :: "string \<Rightarrow> url option"
  nl_split :: "string \<Rightarrow> (string \<times> string) option"    \<comment> \<open>host and port\<close>
  nl_loopback :: "string \<Rightarrow> bool option"              \<comment> \<open>an address, and whether it is a loopback address\<close>
  nl_blank :: "string \<Rightarrow> bool"

fun first_error :: "cfg_error option list \<Rightarrow> cfg_error option" where
  "first_error [] = None"
| "first_error (None # es) = first_error es"
| "first_error (Some e # es) = Some e"

definition check :: "bool \<Rightarrow> string \<Rightarrow> string list \<Rightarrow> cfg_error option" where
  "check bad fmt args = (if bad then Some (fmt, args) else None)"

lemma first_error_None: "first_error es = None \<longleftrightarrow> (\<forall>e \<in> set es. e = None)"
  by (induction es rule: first_error.induct) auto

lemma first_error_append: "first_error (xs @ ys) = (case first_error xs of None \<Rightarrow> first_error ys | Some e \<Rightarrow> Some e)"
  by (induction xs rule: first_error.induct) auto

lemma check_None [simp]: "check bad fmt args = None \<longleftrightarrow> \<not> bad"
  by (simp add: check_def)

subsection \<open>Names, references and addresses\<close>

definition letter :: "char \<Rightarrow> bool" where
  "letter c \<longleftrightarrow> (97 \<le> byte c \<and> byte c \<le> 122) \<or> (65 \<le> byte c \<and> byte c \<le> 90)"

definition digit :: "char \<Rightarrow> bool" where
  "digit c \<longleftrightarrow> 48 \<le> byte c \<and> byte c \<le> 57"

definition envName :: "string \<Rightarrow> bool" where
  "envName s = (case s of [] \<Rightarrow> False
     | c # cs \<Rightarrow> (letter c \<or> c = CHR ''_'') \<and> list_all (\<lambda>x. letter x \<or> digit x \<or> x = CHR ''_'') cs)"

definition aiProfileName :: "string \<Rightarrow> bool" where
  "aiProfileName s = (case s of [] \<Rightarrow> False
     | c # cs \<Rightarrow> (letter c \<or> digit c) \<and> length cs \<le> 63
         \<and> list_all (\<lambda>x. letter x \<or> digit x \<or> x = CHR ''_'' \<or> x = CHR ''.'' \<or> x = CHR ''-'') cs)"

definition aiCurrency :: "string \<Rightarrow> bool" where
  "aiCurrency s \<longleftrightarrow> length s = 3 \<and> list_all (\<lambda>c. 65 \<le> byte c \<and> byte c \<le> 90) s"

definition secretRef :: "string \<Rightarrow> string \<Rightarrow> bool \<Rightarrow> cfg_error option" where
  "secretRef name v required =
     check (\<not> (v = [] \<and> \<not> required) \<and> \<not> envName v) ''%s must reference an environment variable name'' [name]"

definition endpoint_url :: "net_lib \<Rightarrow> string \<Rightarrow> string \<Rightarrow> cfg_error option" where
  "endpoint_url N name raw =
     check (case nl_url N raw of None \<Rightarrow> True
         | Some u \<Rightarrow> ur_hostname u = [] \<or> (ur_scheme u \<noteq> ''https'' \<and> ur_scheme u \<noteq> ''http'') \<or> ur_user u \<or> ur_fragment u \<noteq> [])
       ''%s must be an HTTP(S) URL without credentials or fragment'' [name]"

subsection \<open>AI profiles\<close>

definition maxAIOutputTokens :: int where "maxAIOutputTokens = 65536"
definition maxAIPricingMicrounits :: int where "maxAIPricingMicrounits = 1000000000000"

definition validateAIOverride :: "string \<Rightarrow> int option \<Rightarrow> int \<Rightarrow> int \<Rightarrow> cfg_error option" where
  "validateAIOverride name ov lo hi =
     check (case ov of None \<Rightarrow> False | Some v \<Rightarrow> v < lo \<or> v > hi) ''%s must be %d..%d'' [name, dec_int lo, dec_int hi]"

definition validateAIPricing :: "string \<Rightarrow> int \<Rightarrow> cfg_error option" where
  "validateAIPricing name v =
     check (v < 0 \<or> v > maxAIPricingMicrounits) ''%s must be 0..%d'' [name, dec_int maxAIPricingMicrounits]"

definition validateAIPricingOverride :: "string \<Rightarrow> int option \<Rightarrow> cfg_error option" where
  "validateAIPricingOverride name ov = (case ov of None \<Rightarrow> None | Some v \<Rightarrow> validateAIPricing name v)"

text \<open>The limits of \<open>validateAIBotOverrides\<close>, which are the first ones of \<open>validateAIOverrides\<close>.\<close>

definition validateAIBotOverrides :: "string \<Rightarrow> 'a overrides_scheme \<Rightarrow> cfg_error option" where
  "validateAIBotOverrides prefix v = first_error
     [validateAIOverride (prefix @ ''.max_steps'') (ov_steps v) 1 64,
      validateAIOverride (prefix @ ''.max_context_turns'') (ov_turns v) 1 20,
      validateAIOverride (prefix @ ''.max_context_bytes'') (ov_context v) 1 262144,
      validateAIOverride (prefix @ ''.timeout_seconds'') (ov_timeout v) 1 45,
      validateAIOverride (prefix @ ''.max_output_tokens'') (ov_output v) 1 maxAIOutputTokens,
      validateAIOverride (prefix @ ''.max_response_bytes'') (ov_response v) 1 1048576]"

definition validateAIOverrides :: "string \<Rightarrow> endpoint \<Rightarrow> cfg_error option" where
  "validateAIOverrides prefix v = first_error
     [validateAIBotOverrides prefix v,
      validateAIPricingOverride (prefix @ ''.input_price_microunits_per_million_tokens'') (ep_input_price v),
      validateAIPricingOverride (prefix @ ''.output_price_microunits_per_million_tokens'') (ep_output_price v)]"

definition validateAIProfileName :: "string \<Rightarrow> string \<Rightarrow> cfg_error option" where
  "validateAIProfileName kind name = check (\<not> aiProfileName name) ''AI %s name must match %s'' [kind, ''^[A-Za-z0-9][A-Za-z0-9_.-]{0,63}$'']"

fun capabilities_from :: "string \<Rightarrow> string list \<Rightarrow> string list \<Rightarrow> cfg_error option" where
  "capabilities_from name seen [] = None"
| "capabilities_from name seen (c # cs) =
     (if c \<noteq> ''basic_text'' \<and> c \<noteq> ''tool'' then Some (''%s has unsupported capability %q'', [name, c])
      else if c \<in> set seen then Some (''%s capabilities must be unique'', [name])
      else capabilities_from name (c # seen) cs)"

definition validateAICapabilities :: "string \<Rightarrow> string list \<Rightarrow> cfg_error option" where
  "validateAICapabilities name cs = capabilities_from name [] cs"

definition validateAIAuth :: "string \<Rightarrow> string \<Rightarrow> bool \<Rightarrow> cfg_error option" where
  "validateAIAuth name auth private =
     first_error [check (auth \<notin> {[], ''bearer'', ''none''}) ''%s.auth must be bearer or none'' [name],
       check (auth = ''none'' \<and> \<not> private) ''%s.auth=none requires allow_private'' [name]]"

definition endpoint_private :: "ai_section \<Rightarrow> endpoint \<Rightarrow> bool" where
  "endpoint_private a ep = override (ov_private ep) (ai_private a)"

definition validate_endpoint :: "net_lib \<Rightarrow> settings \<Rightarrow> string \<times> endpoint \<Rightarrow> cfg_error option" where
  "validate_endpoint N c = (\<lambda>(name, ep). let prefix = ''ai.endpoints.'' @ name; private = endpoint_private (set_ai c) ep in first_error
     [validateAIProfileName ''endpoint'' name,
      (if ep_provider ep = ''openai'' then check (\<not> feat_openai (cfg_features c)) ''AI endpoint %q requires the openai feature'' [name]
       else if ep_provider ep = ''anthropic''
       then check (\<not> feat_anthropic (cfg_features c)) ''AI endpoint %q requires the anthropic feature'' [name]
       else Some (''AI endpoint %q provider must be openai or anthropic'', [name])),
      check (ep_url ep = []) ''ai.endpoints.%s.url is required'' [name],
      endpoint_url N (prefix @ ''.url'') (ep_url ep),
      validateAIAuth prefix (ep_auth ep) private,
      check (ep_auth ep = ''none'' \<and> ep_key ep \<noteq> []) ''ai.endpoints.%s.key_env must be empty when auth is none'' [name],
      check (map_option ur_scheme (nl_url N (ep_url ep)) = Some ''http''
          \<and> \<not> (private \<or> list_ex (\<lambda>(n, bo). bo_endpoint bo = name \<and> ov_private bo = Some True) (ai_bots (set_ai c))))
        ''ai.endpoints.%s.http URL requires allow_private'' [name],
      check (nl_blank N (ep_model ep)) ''ai.endpoints.%s.model is required'' [name],
      secretRef (prefix @ ''.key_env'') (ep_key ep) (ep_auth ep \<noteq> ''none''),
      check (ov_streaming ep = Some True \<and> \<not> feat_ai_streaming (cfg_features c))
        ''ai.endpoints.%s.streaming requires ai_streaming feature'' [name],
      validateAIOverrides prefix ep,
      validateAICapabilities prefix (case ep_capabilities ep of None \<Rightarrow> [] | Some cs \<Rightarrow> cs)])"

fun bot_tools_from :: "string \<Rightarrow> string list \<Rightarrow> string list \<Rightarrow> string list \<Rightarrow> cfg_error option" where
  "bot_tools_from name known seen [] = None"
| "bot_tools_from name known seen (t # ts) =
     (if t = [] \<or> t \<notin> set known then Some (''ai.bots.%s.tools references unknown tool %q'', [name, t])
      else if t \<in> set seen then Some (''ai.bots.%s.tools must be unique'', [name])
      else bot_tools_from name known (t # seen) ts)"

definition validate_bot :: "settings \<Rightarrow> string \<times> bot \<Rightarrow> cfg_error option" where
  "validate_bot c = (\<lambda>(name, bo). let names = (case bo_tools bo of None \<Rightarrow> [] | Some ts \<Rightarrow> ts) in first_error
     [validateAIProfileName ''bot'' name,
      check (bo_endpoint bo = []) ''ai.bots.%s.endpoint is required'' [name],
      (case map_of (ai_endpoints (set_ai c)) (bo_endpoint bo) of
         None \<Rightarrow> Some (''AI bot %q references unknown endpoint %q'', [name, bo_endpoint bo])
       | Some ep \<Rightarrow> check (names \<noteq> [] \<and> ep_capabilities ep \<noteq> None \<and> ''tool'' \<notin> set (the (ep_capabilities ep)))
           ''ai.bots.%s.tools require endpoint capability tool'' [name]),
      check (ov_streaming bo = Some True \<and> \<not> feat_ai_streaming (cfg_features c))
        ''ai.bots.%s.streaming requires ai_streaming feature'' [name],
      validateAIBotOverrides (''ai.bots.'' @ name) bo,
      bot_tools_from name (map tl_name (ai_tool_list (set_ai c))) [] names])"

definition validateAINamedProfiles :: "net_lib \<Rightarrow> settings \<Rightarrow> cfg_error option" where
  "validateAINamedProfiles N c = (let a = set_ai c in first_error
     (map (validate_endpoint N c) (ai_endpoints a) @ map (validate_bot c) (ai_bots a)
      @ [check (ai_default_bot a \<noteq> [] \<and> map_of (ai_bots a) (ai_default_bot a) = None)
           ''ai.default_bot references unknown bot %q'' [ai_default_bot a]]))"

subsection \<open>AI policy and AI storage\<close>

definition set_price :: "int option \<Rightarrow> bool" where
  "set_price p \<longleftrightarrow> p \<noteq> None \<and> p \<noteq> Some 0"

definition policy_unused :: "settings \<Rightarrow> cfg_error option" where
  "policy_unused c = (let a = set_ai c in first_error
     [check (set_ai_policy c \<noteq> set_ai_policy Defaults) ''AI policy settings require the ai_policy feature'' [],
      check (ai_input_price a \<noteq> 0 \<or> ai_output_price a \<noteq> 0) ''AI pricing requires the ai_policy feature'' [],
      check (list_ex (\<lambda>(n, ep). set_price (ep_input_price ep) \<or> set_price (ep_output_price ep)) (ai_endpoints a))
        ''AI endpoint pricing requires the ai_policy feature'' [],
      check (list_ex (\<lambda>t. tl_approval t \<or> tl_cost t \<noteq> 0) (ai_tool_list a))
        ''AI tool approval and cost require the ai_policy feature'' []])"

definition validateAIPolicyConfig :: "settings \<Rightarrow> cfg_error option" where
  "validateAIPolicyConfig c = (let p = set_ai_policy c; sec = cfg_security c in
     if \<not> feat_ai_policy (cfg_features c) then policy_unused c
     else first_error
     [check (\<not> feat_openai (cfg_features c) \<and> \<not> feat_anthropic (cfg_features c)) ''ai_policy requires a compiled AI provider'' [],
      secretRef ''ai_policy.grant_public_key_env'' (po_key_env p) True,
      check (po_issuer p = [] \<or> po_audience p = []) ''ai_policy issuer and audience are required'' [],
      check (po_issuer p = po_audience p \<or> po_issuer p = sec_issuer sec \<or> po_issuer p = sec_audience sec
          \<or> po_audience p = sec_issuer sec \<or> po_audience p = sec_audience sec)
        ''ai_policy issuer and audience must be separate from device authentication'' [],
      check (po_ttl p < 1 \<or> po_ttl p > 900) ''ai_policy.approval_ttl_seconds must be 1..900'' [],
      check (po_reserve p < 0 \<or> po_reserve p > maxAIPricingMicrounits)
        ''ai_policy.provider_reserve_microunits must be 0..%d'' [dec_int maxAIPricingMicrounits],
      first_error (map (\<lambda>(name, v). check (v < 0 \<or> v > 1000000000000000) ''ai_policy.%s must be 0..1000000000000000'' [name])
        [(''global_daily_budget_microunits'', po_global p), (''per_bot_daily_budget_microunits'', po_per_bot p),
         (''per_user_daily_budget_microunits'', po_per_user p)]),
      check ((po_global p > 0 \<or> po_per_bot p > 0 \<or> po_per_user p > 0) \<and> po_reserve p = 0)
        ''ai_policy provider reserve must be positive when a daily budget is configured'' [],
      check (\<not> aiCurrency (po_currency p)) ''ai_policy.currency must be exactly three uppercase letters'' [],
      validateAIPricing ''ai.input_price_microunits_per_million_tokens'' (ai_input_price (set_ai c)),
      validateAIPricing ''ai.output_price_microunits_per_million_tokens'' (ai_output_price (set_ai c))])"

definition validateAIStorageConfig :: "settings \<Rightarrow> cfg_error option" where
  "validateAIStorageConfig c = (let s = set_ai_storage c in
     if \<not> feat_ai_storage (cfg_features c)
     then check (s \<noteq> set_ai_storage Defaults) ''ai_storage settings require ai_storage feature'' []
     else first_error
     [check (\<not> feat_ai_policy (cfg_features c)) ''ai_storage requires ai_policy'' [],
      secretRef ''ai_storage.grant_public_key_env'' (st_key_env s) True,
      check (st_issuer s = [] \<or> st_audience s = [] \<or> st_audience s = sec_audience (cfg_security c)
          \<or> st_audience s = po_audience (set_ai_policy c))
        ''ai_storage requires a distinct nonempty grant audience'' [],
      first_error (map (\<lambda>(name, v, hi). check (v < 1 \<or> v > hi) ''ai_storage.%s must be 1..%d'' [name, dec_int hi])
        [(''grant_ttl_seconds'', st_ttl s, 900), (''max_resources'', st_resources s, 1024),
         (''max_documents_per_resource'', st_documents s, 16384), (''max_item_bytes'', st_item s, 16 * 2 ^ 20),
         (''max_vector_dimensions'', st_dimensions s, 4096), (''max_results'', st_results s, 100), (''max_graph_depth'', st_depth s, 8)])])"

subsection \<open>Server, storage and keys\<close>

definition validate_server :: "net_lib \<Rightarrow> settings \<Rightarrow> cfg_error option" where
  "validate_server N c = (let v = cfg_server c in
     case nl_split N (set_listen c) of
       None \<Rightarrow> Some (''server.listen must be host:port'', [])
     | Some (host, port) \<Rightarrow> first_error
     [check (port = []) ''server.listen must be host:port'' [],
      check (snd (ParseInt port) \<or> fst (ParseInt port) < 1 \<or> fst (ParseInt port) > 65535) ''server.listen has invalid port'' [],
      check ((set_tls_cert c = []) \<noteq> (set_tls_key c = [])) ''server TLS certificate and key must both be set'' [],
      check (set_tls_cert c = [] \<and> \<not> srv_trusted_proxy v
          \<and> (\<not> srv_allow_insecure_loopback v \<or> nl_loopback N host \<noteq> Some True))
        ''TLS required unless trusted_proxy or explicit insecure loopback is configured'' [],
      first_error (map (\<lambda>origin. first_error
        [endpoint_url N ''server.origins'' origin,
         check (case nl_url N origin of None \<Rightarrow> False
             | Some u \<Rightarrow> (ur_path u \<noteq> [] \<and> ur_path u \<noteq> ''/'') \<or> ur_query u \<noteq> [])
           ''server.origins must contain origins only'' []]) (srv_origins v)),
      check (set_path c = [] \<or> set_files c = []) ''storage paths must not be empty'' [],
      check (set_checkpoint_ms c \<noteq> 0
          \<and> (set_checkpoint_ms c < 100 \<or> set_checkpoint_ms c > 60000 \<or> set_path c = '':memory:''))
        ''storage.checkpoint_interval_ms must be 0 (disabled) or 100..60000 for a file database'' [],
      check (set_wal_bytes c \<noteq> 0 \<and> (set_wal_bytes c < 65536 \<or> set_wal_bytes c > 2 ^ 30 \<or> set_checkpoint_ms c = 0))
        ''storage.wal_checkpoint_bytes must be 0 (4MiB default) or 65536..1073741824 with checkpoint enabled'' [],
      check (sec_issuer (cfg_security c) = [] \<or> sec_audience (cfg_security c) = [])
        ''security issuer and audience are required'' []])"

fun retired_keys :: "settings \<Rightarrow> string \<Rightarrow> string list \<Rightarrow> string list \<Rightarrow> cfg_error option" where
  "retired_keys c field seen [] = None"
| "retired_keys c field seen (r # rs) =
     (case secretRef (''security.'' @ field) r True of
        Some e \<Rightarrow> Some e
      | None \<Rightarrow>
          (if r \<in> set seen \<or> r = set_master_env c \<or> r = set_hpke_env c
           then Some (''retired key references must be unique and distinct from active keys'', [])
           else retired_keys c field (r # seen) rs))"

definition validate_keys :: "settings \<Rightarrow> cfg_error option" where
  "validate_keys c = (let a = set_ai c; f = cfg_features c in first_error
     (concat (map (\<lambda>(field, refs). [check (length refs > 4) ''security.%s allows at most four retired keys'' [field],
         retired_keys c field [] refs])
        [(''previous_master_key_envs'', set_previous_master c), (''previous_hpke_key_envs'', set_previous_hpke c)])
      @ [secretRef ''security.token_public_key_env'' (set_token_env c) True,
         secretRef ''security.management_secret_env'' (set_management_env c) True,
         secretRef ''security.master_key_env'' (set_master_env c) True,
         secretRef ''security.hpke_key_env'' (set_hpke_env c) True,
         secretRef ''ai.openai_key_env'' (ai_openai_key a)
           (feat_openai f \<and> ai_auth a \<noteq> ''none'' \<and> \<not> list_ex (\<lambda>(n, ep). ep_provider ep = ''openai'') (ai_endpoints a)),
         secretRef ''ai.anthropic_key_env'' (ai_anthropic_key a)
           (feat_anthropic f \<and> ai_auth a \<noteq> ''none'' \<and> \<not> list_ex (\<lambda>(n, ep). ep_provider ep = ''anthropic'') (ai_endpoints a)),
         secretRef ''calls.turn_secret_env'' (set_turn_env c) (feat_calls f)]))"

subsection \<open>AI, tools and calls\<close>

definition validate_ai :: "net_lib \<Rightarrow> settings \<Rightarrow> cfg_error option" where
  "validate_ai N c = (let a = set_ai c; f = cfg_features c; provider = feat_openai f \<or> feat_anthropic f in first_error
     [check (feat_ai_streaming f \<and> \<not> provider) ''AI streaming requires an enabled provider'' [],
      check ((feat_mcp f \<or> feat_http_tools f) \<and> \<not> provider) ''AI tools require an enabled AI provider'' [],
      (if feat_openai f then endpoint_url N ''ai.openai_url'' (ai_openai_url a) else None),
      (if feat_anthropic f then endpoint_url N ''ai.anthropic_url'' (ai_anthropic_url a) else None),
      (if provider then first_error
         [validateAIAuth ''ai'' (ai_auth a) (ai_private a),
          check (ai_auth a = ''none'' \<and> (ai_openai_key a \<noteq> [] \<or> ai_anthropic_key a \<noteq> []))
            ''ai key_env values must be empty when auth is none'' [],
          check ((ai_model a = [] \<and> (ai_endpoints a = [] \<or> ai_default_bot a = [])) \<or> ai_steps a < 1 \<or> ai_steps a > 64)
            ''AI requires a model (or named endpoints with default_bot) and max_steps 1..64'' [],
          check (ai_turns a < 1 \<or> ai_turns a > 20 \<or> ai_context a < 1 \<or> ai_context a > 262144 \<or> ai_timeout a < 1
              \<or> ai_timeout a > 45 \<or> ai_response a < 1 \<or> ai_response a > 1048576 \<or> ai_output a < 1
              \<or> ai_output a > maxAIOutputTokens)
            ''AI limits require context turns 1..20, context bytes 1..262144, timeout seconds 1..45, response bytes 1..1048576, output tokens 1..%d''
            [dec_int maxAIOutputTokens],
          check (ai_streams a \<and> \<not> feat_ai_streaming f) ''ai.streaming requires ai_streaming feature'' []]
       else None),
      validateAICapabilities ''ai'' (ai_capabilities a),
      validateAINamedProfiles N c])"

definition tool_methods :: "string list" where
  "tool_methods = [''GET'', ''POST'', ''PUT'', ''PATCH'', ''DELETE'', ''HEAD'', ''OPTIONS'']"

definition tool_kind_error :: "features_cfg \<Rightarrow> tool \<Rightarrow> cfg_error option" where
  "tool_kind_error f t =
     (if tl_kind t = ''mcp'' then check (\<not> feat_mcp f) ''MCP tool requires mcp feature'' []
      else if tl_kind t = ''http'' then check (\<not> feat_http_tools f) ''HTTP tool requires http_tools feature'' []
      else if tl_kind t = ''storage'' then first_error
        [check (\<not> feat_ai_storage f \<or> tl_resource t = [] \<or> \<not> tl_approval t \<or> tl_url t \<noteq> [] \<or> tl_secret t \<noteq> []
             \<or> tl_methods t \<noteq> [] \<or> tl_private t)
           ''storage tool requires ai_storage, resource, require_approval=true and no external HTTP settings'' [],
         check (tl_action t \<notin> {''read'', ''search'', ''graph''}) ''storage_action must be read, search or graph'' []]
      else Some (''tool.kind must be mcp, http or storage'', []))"

fun tools_from :: "net_lib \<Rightarrow> features_cfg \<Rightarrow> string list \<Rightarrow> tool list \<Rightarrow> cfg_error option" where
  "tools_from N f seen [] = None"
| "tools_from N f seen (t # ts) =
     (case first_error
        [check (tl_timeout t < 0 \<or> tl_timeout t > 45 \<or> tl_response t < 0 \<or> tl_response t > 1048576)
           ''tool limits require timeout seconds 0..45 and response bytes 0..1048576 (0 inherits AI limit)'' [],
         check (tl_name t = [] \<or> tl_name t \<in> set seen) ''AI tool names must be unique and nonempty'' [],
         check (tl_cost t < 0 \<or> tl_cost t > maxAIPricingMicrounits) ''tool cost_microunits must be 0..%d''
           [dec_int maxAIPricingMicrounits],
         tool_kind_error f t,
         check (tl_kind t \<noteq> ''storage'' \<and> (tl_resource t \<noteq> [] \<or> tl_action t \<noteq> []))
           ''resource/storage_action require storage tool kind'' [],
         (if tl_kind t \<noteq> ''storage'' then endpoint_url N ''tool.url'' (tl_url t) else None),
         secretRef ''tool.secret_env'' (tl_secret t) False,
         check (tl_kind t = ''http'' \<and> length (tl_methods t) \<noteq> 1) ''HTTP tools require exactly one explicit method'' [],
         check (list_ex (\<lambda>m. m \<notin> set tool_methods) (tl_methods t)) ''invalid tool HTTP method'' []]
      of Some e \<Rightarrow> Some e | None \<Rightarrow> tools_from N f (tl_name t # seen) ts)"

definition turn_url_bad :: "net_lib \<Rightarrow> string \<Rightarrow> bool" where
  "turn_url_bad N raw = (case nl_url N raw of None \<Rightarrow> True
     | Some u \<Rightarrow> ur_user u \<or> CHR ''@'' \<in> set (ur_opaque u) \<or> (ur_scheme u \<noteq> ''turn'' \<and> ur_scheme u \<noteq> ''turns'')
         \<or> (ur_opaque u = [] \<and> ur_host u = []))"

definition validate_calls :: "net_lib \<Rightarrow> settings \<Rightarrow> cfg_error option" where
  "validate_calls N c = (let v = cfg_calls c in
     if feat_calls (cfg_features c) then first_error
       [check (call_turn_urls v = [] \<or> call_credential_ttl_seconds v < 60 \<or> call_credential_ttl_seconds v > 86400)
          ''calls require TURN URLs and credential TTL 60..86400'' [],
        check (list_ex (turn_url_bad N) (call_turn_urls v)) ''invalid TURN URL'' []]
     else None)"

definition Validate :: "net_lib \<Rightarrow> settings \<Rightarrow> cfg_error option" where
  "Validate N c = first_error
     [validate_server N c,
      validateAIPolicyConfig c,
      check (feat_ai_endpoint (cfg_features c) \<and> \<not> feat_e2ee (cfg_features c)) ''ai_endpoint requires e2ee'' [],
      validateAIStorageConfig c,
      validate_keys c,
      map_option (\<lambda>e. (e, [])) (validate_capacity (cfg_capacity c)),
      map_option (\<lambda>e. (e, [])) (validate_policy (cfg_features c) (cfg_policy c)),
      validate_ai N c,
      tools_from N (cfg_features c) [] (ai_tool_list (set_ai c)),
      validate_calls N c]"

end
