(* ===== verification/Effective.thy ===== *)
theory Effective
  imports Validation "HOL-Library.List_Lexorder" "HOL-Library.Char_ord"
begin

text \<open>
  The path from a TOML document to the effective configuration (\<open>parseDetailed\<close>), where each
  of its values comes from, and the names of the secrets it refers to; \<open>internal/config/config.go\<close>. Then what
  the validation is for: every bot of a validated configuration resolves, within the limits.
\<close>

subsection \<open>Where the values come from\<close>

definition section_paths :: "string \<Rightarrow> string list \<Rightarrow> string list" where
  "section_paths section names = map (\<lambda>n. section @ ''.'' @ n) names"

text \<open>\<open>configLeafPaths\<close> of the configuration's type; a map or a list is a leaf.\<close>

definition config_paths :: "string list" where
  "config_paths = concat
     [section_paths ''server'' [''listen'', ''tls_cert'', ''tls_key'', ''allow_insecure_loopback'', ''trusted_proxy'', ''origins''],
      section_paths ''storage'' [''path'', ''files'', ''checkpoint_interval_ms'', ''wal_checkpoint_bytes''],
      section_paths ''security'' [''issuer'', ''audience'', ''token_public_key_env'', ''management_secret_env'', ''master_key_env'',
        ''hpke_key_env'', ''previous_master_key_envs'', ''previous_hpke_key_envs''],
      section_paths ''features'' [''groups'', ''files'', ''e2ee'', ''calls'', ''delete'', ''edit'', ''reply'', ''forward'', ''reactions'',
        ''openai'', ''anthropic'', ''ai_streaming'', ''mcp'', ''http_tools'', ''ai_policy'', ''ai_storage'', ''ai_endpoint''],
      section_paths ''capacity'' [''expected_concurrent_users'', ''max_connections'', ''queue_depth'', ''workers''],
      section_paths ''policy'' [''history'', ''delete_mode'', ''reaction_types'', ''event_retention_hours'', ''dedup_retention_hours'',
        ''max_message_bytes'', ''max_batch'', ''max_file_bytes'', ''max_chunk_bytes'', ''max_storage_bytes'', ''upload_ttl_hours''],
      section_paths ''ai'' [''openai_url'', ''anthropic_url'', ''openai_key_env'', ''anthropic_key_env'', ''model'', ''max_steps'',
        ''max_context_turns'', ''max_context_bytes'', ''timeout_seconds'', ''max_response_bytes'', ''max_output_tokens'',
        ''input_price_microunits_per_million_tokens'', ''output_price_microunits_per_million_tokens'', ''allow_private'', ''streaming'',
        ''auth'', ''system_prompt'', ''capabilities'', ''tools'', ''endpoints'', ''bots'', ''default_bot''],
      section_paths ''ai_policy'' [''grant_public_key_env'', ''issuer'', ''audience'', ''approval_ttl_seconds'', ''require_provider_approval'',
        ''provider_reserve_microunits'', ''global_daily_budget_microunits'', ''per_bot_daily_budget_microunits'',
        ''per_user_daily_budget_microunits'', ''currency''],
      section_paths ''ai_storage'' [''grant_public_key_env'', ''issuer'', ''audience'', ''grant_ttl_seconds'', ''max_resources'',
        ''max_documents_per_resource'', ''max_item_bytes'', ''max_vector_dimensions'', ''max_results'', ''max_graph_depth''],
      section_paths ''calls'' [''turn_urls'', ''turn_secret_env'', ''credential_ttl_seconds'']]"

definition hasPath :: "string list \<Rightarrow> string \<Rightarrow> bool" where
  "hasPath values path \<longleftrightarrow> path \<in> set values \<or> list_ex (\<lambda>v. take (length path + 1) v = path @ ''.'') values"

definition declaredSourceMap :: "string \<Rightarrow> string list \<Rightarrow> string \<Rightarrow> string option" where
  "declaredSourceMap preset explicit path =
     (if path = ''preset'' then (if preset \<noteq> [] then Some ''explicit'' else None)
      else if path \<notin> set config_paths then None
      else Some (if hasPath explicit path then ''explicit'' else if hasPath (presetPaths preset) path then ''preset'' else ''default''))"

definition sourceMap :: "string \<Rightarrow> capacity_cfg \<Rightarrow> string list \<Rightarrow> string \<Rightarrow> string option" where
  "sourceMap preset declared explicit path =
     (if (path = ''capacity.max_connections'' \<and> cap_max_connections declared = 0)
        \<or> (path = ''capacity.queue_depth'' \<and> cap_queue_depth declared = 0)
        \<or> (path = ''capacity.workers'' \<and> cap_workers declared = 0)
      then Some ''derived'' else declaredSourceMap preset explicit path)"

subsection \<open>The effective configuration\<close>

record details =
  de_config :: settings
  de_preset :: string
  de_explicit :: "string list"
  de_preset_paths :: "string list"
  de_sources :: "string \<Rightarrow> string option"
  de_declared_sources :: "string \<Rightarrow> string option"
  de_declared :: capacity_cfg

text \<open>What the TOML decoder makes of a document: the preset, and the settings decoded over given ones, with the keys.\<close>

record document_lib =
  td_preset :: "string option"
  td_decode :: "settings \<Rightarrow> settings option"
  td_keys :: "string list list"
  td_undecoded :: "string list list"

fun join_dots :: "string list \<Rightarrow> string" where
  "join_dots [] = []"
| "join_dots [x] = x"
| "join_dots (x # xs) = x @ ''.'' @ join_dots xs"

definition sortedKeys :: "string list \<Rightarrow> string list" where
  "sortedKeys xs = sort (remdups xs)"

definition open_schema :: "string list \<Rightarrow> bool" where
  "open_schema k \<longleftrightarrow> length k > 3 \<and> take 3 k = [''ai'', ''tools'', ''schema'']"

definition validateAIPresetModel :: "net_lib \<Rightarrow> settings \<Rightarrow> string \<Rightarrow> cfg_error option" where
  "validateAIPresetModel N c preset = (let a = set_ai c in
     if (feat_openai (cfg_features c) \<or> feat_anthropic (cfg_features c)) \<and> nl_blank N (ai_model a)
       \<and> (ai_endpoints a = [] \<or> ai_default_bot a = [])
     then Some (if take 3 preset = ''ai-'' then ''AI preset requires explicit ai.model or ai.default_bot''
       else ''AI requires an explicit ai.model or ai.default_bot'', [])
     else None)"

text \<open>\<open>None\<close> is the panic of the derivation, which a validated configuration does not reach.\<close>

definition parseDetailed :: "net_lib \<Rightarrow> document_lib \<Rightarrow> resources \<Rightarrow> (cfg_error + details) option" where
  "parseDetailed N T r =
     (case td_preset T of
        None \<Rightarrow> Some (Inl (''decode configuration'', []))
      | Some preset \<Rightarrow>
          (case presetValues preset Defaults of
             Inl e \<Rightarrow> Some (Inl e)
           | Inr base \<Rightarrow>
               (case td_decode T base of
                  None \<Rightarrow> Some (Inl (''decode configuration'', []))
                | Some c \<Rightarrow>
                    (let explicit = filter (\<lambda>p. p \<noteq> ''preset'') (map join_dots (td_keys T));
                         unknown = map join_dots (filter (\<lambda>k. \<not> open_schema k \<and> join_dots k \<noteq> ''preset'') (td_undecoded T)) in
                     if unknown \<noteq> [] then Some (Inl (''unknown configuration fields: %s'', unknown))
                     else case first_error [validateAIPresetModel N c preset, Validate N c] of
                       Some e \<Rightarrow> Some (Inl e)
                     | None \<Rightarrow>
                         (case DeriveCapacity (cfg_capacity c) r of
                            None \<Rightarrow> None
                          | Some cap \<Rightarrow>
                              (let declared = declaredSourceMap preset explicit; sources = sourceMap preset (cfg_capacity c) explicit;
                                   defined = [''preset''] \<in> set (td_keys T) in
                               Some (Inr \<lparr>de_config = c\<lparr>cfg_capacity := cap\<rparr>, de_preset = preset, de_explicit = sortedKeys explicit,
                                 de_preset_paths = presetPaths preset,
                                 de_sources = (if defined then sources(''preset'' \<mapsto> ''explicit'') else sources),
                                 de_declared_sources = (if defined then declared(''preset'' \<mapsto> ''explicit'') else declared),
                                 de_declared = cfg_capacity c\<rparr>)))))))"

subsection \<open>The names of the secrets\<close>

definition secret_list :: "settings \<Rightarrow> string list" where
  "secret_list c = (let a = set_ai c in
     [set_token_env c, set_management_env c, set_master_env c, set_hpke_env c]
      @ set_previous_master c @ set_previous_hpke c @ [ai_openai_key a, ai_anthropic_key a]
      @ map (\<lambda>(n, ep). ep_key ep) (ai_endpoints a) @ [set_turn_env c] @ map tl_secret (ai_tool_list a)
      @ (if feat_ai_policy (cfg_features c) then [po_key_env (set_ai_policy c)] else [])
      @ (if feat_ai_storage (cfg_features c) then [st_key_env (set_ai_storage c)] else []))"

definition SecretReferences :: "settings \<Rightarrow> string list" where
  "SecretReferences c = sortedKeys (filter (\<lambda>r. r \<noteq> []) (secret_list c))"

subsection \<open>What a validated configuration resolves to\<close>

definition in_limits :: "ai_section \<Rightarrow> bool" where
  "in_limits a \<longleftrightarrow> 1 \<le> ai_steps a \<and> ai_steps a \<le> 64 \<and> 1 \<le> ai_turns a \<and> ai_turns a \<le> 20
     \<and> 1 \<le> ai_context a \<and> ai_context a \<le> 262144 \<and> 1 \<le> ai_timeout a \<and> ai_timeout a \<le> 45
     \<and> 1 \<le> ai_response a \<and> ai_response a \<le> 1048576 \<and> 1 \<le> ai_output a \<and> ai_output a \<le> maxAIOutputTokens"

definition prices_ok :: "ai_section \<Rightarrow> bool" where
  "prices_ok a \<longleftrightarrow> 0 \<le> ai_input_price a \<and> ai_input_price a \<le> maxAIPricingMicrounits
     \<and> 0 \<le> ai_output_price a \<and> ai_output_price a \<le> maxAIPricingMicrounits"

definition overrides_ok :: "'a overrides_scheme \<Rightarrow> bool" where
  "overrides_ok v \<longleftrightarrow> (\<forall>prefix. validateAIBotOverrides prefix v = None)"

lemma override_simps [simp]: "override None d = d" "override (Some v) d = v"
  by (simp_all add: override_def)

lemma validateAIOverride_None:
  "validateAIOverride name ov lo hi = None \<longleftrightarrow> (\<forall>v. ov = Some v \<longrightarrow> lo \<le> v \<and> v \<le> hi)"
  by (auto simp: validateAIOverride_def split: option.splits)

lemma override_range:
  "validateAIOverride name ov lo hi = None \<Longrightarrow> lo \<le> d \<Longrightarrow> d \<le> hi \<Longrightarrow> lo \<le> override ov d \<and> override ov d \<le> hi"
  by (cases ov) (simp_all add: validateAIOverride_None)

lemma apply_overrides_limits:
  assumes "validateAIBotOverrides prefix v = None" "in_limits a"
  shows "in_limits (apply_overrides v a)"
proof -
  from assms(1) have
    "validateAIOverride (prefix @ ''.max_steps'') (ov_steps v) 1 64 = None"
    "validateAIOverride (prefix @ ''.max_context_turns'') (ov_turns v) 1 20 = None"
    "validateAIOverride (prefix @ ''.max_context_bytes'') (ov_context v) 1 262144 = None"
    "validateAIOverride (prefix @ ''.timeout_seconds'') (ov_timeout v) 1 45 = None"
    "validateAIOverride (prefix @ ''.max_output_tokens'') (ov_output v) 1 maxAIOutputTokens = None"
    "validateAIOverride (prefix @ ''.max_response_bytes'') (ov_response v) 1 1048576 = None"
    by (simp_all add: validateAIBotOverrides_def first_error_None)
  from this [THEN override_range] assms(2) show ?thesis
    by (simp add: in_limits_def apply_overrides_def)
qed

lemma apply_endpoint_limits:
  assumes "validateAIOverrides prefix ep = None" "in_limits a" "prices_ok a"
  shows "in_limits (apply_endpoint ep a) \<and> prices_ok (apply_endpoint ep a)"
proof -
  from assms(1) have v: "validateAIBotOverrides prefix ep = None"
    "validateAIPricingOverride (prefix @ ''.input_price_microunits_per_million_tokens'') (ep_input_price ep) = None"
    "validateAIPricingOverride (prefix @ ''.output_price_microunits_per_million_tokens'') (ep_output_price ep) = None"
    by (simp_all add: validateAIOverrides_def first_error_None)
  have "in_limits (apply_overrides ep c)" if "in_limits c" for c using apply_overrides_limits [OF v(1) that] .
  moreover have "prices_ok (apply_overrides ep c) = prices_ok c" for c by (simp add: prices_ok_def apply_overrides_def)
  moreover have "0 \<le> override (ep_input_price ep) x \<and> override (ep_input_price ep) x \<le> maxAIPricingMicrounits"
    if "0 \<le> x" "x \<le> maxAIPricingMicrounits" for x
    using v(2) that by (cases "ep_input_price ep") (simp_all add: validateAIPricingOverride_def validateAIPricing_def)
  moreover have "0 \<le> override (ep_output_price ep) x \<and> override (ep_output_price ep) x \<le> maxAIPricingMicrounits"
    if "0 \<le> x" "x \<le> maxAIPricingMicrounits" for x
    using v(3) that by (cases "ep_output_price ep") (simp_all add: validateAIPricingOverride_def validateAIPricing_def)
  ultimately show ?thesis using assms(2,3)
    by (simp add: apply_endpoint_def Let_def in_limits_def prices_ok_def)
qed

lemma apply_bot_limits:
  assumes "validateAIBotOverrides prefix bo = None" "in_limits a" "prices_ok a"
  shows "in_limits (apply_bot ts bo a) \<and> prices_ok (apply_bot ts bo a)"
proof -
  define b where "b = (if bo_prompt bo = [] then a else a\<lparr>ai_prompt := bo_prompt bo\<rparr>)"
  have "in_limits b" "prices_ok b" using assms(2,3) by (simp_all add: b_def in_limits_def prices_ok_def)
  moreover have "prices_ok (apply_overrides bo b) = prices_ok b" by (simp add: prices_ok_def apply_overrides_def)
  moreover have "apply_bot ts bo a = (case bo_tools bo of None \<Rightarrow> apply_overrides bo b
      | Some names \<Rightarrow> (apply_overrides bo b)\<lparr>ai_tool_list := filter (\<lambda>t. tl_name t \<in> set names) ts\<rparr>)"
    unfolding apply_bot_def b_def Let_def ..
  ultimately show ?thesis using apply_overrides_limits [OF assms(1), of b]
    by (simp add: in_limits_def prices_ok_def split: option.split)
qed

lemma apply_tools: "set (ai_tool_list (apply_bot (ai_tool_list a) bo (apply_endpoint ep a))) \<subseteq> set (ai_tool_list a)"
  by (auto simp: apply_bot_def apply_endpoint_def apply_overrides_def Let_def split: option.splits if_splits)

lemma apply_streams: "ai_streams (apply_bot ts bo (apply_endpoint ep a))
    = override (ov_streaming bo) (override (ov_streaming ep) (ai_streams a))"
  by (simp add: apply_bot_def apply_endpoint_def apply_overrides_def Let_def split: option.splits if_splits)

lemma apply_model: "ai_model (apply_bot ts bo (apply_endpoint ep a)) = ep_model ep"
  by (simp add: apply_bot_def apply_endpoint_def apply_overrides_def Let_def split: option.splits if_splits)

lemma Validate_None:
  assumes "Validate N c = None"
  shows "validateAIPolicyConfig c = None" "validate_ai N c = None" "tools_from N (cfg_features c) [] (ai_tool_list (set_ai c)) = None"
  using assms by (simp_all add: Validate_def first_error_None)

lemma named_profiles:
  assumes "Validate N c = None"
  shows "(name, ep) \<in> set (ai_endpoints (set_ai c)) \<Longrightarrow> validate_endpoint N c (name, ep) = None"
    "(name, bo) \<in> set (ai_bots (set_ai c)) \<Longrightarrow> validate_bot c (name, bo) = None"
    "ai_default_bot (set_ai c) = [] \<or> map_of (ai_bots (set_ai c)) (ai_default_bot (set_ai c)) \<noteq> None"
proof -
  have "validateAINamedProfiles N c = None"
    using Validate_None(2) [OF assms] by (simp add: validate_ai_def Let_def first_error_None)
  then show "(name, ep) \<in> set (ai_endpoints (set_ai c)) \<Longrightarrow> validate_endpoint N c (name, ep) = None"
    "(name, bo) \<in> set (ai_bots (set_ai c)) \<Longrightarrow> validate_bot c (name, bo) = None"
    "ai_default_bot (set_ai c) = [] \<or> map_of (ai_bots (set_ai c)) (ai_default_bot (set_ai c)) \<noteq> None"
    by (auto simp: validateAINamedProfiles_def Let_def first_error_None)
qed

lemma global_limits:
  assumes "Validate N c = None" "feat_openai (cfg_features c) \<or> feat_anthropic (cfg_features c)"
  shows "in_limits (set_ai c)" "prices_ok (set_ai c)" "ai_streams (set_ai c) \<Longrightarrow> feat_ai_streaming (cfg_features c)"
proof -
  show "in_limits (set_ai c)" "ai_streams (set_ai c) \<Longrightarrow> feat_ai_streaming (cfg_features c)"
    using Validate_None(2) [OF assms(1)] assms(2)
    by (auto simp: validate_ai_def Let_def first_error_None in_limits_def)
  show "prices_ok (set_ai c)"
    using Validate_None(1) [OF assms(1)]
    by (auto simp: validateAIPolicyConfig_def policy_unused_def Let_def first_error_None prices_ok_def validateAIPricing_def
        maxAIPricingMicrounits_def split: if_splits)
qed

text \<open>A resolved bot, as the code that runs it needs it.\<close>

definition runnable :: "net_lib \<Rightarrow> settings \<Rightarrow> ai_section \<Rightarrow> bool" where
  "runnable N c a \<longleftrightarrow> in_limits a \<and> prices_ok a \<and> \<not> nl_blank N (ai_model a)
     \<and> (ai_streams a \<longrightarrow> feat_ai_streaming (cfg_features c)) \<and> set (ai_tool_list a) \<subseteq> set (ai_tool_list (set_ai c))"

definition runs_provider :: "settings \<Rightarrow> string \<Rightarrow> bool" where
  "runs_provider c provider \<longleftrightarrow> (provider = ''openai'' \<and> feat_openai (cfg_features c))
     \<or> (provider = ''anthropic'' \<and> feat_anthropic (cfg_features c))"

lemma resolve_named_runnable:
  assumes v: "Validate N c = None" and bo: "map_of (ai_bots (set_ai c)) name = Some bo"
  obtains a provider where "resolve_named (set_ai c) name = Inr (a, provider)" "runnable N c a" "runs_provider c provider"
proof -
  from bo have "(name, bo) \<in> set (ai_bots (set_ai c))" by (rule map_of_SomeD)
  from named_profiles(2) [OF v this] have vb: "validateAIBotOverrides (''ai.bots.'' @ name) bo = None"
    "map_of (ai_endpoints (set_ai c)) (bo_endpoint bo) \<noteq> None"
    "ov_streaming bo = Some True \<Longrightarrow> feat_ai_streaming (cfg_features c)"
    by (auto simp: validate_bot_def Let_def first_error_None split: option.splits)
  then obtain ep where ep: "map_of (ai_endpoints (set_ai c)) (bo_endpoint bo) = Some ep" by blast
  from named_profiles(1) [OF v map_of_SomeD [OF ep]] have ve:
    "validateAIOverrides (''ai.endpoints.'' @ bo_endpoint bo) ep = None" "\<not> nl_blank N (ep_model ep)"
    "ov_streaming ep = Some True \<Longrightarrow> feat_ai_streaming (cfg_features c)" "runs_provider c (ep_provider ep)"
    by (auto simp: validate_endpoint_def Let_def first_error_None runs_provider_def split: if_splits)
  from ve(4) have "feat_openai (cfg_features c) \<or> feat_anthropic (cfg_features c)" by (auto simp: runs_provider_def)
  note g = global_limits [OF v this]
  let ?a = "apply_bot (ai_tool_list (set_ai c)) bo (apply_endpoint ep (set_ai c))"
  have "in_limits ?a \<and> prices_ok ?a"
    using apply_bot_limits [OF vb(1)] apply_endpoint_limits [OF ve(1) g(1,2)] by blast
  moreover have "ai_streams ?a \<Longrightarrow> feat_ai_streaming (cfg_features c)"
    using vb(3) ve(3) g(3) by (cases "ov_streaming bo"; cases "ov_streaming ep") (auto simp: apply_streams)
  ultimately have "runnable N c ?a" using apply_tools apply_model ve(2) by (simp add: runnable_def)
  moreover have "resolve_named (set_ai c) name = Inr (?a, ep_provider ep)" by (simp add: resolve_named_def bo ep)
  ultimately show ?thesis using that ve(4) by blast
qed

lemma parseDetailed_Inr:
  assumes "parseDetailed N T r = Some (Inr d)"
  obtains c cap where "Validate N c = None" "validateAIPresetModel N c (de_preset d) = None" "de_config d = c\<lparr>cfg_capacity := cap\<rparr>"
    "DeriveCapacity (cfg_capacity c) r = Some cap"
  using assms
  by (auto simp: parseDetailed_def Let_def first_error_None split: option.splits sum.splits if_splits)

end
