(* ===== verification/ConfigProperties.thy ===== *)
theory ConfigProperties
  imports Effective
begin

text \<open>Properties of the configuration: what a document that is accepted promises to the rest of the program.\<close>

subsection \<open>A small document\<close>

definition toy_net :: net_lib where
  "toy_net = \<lparr>nl_url = (\<lambda>s. Some \<lparr>ur_scheme = ''https'', ur_host = ''h'', ur_hostname = ''h'', ur_user = False, ur_path = [],
       ur_query = [], ur_fragment = [], ur_opaque = []\<rparr>),
     nl_split = (\<lambda>s. Some (''127.0.0.1'', ''80'')), nl_loopback = (\<lambda>s. Some True), nl_blank = (\<lambda>s. s = [])\<rparr>"

definition toy_endpoint :: endpoint where
  "toy_endpoint = \<lparr>ov_private = None, ov_streaming = None, ov_steps = Some 4, ov_turns = None, ov_context = None, ov_timeout = None,
     ov_output = None, ov_response = None, ep_provider = ''openai'', ep_url = ''u'', ep_model = ''m'', ep_key = ''K'', ep_auth = [],
     ep_capabilities = None, ep_input_price = None, ep_output_price = None\<rparr>"

definition toy_bot :: bot where
  "toy_bot = \<lparr>ov_private = None, ov_streaming = None, ov_steps = None, ov_turns = Some 2, ov_context = None, ov_timeout = None,
     ov_output = None, ov_response = None, bo_endpoint = ''e'', bo_prompt = [], bo_tools = None\<rparr>"

definition toy_settings :: "settings \<Rightarrow> settings" where
  "toy_settings c = c\<lparr>cfg_server := (cfg_server c)\<lparr>srv_trusted_proxy := True\<rparr>,
     cfg_features := (cfg_features c)\<lparr>feat_openai := True\<rparr>,
     set_token_env := ''T'', set_management_env := ''M'', set_master_env := ''A'', set_hpke_env := ''H'',
     set_ai := (set_ai c)\<lparr>ai_endpoints := [(''e'', toy_endpoint)], ai_bots := [(''b'', toy_bot)], ai_default_bot := ''b''\<rparr>\<rparr>"

definition toy_document :: document_lib where
  "toy_document = \<lparr>td_preset = Some [], td_decode = (\<lambda>c. Some (toy_settings c)), td_keys = [[''ai'', ''default_bot'']], td_undecoded = []\<rparr>"

lemmas toy_simps = toy_settings_def toy_endpoint_def toy_bot_def toy_net_def Defaults_def default_ai_section_def
  default_policy_section_def default_storage_section_def no_features_def default_policy_def

lemma toy_server: "validate_server toy_net (toy_settings Defaults) = None"
  by (simp add: validate_server_def toy_simps first_error_None ParseInt_def)

lemma toy_policy: "validateAIPolicyConfig (toy_settings Defaults) = None" "validateAIStorageConfig (toy_settings Defaults) = None"
  by (simp_all add: validateAIPolicyConfig_def validateAIStorageConfig_def policy_unused_def toy_simps first_error_None set_price_def)

lemma toy_keys: "validate_keys (toy_settings Defaults) = None"
  by (simp add: validate_keys_def toy_simps first_error_None secretRef_def envName_def letter_def digit_def)

lemma toy_capacity: "validate_capacity (cfg_capacity (toy_settings Defaults)) = None"
  "validate_policy (cfg_features (toy_settings Defaults)) (cfg_policy (toy_settings Defaults)) = None"
  by (simp_all add: validate_capacity_def validate_policy_def toy_simps)

lemma toy_ai: "validate_ai toy_net (toy_settings Defaults) = None"
  by (simp add: validate_ai_def Let_def toy_simps first_error_None endpoint_url_def validateAIAuth_def validateAICapabilities_def
      validateAINamedProfiles_def validate_endpoint_def validate_bot_def validateAIProfileName_def aiProfileName_def letter_def digit_def
      secretRef_def envName_def validateAIOverrides_def validateAIBotOverrides_def validateAIOverride_def validateAIPricingOverride_def
      maxAIOutputTokens_def)

lemma toy_validates: "Validate toy_net (toy_settings Defaults) = None"
  using toy_server toy_policy toy_keys toy_capacity toy_ai
  by (simp add: Validate_def first_error_None validate_calls_def) (simp add: toy_simps)

definition toy_resources :: resources where
  "toy_resources = \<lparr>res_cpus = 2, res_memory = 2 ^ 30\<rparr>"

lemma toy_parses: "\<exists>d. parseDetailed toy_net toy_document toy_resources = Some (Inr d) \<and> ai_bots (set_ai (de_config d)) = [(''b'', toy_bot)]
    \<and> feat_openai (cfg_features (de_config d))"
proof -
  have "validateAIPresetModel toy_net (toy_settings Defaults) [] = None"
    by (simp add: validateAIPresetModel_def Let_def toy_simps)
  moreover have "DeriveCapacity (cfg_capacity (toy_settings Defaults)) toy_resources \<noteq> None"
    by (simp add: DeriveCapacity_def derive_queue_def derive_connections_def go_div_def Let_def toy_simps toy_resources_def)
  ultimately show ?thesis using toy_validates
    by (auto simp: parseDetailed_def toy_document_def presetValues_def Let_def toy_settings_def)
qed

subsection \<open>Bots\<close>

text \<open>C40: Every configured bot runs. In a configuration that was accepted and enables a provider, every bot resolves, and
  so does the empty name: its limits are in range, its prices are, its model is not blank, it streams only with
  the feature, and its tools are configured ones.\<close>

theorem configured_bots_run:
  assumes "parseDetailed N T r = Some (Inr d)"
    and "feat_openai (cfg_features (de_config d)) \<or> feat_anthropic (cfg_features (de_config d))"
    and "name \<in> insert [] (fst ` set (ai_bots (set_ai (de_config d))))"
  shows "\<exists>a provider. ResolveBot (nl_blank N) (de_config d) name = Inr (a, provider) \<and> runnable N (de_config d) a"
  using assms(1)
proof (rule parseDetailed_Inr)
  fix c cap assume v: "Validate N c = None" and m: "validateAIPresetModel N c (de_preset d) = None"
    and d: "de_config d = c\<lparr>cfg_capacity := cap\<rparr>"
  have p: "feat_openai (cfg_features c) \<or> feat_anthropic (cfg_features c)" using assms(2) by (simp add: d)
  have run: "runnable N (c\<lparr>cfg_capacity := cap\<rparr>) = runnable N c" by (simp add: runnable_def fun_eq_iff)
  have named: "\<exists>a provider. ResolveBot (nl_blank N) (de_config d) n = Inr (a, provider) \<and> runnable N (de_config d) a"
    if "map_of (ai_bots (set_ai c)) k \<noteq> None" "resolveBot (nl_blank N) (set_ai c) n = resolve_named (set_ai c) k" for n k
  proof -
    from that(1) obtain bo where "map_of (ai_bots (set_ai c)) k = Some bo" by blast
    from resolve_named_runnable [OF v this] obtain a provider where
      "resolve_named (set_ai c) k = Inr (a, provider)" "runnable N c a" "runs_provider c provider" .
    then show ?thesis using that(2) by (auto simp: ResolveBot_def d run runnable_def runs_provider_def)
  qed
  show ?thesis
  proof (cases "name = []")
    case False
    with assms(3) have "name \<in> fst ` set (ai_bots (set_ai c))" by (simp add: d)
    then have "map_of (ai_bots (set_ai c)) name \<noteq> None" by (simp add: map_of_eq_None_iff)
    from named [OF this] False show ?thesis by (simp add: resolveBot_def)
  next
    case True
    show ?thesis
    proof (cases "ai_default_bot (set_ai c) = []")
      case False
      then show ?thesis using named [of "ai_default_bot (set_ai c)" name] named_profiles(3) [OF v] True
        by (simp add: resolveBot_def)
    next
      case default: True
      with m p have "\<not> nl_blank N (ai_model (set_ai c))" by (auto simp: validateAIPresetModel_def Let_def split: if_splits)
      then show ?thesis using True default global_limits [OF v p]
        by (auto simp: ResolveBot_def resolveBot_def d run runnable_def)
    qed
  qed
qed

theorem configured_bots_run_witness:
  "\<exists>d a provider. parseDetailed toy_net toy_document toy_resources = Some (Inr d)
    \<and> ResolveBot (nl_blank toy_net) (de_config d) ''b'' = Inr (a, provider) \<and> runnable toy_net (de_config d) a"
proof -
  from toy_parses obtain d where d: "parseDetailed toy_net toy_document toy_resources = Some (Inr d)"
    "ai_bots (set_ai (de_config d)) = [(''b'', toy_bot)]" "feat_openai (cfg_features (de_config d))" by blast
  from configured_bots_run [OF d(1), of "''b''"] d show ?thesis by auto
qed

subsection \<open>Secrets\<close>

lemma secretRef_name: "secretRef n v required = None \<Longrightarrow> v \<noteq> [] \<Longrightarrow> envName v"
  by (simp add: secretRef_def)

lemma retired_names: "retired_keys c field seen refs = None \<Longrightarrow> r \<in> set refs \<Longrightarrow> r \<noteq> [] \<Longrightarrow> envName r"
  by (induction c field seen refs rule: retired_keys.induct) (auto dest: secretRef_name split: option.splits if_splits)

lemma tool_names: "tools_from N f seen ts = None \<Longrightarrow> t \<in> set ts \<Longrightarrow> tl_secret t \<noteq> [] \<Longrightarrow> envName (tl_secret t)"
  by (induction N f seen ts rule: tools_from.induct)
    (auto simp: first_error_None dest: secretRef_name split: option.splits simp del: first_error.simps)

text \<open>Only names of environment variables are listed as secrets. In a validated configuration the references
  to secrets are sorted, without duplicates, and each of them is the name of an environment variable.\<close>

lemma secrets_are_names:
  assumes "Validate N c = None"
  shows "set (SecretReferences c) \<subseteq> {r. envName r} \<and> sorted (SecretReferences c) \<and> distinct (SecretReferences c)"
proof -
  have k: "validate_keys c = None" using assms by (simp add: Validate_def first_error_None)
  have ep: "(n, e) \<in> set (ai_endpoints (set_ai c)) \<Longrightarrow> ep_key e \<noteq> [] \<Longrightarrow> envName (ep_key e)" for n e
    using named_profiles(1) [OF assms, of n e] by (auto simp: validate_endpoint_def Let_def first_error_None dest: secretRef_name)
  have po: "feat_ai_policy (cfg_features c) \<Longrightarrow> po_key_env (set_ai_policy c) \<noteq> [] \<Longrightarrow> envName (po_key_env (set_ai_policy c))"
    using Validate_None(1) [OF assms] by (auto simp: validateAIPolicyConfig_def Let_def first_error_None dest: secretRef_name)
  have "validateAIStorageConfig c = None" using assms by (simp add: Validate_def first_error_None)
  then have st: "feat_ai_storage (cfg_features c) \<Longrightarrow> st_key_env (set_ai_storage c) \<noteq> [] \<Longrightarrow> envName (st_key_env (set_ai_storage c))"
    by (auto simp: validateAIStorageConfig_def Let_def first_error_None dest: secretRef_name)
  note tl = tool_names [OF Validate_None(3) [OF assms]]
  let ?ok = "{r. r \<noteq> [] \<longrightarrow> envName r}"
  from k obtain ro ra rt where "secretRef ''security.token_public_key_env'' (set_token_env c) True = None"
    "secretRef ''security.management_secret_env'' (set_management_env c) True = None"
    "secretRef ''security.master_key_env'' (set_master_env c) True = None"
    "secretRef ''security.hpke_key_env'' (set_hpke_env c) True = None"
    "secretRef ''ai.openai_key_env'' (ai_openai_key (set_ai c)) ro = None"
    "secretRef ''ai.anthropic_key_env'' (ai_anthropic_key (set_ai c)) ra = None"
    "secretRef ''calls.turn_secret_env'' (set_turn_env c) rt = None"
    by (simp add: validate_keys_def Let_def first_error_None) blast
  from this [THEN secretRef_name]
  have names: "set [set_token_env c, set_management_env c, set_master_env c, set_hpke_env c] \<subseteq> ?ok"
    "set [ai_openai_key (set_ai c), ai_anthropic_key (set_ai c)] \<subseteq> ?ok" "set [set_turn_env c] \<subseteq> ?ok" by simp_all
  from k have "retired_keys c ''previous_master_key_envs'' [] (set_previous_master c) = None"
    "retired_keys c ''previous_hpke_key_envs'' [] (set_previous_hpke c) = None"
    by (simp_all add: validate_keys_def Let_def first_error_None)
  from this [THEN retired_names] have retired: "set (set_previous_master c) \<subseteq> ?ok" "set (set_previous_hpke c) \<subseteq> ?ok" by blast+
  have profiles: "set (map (\<lambda>(n, ep). ep_key ep) (ai_endpoints (set_ai c))) \<subseteq> ?ok" "set (map tl_secret (ai_tool_list (set_ai c))) \<subseteq> ?ok"
    using ep tl by auto
  have keys: "set (if feat_ai_policy (cfg_features c) then [po_key_env (set_ai_policy c)] else []) \<subseteq> ?ok"
    "set (if feat_ai_storage (cfg_features c) then [st_key_env (set_ai_storage c)] else []) \<subseteq> ?ok" using po st by auto
  have "set (secret_list c) \<subseteq> ?ok"
    unfolding secret_list_def Let_def set_append Un_subset_iff using names retired profiles keys by (intro conjI)
  then show ?thesis by (auto simp: SecretReferences_def sortedKeys_def)
qed

end
