(* ===== verification/Assistants.thy ===== *)
theory Assistants
  imports Vault Effective Uploads
begin

text \<open>
  \<open>internal/modules/ai.go\<close>: chats with an AI participant, their jobs and the audit log. What the code calls
  through variables that other builds set (the model providers, tools, MLS participants, the policy and storage
  modules), key generation, the environment variables of the process and the decoding of the stored
  contexts are the record \<open>runtime\<close>; a variable that is nil is \<open>None\<close>.
\<close>

subsection \<open>Turns of a conversation\<close>

record call =
  ca_id :: string
  ca_name :: string
  ca_arguments :: bytes

record turn =
  tu_role :: string
  tu_content :: string
  tu_calls :: "call list"
  tu_tool_call :: string

text \<open>A raw value of JSON is written without the blanks outside of its strings, with the characters escaped that \<open>json_escape\<close> escapes.\<close>

fun compact_json :: "bool \<Rightarrow> string \<Rightarrow> string" where
  "compact_json q [] = []"
| "compact_json q (c # cs) =
     (if c \<in> {CHR ''<'', CHR ''>'', CHR ''&''} then json_escape1 c @ compact_json q cs
      else if \<not> q \<and> byte c \<in> {9, 10, 13, 32} then compact_json q cs
      else if q \<and> byte c = 92 then c # take 1 cs @ compact_json q (drop 1 cs)
      else if byte c = 226 \<and> take 2 cs = [chr 128, chr 168] then CHR 0x5C # ''u2028'' @ compact_json q (drop 2 cs)
      else if byte c = 226 \<and> take 2 cs = [chr 128, chr 169] then CHR 0x5C # ''u2029'' @ compact_json q (drop 2 cs)
      else c # compact_json (if byte c = 34 then \<not> q else q) cs)"

definition call_json :: "call \<Rightarrow> bytes" where
  "call_json c = json_object [json_member ''id'' (json_string (ca_id c)), json_member ''name'' (json_string (ca_name c)),
     json_member ''arguments'' (if ca_arguments c = [] then ''null'' else compact_json False (ca_arguments c))]"

definition turn_json :: "turn \<Rightarrow> bytes" where
  "turn_json t = json_object
     ([json_member ''role'' (json_string (tu_role t)), json_member ''content'' (json_string (tu_content t))]
      @ omitempty ''calls'' (tu_calls t) (json_array (map call_json (tu_calls t)))
      @ omitempty ''tool_call_id'' (tu_tool_call t) (json_string (tu_tool_call t)))"

definition turns_json :: "turn list \<Rightarrow> bytes" where
  "turns_json ts = json_array (map turn_json ts)"

definition user_turn :: "string \<Rightarrow> turn" where
  "user_turn content = \<lparr>tu_role = ''user'', tu_content = content, tu_calls = [], tu_tool_call = []\<rparr>"

definition assistant_turn :: "string \<Rightarrow> turn" where
  "assistant_turn content = \<lparr>tu_role = ''assistant'', tu_content = content, tu_calls = [], tu_tool_call = []\<rparr>"

text \<open>The history a provider gets: the last turns, from a user's turn on, while more than one is left.\<close>

fun drop_to_user :: "turn list \<Rightarrow> turn list" where
  "drop_to_user (t # u # ts) = (if tu_role t \<noteq> ''user'' then drop_to_user (u # ts) else t # u # ts)"
| "drop_to_user ts = ts"

lemma length_drop_to_user: "length (drop_to_user ts) \<le> length ts"
  by (induction ts rule: drop_to_user.induct) auto

function shrink_context :: "int \<Rightarrow> turn list \<Rightarrow> turn list" where
  "shrink_context m ts =
     (if length ts \<le> 1 \<or> int (length (turns_json ts)) \<le> m then ts else shrink_context m (drop_to_user (tl ts)))"
  by pat_completeness auto

termination
proof (relation "measure (\<lambda>(m, ts). length ts)")
  fix m and ts :: "turn list"
  assume "\<not> (length ts \<le> 1 \<or> int (length (turns_json ts)) \<le> m)"
  then show "((m, drop_to_user (tl ts)), (m, ts)) \<in> measure (\<lambda>(m, ts). length ts)"
    using length_drop_to_user [of "tl ts"] by (cases ts) auto
qed simp

declare shrink_context.simps [simp del]

definition bounded :: "int \<Rightarrow> int \<Rightarrow> int" where
  "bounded n m = (if n \<le> 0 \<or> n > m then m else n)"

definition aiBoundContext :: "turn list \<Rightarrow> ai_section \<Rightarrow> turn list" where
  "aiBoundContext turns a =
     (let n = nat (bounded (ai_turns a) 20);
          recent = (if length turns > n then drop_to_user (drop (length turns - n) turns) else turns) in
      shrink_context (bounded (ai_context a) 262144) recent)"

subsection \<open>Tables\<close>

record ai_chat_row =
  ac_chat :: ident
  ac_user :: ident
  ac_device :: ident
  ac_provider :: string
  ac_tools :: "string list"
  ac_context :: bytes
  ac_state :: bytes

record ai_job_row =
  j_id :: ident
  j_chat_id :: ident
  j_message_id :: ident
  j_status :: string
  j_result :: ident
  j_created :: time
  j_updated :: time

record audit_row =
  au_job :: ident
  au_action :: string
  au_tool :: string
  au_outcome :: string
  au_created :: time

record agent_row =
  ag_id :: ident
  ag_bot :: string
  ag_user :: ident
  ag_device :: ident
  ag_provider :: string
  ag_profile :: bytes
  ag_tools :: "string list"
  ag_version :: int
  ag_private :: bytes
  ag_signing :: bytes
  ag_disabled :: bool
  ag_revoked :: bool
  ag_created :: time
  ag_updated :: time

record session_row =
  as_chat :: ident
  as_agent :: ident
  as_context :: bytes
  as_tools :: "string list"
  as_version :: int
  as_state :: bytes
  as_created :: time
  as_updated :: time

record task_row =
  at_id :: ident
  at_chat :: ident
  at_agent :: ident
  at_message :: ident
  at_status :: string
  at_result :: ident
  at_created :: time
  at_updated :: time

record ai_db = vault_db +
  ai_chats :: "ai_chat_row list"
  ai_jobs :: "ai_job_row list"
  ai_audit :: "audit_row list"
  named_versions :: "int list"
  ai_agents :: "agent_row list"
  ai_sessions :: "session_row list"
  ai_tasks :: "task_row list"

type_synonym 'w ai_core = "'w ai_db_ext vault_db_ext core"

definition as_key :: "session_row \<Rightarrow> ident \<times> ident" where
  "as_key a = (as_chat a, as_agent a)"

definition at_key :: "task_row \<Rightarrow> ident \<times> ident" where
  "at_key t = (at_message t, at_agent t)"

definition active_states :: "string list" where
  "active_states = [''queued'', ''running'', ''awaiting_approval'']"

definition held_states :: "string list" where
  "held_states = [''running'', ''awaiting_approval'']"

definition context_aad :: "ident \<Rightarrow> bytes" where
  "context_aad chat = ''ai/context/'' @ chat"

definition session_aad :: "ident \<Rightarrow> ident \<Rightarrow> int \<Rightarrow> bytes" where
  "session_aad chat agent version = ''ai/context/'' @ chat @ ''/'' @ agent @ ''/'' @ dec_int version"

subsection \<open>What the module calls\<close>

record ai_identity =
  id_public :: string
  id_signing :: string
  id_state :: bytes
  id_welcome :: bytes
  id_group :: bytes
  id_context :: bytes
  id_epoch :: int

record 's runtime =
  rt_settings :: settings
  rt_blank :: "string \<Rightarrow> bool"
  rt_provider :: "string \<Rightarrow> bool"                  \<comment> \<open>compiled providers\<close>
  rt_tool :: "string \<Rightarrow> bool"                      \<comment> \<open>compiled kinds of tools\<close>
  rt_getenv :: "string \<Rightarrow> string"
  rt_x25519 :: "bytes \<Rightarrow> bytes"                     \<comment> \<open>the public key of a private key\<close>
  rt_ed25519 :: "bytes \<Rightarrow> bytes"
  rt_profile :: "ai_section \<Rightarrow> bytes"               \<comment> \<open>the JSON of a profile\<close>
  rt_turns :: "bytes \<Rightarrow> turn list option"           \<comment> \<open>decode a stored context\<close>
  rt_saved :: "bytes \<Rightarrow> turn list option"           \<comment> \<open>decode the turns of a continuation\<close>
  rt_create_mls :: "('s \<Rightarrow> ident \<Rightarrow> ident \<Rightarrow> ident \<Rightarrow> bytes \<Rightarrow> ai_identity option) option"
  rt_init_relay :: "('s \<Rightarrow> ident \<Rightarrow> ident \<Rightarrow> ident \<Rightarrow> ai_identity \<Rightarrow> 's option) option"
  rt_open_mls :: "(ident \<Rightarrow> bytes \<Rightarrow> bytes \<Rightarrow> bytes \<Rightarrow> (bytes \<times> bytes) option) option"
  rt_seal_mls :: "(ident \<Rightarrow> bytes \<Rightarrow> bytes \<Rightarrow> bytes \<Rightarrow> (bytes \<times> bytes) option) option"
  rt_continuation :: "(faults \<Rightarrow> 's \<Rightarrow> ident \<Rightarrow> string + bytes) option"
  rt_filter :: "('s \<Rightarrow> ident \<Rightarrow> turn list \<Rightarrow> turn list option) option"
  rt_final :: "('s \<Rightarrow> ident \<Rightarrow> bool) option"

abbreviation rt_features :: "'s runtime \<Rightarrow> features_cfg" where
  "rt_features R \<equiv> cfg_features (rt_settings R)"

fun allowed_from :: "'s runtime \<Rightarrow> string list \<Rightarrow> string list \<Rightarrow> tool list option" where
  "allowed_from R seen [] = Some []"
| "allowed_from R seen (n # ns) =
     (if n \<in> set seen then None
      else case find (\<lambda>t. tl_name t = n \<and> rt_tool R (tl_kind t)) (ai_tool_list (set_ai (rt_settings R))) of
        None \<Rightarrow> None
      | Some t \<Rightarrow> map_option ((#) t) (allowed_from R (n # seen) ns))"

definition aiAllowed :: "'s runtime \<Rightarrow> string list \<Rightarrow> tool list option" where
  "aiAllowed R names = allowed_from R [] names"

subsection \<open>The hooks\<close>

definition count_active :: "ident \<Rightarrow> ai_job_row list \<Rightarrow> nat" where
  "count_active chat js = count_rows (\<lambda>j. j_chat_id j = chat \<and> j_status j \<in> set active_states) js"

text \<open>A message to an AI chat queues a job. The message is unique among the jobs, too.\<close>

definition ai_tx_hook :: "env \<Rightarrow> 'w ai_db_scheme \<Rightarrow> identity \<Rightarrow> ident \<Rightarrow> message \<Rightarrow> go_error + 'w ai_db_scheme" where
  "ai_tx_hook env s who chat m =
     (if flt env 0 then Inl (OtherError ''storage'')
      else case get_row ac_chat chat (ai_chats s) of
        None \<Rightarrow> Inr s
      | Some a \<Rightarrow>
          (if ac_user a = user_id who then Inr s
           else if flt env 1 then Inl (OtherError ''storage'')
           else if count_active chat (ai_jobs s) \<ge> 64 then Inl (APIError 429 ''AI queue full'')
           else let j = \<lparr>j_id = uuid env, j_chat_id = chat, j_message_id = msg_id m, j_status = ''queued'', j_result = [],
               j_created = now env, j_updated = now env\<rparr> in
             if flt env 2 \<or> insert_row j_message_id j (ai_jobs s) = None then Inl (OtherError ''storage'')
             else case insert_row j_id j (ai_jobs s) of
               None \<Rightarrow> Inl (OtherError ''constraint failed'')
             | Some js \<Rightarrow> Inr (s\<lparr>ai_jobs := js\<rparr>)))"

definition set_jobs :: "(ai_job_row \<Rightarrow> bool) \<Rightarrow> string \<Rightarrow> time \<Rightarrow> ai_job_row list \<Rightarrow> ai_job_row list" where
  "set_jobs p status' t = update_rows p (\<lambda>j. j\<lparr>j_status := status', j_updated := t\<rparr>)"

text \<open>A deletion clears the whole context and fails the jobs of the chat that are not finished.\<close>

definition ai_delete_hook :: "'w ai_core \<Rightarrow> env \<Rightarrow> 'w ai_db_scheme \<Rightarrow> ident \<Rightarrow> go_error + 'w ai_db_scheme" where
  "ai_delete_hook C env s mid =
     (if flt env 0 then Inl (OtherError ''storage'')
      else case query_row [ac_chat a. a \<leftarrow> ai_chats s, g \<leftarrow> messages s, g_chat g = ac_chat a \<and> g_id g = mid] of
        None \<Rightarrow> Inr s
      | Some chat \<Rightarrow>
          (if flt env 1 \<or> flt env 2 then Inl (OtherError ''storage'')
           else Inr (s\<lparr>ai_chats := update_rows (\<lambda>a. ac_chat a = chat)
               (\<lambda>a. a\<lparr>ac_context := Seal (prim C) (eng C) (nonce env) ''[]'' (context_aad chat)\<rparr>) (ai_chats s),
             ai_jobs := set_jobs (\<lambda>j. j_chat_id j = chat \<and> j_status j \<in> set active_states) ''failed'' (now env) (ai_jobs s)\<rparr>)))"

end
