(* ===== verification/Jobs.thy ===== *)
theory Jobs
  imports Assistants
begin

text \<open>
  The rest of \<open>internal/modules/ai.go\<close>: which identity a job runs under and whether it may still act, the worker
  that claims the oldest queued job and completes it, the conversation with its tools,
  the creation of a participant and the management of jobs.
\<close>

subsection \<open>Identities of jobs\<close>

record task_identity =
  ti_chat :: ident
  ti_user :: ident
  ti_device :: ident
  ti_source_user :: ident
  ti_source_device :: ident
  ti_source_message :: ident
  ti_mode :: string
  ti_status :: string
  ti_epoch :: int
  ti_state :: bytes

definition direct_identity :: "'w ai_db_scheme \<Rightarrow> ident \<Rightarrow> task_identity option" where
  "direct_identity s job = query_row [\<lparr>ti_chat = ac_chat a, ti_user = ac_user a, ti_device = ac_device a, ti_source_user = g_sender g,
       ti_source_device = g_device g, ti_source_message = g_id g, ti_mode = c_mode c, ti_status = j_status j, ti_epoch = c_epoch c,
       ti_state = ac_state a\<rparr>.
     j \<leftarrow> ai_jobs s, j_id j = job, a \<leftarrow> ai_chats s, ac_chat a = j_chat_id j, g \<leftarrow> messages s, g_id g = j_message_id j,
     c \<leftarrow> chats s, c_id c = ac_chat a]"

text \<open>\<open>aiNamedTaskIdentity\<close> of \<open>ai_participants.go\<close>.\<close>

definition aiNamedTaskIdentity :: "'w ai_db_scheme \<Rightarrow> ident \<Rightarrow> task_identity option" where
  "aiNamedTaskIdentity s job = query_row [\<lparr>ti_chat = at_chat t, ti_user = ag_user a, ti_device = ag_device a, ti_source_user = g_sender g,
       ti_source_device = g_device g, ti_source_message = g_id g, ti_mode = c_mode c, ti_status = at_status t, ti_epoch = c_epoch c,
       ti_state = as_state n\<rparr>.
     t \<leftarrow> ai_tasks s, at_id t = job, a \<leftarrow> ai_agents s, ag_id a = at_agent t, n \<leftarrow> ai_sessions s, as_chat n = at_chat t \<and> as_agent n = at_agent t,
     g \<leftarrow> messages s, g_id g = at_message t, c \<leftarrow> chats s, c_id c = at_chat t]"

definition aiTaskLookup :: "faults \<Rightarrow> 'w ai_db_scheme \<Rightarrow> ident \<Rightarrow> task_identity option" where
  "aiTaskLookup f s job =
     (if f 0 then None
      else case direct_identity s job of
        Some t \<Rightarrow> Some t
      | None \<Rightarrow> (if f 1 then None else aiNamedTaskIdentity s job))"

definition aiTaskAuthorized :: "bool \<Rightarrow> 'z db_scheme \<Rightarrow> task_identity \<Rightarrow> bool" where
  "aiTaskAuthorized fail s t \<longleftrightarrow> \<not> fail \<and> [(). g \<leftarrow> messages s, g_id g = ti_source_message t \<and> \<not> g_deleted g,
     a \<leftarrow> members s, m_chat a = g_chat g \<and> m_user a = ti_user t \<and> m_active a \<and> m_can_send a \<and> g_seq g \<ge> m_joined a,
     ad \<leftarrow> devices s, d_user ad = m_user a \<and> d_id ad = ti_device t \<and> \<not> d_revoked ad,
     au \<leftarrow> users s, u_id au = m_user a \<and> \<not> u_disabled au,
     m \<leftarrow> members s, m_chat m = g_chat g \<and> m_user m = g_sender g \<and> m_active m \<and> m_can_send m \<and> g_seq g \<ge> m_joined m,
     sd \<leftarrow> devices s, d_id sd = g_device g \<and> d_user sd = m_user m \<and> \<not> d_revoked sd,
     su \<leftarrow> users s, u_id su = m_user m \<and> \<not> u_disabled su,
     c \<leftarrow> chats s, c_id c = g_chat g \<and> \<not> c_pending c \<and> c_epoch c = ti_epoch t] \<noteq> []"

definition aiEffectsAllowed :: "faults \<Rightarrow> 'w ai_db_scheme \<Rightarrow> ident \<Rightarrow> bool" where
  "aiEffectsAllowed f s job =
     (\<not> f 0 \<and> (case aiTaskLookup (shift_faults 1 f) s job of None \<Rightarrow> False
        | Some t \<Rightarrow> ti_status t = ''running'' \<and> aiTaskAuthorized (f 3) s t))"

subsection \<open>Ending a job\<close>

definition audit :: "ident \<Rightarrow> string \<Rightarrow> string \<Rightarrow> string \<Rightarrow> time \<Rightarrow> 'w ai_db_scheme \<Rightarrow> 'w ai_db_scheme" where
  "audit job action toolname outcome t s = s\<lparr>ai_audit := ai_audit s @
     [\<lparr>au_job = job, au_action = action, au_tool = toolname, au_outcome = outcome, au_created = t\<rparr>]\<rparr>"

text \<open>The errors of both statements are ignored; statement \<open>n\<close> is the first.\<close>

definition aiFailTx :: "faults \<Rightarrow> nat \<Rightarrow> ident \<Rightarrow> string \<Rightarrow> time \<Rightarrow> 'w ai_db_scheme \<Rightarrow> 'w ai_db_scheme" where
  "aiFailTx f n job status' t s =
     (let s1 = (if f n then s else s\<lparr>ai_jobs := set_jobs (\<lambda>j. j_id j = job \<and> j_status j \<in> {''queued'', ''running''}) status' t (ai_jobs s)\<rparr>) in
      if f (Suc n) then s1 else audit job ''job'' [] status' t s1)"

definition fail_commit :: "faults \<Rightarrow> nat \<Rightarrow> ident \<Rightarrow> string \<Rightarrow> time \<Rightarrow> 'w ai_db_scheme \<Rightarrow> 'w ai_db_scheme" where
  "fail_commit f n job status' t s = (if f (n + 2) then s else aiFailTx f n job status' t s)"

definition aiFinishError :: "faults \<Rightarrow> ident \<Rightarrow> string \<Rightarrow> time \<Rightarrow> 'w ai_db_scheme \<Rightarrow> 'w ai_db_scheme" where
  "aiFinishError f job status' t s = (if f 0 then s else fail_commit f 1 job status' t s)"

subsection \<open>Claiming the next job\<close>

function utf8_valid :: "string \<Rightarrow> bool" where
  "utf8_valid s = (if s = [] then True else if utf8_size s = 0 then False else utf8_valid (drop (utf8_size s) s))"
  by pat_completeness auto

termination
proof (relation "measure length")
  fix s :: string assume "s \<noteq> []" "utf8_size s \<noteq> 0"
  then show "(drop (utf8_size s) s, s) \<in> measure length" by (cases s) auto
qed simp

declare utf8_valid.simps [simp del]

record job_context =
  jc_job :: ident
  jc_chat :: ident
  jc_user :: ident
  jc_device :: ident
  jc_provider :: string
  jc_mode :: string
  jc_epoch :: int
  jc_state :: bytes
  jc_turns :: "turn list"
  jc_tools :: "string list"
  jc_settings :: ai_section

datatype claim_result = Idle | Failed | Claimed job_context

text \<open>The order of the messages first, over all chats.\<close>

definition queued_jobs :: "'w ai_db_scheme \<Rightarrow> (ai_job_row \<times> ai_chat_row \<times> chat_row \<times> message_row) list" where
  "queued_jobs s = sort_key (\<lambda>(j, a, c, g). (g_seq g, j_created j))
     [(j, a, c, g). j \<leftarrow> ai_jobs s, j_status j = ''queued''
          \<and> \<not> list_ex (\<lambda>x. j_chat_id x = j_chat_id j \<and> j_status x \<in> set held_states) (ai_jobs s),
        a \<leftarrow> ai_chats s, ac_chat a = j_chat_id j, c \<leftarrow> chats s, c_id c = j_chat_id j, g \<leftarrow> messages s, g_id g = j_message_id j]"

definition can_act :: "'z db_scheme \<Rightarrow> ident \<Rightarrow> ident \<Rightarrow> ident \<Rightarrow> member_row list" where
  "can_act s chat user device = [m. d \<leftarrow> devices s, d_id d = device \<and> d_user d = user \<and> \<not> d_revoked d,
     u \<leftarrow> users s, u_id u = d_user d \<and> \<not> u_disabled u,
     m \<leftarrow> members s, m_user m = d_user d \<and> m_chat m = chat \<and> m_active m \<and> m_can_send m]"

definition job_authorized :: "'w ai_db_scheme \<Rightarrow> ai_chat_row \<Rightarrow> message_row \<Rightarrow> bool" where
  "job_authorized s a g \<longleftrightarrow>
     [(). m \<leftarrow> can_act s (ac_chat a) (g_sender g) (g_device g), c \<leftarrow> chats s, c_id c = m_chat m \<and> \<not> c_pending c] \<noteq> []
     \<and> can_act s (ac_chat a) (ac_user a) (ac_device a) \<noteq> []"

text \<open>
  The turns a job starts with and the new MLS state. \<open>Inl True\<close> fails the job, \<open>Inl False\<close> leaves it as it is.
\<close>

definition job_turns ::
  "'s runtime \<Rightarrow> 'z core \<Rightarrow> ai_section \<Rightarrow> ai_chat_row \<Rightarrow> chat_row \<Rightarrow> message_row \<Rightarrow> bytes \<Rightarrow> bool + turn list \<times> bytes" where
  "job_turns R C st a c g resume =
     (if resume \<noteq> [] then
        (case rt_saved R resume of
           None \<Rightarrow> Inl False
         | Some ts \<Rightarrow> Inr (filter (\<lambda>t. tu_role t \<noteq> ''tool'' \<and> tu_calls t = []) ts, ac_state a))
      else case Open (prim C) (eng C) (g_payload g) (''message/'' @ g_id g) of
        Inl _ \<Rightarrow> Inl True
      | Inr wire \<Rightarrow>
          (case (if c_mode c \<noteq> ''e2ee'' then Some (wire, ac_state a)
              else case rt_open_mls R of
                None \<Rightarrow> None
              | Some open_mls \<Rightarrow> open_mls (ac_chat a) (ac_state a) wire (Binding (ac_chat a) (g_sender g) (g_device g) (g_operation g))) of
             None \<Rightarrow> Inl True
           | Some (plain, state) \<Rightarrow>
               (case Open (prim C) (eng C) (ac_context a) (context_aad (ac_chat a)) of
                  Inl _ \<Rightarrow> Inl True
                | Inr raw \<Rightarrow>
                    (case rt_turns R raw of
                       None \<Rightarrow> Inl True
                     | Some ts \<Rightarrow>
                         (let turns = aiBoundContext (ts @ [user_turn plain]) st in
                          if \<not> utf8_valid plain \<or> int (length (turns_json turns)) > ai_context st then Inl True
                          else Inr (turns, state))))))"

definition continuation_of :: "'s runtime \<Rightarrow> faults \<Rightarrow> 's \<Rightarrow> ident \<Rightarrow> string + bytes" where
  "continuation_of R f s job =
     (if \<not> feat_ai_policy (rt_features R) then Inr []
      else case rt_continuation R of None \<Rightarrow> Inr [] | Some saved \<Rightarrow> saved f s job)"

definition aiNext_claim ::
  "'w ai_db_scheme runtime \<Rightarrow> 'w ai_core \<Rightarrow> ident list \<Rightarrow> env \<Rightarrow> 'w ai_db_scheme \<Rightarrow> claim_result \<times> 'w ai_db_scheme" where
  "aiNext_claim R C active env s =
     (case ResolveBot (rt_blank R) (rt_settings R) [] of
        Inl _ \<Rightarrow> (Idle, s)
      | Inr (st, provider) \<Rightarrow>
          (case (if flt env 0 \<or> flt env 1 then None else query_row (queued_jobs s)) of
             None \<Rightarrow> (Idle, s)
           | Some (j, a, c, g) \<Rightarrow>
               (if j_id j \<in> set active then (Idle, s)
                else case continuation_of R (shift_faults 20 (flt env)) s (j_id j) of
                  Inl _ \<Rightarrow> (Idle, s)
                | Inr resume \<Rightarrow>
                    (if (provider \<noteq> [] \<and> ac_provider a \<noteq> provider) \<or> flt env 2 \<or> \<not> job_authorized s a g
                     then (Failed, fail_commit (flt env) 3 (j_id j) ''failed'' (now env) s)
                     else case job_turns R C st a c g resume of
                       Inl fails \<Rightarrow> (if fails then (Failed, fail_commit (flt env) 3 (j_id j) ''failed'' (now env) s) else (Idle, s))
                     | Inr (turns, state) \<Rightarrow>
                         (if flt env 6 \<or> flt env 7 \<or> flt env 8 then (Idle, s)
                          else (Claimed \<lparr>jc_job = j_id j, jc_chat = ac_chat a, jc_user = ac_user a, jc_device = ac_device a,
                              jc_provider = ac_provider a, jc_mode = c_mode c, jc_epoch = c_epoch c, jc_state = state, jc_turns = turns,
                              jc_tools = ac_tools a, jc_settings = st\<rparr>,
                            s\<lparr>ai_chats := update_rows (\<lambda>x. ac_chat x = ac_chat a) (\<lambda>x. x\<lparr>ac_state := state\<rparr>) (ai_chats s),
                              ai_jobs := set_jobs (\<lambda>x. j_id x = j_id j \<and> j_status x = ''queued'') ''running'' (now env) (ai_jobs s)\<rparr>))))))"

text \<open>The claim with the tools of the chat, which must still be configured.\<close>

definition aiNext_start ::
  "'w ai_db_scheme runtime \<Rightarrow> 'w ai_core \<Rightarrow> ident list \<Rightarrow> env \<Rightarrow> env \<Rightarrow> 'w ai_db_scheme \<Rightarrow> (job_context \<times> tool list) option \<times> 'w ai_db_scheme" where
  "aiNext_start R C active env env2 s =
     (case aiNext_claim R C active env s of
        (Claimed jc, s1) \<Rightarrow>
          (case aiAllowed R (jc_tools jc) of
             None \<Rightarrow> (None, aiFinishError (flt env2) (jc_job jc) ''failed'' (now env2) s1)
           | Some ts \<Rightarrow> (Some (jc, ts), s1))
      | (_, s1) \<Rightarrow> (None, s1))"

subsection \<open>Completing a job\<close>

definition ai_message :: "ident \<Rightarrow> ident \<Rightarrow> ident \<Rightarrow> ident \<Rightarrow> string \<Rightarrow> string \<Rightarrow> int \<Rightarrow> int \<Rightarrow> time \<Rightarrow> message" where
  "ai_message mid chat user device operation mode epoch seq t = empty_message\<lparr>msg_id := mid, msg_chat := chat, msg_sender := user,
     msg_device := device, msg_operation := operation, msg_seq := seq, msg_revision := 1, msg_mode := mode, msg_epoch := epoch,
     msg_created := t\<rparr>"

definition ai_message_row :: "message \<Rightarrow> bytes \<Rightarrow> message_row" where
  "ai_message_row m stored = \<lparr>g_id = msg_id m, g_chat = msg_chat m, g_sender = msg_sender m, g_device = msg_device m,
     g_operation = msg_operation m, g_seq = msg_seq m, g_revision = 1, g_deleted = False, g_payload = stored,
     g_metadata = empty_metadata, g_epoch = msg_epoch m, g_created = msg_created m\<rparr>"

text \<open>The message of an answer and its operation, in the transaction; statement \<open>n\<close> is the first of them.\<close>

definition insert_answer ::
  "'z core \<Rightarrow> env \<Rightarrow> nat \<Rightarrow> 'z db_scheme \<Rightarrow> message \<Rightarrow> bytes \<Rightarrow> bytes \<Rightarrow> 'z db_scheme option" where
  "insert_answer C env n s m stored payload =
     (case (if flt env n then None else insert_row g_id (ai_message_row m stored) (messages s)) of
        None \<Rightarrow> None
      | Some gs \<Rightarrow>
          (case (if flt env (Suc n) then None else insert_row o_key \<lparr>o_device = msg_device m, o_operation = msg_operation m,
               o_hash = digest C payload, o_result = SavedMessage m, o_created = msg_created m\<rparr> (operations s)) of
             None \<Rightarrow> None
           | Some os \<Rightarrow> Some (s\<lparr>messages := gs, operations := os\<rparr>)))"

text \<open>
  The payload and the MLS state an answer is stored with. \<open>Inl True\<close> fails the job, \<open>Inl False\<close> only returns.
\<close>

definition seal_answer ::
  "'w ai_db_scheme runtime \<Rightarrow> env \<Rightarrow> 'w ai_db_scheme \<Rightarrow> job_context \<Rightarrow> string \<Rightarrow> bool + bytes \<times> bytes" where
  "seal_answer R env s jc answer =
     (if jc_mode jc \<noteq> ''e2ee'' then Inr (answer, jc_state jc)
      else case rt_seal_mls R of
        None \<Rightarrow> Inl True
      | Some seal_mls \<Rightarrow>
          (case (if flt env 0 then None else get_row ac_chat (jc_chat jc) (ai_chats s)) of
             None \<Rightarrow> Inl False
           | Some a \<Rightarrow>
               (case seal_mls (jc_chat jc) (ac_state a) answer (Binding (jc_chat jc) (jc_user jc) (jc_device jc) (''ai-'' @ jc_job jc)) of
                  None \<Rightarrow> Inl True
                | Some sealed \<Rightarrow> Inr sealed)))"

definition next_context :: "'w ai_db_scheme runtime \<Rightarrow> 'w ai_db_scheme \<Rightarrow> ident \<Rightarrow> ai_section \<Rightarrow> turn list \<Rightarrow> string \<Rightarrow> turn list option" where
  "next_context R s job st turns answer =
     (let ts = aiBoundContext (turns @ [assistant_turn answer]) st in
      if feat_ai_storage (rt_features R) then (case rt_filter R of None \<Rightarrow> Some ts | Some keep \<Rightarrow> keep s job ts) else Some ts)"

definition final_ok :: "'w ai_db_scheme runtime \<Rightarrow> 'w ai_db_scheme \<Rightarrow> ident \<Rightarrow> bool" where
  "final_ok R s job \<longleftrightarrow> \<not> feat_ai_storage (rt_features R) \<or> (case rt_final R of None \<Rightarrow> True | Some valid \<Rightarrow> valid s job)"

definition same_task :: "task_identity \<Rightarrow> job_context \<Rightarrow> bool" where
  "same_task t jc \<longleftrightarrow> ti_chat t = jc_chat jc \<and> ti_user t = jc_user jc \<and> ti_device t = jc_device jc \<and> ti_epoch t = jc_epoch jc"

definition publish_answer ::
  "'w ai_core \<Rightarrow> env \<Rightarrow> 'w ai_db_scheme \<Rightarrow> job_context \<Rightarrow> bytes \<Rightarrow> bytes \<Rightarrow> bytes \<Rightarrow> effect list \<times> 'w ai_db_scheme" where
  "publish_answer C env s jc payload state raw =
     (let mid = uuid env; chat = jc_chat jc; t = now env in
      case Append C (shift_env 8 env) s chat ''message.created'' mid None of
        Inl _ \<Rightarrow> ([], s)
      | Inr (seq, s1) \<Rightarrow>
          (let m = ai_message mid chat (jc_user jc) (jc_device jc) (''ai-'' @ jc_job jc) (jc_mode jc) (jc_epoch jc) seq t in
           case insert_answer C env 10 s1 m (Seal (prim C) (eng C) (nonce env) payload (''message/'' @ mid)) payload of
             None \<Rightarrow> ([], s)
           | Some s2 \<Rightarrow>
               (if flt env 12 \<or> flt env 13 \<or> flt env 14 then ([], s)
                else ([Wake chat], s2\<lparr>
                  ai_chats := update_rows (\<lambda>a. ac_chat a = chat)
                    (\<lambda>a. a\<lparr>ac_context := Seal (prim C) (eng C) (draws env 0) raw (context_aad chat), ac_state := state\<rparr>) (ai_chats s2),
                  ai_jobs := update_rows (\<lambda>j. j_id j = jc_job jc)
                    (\<lambda>j. j\<lparr>j_status := ''succeeded'', j_result := mid, j_updated := t\<rparr>) (ai_jobs s2)\<rparr>))))"

definition aiComplete ::
  "'w ai_db_scheme runtime \<Rightarrow> 'w ai_core \<Rightarrow> env \<Rightarrow> env \<Rightarrow> 'w ai_db_scheme \<Rightarrow> job_context \<Rightarrow> string \<Rightarrow> effect list \<times> 'w ai_db_scheme" where
  "aiComplete R C env env2 s jc answer =
     (let give_up = ([], aiFinishError (flt env2) (jc_job jc) ''failed'' (now env2) s) in
      case seal_answer R env s jc answer of
        Inl fails \<Rightarrow> (if fails then give_up else ([], s))
      | Inr (payload, state) \<Rightarrow>
          (case next_context R s (jc_job jc) (jc_settings jc) (jc_turns jc) answer of
             None \<Rightarrow> ([], s)
           | Some turns \<Rightarrow>
               (if int (length (turns_json turns)) > ai_context (jc_settings jc) then give_up
                else if flt env 1 \<or> \<not> final_ok R s (jc_job jc) then ([], s)
                else case aiTaskLookup (shift_faults 2 (flt env)) s (jc_job jc) of
                  None \<Rightarrow> ([], s)
                | Some t \<Rightarrow>
                    (if ti_status t \<noteq> ''running'' then ([], s)
                     else if \<not> same_task t jc \<or> \<not> aiTaskAuthorized (flt env 4) s t
                     then ([], fail_commit (flt env) 5 (jc_job jc) ''failed'' (now env) s)
                     else publish_answer C env s jc payload state (turns_json turns)))))"

datatype conversation_end = Answer string | ApprovalPending | ConversationError

definition aiNext_finish ::
  "'w ai_db_scheme runtime \<Rightarrow> 'w ai_core \<Rightarrow> env \<Rightarrow> env \<Rightarrow> 'w ai_db_scheme \<Rightarrow> job_context \<Rightarrow> conversation_end \<Rightarrow>
    effect list \<times> 'w ai_db_scheme" where
  "aiNext_finish R C env env2 s jc result =
     (case result of
        ApprovalPending \<Rightarrow> ([], s)
      | ConversationError \<Rightarrow> ([], aiFinishError (flt env2) (jc_job jc) ''uncertain'' (now env2) s)
      | Answer answer \<Rightarrow>
          (if answer = [] \<or> int (length answer) > pol_max_message_bytes (cfg_policy (rt_settings R))
           then ([], aiFinishError (flt env2) (jc_job jc) ''failed'' (now env2) s)
           else aiComplete R C env env2 s jc answer))"

text \<open>One round of the worker; \<open>conversation\<close> is what happens between the two transactions.\<close>

definition aiNextWith ::
  "'w ai_db_scheme runtime \<Rightarrow> 'w ai_core \<Rightarrow> ident list \<Rightarrow> (job_context \<Rightarrow> tool list \<Rightarrow> 'w ai_db_scheme \<Rightarrow> conversation_end \<times> 'w ai_db_scheme) \<Rightarrow>
    env \<Rightarrow> env \<Rightarrow> 'w ai_db_scheme \<Rightarrow> effect list \<times> 'w ai_db_scheme" where
  "aiNextWith R C active conversation env env2 s =
     (case aiNext_start R C active env env2 s of
        (None, s1) \<Rightarrow> ([], s1)
      | (Some (jc, ts), s1) \<Rightarrow> (case conversation jc ts s1 of (result, s2) \<Rightarrow> aiNext_finish R C (shift_env 30 env) env2 s2 jc result))"

end
