(* ===== verification/Schema.thy ===== *)
theory Schema
  imports Effective
begin

text \<open>
  \<open>internal/modules/ai_schema.go\<close>: the arguments of a tool call against the schema of the tool. A JSON object
  is the list of its members; the loops over a map visit them in that order. \<open>integral\<close> says which numbers
  equal their truncation to 64 bits. The result is the error, if there is one.
\<close>

text \<open>\<open>json.Marshal\<close> sorts the names of a map.\<close>

fun value_json :: "json_value \<Rightarrow> string" where
  "value_json VNull = ''null''"
| "value_json (VBool b) = (if b then ''true'' else ''false'')"
| "value_json (VNumber t) = t"
| "value_json (VText t) = json_string t"
| "value_json (VArray vs) = json_array (map value_json vs)"
| "value_json (VObject ms) = json_object (map snd (sort_key fst (map (\<lambda>(n, v). (n, json_member n (value_json v))) ms)))"

definition schema_words :: "string list" where
  "schema_words = [''type'', ''properties'', ''required'', ''additionalProperties'', ''items'', ''enum'', ''description'', ''title'']"

fun first_some :: "'a option list \<Rightarrow> 'a option" where
  "first_some [] = None"
| "first_some (None # xs) = first_some xs"
| "first_some (Some x # xs) = Some x"

lemma first_some_None: "first_some xs = None \<longleftrightarrow> (\<forall>x \<in> set xs. x = None)"
  by (induction xs rule: first_some.induct) auto

definition schema_type :: "(string \<times> json_value) list \<Rightarrow> string" where
  "schema_type schema = (case map_of schema ''type'' of Some (VText t) \<Rightarrow> t | _ \<Rightarrow> [])"

definition required_error :: "(string \<times> json_value) list \<Rightarrow> string list \<Rightarrow> string option" where
  "required_error schema names =
     (case map_of schema ''required'' of
        None \<Rightarrow> None
      | Some (VArray vs) \<Rightarrow> first_some (map (\<lambda>v. case v of
            VText n \<Rightarrow> if n \<in> set names then None else Some ''required tool argument missing''
          | _ \<Rightarrow> Some ''invalid required schema'') vs)
      | Some _ \<Rightarrow> Some ''invalid required schema'')"

definition properties_of :: "(string \<times> json_value) list \<Rightarrow> (string \<times> json_value) list" where
  "properties_of schema = (case map_of schema ''properties'' of Some (VObject ps) \<Rightarrow> ps | _ \<Rightarrow> [])"

definition enum_error :: "(string \<times> json_value) list \<Rightarrow> json_value \<Rightarrow> string option" where
  "enum_error schema v =
     (case map_of schema ''enum'' of
        None \<Rightarrow> None
      | Some (VArray vs) \<Rightarrow> (if value_json v \<in> set (map value_json vs) then None else Some ''tool argument outside enum'')
      | Some _ \<Rightarrow> Some ''invalid enum schema'')"

definition scalar_error :: "(string \<Rightarrow> bool) \<Rightarrow> string \<Rightarrow> json_value \<Rightarrow> string option" where
  "scalar_error integral t v =
     (if t \<notin> {''string'', ''number'', ''integer'', ''boolean'', ''null''} then Some ''tool schema requires a supported type''
      else if (case v of
          VText _ \<Rightarrow> t = ''string'' | VNumber n \<Rightarrow> t = ''number'' \<or> (t = ''integer'' \<and> integral n)
        | VBool _ \<Rightarrow> t = ''boolean'' | VNull \<Rightarrow> t = ''null'' | _ \<Rightarrow> False) then None
      else Some ''tool argument type mismatch'')"

function aiCheckSchema :: "(string \<Rightarrow> bool) \<Rightarrow> (string \<times> json_value) list \<Rightarrow> json_value \<Rightarrow> nat \<Rightarrow> string option" where
  "aiCheckSchema integral schema v depth =
     (if depth > 8 then Some ''tool schema depth exceeded''
      else if list_ex (\<lambda>(k, _). k \<notin> set schema_words) schema then Some ''unsupported tool schema constraint''
      else let t = schema_type schema;
          e = (if t = ''object'' then
                 (case v of
                    VObject ms \<Rightarrow> first_some (required_error schema (map fst ms)
                      # map (\<lambda>(n, w). case map_of (properties_of schema) n of
                          None \<Rightarrow> if map_of schema ''additionalProperties'' = Some (VBool True) then None else Some ''unknown tool argument''
                        | Some (VObject child) \<Rightarrow> aiCheckSchema integral child w (Suc depth)
                        | Some _ \<Rightarrow> Some ''invalid property schema'') ms)
                  | _ \<Rightarrow> Some ''tool argument type mismatch'')
               else if t = ''array'' then
                 (case v of
                    VArray vs \<Rightarrow>
                      (if length vs > 1024 then Some ''invalid tool array''
                       else case map_of schema ''items'' of
                         Some (VObject items) \<Rightarrow> first_some (map (\<lambda>w. aiCheckSchema integral items w (Suc depth)) vs)
                       | _ \<Rightarrow> Some ''array items schema required'')
                  | _ \<Rightarrow> Some ''invalid tool array'')
               else scalar_error integral t v) in
        if e \<noteq> None then e else enum_error schema v)"
  by pat_completeness auto

termination
  by (relation "measure (\<lambda>(integral, schema, v, depth). 9 - depth)") auto

declare aiCheckSchema.simps [simp del]

definition aiCheckArguments :: "(string \<Rightarrow> bool) \<Rightarrow> (string \<times> json_value) list option \<Rightarrow> json_value option \<Rightarrow> string option" where
  "aiCheckArguments integral schema parsed =
     (case parsed of
        None \<Rightarrow> Some ''invalid tool arguments''
      | Some (VObject ms) \<Rightarrow>
          (case schema of
             None \<Rightarrow> (if ms \<noteq> [] then Some ''schema required for tool arguments'' else None)
           | Some sc \<Rightarrow> aiCheckSchema integral sc (VObject ms) 0)
      | Some _ \<Rightarrow> Some ''tool arguments must be an object'')"

end
