(* ===== verification/Conversation.thy ===== *)
theory Conversation
  imports Jobs Schema
begin

text \<open>
  The conversation of a job with its model provider (\<open>aiConversationWith\<close>, \<open>ai.go\<close>) when no policy is in force, with the limits of \<open>ai_network.go\<close>.
  The provider and the tools are functions that may change the store: whatever
  else runs while an external call is under way is part of them. The list of the external calls, each with the
  store it was made in, is returned beside the answer.
\<close>

record answer =
  an_text :: string
  an_calls :: "call list"

record 's externals =
  ex_provider :: "('s \<Rightarrow> turn list \<Rightarrow> answer option \<times> 's) option"
  ex_tool :: "tool \<Rightarrow> bytes \<Rightarrow> 's \<Rightarrow> string option \<times> 's"
  ex_json :: "bytes \<Rightarrow> json_value option"
  ex_integral :: "string \<Rightarrow> bool"
  ex_policy_active :: bool

datatype 's external_call = AskProvider 's "turn list" | RunTool 's tool call

subsection \<open>Limits\<close>

record request_limits =
  rl_timeout :: int      \<comment> \<open>seconds\<close>
  rl_response :: int

definition tighter :: "int \<Rightarrow> int \<Rightarrow> int" where
  "tighter n m = (if n > 0 \<and> n < m then n else m)"

definition aiLimits :: "ai_section \<Rightarrow> request_limits" where
  "aiLimits a = \<lparr>rl_timeout = tighter (ai_timeout a) 45, rl_response = tighter (ai_response a) (2 ^ 20)\<rparr>"

definition tool_limits :: "request_limits \<Rightarrow> tool \<Rightarrow> request_limits" where
  "tool_limits l t = \<lparr>rl_timeout = tighter (tl_timeout t) (rl_timeout l), rl_response = tighter (tl_response t) (rl_response l)\<rparr>"

definition within :: "request_limits \<Rightarrow> request_limits \<Rightarrow> bool" where
  "within l m \<longleftrightarrow> rl_timeout l \<le> rl_timeout m \<and> rl_response l \<le> rl_response m"

lemma limits_within:
  "within (tool_limits l t) l" "within (aiLimits a) \<lparr>rl_timeout = 45, rl_response = 2 ^ 20\<rparr>"
  by (simp_all add: within_def tool_limits_def aiLimits_def tighter_def)

subsection \<open>Tools\<close>

definition current_tools :: "'w ai_db_scheme \<Rightarrow> ident \<Rightarrow> string list option" where
  "current_tools s job = query_row
     ([ac_tools a. a \<leftarrow> ai_chats s, j \<leftarrow> ai_jobs s, j_chat_id j = ac_chat a \<and> j_id j = job]
      @ [as_tools n. n \<leftarrow> ai_sessions s, t \<leftarrow> ai_tasks s, at_chat t = as_chat n \<and> at_agent t = as_agent n \<and> at_id t = job])"

definition aiAuthorizedTool ::
  "'s runtime \<Rightarrow> 'e externals \<Rightarrow> faults \<Rightarrow> 'w ai_db_scheme \<Rightarrow> ident \<Rightarrow> call \<Rightarrow> tool list \<Rightarrow> string + tool" where
  "aiAuthorizedTool R X f s job call tools =
     (case find (\<lambda>t. tl_name t = ca_name call) tools of
        None \<Rightarrow> Inl ''tool permission denied''
      | Some t \<Rightarrow>
          (if \<not> rt_tool R (tl_kind t) then Inl ''tool permission denied''
           else if length (ca_arguments call) > 65536 then Inl ''tool arguments too large''
           else if \<not> aiEffectsAllowed f s job then Inl ''AI job access revoked''
           else case (if f 4 then None else current_tools s job) of
             None \<Rightarrow> Inl ''tool permission unavailable''
           | Some names \<Rightarrow>
               (if ca_name call \<notin> set names then Inl ''tool permission revoked''
                else case aiCheckArguments (ex_integral X) (tl_schema t) (ex_json X (ca_arguments call)) of
                  Some e \<Rightarrow> Inl e
                | None \<Rightarrow> Inr t)))"

definition aiAudit :: "bool \<Rightarrow> ident \<Rightarrow> string \<Rightarrow> string \<Rightarrow> string \<Rightarrow> time \<Rightarrow> 'w ai_db_scheme \<Rightarrow> 'w ai_db_scheme" where
  "aiAudit fail job action toolname outcome t s = (if fail then s else audit job action toolname outcome t s)"

text \<open>The outcome is logged also when the response was too large.\<close>

definition aiExecuteTool ::
  "'s runtime \<Rightarrow> 'w ai_db_scheme externals \<Rightarrow> request_limits \<Rightarrow> bool \<Rightarrow> time \<Rightarrow> ident \<Rightarrow> tool \<Rightarrow> call \<Rightarrow> 'w ai_db_scheme \<Rightarrow>
    string option \<times> 'w ai_db_scheme" where
  "aiExecuteTool R X l fail t job tl0 call s =
     (if feat_ai_policy (rt_features R) \<and> \<not> ex_policy_active X then (None, s)
      else case ex_tool X tl0 (ca_arguments call) s of (result, s1) \<Rightarrow>
        (let kept = (case result of None \<Rightarrow> None
             | Some r \<Rightarrow> if int (length r) > min 65536 (rl_response (tool_limits l tl0)) then None else Some r) in
         (kept, aiAudit fail job ''tool'' (tl_name tl0) (if kept = None then ''uncertain'' else ''succeeded'') t s1)))"

definition tool_turn :: "call \<Rightarrow> string \<Rightarrow> turn" where
  "tool_turn call result = \<lparr>tu_role = ''tool'', tu_content = result, tu_calls = [], tu_tool_call = ca_id call\<rparr>"

text \<open>The calls of one answer in order; \<open>Inl\<close> is an error that ends the conversation.\<close>

fun run_calls ::
  "'s runtime \<Rightarrow> 'w ai_db_scheme externals \<Rightarrow> ai_section \<Rightarrow> (nat \<Rightarrow> faults) \<Rightarrow> time \<Rightarrow> ident \<Rightarrow> tool list \<Rightarrow> nat \<Rightarrow> call list \<Rightarrow> turn list \<Rightarrow>
    'w ai_db_scheme \<Rightarrow> 'w ai_db_scheme external_call list \<Rightarrow>
    (string + turn list) \<times> 'w ai_db_scheme \<times> 'w ai_db_scheme external_call list" where
  "run_calls R X st fs t job tools n [] turns s tr = (Inr turns, s, tr)"
| "run_calls R X st fs t job tools n (c # cs) turns s tr =
     (case aiAuthorizedTool R X (fs n) s job c tools of
        Inl e \<Rightarrow> (Inl e, s, tr)
      | Inr tl0 \<Rightarrow>
          (case aiExecuteTool R X (aiLimits st) (fs n 5) t job tl0 c s of
             (None, s1) \<Rightarrow> (Inl ''tool failed'', s1, tr @ [RunTool s tl0 c])
           | (Some r, s1) \<Rightarrow> run_calls R X st fs t job tools (Suc n) cs (turns @ [tool_turn c r]) s1 (tr @ [RunTool s tl0 c])))"

subsection \<open>The conversation\<close>

text \<open>At most \<open>steps\<close> more questions to the provider; \<open>n\<close> numbers the storage statements' groups.\<close>

fun converse ::
  "'s runtime \<Rightarrow> 'w ai_db_scheme externals \<Rightarrow> ai_section \<Rightarrow> (nat \<Rightarrow> faults) \<Rightarrow> time \<Rightarrow> ident \<Rightarrow> tool list \<Rightarrow>
    ('w ai_db_scheme \<Rightarrow> turn list \<Rightarrow> answer option \<times> 'w ai_db_scheme) \<Rightarrow> nat \<Rightarrow> nat \<Rightarrow> turn list \<Rightarrow>
    'w ai_db_scheme \<Rightarrow> 'w ai_db_scheme external_call list \<Rightarrow>
    (string + string) \<times> 'w ai_db_scheme \<times> 'w ai_db_scheme external_call list" where
  "converse R X st fs t job tools ask 0 n turns s tr = (Inl ''AI step limit reached'', s, tr)"
| "converse R X st fs t job tools ask (Suc steps) n turns s tr =
     (if \<not> aiEffectsAllowed (fs n) s job then (Inl ''AI job access revoked'', s, tr)
      else case ask s turns of
        (None, s1) \<Rightarrow> (Inl ''provider failed'', aiAudit (fs n 5) job ''provider'' [] ''uncertain'' t s1, tr @ [AskProvider s turns])
      | (Some a, s1) \<Rightarrow>
          (let s2 = aiAudit (fs n 5) job ''provider'' [] ''succeeded'' t s1; tr2 = tr @ [AskProvider s turns] in
           if an_calls a = [] then (Inr (an_text a), s2, tr2)
           else if length (an_calls a) > 8 then (Inl ''too many tool calls'', s2, tr2)
           else case run_calls R X st fs t job tools (Suc n) (an_calls a)
               (turns @ [(assistant_turn (an_text a))\<lparr>tu_calls := an_calls a\<rparr>]) s2 tr2 of
             (Inl e, s3, tr3) \<Rightarrow> (Inl e, s3, tr3)
           | (Inr turns3, s3, tr3) \<Rightarrow>
               (if int (length (turns_json turns3)) > ai_context st \<or> int (length turns3) > ai_turns st
                then (Inl ''AI context exhausted'', s3, tr3)
                else converse R X st fs t job tools ask steps (Suc n + length (an_calls a)) turns3 s3 tr3)))"

text \<open>Without the policy (\<open>AIPolicy\<close> off): the part of \<open>aiConversationWith\<close> after that branch, which is in \<open>Dialogue\<close>.\<close>

definition directConversation ::
  "'s runtime \<Rightarrow> 'w ai_db_scheme externals \<Rightarrow> ai_section \<Rightarrow> (nat \<Rightarrow> faults) \<Rightarrow> time \<Rightarrow> ident \<Rightarrow> turn list \<Rightarrow> tool list \<Rightarrow>
    'w ai_db_scheme \<Rightarrow> (string + string) \<times> 'w ai_db_scheme \<times> 'w ai_db_scheme external_call list" where
  "directConversation R X st fs t job turns tools s =
     (let ts = aiBoundContext turns st in
      if int (length (turns_json ts)) > ai_context st then (Inl ''AI context exhausted'', s, [])
      else case ex_provider X of
        None \<Rightarrow> (Inl ''provider unavailable'', s, [])
      | Some ask \<Rightarrow> converse R X st fs t job tools ask (nat (ai_steps st)) 0 ts s [])"

end
