(* ===== verification/Agents.thy ===== *)
theory Agents
  imports Jobs
begin

text \<open>
  \<open>internal/modules/ai_participants.go\<close>: named AI agents, their sessions in chats and the tasks that messages queue for
  them. The worker's steps are functions of their own, because other requests run between them.
\<close>

subsection \<open>Names and tools\<close>

definition validAINamedID :: "string \<Rightarrow> bool" where
  "validAINamedID v \<longleftrightarrow> \<not> (length v = 0 \<or> length v > 128) \<and> list_all id_char v"

definition aiNamedAllowedForNames :: "'s runtime \<Rightarrow> string list \<Rightarrow> string list \<Rightarrow> tool list option" where
  "aiNamedAllowedForNames R names configured =
     (if list_ex (\<lambda>n. n \<notin> set configured) names then None else aiAllowed R names)"

definition aiNamedAllowedForSettings :: "'s runtime \<Rightarrow> ai_section \<Rightarrow> string list \<Rightarrow> tool list option" where
  "aiNamedAllowedForSettings R st names = aiNamedAllowedForNames R names (map tl_name (ai_tool_list st))"

fun current_from :: "'s runtime \<Rightarrow> string list \<Rightarrow> string list \<Rightarrow> string list \<Rightarrow> tool list \<Rightarrow> tool list" where
  "current_from R session agent seen [] = []"
| "current_from R session agent seen (t # ts) =
     (if tl_name t \<notin> set session \<or> tl_name t \<notin> set agent \<or> tl_name t \<in> set seen \<or> \<not> rt_tool R (tl_kind t)
      then current_from R session agent seen ts
      else t # current_from R session agent (tl_name t # seen) ts)"

text \<open>What the session grants, the agent was created with and the bot still has.\<close>

definition aiNamedToolsCurrent :: "'s runtime \<Rightarrow> ai_section \<Rightarrow> string list \<Rightarrow> string list \<Rightarrow> tool list option" where
  "aiNamedToolsCurrent R st session agent =
     (let ts = current_from R session agent [] (ai_tool_list st) in
      if length ts \<noteq> length (remdups session) then None else Some ts)"

subsection \<open>Installation and deletion\<close>

definition task_states :: "string list" where
  "task_states = [''queued'', ''running'', ''succeeded'', ''failed'', ''uncertain'', ''cancelled'', ''awaiting_approval'']"

definition set_tasks :: "(task_row \<Rightarrow> bool) \<Rightarrow> string \<Rightarrow> time \<Rightarrow> task_row list \<Rightarrow> task_row list" where
  "set_tasks p status' t = update_rows p (\<lambda>x. x\<lparr>at_status := status', at_updated := t\<rparr>)"

text \<open>The schema with its version and what a restart does to the tasks that were running.\<close>

definition installAINamed :: "env \<Rightarrow> 'w ai_db_scheme \<Rightarrow> bool \<times> 'w ai_db_scheme" where
  "installAINamed env s =
     (if flt env 0 \<or> flt env 1 \<or> flt env 2 \<or> flt env 3 \<or> max_version (named_versions s) > 1 then (False, s)
      else let old = max_version (named_versions s) < 1 in
        if (old \<and> flt env 4) \<or> flt env 5 then (False, s)
        else let s1 = (if old then s\<lparr>named_versions := named_versions s @ [1]\<rparr> else s) in
          if flt env 6 then (False, s1)
          else (True, s1\<lparr>ai_tasks := set_tasks (\<lambda>t. at_status t = ''running'') ''uncertain'' (now env) (ai_tasks s1)\<rparr>))"

text \<open>The contexts of the sessions of a chat are emptied, each under a fresh nonce and the next version.\<close>

fun clear_sessions :: "'w ai_core \<Rightarrow> env \<Rightarrow> ident \<Rightarrow> nat \<Rightarrow> session_row list \<Rightarrow> session_row list" where
  "clear_sessions C env chat k [] = []"
| "clear_sessions C env chat k (a # xs) =
     (if as_chat a = chat
      then a\<lparr>as_context := Seal (prim C) (eng C) (draws env k) ''[]'' (session_aad chat (as_agent a) (as_version a + 1)),
          as_version := as_version a + 1, as_updated := now env\<rparr> # clear_sessions C env chat (Suc k) xs
      else a # clear_sessions C env chat k xs)"

definition named_delete_hook :: "'w ai_core \<Rightarrow> env \<Rightarrow> 'w ai_db_scheme \<Rightarrow> ident \<Rightarrow> go_error + 'w ai_db_scheme" where
  "named_delete_hook C env s mid =
     (if flt env 0 then Inl (OtherError ''storage'')
      else case get_row g_id mid (messages s) of
        None \<Rightarrow> Inr s
      | Some g \<Rightarrow>
          (let chat = g_chat g; n = count_rows (\<lambda>a. as_chat a = chat) (ai_sessions s) in
           if flt env 1 \<or> list_ex (\<lambda>k. flt env (2 + k)) [0..<n] \<or> flt env (2 + n) then Inl (OtherError ''storage'')
           else Inr (s\<lparr>ai_sessions := clear_sessions C env chat 0 (ai_sessions s),
             ai_tasks := set_tasks (\<lambda>t. at_chat t = chat \<and> at_status t \<in> set active_states) ''cancelled'' (now env) (ai_tasks s)\<rparr>)))"

subsection \<open>Agents\<close>

record agent_input =
  ai_bot_name :: string
  ai_user :: string
  ai_names :: "string list option"

definition agent_key_aad :: "ident \<Rightarrow> string \<Rightarrow> bytes" where
  "agent_key_aad agent part = ''ai/agent/'' @ agent @ ''/'' @ part"

text \<open>
  A new user, its device and the agent. \<open>draws\<close> supplies both private keys, the identifier of the device and the
  nonces. The reply: agent, bot, device, provider, tools.
\<close>

definition aiCreateNamedAgent ::
  "'w ai_db_scheme runtime \<Rightarrow> 'w ai_core \<Rightarrow> env \<Rightarrow> 'w ai_db_scheme \<Rightarrow> agent_input body \<Rightarrow>
    (ident \<times> string \<times> ident \<times> string \<times> string list, 'w ai_db_scheme) outcome" where
  "aiCreateNamedAgent R C env s b =
     (case Decode b of
        Inl m \<Rightarrow> Error 400 m s
      | Inr inp \<Rightarrow>
          (if \<not> validAINamedID (ai_bot_name inp) then Error 400 ''valid bot_name required'' s
           else case ResolveBot (rt_blank R) (rt_settings R) (ai_bot_name inp) of
             Inl _ \<Rightarrow> Error 400 ''AI bot is not configured'' s
           | Inr (st, provider) \<Rightarrow>
               (let names = (case ai_names inp of None \<Rightarrow> map tl_name (ai_tool_list st) | Some ns \<Rightarrow> ns) in
                if \<not> rt_provider R provider then Error 400 ''AI bot is not configured'' s
                else if aiNamedAllowedForSettings R st names = None then Error 400 ''invalid tool allowlist'' s
                else if ai_user inp \<noteq> [] \<and> \<not> validAINamedID (ai_user inp) then Error 400 ''invalid user_id'' s
                else if length (rt_profile R st) > 65536 then Error 500 ''AI profile serialization failed'' s
                else let agent = (if ai_user inp \<noteq> [] then ai_user inp else ''ai-'' @ uuid env);
                         device = ''ai-device-'' @ draws env 2;
                         seal = (\<lambda>k plain part. Seal (prim C) (eng C) (draws env k) plain (agent_key_aad agent part)) in
                  if flt env 0 then Error 503 ''storage unavailable'' s
                  else case (if flt env 1 then None else insert_row u_id \<lparr>u_id = agent, u_disabled = False\<rparr> (users s)) of
                    None \<Rightarrow> Error 409 ''AI agent already exists or identity unavailable'' s
                  | Some us \<Rightarrow>
                  (case (if flt env 2 then None else insert_row d_id \<lparr>d_id = device, d_user = agent,
                        d_public_key = b64_encode (rt_x25519 R (draws env 0)),
                        d_signing_key = b64_encode (rt_ed25519 R (draws env 1)), d_revoked = False\<rparr> (devices s)) of
                    None \<Rightarrow> Error 409 ''AI agent already exists or identity unavailable'' s
                  | Some ds \<Rightarrow>
                      (if flt env 3 \<or> list_ex (\<lambda>a. ag_id a = agent \<or> ag_bot a = ai_bot_name inp \<or> ag_user a = agent \<or> ag_device a = device)
                           (ai_agents s)
                       then Error 409 ''AI agent already exists or identity unavailable'' s
                       else if flt env 4 then Error 503 ''storage unavailable'' s
                       else (Reply 201 (agent, ai_bot_name inp, device, provider, names), [],
                         s\<lparr>users := us, devices := ds, ai_agents := ai_agents s @ [\<lparr>ag_id = agent, ag_bot = ai_bot_name inp,
                           ag_user = agent, ag_device = device, ag_provider = provider,
                           ag_profile = seal 5 (rt_profile R st) ''profile/1'', ag_tools = names, ag_version = 1,
                           ag_private = seal 3 (draws env 0) ''private'', ag_signing = seal 4 (draws env 1) ''signing'',
                           ag_disabled = False, ag_revoked = False, ag_created = now env, ag_updated = now env\<rparr>]\<rparr>))))))"

subsection \<open>Sessions\<close>

definition attach_session :: "session_row \<Rightarrow> session_row list \<Rightarrow> session_row list" where
  "attach_session = upsert_row as_key (\<lambda>new old. old\<lparr>as_tools := as_tools new, as_updated := as_updated new\<rparr>)"

definition attach_member :: "member_row \<Rightarrow> member_row list \<Rightarrow> member_row list" where
  "attach_member = upsert_row m_key (\<lambda>new old. old\<lparr>m_active := True, m_can_send := True, m_joined := m_joined new\<rparr>)"

text \<open>A member that is active keeps the point it joined at; others join at the end, or at the start when the history is open.\<close>

definition attach_joined :: "'z db_scheme \<Rightarrow> bool \<Rightarrow> string \<Rightarrow> chat_row \<Rightarrow> ident \<Rightarrow> int" where
  "attach_joined s fail pol c user =
     (case (if fail then None else get_row m_key (c_id c, user) (members s)) of
        Some m \<Rightarrow> (if m_active m then m_joined m else if pol = ''all'' then 1 else c_seq c + 1)
      | None \<Rightarrow> (if pol = ''all'' then 1 else c_seq c + 1))"

definition attached_data :: "ident \<Rightarrow> string" where
  "attached_data agent = json_object [json_member ''agent_id'' (json_string agent)]"

definition aiAttachNamedAgent ::
  "'w ai_db_scheme runtime \<Rightarrow> 'w ai_core \<Rightarrow> env \<Rightarrow> 'w ai_db_scheme \<Rightarrow> string list option body \<Rightarrow> ident \<Rightarrow> ident \<Rightarrow>
    (ident \<times> ident \<times> int \<times> string list, 'w ai_db_scheme) outcome" where
  "aiAttachNamedAgent R C env s b chat agent =
     (case Decode b of
        Inl m \<Rightarrow> Error 400 m s
      | Inr tools0 \<Rightarrow>
          (if flt env 0 then Error 503 ''storage unavailable'' s
           else case (if flt env 1 then None else query_row [(c, a). c \<leftarrow> chats s, c_id c = chat,
                a \<leftarrow> ai_agents s, ag_id a = agent \<and> \<not> ag_disabled a \<and> \<not> ag_revoked a]) of
             None \<Rightarrow> Error 404 ''AI agent or chat not found'' s
           | Some (c, a) \<Rightarrow>
               (let already = (\<not> flt env 3 \<and> (case get_row m_key (chat, ag_user a) (members s) of None \<Rightarrow> False | Some m \<Rightarrow> m_active m));
                    names = (case tools0 of None \<Rightarrow> ag_tools a | Some ns \<Rightarrow> ns) in
                if c_mode c \<noteq> ''basic'' then Error 400 ''named AI requires a BASIC chat'' s
                else if c_kind c = ''direct'' \<and> flt env 2 then Error 503 ''storage unavailable'' s
                else if c_kind c = ''direct'' \<and> count_rows (\<lambda>m. m_chat m = chat \<and> m_active m) (members s) \<ge> 2 \<and> \<not> already
                then Error 400 ''direct chat membership is full'' s
                else if flt env 4 \<or> [(). u \<leftarrow> users s, u_id u = ag_user a \<and> \<not> u_disabled u,
                     d \<leftarrow> devices s, d_id d = ag_device a \<and> d_user d = u_id u \<and> \<not> d_revoked d] = []
                then Error 409 ''AI identity unavailable'' s
                else if aiNamedAllowedForNames R names (ag_tools a) = None then Error 400 ''invalid tool allowlist'' s
                else if flt env 6 then Error 409 ''AI membership unavailable'' s
                else if flt env 7 then Error 409 ''AI agent already attached or session unavailable'' s
                else let s1 = s\<lparr>members := attach_member \<lparr>m_chat = chat, m_user = ag_user a, m_role = ''member'', m_can_send = True,
                         m_joined = attach_joined s (flt env 5) (pol_history (cfg_policy (rt_settings R))) c (ag_user a),
                         m_active = True\<rparr> (members s),
                       ai_sessions := attach_session \<lparr>as_chat = chat, as_agent = agent,
                         as_context = Seal (prim C) (eng C) (draws env 0) ''[]'' (session_aad chat agent 1), as_tools = names,
                         as_version = 1, as_state = [], as_created = now env, as_updated = now env\<rparr> (ai_sessions s)\<rparr> in
                  case (if flt env 8 then None else get_row as_key (chat, agent) (ai_sessions s1)) of
                    None \<Rightarrow> Error 503 ''AI session unavailable'' s
                  | Some n \<Rightarrow>
                      (case Append C (shift_env 9 env) s1 chat ''ai.agent.attached'' [] (Some (attached_data agent)) of
                         Inl _ \<Rightarrow> Error 503 ''AI attachment persistence failed'' s
                       | Inr (seq, s2) \<Rightarrow>
                           (if flt env 11 then Error 503 ''AI attachment persistence failed'' s
                            else (Reply 201 (ag_user a, ag_device a, as_version n, names), [Wake chat], s2))))))"

end
