(* ===== verification/Tasks.thy ===== *)
theory Tasks
  imports Agents
begin

text \<open>
  The tasks of named agents (\<open>ai_participants.go\<close>): a message queues a task for each agent it names; the worker
  claims the oldest one whose session is free, and publishes its answer.
\<close>

subsection \<open>Who may act\<close>

text \<open>The sender of a message, and an agent's user; \<open>own\<close>: the query also asks whose device it is.\<close>

definition source_acts :: "'z db_scheme \<Rightarrow> message_row \<Rightarrow> bool" where
  "source_acts s g \<longleftrightarrow> \<not> g_deleted g \<and> [(). m \<leftarrow> members s, m_chat m = g_chat g \<and> m_user m = g_sender g \<and> m_active m \<and> m_can_send m
       \<and> g_seq g \<ge> m_joined m,
     u \<leftarrow> users s, u_id u = m_user m \<and> \<not> u_disabled u,
     d \<leftarrow> devices s, d_id d = g_device g \<and> d_user d = u_id u \<and> \<not> d_revoked d] \<noteq> []"

definition agent_acts :: "'z db_scheme \<Rightarrow> bool \<Rightarrow> ident \<Rightarrow> ident \<Rightarrow> ident \<Rightarrow> bool" where
  "agent_acts s own chat user device \<longleftrightarrow> [(). m \<leftarrow> members s, m_chat m = chat \<and> m_user m = user \<and> m_active m \<and> m_can_send m,
     u \<leftarrow> users s, u_id u = user \<and> \<not> u_disabled u,
     d \<leftarrow> devices s, d_id d = device \<and> (own \<longrightarrow> d_user d = u_id u) \<and> \<not> d_revoked d] \<noteq> []"

definition basic_chat :: "chat_row \<Rightarrow> bool" where
  "basic_chat c \<longleftrightarrow> c_mode c = ''basic'' \<and> \<not> c_pending c"

subsection \<open>Queueing\<close>

record queue_input =
  qi_message :: string
  qi_agents :: "string list"

definition owns_message :: "'z db_scheme \<Rightarrow> identity \<Rightarrow> ident \<Rightarrow> message_row \<Rightarrow> bool" where
  "owns_message s who chat g \<longleftrightarrow> [(). m \<leftarrow> members s, m_chat m = chat \<and> m_user m = user_id who \<and> m_active m \<and> m_can_send m
       \<and> m_joined m \<le> g_seq g,
     d \<leftarrow> devices s, d_user d = m_user m \<and> d_id d = device_id who \<and> \<not> d_revoked d,
     u \<leftarrow> users s, u_id u = m_user m \<and> \<not> u_disabled u] \<noteq> [] \<and> g_sender g = user_id who \<and> g_device g = device_id who"

definition agent_ready :: "'w ai_db_scheme \<Rightarrow> ident \<Rightarrow> ident \<Rightarrow> bool" where
  "agent_ready s chat agent \<longleftrightarrow> [(). n \<leftarrow> ai_sessions s, as_chat n = chat \<and> as_agent n = agent,
     a \<leftarrow> ai_agents s, ag_id a = agent \<and> \<not> ag_disabled a \<and> \<not> ag_revoked a \<and> agent_acts s False chat (ag_user a) (ag_device a)] \<noteq> []"

definition active_tasks :: "ident \<Rightarrow> ident \<Rightarrow> task_row list \<Rightarrow> nat" where
  "active_tasks chat agent ts = count_rows (\<lambda>t. at_chat t = chat \<and> at_agent t = agent \<and> at_status t \<in> set active_states) ts"

definition all_active :: "task_row list \<Rightarrow> nat" where
  "all_active ts = count_rows (\<lambda>t. at_status t \<in> set active_states) ts"

definition global_limit :: "'s runtime \<Rightarrow> int" where
  "global_limit R = max 64 (cap_workers (cfg_capacity (rt_settings R)) * 64)"

text \<open>
  The loop over the agents, \<open>i\<close> counts them: the identifiers of all tasks, the agents with a new one, the table. The count of
  the session is taken before the insertion, the one over all sessions after it.
\<close>

fun queue_agents ::
  "'s runtime \<Rightarrow> env \<Rightarrow> nat \<Rightarrow> ident \<Rightarrow> ident \<Rightarrow> nat \<Rightarrow> ident list \<Rightarrow> task_row list \<Rightarrow>
    (nat \<times> string) + ident list \<times> ident list \<times> task_row list" where
  "queue_agents R env n chat mid i [] ts = Inr ([], [], ts)"
| "queue_agents R env n chat mid i (agent # as) ts =
     (let present = get_row at_key (mid, agent) ts;
          added = (if present = None then [agent] else []);
          new = \<lparr>at_id = draws env i, at_chat = chat, at_agent = agent, at_message = mid, at_status = ''queued'', at_result = [],
            at_created = now env, at_updated = now env\<rparr> in
      if flt env n then Inl (503, ''AI task storage unavailable'')
      else if flt env (n + 1) then Inl (503, ''AI task persistence failed'')
      else case (if present = None then insert_row at_id new ts else Some ts) of
        None \<Rightarrow> Inl (503, ''AI task persistence failed'')
      | Some ts1 \<Rightarrow>
          (if present = None \<and> active_tasks chat agent ts \<ge> 64 then Inl (429, ''AI session queue full'')
           else if present = None \<and> flt env (n + 2) then Inl (503, ''AI task storage unavailable'')
           else if present = None \<and> int (all_active ts1) \<ge> global_limit R then Inl (429, ''AI task queue full'')
           else case (if flt env (n + 3) then None else get_row at_key (mid, agent) ts1) of
             None \<Rightarrow> Inl (503, ''AI task persistence failed'')
           | Some t \<Rightarrow>
               (case queue_agents R env (n + 4) chat mid (Suc i) as ts1 of
                  Inl e \<Rightarrow> Inl e
                | Inr (ids, inserted, ts2) \<Rightarrow> Inr (at_id t # ids, added @ inserted, ts2))))"

definition queued_data :: "ident list \<Rightarrow> ident \<Rightarrow> string" where
  "queued_data agents mid = json_object [json_member ''agents'' (json_array (map json_string agents)),
     json_member ''source_message_id'' (json_string mid)]"

definition aiQueueNamedTasks ::
  "'w ai_db_scheme runtime \<Rightarrow> 'w ai_core \<Rightarrow> env \<Rightarrow> 'w ai_db_scheme \<Rightarrow> queue_input body \<Rightarrow> identity \<Rightarrow> ident \<Rightarrow>
    (ident list, 'w ai_db_scheme) outcome" where
  "aiQueueNamedTasks R C env s b who chat =
     (case Decode b of
        Inl m \<Rightarrow> Error 400 m s
      | Inr inp \<Rightarrow>
          (let mid = qi_message inp; as = qi_agents inp; k = length as in
           if \<not> validAINamedID mid \<or> k = 0 \<or> k > 16 then Error 400 ''message_id and 1..16 agents required'' s
           else if \<not> list_all validAINamedID as \<or> \<not> distinct as then Error 400 ''duplicate or invalid agent'' s
           else if flt env 0 then Error 503 ''storage unavailable'' s
           else case (if flt env 1 then None else query_row [(c, g). g \<leftarrow> messages s, g_id g = mid \<and> g_chat g = chat,
                c \<leftarrow> chats s, c_id c = g_chat g]) of
             None \<Rightarrow> Error 404 ''message not found'' s
           | Some (c, g) \<Rightarrow>
               (if c_mode c \<noteq> ''basic'' \<or> g_deleted g then Error 400 ''named AI tasks require an undeleted BASIC message'' s
                else if flt env 2 \<or> \<not> owns_message s who chat g then Error 403 ''message ownership required'' s
                else if list_ex (\<lambda>i. flt env (3 + i) \<or> \<not> agent_ready s chat (as ! i)) [0..<k]
                then Error 403 ''AI agent is not an active chat member'' s
                else case queue_agents R env (3 + k) chat mid 0 as (ai_tasks s) of
                  Inl (code, m) \<Rightarrow> Error code m s
                | Inr (ids, inserted, ts) \<Rightarrow>
                    (let s1 = s\<lparr>ai_tasks := ts\<rparr>; n = 3 + k + 4 * k in
                     case (if inserted = [] then Inr (0, s1)
                           else Append C (shift_env n env) s1 chat ''ai.tasks.queued'' [] (Some (queued_data inserted mid))) of
                       Inl _ \<Rightarrow> Error 503 ''AI task persistence failed'' s
                     | Inr (seq, s2) \<Rightarrow>
                         (if flt env (n + 2) then Error 503 ''AI task persistence failed'' s
                          else (Reply 202 ids, [Wake chat], s2))))))"

subsection \<open>Reading and cancelling\<close>

definition visible_tasks :: "'w ai_db_scheme \<Rightarrow> identity \<Rightarrow> ident \<Rightarrow> (task_row \<times> message_row \<times> member_row) list" where
  "visible_tasks s who chat = [(t, g, m). t \<leftarrow> ai_tasks s, at_chat t = chat,
     g \<leftarrow> messages s, g_id g = at_message t \<and> g_chat g = at_chat t,
     m \<leftarrow> members s, m_chat m = at_chat t \<and> m_user m = user_id who \<and> m_active m \<and> m_can_send m \<and> g_seq g \<ge> m_joined m,
     u \<leftarrow> users s, u_id u = m_user m \<and> \<not> u_disabled u,
     d \<leftarrow> devices s, d_id d = device_id who \<and> d_user d = u_id u \<and> \<not> d_revoked d]"

definition aiGetNamedTask :: "env \<Rightarrow> 'w ai_db_scheme \<Rightarrow> identity \<Rightarrow> ident \<Rightarrow> ident \<Rightarrow> (task_row, 'w ai_db_scheme) outcome" where
  "aiGetNamedTask env s who chat task =
     (if flt env 0 then Error 503 ''storage unavailable'' s
      else case query_row [t. (t, g, m) \<leftarrow> visible_tasks s who chat, at_id t = task] of
        None \<Rightarrow> Error 404 ''AI task not found'' s
      | Some t \<Rightarrow> (Reply 200 t, [], s))"

definition aiListNamedTasks :: "env \<Rightarrow> 'w ai_db_scheme \<Rightarrow> identity \<Rightarrow> ident \<Rightarrow> (task_row list, 'w ai_db_scheme) outcome" where
  "aiListNamedTasks env s who chat =
     (if flt env 0 then Error 503 ''storage unavailable'' s
      else (Reply 200 (take 100 (sort_key (\<lambda>t. - at_created t) (map fst (visible_tasks s who chat)))), [], s))"

text \<open>The status only changes while the task is not finished. Every caller passes one of \<open>task_states\<close>, without blanks to trim.\<close>

definition aiNamedSetStatus :: "bool \<Rightarrow> ident \<Rightarrow> string \<Rightarrow> time \<Rightarrow> 'w ai_db_scheme \<Rightarrow> 'w ai_db_scheme option" where
  "aiNamedSetStatus fail job status' t s =
     (if status' \<notin> set task_states \<or> fail then None
      else Some (s\<lparr>ai_tasks := set_tasks (\<lambda>x. at_id x = job \<and> at_status x \<in> set active_states) status' t (ai_tasks s)\<rparr>))"

text \<open>The last component is the job whose conversation is cancelled, if any.\<close>

definition aiCancelNamedTask ::
  "env \<Rightarrow> 'w ai_db_scheme \<Rightarrow> identity \<Rightarrow> ident \<Rightarrow> ident \<Rightarrow> (string, 'w ai_db_scheme) outcome \<times> ident option" where
  "aiCancelNamedTask env s who chat task =
     (if flt env 0 then (Error 503 ''storage unavailable'' s, None)
      else if flt env 1 \<or> [(). (t, g, m) \<leftarrow> visible_tasks s who chat, at_id t = task
          \<and> (m_role m \<in> {''owner'', ''admin''} \<or> g_sender g = user_id who)] = []
      then (Error 404 ''AI task not found'' s, None)
      else case (if flt env 2 then None else get_row at_id task (ai_tasks s)) of
        None \<Rightarrow> (Error 404 ''AI task not found'' s, None)
      | Some t \<Rightarrow>
          (if at_status t \<notin> set active_states then ((Reply 200 (at_status t), [], s), None)
           else case aiNamedSetStatus (flt env 3) task ''cancelled'' (now env) s of
             None \<Rightarrow> (Error 503 ''storage unavailable'' s, None)
           | Some s1 \<Rightarrow> (if flt env 4 then (Error 503 ''storage unavailable'' s, None)
                else ((Reply 200 ''cancelled'', [], s1), Some task))))"

subsection \<open>The worker\<close>

definition queued_tasks :: "'w ai_db_scheme \<Rightarrow> (task_row \<times> message_row) list" where
  "queued_tasks s = sort_key (\<lambda>(t, g). (g_seq g, at_created t, at_id t))
     [(t, g). t \<leftarrow> ai_tasks s, at_status t = ''queued''
          \<and> \<not> list_ex (\<lambda>x. at_chat x = at_chat t \<and> at_agent x = at_agent t \<and> at_status x \<in> set held_states) (ai_tasks s),
        n \<leftarrow> ai_sessions s, as_chat n = at_chat t \<and> as_agent n = at_agent t,
        a \<leftarrow> ai_agents s, ag_id a = at_agent t \<and> \<not> ag_disabled a \<and> \<not> ag_revoked a,
        c \<leftarrow> chats s, c_id c = at_chat t \<and> basic_chat c,
        g \<leftarrow> messages s, g_id g = at_message t \<and> g_chat g = at_chat t \<and> source_acts s g
          \<and> agent_acts s True (at_chat t) (ag_user a) (ag_device a)]"

definition claimAINamedTask :: "ident list \<Rightarrow> env \<Rightarrow> 'w ai_db_scheme \<Rightarrow> task_row option \<times> 'w ai_db_scheme" where
  "claimAINamedTask active env s =
     (case (if flt env 0 \<or> flt env 1 then None else query_row (queued_tasks s)) of
        None \<Rightarrow> (None, s)
      | Some (t, g) \<Rightarrow>
          (if at_id t \<in> set active \<or> flt env 2 \<or> flt env 3 then (None, s)
           else (Some (t\<lparr>at_status := ''running'', at_updated := now env\<rparr>),
             s\<lparr>ai_tasks := set_tasks (\<lambda>x. at_id x = at_id t \<and> at_status x = ''queued'') ''running'' (now env) (ai_tasks s)\<rparr>)))"

definition aiNamedFinishStatus :: "faults \<Rightarrow> ident \<Rightarrow> string \<Rightarrow> time \<Rightarrow> 'w ai_db_scheme \<Rightarrow> 'w ai_db_scheme" where
  "aiNamedFinishStatus f job status' t s =
     (if f 0 then s
      else case aiNamedSetStatus (f 1) job status' t s of None \<Rightarrow> s | Some s1 \<Rightarrow> (if f 2 then s else s1))"

text \<open>What the worker reads in the transaction after the claim: identity, payload, context and version. \<open>Inl\<close> is the final status.\<close>

definition named_read ::
  "faults \<Rightarrow> 'w ai_db_scheme \<Rightarrow> task_row \<Rightarrow> string + task_identity \<times> message_row \<times> session_row" where
  "named_read f s t =
     (if f 0 then Inl ''uncertain''
      else case (if f 1 then None else aiNamedTaskIdentity s (at_id t)) of
        None \<Rightarrow> Inl ''failed''
      | Some i \<Rightarrow>
          (if f 2 \<or> [(). c \<leftarrow> chats s, c_id c = ti_chat i \<and> basic_chat c \<and> agent_acts s True (c_id c) (ti_user i) (ti_device i),
               g \<leftarrow> messages s, g_id g = ti_source_message i \<and> g_chat g = c_id c \<and> g_sender g = ti_source_user i
                 \<and> g_device g = ti_source_device i \<and> source_acts s g] = []
             \<or> ti_mode i \<noteq> ''basic'' \<or> ti_status i \<noteq> ''running''
           then Inl ''failed''
           else case (if f 3 then None else query_row [(g, n). g \<leftarrow> messages s, g_id g = ti_source_message i,
                n \<leftarrow> ai_sessions s, as_chat n = ti_chat i \<and> as_agent n = at_agent t]) of
             None \<Rightarrow> Inl ''failed''
           | Some (g, n) \<Rightarrow> (if f 4 then Inl ''uncertain'' else Inr (i, g, n))))"

definition named_turns :: "'s runtime \<Rightarrow> 'z core \<Rightarrow> message_row \<Rightarrow> session_row \<Rightarrow> ident \<Rightarrow> ident \<Rightarrow> turn list option" where
  "named_turns R C g n chat agent =
     (case Open (prim C) (eng C) (g_payload g) (''message/'' @ g_id g) of
        Inl _ \<Rightarrow> None
      | Inr plain \<Rightarrow>
          (if \<not> utf8_valid plain then None
           else case Open (prim C) (eng C) (as_context n) (session_aad chat agent (as_version n)) of
             Inl _ \<Rightarrow> None
           | Inr raw \<Rightarrow> map_option (\<lambda>ts. ts @ [user_turn plain]) (rt_turns R raw)))"

definition task_current :: "'w ai_db_scheme \<Rightarrow> ident \<Rightarrow> int \<Rightarrow> bool" where
  "task_current s task version \<longleftrightarrow> [(). t \<leftarrow> ai_tasks s, at_id t = task \<and> at_status t = ''running'',
     n \<leftarrow> ai_sessions s, as_chat n = at_chat t \<and> as_agent n = at_agent t \<and> as_version n = version,
     a \<leftarrow> ai_agents s, ag_id a = at_agent t \<and> agent_acts s False (at_chat t) (ag_user a) (ag_device a),
     c \<leftarrow> chats s, c_id c = at_chat t \<and> basic_chat c,
     g \<leftarrow> messages s, g_id g = at_message t \<and> [(). m \<leftarrow> members s, m_chat m = at_chat t \<and> m_user m = g_sender g \<and> m_active m
         \<and> m_can_send m \<and> g_seq g \<ge> m_joined m,
       u \<leftarrow> users s, u_id u = m_user m \<and> \<not> u_disabled u,
       d \<leftarrow> devices s, d_id d = g_device g \<and> d_user d = u_id u \<and> \<not> d_revoked d] \<noteq> [] \<and> \<not> g_deleted g] \<noteq> []"

text \<open>The settings and tools of now: the bot as configured, the agent and the grant of the session.\<close>

definition named_tools ::
  "'w ai_db_scheme runtime \<Rightarrow> faults \<Rightarrow> 'w ai_db_scheme \<Rightarrow> task_row \<Rightarrow> task_identity \<Rightarrow> int \<Rightarrow> (ai_section \<times> string \<times> tool list) option" where
  "named_tools R f s t i version =
     (case (if f 0 then None else query_row [a. a \<leftarrow> ai_agents s, ag_id a = at_agent t \<and> \<not> ag_disabled a \<and> \<not> ag_revoked a]) of
        None \<Rightarrow> None
      | Some a \<Rightarrow>
          (case ResolveBot (rt_blank R) (rt_settings R) (ag_bot a) of
             Inl _ \<Rightarrow> None
           | Inr (st, provider) \<Rightarrow>
               (if \<not> rt_provider R provider then None
                else case (if f 1 then None else get_row as_key (ti_chat i, at_agent t) (ai_sessions s)) of
                  None \<Rightarrow> None
                | Some n \<Rightarrow>
                    (case aiNamedToolsCurrent R st (as_tools n) (ag_tools a) of
                       None \<Rightarrow> None
                     | Some ts \<Rightarrow> (if f 2 \<or> \<not> task_current s (at_id t) version then None else Some (st, provider, ts))))))"

definition may_publish :: "'w ai_db_scheme \<Rightarrow> task_identity \<Rightarrow> ident \<Rightarrow> int \<Rightarrow> bool" where
  "may_publish s i agent version \<longleftrightarrow> [(). n \<leftarrow> ai_sessions s, as_chat n = ti_chat i \<and> as_agent n = agent \<and> as_version n = version,
     a \<leftarrow> ai_agents s, ag_id a = agent \<and> agent_acts s False (ti_chat i) (ag_user a) (ag_device a),
     c \<leftarrow> chats s, c_id c = ti_chat i \<and> basic_chat c,
     g \<leftarrow> messages s, g_id g = ti_source_message i \<and> g_chat g = ti_chat i \<and> g_sender g = ti_source_user i
       \<and> g_device g = ti_source_device i \<and> source_acts s g] \<noteq> []"

definition named_context :: "'w ai_db_scheme runtime \<Rightarrow> 'w ai_db_scheme \<Rightarrow> ident \<Rightarrow> ai_section \<Rightarrow> turn list \<Rightarrow> string \<Rightarrow> bytes option" where
  "named_context R s job st turns answer =
     (case next_context R s job st turns answer of
        None \<Rightarrow> None
      | Some ts \<Rightarrow> (let raw = turns_json ts in if int (length raw) > bounded (ai_context st) 262144 then None else Some raw))"

text \<open>\<open>None\<close> is an error, after a rollback.\<close>

definition aiCompleteNamed ::
  "'w ai_db_scheme runtime \<Rightarrow> 'w ai_core \<Rightarrow> env \<Rightarrow> 'w ai_db_scheme \<Rightarrow> task_row \<Rightarrow> task_identity \<Rightarrow> int \<Rightarrow> ai_section \<Rightarrow> turn list \<Rightarrow> string \<Rightarrow>
    (effect list \<times> 'w ai_db_scheme) option" where
  "aiCompleteNamed R C env s t i version st turns answer =
     (let mid = uuid env; chat = ti_chat i; job = at_id t in
      case named_context R s job st turns answer of
        None \<Rightarrow> None
      | Some raw \<Rightarrow>
          (if flt env 0 \<or> \<not> final_ok R s job then None
           else if flt env 1 \<or> (case get_row at_id job (ai_tasks s) of None \<Rightarrow> True | Some x \<Rightarrow> at_status x \<noteq> ''running'') then None
           else if flt env 2 \<or> \<not> may_publish s i (at_agent t) version then None
           else case Append C (shift_env 3 env) s chat ''message.created'' mid None of
             Inl _ \<Rightarrow> None
           | Inr (seq, s1) \<Rightarrow>
               (case insert_answer C env 5 s1
                   (ai_message mid chat (ti_user i) (ti_device i) (''ai-'' @ job) ''basic'' (ti_epoch i) seq (now env))
                   (Seal (prim C) (eng C) (nonce env) answer (''message/'' @ mid)) answer of
                  None \<Rightarrow> None
                | Some s2 \<Rightarrow>
                    (if flt env 7 \<or> flt env 8 \<or> flt env 9 then None
                     else Some ([Wake chat], s2\<lparr>
                       ai_sessions := update_rows (\<lambda>n. as_chat n = chat \<and> as_agent n = at_agent t \<and> as_version n = version)
                         (\<lambda>n. n\<lparr>as_context := Seal (prim C) (eng C) (draws env 0) raw (session_aad chat (at_agent t) version),
                           as_updated := now env\<rparr>) (ai_sessions s2),
                       ai_tasks := update_rows (\<lambda>x. at_id x = job \<and> at_status x = ''running'')
                         (\<lambda>x. x\<lparr>at_status := ''succeeded'', at_result := mid, at_updated := now env\<rparr>) (ai_tasks s2)\<rparr>)))))"

definition named_finish ::
  "'w ai_db_scheme runtime \<Rightarrow> 'w ai_core \<Rightarrow> env \<Rightarrow> env \<Rightarrow> 'w ai_db_scheme \<Rightarrow> task_row \<Rightarrow> task_identity \<Rightarrow> int \<Rightarrow> ai_section \<Rightarrow> turn list \<Rightarrow>
    conversation_end \<Rightarrow> effect list \<times> 'w ai_db_scheme" where
  "named_finish R C env env2 s t i version st turns result =
     (let finish = (\<lambda>st'. ([], aiNamedFinishStatus (flt env2) (at_id t) st' (now env2) s)) in
      case result of
        ApprovalPending \<Rightarrow> ([], s)
      | ConversationError \<Rightarrow> finish ''uncertain''
      | Answer answer \<Rightarrow>
          (if answer = [] \<or> int (length answer) > pol_max_message_bytes (cfg_policy (rt_settings R)) then finish ''failed''
           else case aiCompleteNamed R C env s t i version st turns answer of
             None \<Rightarrow> finish ''uncertain''
           | Some r \<Rightarrow> r))"

text \<open>One round. Other requests run between its transactions: \<open>between k\<close> is what they do to the store before the \<open>k\<close>-th of them.\<close>

definition aiNamedProcess ::
  "'w ai_db_scheme runtime \<Rightarrow> 'w ai_core \<Rightarrow> ident list \<Rightarrow> (nat \<Rightarrow> 'w ai_db_scheme \<Rightarrow> 'w ai_db_scheme) \<Rightarrow>
    (string \<Rightarrow> ident \<Rightarrow> turn list \<Rightarrow> tool list \<Rightarrow> 'w ai_db_scheme \<Rightarrow> conversation_end \<times> 'w ai_db_scheme) \<Rightarrow>
    env \<Rightarrow> env \<Rightarrow> 'w ai_db_scheme \<Rightarrow> effect list \<times> 'w ai_db_scheme" where
  "aiNamedProcess R C active between conversation env env2 s =
     (case claimAINamedTask active env s of
        (None, s1) \<Rightarrow> ([], s1)
      | (Some t, s1) \<Rightarrow>
          (let s2 = between 1 s1 in
           case named_read (shift_faults 4 (flt env)) s2 t of
             Inl status' \<Rightarrow> ([], aiNamedFinishStatus (flt env2) (at_id t) status' (now env2) s2)
           | Inr (i, g, n) \<Rightarrow>
               (let s3 = between 2 s2 in
                case named_turns R C g n (ti_chat i) (at_agent t) of
                  None \<Rightarrow> ([], aiNamedFinishStatus (flt env2) (at_id t) ''failed'' (now env2) s3)
                | Some turns0 \<Rightarrow>
                    (case named_tools R (shift_faults 9 (flt env)) s3 t i (as_version n) of
                       None \<Rightarrow> ([], aiNamedFinishStatus (flt env2) (at_id t) ''failed'' (now env2) s3)
                     | Some (st, provider, ts) \<Rightarrow>
                         (let turns = aiBoundContext turns0 st in
                          case conversation provider (at_id t) turns ts s3 of
                            (result, s4) \<Rightarrow> named_finish R C (shift_env 12 env) env2 s4 t i (as_version n) st turns result)))))"

end
