(* ===== verification/Participants.thy ===== *)
theory Participants
  imports Tasks
begin

text \<open>
  The rest of \<open>internal/modules/ai.go\<close>: what a restart does to the jobs, the creation of an AI participant with its chat, its
  tool allowlist, the list of jobs and their cancellation.
\<close>

subsection \<open>Restart\<close>

text \<open>Effects under way when the process stopped have unknown outcomes; they are never repeated.\<close>

definition restart_jobs :: "env \<Rightarrow> 'w ai_db_scheme \<Rightarrow> bool \<times> 'w ai_db_scheme" where
  "restart_jobs env s =
     (if flt env 0 then (False, s)
      else (True, s\<lparr>ai_jobs := set_jobs (\<lambda>j. j_status j = ''running'') ''uncertain'' (now env) (ai_jobs s)\<rparr>))"

subsection \<open>Participants\<close>

record participant_input =
  pi_user :: string
  pi_device :: string
  pi_provider :: string
  pi_mode :: string
  pi_key_package :: string
  pi_tools :: "string list"

record participant =
  pa_chat :: ident
  pa_user :: ident
  pa_device :: ident
  pa_provider :: string
  pa_mode :: string
  pa_epoch :: int
  pa_welcome :: string
  pa_tools :: "string list"

definition active_device :: "'z db_scheme \<Rightarrow> ident \<Rightarrow> ident \<Rightarrow> device_row option" where
  "active_device s user device = query_row [d. d \<leftarrow> devices s, d_id d = device \<and> d_user d = user \<and> \<not> d_revoked d,
     u \<leftarrow> users s, u_id u = d_user d \<and> \<not> u_disabled u]"

definition created_data :: "ident \<Rightarrow> string \<Rightarrow> ident \<Rightarrow> string" where
  "created_data device provider user = json_object [json_member ''device_id'' (json_string device),
     json_member ''provider'' (json_string provider), json_member ''user_id'' (json_string user)]"

text \<open>The checks before anything is created: the provider that is used.\<close>

definition participant_provider :: "'s runtime \<Rightarrow> participant_input \<Rightarrow> (nat \<times> string) + string" where
  "participant_provider R inp =
     (let mode = (if pi_mode inp = [] then ''basic'' else pi_mode inp) in
      if mode \<noteq> ''basic'' \<and> mode \<noteq> ''e2ee'' then Inl (400, ''invalid chat mode'')
      else case ResolveBot (rt_blank R) (rt_settings R) [] of
        Inl _ \<Rightarrow> Inl (400, ''default AI profile unavailable'')
      | Inr (st, preset) \<Rightarrow>
          (let provider = (if preset \<noteq> [] \<and> pi_provider inp = [] then preset else pi_provider inp);
               key = (if provider = ''anthropic'' then ai_anthropic_key st else ai_openai_key st) in
           if preset \<noteq> [] \<and> provider \<noteq> preset then Inl (400, ''provider differs from default bot'')
           else if \<not> rt_provider R provider then Inl (400, ''provider not compiled'')
           else if ai_auth st \<noteq> ''none'' \<and> rt_getenv R key = [] then Inl (503, ''provider credential unavailable'')
           else if aiAllowed R (pi_tools inp) = None then Inl (400, ''invalid tool allowlist'')
           else if list_ex (\<lambda>n. n \<notin> tl_name ` set (ai_tool_list st)) (pi_tools inp) then Inl (400, ''tool excluded by default bot'')
           else Inr provider))"

text \<open>The identity of the participant: made by the MLS module, or two fresh key pairs.\<close>

definition participant_identity ::
  "'s runtime \<Rightarrow> env \<Rightarrow> 's \<Rightarrow> string \<Rightarrow> ident \<Rightarrow> ident \<Rightarrow> participant_input \<Rightarrow> string + ai_identity" where
  "participant_identity R env s mode chat device inp =
     (if mode = ''e2ee'' then
        (case (if feat_e2ee (rt_features R) then rt_create_mls R else None) of
           None \<Rightarrow> Inl ''E2EE AI unavailable in this build''
         | Some create_mls \<Rightarrow>
             (case b64_decode (pi_key_package inp) of
                None \<Rightarrow> Inl ''invalid human key package''
              | Some kp \<Rightarrow>
                  (case create_mls s chat device (pi_device inp) kp of
                     None \<Rightarrow> Inl ''AI MLS admission failed''
                   | Some i \<Rightarrow> Inr i)))
      else Inr \<lparr>id_public = b64_encode (rt_x25519 R (draws env 0)), id_signing = b64_encode (rt_ed25519 R (draws env 1)),
        id_state = [], id_welcome = [], id_group = [], id_context = [], id_epoch = 0\<rparr>)"

text \<open>The rows of the participant and its chat, statements \<open>3\<close> to \<open>7\<close> of the handler.\<close>

definition participant_rows ::
  "'w ai_core \<Rightarrow> env \<Rightarrow> 'w ai_db_scheme \<Rightarrow> participant_input \<Rightarrow> participant \<Rightarrow> ai_identity \<Rightarrow> 'w ai_db_scheme option" where
  "participant_rows C env s inp p i =
     (let chat = pa_chat p; user = pa_user p; device = pa_device p;
          member = (\<lambda>u r. \<lparr>m_chat = chat, m_user = u, m_role = r, m_can_send = True, m_joined = 0, m_active = True\<rparr>) in
      case (if flt env 3 then None else insert_row u_id \<lparr>u_id = user, u_disabled = False\<rparr> (users s)) of
        None \<Rightarrow> None
      | Some us \<Rightarrow>
      (case (if flt env 4 then None else insert_row d_id \<lparr>d_id = device, d_user = user, d_public_key = id_public i,
            d_signing_key = id_signing i, d_revoked = False\<rparr> (devices s)) of
        None \<Rightarrow> None
      | Some ds \<Rightarrow>
      (case (if flt env 5 then None else insert_row c_id \<lparr>c_id = chat, c_kind = ''direct'', c_mode = pa_mode p, c_seq = 0,
            c_epoch = id_epoch i, c_pending = False, c_created = now env\<rparr> (chats s)) of
        None \<Rightarrow> None
      | Some cs \<Rightarrow>
      (case (if flt env 6 then None else insert_row m_key (member user ''member'') (members s)) of
        None \<Rightarrow> None
      | Some ms1 \<Rightarrow>
      (case insert_row m_key (member (pi_user inp) ''owner'') ms1 of
        None \<Rightarrow> None
      | Some ms2 \<Rightarrow>
          map_option (\<lambda>as. s\<lparr>users := us, devices := ds, chats := cs, members := ms2, ai_chats := as\<rparr>)
            (if flt env 7 then None else insert_row ac_chat \<lparr>ac_chat = chat, ac_user = user, ac_device = device,
               ac_provider = pa_provider p, ac_tools = pi_tools inp,
               ac_context = Seal (prim C) (eng C) (nonce env) ''[]'' (context_aad chat), ac_state = id_state i\<rparr> (ai_chats s)))))))"

text \<open>\<open>uuid\<close> is the chat, \<open>draws\<close> supplies the private keys, the user's and the device's identifiers.\<close>

definition aiCreateParticipant ::
  "'w ai_db_scheme runtime \<Rightarrow> 'w ai_core \<Rightarrow> env \<Rightarrow> 'w ai_db_scheme \<Rightarrow> participant_input body \<Rightarrow> (participant, 'w ai_db_scheme) outcome" where
  "aiCreateParticipant R C env s b =
     (case Decode b of
        Inl m \<Rightarrow> Error 400 m s
      | Inr inp \<Rightarrow>
      (case participant_provider R inp of
        Inl (code, m) \<Rightarrow> Error code m s
      | Inr provider \<Rightarrow>
      (case (if flt env 0 then None else active_device s (pi_user inp) (pi_device inp)) of
        None \<Rightarrow> Error 400 ''active human device required'' s
      | Some d \<Rightarrow>
          (let mode = (if pi_mode inp = [] then ''basic'' else pi_mode inp);
               chat = uuid env; user = ''ai-'' @ draws env 2; device = draws env 3 in
           case participant_identity R env s mode chat device inp of
             Inl m \<Rightarrow> Error 400 m s
           | Inr i \<Rightarrow>
               (let p = \<lparr>pa_chat = chat, pa_user = user, pa_device = device, pa_provider = provider, pa_mode = mode,
                      pa_epoch = id_epoch i, pa_welcome = b64_encode (id_welcome i), pa_tools = pi_tools inp\<rparr> in
                if flt env 1 then Error 503 ''storage unavailable'' s
                else if flt env 2 \<or> (case active_device s (pi_user inp) (pi_device inp) of None \<Rightarrow> True
                  | Some x \<Rightarrow> d_signing_key x \<noteq> d_signing_key d)
                then Error 409 ''human device changed'' s
                else case participant_rows C env s inp p i of
                  None \<Rightarrow> Error 503 ''AI participant persistence failed'' s
                | Some s1 \<Rightarrow>
                    (case (if mode \<noteq> ''e2ee'' then Some s1
                         else case rt_init_relay R of None \<Rightarrow> None | Some relay \<Rightarrow> relay s1 chat device (pi_device inp) i) of
                       None \<Rightarrow> Error 503 ''AI MLS relay initialization failed'' s
                     | Some s2 \<Rightarrow>
                         (case Append C (shift_env 8 env) s2 chat ''ai.participant.created'' [] (Some (created_data device provider user)) of
                            Inl _ \<Rightarrow> Error 503 ''AI participant persistence failed'' s
                          | Inr (seq, s3) \<Rightarrow>
                              (if flt env 10 then Error 503 ''AI participant persistence failed'' s
                               else (Reply 201 p, [Wake chat], s3)))))))))"

subsection \<open>Tools and jobs\<close>

definition put_tools ::
  "'w ai_db_scheme runtime \<Rightarrow> env \<Rightarrow> 'w ai_db_scheme \<Rightarrow> string list body \<Rightarrow> ident \<Rightarrow> (string list, 'w ai_db_scheme) outcome" where
  "put_tools R env s b chat =
     (case Decode b of
        Inl m \<Rightarrow> Error 400 m s
      | Inr names \<Rightarrow>
          (if aiAllowed R names = None then Error 400 ''invalid tool allowlist'' s
           else if flt env 0 then Error 503 ''storage unavailable'' s
           else if get_row ac_chat chat (ai_chats s) = None then Error 404 ''AI chat unavailable'' s
           else (Reply 200 names, [],
             s\<lparr>ai_chats := update_rows (\<lambda>a. ac_chat a = chat) (\<lambda>a. a\<lparr>ac_tools := names\<rparr>) (ai_chats s)\<rparr>)))"

definition list_jobs :: "env \<Rightarrow> 'w ai_db_scheme \<Rightarrow> ident \<Rightarrow> (ai_job_row list, 'w ai_db_scheme) outcome" where
  "list_jobs env s chat =
     (if flt env 0 then Error 503 ''storage unavailable'' s
      else (Reply 200 (take 100 (sort_key (\<lambda>j. - j_created j) (filter (\<lambda>j. j_chat_id j = chat) (ai_jobs s)))), [], s))"

subsection \<open>Cancelling\<close>

definition aiProgressMember :: "bool \<Rightarrow> 'z db_scheme \<Rightarrow> task_identity \<Rightarrow> identity \<Rightarrow> string option" where
  "aiProgressMember fail s t who =
     (if fail then None else query_row [d_public_key d. m \<leftarrow> members s, m_chat m = ti_chat t \<and> m_user m = user_id who \<and> m_active m,
        d \<leftarrow> devices s, d_user d = m_user m \<and> d_id d = device_id who \<and> \<not> d_revoked d,
        u \<leftarrow> users s, u_id u = m_user m \<and> \<not> u_disabled u,
        g \<leftarrow> messages s, g_chat g = m_chat m \<and> g_id g = ti_source_message t \<and> g_seq g \<ge> m_joined m \<and> \<not> g_deleted g])"

definition cancelled_data :: "ident \<Rightarrow> string" where
  "cancelled_data job = json_object [json_member ''job_id'' (json_string job)]"

text \<open>A job of a chat or, when no row of \<open>ai_jobs\<close> changes, a task.\<close>

definition cancel_rows :: "env \<Rightarrow> 'w ai_db_scheme \<Rightarrow> ident \<Rightarrow> 'w ai_db_scheme option" where
  "cancel_rows env s job =
     (let hit = (\<lambda>j. j_id j = job \<and> j_status j \<in> set active_states) in
      if flt env 5 then None
      else if count_rows hit (ai_jobs s) = 0 then aiNamedSetStatus (flt env 6) job ''cancelled'' (now env) s
      else Some (s\<lparr>ai_jobs := set_jobs hit ''cancelled'' (now env) (ai_jobs s)\<rparr>))"

definition cancelAIJob ::
  "'w ai_core \<Rightarrow> env \<Rightarrow> 'w ai_db_scheme \<Rightarrow> identity \<Rightarrow> ident \<Rightarrow> ident \<Rightarrow> (string, 'w ai_db_scheme) outcome \<times> ident option" where
  "cancelAIJob C env s who chat job =
     (if flt env 0 then (Error 503 ''storage unavailable'' s, None)
      else case aiTaskLookup (shift_faults 1 (flt env)) s job of
        None \<Rightarrow> (Error 404 ''AI job unavailable'' s, None)
      | Some t \<Rightarrow>
          (if ti_chat t \<noteq> chat then (Error 404 ''AI job unavailable'' s, None)
           else if aiProgressMember (flt env 3) s t who = None then (Error 403 ''membership required'' s, None)
           else case (if flt env 4 then None else query_row (filter (\<lambda>m. m_chat m = ti_chat t \<and> m_user m = user_id who \<and> m_active m) (members s))) of
             None \<Rightarrow> (Error 403 ''job owner or administrator required'' s, None)
           | Some m \<Rightarrow>
               (if ti_source_user t \<noteq> user_id who \<and> m_role m \<noteq> ''owner'' \<and> m_role m \<noteq> ''admin''
                then (Error 403 ''job owner or administrator required'' s, None)
                else if ti_status t \<in> set active_states then
                  (case cancel_rows env s job of
                     None \<Rightarrow> (Error 503 ''storage unavailable'' s, None)
                   | Some s1 \<Rightarrow>
                       (case Append C (shift_env 7 env) s1 (ti_chat t) ''ai.job.cancelled'' [] (Some (cancelled_data job)) of
                          Inl _ \<Rightarrow> (Error 503 ''storage unavailable'' s, None)
                        | Inr (seq, s2) \<Rightarrow>
                            (if flt env 9 then (Error 503 ''storage unavailable'' s, None)
                             else ((Reply 200 ''cancelled'', [Wake (ti_chat t)], s2), Some job))))
                else if flt env 9 then (Error 503 ''storage unavailable'' s, None)
                else ((Reply 200 (ti_status t), [Wake (ti_chat t)], s), Some job))))"

end
