(* ===== verification/Policy.thy ===== *)
theory Policy
  imports Participants Grants
begin

text \<open>
  \<open>internal/modules/ai_policy.go\<close>: the tables of the policy module, its sealed values, costs, approval tokens, and what it does at
  start, at a deletion and in its cleanup. Reading JSON and URLs and checking JWTs is the record
  \<open>policy_lib\<close>, with the public key the installation stored.
\<close>

subsection \<open>Data\<close>

record policy_effect =
  pe_id :: ident
  pe_job :: ident
  pe_action :: string
  pe_name :: string
  pe_destination :: string
  pe_hash :: string
  pe_required :: bool
  pe_epoch :: int
  pe_session :: int
  pe_reserve :: int
  pe_input_price :: int
  pe_output_price :: int

record stored_effect =
  so_effect :: policy_effect
  so_continuation :: bytes
  so_epoch :: int
  so_session :: int

record amounts =
  am_reserved :: int
  am_cost :: int
  am_used :: int
  am_input :: int
  am_output :: int
  am_cache_read :: int
  am_cache_write :: int
  am_known :: bool
  am_currency :: string

record usage =
  us_input :: int
  us_output :: int
  us_cache_read :: int
  us_cache_write :: int
  us_known :: bool
  us_input_known :: bool
  us_output_known :: bool

record policy_claims =
  pc_version :: int
  pc_nonce :: string
  pc_request :: string
  pc_job :: string
  pc_chat :: string
  pc_source_user :: string
  pc_source_device :: string
  pc_ai_user :: string
  pc_ai_device :: string
  pc_epoch :: int
  pc_action :: string
  pc_name :: string
  pc_hash :: string
  pc_destination :: string
  pc_issuer :: string
  pc_audience :: string
  pc_issued :: int
  pc_expires :: int

record policy_lib =
  pl_key :: "bytes option"                                       \<comment> \<open>the key of the grants\<close>
  pl_members :: "bytes \<Rightarrow> (string \<times> bytes) list option"        \<comment> \<open>the members of one JSON object\<close>
  pl_claims :: "bytes \<Rightarrow> policy_claims option"
  pl_jwt :: "bytes \<Rightarrow> string \<Rightarrow> string \<Rightarrow> time \<Rightarrow> string \<Rightarrow> bool"  \<comment> \<open>key, issuer, audience, clock, token\<close>
  pl_stored :: "bytes \<Rightarrow> stored_effect option"
  pl_amounts :: "bytes \<Rightarrow> amounts option"
  pl_url :: "string \<Rightarrow> (string \<times> string \<times> bool) option"    \<comment> \<open>scheme, host, whether it has a user\<close>
  pl_lower :: "string \<Rightarrow> string"

record request_row =
  pr_id :: ident
  pr_job :: ident
  pr_chat :: ident
  pr_source_user :: ident
  pr_source_device :: ident
  pr_ai_user :: ident
  pr_ai_device :: ident
  pr_epoch :: int
  pr_hash :: string
  pr_action :: string
  pr_name :: string
  pr_destination :: string
  pr_payload :: bytes
  pr_status :: string
  pr_expires :: time
  pr_created :: time
  pr_updated :: time
  pr_outcome :: string
  pr_dispatched :: time

record policy_grant_row =
  pg_id :: ident
  pg_request :: ident
  pg_nonce :: string
  pg_hash :: string
  pg_token :: bytes
  pg_issued :: time
  pg_expires :: time
  pg_used :: time
  pg_revoked :: time

record revocation_row =
  rv_id :: ident
  rv_nonce :: string
  rv_at :: time

record ledger_row =
  lg_id :: int
  lg_request :: ident
  lg_job :: ident
  lg_scope :: string
  lg_scope_id :: string
  lg_day :: string
  lg_amounts :: bytes
  lg_payload :: bytes
  lg_status :: string
  lg_created :: time
  lg_updated :: time

record account_row =
  ap_scope :: string
  ap_scope_id :: string
  ap_day :: string
  ap_payload :: bytes

record policy_db = ai_db +
  policy_versions :: "int list"
  policy_requests :: "request_row list"
  policy_grants :: "policy_grant_row list"
  policy_revocations :: "revocation_row list"
  policy_ledger :: "ledger_row list"
  policy_accounts :: "account_row list"

type_synonym 'w policy_core = "'w policy_db_ext ai_db_ext vault_db_ext core"

definition lg_key :: "ledger_row \<Rightarrow> ident \<times> string" where
  "lg_key l = (lg_request l, lg_scope l)"

definition ap_key :: "account_row \<Rightarrow> string \<times> string \<times> string" where
  "ap_key a = (ap_scope a, ap_scope_id a, ap_day a)"

subsection \<open>Sealed values\<close>

definition aiPolicyAAD :: "string \<Rightarrow> ident \<Rightarrow> bytes" where
  "aiPolicyAAD kind i = ''ai-policy/'' @ kind @ ''/'' @ i"

definition aiPolicyAccountAAD :: "string \<Rightarrow> string \<Rightarrow> string \<Rightarrow> bytes" where
  "aiPolicyAccountAAD scope i day = ''ai-policy/account/'' @ scope @ ''/'' @ i @ ''/'' @ day"

definition amounts_aad :: "ident \<Rightarrow> string \<Rightarrow> bytes" where
  "amounts_aad request scope = ''ai-policy/amounts/'' @ request @ ''/'' @ scope"

definition ledger_aad :: "ident \<Rightarrow> string \<Rightarrow> bytes" where
  "ledger_aad request scope = ''ai-policy/ledger/'' @ request @ ''/'' @ scope"

definition effect_json :: "policy_effect \<Rightarrow> bytes" where
  "effect_json e = json_object
     [json_member ''ID'' (json_string (pe_id e)), json_member ''Job'' (json_string (pe_job e)),
      json_member ''Action'' (json_string (pe_action e)), json_member ''Name'' (json_string (pe_name e)),
      json_member ''Destination'' (json_string (pe_destination e)), json_member ''RequestHash'' (json_string (pe_hash e)),
      json_member ''Required'' (json_bool (pe_required e)), json_member ''Epoch'' (dec_int (pe_epoch e)),
      json_member ''SessionVersion'' (dec_int (pe_session e)), json_member ''ReserveMicrounits'' (dec_int (pe_reserve e)),
      json_member ''InputPriceMicrounitsPerMillionTokens'' (dec_int (pe_input_price e)),
      json_member ''OutputPriceMicrounitsPerMillionTokens'' (dec_int (pe_output_price e))]"

definition stored_json :: "stored_effect \<Rightarrow> bytes" where
  "stored_json o' = json_object
     [json_member ''effect'' (effect_json (so_effect o')),
      json_member ''continuation'' (if so_continuation o' = [] then ''null'' else json_string (b64_encode (so_continuation o'))),
      json_member ''session_epoch'' (dec_int (so_epoch o')), json_member ''session_version'' (dec_int (so_session o'))]"

definition amounts_json :: "amounts \<Rightarrow> bytes" where
  "amounts_json a = json_object
     [json_member ''reserved'' (dec_int (am_reserved a)), json_member ''cost'' (dec_int (am_cost a)),
      json_member ''used'' (dec_int (am_used a)), json_member ''input_tokens'' (dec_int (am_input a)),
      json_member ''output_tokens'' (dec_int (am_output a)), json_member ''cache_read_tokens'' (dec_int (am_cache_read a)),
      json_member ''cache_write_tokens'' (dec_int (am_cache_write a)), json_member ''known'' (json_bool (am_known a)),
      json_member ''currency'' (json_string (am_currency a))]"

definition entry_json :: "policy_effect \<Rightarrow> string \<Rightarrow> string \<Rightarrow> string \<Rightarrow> bytes" where
  "entry_json e scope i day = json_object [json_member ''day'' (json_string day), json_member ''effect'' (effect_json e),
     json_member ''scope'' (json_string scope), json_member ''scope_id'' (json_string i)]"

definition no_amounts :: amounts where
  "no_amounts = \<lparr>am_reserved = 0, am_cost = 0, am_used = 0, am_input = 0, am_output = 0, am_cache_read = 0, am_cache_write = 0,
     am_known = False, am_currency = []\<rparr>"

definition aiPolicyOpenStored :: "policy_lib \<Rightarrow> 'z core \<Rightarrow> ident \<Rightarrow> bytes \<Rightarrow> stored_effect option" where
  "aiPolicyOpenStored L C i blob =
     (case Open (prim C) (eng C) blob (aiPolicyAAD ''request'' i) of Inl _ \<Rightarrow> None | Inr plain \<Rightarrow> pl_stored L plain)"

definition open_amounts :: "policy_lib \<Rightarrow> 'z core \<Rightarrow> bytes \<Rightarrow> bytes \<Rightarrow> amounts option" where
  "open_amounts L C blob aad = (case Open (prim C) (eng C) blob aad of Inl _ \<Rightarrow> None | Inr plain \<Rightarrow> pl_amounts L plain)"

definition seal_stored :: "'z core \<Rightarrow> bytes \<Rightarrow> ident \<Rightarrow> stored_effect \<Rightarrow> bytes" where
  "seal_stored C n i o' = Seal (prim C) (eng C) n (stored_json o') (aiPolicyAAD ''request'' i)"

subsection \<open>Hashes, caps and costs\<close>

definition max_int64 :: int where
  "max_int64 = 2 ^ 63 - 1"

text \<open>\<open>aiPolicyHash\<close> of an effect and of a token, which JSON writes as a string.\<close>

definition aiPolicyEffectHash :: "'z core \<Rightarrow> policy_effect \<Rightarrow> string" where
  "aiPolicyEffectHash C e = (if pe_hash e \<noteq> [] then pe_hash e else digest C (effect_json (e\<lparr>pe_hash := []\<rparr>)))"

definition token_hash :: "'z core \<Rightarrow> string \<Rightarrow> string" where
  "token_hash C token = digest C (json_string token)"

definition aiPolicyCap :: "policy_section \<Rightarrow> string \<Rightarrow> int" where
  "aiPolicyCap p scope = (if scope = ''global'' then po_global p else if scope = ''bot'' then po_per_bot p
     else if scope = ''source_user'' then po_per_user p else 0)"

definition aiPolicyRequired :: "policy_section \<Rightarrow> policy_effect \<Rightarrow> bool" where
  "aiPolicyRequired p e \<longleftrightarrow> pe_required e \<or> (pe_action e = ''provider'' \<and> po_provider_approval p)"

definition maxInt :: "int \<Rightarrow> int \<Rightarrow> int" where
  "maxInt v fallback = (if v > fallback then v else fallback)"

definition aiPolicyCeilRate :: "int \<Rightarrow> int \<Rightarrow> int option" where
  "aiPolicyCeilRate tokens rate =
     (if tokens < 0 \<or> rate < 0 \<or> tokens > max_int64 div 2 \<or> rate > max_int64 div 2 then None
      else if tokens = 0 \<or> rate = 0 then Some 0
      else if tokens > (max_int64 - 999999) div rate then None
      else Some ((tokens * rate + 999999) div 1000000))"

definition aiPolicyCost :: "policy_effect \<Rightarrow> usage \<Rightarrow> int option" where
  "aiPolicyCost e u =
     (if pe_action e = ''tool'' then Some (pe_reserve e)
      else case aiPolicyCeilRate (us_input u) (pe_input_price e) of
        None \<Rightarrow> None
      | Some a \<Rightarrow>
          (case aiPolicyCeilRate (us_output u) (pe_output_price e) of
             None \<Rightarrow> None
           | Some b \<Rightarrow> (if a > max_int64 - b then None else Some (a + b))))"

text \<open>The day of a time in UTC, as \<open>2006-01-02\<close>.\<close>

definition pad2 :: "int \<Rightarrow> string" where
  "pad2 n = (if n < 10 then ''0'' @ dec_int n else dec_int n)"

definition pad4 :: "int \<Rightarrow> string" where
  "pad4 n = replicate (4 - length (dec_int n)) (CHR ''0'') @ dec_int n"

definition utc_day :: "time \<Rightarrow> string" where
  "utc_day t =
     (let z = t div 86400 + 719468; era = z div 146097; doe = z mod 146097;
          yoe = (doe - doe div 1460 + doe div 36524 - doe div 146096) div 365;
          doy = doe - (365 * yoe + yoe div 4 - yoe div 100); mp = (5 * doy + 2) div 153;
          d = doy - (153 * mp + 2) div 5 + 1; m = (if mp < 10 then mp + 3 else mp - 9);
          y = yoe + era * 400 + (if m \<le> 2 then 1 else 0)
      in pad4 y @ ''-'' @ pad2 m @ ''-'' @ pad2 d)"

definition aiPolicyOrigin :: "policy_lib \<Rightarrow> string \<Rightarrow> string" where
  "aiPolicyOrigin L raw =
     (case pl_url L raw of
        None \<Rightarrow> ''invalid''
      | Some (scheme, host, user) \<Rightarrow>
          (if scheme = [] \<or> host = [] \<or> user then ''invalid'' else pl_lower L scheme @ ''://'' @ pl_lower L host))"

subsection \<open>Approval tokens\<close>

definition aiPolicyField :: "string \<Rightarrow> bool" where
  "aiPolicyField v \<longleftrightarrow> v \<noteq> [] \<and> length v \<le> 256
     \<and> list_all (\<lambda>c. 0x21 \<le> byte c \<and> byte c \<le> 0x7e \<and> c \<noteq> chr 34 \<and> c \<noteq> chr 92) v"

definition aiPolicyHashField :: "string \<Rightarrow> bool" where
  "aiPolicyHashField v \<longleftrightarrow> length v = 64 \<and> list_all (\<lambda>c. (48 \<le> byte c \<and> byte c \<le> 57) \<or> (97 \<le> byte c \<and> byte c \<le> 102)
     \<or> (65 \<le> byte c \<and> byte c \<le> 70)) v"

definition policy_claim_names :: "string list" where
  "policy_claim_names = [''v'', ''jti'', ''request_id'', ''job_id'', ''chat_id'', ''source_user'', ''source_device'', ''ai_user'',
     ''ai_device'', ''epoch'', ''action'', ''name'', ''request_hash'', ''destination_hash'', ''iss'', ''aud'', ''iat'', ''exp'']"

definition policy_claim_fields :: "policy_claims \<Rightarrow> string list" where
  "policy_claim_fields c = [pc_nonce c, pc_request c, pc_job c, pc_chat c, pc_source_user c, pc_source_device c, pc_ai_user c,
     pc_ai_device c, pc_action c, pc_name c]"

text \<open>\<open>strictJSON\<close>: decode the segment, refuse duplicate keys and a trailing value, then decode the value.\<close>

definition strict_members :: "policy_lib \<Rightarrow> string \<Rightarrow> (string \<times> bytes) list option" where
  "strict_members L segment =
     (case b64url_decode segment of
        None \<Rightarrow> None
      | Some b \<Rightarrow> (case pl_members L b of None \<Rightarrow> None | Some ms \<Rightarrow> (if rejectDuplicateKeys ms then Some ms else None)))"

definition strict_claims :: "policy_lib \<Rightarrow> string \<Rightarrow> policy_claims option" where
  "strict_claims L segment =
     (case strict_members L segment of
        None \<Rightarrow> None
      | Some _ \<Rightarrow> (case b64url_decode segment of None \<Rightarrow> None | Some b \<Rightarrow> pl_claims L b))"

definition policy_claims_ok :: "policy_section \<Rightarrow> time \<Rightarrow> policy_claims \<Rightarrow> bool" where
  "policy_claims_ok p t c \<longleftrightarrow> pc_version c = 1 \<and> list_all aiPolicyField (policy_claim_fields c) \<and> aiPolicyHashField (pc_hash c)
     \<and> aiPolicyHashField (pc_destination c) \<and> pc_issuer c = po_issuer p \<and> pc_audience c = po_audience p
     \<and> pc_issued c > 0 \<and> pc_issued c \<le> t \<and> pc_expires c > t \<and> pc_expires c > pc_issued c
     \<and> pc_expires c - pc_issued c \<le> maxInt (po_ttl p) 1"

definition aiPolicyParseToken :: "policy_lib \<Rightarrow> policy_section \<Rightarrow> time \<Rightarrow> string \<Rightarrow> policy_claims option" where
  "aiPolicyParseToken L p t token =
     (case pl_key L of
        None \<Rightarrow> None
      | Some key \<Rightarrow>
          (case split_at (CHR ''.'') token of
             [p0, p1, p2] \<Rightarrow>
               (case strict_members L p0 of
                  None \<Rightarrow> None
                | Some h \<Rightarrow>
                    (if \<not> header_ok h then None
                     else case strict_members L p1 of
                       None \<Rightarrow> None
                     | Some raw \<Rightarrow>
                         (if list_ex (\<lambda>(name, v). name \<notin> set policy_claim_names) raw then None
                          else case strict_claims L p1 of
                            None \<Rightarrow> None
                          | Some c \<Rightarrow>
                              (if \<not> pl_jwt L key (po_issuer p) (po_audience p) t token \<or> \<not> policy_claims_ok p t c then None
                               else Some c))))
           | _ \<Rightarrow> None))"

definition claims_match :: "'z core \<Rightarrow> policy_claims \<Rightarrow> ident \<Rightarrow> task_identity \<Rightarrow> policy_effect \<Rightarrow> time \<Rightarrow> bool" where
  "claims_match C c request t e n \<longleftrightarrow> pc_request c = request \<and> pc_job c = pe_job e \<and> pc_chat c = ti_chat t
     \<and> pc_source_user c = ti_source_user t \<and> pc_source_device c = ti_source_device t \<and> pc_ai_user c = ti_user t
     \<and> pc_ai_device c = ti_device t \<and> pc_epoch c = ti_epoch t \<and> pc_action c = pe_action e \<and> pc_name c = pe_name e
     \<and> pc_hash c = aiPolicyEffectHash C e \<and> pc_destination c = digest C (pe_destination e) \<and> pc_expires c > n"

definition aiPolicyVerifyToken ::
  "policy_lib \<Rightarrow> 'z core \<Rightarrow> policy_section \<Rightarrow> string \<Rightarrow> ident \<Rightarrow> task_identity \<Rightarrow> policy_effect \<Rightarrow> time \<Rightarrow> bool" where
  "aiPolicyVerifyToken L C p token request t e n \<longleftrightarrow>
     (case aiPolicyParseToken L p n token of None \<Rightarrow> False | Some c \<Rightarrow> claims_match C c request t e n)"

subsection \<open>Installation\<close>

definition set_requests :: "(request_row \<Rightarrow> bool) \<Rightarrow> string \<Rightarrow> time \<Rightarrow> request_row list \<Rightarrow> request_row list" where
  "set_requests p status' t = update_rows p (\<lambda>r. r\<lparr>pr_status := status', pr_updated := t\<rparr>)"

text \<open>The key, if it is valid; the flag says whether the module starts. The name of the variable, which the configuration checked,
  has no blanks to trim.\<close>

definition installAIPolicy ::
  "'s runtime \<Rightarrow> env \<Rightarrow> 'w policy_db_scheme \<Rightarrow> bytes option \<times> bool \<times> 'w policy_db_scheme" where
  "installAIPolicy R env s =
     (let ref = po_key_env (set_ai_policy (rt_settings R)); version = max_version (policy_versions s); refused = (None, False, s) in
      if \<not> feat_ai_policy (rt_features R) \<or> rt_blank R ref then refused
      else case b64_decode (rt_getenv R ref) of
        None \<Rightarrow> refused
      | Some key \<Rightarrow>
          (if length key \<noteq> 32 \<or> flt env 0 \<or> list_ex (\<lambda>k. flt env (1 + k)) [0..<9] \<or> flt env 10 \<or> version > 1
              \<or> (version < 1 \<and> flt env 11) \<or> flt env 12 then refused
           else let s1 = (if version < 1 then s\<lparr>policy_versions := policy_versions s @ [1]\<rparr> else s);
                    s2 = s1\<lparr>policy_requests := set_requests (\<lambda>r. pr_status r = ''dispatched'') ''uncertain'' (now env) (policy_requests s1)\<rparr>;
                    lost = map pr_job (filter (\<lambda>r. pr_status r = ''uncertain'') (policy_requests s2));
                    s3 = s2\<lparr>ai_jobs := set_jobs (\<lambda>j. j_id j \<in> set lost \<and> j_status j = ''running'') ''uncertain'' (now env) (ai_jobs s2)\<rparr>;
                    s4 = s3\<lparr>ai_tasks := set_tasks (\<lambda>t. at_id t \<in> set lost \<and> at_status t = ''running'') ''uncertain'' (now env) (ai_tasks s3)\<rparr> in
             if flt env 13 then (Some key, False, s1)
             else if flt env 14 then (Some key, False, s2)
             else if flt env 15 then (Some key, False, s3)
             else (Some key, True, s4)))"

subsection \<open>Deletion and expiry\<close>

text \<open>
  The requests of the list lose their continuation; \<open>f\<close> is what else changes in the row. Request \<open>k\<close> uses the nonce \<open>draws env k\<close>.
\<close>

fun scrub ::
  "policy_lib \<Rightarrow> 'z core \<Rightarrow> env \<Rightarrow> (nat \<Rightarrow> bool) \<Rightarrow> (request_row \<Rightarrow> request_row) \<Rightarrow> nat \<Rightarrow> request_row list \<Rightarrow> request_row list \<Rightarrow>
    request_row list option" where
  "scrub L C env fails f k [] rs = Some rs"
| "scrub L C env fails f k (r # todo) rs =
     (case aiPolicyOpenStored L C (pr_id r) (pr_payload r) of
        None \<Rightarrow> None
      | Some o' \<Rightarrow>
          (if fails k then None
           else scrub L C env fails f (Suc k) todo (update_rows (\<lambda>x. pr_id x = pr_id r)
             (\<lambda>x. f (x\<lparr>pr_payload := seal_stored C (draws env k) (pr_id r) (o'\<lparr>so_continuation := []\<rparr>), pr_updated := now env\<rparr>)) rs)))"

definition policy_delete_hook ::
  "policy_lib \<Rightarrow> 'w policy_core \<Rightarrow> env \<Rightarrow> 'w policy_db_scheme \<Rightarrow> ident \<Rightarrow> go_error + 'w policy_db_scheme" where
  "policy_delete_hook L C env s mid =
     (if flt env 0 then Inl (OtherError ''storage'')
      else case get_row g_id mid (messages s) of
        None \<Rightarrow> Inr s
      | Some g \<Rightarrow>
          (if flt env 1 then Inl (OtherError ''storage'')
           else case scrub L C env (\<lambda>k. flt env (2 + k))
               (\<lambda>x. x\<lparr>pr_status := (if pr_status x \<in> {''awaiting'', ''approved''} then ''cancelled'' else pr_status x)\<rparr>) 0
               (filter (\<lambda>r. pr_chat r = g_chat g) (policy_requests s)) (policy_requests s) of
             None \<Rightarrow> Inl (OtherError ''AI policy request unavailable'')
           | Some rs \<Rightarrow> Inr (s\<lparr>policy_requests := rs\<rparr>)))"

definition expired_requests :: "time \<Rightarrow> request_row list \<Rightarrow> request_row list" where
  "expired_requests t rs = take 256 (sort_key pr_expires
     (filter (\<lambda>r. pr_status r \<in> {''awaiting'', ''approved''} \<and> pr_expires r \<le> t) rs))"

text \<open>
  At most 256 expired requests at a time, in one transaction with the jobs and tasks that wait for them; request \<open>k\<close> has the
  statements from \<open>2 + 3 * k\<close> on.
\<close>

definition aiPolicyCleanupExpired ::
  "policy_lib \<Rightarrow> 'w policy_core \<Rightarrow> env \<Rightarrow> 'w policy_db_scheme \<Rightarrow> effect list \<times> 'w policy_db_scheme" where
  "aiPolicyCleanupExpired L C env s =
     (let items = expired_requests (now env) (policy_requests s); n = length items; jobs = map pr_job items in
      if flt env 0 \<or> flt env 1 then ([], s)
      else case scrub L C env (\<lambda>k. flt env (2 + 3 * k) \<or> flt env (3 + 3 * k) \<or> flt env (4 + 3 * k))
          (\<lambda>x. x\<lparr>pr_status := ''expired'', pr_outcome := ''approval_expired''\<rparr>) 0 items (policy_requests s) of
        None \<Rightarrow> ([], s)
      | Some rs \<Rightarrow>
          (if flt env (2 + 3 * n) then ([], s)
           else (map Wake (remdups (map pr_chat items)), s\<lparr>policy_requests := rs,
             ai_jobs := set_jobs (\<lambda>j. j_id j \<in> set jobs \<and> j_status j \<in> {''queued'', ''awaiting_approval''}) ''failed'' (now env) (ai_jobs s),
             ai_tasks := set_tasks (\<lambda>t. at_id t \<in> set jobs \<and> at_status t \<in> {''queued'', ''awaiting_approval''}) ''failed'' (now env)
               (ai_tasks s)\<rparr>)))"

end
