(* ===== verification/Approvals.thy ===== *)
theory Approvals
  imports Policy
begin

text \<open>
  The effects of an AI job in \<open>internal/modules/ai_policy.go\<close>: an effect is requested, waits for an approval when one is required, is
  dispatched once, with its cost reserved in the accounts of the day, and settled.
\<close>

subsection \<open>Reserving the cost\<close>

definition account_for :: "policy_lib \<Rightarrow> 'z core \<Rightarrow> account_row list \<Rightarrow> string \<times> string \<times> string \<Rightarrow> amounts option" where
  "account_for L C as k =
     (case get_row ap_key k as of
        None \<Rightarrow> Some no_amounts
      | Some a \<Rightarrow>
          (case open_amounts L C (ap_payload a) (aiPolicyAccountAAD (ap_scope a) (ap_scope_id a) (ap_day a)) of
             None \<Rightarrow> None
           | Some m \<Rightarrow> (if am_used m < 0 \<or> am_reserved m < 0 then None else Some m)))"

definition over_cap :: "int \<Rightarrow> int \<Rightarrow> amounts \<Rightarrow> bool" where
  "over_cap cap reserve m \<longleftrightarrow> cap > 0 \<and> (am_used m > max_int64 - am_reserved m \<or> am_used m + am_reserved m > max_int64 - reserve
     \<or> am_used m + am_reserved m + reserve > cap)"

definition reserve_of :: "policy_section \<Rightarrow> policy_effect \<Rightarrow> int" where
  "reserve_of p e = (if pe_reserve e = 0 \<and> pe_action e \<noteq> ''tool'' then po_reserve p else pe_reserve e)"

definition scopes_of :: "task_identity \<Rightarrow> (string \<times> string) list" where
  "scopes_of t = [(''global'', ''global''), (''bot'', ti_user t), (''source_user'', ti_source_user t)]"

definition next_ledger :: "ledger_row list \<Rightarrow> int" where
  "next_ledger ls = (if ls = [] then 1 else Max (set (map lg_id ls)) + 1)"

definition put_account :: "'z core \<Rightarrow> bytes \<Rightarrow> string \<times> string \<times> string \<Rightarrow> amounts \<Rightarrow> account_row list \<Rightarrow> account_row list" where
  "put_account C n k m = (case k of (scope, i, day) \<Rightarrow> upsert_row ap_key (\<lambda>new old. old\<lparr>ap_payload := ap_payload new\<rparr>)
     \<lparr>ap_scope = scope, ap_scope_id = i, ap_day = day,
      ap_payload = Seal (prim C) (eng C) n (amounts_json m) (aiPolicyAccountAAD scope i day)\<rparr>)"

text \<open>One scope: its account, the row of the ledger, the account with the reservation; statement \<open>n\<close> is the first of three.\<close>

definition reserve_scope ::
  "policy_lib \<Rightarrow> 'w policy_core \<Rightarrow> policy_section \<Rightarrow> env \<Rightarrow> nat \<Rightarrow> ident \<Rightarrow> policy_effect \<Rightarrow> int \<Rightarrow> string \<Rightarrow> string \<times> string \<Rightarrow>
    'w policy_db_scheme \<Rightarrow> 'w policy_db_scheme option" where
  "reserve_scope L C p env n request e reserve day sc s =
     (case sc of (scope, i) \<Rightarrow>
      case (if flt env n then None else account_for L C (policy_accounts s) (scope, i, day)) of
        None \<Rightarrow> None
      | Some m \<Rightarrow>
          (if over_cap (aiPolicyCap p scope) reserve m then None
           else case (if flt env (n + 1) then None else insert_row lg_key \<lparr>lg_id = next_ledger (policy_ledger s), lg_request = request,
               lg_job = pe_job e, lg_scope = scope, lg_scope_id = i, lg_day = day,
               lg_amounts = Seal (prim C) (eng C) (draws env n) (amounts_json (no_amounts\<lparr>am_reserved := reserve,
                 am_currency := po_currency p\<rparr>)) (amounts_aad request scope),
               lg_payload = Seal (prim C) (eng C) (draws env (n + 1)) (entry_json e scope i day) (ledger_aad request scope),
               lg_status = ''reserved'', lg_created = now env, lg_updated = now env\<rparr> (policy_ledger s)) of
             None \<Rightarrow> None
           | Some ls \<Rightarrow>
               (if am_reserved m > max_int64 - reserve \<or> flt env (n + 2) then None
                else Some (s\<lparr>policy_ledger := ls, policy_accounts := put_account C (draws env (n + 2)) (scope, i, day)
                  (m\<lparr>am_reserved := am_reserved m + reserve\<rparr>) (policy_accounts s)\<rparr>))))"

fun reserve_scopes ::
  "policy_lib \<Rightarrow> 'w policy_core \<Rightarrow> policy_section \<Rightarrow> env \<Rightarrow> nat \<Rightarrow> ident \<Rightarrow> policy_effect \<Rightarrow> int \<Rightarrow> string \<Rightarrow> (string \<times> string) list \<Rightarrow>
    'w policy_db_scheme \<Rightarrow> 'w policy_db_scheme option" where
  "reserve_scopes L C p env n request e reserve day [] s = Some s"
| "reserve_scopes L C p env n request e reserve day (sc # scs) s =
     (case reserve_scope L C p env n request e reserve day sc s of
        None \<Rightarrow> None
      | Some s1 \<Rightarrow> reserve_scopes L C p env (n + 3) request e reserve day scs s1)"

definition aiPolicyReserveTx ::
  "policy_lib \<Rightarrow> 'w policy_core \<Rightarrow> policy_section \<Rightarrow> env \<Rightarrow> nat \<Rightarrow> ident \<Rightarrow> task_identity \<Rightarrow> policy_effect \<Rightarrow>
    'w policy_db_scheme \<Rightarrow> 'w policy_db_scheme option" where
  "aiPolicyReserveTx L C p env n request t e s =
     (if reserve_of p e < 0 then None
      else reserve_scopes L C p env n request e (reserve_of p e) (utc_day (now env)) (scopes_of t) s)"

subsection \<open>Dispatching\<close>

datatype begin_result = Dispatched ident | Pending | Refused

definition notice_data :: "policy_lib \<Rightarrow> policy_effect \<Rightarrow> ident \<Rightarrow> string" where
  "notice_data L e request = json_object
     [json_member ''action'' (json_string (pe_action e)),
      json_member ''confidentiality'' (json_string (if take 8 (pe_destination e) = ''vault://'' then ''integrated_storage'' else ''external_plaintext'')),
      json_member ''destination_origin'' (json_string (aiPolicyOrigin L (pe_destination e))),
      json_member ''job'' (json_string (pe_job e)), json_member ''name'' (json_string (pe_name e)),
      json_member ''request_id'' (json_string request)]"

definition required_data :: "ident \<Rightarrow> ident \<Rightarrow> string" where
  "required_data job request = json_object [json_member ''action'' (json_string ''approval_required''),
     json_member ''job'' (json_string job), json_member ''request_id'' (json_string request)]"

definition set_job_status :: "ident \<Rightarrow> string \<Rightarrow> string \<Rightarrow> time \<Rightarrow> 'w policy_db_scheme \<Rightarrow> 'w policy_db_scheme" where
  "set_job_status job from' to' t s = s\<lparr>ai_jobs := set_jobs (\<lambda>j. j_id j = job \<and> j_status j = from') to' t (ai_jobs s),
     ai_tasks := set_tasks (\<lambda>x. at_id x = job \<and> at_status x = from') to' t (ai_tasks s)\<rparr>"

text \<open>The latest grant of a request.\<close>

definition latest_grant :: "ident \<Rightarrow> policy_grant_row list \<Rightarrow> policy_grant_row option" where
  "latest_grant request gs = query_row (sort_key (\<lambda>g. - pg_issued g) (filter (\<lambda>g. pg_request g = request) gs))"

text \<open>Whether the grant of a required effect may be used: \<open>Inl True\<close> when there is none yet.\<close>

definition check_grant ::
  "policy_lib \<Rightarrow> 'w policy_core \<Rightarrow> policy_section \<Rightarrow> env \<Rightarrow> nat \<Rightarrow> 'w policy_db_scheme \<Rightarrow> ident \<Rightarrow> task_identity \<Rightarrow> policy_effect \<Rightarrow>
    bool + policy_grant_row" where
  "check_grant L C p env n s request t e =
     (case (if flt env n then None else latest_grant request (policy_grants s)) of
        None \<Rightarrow> Inl True
      | Some g \<Rightarrow>
          (if pg_used g \<noteq> 0 \<or> pg_revoked g \<noteq> 0 then Inl False
           else if flt env (n + 1) \<or> pg_nonce g \<in> set (map rv_nonce (policy_revocations s)) then Inl False
           else case Open (prim C) (eng C) (pg_token g) (aiPolicyAAD ''grant'' (pg_id g)) of
             Inl _ \<Rightarrow> Inl False
           | Inr token \<Rightarrow> (if aiPolicyVerifyToken L C p token request t e (now env) then Inr g else Inl False)))"

definition use_grant :: "time \<Rightarrow> ident \<Rightarrow> policy_grant_row list \<Rightarrow> policy_grant_row list" where
  "use_grant t i = update_rows (\<lambda>g. pg_id g = i \<and> pg_used g = 0 \<and> pg_revoked g = 0) (\<lambda>g. g\<lparr>pg_used := t\<rparr>)"

text \<open>The statements after the grant; the first of them is number \<open>n\<close>.\<close>

definition dispatch_rows ::
  "policy_lib \<Rightarrow> 'w policy_core \<Rightarrow> policy_section \<Rightarrow> env \<Rightarrow> nat \<Rightarrow> ident \<Rightarrow> task_identity \<Rightarrow> policy_effect \<Rightarrow>
    'w policy_db_scheme \<Rightarrow> 'w policy_db_scheme option" where
  "dispatch_rows L C p env n request t e s =
     (case aiPolicyReserveTx L C p env n request t e s of
        None \<Rightarrow> None
      | Some s1 \<Rightarrow>
          (case Append C (shift_env (n + 9) env) s1 (ti_chat t) ''ai.egress.notice'' [] (Some (notice_data L e request)) of
             Inl _ \<Rightarrow> None
           | Inr (seq, s2) \<Rightarrow>
               (if flt env (n + 11) \<or> flt env (n + 12) \<or> flt env (n + 13) then None
                else Some (set_job_status (pe_job e) ''awaiting_approval'' ''running'' (now env)
                  (s2\<lparr>policy_requests := update_rows (\<lambda>r. pr_id r = request \<and> pr_status r = ''approved'')
                    (\<lambda>r. r\<lparr>pr_status := ''dispatched'', pr_dispatched := now env, pr_updated := now env\<rparr>) (policy_requests s2)\<rparr>)))))"

text \<open>\<open>Inl True\<close> is a pending approval, \<open>Inl False\<close> another error.\<close>

definition aiPolicyDispatchTx ::
  "policy_lib \<Rightarrow> 'w policy_core \<Rightarrow> policy_section \<Rightarrow> env \<Rightarrow> nat \<Rightarrow> ident \<Rightarrow> task_identity \<Rightarrow> policy_effect \<Rightarrow>
    'w policy_db_scheme \<Rightarrow> bool + 'w policy_db_scheme" where
  "aiPolicyDispatchTx L C p env n request t e s =
     (if ti_status t \<noteq> ''running'' \<or> \<not> aiTaskAuthorized (flt env n) s t then Inl False
      else case (if flt env (n + 1) then None else get_row pr_id request (policy_requests s)) of
        None \<Rightarrow> Inl False
      | Some r \<Rightarrow>
          (if pr_expires r \<le> now env then Inl False
           else if \<not> aiPolicyRequired p e
           then (case dispatch_rows L C p env (n + 5) request t e s of None \<Rightarrow> Inl False | Some s1 \<Rightarrow> Inr s1)
           else case check_grant L C p env (n + 2) s request t e of
             Inl pending' \<Rightarrow> Inl pending'
           | Inr g \<Rightarrow>
               (if flt env (n + 4) then Inl False
                else case dispatch_rows L C p env (n + 5) request t e
                    (s\<lparr>policy_grants := use_grant (now env) (pg_id g) (policy_grants s)\<rparr>) of
                  None \<Rightarrow> Inl False
                | Some s1 \<Rightarrow> Inr s1)))"

text \<open>The version of the session of a task, 0 for a job of a chat; \<open>None\<close> when the query fails.\<close>

definition aiPolicySessionVersion :: "bool \<Rightarrow> 'w ai_db_scheme \<Rightarrow> ident \<Rightarrow> int option" where
  "aiPolicySessionVersion fail s job =
     (if fail then None
      else case query_row [as_version n. n \<leftarrow> ai_sessions s, t \<leftarrow> ai_tasks s, at_chat t = as_chat n \<and> at_agent t = as_agent n \<and> at_id t = job] of
        None \<Rightarrow> Some 0
      | Some v \<Rightarrow> Some v)"

definition new_request ::
  "'w policy_core \<Rightarrow> policy_section \<Rightarrow> env \<Rightarrow> task_identity \<Rightarrow> policy_effect \<Rightarrow> int \<Rightarrow> bytes \<Rightarrow> request_row" where
  "new_request C p env t e version cont = \<lparr>pr_id = pe_id e, pr_job = pe_job e, pr_chat = ti_chat t,
     pr_source_user = ti_source_user t, pr_source_device = ti_source_device t, pr_ai_user = ti_user t, pr_ai_device = ti_device t,
     pr_epoch = ti_epoch t, pr_hash = aiPolicyEffectHash C e, pr_action = pe_action e, pr_name = pe_name e,
     pr_destination = digest C (pe_destination e),
     pr_payload = seal_stored C (nonce env) (pe_id e) \<lparr>so_effect = e, so_continuation = cont, so_epoch = ti_epoch t, so_session = version\<rparr>,
     pr_status = ''awaiting'', pr_expires = now env + maxInt (po_ttl p) 1, pr_created = now env, pr_updated = now env, pr_outcome = [],
     pr_dispatched = 0\<rparr>"

text \<open>The end of \<open>aiPolicyBegin\<close>: dispatch and commit; \<open>s0\<close> is the store before the transaction.\<close>

definition begin_dispatch ::
  "policy_lib \<Rightarrow> 'w policy_core \<Rightarrow> policy_section \<Rightarrow> env \<Rightarrow> task_identity \<Rightarrow> policy_effect \<Rightarrow> 'w policy_db_scheme \<Rightarrow> 'w policy_db_scheme \<Rightarrow>
    begin_result \<times> effect list \<times> 'w policy_db_scheme" where
  "begin_dispatch L C p env t e s0 s =
     (case aiPolicyDispatchTx L C p env 12 (pe_id e) t e s of
        Inl pending' \<Rightarrow> (if pending' then Pending else Refused, [], s0)
      | Inr s1 \<Rightarrow> (if flt env 31 then (Refused, [], s0) else (Dispatched (pe_id e), [Wake (ti_chat t)], s1)))"

definition begin_new ::
  "policy_lib \<Rightarrow> 'w policy_core \<Rightarrow> policy_section \<Rightarrow> env \<Rightarrow> task_identity \<Rightarrow> policy_effect \<Rightarrow> int \<Rightarrow> bytes \<Rightarrow> 'w policy_db_scheme \<Rightarrow>
    begin_result \<times> effect list \<times> 'w policy_db_scheme" where
  "begin_new L C p env t e version cont s =
     (case (if flt env 6 then None else insert_row pr_id (new_request C p env t e version cont) (policy_requests s)) of
        None \<Rightarrow> (Refused, [], s)
      | Some rs \<Rightarrow>
          (if aiPolicyRequired p e then
             (if flt env 7 \<or> flt env 8 then (Refused, [], s)
              else case Append C (shift_env 9 env) (set_job_status (pe_job e) ''running'' ''awaiting_approval'' (now env)
                  (s\<lparr>policy_requests := rs\<rparr>)) (ti_chat t) ''ai.approval.required'' [] (Some (required_data (pe_job e) (pe_id e))) of
                Inl _ \<Rightarrow> (Refused, [], s)
              | Inr (seq, s1) \<Rightarrow> (if flt env 11 then (Refused, [], s) else (Pending, [Wake (ti_chat t)], s1)))
           else if flt env 7 then (Refused, [], s)
           else begin_dispatch L C p env t e s
             (s\<lparr>policy_requests := set_requests (\<lambda>r. pr_id r = pe_id e) ''approved'' (now env) rs\<rparr>)))"

definition given_effect :: "env \<Rightarrow> policy_effect \<Rightarrow> policy_effect" where
  "given_effect env e = (if pe_id e = [] then e\<lparr>pe_id := uuid env\<rparr> else e)"

definition aiPolicyBegin ::
  "'w policy_db_scheme runtime \<Rightarrow> policy_lib \<Rightarrow> 'w policy_core \<Rightarrow> env \<Rightarrow> 'w policy_db_scheme \<Rightarrow> policy_effect \<Rightarrow> bytes \<Rightarrow>
    begin_result \<times> effect list \<times> 'w policy_db_scheme" where
  "aiPolicyBegin R L C env s e0 cont =
     (let p = set_ai_policy (rt_settings R); e = given_effect env e0; refused = (Refused, [], s) in
      if \<not> feat_ai_policy (rt_features R) \<or> pe_reserve e < 0 \<or> flt env 0 then refused
      else case aiTaskLookup (shift_faults 1 (flt env)) s (pe_job e) of
        None \<Rightarrow> refused
      | Some t \<Rightarrow>
          (if ti_status t \<noteq> ''running'' \<or> \<not> aiTaskAuthorized (flt env 3) s t then refused
           else case aiPolicySessionVersion (flt env 4) s (pe_job e) of
             None \<Rightarrow> refused
           | Some version \<Rightarrow>
               (if pe_epoch e \<noteq> ti_epoch t \<or> pe_session e \<noteq> version \<or> flt env 5 then refused
                else case query_row (filter (\<lambda>r. pr_id r = pe_id e \<and> pr_job r = pe_job e) (policy_requests s)) of
                  None \<Rightarrow> begin_new L C p env t e version cont s
                | Some r \<Rightarrow>
                    (if pr_hash r \<noteq> aiPolicyEffectHash C e then refused
                     else if pr_status r = ''awaiting'' then (Pending, [], s)
                     else if pr_status r \<noteq> ''approved'' then refused
                     else begin_dispatch L C p env t e s s))))"

subsection \<open>Settling\<close>

text \<open>One row of the ledger: its new amounts and, when the effect completed, its account. \<open>n\<close> is the first of three statements.\<close>

definition settle_row ::
  "policy_lib \<Rightarrow> 'w policy_core \<Rightarrow> policy_section \<Rightarrow> env \<Rightarrow> nat \<Rightarrow> string \<Rightarrow> int \<Rightarrow> bool \<Rightarrow> usage \<Rightarrow> ledger_row \<Rightarrow>
    'w policy_db_scheme \<Rightarrow> 'w policy_db_scheme option" where
  "settle_row L C p env n status' actual known u l s =
     (case open_amounts L C (lg_amounts l) (amounts_aad (lg_request l) (lg_scope l)) of
        None \<Rightarrow> None
      | Some old \<Rightarrow>
          (let completed' = (status' = ''completed''); cost = (if completed' then actual else 0);
               new = \<lparr>am_reserved = (if completed' then 0 else am_reserved old), am_cost = cost, am_used = 0, am_input = us_input u,
                 am_output = us_output u, am_cache_read = us_cache_read u, am_cache_write = us_cache_write u, am_known = known,
                 am_currency = po_currency p\<rparr>;
               s1 = s\<lparr>policy_ledger := update_rows (\<lambda>x. lg_id x = lg_id l) (\<lambda>x. x\<lparr>lg_amounts := Seal (prim C) (eng C) (draws env n)
                 (amounts_json new) (amounts_aad (lg_request l) (lg_scope l)), lg_status := status', lg_updated := now env\<rparr>) (policy_ledger s)\<rparr>;
               k = (lg_scope l, lg_scope_id l, lg_day l) in
           if flt env n then None
           else if \<not> completed' then Some s1
           else case (if flt env (n + 1) then None else get_row ap_key k (policy_accounts s)) of
             None \<Rightarrow> None
           | Some a \<Rightarrow>
               (case open_amounts L C (ap_payload a) (aiPolicyAccountAAD (lg_scope l) (lg_scope_id l) (lg_day l)) of
                  None \<Rightarrow> None
                | Some m \<Rightarrow>
                    (if am_reserved m < am_reserved old \<or> am_used m > max_int64 - cost \<or> flt env (n + 2) then None
                     else Some (s1\<lparr>policy_accounts := update_rows (\<lambda>x. ap_key x = k) (\<lambda>x. x\<lparr>ap_payload :=
                       Seal (prim C) (eng C) (draws env (n + 1)) (amounts_json (m\<lparr>am_reserved := am_reserved m - am_reserved old,
                         am_used := am_used m + cost\<rparr>)) (aiPolicyAccountAAD (lg_scope l) (lg_scope_id l) (lg_day l))\<rparr>) (policy_accounts s)\<rparr>)))))"

fun settle_rows ::
  "policy_lib \<Rightarrow> 'w policy_core \<Rightarrow> policy_section \<Rightarrow> env \<Rightarrow> nat \<Rightarrow> string \<Rightarrow> int \<Rightarrow> bool \<Rightarrow> usage \<Rightarrow> ledger_row list \<Rightarrow>
    'w policy_db_scheme \<Rightarrow> 'w policy_db_scheme option" where
  "settle_rows L C p env n status' actual known u [] s = Some s"
| "settle_rows L C p env n status' actual known u (l # ls) s =
     (case settle_row L C p env n status' actual known u l s of
        None \<Rightarrow> None
      | Some s1 \<Rightarrow> settle_rows L C p env (n + 3) status' actual known u ls s1)"

text \<open>\<open>success\<close>: the outcome is one of the two words, in any case.\<close>

definition outcome_success :: "policy_lib \<Rightarrow> string \<Rightarrow> bool" where
  "outcome_success L outcome \<longleftrightarrow> pl_lower L outcome \<in> {''success'', ''succeeded''}"

definition usage_known :: "policy_effect \<Rightarrow> usage \<Rightarrow> bool" where
  "usage_known e u \<longleftrightarrow> pe_action e = ''tool'' \<or> (us_known u \<and> us_input u \<ge> 0 \<and> us_output u \<ge> 0)"

text \<open>The flag says whether it returned nil.\<close>

definition aiPolicySettle ::
  "policy_lib \<Rightarrow> 'w policy_core \<Rightarrow> policy_section \<Rightarrow> env \<Rightarrow> 'w policy_db_scheme \<Rightarrow> ident \<Rightarrow> usage \<Rightarrow> string \<Rightarrow> bool \<times> 'w policy_db_scheme" where
  "aiPolicySettle L C p env s i u outcome =
     (case (if flt env 0 \<or> flt env 1 then None else get_row pr_id i (policy_requests s)) of
        None \<Rightarrow> (False, s)
      | Some r \<Rightarrow>
          (if pr_status r = ''completed'' then (True, s)
           else if pr_status r \<noteq> ''dispatched'' \<and> pr_status r \<noteq> ''uncertain'' then (False, s)
           else case aiPolicyOpenStored L C i (pr_payload r) of
             None \<Rightarrow> (False, s)
           | Some o' \<Rightarrow>
               (let e = so_effect o'; known = usage_known e u in
                case (if known then aiPolicyCost e u else Some (reserve_of p e)) of
                  None \<Rightarrow> (False, s)
                | Some actual \<Rightarrow>
                    (let status' = (if known \<and> outcome_success L outcome then ''completed'' else ''uncertain'');
                         ls = filter (\<lambda>l. lg_request l = i) (policy_ledger s); n = length ls in
                     if flt env 2 then (False, s)
                     else case settle_rows L C p env 3 status' actual known u ls s of
                       None \<Rightarrow> (False, s)
                     | Some s1 \<Rightarrow>
                         (if flt env (3 + 3 * n) \<or> flt env (4 + 3 * n) then (False, s)
                          else (True, s1\<lparr>policy_requests := update_rows (\<lambda>x. pr_id x = i)
                            (\<lambda>x. x\<lparr>pr_status := status', pr_outcome := outcome, pr_updated := now env\<rparr>) (policy_requests s1)\<rparr>))))))"

end
