(* ===== verification/Approving.thy ===== *)
theory Approving
  imports Approvals
begin

text \<open>
  The rest of \<open>internal/modules/ai_policy.go\<close>: the continuation of an approved effect, the approval and the revocation of grants,
  and what the management API shows.
\<close>

subsection \<open>Continuations\<close>

text \<open>The latest approved request of a job; rows are in rowid order.\<close>

definition approved_request :: "ident \<Rightarrow> request_row list \<Rightarrow> request_row option" where
  "approved_request job rs = query_row (rev (filter (\<lambda>r. pr_job r = job \<and> pr_status r = ''approved'') rs))"

definition continuation_bound :: "stored_effect \<Rightarrow> ident \<Rightarrow> task_identity \<Rightarrow> int \<Rightarrow> bool" where
  "continuation_bound o' job t version \<longleftrightarrow> so_epoch o' = ti_epoch t \<and> so_session o' = version \<and> pe_job (so_effect o') = job
     \<and> pe_epoch (so_effect o') = ti_epoch t \<and> pe_session (so_effect o') = version"

text \<open>What both readers of a continuation check; statement \<open>n\<close> is the lookup of the task.\<close>

definition read_continuation ::
  "policy_lib \<Rightarrow> 'w policy_core \<Rightarrow> faults \<Rightarrow> nat \<Rightarrow> string list \<Rightarrow> 'w policy_db_scheme \<Rightarrow> ident \<Rightarrow> request_row \<Rightarrow> bytes option" where
  "read_continuation L C f n states s job r =
     (case aiTaskLookup (shift_faults n f) s job of
        None \<Rightarrow> None
      | Some t \<Rightarrow>
          (if ti_status t \<notin> set states \<or> \<not> aiTaskAuthorized (f (n + 2)) s t then None
           else case aiPolicySessionVersion (f (n + 3)) s job of
             None \<Rightarrow> None
           | Some version \<Rightarrow>
               (case aiPolicyOpenStored L C (pr_id r) (pr_payload r) of
                  None \<Rightarrow> None
                | Some o' \<Rightarrow> (if continuation_bound o' job t version then Some (so_continuation o') else None))))"

text \<open>Before the worker claims a job: no continuation when the job never asked for an approval.\<close>

definition aiPolicySaved :: "policy_lib \<Rightarrow> 'w policy_core \<Rightarrow> faults \<Rightarrow> 'w policy_db_scheme \<Rightarrow> ident \<Rightarrow> string + bytes" where
  "aiPolicySaved L C f s job =
     (if f 0 then Inl ''storage''
      else case approved_request job (policy_requests s) of
        None \<Rightarrow>
          (if f 1 then Inl ''storage''
           else if count_rows (\<lambda>r. pr_job r = job) (policy_requests s) = 0 then Inr []
           else Inl ''AI continuation request is not approved'')
      | Some r \<Rightarrow>
          (case read_continuation L C f 1 [''queued'', ''running''] s job r of
             None \<Rightarrow> Inl ''AI continuation binding mismatch''
           | Some c \<Rightarrow> Inr c))"

definition aiPolicyResume :: "policy_lib \<Rightarrow> 'w policy_core \<Rightarrow> faults \<Rightarrow> 'w policy_db_scheme \<Rightarrow> ident \<Rightarrow> bytes option" where
  "aiPolicyResume L C f s job =
     (case (if f 0 \<or> f 1 then None else approved_request job (policy_requests s)) of
        None \<Rightarrow> None
      | Some r \<Rightarrow> (if f 6 then None else read_continuation L C f 2 [''running''] s job r))"

subsection \<open>Approving\<close>

definition approval_matches :: "'w policy_core \<Rightarrow> request_row \<Rightarrow> stored_effect \<Rightarrow> bool" where
  "approval_matches C r o' \<longleftrightarrow> (let e = so_effect o' in pe_job e = pr_job r \<and> pe_action e = pr_action r \<and> pe_name e = pr_name r
     \<and> pe_hash e = pr_hash r \<and> digest C (pe_destination e) = pr_destination r)"

definition source_unchanged :: "request_row \<Rightarrow> task_identity \<Rightarrow> bool" where
  "source_unchanged r t \<longleftrightarrow> ti_chat t = pr_chat r \<and> ti_user t = pr_ai_user r \<and> ti_device t = pr_ai_device r
     \<and> ti_source_user t = pr_source_user r \<and> ti_source_device t = pr_source_device r \<and> ti_epoch t = pr_epoch r"

definition grant_of :: "ident \<Rightarrow> string \<Rightarrow> policy_grant_row list \<Rightarrow> policy_grant_row option" where
  "grant_of request h gs = query_row (filter (\<lambda>g. pg_request g = request \<and> pg_hash g = h) gs)"

text \<open>The columns \<open>id\<close>, \<open>nonce\<close> and the pair of request and hash are unique.\<close>

definition insert_grant :: "policy_grant_row \<Rightarrow> policy_grant_row list \<Rightarrow> policy_grant_row list option" where
  "insert_grant g gs =
     (if list_ex (\<lambda>x. pg_id x = pg_id g \<or> pg_nonce x = pg_nonce g \<or> (pg_request x = pg_request g \<and> pg_hash x = pg_hash g)) gs
      then None else Some (gs @ [g]))"

text \<open>The rows of a new grant and of the request that is no longer waiting; statement \<open>7\<close> of the handler is the first.\<close>

definition approve_rows ::
  "'w policy_core \<Rightarrow> env \<Rightarrow> 'w policy_db_scheme \<Rightarrow> string \<Rightarrow> policy_claims \<Rightarrow> request_row \<Rightarrow> ident \<Rightarrow> (nat \<times> string) + 'w policy_db_scheme" where
  "approve_rows C env s token c r grant =
     (case (if flt env 8 then None else insert_grant \<lparr>pg_id = grant, pg_request = pc_request c, pg_nonce = pc_nonce c,
          pg_hash = token_hash C token, pg_token = Seal (prim C) (eng C) (nonce env) token (aiPolicyAAD ''grant'' grant),
          pg_issued = now env, pg_expires = pc_expires c, pg_used = 0, pg_revoked = 0\<rparr> (policy_grants s)) of
        None \<Rightarrow> Inl (409, ''AI approval already exists'')
      | Some gs \<Rightarrow>
          (if flt env 9 \<or> flt env 10 \<or> flt env 11 then Inl (503, ''storage unavailable'')
           else Inr (set_job_status (pr_job r) ''awaiting_approval'' ''queued'' (now env) (s\<lparr>policy_grants := gs,
             policy_requests := set_requests (\<lambda>x. pr_id x = pc_request c \<and> pr_status x = ''awaiting'') ''approved'' (now env)
               (policy_requests s)\<rparr>))))"

text \<open>
  The reply is the grant and whether it existed before; a blank token is answered with an empty success. \<open>blank\<close> is the test
  whether trimming leaves nothing.
\<close>

definition aiPolicyApprove ::
  "'w policy_db_scheme runtime \<Rightarrow> policy_lib \<Rightarrow> 'w policy_core \<Rightarrow> env \<Rightarrow> 'w policy_db_scheme \<Rightarrow> string body \<Rightarrow>
    ((ident \<times> bool) option, 'w policy_db_scheme) outcome" where
  "aiPolicyApprove R L C env s b =
     (let p = set_ai_policy (rt_settings R) in
      case Decode b of
        Inl m \<Rightarrow> Error 400 m s
      | Inr token \<Rightarrow>
      (if rt_blank R token then (Reply 200 None, [], s)
       else case aiPolicyParseToken L p (now env) token of
        None \<Rightarrow> Error 400 ''invalid AI approval'' s
      | Some c \<Rightarrow>
      (let idempotent = (\<lambda>n g. if flt env n then Error 503 ''storage unavailable'' s else (Reply 200 (Some (pg_id g, True)), [], s));
           existing = (\<lambda>n. if flt env n then None else grant_of (pc_request c) (token_hash C token) (policy_grants s)) in
       if flt env 0 then Error 503 ''storage unavailable'' s
       else case (if flt env 1 then None else get_row pr_id (pc_request c) (policy_requests s)) of
        None \<Rightarrow> Error 404 ''AI request not found'' s
      | Some r \<Rightarrow>
      (if pr_status r \<noteq> ''awaiting'' \<or> pr_expires r \<le> now env then
         (case existing 2 of Some g \<Rightarrow> idempotent 3 g | None \<Rightarrow> Error 409 ''AI request is no longer awaiting approval'' s)
       else case aiTaskLookup (shift_faults 2 (flt env)) s (pr_job r) of
        None \<Rightarrow> Error 409 ''AI job is not awaiting approval'' s
      | Some t0 \<Rightarrow>
      (let t = t0\<lparr>ti_status := ''running''\<rparr> in
       if ti_status t0 \<noteq> ''awaiting_approval'' then Error 409 ''AI job is not awaiting approval'' s
       else if \<not> source_unchanged r t \<or> \<not> aiTaskAuthorized (flt env 4) s t
       then Error 403 ''AI approval source is no longer authorized'' s
       else case aiPolicyOpenStored L C (pc_request c) (pr_payload r) of
        None \<Rightarrow> Error 400 ''AI request payload unavailable'' s
      | Some o' \<Rightarrow>
      (if \<not> approval_matches C r o' then Error 400 ''AI request payload unavailable'' s
       else if \<not> aiPolicyVerifyToken L C p token (pc_request c) t (so_effect o') (now env) \<or> pc_destination c \<noteq> pr_destination r
       then Error 400 ''AI approval claims do not match request'' s
       else case existing 5 of
        Some g \<Rightarrow> idempotent 6 g
      | None \<Rightarrow>
      (if flt env 7 then Error 503 ''storage unavailable'' s
       else if pc_nonce c \<in> rv_nonce ` set (policy_revocations s) then Error 409 ''AI grant revoked'' s
       else let grant = (if pc_nonce c = [] then uuid env else pc_nonce c) in
        case approve_rows C env s token c r grant of
          Inl (code, m) \<Rightarrow> Error code m s
        | Inr s1 \<Rightarrow>
            (if flt env 12 then Error 503 ''storage unavailable'' s
             else (Reply 200 (Some (grant, False)), [Wake (pr_chat r)], s1)))))))))"

subsection \<open>Revoking\<close>

text \<open>A grant that is not known yet is revoked in advance, by the nonce its token will have.\<close>

definition aiPolicyRevoke :: "env \<Rightarrow> 'w policy_db_scheme \<Rightarrow> ident \<Rightarrow> (ident, 'w policy_db_scheme) outcome" where
  "aiPolicyRevoke env s grant =
     (if grant = [] then Error 400 ''invalid grant'' s
      else if flt env 0 \<or> flt env 1 then Error 503 ''storage unavailable'' s
      else let n = (case get_row pg_id grant (policy_grants s) of None \<Rightarrow> grant | Some g \<Rightarrow> pg_nonce g) in
        if flt env 2 \<or> flt env 3 \<or> flt env 4 then Error 503 ''storage unavailable'' s
        else (Reply 200 grant, [], s\<lparr>policy_revocations :=
            (if list_ex (\<lambda>x. rv_id x = grant \<or> rv_nonce x = n) (policy_revocations s) then policy_revocations s
             else policy_revocations s @ [\<lparr>rv_id = grant, rv_nonce = n, rv_at = now env\<rparr>]),
          policy_grants := update_rows (\<lambda>g. pg_id g = grant) (\<lambda>g. g\<lparr>pg_revoked := now env\<rparr>) (policy_grants s)\<rparr>))"

subsection \<open>Reading\<close>

record request_view =
  qv_row :: request_row
  qv_session :: int
  qv_origin :: string
  qv_required :: bool
  qv_reserve :: int

definition aiPolicyRequest ::
  "policy_lib \<Rightarrow> 'w policy_core \<Rightarrow> env \<Rightarrow> 'w policy_db_scheme \<Rightarrow> ident \<Rightarrow> (request_view, 'w policy_db_scheme) outcome" where
  "aiPolicyRequest L C env s i =
     (if flt env 0 then Error 503 ''storage unavailable'' s
      else case get_row pr_id i (policy_requests s) of
        None \<Rightarrow> Error 404 ''AI request not found'' s
      | Some r \<Rightarrow>
          (case aiPolicyOpenStored L C i (pr_payload r) of
             None \<Rightarrow> Error 503 ''sealed AI request unavailable'' s
           | Some o' \<Rightarrow> (Reply 200 \<lparr>qv_row = r, qv_session = pe_session (so_effect o'),
               qv_origin = aiPolicyOrigin L (pe_destination (so_effect o')), qv_required = pe_required (so_effect o'),
               qv_reserve = pe_reserve (so_effect o')\<rparr>, [], s)))"

record usage_query =
  uq_limit :: "int option option"    \<comment> \<open>absent, or the number if it is one\<close>
  uq_user :: string
  uq_bot :: string
  uq_cursor :: "int option option"

definition usage_rows :: "usage_query \<Rightarrow> ledger_row list \<Rightarrow> ledger_row list" where
  "usage_rows q ls = sort_key (\<lambda>l. - lg_id l) (filter (\<lambda>l.
     (uq_user q \<noteq> [] \<longrightarrow> lg_scope l = ''source_user'' \<and> lg_scope_id l = uq_user q)
     \<and> (uq_bot q \<noteq> [] \<longrightarrow> lg_scope l = ''bot'' \<and> lg_scope_id l = uq_bot q)
     \<and> (case uq_cursor q of Some (Some n) \<Rightarrow> lg_id l < n | _ \<Rightarrow> True)) ls)"

text \<open>The amounts of the rows; one that cannot be opened fails the request, and so does one after the page. The cursor is set whenever the page is full.\<close>

definition aiPolicyUsage ::
  "policy_lib \<Rightarrow> 'w policy_core \<Rightarrow> env \<Rightarrow> 'w policy_db_scheme \<Rightarrow> usage_query \<Rightarrow>
    ((ledger_row \<times> amounts) list \<times> int option, 'w policy_db_scheme) outcome" where
  "aiPolicyUsage L C env s q =
     (let limit = (case uq_limit q of None \<Rightarrow> Some 100
          | Some None \<Rightarrow> None | Some (Some n) \<Rightarrow> if n < 1 \<or> n > 100 then None else Some (nat n)) in
      case limit of
        None \<Rightarrow> Error 400 ''invalid limit'' s
      | Some k \<Rightarrow>
          (if uq_user q \<noteq> [] \<and> uq_bot q \<noteq> [] then Error 400 ''user and bot filters are mutually exclusive'' s
           else if flt env 0 then Error 503 ''storage unavailable'' s
           else let ls = take (k + 1) (usage_rows q (policy_ledger s));
                    opened = map (\<lambda>l. map_option (Pair l) (open_amounts L C (lg_amounts l) (amounts_aad (lg_request l) (lg_scope l)))) ls;
                    items = take k (map the opened) in
             if None \<in> set opened then Error 503 ''sealed AI usage unavailable'' s
             else (Reply 200 (items, if length items = k then Some (lg_id (fst (last items))) else None), [], s)))"

end
