(* ===== verification/Budget.thy ===== *)
theory Budget
  imports Approving
begin

text \<open>
  The books of the policy module: for every account, what is reserved and used is the sum of the reservations and costs in the
  ledger. Shown for a dispatch, which adds three rows, and for settling an effect, which moves its rows from reserved to used.
\<close>

subsection \<open>Reading back what was written\<close>

definition counter :: "int \<Rightarrow> bool" where
  "counter n \<longleftrightarrow> 0 \<le> n \<and> n \<le> max_int64"

definition amounts_fit :: "amounts \<Rightarrow> bool" where
  "amounts_fit m \<longleftrightarrow> list_all counter [am_reserved m, am_cost m, am_used m, am_input m, am_output m, am_cache_read m, am_cache_write m]"

definition usage_fits :: "usage \<Rightarrow> bool" where
  "usage_fits u \<longleftrightarrow> list_all counter [us_input u, us_output u, us_cache_read u, us_cache_write u]"

text \<open>Decoding the JSON of amounts and of a stored effect gives their numbers back.\<close>

definition reads_amounts :: "policy_lib \<Rightarrow> bool" where
  "reads_amounts L \<longleftrightarrow> (\<forall>m. amounts_fit m \<longrightarrow> (\<exists>m'. pl_amounts L (amounts_json m) = Some m' \<and> m'\<lparr>am_currency := am_currency m\<rparr> = m))"

definition reads_stored :: "policy_lib \<Rightarrow> bool" where
  "reads_stored L \<longleftrightarrow> (\<forall>o'. counter (pe_reserve (so_effect o')) \<longrightarrow>
     (\<exists>x. pl_stored L (stored_json o') = Some x \<and> pe_reserve (so_effect x) = pe_reserve (so_effect o')))"

lemma amounts_eqD:
  assumes "m'\<lparr>am_currency := am_currency m\<rparr> = m"
  shows "am_reserved m' = am_reserved m" "am_cost m' = am_cost m" "am_used m' = am_used m"
  by (subst assms [symmetric], simp)+

lemma open_sealed_amounts:
  assumes "gcm_opens (prim C) (eng_aead (eng C))" "reads_amounts L" "amounts_fit m"
  obtains m' where "open_amounts L C (Seal (prim C) (eng C) n (amounts_json m) aad) aad = Some m'"
    "am_reserved m' = am_reserved m" "am_cost m' = am_cost m" "am_used m' = am_used m"
proof -
  obtain m' where m': "pl_amounts L (amounts_json m) = Some m'" "m'\<lparr>am_currency := am_currency m\<rparr> = m"
    using assms(2,3) by (auto simp: reads_amounts_def)
  show ?thesis by (rule that [OF _ amounts_eqD [OF m'(2)]]) (simp add: open_amounts_def Open_Seal [OF assms(1)] m'(1))
qed

lemma open_sealed_stored:
  assumes "gcm_opens (prim C) (eng_aead (eng C))" "reads_stored L" "counter (pe_reserve (so_effect o'))"
  obtains x where "aiPolicyOpenStored L C i (seal_stored C n i o') = Some x" "pe_reserve (so_effect x) = pe_reserve (so_effect o')"
  using assms by (force simp: aiPolicyOpenStored_def seal_stored_def Open_Seal reads_stored_def)

subsection \<open>Sums over the ledger\<close>

definition lg_account :: "ledger_row \<Rightarrow> string \<times> string \<times> string" where
  "lg_account l = (lg_scope l, lg_scope_id l, lg_day l)"

definition row_amounts :: "policy_lib \<Rightarrow> 'z core \<Rightarrow> ledger_row \<Rightarrow> amounts option" where
  "row_amounts L C l = open_amounts L C (lg_amounts l) (amounts_aad (lg_request l) (lg_scope l))"

definition entry :: "policy_lib \<Rightarrow> 'z core \<Rightarrow> (amounts \<Rightarrow> int) \<Rightarrow> string \<times> string \<times> string \<Rightarrow> ledger_row \<Rightarrow> int" where
  "entry L C f k l = (if lg_account l = k then (case row_amounts L C l of None \<Rightarrow> 0 | Some m \<Rightarrow> f m) else 0)"

definition booked :: "policy_lib \<Rightarrow> 'z core \<Rightarrow> (amounts \<Rightarrow> int) \<Rightarrow> string \<times> string \<times> string \<Rightarrow> ledger_row list \<Rightarrow> int" where
  "booked L C f k ls = sum_list (map (entry L C f k) ls)"

lemma booked_simps [simp]:
  "booked L C f k [] = 0" "booked L C f k (ls @ [l]) = booked L C f k ls + entry L C f k l"
  by (simp_all add: booked_def)

lemma sum_list_update_rows:
  fixes h :: "'r \<Rightarrow> int"
  assumes "unique_on key t" "r \<in> set t"
  shows "sum_list (map h (update_rows (\<lambda>x. key x = key r) g t)) = sum_list (map h t) - h r + h (g r)"
  using assms
proof (induction t)
  case (Cons x t)
  show ?case
  proof (cases "x = r")
    case True
    then have "update_rows (\<lambda>x. key x = key r) g t = t"
      using Cons.prems(1) by (intro update_rows_id) (auto simp: unique_on_def image_iff)
    with True show ?thesis by (simp add: update_rows_def)
  next
    case False
    with Cons.prems have r: "r \<in> set t" by simp
    then have "key x \<noteq> key r" using Cons.prems(1) by (auto simp: unique_on_def)
    moreover have "unique_on key t" using Cons.prems(1) by (simp add: unique_on_def)
    ultimately show ?thesis using Cons.IH r by (simp add: update_rows_def)
  qed
qed simp

lemma booked_update:
  "unique_on lg_id ls \<Longrightarrow> l \<in> set ls \<Longrightarrow>
    booked L C f k (update_rows (\<lambda>x. lg_id x = lg_id l) g ls) = booked L C f k ls - entry L C f k l + entry L C f k (g l)"
  by (simp add: booked_def sum_list_update_rows)

subsection \<open>The books\<close>

definition row_ok :: "policy_lib \<Rightarrow> 'z core \<Rightarrow> ledger_row \<Rightarrow> bool" where
  "row_ok L C l \<longleftrightarrow> (\<exists>m. row_amounts L C l = Some m \<and> counter (am_reserved m) \<and> counter (am_cost m)
     \<and> (lg_status l \<noteq> ''completed'' \<longrightarrow> am_cost m = 0) \<and> (lg_status l = ''completed'' \<longrightarrow> am_reserved m = 0))"

definition balanced :: "policy_lib \<Rightarrow> 'z core \<Rightarrow> ledger_row list \<Rightarrow> account_row list \<Rightarrow> string \<times> string \<times> string \<Rightarrow> bool" where
  "balanced L C ls as k \<longleftrightarrow> (\<exists>m. account_for L C as k = Some m \<and> counter (am_reserved m) \<and> counter (am_used m)
     \<and> amounts_fit m \<and> am_reserved m = booked L C am_reserved k ls \<and> am_used m = booked L C am_cost k ls)"

definition books_ok :: "policy_lib \<Rightarrow> 'z core \<Rightarrow> ledger_row list \<Rightarrow> account_row list \<Rightarrow> bool" where
  "books_ok L C ls as \<longleftrightarrow> unique_on lg_id ls \<and> unique_on lg_key ls \<and> unique_on ap_key as
     \<and> (\<forall>l \<in> set ls. row_ok L C l) \<and> (\<forall>k. balanced L C ls as k)"

lemma books_okD:
  assumes "books_ok L C ls as"
  shows "unique_on lg_id ls" "unique_on lg_key ls" "unique_on ap_key as" "l \<in> set ls \<Longrightarrow> row_ok L C l" "balanced L C ls as k"
  using assms unfolding books_ok_def by blast+

subsection \<open>Accounts\<close>

lemma open_sealed_account:
  assumes "gcm_opens (prim C) (eng_aead (eng C))" "reads_amounts L" "amounts_fit m"
  obtains m' where "open_amounts L C (Seal (prim C) (eng C) n (amounts_json m) aad) aad = Some m'"
    "am_reserved m' = am_reserved m" "am_used m' = am_used m" "amounts_fit m'"
proof -
  obtain m' where m': "pl_amounts L (amounts_json m) = Some m'" "m'\<lparr>am_currency := am_currency m\<rparr> = m"
    using assms(2,3) by (auto simp: reads_amounts_def)
  have "amounts_fit m' \<longleftrightarrow> amounts_fit (m'\<lparr>am_currency := am_currency m\<rparr>)" by (simp add: amounts_fit_def)
  with m'(2) assms(3) have "amounts_fit m'" by simp
  then show ?thesis
    by (intro that [OF _ amounts_eqD(1,3) [OF m'(2)]]) (simp_all add: open_amounts_def Open_Seal [OF assms(1)] m'(1))
qed

lemma ap_key_payload [simp]: "ap_key (a\<lparr>ap_payload := b\<rparr>) = ap_key a"
  by (simp add: ap_key_def)

lemma unique_put_account: "unique_on ap_key as \<Longrightarrow> unique_on ap_key (put_account C n k m as)"
  by (cases k) (simp add: put_account_def unique_on_upsert)

lemma account_for_put_other: "k' \<noteq> k \<Longrightarrow> account_for L C (put_account C n k m as) k' = account_for L C as k'"
  by (cases k) (simp add: put_account_def account_for_def get_row_upsert_other ap_key_def)

lemma account_for_put_same:
  assumes "gcm_opens (prim C) (eng_aead (eng C))" "reads_amounts L" "amounts_fit m"
  obtains m' where "account_for L C (put_account C n k m as) k = Some m'" "am_reserved m' = am_reserved m" "am_used m' = am_used m"
    "amounts_fit m'"
proof -
  obtain scope i day where k: "k = (scope, i, day)" by (cases k)
  define r where "r = \<lparr>ap_scope = scope, ap_scope_id = i, ap_day = day,
      ap_payload = Seal (prim C) (eng C) n (amounts_json m) (aiPolicyAccountAAD scope i day)\<rparr>"
  have rk: "ap_key r = k" by (simp add: r_def ap_key_def k)
  obtain a where a: "get_row ap_key k (put_account C n k m as) = Some a" "ap_payload a = ap_payload r"
    using get_row_upsert_same [of ap_key "\<lambda>new old. old\<lparr>ap_payload := ap_payload new\<rparr>" r as]
    by (simp add: put_account_def k r_def [symmetric] rk [unfolded k] split: option.splits)
  have "ap_key a = k" using a(1) by (blast dest: get_row_SomeD)
  then have "ap_scope a = scope" "ap_scope_id a = i" "ap_day a = day" by (simp_all add: ap_key_def k)
  moreover obtain m' where m': "open_amounts L C (ap_payload r) (aiPolicyAccountAAD scope i day) = Some m'"
      "am_reserved m' = am_reserved m" "am_used m' = am_used m" "amounts_fit m'"
    using open_sealed_account [OF assms, of n "aiPolicyAccountAAD scope i day"] by (auto simp: r_def)
  moreover have "0 \<le> am_used m" "0 \<le> am_reserved m" using assms(3) by (simp_all add: amounts_fit_def counter_def)
  ultimately show ?thesis using that [OF _ m'(2-4)] a by (simp add: account_for_def)
qed

subsection \<open>Reserving\<close>

lemma next_ledger_fresh: "next_ledger ls \<notin> lg_id ` set ls"
proof
  assume "next_ledger ls \<in> lg_id ` set ls"
  then obtain l where l: "l \<in> set ls" "lg_id l = next_ledger ls" by auto
  from l(1) have "lg_id l \<le> Max (lg_id ` set ls)" by (intro Max_ge) auto
  with l show False by (auto simp: next_ledger_def split: if_splits)
qed

lemma reserve_scope_Some:
  assumes "reserve_scope L C p env n request e reserve day (scope, i) s = Some s1"
  obtains m row where "account_for L C (policy_accounts s) (scope, i, day) = Some m" "\<not> over_cap (aiPolicyCap p scope) reserve m"
    "lg_key row \<notin> lg_key ` set (policy_ledger s)" "am_reserved m \<le> max_int64 - reserve"
    "row = \<lparr>lg_id = next_ledger (policy_ledger s), lg_request = request, lg_job = pe_job e, lg_scope = scope, lg_scope_id = i, lg_day = day,
       lg_amounts = Seal (prim C) (eng C) (draws env n) (amounts_json (no_amounts\<lparr>am_reserved := reserve, am_currency := po_currency p\<rparr>))
         (amounts_aad request scope),
       lg_payload = Seal (prim C) (eng C) (draws env (n + 1)) (entry_json e scope i day) (ledger_aad request scope),
       lg_status = ''reserved'', lg_created = now env, lg_updated = now env\<rparr>"
    "s1 = s\<lparr>policy_ledger := policy_ledger s @ [row], policy_accounts := put_account C (draws env (n + 2)) (scope, i, day)
       (m\<lparr>am_reserved := am_reserved m + reserve\<rparr>) (policy_accounts s)\<rparr>"
  using assms by (auto simp: reserve_scope_def split: option.splits if_splits dest!: insert_row_SomeD)

lemma reserve_scope_books:
  assumes gcm: "gcm_opens (prim C) (eng_aead (eng C))" and reads: "reads_amounts L"
    and step: "reserve_scope L C p env n request e reserve day (scope, i) s = Some s1"
    and ok: "books_ok L C (policy_ledger s) (policy_accounts s)" and reserve: "counter reserve"
  shows "books_ok L C (policy_ledger s1) (policy_accounts s1)"
proof -
  let ?k = "(scope, i, day)"
  from reserve_scope_Some [OF step] obtain m row where
    m: "account_for L C (policy_accounts s) ?k = Some m" "am_reserved m \<le> max_int64 - reserve"
    and fresh: "lg_key row \<notin> lg_key ` set (policy_ledger s)"
    and row: "row = \<lparr>lg_id = next_ledger (policy_ledger s), lg_request = request, lg_job = pe_job e, lg_scope = scope, lg_scope_id = i, lg_day = day,
       lg_amounts = Seal (prim C) (eng C) (draws env n) (amounts_json (no_amounts\<lparr>am_reserved := reserve, am_currency := po_currency p\<rparr>))
         (amounts_aad request scope),
       lg_payload = Seal (prim C) (eng C) (draws env (n + 1)) (entry_json e scope i day) (ledger_aad request scope),
       lg_status = ''reserved'', lg_created = now env, lg_updated = now env\<rparr>"
    and s1: "s1 = s\<lparr>policy_ledger := policy_ledger s @ [row], policy_accounts := put_account C (draws env (n + 2)) ?k
       (m\<lparr>am_reserved := am_reserved m + reserve\<rparr>) (policy_accounts s)\<rparr>" by blast
  have "amounts_fit (no_amounts\<lparr>am_reserved := reserve, am_currency := po_currency p\<rparr>)"
    using reserve by (simp add: amounts_fit_def no_amounts_def counter_def max_int64_def)
  from open_sealed_amounts [OF gcm reads this, of "draws env n" "amounts_aad request scope"] obtain r where
    r: "row_amounts L C row = Some r" "am_reserved r = reserve" "am_cost r = 0"
    by (auto simp: row_amounts_def row no_amounts_def)
  have rowok: "row_ok L C row" using r reserve by (simp add: row_ok_def row) (simp add: counter_def max_int64_def)
  have bal: "balanced L C (policy_ledger s @ [row]) (policy_accounts s1) k" for k
  proof (cases "k = ?k")
    case True
    from books_okD(5) [OF ok, of ?k] m have mk: "counter (am_reserved m)" "counter (am_used m)" "amounts_fit m"
      "am_reserved m = booked L C am_reserved ?k (policy_ledger s)" "am_used m = booked L C am_cost ?k (policy_ledger s)"
      by (auto simp: balanced_def)
    have "amounts_fit (m\<lparr>am_reserved := am_reserved m + reserve\<rparr>)"
      using mk(1,3) m(2) reserve by (simp add: amounts_fit_def counter_def)
    from account_for_put_same [OF gcm reads this, of "draws env (n + 2)" ?k "policy_accounts s"] obtain m' where
      "account_for L C (policy_accounts s1) ?k = Some m'" "am_reserved m' = am_reserved m + reserve" "am_used m' = am_used m" "amounts_fit m'"
      by (auto simp: s1)
    moreover have "entry L C am_reserved ?k row = reserve" "entry L C am_cost ?k row = 0"
      using r by (simp_all add: entry_def lg_account_def row)
    moreover have "counter (am_reserved m + reserve)" using mk(1) m(2) reserve by (simp add: counter_def)
    ultimately show ?thesis using mk True by (simp add: balanced_def)
  next
    case False
    then have "entry L C f k row = 0" for f by (auto simp: entry_def lg_account_def row)
    with False books_okD(5) [OF ok, of k] show ?thesis by (simp add: balanced_def s1 account_for_put_other)
  qed
  show ?thesis
    unfolding books_ok_def
  proof (intro conjI ballI allI)
    show "unique_on lg_id (policy_ledger s1)"
      using next_ledger_fresh [of "policy_ledger s"] by (simp add: s1 row unique_on_append1 [OF books_okD(1) [OF ok]])
    show "unique_on lg_key (policy_ledger s1)" using fresh by (simp add: s1 unique_on_append1 [OF books_okD(2) [OF ok]])
    show "unique_on ap_key (policy_accounts s1)" by (simp add: s1 unique_put_account [OF books_okD(3) [OF ok]])
    show "row_ok L C l" if "l \<in> set (policy_ledger s1)" for l using that rowok books_okD(4) [OF ok] by (auto simp: s1)
    show "balanced L C (policy_ledger s1) (policy_accounts s1) k" for k using bal [of k] by (simp add: s1)
  qed
qed

text \<open>What a reservation leaves as it is, and the room it found in an account.\<close>

lemma reserve_scope_frame:
  assumes "reserve_scope L C p env n request e reserve day sc s = Some s1"
  shows "\<exists>ls as. s1 = s\<lparr>policy_ledger := ls, policy_accounts := as\<rparr>"
  using assms by (cases sc) (auto elim!: reserve_scope_Some)

lemma reserve_scope_rows:
  assumes "reserve_scope L C p env n request e reserve day sc s = Some s1" "l \<in> set (policy_ledger s1)"
  shows "l \<in> set (policy_ledger s) \<or> lg_request l = request \<and> lg_status l = ''reserved''"
  using assms by (cases sc) (auto elim!: reserve_scope_Some)

lemma reserve_scope_account:
  assumes gcm: "gcm_opens (prim C) (eng_aead (eng C))" and reads: "reads_amounts L"
    and step: "reserve_scope L C p env n request e reserve day (scope, i) s = Some s1"
    and ok: "books_ok L C (policy_ledger s) (policy_accounts s)" and reserve: "counter reserve"
  obtains m where "account_for L C (policy_accounts s1) (scope, i, day) = Some m"
    "aiPolicyCap p scope > 0 \<longrightarrow> am_used m + am_reserved m \<le> aiPolicyCap p scope"
proof -
  let ?k = "(scope, i, day)"
  from reserve_scope_Some [OF step] obtain m row where
    m: "account_for L C (policy_accounts s) ?k = Some m" "am_reserved m \<le> max_int64 - reserve" "\<not> over_cap (aiPolicyCap p scope) reserve m"
    and s1: "s1 = s\<lparr>policy_ledger := policy_ledger s @ [row], policy_accounts := put_account C (draws env (n + 2)) ?k
       (m\<lparr>am_reserved := am_reserved m + reserve\<rparr>) (policy_accounts s)\<rparr>" by metis
  from books_okD(5) [OF ok, of ?k] m(1) have mk: "counter (am_reserved m)" "amounts_fit m" by (auto simp: balanced_def)
  have "amounts_fit (m\<lparr>am_reserved := am_reserved m + reserve\<rparr>)"
    using mk m(2) reserve by (simp add: amounts_fit_def counter_def)
  from account_for_put_same [OF gcm reads this, of "draws env (n + 2)" ?k "policy_accounts s"] obtain m' where
    "account_for L C (policy_accounts s1) ?k = Some m'" "am_reserved m' = am_reserved m + reserve" "am_used m' = am_used m"
    by (auto simp: s1)
  then show ?thesis using m(3) by (intro that [of m']) (auto simp: over_cap_def)
qed

lemma reserve_scope_other:
  assumes "reserve_scope L C p env n request e reserve day sc s = Some s1" "k \<noteq> (fst sc, snd sc, day)"
  shows "account_for L C (policy_accounts s1) k = account_for L C (policy_accounts s) k"
  using assms by (cases sc) (auto elim!: reserve_scope_Some simp: account_for_put_other)

lemma policy_frame_id: "\<exists>ls as. s = s\<lparr>policy_ledger := ls, policy_accounts := as\<rparr>"
  by (intro exI [of _ "policy_ledger s"] exI [of _ "policy_accounts s"]) simp

lemma reserve_scopes_frame:
  "reserve_scopes L C p env n request e reserve day scs s = Some s1 \<Longrightarrow> \<exists>ls as. s1 = s\<lparr>policy_ledger := ls, policy_accounts := as\<rparr>"
proof (induction scs arbitrary: n s)
  case Nil
  then show ?case using policy_frame_id [of s] by simp
next
  case (Cons sc scs)
  then obtain s2 where s2: "reserve_scope L C p env n request e reserve day sc s = Some s2"
    "reserve_scopes L C p env (n + 3) request e reserve day scs s2 = Some s1" by (auto split: option.splits)
  from reserve_scope_frame [OF s2(1)] Cons.IH [OF s2(2)] show ?case by clarsimp blast
qed

lemma reserve_scopes_rows:
  "reserve_scopes L C p env n request e reserve day scs s = Some s1 \<Longrightarrow> l \<in> set (policy_ledger s1) \<Longrightarrow>
    l \<in> set (policy_ledger s) \<or> lg_request l = request \<and> lg_status l = ''reserved''"
  by (induction scs arbitrary: n s) (auto split: option.splits dest: reserve_scope_rows)

lemma reserve_scopes_books:
  assumes gcm: "gcm_opens (prim C) (eng_aead (eng C))" and reads: "reads_amounts L" and reserve: "counter reserve"
  shows "reserve_scopes L C p env n request e reserve day scs s = Some s1 \<Longrightarrow> books_ok L C (policy_ledger s) (policy_accounts s) \<Longrightarrow>
    books_ok L C (policy_ledger s1) (policy_accounts s1)"
proof (induction scs arbitrary: n s)
  case (Cons sc scs)
  then obtain s2 where s2: "reserve_scope L C p env n request e reserve day sc s = Some s2"
    "reserve_scopes L C p env (n + 3) request e reserve day scs s2 = Some s1" by (auto split: option.splits)
  have "books_ok L C (policy_ledger s2) (policy_accounts s2)"
    using reserve_scope_books [OF gcm reads _ Cons.prems(2) reserve] s2(1) by (cases sc) blast
  with Cons.IH s2(2) show ?case by blast
qed simp

text \<open>After all scopes, each of their accounts is within its cap.\<close>

definition within_cap :: "policy_lib \<Rightarrow> 'z core \<Rightarrow> policy_section \<Rightarrow> account_row list \<Rightarrow> string \<Rightarrow> string \<times> string \<Rightarrow> bool" where
  "within_cap L C p as day sc \<longleftrightarrow> (case account_for L C as (fst sc, snd sc, day) of None \<Rightarrow> False
     | Some m \<Rightarrow> aiPolicyCap p (fst sc) > 0 \<longrightarrow> am_used m + am_reserved m \<le> aiPolicyCap p (fst sc))"

lemma reserve_scopes_other:
  "reserve_scopes L C p env n request e reserve day scs s = Some s1 \<Longrightarrow> \<forall>sc \<in> set scs. k \<noteq> (fst sc, snd sc, day) \<Longrightarrow>
    account_for L C (policy_accounts s1) k = account_for L C (policy_accounts s) k"
  by (induction scs arbitrary: n s) (auto split: option.splits simp: reserve_scope_other)

lemma reserve_scopes_cap:
  assumes gcm: "gcm_opens (prim C) (eng_aead (eng C))" and reads: "reads_amounts L" and reserve: "counter reserve"
  shows "reserve_scopes L C p env n request e reserve day scs s = Some s1 \<Longrightarrow> books_ok L C (policy_ledger s) (policy_accounts s) \<Longrightarrow>
    distinct (map fst scs) \<Longrightarrow> sc \<in> set scs \<Longrightarrow> within_cap L C p (policy_accounts s1) day sc"
proof (induction scs arbitrary: n s)
  case (Cons x scs)
  then obtain s2 where s2: "reserve_scope L C p env n request e reserve day x s = Some s2"
    "reserve_scopes L C p env (n + 3) request e reserve day scs s2 = Some s1" by (auto split: option.splits)
  have books: "books_ok L C (policy_ledger s2) (policy_accounts s2)"
    using reserve_scope_books [OF gcm reads _ Cons.prems(2) reserve] s2(1) by (cases x) blast
  show ?case
  proof (cases "sc \<in> set scs")
    case True
    with Cons.IH [OF s2(2) books] Cons.prems(3) show ?thesis by simp
  next
    case False
    with Cons.prems(4) have x: "sc = x" by simp
    have "\<forall>y \<in> set scs. (fst sc, snd sc, day) \<noteq> (fst y, snd y, day)" using Cons.prems(3) x by force
    note same = reserve_scopes_other [OF s2(2) this]
    obtain m where "account_for L C (policy_accounts s2) (fst sc, snd sc, day) = Some m"
      "aiPolicyCap p (fst sc) > 0 \<longrightarrow> am_used m + am_reserved m \<le> aiPolicyCap p (fst sc)"
      using reserve_scope_account [OF gcm reads _ Cons.prems(2) reserve, of p env n request e day "fst sc" "snd sc" s2] s2(1) x by auto
    then show ?thesis by (simp add: within_cap_def same)
  qed
qed simp

subsection \<open>Settling\<close>

lemma settle_row_cases:
  assumes "settle_row L C p env n status' actual known u l s = Some s1"
  obtains old where "row_amounts L C l = Some old"
    "status' \<noteq> ''completed'' \<Longrightarrow> policy_accounts s1 = policy_accounts s"
    "s1 = s\<lparr>policy_accounts := policy_accounts s1, policy_ledger := update_rows (\<lambda>x. lg_id x = lg_id l) (\<lambda>x. x\<lparr>lg_amounts :=
       Seal (prim C) (eng C) (draws env n) (amounts_json \<lparr>am_reserved = (if status' = ''completed'' then 0 else am_reserved old),
         am_cost = (if status' = ''completed'' then actual else 0), am_used = 0, am_input = us_input u, am_output = us_output u,
         am_cache_read = us_cache_read u, am_cache_write = us_cache_write u, am_known = known, am_currency = po_currency p\<rparr>)
         (amounts_aad (lg_request l) (lg_scope l)), lg_status := status', lg_updated := now env\<rparr>) (policy_ledger s)\<rparr>"
    "status' = ''completed'' \<Longrightarrow> \<exists>a m. get_row ap_key (lg_account l) (policy_accounts s) = Some a
       \<and> open_amounts L C (ap_payload a) (aiPolicyAccountAAD (lg_scope l) (lg_scope_id l) (lg_day l)) = Some m
       \<and> am_reserved old \<le> am_reserved m \<and> am_used m \<le> max_int64 - actual
       \<and> policy_accounts s1 = update_rows (\<lambda>x. ap_key x = lg_account l) (\<lambda>x. x\<lparr>ap_payload := Seal (prim C) (eng C) (draws env (n + 1))
         (amounts_json (m\<lparr>am_reserved := am_reserved m - am_reserved old, am_used := am_used m + actual\<rparr>))
         (aiPolicyAccountAAD (lg_scope l) (lg_scope_id l) (lg_day l))\<rparr>) (policy_accounts s)"
  using assms
  by (cases "status' = ''completed''")
    (auto simp: settle_row_def row_amounts_def lg_account_def Let_def split: option.splits if_splits)

lemma account_for_update:
  assumes "unique_on ap_key as" "get_row ap_key k as = Some a" "k = (scope, i, day)" "gcm_opens (prim C) (eng_aead (eng C))"
    "reads_amounts L" "amounts_fit m"
  obtains m' where "account_for L C (update_rows (\<lambda>x. ap_key x = k) (\<lambda>x. x\<lparr>ap_payload := Seal (prim C) (eng C) n (amounts_json m)
      (aiPolicyAccountAAD scope i day)\<rparr>) as) k = Some m'" "am_reserved m' = am_reserved m" "am_used m' = am_used m" "amounts_fit m'"
proof -
  have a: "ap_key a = k" using assms(2) by (blast dest: get_row_SomeD)
  then have "ap_scope a = scope" "ap_scope_id a = i" "ap_day a = day" using assms(3) by (simp_all add: ap_key_def)
  moreover obtain m' where m': "open_amounts L C (Seal (prim C) (eng C) n (amounts_json m) (aiPolicyAccountAAD scope i day))
      (aiPolicyAccountAAD scope i day) = Some m'" "am_reserved m' = am_reserved m" "am_used m' = am_used m" "amounts_fit m'"
    using open_sealed_account [OF assms(4-6)] by blast
  moreover have "0 \<le> am_used m" "0 \<le> am_reserved m" using assms(6) by (simp_all add: amounts_fit_def counter_def)
  ultimately show ?thesis
    using that [OF _ m'(2-4)] a assms(2) by (simp add: account_for_def get_row_update_key)
qed

lemma account_for_update_other:
  "k' \<noteq> k \<Longrightarrow> account_for L C (update_rows (\<lambda>x. ap_key x = k) (\<lambda>x. x\<lparr>ap_payload := b\<rparr>) as) k' = account_for L C as k'"
  by (auto simp: account_for_def get_row_update_key split: option.splits dest: get_row_SomeD)

lemma settle_row_books:
  assumes gcm: "gcm_opens (prim C) (eng_aead (eng C))" and reads: "reads_amounts L"
    and step: "settle_row L C p env n status' actual known u l s = Some s1"
    and ok: "books_ok L C (policy_ledger s) (policy_accounts s)" and l: "l \<in> set (policy_ledger s)" "lg_status l \<noteq> ''completed''"
    and fits: "counter actual" "usage_fits u"
  shows "books_ok L C (policy_ledger s1) (policy_accounts s1)"
proof -
  from settle_row_cases [OF step] obtain old where old: "row_amounts L C l = Some old"
    and accounts: "status' \<noteq> ''completed'' \<Longrightarrow> policy_accounts s1 = policy_accounts s"
    and ledger: "s1 = s\<lparr>policy_accounts := policy_accounts s1, policy_ledger := update_rows (\<lambda>x. lg_id x = lg_id l) (\<lambda>x. x\<lparr>lg_amounts :=
       Seal (prim C) (eng C) (draws env n) (amounts_json \<lparr>am_reserved = (if status' = ''completed'' then 0 else am_reserved old),
         am_cost = (if status' = ''completed'' then actual else 0), am_used = 0, am_input = us_input u, am_output = us_output u,
         am_cache_read = us_cache_read u, am_cache_write = us_cache_write u, am_known = known, am_currency = po_currency p\<rparr>)
         (amounts_aad (lg_request l) (lg_scope l)), lg_status := status', lg_updated := now env\<rparr>) (policy_ledger s)\<rparr>"
    and paid: "status' = ''completed'' \<Longrightarrow> \<exists>a m. get_row ap_key (lg_account l) (policy_accounts s) = Some a
       \<and> open_amounts L C (ap_payload a) (aiPolicyAccountAAD (lg_scope l) (lg_scope_id l) (lg_day l)) = Some m
       \<and> am_reserved old \<le> am_reserved m \<and> am_used m \<le> max_int64 - actual
       \<and> policy_accounts s1 = update_rows (\<lambda>x. ap_key x = lg_account l) (\<lambda>x. x\<lparr>ap_payload := Seal (prim C) (eng C) (draws env (n + 1))
         (amounts_json (m\<lparr>am_reserved := am_reserved m - am_reserved old, am_used := am_used m + actual\<rparr>))
         (aiPolicyAccountAAD (lg_scope l) (lg_scope_id l) (lg_day l))\<rparr>) (policy_accounts s)" by metis
  define new where "new = \<lparr>am_reserved = (if status' = ''completed'' then 0 else am_reserved old),
         am_cost = (if status' = ''completed'' then actual else 0), am_used = 0, am_input = us_input u, am_output = us_output u,
         am_cache_read = us_cache_read u, am_cache_write = us_cache_write u, am_known = known, am_currency = po_currency p\<rparr>"
  define g where "g = (\<lambda>x :: ledger_row. x\<lparr>lg_amounts := Seal (prim C) (eng C) (draws env n) (amounts_json new) (amounts_aad (lg_request l) (lg_scope l)),
         lg_status := status', lg_updated := now env\<rparr>)"
  have ls1: "policy_ledger s1 = update_rows (\<lambda>x. lg_id x = lg_id l) g (policy_ledger s)"
    unfolding g_def new_def by (subst ledger) simp
  have keys: "lg_id (g x) = lg_id x" "lg_key (g x) = lg_key x" "lg_account (g x) = lg_account x" "lg_status (g x) = status'" for x
    by (simp_all add: g_def lg_key_def lg_account_def)
  have was: "counter (am_reserved old)" "am_cost old = 0" using books_okD(4) [OF ok l(1)] l(2) old by (auto simp: row_ok_def)
  have "amounts_fit new" using was fits by (simp add: amounts_fit_def new_def usage_fits_def counter_def max_int64_def)
  from open_sealed_amounts [OF gcm reads this, of "draws env n" "amounts_aad (lg_request l) (lg_scope l)"] obtain r where
    r: "row_amounts L C (g l) = Some r" "am_reserved r = am_reserved new" "am_cost r = am_cost new"
    by (auto simp: row_amounts_def g_def)
  have rowok: "row_ok L C (g l)"
    using r was(1) fits(1) by (simp add: row_ok_def keys new_def) (simp add: counter_def max_int64_def)
  have sums: "booked L C am_reserved k (policy_ledger s1) = booked L C am_reserved k (policy_ledger s)
        - (if lg_account l = k then am_reserved old - am_reserved new else 0)"
      "booked L C am_cost k (policy_ledger s1) = booked L C am_cost k (policy_ledger s) + (if lg_account l = k then am_cost new else 0)" for k
    using booked_update [OF books_okD(1) [OF ok] l(1), of L C _ _ g] r old was by (simp_all add: ls1 entry_def keys)
  have bal: "balanced L C (policy_ledger s1) (policy_accounts s1) k" for k
  proof (cases "status' = ''completed'' \<and> lg_account l = k")
    case False
    have "account_for L C (policy_accounts s1) k = account_for L C (policy_accounts s) k"
    proof (cases "status' = ''completed''")
      case True
      with False paid obtain b where "policy_accounts s1 = update_rows (\<lambda>x. ap_key x = lg_account l) (\<lambda>x. x\<lparr>ap_payload := b\<rparr>) (policy_accounts s)"
        by metis
      with False True show ?thesis by (simp add: account_for_update_other)
    qed (simp add: accounts)
    with books_okD(5) [OF ok, of k] False show ?thesis by (auto simp: balanced_def sums new_def)
  next
    case True
    with paid obtain a m where a: "get_row ap_key k (policy_accounts s) = Some a"
        "open_amounts L C (ap_payload a) (aiPolicyAccountAAD (lg_scope l) (lg_scope_id l) (lg_day l)) = Some m"
        "am_reserved old \<le> am_reserved m" "am_used m \<le> max_int64 - actual"
      and as1: "policy_accounts s1 = update_rows (\<lambda>x. ap_key x = k) (\<lambda>x. x\<lparr>ap_payload := Seal (prim C) (eng C) (draws env (n + 1))
         (amounts_json (m\<lparr>am_reserved := am_reserved m - am_reserved old, am_used := am_used m + actual\<rparr>))
         (aiPolicyAccountAAD (lg_scope l) (lg_scope_id l) (lg_day l))\<rparr>) (policy_accounts s)" by auto
    have k: "k = (lg_scope l, lg_scope_id l, lg_day l)" using True by (simp add: lg_account_def)
    have "ap_key a = k" using a(1) by (blast dest: get_row_SomeD)
    then have "account_for L C (policy_accounts s) k = (if am_used m < 0 \<or> am_reserved m < 0 then None else Some m)"
      using a(1,2) by (simp add: account_for_def k ap_key_def)
    with books_okD(5) [OF ok, of k] have m: "counter (am_reserved m)" "counter (am_used m)" "amounts_fit m"
      "am_reserved m = booked L C am_reserved k (policy_ledger s)" "am_used m = booked L C am_cost k (policy_ledger s)"
      by (auto simp: balanced_def split: if_splits)
    have counters: "counter (am_reserved m - am_reserved old)" "counter (am_used m + actual)"
      using m(1,2) was(1) a(3,4) fits(1) by (simp_all add: counter_def)
    then have "amounts_fit (m\<lparr>am_reserved := am_reserved m - am_reserved old, am_used := am_used m + actual\<rparr>)"
      using m(3) by (simp add: amounts_fit_def)
    from account_for_update [OF books_okD(3) [OF ok] a(1) k gcm reads this, of "draws env (n + 1)"] obtain m' where
      "account_for L C (policy_accounts s1) k = Some m'" "am_reserved m' = am_reserved m - am_reserved old" "am_used m' = am_used m + actual"
      "amounts_fit m'" by (auto simp: as1)
    with counters m True show ?thesis by (simp add: balanced_def sums new_def)
  qed
  show ?thesis
    unfolding books_ok_def
  proof (intro conjI ballI allI)
    show "unique_on lg_id (policy_ledger s1)" unfolding ls1 by (rule unique_on_update [OF keys(1) books_okD(1) [OF ok]])
    show "unique_on lg_key (policy_ledger s1)" unfolding ls1 by (rule unique_on_update [OF keys(2) books_okD(2) [OF ok]])
    show "unique_on ap_key (policy_accounts s1)"
    proof (cases "status' = ''completed''")
      case True
      with paid obtain b where "policy_accounts s1 = update_rows (\<lambda>x. ap_key x = lg_account l) (\<lambda>x. x\<lparr>ap_payload := b\<rparr>) (policy_accounts s)"
        by metis
      then show ?thesis by (simp add: unique_on_update [OF _ books_okD(3) [OF ok]])
    qed (simp add: accounts books_okD(3) [OF ok])
    show "row_ok L C x" if "x \<in> set (policy_ledger s1)" for x
      using that rowok books_okD(4) [OF ok] unique_on_eqD [OF books_okD(1) [OF ok] _ l(1)] by (auto simp: ls1 set_update_rows)
    show "balanced L C (policy_ledger s1) (policy_accounts s1) k" for k by (rule bal)
  qed
qed

lemma settle_row_frame:
  assumes "settle_row L C p env n status' actual known u l s = Some s1"
  obtains g where "policy_ledger s1 = update_rows (\<lambda>x. lg_id x = lg_id l) g (policy_ledger s)"
    "\<And>x. lg_id (g x) = lg_id x" "\<And>x. lg_request (g x) = lg_request x" "\<And>x. lg_status (g x) = status'"
    "\<exists>ls as. s1 = s\<lparr>policy_ledger := ls, policy_accounts := as\<rparr>"
proof (rule settle_row_cases [OF assms], goal_cases)
  case (1 old)
  define g where "g = (\<lambda>x :: ledger_row. x\<lparr>lg_amounts :=
       Seal (prim C) (eng C) (draws env n) (amounts_json \<lparr>am_reserved = (if status' = ''completed'' then 0 else am_reserved old),
         am_cost = (if status' = ''completed'' then actual else 0), am_used = 0, am_input = us_input u, am_output = us_output u,
         am_cache_read = us_cache_read u, am_cache_write = us_cache_write u, am_known = known, am_currency = po_currency p\<rparr>)
         (amounts_aad (lg_request l) (lg_scope l)), lg_status := status', lg_updated := now env\<rparr>)"
  note s1 = 1(4) [folded g_def]
  have swap: "s\<lparr>policy_accounts := as, policy_ledger := ls\<rparr> = s\<lparr>policy_ledger := ls, policy_accounts := as\<rparr>" for ls as by simp
  have "policy_ledger s1 = update_rows (\<lambda>x. lg_id x = lg_id l) g (policy_ledger s)" using arg_cong [OF s1, of policy_ledger] by simp
  moreover have "\<exists>ls as. s1 = s\<lparr>policy_ledger := ls, policy_accounts := as\<rparr>" by (intro exI, rule s1 [unfolded swap])
  ultimately show ?thesis by (intro that [of g]) (simp_all add: g_def)
qed

lemma settle_rows_books:
  assumes gcm: "gcm_opens (prim C) (eng_aead (eng C))" and reads: "reads_amounts L" and fits: "counter actual" "usage_fits u"
  shows "settle_rows L C p env n status' actual known u ls s = Some s1 \<Longrightarrow> books_ok L C (policy_ledger s) (policy_accounts s) \<Longrightarrow>
    set ls \<subseteq> set (policy_ledger s) \<Longrightarrow> distinct (map lg_id ls) \<Longrightarrow> \<forall>l \<in> set ls. lg_status l \<noteq> ''completed'' \<Longrightarrow>
    books_ok L C (policy_ledger s1) (policy_accounts s1)
    \<and> (\<exists>ls as. s1 = s\<lparr>policy_ledger := ls, policy_accounts := as\<rparr>)
    \<and> (\<forall>x \<in> set (policy_ledger s1). x \<in> set (policy_ledger s) \<or> lg_request x \<in> lg_request ` set ls \<and> lg_status x = status')"
proof (induction ls arbitrary: n s)
  case (Cons l ls)
  then obtain s2 where s2: "settle_row L C p env n status' actual known u l s = Some s2"
    and rest: "settle_rows L C p env (n + 3) status' actual known u ls s2 = Some s1" by (auto split: option.splits)
  obtain g where g: "policy_ledger s2 = update_rows (\<lambda>x. lg_id x = lg_id l) g (policy_ledger s)"
    "\<And>x. lg_id (g x) = lg_id x" "\<And>x. lg_request (g x) = lg_request x" "\<And>x. lg_status (g x) = status'"
    and frame: "\<exists>ls as. s2 = s\<lparr>policy_ledger := ls, policy_accounts := as\<rparr>" by (rule settle_row_frame [OF s2]) (rule that)
  have books: "books_ok L C (policy_ledger s2) (policy_accounts s2)"
    using settle_row_books [OF gcm reads s2 Cons.prems(2) _ _ fits] Cons.prems(3,5) by simp
  have "set ls \<subseteq> set (policy_ledger s2)"
  proof
    fix x assume "x \<in> set ls"
    then have "lg_id x \<in> lg_id ` set ls" "x \<in> set (policy_ledger s)" using Cons.prems(3) by auto
    with Cons.prems(4) have "x \<in> set (policy_ledger s)" "lg_id x \<noteq> lg_id l" by auto
    then show "x \<in> set (policy_ledger s2)" by (force simp: g(1) set_update_rows)
  qed
  moreover have "distinct (map lg_id ls)" "\<forall>l \<in> set ls. lg_status l \<noteq> ''completed''" using Cons.prems(4,5) by simp_all
  ultimately have
    ih: "books_ok L C (policy_ledger s1) (policy_accounts s1)"
      "\<exists>ls as. s1 = s2\<lparr>policy_ledger := ls, policy_accounts := as\<rparr>"
      "\<forall>x \<in> set (policy_ledger s1). x \<in> set (policy_ledger s2) \<or> lg_request x \<in> lg_request ` set ls \<and> lg_status x = status'"
    using Cons.IH [OF rest books] by blast+
  have "\<exists>ls as. s1 = s\<lparr>policy_ledger := ls, policy_accounts := as\<rparr>"
    using ih(2) frame by clarsimp blast
  moreover have "x \<in> set (policy_ledger s) \<or> lg_request x \<in> lg_request ` set (l # ls) \<and> lg_status x = status'"
    if "x \<in> set (policy_ledger s1)" for x
  proof -
    have "x \<in> set (policy_ledger s) \<or> lg_request x = lg_request l \<and> lg_status x = status'" if "x \<in> set (policy_ledger s2)"
      using that unique_on_eqD [OF books_okD(1) [OF Cons.prems(2)] _ _, of _ l] Cons.prems(3) g(3,4)
      by (auto simp: g(1) set_update_rows)
    with ih(3) that show ?thesis by auto
  qed
  ultimately show ?case using ih(1) by blast
next
  case Nil
  then have "s1 = s" by simp
  with Nil(2) policy_frame_id [of s] show ?case by blast
qed

end
