(* ===== verification/Spending.thy ===== *)
theory Spending
  imports Budget
begin

text \<open>
  The operations of the policy module on its requests and its books: what each keeps, and the transition system
  of all of them together with everything else the server does.
\<close>

subsection \<open>Requests\<close>

definition sent_states :: "string list" where
  "sent_states = [''dispatched'', ''uncertain'', ''completed'']"

text \<open>An effect that was sent stays sent, and a settled one settled.\<close>

definition status_next :: "string \<Rightarrow> string \<Rightarrow> bool" where
  "status_next a b \<longleftrightarrow> (a \<in> set sent_states \<longrightarrow> b \<in> set sent_states) \<and> (a = ''completed'' \<longrightarrow> b = ''completed'')"

definition request_kept :: "request_row \<Rightarrow> request_row \<Rightarrow> bool" where
  "request_kept r r' \<longleftrightarrow> pr_id r' = pr_id r \<and> status_next (pr_status r) (pr_status r')"

abbreviation requests_kept :: "request_row list \<Rightarrow> request_row list \<Rightarrow> bool" where
  "requests_kept \<equiv> list_all2 request_kept"

definition stored_fits :: "policy_lib \<Rightarrow> 'z core \<Rightarrow> request_row \<Rightarrow> bool" where
  "stored_fits L C r \<longleftrightarrow> (\<forall>x. aiPolicyOpenStored L C (pr_id r) (pr_payload r) = Some x \<longrightarrow> counter (pe_reserve (so_effect x)))"

lemma status_next_refl [simp]: "status_next a a"
  by (simp add: status_next_def)

lemma status_next_trans: "status_next a b \<Longrightarrow> status_next b c \<Longrightarrow> status_next a c"
  by (auto simp: status_next_def)

lemma request_kept_refl [simp]: "request_kept r r"
  by (simp add: request_kept_def)

lemma request_kept_trans: "request_kept a b \<Longrightarrow> request_kept b c \<Longrightarrow> request_kept a c"
  by (auto simp: request_kept_def intro: status_next_trans)

lemma requests_kept_refl [simp]: "requests_kept rs rs"
  by (simp add: list_all2_refl)

lemma requests_kept_trans: "requests_kept rs ts \<Longrightarrow> requests_kept ts us \<Longrightarrow> requests_kept rs us"
  by (rule list_all2_trans [of request_kept request_kept request_kept]) (auto intro: request_kept_trans)

lemma requests_kept_update:
  assumes "\<And>r. r \<in> set rs \<Longrightarrow> p r \<Longrightarrow> request_kept r (f r)"
  shows "requests_kept rs (update_rows p f rs)"
  using assms by (induction rs) (auto simp: update_rows_def)

lemma requests_kept_ids: "requests_kept rs rs' \<Longrightarrow> map pr_id rs' = map pr_id rs"
  by (induction rs rs' rule: list_all2_induct) (auto simp: request_kept_def)

lemma requests_kept_find:
  assumes "requests_kept rs rs'" "r \<in> set rs"
  obtains r' where "r' \<in> set rs'" "request_kept r r'"
  using assms by (induction rs rs' rule: list_all2_induct) auto

subsection \<open>The invariant\<close>

definition budget_ok :: "policy_lib \<Rightarrow> 'w policy_core \<Rightarrow> 'w policy_db_scheme \<Rightarrow> bool" where
  "budget_ok L C s \<longleftrightarrow> books_ok L C (policy_ledger s) (policy_accounts s) \<and> unique_on pr_id (policy_requests s)
     \<and> (\<forall>l \<in> set (policy_ledger s). \<exists>r \<in> set (policy_requests s). pr_id r = lg_request l
          \<and> (lg_status l = ''completed'' \<longrightarrow> pr_status r = ''completed''))
     \<and> (\<forall>r \<in> set (policy_requests s). stored_fits L C r)"

lemma budget_okD:
  assumes "budget_ok L C s"
  shows "books_ok L C (policy_ledger s) (policy_accounts s)" "unique_on pr_id (policy_requests s)"
    "r \<in> set (policy_requests s) \<Longrightarrow> stored_fits L C r"
  using assms by (simp_all add: budget_ok_def)

lemma budget_ok_kept:
  assumes "budget_ok L C s" "requests_kept (policy_requests s) (policy_requests s')"
    "\<And>r. r \<in> set (policy_requests s') \<Longrightarrow> stored_fits L C r"
    "policy_ledger s' = policy_ledger s" "policy_accounts s' = policy_accounts s"
  shows "budget_ok L C s'"
proof -
  have "unique_on pr_id (policy_requests s')"
    using budget_okD(2) [OF assms(1)] requests_kept_ids [OF assms(2)] by (simp add: unique_on_def)
  moreover have "\<exists>r' \<in> set (policy_requests s'). pr_id r' = lg_request l \<and> (lg_status l = ''completed'' \<longrightarrow> pr_status r' = ''completed'')"
    if l: "l \<in> set (policy_ledger s')" for l
  proof -
    obtain r where r: "r \<in> set (policy_requests s)" "pr_id r = lg_request l" "lg_status l = ''completed'' \<longrightarrow> pr_status r = ''completed''"
      using assms(1,4) l by (auto simp: budget_ok_def)
    obtain r' where "r' \<in> set (policy_requests s')" "request_kept r r'" by (rule requests_kept_find [OF assms(2) r(1)])
    with r(2,3) show ?thesis by (auto simp: request_kept_def status_next_def)
  qed
  ultimately show ?thesis using budget_okD(1) [OF assms(1)] assms(3-5) by (simp add: budget_ok_def)
qed

lemma stored_fits_update:
  assumes "\<And>r. r \<in> set rs \<Longrightarrow> stored_fits L C r" "\<And>x. pr_id (f x) = pr_id x" "\<And>x. pr_payload (f x) = pr_payload x" "r \<in> set (update_rows p f rs)"
  shows "stored_fits L C r"
  using assms by (auto simp: set_update_rows stored_fits_def)

lemma stored_fits_seal:
  assumes "gcm_opens (prim C) (eng_aead (eng C))" "reads_stored L" "counter (pe_reserve (so_effect o'))"
    "pr_payload r = seal_stored C n (pr_id r) o'"
  shows "stored_fits L C r"
proof -
  obtain x where "aiPolicyOpenStored L C (pr_id r) (pr_payload r) = Some x" "pe_reserve (so_effect x) = pe_reserve (so_effect o')"
    using open_sealed_stored [OF assms(1-3), of "pr_id r" n] assms(4) by metis
  with assms(3) show ?thesis by (simp add: stored_fits_def)
qed

subsection \<open>Requests lose their continuation\<close>

lemma scrub_kept:
  assumes gcm: "gcm_opens (prim C) (eng_aead (eng C))" and reads: "reads_stored L"
    and f: "\<And>x. pr_id (f x) = pr_id x" "\<And>x. pr_payload (f x) = pr_payload x"
  shows "scrub L C env fails f k todo rs = Some rs' \<Longrightarrow> distinct (map pr_id todo) \<Longrightarrow> \<forall>r \<in> set todo. stored_fits L C r \<Longrightarrow>
    \<forall>r \<in> set rs. stored_fits L C r \<Longrightarrow>
    \<forall>x \<in> set rs. \<forall>b t. pr_id x \<in> pr_id ` set todo \<longrightarrow> status_next (pr_status x) (pr_status (f (x\<lparr>pr_payload := b, pr_updated := t\<rparr>))) \<Longrightarrow>
    requests_kept rs rs' \<and> (\<forall>r \<in> set rs'. stored_fits L C r)"
proof (induction todo arbitrary: k rs)
  case (Cons r todo)
  then obtain o' where o': "aiPolicyOpenStored L C (pr_id r) (pr_payload r) = Some o'" by (auto split: option.splits)
  define g where "g = (\<lambda>x. f (x\<lparr>pr_payload := seal_stored C (draws env k) (pr_id r) (o'\<lparr>so_continuation := []\<rparr>), pr_updated := now env\<rparr>))"
  define ts where "ts = update_rows (\<lambda>x. pr_id x = pr_id r) g rs"
  have rest: "scrub L C env fails f (Suc k) todo ts = Some rs'"
    using Cons.prems(1) by (auto simp: o' ts_def g_def split: if_splits)
  have fits: "counter (pe_reserve (so_effect (o'\<lparr>so_continuation := []\<rparr>)))"
    using Cons.prems(3) o' by (simp add: stored_fits_def)
  have kept: "requests_kept rs ts"
    unfolding ts_def by (rule requests_kept_update) (use Cons.prems(5) in \<open>simp add: request_kept_def g_def f(1)\<close>)
  have stored: "\<forall>x \<in> set ts. stored_fits L C x"
  proof
    fix x assume "x \<in> set ts"
    then consider "x \<in> set rs" | y where "pr_id y = pr_id r" "x = g y" by (auto simp: ts_def set_update_rows split: if_splits)
    then show "stored_fits L C x"
    proof cases
      case 1
      with Cons.prems(4) show ?thesis by blast
    next
      case 2
      then show ?thesis by (intro stored_fits_seal [OF gcm reads fits]) (simp add: g_def f)
    qed
  qed
  have next_ok: "\<forall>x \<in> set ts. \<forall>b t. pr_id x \<in> pr_id ` set todo \<longrightarrow>
      status_next (pr_status x) (pr_status (f (x\<lparr>pr_payload := b, pr_updated := t\<rparr>)))"
  proof (intro ballI allI impI)
    fix x b t assume x: "x \<in> set ts" "pr_id x \<in> pr_id ` set todo"
    with Cons.prems(2) have "pr_id x \<noteq> pr_id r" by auto
    with x(1) have "x \<in> set rs" by (auto simp: ts_def set_update_rows g_def f)
    with Cons.prems(5) x(2) show "status_next (pr_status x) (pr_status (f (x\<lparr>pr_payload := b, pr_updated := t\<rparr>)))" by simp
  qed
  have "requests_kept ts rs' \<and> (\<forall>r \<in> set rs'. stored_fits L C r)"
    using Cons.IH [OF rest _ _ stored next_ok] Cons.prems(2,3) by simp
  with kept show ?case by (blast intro: requests_kept_trans)
qed simp

lemma policy_delete_hook_budget:
  assumes gcm: "gcm_opens (prim C) (eng_aead (eng C))" and reads: "reads_stored L"
    and ok: "budget_ok L C s" and step: "policy_delete_hook L C env s mid = Inr s'"
  shows "budget_ok L C s' \<and> requests_kept (policy_requests s) (policy_requests s')"
proof (cases "get_row g_id mid (messages s)")
  case None
  with step have "s' = s" by (auto simp: policy_delete_hook_def split: if_splits)
  with ok show ?thesis by simp
next
  case (Some g)
  define todo where "todo = filter (\<lambda>r. pr_chat r = g_chat g) (policy_requests s)"
  define f where "f = (\<lambda>x :: request_row. x\<lparr>pr_status := (if pr_status x \<in> {''awaiting'', ''approved''} then ''cancelled'' else pr_status x)\<rparr>)"
  from step Some obtain rs where rs: "scrub L C env (\<lambda>k. flt env (2 + k)) f 0 todo (policy_requests s) = Some rs"
    and s': "s' = s\<lparr>policy_requests := rs\<rparr>"
    by (auto simp: policy_delete_hook_def todo_def f_def split: if_splits option.splits)
  have "distinct (map pr_id todo)"
    using budget_okD(2) [OF ok] by (simp add: todo_def unique_on_def distinct_map_filter)
  then have "requests_kept (policy_requests s) rs \<and> (\<forall>r \<in> set rs. stored_fits L C r)"
    by (intro scrub_kept [OF gcm reads _ _ rs]) (auto simp: f_def todo_def budget_okD(3) [OF ok] status_next_def sent_states_def)
  with budget_ok_kept [OF ok, of s'] show ?thesis by (simp add: s')
qed

lemma cleanup_budget:
  assumes gcm: "gcm_opens (prim C) (eng_aead (eng C))" and reads: "reads_stored L"
    and ok: "budget_ok L C s" and step: "aiPolicyCleanupExpired L C env s = (es, s')"
  shows "budget_ok L C s' \<and> requests_kept (policy_requests s) (policy_requests s')"
proof -
  define todo where "todo = expired_requests (now env) (policy_requests s)"
  define f where "f = (\<lambda>x :: request_row. x\<lparr>pr_status := ''expired'', pr_outcome := ''approval_expired''\<rparr>)"
  define fails where "fails = (\<lambda>k. flt env (2 + 3 * k) \<or> flt env (3 + 3 * k) \<or> flt env (4 + 3 * k))"
  show ?thesis
  proof (cases "s' = s")
    case True
    with ok show ?thesis by simp
  next
    case False
    with step obtain rs where rs: "scrub L C env fails f 0 todo (policy_requests s) = Some rs"
      and s': "policy_requests s' = rs" "policy_ledger s' = policy_ledger s" "policy_accounts s' = policy_accounts s"
      by (auto simp: aiPolicyCleanupExpired_def Let_def todo_def f_def fails_def split: if_splits option.splits)
    have sub: "x \<in> set (policy_requests s) \<and> pr_status x \<in> {''awaiting'', ''approved''}" if "x \<in> set todo" for x
      using in_set_takeD [OF that [unfolded todo_def expired_requests_def]] by auto
    have "distinct (map pr_id todo)"
      using budget_okD(2) [OF ok] unfolding todo_def expired_requests_def unique_on_def
      by (metis (no_types, lifting) distinct_map_filter distinct_map distinct_sort distinct_take set_sort set_take_subset inj_on_subset)
    moreover have "\<forall>x \<in> set (policy_requests s). \<forall>b t. pr_id x \<in> pr_id ` set todo \<longrightarrow>
        status_next (pr_status x) (pr_status (f (x\<lparr>pr_payload := b, pr_updated := t\<rparr>)))"
    proof (intro ballI allI impI)
      fix x b t assume x: "x \<in> set (policy_requests s)" "pr_id x \<in> pr_id ` set todo"
      then obtain y where y: "y \<in> set todo" "pr_id y = pr_id x" by auto
      with unique_on_eqD [OF budget_okD(2) [OF ok], of x y] sub [of y] x(1) have "pr_status x \<in> {''awaiting'', ''approved''}" by auto
      then show "status_next (pr_status x) (pr_status (f (x\<lparr>pr_payload := b, pr_updated := t\<rparr>)))"
        by (auto simp: status_next_def sent_states_def)
    qed
    ultimately have "requests_kept (policy_requests s) rs \<and> (\<forall>r \<in> set rs. stored_fits L C r)"
      using sub budget_okD(3) [OF ok] by (intro scrub_kept [OF gcm reads _ _ rs]) (auto simp: f_def)
    with budget_ok_kept [OF ok, of s'] s' show ?thesis by simp
  qed
qed

subsection \<open>Settling\<close>

lemma aiPolicyCeilRate_counter: "aiPolicyCeilRate n r = Some c \<Longrightarrow> counter c"
proof -
  assume c: "aiPolicyCeilRate n r = Some c"
  show ?thesis
  proof (cases "n = 0 \<or> r = 0")
    case True
    with c show ?thesis by (auto simp: aiPolicyCeilRate_def counter_def max_int64_def split: if_splits)
  next
    case False
    with c have h: "0 < n" "0 < r" "n \<le> (max_int64 - 999999) div r" "c = (n * r + 999999) div 1000000"
      by (auto simp: aiPolicyCeilRate_def split: if_splits)
    have "n * r \<le> (max_int64 - 999999) div r * r" using h(2,3) by (simp add: mult_right_mono)
    also have "\<dots> \<le> max_int64 - 999999" using h(2) by (simp add: minus_mod_eq_div_mult [symmetric])
    finally have "n * r + 999999 \<le> max_int64" by simp
    moreover have "0 \<le> n * r + 999999" using h(1,2) by (simp add: add_nonneg_nonneg)
    moreover have "x div 1000000 \<le> x" if "0 \<le> x" for x :: int using that by linarith
    ultimately have "(n * r + 999999) div 1000000 \<le> max_int64" "0 \<le> (n * r + 999999) div 1000000"
      by (meson order_trans, simp add: pos_imp_zdiv_nonneg_iff)
    then show ?thesis by (simp add: counter_def h(4))
  qed
qed

lemma aiPolicyCost_counter: "aiPolicyCost e u = Some c \<Longrightarrow> counter (pe_reserve e) \<Longrightarrow> counter c"
  by (auto simp: aiPolicyCost_def counter_def split: if_splits option.splits dest!: aiPolicyCeilRate_counter)

definition settled_status :: "policy_lib \<Rightarrow> policy_effect \<Rightarrow> usage \<Rightarrow> string \<Rightarrow> string" where
  "settled_status L e u outcome = (if usage_known e u \<and> outcome_success L outcome then ''completed'' else ''uncertain'')"

lemma aiPolicySettle_changed:
  assumes "aiPolicySettle L C p env s i u outcome = (b, s')" "s' \<noteq> s"
  obtains r o' actual s1 where "get_row pr_id i (policy_requests s) = Some r" "pr_status r \<in> {''dispatched'', ''uncertain''}"
    "aiPolicyOpenStored L C i (pr_payload r) = Some o'"
    "(if usage_known (so_effect o') u then aiPolicyCost (so_effect o') u else Some (reserve_of p (so_effect o'))) = Some actual"
    "settle_rows L C p env 3 (settled_status L (so_effect o') u outcome) actual (usage_known (so_effect o') u) u
       (filter (\<lambda>l. lg_request l = i) (policy_ledger s)) s = Some s1"
    "s' = s1\<lparr>policy_requests := update_rows (\<lambda>x. pr_id x = i) (\<lambda>x. x\<lparr>pr_status := settled_status L (so_effect o') u outcome,
       pr_outcome := outcome, pr_updated := now env\<rparr>) (policy_requests s1)\<rparr>"
proof -
  obtain r where r: "get_row pr_id i (policy_requests s) = Some r" and f: "\<not> flt env 0" "\<not> flt env 1"
    using assms by (cases "get_row pr_id i (policy_requests s)") (auto simp: aiPolicySettle_def split: if_splits)
  then have st: "pr_status r \<in> {''dispatched'', ''uncertain''}"
    using assms by (auto simp: aiPolicySettle_def split: if_splits)
  then have nc: "(pr_status r = ''completed'') = False" "(pr_status r \<noteq> ''dispatched'' \<and> pr_status r \<noteq> ''uncertain'') = False" by auto
  obtain o' where o': "aiPolicyOpenStored L C i (pr_payload r) = Some o'"
    using assms nc f r by (cases "aiPolicyOpenStored L C i (pr_payload r)") (simp_all only: aiPolicySettle_def, simp_all)
  let ?k = "usage_known (so_effect o') u" and ?st = "settled_status L (so_effect o') u outcome"
  obtain actual where a: "(if ?k then aiPolicyCost (so_effect o') u else Some (reserve_of p (so_effect o'))) = Some actual"
    using assms nc f r o' by (cases "if ?k then aiPolicyCost (so_effect o') u else Some (reserve_of p (so_effect o'))")
      (simp_all only: aiPolicySettle_def Let_def, simp_all)
  let ?rows = "settle_rows L C p env 3 ?st actual ?k u (filter (\<lambda>l. lg_request l = i) (policy_ledger s)) s"
  have "(b, s') = (if flt env 2 then (False, s) else case ?rows of None \<Rightarrow> (False, s)
      | Some s1 \<Rightarrow> (if flt env (3 + 3 * length (filter (\<lambda>l. lg_request l = i) (policy_ledger s)))
            \<or> flt env (4 + 3 * length (filter (\<lambda>l. lg_request l = i) (policy_ledger s))) then (False, s)
          else (True, s1\<lparr>policy_requests := update_rows (\<lambda>x. pr_id x = i)
            (\<lambda>x. x\<lparr>pr_status := ?st, pr_outcome := outcome, pr_updated := now env\<rparr>) (policy_requests s1)\<rparr>)))"
    using assms(1) f unfolding aiPolicySettle_def Let_def settled_status_def by (simp only: nc r o' a simp_thms if_False option.case)
  with assms(2) obtain s1 where "?rows = Some s1" "s' = s1\<lparr>policy_requests := update_rows (\<lambda>x. pr_id x = i)
      (\<lambda>x. x\<lparr>pr_status := ?st, pr_outcome := outcome, pr_updated := now env\<rparr>) (policy_requests s1)\<rparr>"
    by (cases ?rows) (simp_all split: if_splits)
  with r st o' a show ?thesis by (rule that)
qed

lemma settle_budget:
  assumes gcm: "gcm_opens (prim C) (eng_aead (eng C))" and reads: "reads_amounts L" "reads_stored L"
    and ok: "budget_ok L C s" and fits: "usage_fits u" "counter (po_reserve p)"
    and step: "aiPolicySettle L C p env s i u outcome = (b, s')"
  shows "budget_ok L C s' \<and> requests_kept (policy_requests s) (policy_requests s')"
proof (cases "s' = s")
  case True
  with ok show ?thesis by simp
next
  case False
  define ls where "ls = filter (\<lambda>l. lg_request l = i) (policy_ledger s)"
  obtain r o' actual s1 where r: "get_row pr_id i (policy_requests s) = Some r"
      "pr_status r \<in> {''dispatched'', ''uncertain''}"
    and o': "aiPolicyOpenStored L C i (pr_payload r) = Some o'"
    and actual: "(if usage_known (so_effect o') u then aiPolicyCost (so_effect o') u else Some (reserve_of p (so_effect o'))) = Some actual"
    and s1: "settle_rows L C p env 3 (settled_status L (so_effect o') u outcome) actual (usage_known (so_effect o') u) u ls s = Some s1"
    and s': "s' = s1\<lparr>policy_requests := update_rows (\<lambda>x. pr_id x = i) (\<lambda>x. x\<lparr>pr_status := settled_status L (so_effect o') u outcome,
      pr_outcome := outcome, pr_updated := now env\<rparr>) (policy_requests s1)\<rparr>"
    by (rule aiPolicySettle_changed [OF step False, folded ls_def]) (rule that)
  define status' where "status' = settled_status L (so_effect o') u outcome"
  have status': "status' = ''completed'' \<or> status' = ''uncertain''" by (simp add: status'_def settled_status_def)
  note s1 = s1 [folded status'_def] and s' = s' [folded status'_def]
  have rs: "r \<in> set (policy_requests s)" "pr_id r = i" using r(1) by (auto dest: get_row_SomeD)
  have only: "x = r" if "x \<in> set (policy_requests s)" "pr_id x = i" for x
    using unique_on_eqD [OF budget_okD(2) [OF ok] that(1) rs(1)] that(2) rs(2) by simp
  have "counter (pe_reserve (so_effect o'))" using budget_okD(3) [OF ok rs(1)] o' rs(2) by (simp add: stored_fits_def)
  then have "counter actual"
    using actual fits(2) by (auto simp: reserve_of_def split: if_splits dest: aiPolicyCost_counter)
  moreover have "distinct (map lg_id ls)"
    using books_okD(1) [OF budget_okD(1) [OF ok]] by (simp add: ls_def unique_on_def distinct_map_filter)
  moreover have "lg_status l \<noteq> ''completed''" if "l \<in> set ls" for l
    using that ok only r(2) by (fastforce simp: ls_def budget_ok_def)
  ultimately have books: "books_ok L C (policy_ledger s1) (policy_accounts s1)"
    and frame: "\<exists>ls as. s1 = s\<lparr>policy_ledger := ls, policy_accounts := as\<rparr>"
    and rows: "\<forall>x \<in> set (policy_ledger s1). x \<in> set (policy_ledger s) \<or> lg_request x \<in> lg_request ` set ls \<and> lg_status x = status'"
    using settle_rows_books [OF gcm reads(1) _ fits(1) s1 budget_okD(1) [OF ok]] by (auto simp: ls_def)
  have same: "policy_requests s1 = policy_requests s" using frame by auto
  have kept: "requests_kept (policy_requests s) (policy_requests s')"
    unfolding s' using same status' r(2) only
    by (auto intro!: requests_kept_update simp: request_kept_def status_next_def sent_states_def)
  have coupled: "\<exists>r' \<in> set (policy_requests s'). pr_id r' = lg_request l \<and> (lg_status l = ''completed'' \<longrightarrow> pr_status r' = ''completed'')"
    if l: "l \<in> set (policy_ledger s')" for l
  proof -
    have "l \<in> set (policy_ledger s1)" using l by (simp add: s')
    with rows consider "l \<in> set (policy_ledger s)" | "lg_request l = i" "lg_status l = status'" by (auto simp: ls_def)
    then show ?thesis
    proof cases
      case 1
      with ok obtain r0 where r0: "r0 \<in> set (policy_requests s)" "pr_id r0 = lg_request l"
        "lg_status l = ''completed'' \<longrightarrow> pr_status r0 = ''completed''" by (auto simp: budget_ok_def)
      obtain r' where "r' \<in> set (policy_requests s')" "request_kept r0 r'" by (rule requests_kept_find [OF kept r0(1)])
      with r0(2,3) show ?thesis by (auto simp: request_kept_def status_next_def)
    next
      case 2
      have "r\<lparr>pr_status := status', pr_outcome := outcome, pr_updated := now env\<rparr> \<in> set (policy_requests s')"
        using rs by (force simp: s' same set_update_rows)
      with 2 rs(2) show ?thesis by (intro bexI) auto
    qed
  qed
  have "stored_fits L C x" if "x \<in> set (policy_requests s')" for x
    using that by (intro stored_fits_update [OF budget_okD(3) [OF ok]]) (auto simp: s' same)
  moreover have "unique_on pr_id (policy_requests s')"
    using budget_okD(2) [OF ok] requests_kept_ids [OF kept] by (simp add: unique_on_def)
  ultimately show ?thesis using books coupled kept by (simp add: budget_ok_def s')
qed

subsection \<open>Dispatching\<close>

lemma Append_policy:
  assumes "Append C env s chat kind mid data = Inr (seq, s')"
  shows "policy_requests s' = policy_requests s" "policy_ledger s' = policy_ledger s" "policy_accounts s' = policy_accounts s"
    "policy_grants s' = policy_grants s" "policy_revocations s' = policy_revocations s"
  using assms by (auto simp: Append_def bump_seq_def Let_def split: if_splits option.splits)

text \<open>What a dispatch does to the tables of the module; \<open>gs\<close> are the grants it starts from.\<close>

lemma dispatch_rows_Some:
  assumes "dispatch_rows L C p env n request t e s = Some s'"
  obtains s1 where "reserve_scopes L C p env n request e (reserve_of p e) (utc_day (now env)) (scopes_of t) s = Some s1" "0 \<le> reserve_of p e"
    "policy_ledger s' = policy_ledger s1" "policy_accounts s' = policy_accounts s1" "policy_grants s' = policy_grants s"
    "policy_requests s' = update_rows (\<lambda>r. pr_id r = request \<and> pr_status r = ''approved'')
      (\<lambda>r. r\<lparr>pr_status := ''dispatched'', pr_dispatched := now env, pr_updated := now env\<rparr>) (policy_requests s)"
proof -
  from assms obtain s1 seq s2 where s1: "aiPolicyReserveTx L C p env n request t e s = Some s1"
    and s2: "Append C (shift_env (n + 9) env) s1 (ti_chat t) ''ai.egress.notice'' [] (Some (notice_data L e request)) = Inr (seq, s2)"
    and s': "s' = set_job_status (pe_job e) ''awaiting_approval'' ''running'' (now env)
      (s2\<lparr>policy_requests := update_rows (\<lambda>r. pr_id r = request \<and> pr_status r = ''approved'')
        (\<lambda>r. r\<lparr>pr_status := ''dispatched'', pr_dispatched := now env, pr_updated := now env\<rparr>) (policy_requests s2)\<rparr>)"
    by (auto simp: dispatch_rows_def split: option.splits sum.splits if_splits)
  from s1 have scopes: "reserve_scopes L C p env n request e (reserve_of p e) (utc_day (now env)) (scopes_of t) s = Some s1" "0 \<le> reserve_of p e"
    by (auto simp: aiPolicyReserveTx_def split: if_splits)
  have "policy_grants s1 = policy_grants s" "policy_requests s1 = policy_requests s" using reserve_scopes_frame [OF scopes(1)] by auto
  with scopes show ?thesis
    by (intro that [of s1]) (simp_all add: s' set_job_status_def Append_policy [OF s2])
qed

lemma aiPolicyDispatchTx_Inr:
  assumes "aiPolicyDispatchTx L C p env n request t e s = Inr s'"
  obtains r gs where "ti_status t = ''running''" "aiTaskAuthorized False s t" "get_row pr_id request (policy_requests s) = Some r"
    "now env < pr_expires r" "dispatch_rows L C p env (n + 5) request t e (s\<lparr>policy_grants := gs\<rparr>) = Some s'"
    "\<not> aiPolicyRequired p e \<Longrightarrow> gs = policy_grants s"
    "aiPolicyRequired p e \<Longrightarrow> \<exists>g. check_grant L C p env (n + 2) s request t e = Inr g \<and> gs = use_grant (now env) (pg_id g) (policy_grants s)"
proof -
  have running: "ti_status t = ''running''" "aiTaskAuthorized (flt env n) s t"
    using assms by (auto simp: aiPolicyDispatchTx_def split: if_splits)
  then have auth: "aiTaskAuthorized False s t" by (auto simp: aiTaskAuthorized_def)
  from assms running obtain r where r: "get_row pr_id request (policy_requests s) = Some r" "now env < pr_expires r"
    by (auto simp: aiPolicyDispatchTx_def split: if_splits option.splits)
  show ?thesis
  proof (cases "aiPolicyRequired p e")
    case False
    with assms r have "dispatch_rows L C p env (n + 5) request t e (s\<lparr>policy_grants := policy_grants s\<rparr>) = Some s'"
      by (auto simp: aiPolicyDispatchTx_def split: if_splits option.splits)
    with running auth r False show ?thesis by (intro that [of r "policy_grants s"]) simp_all
  next
    case True
    with assms r obtain g where "check_grant L C p env (n + 2) s request t e = Inr g"
        "dispatch_rows L C p env (n + 5) request t e (s\<lparr>policy_grants := use_grant (now env) (pg_id g) (policy_grants s)\<rparr>) = Some s'"
      by (auto simp: aiPolicyDispatchTx_def split: if_splits option.splits sum.splits)
    with running auth r True show ?thesis by (intro that) simp_all
  qed
qed

lemma dispatch_budget:
  assumes gcm: "gcm_opens (prim C) (eng_aead (eng C))" and reads: "reads_amounts L" "reads_stored L"
    and ok: "budget_ok L C s" and fits: "counter (pe_reserve e)" "counter (po_reserve p)"
    and step: "aiPolicyDispatchTx L C p env n request t e s = Inr s'"
  shows "budget_ok L C s' \<and> requests_kept (policy_requests s) (policy_requests s')
    \<and> (\<forall>sc \<in> set (scopes_of t). within_cap L C p (policy_accounts s') (utc_day (now env)) sc)"
proof -
  obtain r gs where r: "get_row pr_id request (policy_requests s) = Some r"
    and rows: "dispatch_rows L C p env (n + 5) request t e (s\<lparr>policy_grants := gs\<rparr>) = Some s'"
    by (rule aiPolicyDispatchTx_Inr [OF step]) (rule that)
  obtain s1 where
    s1: "reserve_scopes L C p env (n + 5) request e (reserve_of p e) (utc_day (now env)) (scopes_of t) (s\<lparr>policy_grants := gs\<rparr>) = Some s1"
    and s': "policy_ledger s' = policy_ledger s1" "policy_accounts s' = policy_accounts s1"
    and reqs: "policy_requests s' = update_rows (\<lambda>r. pr_id r = request \<and> pr_status r = ''approved'')
      (\<lambda>r. r\<lparr>pr_status := ''dispatched'', pr_dispatched := now env, pr_updated := now env\<rparr>) (policy_requests s)"
    by (rule dispatch_rows_Some [OF rows]) (rule that, simp_all)
  have reserve: "counter (reserve_of p e)" using fits by (simp add: reserve_of_def)
  have books: "books_ok L C (policy_ledger s1) (policy_accounts s1)"
    using reserve_scopes_books [OF gcm reads(1) reserve s1] budget_okD(1) [OF ok] by simp
  have kept: "requests_kept (policy_requests s) (policy_requests s')"
    unfolding reqs by (rule requests_kept_update) (auto simp: request_kept_def status_next_def sent_states_def)
  have coupled: "\<exists>r' \<in> set (policy_requests s'). pr_id r' = lg_request l \<and> (lg_status l = ''completed'' \<longrightarrow> pr_status r' = ''completed'')"
    if l: "l \<in> set (policy_ledger s')" for l
  proof -
    have "\<exists>r0 \<in> set (policy_requests s). pr_id r0 = lg_request l \<and> (lg_status l = ''completed'' \<longrightarrow> pr_status r0 = ''completed'')"
    proof (cases "l \<in> set (policy_ledger s)")
      case True
      with ok show ?thesis by (auto simp: budget_ok_def)
    next
      case False
      with reserve_scopes_rows [OF s1] l have "lg_request l = request" "lg_status l = ''reserved''" by (auto simp: s')
      with r show ?thesis by (auto dest: get_row_SomeD)
    qed
    then obtain r0 where r0: "r0 \<in> set (policy_requests s)" "pr_id r0 = lg_request l"
      "lg_status l = ''completed'' \<longrightarrow> pr_status r0 = ''completed''" by blast
    obtain r' where "r' \<in> set (policy_requests s')" "request_kept r0 r'" by (rule requests_kept_find [OF kept r0(1)])
    with r0(2,3) show ?thesis by (auto simp: request_kept_def status_next_def)
  qed
  have "stored_fits L C x" if "x \<in> set (policy_requests s')" for x
    using that by (intro stored_fits_update [OF budget_okD(3) [OF ok]]) (auto simp: reqs)
  moreover have "unique_on pr_id (policy_requests s')"
    using budget_okD(2) [OF ok] requests_kept_ids [OF kept] by (simp add: unique_on_def)
  ultimately have "budget_ok L C s'" using books coupled by (simp add: budget_ok_def s')
  moreover have "within_cap L C p (policy_accounts s') (utc_day (now env)) sc" if "sc \<in> set (scopes_of t)" for sc
    using reserve_scopes_cap [OF gcm reads(1) reserve s1 _ _ that] budget_okD(1) [OF ok] by (simp add: s' scopes_of_def)
  ultimately show ?thesis using kept by blast
qed

subsection \<open>Beginning an effect\<close>

definition added_request :: "'w policy_core \<Rightarrow> policy_section \<Rightarrow> env \<Rightarrow> task_identity \<Rightarrow> policy_effect \<Rightarrow> int \<Rightarrow> bytes \<Rightarrow>
    request_row list \<Rightarrow> request_row list" where
  "added_request C p env t e version cont rs = rs @ [new_request C p env t e version cont]"

lemma begin_dispatch_cases:
  assumes "begin_dispatch L C p env t e s0 s = (res, es, s')"
  obtains "s' = s0" "\<And>i. res \<noteq> Dispatched i" | "res = Dispatched (pe_id e)" "aiPolicyDispatchTx L C p env 12 (pe_id e) t e s = Inr s'"
  using assms by (cases "aiPolicyDispatchTx L C p env 12 (pe_id e) t e s") (auto simp: begin_dispatch_def split: if_splits)

lemma begin_new_cases:
  assumes "begin_new L C p env t e version cont s = (res, es, s')"
  obtains
    "s' = s" "\<And>i. res \<noteq> Dispatched i"
  | "res = Pending" "pe_id e \<notin> pr_id ` set (policy_requests s)"
      "policy_requests s' = added_request C p env t e version cont (policy_requests s)"
      "policy_ledger s' = policy_ledger s" "policy_accounts s' = policy_accounts s"
  | "res = Dispatched (pe_id e)" "\<not> aiPolicyRequired p e" "pe_id e \<notin> pr_id ` set (policy_requests s)"
      "aiPolicyDispatchTx L C p env 12 (pe_id e) t e (s\<lparr>policy_requests := set_requests (\<lambda>r. pr_id r = pe_id e) ''approved'' (now env)
         (added_request C p env t e version cont (policy_requests s))\<rparr>) = Inr s'"
proof (cases "(if flt env 6 then None else insert_row pr_id (new_request C p env t e version cont) (policy_requests s)) = None")
  case True
  with assms show ?thesis by (intro that(1)) (simp_all add: begin_new_def)
next
  case False
  then have fresh: "pe_id e \<notin> pr_id ` set (policy_requests s)"
    and ins: "(if flt env 6 then None else insert_row pr_id (new_request C p env t e version cont) (policy_requests s))
      = Some (added_request C p env t e version cont (policy_requests s))"
    by (auto simp: insert_row_def get_row_None_iff added_request_def new_request_def split: if_splits)
  let ?s = "s\<lparr>policy_requests := added_request C p env t e version cont (policy_requests s)\<rparr>"
  show ?thesis
  proof (cases "aiPolicyRequired p e")
    case True
    let ?a = "Append C (shift_env 9 env) (set_job_status (pe_job e) ''running'' ''awaiting_approval'' (now env) ?s) (ti_chat t)
      ''ai.approval.required'' [] (Some (required_data (pe_job e) (pe_id e)))"
    show ?thesis
    proof (cases ?a)
      case (Inl x)
      with assms ins True show ?thesis by (intro that(1)) (auto simp: begin_new_def split: if_splits)
    next
      case (Inr y)
      obtain seq s1 where y: "y = (seq, s1)" by (cases y)
      note frame = Append_policy [OF Inr [unfolded y]]
      show ?thesis
      proof (cases "flt env 7 \<or> flt env 8 \<or> flt env 11")
        case t: True
        with assms ins True Inr y show ?thesis by (intro that(1)) (auto simp: begin_new_def split: if_splits)
      next
        case f: False
        with assms ins True Inr y have "res = Pending" "s' = s1" by (auto simp: begin_new_def)
        with fresh frame show ?thesis by (intro that(2)) (simp_all add: set_job_status_def)
      qed
    qed
  next
    case r: False
    show ?thesis
    proof (cases "flt env 7")
      case True
      with assms ins r show ?thesis by (intro that(1)) (auto simp: begin_new_def)
    next
      case f: False
      with assms ins r have "begin_dispatch L C p env t e s
        (s\<lparr>policy_requests := set_requests (\<lambda>r. pr_id r = pe_id e) ''approved'' (now env)
           (added_request C p env t e version cont (policy_requests s))\<rparr>) = (res, es, s')"
        by (simp add: begin_new_def)
      then show ?thesis by (rule begin_dispatch_cases) (use that(1,3) r fresh in blast)+
    qed
  qed
qed

lemma aiPolicyBegin_cases:
  assumes "aiPolicyBegin R L C env s e0 cont = (res, es, s')"
  obtains
    (nothing) "s' = s" "\<And>i. res \<noteq> Dispatched i"
  | (waits) t version where "res = Pending" "pe_id (given_effect env e0) \<notin> pr_id ` set (policy_requests s)" "0 \<le> pe_reserve e0"
      "policy_requests s' = added_request C (set_ai_policy (rt_settings R)) env t (given_effect env e0) version cont (policy_requests s)"
      "policy_ledger s' = policy_ledger s" "policy_accounts s' = policy_accounts s"
  | (new) t version where "res = Dispatched (pe_id (given_effect env e0))" "\<not> aiPolicyRequired (set_ai_policy (rt_settings R)) e0"
      "pe_id (given_effect env e0) \<notin> pr_id ` set (policy_requests s)" "0 \<le> pe_reserve e0"
      "aiPolicyDispatchTx L C (set_ai_policy (rt_settings R)) env 12 (pe_id (given_effect env e0)) t (given_effect env e0)
         (s\<lparr>policy_requests := set_requests (\<lambda>r. pr_id r = pe_id (given_effect env e0)) ''approved'' (now env)
            (added_request C (set_ai_policy (rt_settings R)) env t (given_effect env e0) version cont (policy_requests s))\<rparr>) = Inr s'"
      "aiTaskLookup no_faults s (pe_job e0) = Some t"
  | (approved) t r where "res = Dispatched (pe_id (given_effect env e0))" "r \<in> set (policy_requests s)" "pr_id r = pe_id (given_effect env e0)"
      "pr_status r = ''approved''" "0 \<le> pe_reserve e0"
      "aiPolicyDispatchTx L C (set_ai_policy (rt_settings R)) env 12 (pe_id (given_effect env e0)) t (given_effect env e0) s = Inr s'"
      "aiTaskLookup no_faults s (pe_job e0) = Some t"
proof -
  let ?p = "set_ai_policy (rt_settings R)" and ?e = "given_effect env e0"
  have lookup: "aiTaskLookup no_faults s j = Some t" if "aiTaskLookup f s j = Some t" for f j t
    using that by (auto simp: aiTaskLookup_def no_faults_def split: if_splits option.splits)
  have same: "pe_job ?e = pe_job e0" "pe_reserve ?e = pe_reserve e0" "aiPolicyRequired ?p ?e = aiPolicyRequired ?p e0"
    by (simp_all add: given_effect_def aiPolicyRequired_def)
  consider "s' = s" "\<And>i. res \<noteq> Dispatched i"
    | t version where "0 \<le> pe_reserve e0" "query_row (filter (\<lambda>r. pr_id r = pe_id ?e \<and> pr_job r = pe_job ?e) (policy_requests s)) = None"
        "begin_new L C ?p env t ?e version cont s = (res, es, s')" "aiTaskLookup (shift_faults 1 (flt env)) s (pe_job e0) = Some t"
    | t r where "0 \<le> pe_reserve e0" "query_row (filter (\<lambda>r. pr_id r = pe_id ?e \<and> pr_job r = pe_job ?e) (policy_requests s)) = Some r"
        "pr_status r = ''approved''" "begin_dispatch L C ?p env t ?e s s = (res, es, s')" "aiTaskLookup (shift_faults 1 (flt env)) s (pe_job e0) = Some t"
    using assms unfolding aiPolicyBegin_def Let_def
    by (auto simp: same split: if_splits option.splits)
  then show ?thesis
  proof cases
    case 1
    then show ?thesis by (rule nothing)
  next
    case (2 t version)
    from 2(3) show ?thesis
    proof (rule begin_new_cases)
      assume "s' = s" "\<And>i. res \<noteq> Dispatched i"
      then show ?thesis by (rule nothing)
    qed (use waits [of t version] new [of t version] 2(1) lookup [OF 2(4)] same in simp_all)
  next
    case (3 t r)
    then have "r \<in> set (policy_requests s)" "pr_id r = pe_id ?e" by (auto dest!: query_row_SomeD)
    from 3(4) show ?thesis
    proof (rule begin_dispatch_cases)
      assume "s' = s" "\<And>i. res \<noteq> Dispatched i"
      then show ?thesis by (rule nothing)
    qed (use approved [of r t] 3(1,3) lookup [OF 3(5)] \<open>r \<in> set (policy_requests s)\<close> \<open>pr_id r = pe_id ?e\<close> in simp)
  qed
qed

definition reaches :: "'w policy_db_scheme \<Rightarrow> 'w policy_db_scheme \<Rightarrow> bool" where
  "reaches s s' \<longleftrightarrow> (\<forall>r \<in> set (policy_requests s). \<exists>r' \<in> set (policy_requests s'). request_kept r r')"

lemma reaches_refl [simp]: "reaches s s"
  unfolding reaches_def using request_kept_refl by blast

lemma reaches_trans: "reaches s t \<Longrightarrow> reaches t u \<Longrightarrow> reaches s u"
  unfolding reaches_def by (meson request_kept_trans)

lemma reaches_kept: "requests_kept (policy_requests s) (policy_requests s') \<Longrightarrow> reaches s s'"
  unfolding reaches_def by (meson requests_kept_find)

lemma added_budget:
  assumes gcm: "gcm_opens (prim C) (eng_aead (eng C))" and reads: "reads_stored L" and ok: "budget_ok L C s"
    and fresh: "pe_id e \<notin> pr_id ` set (policy_requests s)" and fits: "counter (pe_reserve e)"
    and s': "policy_requests s' = added_request C p env t e version cont (policy_requests s)"
      "policy_ledger s' = policy_ledger s" "policy_accounts s' = policy_accounts s"
  shows "budget_ok L C s' \<and> reaches s s'"
proof -
  have new: "pr_id (new_request C p env t e version cont) = pe_id e" by (simp add: new_request_def)
  have "stored_fits L C (new_request C p env t e version cont)"
    by (rule stored_fits_seal [OF gcm reads, where o' = "\<lparr>so_effect = e, so_continuation = cont, so_epoch = ti_epoch t, so_session = version\<rparr>"
        and n = "nonce env"]) (simp_all add: fits new_request_def)
  moreover have "unique_on pr_id (policy_requests s')"
    using budget_okD(2) [OF ok] fresh by (simp add: s' added_request_def unique_on_append1 new)
  moreover have "\<exists>r \<in> set (policy_requests s'). pr_id r = lg_request l \<and> (lg_status l = ''completed'' \<longrightarrow> pr_status r = ''completed'')"
    if "l \<in> set (policy_ledger s')" for l
    using that ok by (auto simp: s' added_request_def budget_ok_def)
  ultimately have "budget_ok L C s'" using budget_okD(1,3) [OF ok] by (auto simp: budget_ok_def s' added_request_def)
  moreover have "set (policy_requests s) \<subseteq> set (policy_requests s')" by (auto simp: s' added_request_def)
  then have "reaches s s'" unfolding reaches_def using request_kept_refl by blast
  ultimately show ?thesis by blast
qed

text \<open>The store from which an effect that needs no approval is dispatched.\<close>

lemma approved_base:
  assumes gcm: "gcm_opens (prim C) (eng_aead (eng C))" and reads: "reads_stored L" and ok: "budget_ok L C s"
    and fresh: "pe_id e \<notin> pr_id ` set (policy_requests s)" and fit: "counter (pe_reserve e)"
    and sm: "sm = s\<lparr>policy_requests := set_requests (\<lambda>r. pr_id r = pe_id e) ''approved'' (now env)
      (added_request C p env t e version cont (policy_requests s))\<rparr>"
  shows "budget_ok L C sm \<and> reaches s sm"
proof -
  define sa where "sa = s\<lparr>policy_requests := added_request C p env t e version cont (policy_requests s)\<rparr>"
  have a: "budget_ok L C sa \<and> reaches s sa" by (rule added_budget [OF gcm reads ok fresh fit]) (simp_all add: sa_def)
  have reqs: "policy_requests sm = update_rows (\<lambda>r. pr_id r = pe_id e) (\<lambda>r. r\<lparr>pr_status := ''approved'', pr_updated := now env\<rparr>) (policy_requests sa)"
    by (simp add: sm sa_def set_requests_def)
  have only: "r = new_request C p env t e version cont" if "r \<in> set (policy_requests sa)" "pr_id r = pe_id e" for r
    using that fresh by (force simp: sa_def added_request_def)
  have kept: "requests_kept (policy_requests sa) (policy_requests sm)"
    unfolding reqs by (rule requests_kept_update, drule (1) only)
      (simp add: request_kept_def status_next_def sent_states_def new_request_def)
  have "stored_fits L C r" if "r \<in> set (policy_requests sm)" for r
    using that a by (intro stored_fits_update [OF budget_okD(3)]) (auto simp: reqs)
  then have "budget_ok L C sm" using a by (intro budget_ok_kept [OF _ kept]) (simp_all add: sm sa_def)
  with a kept show ?thesis by (blast intro: reaches_trans reaches_kept)
qed

lemma begin_budget:
  assumes gcm: "gcm_opens (prim C) (eng_aead (eng C))" and reads: "reads_amounts L" "reads_stored L"
    and ok: "budget_ok L C s" and fits: "pe_reserve e0 \<le> max_int64" "counter (po_reserve (set_ai_policy (rt_settings R)))"
    and step: "aiPolicyBegin R L C env s e0 cont = (res, es, s')"
  shows "budget_ok L C s' \<and> reaches s s'"
  using step
proof (cases rule: aiPolicyBegin_cases)
  case nothing
  with ok show ?thesis by simp
next
  case (waits t version)
  have "counter (pe_reserve (given_effect env e0))" using waits(3) fits(1) by (simp add: given_effect_def counter_def)
  from added_budget [OF gcm reads(2) ok waits(2) this waits(4-6)] show ?thesis .
next
  case (new t version)
  let ?p = "set_ai_policy (rt_settings R)" and ?e = "given_effect env e0"
  have fit: "counter (pe_reserve ?e)" using new(4) fits(1) by (simp add: given_effect_def counter_def)
  note m = approved_base [OF gcm reads(2) ok new(3) fit refl, of env ?p t version cont]
  from dispatch_budget [OF gcm reads conjunct1 [OF m] fit fits(2) new(5)] m show ?thesis by (blast intro: reaches_trans reaches_kept)
next
  case (approved t r)
  have "counter (pe_reserve (given_effect env e0))" using approved(5) fits(1) by (simp add: given_effect_def counter_def)
  from dispatch_budget [OF gcm reads ok this fits(2) approved(6)] show ?thesis by (blast intro: reaches_kept)
qed

lemma begin_within_cap:
  assumes gcm: "gcm_opens (prim C) (eng_aead (eng C))" and reads: "reads_amounts L" "reads_stored L"
    and ok: "budget_ok L C s" and fits: "pe_reserve e0 \<le> max_int64" "counter (po_reserve (set_ai_policy (rt_settings R)))"
    and step: "aiPolicyBegin R L C env s e0 cont = (Dispatched i, es, s')"
  obtains t where "aiTaskLookup no_faults s (pe_job e0) = Some t"
    "\<forall>sc \<in> set (scopes_of t). within_cap L C (set_ai_policy (rt_settings R)) (policy_accounts s') (utc_day (now env)) sc"
  using step
proof (cases rule: aiPolicyBegin_cases)
  case (new t version)
  let ?p = "set_ai_policy (rt_settings R)" and ?e = "given_effect env e0"
  have fit: "counter (pe_reserve ?e)" using new(4) fits(1) by (simp add: given_effect_def counter_def)
  note m = approved_base [OF gcm reads(2) ok new(3) fit refl, of env ?p t version cont]
  from dispatch_budget [OF gcm reads conjunct1 [OF m] fit fits(2) new(5)] new(6) that show ?thesis by blast
next
  case (approved t r)
  have "counter (pe_reserve (given_effect env e0))" using approved(5) fits(1) by (simp add: given_effect_def counter_def)
  from dispatch_budget [OF gcm reads ok this fits(2) approved(6)] approved(7) that show ?thesis by blast
next
  case nothing
  then show ?thesis by blast
qed simp

subsection \<open>Approving, revoking and restarting\<close>

lemma approve_requests:
  assumes "aiPolicyApprove R L C env s b = (rep, es, s')"
  shows "s' = s \<or> (\<exists>i. policy_requests s' = set_requests (\<lambda>x. pr_id x = i \<and> pr_status x = ''awaiting'') ''approved'' (now env) (policy_requests s))"
    and "policy_ledger s' = policy_ledger s" "policy_accounts s' = policy_accounts s"
  using assms
  by (auto simp: aiPolicyApprove_def approve_rows_def set_job_status_def Let_def split: if_splits option.splits sum.splits)

lemma set_requests_budget:
  assumes ok: "budget_ok L C s" and reqs: "policy_requests s' = set_requests p st t (policy_requests s)"
    and frame: "policy_ledger s' = policy_ledger s" "policy_accounts s' = policy_accounts s"
    and step: "\<And>r. r \<in> set (policy_requests s) \<Longrightarrow> p r \<Longrightarrow> status_next (pr_status r) st"
  shows "budget_ok L C s' \<and> reaches s s'"
proof -
  have kept: "requests_kept (policy_requests s) (policy_requests s')"
    unfolding reqs set_requests_def by (rule requests_kept_update) (simp add: request_kept_def step)
  have "stored_fits L C r" if "r \<in> set (policy_requests s')" for r
    using that by (intro stored_fits_update [OF budget_okD(3) [OF ok]]) (auto simp: reqs set_requests_def)
  with budget_ok_kept [OF ok kept _ frame] reaches_kept [OF kept] show ?thesis by blast
qed

lemma approve_budget:
  assumes "budget_ok L C s" "aiPolicyApprove R L C env s b = (rep, es, s')"
  shows "budget_ok L C s' \<and> reaches s s'"
  using approve_requests(1) [OF assms(2)]
proof
  assume "s' = s"
  with assms(1) show ?thesis by simp
next
  assume "\<exists>i. policy_requests s' = set_requests (\<lambda>x. pr_id x = i \<and> pr_status x = ''awaiting'') ''approved'' (now env) (policy_requests s)"
  then obtain i where "policy_requests s' = set_requests (\<lambda>x. pr_id x = i \<and> pr_status x = ''awaiting'') ''approved'' (now env) (policy_requests s)" ..
  from set_requests_budget [OF assms(1) this approve_requests(2,3) [OF assms(2)]] show ?thesis
    by (auto simp: status_next_def sent_states_def)
qed

lemma install_budget:
  assumes "budget_ok L C s" "installAIPolicy R env s = (k, b, s')"
  shows "budget_ok L C s' \<and> reaches s s'"
proof -
  have "(policy_requests s' = policy_requests s \<or> policy_requests s' = set_requests (\<lambda>r. pr_status r = ''dispatched'') ''uncertain'' (now env) (policy_requests s))
      \<and> policy_ledger s' = policy_ledger s \<and> policy_accounts s' = policy_accounts s"
    using assms(2) by (auto simp: installAIPolicy_def Let_def split: if_splits option.splits)
  then consider "policy_requests s' = policy_requests s" "policy_ledger s' = policy_ledger s" "policy_accounts s' = policy_accounts s"
    | "policy_requests s' = set_requests (\<lambda>r. pr_status r = ''dispatched'') ''uncertain'' (now env) (policy_requests s)"
      "policy_ledger s' = policy_ledger s" "policy_accounts s' = policy_accounts s" by blast
  then show ?thesis
  proof cases
    case 1
    with assms(1) show ?thesis by (auto simp: budget_ok_def intro!: reaches_kept)
  next
    case 2
    from set_requests_budget [OF assms(1) 2] show ?thesis by (simp add: status_next_def sent_states_def)
  qed
qed

subsection \<open>All steps\<close>

text \<open>
  The operations of the module, and any step of the rest of the server, which has no access to its requests and books.
  Reservations and counters are 64-bit integers.
\<close>

inductive budget_step :: "'w policy_db_scheme runtime \<Rightarrow> policy_lib \<Rightarrow> 'w policy_core \<Rightarrow> 'w policy_db_scheme \<Rightarrow> 'w policy_db_scheme \<Rightarrow> bool"
  for R :: "'w policy_db_scheme runtime" and L :: policy_lib and C :: "'w policy_core" where
  begin_effect: "pe_reserve e \<le> max_int64 \<Longrightarrow> aiPolicyBegin R L C env s e cont = (res, es, s') \<Longrightarrow> budget_step R L C s s'"
| settle: "usage_fits u \<Longrightarrow> aiPolicySettle L C (set_ai_policy (rt_settings R)) env s i u outcome = (b, s') \<Longrightarrow> budget_step R L C s s'"
| approve: "aiPolicyApprove R L C env s token = (rep, es, s') \<Longrightarrow> budget_step R L C s s'"
| revoke: "aiPolicyRevoke env s grant = (rep', es, s') \<Longrightarrow> budget_step R L C s s'"
| cleanup: "aiPolicyCleanupExpired L C env s = (es, s') \<Longrightarrow> budget_step R L C s s'"
| deletion: "policy_delete_hook L C env s mid = Inr s' \<Longrightarrow> budget_step R L C s s'"
| restart: "installAIPolicy R env s = (k, ok, s') \<Longrightarrow> budget_step R L C s s'"
| rest: "policy_requests s' = policy_requests s \<Longrightarrow> policy_ledger s' = policy_ledger s \<Longrightarrow> policy_accounts s' = policy_accounts s \<Longrightarrow>
    budget_step R L C s s'"

lemma budget_step_ok:
  assumes gcm: "gcm_opens (prim C) (eng_aead (eng C))" and reads: "reads_amounts L" "reads_stored L"
    and p: "counter (po_reserve (set_ai_policy (rt_settings R)))"
    and "budget_step R L C s s'" "budget_ok L C s"
  shows "budget_ok L C s' \<and> reaches s s'"
  using assms(5,6)
proof cases
  case (begin_effect e env cont res es)
  from begin_budget [OF gcm reads assms(6) begin_effect(1) p begin_effect(2)] show ?thesis .
next
  case (settle u env i outcome b)
  from settle_budget [OF gcm reads assms(6) settle(1) p settle(2)] show ?thesis by (blast intro: reaches_kept)
next
  case (approve env token rep es)
  from approve_budget [OF assms(6) approve] show ?thesis .
next
  case (revoke env grant rep es)
  then have "policy_requests s' = policy_requests s" "policy_ledger s' = policy_ledger s" "policy_accounts s' = policy_accounts s"
    by (auto simp: aiPolicyRevoke_def Let_def split: if_splits)
  with assms(6) show ?thesis by (auto simp: budget_ok_def intro!: reaches_kept)
next
  case (cleanup env es)
  from cleanup_budget [OF gcm reads(2) assms(6) cleanup] show ?thesis by (blast intro: reaches_kept)
next
  case (deletion env mid)
  from policy_delete_hook_budget [OF gcm reads(2) assms(6) deletion] show ?thesis by (blast intro: reaches_kept)
next
  case (restart env k ok)
  from install_budget [OF assms(6) restart] show ?thesis .
next
  case rest
  with assms(6) show ?thesis by (auto simp: budget_ok_def intro!: reaches_kept)
qed

lemma budget_steps_ok:
  assumes gcm: "gcm_opens (prim C) (eng_aead (eng C))" and reads: "reads_amounts L" "reads_stored L"
    and p: "counter (po_reserve (set_ai_policy (rt_settings R)))"
    and "(budget_step R L C)\<^sup>*\<^sup>* s s'" "budget_ok L C s"
  shows "budget_ok L C s' \<and> reaches s s'"
  using assms(5,6)
proof (induction rule: rtranclp_induct)
  case (step y z)
  then have y: "budget_ok L C y \<and> reaches s y" by blast
  from budget_step_ok [OF gcm reads p step.hyps(2) conjunct1 [OF y]] y show ?case by (blast intro: reaches_trans)
qed simp

text \<open>A request that was sent is not dispatched again.\<close>

lemma sent_not_dispatched:
  assumes "unique_on pr_id (policy_requests s)" "r \<in> set (policy_requests s)" "pr_status r \<in> set sent_states"
    "aiPolicyBegin R L C env s e cont = (res, es, s')"
  shows "res \<noteq> Dispatched (pr_id r)"
  using assms(4)
proof (cases rule: aiPolicyBegin_cases)
  case (new t version)
  with assms(2) show ?thesis by auto
next
  case (approved t r')
  have "r' = r" if "pr_id r' = pr_id r" using unique_on_eqD [OF assms(1) approved(2) assms(2) that] .
  with approved(1,3,4) assms(3) show ?thesis by (auto simp: sent_states_def)
qed auto

lemma dispatch_sends:
  assumes "aiPolicyDispatchTx L C p env n i t e s = Inr s'" "r \<in> set (policy_requests s)" "pr_id r = i" "pr_status r = ''approved''"
  shows "\<exists>r' \<in> set (policy_requests s'). pr_id r' = i \<and> pr_status r' = ''dispatched''"
proof -
  obtain gs where "dispatch_rows L C p env (n + 5) i t e (s\<lparr>policy_grants := gs\<rparr>) = Some s'"
    by (rule aiPolicyDispatchTx_Inr [OF assms(1)]) (rule that)
  then have reqs: "policy_requests s' = update_rows (\<lambda>r. pr_id r = i \<and> pr_status r = ''approved'')
      (\<lambda>r. r\<lparr>pr_status := ''dispatched'', pr_dispatched := now env, pr_updated := now env\<rparr>) (policy_requests s)"
    by (rule dispatch_rows_Some) simp
  have "r\<lparr>pr_status := ''dispatched'', pr_dispatched := now env, pr_updated := now env\<rparr> \<in> set (policy_requests s')"
    using assms(2-4) by (force simp: reqs set_update_rows)
  with assms(3) show ?thesis by (intro bexI) auto
qed

lemma dispatched_is_sent:
  assumes "aiPolicyBegin R L C env s e cont = (Dispatched i, es, s')"
  shows "\<exists>r \<in> set (policy_requests s'). pr_id r = i \<and> pr_status r = ''dispatched''"
  using assms
proof (cases rule: aiPolicyBegin_cases)
  case (new t version)
  let ?e = "given_effect env e" and ?p = "set_ai_policy (rt_settings R)"
  have "(new_request C ?p env t ?e version cont)\<lparr>pr_status := ''approved'', pr_updated := now env\<rparr>
      \<in> set (set_requests (\<lambda>r. pr_id r = pe_id ?e) ''approved'' (now env) (added_request C ?p env t ?e version cont (policy_requests s)))"
    by (force simp: set_requests_def set_update_rows added_request_def new_request_def)
  with dispatch_sends [OF new(5)] new(1) show ?thesis by (auto simp: new_request_def)
next
  case (approved t r)
  with dispatch_sends [OF approved(6)] show ?thesis by auto
next
  case nothing
  then show ?thesis by blast
qed simp

end
