(* ===== verification/AssistantFixture.thy ===== *)
theory AssistantFixture
  imports Fixture Conversation Spending
begin

text \<open>
  A small installation with an assistant, on which the properties of the AI modules are instantiated: a chat of alice with the
  assistant bob, her message, the running job it caused, and a stand-in for the JSON reader that satisfies the laws of \<open>Budget\<close>.
\<close>

subsection \<open>Reading amounts and effects\<close>

lemma split_at_snoc: "split_at c (a @ c # r) = split_at c a @ split_at c r"
proof (induction a)
  case (Cons x a)
  then show ?case using split_at_Cons [of c a] by (auto split: list.splits simp: append_eq_Cons_conv Cons_eq_append_conv)
qed simp

lemma dec_nat_digits: "list_all (\<lambda>c. 48 \<le> byte c \<and> byte c \<le> 57) (dec_nat n)"
proof (induction n rule: dec_nat.induct)
  case (1 n)
  then show ?case by (cases "n < 10") (simp_all add: dec_nat.simps [of n])
qed

lemma dec_int_comma: "CHR '','' \<notin> set (dec_int i)" "CHR ''}'' \<notin> set (dec_int i)"
  using dec_nat_digits [of "nat i"] dec_nat_digits [of "nat (- i)"] by (auto simp: dec_int_def list_all_iff)

definition toy_number :: "string \<Rightarrow> string \<Rightarrow> int" where
  "toy_number prefix' part = fst (ParseInt (takeWhile (\<lambda>c. c \<noteq> CHR ''}'') (drop (length prefix') part)))"

definition toy_amounts :: "bytes \<Rightarrow> amounts option" where
  "toy_amounts b =
     (case split_at (CHR '','') b of
        r # c # u # i # out # cr # cw # k # _ \<Rightarrow> Some \<lparr>am_reserved = toy_number (CHR ''{'' # json_member ''reserved'' []) r,
          am_cost = toy_number (json_member ''cost'' []) c, am_used = toy_number (json_member ''used'' []) u,
          am_input = toy_number (json_member ''input_tokens'' []) i, am_output = toy_number (json_member ''output_tokens'' []) out,
          am_cache_read = toy_number (json_member ''cache_read_tokens'' []) cr,
          am_cache_write = toy_number (json_member ''cache_write_tokens'' []) cw, am_known = (k = json_member ''known'' (json_bool True)),
          am_currency = []\<rparr>
      | _ \<Rightarrow> None)"

definition no_effect :: policy_effect where
  "no_effect = \<lparr>pe_id = [], pe_job = [], pe_action = [], pe_name = [], pe_destination = [], pe_hash = [], pe_required = False,
     pe_epoch = 0, pe_session = 0, pe_reserve = 0, pe_input_price = 0, pe_output_price = 0\<rparr>"

text \<open>The reserve is the sixth part from the end; the rest of an effect may contain commas.\<close>

definition toy_stored :: "bytes \<Rightarrow> stored_effect option" where
  "toy_stored b =
     (case rev (split_at (CHR '','') b) of
        v # ep # c # outp # inp # r # _ \<Rightarrow> Some \<lparr>so_effect = no_effect\<lparr>pe_reserve := toy_number (json_member ''ReserveMicrounits'' []) r\<rparr>,
          so_continuation = [], so_epoch = 0, so_session = 0\<rparr>
      | _ \<Rightarrow> None)"

text \<open>No text that the parser splits contains a comma of its own.\<close>

lemma b64_digit_safe: "n < 64 \<Longrightarrow> json_safe (b64_digit n) \<and> b64_digit n \<noteq> CHR '',''"
proof -
  assume n: "n < 64"
  have "byte (b64_digit n) \<notin> {34, 92, 60, 62, 38, 44}" "32 \<le> byte (b64_digit n)" "byte (b64_digit n) < 128"
    using n by (auto simp: byte_b64_digit)
  then show ?thesis unfolding json_safe_def by auto
qed

lemma b64_encode_safe: "list_all (\<lambda>c. json_safe c \<and> c \<noteq> CHR '','') (b64_encode bs)"
proof (induction bs rule: b64_encode.induct)
  case (2 a)
  show ?case using b64_parts [of "byte a" 0 0] by (simp add: Let_def b64_digit_safe) (simp add: json_safe_def)
next
  case (3 a b)
  show ?case using b64_parts [of "byte a" "byte b" 0] by (simp add: Let_def b64_digit_safe) (simp add: json_safe_def)
next
  case (4 a b c cs)
  then show ?case using b64_parts [of "byte a" "byte b" "byte c"] by (simp add: Let_def b64_digit_safe)
qed simp

lemma b64_comma: "CHR '','' \<notin> set (json_string (b64_encode bs))"
proof -
  have "json_plain (b64_encode bs)" "CHR '','' \<notin> set (b64_encode bs)"
    using b64_encode_safe [of bs] by (auto simp: json_plain_def list_all_iff)
  then show ?thesis by (simp add: json_string_def json_escape_plain)
qed

lemma toy_number_member:
  assumes "0 \<le> i" "i \<le> max_int64"
  shows "toy_number (p @ json_member n []) (p @ json_member n (dec_int i)) = i"
proof -
  have digits: "takeWhile (\<lambda>c. c \<noteq> CHR ''}'') (dec_int i) = dec_int i"
    unfolding takeWhile_eq_all_conv using dec_int_comma(2) by auto
  show ?thesis using assms by (simp add: toy_number_def json_member_def digits ParseInt_dec max_int64_def)
qed

lemma toy_number_head:
  "0 \<le> i \<Longrightarrow> i \<le> max_int64 \<Longrightarrow> toy_number (json_member n []) (json_member n (dec_int i)) = i"
  "0 \<le> i \<Longrightarrow> i \<le> max_int64 \<Longrightarrow> toy_number (CHR ''{'' # json_member n []) (CHR ''{'' # json_member n (dec_int i)) = i"
  using toy_number_member [of i "[]" n] toy_number_member [of i "''{''" n] by simp_all

lemma member_comma: "CHR '','' \<notin> set (json_member n v) \<longleftrightarrow> CHR '','' \<notin> set (json_string n) \<and> CHR '','' \<notin> set v"
  by (simp add: json_member_def)

lemma known_comma: "CHR '','' \<notin> set (json_bool b)" "json_bool b = json_bool True \<longleftrightarrow> b"
  by (simp_all add: json_bool_def)

lemma amounts_names: "CHR '','' \<notin> set (json_string ''reserved'')" "CHR '','' \<notin> set (json_string ''cost'')" "CHR '','' \<notin> set (json_string ''used'')"
  "CHR '','' \<notin> set (json_string ''input_tokens'')" "CHR '','' \<notin> set (json_string ''output_tokens'')"
  "CHR '','' \<notin> set (json_string ''cache_read_tokens'')" "CHR '','' \<notin> set (json_string ''cache_write_tokens'')"
  "CHR '','' \<notin> set (json_string ''known'')" "CHR '','' \<notin> set (json_string ''ReserveMicrounits'')"
  "CHR '','' \<notin> set (json_string ''InputPriceMicrounitsPerMillionTokens'')" "CHR '','' \<notin> set (json_string ''OutputPriceMicrounitsPerMillionTokens'')"
  "CHR '','' \<notin> set (json_string ''continuation'')" "CHR '','' \<notin> set (json_string ''session_epoch'')" "CHR '','' \<notin> set (json_string ''session_version'')"
  by code_simp+

lemma split_amounts: "split_at (CHR '','') (amounts_json m) =
    [CHR ''{'' # json_member ''reserved'' (dec_int (am_reserved m)), json_member ''cost'' (dec_int (am_cost m)),
     json_member ''used'' (dec_int (am_used m)), json_member ''input_tokens'' (dec_int (am_input m)),
     json_member ''output_tokens'' (dec_int (am_output m)), json_member ''cache_read_tokens'' (dec_int (am_cache_read m)),
     json_member ''cache_write_tokens'' (dec_int (am_cache_write m)), json_member ''known'' (json_bool (am_known m))]
    @ split_at (CHR '','') (json_member ''currency'' (json_string (am_currency m)) @ ''}'')"
proof -
  have head: "split_at (CHR '','') (CHR ''{'' # s @ CHR '','' # r) = (CHR ''{'' # s) # split_at (CHR '','') r" if "CHR '','' \<notin> set s" for s r
    using split_at_append [of "CHR '',''" "CHR ''{'' # s" r] that by simp
  show ?thesis
    by (simp add: amounts_json_def json_object_def head split_at_append member_comma amounts_names dec_int_comma known_comma)
qed

lemma toy_amounts_reads: "amounts_fit m \<Longrightarrow> toy_amounts (amounts_json m) = Some (m\<lparr>am_currency := []\<rparr>)"
  using split_at_Cons [of "CHR '',''" "json_member ''currency'' (json_string (am_currency m)) @ ''}''"]
  by (simp add: toy_amounts_def split_amounts amounts_fit_def counter_def toy_number_head del: split_at.simps)
    (simp add: json_member_def known_comma)

definition effect_head :: "stored_effect \<Rightarrow> string" where
  "effect_head o' = (let e = so_effect o' in CHR ''{'' # json_string ''effect'' @ CHR '':'' # CHR ''{'' # json_join
     [json_member ''ID'' (json_string (pe_id e)), json_member ''Job'' (json_string (pe_job e)),
      json_member ''Action'' (json_string (pe_action e)), json_member ''Name'' (json_string (pe_name e)),
      json_member ''Destination'' (json_string (pe_destination e)), json_member ''RequestHash'' (json_string (pe_hash e)),
      json_member ''Required'' (json_bool (pe_required e)), json_member ''Epoch'' (dec_int (pe_epoch e)),
      json_member ''SessionVersion'' (dec_int (pe_session e))])"

lemma split_stored: "split_at (CHR '','') (stored_json o') = split_at (CHR '','') (effect_head o')
    @ [json_member ''ReserveMicrounits'' (dec_int (pe_reserve (so_effect o'))),
       json_member ''InputPriceMicrounitsPerMillionTokens'' (dec_int (pe_input_price (so_effect o'))),
       json_member ''OutputPriceMicrounitsPerMillionTokens'' (dec_int (pe_output_price (so_effect o'))) @ ''}'',
       json_member ''continuation'' (if so_continuation o' = [] then ''null'' else json_string (b64_encode (so_continuation o'))),
       json_member ''session_epoch'' (dec_int (so_epoch o')), json_member ''session_version'' (dec_int (so_session o')) @ ''}'']"
  (is "_ = _ @ [?r, ?i, ?out @ _, ?c, ?ep, ?v @ _]")
proof -
  have json: "stored_json o' = effect_head o' @ CHR '','' # ?r @ CHR '','' # ?i @ CHR '','' # (?out @ ''}'') @ CHR '','' # ?c @ CHR '','' # ?ep
      @ CHR '','' # (?v @ ''}'')"
    by (simp add: stored_json_def effect_json_def json_object_def effect_head_def Let_def json_member_def [of "''effect''"])
  have "CHR '','' \<notin> set ?r" "CHR '','' \<notin> set ?i" "CHR '','' \<notin> set (?out @ ''}'')" "CHR '','' \<notin> set ?c" "CHR '','' \<notin> set ?ep" "CHR '','' \<notin> set (?v @ ''}'')"
    by (simp_all add: member_comma amounts_names dec_int_comma b64_comma)
  then show ?thesis unfolding json by (simp only: split_at_snoc split_at_plain append.simps not_False_eq_True)
qed

lemma toy_stored_reads: "counter (pe_reserve (so_effect o')) \<Longrightarrow>
    \<exists>x. toy_stored (stored_json o') = Some x \<and> pe_reserve (so_effect x) = pe_reserve (so_effect o')"
  by (simp add: toy_stored_def split_stored toy_number_head counter_def)

subsection \<open>The installation\<close>

definition desk_prims :: prims where
  "desk_prims = toy_prims\<lparr>p_sha256 := pad 32\<rparr>"

lemma desk_gcm_opens: "gcm_opens desk_prims k"
  using toy_gcm_opens [of k] by (simp add: gcm_opens_def desk_prims_def)

definition desk_hash :: string where
  "desk_hash = replicate 64 (CHR ''a'')"

definition desk_claims :: "string \<Rightarrow> policy_claims" where
  "desk_claims destination = \<lparr>pc_version = 1, pc_nonce = ''n1'', pc_request = ''r1'', pc_job = ''j1'', pc_chat = ''c'', pc_source_user = ''alice'',
     pc_source_device = ''a1'', pc_ai_user = ''bob'', pc_ai_device = ''b1'', pc_epoch = 0, pc_action = ''tool'', pc_name = ''t'',
     pc_hash = desk_hash, pc_destination = destination, pc_issuer = ''i'', pc_audience = ''a'', pc_issued = 990, pc_expires = 1100\<rparr>"

definition desk_destination :: string where
  "desk_destination = hex_encode (pad 32 ''https://x/'')"

definition desk_token :: string where
  "desk_token = ''QQ.Qg.Qw''"

definition desk_lib :: policy_lib where
  "desk_lib = \<lparr>pl_key = Some ''KEY'',
     pl_members = (\<lambda>b. if b = ''A'' then Some [(''alg'', json_string ''EdDSA''), (''typ'', json_string ''JWT'')]
       else if b = ''B'' then Some (map (\<lambda>n. (n, [])) policy_claim_names) else None),
     pl_claims = (\<lambda>b. if b = ''B'' then Some (desk_claims desk_destination) else None),
     pl_jwt = (\<lambda>key issuer audience t token. token = desk_token), pl_stored = toy_stored, pl_amounts = toy_amounts,
     pl_url = (\<lambda>s. Some (''https'', ''x'', False)), pl_lower = (\<lambda>s. s)\<rparr>"

lemma desk_reads: "reads_amounts desk_lib" "reads_stored desk_lib"
  using toy_amounts_reads toy_stored_reads by (simp_all add: reads_amounts_def reads_stored_def desk_lib_def)

definition desk_tool :: tool where
  "desk_tool = \<lparr>tl_name = ''t'', tl_kind = ''k'', tl_url = [], tl_secret = [], tl_methods = [], tl_private = False, tl_approval = False,
     tl_cost = 0, tl_resource = [], tl_action = [], tl_schema = None, tl_timeout = 0, tl_response = 0\<rparr>"

definition desk_settings :: settings where
  "desk_settings = Defaults\<lparr>cfg_features := no_features\<lparr>feat_openai := True, feat_ai_policy := True\<rparr>,
     set_ai := default_ai_section\<lparr>ai_tool_list := [desk_tool]\<rparr>,
     set_ai_policy := \<lparr>po_key_env = ''K'', po_issuer = ''i'', po_audience = ''a'', po_ttl = 600, po_provider_approval = False,
       po_reserve = 5, po_global = 100, po_per_bot = 50, po_per_user = 20, po_currency = ''USD''\<rparr>\<rparr>"

definition desk_runtime :: "unit policy_db_scheme runtime" where
  "desk_runtime = \<lparr>rt_settings = desk_settings, rt_blank = (\<lambda>s. s = []), rt_provider = (\<lambda>p. p = ''openai''), rt_tool = (\<lambda>k. k = ''k''),
     rt_getenv = (\<lambda>n. ''S''), rt_x25519 = (\<lambda>k. k), rt_ed25519 = (\<lambda>k. k), rt_profile = (\<lambda>a. []), rt_turns = (\<lambda>b. Some []),
     rt_saved = (\<lambda>b. None), rt_create_mls = None, rt_init_relay = None, rt_open_mls = None, rt_seal_mls = None, rt_continuation = None,
     rt_filter = None, rt_final = None\<rparr>"

definition desk_core :: "unit policy_core" where
  "desk_core = \<lparr>cfg = toy_config, prim = desk_prims, eng = toy_engine, prepare_hooks = [], tx_hooks = [], project_hooks = [],
     delete_hooks = []\<rparr>"

definition desk_message :: message_row where
  "desk_message = \<lparr>g_id = ''m1'', g_chat = ''c'', g_sender = ''alice'', g_device = ''a1'', g_operation = ''op-1'', g_seq = 1,
     g_revision = 1, g_deleted = False, g_payload = [], g_metadata = empty_metadata, g_epoch = 0, g_created = 1000\<rparr>"

definition desk_job :: "string \<Rightarrow> ai_job_row" where
  "desk_job status' = \<lparr>j_id = ''j1'', j_chat_id = ''c'', j_message_id = ''m1'', j_status = status', j_result = [],
     j_created = 1000, j_updated = 1000\<rparr>"

definition desk_db :: "unit policy_db_scheme" where
  "desk_db = \<lparr>versions = [1], indexes = [], users = users toy_db, devices = devices toy_db, chats = chats toy_db,
     members = members toy_db, messages = [desk_message], events = [], operations = [], cursors = [], tickets = [],
     vault_versions = [], resources = [], documents = [], vault_edges = [],
     ai_chats = [\<lparr>ac_chat = ''c'', ac_user = ''bob'', ac_device = ''b1'', ac_provider = ''openai'', ac_tools = [''t''],
       ac_context = [], ac_state = []\<rparr>],
     ai_jobs = [desk_job ''running''], ai_audit = [], named_versions = [1], ai_agents = [], ai_sessions = [], ai_tasks = [],
     policy_versions = [1], policy_requests = [], policy_grants = [], policy_revocations = [], policy_ledger = [], policy_accounts = []\<rparr>"

definition desk_effect :: "bool \<Rightarrow> policy_effect" where
  "desk_effect required = \<lparr>pe_id = ''r1'', pe_job = ''j1'', pe_action = ''tool'', pe_name = ''t'', pe_destination = ''https://x/'',
     pe_hash = desk_hash, pe_required = required, pe_epoch = 0, pe_session = 0, pe_reserve = 7, pe_input_price = 0, pe_output_price = 0\<rparr>"

definition desk_task :: task_identity where
  "desk_task = \<lparr>ti_chat = ''c'', ti_user = ''bob'', ti_device = ''b1'', ti_source_user = ''alice'', ti_source_device = ''a1'',
     ti_source_message = ''m1'', ti_mode = ''basic'', ti_status = ''running'', ti_epoch = 0, ti_state = []\<rparr>"

lemma desk_lookup: "aiTaskLookup no_faults desk_db ''j1'' = Some desk_task"
  by (simp add: aiTaskLookup_def direct_identity_def desk_db_def desk_job_def desk_message_def toy_db_def desk_task_def no_faults_def)

lemma desk_authorized: "aiTaskAuthorized False desk_db desk_task"
  by (simp add: aiTaskAuthorized_def desk_db_def desk_message_def toy_db_def desk_task_def)

lemma desk_budget: "budget_ok desk_lib desk_core desk_db"
  by (simp add: budget_ok_def books_ok_def balanced_def account_for_def desk_db_def no_amounts_def counter_def amounts_fit_def booked_def
      max_int64_def)

subsection \<open>A dispatched effect\<close>


lemma desk_env: "now (toy_env t u) = t" "flt (toy_env t u) n = False" "flt (shift_env k (toy_env t u)) n = False" "shift_faults k (flt (toy_env t u)) = no_faults"
  "now (shift_env k (toy_env t u)) = t"
  by (simp_all add: toy_env_def no_faults_def shift_env_def shift_faults_def fun_eq_iff)

lemma desk_authorized_any:
  assumes "messages s = messages desk_db" "members s = members desk_db" "devices s = devices desk_db" "users s = users desk_db" "chats s = chats desk_db"
  shows "aiTaskAuthorized False s desk_task"
  using desk_authorized unfolding aiTaskAuthorized_def assms .

lemma desk_session: "aiPolicySessionVersion False desk_db ''j1'' = Some 0"
  by (simp add: aiPolicySessionVersion_def desk_db_def)

lemma desk_policy: "feat_ai_policy (rt_features desk_runtime)" "po_ttl (set_ai_policy (rt_settings desk_runtime)) = 600"
  "reserve_of (set_ai_policy (rt_settings desk_runtime)) (desk_effect b) = 7"
  "aiPolicyRequired (set_ai_policy (rt_settings desk_runtime)) (desk_effect b) = b"
  "aiPolicyCap (set_ai_policy (rt_settings desk_runtime)) ''global'' = 100" "aiPolicyCap (set_ai_policy (rt_settings desk_runtime)) ''bot'' = 50"
  "aiPolicyCap (set_ai_policy (rt_settings desk_runtime)) ''source_user'' = 20"
  by (simp_all add: desk_runtime_def desk_settings_def no_features_def reserve_of_def desk_effect_def aiPolicyRequired_def aiPolicyCap_def)

lemma desk_reserve:
  assumes "policy_ledger s = []" "policy_accounts s = []"
  shows "\<exists>ls as. aiPolicyReserveTx desk_lib desk_core (set_ai_policy (rt_settings desk_runtime)) (toy_env 1000 u) n ''r1'' desk_task (desk_effect b) s
    = Some (s\<lparr>policy_ledger := ls, policy_accounts := as\<rparr>)"
proof -
  have "\<exists>s1. reserve_scopes desk_lib desk_core (set_ai_policy (rt_settings desk_runtime)) (toy_env 1000 u) n ''r1'' (desk_effect b) 7
      (utc_day 1000) (scopes_of desk_task) s = Some s1"
    by (simp add: scopes_of_def desk_task_def reserve_scope_def account_for_def assms over_cap_def no_amounts_def desk_policy
        max_int64_def insert_row_def lg_key_def desk_env put_account_def upsert_row_def ap_key_def get_row_def)
  then show ?thesis using reserve_scopes_frame by (fastforce simp: aiPolicyReserveTx_def desk_policy desk_env)
qed

lemma desk_rows:
  assumes "policy_ledger s = []" "policy_accounts s = []" "chats s = chats toy_db" "events s = []"
  shows "\<exists>s'. dispatch_rows desk_lib desk_core (set_ai_policy (rt_settings desk_runtime)) (toy_env 1000 u) n ''r1'' desk_task (desk_effect b) s = Some s'"
proof -
  obtain ls as where r: "aiPolicyReserveTx desk_lib desk_core (set_ai_policy (rt_settings desk_runtime)) (toy_env 1000 u) n ''r1'' desk_task (desk_effect b) s
    = Some (s\<lparr>policy_ledger := ls, policy_accounts := as\<rparr>)" using desk_reserve [OF assms(1,2)] by blast
  have chat: "ti_chat desk_task = ''c''" by (simp add: desk_task_def)
  show ?thesis by (simp add: dispatch_rows_def r chat Append_def desk_env assms toy_db_def insert_row_def e_key_def Let_def)
qed

lemma desk_dispatches: "\<exists>es s'. aiPolicyBegin desk_runtime desk_lib desk_core (toy_env 1000 []) desk_db (desk_effect False) [] = (Dispatched ''r1'', es, s')"
proof -
  let ?p = "set_ai_policy (rt_settings desk_runtime)"
  let ?q = "new_request desk_core ?p (toy_env 1000 []) desk_task (desk_effect False) 0 []"
  let ?s = "desk_db\<lparr>policy_requests := set_requests (\<lambda>r. pr_id r = ''r1'') ''approved'' 1000 [?q]\<rparr>"
  obtain s' where rows: "dispatch_rows desk_lib desk_core ?p (toy_env 1000 []) (12 + 5) ''r1'' desk_task (desk_effect False) ?s = Some s'"
    using desk_rows [of ?s] by (fastforce simp: desk_db_def)
  have e: "pe_id (desk_effect False) = ''r1''" "pe_job (desk_effect False) = ''j1''" "pe_epoch (desk_effect False) = 0" "pe_session (desk_effect False) = 0"
    "pe_reserve (desk_effect False) = 7" "given_effect env (desk_effect False) = desk_effect False" for env
    by (simp_all add: desk_effect_def given_effect_def)
  have t: "ti_status desk_task = ''running''" "ti_epoch desk_task = 0"
    by (simp_all add: desk_task_def)
  have auth: "aiTaskAuthorized False ?s desk_task" by (rule desk_authorized_any) simp_all
  have q: "get_row pr_id ''r1'' (policy_requests ?s) = Some (?q\<lparr>pr_status := ''approved'', pr_updated := 1000\<rparr>)"
    by (simp add: set_requests_def new_request_def e update_rows_def get_row_def)
  have "aiPolicyDispatchTx desk_lib desk_core ?p (toy_env 1000 []) 12 ''r1'' desk_task (desk_effect False) ?s = Inr s'"
    using rows q by (simp add: aiPolicyDispatchTx_def desk_env t auth desk_policy) (simp add: new_request_def desk_env desk_policy maxInt_def)
  then have "begin_dispatch desk_lib desk_core ?p (toy_env 1000 []) desk_task (desk_effect False) desk_db ?s = (Dispatched ''r1'', [Wake (ti_chat desk_task)], s')"
    by (simp add: begin_dispatch_def e desk_env)
  moreover have "policy_requests desk_db = []" by (simp add: desk_db_def)
  ultimately have "begin_new desk_lib desk_core ?p (toy_env 1000 []) desk_task (desk_effect False) 0 [] desk_db = (Dispatched ''r1'', [Wake (ti_chat desk_task)], s')"
    by (simp add: begin_new_def desk_env desk_policy insert_row_def get_row_def) (simp add: e)
  then show ?thesis
    by (simp add: aiPolicyBegin_def Let_def e t desk_authorized desk_env desk_policy desk_lookup desk_session \<open>policy_requests desk_db = []\<close>)
qed

subsection \<open>An approved effect\<close>

definition desk_request :: request_row where
  "desk_request = (new_request desk_core (set_ai_policy (rt_settings desk_runtime)) (toy_env 995 []) desk_task (desk_effect True) 0 [])
     \<lparr>pr_status := ''approved''\<rparr>"

definition desk_grant :: policy_grant_row where
  "desk_grant = \<lparr>pg_id = ''n1'', pg_request = ''r1'', pg_nonce = ''n1'', pg_hash = token_hash desk_core desk_token,
     pg_token = Seal desk_prims toy_engine ''nonce'' desk_token (aiPolicyAAD ''grant'' ''n1''), pg_issued = 995, pg_expires = 1100,
     pg_used = 0, pg_revoked = 0\<rparr>"

definition desk_db1 :: "unit policy_db_scheme" where
  "desk_db1 = desk_db\<lparr>policy_requests := [desk_request], policy_grants := [desk_grant]\<rparr>"

lemma desk_segments: "split_at (CHR ''.'') desk_token = [''QQ'', ''Qg'', ''Qw'']" "b64url_decode ''QQ'' = Some ''A''" "b64url_decode ''Qg'' = Some ''B''"
  by code_simp+

lemma desk_fields: "list_all aiPolicyField (policy_claim_fields (desk_claims desk_destination))" "aiPolicyHashField desk_hash"
    "aiPolicyHashField desk_destination" "digest desk_core ''https://x/'' = desk_destination"
  by (code_simp, code_simp, code_simp) (simp add: digest_def desk_core_def desk_prims_def desk_destination_def)

lemma desk_members: "strict_members desk_lib ''QQ'' = Some [(''alg'', json_string ''EdDSA''), (''typ'', json_string ''JWT'')]"
  "strict_members desk_lib ''Qg'' = Some (map (\<lambda>n. (n, [])) policy_claim_names)"
  by (simp_all add: strict_members_def desk_segments desk_lib_def rejectDuplicateKeys_def policy_claim_names_def)

lemma desk_parses: "aiPolicyParseToken desk_lib (set_ai_policy (rt_settings desk_runtime)) 1000 desk_token = Some (desk_claims desk_destination)"
proof -
  have ok: "policy_claims_ok (set_ai_policy (rt_settings desk_runtime)) 1000 (desk_claims desk_destination)"
    using desk_fields by (simp add: policy_claims_ok_def desk_claims_def desk_runtime_def desk_settings_def maxInt_def)
  have names: "\<not> list_ex (\<lambda>(name, v). name \<notin> set policy_claim_names) (map (\<lambda>n. (n, [])) policy_claim_names)"
    by (auto simp: list_ex_iff)
  have claims: "strict_claims desk_lib ''Qg'' = Some (desk_claims desk_destination)"
    by (simp add: strict_claims_def desk_members desk_segments) (simp add: desk_lib_def)
  have "pl_key desk_lib = Some ''KEY''" "pl_jwt desk_lib k i a t desk_token" for k i a t by (simp_all add: desk_lib_def)
  with ok names claims show ?thesis
    by (simp add: aiPolicyParseToken_def desk_segments desk_members header_ok_def)
qed

lemma desk_verifies: "aiPolicyVerifyToken desk_lib desk_core (set_ai_policy (rt_settings desk_runtime)) desk_token ''r1'' desk_task (desk_effect True) 1000"
  unfolding aiPolicyVerifyToken_def desk_parses
  by (simp add: claims_match_def desk_claims_def desk_task_def desk_effect_def aiPolicyEffectHash_def desk_fields)
    (simp add: desk_hash_def)

lemma desk_opens: "Open (prim desk_core) (eng desk_core) (pg_token desk_grant) (aiPolicyAAD ''grant'' (pg_id desk_grant)) = Inr desk_token"
  by (simp add: desk_core_def desk_grant_def Open_Seal [OF desk_gcm_opens])

lemma desk_approved: "\<exists>es s'. aiPolicyBegin desk_runtime desk_lib desk_core (toy_env 1000 []) desk_db1 (desk_effect True) [] = (Dispatched ''r1'', es, s')"
proof -
  let ?p = "set_ai_policy (rt_settings (desk_runtime :: unit policy_db_scheme runtime))"
  let ?s = "desk_db1\<lparr>policy_grants := use_grant 1000 ''n1'' [desk_grant]\<rparr>"
  obtain s' where rows: "dispatch_rows desk_lib desk_core ?p (toy_env 1000 []) (12 + 5) ''r1'' desk_task (desk_effect True) ?s = Some s'"
    using desk_rows [of ?s] by (fastforce simp: desk_db1_def desk_db_def)
  have e: "pe_id (desk_effect True) = ''r1''" "pe_job (desk_effect True) = ''j1''" "pe_epoch (desk_effect True) = 0" "pe_session (desk_effect True) = 0"
    "pe_reserve (desk_effect True) = 7" "given_effect env (desk_effect True) = desk_effect True" for env
    by (simp_all add: desk_effect_def given_effect_def)
  have t: "ti_status desk_task = ''running''" "ti_epoch desk_task = 0" by (simp_all add: desk_task_def)
  have auth: "aiTaskAuthorized False desk_db1 desk_task" by (rule desk_authorized_any) (simp_all add: desk_db1_def)
  have look: "aiTaskLookup no_faults desk_db1 ''j1'' = Some desk_task" "aiPolicySessionVersion False desk_db1 ''j1'' = Some 0"
    by (simp_all add: aiTaskLookup_def direct_identity_def aiPolicySessionVersion_def desk_db1_def desk_db_def desk_job_def desk_message_def
        toy_db_def desk_task_def no_faults_def)
  have q: "policy_requests desk_db1 = [desk_request]" "policy_grants desk_db1 = [desk_grant]" "policy_revocations desk_db1 = []"
    "pr_id desk_request = ''r1''" "pr_job desk_request = ''j1''" "pr_status desk_request = ''approved''" "pr_expires desk_request = 1595"
    "pr_hash desk_request = aiPolicyEffectHash desk_core (desk_effect True)"
    by (simp_all add: desk_db1_def desk_db_def desk_request_def new_request_def e desk_env desk_policy maxInt_def)
  have g: "pg_request desk_grant = ''r1''" "pg_used desk_grant = 0" "pg_revoked desk_grant = 0" "pg_id desk_grant = ''n1''" by (simp_all add: desk_grant_def)
  have "check_grant desk_lib desk_core ?p (toy_env 1000 []) 14 desk_db1 ''r1'' desk_task (desk_effect True) = Inr desk_grant"
    using desk_opens desk_verifies by (simp add: check_grant_def latest_grant_def q g desk_env)
  then have "aiPolicyDispatchTx desk_lib desk_core ?p (toy_env 1000 []) 12 ''r1'' desk_task (desk_effect True) desk_db1 = Inr s'"
    using rows by (simp add: aiPolicyDispatchTx_def desk_env t auth desk_policy get_row_def q g)
  then have "begin_dispatch desk_lib desk_core ?p (toy_env 1000 []) desk_task (desk_effect True) desk_db1 desk_db1 = (Dispatched ''r1'', [Wake (ti_chat desk_task)], s')"
    by (simp add: begin_dispatch_def e desk_env)
  then show ?thesis
    by (simp add: aiPolicyBegin_def Let_def e t auth desk_env desk_policy look q)
qed

end
