(* ===== verification/VaultGrants.thy ===== *)
theory VaultGrants
  imports Approving Retrieval Conversation
begin

text \<open>
  \<open>internal/modules/ai_storage.go\<close>: the vault as a module. Its administration, the grants that let one approved effect of an AI job
  read one resource, the use of a grant by a tool, and the boundary that the retrieved text puts on what the job may call
  afterwards.
\<close>

subsection \<open>Data\<close>

record storage_grant_row =
  sg_nonce :: string
  sg_request :: ident
  sg_hash :: string
  sg_token :: bytes
  sg_expires :: time
  sg_used :: time
  sg_revoked :: bool

record storage_db = policy_db +
  storage_versions :: "int list"
  storage_grants :: "storage_grant_row list"
  storage_revocations :: "string list"

type_synonym 'x storage_core = "'x storage_db_ext policy_db_ext ai_db_ext vault_db_ext core"

text \<open>The arguments of a retrieval.\<close>

record 'f retrieval =
  rq_document :: string
  rq_text :: string
  rq_vector :: "'f list"
  rq_start :: string
  rq_depth :: int
  rq_limit :: int

record 'f storage_lib =
  sl_grants :: grant_lib
  sl_vault :: "'f vault_lib"
  sl_query :: "bytes \<Rightarrow> 'f retrieval option"     \<comment> \<open>decode the arguments, no unknown fields\<close>

text \<open>\<open>aiVaultState\<close>: the vault and the key that verifies grants.\<close>

record storage_state =
  ss_vault :: vault
  ss_key :: bytes

text \<open>What the retrieved text of a job is bound to.\<close>

record boundary =
  bo_label :: string
  bo_destination :: string
  bo_requests :: "ident list"

definition grant_aad :: "string \<Rightarrow> bytes" where
  "grant_aad nonce' = ''ai-storage/grant/'' @ nonce'"

subsection \<open>Installation\<close>

definition storage_limits :: "storage_section \<Rightarrow> vault_limits" where
  "storage_limits s = \<lparr>l_resources = st_resources s, l_documents = st_documents s, l_edges = st_documents s, l_item_bytes = st_item s,
     l_text_bytes = min (st_item s) (2 ^ 20), l_metadata_bytes = min (st_item s) 65536, l_filename_bytes = 0,
     l_dimensions = st_dimensions s, l_results = st_results s, l_depth = st_depth s\<rparr>"

definition installAIStorage ::
  "'s runtime \<Rightarrow> 'x storage_core \<Rightarrow> env \<Rightarrow> 'x storage_db_scheme \<Rightarrow> storage_state option \<times> 'x storage_db_scheme" where
  "installAIStorage R C env s =
     (let st = set_ai_storage (rt_settings R) in
      case b64_decode (rt_getenv R (st_key_env st)) of
        None \<Rightarrow> (None, s)
      | Some key \<Rightarrow>
          (if length key \<noteq> 32 then (None, s)
           else case newVault (prim C) (eng C) (storage_limits st) (shift_faults 5 (flt env)) s of
             None \<Rightarrow> (None, s)
           | Some (V, s1) \<Rightarrow>
               (if flt env 0 \<or> flt env 1 \<or> flt env 2 \<or> fold max (storage_versions s1) 0 > 1 \<or> flt env 3 \<or> flt env 4 then (None, s1)
                else (Some \<lparr>ss_vault = V, ss_key = key\<rparr>,
                  s1\<lparr>storage_versions := (if 1 \<in> set (storage_versions s1) then storage_versions s1 else storage_versions s1 @ [1])\<rparr>))))"

subsection \<open>Administration\<close>

definition vault_status :: "vault_error \<Rightarrow> nat" where
  "vault_status e = (case e of NotFound \<Rightarrow> 404 | Corrupt \<Rightarrow> 503 | _ \<Rightarrow> 400)"

definition vaultReply :: "(vault_error + 'a) \<times> 's \<Rightarrow> ('a, 's) outcome" where
  "vaultReply r = (case r of
     (Inl e, s) \<Rightarrow> Error (vault_status e) ''storage operation rejected'' s
   | (Inr v, s) \<Rightarrow> (Reply 200 v, [], s))"

definition deleted_reply :: "vault_error option \<times> 's \<Rightarrow> (unit, 's) outcome" where
  "deleted_reply r = (case r of (e, s) \<Rightarrow> vaultReply (case e of None \<Rightarrow> Inr () | Some e' \<Rightarrow> Inl e', s))"

record resource_input =
  ri_scope :: string
  ri_owner :: string
  ri_metadata :: bytes

definition put_resource ::
  "vault \<Rightarrow> 'f vault_lib \<Rightarrow> env \<Rightarrow> 'v vault_db_scheme \<Rightarrow> ident \<Rightarrow> resource_input body \<Rightarrow> (resource, 'v vault_db_scheme) outcome" where
  "put_resource V L env s d b =
     (case Decode b of
        Inl m \<Rightarrow> Error 400 m s
      | Inr i \<Rightarrow> vaultReply (CreateResource V L env s \<lparr>sp_id = d, sp_scope = ri_scope i, sp_owner = ri_owner i, sp_visible = False,
          sp_metadata = ri_metadata i\<rparr>))"

definition delete_resource :: "env \<Rightarrow> 'v vault_db_scheme \<Rightarrow> ident \<Rightarrow> (unit, 'v vault_db_scheme) outcome" where
  "delete_resource env s d = deleted_reply (DeleteResource (flt env) s d)"

text \<open>The reply has the identifiers only.\<close>

definition put_document ::
  "vault \<Rightarrow> 'f vault_lib \<Rightarrow> env \<Rightarrow> 'v vault_db_scheme \<Rightarrow> ident \<Rightarrow> ident \<Rightarrow> 'f document body \<Rightarrow> (ident \<times> ident, 'v vault_db_scheme) outcome" where
  "put_document V L env s rid did b =
     (case Decode b of
        Inl m \<Rightarrow> Error 400 m s
      | Inr d \<Rightarrow> (case PutDocument V L env s rid did d of
            (Inl e, s') \<Rightarrow> vaultReply (Inl e, s')
          | (Inr (i, _), s') \<Rightarrow> (Reply 200 (i, rid), [], s')))"

definition get_document ::
  "vault \<Rightarrow> 'f vault_lib \<Rightarrow> env \<Rightarrow> 'v vault_db_scheme \<Rightarrow> ident \<Rightarrow> ident \<Rightarrow> ('f document \<times> resource, 'v vault_db_scheme) outcome" where
  "get_document V L env s rid did = vaultReply (GetDocument V L (flt env) s rid did, s)"

definition delete_document :: "env \<Rightarrow> 'v vault_db_scheme \<Rightarrow> ident \<Rightarrow> ident \<Rightarrow> (unit, 'v vault_db_scheme) outcome" where
  "delete_document env s rid did = deleted_reply (DeleteDocument (flt env 0) s rid did)"

definition put_edge ::
  "vault \<Rightarrow> 'f vault_lib \<Rightarrow> env \<Rightarrow> 'v vault_db_scheme \<Rightarrow> ident \<Rightarrow> ident \<Rightarrow> 'f edge body \<Rightarrow> (ident \<times> 'f edge, 'v vault_db_scheme) outcome" where
  "put_edge V L env s rid eid b =
     (case Decode b of Inl m \<Rightarrow> Error 400 m s | Inr e \<Rightarrow> vaultReply (PutEdge V L env s rid eid e))"

definition delete_edge :: "env \<Rightarrow> 'v vault_db_scheme \<Rightarrow> ident \<Rightarrow> ident \<Rightarrow> (unit, 'v vault_db_scheme) outcome" where
  "delete_edge env s rid eid = deleted_reply (DeleteEdge (flt env 0) s rid eid)"

text \<open>A nonce can be revoked before its grant arrives.\<close>

definition revoke_grant :: "env \<Rightarrow> 'x storage_db_scheme \<Rightarrow> string \<Rightarrow> (unit, 'x storage_db_scheme) outcome" where
  "revoke_grant env s nonce' =
     (if nonce' = [] \<or> length nonce' > 1024 then Error 400 ''invalid nonce'' s
      else if flt env 0 then Error 503 ''storage unavailable'' s
      else if flt env 1 \<or> flt env 2 \<or> flt env 3 then vaultReply (Inl Vault.storage_error, s)
      else vaultReply (Inr (), s\<lparr>
        storage_revocations := (if nonce' \<in> set (storage_revocations s) then storage_revocations s else storage_revocations s @ [nonce']),
        storage_grants := update_rows (\<lambda>g. sg_nonce g = nonce') (\<lambda>g. g\<lparr>sg_revoked := True\<rparr>) (storage_grants s)\<rparr>))"

subsection \<open>The request a grant is for\<close>

definition vaultVerify :: "'s runtime \<Rightarrow> grant_lib \<Rightarrow> storage_state option \<Rightarrow> time \<Rightarrow> string \<Rightarrow> claims option" where
  "vaultVerify R G st t token =
     (case st of
        None \<Rightarrow> None
      | Some v \<Rightarrow>
          (let c = set_ai_storage (rt_settings R) in
           case Verify G (ss_key v) (st_issuer c) (st_audience c) (st_ttl c * second) t token of Inl _ \<Rightarrow> None | Inr cl \<Rightarrow> Some cl))"

definition bot_of :: "'w ai_db_scheme \<Rightarrow> ident \<Rightarrow> string option" where
  "bot_of s job = query_row [ag_bot a. a \<leftarrow> ai_agents s, t \<leftarrow> ai_tasks s, at_agent t = ag_id a \<and> at_id t = job]"

text \<open>The tool as it is configured now, for the bot of the task if there is one.\<close>

definition vaultToolSettings :: "'s runtime \<Rightarrow> bool \<Rightarrow> 'w ai_db_scheme \<Rightarrow> ident \<Rightarrow> string \<Rightarrow> (tool \<times> ai_section) option" where
  "vaultToolSettings R fail s job name =
     (case (case (if fail then None else bot_of s job) of
          None \<Rightarrow> Some (set_ai (rt_settings R))
        | Some b \<Rightarrow> (case ResolveBot (rt_blank R) (rt_settings R) b of Inl _ \<Rightarrow> None | Inr (a, _) \<Rightarrow> Some a)) of
        None \<Rightarrow> None
      | Some st \<Rightarrow> map_option (\<lambda>t. (t, st)) (find (\<lambda>t. tl_name t = name \<and> tl_kind t = ''storage'') (ai_tool_list st)))"

definition trim_slashes :: "string \<Rightarrow> string" where
  "trim_slashes u = rev (dropWhile (\<lambda>c. c = CHR ''/'') (rev u))"

text \<open>\<open>policyProvider\<close> of \<open>ai_policy_runtime.go\<close>: the provider of a job and the address its text goes to; empty when there is none.\<close>

definition policyProvider :: "'s runtime \<Rightarrow> faults \<Rightarrow> 'w ai_db_scheme \<Rightarrow> ident \<Rightarrow> ai_section \<Rightarrow> string \<times> string" where
  "policyProvider R f s job st =
     (case (if f 0 then None else query_row
          ([ac_provider a. a \<leftarrow> ai_chats s, j \<leftarrow> ai_jobs s, j_chat_id j = ac_chat a \<and> j_id j = job]
           @ [ag_provider a. a \<leftarrow> ai_agents s, t \<leftarrow> ai_tasks s, at_agent t = ag_id a \<and> at_id t = job])) of
        None \<Rightarrow> ([], [])
      | Some stored \<Rightarrow>
          (case (case (if f 1 then None else bot_of s job) of
               None \<Rightarrow> Some stored
             | Some b \<Rightarrow> (case ResolveBot (rt_blank R) (rt_settings R) b of Inl _ \<Rightarrow> None | Inr (_, p) \<Rightarrow> Some p)) of
             None \<Rightarrow> ([], [])
           | Some p \<Rightarrow>
               (if p = ''openai'' then (p, trim_slashes (ai_openai_url st) @ ''/chat/completions'')
                else if p = ''anthropic'' then (p, trim_slashes (ai_anthropic_url st) @ ''/messages'')
                else ([], []))))"

text \<open>
  Whether the task may read the resource, and its label. Private resources belong to the source user or to the AI participant, and are
  read in direct chats of two members only.
\<close>

definition vaultResourceAuthorized :: "bool \<Rightarrow> bool \<Rightarrow> 'v vault_db_scheme \<Rightarrow> task_identity \<Rightarrow> ident \<Rightarrow> string option" where
  "vaultResourceAuthorized fail1 fail2 s t rid =
     (case (if fail1 then None else get_row vr_id rid (resources s)) of
        None \<Rightarrow> None
      | Some r \<Rightarrow>
          (if (vr_scope r = ''user'' \<and> vr_owner r \<noteq> ti_source_user t) \<or> (vr_scope r = ''bot'' \<and> vr_owner r \<noteq> ti_user t) then None
           else if vr_scope r \<noteq> ''shared'' \<and> (case (if fail2 then None else get_row c_id (ti_chat t) (chats s)) of
               None \<Rightarrow> True
             | Some c \<Rightarrow> c_kind c \<noteq> ''direct'' \<or> count_rows (\<lambda>m. m_chat m = ti_chat t \<and> m_active m) (members s) \<noteq> 2) then None
           else Some (vr_scope r @ ''/'' @ vr_owner r)))"

record vault_binding =
  vb_task :: task_identity
  vb_tool :: tool
  vb_destination :: string
  vb_hash :: string
  vb_status :: string
  vb_job :: ident

definition vaultRequestBinding :: "'s runtime \<Rightarrow> faults \<Rightarrow> 'x storage_db_scheme \<Rightarrow> time \<Rightarrow> ident \<Rightarrow> vault_binding option" where
  "vaultRequestBinding R f s t i =
     (case (if f 0 then None else query_row (filter (\<lambda>r. pr_id r = i \<and> pr_action r = ''tool'') (policy_requests s))) of
        None \<Rightarrow> None
      | Some r \<Rightarrow>
          (if pr_expires r \<le> t then None
           else case vaultToolSettings R (f 1) s (pr_job r) (pr_name r) of
             None \<Rightarrow> None
           | Some (tl0, st) \<Rightarrow>
               (let destination = snd (policyProvider R (shift_faults 2 f) s (pr_job r) st) in
                if destination = [] \<or> f 4 then None
                else case aiTaskLookup (shift_faults 5 f) s (pr_job r) of
                  None \<Rightarrow> None
                | Some ti \<Rightarrow>
                    (if ti_status ti \<notin> {''awaiting_approval'', ''queued'', ''running''}
                        \<or> \<not> aiTaskAuthorized (f 7) s (ti\<lparr>ti_status := ''running''\<rparr>) then None
                     else if vaultResourceAuthorized (f 8) (f 9) s ti (tl_resource tl0) = None then None
                     else Some \<lparr>vb_task = ti, vb_tool = tl0, vb_destination = destination, vb_hash = pr_hash r, vb_status = pr_status r,
                       vb_job = pr_job r\<rparr>))))"

definition aiVaultRequest :: "'s runtime \<Rightarrow> env \<Rightarrow> 'x storage_db_scheme \<Rightarrow> ident \<Rightarrow> (vault_binding, 'x storage_db_scheme) outcome" where
  "aiVaultRequest R env s i =
     (case vaultRequestBinding R (flt env) s (now env) i of
        None \<Rightarrow> Error 403 ''storage request unavailable'' s
      | Some b \<Rightarrow> (Reply 200 b, [], s))"

definition claims_fit :: "claims \<Rightarrow> vault_binding \<Rightarrow> bool" where
  "claims_fit c b \<longleftrightarrow> vb_status b \<in> {''awaiting'', ''approved''} \<and> cl_hash c = vb_hash b \<and> cl_chat c = ti_chat (vb_task b)
     \<and> cl_source c = ti_source_user (vb_task b) \<and> cl_ai c = ti_user (vb_task b) \<and> cl_resource c = tl_resource (vb_tool b)
     \<and> cl_action c = tl_action (vb_tool b) \<and> cl_destination c = vb_destination b"

text \<open>The nonce and the request of a grant are unique.\<close>

definition insert_storage_grant :: "storage_grant_row \<Rightarrow> storage_grant_row list \<Rightarrow> storage_grant_row list option" where
  "insert_storage_grant g gs =
     (if list_ex (\<lambda>x. sg_nonce x = sg_nonce g \<or> sg_request x = sg_request g) gs then None else Some (gs @ [g]))"

text \<open>A task that waits becomes eligible only once both approvals are there.\<close>

definition queue_granted :: "ident \<Rightarrow> ident \<Rightarrow> 'w policy_db_scheme \<Rightarrow> 'w policy_db_scheme" where
  "queue_granted job request s =
     (if list_ex (\<lambda>r. pr_id r = request \<and> pr_status r = ''approved'') (policy_requests s)
      then s\<lparr>ai_tasks := update_rows (\<lambda>x. at_id x = job \<and> at_status x = ''awaiting_approval'') (\<lambda>x. x\<lparr>at_status := ''queued''\<rparr>) (ai_tasks s),
             ai_jobs := update_rows (\<lambda>j. j_id j = job \<and> j_status j = ''awaiting_approval'') (\<lambda>j. j\<lparr>j_status := ''queued''\<rparr>) (ai_jobs s)\<rparr>
      else s)"

definition aiVaultGrant ::
  "'s runtime \<Rightarrow> grant_lib \<Rightarrow> 'x storage_core \<Rightarrow> storage_state option \<Rightarrow> env \<Rightarrow> 'x storage_db_scheme \<Rightarrow> string body \<Rightarrow>
    (string, 'x storage_db_scheme) outcome" where
  "aiVaultGrant R G C st env s b =
     (case Decode b of
        Inl m \<Rightarrow> Error 400 m s
      | Inr token \<Rightarrow>
     (case vaultVerify R G st (now env) token of
        None \<Rightarrow> Error 400 ''invalid storage grant'' s
      | Some c \<Rightarrow>
     (case vaultRequestBinding R (flt env) s (now env) (cl_request c) of
        None \<Rightarrow> Error 403 ''storage grant scope mismatch'' s
      | Some bound \<Rightarrow>
          (if \<not> claims_fit c bound then Error 403 ''storage grant scope mismatch'' s
           else if flt env 10 then Error 503 ''storage unavailable'' s
           else if flt env 11 \<or> cl_nonce c \<in> set (storage_revocations s) then Error 403 ''storage grant revoked'' s
           else case (if flt env 12 then None else get_row sg_nonce (cl_nonce c) (storage_grants s)) of
             Some g \<Rightarrow> (if sg_hash g \<noteq> digest C token then Error 409 ''storage nonce conflict'' s else (Reply 200 (cl_nonce c), [], s))
           | None \<Rightarrow>
               (case (if flt env 13 then None else insert_storage_grant \<lparr>sg_nonce = cl_nonce c, sg_request = cl_request c,
                    sg_hash = digest C token, sg_token = Seal (prim C) (eng C) (nonce env) token (grant_aad (cl_nonce c)),
                    sg_expires = cl_expires c, sg_used = 0, sg_revoked = False\<rparr> (storage_grants s)) of
                  None \<Rightarrow> Error 409 ''storage grant unavailable'' s
                | Some gs \<Rightarrow>
                    (if flt env 14 \<or> flt env 15 \<or> flt env 16 then Error 409 ''storage grant unavailable'' s
                     else (Reply 200 (cl_nonce c), [Wake (ti_chat (vb_task bound))],
                       queue_granted (vb_job bound) (cl_request c) (s\<lparr>storage_grants := gs\<rparr>))))))))"

subsection \<open>Before an effect is dispatched\<close>

text \<open>\<open>aiPolicyMarkAwaiting\<close> of \<open>ai_policy.go\<close>; the statements from \<open>n\<close> on.\<close>

definition aiPolicyMarkAwaiting ::
  "'w policy_core \<Rightarrow> env \<Rightarrow> nat \<Rightarrow> 'w policy_db_scheme \<Rightarrow> ident \<Rightarrow> ident \<Rightarrow> ident \<Rightarrow> 'w policy_db_scheme option" where
  "aiPolicyMarkAwaiting C env n s chat job request =
     (if flt env n \<or> flt env (n + 1) then None
      else case Append C (shift_env (n + 2) env) (set_job_status job ''running'' ''awaiting_approval'' (now env) s) chat
          ''ai.approval.required'' [] (Some (required_data job request)) of
        Inl _ \<Rightarrow> None
      | Inr (seq, s1) \<Rightarrow> Some s1)"

datatype preflight = Proceed | Paused | NotReady

text \<open>An approved effect without its storage grant waits, before it is marked as dispatched.\<close>

definition aiVaultPreflight ::
  "'x storage_core \<Rightarrow> env \<Rightarrow> 'x storage_db_scheme \<Rightarrow> ident \<Rightarrow> ident \<Rightarrow> preflight \<times> effect list \<times> 'x storage_db_scheme" where
  "aiVaultPreflight C env s job request =
     (if flt env 0 \<or> flt env 1 then (NotReady, [], s)
      else case query_row (filter (\<lambda>r. pr_id r = request \<and> pr_job r = job) (policy_requests s)) of
        None \<Rightarrow> (Proceed, [], s)
      | Some r \<Rightarrow>
          (if pr_status r \<noteq> ''approved'' then (Proceed, [], s)
           else if flt env 2 then (NotReady, [], s)
           else if list_ex (\<lambda>g. sg_request g = request) (storage_grants s) then (Proceed, [], s)
           else case aiTaskLookup (shift_faults 3 (flt env)) s job of
             None \<Rightarrow> (NotReady, [], s)
           | Some t \<Rightarrow>
               (case aiPolicyMarkAwaiting C env 5 s (ti_chat t) job request of
                  None \<Rightarrow> (NotReady, [], s)
                | Some s1 \<Rightarrow> (if flt env 9 then (NotReady, [], s) else (Paused, [Wake (ti_chat t)], s1)))))"

subsection \<open>Using a grant\<close>

text \<open>The claims of the grant of a request and when it was used.\<close>

definition vaultClaimsTx ::
  "'s runtime \<Rightarrow> grant_lib \<Rightarrow> 'x storage_core \<Rightarrow> storage_state option \<Rightarrow> bool \<Rightarrow> bool \<Rightarrow> 'x storage_db_scheme \<Rightarrow> time \<Rightarrow> ident \<Rightarrow>
    (claims \<times> time) option" where
  "vaultClaimsTx R G C st fail1 fail2 s t request =
     (case (if fail1 then None else get_row sg_request request (storage_grants s)) of
        None \<Rightarrow> None
      | Some g \<Rightarrow>
          (if sg_revoked g \<or> fail2 \<or> sg_nonce g \<in> set (storage_revocations s) then None
           else case Open (prim C) (eng C) (sg_token g) (grant_aad (sg_nonce g)) of
             Inl _ \<Rightarrow> None
           | Inr plain \<Rightarrow> map_option (\<lambda>c. (c, sg_used g)) (vaultVerify R G st t plain)))"

definition same_source :: "claims \<Rightarrow> task_identity \<Rightarrow> bool" where
  "same_source c t \<longleftrightarrow> cl_chat c = ti_chat t \<and> cl_source c = ti_source_user t \<and> cl_ai c = ti_user t"

end
