(* ===== verification/Lifecycle.thy ===== *)
theory Lifecycle
  imports Spending VaultGrants
begin

text \<open>
  The life of a job over all operations that touch one: queued, running or waiting for an approval, and finished. At most 64 jobs
  of a chat are active, at most one of them is running or waiting, and a finished job never changes.
\<close>

subsection \<open>What an operation may do to the jobs\<close>

definition job_active :: "ai_job_row \<Rightarrow> bool" where
  "job_active j \<longleftrightarrow> j_status j \<in> set active_states"

definition job_held :: "ai_job_row \<Rightarrow> bool" where
  "job_held j \<longleftrightarrow> j_status j \<in> set held_states"

definition job_kept :: "ai_job_row \<Rightarrow> ai_job_row \<Rightarrow> bool" where
  "job_kept j j' \<longleftrightarrow> j_id j' = j_id j \<and> j_chat_id j' = j_chat_id j \<and> j_message_id j' = j_message_id j
     \<and> (job_active j' \<longrightarrow> job_active j) \<and> (job_held j' \<longrightarrow> job_held j) \<and> (\<not> job_active j \<longrightarrow> j' = j)"

abbreviation jobs_kept :: "ai_job_row list \<Rightarrow> ai_job_row list \<Rightarrow> bool" where
  "jobs_kept \<equiv> list_all2 job_kept"

definition jobs_ok :: "'w ai_db_scheme \<Rightarrow> bool" where
  "jobs_ok s \<longleftrightarrow> unique_on j_id (ai_jobs s) \<and> unique_on j_message_id (ai_jobs s)
     \<and> (\<forall>chat. count_active chat (ai_jobs s) \<le> 64 \<and> count_rows (\<lambda>j. j_chat_id j = chat \<and> job_held j) (ai_jobs s) \<le> 1)"

lemma job_kept_refl [simp]: "job_kept j j"
  by (simp add: job_kept_def)

lemma jobs_kept_refl [simp]: "jobs_kept js js"
  by (simp add: list_all2_refl)

lemma job_kept_trans: "job_kept i j \<Longrightarrow> job_kept j k \<Longrightarrow> job_kept i k"
  unfolding job_kept_def by (elim conjE, cases "job_active i"; cases "job_active j") simp_all

lemma jobs_kept_trans: "jobs_kept js ks \<Longrightarrow> jobs_kept ks ls \<Longrightarrow> jobs_kept js ls"
  by (rule list_all2_trans [of job_kept job_kept job_kept]) (auto intro: job_kept_trans)

lemma jobs_kept_update:
  assumes "\<And>j. j \<in> set js \<Longrightarrow> p j \<Longrightarrow> job_kept j (f j)"
  shows "jobs_kept js (update_rows p f js)"
  using assms by (induction js) (auto simp: update_rows_def)

lemma jobs_kept_set:
  assumes "\<And>j. j \<in> set js \<Longrightarrow> p j \<Longrightarrow> job_active j" "st \<in> set held_states \<Longrightarrow> \<forall>j \<in> set js. p j \<longrightarrow> job_held j"
  shows "jobs_kept js (set_jobs p st t js)"
  unfolding set_jobs_def
proof (rule jobs_kept_update)
  fix j assume "j \<in> set js" "p j"
  with assms show "job_kept j (j\<lparr>j_status := st, j_updated := t\<rparr>)" by (auto simp: job_kept_def job_held_def)
qed

lemma jobs_kept_ids: "jobs_kept js js' \<Longrightarrow> map j_id js' = map j_id js \<and> map j_message_id js' = map j_message_id js"
  by (induction js js' rule: list_all2_induct) (auto simp: job_kept_def)

lemma count_kept:
  assumes "\<And>j j'. job_kept j j' \<Longrightarrow> q j' \<Longrightarrow> q j"
  shows "jobs_kept js js' \<Longrightarrow> count_rows q js' \<le> count_rows q js"
  by (induction js js' rule: list_all2_induct) (use assms in \<open>auto simp: count_rows_def\<close>)

lemma jobs_ok_kept:
  assumes "jobs_ok s" "jobs_kept (ai_jobs s) (ai_jobs s')"
  shows "jobs_ok s'"
proof -
  have "count_active chat (ai_jobs s') \<le> count_active chat (ai_jobs s)"
    "count_rows (\<lambda>j. j_chat_id j = chat \<and> job_held j) (ai_jobs s') \<le> count_rows (\<lambda>j. j_chat_id j = chat \<and> job_held j) (ai_jobs s)" for chat
    unfolding count_active_def using assms(2) by (intro count_kept; auto simp: job_kept_def job_active_def)+
  with assms jobs_kept_ids [OF assms(2)] show ?thesis
    unfolding jobs_ok_def unique_on_def by (metis le_trans)
qed

lemma finished_kept:
  assumes "jobs_kept js js'" "j \<in> set js" "\<not> job_active j"
  shows "j \<in> set js'"
  using assms by (induction js js' rule: list_all2_induct) (auto simp: job_kept_def)

subsection \<open>The operations\<close>

lemma Append_jobs: "Append C env s chat kind mid data = Inr (seq, s') \<Longrightarrow> ai_jobs s' = ai_jobs s"
  by (auto simp: Append_def bump_seq_def Let_def split: if_splits option.splits)

lemma jobs_kept_failed:
  "st \<notin> set held_states \<Longrightarrow> (\<And>j. p j \<Longrightarrow> j_status j \<in> set active_states) \<Longrightarrow> jobs_kept js (set_jobs p st t js)"
  by (rule jobs_kept_set) (auto simp: job_active_def)

lemma aiFailTx_jobs: "st \<notin> set held_states \<Longrightarrow> jobs_kept (ai_jobs s) (ai_jobs (aiFailTx f n job st t s))"
  by (auto simp: aiFailTx_def audit_def Let_def active_states_def intro!: jobs_kept_failed)

lemma fail_commit_jobs: "st \<notin> set held_states \<Longrightarrow> jobs_kept (ai_jobs s) (ai_jobs (fail_commit f n job st t s))"
  by (simp add: fail_commit_def aiFailTx_jobs)

lemma aiFinishError_jobs: "st \<notin> set held_states \<Longrightarrow> jobs_kept (ai_jobs s) (ai_jobs (aiFinishError f job st t s))"
  by (simp add: aiFinishError_def fail_commit_jobs)

lemma not_held: "''failed'' \<notin> set held_states" "''uncertain'' \<notin> set held_states" "''cancelled'' \<notin> set held_states" "''queued'' \<notin> set held_states"
  "''succeeded'' \<notin> set held_states"
  by (simp_all add: held_states_def)

lemma restart_jobs_kept: "restart_jobs env s = (b, s') \<Longrightarrow> jobs_kept (ai_jobs s) (ai_jobs s')"
  by (auto simp: restart_jobs_def not_held active_states_def intro!: jobs_kept_failed split: if_splits)

lemma ai_delete_hook_jobs: "ai_delete_hook C env s mid = Inr s' \<Longrightarrow> jobs_kept (ai_jobs s) (ai_jobs s')"
  by (auto simp: ai_delete_hook_def not_held intro!: jobs_kept_failed split: if_splits option.splits)

lemma cancel_rows_jobs: "cancel_rows env s job = Some s' \<Longrightarrow> jobs_kept (ai_jobs s) (ai_jobs s')"
  by (auto simp: cancel_rows_def aiNamedSetStatus_def Let_def not_held intro!: jobs_kept_failed split: if_splits)

lemma cancelAIJob_jobs:
  assumes "cancelAIJob C env s who chat job = ((rep, es, s'), k)"
  shows "jobs_kept (ai_jobs s) (ai_jobs s')"
proof -
  have "s' = s \<or> (\<exists>s1 e2 t kd d seq. cancel_rows env s job = Some s1 \<and> Append C e2 s1 t kd [] d = Inr (seq, s'))"
    using assms by (auto simp: cancelAIJob_def split: if_splits option.splits sum.splits)
  then show ?thesis using cancel_rows_jobs Append_jobs by fastforce
qed

lemma set_job_status_jobs:
  "ai_jobs (set_job_status job from' to' t s) = set_jobs (\<lambda>j. j_id j = job \<and> j_status j = from') to' t (ai_jobs s)"
  by (simp add: set_job_status_def)

lemma waiting_moves:
  "jobs_kept js (set_jobs (\<lambda>j. j_id j = job \<and> j_status j = ''awaiting_approval'') ''running'' t js)"
  "jobs_kept js (set_jobs (\<lambda>j. j_id j = job \<and> j_status j = ''running'') ''awaiting_approval'' t js)"
  "jobs_kept js (set_jobs (\<lambda>j. j_id j = job \<and> j_status j = ''awaiting_approval'') ''queued'' t js)"
  by (rule jobs_kept_set; simp add: job_active_def job_held_def active_states_def held_states_def)+

lemma dispatch_rows_jobs:
  assumes "dispatch_rows L C p env n request t e s = Some s'"
  shows "jobs_kept (ai_jobs s) (ai_jobs s')"
proof -
  from assms obtain s1 seq s2 rs where s1: "aiPolicyReserveTx L C p env n request t e s = Some s1"
    and s2: "Append C (shift_env (n + 9) env) s1 (ti_chat t) ''ai.egress.notice'' [] (Some (notice_data L e request)) = Inr (seq, s2)"
    and s': "s' = set_job_status (pe_job e) ''awaiting_approval'' ''running'' (now env) (s2\<lparr>policy_requests := rs\<rparr>)"
    by (auto simp: dispatch_rows_def split: option.splits sum.splits if_splits)
  from s1 obtain ls as where "s1 = s\<lparr>policy_ledger := ls, policy_accounts := as\<rparr>"
    by (auto simp: aiPolicyReserveTx_def split: if_splits dest: reserve_scopes_frame)
  with Append_jobs [OF s2] show ?thesis by (simp add: s' set_job_status_jobs waiting_moves)
qed

lemma begin_dispatch_jobs:
  assumes "begin_dispatch L C p env t e s0 s = (res, es, s')" "ai_jobs s = ai_jobs s0"
  shows "jobs_kept (ai_jobs s0) (ai_jobs s')"
  using assms(1)
proof (rule begin_dispatch_cases)
  assume "aiPolicyDispatchTx L C p env 12 (pe_id e) t e s = Inr s'"
  then obtain gs where "dispatch_rows L C p env (12 + 5) (pe_id e) t e (s\<lparr>policy_grants := gs\<rparr>) = Some s'"
    by (rule aiPolicyDispatchTx_Inr) (rule that)
  from dispatch_rows_jobs [OF this] assms(2) show ?thesis by simp
qed simp

lemma begin_new_jobs:
  assumes "begin_new L C p env t e version cont s = (res, es, s')"
  shows "jobs_kept (ai_jobs s) (ai_jobs s')"
proof -
  have "s' = s
      \<or> (\<exists>rs e2 d seq. Append C e2 (set_job_status (pe_job e) ''running'' ''awaiting_approval'' (now env) (s\<lparr>policy_requests := rs\<rparr>)) (ti_chat t)
           ''ai.approval.required'' [] d = Inr (seq, s'))
      \<or> (\<exists>rs. begin_dispatch L C p env t e s (s\<lparr>policy_requests := rs\<rparr>) = (res, es, s'))"
    using assms unfolding begin_new_def by (auto split: if_splits option.splits sum.splits)
  then show ?thesis
    by (auto dest!: Append_jobs begin_dispatch_jobs simp: set_job_status_jobs waiting_moves)
qed

lemma aiPolicyBegin_jobs:
  assumes "aiPolicyBegin R L C env s e0 cont = (res, es, s')"
  shows "jobs_kept (ai_jobs s) (ai_jobs s')"
proof -
  let ?p = "set_ai_policy (rt_settings R)" and ?e = "given_effect env e0"
  have "s' = s \<or> (\<exists>t version. begin_new L C ?p env t ?e version cont s = (res, es, s'))
      \<or> (\<exists>t. begin_dispatch L C ?p env t ?e s s = (res, es, s'))"
    using assms unfolding aiPolicyBegin_def Let_def by (auto split: if_splits option.splits)
  then show ?thesis by (auto dest: begin_new_jobs begin_dispatch_jobs)
qed

lemma approve_jobs:
  assumes "aiPolicyApprove R L C env s b = (rep, es, s')"
  shows "jobs_kept (ai_jobs s) (ai_jobs s')"
proof -
  have "s' = s \<or> (\<exists>token c r grant. approve_rows C env s token c r grant = Inr s')"
    using assms unfolding aiPolicyApprove_def Let_def by (auto split: if_splits option.splits sum.splits)
  then show ?thesis
    by (auto simp: approve_rows_def set_job_status_jobs waiting_moves split: if_splits option.splits)
qed

lemma cleanup_jobs: "aiPolicyCleanupExpired L C env s = (es, s') \<Longrightarrow> jobs_kept (ai_jobs s) (ai_jobs s')"
  by (auto simp: aiPolicyCleanupExpired_def Let_def not_held active_states_def intro!: jobs_kept_failed split: if_splits option.splits)

lemma install_jobs:
  assumes "installAIPolicy R env s = (k, ok, s')"
  shows "jobs_kept (ai_jobs s) (ai_jobs s')"
proof -
  have "ai_jobs s' = ai_jobs s \<or> (\<exists>ids. ai_jobs s' = set_jobs (\<lambda>j. j_id j \<in> ids \<and> j_status j = ''running'') ''uncertain'' (now env) (ai_jobs s))"
    using assms by (auto simp: installAIPolicy_def Let_def split: if_splits option.splits)
  then show ?thesis by (auto simp: not_held active_states_def intro!: jobs_kept_failed)
qed

subsection \<open>Queueing\<close>

lemma count_active_alt: "count_active chat js = count_rows (\<lambda>j. j_chat_id j = chat \<and> job_active j) js"
  by (simp add: count_active_def job_active_def)

lemma ai_tx_hook_jobs:
  assumes ok: "jobs_ok s" and step: "ai_tx_hook env s who chat m = Inr s'"
  shows "jobs_ok s' \<and> set (ai_jobs s) \<subseteq> set (ai_jobs s')"
proof -
  define j where "j = \<lparr>j_id = uuid env, j_chat_id = chat, j_message_id = msg_id m, j_status = ''queued'', j_result = [],
    j_created = now env, j_updated = now env\<rparr>"
  have "s' = s \<or> count_active chat (ai_jobs s) < 64 \<and> insert_row j_message_id j (ai_jobs s) \<noteq> None
      \<and> insert_row j_id j (ai_jobs s) = Some (ai_jobs s')"
    using step unfolding ai_tx_hook_def Let_def j_def [symmetric] by (auto split: if_splits option.splits)
  then show ?thesis
  proof (elim disjE exE conjE)
    assume step: "count_active chat (ai_jobs s) < 64" "insert_row j_message_id j (ai_jobs s) \<noteq> None"
      "insert_row j_id j (ai_jobs s) = Some (ai_jobs s')"
    have j: "ai_jobs s' = ai_jobs s @ [j]" "j_chat_id j = chat" "j_status j = ''queued''" "count_active chat (ai_jobs s) < 64"
      using step by (auto simp: insert_row_def j_def split: if_splits)
    have fresh: "j_id j \<notin> j_id ` set (ai_jobs s)" "j_message_id j \<notin> j_message_id ` set (ai_jobs s)"
      using step by (auto simp: insert_row_def get_row_None_iff split: if_splits)
    have "\<not> job_held j" "job_active j" using j(3) by (simp_all add: job_held_def job_active_def held_states_def active_states_def)
    moreover have "count_active c (ai_jobs s') = count_active c (ai_jobs s) + (if c = chat then 1 else 0)" for c
      using \<open>job_active j\<close> j(2) by (simp add: count_active_alt count_rows_def j(1))
    ultimately have "jobs_ok s'"
      using ok fresh j(2,4) unfolding jobs_ok_def by (auto simp: j(1) unique_on_def count_rows_def)
    with j(1) show ?thesis by auto
  qed (use ok in simp)
qed

subsection \<open>Claiming\<close>

text \<open>The claimed job is queued and its chat has no job under way.\<close>

lemma queued_jobsD:
  assumes "query_row (queued_jobs s) = Some (j, a, c, g)"
  shows "j \<in> set (ai_jobs s)" "j_status j = ''queued''" "\<And>x. x \<in> set (ai_jobs s) \<Longrightarrow> j_chat_id x = j_chat_id j \<Longrightarrow> \<not> job_held x"
proof -
  from assms have "(j, a, c, g) \<in> set (queued_jobs s)" by (rule query_row_SomeD)
  then show "j \<in> set (ai_jobs s)" "j_status j = ''queued''" "\<And>x. x \<in> set (ai_jobs s) \<Longrightarrow> j_chat_id x = j_chat_id j \<Longrightarrow> \<not> job_held x"
    by (auto simp: queued_jobs_def list_ex_iff job_held_def)
qed

lemma start_job:
  assumes ok: "jobs_ok s" and j: "j \<in> set (ai_jobs s)" "j_status j = ''queued''"
    and free: "\<And>x. x \<in> set (ai_jobs s) \<Longrightarrow> j_chat_id x = j_chat_id j \<Longrightarrow> \<not> job_held x"
    and s': "ai_jobs s' = set_jobs (\<lambda>x. j_id x = j_id j \<and> j_status x = ''queued'') ''running'' t (ai_jobs s)"
  shows "jobs_ok s' \<and> (\<forall>x \<in> set (ai_jobs s). \<not> job_active x \<longrightarrow> x \<in> set (ai_jobs s'))"
proof -
  let ?p = "\<lambda>x. j_id x = j_id j \<and> j_status x = ''queued''" and ?f = "\<lambda>x. x\<lparr>j_status := ''running'', j_updated := t\<rparr>"
  have only: "x = j" if "x \<in> set (ai_jobs s)" "j_id x = j_id j" for x
    using unique_on_eqD [of j_id "ai_jobs s" x j] ok that j(1) by (simp add: jobs_ok_def)
  have rows: "ai_jobs s' = map (\<lambda>x. if ?p x then ?f x else x) (ai_jobs s)" by (simp add: s' set_jobs_def update_rows_def)
  have active: "(\<lambda>x. j_chat_id (if ?p x then ?f x else x) = c \<and> job_active (if ?p x then ?f x else x)) = (\<lambda>x. j_chat_id x = c \<and> job_active x)" for c
    by (auto simp: fun_eq_iff job_active_def active_states_def)
  have "count_active c (ai_jobs s') = count_active c (ai_jobs s)" for c
    by (simp only: count_active_alt count_rows_def rows filter_map comp_def active length_map)
  moreover have "count_rows (\<lambda>x. j_chat_id x = c \<and> job_held x) (ai_jobs s') \<le> 1" for c
  proof (cases "c = j_chat_id j")
    case True
    have "length (filter (\<lambda>x. j_chat_id x = c \<and> job_held x) (ai_jobs s')) = length (filter ?p (ai_jobs s))"
      unfolding rows filter_map comp_def length_map using free only True
      by (intro arg_cong [of _ _ length] filter_cong) (auto simp: job_held_def held_states_def)
    moreover have "length (filter ?p (ai_jobs s)) \<le> 1"
    proof -
      have "set (filter ?p (ai_jobs s)) \<subseteq> {j}" using only by auto
      then have "card (set (filter ?p (ai_jobs s))) \<le> card {j}" by (rule card_mono [OF finite.insertI [OF finite.emptyI]])
      moreover have d: "distinct (filter ?p (ai_jobs s))" using ok by (auto simp: jobs_ok_def unique_on_def distinct_map)
      moreover have "card {j} = 1" by simp
      ultimately show ?thesis using distinct_card [OF d] by linarith
    qed
    ultimately show ?thesis by (simp add: count_rows_def)
  next
    case False
    then have "length (filter (\<lambda>x. j_chat_id x = c \<and> job_held x) (ai_jobs s')) = length (filter (\<lambda>x. j_chat_id x = c \<and> job_held x) (ai_jobs s))"
      unfolding rows filter_map comp_def length_map using only by (intro arg_cong [of _ _ length] filter_cong) auto
    then show ?thesis using ok by (simp add: count_rows_def jobs_ok_def)
  qed
  moreover have "map j_id (ai_jobs s') = map j_id (ai_jobs s)" "map j_message_id (ai_jobs s') = map j_message_id (ai_jobs s)"
    by (simp_all add: rows)
  ultimately have "jobs_ok s'" using ok by (simp add: jobs_ok_def unique_on_def)
  moreover have "x \<in> set (ai_jobs s')" if "x \<in> set (ai_jobs s)" "\<not> job_active x" for x
    using that by (force simp: rows job_active_def active_states_def)
  ultimately show ?thesis by blast
qed

lemma aiNext_claim_jobs:
  assumes ok: "jobs_ok s" and step: "aiNext_claim R C act env s = (res, s')"
  shows "jobs_ok s' \<and> (\<forall>x \<in> set (ai_jobs s). \<not> job_active x \<longrightarrow> x \<in> set (ai_jobs s'))"
proof -
  have "s' = s \<or> (\<exists>f n job t. s' = fail_commit f n job ''failed'' t s)
      \<or> (\<exists>j a c g. query_row (queued_jobs s) = Some (j, a, c, g) \<and> ai_jobs s' = set_jobs (\<lambda>x. j_id x = j_id j \<and> j_status x = ''queued'') ''running'' (now env) (ai_jobs s))"
    using step unfolding aiNext_claim_def by (auto split: if_splits option.splits sum.splits prod.splits)
  then show ?thesis
  proof (elim disjE exE conjE)
    fix f n job t assume s': "s' = fail_commit f n job ''failed'' t s"
    have kept: "jobs_kept (ai_jobs s) (ai_jobs s')" unfolding s' by (rule fail_commit_jobs [OF not_held(1)])
    from jobs_ok_kept [OF ok kept] finished_kept [OF kept] show ?thesis by blast
  next
    fix j a c g assume q: "query_row (queued_jobs s) = Some (j, a, c, g)"
      and s': "ai_jobs s' = set_jobs (\<lambda>x. j_id x = j_id j \<and> j_status x = ''queued'') ''running'' (now env) (ai_jobs s)"
    from start_job [OF ok queued_jobsD [OF q] s'] show ?thesis by blast
  qed (use ok in simp)
qed

lemma kept_step: "jobs_ok s \<Longrightarrow> jobs_kept (ai_jobs s) (ai_jobs s') \<Longrightarrow>
    jobs_ok s' \<and> (\<forall>x \<in> set (ai_jobs s). \<not> job_active x \<longrightarrow> x \<in> set (ai_jobs s'))"
  by (blast intro: jobs_ok_kept finished_kept)

lemma aiNext_start_jobs:
  assumes ok: "jobs_ok s" and step: "aiNext_start R C act env env2 s = (res, s')"
  shows "jobs_ok s' \<and> (\<forall>x \<in> set (ai_jobs s). \<not> job_active x \<longrightarrow> x \<in> set (ai_jobs s'))"
proof -
  obtain r s1 where claim: "aiNext_claim R C act env s = (r, s1)" by (cases "aiNext_claim R C act env s")
  have s1: "jobs_ok s1 \<and> (\<forall>x \<in> set (ai_jobs s). \<not> job_active x \<longrightarrow> x \<in> set (ai_jobs s1))" by (rule aiNext_claim_jobs [OF ok claim])
  have "s' = s1 \<or> (\<exists>f job t. s' = aiFinishError f job ''failed'' t s1)"
    using step by (auto simp: aiNext_start_def claim split: claim_result.splits option.splits)
  then have "jobs_kept (ai_jobs s1) (ai_jobs s')" using aiFinishError_jobs [OF not_held(1)] by auto
  from kept_step [OF conjunct1 [OF s1] this] s1 show ?thesis by blast
qed

subsection \<open>Finishing\<close>

lemma insert_answer_jobs: "insert_answer C env n s m stored payload = Some s' \<Longrightarrow> ai_jobs s' = ai_jobs s"
  by (auto simp: insert_answer_def split: if_splits option.splits)

lemma publish_answer_jobs:
  assumes "publish_answer C env s jc payload state raw = (es, s')"
  shows "s' = s \<or> ai_jobs s' = update_rows (\<lambda>j. j_id j = jc_job jc) (\<lambda>j. j\<lparr>j_status := ''succeeded'', j_result := uuid env, j_updated := now env\<rparr>) (ai_jobs s)"
  using assms unfolding publish_answer_def Let_def
  by (auto split: if_splits option.splits sum.splits dest!: Append_jobs insert_answer_jobs)

lemma direct_identity_running:
  assumes "jobs_ok s" "direct_identity s job \<noteq> None" "aiTaskLookup f s job = Some t" "j \<in> set (ai_jobs s)" "j_id j = job"
  shows "ti_status t = j_status j"
proof -
  from assms(2,3) have "direct_identity s job = Some t" by (auto simp: aiTaskLookup_def split: if_splits option.splits)
  then obtain j' where "j' \<in> set (ai_jobs s)" "j_id j' = job" "ti_status t = j_status j'"
    by (auto simp: direct_identity_def dest!: query_row_SomeD)
  with unique_on_eqD [of j_id "ai_jobs s" j' j] assms(1,4,5) show ?thesis by (simp add: jobs_ok_def)
qed

text \<open>The job is finished by its own answer, while it runs.\<close>

lemma aiComplete_jobs:
  assumes ok: "jobs_ok s" and direct: "direct_identity s (jc_job jc) \<noteq> None" and step: "aiComplete R C env env2 s jc ans = (es, s')"
  shows "jobs_kept (ai_jobs s) (ai_jobs s')"
proof -
  have "s' = s \<or> s' = aiFinishError (flt env2) (jc_job jc) ''failed'' (now env2) s \<or> s' = fail_commit (flt env) 5 (jc_job jc) ''failed'' (now env) s
      \<or> (\<exists>t payload state raw. aiTaskLookup (shift_faults 2 (flt env)) s (jc_job jc) = Some t \<and> ti_status t = ''running''
           \<and> publish_answer C env s jc payload state raw = (es, s'))"
    using step unfolding aiComplete_def Let_def by (auto split: if_splits option.splits sum.splits prod.splits)
  then show ?thesis
  proof (elim disjE exE conjE)
    fix t payload state raw
    assume t: "aiTaskLookup (shift_faults 2 (flt env)) s (jc_job jc) = Some t" "ti_status t = ''running''" and p: "publish_answer C env s jc payload state raw = (es, s')"
    have running: "j_status j = ''running''" if "j \<in> set (ai_jobs s)" "j_id j = jc_job jc" for j
      using direct_identity_running [OF ok direct t(1) that] t(2) by simp
    from publish_answer_jobs [OF p] show ?thesis
    proof
      assume u: "ai_jobs s' = update_rows (\<lambda>j. j_id j = jc_job jc) (\<lambda>j. j\<lparr>j_status := ''succeeded'', j_result := uuid env, j_updated := now env\<rparr>) (ai_jobs s)"
      show ?thesis unfolding u
        by (rule jobs_kept_update) (auto dest!: running simp: job_kept_def job_active_def job_held_def active_states_def held_states_def)
    qed simp
  qed (simp_all add: aiFinishError_jobs fail_commit_jobs not_held)
qed

lemma aiNext_finish_jobs:
  assumes "jobs_ok s" "direct_identity s (jc_job jc) \<noteq> None" "aiNext_finish R C env env2 s jc result = (es, s')"
  shows "jobs_kept (ai_jobs s) (ai_jobs s')"
  using assms by (cases result) (auto simp: aiNext_finish_def not_held aiFinishError_jobs intro: aiComplete_jobs split: if_splits)

subsection \<open>All steps\<close>

text \<open>
  The operations of the assistants and of the policy module. The store may also change in any other way that leaves the jobs alone.
  A round of the worker ends for a job whose rows exist: nothing deletes them.
\<close>

lemma mark_awaiting_jobs: "aiPolicyMarkAwaiting C env n s chat job request = Some s' \<Longrightarrow> jobs_kept (ai_jobs s) (ai_jobs s')"
  by (auto simp: aiPolicyMarkAwaiting_def set_job_status_jobs waiting_moves dest!: Append_jobs split: if_splits sum.splits)

lemma queue_granted_jobs: "queue_granted job request s = s' \<Longrightarrow> jobs_kept (ai_jobs s) (ai_jobs s')"
proof -
  have "jobs_kept js (update_rows (\<lambda>j. j_id j = job \<and> j_status j = ''awaiting_approval'') (\<lambda>j. j\<lparr>j_status := ''queued''\<rparr>) js)" for js
    by (rule jobs_kept_update) (auto simp: job_kept_def job_active_def job_held_def active_states_def held_states_def)
  moreover have "jobs_kept js js" for js by (induction js) (auto simp: job_kept_def)
  ultimately show "queue_granted job request s = s' \<Longrightarrow> jobs_kept (ai_jobs s) (ai_jobs s')" by (auto simp: queue_granted_def)
qed

inductive life_step :: "'w policy_db_scheme runtime \<Rightarrow> policy_lib \<Rightarrow> 'w policy_core \<Rightarrow> 'w policy_db_scheme \<Rightarrow> 'w policy_db_scheme \<Rightarrow> bool"
  for R :: "'w policy_db_scheme runtime" and L :: policy_lib and C :: "'w policy_core" where
  queue_job: "ai_tx_hook env s who chat m = Inr s' \<Longrightarrow> life_step R L C s s'"
| claim_job: "aiNext_start R C act env env2 s = (res, s') \<Longrightarrow> life_step R L C s s'"
| finish_job: "direct_identity s (jc_job jc) \<noteq> None \<Longrightarrow> aiNext_finish R C env env2 s jc result = (es, s') \<Longrightarrow> life_step R L C s s'"
| cancel_job: "cancelAIJob C env s who chat job = ((rep, es, s'), k) \<Longrightarrow> life_step R L C s s'"
| restart: "restart_jobs env s = (b, s') \<Longrightarrow> life_step R L C s s'"
| deletion: "ai_delete_hook C env s mid = Inr s' \<Longrightarrow> life_step R L C s s'"
| begin_effect: "aiPolicyBegin R L C env s e cont = (r, es, s') \<Longrightarrow> life_step R L C s s'"
| approval: "aiPolicyApprove R L C env s token = (rep', es, s') \<Longrightarrow> life_step R L C s s'"
| expiry: "aiPolicyCleanupExpired L C env s = (es, s') \<Longrightarrow> life_step R L C s s'"
| policy_restart: "installAIPolicy R env s = (key, ok, s') \<Longrightarrow> life_step R L C s s'"
| storage_wait: "aiPolicyMarkAwaiting C env n s chat job request = Some s' \<Longrightarrow> life_step R L C s s'"
| storage_grant: "queue_granted job request s = s' \<Longrightarrow> life_step R L C s s'"
| other: "ai_jobs s' = ai_jobs s \<Longrightarrow> life_step R L C s s'"

lemma life_step_ok:
  assumes step: "life_step R L C s s'" and ok: "jobs_ok s"
  shows "jobs_ok s' \<and> (\<forall>x \<in> set (ai_jobs s). \<not> job_active x \<longrightarrow> x \<in> set (ai_jobs s'))"
  using step
proof cases
  case (queue_job env who chat m)
  from ai_tx_hook_jobs [OF ok this] show ?thesis by blast
next
  case (claim_job act env env2 res)
  from aiNext_start_jobs [OF ok this] show ?thesis .
next
  case (finish_job jc env env2 result es)
  from kept_step [OF ok aiNext_finish_jobs [OF ok finish_job]] show ?thesis .
next
  case (cancel_job env who chat job rep es k)
  from kept_step [OF ok cancelAIJob_jobs [OF this]] show ?thesis .
next
  case (restart env b)
  from kept_step [OF ok restart_jobs_kept [OF this]] show ?thesis .
next
  case (deletion env mid)
  from kept_step [OF ok ai_delete_hook_jobs [OF this]] show ?thesis .
next
  case (begin_effect env e cont r es)
  from kept_step [OF ok aiPolicyBegin_jobs [OF this]] show ?thesis .
next
  case (approval env token rep' es)
  from kept_step [OF ok approve_jobs [OF this]] show ?thesis .
next
  case (expiry env es)
  from kept_step [OF ok cleanup_jobs [OF this]] show ?thesis .
next
  case (policy_restart env key b)
  from kept_step [OF ok install_jobs [OF this]] show ?thesis .
next
  case (storage_wait env n chat job request)
  from kept_step [OF ok mark_awaiting_jobs [OF this]] show ?thesis .
next
  case (storage_grant job request)
  from kept_step [OF ok queue_granted_jobs [OF this]] show ?thesis .
next
  case other
  with ok show ?thesis by (simp add: jobs_ok_def)
qed

lemma life_steps_ok:
  assumes "(life_step R L C)\<^sup>*\<^sup>* s s'" "jobs_ok s"
  shows "jobs_ok s' \<and> (\<forall>x \<in> set (ai_jobs s). \<not> job_active x \<longrightarrow> x \<in> set (ai_jobs s'))"
  using assms
proof (induction rule: rtranclp_induct)
  case (step y z)
  then have y: "jobs_ok y" by blast
  from life_step_ok [OF step.hyps(2) y] step show ?case by blast
qed simp

end
