(* ===== verification/AssistantProperties.thy ===== *)
theory AssistantProperties
  imports AssistantFixture Lifecycle "HOL-Library.Sublist"
begin

text \<open>Properties of the assistants: what their jobs may do, how often, with whose approval and at what cost.\<close>

subsection \<open>Calls to the outside\<close>

text \<open>The store an external call was made in, and what it must allow.\<close>

definition call_allowed :: "'w ai_db_scheme externals \<Rightarrow> ident \<Rightarrow> tool list \<Rightarrow> 'w ai_db_scheme external_call \<Rightarrow> bool" where
  "call_allowed X job tools x \<longleftrightarrow> (case x of
     AskProvider s ts \<Rightarrow> aiEffectsAllowed no_faults s job
   | RunTool s t c \<Rightarrow> aiEffectsAllowed no_faults s job \<and> t \<in> set tools \<and> tl_name t = ca_name c \<and> length (ca_arguments c) \<le> 65536
       \<and> (\<exists>names. current_tools s job = Some names \<and> ca_name c \<in> set names)
       \<and> aiCheckArguments (ex_integral X) (tl_schema t) (ex_json X (ca_arguments c)) = None)"

definition asks :: "'s external_call list \<Rightarrow> turn list list" where
  "asks tr = concat (map (\<lambda>x. case x of AskProvider s ts \<Rightarrow> [ts] | RunTool s t c \<Rightarrow> []) tr)"

definition runs :: "'s external_call list \<Rightarrow> nat" where
  "runs tr = count_rows (\<lambda>x. case x of AskProvider s ts \<Rightarrow> False | RunTool s t c \<Rightarrow> True) tr"

lemma calls_simps [simp]: "asks [] = []" "runs [] = 0" "asks (xs @ ys) = asks xs @ asks ys" "runs (xs @ ys) = runs xs + runs ys"
  "asks (AskProvider s ts # xs) = ts # asks xs" "asks (RunTool s t c # xs) = asks xs"
  "runs (AskProvider s ts # xs) = runs xs" "runs (RunTool s t c # xs) = Suc (runs xs)"
  by (simp_all add: asks_def runs_def count_rows_def)

lemma aiTaskLookup_any: "aiTaskLookup f s j = Some t \<Longrightarrow> aiTaskLookup g s j = Some t \<or> g 0 \<or> g 1"
  by (auto simp: aiTaskLookup_def split: if_splits option.splits)

lemma aiEffectsAllowed_any: "aiEffectsAllowed f s job \<Longrightarrow> aiEffectsAllowed no_faults s job"
  by (auto simp: aiEffectsAllowed_def aiTaskAuthorized_def no_faults_def shift_faults_def aiTaskLookup_def split: option.splits if_splits)

lemma aiAuthorizedTool_allowed:
  assumes "aiAuthorizedTool R X f s job c tools = Inr t"
  shows "call_allowed X job tools (RunTool s t c)"
  using assms
  by (auto simp: aiAuthorizedTool_def call_allowed_def find_Some_iff dest: aiEffectsAllowed_any split: option.splits if_splits)

lemma run_calls_trace:
  "run_calls R X st fs t job tools n cs turns s tr = (res, s', tr') \<Longrightarrow> list_all (call_allowed X job tools) tr \<Longrightarrow>
    list_all (call_allowed X job tools) tr' \<and> asks tr' = asks tr \<and> runs tr' \<le> runs tr + length cs"
proof (induction cs arbitrary: n turns s tr)
  case (Cons c cs)
  show ?case
  proof (cases "aiAuthorizedTool R X (fs n) s job c tools")
    case (Inl e)
    with Cons.prems show ?thesis by simp
  next
    case (Inr t0)
    have ok: "list_all (call_allowed X job tools) (tr @ [RunTool s t0 c])"
      using Cons.prems(2) aiAuthorizedTool_allowed [OF Inr] by simp
    obtain r s1 where x: "aiExecuteTool R X (aiLimits st) (fs n 5) t job t0 c s = (r, s1)"
      by (cases "aiExecuteTool R X (aiLimits st) (fs n 5) t job t0 c s")
    show ?thesis
    proof (cases r)
      case None
      with Cons.prems(1) Inr x ok show ?thesis by auto
    next
      case (Some v)
      with Cons.prems(1) Inr x have "run_calls R X st fs t job tools (Suc n) cs (turns @ [tool_turn c v]) s1 (tr @ [RunTool s t0 c]) = (res, s', tr')"
        by simp
      from Cons.IH [OF this ok] show ?thesis by simp
    qed
  qed
qed simp

lemma converse_trace:
  "converse R X st fs t job tools ask k n turns s tr = (res, s', tr') \<Longrightarrow> list_all (call_allowed X job tools) tr \<Longrightarrow>
    int (length (turns_json turns)) \<le> ai_context st \<Longrightarrow>
    list_all (call_allowed X job tools) tr' \<and> (\<exists>as. asks tr' = asks tr @ as \<and> length as \<le> k \<and> (\<forall>ts \<in> set as. int (length (turns_json ts)) \<le> ai_context st))
      \<and> runs tr' \<le> runs tr + 8 * k"
proof (induction k arbitrary: n turns s tr)
  case (Suc k)
  show ?case
  proof (cases "aiEffectsAllowed (fs n) s job")
    case False
    with Suc.prems show ?thesis by auto
  next
    case True
    obtain a s1 where a: "ask s turns = (a, s1)" by (cases "ask s turns")
    have ok: "list_all (call_allowed X job tools) (tr @ [AskProvider s turns])"
      using Suc.prems(2) aiEffectsAllowed_any [OF True] by (simp add: call_allowed_def [of X job tools "AskProvider s turns"])
    have stop: ?thesis if "tr' = tr @ [AskProvider s turns]" using that ok Suc.prems(3) by simp
    show ?thesis
    proof (cases a)
      case None
      with Suc.prems(1) True a have "tr' = tr @ [AskProvider s turns]" by simp
      then show ?thesis by (rule stop)
    next
      case (Some an)
      let ?s2 = "aiAudit (fs n 5) job ''provider'' [] ''succeeded'' t s1"
      let ?r = "run_calls R X st fs t job tools (Suc n) (an_calls an) (turns @ [(assistant_turn (an_text an))\<lparr>tu_calls := an_calls an\<rparr>]) ?s2
        (tr @ [AskProvider s turns])"
      obtain r3 s3 tr3 where r: "?r = (r3, s3, tr3)" by (cases ?r) auto
      note run = run_calls_trace [OF r ok]
      show ?thesis
      proof (cases "an_calls an = [] \<or> length (an_calls an) > 8")
        case True
        with Suc.prems(1) \<open>aiEffectsAllowed (fs n) s job\<close> a Some have "tr' = tr @ [AskProvider s turns]" by (auto simp: Let_def split: if_splits)
        then show ?thesis by (rule stop)
      next
        case few: False
        have stop3: ?thesis if "tr' = tr3" using that run few Suc.prems(3) by auto
        show ?thesis
        proof (cases r3)
          case (Inl e)
          with Suc.prems(1) True a Some few r have "tr' = tr3" by (simp add: Let_def)
          then show ?thesis by (rule stop3)
        next
          case (Inr turns3)
          show ?thesis
          proof (cases "int (length (turns_json turns3)) > ai_context st \<or> int (length turns3) > ai_turns st")
            case full: True
            with Suc.prems(1) True a Some few r Inr have "tr' = tr3" by (auto simp: Let_def)
            then show ?thesis by (rule stop3)
          next
            case False
            with Suc.prems(1) True a Some few r Inr
            have rec: "converse R X st fs t job tools ask k (Suc n + length (an_calls an)) turns3 s3 tr3 = (res, s', tr')" by (simp add: Let_def)
            have "int (length (turns_json turns3)) \<le> ai_context st" using False by simp
            from Suc.IH [OF rec conjunct1 [OF run] this] run few Suc.prems(3) show ?thesis by auto
          qed
        qed
      qed
    qed
  qed
qed auto

lemma conversation_trace:
  assumes "directConversation R X st fs t job turns tools s = (res, s', tr)"
  shows "list_all (call_allowed X job tools) tr \<and> length (asks tr) \<le> nat (ai_steps st) \<and> runs tr \<le> 8 * nat (ai_steps st)
    \<and> (\<forall>ts \<in> set (asks tr). int (length (turns_json ts)) \<le> ai_context st)"
proof (cases "tr = []")
  case False
  have "\<exists>ask n. converse R X st fs t job tools ask (nat (ai_steps st)) n (aiBoundContext turns st) s [] = (res, s', tr)
      \<and> int (length (turns_json (aiBoundContext turns st))) \<le> ai_context st"
    using assms False unfolding directConversation_def Let_def by (auto split: if_splits option.splits)
  then obtain ask n where c: "converse R X st fs t job tools ask (nat (ai_steps st)) n (aiBoundContext turns st) s [] = (res, s', tr)"
    and m: "int (length (turns_json (aiBoundContext turns st))) \<le> ai_context st" by blast
  from converse_trace [OF c _ m] show ?thesis by auto
qed simp

definition desk_call :: call where
  "desk_call = \<lparr>ca_id = ''1'', ca_name = ''t'', ca_arguments = ''{}''\<rparr>"

definition desk_externals :: "'s externals" where
  "desk_externals = \<lparr>ex_provider = Some (\<lambda>s ts. (Some (if length ts = 1 then \<lparr>an_text = [], an_calls = [desk_call]\<rparr>
       else \<lparr>an_text = ''ok'', an_calls = []\<rparr>), s)),
     ex_tool = (\<lambda>t b s. (Some ''r'', s)), ex_json = (\<lambda>b. Some (VObject [])), ex_integral = (\<lambda>n. True), ex_policy_active = False\<rparr>"

definition desk_free :: "unit policy_db_scheme runtime" where
  "desk_free = desk_runtime\<lparr>rt_settings := desk_settings\<lparr>cfg_features := no_features\<rparr>\<rparr>"

lemma desk_turns: "length (turns_json [user_turn ''hi'']) \<le> 200"
  "length (turns_json [user_turn ''hi'', (assistant_turn [])\<lparr>tu_calls := [desk_call]\<rparr>, tool_turn desk_call ''r'']) \<le> 200"
  by code_simp+

lemma desk_allowed: "aiEffectsAllowed no_faults (desk_db\<lparr>ai_audit := xs\<rparr>) ''j1''"
  by (simp add: aiEffectsAllowed_def aiTaskLookup_def direct_identity_def aiTaskAuthorized_def desk_db_def desk_job_def desk_message_def
      toy_db_def no_faults_def shift_faults_def)

lemma desk_granted: "current_tools (desk_db\<lparr>ai_audit := xs\<rparr>) ''j1'' = Some [''t'']"
  by (simp add: current_tools_def desk_db_def desk_job_def)

lemma desk_no_faults: "shift_faults n no_faults = no_faults" "no_faults n = False"
  by (simp_all add: shift_faults_def no_faults_def fun_eq_iff)

lemma desk_tool_allowed:
  "aiAuthorizedTool desk_free desk_externals no_faults (desk_db\<lparr>ai_audit := xs\<rparr>) ''j1'' desk_call [desk_tool] = Inr desk_tool"
  by (simp add: aiAuthorizedTool_def desk_allowed desk_granted desk_no_faults desk_call_def desk_tool_def desk_free_def desk_runtime_def
      desk_externals_def aiCheckArguments_def)

lemma desk_conversation:
  "\<exists>s' tr. directConversation desk_free desk_externals default_ai_section (\<lambda>_. no_faults) 1000 ''j1'' [user_turn ''hi''] [desk_tool] desk_db
     = (Inr ''ok'', s', tr) \<and> length (asks tr) = 2 \<and> runs tr = 1"
proof -
  have db: "desk_db = desk_db\<lparr>ai_audit := []\<rparr>" by (simp add: desk_db_def)
  have audit: "aiAudit False j a n out t (desk_db\<lparr>ai_audit := xs\<rparr>) = desk_db\<lparr>ai_audit := xs @ [\<lparr>au_job = j, au_action = a, au_tool = n,
      au_outcome = out, au_created = t\<rparr>]\<rparr>" for j a n out t xs
    by (simp add: aiAudit_def audit_def)
  have bound: "aiBoundContext [user_turn ''hi''] default_ai_section = [user_turn ''hi'']"
    by (simp add: aiBoundContext_def default_ai_section_def bounded_def shrink_context.simps)
  have small: "int (length (turns_json [user_turn ''hi''])) \<le> 262144"
    "int (length (turns_json [user_turn ''hi'', (assistant_turn [])\<lparr>tu_calls := [desk_call]\<rparr>, tool_turn desk_call ''r''])) \<le> 262144"
    using desk_turns by linarith+
  obtain k where eight: "nat (ai_steps default_ai_section) = Suc (Suc k)"
    using Suc_diff_Suc by (intro that [of 6]) (simp add: default_ai_section_def)
  have free: "feat_ai_policy (rt_features desk_free) = False" by (simp add: desk_free_def no_features_def desk_runtime_def)
  have lim: "ai_context default_ai_section = 262144" "ai_turns default_ai_section = 20" by (simp_all add: default_ai_section_def)
  have tool: "aiExecuteTool desk_free desk_externals (aiLimits default_ai_section) False 1000 ''j1'' desk_tool desk_call s
      = (Some ''r'', aiAudit False ''j1'' ''tool'' ''t'' ''succeeded'' 1000 s)" for s :: "unit policy_db_scheme"
    by (simp add: aiExecuteTool_def free desk_externals_def tool_limits_def aiLimits_def default_ai_section_def tighter_def desk_tool_def)
  have ask: "ex_provider desk_externals = Some (\<lambda>s ts. (Some (if length ts = 1 then \<lparr>an_text = [], an_calls = [desk_call]\<rparr>
       else \<lparr>an_text = ''ok'', an_calls = []\<rparr>), s))" by (simp add: desk_externals_def)
  have "\<exists>s' tr. directConversation desk_free desk_externals default_ai_section (\<lambda>_. no_faults) 1000 ''j1'' [user_turn ''hi''] [desk_tool]
      (desk_db\<lparr>ai_audit := []\<rparr>) = (Inr ''ok'', s', tr) \<and> length (asks tr) = 2 \<and> runs tr = 1"
    unfolding directConversation_def Let_def bound eight
    using small by (simp add: free lim ask desk_allowed desk_no_faults audit desk_tool_allowed tool Let_def)
  then show ?thesis using db by simp
qed

subsection \<open>The context of a conversation\<close>

lemma drop_to_user_suffix: "suffix (drop_to_user ts) ts"
  by (induction ts rule: drop_to_user.induct) (auto simp: suffix_Cons)

lemma drop_to_user_head: "length (drop_to_user ts) > 1 \<Longrightarrow> tu_role (hd (drop_to_user ts)) = ''user''"
  by (induction ts rule: drop_to_user.induct) auto

lemma drop_to_user_Nil: "drop_to_user ts = [] \<longleftrightarrow> ts = []"
  by (induction ts rule: drop_to_user.induct) auto

lemma shrink_context_spec:
  "suffix (shrink_context m ts) ts \<and> (shrink_context m ts = [] \<longleftrightarrow> ts = [])
    \<and> (length (shrink_context m ts) > 1 \<longrightarrow> int (length (turns_json (shrink_context m ts))) \<le> m
         \<and> (shrink_context m ts = ts \<or> tu_role (hd (shrink_context m ts)) = ''user''))"
proof (induction m ts rule: shrink_context.induct)
  case (1 m ts)
  show ?case
  proof (cases "length ts \<le> 1 \<or> int (length (turns_json ts)) \<le> m")
    case True
    then show ?thesis by (auto simp: shrink_context.simps [of m ts])
  next
    case False
    let ?ds = "drop_to_user (tl ts)"
    have eq: "shrink_context m ts = shrink_context m ?ds" using False by (simp add: shrink_context.simps [of m ts])
    have ds: "suffix ?ds ts" "?ds \<noteq> []" "ts \<noteq> []"
      using drop_to_user_suffix [of "tl ts"] suffix_tl [of ts] False by (auto simp: drop_to_user_Nil intro: suffix_order.trans) (cases ts; auto)+
    note IH = 1 [OF False]
    have "suffix (shrink_context m ?ds) ts" using IH ds(1) by (blast intro: suffix_order.trans)
    with IH ds(2,3) drop_to_user_head [of "tl ts"] show ?thesis unfolding eq by auto
  qed
qed

text \<open>C28: The history a provider sees is an end of the conversation: nothing is altered or left out in between, and the last turn stays.
  It has at most 20 turns (or fewer, when configured), and when it has more than one it fits the configured size and,
  if anything was cut, starts with a turn of the user.\<close>

theorem context_is_recent:
  "let cs = aiBoundContext ts a in
     suffix cs ts \<and> (cs = [] \<longleftrightarrow> ts = []) \<and> int (length cs) \<le> bounded (ai_turns a) 20
     \<and> (1 < length cs \<longrightarrow> int (length (turns_json cs)) \<le> bounded (ai_context a) 262144 \<and> (cs = ts \<or> tu_role (hd cs) = ''user''))"
proof -
  define n where "n = nat (bounded (ai_turns a) 20)"
  define rs where "rs = (if length ts > n then drop_to_user (drop (length ts - n) ts) else ts)"
  have n: "int n = bounded (ai_turns a) 20" "0 < n" by (simp_all add: n_def bounded_def)
  have rs: "suffix rs ts" "rs = [] \<longleftrightarrow> ts = []" "length rs \<le> n" "1 < length rs \<Longrightarrow> rs = ts \<or> tu_role (hd rs) = ''user''"
    using drop_to_user_suffix [of "drop (length ts - n) ts"] suffix_drop [of "length ts - n" ts] length_drop_to_user [of "drop (length ts - n) ts"]
      drop_to_user_head [of "drop (length ts - n) ts"] n(2)
    by (auto simp: rs_def drop_to_user_Nil intro: suffix_order.trans)
  have cs: "aiBoundContext ts a = shrink_context (bounded (ai_context a) 262144) rs"
    by (simp add: aiBoundContext_def Let_def n_def rs_def)
  note sc = shrink_context_spec [of "bounded (ai_context a) 262144" rs]
  let ?cs = "shrink_context (bounded (ai_context a) 262144) rs"
  have "length ?cs \<le> length rs" using sc by (simp add: suffix_length_le)
  then have "int (length ?cs) \<le> bounded (ai_turns a) 20" using rs(3) n(1) by linarith
  moreover have "suffix ?cs ts" using sc rs(1) by (blast intro: suffix_order.trans)
  moreover have "?cs = ts \<or> tu_role (hd ?cs) = ''user''" if "1 < length ?cs"
    using sc rs(4) that \<open>length ?cs \<le> length rs\<close> by auto
  ultimately show ?thesis unfolding cs Let_def using sc rs(2) by blast
qed

theorem context_is_recent_witness:
  "let cs = aiBoundContext [user_turn ''a'', assistant_turn ''b'', user_turn ''c''] (default_ai_section\<lparr>ai_turns := 2\<rparr>) in
     suffix cs [user_turn ''a'', assistant_turn ''b'', user_turn ''c''] \<and> int (length cs) \<le> 2"
  using context_is_recent [of "[user_turn ''a'', assistant_turn ''b'', user_turn ''c'']" "default_ai_section\<lparr>ai_turns := 2\<rparr>"]
  by (simp add: Let_def bounded_def)

subsection \<open>Jobs\<close>

text \<open>C25: A chat never has more than 64 active jobs and never more than one that runs or waits for an approval, whatever the order of
  messages, worker rounds, cancellations, deletions, approvals, storage grants, expiries and restarts; and a job that is
  finished stays exactly as it is.\<close>

theorem one_job_at_a_time:
  assumes "(life_step R L C)\<^sup>*\<^sup>* s s'" "jobs_ok s"
  shows "jobs_ok s' \<and> (\<forall>x \<in> set (ai_jobs s). \<not> job_active x \<longrightarrow> x \<in> set (ai_jobs s'))"
  using life_steps_ok [OF assms] .

theorem one_job_at_a_time_witness:
  "\<exists>s1 s2. ai_tx_hook (toy_env 1001 ''j2'') desk_db alice ''c'' (empty_message\<lparr>msg_id := ''m2''\<rparr>) = Inr s1
     \<and> restart_jobs (toy_env 1002 []) s1 = (True, s2) \<and> length (ai_jobs s2) = 2 \<and> jobs_ok s2"
proof -
  let ?j = "\<lparr>j_id = ''j2'', j_chat_id = ''c'', j_message_id = ''m2'', j_status = ''queued'', j_result = [], j_created = 1001, j_updated = 1001\<rparr>"
  let ?s1 = "desk_db\<lparr>ai_jobs := [desk_job ''running'', ?j]\<rparr>"
  let ?s2 = "?s1\<lparr>ai_jobs := set_jobs (\<lambda>j. j_status j = ''running'') ''uncertain'' 1002 (ai_jobs ?s1)\<rparr>"
  have q: "ai_tx_hook (toy_env 1001 ''j2'') desk_db alice ''c'' (empty_message\<lparr>msg_id := ''m2''\<rparr>) = Inr ?s1"
    by (simp add: ai_tx_hook_def desk_env desk_db_def alice_def count_active_def count_rows_def desk_job_def insert_row_def get_row_def Let_def)
      (simp add: toy_env_def)
  have r: "restart_jobs (toy_env 1002 []) ?s1 = (True, ?s2)" by (simp add: restart_jobs_def desk_env)
  have "(life_step desk_runtime desk_lib desk_core)\<^sup>*\<^sup>* desk_db ?s2"
    by (rule rtranclp.rtrancl_into_rtrancl, rule r_into_rtranclp, rule life_step.queue_job [OF q], rule life_step.restart [OF r])
  moreover have "jobs_ok desk_db"
    by (simp add: jobs_ok_def desk_db_def desk_job_def unique_on_def count_active_def count_rows_def)
  ultimately have "jobs_ok ?s2" using one_job_at_a_time by blast
  moreover have "length (ai_jobs ?s2) = 2" by (simp add: set_jobs_def update_rows_def)
  ultimately show ?thesis using q r by blast
qed

subsection \<open>Effects and their cost\<close>

text \<open>C9: An effect is sent at most once. After an effect was dispatched, no sequence of operations of the policy module (including
  settling, further approvals, cleanups, deletions and restarts) leads to a store from which it is dispatched again.\<close>

theorem effect_sent_once:
  assumes gcm: "gcm_opens (prim C) (eng_aead (eng C))" and reads: "reads_amounts L" "reads_stored L"
    and fits: "counter (po_reserve (set_ai_policy (rt_settings R)))" "pe_reserve e \<le> max_int64" and ok: "budget_ok L C s"
    and sent: "aiPolicyBegin R L C env s e cont = (Dispatched i, es, s1)"
    and steps: "(budget_step R L C)\<^sup>*\<^sup>* s1 s2"
  shows "fst (aiPolicyBegin R L C env' s2 e' cont') \<noteq> Dispatched i"
proof -
  have s1: "budget_ok L C s1" using begin_budget [OF gcm reads ok fits(2,1) sent] by blast
  obtain r where r: "r \<in> set (policy_requests s1)" "pr_id r = i" "pr_status r = ''dispatched''" using dispatched_is_sent [OF sent] by blast
  have s2: "budget_ok L C s2 \<and> reaches s1 s2" by (rule budget_steps_ok [OF gcm reads fits(1) steps s1])
  then obtain r' where r': "r' \<in> set (policy_requests s2)" "request_kept r r'" using r(1) by (auto simp: reaches_def)
  then have "pr_id r' = i" "pr_status r' \<in> set sent_states" using r by (auto simp: request_kept_def status_next_def sent_states_def)
  with sent_not_dispatched [OF budget_okD(2) [OF conjunct1 [OF s2]] r'(1)] show ?thesis
    by (cases "aiPolicyBegin R L C env' s2 e' cont'") auto
qed

lemma desk_core_opens: "gcm_opens (prim desk_core) (eng_aead (eng desk_core))"
  by (simp add: desk_core_def desk_gcm_opens)

lemma desk_counter: "counter (po_reserve (set_ai_policy (rt_settings desk_runtime)))" "pe_reserve (desk_effect b) \<le> max_int64"
  by (simp_all add: desk_runtime_def desk_settings_def counter_def max_int64_def desk_effect_def)

theorem effect_sent_once_witness:
  "\<exists>es s1. aiPolicyBegin desk_runtime desk_lib desk_core (toy_env 1000 []) desk_db (desk_effect False) [] = (Dispatched ''r1'', es, s1)
     \<and> fst (aiPolicyBegin desk_runtime desk_lib desk_core (toy_env 1001 []) s1 (desk_effect False) []) \<noteq> Dispatched ''r1''"
proof -
  obtain es s1 where b: "aiPolicyBegin desk_runtime desk_lib desk_core (toy_env 1000 []) desk_db (desk_effect False) [] = (Dispatched ''r1'', es, s1)"
    using desk_dispatches by blast
  from effect_sent_once [OF desk_core_opens desk_reads desk_counter desk_budget b rtranclp.rtrancl_refl] b show ?thesis by blast
qed

text \<open>C10: The books balance. After any sequence of operations, what an account holds in reserve is the sum of the open reservations in the
  ledger, and what it has used the sum of the costs of the settled effects; both fit in 64 bits.\<close>

theorem budget_ledger_balances:
  assumes "gcm_opens (prim C) (eng_aead (eng C))" "reads_amounts L" "reads_stored L"
    and "counter (po_reserve (set_ai_policy (rt_settings R)))" "budget_ok L C s" "(budget_step R L C)\<^sup>*\<^sup>* s s'"
  shows "balanced L C (policy_ledger s') (policy_accounts s') k"
  using books_okD(5) [OF budget_okD(1)] budget_steps_ok [OF assms(1-4,6,5)] by blast

theorem budget_ledger_balances_witness:
  "\<exists>es s1. aiPolicyBegin desk_runtime desk_lib desk_core (toy_env 1000 []) desk_db (desk_effect False) [] = (Dispatched ''r1'', es, s1)
     \<and> balanced desk_lib desk_core (policy_ledger s1) (policy_accounts s1) (''bot'', ''bob'', utc_day 1000)"
proof -
  obtain es s1 where b: "aiPolicyBegin desk_runtime desk_lib desk_core (toy_env 1000 []) desk_db (desk_effect False) [] = (Dispatched ''r1'', es, s1)"
    using desk_dispatches by blast
  have "(budget_step desk_runtime desk_lib desk_core)\<^sup>*\<^sup>* desk_db s1"
    by (rule r_into_rtranclp) (rule budget_step.begin_effect [OF desk_counter(2) b])
  from budget_ledger_balances [OF desk_core_opens desk_reads desk_counter(1) desk_budget this] b show ?thesis by blast
qed

text \<open>C13: When an effect is dispatched, the accounts of the day are within their caps: the global one, the one of the assistant and the one
  of the user whose message caused it, counting what is used and what is reserved, this effect included.\<close>

theorem budget_cap_holds:
  assumes "gcm_opens (prim C) (eng_aead (eng C))" "reads_amounts L" "reads_stored L" "budget_ok L C s"
    and "pe_reserve e \<le> max_int64" "counter (po_reserve (set_ai_policy (rt_settings R)))"
    and "aiPolicyBegin R L C env s e cont = (Dispatched i, es, s')"
  shows "\<exists>t. aiTaskLookup no_faults s (pe_job e) = Some t
    \<and> (\<forall>sc \<in> {(''global'', ''global''), (''bot'', ti_user t), (''source_user'', ti_source_user t)}.
         within_cap L C (set_ai_policy (rt_settings R)) (policy_accounts s') (utc_day (now env)) sc)"
  by (rule begin_within_cap [OF assms]) (auto simp: scopes_of_def)

theorem budget_cap_holds_witness:
  "\<exists>es s1. aiPolicyBegin desk_runtime desk_lib desk_core (toy_env 1000 []) desk_db (desk_effect False) [] = (Dispatched ''r1'', es, s1)
     \<and> within_cap desk_lib desk_core (set_ai_policy (rt_settings desk_runtime)) (policy_accounts s1) (utc_day 1000) (''source_user'', ''alice'')"
proof -
  obtain es s1 where b: "aiPolicyBegin desk_runtime desk_lib desk_core (toy_env 1000 []) desk_db (desk_effect False) [] = (Dispatched ''r1'', es, s1)"
    using desk_dispatches by blast
  have job: "pe_job (desk_effect False) = ''j1''" "ti_source_user desk_task = ''alice''" by (simp_all add: desk_effect_def desk_task_def)
  from budget_cap_holds [OF desk_core_opens desk_reads desk_budget desk_counter(2,1) b] b show ?thesis
    by (auto simp: job desk_lookup desk_env)
qed

lemma in_update_rows: "r \<in> set rs \<Longrightarrow> p r \<Longrightarrow> f r \<in> set (update_rows p f rs)"
  by (induction rs) (auto simp: update_rows_def)

text \<open>C11: An effect that requires an approval is dispatched only with a grant for exactly this request, which was neither used nor revoked,
  whose token, as stored, has a valid signature and claims that agree with the running job and the effect, and
  the grant is used up.\<close>

theorem approval_needs_grant:
  assumes "aiPolicyBegin R L C env s e cont = (Dispatched i, es, s')" "aiPolicyRequired (set_ai_policy (rt_settings R)) e"
  shows "\<exists>g token t. g \<in> set (policy_grants s) \<and> pg_request g = i \<and> pg_used g = 0 \<and> pg_revoked g = 0
    \<and> pg_nonce g \<notin> rv_nonce ` set (policy_revocations s)
    \<and> Open (prim C) (eng C) (pg_token g) (aiPolicyAAD ''grant'' (pg_id g)) = Inr token
    \<and> aiTaskLookup no_faults s (pe_job e) = Some t
    \<and> aiPolicyVerifyToken L C (set_ai_policy (rt_settings R)) token i t (given_effect env e) (now env)
    \<and> g\<lparr>pg_used := now env\<rparr> \<in> set (policy_grants s')"
  using assms(1)
proof (cases rule: aiPolicyBegin_cases)
  case (approved t r)
  let ?p = "set_ai_policy (rt_settings R)" and ?e = "given_effect env e"
  have required: "aiPolicyRequired ?p ?e" using assms(2) by (simp add: given_effect_def aiPolicyRequired_def)
  from approved(6) obtain gs where rows: "dispatch_rows L C ?p env (12 + 5) (pe_id ?e) t ?e (s\<lparr>policy_grants := gs\<rparr>) = Some s'"
    and g: "\<exists>g. check_grant L C ?p env (12 + 2) s (pe_id ?e) t ?e = Inr g \<and> gs = use_grant (now env) (pg_id g) (policy_grants s)"
    by (rule aiPolicyDispatchTx_Inr) (use required that in blast)
  from g obtain g where g: "check_grant L C ?p env 14 s (pe_id ?e) t ?e = Inr g" "gs = use_grant (now env) (pg_id g) (policy_grants s)" by auto
  then have latest: "latest_grant (pe_id ?e) (policy_grants s) = Some g" "pg_used g = 0" "pg_revoked g = 0"
    "pg_nonce g \<notin> rv_nonce ` set (policy_revocations s)"
    by (auto simp: check_grant_def split: if_splits option.splits sum.splits)
  from g obtain token where token: "Open (prim C) (eng C) (pg_token g) (aiPolicyAAD ''grant'' (pg_id g)) = Inr token"
    "aiPolicyVerifyToken L C ?p token (pe_id ?e) t ?e (now env)"
    by (auto simp: check_grant_def split: if_splits option.splits sum.splits)
  have grant: "g \<in> set (policy_grants s)" "pg_request g = pe_id ?e"
    using latest(1) by (auto simp: latest_grant_def dest!: query_row_SomeD)
  have "policy_grants s' = use_grant (now env) (pg_id g) (policy_grants s)" using rows by (rule dispatch_rows_Some) (simp add: g(2))
  then have "g\<lparr>pg_used := now env\<rparr> \<in> set (policy_grants s')"
    using in_update_rows [OF grant(1), of "\<lambda>x. pg_id x = pg_id g \<and> pg_used x = 0 \<and> pg_revoked x = 0"] latest(2,3) by (simp add: use_grant_def)
  with grant latest token approved(1,7) show ?thesis by auto
next
  case (new t version)
  with assms(2) show ?thesis by simp
qed auto

theorem approval_needs_grant_witness:
  "\<exists>es s'. aiPolicyBegin desk_runtime desk_lib desk_core (toy_env 1000 []) desk_db1 (desk_effect True) [] = (Dispatched ''r1'', es, s')
     \<and> (\<exists>g. g \<in> set (policy_grants desk_db1) \<and> g\<lparr>pg_used := 1000\<rparr> \<in> set (policy_grants s'))"
proof -
  obtain es s' where b: "aiPolicyBegin desk_runtime desk_lib desk_core (toy_env 1000 []) desk_db1 (desk_effect True) [] = (Dispatched ''r1'', es, s')"
    using desk_approved by blast
  from approval_needs_grant [OF b] b show ?thesis by (auto simp: desk_policy desk_env)
qed

text \<open>C26: The cost of a provider call is exact: input and output tokens times their prices per million, each rounded up, and neither
  the products nor the sum leave the signed 64-bit range.\<close>

theorem cost_is_exact:
  assumes "aiPolicyCost e u = Some c" "pe_action e \<noteq> ''tool''"
  shows "c = - ((- (us_input u * pe_input_price e)) div 1000000) + - ((- (us_output u * pe_output_price e)) div 1000000)
    \<and> us_input u * pe_input_price e + 999999 \<le> max_int64 \<and> us_output u * pe_output_price e + 999999 \<le> max_int64
    \<and> 0 \<le> c \<and> c \<le> max_int64"
proof -
  have exact: "c = - ((- (n * r)) div 1000000) \<and> n * r + 999999 \<le> max_int64 \<and> 0 \<le> c \<and> c \<le> max_int64" if rate: "aiPolicyCeilRate n r = Some c" for n r c
  proof -
    have n: "0 \<le> n" "0 \<le> r" using rate by (auto simp: aiPolicyCeilRate_def split: if_splits)
    consider "n * r = 0" "c = 0" | "0 < r" "n \<le> (max_int64 - 999999) div r" "c = (n * r + 999999) div 1000000"
      using rate n by (auto simp: aiPolicyCeilRate_def split: if_splits)
    then show ?thesis
    proof cases
      case 2
      then have "n * r \<le> (max_int64 - 999999) div r * r" by (intro mult_right_mono) simp_all
      also have "\<dots> \<le> max_int64 - 999999" using div_mult_mod_eq [of "max_int64 - 999999" r] pos_mod_sign [OF 2(1), of "max_int64 - 999999"] by linarith
      finally have "n * r \<le> max_int64 - 999999" .
      moreover have "0 \<le> n * r" using n by simp
      moreover have "(x + 999999) div 1000000 = - ((- x) div 1000000)" for x :: int
        using div_mult_mod_eq [of "- x" 1000000] pos_mod_sign [of 1000000 "- x"] pos_mod_bound [of 1000000 "- x"]
        by (intro int_div_pos_eq [where r = "999999 - (- x) mod 1000000"]) linarith+
      moreover have "0 \<le> (x + 999999) div 1000000 \<and> (x + 999999) div 1000000 \<le> max_int64" if "0 \<le> x" "x \<le> max_int64 - 999999" for x :: int
        using that div_mult_mod_eq [of "x + 999999" 1000000] pos_mod_sign [of 1000000 "x + 999999"] pos_mod_bound [of 1000000 "x + 999999"] by linarith
      ultimately show ?thesis using 2(3) by auto
    qed (auto simp: max_int64_def)
  qed
  from assms obtain a b where "aiPolicyCeilRate (us_input u) (pe_input_price e) = Some a" "aiPolicyCeilRate (us_output u) (pe_output_price e) = Some b"
    "c = a + b" "a \<le> max_int64 - b"
    by (auto simp: aiPolicyCost_def split: option.splits if_splits)
  with exact [of "us_input u" "pe_input_price e" a] exact [of "us_output u" "pe_output_price e" b] show ?thesis by auto
qed

definition desk_usage :: usage where
  "desk_usage = \<lparr>us_input = 3, us_output = 1000000, us_cache_read = 0, us_cache_write = 0, us_known = True, us_input_known = True, us_output_known = True\<rparr>"

theorem cost_is_exact_witness:
  "aiPolicyCost ((desk_effect False)\<lparr>pe_action := ''provider'', pe_input_price := 500000, pe_output_price := 7\<rparr>) desk_usage = Some 9
     \<and> (9 :: int) = - ((- (3 * 500000)) div 1000000) + - ((- (1000000 * 7)) div 1000000)"
proof -
  have c: "aiPolicyCost ((desk_effect False)\<lparr>pe_action := ''provider'', pe_input_price := 500000, pe_output_price := 7\<rparr>) desk_usage = Some 9"
    by (simp add: aiPolicyCost_def aiPolicyCeilRate_def desk_effect_def desk_usage_def max_int64_def)
  from cost_is_exact [OF c] c show ?thesis by (simp add: desk_usage_def)
qed

end
