(* ===== verification/Boundary.thy ===== *)
theory Boundary
  imports VaultGrants
begin

text \<open>
  The second half of \<open>internal/modules/ai_storage.go\<close>: the query of a tool, the single use of its grant, and the boundary around
  what was retrieved, which is checked again before every call to the outside and before the answer is stored.
\<close>

subsection \<open>Queries\<close>

text \<open>A time as RFC 3339 in UTC.\<close>

definition utc_time :: "time \<Rightarrow> string" where
  "utc_time t = utc_day t @ ''T'' @ pad2 (t mod 86400 div 3600) @ '':'' @ pad2 (t mod 3600 div 60) @ '':'' @ pad2 (t mod 60) @ ''Z''"

definition resource_view_json :: "resource \<Rightarrow> string" where
  "resource_view_json r = json_object
     ([json_member ''id'' (json_string (re_id r)), json_member ''scope'' (json_string (re_scope r)),
       json_member ''owner'' (json_string (re_owner r)), json_member ''routing_visible'' (json_bool (re_visible r))]
      @ omitempty ''metadata'' (re_metadata r) (re_metadata r)
      @ [json_member ''created_at'' (json_string (utc_time (re_created r)))])"

definition document_view_json :: "'f vault_lib \<Rightarrow> ident \<Rightarrow> ident \<Rightarrow> 'f document \<Rightarrow> string" where
  "document_view_json L rid d p = json_object
     ([json_member ''id'' (json_string d), json_member ''resource_id'' (json_string rid)]
      @ omitempty ''text'' (dc_text p) (json_string (dc_text p))
      @ omitempty ''vector'' (dc_vector p) (json_array (map (vl_number L) (dc_vector p)))
      @ omitempty ''filename'' (dc_filename p) (json_string (dc_filename p))
      @ omitempty ''file'' (dc_file p) (json_string (b64_encode (dc_file p)))
      @ omitempty ''metadata'' (dc_metadata p) (dc_metadata p))"

definition hit_json :: "'f vault_lib \<Rightarrow> resource \<Rightarrow> ident \<Rightarrow> 'f document \<Rightarrow> 'f \<Rightarrow> string" where
  "hit_json L r d p score = json_object [json_member ''document'' (document_view_json L (re_id r) d p),
     json_member ''resource'' (resource_view_json r), json_member ''score'' (vl_number L score)]"

definition link_json :: "ident \<Rightarrow> link \<Rightarrow> string" where
  "link_json rid e = (case e of (d, a, b, l) \<Rightarrow> json_object [json_member ''id'' (json_string d), json_member ''resource_id'' (json_string rid),
     json_member ''from'' (json_string a), json_member ''to'' (json_string b), json_member ''label'' (json_string l)])"

definition graph_json :: "resource \<times> string list \<times> link list \<Rightarrow> string" where
  "graph_json g = (case g of (r, nodes, es) \<Rightarrow> json_object [json_member ''resource'' (resource_view_json r),
     json_member ''nodes'' (json_array (map json_string nodes)), json_member ''edges'' (json_array (map (link_json (re_id r)) es))])"

text \<open>The longest valid prefix of the first \<open>limit\<close> bytes.\<close>

function drop_partial :: "string \<Rightarrow> string" where
  "drop_partial s = (if utf8_valid s then s else drop_partial (butlast s))"
  by pat_completeness auto

termination
proof (relation "measure length")
  fix s :: string assume "\<not> utf8_valid s"
  then have "s \<noteq> []" by (auto simp: utf8_valid.simps)
  then show "(butlast s, s) \<in> measure length" by (cases s) auto
qed simp

declare drop_partial.simps [simp del]

definition vaultSnippet :: "string \<Rightarrow> nat \<Rightarrow> string" where
  "vaultSnippet s limit = (if length s \<le> limit then s else drop_partial (take limit s))"

text \<open>A search result carries the text only, cut to 4096 bytes.\<close>

definition snippet_of :: "'f document \<Rightarrow> 'f document" where
  "snippet_of p = p\<lparr>dc_text := vaultSnippet (dc_text p) 4096, dc_file := [], dc_vector := [], dc_metadata := []\<rparr>"

definition read_json :: "vault \<Rightarrow> 'f vault_lib \<Rightarrow> faults \<Rightarrow> 'v vault_db_scheme \<Rightarrow> ident \<Rightarrow> 'f retrieval \<Rightarrow> string option" where
  "read_json V L f s rid q =
     (case GetDocument V L f s rid (rq_document q) of
        Inl _ \<Rightarrow> None
      | Inr (p, r) \<Rightarrow> Some (hit_json L r (rq_document q) p (vl_zero L)))"

text \<open>A score that is not finite cannot be written.\<close>

definition search_json :: "vault \<Rightarrow> 'f vault_lib \<Rightarrow> faults \<Rightarrow> 'v vault_db_scheme \<Rightarrow> ident \<Rightarrow> 'f retrieval \<Rightarrow> int \<Rightarrow> string option" where
  "search_json V L f s rid q limit =
     (case Search V L f s rid \<lparr>q_text = rq_text q, q_vector = rq_vector q, q_limit = limit\<rparr> of
        Inl _ \<Rightarrow> None
      | Inr (hs, r) \<Rightarrow>
          (if list_ex (\<lambda>h. \<not> vl_finite L (h_score h)) hs then None
           else Some (json_array (map (\<lambda>h. hit_json L r (h_id h) (snippet_of (h_document h)) (h_score h)) hs))))"

definition vaultQuery ::
  "vault \<Rightarrow> 'f storage_lib \<Rightarrow> faults \<Rightarrow> 'v vault_db_scheme \<Rightarrow> ident \<Rightarrow> string \<Rightarrow> bytes \<Rightarrow> int \<Rightarrow> string option" where
  "vaultQuery V L f s rid action args maxResults =
     (case sl_query L args of
        None \<Rightarrow> None
      | Some q \<Rightarrow>
          (if rq_limit q < 0 \<or> rq_limit q > maxResults then None
           else let limit = (if rq_limit q = 0 then min 8 maxResults else rq_limit q);
               raw = (if action = ''read'' then read_json V (sl_vault L) f s rid q
                 else if action = ''search'' then search_json V (sl_vault L) f s rid q limit
                 else if action = ''graph'' then
                   (case GraphBFS V (sl_vault L) f s rid \<lparr>gq_start = rq_start q, gq_depth = rq_depth q, gq_limit = limit\<rparr> of
                      Inl _ \<Rightarrow> None
                    | Inr g \<Rightarrow> Some (graph_json g))
                 else None) in
             (case raw of None \<Rightarrow> None | Some r \<Rightarrow> (if length r > 65536 then None else Some r))))"

subsection \<open>The tool\<close>

definition claims_bound :: "claims \<Rightarrow> request_row \<Rightarrow> task_identity \<Rightarrow> tool \<Rightarrow> string \<Rightarrow> bool" where
  "claims_bound c r t tl0 destination \<longleftrightarrow> cl_request c = pr_id r \<and> cl_hash c = pr_hash r \<and> same_source c t
     \<and> Authorize c (tl_action tl0) (tl_resource tl0) destination"

text \<open>
  The grant is used up in a transaction of its own, before the query; \<open>request\<close> is the ticket of the dispatched effect. The result
  is the text, the boundary afterwards and the store.
\<close>

definition use_storage_grant :: "time \<Rightarrow> string \<Rightarrow> storage_grant_row list \<Rightarrow> storage_grant_row list" where
  "use_storage_grant t nonce' = update_rows (\<lambda>g. sg_nonce g = nonce' \<and> sg_used g = 0 \<and> \<not> sg_revoked g) (\<lambda>g. g\<lparr>sg_used := t\<rparr>)"

definition extend_boundary :: "boundary option \<Rightarrow> string \<Rightarrow> string \<Rightarrow> ident \<Rightarrow> boundary" where
  "extend_boundary b label destination request =
     (case b of
        None \<Rightarrow> \<lparr>bo_label = label, bo_destination = destination, bo_requests = [request]\<rparr>
      | Some x \<Rightarrow> x\<lparr>bo_requests := bo_requests x @ [request]\<rparr>)"

definition grant_ready ::
  "'s runtime \<Rightarrow> 'f storage_lib \<Rightarrow> 'x storage_core \<Rightarrow> storage_state option \<Rightarrow> env \<Rightarrow> 'x storage_db_scheme \<Rightarrow> ident \<Rightarrow> ident \<Rightarrow>
    boundary option \<Rightarrow> tool \<Rightarrow> string \<Rightarrow> (claims \<times> string) option" where
  "grant_ready R L C st env s job request b tl0 destination =
     (case aiTaskLookup (shift_faults 3 (flt env)) s job of
        None \<Rightarrow> None
      | Some t \<Rightarrow>
          (if ti_status t \<noteq> ''running'' \<or> \<not> aiTaskAuthorized (flt env 5) s t then None
           else case vaultClaimsTx R (sl_grants L) C st (flt env 6) (flt env 7) s (now env) request of
             None \<Rightarrow> None
           | Some (c, used) \<Rightarrow>
               (if used \<noteq> 0 then None
                else case (if flt env 8 then None else get_row pr_id request (policy_requests s)) of
                  None \<Rightarrow> None
                | Some r \<Rightarrow>
                    (if pr_status r \<noteq> ''dispatched'' \<or> pr_name r \<noteq> tl_name tl0 \<or> pr_job r \<noteq> job \<or> \<not> claims_bound c r t tl0 destination
                     then None
                     else case vaultResourceAuthorized (flt env 9) (flt env 10) s t (tl_resource tl0) of
                       None \<Rightarrow> None
                     | Some label \<Rightarrow>
                         (if (case b of None \<Rightarrow> False | Some x \<Rightarrow> bo_label x \<noteq> label \<or> bo_destination x \<noteq> destination) then None
                          else Some (c, label))))))"

definition aiVaultTool ::
  "'s runtime \<Rightarrow> 'f storage_lib \<Rightarrow> 'x storage_core \<Rightarrow> storage_state option \<Rightarrow> ai_section \<Rightarrow> env \<Rightarrow> 'x storage_db_scheme \<Rightarrow> ident \<Rightarrow>
    ident \<Rightarrow> boundary option \<Rightarrow> tool \<Rightarrow> bytes \<Rightarrow> string option \<times> boundary option \<times> 'x storage_db_scheme" where
  "aiVaultTool R L C st settings env s job request b tl0 args =
     (if request = [] then (None, b, s)
      else case st of
        None \<Rightarrow> (None, b, s)
      | Some v \<Rightarrow>
          (let destination = snd (policyProvider R (flt env) s job settings) in
           case (if flt env 2 then None else grant_ready R L C st env s job request b tl0 destination) of
             None \<Rightarrow> (None, b, s)
           | Some (c, label) \<Rightarrow>
               (if flt env 11 \<or> flt env 12
                   \<or> count_rows (\<lambda>g. sg_nonce g = cl_nonce c \<and> sg_used g = 0 \<and> \<not> sg_revoked g) (storage_grants s) \<noteq> 1
                then (None, b, s)
                else let s1 = s\<lparr>storage_grants := use_storage_grant (now env) (cl_nonce c) (storage_grants s)\<rparr> in
                  (vaultQuery (ss_vault v) L (shift_faults 13 (flt env)) s1 (tl_resource tl0) (tl_action tl0) args
                     (st_results (set_ai_storage (rt_settings R))),
                   Some (extend_boundary b label destination request), s1))))"

subsection \<open>What was retrieved stays inside\<close>

definition released ::
  "'s runtime \<Rightarrow> 'f storage_lib \<Rightarrow> 'x storage_core \<Rightarrow> storage_state option \<Rightarrow> faults \<Rightarrow> time \<Rightarrow> 'x storage_db_scheme \<Rightarrow> task_identity \<Rightarrow>
    boundary \<Rightarrow> ident \<Rightarrow> bool" where
  "released R L C st f t s ti b request \<longleftrightarrow>
     (case vaultClaimsTx R (sl_grants L) C st (f 0) (f 1) s t request of
        None \<Rightarrow> False
      | Some (c, used) \<Rightarrow> used \<noteq> 0 \<and> cl_destination c = bo_destination b \<and> same_source c ti
          \<and> vaultResourceAuthorized (f 2) (f 3) s ti (cl_resource c) = Some (bo_label b))"

fun release_all ::
  "'s runtime \<Rightarrow> 'f storage_lib \<Rightarrow> 'x storage_core \<Rightarrow> storage_state option \<Rightarrow> faults \<Rightarrow> time \<Rightarrow> 'x storage_db_scheme \<Rightarrow> task_identity \<Rightarrow>
    boundary \<Rightarrow> nat \<Rightarrow> ident list \<Rightarrow> bool" where
  "release_all R L C st f t s ti b n [] = True"
| "release_all R L C st f t s ti b n (i # is) =
     (released R L C st (shift_faults n f) t s ti b i \<and> release_all R L C st f t s ti b (n + 4) is)"

text \<open>Whether a call of the kind \<open>action\<close> to \<open>destination\<close> may be made while the boundary is up.\<close>

definition aiVaultRelease ::
  "'s runtime \<Rightarrow> 'f storage_lib \<Rightarrow> 'x storage_core \<Rightarrow> storage_state option \<Rightarrow> faults \<Rightarrow> time \<Rightarrow> 'x storage_db_scheme \<Rightarrow> ident \<Rightarrow>
    boundary option \<Rightarrow> string \<Rightarrow> string \<Rightarrow> bool" where
  "aiVaultRelease R L C st f t s job b action destination =
     (case b of
        None \<Rightarrow> True
      | Some x \<Rightarrow>
          (if action \<noteq> ''provider'' \<and> action \<noteq> ''storage'' then False
           else if action = ''provider'' \<and> destination \<noteq> bo_destination x then False
           else if f 0 then False
           else case aiTaskLookup (shift_faults 1 f) s job of
             None \<Rightarrow> False
           | Some ti \<Rightarrow> aiTaskAuthorized (f 3) s ti \<and> release_all R L C st f t s ti x 4 (bo_requests x)))"

definition used_grants :: "'x storage_db_scheme \<Rightarrow> ident \<Rightarrow> ident list" where
  "used_grants s job = [sg_request g. g \<leftarrow> storage_grants s, r \<leftarrow> policy_requests s, pr_id r = sg_request g \<and> pr_job r = job \<and> sg_used g > 0]"

text \<open>The context that is kept for the next jobs: nothing when something was retrieved.\<close>

definition aiVaultContextFilter :: "bool \<Rightarrow> 'x storage_db_scheme \<Rightarrow> ident \<Rightarrow> turn list \<Rightarrow> turn list option" where
  "aiVaultContextFilter fail s job turns = (if fail then None else if used_grants s job \<noteq> [] then Some [] else Some turns)"

fun final_all ::
  "'s runtime \<Rightarrow> 'f storage_lib \<Rightarrow> 'x storage_core \<Rightarrow> storage_state option \<Rightarrow> faults \<Rightarrow> time \<Rightarrow> 'x storage_db_scheme \<Rightarrow> task_identity \<Rightarrow>
    nat \<Rightarrow> ident list \<Rightarrow> bool" where
  "final_all R L C st f t s ti n [] = True"
| "final_all R L C st f t s ti n (i # is) =
     ((case vaultClaimsTx R (sl_grants L) C st (f n) (f (n + 1)) s t i of
         None \<Rightarrow> False
       | Some (c, used) \<Rightarrow> same_source c ti \<and> vaultResourceAuthorized (f (n + 2)) (f (n + 3)) s ti (cl_resource c) \<noteq> None)
      \<and> final_all R L C st f t s ti (n + 4) is)"

definition aiVaultValidateFinal ::
  "'s runtime \<Rightarrow> 'f storage_lib \<Rightarrow> 'x storage_core \<Rightarrow> storage_state option \<Rightarrow> faults \<Rightarrow> time \<Rightarrow> 'x storage_db_scheme \<Rightarrow> ident \<Rightarrow> bool" where
  "aiVaultValidateFinal R L C st f t s job =
     (if f 0 then False
      else if used_grants s job = [] then True
      else case aiTaskLookup (shift_faults 1 f) s job of
        None \<Rightarrow> False
      | Some ti \<Rightarrow> final_all R L C st f t s ti 3 (used_grants s job))"

subsection \<open>MCP for administrators\<close>

text \<open>The parameters as they are decoded: the protocol version, and the name of a tool with its resource and other arguments.\<close>

record mcp_input =
  mi_version :: string
  mi_method :: string
  mi_protocol :: "string option"
  mi_call :: "(string \<times> string option \<times> bytes) option"

datatype mcp_reply = McpServer string | McpAccepted | McpTools "string list" | McpContent string bool | McpUnknown

definition aiVaultMCP ::
  "'s runtime \<Rightarrow> 'f storage_lib \<Rightarrow> vault \<Rightarrow> env \<Rightarrow> 'v vault_db_scheme \<Rightarrow> mcp_input body \<Rightarrow> (mcp_reply, 'v vault_db_scheme) outcome" where
  "aiVaultMCP R L V env s b =
     (case Decode b of
        Inl m \<Rightarrow> Error 400 m s
      | Inr i \<Rightarrow>
          (if mi_version i \<noteq> ''2.0'' then Error 400 ''invalid RPC version'' s
           else if mi_method i = ''initialize'' then
             (case mi_protocol i of
                Some p \<Rightarrow> (if p \<in> {''2025-03-26'', ''2025-06-18''} then (Reply 200 (McpServer p), [], s) else Error 400 ''unsupported MCP version'' s)
              | None \<Rightarrow> Error 400 ''unsupported MCP version'' s)
           else if mi_method i = ''notifications/initialized'' then (Reply 202 McpAccepted, [], s)
           else if mi_method i = ''tools/list'' then (Reply 200 (McpTools grant_actions), [], s)
           else if mi_method i = ''tools/call'' then
             (case mi_call i of
                None \<Rightarrow> Error 400 ''invalid tool call'' s
              | Some (name, None, args) \<Rightarrow> Error 400 ''resource required'' s
              | Some (name, Some rid, args) \<Rightarrow>
                  (case vaultQuery V L (flt env) s rid name args (st_results (set_ai_storage (rt_settings R))) of
                     None \<Rightarrow> (Reply 200 (McpContent ''storage operation rejected'' True), [], s)
                   | Some r \<Rightarrow> (Reply 200 (McpContent r False), [], s)))
           else (Reply 200 McpUnknown, [], s)))"

end
