(* ===== verification/Usage.thy ===== *)
theory Usage
  imports Policy
begin

text \<open>
  \<open>internal/modules/ai_policy_usage.go\<close>: the counters that a model provider reports with a response or with the events of a stream,
  read strictly. The counters of an event are cumulative: they replace what was read before. Two JSON readers are parameters:
  \<open>ul_object\<close> reads one object (\<open>Some None\<close> is \<open>null\<close>), \<open>ul_number\<close> gives the spelling of one number.
\<close>

record usage_lib =
  ul_object :: "bytes \<Rightarrow> (string \<times> bytes) list option option"
  ul_number :: "bytes \<Rightarrow> string option"

definition aiPolicyMaxUsageCounter :: int where
  "aiPolicyMaxUsageCounter = 10000000"

definition no_usage :: usage where
  "no_usage = \<lparr>us_input = 0, us_output = 0, us_cache_read = 0, us_cache_write = 0, us_known = False, us_input_known = False,
     us_output_known = False\<rparr>"

text \<open>A raw value of an object is a JSON value, around which only these blanks can stand.\<close>

definition json_blank :: "char \<Rightarrow> bool" where
  "json_blank c \<longleftrightarrow> byte c \<in> {9, 10, 13, 32}"

definition isJSONNull :: "bytes \<Rightarrow> bool" where
  "isJSONNull raw \<longleftrightarrow> rev (dropWhile json_blank (rev (dropWhile json_blank raw))) = ''null''"

subsection \<open>Counters\<close>

definition aiPolicyStrictCounter :: "usage_lib \<Rightarrow> bytes \<Rightarrow> int option" where
  "aiPolicyStrictCounter L raw =
     (case ul_number L raw of
        None \<Rightarrow> None
      | Some t \<Rightarrow>
          (if t = [] \<or> hd t = CHR ''-'' \<or> list_ex (\<lambda>c. c \<in> {CHR ''.'', CHR ''e'', CHR ''E''}) t then None
           else case ParseInt t of (v, err) \<Rightarrow>
             (if err \<or> v < 0 \<or> v > aiPolicyMaxUsageCounter then None else Some v)))"

text \<open>A counter that is absent is no error.\<close>

definition aiPolicyCounter :: "usage_lib \<Rightarrow> (string \<times> bytes) list \<Rightarrow> string \<Rightarrow> string + int option" where
  "aiPolicyCounter L kv name =
     (case map_of kv name of
        None \<Rightarrow> Inr None
      | Some raw \<Rightarrow>
          (case aiPolicyStrictCounter L raw of
             None \<Rightarrow> Inl (''invalid provider usage '' @ name)
           | Some v \<Rightarrow> Inr (Some v)))"

fun aiPolicyFirstCounter :: "usage_lib \<Rightarrow> (string \<times> bytes) list \<Rightarrow> string list \<Rightarrow> string + int option" where
  "aiPolicyFirstCounter L kv [] = Inr None"
| "aiPolicyFirstCounter L kv (n # ns) =
     (if map_of kv n \<noteq> None then aiPolicyCounter L kv n else aiPolicyFirstCounter L kv ns)"

fun usage_sum :: "int \<Rightarrow> int list \<Rightarrow> int option" where
  "usage_sum acc [] = Some acc"
| "usage_sum acc (v # vs) = (if v < 0 \<or> v > aiPolicyMaxUsageCounter - acc then None else usage_sum (acc + v) vs)"

definition aiPolicyUsageAdd :: "int list \<Rightarrow> int option" where
  "aiPolicyUsageAdd vs = usage_sum 0 vs"

text \<open>A counter that was seen replaces the old one.\<close>

definition seen_or :: "int option \<Rightarrow> int \<Rightarrow> int" where
  "seen_or c old = (case c of None \<Rightarrow> old | Some v \<Rightarrow> v)"

definition later :: "'a option \<Rightarrow> 'a option \<Rightarrow> 'a option" where
  "later a b = (case b of None \<Rightarrow> a | Some v \<Rightarrow> Some v)"

definition mark_known :: "bool \<Rightarrow> usage \<Rightarrow> usage" where
  "mark_known final u = (if final \<and> us_input_known u \<and> us_output_known u then u\<lparr>us_known := True\<rparr> else u)"

subsection \<open>The providers\<close>

text \<open>The details of the prompt, if they are there, take precedence over the two cache counters.\<close>

definition openai_cache :: "usage_lib \<Rightarrow> (string \<times> bytes) list \<Rightarrow> int option \<Rightarrow> int option \<Rightarrow> string + int option \<times> int option" where
  "openai_cache L kv rd wr =
     (case map_of kv ''prompt_tokens_details'' of
        None \<Rightarrow> Inr (rd, wr)
      | Some raw \<Rightarrow>
          (case ul_object L raw of
             Some (Some details) \<Rightarrow>
               (case aiPolicyCounter L details ''cached_tokens'' of
                  Inl e \<Rightarrow> Inl e
                | Inr cached \<Rightarrow>
                    (case aiPolicyCounter L details ''cache_creation_input_tokens'' of
                       Inl e \<Rightarrow> Inl e
                     | Inr created \<Rightarrow> Inr (later rd cached, later wr created)))
           | _ \<Rightarrow> Inl ''invalid provider usage prompt details''))"

definition aiPolicyReadOpenAIUsage :: "usage_lib \<Rightarrow> (string \<times> bytes) list \<Rightarrow> usage \<Rightarrow> bool \<Rightarrow> string + usage" where
  "aiPolicyReadOpenAIUsage L kv u final =
     (case aiPolicyFirstCounter L kv [''prompt_tokens'', ''input_tokens''] of
        Inl e \<Rightarrow> Inl e
      | Inr inp \<Rightarrow>
     (case aiPolicyFirstCounter L kv [''completion_tokens'', ''output_tokens''] of
        Inl e \<Rightarrow> Inl e
      | Inr out \<Rightarrow>
     (case aiPolicyCounter L kv ''cache_read_input_tokens'' of
        Inl e \<Rightarrow> Inl e
      | Inr rd0 \<Rightarrow>
     (case aiPolicyCounter L kv ''cache_creation_input_tokens'' of
        Inl e \<Rightarrow> Inl e
      | Inr wr0 \<Rightarrow>
     (case openai_cache L kv rd0 wr0 of
        Inl e \<Rightarrow> Inl e
      | Inr (rd, wr) \<Rightarrow> Inr (mark_known final (u\<lparr>us_input := seen_or inp (us_input u), us_input_known := us_input_known u \<or> inp \<noteq> None,
          us_output := seen_or out (us_output u), us_output_known := us_output_known u \<or> out \<noteq> None,
          us_cache_read := seen_or rd (us_cache_read u), us_cache_write := seen_or wr (us_cache_write u)\<rparr>)))))))"

text \<open>
  Anthropic counts the cached parts of the input apart; the total is kept. The base that an earlier event reported is recovered
  from the total when only the parts change.
\<close>

definition anthropic_input :: "usage \<Rightarrow> int option \<Rightarrow> int option \<Rightarrow> int option \<Rightarrow> string + usage" where
  "anthropic_input u inp rd wr =
     (let u1 = u\<lparr>us_input_known := us_input_known u \<or> inp \<noteq> None, us_cache_read := seen_or rd (us_cache_read u),
            us_cache_write := seen_or wr (us_cache_write u)\<rparr> in
      if inp = None \<and> \<not> (us_input_known u1 \<and> (rd \<noteq> None \<or> wr \<noteq> None)) then Inr u1
      else let base = (case inp of Some v \<Rightarrow> v | None \<Rightarrow> us_input u - us_cache_read u - us_cache_write u) in
        if inp = None \<and> base < 0 then Inl ''invalid provider usage input total''
        else case aiPolicyUsageAdd [base, us_cache_read u1, us_cache_write u1] of
          None \<Rightarrow> Inl ''provider usage input total out of range''
        | Some total' \<Rightarrow> Inr (u1\<lparr>us_input := total'\<rparr>))"

definition aiPolicyReadAnthropicUsage :: "usage_lib \<Rightarrow> (string \<times> bytes) list \<Rightarrow> usage \<Rightarrow> bool \<Rightarrow> string + usage" where
  "aiPolicyReadAnthropicUsage L kv u final =
     (case aiPolicyCounter L kv ''input_tokens'' of
        Inl e \<Rightarrow> Inl e
      | Inr inp \<Rightarrow>
     (case aiPolicyCounter L kv ''output_tokens'' of
        Inl e \<Rightarrow> Inl e
      | Inr out \<Rightarrow>
     (case aiPolicyCounter L kv ''cache_read_input_tokens'' of
        Inl e \<Rightarrow> Inl e
      | Inr rd \<Rightarrow>
     (case aiPolicyCounter L kv ''cache_creation_input_tokens'' of
        Inl e \<Rightarrow> Inl e
      | Inr wr \<Rightarrow>
     (case anthropic_input u inp rd wr of
        Inl e \<Rightarrow> Inl e
      | Inr u1 \<Rightarrow> Inr (mark_known final (if out \<noteq> None \<and> final then u1\<lparr>us_output := seen_or out (us_output u1), us_output_known := True\<rparr>
          else u1)))))))"

text \<open>The raw usage of an envelope; Anthropic has it in the message of the first event of a stream, too.\<close>

definition usage_raw :: "usage_lib \<Rightarrow> string \<Rightarrow> (string \<times> bytes) list \<Rightarrow> string + bytes option" where
  "usage_raw L provider envelope =
     (case map_of envelope ''usage'' of
        Some raw \<Rightarrow> Inr (Some raw)
      | None \<Rightarrow>
          (if provider \<noteq> ''anthropic'' then Inr None
           else case map_of envelope ''message'' of
             None \<Rightarrow> Inr None
           | Some m \<Rightarrow>
               (if isJSONNull m then Inr None
                else case ul_object L m of
                  Some (Some kv) \<Rightarrow> Inr (map_of kv ''usage'')
                | _ \<Rightarrow> Inl ''invalid provider usage message'')))"

definition aiPolicyReadUsage :: "usage_lib \<Rightarrow> string \<Rightarrow> bytes \<Rightarrow> usage \<Rightarrow> bool \<Rightarrow> string + usage" where
  "aiPolicyReadUsage L provider data u final =
     (case ul_object L data of
        None \<Rightarrow> Inl ''invalid provider usage event''
      | Some None \<Rightarrow> Inr u
      | Some (Some envelope) \<Rightarrow>
          (case usage_raw L provider envelope of
             Inl e \<Rightarrow> Inl e
           | Inr None \<Rightarrow> Inr u
           | Inr (Some raw) \<Rightarrow>
               (if isJSONNull raw then Inr u
                else case ul_object L raw of
                  Some (Some kv) \<Rightarrow>
                    (if provider = ''openai'' then aiPolicyReadOpenAIUsage L kv u final
                     else if provider = ''anthropic'' then aiPolicyReadAnthropicUsage L kv u final
                     else Inl ''unknown provider usage'')
                | _ \<Rightarrow> Inl ''invalid provider usage'')))"

subsection \<open>What is read stays in range\<close>

definition in_counter :: "int \<Rightarrow> bool" where
  "in_counter v \<longleftrightarrow> 0 \<le> v \<and> v \<le> aiPolicyMaxUsageCounter"

definition usage_ok :: "usage \<Rightarrow> bool" where
  "usage_ok u \<longleftrightarrow> in_counter (us_input u) \<and> in_counter (us_output u) \<and> in_counter (us_cache_read u) \<and> in_counter (us_cache_write u)
     \<and> (us_known u \<longrightarrow> us_input_known u \<and> us_output_known u)"

text \<open>The total of Anthropic's input contains its cached parts.\<close>

definition parts_ok :: "usage \<Rightarrow> bool" where
  "parts_ok u \<longleftrightarrow> (us_input_known u \<longrightarrow> us_cache_read u + us_cache_write u \<le> us_input u)"

definition ranged :: "int option \<Rightarrow> bool" where
  "ranged c \<longleftrightarrow> (case c of None \<Rightarrow> True | Some v \<Rightarrow> in_counter v)"

lemma aiPolicyCounter_range: "aiPolicyCounter L kv n = Inr c \<Longrightarrow> ranged c"
  by (auto simp: aiPolicyCounter_def aiPolicyStrictCounter_def in_counter_def ranged_def split: option.splits if_splits prod.splits)

lemma aiPolicyFirstCounter_range: "aiPolicyFirstCounter L kv ns = Inr c \<Longrightarrow> ranged c"
  by (induction ns) (auto simp: ranged_def [of None] split: if_splits dest: aiPolicyCounter_range)

lemma usage_sum_bounds:
  "usage_sum acc vs = Some v \<Longrightarrow> v = acc + sum_list vs \<and> list_all ((\<le>) 0) vs \<and> (acc \<le> aiPolicyMaxUsageCounter \<longrightarrow> v \<le> aiPolicyMaxUsageCounter)"
proof (induction vs arbitrary: acc)
  case (Cons a vs)
  then have "0 \<le> a" "a \<le> aiPolicyMaxUsageCounter - acc" "usage_sum (acc + a) vs = Some v" by (auto split: if_splits)
  with Cons.IH [of "acc + a"] show ?case by auto
qed simp

lemma seen_or_range: "ranged c \<Longrightarrow> in_counter old \<Longrightarrow> in_counter (seen_or c old)"
  by (auto simp: seen_or_def ranged_def split: option.splits)

lemma openai_cache_range: "openai_cache L kv rd0 wr0 = Inr (rd, wr) \<Longrightarrow> ranged rd0 \<Longrightarrow> ranged wr0 \<Longrightarrow> ranged rd \<and> ranged wr"
  unfolding openai_cache_def later_def by (auto split: option.splits sum.splits dest: aiPolicyCounter_range)

lemma mark_known_ok: "usage_ok u \<Longrightarrow> usage_ok (mark_known final u)"
  by (simp add: usage_ok_def mark_known_def)

lemma mark_known_parts [simp]: "parts_ok (mark_known final u) = parts_ok u"
  by (simp add: parts_ok_def mark_known_def)

lemma openai_usage_ok:
  assumes "aiPolicyReadOpenAIUsage L kv u final = Inr u'" "usage_ok u"
  shows "usage_ok u'"
proof -
  obtain inp out rd0 wr0 rd wr where c: "aiPolicyFirstCounter L kv [''prompt_tokens'', ''input_tokens''] = Inr inp"
      "aiPolicyFirstCounter L kv [''completion_tokens'', ''output_tokens''] = Inr out"
      "aiPolicyCounter L kv ''cache_read_input_tokens'' = Inr rd0" "aiPolicyCounter L kv ''cache_creation_input_tokens'' = Inr wr0"
      "openai_cache L kv rd0 wr0 = Inr (rd, wr)"
    and u': "u' = mark_known final (u\<lparr>us_input := seen_or inp (us_input u), us_input_known := us_input_known u \<or> inp \<noteq> None,
          us_output := seen_or out (us_output u), us_output_known := us_output_known u \<or> out \<noteq> None,
          us_cache_read := seen_or rd (us_cache_read u), us_cache_write := seen_or wr (us_cache_write u)\<rparr>)"
    using assms(1) unfolding aiPolicyReadOpenAIUsage_def by (auto split: sum.splits simp del: aiPolicyFirstCounter.simps)
  have "ranged inp" "ranged out" "ranged rd" "ranged wr"
    using c(1,2) aiPolicyFirstCounter_range openai_cache_range [OF c(5)] aiPolicyCounter_range c(3,4) by blast+
  with assms(2) show ?thesis unfolding u'
    by (intro mark_known_ok) (auto simp: usage_ok_def intro!: seen_or_range)
qed

lemma anthropic_input_ok:
  assumes "anthropic_input u inp rd wr = Inr u1" "usage_ok u" "parts_ok u" "ranged inp" "ranged rd" "ranged wr"
  shows "usage_ok u1 \<and> parts_ok u1"
proof -
  have r: "in_counter (seen_or rd (us_cache_read u))" "in_counter (seen_or wr (us_cache_write u))"
    using assms(2,5,6) by (auto simp: usage_ok_def intro!: seen_or_range)
  show ?thesis
  proof (cases "inp = None \<and> \<not> (us_input_known u \<and> (rd \<noteq> None \<or> wr \<noteq> None))")
    case True
    with assms(1) have "u1 = u\<lparr>us_input_known := us_input_known u \<or> inp \<noteq> None, us_cache_read := seen_or rd (us_cache_read u),
            us_cache_write := seen_or wr (us_cache_write u)\<rparr>" by (auto simp: anthropic_input_def Let_def)
    with r assms(2,3) True show ?thesis by (auto simp: usage_ok_def parts_ok_def seen_or_def)
  next
    case False
    define base where "base = (case inp of Some v \<Rightarrow> v | None \<Rightarrow> us_input u - us_cache_read u - us_cache_write u)"
    obtain total' where t: "aiPolicyUsageAdd [base, seen_or rd (us_cache_read u), seen_or wr (us_cache_write u)] = Some total'"
      and u1: "u1 = u\<lparr>us_input_known := us_input_known u \<or> inp \<noteq> None, us_cache_read := seen_or rd (us_cache_read u),
            us_cache_write := seen_or wr (us_cache_write u), us_input := total'\<rparr>"
      using assms(1) False unfolding anthropic_input_def base_def [symmetric] Let_def
      by (auto split: if_splits option.splits)
    have "total' = base + seen_or rd (us_cache_read u) + seen_or wr (us_cache_write u)" "0 \<le> base" "total' \<le> aiPolicyMaxUsageCounter"
      using usage_sum_bounds [OF t [unfolded aiPolicyUsageAdd_def]] by (auto simp: aiPolicyMaxUsageCounter_def)
    then show ?thesis unfolding u1 using r assms(2,3) by (auto simp: usage_ok_def parts_ok_def in_counter_def)
  qed
qed

lemma anthropic_usage_ok:
  assumes "aiPolicyReadAnthropicUsage L kv u final = Inr u'" "usage_ok u" "parts_ok u"
  shows "usage_ok u' \<and> parts_ok u'"
proof -
  obtain inp out rd wr u1 where c: "aiPolicyCounter L kv ''input_tokens'' = Inr inp" "aiPolicyCounter L kv ''output_tokens'' = Inr out"
      "aiPolicyCounter L kv ''cache_read_input_tokens'' = Inr rd" "aiPolicyCounter L kv ''cache_creation_input_tokens'' = Inr wr"
      "anthropic_input u inp rd wr = Inr u1"
    and u': "u' = mark_known final (if out \<noteq> None \<and> final then u1\<lparr>us_output := seen_or out (us_output u1), us_output_known := True\<rparr> else u1)"
    using assms(1) unfolding aiPolicyReadAnthropicUsage_def by (auto split: sum.splits)
  have ok: "usage_ok u1" "parts_ok u1"
    using anthropic_input_ok [OF c(5) assms(2,3)] aiPolicyCounter_range c(1,3,4) by blast+
  have "in_counter (seen_or out (us_output u1))"
    using ok aiPolicyCounter_range [OF c(2)] by (auto simp: usage_ok_def intro!: seen_or_range)
  then have "usage_ok (if out \<noteq> None \<and> final then u1\<lparr>us_output := seen_or out (us_output u1), us_output_known := True\<rparr> else u1)"
    using ok by (auto simp: usage_ok_def)
  with ok(2) show ?thesis unfolding u' by (intro conjI mark_known_ok) (simp_all, simp_all add: parts_ok_def)
qed

lemma read_usage_ok:
  assumes "aiPolicyReadUsage L provider data u final = Inr u'" "usage_ok u" "provider = ''anthropic'' \<Longrightarrow> parts_ok u"
  shows "usage_ok u' \<and> (provider = ''anthropic'' \<longrightarrow> parts_ok u')"
proof (cases "u' = u")
  case False
  then obtain kv where "(provider = ''openai'' \<and> aiPolicyReadOpenAIUsage L kv u final = Inr u')
      \<or> (provider = ''anthropic'' \<and> aiPolicyReadAnthropicUsage L kv u final = Inr u')"
    using assms(1) unfolding aiPolicyReadUsage_def by (auto split: option.splits sum.splits if_splits)
  with assms(2,3) openai_usage_ok anthropic_usage_ok show ?thesis by auto
qed (use assms in simp)

end
