(* ===== verification/PolicyRun.thy ===== *)
theory PolicyRun
  imports Boundary Usage
begin

text \<open>
  \<open>internal/modules/ai_policy_runtime.go\<close>: the conversation of a job under the policy. Every question to the provider and every tool
  call is an effect of its own: it is requested, approved where that is required, dispatched, made under its ticket and settled.
  The state is saved with each request, and a job that waited for an approval goes on from there. The provider, the other tools, the
  flush of the streamed progress and two JSON readers are the record \<open>policy_externals\<close>; the cancellation of a context is not modelled.
\<close>

subsection \<open>The state of a conversation\<close>

record policy_state =
  co_version :: int
  co_chat :: ident
  co_message :: ident
  co_source_user :: ident
  co_source_device :: ident
  co_user :: ident
  co_device :: ident
  co_epoch :: int
  co_session :: int
  co_turns :: "turn list"
  co_step :: int
  co_next :: int
  co_calls :: "call list"
  co_needed :: bool
  co_boundary :: "boundary option"

text \<open>An absent list of calls is null, an absent boundary is left out.\<close>

definition boundary_json :: "boundary \<Rightarrow> string" where
  "boundary_json b = json_object [json_member ''label'' (json_string (bo_label b)), json_member ''destination'' (json_string (bo_destination b)),
     json_member ''requests'' (json_array (map json_string (bo_requests b)))]"

definition state_json :: "policy_state \<Rightarrow> bytes" where
  "state_json c = json_object
     ([json_member ''version'' (dec_int (co_version c)), json_member ''chat_id'' (json_string (co_chat c)),
       json_member ''source_message'' (json_string (co_message c)), json_member ''source_user'' (json_string (co_source_user c)),
       json_member ''source_device'' (json_string (co_source_device c)), json_member ''ai_user'' (json_string (co_user c)),
       json_member ''ai_device'' (json_string (co_device c)), json_member ''epoch'' (dec_int (co_epoch c)),
       json_member ''session_version'' (dec_int (co_session c)), json_member ''turns'' (turns_json (co_turns c)),
       json_member ''step'' (dec_int (co_step c)), json_member ''next_call'' (dec_int (co_next c)),
       json_member ''calls'' (if co_calls c = [] then ''null'' else json_array (map call_json (co_calls c))),
       json_member ''provider_needed'' (json_bool (co_needed c))]
      @ (case co_boundary c of None \<Rightarrow> [] | Some b \<Rightarrow> [json_member ''storage_boundary'' (boundary_json b)]))"

record 's policy_externals =
  px_provider :: "('s \<Rightarrow> turn list \<Rightarrow> answer option \<times> usage \<times> 's) option"  \<comment> \<open>the usage may be known when the answer is refused\<close>
  px_flush :: "'s \<Rightarrow> bool \<times> 's"
  px_value :: "bytes \<Rightarrow> json_value option"      \<comment> \<open>the value of a text, with all members of its objects\<close>
  px_state :: "bytes \<Rightarrow> policy_state option"   \<comment> \<open>decode a continuation, no unknown fields\<close>

text \<open>What happens outside: the store in which the boundary was checked, the store and the ticket of the call.\<close>

datatype 's policy_call =
    PolicyAsk 's 's ident string "boundary option" "turn list"
  | PolicyTool 's 's ident tool "boundary option" call

record 's run =
  rn_store :: 's
  rn_effects :: "effect list"
  rn_calls :: "'s policy_call list"

definition run_db :: "'s \<Rightarrow> effect list \<Rightarrow> 's run \<Rightarrow> 's run" where
  "run_db s es r = r\<lparr>rn_store := s, rn_effects := rn_effects r @ es\<rparr>"

text \<open>What the conversation depends on and does not change.\<close>

record ('f, 'x) policy_world =
  pw_runtime :: "'x storage_db_scheme runtime"
  pw_policy :: policy_lib
  pw_storage :: "'f storage_lib"
  pw_core :: "'x storage_core"
  pw_vault :: "storage_state option"
  pw_tools :: "'x storage_db_scheme externals"
  pw_externals :: "'x storage_db_scheme policy_externals"

subsection \<open>Arguments\<close>

text \<open>At most eight levels below the top, and no name twice in an object.\<close>

fun json_fits :: "nat \<Rightarrow> json_value \<Rightarrow> bool" where
  "json_fits 0 v = False"
| "json_fits (Suc k) (VArray vs) = list_all (json_fits k) vs"
| "json_fits (Suc k) (VObject ms) = (distinct (map fst ms) \<and> list_all (json_fits k) (map snd ms))"
| "json_fits (Suc k) v = True"

definition aiCanonicalArguments :: "'s policy_externals \<Rightarrow> bytes \<Rightarrow> bytes option" where
  "aiCanonicalArguments X raw =
     (case px_value X raw of None \<Rightarrow> None | Some v \<Rightarrow> (if json_fits 9 v then Some (value_json v) else None))"

subsection \<open>Effects\<close>

definition aiMaxOutputTokens :: "ai_section \<Rightarrow> int" where
  "aiMaxOutputTokens a = (if ai_output a > 0 then ai_output a else 2048)"

definition tool_json :: "tool \<Rightarrow> string" where
  "tool_json t = json_object
     [json_member ''Name'' (json_string (tl_name t)), json_member ''Kind'' (json_string (tl_kind t)),
      json_member ''URL'' (json_string (tl_url t)), json_member ''SecretEnv'' (json_string (tl_secret t)),
      json_member ''Methods'' (if tl_methods t = [] then ''null'' else json_array (map json_string (tl_methods t))),
      json_member ''AllowPrivate'' (json_bool (tl_private t)), json_member ''RequireApproval'' (json_bool (tl_approval t)),
      json_member ''CostMicrounits'' (dec_int (tl_cost t)), json_member ''Resource'' (json_string (tl_resource t)),
      json_member ''StorageAction'' (json_string (tl_action t)),
      json_member ''Schema'' (case tl_schema t of None \<Rightarrow> ''null'' | Some ms \<Rightarrow> value_json (VObject ms)),
      json_member ''TimeoutSeconds'' (dec_int (tl_timeout t)), json_member ''MaxResponseBytes'' (dec_int (tl_response t))]"

definition provider_print :: "string \<Rightarrow> ai_section \<Rightarrow> turn list \<Rightarrow> tool list \<Rightarrow> string" where
  "provider_print name a ts tools = json_object
     [json_member ''Version'' ''1'', json_member ''Provider'' (json_string name), json_member ''Model'' (json_string (ai_model a)),
      json_member ''Prompt'' (json_string (ai_prompt a)), json_member ''MaxOutputTokens'' (dec_int (aiMaxOutputTokens a)),
      json_member ''Turns'' (turns_json ts), json_member ''Tools'' (json_array (map tool_json tools))]"

definition tool_print :: "tool \<Rightarrow> bytes \<Rightarrow> string" where
  "tool_print t args = json_object [json_member ''Version'' ''1'', json_member ''Tool'' (tool_json t), json_member ''Arguments'' args]"

definition effect_print :: "policy_state \<Rightarrow> ai_section \<Rightarrow> string \<Rightarrow> string \<Rightarrow> int \<Rightarrow> string" where
  "effect_print c a request destination reserve = json_object
     [json_member ''Version'' ''1'', json_member ''Epoch'' (dec_int (co_epoch c)), json_member ''SessionVersion'' (dec_int (co_session c)),
      json_member ''Request'' request, json_member ''Destination'' (json_string destination), json_member ''Reserve'' (dec_int reserve),
      json_member ''InputPrice'' (dec_int (ai_input_price a)), json_member ''OutputPrice'' (dec_int (ai_output_price a))]"

definition effect_name :: "ident \<Rightarrow> string \<Rightarrow> int \<Rightarrow> int \<Rightarrow> string" where
  "effect_name job action step index = ''qgramm-ai-effect-v1/'' @ job @ ''/'' @ action @ ''/'' @ dec_int step @ ''/'' @ dec_int index"

definition makePolicyEffect ::
  "'z core \<Rightarrow> ident \<Rightarrow> int \<Rightarrow> int \<Rightarrow> string \<Rightarrow> string \<Rightarrow> string \<Rightarrow> string \<Rightarrow> bool \<Rightarrow> int \<Rightarrow> ai_section \<Rightarrow> policy_state \<Rightarrow> policy_effect" where
  "makePolicyEffect C job step index action name destination request required reserve a c =
     \<lparr>pe_id = digest C (effect_name job action step index), pe_job = job, pe_action = action, pe_name = name, pe_destination = destination,
      pe_hash = digest C (effect_print c a request destination reserve), pe_required = required, pe_epoch = co_epoch c,
      pe_session = co_session c, pe_reserve = reserve, pe_input_price = ai_input_price a, pe_output_price = ai_output_price a\<rparr>"

definition provider_effect :: "('f, 'x) policy_world \<Rightarrow> ai_section \<Rightarrow> ident \<Rightarrow> string \<Rightarrow> string \<Rightarrow> tool list \<Rightarrow> policy_state \<Rightarrow> policy_effect" where
  "provider_effect W a job name destination tools c =
     (let p = set_ai_policy (rt_settings (pw_runtime W)) in
      makePolicyEffect (pw_core W) job (co_step c) (- 1) ''provider'' name destination (provider_print name a (co_turns c) tools)
        (po_provider_approval p) (po_reserve p) a c)"

definition tool_destination :: "tool \<Rightarrow> string" where
  "tool_destination t = (if tl_kind t = ''storage'' then ''vault://'' @ tl_resource t else tl_url t)"

definition tool_effect :: "('f, 'x) policy_world \<Rightarrow> ai_section \<Rightarrow> ident \<Rightarrow> tool \<Rightarrow> bytes \<Rightarrow> policy_state \<Rightarrow> policy_effect" where
  "tool_effect W a job t args c = makePolicyEffect (pw_core W) job (co_step c) (co_next c) ''tool'' (tl_name t) (tool_destination t)
     (tool_print t args) (tl_approval t) (tl_cost t) a c"

text \<open>
  An effect from its request on: the flush of the progress, then \<open>aiPolicyBegin\<close>. \<open>Inl\<close> ends the conversation, \<open>Inr\<close> is the ticket.
\<close>

definition begin_effect ::
  "('f, 'x) policy_world \<Rightarrow> env \<Rightarrow> policy_effect \<Rightarrow> policy_state \<Rightarrow> 'x storage_db_scheme run \<Rightarrow>
    (conversation_end + ident) \<times> 'x storage_db_scheme run" where
  "begin_effect W env e c r =
     (case px_flush (pw_externals W) (rn_store r) of
        (False, s1) \<Rightarrow> (Inl ConversationError, run_db s1 [] r)
      | (True, s1) \<Rightarrow>
          (case aiPolicyBegin (pw_runtime W) (pw_policy W) (pw_core W) env s1 e (state_json c) of
             (Refused, es, s2) \<Rightarrow> (Inl ConversationError, run_db s2 es r)
           | (Pending, es, s2) \<Rightarrow> (Inl ApprovalPending, run_db s2 es r)
           | (Dispatched i, es, s2) \<Rightarrow> (Inr i, run_db s2 es r)))"

definition settlePolicyEffect ::
  "('f, 'x) policy_world \<Rightarrow> env \<Rightarrow> ident \<Rightarrow> usage \<Rightarrow> bool \<Rightarrow> 'x storage_db_scheme run \<Rightarrow> bool \<times> 'x storage_db_scheme run" where
  "settlePolicyEffect W env i u success r =
     (case aiPolicySettle (pw_policy W) (pw_core W) (set_ai_policy (rt_settings (pw_runtime W))) env (rn_store r) i u
         (if success then ''succeeded'' else ''uncertain'') of
        (fine, s1) \<Rightarrow> (fine, run_db s1 [] r))"

definition storage_on :: "('f, 'x) policy_world \<Rightarrow> bool" where
  "storage_on W \<longleftrightarrow> feat_ai_storage (rt_features (pw_runtime W))"

definition may_release ::
  "('f, 'x) policy_world \<Rightarrow> env \<Rightarrow> 'x storage_db_scheme \<Rightarrow> ident \<Rightarrow> boundary option \<Rightarrow> string \<Rightarrow> string \<Rightarrow> bool" where
  "may_release W env s job b action destination \<longleftrightarrow>
     storage_on W \<longrightarrow> aiVaultRelease (pw_runtime W) (pw_storage W) (pw_core W) (pw_vault W) (flt env) (now env) s job b action destination"

subsection \<open>Asking the provider\<close>

text \<open>
  The stages number their environments: stage \<open>n\<close> uses \<open>es n 0\<close> for the checks, \<open>es n 1\<close> to begin, \<open>es n 2\<close> to settle, \<open>es n 3\<close> for a
  tool and its log.
\<close>

definition ask_provider ::
  "('f, 'x) policy_world \<Rightarrow> ('x storage_db_scheme \<Rightarrow> turn list \<Rightarrow> answer option \<times> usage \<times> 'x storage_db_scheme) \<Rightarrow> ai_section \<Rightarrow>
    (nat \<Rightarrow> env) \<Rightarrow> ident \<Rightarrow> tool list \<Rightarrow> policy_state \<Rightarrow> 'x storage_db_scheme run \<Rightarrow>
    (conversation_end + policy_state) \<times> 'x storage_db_scheme run" where
  "ask_provider W ask a es job tools c r =
     (case policyProvider (pw_runtime W) (shift_faults 20 (flt (es 0))) (rn_store r) job a of (name, destination) \<Rightarrow>
       (if \<not> may_release W (shift_env 30 (es 0)) (rn_store r) job (co_boundary c) ''provider'' destination then (Inl ConversationError, r)
        else if name = [] then (Inl ConversationError, r)
        else case begin_effect W (es 1) (provider_effect W a job name destination tools c) c r of
          (Inl end', r1) \<Rightarrow> (Inl end', r1)
        | (Inr i, r1) \<Rightarrow>
            (case ask (rn_store r1) (co_turns c) of (result, u, s2) \<Rightarrow>
              (let r2 = (run_db s2 [] r1)\<lparr>rn_calls := rn_calls r1 @
                     [PolicyAsk (rn_store r) (rn_store r1) i destination (co_boundary c) (co_turns c)]\<rparr> in
               case settlePolicyEffect W (es 2) i u (result \<noteq> None) r2 of
                 (False, r3) \<Rightarrow> (Inl ConversationError, r3)
               | (True, r3) \<Rightarrow>
                   (case result of
                      None \<Rightarrow> (Inl ConversationError, r3)
                    | Some x \<Rightarrow>
                        (if an_calls x = [] then (Inl (Answer (an_text x)), r3)
                         else if length (an_calls x) > 8 then (Inl ConversationError, r3)
                         else (Inr (c\<lparr>co_turns := co_turns c @ [(assistant_turn (an_text x))\<lparr>tu_calls := an_calls x\<rparr>], co_calls := an_calls x,
                             co_next := 0, co_needed := False\<rparr>), r3)))))))"

subsection \<open>Calling a tool\<close>

text \<open>The last turn of the assistant with calls gets exactly the arguments that are forwarded.\<close>

fun rebind_first :: "call list \<Rightarrow> turn list \<Rightarrow> turn list" where
  "rebind_first cs [] = []"
| "rebind_first cs (t # ts) =
     (if tu_role t = ''assistant'' \<and> tu_calls t \<noteq> [] then t\<lparr>tu_calls := cs\<rparr> # ts else t # rebind_first cs ts)"

definition bind_arguments :: "bytes \<Rightarrow> policy_state \<Rightarrow> policy_state" where
  "bind_arguments args c =
     (let cs = (co_calls c)[nat (co_next c) := (co_calls c ! nat (co_next c))\<lparr>ca_arguments := args\<rparr>] in
      c\<lparr>co_calls := cs, co_turns := rev (rebind_first cs (rev (co_turns c)))\<rparr>)"

text \<open>The tools as they run under a ticket: a storage tool is \<open>aiVaultTool\<close>, which moves the boundary.\<close>

definition vault_run ::
  "('f, 'x) policy_world \<Rightarrow> ai_section \<Rightarrow> env \<Rightarrow> ident \<Rightarrow> ident \<Rightarrow> boundary option \<Rightarrow> tool \<Rightarrow> bytes \<Rightarrow> 'x storage_db_scheme \<Rightarrow>
    string option \<times> boundary option \<times> 'x storage_db_scheme" where
  "vault_run W a env job i b t args s =
     aiVaultTool (pw_runtime W) (pw_storage W) (pw_core W) (pw_vault W) a (shift_env 10 env) s job i b t args"

definition ticket_tools :: "('f, 'x) policy_world \<Rightarrow> ai_section \<Rightarrow> env \<Rightarrow> ident \<Rightarrow> ident \<Rightarrow> boundary option \<Rightarrow> 'x storage_db_scheme externals" where
  "ticket_tools W a env job i b = (pw_tools W)\<lparr>ex_policy_active := (i \<noteq> []),
     ex_tool := (\<lambda>t args s. if tl_kind t = ''storage'' then (case vault_run W a env job i b t args s of (res, b', s') \<Rightarrow> (res, s'))
       else ex_tool (pw_tools W) t args s)\<rparr>"

definition boundary_after ::
  "('f, 'x) policy_world \<Rightarrow> ai_section \<Rightarrow> env \<Rightarrow> ident \<Rightarrow> ident \<Rightarrow> boundary option \<Rightarrow> tool \<Rightarrow> bytes \<Rightarrow> 'x storage_db_scheme \<Rightarrow> boundary option" where
  "boundary_after W a env job i b t args s =
     (if tl_kind t = ''storage'' then (case vault_run W a env job i b t args s of (res, b', s') \<Rightarrow> b') else b)"

definition run_tool ::
  "('f, 'x) policy_world \<Rightarrow> ai_section \<Rightarrow> (nat \<Rightarrow> env) \<Rightarrow> ident \<Rightarrow> tool \<Rightarrow> call \<Rightarrow> 'x storage_db_scheme \<Rightarrow> policy_state \<Rightarrow>
    'x storage_db_scheme run \<Rightarrow> (conversation_end + policy_state) \<times> 'x storage_db_scheme run" where
  "run_tool W a es job t call checked c r =
     (case begin_effect W (es 1) (tool_effect W a job t (ca_arguments call) c) c r of
        (Inl end', r1) \<Rightarrow> (Inl end', r1)
      | (Inr i, r1) \<Rightarrow>
          (case aiExecuteTool (pw_runtime W) (ticket_tools W a (es 3) job i (co_boundary c)) (aiLimits a) (flt (es 3) 0) (now (es 3)) job t call
              (rn_store r1) of (result, s2) \<Rightarrow>
            (let b' = boundary_after W a (es 3) job i (co_boundary c) t (ca_arguments call) (rn_store r1);
                 r2 = (run_db s2 [] r1)\<lparr>rn_calls := rn_calls r1 @ [PolicyTool checked (rn_store r1) i t (co_boundary c) call]\<rparr> in
             case settlePolicyEffect W (es 2) i no_usage (result \<noteq> None) r2 of
               (False, r3) \<Rightarrow> (Inl ConversationError, r3)
             | (True, r3) \<Rightarrow>
                 (case result of
                    None \<Rightarrow> (Inl ConversationError, r3)
                  | Some text' \<Rightarrow> (Inr (c\<lparr>co_turns := co_turns c @ [tool_turn call text'], co_next := co_next c + 1, co_boundary := b'\<rparr>), r3)))))"

definition policy_tool ::
  "('f, 'x) policy_world \<Rightarrow> ai_section \<Rightarrow> (nat \<Rightarrow> env) \<Rightarrow> ident \<Rightarrow> tool list \<Rightarrow> policy_state \<Rightarrow> 'x storage_db_scheme run \<Rightarrow>
    (conversation_end + policy_state) \<times> 'x storage_db_scheme run" where
  "policy_tool W a es job tools c r =
     (let call0 = co_calls c ! nat (co_next c); s = rn_store r in
      case aiAuthorizedTool (pw_runtime W) (pw_tools W) (flt (es 0)) s job call0 tools of
        Inl e \<Rightarrow> (Inl ConversationError, r)
      | Inr t \<Rightarrow>
          (if \<not> may_release W (shift_env 30 (es 0)) s job (co_boundary c) (tl_kind t) (tl_url t) then (Inl ConversationError, r)
           else case aiCanonicalArguments (pw_externals W) (ca_arguments call0) of
             None \<Rightarrow> (Inl ConversationError, r)
           | Some args \<Rightarrow>
               (let c1 = bind_arguments args c; call = call0\<lparr>ca_arguments := args\<rparr> in
                case (if tl_kind t = ''storage''
                    then aiVaultPreflight (pw_core W) (es 4) s job (pe_id (tool_effect W a job t args c1)) else (Proceed, [], s)) of
                  (Proceed, ws, s1) \<Rightarrow> run_tool W a es job t call s c1 (run_db s1 ws r)
                | (Paused, ws, s1) \<Rightarrow> (Inl ApprovalPending, run_db s1 ws r)
                | (NotReady, ws, s1) \<Rightarrow> (Inl ConversationError, run_db s1 ws r))))"

text \<open>The calls that are left, \<open>k\<close> of them; \<open>n\<close> is the number of the stage.\<close>

fun policy_tools ::
  "('f, 'x) policy_world \<Rightarrow> ai_section \<Rightarrow> (nat \<Rightarrow> nat \<Rightarrow> env) \<Rightarrow> ident \<Rightarrow> tool list \<Rightarrow> nat \<Rightarrow> nat \<Rightarrow> policy_state \<Rightarrow> 'x storage_db_scheme run \<Rightarrow>
    (conversation_end + policy_state) \<times> 'x storage_db_scheme run" where
  "policy_tools W a es job tools 0 n c r = (Inr c, r)"
| "policy_tools W a es job tools (Suc k) n c r =
     (case policy_tool W a (es n) job tools c r of
        (Inl end', r1) \<Rightarrow> (Inl end', r1)
      | (Inr c1, r1) \<Rightarrow> policy_tools W a es job tools k (Suc n) c1 r1)"

subsection \<open>The loop\<close>

definition context_full :: "ai_section \<Rightarrow> turn list \<Rightarrow> bool" where
  "context_full a ts \<longleftrightarrow> int (length (turns_json ts)) > ai_context a \<or> int (length ts) > ai_turns a"

text \<open>At most \<open>k\<close> more steps.\<close>

fun policy_loop ::
  "('f, 'x) policy_world \<Rightarrow> ('x storage_db_scheme \<Rightarrow> turn list \<Rightarrow> answer option \<times> usage \<times> 'x storage_db_scheme) \<Rightarrow> ai_section \<Rightarrow>
    (nat \<Rightarrow> nat \<Rightarrow> env) \<Rightarrow> ident \<Rightarrow> tool list \<Rightarrow> nat \<Rightarrow> nat \<Rightarrow> policy_state \<Rightarrow> 'x storage_db_scheme run \<Rightarrow>
    conversation_end \<times> 'x storage_db_scheme run" where
  "policy_loop W ask a es job tools 0 n c r = (ConversationError, r)"
| "policy_loop W ask a es job tools (Suc k) n c r =
     (if \<not> aiEffectsAllowed (shift_faults 10 (flt (es n 0))) (rn_store r) job \<or> context_full a (co_turns c) then (ConversationError, r)
      else case (if co_needed c then ask_provider W ask a (es n) job tools c r else (Inr c, r)) of
        (Inl end', r1) \<Rightarrow> (end', r1)
      | (Inr c1, r1) \<Rightarrow>
          (let m = length (co_calls c1) - nat (co_next c1) in
           case policy_tools W a es job tools m (Suc n) c1 r1 of
             (Inl end', r2) \<Rightarrow> (end', r2)
           | (Inr c2, r2) \<Rightarrow> policy_loop W ask a es job tools k (Suc n + m)
               (c2\<lparr>co_step := co_step c2 + 1, co_needed := True, co_calls := [], co_next := 0\<rparr>) r2))"

definition policyIdentity :: "faults \<Rightarrow> 'w ai_db_scheme \<Rightarrow> ident \<Rightarrow> (task_identity \<times> int) option" where
  "policyIdentity f s job =
     (if f 0 then None
      else case aiTaskLookup (shift_faults 1 f) s job of
        None \<Rightarrow> None
      | Some t \<Rightarrow>
          (if ti_status t \<noteq> ''running'' \<or> \<not> aiTaskAuthorized (f 3) s t then None
           else map_option (\<lambda>v. (t, v)) (aiPolicySessionVersion (f 4) s job)))"

definition fresh_state :: "task_identity \<Rightarrow> int \<Rightarrow> turn list \<Rightarrow> policy_state" where
  "fresh_state t version ts = \<lparr>co_version = 1, co_chat = ti_chat t, co_message = ti_source_message t, co_source_user = ti_source_user t,
     co_source_device = ti_source_device t, co_user = ti_user t, co_device = ti_device t, co_epoch = ti_epoch t, co_session = version,
     co_turns = ts, co_step = 0, co_next = 0, co_calls = [], co_needed = True, co_boundary = None\<rparr>"

definition state_valid :: "ai_section \<Rightarrow> task_identity \<Rightarrow> int \<Rightarrow> policy_state \<Rightarrow> bool" where
  "state_valid a t version c \<longleftrightarrow> co_version c = 1 \<and> co_chat c = ti_chat t \<and> co_message c = ti_source_message t
     \<and> co_source_user c = ti_source_user t \<and> co_source_device c = ti_source_device t \<and> co_user c = ti_user t \<and> co_device c = ti_device t
     \<and> co_epoch c = ti_epoch t \<and> co_session c = version \<and> 0 \<le> co_step c \<and> co_step c < ai_steps a
     \<and> 0 \<le> co_next c \<and> co_next c \<le> int (length (co_calls c)) \<and> length (co_calls c) \<le> 8"

text \<open>The state to start with: a fresh one, or the saved one when it belongs to the job as it is now.\<close>

definition start_state ::
  "('f, 'x) policy_world \<Rightarrow> ai_section \<Rightarrow> env \<Rightarrow> ident \<Rightarrow> turn list \<Rightarrow> 'x storage_db_scheme \<Rightarrow> policy_state option" where
  "start_state W a env job turns s =
     (case policyIdentity (flt env) s job of
        None \<Rightarrow> None
      | Some (t, version) \<Rightarrow>
          (if flt env 5 then None
           else case aiPolicySaved (pw_policy W) (pw_core W) (shift_faults 6 (flt env)) s job of
             Inl e \<Rightarrow> None
           | Inr saved \<Rightarrow>
               (if saved = [] then Some (fresh_state t version (aiBoundContext turns a))
                else if length saved > 1048576 then None
                else case px_state (pw_externals W) saved of
                  None \<Rightarrow> None
                | Some c \<Rightarrow> (if state_valid a t version c then Some c else None))))"

definition runAIPolicyConversation ::
  "('f, 'x) policy_world \<Rightarrow> ai_section \<Rightarrow> (nat \<Rightarrow> nat \<Rightarrow> env) \<Rightarrow> ident \<Rightarrow> turn list \<Rightarrow> tool list \<Rightarrow> 'x storage_db_scheme \<Rightarrow>
    conversation_end \<times> 'x storage_db_scheme run" where
  "runAIPolicyConversation W a es job turns tools s =
     (let r = \<lparr>rn_store = s, rn_effects = [], rn_calls = []\<rparr> in
      case px_provider (pw_externals W) of
        None \<Rightarrow> (ConversationError, r)
      | Some ask \<Rightarrow>
          (case start_state W a (es 0 0) job turns s of
             None \<Rightarrow> (ConversationError, r)
           | Some c \<Rightarrow> policy_loop W ask a es job tools (nat (ai_steps a - co_step c)) 1 c r))"

end
