(* ===== verification/StorageProperties.thy ===== *)
theory StorageProperties
  imports AssistantProperties PolicyRun VaultProperties
begin

text \<open>
  Properties of the retrieval of stored documents by assistants and of the conversation under the policy: which grant a retrieval
  needs, how often it may be used, where the retrieved text may go, and that every call to the outside has its own ticket.
\<close>

subsection \<open>What providers report\<close>

text \<open>The usage after the events of a stream, each with whether it may complete the usage.\<close>

fun read_events :: "usage_lib \<Rightarrow> string \<Rightarrow> (bytes \<times> bool) list \<Rightarrow> usage \<Rightarrow> string + usage" where
  "read_events L provider [] u = Inr u"
| "read_events L provider ((data, final) # es) u =
     (case aiPolicyReadUsage L provider data u final of Inl e \<Rightarrow> Inl e | Inr u1 \<Rightarrow> read_events L provider es u1)"

lemma read_events_ok:
  "read_events L provider es u = Inr u' \<Longrightarrow> usage_ok u \<Longrightarrow> parts_ok u \<or> provider \<noteq> ''anthropic'' \<Longrightarrow>
    usage_ok u' \<and> (parts_ok u' \<or> provider \<noteq> ''anthropic'')"
proof (induction es arbitrary: u)
  case (Cons e es)
  obtain data final where e: "e = (data, final)" by (cases e)
  with Cons.prems(1) obtain u1 where u1: "aiPolicyReadUsage L provider data u final = Inr u1" "read_events L provider es u1 = Inr u'"
    by (auto split: sum.splits)
  from read_usage_ok [OF u1(1) Cons.prems(2)] Cons.prems(3) have "usage_ok u1" "parts_ok u1 \<or> provider \<noteq> ''anthropic''" by auto
  with Cons.IH [OF u1(2)] show ?case by blast
qed auto

lemma ceil_rate_reported:
  assumes "in_counter n" "0 \<le> r" "r \<le> 900000000000"
  shows "\<exists>c. aiPolicyCeilRate n r = Some c \<and> 0 \<le> c \<and> c \<le> 9000000000000"
proof (cases "n = 0 \<or> r = 0")
  case True
  with assms show ?thesis by (auto simp: aiPolicyCeilRate_def max_int64_def in_counter_def aiPolicyMaxUsageCounter_def)
next
  case False
  have small: "n \<le> 10000000" "0 < n" "0 < r" using assms False by (auto simp: in_counter_def aiPolicyMaxUsageCounter_def)
  have prod: "n * r \<le> 10000000 * 900000000000" using small assms(3) by (intro mult_mono) auto
  have "n = n * r div r" using small by simp
  also have "\<dots> \<le> (max_int64 - 999999) div r" using prod small by (intro zdiv_mono1) (auto simp: max_int64_def)
  finally have "n \<le> (max_int64 - 999999) div r" .
  moreover have "0 \<le> (n * r + 999999) div 1000000" "(n * r + 999999) div 1000000 \<le> 9000000000000"
    using prod small zdiv_mono1 [of "n * r + 999999" "9000000000000999999" 1000000] by (auto simp: pos_imp_zdiv_nonneg_iff)
  ultimately show ?thesis using small assms by (auto simp: aiPolicyCeilRate_def max_int64_def)
qed

text \<open>However a provider reports its usage over the events of a stream, what was read can be paid: all counters stay between 0 and
  ten million, the cached parts of Anthropic's input are not counted beyond the total, and at prices up to 900000000000 microunits per
  million tokens the cost is defined, where the prices of the configuration may not exceed 1000000000000.\<close>
theorem reported_usage_is_payable:
  assumes "read_events L provider es no_usage = Inr u" "pe_action e = ''provider''"
    "0 \<le> pe_input_price e" "pe_input_price e \<le> 900000000000" "0 \<le> pe_output_price e" "pe_output_price e \<le> 900000000000"
  shows "usage_ok u \<and> (provider = ''anthropic'' \<and> us_input_known u \<longrightarrow> us_cache_read u + us_cache_write u \<le> us_input u)
    \<and> (\<exists>c. aiPolicyCost e u = Some c \<and> 0 \<le> c \<and> c \<le> 18000000000000)"
proof -
  have start: "usage_ok no_usage" "parts_ok no_usage"
    by (simp_all add: usage_ok_def parts_ok_def no_usage_def in_counter_def aiPolicyMaxUsageCounter_def)
  with read_events_ok [OF assms(1)] have ok: "usage_ok u" "parts_ok u \<or> provider \<noteq> ''anthropic''" by blast+
  then have "in_counter (us_input u)" "in_counter (us_output u)" by (simp_all add: usage_ok_def)
  with ceil_rate_reported assms(3-6) obtain a b where
    "aiPolicyCeilRate (us_input u) (pe_input_price e) = Some a" "0 \<le> a" "a \<le> 9000000000000"
    "aiPolicyCeilRate (us_output u) (pe_output_price e) = Some b" "0 \<le> b" "b \<le> 9000000000000" by meson
  then have "\<exists>c. aiPolicyCost e u = Some c \<and> 0 \<le> c \<and> c \<le> 18000000000000"
    using assms(2) by (auto simp: aiPolicyCost_def max_int64_def)
  with ok show ?thesis by (auto simp: parts_ok_def)
qed

text \<open>At the highest price of the configuration the cost of ten million tokens is not defined.\<close>

lemma cost_overflows:
  assumes "pe_action e = ''provider''" "pe_input_price e = maxAIPricingMicrounits" "us_input u = aiPolicyMaxUsageCounter"
  shows "aiPolicyCost e u = None"
proof -
  have "aiPolicyCeilRate aiPolicyMaxUsageCounter maxAIPricingMicrounits = None" by code_simp
  with assms show ?thesis by (simp add: aiPolicyCost_def)
qed

text \<open>Two events of Anthropic: the cached part of the input first, the output with the end of the message.\<close>

definition desk_usage_lib :: usage_lib where
  "desk_usage_lib = \<lparr>ul_object = (\<lambda>b. if b = ''start'' then Some (Some [(''message'', ''m'')]) else if b = ''m'' then Some (Some [(''usage'', ''u1'')])
       else if b = ''u1'' then Some (Some [(''input_tokens'', ''10''), (''cache_read_input_tokens'', ''7'')])
       else if b = ''delta'' then Some (Some [(''usage'', ''u2'')]) else if b = ''u2'' then Some (Some [(''output_tokens'', ''5'')]) else None),
     ul_number = Some\<rparr>"

lemma desk_counters: "aiPolicyStrictCounter desk_usage_lib ''10'' = Some 10" "aiPolicyStrictCounter desk_usage_lib ''7'' = Some 7"
  "aiPolicyStrictCounter desk_usage_lib ''5'' = Some 5"
  by (simp_all add: aiPolicyStrictCounter_def desk_usage_lib_def ParseInt_def aiPolicyMaxUsageCounter_def)

lemma desk_objects: "ul_object desk_usage_lib ''start'' = Some (Some [(''message'', ''m'')])" "ul_object desk_usage_lib ''m'' = Some (Some [(''usage'', ''u1'')])"
  "ul_object desk_usage_lib ''u1'' = Some (Some [(''input_tokens'', ''10''), (''cache_read_input_tokens'', ''7'')])"
  "ul_object desk_usage_lib ''delta'' = Some (Some [(''usage'', ''u2'')])" "ul_object desk_usage_lib ''u2'' = Some (Some [(''output_tokens'', ''5'')])"
  by (simp_all add: desk_usage_lib_def)

lemma desk_not_null: "\<not> isJSONNull ''m''" "\<not> isJSONNull ''u1''" "\<not> isJSONNull ''u2''"
  by code_simp+

theorem reported_usage_is_payable_witness:
  "\<exists>u. read_events desk_usage_lib ''anthropic'' [(''start'', False), (''delta'', True)] no_usage = Inr u \<and> us_known u
     \<and> us_input u = 17 \<and> us_output u = 5 \<and> (\<exists>c. aiPolicyCost ((desk_effect False)\<lparr>pe_action := ''provider'', pe_input_price := 500000, pe_output_price := 7\<rparr>) u = Some c)"
proof -
  have r: "read_events desk_usage_lib ''anthropic'' [(''start'', False), (''delta'', True)] no_usage
    = Inr (no_usage\<lparr>us_input := 17, us_cache_read := 7, us_output := 5, us_known := True, us_input_known := True, us_output_known := True\<rparr>)"
    by (simp add: aiPolicyReadUsage_def usage_raw_def desk_objects desk_not_null aiPolicyReadAnthropicUsage_def aiPolicyCounter_def desk_counters anthropic_input_def
        Let_def seen_or_def aiPolicyUsageAdd_def aiPolicyMaxUsageCounter_def no_usage_def mark_known_def)
  from reported_usage_is_payable [OF r, of "(desk_effect False)\<lparr>pe_action := ''provider'', pe_input_price := 500000, pe_output_price := 7\<rparr>"]
  show ?thesis unfolding r by (auto simp: desk_effect_def)
qed

subsection \<open>What a retrieval needs\<close>

text \<open>
  Who may read a resource for a task: everybody a shared one; a private one its owner, the source user or the AI participant, in a
  direct chat of two members.
\<close>

definition readable_by :: "'v vault_db_scheme \<Rightarrow> task_identity \<Rightarrow> ident \<Rightarrow> bool" where
  "readable_by s t rid \<longleftrightarrow> (\<exists>r \<in> set (resources s). vr_id r = rid \<and> (vr_scope r = ''shared'' \<or>
     (\<exists>c \<in> set (chats s). c_id c = ti_chat t \<and> c_kind c = ''direct'' \<and> count_rows (\<lambda>m. m_chat m = ti_chat t \<and> m_active m) (members s) = 2
        \<and> (vr_scope r = ''user'' \<longrightarrow> vr_owner r = ti_source_user t) \<and> (vr_scope r = ''bot'' \<longrightarrow> vr_owner r = ti_user t))))"

text \<open>A grant of the store for this request, not used before, whose token was signed for exactly this retrieval.\<close>

definition granted_now ::
  "'s runtime \<Rightarrow> 'f storage_lib \<Rightarrow> 'x storage_core \<Rightarrow> storage_state option \<Rightarrow> time \<Rightarrow> 'x storage_db_scheme \<Rightarrow> task_identity \<Rightarrow>
    request_row \<Rightarrow> tool \<Rightarrow> string \<Rightarrow> bool" where
  "granted_now R L C st t s ti r tl0 destination \<longleftrightarrow> (\<exists>g \<in> set (storage_grants s). \<exists>token c. sg_request g = pr_id r \<and> sg_used g = 0
     \<and> \<not> sg_revoked g \<and> sg_nonce g \<notin> set (storage_revocations s)
     \<and> Open (prim C) (eng C) (sg_token g) (grant_aad (sg_nonce g)) = Inr token \<and> vaultVerify R (sl_grants L) st t token = Some c
     \<and> claims_bound c r ti tl0 destination)"

definition retrieval_allowed ::
  "'s runtime \<Rightarrow> 'f storage_lib \<Rightarrow> 'x storage_core \<Rightarrow> storage_state option \<Rightarrow> time \<Rightarrow> 'x storage_db_scheme \<Rightarrow> ident \<Rightarrow> ident \<Rightarrow>
    tool \<Rightarrow> string \<Rightarrow> bool" where
  "retrieval_allowed R L C st t s job request tl0 destination \<longleftrightarrow> (\<exists>ti. aiTaskLookup no_faults s job = Some ti \<and> ti_status ti = ''running''
     \<and> aiTaskAuthorized False s ti \<and> readable_by s ti (tl_resource tl0)
     \<and> (\<exists>r \<in> set (policy_requests s). pr_id r = request \<and> pr_status r = ''dispatched'' \<and> pr_job r = job \<and> pr_name r = tl_name tl0
          \<and> granted_now R L C st t s ti r tl0 destination))"

lemma get_rowD: "get_row f k xs = Some x \<Longrightarrow> x \<in> set xs \<and> f x = k"
  by (auto simp: get_row_def find_Some_iff)

lemma lookup_no_faults: "aiTaskLookup f s job = Some t \<Longrightarrow> aiTaskLookup no_faults s job = Some t"
  by (auto simp: aiTaskLookup_def no_faults_def split: if_splits option.splits)

lemma authorized_no_fault: "aiTaskAuthorized b s t \<Longrightarrow> aiTaskAuthorized False s t"
  by (simp add: aiTaskAuthorized_def)

lemma resource_readable:
  assumes "vaultResourceAuthorized b1 b2 s t rid = Some label"
  shows "readable_by s t rid"
proof -
  obtain r where r: "get_row vr_id rid (resources s) = Some r"
      "\<not> ((vr_scope r = ''user'' \<and> vr_owner r \<noteq> ti_source_user t) \<or> (vr_scope r = ''bot'' \<and> vr_owner r \<noteq> ti_user t))"
      "vr_scope r \<noteq> ''shared'' \<Longrightarrow> (case (if b2 then None else get_row c_id (ti_chat t) (chats s)) of None \<Rightarrow> False
         | Some c \<Rightarrow> c_kind c = ''direct'' \<and> count_rows (\<lambda>m. m_chat m = ti_chat t \<and> m_active m) (members s) = 2)"
    using assms unfolding vaultResourceAuthorized_def by (auto split: option.splits if_splits)
  show ?thesis
  proof (cases "vr_scope r = ''shared''")
    case True
    with get_rowD [OF r(1)] show ?thesis by (auto simp: readable_by_def)
  next
    case False
    with r(3) obtain c where "get_row c_id (ti_chat t) (chats s) = Some c" "c_kind c = ''direct''"
        "count_rows (\<lambda>m. m_chat m = ti_chat t \<and> m_active m) (members s) = 2"
      by (auto split: option.splits if_splits)
    with get_rowD [OF r(1)] get_rowD [of c_id] r(2) show ?thesis unfolding readable_by_def by blast
  qed
qed

lemma vaultClaimsTxD:
  assumes "vaultClaimsTx R G C st b1 b2 s t request = Some (c, used)"
  obtains g token where "g \<in> set (storage_grants s)" "sg_request g = request" "\<not> sg_revoked g" "sg_nonce g \<notin> set (storage_revocations s)"
    "Open (prim C) (eng C) (sg_token g) (grant_aad (sg_nonce g)) = Inr token" "vaultVerify R G st t token = Some c" "used = sg_used g"
  using assms unfolding vaultClaimsTx_def by (auto split: option.splits if_splits sum.splits dest!: get_rowD)

lemma grant_ready_allowed:
  assumes "grant_ready R L C st env s job request b t destination = Some (c, label)"
  shows "retrieval_allowed R L C st (now env) s job request t destination"
proof -
  obtain ti where ti: "aiTaskLookup (shift_faults 3 (flt env)) s job = Some ti" "ti_status ti = ''running''" "aiTaskAuthorized (flt env 5) s ti"
    and claims: "vaultClaimsTx R (sl_grants L) C st (flt env 6) (flt env 7) s (now env) request = Some (c, 0)"
    and r0: "\<exists>r. get_row pr_id request (policy_requests s) = Some r \<and> pr_status r = ''dispatched'' \<and> pr_name r = tl_name t \<and> pr_job r = job
      \<and> claims_bound c r ti t destination"
    and lab: "vaultResourceAuthorized (flt env 9) (flt env 10) s ti (tl_resource t) = Some label"
    using assms unfolding grant_ready_def by (auto split: option.splits if_splits)
  from r0 obtain r where r: "r \<in> set (policy_requests s)" "pr_id r = request" "pr_status r = ''dispatched''" "pr_name r = tl_name t" "pr_job r = job"
    "claims_bound c r ti t destination" by (auto dest!: get_rowD)
  from claims obtain g token where "g \<in> set (storage_grants s)" "sg_request g = request" "\<not> sg_revoked g" "sg_nonce g \<notin> set (storage_revocations s)"
    "Open (prim C) (eng C) (sg_token g) (grant_aad (sg_nonce g)) = Inr token" "vaultVerify R (sl_grants L) st (now env) token = Some c" "0 = sg_used g"
    by (rule vaultClaimsTxD)
  with r have "granted_now R L C st (now env) s ti r t destination" unfolding granted_now_def by metis
  with r ti resource_readable [OF lab] lookup_no_faults [OF ti(1)] authorized_no_fault [OF ti(3)] show ?thesis
    unfolding retrieval_allowed_def by blast
qed

text \<open>A call of the tool: it changes nothing, or it uses the grant up and moves the boundary.\<close>

lemma aiVaultTool_cases:
  assumes "aiVaultTool R L C st a env s job request b t args = (res, b', s')"
  obtains "res = None" "b' = b" "s' = s"
  | v c label where "st = Some v" "grant_ready R L C st env s job request b t (snd (policyProvider R (flt env) s job a)) = Some (c, label)"
      "count_rows (\<lambda>g. sg_nonce g = cl_nonce c \<and> sg_used g = 0 \<and> \<not> sg_revoked g) (storage_grants s) = 1"
      "s' = s\<lparr>storage_grants := use_storage_grant (now env) (cl_nonce c) (storage_grants s)\<rparr>"
      "b' = Some (extend_boundary b label (snd (policyProvider R (flt env) s job a)) request)"
proof (cases st)
  case None
  with assms show ?thesis by (intro that(1)) (simp_all add: aiVaultTool_def split: if_splits)
next
  case (Some v)
  let ?d = "snd (policyProvider R (flt env) s job a)"
  show ?thesis
  proof (cases "if flt env 2 then None else grant_ready R L C st env s job request b t ?d")
    case None
    with assms Some show ?thesis by (intro that(1)) (simp_all add: aiVaultTool_def Let_def split: if_splits)
  next
    case (Some cl)
    obtain c label where cl: "cl = (c, label)" by (cases cl)
    show ?thesis
    proof (cases "request = [] \<or> flt env 11 \<or> flt env 12
        \<or> count_rows (\<lambda>g. sg_nonce g = cl_nonce c \<and> sg_used g = 0 \<and> \<not> sg_revoked g) (storage_grants s) \<noteq> 1")
      case True
      with assms \<open>st = Some v\<close> Some cl show ?thesis by (intro that(1)) (simp_all add: aiVaultTool_def Let_def split: if_splits)
    next
      case False
      from Some cl have ready: "grant_ready R L C st env s job request b t ?d = Some (c, label)" by (simp split: if_splits)
      from assms \<open>st = Some v\<close> Some cl False have "s' = s\<lparr>storage_grants := use_storage_grant (now env) (cl_nonce c) (storage_grants s)\<rparr>"
          "b' = Some (extend_boundary b label ?d request)"
        by (simp_all add: aiVaultTool_def Let_def split: if_splits)
      with ready \<open>st = Some v\<close> False show ?thesis by (intro that(2)) simp_all
    qed
  qed
qed

text \<open>A tool returns stored text only to a running job whose source and AI participant may still act, for an effect that was dispatched
  for this job and tool, under a grant that is not used, revoked or expired and whose signed claims name this request, its hash,
  the chat, both users, the resource, the action and the provider's address; private text is read only for its owner, in a direct
  chat of two members.\<close>
theorem retrieval_needs_grant:
  assumes "aiVaultTool R L C st a env s job request b t args = (Some content, b', s')"
  shows "retrieval_allowed R L C st (now env) s job request t (snd (policyProvider R (flt env) s job a))"
  using assms by (cases rule: aiVaultTool_cases) (simp_all add: grant_ready_allowed)

subsection \<open>A grant reads once\<close>

text \<open>The rows of the grants: requests and nonces are unique, and each token names its row.\<close>

definition grants_bound :: "'s runtime \<Rightarrow> grant_lib \<Rightarrow> 'x storage_core \<Rightarrow> storage_state option \<Rightarrow> storage_grant_row list \<Rightarrow> bool" where
  "grants_bound R G C st gs \<longleftrightarrow> distinct (map sg_request gs) \<and> distinct (map sg_nonce gs)
     \<and> (\<forall>g \<in> set gs. \<forall>token t c. Open (prim C) (eng C) (sg_token g) (grant_aad (sg_nonce g)) = Inr token \<longrightarrow> vaultVerify R G st t token = Some c
          \<longrightarrow> cl_nonce c = sg_nonce g)"

text \<open>What happens to the grants: a call of the tool, which may read, the administration, and everything that leaves them alone.\<close>

inductive storage_step ::
  "'x storage_db_scheme runtime \<Rightarrow> 'f storage_lib \<Rightarrow> 'x storage_core \<Rightarrow> storage_state option \<Rightarrow> 'x storage_db_scheme \<Rightarrow> ident list \<Rightarrow>
    'x storage_db_scheme \<Rightarrow> bool" for R L C st where
  tool_call: "aiVaultTool R L C st a env s job request b t args = (res, b', s') \<Longrightarrow> 0 < now env \<Longrightarrow>
    storage_step R L C st s (if b' = b then [] else [request]) s'"
| granted: "aiVaultGrant R (sl_grants L) C st env s inp = (rep, es, s') \<Longrightarrow> storage_step R L C st s [] s'"
| revoked: "revoke_grant env s nonce' = (rep, es, s') \<Longrightarrow> storage_step R L C st s [] s'"
| preflight_check: "aiVaultPreflight C env s job request = (p, es, s') \<Longrightarrow> storage_step R L C st s [] s'"
| other: "storage_grants s' = storage_grants s \<Longrightarrow> storage_step R L C st s [] s'"

inductive storage_run ::
  "'x storage_db_scheme runtime \<Rightarrow> 'f storage_lib \<Rightarrow> 'x storage_core \<Rightarrow> storage_state option \<Rightarrow> 'x storage_db_scheme \<Rightarrow> ident list \<Rightarrow>
    'x storage_db_scheme \<Rightarrow> bool" for R L C st where
  start: "storage_run R L C st s [] s"
| step: "storage_run R L C st s ls s1 \<Longrightarrow> storage_step R L C st s1 l s2 \<Longrightarrow> storage_run R L C st s (ls @ l) s2"

definition spent :: "storage_grant_row list \<Rightarrow> ident set" where
  "spent gs = sg_request ` {g \<in> set gs. sg_used g > 0}"

lemma spent_update:
  "(\<And>g. sg_request (f g) = sg_request g \<and> sg_used (f g) = sg_used g) \<Longrightarrow> spent (update_rows p f gs) = spent gs"
proof (induction gs)
  case (Cons g gs)
  have cons: "spent (x # xs) = (if sg_used x > 0 then insert (sg_request x) (spent xs) else spent xs)" for x xs
    by (auto simp: spent_def)
  have "update_rows p f (g # gs) = (if p g then f g else g) # update_rows p f gs" by (simp add: update_rows_def)
  with Cons show ?case by (simp add: cons)
qed simp

lemma Verify_same: "Verify G k i a ttl t token = Inr c \<Longrightarrow> Verify G k i a ttl t' token = Inr c' \<Longrightarrow> c' = c"
  unfolding Verify_def by (auto split: if_splits list.splits option.splits)

lemma vaultVerify_same: "vaultVerify R G st t token = Some c \<Longrightarrow> vaultVerify R G st t' token = Some c' \<Longrightarrow> c' = c"
  unfolding vaultVerify_def Let_def by (auto split: option.splits sum.splits dest: Verify_same)

text \<open>Using a grant up marks the row of the request, and no other.\<close>

lemma tool_step:
  assumes ok: "grants_bound R (sl_grants L) C st (storage_grants s)" and t: "0 < now env"
    and call: "aiVaultTool R L C st a env s job request b tl0 args = (res, b', s')"
  shows "grants_bound R (sl_grants L) C st (storage_grants s')"
    "spent (storage_grants s') = (if b' = b then spent (storage_grants s) else insert request (spent (storage_grants s)))"
    "b' \<noteq> b \<Longrightarrow> request \<notin> spent (storage_grants s)"
proof -
  let ?gs = "storage_grants s"
  have "grants_bound R (sl_grants L) C st (storage_grants s')
    \<and> spent (storage_grants s') = (if b' = b then spent ?gs else insert request (spent ?gs)) \<and> (b' \<noteq> b \<longrightarrow> request \<notin> spent ?gs)"
    using call
  proof (cases rule: aiVaultTool_cases)
    case 1
    with ok show ?thesis by simp
  next
    case (2 v c label)
    have moved: "b' \<noteq> b" using 2(5) by (cases b) (auto simp: extend_boundary_def dest: arg_cong [where f = bo_requests])
    from 2(2) obtain b1 b2 where "vaultClaimsTx R (sl_grants L) C st b1 b2 s (now env) request = Some (c, 0)"
      unfolding grant_ready_def by (auto split: option.splits if_splits)
    then obtain g token where g: "g \<in> set ?gs" "sg_request g = request" "\<not> sg_revoked g"
        "Open (prim C) (eng C) (sg_token g) (grant_aad (sg_nonce g)) = Inr token" "vaultVerify R (sl_grants L) st (now env) token = Some c" "sg_used g = 0"
      by (auto elim: vaultClaimsTxD)
    with ok have n: "cl_nonce c = sg_nonce g" by (auto simp: grants_bound_def)
    have same: "sg_nonce x = sg_nonce g \<longleftrightarrow> x = g" "sg_request x = sg_request g \<longleftrightarrow> x = g" if "x \<in> set ?gs" for x
      using ok that g(1) by (auto simp: grants_bound_def distinct_map inj_on_def)
    let ?u = "use_storage_grant (now env) (cl_nonce c) ?gs"
    have set_u: "set ?u = (\<lambda>x. if x = g then g\<lparr>sg_used := now env\<rparr> else x) ` set ?gs"
      unfolding use_storage_grant_def set_update_rows n using same g by (intro image_cong) auto
    have "map sg_request ?u = map sg_request ?gs" "map sg_nonce ?u = map sg_nonce ?gs"
      by (simp_all add: use_storage_grant_def map_update_rows)
    moreover have "\<forall>x \<in> set ?u. \<exists>y \<in> set ?gs. sg_token x = sg_token y \<and> sg_nonce x = sg_nonce y"
      unfolding set_u using g(1) by auto
    ultimately have "grants_bound R (sl_grants L) C st ?u" using ok unfolding grants_bound_def by metis
    moreover have "{x \<in> set ?u. sg_used x > 0} = insert (g\<lparr>sg_used := now env\<rparr>) {x \<in> set ?gs. sg_used x > 0}"
      unfolding set_u using g(1,6) t by auto
    then have "spent ?u = insert request (spent ?gs)" by (simp add: spent_def g(2))
    moreover have "request \<notin> spent ?gs"
    proof
      assume "request \<in> spent ?gs"
      then obtain x where "x \<in> set ?gs" "sg_request x = request" "sg_used x > 0" by (auto simp: spent_def)
      with same(2) [of x] g(2,6) show False by simp
    qed
    ultimately show ?thesis using moved 2(4) by simp
  qed
  then show "grants_bound R (sl_grants L) C st (storage_grants s')"
    "spent (storage_grants s') = (if b' = b then spent (storage_grants s) else insert request (spent (storage_grants s)))"
    "b' \<noteq> b \<Longrightarrow> request \<notin> spent (storage_grants s)" by simp_all
qed

lemma aiVaultGrant_cases:
  assumes "aiVaultGrant R G C st env s inp = (rep, es, s')"
  obtains "s' = s"
  | token c gs and bound :: vault_binding where "vaultVerify R G st (now env) token = Some c"
      "insert_storage_grant \<lparr>sg_nonce = cl_nonce c, sg_request = cl_request c, sg_hash = digest C token,
        sg_token = Seal (prim C) (eng C) (nonce env) token (grant_aad (cl_nonce c)), sg_expires = cl_expires c, sg_used = 0, sg_revoked = False\<rparr>
        (storage_grants s) = Some gs"
      "s' = queue_granted (vb_job bound) (cl_request c) (s\<lparr>storage_grants := gs\<rparr>)"
proof (cases "Decode inp")
  case (Inl m)
  with assms show ?thesis by (intro that(1)) (simp add: aiVaultGrant_def)
next
  case (Inr token)
  note dec = this
  show ?thesis
  proof (cases "vaultVerify R G st (now env) token")
    case None
    with assms dec show ?thesis by (intro that(1)) (simp add: aiVaultGrant_def)
  next
    case (Some c)
    note ver = this
    show ?thesis
    proof (cases "vaultRequestBinding R (flt env) s (now env) (cl_request c)")
      case None
      with assms dec ver show ?thesis by (intro that(1)) (simp add: aiVaultGrant_def)
    next
      case (Some bound)
      note bnd = this
      let ?new = "if flt env 13 then None else insert_storage_grant \<lparr>sg_nonce = cl_nonce c, sg_request = cl_request c, sg_hash = digest C token,
        sg_token = Seal (prim C) (eng C) (nonce env) token (grant_aad (cl_nonce c)), sg_expires = cl_expires c, sg_used = 0, sg_revoked = False\<rparr>
        (storage_grants s)"
      show ?thesis
      proof (cases ?new)
        case None
        with assms dec ver bnd show ?thesis by (intro that(1)) (simp add: aiVaultGrant_def split: option.splits if_splits)
      next
        case (Some gs)
        show ?thesis
        proof (cases "s' = s")
          case False
          with assms dec ver bnd Some have moved: "s' = queue_granted (vb_job bound) (cl_request c) (s\<lparr>storage_grants := gs\<rparr>)"
            by (simp add: aiVaultGrant_def split: option.splits if_splits)
          from Some have ins: "insert_storage_grant \<lparr>sg_nonce = cl_nonce c, sg_request = cl_request c, sg_hash = digest C token,
              sg_token = Seal (prim C) (eng C) (nonce env) token (grant_aad (cl_nonce c)), sg_expires = cl_expires c, sg_used = 0,
              sg_revoked = False\<rparr> (storage_grants s) = Some gs" by (simp split: if_splits)
          show ?thesis by (rule that(2) [OF ver ins moved])
        qed (rule that(1))
      qed
    qed
  qed
qed

lemma grant_step:
  assumes gcm: "gcm_opens (prim C) (eng_aead (eng C))" and ok: "grants_bound R G C st (storage_grants s)"
    and call: "aiVaultGrant R G C st env s inp = (rep, es, s')"
  shows "grants_bound R G C st (storage_grants s') \<and> spent (storage_grants s') = spent (storage_grants s)"
  using call
proof (cases rule: aiVaultGrant_cases)
  case 1
  with ok show ?thesis by simp
next
  case (2 token c gs bound)
  note c = 2(1) and gs = 2(2) and s' = 2(3)
  let ?g = "\<lparr>sg_nonce = cl_nonce c, sg_request = cl_request c, sg_hash = digest C token,
        sg_token = Seal (prim C) (eng C) (nonce env) token (grant_aad (cl_nonce c)), sg_expires = cl_expires c, sg_used = 0, sg_revoked = False\<rparr>"
  have new: "storage_grants s' = storage_grants s @ [?g]" "cl_nonce c \<notin> sg_nonce ` set (storage_grants s)" "cl_request c \<notin> sg_request ` set (storage_grants s)"
    using gs by (auto simp: s' queue_granted_def insert_storage_grant_def list_ex_iff split: if_splits)
  have bound': "cl_nonce c' = sg_nonce ?g" if "Open (prim C) (eng C) (sg_token ?g) (grant_aad (sg_nonce ?g)) = Inr token'"
      "vaultVerify R G st t token' = Some c'" for token' t c'
  proof -
    from that(1) have "token' = token" by (simp add: Open_Seal [OF gcm])
    with that(2) vaultVerify_same [OF c] show ?thesis by simp
  qed
  have "grants_bound R G C st (storage_grants s @ [?g])"
    unfolding grants_bound_def
  proof (intro conjI ballI allI impI)
    fix x token' t c'
    assume x: "x \<in> set (storage_grants s @ [?g])" "Open (prim C) (eng C) (sg_token x) (grant_aad (sg_nonce x)) = Inr token'"
      "vaultVerify R G st t token' = Some c'"
    show "cl_nonce c' = sg_nonce x"
    proof (cases "x \<in> set (storage_grants s)")
      case True
      with x ok show ?thesis unfolding grants_bound_def by blast
    next
      case False
      with x(1) have "x = ?g" by simp
      with x(2,3) bound' show ?thesis by blast
    qed
  qed (use ok new(2,3) in \<open>simp_all add: grants_bound_def\<close>)
  moreover have "spent (storage_grants s @ [?g]) = spent (storage_grants s)" by (auto simp: spent_def)
  ultimately show ?thesis by (simp add: new(1))
qed

lemma revoke_step:
  assumes ok: "grants_bound R G C st (storage_grants s)" and call: "revoke_grant env s nonce' = (rep, es, s')"
  shows "grants_bound R G C st (storage_grants s') \<and> spent (storage_grants s') = spent (storage_grants s)"
proof (cases "storage_grants s' = storage_grants s")
  case True
  with ok show ?thesis by simp
next
  case False
  let ?u = "update_rows (\<lambda>g. sg_nonce g = nonce') (\<lambda>g. g\<lparr>sg_revoked := True\<rparr>) (storage_grants s)"
  from call False have s': "storage_grants s' = ?u" by (auto simp: revoke_grant_def vaultReply_def split: if_splits)
  have "map sg_request ?u = map sg_request (storage_grants s)" "map sg_nonce ?u = map sg_nonce (storage_grants s)"
    by (simp_all add: map_update_rows)
  moreover have "\<forall>x \<in> set ?u. \<exists>y \<in> set (storage_grants s). sg_token x = sg_token y \<and> sg_nonce x = sg_nonce y"
    by (auto simp: set_update_rows)
  ultimately have "grants_bound R G C st ?u" using ok unfolding grants_bound_def by metis
  moreover have "spent ?u = spent (storage_grants s)" by (rule spent_update) simp
  ultimately show ?thesis by (simp add: s')
qed

lemma preflight_step: "aiVaultPreflight C env s job request = (p, es, s') \<Longrightarrow> storage_grants s' = storage_grants s"
  unfolding aiVaultPreflight_def aiPolicyMarkAwaiting_def set_job_status_def Append_def bump_seq_def Let_def
  by (auto split: if_splits option.splits)

lemma storage_step_spent:
  assumes "storage_step R L C st s l s'" "gcm_opens (prim C) (eng_aead (eng C))" "grants_bound R (sl_grants L) C st (storage_grants s)"
  shows "grants_bound R (sl_grants L) C st (storage_grants s') \<and> spent (storage_grants s') = set l \<union> spent (storage_grants s)
    \<and> distinct l \<and> set l \<inter> spent (storage_grants s) = {}"
  using assms(1)
proof cases
  case (tool_call a env job request b t args res b')
  from tool_step [OF assms(3) tool_call(3,2)] tool_call(1) show ?thesis by auto
next
  case granted
  with grant_step [OF assms(2,3)] show ?thesis by simp
next
  case revoked
  with revoke_step [OF assms(3)] show ?thesis by simp
next
  case preflight_check
  then have "l = []" "storage_grants s' = storage_grants s" by (auto dest: preflight_step)
  with assms(3) show ?thesis by simp
next
  case other
  with assms(3) show ?thesis by auto
qed

lemma storage_run_spent:
  assumes "storage_run R L C st s ls s'" "gcm_opens (prim C) (eng_aead (eng C))" "grants_bound R (sl_grants L) C st (storage_grants s)"
  shows "grants_bound R (sl_grants L) C st (storage_grants s') \<and> spent (storage_grants s') = set ls \<union> spent (storage_grants s)
    \<and> distinct ls \<and> set ls \<inter> spent (storage_grants s) = {}"
  using assms(1,3)
proof (induction rule: storage_run.induct)
  case (start s)
  then show ?case by simp
next
  case (step s ls s1 l s2)
  then have "grants_bound R (sl_grants L) C st (storage_grants s1)" by simp
  from storage_step_spent [OF step.hyps(2) assms(2) this] step.IH [OF step.prems] show ?case by auto
qed

text \<open>Over every run of the tool, the administration of grants and all operations beside them, no request is read for twice: a grant
  reads once, however often it is sent again, and a request has one grant.\<close>
theorem grant_reads_once:
  assumes "storage_run R L C st s reads s'" "gcm_opens (prim C) (eng_aead (eng C))" "grants_bound R (sl_grants L) C st (storage_grants s)"
  shows "distinct reads \<and> (\<forall>request \<in> set reads. \<exists>g \<in> set (storage_grants s'). sg_request g = request \<and> sg_used g > 0)"
proof -
  from storage_run_spent [OF assms] have "distinct reads" "set reads \<subseteq> spent (storage_grants s')" by auto
  then show ?thesis unfolding spent_def by auto
qed

end
