(* ===== verification/RunProperties.thy ===== *)
theory RunProperties
  imports StorageProperties
begin

text \<open>
  Properties of the conversation under the policy (\<open>PolicyRun\<close>), over the calls to the outside that it made, in their order.
\<close>

subsection \<open>Tickets\<close>

text \<open>The row of a ticket: the request was dispatched for this effect, whose hash covers all that is sent.\<close>

definition ticket_for :: "('f, 'x) policy_world \<Rightarrow> 'x storage_db_scheme \<Rightarrow> ident \<Rightarrow> policy_effect \<Rightarrow> bool" where
  "ticket_for W s i e \<longleftrightarrow> (\<exists>r \<in> set (policy_requests s). pr_id r = i \<and> pr_status r = ''dispatched'' \<and> pr_job r = pe_job e
     \<and> pr_hash r = aiPolicyEffectHash (pw_core W) e)"

text \<open>The ticket was dispatched by \<open>aiPolicyBegin\<close>, out of a store in which the job ran and its source and assistant could still act.\<close>

definition sent_under :: "('f, 'x) policy_world \<Rightarrow> 'x storage_db_scheme \<Rightarrow> ident \<Rightarrow> policy_effect \<Rightarrow> bool" where
  "sent_under W s i e \<longleftrightarrow> ticket_for W s i e
     \<and> (\<exists>env s1 cont es. aiPolicyBegin (pw_runtime W) (pw_policy W) (pw_core W) env s1 e cont = (Dispatched i, es, s)
          \<and> aiEffectsAllowed no_faults s1 (pe_job e))"

text \<open>
  What a call under the policy must satisfy. Its access was checked when the call came up (store \<open>s0\<close>), and again when its ticket was
  dispatched (store \<open>s\<close>). A tool is one the chat granted; the arguments sent are the canonical form of arguments that its schema accepts.
\<close>

definition has_ticket :: "('f, 'x) policy_world \<Rightarrow> ai_section \<Rightarrow> ident \<Rightarrow> tool list \<Rightarrow> 'x storage_db_scheme policy_call \<Rightarrow> bool" where
  "has_ticket W a job tools x \<longleftrightarrow> (case x of
     PolicyAsk s0 s i destination b ts \<Rightarrow> aiEffectsAllowed no_faults s0 job
       \<and> (\<exists>name c. co_turns c = ts \<and> sent_under W s i (provider_effect W a job name destination tools c))
   | PolicyTool s0 s i t b call \<Rightarrow>
       (\<exists>asked args. call_allowed (pw_tools W) job tools (RunTool s0 t asked)
          \<and> aiCanonicalArguments (pw_externals W) (ca_arguments asked) = Some args \<and> call = asked\<lparr>ca_arguments := args\<rparr>)
       \<and> (\<exists>c. sent_under W s i (tool_effect W a job t (ca_arguments call) c)))"

lemma dispatch_row:
  assumes "aiPolicyDispatchTx L C p env n i t e s = Inr s'" "r \<in> set (policy_requests s)" "pr_id r = i" "pr_status r = ''approved''"
  shows "\<exists>r' \<in> set (policy_requests s'). pr_id r' = i \<and> pr_status r' = ''dispatched'' \<and> pr_job r' = pr_job r \<and> pr_hash r' = pr_hash r"
proof -
  obtain gs where "dispatch_rows L C p env (n + 5) i t e (s\<lparr>policy_grants := gs\<rparr>) = Some s'"
    by (rule aiPolicyDispatchTx_Inr [OF assms(1)]) (rule that)
  then have reqs: "policy_requests s' = update_rows (\<lambda>r. pr_id r = i \<and> pr_status r = ''approved'')
      (\<lambda>r. r\<lparr>pr_status := ''dispatched'', pr_dispatched := now env, pr_updated := now env\<rparr>) (policy_requests s)"
    by (rule dispatch_rows_Some) simp
  have "r\<lparr>pr_status := ''dispatched'', pr_dispatched := now env, pr_updated := now env\<rparr> \<in> set (policy_requests s')"
    using assms(2-4) by (force simp: reqs set_update_rows)
  with assms(3) show ?thesis by (intro bexI) auto
qed

lemma begin_ticket:
  assumes "aiPolicyBegin R L C env s e cont = (Dispatched i, es, s')" "pe_id e \<noteq> []"
  shows "(\<exists>r \<in> set (policy_requests s'). pr_id r = i \<and> pr_status r = ''dispatched'' \<and> pr_job r = pe_job e \<and> pr_hash r = aiPolicyEffectHash C e)
    \<and> aiEffectsAllowed no_faults s (pe_job e)"
proof (rule conjI)
  have "\<exists>t. aiTaskLookup (shift_faults 1 (flt env)) s (pe_job (given_effect env e)) = Some t \<and> ti_status t = ''running''
      \<and> aiTaskAuthorized (flt env 3) s t"
    using assms(1) unfolding aiPolicyBegin_def Let_def by (auto split: if_splits option.splits)
  then show "aiEffectsAllowed no_faults s (pe_job e)"
    using lookup_no_faults authorized_no_fault by (fastforce simp: aiEffectsAllowed_def given_effect_def desk_no_faults split: if_splits)
next
  let ?p = "set_ai_policy (rt_settings R)"
  have e: "given_effect env e = e" using assms(2) by (simp add: given_effect_def)
  consider (new) t version where "begin_new L C ?p env t e version cont s = (Dispatched i, es, s')"
    | (old) t r where "begin_dispatch L C ?p env t e s s = (Dispatched i, es, s')" "r \<in> set (policy_requests s)" "pr_id r = pe_id e"
        "pr_job r = pe_job e" "pr_hash r = aiPolicyEffectHash C e" "pr_status r = ''approved''"
    using assms(1) unfolding aiPolicyBegin_def Let_def e
    by (auto split: if_splits option.splits dest!: query_row_SomeD)
  then show "\<exists>r \<in> set (policy_requests s'). pr_id r = i \<and> pr_status r = ''dispatched'' \<and> pr_job r = pe_job e
      \<and> pr_hash r = aiPolicyEffectHash C e"
  proof cases
    case new
    then show ?thesis
    proof (cases rule: begin_new_cases)
      case 3
      let ?r = "(new_request C ?p env t e version cont)\<lparr>pr_status := ''approved'', pr_updated := now env\<rparr>"
      have "?r \<in> set (set_requests (\<lambda>r. pr_id r = pe_id e) ''approved'' (now env) (added_request C ?p env t e version cont (policy_requests s)))"
        by (force simp: set_requests_def set_update_rows added_request_def new_request_def)
      with dispatch_row [OF 3(4), of ?r] 3(1) show ?thesis by (auto simp: new_request_def)
    qed auto
  next
    case old
    from old(1) show ?thesis
    proof (cases rule: begin_dispatch_cases)
      case 2
      with dispatch_row [OF 2(2) old(2,3,6)] old(4,5) show ?thesis by auto
    qed auto
  qed
qed

subsection \<open>What one stage adds to the calls\<close>

lemma run_db_simps [simp]: "rn_store (run_db s es r) = s" "rn_calls (run_db s es r) = rn_calls r"
  by (simp_all add: run_db_def)

lemma settle_calls: "settlePolicyEffect W env i u b r = (fine, r') \<Longrightarrow> rn_calls r' = rn_calls r"
  by (auto simp: settlePolicyEffect_def split: prod.splits)

lemma begin_effect_calls: "begin_effect W env e c r = (res, r') \<Longrightarrow> rn_calls r' = rn_calls r"
  by (auto simp: begin_effect_def split: prod.splits bool.splits begin_result.splits)

lemma begin_effect_ticket:
  assumes "begin_effect W env e c r = (Inr i, r')" "pe_id e \<noteq> []"
  shows "sent_under W (rn_store r') i e"
proof -
  obtain s1 es s2 where "aiPolicyBegin (pw_runtime W) (pw_policy W) (pw_core W) env s1 e (state_json c) = (Dispatched i, es, s2)" "r' = run_db s2 es r"
    using assms(1) by (auto simp: begin_effect_def split: prod.splits bool.splits begin_result.splits)
  with begin_ticket [OF this(1) assms(2)] show ?thesis unfolding sent_under_def ticket_for_def by auto
qed

text \<open>The names of the hashes are hexadecimal and not empty.\<close>

definition hashes :: "('f, 'x) policy_world \<Rightarrow> bool" where
  "hashes W \<longleftrightarrow> (\<forall>b. p_sha256 (prim (pw_core W)) b \<noteq> [])"

lemma effect_id: "hashes W \<Longrightarrow> pe_id (makePolicyEffect (pw_core W) job st k act n d q b v a c) \<noteq> []"
  by (cases "p_sha256 (prim (pw_core W)) (effect_name job act st k)") (auto simp: makePolicyEffect_def digest_def hashes_def)

definition released_call :: "('f, 'x) policy_world \<Rightarrow> ident \<Rightarrow> boundary option \<Rightarrow> string \<Rightarrow> string \<Rightarrow> 'x storage_db_scheme \<Rightarrow> bool" where
  "released_call W job b action destination s \<longleftrightarrow> (\<exists>env. may_release W env s job b action destination)"

lemma ask_provider_calls:
  assumes "ask_provider W ask a es job tools c r = (res, r')" "hashes W" "aiEffectsAllowed no_faults (rn_store r) job"
  obtains (none) end' where "res = Inl end'" "rn_calls r' = rn_calls r"
  | (asked) s i destination where "rn_calls r' = rn_calls r @ [PolicyAsk (rn_store r) s i destination (co_boundary c) (co_turns c)]"
      "released_call W job (co_boundary c) ''provider'' destination (rn_store r)"
      "has_ticket W a job tools (PolicyAsk (rn_store r) s i destination (co_boundary c) (co_turns c))"
      "\<And>c'. res = Inr c' \<Longrightarrow> co_boundary c' = co_boundary c"
proof -
  obtain name destination where pv: "policyProvider (pw_runtime W) (shift_faults 20 (flt (es 0))) (rn_store r) job a = (name, destination)"
    by fastforce
  show ?thesis
  proof (cases "\<not> may_release W (shift_env 30 (es 0)) (rn_store r) job (co_boundary c) ''provider'' destination \<or> name = []")
    case True
    with assms(1) pv show ?thesis by (intro none) (auto simp: ask_provider_def split: if_splits)
  next
    case False
    obtain bres r1 where b: "begin_effect W (es 1) (provider_effect W a job name destination tools c) c r = (bres, r1)" by fastforce
    show ?thesis
    proof (cases bres)
      case (Inl e)
      with assms(1) pv False b begin_effect_calls [OF b] show ?thesis by (intro none [where end' = e]) (simp_all add: ask_provider_def)
    next
      case (Inr i)
      obtain result u s2 where q: "ask (rn_store r1) (co_turns c) = (result, u, s2)" by (cases "ask (rn_store r1) (co_turns c)") auto
      let ?call = "PolicyAsk (rn_store r) (rn_store r1) i destination (co_boundary c) (co_turns c)"
      let ?r2 = "(run_db s2 [] r1)\<lparr>rn_calls := rn_calls r1 @ [?call]\<rparr>"
      obtain fine r3 where st: "settlePolicyEffect W (es 2) i u (result \<noteq> None) ?r2 = (fine, r3)" by fastforce
      have calls: "rn_calls r3 = rn_calls r @ [?call]" using settle_calls [OF st] begin_effect_calls [OF b] by simp
      have ticket: "has_ticket W a job tools ?call"
        using begin_effect_ticket [OF b [unfolded Inr]] effect_id [OF assms(2)] assms(3) by (auto simp: has_ticket_def provider_effect_def Let_def)
      have "r' = r3" "\<And>c'. res = Inr c' \<Longrightarrow> co_boundary c' = co_boundary c"
        using assms(1) pv False b Inr q st by (auto simp: ask_provider_def Let_def split: option.splits if_splits bool.splits)
      with calls ticket False show ?thesis by (intro asked [of "rn_store r1" i destination]) (auto simp: released_call_def)
    qed
  qed
qed

text \<open>A storage tool that returned text moved the boundary to contain its ticket.\<close>

definition extends :: "boundary option \<Rightarrow> boundary option \<Rightarrow> bool" where
  "extends b b' \<longleftrightarrow> (\<forall>x. b = Some x \<longrightarrow> (\<exists>y. b' = Some y \<and> set (bo_requests x) \<subseteq> set (bo_requests y)))"

lemma vault_run_extends:
  assumes "vault_run W a env job i b t args s = (res, b', s')"
  shows "extends b b'" "res \<noteq> None \<Longrightarrow> \<exists>y. b' = Some y \<and> i \<in> set (bo_requests y)"
proof -
  have "extends b b' \<and> (res \<noteq> None \<longrightarrow> (\<exists>y. b' = Some y \<and> i \<in> set (bo_requests y)))"
    using assms unfolding vault_run_def
  proof (cases rule: aiVaultTool_cases)
    case 1
    then show ?thesis by (simp add: extends_def)
  next
    case 2
    then show ?thesis by (auto simp: extends_def extend_boundary_def split: option.split)
  qed
  then show "extends b b'" "res \<noteq> None \<Longrightarrow> \<exists>y. b' = Some y \<and> i \<in> set (bo_requests y)" by blast+
qed

definition reads_of :: "'s policy_call \<Rightarrow> ident list" where
  "reads_of x = (case x of PolicyAsk s0 s i destination b ts \<Rightarrow> [] | PolicyTool s0 s i t b call \<Rightarrow> (if tl_kind t = ''storage'' then [i] else []))"

definition covers :: "boundary option \<Rightarrow> ident list \<Rightarrow> bool" where
  "covers b is \<longleftrightarrow> (\<forall>i \<in> set is. \<exists>x. b = Some x \<and> i \<in> set (bo_requests x))"

lemma covers_extends: "covers b is \<Longrightarrow> extends b b' \<Longrightarrow> covers b' is"
  by (fastforce simp: covers_def extends_def)

lemma run_tool_calls:
  assumes "run_tool W a es job t call checked c r = (res, r')" "hashes W"
    and "call_allowed (pw_tools W) job tools (RunTool checked t asked)"
    and "aiCanonicalArguments (pw_externals W) (ca_arguments asked) = Some args" "call = asked\<lparr>ca_arguments := args\<rparr>"
  obtains (none) end' where "res = Inl end'" "rn_calls r' = rn_calls r"
  | (ran) s i where "rn_calls r' = rn_calls r @ [PolicyTool checked s i t (co_boundary c) call]"
      "has_ticket W a job tools (PolicyTool checked s i t (co_boundary c) call)"
      "\<And>c'. res = Inr c' \<Longrightarrow> extends (co_boundary c) (co_boundary c') \<and> covers (co_boundary c') (reads_of (PolicyTool checked s i t (co_boundary c) call))"
proof -
  obtain bres r1 where b: "begin_effect W (es 1) (tool_effect W a job t (ca_arguments call) c) c r = (bres, r1)" by fastforce
  show ?thesis
  proof (cases bres)
    case (Inl e)
    with assms(1) b begin_effect_calls [OF b] show ?thesis by (intro none [where end' = e]) (simp_all add: run_tool_def)
  next
    case (Inr i)
    let ?X = "ticket_tools W a (es 3) job i (co_boundary c)"
    obtain result s2 where x: "aiExecuteTool (pw_runtime W) ?X (aiLimits a) (flt (es 3) 0) (now (es 3)) job t call (rn_store r1) = (result, s2)" by fastforce
    let ?call = "PolicyTool checked (rn_store r1) i t (co_boundary c) call"
    let ?r2 = "(run_db s2 [] r1)\<lparr>rn_calls := rn_calls r1 @ [?call]\<rparr>"
    let ?b' = "boundary_after W a (es 3) job i (co_boundary c) t (ca_arguments call) (rn_store r1)"
    obtain fine r3 where st: "settlePolicyEffect W (es 2) i no_usage (result \<noteq> None) ?r2 = (fine, r3)" by fastforce
    have calls: "rn_calls r3 = rn_calls r @ [?call]" using settle_calls [OF st] begin_effect_calls [OF b] by simp
    have ticket: "has_ticket W a job tools ?call"
      using begin_effect_ticket [OF b [unfolded Inr]] effect_id [OF assms(2)] assms(3-5) by (auto simp: has_ticket_def tool_effect_def)
    have out: "r' = r3" and res: "\<And>c'. res = Inr c' \<Longrightarrow> result \<noteq> None \<and> co_boundary c' = ?b'"
      using assms(1) b Inr x st by (auto simp: run_tool_def Let_def split: option.splits if_splits bool.splits)
    obtain vres vb vs where v: "vault_run W a (es 3) job i (co_boundary c) t (ca_arguments call) (rn_store r1) = (vres, vb, vs)"
      by (cases "vault_run W a (es 3) job i (co_boundary c) t (ca_arguments call) (rn_store r1)") auto
    have moved: "extends (co_boundary c) ?b' \<and> covers ?b' (reads_of ?call)" if "result \<noteq> None"
    proof (cases "tl_kind t = ''storage''")
      case True
      with that x v have "vres \<noteq> None"
        by (auto simp: aiExecuteTool_def ticket_tools_def Let_def split: if_splits option.splits prod.splits)
      with vault_run_extends [OF v] True v show ?thesis by (auto simp: boundary_after_def reads_of_def covers_def)
    next
      case False
      then show ?thesis by (simp add: boundary_after_def reads_of_def covers_def extends_def)
    qed
    show ?thesis
      by (rule ran [of "rn_store r1" i]) (use calls out ticket res moved in auto)
  qed
qed

lemma bind_arguments_boundary [simp]: "co_boundary (bind_arguments args c) = co_boundary c"
  by (simp add: bind_arguments_def Let_def)

lemma policy_tool_calls:
  assumes "policy_tool W a es job tools c r = (res, r')" "hashes W"
  obtains (none) end' where "res = Inl end'" "rn_calls r' = rn_calls r"
  | (ran) s i t call where "rn_calls r' = rn_calls r @ [PolicyTool (rn_store r) s i t (co_boundary c) call]"
      "has_ticket W a job tools (PolicyTool (rn_store r) s i t (co_boundary c) call)"
      "released_call W job (co_boundary c) (tl_kind t) (tl_url t) (rn_store r)"
      "\<And>c'. res = Inr c' \<Longrightarrow> extends (co_boundary c) (co_boundary c')
         \<and> covers (co_boundary c') (reads_of (PolicyTool (rn_store r) s i t (co_boundary c) call))"
proof -
  let ?call0 = "co_calls c ! nat (co_next c)"
  show ?thesis
  proof (cases "aiAuthorizedTool (pw_runtime W) (pw_tools W) (flt (es 0)) (rn_store r) job ?call0 tools")
    case (Inl e)
    with assms(1) show ?thesis by (intro none [where end' = ConversationError]) (simp_all add: policy_tool_def Let_def)
  next
    case (Inr t)
    show ?thesis
    proof (cases "may_release W (shift_env 30 (es 0)) (rn_store r) job (co_boundary c) (tl_kind t) (tl_url t)")
      case False
      with assms(1) Inr show ?thesis by (intro none [where end' = ConversationError]) (simp_all add: policy_tool_def Let_def)
    next
      case True
      show ?thesis
      proof (cases "aiCanonicalArguments (pw_externals W) (ca_arguments ?call0)")
        case None
        with assms(1) Inr True show ?thesis by (intro none [where end' = ConversationError]) (simp_all add: policy_tool_def Let_def)
      next
        case (Some args)
        let ?c1 = "bind_arguments args c" and ?call = "?call0\<lparr>ca_arguments := args\<rparr>"
        let ?pre = "if tl_kind t = ''storage'' then aiVaultPreflight (pw_core W) (es 4) (rn_store r) job (pe_id (tool_effect W a job t args ?c1))
          else (Proceed, [], rn_store r)"
        obtain p ws s1 where pre: "?pre = (p, ws, s1)" by (cases ?pre) auto
        show ?thesis
        proof (cases p)
          case Proceed
          with assms(1) Inr True Some pre have run: "run_tool W a es job t ?call (rn_store r) ?c1 (run_db s1 ws r) = (res, r')"
            by (simp add: policy_tool_def Let_def)
          from run assms(2) aiAuthorizedTool_allowed [OF Inr] Some refl show ?thesis
          proof (cases rule: run_tool_calls)
            case (none end')
            then show ?thesis by (intro that(1) [of end']) simp_all
          next
            case (ran s i)
            show ?thesis by (rule that(2) [of s i t ?call]) (use ran True in \<open>auto simp: released_call_def\<close>)
          qed
        next
          case Paused
          with assms(1) Inr True Some pre show ?thesis by (intro none [where end' = ApprovalPending]) (auto simp: policy_tool_def Let_def split: if_splits)
        next
          case NotReady
          with assms(1) Inr True Some pre show ?thesis by (intro none [where end' = ConversationError]) (auto simp: policy_tool_def Let_def split: if_splits)
        qed
      qed
    qed
  qed
qed

subsection \<open>The whole conversation\<close>

definition call_boundary :: "'s policy_call \<Rightarrow> boundary option" where
  "call_boundary x = (case x of PolicyAsk s0 s i destination b ts \<Rightarrow> b | PolicyTool s0 s i t b call \<Rightarrow> b)"

definition checked_store :: "'s policy_call \<Rightarrow> 's" where
  "checked_store x = (case x of PolicyAsk s0 s i destination b ts \<Rightarrow> s0 | PolicyTool s0 s i t b call \<Rightarrow> s0)"

definition call_released :: "('f, 'x) policy_world \<Rightarrow> ident \<Rightarrow> 'x storage_db_scheme policy_call \<Rightarrow> bool" where
  "call_released W job x \<longleftrightarrow> (case x of
     PolicyAsk s0 s i destination b ts \<Rightarrow> released_call W job b ''provider'' destination s0
   | PolicyTool s0 s i t b call \<Rightarrow> released_call W job b (tl_kind t) (tl_url t) s0)"

text \<open>All calls have tickets and are released, and each boundary covers what was read before.\<close>

definition calls_fine :: "('f, 'x) policy_world \<Rightarrow> ai_section \<Rightarrow> ident \<Rightarrow> tool list \<Rightarrow> 'x storage_db_scheme policy_call list \<Rightarrow> bool" where
  "calls_fine W a job tools xs \<longleftrightarrow> (\<forall>ys x zs. xs = ys @ x # zs \<longrightarrow> has_ticket W a job tools x \<and> call_released W job x
     \<and> covers (call_boundary x) (concat (map reads_of ys)))"

lemma calls_fine_Nil [simp]: "calls_fine W a job tools []"
  by (simp add: calls_fine_def)

lemma calls_fine_ticket:
  assumes "calls_fine W a job tools xs" "x \<in> set xs"
  shows "has_ticket W a job tools x"
proof -
  from assms(2) obtain ys zs where "xs = ys @ x # zs" by (auto simp: in_set_conv_decomp)
  with assms(1) show ?thesis unfolding calls_fine_def by blast
qed

lemma calls_fine_snoc: "calls_fine W a job tools xs \<Longrightarrow> has_ticket W a job tools x \<Longrightarrow> call_released W job x \<Longrightarrow>
    covers (call_boundary x) (concat (map reads_of xs)) \<Longrightarrow> calls_fine W a job tools (xs @ [x])"
  unfolding calls_fine_def by (auto simp: append_eq_append_conv2 append_eq_Cons_conv Cons_eq_append_conv)

definition run_fine ::
  "('f, 'x) policy_world \<Rightarrow> ai_section \<Rightarrow> ident \<Rightarrow> tool list \<Rightarrow> boundary option \<Rightarrow> 'x storage_db_scheme run \<Rightarrow> bool" where
  "run_fine W a job tools b r \<longleftrightarrow> calls_fine W a job tools (rn_calls r) \<and> covers b (concat (map reads_of (rn_calls r)))"

lemma covers_append: "covers b (xs @ ys) \<longleftrightarrow> covers b xs \<and> covers b ys"
  by (auto simp: covers_def)

lemma ask_provider_fine:
  assumes "ask_provider W ask a es job tools c r = (res, r')" "hashes W" "aiEffectsAllowed no_faults (rn_store r) job" "run_fine W a job tools (co_boundary c) r"
  shows "calls_fine W a job tools (rn_calls r') \<and> (\<forall>c'. res = Inr c' \<longrightarrow> run_fine W a job tools (co_boundary c') r')"
  using assms(1-3)
proof (cases rule: ask_provider_calls)
  case (none end')
  with assms(4) show ?thesis by (simp add: run_fine_def)
next
  case (asked s i destination)
  let ?x = "PolicyAsk (rn_store r) s i destination (co_boundary c) (co_turns c)"
  have "calls_fine W a job tools (rn_calls r @ [?x])"
    using assms(4) asked(2,3) by (intro calls_fine_snoc) (simp_all add: run_fine_def call_released_def call_boundary_def)
  with asked(1,4) assms(4) show ?thesis by (auto simp: run_fine_def reads_of_def)
qed

lemma policy_tool_fine:
  assumes "policy_tool W a es job tools c r = (res, r')" "hashes W" "run_fine W a job tools (co_boundary c) r"
  shows "calls_fine W a job tools (rn_calls r') \<and> (\<forall>c'. res = Inr c' \<longrightarrow> run_fine W a job tools (co_boundary c') r')"
  using assms(1,2)
proof (cases rule: policy_tool_calls)
  case (none end')
  with assms(3) show ?thesis by (simp add: run_fine_def)
next
  case (ran s i t call)
  let ?x = "PolicyTool (rn_store r) s i t (co_boundary c) call"
  have fine: "calls_fine W a job tools (rn_calls r @ [?x])"
    using assms(3) ran(2,3) by (intro calls_fine_snoc) (simp_all add: run_fine_def call_released_def call_boundary_def)
  moreover have "covers (co_boundary c') (concat (map reads_of (rn_calls r @ [?x])))" if "res = Inr c'" for c'
    using assms(3) ran(4) [OF that] covers_extends by (auto simp: run_fine_def covers_append)
  ultimately show ?thesis using ran(1) by (simp add: run_fine_def)
qed

lemma policy_tools_fine:
  "policy_tools W a es job tools k n c r = (res, r') \<Longrightarrow> hashes W \<Longrightarrow> run_fine W a job tools (co_boundary c) r \<Longrightarrow>
    calls_fine W a job tools (rn_calls r') \<and> (\<forall>c'. res = Inr c' \<longrightarrow> run_fine W a job tools (co_boundary c') r')"
proof (induction k arbitrary: n c r)
  case 0
  then show ?case by (auto simp: run_fine_def)
next
  case (Suc k)
  obtain x r1 where t: "policy_tool W a (es n) job tools c r = (x, r1)" by fastforce
  note fine = policy_tool_fine [OF t Suc.prems(2,3)]
  show ?case
  proof (cases x)
    case (Inl e)
    with Suc.prems(1) t fine show ?thesis by simp
  next
    case (Inr c1)
    with Suc.prems(1) t have "policy_tools W a es job tools k (Suc n) c1 r1 = (res, r')" by simp
    from Suc.IH [OF this Suc.prems(2)] fine Inr show ?thesis by simp
  qed
qed

lemma policy_loop_fine:
  "policy_loop W ask a es job tools k n c r = (res, r') \<Longrightarrow> hashes W \<Longrightarrow> run_fine W a job tools (co_boundary c) r \<Longrightarrow>
    calls_fine W a job tools (rn_calls r')"
proof (induction k arbitrary: n c r)
  case 0
  then show ?case by (simp add: run_fine_def)
next
  case (Suc k)
  show ?case
  proof (cases "\<not> aiEffectsAllowed (shift_faults 10 (flt (es n 0))) (rn_store r) job \<or> context_full a (co_turns c)")
    case True
    with Suc.prems show ?thesis by (auto simp: run_fine_def)
  next
    case go: False
    let ?q = "if co_needed c then ask_provider W ask a (es n) job tools c r else (Inr c, r)"
    obtain x r1 where q: "?q = (x, r1)" by (cases ?q)
    from go have allowed: "aiEffectsAllowed no_faults (rn_store r) job" by (blast intro: aiEffectsAllowed_any)
    have fine: "calls_fine W a job tools (rn_calls r1) \<and> (\<forall>c'. x = Inr c' \<longrightarrow> run_fine W a job tools (co_boundary c') r1)"
      using q ask_provider_fine [OF _ Suc.prems(2) allowed Suc.prems(3)] Suc.prems(3) by (auto simp: run_fine_def split: if_splits)
    show ?thesis
    proof (cases x)
      case (Inl e)
      with Suc.prems(1) go q fine show ?thesis by (simp split: if_splits)
    next
      case (Inr c1)
      let ?m = "length (co_calls c1) - nat (co_next c1)"
      obtain y r2 where t: "policy_tools W a es job tools ?m (Suc n) c1 r1 = (y, r2)" by fastforce
      from fine Inr have fine1: "run_fine W a job tools (co_boundary c1) r1" by simp
      note fine2 = policy_tools_fine [OF t Suc.prems(2) fine1]
      show ?thesis
      proof (cases y)
        case (Inl e)
        with Suc.prems(1) go q Inr t fine2 show ?thesis by (simp add: Let_def split: if_splits)
      next
        case (Inr c2)
        let ?c2 = "c2\<lparr>co_step := co_step c2 + 1, co_needed := True, co_calls := [], co_next := 0\<rparr>"
        from Suc.prems(1) go q \<open>x = Inr c1\<close> t Inr have "policy_loop W ask a es job tools k (Suc n + ?m) ?c2 r2 = (res, r')"
          by (simp add: Let_def split: if_splits)
        moreover from fine2 Inr have "run_fine W a job tools (co_boundary ?c2) r2" by simp
        ultimately show ?thesis by (rule Suc.IH [OF _ Suc.prems(2)])
      qed
    qed
  qed
qed

lemma conversation_fine:
  assumes "runAIPolicyConversation W a es job turns tools s = (res, r)" "hashes W"
  shows "calls_fine W a job tools (rn_calls r)"
proof -
  let ?r0 = "\<lparr>rn_store = s, rn_effects = [], rn_calls = []\<rparr>"
  consider "r = ?r0" | ask c where "policy_loop W ask a es job tools (nat (ai_steps a - co_step c)) 1 c ?r0 = (res, r)"
    using assms(1) unfolding runAIPolicyConversation_def Let_def by (auto split: option.splits)
  then show ?thesis
  proof cases
    case 2
    then show ?thesis by (rule policy_loop_fine [OF _ assms(2)]) (simp add: run_fine_def covers_def)
  qed simp
qed

subsection \<open>Where retrieved text may go\<close>

text \<open>In the store, at one moment: the grant of the request was used, is not revoked or expired, allows the destination and was signed
  for the identities of the task, and the task may still read the resource.\<close>

definition grant_holds ::
  "('f, 'x) policy_world \<Rightarrow> time \<Rightarrow> 'x storage_db_scheme \<Rightarrow> task_identity \<Rightarrow> string \<Rightarrow> ident \<Rightarrow> bool" where
  "grant_holds W t s ti destination i \<longleftrightarrow> (\<exists>g \<in> set (storage_grants s). \<exists>token c. sg_request g = i \<and> sg_used g \<noteq> 0
     \<and> \<not> sg_revoked g \<and> sg_nonce g \<notin> set (storage_revocations s)
     \<and> Open (prim (pw_core W)) (eng (pw_core W)) (sg_token g) (grant_aad (sg_nonce g)) = Inr token
     \<and> vaultVerify (pw_runtime W) (sl_grants (pw_storage W)) (pw_vault W) t token = Some c
     \<and> cl_destination c = destination \<and> same_source c ti \<and> readable_by s ti (cl_resource c))"

lemma released_holds:
  assumes "released (pw_runtime W) (pw_storage W) (pw_core W) (pw_vault W) f t s ti b i"
  shows "grant_holds W t s ti (bo_destination b) i"
proof -
  obtain c used where c: "vaultClaimsTx (pw_runtime W) (sl_grants (pw_storage W)) (pw_core W) (pw_vault W) (f 0) (f 1) s t i = Some (c, used)"
      "used \<noteq> 0" "cl_destination c = bo_destination b" "same_source c ti"
      "vaultResourceAuthorized (f 2) (f 3) s ti (cl_resource c) = Some (bo_label b)"
    using assms by (auto simp: released_def split: option.splits)
  from c(1) show ?thesis
  proof (rule vaultClaimsTxD)
    fix g token
    assume "g \<in> set (storage_grants s)" "sg_request g = i" "\<not> sg_revoked g" "sg_nonce g \<notin> set (storage_revocations s)"
      "Open (prim (pw_core W)) (eng (pw_core W)) (sg_token g) (grant_aad (sg_nonce g)) = Inr token"
      "vaultVerify (pw_runtime W) (sl_grants (pw_storage W)) (pw_vault W) t token = Some c" "used = sg_used g"
    with c(2-4) resource_readable [OF c(5)] show ?thesis unfolding grant_holds_def by metis
  qed
qed

lemma release_all_holds:
  "release_all (pw_runtime W) (pw_storage W) (pw_core W) (pw_vault W) f t s ti b n is \<Longrightarrow> i \<in> set is \<Longrightarrow>
    grant_holds W t s ti (bo_destination b) i"
  by (induction "is" arbitrary: n) (auto dest: released_holds)

text \<open>What is known of a call when the text of \<open>i\<close> is in the conversation.\<close>

definition confined :: "('f, 'x) policy_world \<Rightarrow> ident \<Rightarrow> ident \<Rightarrow> 'x storage_db_scheme policy_call \<Rightarrow> bool" where
  "confined W job i x \<longleftrightarrow> (\<exists>destination. (case x of
       PolicyAsk s0 s j d b ts \<Rightarrow> d = destination
     | PolicyTool s0 s j t b call \<Rightarrow> tl_kind t = ''storage'' \<or> (tl_kind t = ''provider'' \<and> tl_url t = destination))
     \<and> (\<exists>ti t. aiTaskLookup no_faults (checked_store x) job = Some ti \<and> aiTaskAuthorized False (checked_store x) ti
          \<and> grant_holds W t (checked_store x) ti destination i))"

lemma released_confined:
  assumes "storage_on W" "call_released W job x" "call_boundary x = Some b" "i \<in> set (bo_requests b)"
  shows "confined W job i x"
proof -
  define action where "action = (case x of PolicyAsk s0 s j d b ts \<Rightarrow> ''provider'' | PolicyTool s0 s j t b call \<Rightarrow> tl_kind t)"
  define destination where "destination = (case x of PolicyAsk s0 s j d b ts \<Rightarrow> d | PolicyTool s0 s j t b call \<Rightarrow> tl_url t)"
  from assms(1-3) obtain env :: env where rel: "aiVaultRelease (pw_runtime W) (pw_storage W) (pw_core W) (pw_vault W) (flt env) (now env)
        (checked_store x) job (Some b) action destination"
    by (cases x) (auto simp: call_released_def released_call_def may_release_def call_boundary_def checked_store_def action_def destination_def)
  from rel obtain ti where "aiTaskLookup (shift_faults 1 (flt env)) (checked_store x) job = Some ti"
      "aiTaskAuthorized (flt env 3) (checked_store x) ti"
      "release_all (pw_runtime W) (pw_storage W) (pw_core W) (pw_vault W) (flt env) (now env) (checked_store x) ti b 4 (bo_requests b)"
      "action = ''storage'' \<or> action = ''provider'' \<and> destination = bo_destination b"
    unfolding aiVaultRelease_def by (auto split: option.splits if_splits)
  with lookup_no_faults authorized_no_fault release_all_holds [OF _ assms(4)] show ?thesis
    unfolding confined_def action_def destination_def by (intro exI [of _ "bo_destination b"] conjI exI [of _ ti] exI [of _ "now env"])
      (auto split: policy_call.splits)
qed

text \<open>Text retrieved from storage stays where its grant allows. After a call of a storage tool under the ticket \<open>i\<close>, every later
  question in the same conversation goes to the destination of that grant, no tool that leads elsewhere is called, and each time the
  grant is looked up again: it is used, not revoked and not expired, still allows this destination to these identities, and the task
  may still read the resource.\<close>
theorem retrieved_text_confined:
  assumes "runAIPolicyConversation W a es job turns tools s = (res, r)" "\<forall>b. p_sha256 (prim (pw_core W)) b \<noteq> []" "storage_on W"
    "rn_calls r = xs @ x # ys" "i \<in> set (reads_of x)" "y \<in> set ys"
  shows "confined W job i y"
proof -
  from assms(6) obtain us vs where ys: "ys = us @ y # vs" by (auto simp: in_set_conv_decomp)
  have "calls_fine W a job tools (rn_calls r)" using conversation_fine [OF assms(1)] assms(2) by (simp add: hashes_def)
  moreover have "rn_calls r = (xs @ x # us) @ y # vs" by (simp add: assms(4) ys)
  ultimately have "call_released W job y" "covers (call_boundary y) (concat (map reads_of (xs @ x # us)))"
    unfolding calls_fine_def by blast+
  with assms(5) obtain b where "call_boundary y = Some b" "i \<in> set (bo_requests b)" by (auto simp: covers_def)
  with released_confined [OF assms(3) \<open>call_released W job y\<close>] show ?thesis by blast
qed

end
