(* ===== verification/Dialogue.thy ===== *)
theory Dialogue
  imports PolicyRun
begin

text \<open>
  \<open>aiConversationWith\<close> of \<open>ai.go\<close>, the entry of every conversation of a job: the guard against a second conversation of the same job,
  then the conversation under the policy (\<open>runAIPolicyConversation\<close>, which the module \<open>ai_policy\<close> installs as \<open>aiPolicyConversation\<close>)
  or without it (\<open>directConversation\<close>), and at the end the flush of the streamed progress.
\<close>

text \<open>The provider as the direct conversation sees it: what it reports of its usage is not read there.\<close>

definition direct_externals :: "('f, 'x) policy_world \<Rightarrow> 'x storage_db_scheme externals" where
  "direct_externals W = (pw_tools W)\<lparr>ex_provider :=
     map_option (\<lambda>ask s ts. case ask s ts of (result, u, s') \<Rightarrow> (result, s')) (px_provider (pw_externals W))\<rparr>"

definition start_run :: "'s \<Rightarrow> 's run" where
  "start_run s = \<lparr>rn_store = s, rn_effects = [], rn_calls = []\<rparr>"

text \<open>
  The flush that is deferred: when it fails the answer is lost. The last component lists the calls made without the policy, the run
  lists those under it.
\<close>

definition finish_progress ::
  "('f, 'x) policy_world \<Rightarrow> conversation_end \<times> 'x storage_db_scheme run \<times> 'x storage_db_scheme external_call list \<Rightarrow>
    conversation_end \<times> 'x storage_db_scheme run \<times> 'x storage_db_scheme external_call list" where
  "finish_progress W result =
     (case result of (end', r, tr) \<Rightarrow>
       (case px_flush (pw_externals W) (rn_store r) of (fine, s) \<Rightarrow>
         ((case end' of Answer x \<Rightarrow> (if fine then Answer x else ConversationError) | _ \<Rightarrow> end'), run_db s [] r, tr)))"

text \<open>\<open>installed\<close> is whether a module has set \<open>aiPolicyConversation\<close>, \<open>active\<close> the jobs that have a conversation under way.\<close>

definition aiConversationWith ::
  "bool \<Rightarrow> ('f, 'x) policy_world \<Rightarrow> ident list \<Rightarrow> ai_section \<Rightarrow> (nat \<Rightarrow> nat \<Rightarrow> env) \<Rightarrow> ident \<Rightarrow> turn list \<Rightarrow> tool list \<Rightarrow>
    'x storage_db_scheme \<Rightarrow> conversation_end \<times> 'x storage_db_scheme run \<times> 'x storage_db_scheme external_call list" where
  "aiConversationWith installed W active a es job turns tools s =
     (if job \<in> set active then (ConversationError, start_run s, [])
      else finish_progress W
        (if feat_ai_policy (rt_features (pw_runtime W)) then
           (if \<not> installed then (ConversationError, start_run s, [])
            else case runAIPolicyConversation W a es job turns tools s of (end', r) \<Rightarrow> (end', r, []))
         else case directConversation (pw_runtime W) (direct_externals W) a (\<lambda>n. flt (es n 0)) (now (es 0 0)) job turns tools s of
           (result, s', tr) \<Rightarrow> ((case result of Inl e \<Rightarrow> ConversationError | Inr x \<Rightarrow> Answer x), run_db s' [] (start_run s), tr)))"

text \<open>The calls of a conversation are those of one of the two.\<close>

lemma aiConversationWith_cases:
  assumes "aiConversationWith installed W active a es job turns tools s = (end', r, tr)"
  obtains (none) "rn_calls r = []" "tr = []"
  | (policy) e r1 where "runAIPolicyConversation W a es job turns tools s = (e, r1)" "rn_calls r = rn_calls r1" "tr = []"
  | (direct) result s' where "directConversation (pw_runtime W) (direct_externals W) a (\<lambda>n. flt (es n 0)) (now (es 0 0)) job turns tools s
      = (result, s', tr)" "rn_calls r = []"
proof -
  have finish: "rn_calls r = rn_calls r0 \<and> tr = tr0" if "finish_progress W (e0, r0, tr0) = (end', r, tr)" for e0 r0 tr0
    using that by (auto simp: finish_progress_def run_db_def split: prod.splits)
  show ?thesis
  proof (cases "job \<in> set active")
    case True
    with assms show ?thesis by (intro none) (auto simp: aiConversationWith_def start_run_def)
  next
    case idle: False
    show ?thesis
    proof (cases "feat_ai_policy (rt_features (pw_runtime W))")
      case on: True
      show ?thesis
      proof (cases installed)
        case True
        obtain e r1 where run: "runAIPolicyConversation W a es job turns tools s = (e, r1)" by fastforce
        with assms idle on True have "finish_progress W (e, r1, []) = (end', r, tr)" by (simp add: aiConversationWith_def)
        from finish [OF this] run show ?thesis by (intro policy) simp_all
      next
        case False
        with assms idle on have "finish_progress W (ConversationError, start_run s, []) = (end', r, tr)" by (simp add: aiConversationWith_def)
        from finish [OF this] show ?thesis by (intro none) (simp_all add: start_run_def)
      qed
    next
      case off: False
      obtain result s' tr0 where run: "directConversation (pw_runtime W) (direct_externals W) a (\<lambda>n. flt (es n 0)) (now (es 0 0)) job turns tools s
          = (result, s', tr0)" by (rule prod_cases3)
      with assms idle off have "finish_progress W ((case result of Inl e \<Rightarrow> ConversationError | Inr x \<Rightarrow> Answer x), run_db s' [] (start_run s), tr0)
          = (end', r, tr)" by (simp add: aiConversationWith_def)
      from finish [OF this] run show ?thesis by (intro direct [of result s']) (simp_all add: start_run_def run_db_def)
    qed
  qed
qed

end
