(* ===== verification/ShelfFixture.thy ===== *)
theory ShelfFixture
  imports AssistantFixture PolicyRun VaultProperties
begin

text \<open>
  The installation of \<open>AssistantFixture\<close> with stored documents: a tool that reads the resource of \<open>VaultProperties\<close>, a grant for the
  first call of this tool, and a provider that calls it once. The amounts are all zero, and what providers use is not known.
\<close>

subsection \<open>The installation\<close>

definition shelf_core :: "unit storage_core" where
  "shelf_core = \<lparr>cfg = toy_config, prim = toy_prims\<lparr>p_sha256 := pad 48\<rparr>, eng = toy_engine, prepare_hooks = [], tx_hooks = [],
     project_hooks = [], delete_hooks = []\<rparr>"

definition shelf_tool :: tool where
  "shelf_tool = \<lparr>tl_name = ''find'', tl_kind = ''storage'', tl_url = [], tl_secret = [], tl_methods = [], tl_private = False, tl_approval = False,
     tl_cost = 0, tl_resource = ''r'', tl_action = ''read'', tl_schema = None, tl_timeout = 0, tl_response = 0\<rparr>"

definition shelf_section :: ai_section where
  "shelf_section = default_ai_section\<lparr>ai_openai_url := ''https://p'', ai_tool_list := [shelf_tool]\<rparr>"

definition shelf_settings :: settings where
  "shelf_settings = Defaults\<lparr>cfg_features := no_features\<lparr>feat_openai := True, feat_ai_policy := True, feat_ai_storage := True\<rparr>,
     set_ai := shelf_section,
     set_ai_policy := \<lparr>po_key_env = ''K'', po_issuer = ''i'', po_audience = ''a'', po_ttl = 600, po_provider_approval = False,
       po_reserve = 0, po_global = 100, po_per_bot = 50, po_per_user = 20, po_currency = ''USD''\<rparr>\<rparr>"

definition shelf_runtime :: "unit storage_db_scheme runtime" where
  "shelf_runtime = \<lparr>rt_settings = shelf_settings, rt_blank = (\<lambda>s. s = []), rt_provider = (\<lambda>p. p = ''openai''), rt_tool = (\<lambda>k. k = ''storage''),
     rt_getenv = (\<lambda>n. ''S''), rt_x25519 = (\<lambda>k. k), rt_ed25519 = (\<lambda>k. k), rt_profile = (\<lambda>a. []), rt_turns = (\<lambda>b. Some []),
     rt_saved = (\<lambda>b. None), rt_create_mls = None, rt_init_relay = None, rt_open_mls = None, rt_seal_mls = None, rt_continuation = None,
     rt_filter = None, rt_final = None\<rparr>"

definition shelf_lib :: policy_lib where
  "shelf_lib = desk_lib\<lparr>pl_stored := (\<lambda>b. Some \<lparr>so_effect = no_effect, so_continuation = [], so_epoch = 0, so_session = 0\<rparr>),
     pl_amounts := (\<lambda>b. Some no_amounts)\<rparr>"

definition shelf_destination :: string where
  "shelf_destination = ''https://p/chat/completions''"

text \<open>The effect of the first call of the tool, in the first step.\<close>

definition shelf_effect :: policy_effect where
  "shelf_effect = makePolicyEffect shelf_core ''j1'' 0 0 ''tool'' ''find'' ''vault://r'' (tool_print shelf_tool ''{}'') False 0 shelf_section
     (fresh_state desk_task 0 [])"

definition shelf_claims :: claims where
  "shelf_claims = \<lparr>cl_nonce = ''n'', cl_request = pe_id shelf_effect, cl_hash = pe_hash shelf_effect, cl_chat = ''c'', cl_source = ''alice'',
     cl_ai = ''bob'', cl_resource = ''r'', cl_action = ''read'', cl_destination = shelf_destination, cl_issuer = ''qgramm-backend'',
     cl_audience = ''qgramm-ai-storage'', cl_issued = 990, cl_expires = 1100\<rparr>"

definition shelf_grants :: grant_lib where
  "shelf_grants = toy_grant_lib\<lparr>gl_claims := (\<lambda>_. Some shelf_claims)\<rparr>"

definition shelf_token :: string where
  "shelf_token = grant_token shelf_grants [] shelf_claims"

definition shelf_grant :: "time \<Rightarrow> storage_grant_row" where
  "shelf_grant used = \<lparr>sg_nonce = ''n'', sg_request = pe_id shelf_effect, sg_hash = digest shelf_core shelf_token,
     sg_token = Seal (prim shelf_core) (eng shelf_core) ''nonce'' shelf_token (grant_aad ''n''), sg_expires = 1100, sg_used = used, sg_revoked = False\<rparr>"

definition shelf_storage :: "int storage_lib" where
  "shelf_storage = \<lparr>sl_grants = shelf_grants, sl_vault = toy_vault_lib,
     sl_query = (\<lambda>b. Some \<lparr>rq_document = ''d1'', rq_text = [], rq_vector = [], rq_start = [], rq_depth = 0, rq_limit = 0\<rparr>)\<rparr>"

definition shelf_state :: "storage_state option" where
  "shelf_state = Some \<lparr>ss_vault = toy_vault, ss_key = pad 32 []\<rparr>"

text \<open>The store, by what changes in it.\<close>

definition shelf ::
  "int \<Rightarrow> event_row list \<Rightarrow> request_row list \<Rightarrow> ledger_row list \<Rightarrow> account_row list \<Rightarrow> storage_grant_row list \<Rightarrow> audit_row list \<Rightarrow>
    unit storage_db_scheme" where
  "shelf n es rs ls as gs au = \<lparr>versions = [1], indexes = [], users = users toy_db, devices = devices toy_db,
     chats = [\<lparr>c_id = ''c'', c_kind = ''direct'', c_mode = ''basic'', c_seq = n, c_epoch = 0, c_pending = False, c_created = 0\<rparr>],
     members = members toy_db, messages = [desk_message], events = es, operations = [], cursors = [], tickets = [],
     vault_versions = [1], resources = [toy_resource], documents = [toy_row ''d1'' ''ab''], vault_edges = [],
     ai_chats = [\<lparr>ac_chat = ''c'', ac_user = ''bob'', ac_device = ''b1'', ac_provider = ''openai'', ac_tools = [''find''],
       ac_context = [], ac_state = []\<rparr>],
     ai_jobs = [desk_job ''running''], ai_audit = au, named_versions = [1], ai_agents = [], ai_sessions = [], ai_tasks = [],
     policy_versions = [1], policy_requests = rs, policy_grants = [], policy_revocations = [], policy_ledger = ls, policy_accounts = as,
     storage_versions = [1], storage_grants = gs, storage_revocations = []\<rparr>"

definition shelf_tools :: "unit storage_db_scheme externals" where
  "shelf_tools = \<lparr>ex_provider = None, ex_tool = (\<lambda>t args s. (None, s)), ex_json = (\<lambda>b. Some (VObject [])), ex_integral = (\<lambda>s. True),
     ex_policy_active = False\<rparr>"

definition shelf_call :: call where
  "shelf_call = \<lparr>ca_id = ''k'', ca_name = ''find'', ca_arguments = ''{}''\<rparr>"

text \<open>The provider calls the tool when it is asked first and answers then.\<close>

definition shelf_externals :: "unit storage_db_scheme policy_externals" where
  "shelf_externals = \<lparr>px_provider = Some (\<lambda>s ts. (Some (if ts = [] then \<lparr>an_text = [], an_calls = [shelf_call]\<rparr>
       else \<lparr>an_text = ''ab'', an_calls = []\<rparr>), no_usage, s)),
     px_flush = (\<lambda>s. (True, s)), px_value = (\<lambda>b. Some (VObject [])), px_state = (\<lambda>b. None)\<rparr>"

definition shelf_world :: "(int, unit) policy_world" where
  "shelf_world = \<lparr>pw_runtime = shelf_runtime, pw_policy = shelf_lib, pw_storage = shelf_storage, pw_core = shelf_core, pw_vault = shelf_state,
     pw_tools = shelf_tools, pw_externals = shelf_externals\<rparr>"

lemma shelf_world_simps [simp]: "pw_runtime shelf_world = shelf_runtime" "pw_policy shelf_world = shelf_lib" "pw_storage shelf_world = shelf_storage"
  "pw_core shelf_world = shelf_core" "pw_vault shelf_world = shelf_state" "pw_tools shelf_world = shelf_tools" "pw_externals shelf_world = shelf_externals"
  by (simp_all add: shelf_world_def)

lemma shelf_rows [simp]: "users (shelf n es rs ls as gs au) = users toy_db" "devices (shelf n es rs ls as gs au) = devices toy_db"
  "members (shelf n es rs ls as gs au) = members toy_db" "messages (shelf n es rs ls as gs au) = [desk_message]"
  "chats (shelf n es rs ls as gs au) =
     [\<lparr>c_id = ''c'', c_kind = ''direct'', c_mode = ''basic'', c_seq = n, c_epoch = 0, c_pending = False, c_created = 0\<rparr>]"
  "events (shelf n es rs ls as gs au) = es" "ai_jobs (shelf n es rs ls as gs au) = [desk_job ''running'']"
  "ai_agents (shelf n es rs ls as gs au) = []" "ai_sessions (shelf n es rs ls as gs au) = []" "ai_tasks (shelf n es rs ls as gs au) = []"
  "policy_requests (shelf n es rs ls as gs au) = rs" "policy_ledger (shelf n es rs ls as gs au) = ls"
  "policy_accounts (shelf n es rs ls as gs au) = as" "storage_grants (shelf n es rs ls as gs au) = gs"
  "storage_revocations (shelf n es rs ls as gs au) = []" "resources (shelf n es rs ls as gs au) = [toy_resource]"
  "documents (shelf n es rs ls as gs au) = [toy_row ''d1'' ''ab'']" "ai_audit (shelf n es rs ls as gs au) = au"
  "ai_chats (shelf n es rs ls as gs au) = [\<lparr>ac_chat = ''c'', ac_user = ''bob'', ac_device = ''b1'', ac_provider = ''openai'',
     ac_tools = [''find''], ac_context = [], ac_state = []\<rparr>]"
  by (simp_all add: shelf_def)

lemma shelf_updates [simp]: "(shelf n es rs ls as gs au)\<lparr>policy_requests := rs'\<rparr> = shelf n es rs' ls as gs au"
  "(shelf n es rs ls as gs au)\<lparr>policy_ledger := ls'\<rparr> = shelf n es rs ls' as gs au"
  "(shelf n es rs ls as gs au)\<lparr>policy_accounts := as'\<rparr> = shelf n es rs ls as' gs au"
  "(shelf n es rs ls as gs au)\<lparr>storage_grants := gs'\<rparr> = shelf n es rs ls as gs' au"
  "(shelf n es rs ls as gs au)\<lparr>ai_audit := au'\<rparr> = shelf n es rs ls as gs au'"
  by (simp_all add: shelf_def)

lemma shelf_core_simps [simp]: "prim shelf_core = toy_prims\<lparr>p_sha256 := pad 48\<rparr>" "eng shelf_core = toy_engine"
  by (simp_all add: shelf_core_def)

lemma shelf_gcm: "gcm_opens (toy_prims\<lparr>p_sha256 := pad 48\<rparr>) k"
  using toy_gcm_opens [of k] by (simp add: gcm_opens_def)

lemma shelf_opens [simp]: "Open (toy_prims\<lparr>p_sha256 := pad 48\<rparr>) toy_engine (Seal (toy_prims\<lparr>p_sha256 := pad 48\<rparr>) toy_engine n p a) a = Inr p"
  by (rule Open_Seal [OF shelf_gcm])

lemma shelf_policy: "feat_ai_policy (rt_features shelf_runtime)" "feat_ai_storage (rt_features shelf_runtime)"
  "po_ttl (set_ai_policy (rt_settings shelf_runtime)) = 600" "po_reserve (set_ai_policy (rt_settings shelf_runtime)) = 0"
  "\<not> po_provider_approval (set_ai_policy (rt_settings shelf_runtime))" "rt_tool shelf_runtime = (\<lambda>k. k = ''storage'')"
  "set_ai_storage (rt_settings shelf_runtime) = default_storage_section"
  "aiPolicyRequired (set_ai_policy (rt_settings shelf_runtime)) e = pe_required e"
  by (simp_all add: shelf_runtime_def shelf_settings_def no_features_def aiPolicyRequired_def Defaults_def)

subsection \<open>The task\<close>

lemma shelf_task: "aiTaskLookup no_faults (shelf n es rs ls as gs au) ''j1'' = Some desk_task"
  by (simp add: aiTaskLookup_def direct_identity_def desk_job_def desk_message_def desk_task_def no_faults_def)

lemma shelf_authorized: "aiTaskAuthorized False (shelf n es rs ls as gs au) desk_task"
  by (simp add: aiTaskAuthorized_def desk_message_def toy_db_def desk_task_def)

lemma shelf_session: "aiPolicySessionVersion False (shelf n es rs ls as gs au) ''j1'' = Some 0"
  by (simp add: aiPolicySessionVersion_def)

lemma shelf_allowed: "aiEffectsAllowed no_faults (shelf n es rs ls as gs au) ''j1''"
  using shelf_task shelf_authorized by (simp add: aiEffectsAllowed_def desk_task_def shift_faults_def no_faults_def)

lemma shelf_provider: "policyProvider R no_faults (shelf n es rs ls as gs au) ''j1'' shelf_section = (''openai'', shelf_destination)"
  by (simp add: policyProvider_def bot_of_def no_faults_def desk_job_def query_row_def shelf_section_def trim_slashes_def shelf_destination_def)

lemma shelf_readable: "vaultResourceAuthorized False False (shelf n es rs ls as gs au) t ''r'' = Some ''shared/bob''"
  by (simp add: vaultResourceAuthorized_def get_row_def toy_resource_def)

subsection \<open>Beginning an effect\<close>

text \<open>All sealed amounts open, the rows of the ledger belong to requests, and the events end at the sequence of the chat.\<close>

definition ledger_tidy :: "ledger_row list \<Rightarrow> bool" where
  "ledger_tidy ls \<longleftrightarrow> distinct (map lg_id ls) \<and> (\<forall>l \<in> set ls. open_amounts shelf_lib shelf_core (lg_amounts l) (amounts_aad (lg_request l) (lg_scope l)) = Some no_amounts)"

definition accounts_tidy :: "account_row list \<Rightarrow> bool" where
  "accounts_tidy as \<longleftrightarrow> (\<forall>a \<in> set as. open_amounts shelf_lib shelf_core (ap_payload a) (aiPolicyAccountAAD (ap_scope a) (ap_scope_id a) (ap_day a))
     = Some no_amounts)"

definition shelf_effect_stored :: stored_effect where
  "shelf_effect_stored = \<lparr>so_effect = no_effect, so_continuation = [], so_epoch = 0, so_session = 0\<rparr>"

definition tidy :: "int \<Rightarrow> event_row list \<Rightarrow> request_row list \<Rightarrow> ledger_row list \<Rightarrow> account_row list \<Rightarrow> bool" where
  "tidy n es rs ls as \<longleftrightarrow> (\<forall>e \<in> set es. e_seq e \<le> n) \<and> lg_request ` set ls \<subseteq> pr_id ` set rs \<and> ledger_tidy ls \<and> accounts_tidy as
     \<and> (\<forall>r \<in> set rs. aiPolicyOpenStored shelf_lib shelf_core (pr_id r) (pr_payload r) = Some shelf_effect_stored)"

lemma shelf_lib_simps [simp]: "pl_amounts shelf_lib b = Some no_amounts" "pl_stored shelf_lib b = Some shelf_effect_stored"
  "pl_lower shelf_lib w = w"
  by (simp_all add: shelf_lib_def shelf_effect_stored_def desk_lib_def)

lemma account_tidy: "accounts_tidy as \<Longrightarrow> account_for shelf_lib shelf_core as k = Some no_amounts"
  by (auto simp: account_for_def accounts_tidy_def no_amounts_def split: option.split dest!: get_row_SomeD)

lemma put_account_tidy: "accounts_tidy as \<Longrightarrow> accounts_tidy (put_account shelf_core n k m as)"
  by (auto simp: accounts_tidy_def put_account_def set_upsert_row ap_key_def open_amounts_def split: prod.splits if_splits)

lemma shelf_reserve_scope:
  assumes "ledger_tidy ls" "accounts_tidy as" "\<forall>l \<in> set ls. lg_key l \<noteq> (request, scope)"
  shows "\<exists>l as'. reserve_scope shelf_lib shelf_core (set_ai_policy (rt_settings shelf_runtime)) (toy_env 1000 []) k request e 0 day (scope, i)
      (shelf n es rs ls as gs au) = Some (shelf n es rs (ls @ [l]) as' gs au)
    \<and> lg_key l = (request, scope) \<and> ledger_tidy (ls @ [l]) \<and> accounts_tidy as'"
proof -
  have cap: "\<not> over_cap (aiPolicyCap p scope) 0 no_amounts" for p
    by (simp add: over_cap_def no_amounts_def max_int64_def)
  let ?l = "\<lparr>lg_id = next_ledger ls, lg_request = request, lg_job = pe_job e, lg_scope = scope, lg_scope_id = i, lg_day = day,
      lg_amounts = Seal (prim shelf_core) (eng shelf_core) (draws (toy_env 1000 []) k) (amounts_json (no_amounts\<lparr>am_reserved := 0,
        am_currency := po_currency (set_ai_policy (rt_settings shelf_runtime))\<rparr>)) (amounts_aad request scope),
      lg_payload = Seal (prim shelf_core) (eng shelf_core) (draws (toy_env 1000 []) (Suc k)) (entry_json e scope i day) (ledger_aad request scope),
      lg_status = ''reserved'', lg_created = now (toy_env 1000 []), lg_updated = now (toy_env 1000 [])\<rparr>"
  let ?as = "put_account shelf_core (draws (toy_env 1000 []) (Suc (Suc k))) (scope, i, day) no_amounts as"
  have key: "lg_key ?l = (request, scope)" by (simp add: lg_key_def)
  have new: "insert_row lg_key ?l ls = Some (ls @ [?l])"
    unfolding insert_row_def key using assms(3) by (auto simp: get_row_None_iff)
  have small: "am_reserved no_amounts \<le> max_int64" "no_amounts\<lparr>am_reserved := am_reserved no_amounts + 0\<rparr> = no_amounts"
    by (simp_all add: no_amounts_def max_int64_def)
  have "reserve_scope shelf_lib shelf_core (set_ai_policy (rt_settings shelf_runtime)) (toy_env 1000 []) k request e 0 day (scope, i)
      (shelf n es rs ls as gs au) = Some (shelf n es rs (ls @ [?l]) ?as gs au)"
    using small by (simp add: reserve_scope_def account_tidy [OF assms(2)] cap desk_env(2) new del: shelf_core_simps)
  moreover have "next_ledger ls \<notin> lg_id ` set ls"
  proof
    assume "next_ledger ls \<in> lg_id ` set ls"
    then obtain l where l: "l \<in> set ls" "lg_id l = next_ledger ls" by (metis imageE)
    from l(1) have "lg_id l \<le> Max (set (map lg_id ls))" by (intro Max_ge) auto
    with l show False by (auto simp: next_ledger_def split: if_splits)
  qed
  then have "ledger_tidy (ls @ [?l])" using assms(1) by (simp add: ledger_tidy_def open_amounts_def)
  ultimately show ?thesis using key put_account_tidy [OF assms(2)] by blast
qed

lemma shelf_reserve:
  assumes tidy: "ledger_tidy ls" "accounts_tidy as" and "\<forall>l \<in> set ls. lg_request l \<noteq> request" "pe_reserve e = 0"
  shows "\<exists>new as'. aiPolicyReserveTx shelf_lib shelf_core (set_ai_policy (rt_settings shelf_runtime)) (toy_env 1000 []) k request desk_task e
      (shelf n es rs ls as gs au) = Some (shelf n es rs (ls @ new) as' gs au)
    \<and> lg_request ` set new = {request} \<and> ledger_tidy (ls @ new) \<and> accounts_tidy as'"
proof -
  let ?step = "\<lambda>k. reserve_scope shelf_lib shelf_core (set_ai_policy (rt_settings shelf_runtime)) (toy_env 1000 []) k request e 0 (utc_day 1000)"
  have none: "\<forall>l \<in> set ls. lg_key l \<noteq> (request, scope)" for scope using assms(3) by (auto simp: lg_key_def)
  obtain l1 as1 where 1: "?step k (''global'', ''global'') (shelf n es rs ls as gs au) = Some (shelf n es rs (ls @ [l1]) as1 gs au)"
      "lg_key l1 = (request, ''global'')" "ledger_tidy (ls @ [l1])" "accounts_tidy as1"
    using shelf_reserve_scope [OF tidy none] by blast
  have "\<forall>l \<in> set (ls @ [l1]). lg_key l \<noteq> (request, ''bot'')" using 1(2) none by auto
  then obtain l2 as2 where 2: "?step (k + 3) (''bot'', ''bob'') (shelf n es rs (ls @ [l1]) as1 gs au) = Some (shelf n es rs (ls @ [l1] @ [l2]) as2 gs au)"
      "lg_key l2 = (request, ''bot'')" "ledger_tidy (ls @ [l1] @ [l2])" "accounts_tidy as2"
    using shelf_reserve_scope [OF 1(3,4)] by (metis append.assoc)
  have "\<forall>l \<in> set (ls @ [l1] @ [l2]). lg_key l \<noteq> (request, ''source_user'')" using 1(2) 2(2) none by auto
  then obtain l3 as3 where 3: "?step (k + 3 + 3) (''source_user'', ''alice'') (shelf n es rs (ls @ [l1] @ [l2]) as2 gs au)
        = Some (shelf n es rs (ls @ [l1] @ [l2] @ [l3]) as3 gs au)"
      "lg_key l3 = (request, ''source_user'')" "ledger_tidy (ls @ [l1] @ [l2] @ [l3])" "accounts_tidy as3"
    using shelf_reserve_scope [OF 2(3,4)] by (metis append.assoc)
  have res: "reserve_of (set_ai_policy (rt_settings shelf_runtime)) e = 0" using assms(4) by (simp add: reserve_of_def shelf_policy)
  have "aiPolicyReserveTx shelf_lib shelf_core (set_ai_policy (rt_settings shelf_runtime)) (toy_env 1000 []) k request desk_task e
      (shelf n es rs ls as gs au) = Some (shelf n es rs (ls @ [l1, l2, l3]) as3 gs au)"
    using 1(1) 2(1) 3(1) by (simp add: aiPolicyReserveTx_def res scopes_of_def desk_task_def desk_env)
  with 1(2) 2(2) 3(2-4) show ?thesis by (intro exI [of _ "[l1, l2, l3]"] exI [of _ as3]) (simp add: lg_key_def)
qed

lemma shelf_append: "\<forall>x \<in> set es. e_seq x \<le> n \<Longrightarrow>
    \<exists>x. Append shelf_core (shift_env k (toy_env 1000 [])) (shelf n es rs ls as gs au) ''c'' kind message data
      = Inr (n + 1, shelf (n + 1) (es @ [x]) rs ls as gs au) \<and> e_seq x = n + 1"
proof -
  assume "\<forall>x \<in> set es. e_seq x \<le> n"
  then have new: "get_row e_key (''c'', n + 1) es = None" by (force simp: get_row_None_iff e_key_def)
  have moved: "(bump_seq ''c'' (shelf n es rs ls as gs au))\<lparr>events := es'\<rparr> = shelf (n + 1) es' rs ls as gs au" for es'
    by (simp add: bump_seq_def update_rows_def) (simp add: shelf_def)
  show ?thesis by (simp add: Append_def desk_env Let_def insert_row_def e_key_def new moved) (rule exI, rule conjI, rule refl, simp)
qed

lemma shelf_job_status: "set_job_status ''j1'' ''awaiting_approval'' to' t (shelf n es rs ls as gs au) = shelf n es rs ls as gs au"
  by (simp add: set_job_status_def set_jobs_def set_tasks_def update_rows_def desk_job_def shelf_def)

lemma update_last:
  assumes "k \<notin> key ` set t" "key r = k"
  shows "update_rows (\<lambda>x. key x = k) f (t @ [r]) = t @ [f r]"
    "P r \<Longrightarrow> update_rows (\<lambda>x. key x = k \<and> P x) f (t @ [r]) = t @ [f r]"
  using assms by (induction t) (auto simp: update_rows_def)

definition sent_request :: "policy_effect \<Rightarrow> bytes \<Rightarrow> request_row" where
  "sent_request e cont = (new_request shelf_core (set_ai_policy (rt_settings shelf_runtime)) (toy_env 1000 []) desk_task e 0 cont)
     \<lparr>pr_status := ''dispatched'', pr_dispatched := 1000\<rparr>"

text \<open>An effect that is new, costs nothing and needs no approval is dispatched.\<close>

lemma shelf_begins:
  assumes "tidy n es rs ls as" "pe_id e \<noteq> []" "pe_id e \<notin> pr_id ` set rs" "pe_job e = ''j1''" "pe_reserve e = 0" "pe_epoch e = 0" "pe_session e = 0"
    "\<not> pe_required e"
  shows "\<exists>n' es' ls' as'. aiPolicyBegin shelf_runtime shelf_lib shelf_core (toy_env 1000 []) (shelf n es rs ls as gs au) e cont
      = (Dispatched (pe_id e), [Wake ''c''], shelf n' es' (rs @ [sent_request e cont]) ls' as' gs au)
    \<and> tidy n' es' (rs @ [sent_request e cont]) ls' as'"
proof -
  let ?p = "set_ai_policy (rt_settings (shelf_runtime :: unit storage_db_scheme runtime))" and ?t = "toy_env 1000 []"
  let ?q = "new_request shelf_core ?p ?t desk_task e 0 cont"
  let ?a = "?q\<lparr>pr_status := ''approved''\<rparr>"
  have given: "given_effect ?t e = e" using assms(2) by (simp add: given_effect_def)
  have id: "pr_id ?q = pe_id e" by (simp add: new_request_def)
  have fresh: "get_row pr_id (pe_id e) rs = None" using assms(3) by (auto simp: get_row_None_iff)
  have added: "insert_row pr_id ?q rs = Some (rs @ [?q])" by (simp add: insert_row_def id fresh)
  have set_new: "set_requests (\<lambda>r. pr_id r = pe_id e) ''approved'' 1000 (rs @ [?q]) = rs @ [?a]"
    using update_last(1) [OF assms(3) id] by (simp add: set_requests_def) (simp add: new_request_def desk_env)
  have "\<forall>l \<in> set ls. lg_request l \<noteq> pe_id e" using assms(1,3) unfolding tidy_def by (metis image_eqI subsetD)
  with shelf_reserve [of ls as "pe_id e" e 17 n es "rs @ [?a]" gs au] assms(1,5) obtain new as' where
    r: "aiPolicyReserveTx shelf_lib shelf_core ?p ?t 17 (pe_id e) desk_task e (shelf n es (rs @ [?a]) ls as gs au)
        = Some (shelf n es (rs @ [?a]) (ls @ new) as' gs au)"
      "lg_request ` set new = {pe_id e}" "ledger_tidy (ls @ new)" "accounts_tidy as'" unfolding tidy_def by blast
  let ?r = "sent_request e cont"
  have "\<forall>x \<in> set es. e_seq x \<le> n" using assms(1) by (simp add: tidy_def)
  from shelf_append [OF this] obtain x where
    x: "Append shelf_core (shift_env 26 ?t) (shelf n es (rs @ [?a]) (ls @ new) as' gs au) ''c'' ''ai.egress.notice'' [] (Some (notice_data shelf_lib e (pe_id e)))
      = Inr (n + 1, shelf (n + 1) (es @ [x]) (rs @ [?a]) (ls @ new) as' gs au)" "e_seq x = n + 1" by blast
  have sent: "update_rows (\<lambda>r. pr_id r = pe_id e \<and> pr_status r = ''approved'')
      (\<lambda>r. r\<lparr>pr_status := ''dispatched'', pr_dispatched := 1000, pr_updated := 1000\<rparr>) (rs @ [?a]) = rs @ [?r]"
    using update_last(2) [OF assms(3), of ?a "\<lambda>r. pr_status r = ''approved''"]
    by (simp add: id) (simp add: sent_request_def new_request_def desk_env)
  have task: "ti_status desk_task = ''running''" "ti_epoch desk_task = 0" "ti_chat desk_task = ''c''" by (simp_all add: desk_task_def)
  have rows: "dispatch_rows shelf_lib shelf_core ?p ?t 17 (pe_id e) desk_task e (shelf n es (rs @ [?a]) ls as gs au)
      = Some (shelf (n + 1) (es @ [x]) (rs @ [?r]) (ls @ new) as' gs au)"
    using x(1) by (simp add: dispatch_rows_def r(1) desk_env(1,2) task sent assms(4) shelf_job_status)
  have row: "get_row pr_id (pe_id e) (rs @ [?a]) = Some ?a" using fresh by (simp add: get_row_append id)
  have live: "\<not> pr_expires ?a \<le> 1000" by (simp add: new_request_def desk_env shelf_policy maxInt_def)
  have "aiPolicyDispatchTx shelf_lib shelf_core ?p ?t 12 (pe_id e) desk_task e (shelf n es (rs @ [?a]) ls as gs au)
      = Inr (shelf (n + 1) (es @ [x]) (rs @ [?r]) (ls @ new) as' gs au)"
    using live rows by (simp add: aiPolicyDispatchTx_def desk_env(1,2) task shelf_authorized row shelf_policy assms(8))
  then have "begin_new shelf_lib shelf_core ?p ?t desk_task e 0 cont (shelf n es rs ls as gs au)
      = (Dispatched (pe_id e), [Wake ''c''], shelf (n + 1) (es @ [x]) (rs @ [?r]) (ls @ new) as' gs au)"
    by (simp add: begin_new_def desk_env(1,2) added shelf_policy assms(8) set_new begin_dispatch_def task)
  moreover have "filter (\<lambda>r. pr_id r = pe_id e \<and> pr_job r = pe_job e) rs = []" using assms(3) by (simp add: filter_empty_conv) (metis image_eqI)
  ultimately have "aiPolicyBegin shelf_runtime shelf_lib shelf_core ?t (shelf n es rs ls as gs au) e cont
      = (Dispatched (pe_id e), [Wake ''c''], shelf (n + 1) (es @ [x]) (rs @ [?r]) (ls @ new) as' gs au)"
    using assms(4-8) by (simp add: aiPolicyBegin_def Let_def given shelf_policy desk_env shelf_task shelf_authorized shelf_session task query_row_def)
  moreover have "tidy (n + 1) (es @ [x]) (rs @ [?r]) (ls @ new) as'"
  proof -
    have "aiPolicyOpenStored shelf_lib shelf_core (pr_id ?r) (pr_payload ?r) = Some shelf_effect_stored"
      by (simp add: aiPolicyOpenStored_def sent_request_def new_request_def seal_stored_def)
    moreover have "pr_id ?r = pe_id e" by (simp add: sent_request_def new_request_def)
    moreover have "\<forall>y \<in> set (es @ [x]). e_seq y \<le> n + 1" using assms(1) x(2) by (auto simp: tidy_def)
    moreover have "lg_request ` set (ls @ new) \<subseteq> pr_id ` set (rs @ [?r])" using assms(1) r(2) calculation(2) by (auto simp: tidy_def)
    ultimately show ?thesis using assms(1) r(3,4) by (simp add: tidy_def)
  qed
  ultimately show ?thesis by blast
qed

subsection \<open>Settling an effect\<close>

lemma shelf_settle_rows:
  assumes "ledger_tidy ls" "\<forall>l \<in> set todo. \<forall>x \<in> set ls. lg_id x = lg_id l \<longrightarrow> lg_key x = lg_key l"
    "\<forall>l \<in> set todo. open_amounts shelf_lib shelf_core (lg_amounts l) (amounts_aad (lg_request l) (lg_scope l)) = Some no_amounts"
  shows "\<exists>ls'. settle_rows shelf_lib shelf_core (set_ai_policy (rt_settings shelf_runtime)) (toy_env 1000 []) k ''uncertain'' actual False u todo
      (shelf n es rs ls as gs au) = Some (shelf n es rs ls' as gs au) \<and> ledger_tidy ls' \<and> map lg_request ls' = map lg_request ls"
  using assms
proof (induction todo arbitrary: ls k)
  case (Cons l todo)
  let ?f = "\<lambda>x. x\<lparr>lg_amounts := Seal (prim shelf_core) (eng shelf_core) (draws (toy_env 1000 []) k)
      (amounts_json \<lparr>am_reserved = am_reserved no_amounts, am_cost = 0, am_used = 0, am_input = us_input u, am_output = us_output u,
         am_cache_read = us_cache_read u, am_cache_write = us_cache_write u, am_known = False,
         am_currency = po_currency (set_ai_policy (rt_settings (shelf_runtime :: unit storage_db_scheme runtime)))\<rparr>)
      (amounts_aad (lg_request l) (lg_scope l)), lg_status := ''uncertain'', lg_updated := 1000\<rparr>"
  let ?ls = "update_rows (\<lambda>x. lg_id x = lg_id l) ?f ls"
  have row: "settle_row shelf_lib shelf_core (set_ai_policy (rt_settings shelf_runtime)) (toy_env 1000 []) k ''uncertain'' actual False u l
      (shelf n es rs ls as gs au) = Some (shelf n es rs ?ls as gs au)"
    using Cons.prems(3) by (simp add: settle_row_def Let_def desk_env(1,2))
  have maps: "map lg_id ?ls = map lg_id ls" "map lg_request ?ls = map lg_request ls" "map lg_key ?ls = map lg_key ls"
    by (simp_all add: map_update_rows lg_key_def)
  have "ledger_tidy ?ls"
    using Cons.prems(1,2) unfolding ledger_tidy_def maps
    by (auto simp: set_update_rows open_amounts_def lg_key_def)
  moreover have "\<forall>l' \<in> set todo. \<forall>x \<in> set ?ls. lg_id x = lg_id l' \<longrightarrow> lg_key x = lg_key l'"
    using Cons.prems(2) by (auto simp: set_update_rows lg_key_def)
  ultimately obtain ls' where "settle_rows shelf_lib shelf_core (set_ai_policy (rt_settings shelf_runtime)) (toy_env 1000 []) (k + 3) ''uncertain''
      actual False u todo (shelf n es rs ?ls as gs au) = Some (shelf n es rs ls' as gs au)" "ledger_tidy ls'" "map lg_request ls' = map lg_request ?ls"
    using Cons.IH [of ?ls "k + 3"] Cons.prems(3) by auto
  with row maps(2) show ?case by (intro exI [of _ ls']) (simp del: shelf_core_simps)
next
  case Nil
  then show ?case by (intro exI [of _ ls]) simp
qed

lemma shelf_settles:
  assumes "tidy n es rs ls as" "get_row pr_id i rs = Some r" "pr_status r = ''dispatched''" "\<not> us_known u"
  shows "\<exists>rs' ls'. aiPolicySettle shelf_lib shelf_core (set_ai_policy (rt_settings shelf_runtime)) (toy_env 1000 []) (shelf n es rs ls as gs au)
      i u outcome = (True, shelf n es rs' ls' as gs au) \<and> tidy n es rs' ls' as \<and> map pr_id rs' = map pr_id rs"
proof -
  let ?p = "set_ai_policy (rt_settings (shelf_runtime :: unit storage_db_scheme runtime))" and ?t = "toy_env 1000 []"
  let ?rs = "update_rows (\<lambda>x. pr_id x = i) (\<lambda>x. x\<lparr>pr_status := ''uncertain'', pr_outcome := outcome, pr_updated := 1000\<rparr>) rs"
  have r: "r \<in> set rs" "pr_id r = i" using get_row_SomeD [OF assms(2)] by simp_all
  with assms(1) have stored: "aiPolicyOpenStored shelf_lib shelf_core i (pr_payload r) = Some shelf_effect_stored" unfolding tidy_def by blast
  have e: "\<not> usage_known (so_effect shelf_effect_stored) u" "reserve_of ?p (so_effect shelf_effect_stored) = 0"
    using assms(4) by (simp_all add: shelf_effect_stored_def no_effect_def usage_known_def reserve_of_def shelf_policy)
  have ledger: "ledger_tidy ls" using assms(1) by (simp add: tidy_def)
  then have "\<forall>l \<in> set (filter (\<lambda>l. lg_request l = i) ls). \<forall>x \<in> set ls. lg_id x = lg_id l \<longrightarrow> lg_key x = lg_key l"
    unfolding ledger_tidy_def by (auto simp: distinct_map inj_on_def)
  with shelf_settle_rows [OF ledger this, of 3 0 u n es rs as gs au] ledger obtain ls' where
    rows: "settle_rows shelf_lib shelf_core ?p ?t 3 ''uncertain'' 0 False u (filter (\<lambda>l. lg_request l = i) ls) (shelf n es rs ls as gs au)
      = Some (shelf n es rs ls' as gs au)" and ls': "ledger_tidy ls'" "map lg_request ls' = map lg_request ls"
    unfolding ledger_tidy_def by auto
  have "aiPolicySettle shelf_lib shelf_core ?p ?t (shelf n es rs ls as gs au) i u outcome = (True, shelf n es ?rs ls' as gs au)"
    using rows by (simp add: aiPolicySettle_def desk_env(1,2) assms(2,3) stored e Let_def)
  moreover have ids: "map pr_id ?rs = map pr_id rs" by (simp add: map_update_rows)
  moreover have "tidy n es ?rs ls' as"
  proof -
    have "set (map lg_request ls') \<subseteq> set (map pr_id ?rs)" unfolding ls'(2) ids using assms(1) by (simp add: tidy_def)
    moreover have "\<forall>r \<in> set ?rs. aiPolicyOpenStored shelf_lib shelf_core (pr_id r) (pr_payload r) = Some shelf_effect_stored"
      using assms(1) by (auto simp: tidy_def set_update_rows)
    ultimately show ?thesis using assms(1) ls'(1) by (simp add: tidy_def)
  qed
  ultimately show ?thesis by blast
qed

subsection \<open>Reading under the grant\<close>

lemma hex_field: "bs \<noteq> [] \<Longrightarrow> length bs \<le> 512 \<Longrightarrow> grantField (hex_encode bs)"
proof -
  assume bs: "bs \<noteq> []" "length bs \<le> 512"
  have digits: "\<forall>c \<in> set (hex_encode bs). 48 \<le> byte c" for bs
  proof (induction bs)
    case (Cons b bs)
    have "byte b div 16 < 16" "byte b mod 16 < 16" using byte_less_256 [of b] by linarith+
    with Cons show ?case by (simp add: byte_hex_digit)
  qed simp
  have no: "chr k \<notin> set (hex_encode bs)" if "k < 48" for k
  proof
    assume "chr k \<in> set (hex_encode bs)"
    with digits have "48 \<le> byte (chr k)" by blast
    with that show False by simp
  qed
  have "hex_encode bs \<noteq> []" using bs(1) by (cases bs) simp_all
  with bs(2) no [of 0] no [of 13] no [of 10] show ?thesis by (simp add: grantField_def)
qed

lemma shelf_digest: "digest shelf_core b = hex_encode (pad 48 b)" "pad 48 b \<noteq> []"
  by (simp_all add: digest_def flip: length_greater_0_conv)

lemma shelf_effect_simps: "pe_id shelf_effect = hex_encode (pad 48 (effect_name ''j1'' ''tool'' 0 0))" "pe_job shelf_effect = ''j1''"
  "pe_reserve shelf_effect = 0" "pe_epoch shelf_effect = 0" "pe_session shelf_effect = 0" "\<not> pe_required shelf_effect"
  "pe_name shelf_effect = ''find''" "grantField (pe_hash shelf_effect)" "pe_hash shelf_effect \<noteq> []" "pe_id shelf_effect \<noteq> []"
proof -
  have hash: "\<exists>b. pe_hash shelf_effect = hex_encode (pad 48 b)" by (auto simp: shelf_effect_def makePolicyEffect_def shelf_digest)
  then show field: "grantField (pe_hash shelf_effect)" using hex_field [OF shelf_digest(2)] by auto
  then show "pe_hash shelf_effect \<noteq> []" by (simp add: grantField_def)
  show id: "pe_id shelf_effect = hex_encode (pad 48 (effect_name ''j1'' ''tool'' 0 0))"
    by (simp add: shelf_effect_def makePolicyEffect_def shelf_digest)
  have "length (pe_id shelf_effect) \<noteq> 0" unfolding id by simp
  then show "pe_id shelf_effect \<noteq> []" by auto
qed (simp_all add: shelf_effect_def makePolicyEffect_def fresh_state_def desk_task_def)

lemma shelf_verified: "vaultVerify shelf_runtime shelf_grants shelf_state 1000 shelf_token = Some shelf_claims"
proof -
  have "reads_claims shelf_grants shelf_claims" "reads_header shelf_grants" "signs shelf_grants [] (pad 32 []) (grant_input shelf_claims)"
    using claims_json_header by (simp_all add: reads_claims_def reads_header_def signs_def shelf_grants_def toy_grant_lib_def o_def)
  moreover have "grantField (pe_id shelf_effect)" unfolding shelf_effect_simps by (rule hex_field) (simp_all flip: length_greater_0_conv)
  then have "list_all grantField (claim_fields shelf_claims)" "cl_action shelf_claims \<in> set grant_actions"
    using shelf_effect_simps(8)
    by (simp_all add: claim_fields_def shelf_claims_def grant_actions_def) (simp add: grantField_def shelf_destination_def char_of_def)
  moreover have "(0::int) < 300 * second" by (simp add: second_def)
  moreover have "claims_current ''qgramm-backend'' ''qgramm-ai-storage'' (300 * second) 1000 shelf_claims"
    by (simp add: claims_current_def shelf_claims_def wrap64_def second_def Let_def)
  ultimately show ?thesis
    using Verify_token [of shelf_grants shelf_claims "[]" "pad 32 []" "300 * second" "''qgramm-backend''" "''qgramm-ai-storage''" 1000]
    by (simp add: vaultVerify_def shelf_state_def shelf_policy default_storage_section_def shelf_token_def Let_def)
qed

lemma shelf_env [simp]: "shift_env k (toy_env t u) = toy_env t u" "flt (toy_env t u) = no_faults" "now (toy_env t u) = t" "shift_faults k no_faults = no_faults"
  "no_faults k = False"
  by (simp_all add: shift_env_def toy_env_def shift_faults_def no_faults_def fun_eq_iff)

lemma shelf_claimed: "used = 0 \<or> used = 1000 \<Longrightarrow> vaultClaimsTx shelf_runtime shelf_grants shelf_core shelf_state False False
    (shelf n es rs ls as [shelf_grant used] au) 1000 (pe_id shelf_effect) = Some (shelf_claims, used)"
  by (simp add: vaultClaimsTx_def shelf_grant_def shelf_verified)

lemma shelf_ready:
  assumes "get_row pr_id (pe_id shelf_effect) rs = Some (sent_request shelf_effect cont)"
  shows "grant_ready shelf_runtime shelf_storage shelf_core shelf_state (toy_env 1000 []) (shelf n es rs ls as [shelf_grant 0] au) ''j1''
      (pe_id shelf_effect) None shelf_tool shelf_destination = Some (shelf_claims, ''shared/bob'')"
proof -
  have row: "pr_status (sent_request shelf_effect cont) = ''dispatched''" "pr_name (sent_request shelf_effect cont) = tl_name shelf_tool"
    "pr_job (sent_request shelf_effect cont) = ''j1''" "claims_bound shelf_claims (sent_request shelf_effect cont) desk_task shelf_tool shelf_destination"
    by (simp_all add: sent_request_def new_request_def shelf_effect_simps(2,7,9) shelf_tool_def claims_bound_def shelf_claims_def
        same_source_def desk_task_def Authorize_def aiPolicyEffectHash_def)
  have t: "ti_status desk_task = ''running''" "tl_resource shelf_tool = ''r''" "sl_grants shelf_storage = shelf_grants"
    by (simp_all add: desk_task_def shelf_tool_def shelf_storage_def)
  show ?thesis
    by (simp add: grant_ready_def shelf_task shelf_authorized shelf_claimed assms row t shelf_readable)
qed

definition shelf_resource :: resource where
  "shelf_resource = \<lparr>re_id = ''r'', re_scope = ''shared'', re_owner = ''bob'', re_visible = False, re_metadata = [], re_created = 1000\<rparr>"

definition shelf_text :: string where
  "shelf_text = hit_json toy_vault_lib shelf_resource ''d1'' (toy_document ''ab'') 0"

lemma shelf_document: "GetDocument toy_vault toy_vault_lib no_faults (shelf n es rs ls as gs au) ''r'' ''d1'' = Inr (toy_document ''ab'', shelf_resource)"
proof -
  have "ResourceByID toy_vault False (shelf n es rs ls as gs au) ''r'' = Inr shelf_resource"
    by (simp add: ResourceByID_def toy_resource_def toy_vault_simps toy_vault_opens shelf_resource_def)
  moreover have "validateDocumentPayload toy_vault toy_vault_lib (toy_document ''ab'')"
    by (simp add: validateDocumentPayload_def toy_vault_simps toy_document_simps validateVector_def boundedJSON_def toy_json toy_texts)
  ultimately show ?thesis
    by (simp add: GetDocument_def toy_row_def query_row_def toy_vault_simps toy_vault_opens toy_lib_simps)
qed

lemma shelf_text_length: "length shelf_text \<le> 1000"
  by code_simp

definition shelf_boundary :: boundary where
  "shelf_boundary = \<lparr>bo_label = ''shared/bob'', bo_destination = shelf_destination, bo_requests = [pe_id shelf_effect]\<rparr>"

lemma shelf_reads:
  assumes "get_row pr_id (pe_id shelf_effect) rs = Some (sent_request shelf_effect cont)"
  shows "aiVaultTool shelf_runtime shelf_storage shelf_core shelf_state shelf_section (toy_env 1000 []) (shelf n es rs ls as [shelf_grant 0] au)
      ''j1'' (pe_id shelf_effect) None shelf_tool args
    = (Some shelf_text, Some shelf_boundary, shelf n es rs ls as [shelf_grant 1000] au)"
proof -
  have one: "count_rows (\<lambda>g. sg_nonce g = cl_nonce shelf_claims \<and> sg_used g = 0 \<and> \<not> sg_revoked g) [shelf_grant 0] = 1"
    "use_storage_grant 1000 (cl_nonce shelf_claims) [shelf_grant 0] = [shelf_grant 1000]"
    by (simp_all add: count_rows_def use_storage_grant_def update_rows_def shelf_grant_def shelf_claims_def)
  have query: "vaultQuery (ss_vault \<lparr>ss_vault = toy_vault, ss_key = pad 32 []\<rparr>) shelf_storage no_faults (shelf n es rs ls as gs au) (tl_resource shelf_tool)
      (tl_action shelf_tool) args (st_results (set_ai_storage (rt_settings shelf_runtime))) = Some shelf_text" for gs
    using shelf_text_length
    by (simp add: vaultQuery_def shelf_storage_def shelf_tool_def shelf_policy default_storage_section_def Let_def read_json_def
        shelf_document toy_lib_simps flip: shelf_text_def)
  show ?thesis
    using shelf_ready [OF assms, of n es ls as au]
    by (simp add: aiVaultTool_def shelf_effect_simps(10) shelf_provider one query [simplified] shelf_state_def extend_boundary_def shelf_boundary_def Let_def)
qed

subsection \<open>The conversation\<close>

definition shelf_ask :: "unit storage_db_scheme \<Rightarrow> turn list \<Rightarrow> answer option \<times> usage \<times> unit storage_db_scheme" where
  "shelf_ask s ts = (Some (if ts = [] then \<lparr>an_text = [], an_calls = [shelf_call]\<rparr> else \<lparr>an_text = ''ab'', an_calls = []\<rparr>), no_usage, s)"

definition shelf_name :: "int \<Rightarrow> ident" where
  "shelf_name step = hex_encode (pad 48 (effect_name ''j1'' ''provider'' step (- 1)))"

lemma shelf_names: "shelf_name 0 \<noteq> shelf_name 1" "shelf_name 0 \<noteq> pe_id shelf_effect" "shelf_name 1 \<noteq> pe_id shelf_effect"
  "shelf_name step \<noteq> []"
proof -
  have "length (shelf_name step) \<noteq> 0" by (simp add: shelf_name_def)
  then show "shelf_name step \<noteq> []" by auto
  have "pad 48 (effect_name ''j1'' ''provider'' 0 (- 1)) \<noteq> pad 48 (effect_name ''j1'' ''provider'' 1 (- 1))"
    "pad 48 (effect_name ''j1'' ''provider'' 0 (- 1)) \<noteq> pad 48 (effect_name ''j1'' ''tool'' 0 0)"
    "pad 48 (effect_name ''j1'' ''provider'' 1 (- 1)) \<noteq> pad 48 (effect_name ''j1'' ''tool'' 0 0)" by code_simp+
  then show "shelf_name 0 \<noteq> shelf_name 1" "shelf_name 0 \<noteq> pe_id shelf_effect" "shelf_name 1 \<noteq> pe_id shelf_effect"
    by (simp_all add: shelf_name_def shelf_effect_simps(1))
qed

lemma shelf_flush: "px_flush shelf_externals s = (True, s)" "px_provider shelf_externals = Some shelf_ask"
  "aiCanonicalArguments shelf_externals b = Some ''{}''"
  by (simp_all add: shelf_externals_def shelf_ask_def fun_eq_iff aiCanonicalArguments_def) code_simp

lemma shelf_effect_begins:
  assumes "tidy n es rs ls as" "rn_store r = shelf n es rs ls as gs au" "pe_id e \<noteq> []" "pe_id e \<notin> pr_id ` set rs" "pe_job e = ''j1''" "pe_reserve e = 0"
    "pe_epoch e = 0" "pe_session e = 0" "\<not> pe_required e"
  obtains n' es' ls' as' cont where "begin_effect shelf_world (toy_env 1000 []) e c r
      = (Inr (pe_id e), run_db (shelf n' es' (rs @ [sent_request e cont]) ls' as' gs au) [Wake ''c''] r)"
    "tidy n' es' (rs @ [sent_request e cont]) ls' as'"
  using shelf_begins [OF assms(1,3-9), where cont = "state_json c" and gs = gs and au = au] assms(2) by (auto simp: begin_effect_def shelf_flush)

lemma shelf_effect_settles:
  assumes "tidy n es rs ls as" "rn_store r = shelf n es rs ls as gs au" "get_row pr_id i rs = Some q" "pr_status q = ''dispatched''"
  obtains rs' ls' where "settlePolicyEffect shelf_world (toy_env 1000 []) i no_usage fine r = (True, run_db (shelf n es rs' ls' as gs au) [] r)"
    "tidy n es rs' ls' as" "map pr_id rs' = map pr_id rs"
proof -
  have "\<not> us_known no_usage" by (simp add: no_usage_def)
  from shelf_settles [OF assms(1,3,4) this, where gs = gs and au = au and outcome = "if fine then ''succeeded'' else ''uncertain''"] assms(2) show ?thesis
    by (auto simp: settlePolicyEffect_def intro: that)
qed

lemma sent_row: "pe_id e \<notin> pr_id ` set rs \<Longrightarrow> get_row pr_id (pe_id e) (rs @ [sent_request e cont]) = Some (sent_request e cont)"
  "pr_id (sent_request e cont) = pe_id e" "pr_status (sent_request e cont) = ''dispatched''"
proof -
  show id: "pr_id (sent_request e cont) = pe_id e" by (simp add: sent_request_def new_request_def)
  show "pr_status (sent_request e cont) = ''dispatched''" by (simp add: sent_request_def)
  assume "pe_id e \<notin> pr_id ` set rs"
  then have "get_row pr_id (pe_id e) rs = None" by (auto simp: get_row_None_iff)
  then show "get_row pr_id (pe_id e) (rs @ [sent_request e cont]) = Some (sent_request e cont)" by (simp add: get_row_append id)
qed

lemma run_db_calls: "rn_calls (run_db s es r) = rn_calls r" "rn_store (run_db s es r) = s" "rn_calls (r\<lparr>rn_calls := xs\<rparr>) = xs"
  by (simp_all add: run_db_def)

lemma shelf_asks:
  assumes "tidy n es rs ls as" "rn_store r = shelf n es rs ls as gs au" "shelf_name (co_step c) \<notin> pr_id ` set rs" "co_epoch c = 0" "co_session c = 0"
    "may_release shelf_world (toy_env 1000 []) (rn_store r) ''j1'' (co_boundary c) ''provider'' shelf_destination"
  obtains n' es' rs' ls' as' r' s where "ask_provider shelf_world shelf_ask shelf_section (\<lambda>_. toy_env 1000 []) ''j1'' tools c r
      = (if co_turns c = [] then Inr (c\<lparr>co_turns := [(assistant_turn [])\<lparr>tu_calls := [shelf_call]\<rparr>], co_calls := [shelf_call],
           co_next := 0, co_needed := False\<rparr>) else Inl (Answer ''ab''), r')"
    "rn_store r' = shelf n' es' rs' ls' as' gs au" "tidy n' es' rs' ls' as'" "map pr_id rs' = map pr_id rs @ [shelf_name (co_step c)]"
    "rn_calls r' = rn_calls r @ [PolicyAsk (rn_store r) s (shelf_name (co_step c)) shelf_destination (co_boundary c) (co_turns c)]"
proof -
  let ?e = "provider_effect shelf_world shelf_section ''j1'' ''openai'' shelf_destination tools c"
  have e: "pe_id ?e = shelf_name (co_step c)" "pe_job ?e = ''j1''" "pe_reserve ?e = 0" "pe_epoch ?e = 0" "pe_session ?e = 0" "\<not> pe_required ?e"
    using assms(4,5) by (simp_all add: provider_effect_def makePolicyEffect_def shelf_digest shelf_name_def shelf_policy Let_def)
  from shelf_effect_begins [OF assms(1,2), of ?e c] assms(3) e shelf_names(4) obtain n' es' ls' as' cont where
    b: "begin_effect shelf_world (toy_env 1000 []) ?e c r
      = (Inr (shelf_name (co_step c)), run_db (shelf n' es' (rs @ [sent_request ?e cont]) ls' as' gs au) [Wake ''c''] r)"
    and t: "tidy n' es' (rs @ [sent_request ?e cont]) ls' as'" by metis
  let ?s = "shelf n' es' (rs @ [sent_request ?e cont]) ls' as' gs au"
  let ?r1 = "run_db ?s [Wake ''c''] r"
  let ?r2 = "(run_db ?s [] ?r1)\<lparr>rn_calls := rn_calls ?r1 @
    [PolicyAsk (rn_store r) ?s (shelf_name (co_step c)) shelf_destination (co_boundary c) (co_turns c)]\<rparr>"
  have "rn_store ?r2 = ?s" by (simp add: run_db_def)
  moreover have "get_row pr_id (shelf_name (co_step c)) (rs @ [sent_request ?e cont]) = Some (sent_request ?e cont)"
    using sent_row(1) [of ?e rs cont] assms(3) e(1) by simp
  ultimately obtain rs' ls'' where st: "settlePolicyEffect shelf_world (toy_env 1000 []) (shelf_name (co_step c)) no_usage True ?r2
      = (True, run_db (shelf n' es' rs' ls'' as' gs au) [] ?r2)" "tidy n' es' rs' ls'' as'" "map pr_id rs' = map pr_id (rs @ [sent_request ?e cont])"
    using shelf_effect_settles [OF t] sent_row(3) by metis
  let ?r3 = "run_db (shelf n' es' rs' ls'' as' gs au) [] ?r2"
  have "ask_provider shelf_world shelf_ask shelf_section (\<lambda>_. toy_env 1000 []) ''j1'' tools c r
      = (if co_turns c = [] then Inr (c\<lparr>co_turns := [(assistant_turn [])\<lparr>tu_calls := [shelf_call]\<rparr>], co_calls := [shelf_call],
           co_next := 0, co_needed := False\<rparr>) else Inl (Answer ''ab''), ?r3)"
    using assms(6) b st(1) by (simp add: ask_provider_def assms(2) shelf_provider shelf_ask_def run_db_def Let_def)
  moreover have "rn_store ?r3 = shelf n' es' rs' ls'' as' gs au" by (rule run_db_calls)
  moreover have "rn_calls ?r3 = rn_calls r @ [PolicyAsk (rn_store r) ?s (shelf_name (co_step c)) shelf_destination (co_boundary c) (co_turns c)]"
    unfolding run_db_calls ..
  moreover have "map pr_id rs' = map pr_id rs @ [shelf_name (co_step c)]" using st(3) e(1) by (simp add: sent_row(2))
  ultimately show ?thesis using st(2) by (intro that)
qed

text \<open>The state once the provider has called the tool, and after the tool.\<close>

definition shelf_state1 :: policy_state where
  "shelf_state1 = (fresh_state desk_task 0 [])\<lparr>co_turns := [(assistant_turn [])\<lparr>tu_calls := [shelf_call]\<rparr>], co_calls := [shelf_call],
     co_next := 0, co_needed := False\<rparr>"

definition shelf_state2 :: policy_state where
  "shelf_state2 = shelf_state1\<lparr>co_turns := co_turns shelf_state1 @ [tool_turn shelf_call shelf_text], co_next := 1,
     co_boundary := Some shelf_boundary\<rparr>"

lemma shelf_state1_simps: "co_step shelf_state1 = 0" "co_next shelf_state1 = 0" "co_boundary shelf_state1 = None" "co_calls shelf_state1 = [shelf_call]"
  "bind_arguments ''{}'' shelf_state1 = shelf_state1" "tool_effect shelf_world shelf_section ''j1'' shelf_tool ''{}'' shelf_state1 = shelf_effect"
  by (simp_all add: shelf_state1_def fresh_state_def bind_arguments_def Let_def shelf_call_def assistant_turn_def tool_effect_def shelf_effect_def
      makePolicyEffect_def effect_print_def tool_destination_def) (simp_all add: shelf_tool_def)

lemma shelf_executed:
  assumes "get_row pr_id (pe_id shelf_effect) rs = Some (sent_request shelf_effect cont)"
  obtains au' where "aiExecuteTool shelf_runtime (ticket_tools shelf_world shelf_section (toy_env 1000 []) ''j1'' (pe_id shelf_effect) None)
      (aiLimits shelf_section) False 1000 ''j1'' shelf_tool shelf_call (shelf n es rs ls as [shelf_grant 0] au)
    = (Some shelf_text, shelf n es rs ls as [shelf_grant 1000] au')"
    "boundary_after shelf_world shelf_section (toy_env 1000 []) ''j1'' (pe_id shelf_effect) None shelf_tool (ca_arguments shelf_call)
      (shelf n es rs ls as [shelf_grant 0] au) = Some shelf_boundary"
proof -
  have run: "vault_run shelf_world shelf_section (toy_env 1000 []) ''j1'' (pe_id shelf_effect) None shelf_tool args (shelf n es rs ls as [shelf_grant 0] au)
      = (Some shelf_text, Some shelf_boundary, shelf n es rs ls as [shelf_grant 1000] au)" for args
    by (simp add: vault_run_def shelf_reads [OF assms])
  have limit: "rl_response (tool_limits (aiLimits shelf_section) shelf_tool) = 2 ^ 20"
    by (simp add: tool_limits_def aiLimits_def tighter_def shelf_tool_def shelf_section_def default_ai_section_def)
  have kind: "tl_kind shelf_tool = ''storage''" by (simp add: shelf_tool_def)
  show ?thesis
    by (rule that, use shelf_text_length in \<open>simp add: aiExecuteTool_def ticket_tools_def kind run shelf_effect_simps(10) limit aiAudit_def audit_def\<close>)
      (simp add: boundary_after_def kind run)
qed

lemma shelf_tool_runs:
  assumes "tidy n es rs ls as" "rn_store r = shelf n es rs ls as [shelf_grant 0] au" "pe_id shelf_effect \<notin> pr_id ` set rs"
  obtains n' es' rs' ls' as' au' r' s where "policy_tool shelf_world shelf_section (\<lambda>_. toy_env 1000 []) ''j1'' [shelf_tool] shelf_state1 r
      = (Inr shelf_state2, r')"
    "rn_store r' = shelf n' es' rs' ls' as' [shelf_grant 1000] au'" "tidy n' es' rs' ls' as'" "map pr_id rs' = map pr_id rs @ [pe_id shelf_effect]"
    "rn_calls r' = rn_calls r @ [PolicyTool (rn_store r) s (pe_id shelf_effect) shelf_tool None shelf_call]"
proof -
  have auth: "aiAuthorizedTool shelf_runtime shelf_tools no_faults (rn_store r) ''j1'' shelf_call [shelf_tool] = Inr shelf_tool"
    unfolding assms(2) by (simp add: aiAuthorizedTool_def shelf_call_def shelf_policy shelf_allowed current_tools_def desk_job_def query_row_def
        aiCheckArguments_def shelf_tools_def) (simp add: shelf_tool_def)
  have release: "may_release shelf_world env s ''j1'' None action destination" for env s action destination
    by (simp add: may_release_def aiVaultRelease_def)
  have pre: "aiVaultPreflight shelf_core (toy_env 1000 []) (rn_store r) ''j1'' (pe_id shelf_effect) = (Proceed, [], rn_store r)"
  proof -
    have "filter (\<lambda>r. pr_id r = pe_id shelf_effect \<and> pr_job r = ''j1'') rs = []" using assms(3) by (simp add: filter_empty_conv) (metis image_eqI)
    then show ?thesis unfolding assms(2) by (simp add: aiVaultPreflight_def query_row_def)
  qed
  have call: "shelf_call\<lparr>ca_arguments := ''{}''\<rparr> = shelf_call" "ca_arguments shelf_call = ''{}''" "tl_kind shelf_tool = ''storage''"
    by (simp_all add: shelf_call_def shelf_tool_def)
  let ?r0 = "run_db (rn_store r) [] r"
  have run: "policy_tool shelf_world shelf_section (\<lambda>_. toy_env 1000 []) ''j1'' [shelf_tool] shelf_state1 r
      = run_tool shelf_world shelf_section (\<lambda>_. toy_env 1000 []) ''j1'' shelf_tool shelf_call (rn_store r) shelf_state1 ?r0"
    by (simp add: policy_tool_def Let_def shelf_state1_simps auth release shelf_flush call pre)
  from shelf_effect_begins [OF assms(1), of ?r0 "[shelf_grant 0]" au shelf_effect shelf_state1] assms(2,3) shelf_effect_simps obtain n' es' ls' as' cont where
    b: "begin_effect shelf_world (toy_env 1000 []) shelf_effect shelf_state1 ?r0
      = (Inr (pe_id shelf_effect), run_db (shelf n' es' (rs @ [sent_request shelf_effect cont]) ls' as' [shelf_grant 0] au) [Wake ''c''] ?r0)"
    and t: "tidy n' es' (rs @ [sent_request shelf_effect cont]) ls' as'" by (metis run_db_calls(2))
  let ?rs = "rs @ [sent_request shelf_effect cont]"
  let ?s = "shelf n' es' ?rs ls' as' [shelf_grant 0] au"
  note row = sent_row(1) [OF assms(3), of cont]
  obtain au' where x: "aiExecuteTool shelf_runtime (ticket_tools shelf_world shelf_section (toy_env 1000 []) ''j1'' (pe_id shelf_effect) None)
      (aiLimits shelf_section) False 1000 ''j1'' shelf_tool shelf_call ?s = (Some shelf_text, shelf n' es' ?rs ls' as' [shelf_grant 1000] au')"
    "boundary_after shelf_world shelf_section (toy_env 1000 []) ''j1'' (pe_id shelf_effect) None shelf_tool (ca_arguments shelf_call) ?s
      = Some shelf_boundary" by (rule shelf_executed [OF row])
  let ?r1 = "run_db ?s [Wake ''c''] ?r0"
  let ?r2 = "(run_db (shelf n' es' ?rs ls' as' [shelf_grant 1000] au') [] ?r1)\<lparr>rn_calls := rn_calls ?r1 @
    [PolicyTool (rn_store r) ?s (pe_id shelf_effect) shelf_tool None shelf_call]\<rparr>"
  have "rn_store ?r2 = shelf n' es' ?rs ls' as' [shelf_grant 1000] au'" by (simp add: run_db_def)
  from shelf_effect_settles [OF t this row sent_row(3), where fine = True] obtain rs' ls'' where
    st: "settlePolicyEffect shelf_world (toy_env 1000 []) (pe_id shelf_effect) no_usage True ?r2
      = (True, run_db (shelf n' es' rs' ls'' as' [shelf_grant 1000] au') [] ?r2)" "tidy n' es' rs' ls'' as'" "map pr_id rs' = map pr_id ?rs" .
  let ?r3 = "run_db (shelf n' es' rs' ls'' as' [shelf_grant 1000] au') [] ?r2"
  have "run_tool shelf_world shelf_section (\<lambda>_. toy_env 1000 []) ''j1'' shelf_tool shelf_call (rn_store r) shelf_state1 ?r0 = (Inr shelf_state2, ?r3)"
    using b x st(1) by (simp add: run_tool_def shelf_state1_simps call run_db_calls shelf_state2_def Let_def)
  with run have "policy_tool shelf_world shelf_section (\<lambda>_. toy_env 1000 []) ''j1'' [shelf_tool] shelf_state1 r = (Inr shelf_state2, ?r3)" by simp
  moreover have "rn_store ?r3 = shelf n' es' rs' ls'' as' [shelf_grant 1000] au'" by (rule run_db_calls)
  moreover have "rn_calls ?r3 = rn_calls r @ [PolicyTool (rn_store r) ?s (pe_id shelf_effect) shelf_tool None shelf_call]"
    unfolding run_db_calls ..
  moreover have "map pr_id rs' = map pr_id rs @ [pe_id shelf_effect]" using st(3) by (simp add: sent_row(2))
  ultimately show ?thesis using st(2) by (intro that)
qed

definition shelf_state3 :: policy_state where
  "shelf_state3 = shelf_state2\<lparr>co_step := co_step shelf_state2 + 1, co_needed := True, co_calls := [], co_next := 0\<rparr>"

lemma shelf_state3_simps: "co_step shelf_state3 = 1" "co_boundary shelf_state3 = Some shelf_boundary" "co_epoch shelf_state3 = 0"
  "co_session shelf_state3 = 0" "co_turns shelf_state3 \<noteq> []" "co_needed shelf_state3"
  by (simp_all add: shelf_state3_def shelf_state2_def shelf_state1_def fresh_state_def desk_task_def)

lemma json_escape_length: "length (json_escape s) \<le> 6 * length s"
proof (induction s rule: json_escape.induct)
  case (2 c cs)
  show ?case
  proof (cases "byte c < 128")
    case True
    moreover have "length (json_escape1 c) \<le> 6" by (simp add: json_escape1_def)
    ultimately show ?thesis using 2(1) by simp
  next
    case False
    let ?k = "utf8_size (c # cs)"
    show ?thesis
    proof (cases "?k = 0")
      case True
      with False 2(2) [OF False refl refl True] show ?thesis by (simp add: Let_def)
    next
      case pos: False
      have "length (take ?k (c # cs)) + 6 * length (drop (?k - 1) cs) \<le> 6 + 6 * length cs" using pos by (cases ?k) auto
      moreover have "6 + 6 * length (drop (?k - 1) cs) \<le> 6 + 6 * length cs" by simp
      ultimately show ?thesis using False pos 2(3) [OF False refl refl pos] by (auto simp: Let_def simp del: take_Suc_Cons length_take)
    qed
  qed
qed simp

lemma json_string_length: "length (json_string s) \<le> 6 * length s + 2"
  using json_escape_length [of s] by (simp add: json_string_def)

lemma shelf_context: "\<not> context_full shelf_section []" "\<not> context_full shelf_section (co_turns shelf_state3)"
proof -
  show "\<not> context_full shelf_section []" by code_simp
  have call: "length (call_json shelf_call) \<le> 200" by code_simp
  have "length (json_string shelf_text) \<le> 6002" using json_string_length [of shelf_text] shelf_text_length by simp
  with call json_string_length [of "''role''"] json_string_length [of "''content''"] json_string_length [of "''calls''"]
    json_string_length [of "''tool_call_id''"] json_string_length [of "''assistant''"] json_string_length [of "''tool''"] json_string_length [of "[]"]
    json_string_length [of "''k''"]
  have "length (turns_json (co_turns shelf_state3)) \<le> 10000"
    by (simp add: shelf_state3_def shelf_state2_def shelf_state1_def turns_json_def turn_json_def json_array_def json_object_def json_member_def
        omitempty_def assistant_turn_def tool_turn_def shelf_call_def [THEN arg_cong [where f = ca_id]])
  then show "\<not> context_full shelf_section (co_turns shelf_state3)"
    by (simp add: context_full_def shelf_section_def default_ai_section_def)
      (simp add: shelf_state3_def shelf_state2_def shelf_state1_def)
qed

lemma shelf_released: "may_release shelf_world (toy_env 1000 []) (shelf n es rs ls as [shelf_grant 1000] au) ''j1'' (Some shelf_boundary) ''provider''
    shelf_destination"
proof -
  have "shelf_claims = shelf_claims" "cl_destination shelf_claims = shelf_destination" "same_source shelf_claims desk_task" "cl_resource shelf_claims = ''r''"
    by (simp_all add: shelf_claims_def same_source_def desk_task_def)
  moreover have "sl_grants shelf_storage = shelf_grants" by (simp add: shelf_storage_def)
  ultimately show ?thesis
    by (simp add: may_release_def aiVaultRelease_def shelf_boundary_def shelf_task shelf_authorized released_def shelf_claimed shelf_readable)
qed

lemma shelf_answers:
  assumes "tidy n es rs ls as" "rn_store r = shelf n es rs ls as [shelf_grant 1000] au" "shelf_name 1 \<notin> pr_id ` set rs"
  obtains r' s where "policy_loop shelf_world shelf_ask shelf_section (\<lambda>_ _. toy_env 1000 []) ''j1'' [shelf_tool] (Suc k) m shelf_state3 r
      = (Answer ''ab'', r')"
    "rn_calls r' = rn_calls r @ [PolicyAsk (rn_store r) s (shelf_name 1) shelf_destination (Some shelf_boundary) (co_turns shelf_state3)]"
proof -
  note st = shelf_state3_simps
  have release: "may_release shelf_world (toy_env 1000 []) (rn_store r) ''j1'' (co_boundary shelf_state3) ''provider'' shelf_destination"
    unfolding assms(2) st by (rule shelf_released)
  from assms(3) have "shelf_name (co_step shelf_state3) \<notin> pr_id ` set rs" by (simp add: st)
  from assms(1,2) this st(3,4) release obtain r' s where
    a: "ask_provider shelf_world shelf_ask shelf_section (\<lambda>_. toy_env 1000 []) ''j1'' [shelf_tool] shelf_state3 r = (Inl (Answer ''ab''), r')"
      "rn_calls r' = rn_calls r @ [PolicyAsk (rn_store r) s (shelf_name 1) shelf_destination (Some shelf_boundary) (co_turns shelf_state3)]"
    by (rule shelf_asks [where tools = "[shelf_tool]"]) (simp add: st)
  have "aiEffectsAllowed no_faults (rn_store r) ''j1''" unfolding assms(2) by (rule shelf_allowed)
  with a(1) have "policy_loop shelf_world shelf_ask shelf_section (\<lambda>_ _. toy_env 1000 []) ''j1'' [shelf_tool] (Suc k) m shelf_state3 r
      = (Answer ''ab'', r')" by (simp add: shelf_context st)
  with a(2) show ?thesis by (rule that [rotated])
qed

definition shelf_start :: "unit storage_db_scheme" where
  "shelf_start = shelf 0 [] [] [] [] [shelf_grant 0] []"

text \<open>The whole conversation: the provider is asked, the document is read under the grant, and the provider is asked again.\<close>

lemma shelf_conversation:
  obtains r s1 s2 s3 s4 s5 where "runAIPolicyConversation shelf_world shelf_section (\<lambda>_ _. toy_env 1000 []) ''j1'' [] [shelf_tool] shelf_start
      = (Answer ''ab'', r)"
    "rn_calls r = [PolicyAsk shelf_start s1 (shelf_name 0) shelf_destination None [],
       PolicyTool s2 s3 (pe_id shelf_effect) shelf_tool None shelf_call,
       PolicyAsk s4 s5 (shelf_name 1) shelf_destination (Some shelf_boundary) (co_turns shelf_state3)]"
proof -
  let ?c0 = "fresh_state desk_task 0 []" and ?r0 = "\<lparr>rn_store = shelf_start, rn_effects = [], rn_calls = []\<rparr>"
  have c0: "co_step ?c0 = 0" "co_epoch ?c0 = 0" "co_session ?c0 = 0" "co_boundary ?c0 = None" "co_turns ?c0 = []" "co_needed ?c0"
    by (simp_all add: fresh_state_def desk_task_def)
  have tidy: "tidy 0 [] [] [] []" by (simp add: tidy_def ledger_tidy_def accounts_tidy_def)
  have release: "may_release shelf_world (toy_env 1000 []) (rn_store ?r0) ''j1'' (co_boundary ?c0) ''provider'' shelf_destination"
    by (simp add: c0 may_release_def aiVaultRelease_def)
  have fresh: "shelf_name (co_step ?c0) \<notin> pr_id ` set []" by simp
  have "rn_store ?r0 = shelf 0 [] [] [] [] [shelf_grant 0] []" by (simp add: shelf_start_def)
  from tidy this fresh c0(2,3) release obtain n es rs ls as r1 s1 where
    1: "ask_provider shelf_world shelf_ask shelf_section (\<lambda>_. toy_env 1000 []) ''j1'' [shelf_tool] ?c0 ?r0 = (Inr shelf_state1, r1)"
      "rn_store r1 = shelf n es rs ls as [shelf_grant 0] []" "tidy n es rs ls as" "map pr_id rs = [shelf_name 0]"
      "rn_calls r1 = [PolicyAsk shelf_start s1 (shelf_name 0) shelf_destination None []]"
    by (rule shelf_asks [where tools = "[shelf_tool]"]) (simp add: c0 shelf_state1_def)
  from arg_cong [OF 1(4), of set] shelf_names(2) have "pe_id shelf_effect \<notin> pr_id ` set rs" by simp
  from shelf_tool_runs [OF 1(3,2) this] obtain n' es' rs' ls' as' au' r2 s3 where
    2: "policy_tool shelf_world shelf_section (\<lambda>_. toy_env 1000 []) ''j1'' [shelf_tool] shelf_state1 r1 = (Inr shelf_state2, r2)"
      "rn_store r2 = shelf n' es' rs' ls' as' [shelf_grant 1000] au'" "tidy n' es' rs' ls' as'" "map pr_id rs' = map pr_id rs @ [pe_id shelf_effect]"
      "rn_calls r2 = rn_calls r1 @ [PolicyTool (rn_store r1) s3 (pe_id shelf_effect) shelf_tool None shelf_call]" .
  from arg_cong [OF 2(4), of set] 1(4) shelf_names(1,3) have "shelf_name 1 \<notin> pr_id ` set rs'" by auto
  from shelf_answers [OF 2(3,2) this, of 6 3] obtain r3 s5 where
    3: "policy_loop shelf_world shelf_ask shelf_section (\<lambda>_ _. toy_env 1000 []) ''j1'' [shelf_tool] (Suc 6) 3 shelf_state3 r2 = (Answer ''ab'', r3)"
      "rn_calls r3 = rn_calls r2 @ [PolicyAsk (rn_store r2) s5 (shelf_name 1) shelf_destination (Some shelf_boundary) (co_turns shelf_state3)]" .
  have start: "start_state shelf_world shelf_section (toy_env 1000 []) ''j1'' [] shelf_start = Some ?c0"
    by (simp add: start_state_def policyIdentity_def shelf_start_def shelf_task shelf_authorized shelf_session aiPolicySaved_def approved_request_def
        query_row_def count_rows_def aiBoundContext_def shrink_context.simps [of _ "[]"]) (simp add: desk_task_def)
  have allowed: "aiEffectsAllowed no_faults shelf_start ''j1''" unfolding shelf_start_def by (rule shelf_allowed)
  have steps: "nat (ai_steps shelf_section - co_step ?c0) = Suc (Suc 6)" by (simp add: c0 shelf_section_def default_ai_section_def)
  have one: "length (co_calls shelf_state1) - nat (co_next shelf_state1) = Suc 0" by (simp add: shelf_state1_simps)
  have "policy_loop shelf_world shelf_ask shelf_section (\<lambda>_ _. toy_env 1000 []) ''j1'' [shelf_tool] (Suc k) m ?c0 ?r0
      = policy_loop shelf_world shelf_ask shelf_section (\<lambda>_ _. toy_env 1000 []) ''j1'' [shelf_tool] k (Suc (Suc m)) shelf_state3 r2" for k m
    by (simp add: 1(1) 2(1) allowed shelf_context c0 one flip: shelf_state3_def)
  from this [of "Suc 6" 1] 3(1) have "policy_loop shelf_world shelf_ask shelf_section (\<lambda>_ _. toy_env 1000 []) ''j1'' [shelf_tool] (Suc (Suc 6)) 1 ?c0 ?r0
      = (Answer ''ab'', r3)" by (simp add: numeral_eq_Suc)
  then have "runAIPolicyConversation shelf_world shelf_section (\<lambda>_ _. toy_env 1000 []) ''j1'' [] [shelf_tool] shelf_start = (Answer ''ab'', r3)"
    by (simp only: runAIPolicyConversation_def shelf_world_simps shelf_flush start steps option.case Let_def)
  with 1(5) 2(5) 3(2) show ?thesis by (intro that) simp_all
qed

end
