(* ===== verification/ConversationProperties.thy ===== *)
theory ConversationProperties
  imports RunProperties Dialogue ShelfFixture
begin

text \<open>
  Properties of every conversation of a job, with the policy or without it (\<open>aiConversationWith\<close>), instantiated on the installation of
  \<open>ShelfFixture\<close>, where the provider asks for a document of the storage.
\<close>

subsection \<open>How many calls a conversation under the policy makes\<close>

definition policy_asks :: "'s policy_call list \<Rightarrow> turn list list" where
  "policy_asks xs = concat (map (\<lambda>x. case x of PolicyAsk s0 s i d b ts \<Rightarrow> [ts] | PolicyTool s0 s i t b call \<Rightarrow> []) xs)"

definition policy_runs :: "'s policy_call list \<Rightarrow> nat" where
  "policy_runs xs = count_rows (\<lambda>x. case x of PolicyAsk s0 s i d b ts \<Rightarrow> False | PolicyTool s0 s i t b call \<Rightarrow> True) xs"

lemma policy_calls_simps [simp]: "policy_asks [] = []" "policy_runs [] = 0"
  "policy_asks (xs @ ys) = policy_asks xs @ policy_asks ys" "policy_runs (xs @ ys) = policy_runs xs + policy_runs ys"
  "policy_asks (PolicyAsk s0 s i d b ts # xs) = ts # policy_asks xs" "policy_asks (PolicyTool s0 s i t b call # xs) = policy_asks xs"
  "policy_runs (PolicyAsk s0 s i d b ts # xs) = policy_runs xs" "policy_runs (PolicyTool s0 s i t b call # xs) = Suc (policy_runs xs)"
  by (simp_all add: policy_asks_def policy_runs_def count_rows_def)

lemma ask_provider_one:
  assumes "ask_provider W ask a es job tools c r = (res, r')"
  obtains xs where "rn_calls r' = rn_calls r @ xs" "policy_asks xs = [] \<or> policy_asks xs = [co_turns c]" "policy_runs xs = 0"
    "\<And>c'. res = Inr c' \<Longrightarrow> length (co_calls c') \<le> 8"
proof -
  obtain name destination where pv: "policyProvider (pw_runtime W) (shift_faults 20 (flt (es 0))) (rn_store r) job a = (name, destination)"
    by fastforce
  show ?thesis
  proof (cases "\<not> may_release W (shift_env 30 (es 0)) (rn_store r) job (co_boundary c) ''provider'' destination \<or> name = []")
    case True
    with assms pv show ?thesis by (intro that [of "[]"]) (auto simp: ask_provider_def split: if_splits)
  next
    case False
    obtain bres r1 where b: "begin_effect W (es 1) (provider_effect W a job name destination tools c) c r = (bres, r1)" by fastforce
    show ?thesis
    proof (cases bres)
      case (Inl e)
      with assms pv False b begin_effect_calls [OF b] show ?thesis by (intro that [of "[]"]) (auto simp: ask_provider_def)
    next
      case (Inr i)
      obtain result u s2 where q: "ask (rn_store r1) (co_turns c) = (result, u, s2)" by (cases "ask (rn_store r1) (co_turns c)") auto
      let ?call = "PolicyAsk (rn_store r) (rn_store r1) i destination (co_boundary c) (co_turns c)"
      let ?r2 = "(run_db s2 [] r1)\<lparr>rn_calls := rn_calls r1 @ [?call]\<rparr>"
      obtain fine r3 where st: "settlePolicyEffect W (es 2) i u (result \<noteq> None) ?r2 = (fine, r3)" by fastforce
      have calls: "rn_calls r3 = rn_calls r @ [?call]" using settle_calls [OF st] begin_effect_calls [OF b] by simp
      have "r' = r3" "\<And>c'. res = Inr c' \<Longrightarrow> length (co_calls c') \<le> 8"
        using assms pv False b Inr q st by (auto simp: ask_provider_def Let_def split: option.splits if_splits bool.splits)
      with calls show ?thesis by (intro that [of "[?call]"]) auto
    qed
  qed
qed

lemma run_tool_one:
  assumes "run_tool W a es job t call checked c r = (res, r')"
  obtains xs where "rn_calls r' = rn_calls r @ xs" "policy_asks xs = []" "policy_runs xs \<le> 1"
proof -
  obtain bres r1 where b: "begin_effect W (es 1) (tool_effect W a job t (ca_arguments call) c) c r = (bres, r1)" by fastforce
  show ?thesis
  proof (cases bres)
    case (Inl e)
    with assms b begin_effect_calls [OF b] show ?thesis by (intro that [of "[]"]) (simp_all add: run_tool_def)
  next
    case (Inr i)
    obtain result s2 where x: "aiExecuteTool (pw_runtime W) (ticket_tools W a (es 3) job i (co_boundary c)) (aiLimits a) (flt (es 3) 0) (now (es 3)) job
        t call (rn_store r1) = (result, s2)" by fastforce
    let ?call = "PolicyTool checked (rn_store r1) i t (co_boundary c) call"
    let ?r2 = "(run_db s2 [] r1)\<lparr>rn_calls := rn_calls r1 @ [?call]\<rparr>"
    obtain fine r3 where st: "settlePolicyEffect W (es 2) i no_usage (result \<noteq> None) ?r2 = (fine, r3)" by fastforce
    have "rn_calls r3 = rn_calls r @ [?call]" using settle_calls [OF st] begin_effect_calls [OF b] by simp
    moreover have "r' = r3"
      using assms b Inr x st by (auto simp: run_tool_def Let_def split: option.splits if_splits bool.splits)
    ultimately show ?thesis by (intro that [of "[?call]"]) simp_all
  qed
qed

lemma policy_tool_one:
  assumes "policy_tool W a es job tools c r = (res, r')"
  obtains xs where "rn_calls r' = rn_calls r @ xs" "policy_asks xs = []" "policy_runs xs \<le> 1"
proof (cases "rn_calls r' = rn_calls r")
  case True
  then show ?thesis by (intro that [of "[]"]) simp_all
next
  case False
  with assms obtain t call checked c1 s1 ws where "run_tool W a es job t call checked c1 (run_db s1 ws r) = (res, r')"
    by (auto simp: policy_tool_def Let_def split: sum.splits if_splits option.splits prod.splits preflight.splits)
  then show ?thesis
  proof (rule run_tool_one)
    fix xs
    assume "rn_calls r' = rn_calls (run_db s1 ws r) @ xs" "policy_asks xs = []" "policy_runs xs \<le> 1"
    then show ?thesis by (intro that [of xs]) simp_all
  qed
qed

lemma policy_tools_count:
  "policy_tools W a es job tools k n c r = (res, r') \<Longrightarrow>
    \<exists>xs. rn_calls r' = rn_calls r @ xs \<and> policy_asks xs = [] \<and> policy_runs xs \<le> k"
proof (induction k arbitrary: n c r)
  case (Suc k)
  obtain x r1 where t: "policy_tool W a (es n) job tools c r = (x, r1)" by fastforce
  from policy_tool_one [OF t] obtain xs where xs: "rn_calls r1 = rn_calls r @ xs" "policy_asks xs = []" "policy_runs xs \<le> 1" .
  show ?case
  proof (cases x)
    case (Inl e)
    with Suc.prems t xs show ?thesis by auto
  next
    case (Inr c1)
    with Suc.prems t have "policy_tools W a es job tools k (Suc n) c1 r1 = (res, r')" by simp
    from Suc.IH [OF this] obtain ys where "rn_calls r' = rn_calls r1 @ ys" "policy_asks ys = []" "policy_runs ys \<le> k" by blast
    with xs show ?thesis by (intro exI [of _ "xs @ ys"]) simp
  qed
qed simp

definition within_context :: "ai_section \<Rightarrow> turn list \<Rightarrow> bool" where
  "within_context a ts \<longleftrightarrow> int (length (turns_json ts)) \<le> ai_context a"

lemma policy_loop_count:
  "policy_loop W ask a es job tools k n c r = (res, r') \<Longrightarrow> length (co_calls c) \<le> 8 \<Longrightarrow>
    \<exists>xs. rn_calls r' = rn_calls r @ xs \<and> length (policy_asks xs) \<le> k \<and> policy_runs xs \<le> 8 * k \<and> list_all (within_context a) (policy_asks xs)"
proof (induction k arbitrary: n c r)
  case (Suc k)
  show ?case
  proof (cases "\<not> aiEffectsAllowed (shift_faults 10 (flt (es n 0))) (rn_store r) job \<or> context_full a (co_turns c)")
    case True
    with Suc.prems show ?thesis by auto
  next
    case go: False
    then have small: "within_context a (co_turns c)" by (simp add: context_full_def within_context_def)
    let ?q = "if co_needed c then ask_provider W ask a (es n) job tools c r else (Inr c, r)"
    obtain x r1 where q: "?q = (x, r1)" by (cases ?q)
    have "\<exists>xs. rn_calls r1 = rn_calls r @ xs \<and> length (policy_asks xs) \<le> 1 \<and> policy_runs xs = 0 \<and> list_all (within_context a) (policy_asks xs)
        \<and> (\<forall>c'. x = Inr c' \<longrightarrow> length (co_calls c') \<le> 8)"
    proof (cases "co_needed c")
      case True
      with q have "ask_provider W ask a (es n) job tools c r = (x, r1)" by simp
      then show ?thesis
      proof (rule ask_provider_one)
        fix xs
        assume "rn_calls r1 = rn_calls r @ xs" "policy_asks xs = [] \<or> policy_asks xs = [co_turns c]" "policy_runs xs = 0"
          "\<And>c'. x = Inr c' \<Longrightarrow> length (co_calls c') \<le> 8"
        with small show ?thesis by (intro exI [of _ xs]) auto
      qed
    next
      case False
      with q Suc.prems(2) show ?thesis by auto
    qed
    then obtain xs where xs: "rn_calls r1 = rn_calls r @ xs" "length (policy_asks xs) \<le> 1" "policy_runs xs = 0"
      "list_all (within_context a) (policy_asks xs)" and few: "\<And>c'. x = Inr c' \<Longrightarrow> length (co_calls c') \<le> 8" by blast
    show ?thesis
    proof (cases x)
      case (Inl e)
      with Suc.prems(1) go q have "r' = r1" by (simp split: if_splits)
      with xs show ?thesis by (intro exI [of _ xs]) simp
    next
      case (Inr c1)
      let ?m = "length (co_calls c1) - nat (co_next c1)"
      obtain y r2 where t: "policy_tools W a es job tools ?m (Suc n) c1 r1 = (y, r2)" by fastforce
      from policy_tools_count [OF t] few [OF Inr] obtain ys where ys: "rn_calls r2 = rn_calls r1 @ ys" "policy_asks ys = []" "policy_runs ys \<le> 8"
        by fastforce
      show ?thesis
      proof (cases y)
        case (Inl e)
        with Suc.prems(1) go q Inr t have "r' = r2" by (simp add: Let_def split: if_splits)
        with xs ys show ?thesis by (intro exI [of _ "xs @ ys"]) simp
      next
        case (Inr c2)
        let ?c2 = "c2\<lparr>co_step := co_step c2 + 1, co_needed := True, co_calls := [], co_next := 0\<rparr>"
        from Suc.prems(1) go q \<open>x = Inr c1\<close> t Inr have "policy_loop W ask a es job tools k (Suc n + ?m) ?c2 r2 = (res, r')"
          by (simp add: Let_def split: if_splits)
        from Suc.IH [OF this] obtain zs where "rn_calls r' = rn_calls r2 @ zs" "length (policy_asks zs) \<le> k" "policy_runs zs \<le> 8 * k"
          "list_all (within_context a) (policy_asks zs)" by auto
        with xs ys show ?thesis by (intro exI [of _ "xs @ ys @ zs"]) simp
      qed
    qed
  qed
qed simp

lemma state_valid_facts: "state_valid a t v c \<Longrightarrow> 0 \<le> co_step c \<and> length (co_calls c) \<le> 8"
  by (simp add: state_valid_def)

lemma start_state_small:
  assumes "start_state W a env job turns s = Some c"
  shows "0 \<le> co_step c \<and> length (co_calls c) \<le> 8"
  using assms unfolding start_state_def
  by (auto split: option.splits prod.splits if_splits sum.splits dest: state_valid_facts) (simp_all add: fresh_state_def)

lemma policy_conversation_count:
  assumes "runAIPolicyConversation W a es job turns tools s = (res, r)"
  shows "length (policy_asks (rn_calls r)) \<le> nat (ai_steps a) \<and> policy_runs (rn_calls r) \<le> 8 * nat (ai_steps a)
    \<and> list_all (within_context a) (policy_asks (rn_calls r))"
proof -
  let ?r0 = "\<lparr>rn_store = s, rn_effects = [], rn_calls = []\<rparr>"
  consider "r = ?r0" | ask c where "start_state W a (es 0 0) job turns s = Some c"
      "policy_loop W ask a es job tools (nat (ai_steps a - co_step c)) 1 c ?r0 = (res, r)"
    using assms unfolding runAIPolicyConversation_def Let_def by (auto split: option.splits)
  then show ?thesis
  proof cases
    case 2
    from start_state_small [OF 2(1)] policy_loop_count [OF 2(2)] have "0 \<le> co_step c"
      "length (policy_asks (rn_calls r)) \<le> nat (ai_steps a - co_step c)" "policy_runs (rn_calls r) \<le> 8 * nat (ai_steps a - co_step c)"
      "list_all (within_context a) (policy_asks (rn_calls r))" by auto
    then show ?thesis by linarith
  qed simp
qed

subsection \<open>Every conversation\<close>

lemma direct_allowed: "call_allowed (direct_externals W) = call_allowed (pw_tools W)"
  by (simp add: fun_eq_iff call_allowed_def direct_externals_def split: external_call.split)

lemma shelf_dialogue:
  obtains r s1 s2 s3 s4 s5 where
    "aiConversationWith True shelf_world [] shelf_section (\<lambda>_ _. toy_env 1000 []) ''j1'' [] [shelf_tool] shelf_start = (Answer ''ab'', r, [])"
    "rn_calls r = [PolicyAsk shelf_start s1 (shelf_name 0) shelf_destination None [],
       PolicyTool s2 s3 (pe_id shelf_effect) shelf_tool None shelf_call,
       PolicyAsk s4 s5 (shelf_name 1) shelf_destination (Some shelf_boundary) (co_turns shelf_state3)]"
proof (rule shelf_conversation)
  fix r s1 s2 s3 s4 s5
  assume run: "runAIPolicyConversation shelf_world shelf_section (\<lambda>_ _. toy_env 1000 []) ''j1'' [] [shelf_tool] shelf_start = (Answer ''ab'', r)"
    and calls: "rn_calls r = [PolicyAsk shelf_start s1 (shelf_name 0) shelf_destination None [],
       PolicyTool s2 s3 (pe_id shelf_effect) shelf_tool None shelf_call,
       PolicyAsk s4 s5 (shelf_name 1) shelf_destination (Some shelf_boundary) (co_turns shelf_state3)]"
  have "finish_progress shelf_world (Answer ''ab'', r, []) = (Answer ''ab'', run_db (rn_store r) [] r, [])"
    by (simp add: finish_progress_def shelf_externals_def)
  with run shelf_policy(1) have
    "aiConversationWith True shelf_world [] shelf_section (\<lambda>_ _. toy_env 1000 []) ''j1'' [] [shelf_tool] shelf_start
      = (Answer ''ab'', run_db (rn_store r) [] r, [])" by (simp add: aiConversationWith_def)
  moreover have "rn_calls (run_db (rn_store r) [] r) = rn_calls r" by (rule run_db_calls)
  ultimately show ?thesis using calls by (intro that [of "run_db (rn_store r) [] r"]) simp_all
qed

text \<open>C12: Every call to a provider or a tool is made for a job that runs and whose source and assistant may still act in the chat at that
  moment; a tool is one the chat still grants, with arguments its schema accepts. Access that is revoked while the conversation is
  under way stops it before its next call. Under the policy each call has, besides, its own request: it was dispatched, out of a store
  in which the job ran and all could still act, for the hash that covers the destination, the turns, the tools and the arguments sent.
  (SHA-256 never gives an empty digest: the second hypothesis.)\<close>

theorem calls_stay_authorized:
  assumes "aiConversationWith installed W active a es job turns tools s = (end', r, tr)" "\<forall>b. p_sha256 (prim (pw_core W)) b \<noteq> []"
  shows "list_all (call_allowed (pw_tools W) job tools) tr \<and> list_all (has_ticket W a job tools) (rn_calls r)"
  using assms(1)
proof (cases rule: aiConversationWith_cases)
  case (policy e r1)
  from conversation_fine [OF policy(1)] assms(2) have "calls_fine W a job tools (rn_calls r)" by (simp add: policy(2) hashes_def)
  with policy(3) calls_fine_ticket show ?thesis by (auto simp: list_all_iff)
next
  case (direct result s')
  with conversation_trace [OF direct(1)] show ?thesis by (simp add: direct_allowed)
qed simp

theorem calls_stay_authorized_witness:
  "\<exists>r. aiConversationWith True shelf_world [] shelf_section (\<lambda>_ _. toy_env 1000 []) ''j1'' [] [shelf_tool] shelf_start = (Answer ''ab'', r, [])
     \<and> length (rn_calls r) = 3 \<and> list_all (has_ticket shelf_world shelf_section ''j1'' [shelf_tool]) (rn_calls r)"
proof (rule shelf_dialogue)
  fix r s1 s2 s3 s4 s5
  assume run: "aiConversationWith True shelf_world [] shelf_section (\<lambda>_ _. toy_env 1000 []) ''j1'' [] [shelf_tool] shelf_start = (Answer ''ab'', r, [])"
    and calls: "rn_calls r = [PolicyAsk shelf_start s1 (shelf_name 0) shelf_destination None [],
       PolicyTool s2 s3 (pe_id shelf_effect) shelf_tool None shelf_call,
       PolicyAsk s4 s5 (shelf_name 1) shelf_destination (Some shelf_boundary) (co_turns shelf_state3)]"
  have "\<forall>b. p_sha256 (prim (pw_core shelf_world)) b \<noteq> []" using shelf_digest(2) by simp
  from calls_stay_authorized [OF run this] run calls show ?thesis by (intro exI [of _ r]) simp
qed

text \<open>C27: A conversation, with the policy or without it, fresh or continued after an approval, ends after at most the configured number
  of questions to the provider and eight tool calls for each step, and no question is longer than the configured context.\<close>

theorem conversation_is_bounded:
  assumes "aiConversationWith installed W active a es job turns tools s = (end', r, tr)"
  shows "length (asks tr @ policy_asks (rn_calls r)) \<le> nat (ai_steps a) \<and> runs tr + policy_runs (rn_calls r) \<le> 8 * nat (ai_steps a)
    \<and> (\<forall>ts \<in> set (asks tr @ policy_asks (rn_calls r)). int (length (turns_json ts)) \<le> ai_context a)"
  using assms
proof (cases rule: aiConversationWith_cases)
  case (policy e r1)
  from policy_conversation_count [OF policy(1)] show ?thesis by (simp add: policy(2,3) list_all_iff within_context_def)
next
  case (direct result s')
  with conversation_trace [OF direct(1)] show ?thesis by simp
qed simp

theorem conversation_is_bounded_witness:
  "\<exists>r. aiConversationWith True shelf_world [] shelf_section (\<lambda>_ _. toy_env 1000 []) ''j1'' [] [shelf_tool] shelf_start = (Answer ''ab'', r, [])
     \<and> length (policy_asks (rn_calls r)) = 2 \<and> policy_runs (rn_calls r) = 1
     \<and> (\<forall>ts \<in> set (policy_asks (rn_calls r)). int (length (turns_json ts)) \<le> ai_context shelf_section)"
proof (rule shelf_dialogue)
  fix r s1 s2 s3 s4 s5
  assume run: "aiConversationWith True shelf_world [] shelf_section (\<lambda>_ _. toy_env 1000 []) ''j1'' [] [shelf_tool] shelf_start = (Answer ''ab'', r, [])"
    and calls: "rn_calls r = [PolicyAsk shelf_start s1 (shelf_name 0) shelf_destination None [],
       PolicyTool s2 s3 (pe_id shelf_effect) shelf_tool None shelf_call,
       PolicyAsk s4 s5 (shelf_name 1) shelf_destination (Some shelf_boundary) (co_turns shelf_state3)]"
  from conversation_is_bounded [OF run] run calls show ?thesis by (intro exI [of _ r]) simp
qed

end
