(* ===== verification/Spec2Isabelle.thy ===== *)
theory Spec2Isabelle
  imports AccessProperties MessagingProperties ModuleProperties RealtimeProperties FileProperties GroupProperties PlatformProperties
    VaultProperties ConfigProperties AssistantProperties ConversationProperties
begin

text \<open>
  QGramm is a self-hosted messaging server written in Go: users and their devices, direct and group
  chats, messages sealed per recipient, a journal of events per chat that clients replay over HTTP
  or a websocket, and optional modules compiled into the binary. This library models the server's
  core, its storage engine's use, and the modules, and proves what makes them correct.

  The parts of the program and the theories that model them.

  \<^item> \<open>Prelude\<close>: tables as lists of rows with the SQL statements the code uses (\<open>SELECT ... LIMIT 1\<close>,
    \<open>INSERT\<close>, \<open>INSERT OR IGNORE\<close>, upsert, \<open>UPDATE\<close>, \<open>DELETE\<close>), faults, replies, effects. \<open>Codec\<close>:
    \<open>encoding/hex\<close>, \<open>encoding/base64\<close>, \<open>encoding/json\<close> and \<open>strconv\<close> as far as the code uses them.
  \<^item> \<open>CryptoEnc\<close>: \<open>internal/cryptoenc/engine.go\<close>. AES-GCM, HPKE and SHA-256 are a record of functions
    (\<open>prims\<close>); their laws (\<open>gcm_opens\<close>, \<open>gcm_rejects\<close>, \<open>hpke_opens\<close>) are hypotheses where they are used.
  \<^item> \<open>Types\<close>, \<open>Store\<close>, \<open>Upkeep\<close>, \<open>Integrity\<close>: \<open>internal/core/types.go\<close> and \<open>store.go\<close>: the tables of the schema,
    migrations, the compiled manifest, \<open>Append\<close>, retention, and the integrity invariant \<open>db_ok\<close>.
  \<^item> \<open>Auth\<close>, \<open>Management\<close>: \<open>auth.go\<close> and \<open>management.go\<close>: tokens, tickets, users, devices, chats, members.
  \<^item> \<open>Messages\<close>, \<open>Replay\<close>, \<open>Writer\<close>, \<open>Sending\<close>: \<open>messages.go\<close> and \<open>writer_queue.go\<close>: preparing, persisting
    and projecting messages, history, replay, receipts, the write queue and its batches.
  \<^item> \<open>Realtime\<close>, \<open>Sweeps\<close>, \<open>Admission\<close>: \<open>realtime.go\<close>, \<open>sharedreplay.go\<close>, \<open>connection_auth.go\<close>,
    \<open>admission.go\<close>: connections, subscriptions, wake-ups, the two sweeps, the admission of requests.
  \<^item> \<open>Mutations\<close>, \<open>Calls\<close>: \<open>internal/modules\<close>: edit, delete, reactions, reply, forward, groups, calls.
  \<^item> \<open>Files\<close>, \<open>Uploads\<close>, \<open>FileSweep\<close>: \<open>files.go\<close>: uploads in chunks, their quota and cleanup, and their
    publication with messages; the invariant of the stored files and what the cleanup leaves.
  \<^item> \<open>E2EE\<close>, \<open>GroupRelay\<close>: \<open>e2ee.go\<close>: the relay of MLS chats, with the MLS library as a record of functions: key
    packages, commits, their confirmation; the chain of a chat's commits over all runs.
  \<^item> \<open>Vault\<close>, \<open>Retrieval\<close>, \<open>VaultStore\<close>: \<open>internal/aivault/storage.go\<close>: the encrypted resources, documents and edges
    of AI retrieval with their quotas, the search for the best documents, the traversal of the graph, and the
    invariant of the stored rows. \<open>Grants\<close>: \<open>internal/aivault/grant.go\<close>: signed grants for one retrieval.
  \<^item> \<open>Capacity\<close>, \<open>Settings\<close>, \<open>Validation\<close>, \<open>Effective\<close>: \<open>internal/config\<close>: presets, the resolution of AI bots, every check of
    \<open>Config.Validate\<close>, the derived limits, the effective configuration with its sources, and the names of secrets.
  \<^item> \<open>Assistants\<close>, \<open>Jobs\<close>, \<open>Schema\<close>, \<open>Conversation\<close>, \<open>Participants\<close>: \<open>internal/modules/ai.go\<close>, \<open>ai_schema.go\<close>
    and the limits of \<open>ai_network.go\<close>: the jobs queued with messages, the worker's rounds, the loop between
    provider and tools, the arguments' schemas, the completion and cancellation of a job, restart.
    \<open>Agents\<close>, \<open>Tasks\<close>: \<open>ai_participants.go\<close>: named agents and their tasks.
  \<^item> \<open>Policy\<close>, \<open>Approvals\<close>, \<open>Approving\<close>: \<open>ai_policy.go\<close>: external effects under a budget and, where required,
    under a signed approval: reserve, wait, approve, dispatch, settle, expire, restart.
    \<open>Budget\<close>, \<open>Spending\<close>: the invariant that the daily accounts are the sums of their ledgers, over all runs of
    the operations that touch them (\<open>budget_step\<close>). \<open>Lifecycle\<close>: the jobs under all operations (\<open>life_step\<close>).
    \<open>Usage\<close>: \<open>ai_policy_usage.go\<close>: the counters that providers report.
  \<^item> \<open>VaultGrants\<close>, \<open>Boundary\<close>: \<open>ai_storage.go\<close>: the vault's administration, the grants by which one approved effect
    reads one resource, their single use, and the boundary around what was retrieved. \<open>PolicyRun\<close>:
    \<open>ai_policy_runtime.go\<close>: the conversation in which every call to the outside is an effect with a ticket.
    \<open>Dialogue\<close>: \<open>aiConversationWith\<close>, the entry of every conversation, with the policy or without it.
  \<^item> \<open>System\<close>: the operations of the core, on messages, reactions and calls, on one store, as a transition system, for any
    installed hooks that write tables of their own. \<open>Platform\<close>: the same with the operations of files and of the MLS relay. The
    operations of the vault and of the assistants are not steps of these two; they have their own (\<open>vault_step\<close>, \<open>budget_step\<close>,
    \<open>life_step\<close>, \<open>storage_step\<close>), over the store that their modules extend.
  \<^item> \<open>Fixture\<close> is a small installation on which every property with hypotheses is instantiated; the
    properties are in \<open>MessagingProperties\<close>, \<open>AccessProperties\<close>, \<open>ModuleProperties\<close>,
    \<open>RealtimeProperties\<close>, \<open>FileProperties\<close>, \<open>GroupProperties\<close>, \<open>VaultProperties\<close>, \<open>ConfigProperties\<close>
    and, over the installation of \<open>AssistantFixture\<close>, in \<open>AssistantProperties\<close>. \<open>PlatformProperties\<close> has the global invariant and
    the finality of revocation. \<open>StorageProperties\<close> and \<open>RunProperties\<close> have the theorems on storage grants (one read per grant, what
    a read needs, where retrieved text may go), and \<open>ConversationProperties\<close> those on every conversation, over the installation of
    \<open>ShelfFixture\<close>.

  How the model reads. A handler is a function from an environment, the store and the decoded request
  to a reply, the effects on connections (\<open>Wake\<close>, \<open>DisconnectUser\<close>, \<open>DisconnectDevice\<close>) and the store
  after the transaction committed or rolled back. The environment holds what a call draws from outside: the
  clock, a fresh identifier, randomness, and which of its numbered storage statements fail, so that
  every error return of the code is a branch. A module's hooks are the functions it installs in
  the \<open>core\<close> record; modules extend the record of tables. Concurrency is a transition relation:
  \<open>writer_step\<close> for the write queue and its clients, \<open>hub_step\<close> for connections, \<open>gate_step\<close> for
  admission, \<open>sys_step\<close> and \<open>platform_step\<close> for the store, \<open>budget_step\<close> and \<open>life_step\<close> for the assistants; each of their steps is one critical section or transaction.

  Contracts are locales, interpreted on the model: \<open>batched_job\<close> (what the writer asks of a job: then
  a batch is a serial run) on message jobs, \<open>mutation_body\<close> (what \<open>mutate\<close> asks of its body) on
  edits, deletions and reactions, \<open>prepare_hook\<close>, \<open>tx_hook\<close>, \<open>project_hook\<close>, \<open>delete_hook\<close>
  (what the core asks of modules) on the hooks of the modules, \<open>module_tx_hook\<close> and \<open>module_delete_hook\<close> (which extend two of them: what
  modules owe each other) on the same hooks, and the contracts of the tables and of the journal in \<open>Prelude\<close> and \<open>Store\<close>.

  Bounds. Loops of the code that are bounded by constants are recursions over that bound (ten pages of a
  hundred events in a flush); the retention loop is a terminating function, because every full batch
  removes rows. Identifiers and counters that the code never lets overflow are \<open>int\<close>; the admission
  counters are 64-bit words.

  Not modelled: reading files, certificates and secrets, the routing table, logging, prepared
  statement caching, checkpoint scheduling and benchmarks; parsing of TOML and JSON (a decoded body
  is the input, with the malformed ones as values of \<open>body\<close>); the clients of AI providers and tools, which
  conversations call through parameters, the streaming of progress, the MLS participant of an assistant;
  in the files module, other transactions between the statements of one handler; the micro-safer sidecar and the command line tools.
\<close>

end
